(* ===== verification/Prelude.thy ===== *)
theory Prelude
  imports Main "HOL-Library.Word"
begin

text \<open>
  Shared vocabulary of the development: JavaScript results (a thrown error or a value), the
  state-and-exception monad in which the stateful methods are written, Node buffers as byte lists,
  the decimal and hexadecimal renderings the code builds its keys and encodings from, and the
  generic lemmas on lists, digits and maps that the component theories use.
\<close>

section \<open>Collections of simplification rules\<close>

named_theorems js_simps \<open>unfolding rules of the state-and-exception monad\<close>
named_theorems codec_simps \<open>read-back equations of the byte codecs\<close>
named_theorems key_simps \<open>distinctness of database and cache keys\<close>

section \<open>Results, exceptions, state\<close>

text \<open>What a JavaScript \<open>throw\<close> carries, as far as the code distinguishes it: \<open>Error(msg)\<close>, and the
  \<open>RangeError\<close> and \<open>TypeError\<close> of the Node buffer methods.\<close>

datatype js_error = Error string | RangeError | TypeError

type_synonym 'a result = "js_error + 'a"

text \<open>A method of an object with state \<open>'s\<close>. The state survives a throw: mutations made before the
  exception remain, as in JavaScript.\<close>

type_synonym ('s, 'a) js = "'s \<Rightarrow> 'a result \<times> 's"

definition rbind :: "'a result \<Rightarrow> ('a \<Rightarrow> 'b result) \<Rightarrow> 'b result" where
  "rbind r f = (case r of Inl e \<Rightarrow> Inl e | Inr x \<Rightarrow> f x)"

definition jreturn :: "'a \<Rightarrow> ('s, 'a) js" where
  "jreturn x s = (Inr x, s)"

definition jthrow :: "js_error \<Rightarrow> ('s, 'a) js" where
  "jthrow e s = (Inl e, s)"

definition jbind :: "('s, 'a) js \<Rightarrow> ('a \<Rightarrow> ('s, 'b) js) \<Rightarrow> ('s, 'b) js" where
  "jbind m f s = (case m s of (Inl e, s') \<Rightarrow> (Inl e, s') | (Inr x, s') \<Rightarrow> f x s')"

definition jget :: "('s, 's) js" where
  "jget s = (Inr s, s)"

definition jmodify :: "('s \<Rightarrow> 's) \<Rightarrow> ('s, unit) js" where
  "jmodify f s = (Inr (), f s)"

definition jlift :: "'a result \<Rightarrow> ('s, 'a) js" where
  "jlift r s = (r, s)"

text \<open>\<open>for (const x of xs) await f(x)\<close>: stops at the first throw.\<close>

fun jfor :: "('a \<Rightarrow> ('s, unit) js) \<Rightarrow> 'a list \<Rightarrow> ('s, unit) js" where
  "jfor f [] = jreturn ()"
| "jfor f (x # xs) = jbind (f x) (\<lambda>_. jfor f xs)"

text \<open>\<open>Array.from({length: n}, () => m())\<close>: collects the results of \<open>n\<close> runs.\<close>

fun jrepeat :: "nat \<Rightarrow> ('s, 'a) js \<Rightarrow> ('s, 'a list) js" where
  "jrepeat 0 m = jreturn []"
| "jrepeat (Suc n) m = jbind m (\<lambda>x. jbind (jrepeat n m) (\<lambda>xs. jreturn (x # xs)))"

text \<open>\<open>xs.map(f)\<close> where \<open>f\<close> may throw.\<close>

fun rtraverse :: "('a \<Rightarrow> 'b result) \<Rightarrow> 'a list \<Rightarrow> 'b list result" where
  "rtraverse f [] = Inr []"
| "rtraverse f (x # xs) = rbind (f x) (\<lambda>y. rbind (rtraverse f xs) (\<lambda>ys. Inr (y # ys)))"

lemma rbind_simps [simp]:
  "rbind (Inl e) f = Inl e"
  "rbind (Inr x) f = f x"
  by (simp_all add: rbind_def)

lemma rbind_eq_Inr [simp]: "rbind r f = Inr y \<longleftrightarrow> (\<exists>x. r = Inr x \<and> f x = Inr y)"
  by (cases r) (simp_all add: rbind_def)

lemma rtraverse_Inr: "rtraverse f xs = Inr ys \<longleftrightarrow> list_all2 (\<lambda>x y. f x = Inr y) xs ys"
  by (induction xs arbitrary: ys) (auto simp: list_all2_Cons1)

lemma rtraverse_total: "\<forall>x \<in> set xs. \<exists>y. f x = Inr y \<Longrightarrow> \<exists>ys. rtraverse f xs = Inr ys"
  by (induction xs) auto

lemma jreturn_run [js_simps, simp]: "jreturn x s = (Inr x, s)"
  by (simp add: jreturn_def)

lemma jthrow_run [js_simps, simp]: "jthrow e s = (Inl e, s)"
  by (simp add: jthrow_def)

lemma jget_run [js_simps, simp]: "jget s = (Inr s, s)"
  by (simp add: jget_def)

lemma jmodify_run [js_simps, simp]: "jmodify f s = (Inr (), f s)"
  by (simp add: jmodify_def)

lemma jlift_run [js_simps, simp]: "jlift r s = (r, s)"
  by (simp add: jlift_def)

lemma jbind_Inr [js_simps]: "m s = (Inr x, s') \<Longrightarrow> jbind m f s = f x s'"
  by (simp add: jbind_def)

lemma jbind_Inl [js_simps]: "m s = (Inl e, s') \<Longrightarrow> jbind m f s = (Inl e, s')"
  by (simp add: jbind_def)

lemma jbind_return [simp]: "jbind (jreturn x) f = f x"
  by (rule ext) (simp add: jbind_def)

lemma jbind_eq_Inr:
  "jbind m f s = (Inr y, t) \<longleftrightarrow> (\<exists>x s'. m s = (Inr x, s') \<and> f x s' = (Inr y, t))"
  by (auto simp: jbind_def split: prod.splits sum.splits)

lemma jfor_map: "jfor f (map g xs) = jfor (f \<circ> g) xs"
  by (induction xs) simp_all

lemma jfor_append: "jfor f (xs @ ys) = jbind (jfor f xs) (\<lambda>_. jfor f ys)"
proof (rule ext)
  fix s
  show "jfor f (xs @ ys) s = jbind (jfor f xs) (\<lambda>_. jfor f ys) s"
    by (induction xs arbitrary: s) (simp_all add: jbind_def split: prod.splits sum.splits)
qed

text \<open>An invariant that one run of the body keeps is kept by the whole loop.\<close>

lemma jfor_invariant:
  assumes "\<And>x s s' r. x \<in> set xs \<Longrightarrow> P s \<Longrightarrow> f x s = (r, s') \<Longrightarrow> P s'"
    and "P s" and "jfor f xs s = (r, s')"
  shows "P s'"
  using assms
proof (induction xs arbitrary: s)
  case Nil
  then show ?case by simp
next
  case (Cons x xs)
  obtain r1 s1 where step: "f x s = (r1, s1)" by (cases "f x s") auto
  have P1: "P s1" by (rule Cons.prems(1)[OF _ Cons.prems(2) step]) simp
  show ?case
  proof (cases r1)
    case (Inl e)
    with step Cons.prems(3) have "s' = s1" by (simp add: jbind_def)
    with P1 show ?thesis by simp
  next
    case (Inr u)
    with step Cons.prems(3) have rest: "jfor f xs s1 = (r, s')" by (simp add: jbind_def)
    show ?thesis
      by (rule Cons.IH[OF _ P1 rest]) (rule Cons.prems(1), auto)
  qed
qed

section \<open>State predicates kept by methods\<close>

definition preserves :: "('s \<Rightarrow> bool) \<Rightarrow> ('s, 'a) js \<Rightarrow> bool" where
  "preserves P m \<longleftrightarrow> (\<forall>s. P s \<longrightarrow> P (snd (m s)))"

lemma preservesD: "preserves P m \<Longrightarrow> P s \<Longrightarrow> P (snd (m s))"
  by (simp add: preserves_def)

lemma preserves_jbind [intro]: "preserves P m \<Longrightarrow> (\<And>x. preserves P (f x)) \<Longrightarrow> preserves P (jbind m f)"
  unfolding preserves_def jbind_def by (auto split: prod.splits sum.splits)

lemma preserves_simps [intro, simp]:
  "preserves P (jreturn x)" "preserves P (jthrow e)" "preserves P (jlift r)" "preserves P jget"
  by (simp_all add: preserves_def)

lemma preserves_jmodify [intro]: "(\<And>s. P s \<Longrightarrow> P (f s)) \<Longrightarrow> preserves P (jmodify f)"
  by (simp add: preserves_def)

lemma preserves_jfor [intro]: "(\<And>x. preserves P (f x)) \<Longrightarrow> preserves P (jfor f xs)"
  by (induction xs) (simp_all add: preserves_jbind)

section \<open>Computations that may not end\<close>

text \<open>Loops and calls whose end is not certain have a bound; \<open>None\<close> says that they have not come to an end within it.\<close>

type_synonym ('s, 'a) ojs = "'s \<Rightarrow> ('a result \<times> 's) option"

definition oreturn :: "'a \<Rightarrow> ('s, 'a) ojs" where
  "oreturn x s = Some (Inr x, s)"

definition olift :: "('s, 'a) js \<Rightarrow> ('s, 'a) ojs" where
  "olift m s = Some (m s)"

definition obind :: "('s, 'a) ojs \<Rightarrow> ('a \<Rightarrow> ('s, 'b) ojs) \<Rightarrow> ('s, 'b) ojs" where
  "obind m f s = (case m s of None \<Rightarrow> None | Some (Inl e, s') \<Rightarrow> Some (Inl e, s') | Some (Inr x, s') \<Rightarrow> f x s')"

lemma oreturn_run [simp]: "oreturn x s = Some (Inr x, s)"
  by (simp add: oreturn_def)

lemma olift_run [simp]: "olift m s = Some (m s)"
  by (simp add: olift_def)

lemma obind_eq_Inr:
  "obind m f s = Some (Inr y, t) \<longleftrightarrow> (\<exists>x s'. m s = Some (Inr x, s') \<and> f x s' = Some (Inr y, t))"
  by (auto simp: obind_def split: option.splits sum.splits)

lemma obind_assoc: "obind (obind m f) g s = obind m (\<lambda>x. obind (f x) g) s"
  by (auto simp: obind_def split: option.splits sum.splits)

section \<open>Buffers\<close>

type_synonym byte = "8 word"
type_synonym buffer = "byte list"

text \<open>\<open>buf.subarray(i, j)\<close> and \<open>buf.slice(i, j)\<close> with \<open>0 \<le> i\<close>: indices beyond the end are clamped.\<close>

definition subarray :: "nat \<Rightarrow> nat \<Rightarrow> 'a list \<Rightarrow> 'a list" where
  "subarray i j xs = take (j - i) (drop i xs)"

lemma subarray_whole [simp]: "subarray 0 (length xs) xs = xs"
  by (simp add: subarray_def)

lemma length_subarray: "length (subarray i j xs) = min (j - i) (length xs - i)"
  by (simp add: subarray_def)

lemma subarray_append_right:
  "subarray (length xs + i) (length xs + j) (xs @ ys) = subarray i j ys"
  by (simp add: subarray_def)

lemma subarray_prefix: "subarray (length xs) (length xs + length ys) (xs @ ys @ zs) = ys"
  by (simp add: subarray_def)

section \<open>Digits\<close>

text \<open>\<open>n.toString(base)\<close> of a non-negative integer, most significant digit first.\<close>

definition digit_char :: "nat \<Rightarrow> char" where
  "digit_char d = ''0123456789abcdef'' ! d"

fun digits_of :: "nat \<Rightarrow> nat \<Rightarrow> nat list" where
  "digits_of b n = (if b < 2 \<or> n < b then [n] else digits_of b (n div b) @ [n mod b])"

declare digits_of.simps [simp del]

definition nat_str :: "nat \<Rightarrow> nat \<Rightarrow> string" where
  "nat_str b n = map digit_char (digits_of b n)"

text \<open>Template literals \<open>`${i}`\<close> render integers in base ten with a leading minus sign.\<close>

definition int_str :: "nat \<Rightarrow> int \<Rightarrow> string" where
  "int_str b i = (if i < 0 then ''-'' @ nat_str b (nat (- i)) else nat_str b (nat i))"

abbreviation dec :: "int \<Rightarrow> string" where
  "dec \<equiv> int_str 10"

definition digits_val :: "nat \<Rightarrow> nat list \<Rightarrow> nat" where
  "digits_val b ds = foldl (\<lambda>a d. b * a + d) 0 ds"

lemma digits_val_Nil [simp]: "digits_val b [] = 0"
  by (simp add: digits_val_def)

lemma digits_val_snoc [simp]: "digits_val b (ds @ [d]) = b * digits_val b ds + d"
  by (simp add: digits_val_def)

lemma digits_val_append:
  "digits_val b (ds @ es) = digits_val b ds * b ^ length es + digits_val b es"
proof (induction es rule: rev_induct)
  case (snoc e es)
  have "digits_val b (ds @ es @ [e]) = b * digits_val b (ds @ es) + e"
    using digits_val_snoc[of b "ds @ es" e] by simp
  with snoc show ?case by (simp add: algebra_simps)
qed simp

lemma digits_val_Cons: "digits_val b (d # ds) = d * b ^ length ds + digits_val b ds"
  using digits_val_append[of b "[d]" ds] by (simp add: digits_val_def)

lemma digits_val_less:
  "0 < b \<Longrightarrow> (\<And>d. d \<in> set ds \<Longrightarrow> d < b) \<Longrightarrow> digits_val b ds < b ^ length ds"
proof (induction ds)
  case (Cons d ds)
  have ih: "digits_val b ds < b ^ length ds" and "d < b" using Cons by auto
  then have "d * b ^ length ds + digits_val b ds < (d + 1) * b ^ length ds"
    by (simp add: algebra_simps)
  also have "\<dots> \<le> b * b ^ length ds" using \<open>d < b\<close> by (intro mult_le_mono) auto
  finally show ?case by (simp add: digits_val_Cons)
qed simp

lemma digits_val_of: "2 \<le> b \<Longrightarrow> digits_val b (digits_of b n) = n"
proof (induction b n rule: digits_of.induct)
  case (1 b n)
  show ?case
  proof (cases "n < b")
    case True
    then show ?thesis by (subst digits_of.simps) (simp add: digits_val_def)
  next
    case False
    with 1 have "digits_val b (digits_of b (n div b)) = n div b" by auto
    with False 1 show ?thesis by (subst digits_of.simps) auto
  qed
qed

lemma digits_of_less: "2 \<le> b \<Longrightarrow> d \<in> set (digits_of b n) \<Longrightarrow> d < b"
proof (induction b n rule: digits_of.induct)
  case (1 b n)
  show ?case
  proof (cases "n < b")
    case True
    with 1 show ?thesis by (subst (asm) digits_of.simps) auto
  next
    case False
    with "1.prems" have "d \<in> set (digits_of b (n div b)) \<or> d = n mod b"
      by (auto simp: digits_of.simps[of b n])
    with 1 False show ?thesis by auto
  qed
qed

lemma digits_of_inject: "2 \<le> b \<Longrightarrow> digits_of b m = digits_of b n \<longleftrightarrow> m = n"
  by (metis digits_val_of)

lemma digits_of_nonempty [simp]: "digits_of b n \<noteq> []"
  by (subst digits_of.simps) simp

lemma length_digits_of_le:
  "2 \<le> b \<Longrightarrow> n < b ^ k \<Longrightarrow> 0 < k \<Longrightarrow> length (digits_of b n) \<le> k"
proof (induction b n arbitrary: k rule: digits_of.induct)
  case (1 b n)
  show ?case
  proof (cases "n < b")
    case True
    with 1 show ?thesis by (subst digits_of.simps) auto
  next
    case False
    with 1 obtain j where k: "k = Suc j" by (cases k) auto
    have "n div b < b ^ j" using 1 k by (simp add: less_mult_imp_div_less mult.commute)
    moreover have "0 < j" using False 1 k by (cases j) auto
    ultimately have "length (digits_of b (n div b)) \<le> j" using 1 False by auto
    with False 1 k show ?thesis by (subst digits_of.simps) auto
  qed
qed

lemma length_digits_of_gr:
  assumes "2 \<le> b" and "b ^ k \<le> n"
  shows "k < length (digits_of b n)"
proof (rule ccontr)
  assume "\<not> k < length (digits_of b n)"
  then have "b ^ length (digits_of b n) \<le> b ^ k" using assms by (intro power_increasing) auto
  moreover have "digits_val b (digits_of b n) < b ^ length (digits_of b n)"
    using assms by (intro digits_val_less) (auto intro: digits_of_less)
  ultimately show False using assms digits_val_of[OF assms(1), of n] by linarith
qed

lemma digit_char_inj: "inj_on digit_char {..<16}"
proof (rule inj_onI)
  fix x y :: nat
  assume x: "x \<in> {..<16}" and y: "y \<in> {..<16}" and eq: "digit_char x = digit_char y"
  have "distinct ''0123456789abcdef''" by simp
  moreover have "length ''0123456789abcdef'' = 16" by simp
  ultimately show "x = y"
    using x y eq by (metis digit_char_def lessThan_iff nth_eq_iff_index_eq)
qed

lemma digit_char_in: "d < 16 \<Longrightarrow> digit_char d \<in> set ''0123456789abcdef''"
proof -
  assume "d < 16"
  then have "d < length ''0123456789abcdef''" by simp
  then show ?thesis unfolding digit_char_def by (rule nth_mem)
qed

lemma nat_str_chars:
  assumes "2 \<le> b" "b \<le> 16" "c \<in> set (nat_str b n)"
  shows "c \<in> set ''0123456789abcdef''"
proof -
  from assms(3) obtain d where "d \<in> set (digits_of b n)" and c: "c = digit_char d"
    by (auto simp: nat_str_def)
  then have "d < 16" using digits_of_less[OF assms(1)] assms(2) by fastforce
  with c show ?thesis using digit_char_in by simp
qed

lemma nat_str_inject:
  assumes "2 \<le> b" "b \<le> 16"
  shows "nat_str b m = nat_str b n \<longleftrightarrow> m = n"
proof
  assume "nat_str b m = nat_str b n"
  moreover have "inj_on digit_char (set (digits_of b m) \<union> set (digits_of b n))"
    by (rule inj_on_subset[OF digit_char_inj]) (use assms digits_of_less in fastforce)
  ultimately have "digits_of b m = digits_of b n"
    unfolding nat_str_def by (simp add: inj_on_map_eq_map)
  with assms show "m = n" by (simp add: digits_of_inject)
qed simp

lemma nat_str_nonempty [simp]: "nat_str b n \<noteq> []"
  by (simp add: nat_str_def)

lemma nat_str_not_sign:
  assumes "2 \<le> b" "b \<le> 16"
  shows "nat_str b n \<noteq> CHR ''-'' # s"
proof
  assume "nat_str b n = CHR ''-'' # s"
  then have "CHR ''-'' \<in> set (nat_str b n)" by simp
  then have "CHR ''-'' \<in> set ''0123456789abcdef''" by (rule nat_str_chars[OF assms])
  then show False by simp
qed

lemma int_str_inject:
  assumes "2 \<le> b" "b \<le> 16"
  shows "int_str b i = int_str b j \<longleftrightarrow> i = j"
  using nat_str_not_sign[OF assms] nat_str_not_sign[OF assms, symmetric]
  by (auto simp: int_str_def nat_str_inject[OF assms])

lemma dec_inject [simp]: "dec i = dec j \<longleftrightarrow> i = j"
  by (rule int_str_inject) simp_all

lemma dec_nonempty [simp]: "dec i \<noteq> []"
  by (simp add: int_str_def)

lemma dec_chars:
  assumes "c \<in> set (dec i)"
  shows "c \<in> insert (CHR ''-'') (set ''0123456789abcdef'')"
proof -
  have "c = CHR ''-'' \<or> c \<in> set (nat_str 10 (nat i)) \<or> c \<in> set (nat_str 10 (nat (- i)))"
    using assms by (auto simp: int_str_def split: if_splits)
  moreover have "c \<in> set (nat_str 10 n) \<Longrightarrow> c \<in> set ''0123456789abcdef''" for n
    by (rule nat_str_chars) simp_all
  ultimately show ?thesis by blast
qed

lemma dec_no_colon: "CHR '':'' \<notin> set (dec i)"
proof
  assume "CHR '':'' \<in> set (dec i)"
  then have "CHR '':'' \<in> insert (CHR ''-'') (set ''0123456789abcdef'')" by (rule dec_chars)
  then show False by simp
qed

text \<open>Two strings that agree up to their first separator agree on both parts.\<close>

lemma append_sep_inject:
  assumes "c \<notin> set xs" "c \<notin> set xs'"
  shows "xs @ c # ys = xs' @ c # ys' \<longleftrightarrow> xs = xs' \<and> ys = ys'"
  using assms
proof (induction xs arbitrary: xs')
  case Nil
  then show ?case by (cases xs') auto
next
  case (Cons x xs)
  then show ?case by (cases xs') auto
qed

section \<open>Association lists\<close>

lemma map_of_rev_distinct:
  assumes "distinct (map fst xs)"
  shows "map_of (rev xs) = map_of xs"
proof
  fix k
  have "distinct (map fst (rev xs))" using assms by (simp add: rev_map[symmetric])
  then have "map_of (rev xs) k = Some v \<longleftrightarrow> map_of xs k = Some v" for v
    using assms by (simp add: map_of_eq_Some_iff)
  then show "map_of (rev xs) k = map_of xs k" by (metis option.exhaust)
qed

section \<open>State machines\<close>

text \<open>A transition system with an initial state and an invariant its steps keep: the invariant holds in every
  reachable state.\<close>

locale state_machine =
  fixes init :: 's
    and step :: "'s \<Rightarrow> 's \<Rightarrow> bool"
    and inv :: "'s \<Rightarrow> bool"
  assumes init_inv: "inv init"
    and step_inv: "inv s \<Longrightarrow> step s s' \<Longrightarrow> inv s'"
begin

lemma steps_inv: "step\<^sup>*\<^sup>* s s' \<Longrightarrow> inv s \<Longrightarrow> inv s'"
  by (induction rule: rtranclp_induct) (auto intro: step_inv)

lemma reachable_inv: "step\<^sup>*\<^sup>* init s \<Longrightarrow> inv s"
  using steps_inv init_inv by blast

end

end
