(* ===== verification/BigintBuffer.thy ===== *)
theory BigintBuffer
  imports Prelude
begin

text \<open>
  Big integers as byte buffers: \<^verbatim>\<open>foundation/src/bigint-buffer/index.ts\<close>. The code goes through
  hexadecimal strings (\<open>toString(16)\<close>, \<open>padStart\<close>, \<open>slice\<close>, \<open>Buffer.from(.., 'hex')\<close>) and so does the
  model. The reference semantics is \<open>be_val\<close>, the value of a buffer as a base 256 number; the lemmas
  relate every conversion to it, for arguments that fit the width and for those that do not.
\<close>

section \<open>Node's hexadecimal codec\<close>

definition hex_val :: "char \<Rightarrow> nat option" where
  "hex_val c = (let n = of_char c :: nat in
     if 48 \<le> n \<and> n \<le> 57 then Some (n - 48)
     else if 97 \<le> n \<and> n \<le> 102 then Some (n - 87)
     else if 65 \<le> n \<and> n \<le> 70 then Some (n - 55)
     else None)"

text \<open>\<open>Buffer.from(s, 'hex')\<close>: pairs of digits, stopping at the first pair that is not hexadecimal and
  dropping an odd last digit.\<close>

fun buf_from_hex :: "string \<Rightarrow> buffer" where
  "buf_from_hex (a # b # s) =
     (case (hex_val a, hex_val b) of
        (Some x, Some y) \<Rightarrow> of_nat (16 * x + y) # buf_from_hex s
      | _ \<Rightarrow> [])"
| "buf_from_hex s = []"

text \<open>\<open>buf.toString('hex')\<close>\<close>

definition buf_to_hex :: "buffer \<Rightarrow> string" where
  "buf_to_hex bs = concat (map (\<lambda>b. [digit_char (unat b div 16), digit_char (unat b mod 16)]) bs)"

text \<open>\<open>BigInt('0x' + s)\<close> for a string of hexadecimal digits, which \<open>buf.toString('hex')\<close> always is.\<close>

definition hex_number :: "string \<Rightarrow> int" where
  "hex_number s = int (digits_val 16 (map (\<lambda>c. case hex_val c of Some d \<Rightarrow> d | None \<Rightarrow> 0) s))"

definition padStart :: "nat \<Rightarrow> char \<Rightarrow> string \<Rightarrow> string" where
  "padStart n c s = replicate (n - length s) c @ s"

section \<open>The conversions\<close>

definition toBigIntLE :: "buffer \<Rightarrow> int" where
  "toBigIntLE buf = (let hex = buf_to_hex (rev buf) in if length hex = 0 then 0 else hex_number hex)"

definition toBigIntBE :: "buffer \<Rightarrow> int" where
  "toBigIntBE buf = (let hex = buf_to_hex buf in if length hex = 0 then 0 else hex_number hex)"

definition toBufferLE :: "int \<Rightarrow> nat \<Rightarrow> buffer" where
  "toBufferLE num width =
     (let hex = int_str 16 num;
          buffer = buf_from_hex (take (width * 2) (padStart (width * 2) (CHR ''0'') hex))
      in rev buffer)"

definition toBufferBE :: "int \<Rightarrow> nat \<Rightarrow> buffer result" where
  "toBufferBE num width =
     (let hex = int_str 16 num;
          buffer = buf_from_hex (take (width * 2) (padStart (width * 2) (CHR ''0'') hex))
      in if length buffer > width
         then Inl (Error (''Number '' @ int_str 16 num @ '' does not fit in '' @ dec (int width)))
         else Inr buffer)"

definition toHex :: "int \<Rightarrow> bool \<Rightarrow> string" where
  "toHex num padTo32 =
     (let str = int_str 16 num;
          targetLen = (if length str mod 2 = 0 then length str else length str + 1);
          paddedStr = padStart (if padTo32 then 64 else targetLen) (CHR ''0'') str
      in ''0x'' @ paddedStr)"

section \<open>Reference semantics\<close>

definition be_val :: "buffer \<Rightarrow> int" where
  "be_val bs = int (digits_val 256 (map unat bs))"

text \<open>The buffer of a given length with a given value.\<close>

fun be_bytes :: "nat \<Rightarrow> int \<Rightarrow> buffer" where
  "be_bytes 0 n = []"
| "be_bytes (Suc w) n = be_bytes w (n div 256) @ [of_int n]"

section \<open>Lemmas\<close>

lemma hex_val_digit_char: "d < 16 \<Longrightarrow> hex_val (digit_char d) = Some d"
proof -
  assume "d < 16"
  then have "d \<in> set [0..<16]" by simp
  moreover have "list_all (\<lambda>d. hex_val (digit_char d) = Some d) [0..<16]" by code_simp
  ultimately show ?thesis by (simp only: list_all_iff)
qed

lemma be_val_Nil [simp]: "be_val [] = 0"
  by (simp add: be_val_def)

lemma be_val_Cons: "be_val (b # bs) = uint b * 256 ^ length bs + be_val bs"
  by (simp add: be_val_def digits_val_Cons)

lemma be_val_append: "be_val (bs @ cs) = be_val bs * 256 ^ length cs + be_val cs"
  by (simp add: be_val_def digits_val_append)

lemma be_val_snoc: "be_val (bs @ [b]) = be_val bs * 256 + uint b"
  by (simp add: be_val_append be_val_Cons)

lemma be_val_nonneg [simp]: "0 \<le> be_val bs"
  by (simp add: be_val_def)

lemma uint_byte_less: "uint (b :: byte) < 256"
  using uint_bounded[of b] by simp

lemma be_val_less: "be_val bs < 256 ^ length bs"
proof (induction bs rule: rev_induct)
  case (snoc b bs)
  then show ?case using uint_byte_less[of b] by (simp add: be_val_snoc)
qed simp

lemma be_val_inject: "length bs = length cs \<Longrightarrow> be_val bs = be_val cs \<longleftrightarrow> bs = cs"
proof (induction bs arbitrary: cs rule: rev_induct)
  case (snoc b bs)
  then obtain ds d where cs: "cs = ds @ [d]" "length bs = length ds"
    by (metis length_append_singleton length_Suc_conv_rev)
  show ?case
  proof
    assume "be_val (bs @ [b]) = be_val cs"
    then have eq: "be_val bs * 256 + uint b = be_val ds * 256 + uint d"
      by (simp add: cs be_val_snoc)
    moreover have "0 \<le> uint b" "uint b < 256" "0 \<le> uint d" "uint d < 256"
      by (simp_all add: uint_byte_less)
    ultimately have hi: "be_val bs = be_val ds" by linarith
    with eq have "b = d" by (simp add: word_uint_eq_iff)
    with hi snoc cs show "bs @ [b] = cs" by simp
  qed simp
qed simp

lemma length_be_bytes [simp]: "length (be_bytes w n) = w"
  by (induction w arbitrary: n) simp_all

lemma be_val_be_bytes: "0 \<le> n \<Longrightarrow> n < 256 ^ w \<Longrightarrow> be_val (be_bytes w n) = n"
proof (induction w arbitrary: n)
  case (Suc w)
  have "n div 256 < 256 ^ w" using Suc.prems by simp
  with Suc have "be_val (be_bytes w (n div 256)) = n div 256" by simp
  moreover have "uint (of_int n :: byte) = n mod 256" by (simp add: uint_word_of_int_eq take_bit_eq_mod)
  ultimately show ?case by (simp add: be_val_snoc)
qed simp

lemma be_bytes_be_val: "be_bytes (length bs) (be_val bs) = bs"
  by (metis be_val_be_bytes be_val_inject be_val_less be_val_nonneg length_be_bytes)

text \<open>Hexadecimal rendering and parsing of a buffer.\<close>

lemma length_buf_to_hex [simp]: "length (buf_to_hex bs) = 2 * length bs"
  by (induction bs) (simp_all add: buf_to_hex_def)

lemma buf_to_hex_Cons:
  "buf_to_hex (b # bs) = digit_char (unat b div 16) # digit_char (unat b mod 16) # buf_to_hex bs"
  by (simp add: buf_to_hex_def)

lemma buf_to_hex_eq_Nil [simp]: "buf_to_hex bs = [] \<longleftrightarrow> bs = []"
  by (cases bs) (simp_all add: buf_to_hex_def)

lemma unat_byte_less: "unat (b :: byte) < 256"
  using unsigned_less[of b] by simp

lemma hex_number_buf_to_hex: "hex_number (buf_to_hex bs) = be_val bs"
proof (induction bs)
  case Nil
  then show ?case by (simp add: hex_number_def buf_to_hex_def)
next
  case (Cons b bs)
  have hi: "unat b div 16 < 16" and lo: "unat b mod 16 < 16" using unat_byte_less[of b] by simp_all
  have "int (unat b) = int (unat b div 16 * 16 + unat b mod 16)" by (simp only: div_mult_mod_eq)
  then have b: "uint b = int (unat b div 16) * 16 + int (unat b mod 16)"
    by (simp only: uint_nat of_nat_add of_nat_mult of_nat_numeral)
  have pow: "(16 :: int) ^ (2 * length bs) = 256 ^ length bs" by (simp add: power_mult)
  have "hex_number (buf_to_hex (b # bs)) =
      (int (unat b div 16) * 16 + int (unat b mod 16)) * 16 ^ (2 * length bs) + hex_number (buf_to_hex bs)"
    by (simp add: buf_to_hex_Cons hex_number_def hex_val_digit_char hi lo digits_val_Cons algebra_simps)
  also have "\<dots> = uint b * 256 ^ length bs + be_val bs"
    by (simp only: Cons.IH b pow)
  finally show ?case by (simp add: be_val_Cons)
qed

lemma toBigIntBE_be_val: "toBigIntBE buf = be_val buf"
  by (cases buf) (simp_all add: toBigIntBE_def Let_def hex_number_buf_to_hex)

lemma toBigIntLE_be_val: "toBigIntLE buf = be_val (rev buf)"
  by (cases buf) (simp_all add: toBigIntLE_def Let_def hex_number_buf_to_hex)

lemma buf_from_hex_digits:
  assumes "\<And>d. d \<in> set ds \<Longrightarrow> d < 16" and "length ds = 2 * k"
  shows "length (buf_from_hex (map digit_char ds)) = k \<and>
    be_val (buf_from_hex (map digit_char ds)) = int (digits_val 16 ds)"
  using assms
proof (induction k arbitrary: ds)
  case (Suc k)
  then obtain x y es where ds: "ds = x # y # es" "length es = 2 * k"
    by (metis length_Suc_conv mult_Suc_right add_2_eq_Suc)
  with Suc.prems have xy: "x < 16" "y < 16" and es: "\<And>d. d \<in> set es \<Longrightarrow> d < 16" by auto
  have val: "unat (of_nat (16 * x + y) :: byte) = 16 * x + y"
    using xy by (simp add: unat_of_nat del: of_nat_add of_nat_mult)
  have u: "uint (of_nat (16 * x + y) :: byte) = int (16 * x + y)"
    using val by (metis uint_nat)
  have IH: "length (buf_from_hex (map digit_char es)) = k"
    "be_val (buf_from_hex (map digit_char es)) = int (digits_val 16 es)"
    using Suc.IH[OF es ds(2)] by simp_all
  have step: "buf_from_hex (map digit_char ds) =
      of_nat (16 * x + y) # buf_from_hex (map digit_char es)"
    using xy by (simp add: ds hex_val_digit_char)
  have "be_val (buf_from_hex (map digit_char ds)) = int (16 * x + y) * 256 ^ k + int (digits_val 16 es)"
    unfolding step be_val_Cons u using IH by simp
  also have "(256 :: int) ^ k = 16 ^ (2 * k)" by (simp add: power_mult)
  also have "int (16 * x + y) * 16 ^ (2 * k) + int (digits_val 16 es) = int (digits_val 16 ds)"
    by (simp add: ds digits_val_Cons algebra_simps)
  finally show ?case using step IH by simp
qed simp

lemma digit_char_0: "digit_char 0 = CHR ''0''"
  by (simp add: digit_char_def)

lemma padStart_digits:
  "padStart k (CHR ''0'') (map digit_char ds) = map digit_char (replicate (k - length ds) 0 @ ds)"
  by (simp add: padStart_def digit_char_0)

lemma digits_val_zeros: "digits_val b (replicate k 0 @ ds) = digits_val b ds"
proof (induction k)
  case (Suc k)
  then show ?case by (simp add: digits_val_Cons)
qed simp

text \<open>The padded and cut digit string of a non-negative number, at any width.\<close>

definition cut_digits :: "nat \<Rightarrow> nat \<Rightarrow> nat list" where
  "cut_digits n w = take (w * 2) (replicate (w * 2 - length (digits_of 16 n)) 0 @ digits_of 16 n)"

lemma cut_digits_less: "d \<in> set (cut_digits n w) \<Longrightarrow> d < 16"
  using digits_of_less[of 16] by (auto simp: cut_digits_def dest!: in_set_takeD)

lemma length_cut_digits [simp]: "length (cut_digits n w) = 2 * w"
  by (simp add: cut_digits_def)

lemma cut_digits_fit:
  assumes "n < 256 ^ w"
  shows "digits_val 16 (cut_digits n w) = n"
proof (cases "w = 0")
  case True
  with assms show ?thesis by (simp add: cut_digits_def)
next
  case False
  have "n < 16 ^ (w * 2)" using assms by (simp add: power_mult power2_eq_square mult.commute[of w])
  then have "length (digits_of 16 n) \<le> w * 2" using False by (intro length_digits_of_le) auto
  then show ?thesis by (simp add: cut_digits_def digits_val_zeros digits_val_of)
qed

lemma cut_digits_overflow:
  assumes "256 ^ w \<le> n"
  shows "digits_val 16 (cut_digits n w) = n div 16 ^ (length (digits_of 16 n) - 2 * w)"
proof -
  let ?ds = "digits_of 16 n"
  let ?k = "length ?ds - 2 * w"
  have "16 ^ (2 * w) \<le> n" using assms by (simp add: power_mult)
  then have len: "2 * w < length ?ds" by (intro length_digits_of_gr) auto
  have "n = digits_val 16 (take (2 * w) ?ds @ drop (2 * w) ?ds)" by (simp add: digits_val_of)
  also have "\<dots> = digits_val 16 (take (2 * w) ?ds) * 16 ^ ?k + digits_val 16 (drop (2 * w) ?ds)"
    by (subst digits_val_append) simp
  finally have n: "n = digits_val 16 (take (2 * w) ?ds) * 16 ^ ?k + digits_val 16 (drop (2 * w) ?ds)" .
  have "digits_val 16 (drop (2 * w) ?ds) < 16 ^ length (drop (2 * w) ?ds)"
    using digits_of_less[of 16] by (intro digits_val_less) (auto dest!: in_set_dropD)
  then have "n div 16 ^ ?k = digits_val 16 (take (2 * w) ?ds)"
    by (subst n) simp
  moreover have "cut_digits n w = take (2 * w) ?ds" using len by (simp add: cut_digits_def mult.commute)
  ultimately show ?thesis by simp
qed

lemma toBufferBE_cut:
  assumes "0 \<le> n"
  shows "toBufferBE n w = Inr (buf_from_hex (map digit_char (cut_digits (nat n) w)))"
proof -
  have "take (w * 2) (padStart (w * 2) (CHR ''0'') (int_str 16 n)) = map digit_char (cut_digits (nat n) w)"
    using assms by (simp add: int_str_def nat_str_def padStart_digits cut_digits_def take_map)
  moreover have "length (buf_from_hex (map digit_char (cut_digits (nat n) w))) = w"
    using buf_from_hex_digits[of "cut_digits (nat n) w" w, OF cut_digits_less] by simp
  ultimately show ?thesis by (simp add: toBufferBE_def Let_def)
qed

lemma toBufferBE_fit: "0 \<le> n \<Longrightarrow> n < 256 ^ w \<Longrightarrow> toBufferBE n w = Inr (be_bytes w n)"
proof -
  assume n: "0 \<le> n" "n < 256 ^ w"
  let ?b = "buf_from_hex (map digit_char (cut_digits (nat n) w))"
  have "nat n < 256 ^ w" using n by (simp add: nat_less_iff)
  then have "length ?b = w" "be_val ?b = n"
    using buf_from_hex_digits[of "cut_digits (nat n) w" w, OF cut_digits_less] n
    by (simp_all add: cut_digits_fit)
  then have "?b = be_bytes w n" using n by (metis be_bytes_be_val)
  with n show ?thesis by (simp add: toBufferBE_cut)
qed

lemma toBufferLE_fit: "0 \<le> n \<Longrightarrow> n < 256 ^ w \<Longrightarrow> toBufferLE n w = rev (be_bytes w n)"
  using toBufferBE_fit[of n w] by (simp add: toBufferLE_def toBufferBE_def Let_def split: if_splits)

lemma toBufferBE_buf [codec_simps]: "toBufferBE (be_val bs) (length bs) = Inr bs"
  by (simp add: toBufferBE_fit be_val_less be_bytes_be_val)

lemma toBufferBE_zero: "toBufferBE 0 w = Inr (replicate w 0)"
proof -
  have "be_bytes w 0 = replicate w 0" by (induction w) (simp_all add: replicate_append_same)
  then show ?thesis by (simp add: toBufferBE_fit)
qed

text \<open>The slice keeps the buffer within the width, so the check that the number fits never fires.\<close>

lemma length_buf_from_hex: "2 * length (buf_from_hex s) \<le> length s"
  by (induction s rule: buf_from_hex.induct) (auto split: option.splits)

lemma toBufferBE_total: "\<exists>b. toBufferBE n w = Inr b \<and> length b \<le> w"
proof -
  let ?s = "take (w * 2) (padStart (w * 2) (CHR ''0'') (int_str 16 n))"
  have "2 * length (buf_from_hex ?s) \<le> w * 2" using length_buf_from_hex[of ?s] by simp
  then show ?thesis by (simp add: toBufferBE_def Let_def)
qed

end
