(* ===== verification/Serialize.thy ===== *)
theory Serialize
  imports BigintBuffer
begin

text \<open>
  The byte-level serialisation layer of the foundation package:
  \<^verbatim>\<open>foundation/src/serialize/free_funcs.ts\<close>, \<^verbatim>\<open>serializer.ts\<close>, \<^verbatim>\<open>deserializer.ts\<close>, \<^verbatim>\<open>types.ts\<close> and
  \<^verbatim>\<open>foundation/src/collection/array.ts\<close>. Node's bounds-checked integer accessors are written out with
  their \<open>RangeError\<close>s. The interface between an encoder and the positional decoders is the locale
  \<open>positional_codec\<close>; it is interpreted on every pair of functions of \<^verbatim>\<open>free_funcs.ts\<close>, and the locale's
  lemma gives the round trip of arrays of each of them.
\<close>

section \<open>Node's integer accessors\<close>

definition Buffer_alloc :: "nat \<Rightarrow> buffer" where
  "Buffer_alloc n = replicate n 0"

definition writeUInt32BE :: "buffer \<Rightarrow> int \<Rightarrow> int \<Rightarrow> buffer result" where
  "writeUInt32BE buf n off =
     (if n < 0 \<or> n \<ge> 2 ^ 32 \<or> off < 0 \<or> off + 4 > int (length buf) then Inl RangeError
      else Inr (take (nat off) buf @ be_bytes 4 n @ drop (nat off + 4) buf))"

definition writeUInt32LE :: "buffer \<Rightarrow> int \<Rightarrow> int \<Rightarrow> buffer result" where
  "writeUInt32LE buf n off =
     (if n < 0 \<or> n \<ge> 2 ^ 32 \<or> off < 0 \<or> off + 4 > int (length buf) then Inl RangeError
      else Inr (take (nat off) buf @ rev (be_bytes 4 n) @ drop (nat off + 4) buf))"

definition writeInt32BE :: "buffer \<Rightarrow> int \<Rightarrow> int \<Rightarrow> buffer result" where
  "writeInt32BE buf n off =
     (if n < - (2 ^ 31) \<or> n \<ge> 2 ^ 31 \<or> off < 0 \<or> off + 4 > int (length buf) then Inl RangeError
      else Inr (take (nat off) buf @ be_bytes 4 (n mod 2 ^ 32) @ drop (nat off + 4) buf))"

definition writeUInt8 :: "buffer \<Rightarrow> int \<Rightarrow> int \<Rightarrow> buffer result" where
  "writeUInt8 buf n off =
     (if n < 0 \<or> n \<ge> 256 \<or> off < 0 \<or> off + 1 > int (length buf) then Inl RangeError
      else Inr (take (nat off) buf @ be_bytes 1 n @ drop (nat off + 1) buf))"

definition readUInt32BE :: "buffer \<Rightarrow> nat \<Rightarrow> int result" where
  "readUInt32BE buf off =
     (if off + 4 > length buf then Inl RangeError else Inr (be_val (subarray off (off + 4) buf)))"

definition readUInt32LE :: "buffer \<Rightarrow> nat \<Rightarrow> int result" where
  "readUInt32LE buf off =
     (if off + 4 > length buf then Inl RangeError else Inr (be_val (rev (subarray off (off + 4) buf))))"

definition readInt32BE :: "buffer \<Rightarrow> nat \<Rightarrow> int result" where
  "readInt32BE buf off =
     (if off + 4 > length buf then Inl RangeError
      else let v = be_val (subarray off (off + 4) buf) in Inr (if v \<ge> 2 ^ 31 then v - 2 ^ 32 else v))"

definition readUInt8 :: "buffer \<Rightarrow> nat \<Rightarrow> int result" where
  "readUInt8 buf off =
     (if off + 1 > length buf then Inl RangeError else Inr (be_val (subarray off (off + 1) buf)))"

section \<open>free\_funcs.ts\<close>

definition boolToByte :: "bool \<Rightarrow> buffer result" where
  "boolToByte b = writeUInt8 (Buffer_alloc 1) (if b then 1 else 0) 0"

definition numToUInt32LE :: "int \<Rightarrow> nat \<Rightarrow> buffer result" where
  "numToUInt32LE n bufferSize = writeUInt32LE (Buffer_alloc bufferSize) n (int bufferSize - 4)"

definition numToUInt32BE :: "int \<Rightarrow> nat \<Rightarrow> buffer result" where
  "numToUInt32BE n bufferSize = writeUInt32BE (Buffer_alloc bufferSize) n (int bufferSize - 4)"

definition numToInt32BE :: "int \<Rightarrow> nat \<Rightarrow> buffer result" where
  "numToInt32BE n bufferSize = writeInt32BE (Buffer_alloc bufferSize) n (int bufferSize - 4)"

definition numToUInt8 :: "int \<Rightarrow> buffer result" where
  "numToUInt8 n = writeUInt8 (Buffer_alloc 1) n 0"

definition serializeBufferToVector :: "buffer \<Rightarrow> buffer result" where
  "serializeBufferToVector buf =
     rbind (writeUInt32BE (Buffer_alloc 4) (int (length buf)) 0) (\<lambda>lengthBuf. Inr (lengthBuf @ buf))"

definition serializeBigInt :: "int \<Rightarrow> nat \<Rightarrow> buffer result" where
  "serializeBigInt n width = toBufferBE n width"

type_synonym 'a deserialize_fn = "buffer \<Rightarrow> nat \<Rightarrow> ('a \<times> nat) result"

definition deserializeBigInt :: "nat \<Rightarrow> int deserialize_fn" where
  "deserializeBigInt width buf offset = Inr (toBigIntBE (subarray offset (offset + width) buf), width)"

text \<open>A \<open>Date\<close> is its time value in milliseconds.\<close>

definition serializeDate :: "int \<Rightarrow> buffer result" where
  "serializeDate date = serializeBigInt date 8"

definition deserializeBufferFromVector :: "buffer deserialize_fn" where
  "deserializeBufferFromVector vector offset =
     rbind (readUInt32BE vector offset)
       (\<lambda>len. let adv = 4 + nat len in Inr (subarray (offset + 4) (offset + adv) vector, adv))"

definition deserializeBool :: "int deserialize_fn" where
  "deserializeBool buf offset = rbind (readUInt8 buf offset) (\<lambda>v. Inr (v, 1))"

definition deserializeUInt32 :: "int deserialize_fn" where
  "deserializeUInt32 buf offset = rbind (readUInt32BE buf offset) (\<lambda>v. Inr (v, 4))"

definition deserializeInt32 :: "int deserialize_fn" where
  "deserializeInt32 buf offset = rbind (readInt32BE buf offset) (\<lambda>v. Inr (v, 4))"

definition serializeBufferArrayToVector :: "buffer list \<Rightarrow> buffer result" where
  "serializeBufferArrayToVector arr =
     rbind (writeUInt32BE (Buffer_alloc 4) (int (length arr)) 0) (\<lambda>lengthBuf. Inr (lengthBuf @ concat arr))"

fun deserialize_elems :: "'a deserialize_fn \<Rightarrow> buffer \<Rightarrow> nat \<Rightarrow> nat \<Rightarrow> ('a list \<times> nat) result" where
  "deserialize_elems deserialize vector 0 pos = Inr ([], pos)"
| "deserialize_elems deserialize vector (Suc i) pos =
     rbind (deserialize vector pos) (\<lambda>(elem, adv).
       rbind (deserialize_elems deserialize vector i (pos + adv)) (\<lambda>(arr, end).
         Inr (elem # arr, end)))"

definition deserializeArrayFromVector :: "'a deserialize_fn \<Rightarrow> 'a list deserialize_fn" where
  "deserializeArrayFromVector deserialize vector offset =
     rbind (readUInt32BE vector offset) (\<lambda>size.
       rbind (deserialize_elems deserialize vector (nat size) (offset + 4)) (\<lambda>(arr, pos).
         Inr (arr, pos - offset)))"

definition toBigInt :: "buffer \<Rightarrow> int" where
  "toBigInt buf = (let hex = buf_to_hex buf in if length hex = 0 then 0 else hex_number hex)"

section \<open>types.ts and array.ts\<close>

definition assertLength :: "'a list \<Rightarrow> nat \<Rightarrow> 'a list result" where
  "assertLength arr n =
     (if length arr \<noteq> n then Inl (Error ''Wrong 'fixed array' size'') else Inr arr)"

definition padArrayEnd :: "'a list \<Rightarrow> 'a \<Rightarrow> nat \<Rightarrow> 'a list result" where
  "padArrayEnd arr elem len =
     (if length arr > len then Inl (Error ''Array size exceeds target length'')
      else Inr (arr @ replicate (len - length arr) elem))"

definition padArrayStart :: "'a list \<Rightarrow> 'a \<Rightarrow> nat \<Rightarrow> 'a list result" where
  "padArrayStart arr elem len =
     (if length arr > len then Inl (Error ''Array size exceeds target length'')
      else Inr (replicate (len - length arr) elem @ arr))"

fun isArrayEmpty :: "'a list \<Rightarrow> ('a \<Rightarrow> bool) \<Rightarrow> bool" where
  "isArrayEmpty [] isEmpty = True"
| "isArrayEmpty (item # arr) isEmpty = (if \<not> isEmpty item then False else isArrayEmpty arr isEmpty)"

definition arrayNonEmptyLength :: "'a list \<Rightarrow> ('a \<Rightarrow> bool) \<Rightarrow> nat" where
  "arrayNonEmptyLength arr isEmpty = foldl (\<lambda>sum item. if isEmpty item then sum else sum + 1) 0 arr"

section \<open>serializer.ts and deserializer.ts\<close>

record serializer =
  ser_buf :: "buffer list"

definition new_Serializer :: serializer where
  "new_Serializer = \<lparr>ser_buf = []\<rparr>"

definition ser_push :: "buffer result \<Rightarrow> (serializer, unit) js" where
  "ser_push b = jbind (jlift b) (\<lambda>x. jmodify (\<lambda>s. s\<lparr>ser_buf := ser_buf s @ [x]\<rparr>))"

definition Serializer_bool :: "bool \<Rightarrow> (serializer, unit) js" where
  "Serializer_bool b = ser_push (boolToByte b)"

definition Serializer_uInt32 :: "int \<Rightarrow> (serializer, unit) js" where
  "Serializer_uInt32 num = ser_push (numToUInt32BE num 4)"

definition Serializer_int32 :: "int \<Rightarrow> (serializer, unit) js" where
  "Serializer_int32 num = ser_push (numToInt32BE num 4)"

definition Serializer_bigInt :: "int \<Rightarrow> (serializer, unit) js" where
  "Serializer_bigInt num = ser_push (serializeBigInt num 32)"

definition Serializer_vector :: "buffer \<Rightarrow> (serializer, unit) js" where
  "Serializer_vector buf = ser_push (serializeBufferToVector buf)"

definition Serializer_buffer :: "buffer \<Rightarrow> (serializer, unit) js" where
  "Serializer_buffer buf = ser_push (Inr buf)"

definition Serializer_date :: "int \<Rightarrow> (serializer, unit) js" where
  "Serializer_date date = ser_push (serializeDate date)"

definition Serializer_getBuffer :: "serializer \<Rightarrow> buffer" where
  "Serializer_getBuffer s = concat (ser_buf s)"

definition Serializer_serializeArray :: "('a \<Rightarrow> buffer) \<Rightarrow> 'a list \<Rightarrow> (serializer, unit) js" where
  "Serializer_serializeArray toBuffer arr = ser_push (serializeBufferArrayToVector (map toBuffer arr))"

record deserializer =
  des_buf :: buffer
  des_offset :: nat

definition new_Deserializer :: "buffer \<Rightarrow> nat \<Rightarrow> deserializer" where
  "new_Deserializer buf offset = \<lparr>des_buf = buf, des_offset = offset\<rparr>"

definition Deserializer_exec :: "'a deserialize_fn \<Rightarrow> (deserializer, 'a) js" where
  "Deserializer_exec f =
     jbind jget (\<lambda>d. jbind (jlift (f (des_buf d) (des_offset d))) (\<lambda>(elem, adv).
       jbind (jmodify (\<lambda>d. d\<lparr>des_offset := des_offset d + adv\<rparr>)) (\<lambda>_. jreturn elem)))"

definition Deserializer_bool :: "(deserializer, bool) js" where
  "Deserializer_bool = jbind (Deserializer_exec deserializeBool) (\<lambda>v. jreturn (if v \<noteq> 0 then True else False))"

definition Deserializer_uInt32 :: "(deserializer, int) js" where
  "Deserializer_uInt32 = Deserializer_exec deserializeUInt32"

definition Deserializer_int32 :: "(deserializer, int) js" where
  "Deserializer_int32 = Deserializer_exec deserializeInt32"

definition Deserializer_bigInt :: "nat \<Rightarrow> (deserializer, int) js" where
  "Deserializer_bigInt width = Deserializer_exec (deserializeBigInt width)"

definition Deserializer_vector :: "(deserializer, buffer) js" where
  "Deserializer_vector = Deserializer_exec deserializeBufferFromVector"

definition Deserializer_buffer :: "nat \<Rightarrow> (deserializer, buffer) js" where
  "Deserializer_buffer width =
     jbind jget (\<lambda>d. let buf = subarray (des_offset d) (des_offset d + width) (des_buf d) in
       jbind (jmodify (\<lambda>d. d\<lparr>des_offset := des_offset d + width\<rparr>)) (\<lambda>_. jreturn buf))"

definition Deserializer_date :: "(deserializer, int) js" where
  "Deserializer_date = Deserializer_bigInt 8"

definition Deserializer_deserializeArray :: "'a deserialize_fn \<Rightarrow> (deserializer, 'a list) js" where
  "Deserializer_deserializeArray f = Deserializer_exec (deserializeArrayFromVector f)"

definition Deserializer_getOffset :: "deserializer \<Rightarrow> nat" where
  "Deserializer_getOffset d = des_offset d"

section \<open>Accessor lemmas\<close>

lemma length_Buffer_alloc [simp]: "length (Buffer_alloc n) = n"
  by (simp add: Buffer_alloc_def)

lemma write_alloc:
  "0 \<le> n \<Longrightarrow> n < 2 ^ 32 \<Longrightarrow> writeUInt32BE (Buffer_alloc 4) n 0 = Inr (be_bytes 4 n)"
  "- (2 ^ 31) \<le> n \<Longrightarrow> n < 2 ^ 31 \<Longrightarrow> writeInt32BE (Buffer_alloc 4) n 0 = Inr (be_bytes 4 (n mod 2 ^ 32))"
  "0 \<le> n \<Longrightarrow> n < 256 \<Longrightarrow> writeUInt8 (Buffer_alloc (Suc 0)) n 0 = Inr (be_bytes (Suc 0) n)"
  by (simp_all add: writeUInt32BE_def writeInt32BE_def writeUInt8_def)

lemma subarray_middle:
  "length bs = n \<Longrightarrow> subarray (length pre) (length pre + n) (pre @ bs @ post) = bs"
  by (simp add: subarray_def)

lemma read_middle:
  "length bs = 4 \<Longrightarrow> readUInt32BE (pre @ bs @ post) (length pre) = Inr (be_val bs)"
  "length bs = 4 \<Longrightarrow> readInt32BE (pre @ bs @ post) (length pre) =
     Inr (if be_val bs \<ge> 2 ^ 31 then be_val bs - 2 ^ 32 else be_val bs)"
  "length bs = 1 \<Longrightarrow> readUInt8 (pre @ bs @ post) (length pre) = Inr (be_val bs)"
  using subarray_middle[of bs 4 pre post] subarray_middle[of bs 1 pre post]
  by (simp_all add: readUInt32BE_def readInt32BE_def readUInt8_def Let_def)

lemma readUInt8_at: "readUInt8 (pre @ b # post) (length pre) = Inr (uint b)"
  using read_middle(3)[of "[b]" pre post] by (simp add: be_val_Cons)

lemma be_val_be_bytes_4: "0 \<le> n \<Longrightarrow> n < 2 ^ 32 \<Longrightarrow> be_val (be_bytes 4 n) = n"
  by (rule be_val_be_bytes) simp_all

section \<open>The interface of a positional decoder\<close>

text \<open>An encoder and a decoder of \<^verbatim>\<open>free_funcs.ts\<close> agree when the decoder, started at the position where
  the encoding of a valid value begins inside any buffer, returns the value and the encoding's length.\<close>

locale positional_codec =
  fixes ser :: "'a \<Rightarrow> buffer result"
    and deser :: "'a deserialize_fn"
    and valid :: "'a \<Rightarrow> bool"
  assumes ser_total: "valid x \<Longrightarrow> \<exists>bs. ser x = Inr bs"
    and deser_ser: "valid x \<Longrightarrow> ser x = Inr bs \<Longrightarrow>
      deser (pre @ bs @ post) (length pre) = Inr (x, length bs)"
begin

lemma elems_roundtrip:
  assumes "list_all2 (\<lambda>x bs. valid x \<and> ser x = Inr bs) xs bss"
  shows "deserialize_elems deser (pre @ concat bss @ post) (length xs) (length pre) =
    Inr (xs, length pre + length (concat bss))"
  using assms
proof (induction xs arbitrary: bss pre)
  case Nil
  then show ?case by simp
next
  case (Cons x xs)
  then obtain bs cs where bss: "bss = bs # cs" and x: "valid x" "ser x = Inr bs"
    and rest: "list_all2 (\<lambda>x bs. valid x \<and> ser x = Inr bs) xs cs"
    by (auto simp: list_all2_Cons1)
  have "deserialize_elems deser ((pre @ bs) @ concat cs @ post) (length xs) (length (pre @ bs)) =
      Inr (xs, length (pre @ bs) + length (concat cs))"
    by (rule Cons.IH[OF rest])
  then show ?case using deser_ser[OF x, of pre "concat cs @ post"] by (simp add: bss add.assoc)
qed

lemma array_roundtrip:
  assumes "list_all2 (\<lambda>x bs. valid x \<and> ser x = Inr bs) xs bss"
    and "length xs < 2 ^ 32"
    and "serializeBufferArrayToVector bss = Inr v"
  shows "deserializeArrayFromVector deser (pre @ v @ post) (length pre) = Inr (xs, length v)"
proof -
  have len: "length bss = length xs" using assms(1) by (simp add: list_all2_lengthD)
  define hd4 where "hd4 = be_bytes 4 (int (length xs))"
  have n: "int (length xs) < 2 ^ 32" using assms(2) by (metis of_nat_less_iff of_nat_numeral of_nat_power)
  then have v: "v = hd4 @ concat bss" and val: "be_val hd4 = int (length xs)"
    using assms(3) len
    by (auto simp: serializeBufferArrayToVector_def write_alloc hd4_def be_val_be_bytes_4)
  have l4: "length hd4 = 4" by (simp add: hd4_def)
  have "deserialize_elems deser ((pre @ hd4) @ concat bss @ post) (length xs) (length (pre @ hd4)) =
      Inr (xs, length (pre @ hd4) + length (concat bss))"
    by (rule elems_roundtrip[OF assms(1)])
  then show ?thesis
    using read_middle(1)[OF l4, of pre "concat bss @ post"]
    by (simp add: deserializeArrayFromVector_def v val l4)
qed

end

interpretation u32: positional_codec "\<lambda>n. numToUInt32BE n 4" deserializeUInt32 "\<lambda>n. 0 \<le> n \<and> n < 2 ^ 32"
  by unfold_locales
    (auto simp: numToUInt32BE_def write_alloc deserializeUInt32_def read_middle be_val_be_bytes_4)

interpretation i32: positional_codec "\<lambda>n. numToInt32BE n 4" deserializeInt32
    "\<lambda>n. - (2 ^ 31) \<le> n \<and> n < 2 ^ 31"
proof (unfold_locales, goal_cases)
  case (1 n)
  then show ?case by (simp add: numToInt32BE_def write_alloc)
next
  case (2 n bs pre post)
  then have bs: "bs = be_bytes 4 (n mod 2 ^ 32)" by (simp add: numToInt32BE_def write_alloc)
  have "0 \<le> n mod 2 ^ 32" "n mod 2 ^ 32 < 2 ^ 32" by simp_all
  then have "be_val bs = n mod 2 ^ 32" unfolding bs by (rule be_val_be_bytes_4)
  moreover have "n mod 2 ^ 32 = (if n < 0 then n + 2 ^ 32 else n)"
  proof (cases "n < 0")
    case True
    have "(n + 2 ^ 32) mod 2 ^ 32 = n + 2 ^ 32" using 2 True by (intro mod_pos_pos_trivial) auto
    with True show ?thesis by simp
  next
    case False
    with 2 show ?thesis by simp
  qed
  moreover have "length bs = 4" by (simp add: bs)
  ultimately show ?case using 2 by (auto simp: deserializeInt32_def read_middle)
qed

interpretation big: positional_codec "\<lambda>n. serializeBigInt n w" "deserializeBigInt w"
    "\<lambda>n. 0 \<le> n \<and> n < 256 ^ w" for w
  by unfold_locales
    (auto simp: serializeBigInt_def toBufferBE_fit deserializeBigInt_def subarray_middle
      toBigIntBE_be_val be_val_be_bytes)

interpretation vec: positional_codec serializeBufferToVector deserializeBufferFromVector
    "\<lambda>b. int (length b) < 2 ^ 32"
proof (unfold_locales, goal_cases)
  case (1 b)
  then show ?case by (simp add: serializeBufferToVector_def write_alloc)
next
  case (2 b bs pre post)
  define hd4 where "hd4 = be_bytes 4 (int (length b))"
  have l4: "length hd4 = 4" and val: "be_val hd4 = int (length b)" and bs: "bs = hd4 @ b"
    using 2 by (auto simp: hd4_def be_val_be_bytes_4 serializeBufferToVector_def write_alloc)
  have "subarray (length (pre @ hd4)) (length (pre @ hd4) + length b) ((pre @ hd4) @ b @ post) = b"
    by (rule subarray_middle) simp
  then show ?case using read_middle(1)[OF l4, of pre "b @ post"] l4 val
    by (simp add: deserializeBufferFromVector_def bs Let_def add.assoc)
qed

interpretation bol: positional_codec "\<lambda>v. boolToByte (v \<noteq> 0)" deserializeBool "\<lambda>v. v = 0 \<or> v = 1"
  by unfold_locales
    (auto simp: boolToByte_def write_alloc deserializeBool_def readUInt8_at)

section \<open>A serializer session\<close>

text \<open>One call of a \<open>Serializer\<close> method, and the matching \<open>Deserializer\<close> call.\<close>

datatype ser_item = SBool bool | SUInt32 int | SInt32 int | SBigInt int | SVector buffer | SDate int

fun write_item :: "ser_item \<Rightarrow> (serializer, unit) js" where
  "write_item (SBool b) = Serializer_bool b"
| "write_item (SUInt32 n) = Serializer_uInt32 n"
| "write_item (SInt32 n) = Serializer_int32 n"
| "write_item (SBigInt n) = Serializer_bigInt n"
| "write_item (SVector b) = Serializer_vector b"
| "write_item (SDate d) = Serializer_date d"

fun read_item :: "ser_item \<Rightarrow> (deserializer, ser_item) js" where
  "read_item (SBool _) = jbind Deserializer_bool (\<lambda>x. jreturn (SBool x))"
| "read_item (SUInt32 _) = jbind Deserializer_uInt32 (\<lambda>x. jreturn (SUInt32 x))"
| "read_item (SInt32 _) = jbind Deserializer_int32 (\<lambda>x. jreturn (SInt32 x))"
| "read_item (SBigInt _) = jbind (Deserializer_bigInt 32) (\<lambda>x. jreturn (SBigInt x))"
| "read_item (SVector _) = jbind Deserializer_vector (\<lambda>x. jreturn (SVector x))"
| "read_item (SDate _) = jbind Deserializer_date (\<lambda>x. jreturn (SDate x))"

fun item_ok :: "ser_item \<Rightarrow> bool" where
  "item_ok (SBool b) = True"
| "item_ok (SUInt32 n) = (0 \<le> n \<and> n < 2 ^ 32)"
| "item_ok (SInt32 n) = (- (2 ^ 31) \<le> n \<and> n < 2 ^ 31)"
| "item_ok (SBigInt n) = (0 \<le> n \<and> n < 256 ^ 32)"
| "item_ok (SVector b) = (int (length b) < 2 ^ 32)"
| "item_ok (SDate d) = (0 \<le> d \<and> d < 256 ^ 8)"

fun read_items :: "ser_item list \<Rightarrow> (deserializer, ser_item list) js" where
  "read_items [] = jreturn []"
| "read_items (i # is) = jbind (read_item i) (\<lambda>x. jbind (read_items is) (\<lambda>xs. jreturn (x # xs)))"

lemma exec_positional:
  assumes "f (pre @ bs @ post) (length pre) = Inr (x, length bs)"
  shows "Deserializer_exec f \<lparr>des_buf = pre @ bs @ post, des_offset = length pre\<rparr> =
    (Inr x, \<lparr>des_buf = pre @ bs @ post, des_offset = length (pre @ bs)\<rparr>)"
  using assms by (simp add: Deserializer_exec_def jbind_def)

context positional_codec
begin

lemma exec_roundtrip:
  assumes "valid x" and "ser x = Inr bs"
  shows "Deserializer_exec deser \<lparr>des_buf = pre @ bs @ post, des_offset = length pre\<rparr> =
    (Inr x, \<lparr>des_buf = pre @ bs @ post, des_offset = length (pre @ bs)\<rparr>)"
  by (rule exec_positional) (rule deser_ser[OF assms])

end

text \<open>Every valid item is encoded without an error, appended to the session, and read back.\<close>

lemma item_roundtrip:
  assumes "item_ok i"
  shows "\<exists>bs. (\<forall>s. write_item i s = (Inr (), s\<lparr>ser_buf := ser_buf s @ [bs]\<rparr>)) \<and>
    (\<forall>pre post. read_item i \<lparr>des_buf = pre @ bs @ post, des_offset = length pre\<rparr> =
      (Inr i, \<lparr>des_buf = pre @ bs @ post, des_offset = length (pre @ bs)\<rparr>))"
proof (cases i)
  case (SBool b)
  obtain bs where bs: "boolToByte b = Inr bs"
    by (cases b) (auto simp: boolToByte_def write_alloc)
  have "deserializeBool (pre @ bs @ post) (length pre) = Inr (if b then 1 else 0, length bs)" for pre post
    using bol.deser_ser[of "if b then 1 else 0" bs] bs by auto
  then have rd: "Deserializer_exec deserializeBool \<lparr>des_buf = pre @ bs @ post, des_offset = length pre\<rparr> =
      (Inr (if b then 1 else 0), \<lparr>des_buf = pre @ bs @ post, des_offset = length (pre @ bs)\<rparr>)" for pre post
    by (rule exec_positional)
  show ?thesis
    by (rule exI[of _ bs])
      (auto simp: SBool Serializer_bool_def ser_push_def bs jbind_def Deserializer_bool_def rd)
next
  case (SUInt32 n)
  with assms obtain bs where bs: "numToUInt32BE n 4 = Inr bs" using u32.ser_total[of n] by auto
  show ?thesis
    by (rule exI[of _ bs]) (use assms u32.exec_roundtrip[OF _ bs] in
      \<open>auto simp: SUInt32 Serializer_uInt32_def ser_push_def bs jbind_def Deserializer_uInt32_def\<close>)
next
  case (SInt32 n)
  with assms obtain bs where bs: "numToInt32BE n 4 = Inr bs" using i32.ser_total[of n] by auto
  show ?thesis
    by (rule exI[of _ bs]) (use assms i32.exec_roundtrip[OF _ bs] in
      \<open>auto simp: SInt32 Serializer_int32_def ser_push_def bs jbind_def Deserializer_int32_def\<close>)
next
  case (SBigInt n)
  with assms obtain bs where bs: "serializeBigInt n 32 = Inr bs" using big.ser_total[of n 32] by auto
  show ?thesis
    by (rule exI[of _ bs]) (use assms big.exec_roundtrip[OF _ bs] in
      \<open>auto simp: SBigInt Serializer_bigInt_def ser_push_def bs jbind_def Deserializer_bigInt_def\<close>)
next
  case (SVector b)
  with assms obtain bs where bs: "serializeBufferToVector b = Inr bs" using vec.ser_total[of b] by auto
  show ?thesis
    by (rule exI[of _ bs]) (use assms vec.exec_roundtrip[OF _ bs] in
      \<open>auto simp: SVector Serializer_vector_def ser_push_def bs jbind_def Deserializer_vector_def\<close>)
next
  case (SDate d)
  with assms obtain bs where bs: "serializeBigInt d 8 = Inr bs" using big.ser_total[of d 8] by auto
  show ?thesis
    by (rule exI[of _ bs]) (use assms big.exec_roundtrip[OF _ bs] in
      \<open>auto simp: SDate Serializer_date_def serializeDate_def ser_push_def bs jbind_def
         Deserializer_date_def Deserializer_bigInt_def\<close>)
qed

lemma session_roundtrip_gen:
  assumes "\<forall>i \<in> set items. item_ok i"
  shows "\<exists>bss. (\<forall>s. jfor write_item items s = (Inr (), s\<lparr>ser_buf := ser_buf s @ bss\<rparr>)) \<and>
    (\<forall>pre post. read_items items \<lparr>des_buf = pre @ concat bss @ post, des_offset = length pre\<rparr> =
      (Inr items, \<lparr>des_buf = pre @ concat bss @ post, des_offset = length (pre @ concat bss)\<rparr>))"
  using assms
proof (induction items)
  case Nil
  then show ?case by (intro exI[of _ "[]"]) simp
next
  case (Cons i items)
  obtain b where b: "\<And>s. write_item i s = (Inr (), s\<lparr>ser_buf := ser_buf s @ [b]\<rparr>)"
    and rb: "\<And>pre post. read_item i \<lparr>des_buf = pre @ b @ post, des_offset = length pre\<rparr> =
      (Inr i, \<lparr>des_buf = pre @ b @ post, des_offset = length (pre @ b)\<rparr>)"
    using item_roundtrip[of i] Cons.prems by auto
  obtain bss where w: "\<And>s. jfor write_item items s = (Inr (), s\<lparr>ser_buf := ser_buf s @ bss\<rparr>)"
    and r: "\<And>pre post. read_items items \<lparr>des_buf = pre @ concat bss @ post, des_offset = length pre\<rparr> =
      (Inr items, \<lparr>des_buf = pre @ concat bss @ post, des_offset = length (pre @ concat bss)\<rparr>)"
    using Cons by auto
  show ?case
  proof (intro exI[of _ "b # bss"] conjI allI)
    fix s
    show "jfor write_item (i # items) s = (Inr (), s\<lparr>ser_buf := ser_buf s @ b # bss\<rparr>)"
      by (simp add: jbind_def b w)
  next
    fix pre post
    show "read_items (i # items) \<lparr>des_buf = pre @ concat (b # bss) @ post, des_offset = length pre\<rparr> =
      (Inr (i # items), \<lparr>des_buf = pre @ concat (b # bss) @ post,
         des_offset = length (pre @ concat (b # bss))\<rparr>)"
      using rb[of pre "concat bss @ post"] r[of "pre @ b" post] by (simp add: jbind_def)
  qed
qed

section \<open>Array helpers\<close>

lemma isArrayEmpty_all: "isArrayEmpty arr isEmpty \<longleftrightarrow> (\<forall>x \<in> set arr. isEmpty x)"
  by (induction arr) auto

lemma arrayNonEmptyLength_filter: "arrayNonEmptyLength arr isEmpty = length (filter (\<lambda>x. \<not> isEmpty x) arr)"
proof -
  have "foldl (\<lambda>sum item. if isEmpty item then sum else sum + 1) n arr =
      n + length (filter (\<lambda>x. \<not> isEmpty x) arr)" for n
    by (induction arr arbitrary: n) auto
  then show ?thesis by (simp add: arrayNonEmptyLength_def)
qed

lemma padArrayEnd_ok: "length arr \<le> n \<Longrightarrow> padArrayEnd arr e n = Inr (arr @ replicate (n - length arr) e)"
  by (simp add: padArrayEnd_def)

end
