(* ===== verification/BufferReader.thy ===== *)
theory BufferReader
  imports Serialize
begin

text \<open>
  \<^verbatim>\<open>foundation/src/serialize/buffer_reader.ts\<close>: a cursor over a buffer. Every method advances the
  index before it reads, so the index has moved even when the read throws. \<open>reads m bs x\<close> says that the
  method \<open>m\<close> consumes exactly the bytes \<open>bs\<close>, wherever they stand, and returns \<open>x\<close>; its rules compose
  along the sequencing of methods. The locale \<open>reader_codec\<close> is the interface of a class with
  \<open>toBuffer\<close> and \<open>fromBuffer(reader)\<close>.
\<close>

record buffer_reader =
  br_buffer :: buffer
  br_index :: nat

definition new_BufferReader :: "buffer \<Rightarrow> nat \<Rightarrow> buffer_reader" where
  "new_BufferReader buf offset = \<lparr>br_buffer = buf, br_index = offset\<rparr>"

datatype buffer_or_reader = IsBuffer buffer | IsReader buffer_reader

fun asReader :: "buffer_or_reader \<Rightarrow> buffer_reader" where
  "asReader (IsBuffer b) = new_BufferReader b 0"
| "asReader (IsReader r) = r"

type_synonym 'a reading = "(buffer_reader, 'a) js"

definition advance :: "nat \<Rightarrow> unit reading" where
  "advance n = jmodify (\<lambda>r. r\<lparr>br_index := br_index r + n\<rparr>)"

definition readNumber :: "int reading" where
  "readNumber = jbind (advance 4) (\<lambda>_. jbind jget (\<lambda>r.
     jlift (readUInt32BE (br_buffer r) (br_index r - 4))))"

definition readUInt16BE :: "buffer \<Rightarrow> nat \<Rightarrow> int result" where
  "readUInt16BE buf off =
     (if off + 2 > length buf then Inl RangeError else Inr (be_val (subarray off (off + 2) buf)))"

definition readUInt16 :: "int reading" where
  "readUInt16 = jbind (advance 2) (\<lambda>_. jbind jget (\<lambda>r.
     jlift (readUInt16BE (br_buffer r) (br_index r - 2))))"

text \<open>\<open>buffer.at(i)\<close> is \<open>undefined\<close> past the end, which \<open>Boolean\<close> maps to \<open>false\<close>.\<close>

definition readBoolean :: "bool reading" where
  "readBoolean = jbind (advance 1) (\<lambda>_. jbind jget (\<lambda>r.
     jreturn (if br_index r - 1 < length (br_buffer r) then br_buffer r ! (br_index r - 1) \<noteq> 0 else False)))"

definition readBytes :: "nat \<Rightarrow> buffer reading" where
  "readBytes n = jbind (advance n) (\<lambda>_. jbind jget (\<lambda>r.
     jreturn (subarray (br_index r - n) (br_index r) (br_buffer r))))"

definition readVector :: "'a reading \<Rightarrow> 'a list reading" where
  "readVector fromBuffer = jbind readNumber (\<lambda>size. jrepeat (nat size) fromBuffer)"

definition readNumberVector :: "int list reading" where
  "readNumberVector = readVector readNumber"

definition readArray :: "nat \<Rightarrow> 'a reading \<Rightarrow> 'a list reading" where
  "readArray n fromBuffer = jrepeat n fromBuffer"

definition readBuffer :: "buffer reading" where
  "readBuffer = jbind readNumber (\<lambda>size. readBytes (nat size))"

lemma readNumber_index: "br_index (snd (readNumber r)) = br_index r + 4"
  by (simp add: readNumber_def advance_def jbind_def)

lemma readBuffer_index: "br_index r + 4 \<le> br_index (snd (readBuffer r))"
proof -
  obtain x r' where rn: "readNumber r = (x, r')" by (cases "readNumber r") auto
  with readNumber_index[of r] have "br_index r' = br_index r + 4" by simp
  with rn show ?thesis by (cases x) (auto simp: readBuffer_def jbind_def readBytes_def advance_def)
qed

text \<open>The loop of \<open>readBufferArray\<close>: every successful iteration advances the index by at least the four
  bytes of a length prefix.\<close>

function readBufferArray_loop :: "nat \<Rightarrow> buffer list reading" where
  "readBufferArray_loop end r =
     (if br_index r < end then
        (case readBuffer r of
           (Inl e, r') \<Rightarrow> (Inl e, r')
         | (Inr item, r') \<Rightarrow>
             (case readBufferArray_loop end r' of
                (Inl e, r'') \<Rightarrow> (Inl e, r'')
              | (Inr items, r'') \<Rightarrow> (Inr (item # items), r'')))
      else (Inr [], r))"
  by pat_completeness auto
termination
proof (relation "measure (\<lambda>(end, r). end - br_index r)", goal_cases)
  case 1
  then show ?case by simp
next
  case (2 bound r)
  have "br_index r + 4 \<le> br_index (snd (readBuffer r))" by (rule readBuffer_index)
  with 2 show ?case by (auto dest: arg_cong[of _ _ snd])
qed

declare readBufferArray_loop.simps [simp del]

definition readBufferArray :: "int \<Rightarrow> buffer list reading" where
  "readBufferArray sz = jbind jget (\<lambda>r.
     let end = (if sz \<ge> 0 then br_index r + nat sz else length (br_buffer r)) in
     jbind (readBufferArray_loop end) (\<lambda>items. jbind jget (\<lambda>r'.
       if br_index r' \<noteq> end
       then jthrow (Error (''Reader buffer was not fully consumed. Consumed up to '' @ dec (int (br_index r')) @
              '' bytes. End of data: '' @ dec (int end) @ '' bytes.''))
       else jreturn items)))"

definition readObject :: "'a reading \<Rightarrow> 'a reading" where
  "readObject fromBuffer = fromBuffer"

text \<open>\<open>n ? this.index + n : undefined\<close>: an omitted \<open>n\<close> and \<open>n = 0\<close> both mean "to the end".\<close>

definition peekBytes :: "nat option \<Rightarrow> buffer_reader \<Rightarrow> buffer" where
  "peekBytes n r =
     (case n of
        None \<Rightarrow> drop (br_index r) (br_buffer r)
      | Some k \<Rightarrow> if k \<noteq> 0 then subarray (br_index r) (br_index r + k) (br_buffer r)
                  else drop (br_index r) (br_buffer r))"

text \<open>\<open>utf8\<close> stands for Node's \<open>buffer.toString()\<close>.\<close>

definition readString :: "(buffer \<Rightarrow> 'str) \<Rightarrow> 'str reading" where
  "readString utf8 = jbind readBuffer (\<lambda>b. jreturn (utf8 b))"

fun readMap_loop :: "(buffer \<Rightarrow> 'str) \<Rightarrow> 'a reading \<Rightarrow> nat \<Rightarrow> ('str \<rightharpoonup> 'a) \<Rightarrow> ('str \<rightharpoonup> 'a) reading" where
  "readMap_loop utf8 fromBuffer 0 m = jreturn m"
| "readMap_loop utf8 fromBuffer (Suc i) m =
     jbind (readString utf8) (\<lambda>key. jbind (readObject fromBuffer) (\<lambda>v.
       readMap_loop utf8 fromBuffer i (m(key \<mapsto> v))))"

definition readMap :: "(buffer \<Rightarrow> 'str) \<Rightarrow> 'a reading \<Rightarrow> ('str \<rightharpoonup> 'a) reading" where
  "readMap utf8 fromBuffer = jbind readNumber (\<lambda>numEntries.
     readMap_loop utf8 fromBuffer (nat numEntries) Map.empty)"

definition getLength :: "buffer_reader \<Rightarrow> nat" where
  "getLength r = length (br_buffer r)"

section \<open>A calculus of consuming reads\<close>

definition reads :: "'a reading \<Rightarrow> buffer \<Rightarrow> 'a \<Rightarrow> bool" where
  "reads m bs x \<longleftrightarrow> (\<forall>pre post. m \<lparr>br_buffer = pre @ bs @ post, br_index = length pre\<rparr> =
     (Inr x, \<lparr>br_buffer = pre @ bs @ post, br_index = length (pre @ bs)\<rparr>))"

lemma readsD:
  "reads m bs x \<Longrightarrow> m \<lparr>br_buffer = pre @ bs @ post, br_index = length pre\<rparr> =
     (Inr x, \<lparr>br_buffer = pre @ bs @ post, br_index = length (pre @ bs)\<rparr>)"
  by (simp add: reads_def)

lemma reads_whole:
  assumes "reads m bs x"
  shows "fst (m (new_BufferReader bs 0)) = Inr x"
  using readsD[OF assms, of "[]" "[]"] by (simp add: new_BufferReader_def)

lemma reads_return [intro, simp]: "reads (jreturn x) [] x"
  by (simp add: reads_def)

lemma reads_pair [simp]: "reads (Pair (Inr x)) [] x"
  by (simp add: reads_def)

lemma reads_bind [intro]:
  assumes "reads m bs x" and "reads (f x) cs y"
  shows "reads (jbind m f) (bs @ cs) y"
  unfolding reads_def
proof (intro allI)
  fix pre post
  show "jbind m f \<lparr>br_buffer = pre @ (bs @ cs) @ post, br_index = length pre\<rparr> =
    (Inr y, \<lparr>br_buffer = pre @ (bs @ cs) @ post, br_index = length (pre @ bs @ cs)\<rparr>)"
    using readsD[OF assms(1), of pre "cs @ post"] readsD[OF assms(2), of "pre @ bs" post]
    by (simp add: jbind_def)
qed

lemma reads_map: "reads m bs x \<Longrightarrow> reads (jbind m (\<lambda>x. jreturn (f x))) bs (f x)"
  using reads_bind[of m bs x "\<lambda>x. jreturn (f x)" "[]"] by simp

lemma reads_repeat:
  assumes "list_all2 (\<lambda>x bs. reads m bs x) xs bss"
  shows "reads (jrepeat (length xs) m) (concat bss) xs"
  using assms
proof (induction xs bss rule: list_all2_induct)
  case Nil
  then show ?case by simp
next
  case (Cons x xs bs bss)
  have "reads (jbind (jrepeat (length xs) m) (\<lambda>xs. jreturn (x # xs))) (concat bss) (x # xs)"
    by (rule reads_map) (rule Cons.IH)
  with Cons.hyps show ?case by (auto intro: reads_bind)
qed

lemma reads_number [codec_simps]: "0 \<le> n \<Longrightarrow> n < 2 ^ 32 \<Longrightarrow> reads readNumber (be_bytes 4 n) n"
  by (simp add: reads_def readNumber_def advance_def jbind_def read_middle be_val_be_bytes_4)

lemma reads_UInt16 [codec_simps]: "0 \<le> n \<Longrightarrow> n < 2 ^ 16 \<Longrightarrow> reads readUInt16 (be_bytes 2 n) n"
  using subarray_middle[of "be_bytes 2 n" 2]
  by (simp add: reads_def readUInt16_def readUInt16BE_def advance_def jbind_def be_val_be_bytes)

lemma reads_boolean [codec_simps]: "reads readBoolean [if b then 1 else 0] b"
  by (simp add: reads_def readBoolean_def advance_def jbind_def nth_append)

lemma reads_bytes [codec_simps]: "length bs = n \<Longrightarrow> reads (readBytes n) bs bs"
  by (auto simp: reads_def readBytes_def advance_def jbind_def subarray_def)

lemma reads_buffer:
  assumes "int (length b) < 2 ^ 32"
  shows "reads readBuffer (be_bytes 4 (int (length b)) @ b) b"
  unfolding readBuffer_def
  by (rule reads_bind[OF reads_number]) (use assms in \<open>simp_all add: reads_bytes\<close>)

text \<open>Bytes are not checked: a read past the end returns what is left, and the index runs on.\<close>

lemma readBytes_short:
  "readBytes n \<lparr>br_buffer = buf, br_index = i\<rparr> =
    (Inr (subarray i (i + n) buf), \<lparr>br_buffer = buf, br_index = i + n\<rparr>)"
  by (simp add: readBytes_def advance_def jbind_def)

section \<open>The interface of a serialisable class\<close>

locale reader_codec =
  fixes toBuffer :: "'a \<Rightarrow> buffer result"
    and fromBuffer :: "'a reading"
    and valid :: "'a \<Rightarrow> bool"
  assumes to_total: "valid x \<Longrightarrow> \<exists>bs. toBuffer x = Inr bs"
    and from_to: "valid x \<Longrightarrow> toBuffer x = Inr bs \<Longrightarrow> reads fromBuffer bs x"
begin

lemma whole_roundtrip:
  "valid x \<Longrightarrow> toBuffer x = Inr bs \<Longrightarrow> fst (fromBuffer (new_BufferReader bs 0)) = Inr x"
  by (rule reads_whole) (rule from_to)

lemma array_reads:
  assumes "\<forall>x \<in> set xs. valid x" and "rtraverse toBuffer xs = Inr bss"
  shows "reads (readArray (length xs) fromBuffer) (concat bss) xs"
  unfolding readArray_def
  by (rule reads_repeat) (use assms from_to in \<open>auto simp: rtraverse_Inr list_all2_conv_all_nth\<close>)

lemma vector_reads:
  assumes "\<forall>x \<in> set xs. valid x" and "rtraverse toBuffer xs = Inr bss" and "int (length xs) < 2 ^ 32"
  shows "reads (readVector fromBuffer) (be_bytes 4 (int (length xs)) @ concat bss) xs"
  unfolding readVector_def
proof (rule reads_bind)
  show "reads readNumber (be_bytes 4 (int (length xs))) (int (length xs))"
    using assms(3) by (intro reads_number) simp_all
  show "reads (jrepeat (nat (int (length xs))) fromBuffer) (concat bss) xs"
    using array_reads[OF assms(1,2)] by (simp add: readArray_def)
qed

text \<open>Encodings of valid values are self-delimiting: two of them at a common position agree.\<close>

lemma toBuffer_prefix_free:
  assumes "valid x" "toBuffer x = Inr bs" "valid y" "toBuffer y = Inr cs" and "bs @ r = cs @ s"
  shows "x = y"
proof -
  have "(Inr x, \<lparr>br_buffer = bs @ r, br_index = length bs\<rparr>) =
      ((Inr y, \<lparr>br_buffer = cs @ s, br_index = length cs\<rparr>) :: 'a result \<times> buffer_reader)"
    using readsD[OF from_to[OF assms(1,2)], of "[]" r] readsD[OF from_to[OF assms(3,4)], of "[]" s] assms(5)
    by simp
  then show ?thesis by simp
qed

end

lemma numToUInt32BE_4: "0 \<le> n \<Longrightarrow> n < 2 ^ 32 \<Longrightarrow> numToUInt32BE n 4 = Inr (be_bytes 4 n)"
  by (simp add: numToUInt32BE_def write_alloc)

lemma boolToByte_byte: "boolToByte b = Inr [if b then 1 else 0]"
  by (simp add: boolToByte_def write_alloc)

interpretation num_codec: reader_codec "\<lambda>n. numToUInt32BE n 4" readNumber "\<lambda>n. 0 \<le> n \<and> n < 2 ^ 32"
  by unfold_locales (auto simp: numToUInt32BE_4 reads_number)

interpretation bool_codec: reader_codec boolToByte readBoolean "\<lambda>_. True"
  using reads_boolean by unfold_locales (auto simp: boolToByte_byte)

interpretation bytes_codec: reader_codec "\<lambda>b. Inr b" "readBytes n" "\<lambda>b. length b = n" for n
  by unfold_locales (auto simp: reads_bytes)

interpretation buffer_codec: reader_codec serializeBufferToVector readBuffer "\<lambda>b. int (length b) < 2 ^ 32"
  using reads_buffer by unfold_locales (auto simp: serializeBufferToVector_def write_alloc)

section \<open>Arrays of length-prefixed buffers\<close>

lemma readBufferArray_loop_reads:
  assumes "\<forall>b \<in> set bss. int (length b) < 2 ^ 32"
    and "enc = concat (map (\<lambda>b. be_bytes 4 (int (length b)) @ b) bss)"
  shows "readBufferArray_loop (length (pre @ enc))
      \<lparr>br_buffer = pre @ enc @ post, br_index = length pre\<rparr> =
    (Inr bss, \<lparr>br_buffer = pre @ enc @ post, br_index = length (pre @ enc)\<rparr>)"
  using assms
proof (induction bss arbitrary: pre enc)
  case Nil
  then show ?case by (simp add: readBufferArray_loop.simps)
next
  case (Cons b bss)
  define hd4 where "hd4 = be_bytes 4 (int (length b)) @ b"
  define rest where "rest = concat (map (\<lambda>b. be_bytes 4 (int (length b)) @ b) bss)"
  have enc: "enc = hd4 @ rest" using Cons.prems(2) by (simp add: hd4_def rest_def)
  have rd: "reads readBuffer hd4 b" unfolding hd4_def using Cons.prems(1) by (intro reads_buffer) simp
  have pos: "0 < length hd4" by (simp add: hd4_def)
  have IH: "readBufferArray_loop (length ((pre @ hd4) @ rest))
      \<lparr>br_buffer = (pre @ hd4) @ rest @ post, br_index = length (pre @ hd4)\<rparr> =
    (Inr bss, \<lparr>br_buffer = (pre @ hd4) @ rest @ post, br_index = length ((pre @ hd4) @ rest)\<rparr>)"
    by (rule Cons.IH) (use Cons.prems(1) rest_def in simp_all)
  show ?case
    using IH readsD[OF rd, of pre "rest @ post"] pos
    by (subst readBufferArray_loop.simps) (simp add: enc)
qed

lemma readBufferArray_reads:
  assumes "\<forall>b \<in> set bss. int (length b) < 2 ^ 32"
  shows "readBufferArray (-1) (new_BufferReader (concat (map (\<lambda>b. be_bytes 4 (int (length b)) @ b) bss)) 0) =
    (Inr bss, \<lparr>br_buffer = concat (map (\<lambda>b. be_bytes 4 (int (length b)) @ b) bss),
       br_index = length (concat (map (\<lambda>b. be_bytes 4 (int (length b)) @ b) bss))\<rparr>)"
  using readBufferArray_loop_reads[OF assms refl, of "[]" "[]"]
  by (simp add: readBufferArray_def new_BufferReader_def jbind_def Let_def)

end
