(* ===== verification/FieldElements.thy ===== *)
theory FieldElements
  imports BufferReader
begin

text \<open>
  Field elements and addresses: \<^verbatim>\<open>foundation/src/fields/fields.ts\<close> (\<open>Fr\<close>, \<open>Fq\<close>),
  \<^verbatim>\<open>fields/point.ts\<close>, \<^verbatim>\<open>aztec-address/index.ts\<close> and \<^verbatim>\<open>eth-address/index.ts\<close>. Randomness is an
  argument (the bytes that \<open>randomBytes\<close> returned) and so is the Keccak hash of the checksum functions.
  The serialisable classes interpret the locale \<open>reader_codec\<close>.
\<close>

section \<open>Fr\<close>

record fr =
  fr_value :: int

definition Fr_MODULUS :: int where
  "Fr_MODULUS = 0x30644e72e131a029b85045b68181585d2833e84879b9709143e1f593f0000001"

definition Fr_MAX_VALUE :: int where
  "Fr_MAX_VALUE = Fr_MODULUS - 1"

definition new_Fr :: "int \<Rightarrow> fr" where
  "new_Fr v = \<lparr>fr_value = v\<rparr>"

definition Fr_ZERO :: fr where
  "Fr_ZERO = new_Fr 0"

definition Fr_random :: "buffer \<Rightarrow> fr" where
  "Fr_random randomBytes32 = new_Fr (toBigIntBE randomBytes32 mod Fr_MODULUS)"

definition Fr_fromBuffer :: "fr reading" where
  "Fr_fromBuffer = jbind (readBytes 32) (\<lambda>b. jreturn (new_Fr (toBigIntBE b)))"

text \<open>\<open>address.replace(/^0x/i, '')\<close>\<close>

fun strip0x :: "string \<Rightarrow> string" where
  "strip0x (a # b # s) = (if a = CHR ''0'' \<and> (b = CHR ''x'' \<or> b = CHR ''X'') then s else a # b # s)"
| "strip0x s = s"

definition Fr_fromString :: "string \<Rightarrow> fr result" where
  "Fr_fromString address = fst (Fr_fromBuffer (new_BufferReader (buf_from_hex (strip0x address)) 0))"

definition Fr_toBuffer :: "fr \<Rightarrow> buffer result" where
  "Fr_toBuffer x = toBufferBE (fr_value x) 32"

definition Fr_toString :: "bool \<Rightarrow> fr \<Rightarrow> string" where
  "Fr_toString padTo32 x = toHex (fr_value x) padTo32"

definition shorten :: "string \<Rightarrow> string" where
  "shorten str = take 10 str @ ''...'' @ drop (length str - 4) str"

definition Fr_toShortString :: "fr \<Rightarrow> string" where
  "Fr_toShortString x = shorten (Fr_toString False x)"

definition Fr_equals :: "fr \<Rightarrow> fr \<Rightarrow> bool" where
  "Fr_equals x rhs = (fr_value x = fr_value rhs)"

definition Fr_isZero :: "fr \<Rightarrow> bool" where
  "Fr_isZero x = (fr_value x = 0)"

section \<open>Fq\<close>

record fq =
  fq_value :: int

definition Fq_MODULUS :: int where
  "Fq_MODULUS = 0x30644e72e131a029b85045b68181585d97816a916871ca8d3c208c16d87cfd47"

text \<open>The source defines the bound of \<open>Fq\<close> from the modulus of \<open>Fr\<close>.\<close>

definition Fq_MAX_VALUE :: int where
  "Fq_MAX_VALUE = Fr_MODULUS - 1"

definition new_Fq :: "int \<Rightarrow> fq result" where
  "new_Fq v = (if v > Fq_MAX_VALUE then Inl (Error (''Fr out of range '' @ dec v @ ''.'')) else Inr \<lparr>fq_value = v\<rparr>)"

definition Fq_random :: "buffer \<Rightarrow> fq result" where
  "Fq_random randomBytes64 = new_Fq (toBigIntBE randomBytes64 mod Fq_MODULUS)"

definition Fq_fromBuffer :: "fq reading" where
  "Fq_fromBuffer = jbind (readBytes 32) (\<lambda>b. jlift (new_Fq (toBigIntBE b)))"

definition Fq_toBuffer :: "fq \<Rightarrow> buffer result" where
  "Fq_toBuffer x = toBufferBE (fq_value x) 32"

definition Fq_toString :: "fq \<Rightarrow> string" where
  "Fq_toString x = toHex (fq_value x) False"

definition Fq_isZero :: "fq \<Rightarrow> bool" where
  "Fq_isZero x = (fq_value x = 0)"

section \<open>AztecAddress\<close>

record aztec_address =
  aa_buffer :: buffer

definition AztecAddress_MAX_VALUE :: int where
  "AztecAddress_MAX_VALUE = 0x30644e72e131a029b85045b68181585d2833e84879b9709143e1f593f0000001 - 1"

definition new_AztecAddress :: "buffer \<Rightarrow> aztec_address result" where
  "new_AztecAddress buf =
     (let v = toBigIntBE buf in
      if v > AztecAddress_MAX_VALUE then Inl (Error (''AztecAddress out of range '' @ dec v @ ''.''))
      else Inr \<lparr>aa_buffer = buf\<rparr>)"

definition AztecAddress_ZERO :: aztec_address where
  "AztecAddress_ZERO = \<lparr>aa_buffer = replicate 32 0\<rparr>"

definition AztecAddress_random :: "buffer \<Rightarrow> aztec_address result" where
  "AztecAddress_random randomBytes32 =
     rbind (toBufferBE (fr_value (Fr_random randomBytes32)) 32) new_AztecAddress"

definition AztecAddress_fromBuffer :: "aztec_address reading" where
  "AztecAddress_fromBuffer = jbind (readBytes 32) (\<lambda>b. jlift (new_AztecAddress b))"

definition AztecAddress_fromString :: "string \<Rightarrow> aztec_address result" where
  "AztecAddress_fromString address =
     (let buf = buf_from_hex (strip0x address) in
      if length buf \<noteq> 32 then Inl (Error (''Invalid length '' @ dec (int (length buf)) @ ''.''))
      else new_AztecAddress buf)"

definition AztecAddress_toBuffer :: "aztec_address \<Rightarrow> buffer" where
  "AztecAddress_toBuffer a = aa_buffer a"

definition AztecAddress_toString :: "aztec_address \<Rightarrow> string" where
  "AztecAddress_toString a = ''0x'' @ buf_to_hex (aa_buffer a)"

definition AztecAddress_toShortString :: "aztec_address \<Rightarrow> string" where
  "AztecAddress_toShortString a = shorten (AztecAddress_toString a)"

definition AztecAddress_toField :: "aztec_address \<Rightarrow> fr result" where
  "AztecAddress_toField a = fst (Fr_fromBuffer (new_BufferReader (AztecAddress_toBuffer a) 0))"

definition AztecAddress_equals :: "aztec_address \<Rightarrow> aztec_address \<Rightarrow> bool" where
  "AztecAddress_equals a rhs = (aa_buffer a = aa_buffer rhs)"

definition AztecAddress_isZero :: "aztec_address \<Rightarrow> bool" where
  "AztecAddress_isZero a = AztecAddress_equals a AztecAddress_ZERO"

section \<open>Point\<close>

record point =
  pt_buffer :: buffer

definition Point_MAX_VALUE :: int where
  "Point_MAX_VALUE = 0x30644e72e131a029b85045b68181585d2833e84879b9709143e1f593f0000001 - 1"

definition new_Point :: "buffer \<Rightarrow> point result" where
  "new_Point buf =
     (let coordinateX = toBigIntBE (subarray 0 32 buf);
          coordinateY = toBigIntBE (subarray 32 64 buf)
      in if coordinateX > Point_MAX_VALUE
         then Inl (Error (''Coordinate x out of range: '' @ dec coordinateX @ ''.''))
         else if coordinateY > Point_MAX_VALUE
         then Inl (Error (''Coordinate y out of range: '' @ dec coordinateY @ ''.''))
         else Inr \<lparr>pt_buffer = buf\<rparr>)"

definition Point_x :: "point \<Rightarrow> fr result" where
  "Point_x p = fst (Fr_fromBuffer (new_BufferReader (subarray 0 32 (pt_buffer p)) 0))"

definition Point_y :: "point \<Rightarrow> fr result" where
  "Point_y p = fst (Fr_fromBuffer (new_BufferReader (subarray 32 64 (pt_buffer p)) 0))"

definition Point_random :: "buffer \<Rightarrow> point result" where
  "Point_random randomBytes32 = rbind (toBufferBE (fr_value (Fr_random randomBytes32)) 64) new_Point"

definition Point_fromBuffer :: "point reading" where
  "Point_fromBuffer = jbind (readBytes 64) (\<lambda>b. jlift (new_Point b))"

definition Point_fromCoordinates :: "fr \<Rightarrow> fr \<Rightarrow> point result" where
  "Point_fromCoordinates x y =
     rbind (Fr_toBuffer x) (\<lambda>bx. rbind (Fr_toBuffer y) (\<lambda>by. new_Point (bx @ by)))"

definition Point_fromString :: "string \<Rightarrow> point result" where
  "Point_fromString address = new_Point (buf_from_hex (strip0x address))"

definition Point_toBuffer :: "point \<Rightarrow> buffer" where
  "Point_toBuffer p = pt_buffer p"

definition Point_toString :: "point \<Rightarrow> string" where
  "Point_toString p = ''0x'' @ buf_to_hex (pt_buffer p)"

definition Point_equals :: "point \<Rightarrow> point \<Rightarrow> bool" where
  "Point_equals p rhs = (pt_buffer p = pt_buffer rhs)"

section \<open>EthAddress\<close>

record eth_address =
  ea_buffer :: buffer

definition new_EthAddress :: "buffer \<Rightarrow> eth_address result" where
  "new_EthAddress buf =
     (if length buf = 32 then
        (if subarray 0 12 buf \<noteq> replicate 12 0 then Inl (Error ''Invalid address buffer.'')
         else Inr \<lparr>ea_buffer = drop 12 buf\<rparr>)
      else if length buf \<noteq> 20
      then Inl (Error (''Expect buffer size to be 20. Got '' @ dec (int (length buf)) @ ''.''))
      else Inr \<lparr>ea_buffer = buf\<rparr>)"

definition EthAddress_ZERO :: eth_address where
  "EthAddress_ZERO = \<lparr>ea_buffer = replicate 20 0\<rparr>"

definition is_digit :: "char \<Rightarrow> bool" where
  "is_digit c = (let n = of_char c :: nat in 48 \<le> n \<and> n \<le> 57)"

definition is_lower_af :: "char \<Rightarrow> bool" where
  "is_lower_af c = (let n = of_char c :: nat in 97 \<le> n \<and> n \<le> 102)"

definition is_upper_af :: "char \<Rightarrow> bool" where
  "is_upper_af c = (let n = of_char c :: nat in 65 \<le> n \<and> n \<le> 70)"

definition to_lower :: "char \<Rightarrow> char" where
  "to_lower c = (let n = of_char c :: nat in if 65 \<le> n \<and> n \<le> 90 then char_of (n + 32) else c)"

definition to_upper :: "char \<Rightarrow> char" where
  "to_upper c = (let n = of_char c :: nat in if 97 \<le> n \<and> n \<le> 122 then char_of (n - 32) else c)"

text \<open>The hash digit \<open>parseInt(addressHash[i], 16)\<close>; \<open>None\<close> is \<open>NaN\<close>, which makes every comparison false.\<close>

definition hash_digit :: "string \<Rightarrow> nat \<Rightarrow> nat option" where
  "hash_digit h i = (if i < length h then hex_val (h ! i) else None)"

fun checksum_loop :: "string \<Rightarrow> string \<Rightarrow> nat list \<Rightarrow> bool result" where
  "checksum_loop address addressHash [] = Inr True"
| "checksum_loop address addressHash (i # is) =
     (case hash_digit addressHash i of
        None \<Rightarrow> checksum_loop address addressHash is
      | Some d \<Rightarrow>
          if i \<ge> length address then Inl TypeError
          else if (d > 7 \<and> to_upper (address ! i) \<noteq> address ! i) \<or> (d \<le> 7 \<and> to_lower (address ! i) \<noteq> address ! i)
          then Inr False
          else checksum_loop address addressHash is)"

definition checkAddressChecksum :: "(string \<Rightarrow> string) \<Rightarrow> string \<Rightarrow> bool result" where
  "checkAddressChecksum keccak256String address0 =
     (let address = strip0x address0;
          addressHash = keccak256String (map to_lower address)
      in checksum_loop address addressHash [0..<40])"

definition isAddress :: "(string \<Rightarrow> string) \<Rightarrow> string \<Rightarrow> bool result" where
  "isAddress keccak256String address =
     (let s = strip0x address in
      if \<not> (length s = 40 \<and> list_all (\<lambda>c. is_digit c \<or> is_lower_af c \<or> is_upper_af c) s) then Inr False
      else if list_all (\<lambda>c. is_digit c \<or> is_lower_af c) s \<or> list_all (\<lambda>c. is_digit c \<or> is_upper_af c) s
      then Inr True
      else checkAddressChecksum keccak256String address)"

definition EthAddress_fromString :: "(string \<Rightarrow> string) \<Rightarrow> string \<Rightarrow> eth_address result" where
  "EthAddress_fromString keccak256String address =
     rbind (isAddress keccak256String address) (\<lambda>ok.
       if \<not> ok then Inl (Error (''Invalid address string: '' @ address))
       else new_EthAddress (buf_from_hex (strip0x address)))"

definition toChecksumAddress :: "(string \<Rightarrow> string) \<Rightarrow> string \<Rightarrow> string result" where
  "toChecksumAddress keccak256String address0 =
     rbind (isAddress keccak256String address0) (\<lambda>ok.
       if \<not> ok then Inl (Error ''Invalid address string.'')
       else let address = strip0x (map to_lower address0);
                addressHash = keccak256String address
            in Inr (''0x'' @ map (\<lambda>i. case hash_digit addressHash i of
                 Some d \<Rightarrow> if d > 7 then to_upper (address ! i) else address ! i
               | None \<Rightarrow> address ! i) [0..<length address]))"

definition EthAddress_random :: "buffer \<Rightarrow> eth_address result" where
  "EthAddress_random randomBytes20 = new_EthAddress randomBytes20"

definition EthAddress_equals :: "eth_address \<Rightarrow> eth_address \<Rightarrow> bool" where
  "EthAddress_equals a rhs = (ea_buffer a = ea_buffer rhs)"

definition EthAddress_isZero :: "eth_address \<Rightarrow> bool" where
  "EthAddress_isZero a = EthAddress_equals a EthAddress_ZERO"

definition EthAddress_toString :: "eth_address \<Rightarrow> string" where
  "EthAddress_toString a = ''0x'' @ buf_to_hex (ea_buffer a)"

definition EthAddress_toChecksumString :: "(string \<Rightarrow> string) \<Rightarrow> eth_address \<Rightarrow> string result" where
  "EthAddress_toChecksumString keccak256String a = toChecksumAddress keccak256String (buf_to_hex (ea_buffer a))"

definition EthAddress_toBuffer :: "eth_address \<Rightarrow> buffer" where
  "EthAddress_toBuffer a = ea_buffer a"

text \<open>\<open>this.buffer.copy(buffer, 12)\<close> into a 32-byte buffer.\<close>

definition EthAddress_toBuffer32 :: "eth_address \<Rightarrow> buffer" where
  "EthAddress_toBuffer32 a =
     (let src = take 20 (ea_buffer a) in replicate 12 0 @ src @ replicate (20 - length src) 0)"

definition EthAddress_toField :: "eth_address \<Rightarrow> fr result" where
  "EthAddress_toField a = fst (Fr_fromBuffer (new_BufferReader (EthAddress_toBuffer32 a) 0))"

definition EthAddress_fromField :: "fr \<Rightarrow> eth_address result" where
  "EthAddress_fromField x = rbind (Fr_toBuffer x) (\<lambda>b. new_EthAddress (drop (length b - 20) b))"

definition EthAddress_fromBuffer :: "eth_address reading" where
  "EthAddress_fromBuffer = jbind readBuffer (\<lambda>b. jlift (new_EthAddress b))"

section \<open>Round trips of the field elements\<close>

lemma Fr_toBuffer_bytes: "0 \<le> fr_value x \<Longrightarrow> fr_value x < 256 ^ 32 \<Longrightarrow> Fr_toBuffer x = Inr (be_bytes 32 (fr_value x))"
  by (simp add: Fr_toBuffer_def toBufferBE_fit)

lemma reads_Fr:
  assumes "length bs = 32"
  shows "reads Fr_fromBuffer bs (new_Fr (be_val bs))"
proof -
  have "reads Fr_fromBuffer bs (new_Fr (toBigIntBE bs))"
    unfolding Fr_fromBuffer_def by (rule reads_map) (rule reads_bytes[OF assms])
  then show ?thesis by (simp add: toBigIntBE_be_val)
qed

interpretation fr_codec: reader_codec Fr_toBuffer Fr_fromBuffer "\<lambda>x. 0 \<le> fr_value x \<and> fr_value x < 256 ^ 32"
proof (unfold_locales, goal_cases)
  case (1 x)
  then show ?case by (simp add: Fr_toBuffer_bytes)
next
  case (2 x bs)
  then have "bs = be_bytes 32 (fr_value x)" by (auto simp: Fr_toBuffer_bytes)
  with 2 have "length bs = 32" "be_val bs = fr_value x" by (simp_all add: be_val_be_bytes)
  then have "reads Fr_fromBuffer bs (new_Fr (fr_value x))" using reads_Fr[of bs] by simp
  moreover have "new_Fr (fr_value x) = x" by (cases x) (simp add: new_Fr_def)
  ultimately show ?case by simp
qed

lemma reads_jlift:
  assumes "reads m bs b" and "f b = Inr x"
  shows "reads (jbind m (\<lambda>b. jlift (f b))) bs x"
proof -
  have "reads (jlift (f b)) [] x" by (simp add: reads_def assms(2))
  then show ?thesis using reads_bind[OF assms(1), of "\<lambda>b. jlift (f b)" "[]" x] by simp
qed

interpretation fq_codec: reader_codec Fq_toBuffer Fq_fromBuffer "\<lambda>x. 0 \<le> fq_value x \<and> fq_value x \<le> Fq_MAX_VALUE"
proof (unfold_locales, goal_cases)
  case (1 x)
  then show ?case by (simp add: Fq_toBuffer_def toBufferBE_fit Fq_MAX_VALUE_def Fr_MODULUS_def)
next
  case (2 x bs)
  then have v: "0 \<le> fq_value x" "fq_value x < 256 ^ 32" by (simp_all add: Fq_MAX_VALUE_def Fr_MODULUS_def)
  then have bs: "bs = be_bytes 32 (fq_value x)" using 2 by (simp add: Fq_toBuffer_def toBufferBE_fit)
  have "new_Fq (toBigIntBE bs) = Inr x"
    using 2 v by (simp add: bs toBigIntBE_be_val be_val_be_bytes new_Fq_def)
  moreover have "length bs = 32" by (simp add: bs)
  ultimately show ?case unfolding Fq_fromBuffer_def
    by (simp add: reads_jlift[OF reads_bytes, where f = "\<lambda>b. new_Fq (toBigIntBE b)"])
qed

interpretation address_codec: reader_codec "\<lambda>a. Inr (AztecAddress_toBuffer a)" AztecAddress_fromBuffer
    "\<lambda>a. length (aa_buffer a) = 32 \<and> be_val (aa_buffer a) \<le> AztecAddress_MAX_VALUE"
proof (unfold_locales, goal_cases)
  case (2 a bs)
  then have "new_AztecAddress bs = Inr a"
    by (auto simp: new_AztecAddress_def AztecAddress_toBuffer_def toBigIntBE_be_val Let_def)
  moreover have "length bs = 32" using 2 by (simp add: AztecAddress_toBuffer_def)
  ultimately show ?case unfolding AztecAddress_fromBuffer_def by (simp add: reads_jlift[OF reads_bytes])
qed simp

interpretation point_codec: reader_codec "\<lambda>p. Inr (Point_toBuffer p)" Point_fromBuffer
    "\<lambda>p. length (pt_buffer p) = 64 \<and> new_Point (pt_buffer p) = Inr p"
proof (unfold_locales, goal_cases)
  case (2 p bs)
  then have "length bs = 64" "new_Point bs = Inr p" by (auto simp: Point_toBuffer_def)
  then show ?case unfolding Point_fromBuffer_def by (simp add: reads_jlift[OF reads_bytes])
qed simp

end
