(* ===== verification/SiblingPaths.thy ===== *)
theory SiblingPaths
  imports FieldElements
begin

text \<open>
  \<^verbatim>\<open>merkle-tree/src/sibling_path/sibling_path.ts\<close>. A sibling path is the list of sibling hashes from the
  leaf level upwards together with its declared size. The compression function of the hasher
  (\<open>pedersen.compress\<close>, a WebAssembly routine) is an argument.
\<close>

record sibling_path =
  pathSize :: int
  sp_data :: "buffer list"

definition new_SiblingPath :: "int \<Rightarrow> buffer list \<Rightarrow> sibling_path result" where
  "new_SiblingPath n path =
     (if int (length path) \<noteq> n then Inl (Error ''Wrong 'fixed array' size'')
      else Inr \<lparr>pathSize = n, sp_data = path\<rparr>)"

fun zero_path :: "(buffer \<Rightarrow> buffer \<Rightarrow> buffer) \<Rightarrow> nat \<Rightarrow> buffer \<Rightarrow> buffer list" where
  "zero_path compress 0 current = []"
| "zero_path compress (Suc n) current = current # zero_path compress n (compress current current)"

definition SiblingPath_ZERO :: "(buffer \<Rightarrow> buffer \<Rightarrow> buffer) \<Rightarrow> nat \<Rightarrow> buffer \<Rightarrow> sibling_path result" where
  "SiblingPath_ZERO compress n zeroElement = new_SiblingPath (int n) (zero_path compress n zeroElement)"

definition SiblingPath_toBuffer :: "sibling_path \<Rightarrow> buffer result" where
  "SiblingPath_toBuffer p = serializeBufferArrayToVector (sp_data p)"

definition SiblingPath_toBufferArray :: "sibling_path \<Rightarrow> buffer list" where
  "SiblingPath_toBufferArray p = sp_data p"

definition SiblingPath_toFieldArray :: "sibling_path \<Rightarrow> fr list result" where
  "SiblingPath_toFieldArray p = rtraverse (\<lambda>buf. fst (Fr_fromBuffer (new_BufferReader buf 0))) (sp_data p)"

definition deserializePath :: "buffer deserialize_fn" where
  "deserializePath buf offset = Inr (subarray offset (offset + 32) buf, 32)"

definition SiblingPath_deserialize :: "sibling_path deserialize_fn" where
  "SiblingPath_deserialize buf offset =
     rbind (deserializeArrayFromVector deserializePath buf offset) (\<lambda>(elem, adv).
       rbind (new_SiblingPath (int (length elem)) elem) (\<lambda>p. Inr (p, adv)))"

definition SiblingPath_fromBuffer :: "buffer \<Rightarrow> nat \<Rightarrow> sibling_path result" where
  "SiblingPath_fromBuffer buf offset = rbind (SiblingPath_deserialize buf offset) (\<lambda>(elem, adv). Inr elem)"

definition SiblingPath_toString :: "sibling_path \<Rightarrow> string result" where
  "SiblingPath_toString p = rbind (SiblingPath_toBuffer p) (\<lambda>b. Inr (buf_to_hex b))"

definition SiblingPath_fromString :: "string \<Rightarrow> sibling_path result" where
  "SiblingPath_fromString repr = SiblingPath_fromBuffer (buf_from_hex repr) 0"

definition SiblingPath_getSubtreeSiblingPath :: "sibling_path \<Rightarrow> nat \<Rightarrow> sibling_path result" where
  "SiblingPath_getSubtreeSiblingPath p subtreeHeight =
     (let subtreeData = drop subtreeHeight (sp_data p);
          subtreePathSize = pathSize p - int subtreeHeight
      in new_SiblingPath subtreePathSize subtreeData)"

section \<open>What a sibling path proves\<close>

text \<open>The root obtained by hashing a value at an index up along a path of siblings: the statement a
  membership witness makes to the circuits.\<close>

fun path_root :: "(buffer \<Rightarrow> buffer \<Rightarrow> buffer) \<Rightarrow> buffer \<Rightarrow> int \<Rightarrow> buffer list \<Rightarrow> buffer" where
  "path_root H cur index [] = cur"
| "path_root H cur index (s # ss) =
     path_root H (if index mod 2 = 1 then H s cur else H cur s) (index div 2) ss"

definition path_ok :: "sibling_path \<Rightarrow> bool" where
  "path_ok p \<longleftrightarrow> pathSize p = int (length (sp_data p))"

lemma path_root_append:
  "path_root H cur index (ss @ ts) = path_root H (path_root H cur index ss) (index div 2 ^ length ss) ts"
proof (induction ss arbitrary: cur index)
  case (Cons s ss)
  then show ?case by (simp add: zdiv_zmult2_eq)
qed simp

lemma length_zero_path [simp]: "length (zero_path H n z) = n"
  by (induction n arbitrary: z) simp_all

lemma new_SiblingPath_ok: "new_SiblingPath n path = Inr p \<Longrightarrow> path_ok p \<and> sp_data p = path"
  by (auto simp: new_SiblingPath_def path_ok_def split: if_splits)

interpretation hash32: positional_codec "\<lambda>b. Inr b" deserializePath "\<lambda>b. length b = 32"
  using subarray_middle by unfold_locales (auto simp: deserializePath_def)

lemma SiblingPath_roundtrip_at:
  assumes "path_ok p" and "\<forall>b \<in> set (sp_data p). length b = 32" and "length (sp_data p) < 2 ^ 32"
    and "SiblingPath_toBuffer p = Inr v"
  shows "SiblingPath_deserialize (pre @ v @ post) (length pre) = Inr (p, length v)"
proof -
  have "list_all2 (\<lambda>x bs. length x = 32 \<and> Inr x = (Inr bs :: buffer result)) (sp_data p) (sp_data p)"
    using assms(2) by (simp add: list_all2_same)
  then have "deserializeArrayFromVector deserializePath (pre @ v @ post) (length pre) =
      Inr (sp_data p, length v)"
    using hash32.array_roundtrip assms(3,4) unfolding SiblingPath_toBuffer_def by blast
  with assms(1) show ?thesis
    by (cases p) (simp add: SiblingPath_deserialize_def new_SiblingPath_def path_ok_def)
qed

end
