(* ===== verification/MerkleTreeBase.thy ===== *)
theory MerkleTreeBase
  imports SiblingPaths "HOL-Library.AList"
begin

text \<open>
  \<^verbatim>\<open>merkle-tree/src/tree_base.ts\<close>, \<^verbatim>\<open>new_tree.ts\<close> and \<^verbatim>\<open>load_tree.ts\<close>: a Merkle tree of fixed depth over a
  LevelDB store, with a cache of uncommitted nodes. The store (\<^verbatim>\<open>levelup\<close>) and the hasher are code outside
  the repository: they are the record \<open>tree_env\<close> of functions every operation takes, and \<open>levelup_ok\<close>
  states the documented behaviour of the store the theorems rely on. The methods await the store one
  call at a time; the model runs each method to completion, which is how its callers use it (the
  world state serialises them through a queue).
\<close>

section \<open>The environment: store and hasher\<close>

text \<open>\<open>LeafData\<close> of \<^verbatim>\<open>interfaces/indexed_tree.ts\<close>; the indexed tree also hands such objects to the store.\<close>

record leaf_data =
  ld_value :: int
  nextIndex :: int
  nextValue :: int

datatype db_value = VBuffer buffer | VObject leaf_data

record 'db tree_env =
  lu_get :: "'db \<Rightarrow> string \<Rightarrow> buffer option"
  lu_batch :: "'db \<Rightarrow> (string \<times> db_value) list \<Rightarrow> 'db"
  compress :: "buffer \<Rightarrow> buffer \<Rightarrow> buffer"
  compressInputs :: "buffer list \<Rightarrow> buffer"

text \<open>What the code relies on: a batch is applied in order, a buffer written last under a key is what a
  later \<open>get\<close> of that key returns, and keys the batch does not name keep their value. Nothing is said of
  what the store makes of a value that is not a buffer. \<open>db.put(k, v)\<close> is the batch of one write.\<close>

definition levelup_ok :: "'db tree_env \<Rightarrow> bool" where
  "levelup_ok env \<longleftrightarrow>
     (\<forall>db ops k v. map_of (rev ops) k = Some (VBuffer v) \<longrightarrow> lu_get env (lu_batch env db ops) k = Some v) \<and>
     (\<forall>db ops k. map_of (rev ops) k = None \<longrightarrow> lu_get env (lu_batch env db ops) k = lu_get env db k)"

section \<open>Keys and metadata\<close>

definition MAX_DEPTH :: nat where
  "MAX_DEPTH = 254"

definition indexToKeyHash :: "string \<Rightarrow> nat \<Rightarrow> int \<Rightarrow> string" where
  "indexToKeyHash name level index = name @ '':'' @ dec (int level) @ '':'' @ dec index"

text \<open>\<open>root.copy(data)\<close> copies into a zeroed 36-byte buffer as much as fits.\<close>

definition encodeMeta :: "buffer \<Rightarrow> nat \<Rightarrow> int \<Rightarrow> buffer result" where
  "encodeMeta root depth sz =
     (let data = take 36 root @ replicate (36 - length (take 36 root)) 0 in
      rbind (writeUInt32LE data (int depth) 32) (\<lambda>data. Inr (data @ toBufferLE sz 32)))"

definition decodeMeta :: "buffer \<Rightarrow> (buffer \<times> nat \<times> int) result" where
  "decodeMeta m =
     rbind (readUInt32LE m 32) (\<lambda>depth. Inr (subarray 0 32 m, nat depth, toBigIntLE (drop 36 m)))"

definition INITIAL_LEAF :: buffer where
  "INITIAL_LEAF = replicate 32 0"

section \<open>State\<close>

record 'db tree =
  tdb :: 'db
  tname :: string
  tdepth :: nat
  tsize :: int
  troot :: buffer
  maxIndex :: int
  cachedSize :: "int option"
  zeroHashes :: "buffer list"
  tcache :: "(string \<times> buffer) list"

text \<open>The constructor's loop \<open>for (let i = depth - 1; i >= 0; --i)\<close> fills the array from its end.\<close>

fun zero_layers :: "('a \<Rightarrow> 'a \<Rightarrow> 'a) \<Rightarrow> nat \<Rightarrow> 'a \<Rightarrow> 'a list \<Rightarrow> 'a list \<times> 'a" where
  "zero_layers H 0 current zs = (zs, current)"
| "zero_layers H (Suc i) current zs = zero_layers H i (H current current) (current # zs)"

definition new_TreeBase ::
  "'db tree_env \<Rightarrow> 'db \<Rightarrow> string \<Rightarrow> nat \<Rightarrow> int \<Rightarrow> buffer option \<Rightarrow> 'db tree result" where
  "new_TreeBase env db name depth sz root =
     (if \<not> (depth \<ge> 1 \<and> depth \<le> MAX_DEPTH) then Inl (Error ''Invalid depth'')
      else let (zs, current) = zero_layers (compress env) depth INITIAL_LEAF [] in
        Inr \<lparr>tdb = db, tname = name, tdepth = depth, tsize = sz,
             troot = (case root of Some r \<Rightarrow> r | None \<Rightarrow> current),
             maxIndex = 2 ^ depth - 1, cachedSize = None, zeroHashes = zs, tcache = []\<rparr>)"

section \<open>Operations\<close>

definition getRoot :: "'db tree \<Rightarrow> bool \<Rightarrow> buffer" where
  "getRoot t includeUncommitted =
     (if \<not> includeUncommitted then troot t
      else case map_of (tcache t) (indexToKeyHash (tname t) 0 0) of Some r \<Rightarrow> r | None \<Rightarrow> troot t)"

definition getNumLeaves :: "'db tree \<Rightarrow> bool \<Rightarrow> int" where
  "getNumLeaves t includeUncommitted =
     (if \<not> includeUncommitted then tsize t
      else case cachedSize t of Some n \<Rightarrow> n | None \<Rightarrow> tsize t)"

definition getName :: "'db tree \<Rightarrow> string" where
  "getName t = tname t"

definition getDepth :: "'db tree \<Rightarrow> nat" where
  "getDepth t = tdepth t"

text \<open>The loops below call it with levels from \<open>depth\<close> down to 1 only, so the read of \<open>zeroHashes\<close> is in
  range.\<close>

definition getLatestValueAtIndex :: "'db tree_env \<Rightarrow> 'db tree \<Rightarrow> nat \<Rightarrow> int \<Rightarrow> bool \<Rightarrow> buffer" where
  "getLatestValueAtIndex env t level index includeUncommitted =
     (let key = indexToKeyHash (tname t) level index in
      case (if includeUncommitted then map_of (tcache t) key else None) of
        Some v \<Rightarrow> v
      | None \<Rightarrow>
          (case lu_get env (tdb t) key of
             Some committed \<Rightarrow> committed
           | None \<Rightarrow> zeroHashes t ! (level - 1)))"

fun sibling_loop :: "'db tree_env \<Rightarrow> 'db tree \<Rightarrow> nat \<Rightarrow> int \<Rightarrow> bool \<Rightarrow> buffer list" where
  "sibling_loop env t 0 index includeUncommitted = []"
| "sibling_loop env t (Suc l) index includeUncommitted =
     (let isRight = index mod 2 = 1;
          sibling = getLatestValueAtIndex env t (Suc l) (if isRight then index - 1 else index + 1) includeUncommitted
      in sibling # sibling_loop env t l (index div 2) includeUncommitted)"

definition getSiblingPath :: "'db tree_env \<Rightarrow> 'db tree \<Rightarrow> int \<Rightarrow> bool \<Rightarrow> sibling_path result" where
  "getSiblingPath env t index includeUncommitted =
     new_SiblingPath (int (tdepth t)) (sibling_loop env t (tdepth t) index includeUncommitted)"

definition getLeafValue :: "'db tree_env \<Rightarrow> 'db tree \<Rightarrow> int \<Rightarrow> bool \<Rightarrow> buffer" where
  "getLeafValue env t index includeUncommitted =
     getLatestValueAtIndex env t (tdepth t) index includeUncommitted"

definition clearCache :: "'db tree \<Rightarrow> 'db tree" where
  "clearCache t = t\<lparr>tcache := [], cachedSize := None\<rparr>"

definition cache_put :: "string \<Rightarrow> buffer \<Rightarrow> 'db tree \<Rightarrow> 'db tree" where
  "cache_put key v t = t\<lparr>tcache := AList.update key v (tcache t)\<rparr>"

fun hash_loop :: "'db tree_env \<Rightarrow> nat \<Rightarrow> int \<Rightarrow> buffer \<Rightarrow> 'db tree \<Rightarrow> 'db tree" where
  "hash_loop env 0 index current t = t"
| "hash_loop env (Suc l) index current t =
     (let isRight = index mod 2 = 1;
          sibling = getLatestValueAtIndex env t (Suc l) (if isRight then index - 1 else index + 1) True;
          lhs = (if isRight then sibling else current);
          rhs = (if isRight then current else sibling);
          current' = compress env lhs rhs;
          index' = index div 2
      in hash_loop env l index' current' (cache_put (indexToKeyHash (tname t) l index') current' t))"

definition addLeafToCacheAndHashToRoot :: "'db tree_env \<Rightarrow> buffer \<Rightarrow> int \<Rightarrow> 'db tree \<Rightarrow> 'db tree" where
  "addLeafToCacheAndHashToRoot env leaf index t =
     hash_loop env (tdepth t) index leaf (cache_put (indexToKeyHash (tname t) (tdepth t) index) leaf t)"

text \<open>\<open>writeMeta(batch)\<close>: the write that the batch gets.\<close>

definition metaWrite :: "'db tree \<Rightarrow> (string \<times> db_value) result" where
  "metaWrite t =
     rbind (encodeMeta (getRoot t True) (tdepth t) (getNumLeaves t True)) (\<lambda>data. Inr (tname t, VBuffer data))"

definition TreeBase_commit :: "'db tree_env \<Rightarrow> ('db tree, unit) js" where
  "TreeBase_commit env t =
     (let batch = map (\<lambda>(k, v). (k, VBuffer v)) (tcache t);
          t1 = t\<lparr>tsize := getNumLeaves t True\<rparr>;
          t2 = t1\<lparr>troot := getRoot t1 True\<rparr>
      in case metaWrite t2 of
           Inl e \<Rightarrow> (Inl e, t2)
         | Inr w \<Rightarrow> (Inr (), clearCache (t2\<lparr>tdb := lu_batch env (tdb t2) (batch @ [w])\<rparr>)))"

definition TreeBase_rollback :: "'db tree \<Rightarrow> 'db tree" where
  "TreeBase_rollback t = clearCache t"

definition TreeBase_init :: "'db tree_env \<Rightarrow> ('db tree, unit) js" where
  "TreeBase_init env t =
     (case metaWrite t of
        Inl e \<Rightarrow> (Inl e, t)
      | Inr w \<Rightarrow> (Inr (), t\<lparr>tdb := lu_batch env (tdb t) [w]\<rparr>))"

text \<open>\<open>newTree\<close> and \<open>loadTree\<close> for the classes that inherit \<open>init\<close> and \<open>initFromDb\<close> from \<open>TreeBase\<close>.\<close>

definition newTree :: "'db tree_env \<Rightarrow> 'db \<Rightarrow> string \<Rightarrow> nat \<Rightarrow> 'db tree result" where
  "newTree env db name depth =
     rbind (new_TreeBase env db name depth 0 None) (\<lambda>t.
       case TreeBase_init env t of (Inl e, _) \<Rightarrow> Inl e | (Inr _, t') \<Rightarrow> Inr t')"

text \<open>A rejected \<open>db.get(name)\<close> rejects \<open>loadTree\<close>.\<close>

definition loadTree :: "'db tree_env \<Rightarrow> 'db \<Rightarrow> string \<Rightarrow> 'db tree result" where
  "loadTree env db name =
     (case lu_get env db name of
        None \<Rightarrow> Inl (Error ''NotFoundError'')
      | Some m \<Rightarrow> rbind (decodeMeta m) (\<lambda>(root, depth, sz). new_TreeBase env db name depth sz (Some root)))"

section \<open>Abstract Merkle trees\<close>

text \<open>The value of the node of height \<open>h\<close> at position \<open>i\<close> over a leaf function, and the root.\<close>

fun mnode :: "('a \<Rightarrow> 'a \<Rightarrow> 'a) \<Rightarrow> (int \<Rightarrow> 'a) \<Rightarrow> nat \<Rightarrow> int \<Rightarrow> 'a" where
  "mnode H f 0 i = f i"
| "mnode H f (Suc h) i = H (mnode H f h (2 * i)) (mnode H f h (2 * i + 1))"

definition merkle_root :: "('a \<Rightarrow> 'a \<Rightarrow> 'a) \<Rightarrow> nat \<Rightarrow> (int \<Rightarrow> 'a) \<Rightarrow> 'a" where
  "merkle_root H depth f = mnode H f depth 0"

definition in_level :: "nat \<Rightarrow> int \<Rightarrow> bool" where
  "in_level l i \<longleftrightarrow> 0 \<le> i \<and> i < 2 ^ l"

text \<open>A labelling of all nodes in which every inner node is the hash of its children.\<close>

definition consistent :: "('a \<Rightarrow> 'a \<Rightarrow> 'a) \<Rightarrow> nat \<Rightarrow> (nat \<Rightarrow> int \<Rightarrow> 'a) \<Rightarrow> bool" where
  "consistent H depth N \<longleftrightarrow>
     (\<forall>l i. l < depth \<longrightarrow> in_level l i \<longrightarrow> N l i = H (N (Suc l) (2 * i)) (N (Suc l) (2 * i + 1)))"

text \<open>The same, except on the strict ancestors of one node.\<close>

definition consistent_below :: "('a \<Rightarrow> 'a \<Rightarrow> 'a) \<Rightarrow> nat \<Rightarrow> (nat \<Rightarrow> int \<Rightarrow> 'a) \<Rightarrow> nat \<Rightarrow> int \<Rightarrow> bool" where
  "consistent_below H depth N l j \<longleftrightarrow>
     (\<forall>l' i. l' < depth \<longrightarrow> in_level l' i \<longrightarrow> \<not> (l' < l \<and> i = j div 2 ^ (l - l')) \<longrightarrow>
        N l' i = H (N (Suc l') (2 * i)) (N (Suc l') (2 * i + 1)))"

lemma in_level_children: "in_level l i \<Longrightarrow> in_level (Suc l) (2 * i) \<and> in_level (Suc l) (2 * i + 1)"
  by (auto simp: in_level_def)

lemma in_level_parent: "in_level (Suc l) i \<Longrightarrow> in_level l (i div 2)"
  by (auto simp: in_level_def)

lemma in_level_0 [simp]: "in_level 0 i \<longleftrightarrow> i = 0"
  by (auto simp: in_level_def)

lemma mnode_cong:
  "(\<And>j. 2 ^ h * i \<le> j \<Longrightarrow> j < 2 ^ h * (i + 1) \<Longrightarrow> f j = g j) \<Longrightarrow> mnode H f h i = mnode H g h i"
proof (induction h arbitrary: i)
  case (Suc h)
  have "mnode H f h (2 * i) = mnode H g h (2 * i)"
    by (rule Suc.IH, rule Suc.prems) (auto simp: algebra_simps intro: order.strict_trans2)
  moreover have "mnode H f h (2 * i + 1) = mnode H g h (2 * i + 1)"
    by (rule Suc.IH, rule Suc.prems) (auto simp: algebra_simps intro: order_trans)
  ultimately show ?case by simp
qed simp

lemma merkle_root_cong: "(\<And>j. in_level d j \<Longrightarrow> f j = g j) \<Longrightarrow> merkle_root H d f = merkle_root H d g"
  unfolding merkle_root_def by (rule mnode_cong) (simp add: in_level_def)

lemma consistent_mnode:
  assumes "consistent H depth N" and "h \<le> depth" and "in_level (depth - h) i"
  shows "N (depth - h) i = mnode H (N depth) h i"
  using assms(2,3)
proof (induction h arbitrary: i)
  case (Suc h)
  let ?l = "depth - Suc h"
  have l: "depth - h = Suc ?l" "?l < depth" using Suc.prems(1) by simp_all
  have "N ?l i = H (N (depth - h) (2 * i)) (N (depth - h) (2 * i + 1))"
    using assms(1) l Suc.prems(2) by (simp add: consistent_def)
  also have "\<dots> = mnode H (N depth) (Suc h) i"
    using Suc l in_level_children[OF Suc.prems(2)] by simp
  finally show ?case .
qed simp

lemma consistent_root: "consistent H depth N \<Longrightarrow> N 0 0 = merkle_root H depth (N depth)"
  using consistent_mnode[of H depth N depth 0] by (simp add: merkle_root_def)

text \<open>One level of the hashing loop: relabelling the parent with the hash of its children moves the
  exception one level up.\<close>

lemma consistent_below_step:
  assumes ex: "consistent_below H depth N (Suc l) j" and "Suc l \<le> depth" and j: "in_level (Suc l) j"
    and upd: "\<And>l' i. in_level l' i \<Longrightarrow>
      N' l' i = (if l' = l \<and> i = j div 2
        then H (N (Suc l) (2 * (j div 2))) (N (Suc l) (2 * (j div 2) + 1)) else N l' i)"
  shows "consistent_below H depth N' l (j div 2)"
  unfolding consistent_below_def
proof (intro allI impI)
  fix l' i
  assume l': "l' < depth" and i: "in_level l' i" and no: "\<not> (l' < l \<and> i = j div 2 div 2 ^ (l - l'))"
  have c: "N' (Suc l') (2 * i) = N (Suc l') (2 * i)" "N' (Suc l') (2 * i + 1) = N (Suc l') (2 * i + 1)"
  proof -
    have "\<not> (Suc l' = l \<and> 2 * i = j div 2)" "\<not> (Suc l' = l \<and> 2 * i + 1 = j div 2)"
      using no by auto
    then show "N' (Suc l') (2 * i) = N (Suc l') (2 * i)" "N' (Suc l') (2 * i + 1) = N (Suc l') (2 * i + 1)"
      using upd in_level_children[OF i] by auto
  qed
  show "N' l' i = H (N' (Suc l') (2 * i)) (N' (Suc l') (2 * i + 1))"
  proof (cases "l' = l \<and> i = j div 2")
    case True
    with upd i c show ?thesis by simp
  next
    case False
    have "\<not> (l' < Suc l \<and> i = j div 2 ^ (Suc l - l'))"
    proof
      assume a: "l' < Suc l \<and> i = j div 2 ^ (Suc l - l')"
      with False have "l' < l" by (cases "l' = l") auto
      moreover from this have "j div 2 ^ (Suc l - l') = j div 2 div 2 ^ (l - l')"
        by (simp add: Suc_diff_le zdiv_zmult2_eq)
      ultimately show False using a no by simp
    qed
    with ex l' i have "N l' i = H (N (Suc l') (2 * i)) (N (Suc l') (2 * i + 1))"
      unfolding consistent_below_def by blast
    with False upd i c show ?thesis by auto
  qed
qed

section \<open>Keys\<close>

lemma indexToKeyHash_inject [key_simps, simp]:
  "indexToKeyHash name l i = indexToKeyHash name l' i' \<longleftrightarrow> l = l' \<and> i = i'"
  unfolding indexToKeyHash_def
  using append_sep_inject[OF dec_no_colon dec_no_colon, of "int l" "dec i" "int l'" "dec i'"]
  by simp

lemma indexToKeyHash_neq_name [key_simps, simp]: "indexToKeyHash name l i \<noteq> name"
  by (simp add: indexToKeyHash_def)

section \<open>The nodes of a tree\<close>

definition node :: "'db tree_env \<Rightarrow> 'db tree \<Rightarrow> bool \<Rightarrow> nat \<Rightarrow> int \<Rightarrow> buffer" where
  "node env t b l i = (if l = 0 then getRoot t b else getLatestValueAtIndex env t l i b)"

definition tree_wf :: "'db tree_env \<Rightarrow> 'db tree \<Rightarrow> bool" where
  "tree_wf env t \<longleftrightarrow> 1 \<le> tdepth t \<and> tdepth t \<le> MAX_DEPTH \<and> maxIndex t = 2 ^ tdepth t - 1 \<and>
     zeroHashes t = fst (zero_layers (compress env) (tdepth t) INITIAL_LEAF []) \<and>
     distinct (map fst (tcache t))"

text \<open>The invariant of \<open>TreeBase\<close>: both the committed and the uncommitted labelling are Merkle trees.\<close>

definition tree_inv :: "'db tree_env \<Rightarrow> 'db tree \<Rightarrow> bool" where
  "tree_inv env t \<longleftrightarrow> levelup_ok env \<and> tree_wf env t \<and>
     consistent (compress env) (tdepth t) (node env t False) \<and>
     consistent (compress env) (tdepth t) (node env t True)"

lemma node_cache_put:
  assumes "in_level l i" and "in_level l' i'"
  shows "node env (cache_put (indexToKeyHash (tname t) l i) v t) True l' i' =
    (if l' = l \<and> i' = i then v else node env t True l' i')"
  using assms
  by (auto simp: node_def getRoot_def getLatestValueAtIndex_def cache_put_def update_conv' Let_def
      cong: option.case_cong)

lemma node_cache_put_False [simp]: "node env (cache_put k v t) False = node env t False"
  by (auto simp: node_def getRoot_def getLatestValueAtIndex_def cache_put_def fun_eq_iff
      cong: option.case_cong)

lemma cache_put_frame [simp]:
  "tdb (cache_put k v t) = tdb t" "tname (cache_put k v t) = tname t" "tdepth (cache_put k v t) = tdepth t"
  "tsize (cache_put k v t) = tsize t" "troot (cache_put k v t) = troot t"
  "maxIndex (cache_put k v t) = maxIndex t" "cachedSize (cache_put k v t) = cachedSize t"
  "zeroHashes (cache_put k v t) = zeroHashes t"
  by (simp_all add: cache_put_def)

lemma hash_loop_frame [simp]:
  "tdb (hash_loop env l i c t) = tdb t" "tname (hash_loop env l i c t) = tname t"
  "tdepth (hash_loop env l i c t) = tdepth t" "tsize (hash_loop env l i c t) = tsize t"
  "troot (hash_loop env l i c t) = troot t" "maxIndex (hash_loop env l i c t) = maxIndex t"
  "cachedSize (hash_loop env l i c t) = cachedSize t" "zeroHashes (hash_loop env l i c t) = zeroHashes t"
  "node env' (hash_loop env l i c t) False = node env' t False"
  by (induction l arbitrary: i c t) (simp_all add: Let_def)

lemma add_leaf_frame [simp]:
  "tdb (addLeafToCacheAndHashToRoot env x i t) = tdb t"
  "tname (addLeafToCacheAndHashToRoot env x i t) = tname t"
  "tdepth (addLeafToCacheAndHashToRoot env x i t) = tdepth t"
  "tsize (addLeafToCacheAndHashToRoot env x i t) = tsize t"
  "troot (addLeafToCacheAndHashToRoot env x i t) = troot t"
  "maxIndex (addLeafToCacheAndHashToRoot env x i t) = maxIndex t"
  "cachedSize (addLeafToCacheAndHashToRoot env x i t) = cachedSize t"
  "zeroHashes (addLeafToCacheAndHashToRoot env x i t) = zeroHashes t"
  "node env' (addLeafToCacheAndHashToRoot env x i t) False = node env' t False"
  by (simp_all add: addLeafToCacheAndHashToRoot_def)

lemma hash_loop_distinct: "distinct (map fst (tcache t)) \<Longrightarrow> distinct (map fst (tcache (hash_loop env l i c t)))"
  by (induction l arbitrary: i c t) (simp_all add: Let_def cache_put_def distinct_update)

text \<open>The loop re-establishes consistency and keeps every node at its own level and below.\<close>

lemma hash_loop_correct:
  assumes "l \<le> tdepth t" and "in_level l index"
    and "consistent_below (compress env) (tdepth t) (node env t True) l index"
    and "node env t True l index = current"
  shows "consistent (compress env) (tdepth t) (node env (hash_loop env l index current t) True) \<and>
    (\<forall>l' i. l \<le> l' \<longrightarrow> in_level l' i \<longrightarrow> node env (hash_loop env l index current t) True l' i = node env t True l' i)"
  using assms
proof (induction l arbitrary: index current t)
  case 0
  then show ?case by (simp add: consistent_def consistent_below_def)
next
  case (Suc l)
  let ?H = "compress env" and ?N = "node env t True" and ?p = "index div 2"
  let ?sib = "getLatestValueAtIndex env t (Suc l) (if index mod 2 = 1 then index - 1 else index + 1) True"
  let ?cur = "?H (if index mod 2 = 1 then ?sib else current) (if index mod 2 = 1 then current else ?sib)"
  let ?t = "cache_put (indexToKeyHash (tname t) l ?p) ?cur t"
  have p: "in_level l ?p" using Suc.prems(2) by (rule in_level_parent)
  have cur: "?cur = ?H (?N (Suc l) (2 * ?p)) (?N (Suc l) (2 * ?p + 1))"
  proof (cases "index mod 2 = 1")
    case True
    then have e: "2 * ?p = index - 1" by presburger
    show ?thesis unfolding e using True Suc.prems(4) by (simp add: node_def)
  next
    case False
    then have e: "2 * ?p = index" by presburger
    show ?thesis unfolding e using False Suc.prems(4) by (simp add: node_def)
  qed
  have upd: "node env ?t True l' i = (if l' = l \<and> i = ?p
      then ?H (?N (Suc l) (2 * ?p)) (?N (Suc l) (2 * ?p + 1)) else ?N l' i)" if "in_level l' i" for l' i
    unfolding node_cache_put[OF p that] cur by simp
  have ex: "consistent_below ?H (tdepth ?t) (node env ?t True) l ?p"
    using consistent_below_step[OF Suc.prems(3,1,2) upd] by simp
  have at: "node env ?t True l ?p = ?cur" unfolding node_cache_put[OF p p] by simp
  have IH: "consistent ?H (tdepth ?t) (node env (hash_loop env l ?p ?cur ?t) True) \<and>
    (\<forall>l' i. l \<le> l' \<longrightarrow> in_level l' i \<longrightarrow> node env (hash_loop env l ?p ?cur ?t) True l' i = node env ?t True l' i)"
    by (rule Suc.IH) (use Suc.prems(1) p ex at in simp_all)
  have unfold: "hash_loop env (Suc l) index current t = hash_loop env l ?p ?cur ?t"
    by (simp add: Let_def)
  show ?case unfolding unfold
  proof (intro conjI allI impI)
    show "consistent ?H (tdepth t) (node env (hash_loop env l ?p ?cur ?t) True)" using IH by simp
    fix l' i assume l': "Suc l \<le> l'" and i: "in_level l' i"
    then have "node env (hash_loop env l ?p ?cur ?t) True l' i = node env ?t True l' i" using IH by auto
    also have "\<dots> = ?N l' i" using l' unfolding node_cache_put[OF p i] by simp
    finally show "node env (hash_loop env l ?p ?cur ?t) True l' i = ?N l' i" .
  qed
qed

lemma consistent_below_leaf:
  assumes "consistent H depth N" and "in_level depth j"
    and "\<And>l i. in_level l i \<Longrightarrow> N' l i = (if l = depth \<and> i = j then v else N l i)"
  shows "consistent_below H depth N' depth j"
  unfolding consistent_below_def
proof (intro allI impI)
  fix l i assume l: "l < depth" and i: "in_level l i" and no: "\<not> (l < depth \<and> i = j div 2 ^ (depth - l))"
  have "\<not> (Suc l = depth \<and> 2 * i = j)" "\<not> (Suc l = depth \<and> 2 * i + 1 = j)" using no l by auto
  then show "N' l i = H (N' (Suc l) (2 * i)) (N' (Suc l) (2 * i + 1))"
    using assms(1,3) l i in_level_children[OF i] by (auto simp: consistent_def)
qed

theorem add_leaf_correct:
  assumes "tree_inv env t" and "in_level (tdepth t) index"
  shows "tree_inv env (addLeafToCacheAndHashToRoot env leaf index t)"
    and "\<And>i. in_level (tdepth t) i \<Longrightarrow>
      node env (addLeafToCacheAndHashToRoot env leaf index t) True (tdepth t) i =
        (if i = index then leaf else node env t True (tdepth t) i)"
proof -
  let ?t = "cache_put (indexToKeyHash (tname t) (tdepth t) index) leaf t"
  have upd: "node env ?t True l i = (if l = tdepth t \<and> i = index then leaf else node env t True l i)"
    if "in_level l i" for l i
    by (rule node_cache_put[OF assms(2) that])
  have "consistent_below (compress env) (tdepth t) (node env ?t True) (tdepth t) index"
    by (rule consistent_below_leaf[OF _ assms(2) upd]) (use assms(1) in \<open>simp add: tree_inv_def\<close>)
  then have *: "consistent (compress env) (tdepth t) (node env (addLeafToCacheAndHashToRoot env leaf index t) True) \<and>
      (\<forall>l' i. tdepth t \<le> l' \<longrightarrow> in_level l' i \<longrightarrow>
        node env (addLeafToCacheAndHashToRoot env leaf index t) True l' i = node env ?t True l' i)"
    unfolding addLeafToCacheAndHashToRoot_def
    using hash_loop_correct[of "tdepth t" ?t index env leaf] assms(2) upd[OF assms(2)] by simp
  have "distinct (map fst (tcache (addLeafToCacheAndHashToRoot env leaf index t)))"
    unfolding addLeafToCacheAndHashToRoot_def
    by (rule hash_loop_distinct)
      (use assms(1) in \<open>simp add: tree_inv_def tree_wf_def cache_put_def distinct_update\<close>)
  then show "tree_inv env (addLeafToCacheAndHashToRoot env leaf index t)"
    using assms(1) * by (simp add: tree_inv_def tree_wf_def)
  show "node env (addLeafToCacheAndHashToRoot env leaf index t) True (tdepth t) i =
      (if i = index then leaf else node env t True (tdepth t) i)" if "in_level (tdepth t) i" for i
    using * upd that by auto
qed

section \<open>Sibling paths are membership proofs\<close>

lemma length_sibling_loop [simp]: "length (sibling_loop env t l i b) = l"
  by (induction l arbitrary: i) (simp_all add: Let_def)

lemma path_root_sibling_loop:
  assumes "consistent (compress env) (tdepth t) (node env t b)" and "l \<le> tdepth t" and "in_level l i"
  shows "path_root (compress env) (node env t b l i) i (sibling_loop env t l i b) = getRoot t b"
  using assms(2,3)
proof (induction l arbitrary: i)
  case 0
  then show ?case by (simp add: node_def)
next
  case (Suc l)
  let ?N = "node env t b" and ?p = "i div 2"
  have p: "in_level l ?p" using Suc.prems(2) by (rule in_level_parent)
  have par: "?N l ?p = compress env (?N (Suc l) (2 * ?p)) (?N (Suc l) (2 * ?p + 1))"
    using assms(1) Suc.prems(1) p by (simp add: consistent_def)
  have step: "(if i mod 2 = 1 then compress env (?N (Suc l) (i - 1)) (?N (Suc l) i)
      else compress env (?N (Suc l) i) (?N (Suc l) (i + 1))) = ?N l ?p"
  proof (cases "i mod 2 = 1")
    case True
    then have e: "2 * ?p = i - 1" by presburger
    show ?thesis unfolding par e using True by simp
  next
    case False
    then have e: "2 * ?p = i" by presburger
    show ?thesis unfolding par e using False by simp
  qed
  have "path_root (compress env) (?N (Suc l) i) i (sibling_loop env t (Suc l) i b) =
      path_root (compress env) (?N l ?p) ?p (sibling_loop env t l ?p b)"
    using step by (auto simp: Let_def node_def)
  also have "\<dots> = getRoot t b" using Suc p by simp
  finally show ?case .
qed

section \<open>Commit and rollback\<close>

text \<open>The interface of a component whose state has a committed and a pending view.\<close>

locale transactional =
  fixes commit :: "'s \<Rightarrow> 's"
    and rollback :: "'s \<Rightarrow> 's"
    and committed :: "'s \<Rightarrow> 'v"
    and pending :: "'s \<Rightarrow> 'v"
    and invar :: "'s \<Rightarrow> bool"
  assumes commit_invar: "invar s \<Longrightarrow> invar (commit s)"
    and rollback_invar: "invar s \<Longrightarrow> invar (rollback s)"
    and committed_commit: "invar s \<Longrightarrow> committed (commit s) = pending s"
    and pending_commit: "invar s \<Longrightarrow> pending (commit s) = pending s"
    and committed_rollback: "invar s \<Longrightarrow> committed (rollback s) = committed s"
    and pending_rollback: "invar s \<Longrightarrow> pending (rollback s) = committed s"
begin

text \<open>Work that keeps the invariant and the committed view is undone by a rollback, whatever it did to the
  pending view; after a commit a rollback changes nothing.\<close>

lemma rollback_undoes:
  assumes "invar s" and "invar (f s)" and "committed (f s) = committed s"
  shows "committed (rollback (f s)) = committed s \<and> pending (rollback (f s)) = committed s"
  using assms by (simp add: committed_rollback pending_rollback)

lemma rollback_after_commit:
  assumes "invar s"
  shows "committed (rollback (commit s)) = pending s \<and> pending (rollback (commit s)) = pending s"
  using assms by (simp add: committed_rollback pending_rollback committed_commit commit_invar)

lemma commit_twice: "invar s \<Longrightarrow> committed (commit (commit s)) = committed (commit s)"
  by (simp add: committed_commit commit_invar pending_commit)

end

text \<open>A sequence of operations, commits and rollbacks, on the component and on the pair of its views.\<close>

datatype 'o tx_op = Perform 'o | Commit | Rollback

fun tx_step :: "('s \<Rightarrow> 's) \<Rightarrow> ('s \<Rightarrow> 's) \<Rightarrow> ('o \<Rightarrow> 's \<Rightarrow> 's) \<Rightarrow> 'o tx_op \<Rightarrow> 's \<Rightarrow> 's" where
  "tx_step commit rollback perform (Perform x) s = perform x s"
| "tx_step commit rollback perform Commit s = commit s"
| "tx_step commit rollback perform Rollback s = rollback s"

fun tx_spec :: "('o \<Rightarrow> 'v \<Rightarrow> 'v) \<Rightarrow> 'o tx_op \<Rightarrow> 'v \<times> 'v \<Rightarrow> 'v \<times> 'v" where
  "tx_spec spec (Perform x) (c, p) = (c, spec x p)"
| "tx_spec spec Commit (c, p) = (p, p)"
| "tx_spec spec Rollback (c, p) = (c, c)"

fun tx_ok :: "('o \<Rightarrow> bool) \<Rightarrow> 'o tx_op \<Rightarrow> bool" where
  "tx_ok ok (Perform x) = ok x"
| "tx_ok ok _ = True"

locale transactional_ops = transactional commit rollback committed pending invar
  for commit :: "'s \<Rightarrow> 's" and rollback :: "'s \<Rightarrow> 's" and committed :: "'s \<Rightarrow> 'v" and pending :: "'s \<Rightarrow> 'v"
    and invar :: "'s \<Rightarrow> bool" +
  fixes perform :: "'o \<Rightarrow> 's \<Rightarrow> 's"
    and spec :: "'o \<Rightarrow> 'v \<Rightarrow> 'v"
    and ok :: "'o \<Rightarrow> bool"
  assumes perform_invar: "invar s \<Longrightarrow> ok x \<Longrightarrow> invar (perform x s)"
    and perform_committed: "invar s \<Longrightarrow> ok x \<Longrightarrow> committed (perform x s) = committed s"
    and perform_pending: "invar s \<Longrightarrow> ok x \<Longrightarrow> pending (perform x s) = spec x (pending s)"
begin

lemma step_refines:
  assumes "invar s" and "tx_ok ok op"
  shows "invar (tx_step commit rollback perform op s) \<and>
    (committed (tx_step commit rollback perform op s), pending (tx_step commit rollback perform op s)) =
      tx_spec spec op (committed s, pending s)"
  using assms
  by (cases op)
    (simp_all add: commit_invar rollback_invar committed_commit pending_commit committed_rollback
      pending_rollback perform_invar perform_committed perform_pending)

lemma run_refines:
  assumes "invar s" and "\<forall>op \<in> set ops. tx_ok ok op"
  shows "invar (fold (tx_step commit rollback perform) ops s) \<and>
    (committed (fold (tx_step commit rollback perform) ops s), pending (fold (tx_step commit rollback perform) ops s)) =
      fold (tx_spec spec) ops (committed s, pending s)"
  using assms
proof (induction ops arbitrary: s)
  case (Cons op ops)
  then show ?case using step_refines[of s op] by simp
qed simp

end

definition tree_view :: "'db tree_env \<Rightarrow> bool \<Rightarrow> 'db tree \<Rightarrow> (nat \<Rightarrow> int \<Rightarrow> buffer) \<times> int" where
  "tree_view env b t = (node env t b, getNumLeaves t b)"

lemma node_clearCache [simp]: "node env (clearCache t) b = node env t False"
  by (auto simp: node_def getRoot_def getLatestValueAtIndex_def clearCache_def fun_eq_iff Let_def
      cong: option.case_cong)

lemma encodeMeta_ok:
  assumes "depth \<le> MAX_DEPTH"
  shows "encodeMeta root depth sz =
    Inr (take 32 (take 36 root @ replicate (36 - length (take 36 root)) 0) @
      rev (be_bytes 4 (int depth)) @ toBufferLE sz 32)"
  using assms by (simp add: encodeMeta_def writeUInt32LE_def MAX_DEPTH_def Let_def)

lemma map_of_batch:
  assumes "distinct (map fst cache)" and "k \<noteq> n"
  shows "map_of (rev (map (\<lambda>(k, v). (k, VBuffer v)) cache @ [(n, m)])) k = map_option VBuffer (map_of cache k)"
proof -
  have "map_of (rev (map (\<lambda>(k, v). (k, VBuffer v)) cache)) k = map_of (map (\<lambda>(k, v). (k, VBuffer v)) cache) k"
    using assms(1) by (subst map_of_rev_distinct) (simp_all add: case_prod_unfold comp_def)
  also have "\<dots> = map_option VBuffer (map_of cache k)" by (simp add: map_of_map)
  finally show ?thesis using assms(2) by simp
qed

text \<open>Nodes after a batch that writes the cache and the metadata record: the store answers for the cache.\<close>

lemma node_after_batch:
  assumes "levelup_ok env" and "distinct (map fst (tcache t))"
    and "t' = clearCache (t\<lparr>tsize := n, troot := getRoot t True,
      tdb := lu_batch env (tdb t) (map (\<lambda>(k, v). (k, VBuffer v)) (tcache t) @ [(tname t, m)])\<rparr>)"
  shows "node env t' b = node env t True"
proof (intro ext)
  fix l i
  let ?k = "indexToKeyHash (tname t) l i"
  let ?ops = "map (\<lambda>(k, v). (k, VBuffer v)) (tcache t) @ [(tname t, m)]"
  have "map_of (rev ?ops) ?k = map_option VBuffer (map_of (tcache t) ?k)"
    by (rule map_of_batch[OF assms(2)]) simp
  then have "lu_get env (lu_batch env (tdb t) ?ops) ?k =
      (case map_of (tcache t) ?k of Some v \<Rightarrow> Some v | None \<Rightarrow> lu_get env (tdb t) ?k)"
    using assms(1) unfolding levelup_ok_def by (cases "map_of (tcache t) ?k") simp_all
  then show "node env t' b l i = node env t True l i"
    unfolding assms(3) node_clearCache
    by (auto simp: node_def getRoot_def[of _ False] getLatestValueAtIndex_def Let_def
        split: option.splits cong: option.case_cong)
qed

lemma TreeBase_commit_ok:
  assumes "tree_inv env t"
  shows "\<exists>data t'. encodeMeta (getRoot t True) (tdepth t) (getNumLeaves t True) = Inr data \<and>
    TreeBase_commit env t = (Inr (), t') \<and>
    t' = clearCache (t\<lparr>tsize := getNumLeaves t True, troot := getRoot t True,
      tdb := lu_batch env (tdb t) (map (\<lambda>(k, v). (k, VBuffer v)) (tcache t) @ [(tname t, VBuffer data)])\<rparr>) \<and>
    tree_inv env t' \<and> (\<forall>b. node env t' b = node env t True) \<and> (\<forall>b. getNumLeaves t' b = getNumLeaves t True)"
proof -
  have wf: "tree_wf env t" and lu: "levelup_ok env" using assms by (simp_all add: tree_inv_def)
  obtain data where data: "encodeMeta (getRoot t True) (tdepth t) (getNumLeaves t True) = Inr data"
    using encodeMeta_ok wf by (auto simp: tree_wf_def)
  define t' where "t' = clearCache (t\<lparr>tsize := getNumLeaves t True, troot := getRoot t True,
      tdb := lu_batch env (tdb t) (map (\<lambda>(k, v). (k, VBuffer v)) (tcache t) @ [(tname t, VBuffer data)])\<rparr>)"
  have nd: "\<forall>b. node env t' b = node env t True"
    using node_after_batch[OF lu _ t'_def] wf by (simp add: tree_wf_def)
  have t: "getRoot (t\<lparr>tsize := getNumLeaves t True\<rparr>) True = getRoot t True"
    by (simp add: getRoot_def cong: option.case_cong)
  have gr: "getRoot (t\<lparr>tsize := getNumLeaves t True, troot := getRoot t True\<rparr>) True = getRoot t True"
    by (simp add: getRoot_def split: option.splits)
  have gn: "getNumLeaves (t\<lparr>tsize := getNumLeaves t True, troot := getRoot t True\<rparr>) True = getNumLeaves t True"
    by (simp add: getNumLeaves_def split: option.splits)
  have run: "TreeBase_commit env t = (Inr (), t')"
    by (simp add: TreeBase_commit_def metaWrite_def Let_def t gr gn data t'_def)
  have inv: "tree_inv env t'"
    using assms nd by (simp add: tree_inv_def tree_wf_def t'_def clearCache_def)
  have nl: "\<forall>b. getNumLeaves t' b = getNumLeaves t True"
    by (simp add: t'_def clearCache_def getNumLeaves_def)
  show ?thesis using data run t'_def inv nd nl by blast
qed

lemma TreeBase_rollback_ok:
  assumes "tree_inv env t"
  shows "tree_inv env (TreeBase_rollback t)" "node env (TreeBase_rollback t) b = node env t False"
    "getNumLeaves (TreeBase_rollback t) b = tsize t"
  using assms
  by (simp_all add: tree_inv_def TreeBase_rollback_def tree_wf_def)
    (simp_all add: clearCache_def getNumLeaves_def)

interpretation base_tx: transactional "\<lambda>t. snd (TreeBase_commit env t)" TreeBase_rollback
    "tree_view env False" "tree_view env True" "tree_inv env" for env
proof (unfold_locales, goal_cases)
  case (1 t)
  then show ?case using TreeBase_commit_ok[of env t] by auto
next
  case (2 t)
  then show ?case by (rule TreeBase_rollback_ok)
next
  case (3 t)
  then show ?case using TreeBase_commit_ok[of env t] by (auto simp: tree_view_def)
next
  case (4 t)
  then show ?case using TreeBase_commit_ok[of env t] by (auto simp: tree_view_def)
next
  case (5 t)
  then show ?case by (simp add: tree_view_def TreeBase_rollback_ok getNumLeaves_def[of t])
next
  case (6 t)
  then show ?case by (simp add: tree_view_def TreeBase_rollback_ok getNumLeaves_def[of t])
qed

section \<open>Fresh and reloaded trees\<close>

definition zero_node :: "('a \<Rightarrow> 'a \<Rightarrow> 'a) \<Rightarrow> 'a \<Rightarrow> nat \<Rightarrow> 'a" where
  "zero_node H z h = ((\<lambda>x. H x x) ^^ h) z"

lemma zero_layers_nodes:
  "zero_layers H n (zero_node H z k) zs =
     (map (\<lambda>j. zero_node H z (k + (n - Suc j))) [0..<n] @ zs, zero_node H z (k + n))"
proof (induction n arbitrary: k zs)
  case (Suc n)
  have "zero_layers H (Suc n) (zero_node H z k) zs = zero_layers H n (zero_node H z (Suc k)) (zero_node H z k # zs)"
    by (simp add: zero_node_def)
  also have "\<dots> = (map (\<lambda>j. zero_node H z (Suc k + (n - Suc j))) [0..<n] @ zero_node H z k # zs, zero_node H z (Suc k + n))"
    by (rule Suc.IH)
  also have "map (\<lambda>j. zero_node H z (Suc k + (n - Suc j))) [0..<n] = map (\<lambda>j. zero_node H z (k + (Suc n - Suc j))) [0..<n]"
    by (simp add: Suc_diff_Suc)
  finally show ?case by simp
qed simp

lemma zero_layers_initial:
  "zero_layers H n z [] = (map (\<lambda>j. zero_node H z (n - Suc j)) [0..<n], zero_node H z n)"
  using zero_layers_nodes[of H n z 0 "[]"] by (simp add: zero_node_def[of _ _ 0])

lemma new_TreeBase_cases:
  assumes "1 \<le> depth" "depth \<le> MAX_DEPTH"
  shows "new_TreeBase env db name depth sz root = Inr \<lparr>tdb = db, tname = name, tdepth = depth, tsize = sz,
    troot = (case root of Some r \<Rightarrow> r | None \<Rightarrow> zero_node (compress env) INITIAL_LEAF depth),
    maxIndex = 2 ^ depth - 1, cachedSize = None,
    zeroHashes = map (\<lambda>j. zero_node (compress env) INITIAL_LEAF (depth - Suc j)) [0..<depth], tcache = []\<rparr>"
  using assms by (simp add: new_TreeBase_def zero_layers_initial)

text \<open>The store holds nothing under the keys of the tree \<open>name\<close>.\<close>

definition no_nodes :: "'db tree_env \<Rightarrow> 'db \<Rightarrow> string \<Rightarrow> bool" where
  "no_nodes env db name \<longleftrightarrow> (\<forall>l i. lu_get env db (indexToKeyHash name l i) = None)"

text \<open>A tree constructed over such a store has empty leaves only, and its labelling is consistent.\<close>

lemma new_TreeBase_fresh:
  assumes lu: "levelup_ok env" and fresh: "no_nodes env db name" and d: "1 \<le> depth" "depth \<le> MAX_DEPTH"
  shows "\<exists>t. new_TreeBase env db name depth 0 None = Inr t \<and> tree_inv env t \<and> tdb t = db \<and> tname t = name \<and>
    tdepth t = depth \<and> tcache t = [] \<and> (\<forall>b. getNumLeaves t b = 0) \<and>
    (\<forall>b i. node env t b depth i = INITIAL_LEAF)"
proof -
  obtain t where t: "new_TreeBase env db name depth 0 None = Inr t"
    and f: "tdb t = db" "tname t = name" "tdepth t = depth" "tsize t = 0" "cachedSize t = None" "tcache t = []"
      "troot t = zero_node (compress env) INITIAL_LEAF depth" "maxIndex t = 2 ^ depth - 1"
      "zeroHashes t = map (\<lambda>j. zero_node (compress env) INITIAL_LEAF (depth - Suc j)) [0..<depth]"
    by (rule that[OF new_TreeBase_cases[OF d]]) simp_all
  have get: "lu_get env (tdb t) (indexToKeyHash name l i) = None" for l i
    using fresh by (simp add: no_nodes_def f)
  have nd: "node env t b l i = zero_node (compress env) INITIAL_LEAF (depth - l)" if "l \<le> depth" for b l i
    using that get by (cases l) (simp_all add: node_def getRoot_def getLatestValueAtIndex_def Let_def f)
  have wf: "tree_wf env t" using d by (simp add: tree_wf_def f zero_layers_initial)
  have "consistent (compress env) depth (node env t b)" for b
    unfolding consistent_def by (auto simp: nd zero_node_def Suc_diff_Suc[symmetric])
  then have "tree_inv env t" using lu wf f by (simp add: tree_inv_def)
  then show ?thesis using t nd by (intro exI[of _ t]) (simp add: f getNumLeaves_def zero_node_def)
qed

lemma newTree_inv:
  assumes lu: "levelup_ok env" and fresh: "no_nodes env db name" and d: "1 \<le> depth" "depth \<le> MAX_DEPTH"
  shows "\<exists>t. newTree env db name depth = Inr t \<and> tree_inv env t \<and> tname t = name \<and> tdepth t = depth \<and>
    tcache t = [] \<and> (\<forall>b. getNumLeaves t b = 0) \<and> (\<forall>b i. node env t b depth i = INITIAL_LEAF) \<and>
    (\<exists>v. tdb t = lu_batch env db [(name, v)])"
proof -
  obtain t where t: "new_TreeBase env db name depth 0 None = Inr t" "tdb t = db" "tname t = name" "tdepth t = depth"
    using new_TreeBase_fresh[OF assms] by blast
  obtain data where data: "encodeMeta (getRoot t True) depth (getNumLeaves t True) = Inr data"
    using encodeMeta_ok[OF d(2)] by auto
  let ?db = "lu_batch env db [(name, VBuffer data)]"
  have "newTree env db name depth = new_TreeBase env ?db name depth 0 None"
    using data t new_TreeBase_cases[OF d, of env db name 0 None] new_TreeBase_cases[OF d, of env ?db name 0 None]
    by (auto simp: newTree_def TreeBase_init_def metaWrite_def)
  moreover have "no_nodes env ?db name" using lu fresh by (simp add: levelup_ok_def no_nodes_def)
  ultimately show ?thesis using new_TreeBase_fresh[OF lu _ d, of ?db name] by auto
qed

text \<open>The metadata record: what is written is what is read, for a 32-byte root and a size of 256 bits.\<close>

lemma meta_roundtrip:
  assumes r: "length root = 32" and d: "depth \<le> MAX_DEPTH" and s: "0 \<le> sz" "sz < 2 ^ 256"
  shows "\<exists>data. encodeMeta root depth sz = Inr data \<and> decodeMeta data = Inr (root, depth, sz)"
proof -
  have s': "sz < 256 ^ 32" using s(2) by simp
  have d': "int depth < 256 ^ 4" using d by (simp add: MAX_DEPTH_def)
  let ?data = "root @ rev (be_bytes 4 (int depth)) @ rev (be_bytes 32 sz)"
  have enc: "encodeMeta root depth sz = Inr ?data"
    using encodeMeta_ok[OF d, of root sz] toBufferLE_fit[OF s(1) s'] r by simp
  have "decodeMeta ?data = Inr (root, depth, sz)"
    using r be_val_be_bytes[OF _ d'] be_val_be_bytes[OF s(1) s']
    by (simp add: decodeMeta_def readUInt32LE_def subarray_def toBigIntLE_be_val)
  with enc show ?thesis by blast
qed

text \<open>Loading the store a commit wrote gives back the committed tree.\<close>

lemma loadTree_after_commit:
  assumes inv: "tree_inv env t" and "length (getRoot t True) = 32"
    and "0 \<le> getNumLeaves t True" "getNumLeaves t True < 2 ^ 256"
  shows "\<exists>t'. TreeBase_commit env t = (Inr (), t') \<and> loadTree env (tdb t') (tname t) = Inr t'"
proof -
  have wf: "tree_wf env t" and lu: "levelup_ok env" using inv by (simp_all add: tree_inv_def)
  obtain data t' where data: "encodeMeta (getRoot t True) (tdepth t) (getNumLeaves t True) = Inr data"
    and run: "TreeBase_commit env t = (Inr (), t')"
    and t': "t' = clearCache (t\<lparr>tsize := getNumLeaves t True, troot := getRoot t True,
      tdb := lu_batch env (tdb t) (map (\<lambda>(k, v). (k, VBuffer v)) (tcache t) @ [(tname t, VBuffer data)])\<rparr>)"
    using TreeBase_commit_ok[OF inv] by blast
  have dec: "decodeMeta data = Inr (getRoot t True, tdepth t, getNumLeaves t True)"
    using meta_roundtrip[OF assms(2) _ assms(3,4), of "tdepth t"] wf data by (auto simp: tree_wf_def)
  have "lu_get env (tdb t') (tname t) = Some data"
    using lu by (simp add: t' clearCache_def levelup_ok_def)
  then have "loadTree env (tdb t') (tname t) = Inr t'"
    using wf dec by (simp add: loadTree_def new_TreeBase_def tree_wf_def t' clearCache_def case_prod_unfold Let_def)
  with run show ?thesis by blast
qed

section \<open>A store in memory\<close>

text \<open>A concrete environment, on which the theorems are exercised: an association list as the store and an
  arithmetic compression of 32-byte words. A value that is not a buffer is stored as its string rendering.\<close>

definition mem_put :: "string \<times> db_value \<Rightarrow> (string \<times> buffer) list \<Rightarrow> (string \<times> buffer) list" where
  "mem_put = (\<lambda>(k, v) db. AList.update k (case v of VBuffer b \<Rightarrow> b | VObject _ \<Rightarrow> map of_char ''[object Object]'') db)"

definition mem_env :: "(string \<times> buffer) list tree_env" where
  "mem_env = \<lparr>lu_get = map_of, lu_batch = (\<lambda>db ops. fold mem_put ops db),
     compress = (\<lambda>a b. be_bytes 32 ((3 * be_val a + 5 * be_val b + 7) mod 2 ^ 256)),
     compressInputs = (\<lambda>bs. be_bytes 32 ((\<Sum>b\<leftarrow>bs. 11 * be_val b + 1) mod 2 ^ 256))\<rparr>"

lemma fold_mem_put:
  "(map_of (rev ops) k = Some (VBuffer v) \<longrightarrow> map_of (fold mem_put ops db) k = Some v) \<and>
   (map_of (rev ops) k = None \<longrightarrow> map_of (fold mem_put ops db) k = map_of db k)"
proof (induction ops rule: rev_induct)
  case (snoc x ops)
  then show ?case by (cases x) (auto simp: mem_put_def update_conv' split: if_splits)
qed simp

lemma levelup_ok_mem: "levelup_ok mem_env"
  using fold_mem_put by (simp add: levelup_ok_def mem_env_def)

lemma no_nodes_mem: "no_nodes mem_env [] name"
  by (simp add: no_nodes_def mem_env_def)

lemma newTree_mem:
  assumes "1 \<le> d" "d \<le> MAX_DEPTH"
  obtains t where "newTree mem_env [] name d = Inr t" "tree_inv mem_env t" "tdepth t = d" "tname t = name"
    "\<And>b. getNumLeaves t b = 0" "\<And>b i. node mem_env t b d i = INITIAL_LEAF"
  using newTree_inv[OF levelup_ok_mem no_nodes_mem assms] by blast

lemma mem_root_length:
  assumes "tree_inv mem_env t"
  shows "length (getRoot t True) = 32"
proof -
  have "consistent (compress mem_env) (tdepth t) (node mem_env t True)" "0 < tdepth t"
    using assms by (simp_all add: tree_inv_def tree_wf_def)
  then have "getRoot t True = compress mem_env (node mem_env t True 1 0) (node mem_env t True 1 1)"
    unfolding consistent_def by (metis One_nat_def in_level_0 mult_zero_right add_0 node_def)
  then show ?thesis by (simp add: mem_env_def length_be_bytes)
qed

section \<open>Properties\<close>

text \<open>C17. A sibling path is a membership proof: for every leaf index of a tree in a valid state, with or without the
  uncommitted changes, \<open>getSiblingPath\<close> succeeds and hashing the leaf value up along the path gives \<open>getRoot\<close>.\<close>

theorem sibling_path_proves_membership:
  assumes "tree_inv env t" and "in_level (tdepth t) i"
  shows "\<exists>p. getSiblingPath env t i b = Inr p \<and> length (sp_data p) = tdepth t \<and>
    path_root (compress env) (getLeafValue env t i b) i (sp_data p) = getRoot t b"
proof -
  have "consistent (compress env) (tdepth t) (node env t b)" using assms(1) by (cases b) (simp_all add: tree_inv_def)
  moreover have "tdepth t \<noteq> 0" using assms(1) by (simp add: tree_inv_def tree_wf_def)
  ultimately show ?thesis
    using path_root_sibling_loop[of env t b "tdepth t" i] assms(2)
    by (simp add: getSiblingPath_def new_SiblingPath_def node_def getLeafValue_def)
qed

theorem sibling_path_proves_membership_witness:
  "\<exists>t p. newTree mem_env [] ''t'' 3 = Inr t \<and> getSiblingPath mem_env t 5 True = Inr p \<and>
    path_root (compress mem_env) INITIAL_LEAF 5 (sp_data p) = getRoot t True"
proof -
  obtain t where t: "newTree mem_env [] ''t'' 3 = Inr t" "tree_inv mem_env t" "tdepth t = 3"
    "\<And>b i. node mem_env t b 3 i = INITIAL_LEAF"
    by (rule newTree_mem[of 3 "''t''"]) (simp_all add: MAX_DEPTH_def)
  have "getLeafValue mem_env t 5 True = INITIAL_LEAF"
    using t(3) t(4)[of True 5] by (simp add: getLeafValue_def node_def)
  then show ?thesis using sibling_path_proves_membership[OF t(2), of 5 True] t by (auto simp: in_level_def)
qed

text \<open>Writing a leaf (\<open>addLeafToCacheAndHashToRoot\<close>) keeps the tree invariant, makes the uncommitted root the
  Merkle root of the leaves with that one leaf replaced, and leaves the committed root and every other leaf as
  they were.\<close>

theorem add_leaf_updates_root:
  assumes "tree_inv env t" and "in_level (tdepth t) i" and "t' = addLeafToCacheAndHashToRoot env leaf i t"
  shows "tree_inv env t' \<and> getRoot t' False = getRoot t False \<and>
    getRoot t' True = merkle_root (compress env) (tdepth t) ((\<lambda>j. getLeafValue env t j True)(i := leaf)) \<and>
    (\<forall>j. in_level (tdepth t) j \<longrightarrow> getLeafValue env t' j True = (if j = i then leaf else getLeafValue env t j True))"
proof -
  have inv: "tree_inv env t'" unfolding assms(3) by (rule add_leaf_correct[OF assms(1,2)])
  have d: "tdepth t \<noteq> 0" "tdepth t' = tdepth t" using assms by (simp_all add: tree_inv_def tree_wf_def)
  have leaf: "node env t' True (tdepth t) j = ((\<lambda>j. getLeafValue env t j True)(i := leaf)) j" if "in_level (tdepth t) j" for j
    using add_leaf_correct(2)[OF assms(1,2) that, of leaf] d by (simp add: assms(3) node_def getLeafValue_def)
  have "getRoot t' True = merkle_root (compress env) (tdepth t) (node env t' True (tdepth t))"
    using consistent_root[of "compress env" "tdepth t'" "node env t' True"] inv d by (simp add: tree_inv_def node_def)
  also have "\<dots> = merkle_root (compress env) (tdepth t) ((\<lambda>j. getLeafValue env t j True)(i := leaf))"
    by (rule merkle_root_cong) (rule leaf)
  finally show ?thesis using inv leaf d by (simp add: assms(3) node_def getLeafValue_def getRoot_def[of _ False])
qed

theorem add_leaf_updates_root_witness:
  "\<exists>t. newTree mem_env [] ''t'' 2 = Inr t \<and>
    getRoot (addLeafToCacheAndHashToRoot mem_env (replicate 32 1) 3 t) True =
      merkle_root (compress mem_env) 2 ((\<lambda>j. getLeafValue mem_env t j True)(3 := replicate 32 1))"
proof -
  obtain t where t: "newTree mem_env [] ''t'' 2 = Inr t" "tree_inv mem_env t" "tdepth t = 2"
    by (rule newTree_mem[of 2 "''t''"]) (simp_all add: MAX_DEPTH_def)
  then show ?thesis using add_leaf_updates_root[OF t(2) _ refl, of 3 "replicate 32 1"] by (auto simp: in_level_def)
qed

text \<open>C30. Persistence: after \<open>commit\<close>, \<open>loadTree\<close> on the database it wrote returns exactly the tree object that
  \<open>commit\<close> left, for a root of 32 bytes and a size below \<open>2 ^ 256\<close>; nothing is lost or invented.\<close>

theorem commit_load_roundtrip:
  assumes "tree_inv env t" and "length (getRoot t True) = 32" and "0 \<le> getNumLeaves t True" "getNumLeaves t True < 2 ^ 256"
  shows "\<exists>t'. TreeBase_commit env t = (Inr (), t') \<and> loadTree env (tdb t') (tname t) = Inr t' \<and>
    tree_inv env t' \<and> (\<forall>b. node env t' b = node env t True \<and> getNumLeaves t' b = getNumLeaves t True)"
  using loadTree_after_commit[OF assms] TreeBase_commit_ok[OF assms(1)] by auto

theorem commit_load_roundtrip_witness:
  "\<exists>t t'. newTree mem_env [] ''t'' 2 = Inr t \<and>
    TreeBase_commit mem_env (addLeafToCacheAndHashToRoot mem_env [5] 1 t) = (Inr (), t') \<and>
    loadTree mem_env (tdb t') ''t'' = Inr t'"
proof -
  obtain t where t: "newTree mem_env [] ''t'' 2 = Inr t" "tree_inv mem_env t" "tdepth t = 2" "tname t = ''t''"
    "\<And>b. getNumLeaves t b = 0"
    by (rule newTree_mem[of 2 "''t''"]) (simp_all add: MAX_DEPTH_def)
  let ?t = "addLeafToCacheAndHashToRoot mem_env [5] 1 t"
  have lev: "in_level (tdepth t) 1" using t(3) by (simp add: in_level_def)
  have inv: "tree_inv mem_env ?t" using t(2) lev by (rule add_leaf_correct)
  have "length (getRoot ?t True) = 32" by (rule mem_root_length[OF inv])
  moreover have "getNumLeaves ?t True = 0"
    using t(5)[of True] by (simp add: getNumLeaves_def cong: option.case_cong)
  ultimately show ?thesis using commit_load_roundtrip[OF inv] t(1,4) by auto
qed

text \<open>Rollback: whatever leaves have been written since the last commit, \<open>rollback\<close> restores the committed
  nodes and leaf count for every reader.\<close>

theorem rollback_discards_updates:
  assumes "tree_inv env t" and "\<forall>(leaf, i) \<in> set writes. in_level (tdepth t) i"
    and "t' = fold (\<lambda>(leaf, i) t. addLeafToCacheAndHashToRoot env leaf i t) writes t"
  shows "\<forall>b. node env (TreeBase_rollback t') b = node env t False \<and> getNumLeaves (TreeBase_rollback t') b = getNumLeaves t False"
proof -
  have step: "tree_inv env t' \<and> tree_view env False t' = tree_view env False t"
    using assms
  proof (induction writes arbitrary: t)
    case (Cons w ws)
    obtain leaf i where w: "w = (leaf, i)" by force
    let ?t = "addLeafToCacheAndHashToRoot env leaf i t"
    have "tree_inv env ?t" using Cons.prems w by (intro add_leaf_correct) auto
    moreover have "tree_view env False ?t = tree_view env False t"
      by (simp add: tree_view_def getNumLeaves_def)
    ultimately show ?case using Cons.IH[of ?t] Cons.prems w by auto
  qed simp
  have "tree_view env False (TreeBase_rollback t') = tree_view env False t \<and>
      tree_view env True (TreeBase_rollback t') = tree_view env False t"
    using base_tx.rollback_undoes[of env t "\<lambda>_. t'"] step assms(1) by simp
  then show ?thesis by (simp add: tree_view_def all_bool_eq)
qed

theorem rollback_discards_updates_witness:
  "\<exists>t. newTree mem_env [] ''t'' 2 = Inr t \<and>
    getNumLeaves (TreeBase_rollback (addLeafToCacheAndHashToRoot mem_env [7] 2 t)) True = 0"
proof -
  obtain t where t: "newTree mem_env [] ''t'' 2 = Inr t" "tree_inv mem_env t" "tdepth t = 2" "\<And>b. getNumLeaves t b = 0"
    by (rule newTree_mem[of 2 "''t''"]) (simp_all add: MAX_DEPTH_def)
  then show ?thesis using rollback_discards_updates[OF t(2) _ refl, of "[([7], 2)]"] by (auto simp: in_level_def)
qed

end
