(* ===== verification/SparseStandardTree.thy ===== *)
theory SparseStandardTree
  imports MerkleTreeBase
begin

text \<open>
  \<^verbatim>\<open>merkle-tree/src/sparse_tree/sparse_tree.ts\<close> and \<^verbatim>\<open>standard_tree/standard_tree.ts\<close>: the update-only tree and
  the append-only tree over \<open>TreeBase\<close>. Both are refined to a pair of a leaf function and a leaf count:
  an update or an append changes the pending pair the way the abstract operation says, commit makes it the
  committed pair and rollback discards it.
\<close>

section \<open>Sparse tree\<close>

definition SparseTree_updateLeaf :: "'db tree_env \<Rightarrow> buffer \<Rightarrow> int \<Rightarrow> ('db tree, unit) js" where
  "SparseTree_updateLeaf env leaf index t =
     (if index > maxIndex t then
        (Inl (Error (''Index out of bounds. Index '' @ dec index @ '', max index: '' @ dec (maxIndex t) @ ''.'')), t)
      else
        let insertingZeroElement = leaf = INITIAL_LEAF;
            originallyZeroElement = getLeafValue env t index True = INITIAL_LEAF
        in if insertingZeroElement \<and> originallyZeroElement then (Inr (), t)
           else
             let t = addLeafToCacheAndHashToRoot env leaf index t;
                 current = (case cachedSize t of Some n \<Rightarrow> n | None \<Rightarrow> tsize t)
             in (Inr (),
                 if insertingZeroElement then t\<lparr>cachedSize := Some (current - 1)\<rparr>
                 else if originallyZeroElement then t\<lparr>cachedSize := Some (current + 1)\<rparr>
                 else t))"

section \<open>Standard tree\<close>

fun append_loop :: "'db tree_env \<Rightarrow> int \<Rightarrow> buffer list \<Rightarrow> 'db tree \<Rightarrow> 'db tree" where
  "append_loop env index [] t = t"
| "append_loop env index (leaf # leaves) t =
     append_loop env (index + 1) leaves (addLeafToCacheAndHashToRoot env leaf index t)"

definition StandardTree_appendLeaves :: "'db tree_env \<Rightarrow> buffer list \<Rightarrow> ('db tree, unit) js" where
  "StandardTree_appendLeaves env leaves t =
     (let numLeaves = getNumLeaves t True in
      if numLeaves + int (length leaves) - 1 > maxIndex t then
        (Inl (Error (''Can't append beyond max index. Max index: '' @ dec (maxIndex t))), t)
      else (Inr (), (append_loop env numLeaves leaves t)\<lparr>cachedSize := Some (numLeaves + int (length leaves))\<rparr>))"

section \<open>Leaves\<close>

definition leaf_view :: "'db tree_env \<Rightarrow> bool \<Rightarrow> 'db tree \<Rightarrow> (int \<Rightarrow> buffer) \<times> int" where
  "leaf_view env b t =
     ((\<lambda>i. if in_level (tdepth t) i then getLeafValue env t i b else INITIAL_LEAF), getNumLeaves t b)"

lemma getLeafValue_node: "tree_wf env t \<Longrightarrow> getLeafValue env t i b = node env t b (tdepth t) i"
  by (simp add: getLeafValue_def node_def tree_wf_def)

lemma node_cachedSize [simp]: "node env (t\<lparr>cachedSize := n\<rparr>) b = node env t b"
  by (auto simp: node_def getRoot_def getLatestValueAtIndex_def fun_eq_iff Let_def cong: option.case_cong)

lemma tree_inv_cachedSize [simp]: "tree_inv env (t\<lparr>cachedSize := n\<rparr>) \<longleftrightarrow> tree_inv env t"
  by (simp add: tree_inv_def tree_wf_def)

lemma getLeafValue_cachedSize [simp]: "getLeafValue env (t\<lparr>cachedSize := n\<rparr>) i b = getLeafValue env t i b"
  by (simp add: getLeafValue_def getLatestValueAtIndex_def Let_def cong: option.case_cong)

lemma tree_inv_wf: "tree_inv env t \<Longrightarrow> tree_wf env t"
  by (simp add: tree_inv_def)

lemma getRoot_node: "getRoot t b = node env t b 0 0"
  by (simp add: node_def)

text \<open>The root a client sees is the Merkle root of the leaves it sees.\<close>

lemma getRoot_merkle:
  assumes "tree_inv env t"
  shows "getRoot t b = merkle_root (compress env) (tdepth t) (\<lambda>i. getLeafValue env t i b)"
proof -
  have "consistent (compress env) (tdepth t) (node env t b)" using assms by (cases b) (simp_all add: tree_inv_def)
  then have "getRoot t b = merkle_root (compress env) (tdepth t) (node env t b (tdepth t))"
    unfolding getRoot_node[of t b env] by (rule consistent_root)
  then show ?thesis using getLeafValue_node[OF tree_inv_wf[OF assms]] by simp
qed

lemma add_leaf_leaf:
  assumes "tree_inv env t" and "in_level (tdepth t) index" and "in_level (tdepth t) i"
  shows "getLeafValue env (addLeafToCacheAndHashToRoot env leaf index t) i True =
    (if i = index then leaf else getLeafValue env t i True)"
  using add_leaf_correct(1)[OF assms(1,2)] add_leaf_correct(2)[OF assms(1,2,3)]
  by (simp add: getLeafValue_node tree_inv_wf assms(1))

lemma add_leaf_committed [simp]:
  "getLeafValue env (addLeafToCacheAndHashToRoot env' leaf index t) i False = getLeafValue env t i False"
  by (simp add: getLeafValue_def getLatestValueAtIndex_def Let_def cong: option.case_cong)

lemma in_level_maxIndex: "tree_wf env t \<Longrightarrow> in_level (tdepth t) i \<longleftrightarrow> 0 \<le> i \<and> i \<le> maxIndex t"
  by (auto simp: in_level_def tree_wf_def)

section \<open>What an update does\<close>

definition num_nonzero :: "nat \<Rightarrow> (int \<Rightarrow> buffer) \<Rightarrow> int" where
  "num_nonzero d f = int (card {i. in_level d i \<and> f i \<noteq> INITIAL_LEAF})"

definition sparse_spec :: "nat \<Rightarrow> buffer \<times> int \<Rightarrow> (int \<Rightarrow> buffer) \<times> int \<Rightarrow> (int \<Rightarrow> buffer) \<times> int" where
  "sparse_spec d = (\<lambda>(leaf, i) (f, n).
     if i \<ge> 2 ^ d then (f, n)
     else (f(i := leaf), n + (if leaf \<noteq> INITIAL_LEAF then 1 else 0) - (if f i \<noteq> INITIAL_LEAF then 1 else 0)))"

lemma sparse_update_step:
  assumes inv: "tree_inv env t" and i: "in_level (tdepth t) i"
  shows "\<exists>t'. SparseTree_updateLeaf env leaf i t = (Inr (), t') \<and> tree_inv env t' \<and> tdepth t' = tdepth t \<and>
    tname t' = tname t \<and> leaf_view env False t' = leaf_view env False t \<and>
    leaf_view env True t' = sparse_spec (tdepth t) (leaf, i) (leaf_view env True t)"
proof (cases "leaf = INITIAL_LEAF \<and> getLeafValue env t i True = INITIAL_LEAF")
  case True
  moreover have "i \<le> maxIndex t" using i in_level_maxIndex[OF tree_inv_wf[OF inv]] by simp
  ultimately show ?thesis using inv i
    by (auto simp: SparseTree_updateLeaf_def leaf_view_def sparse_spec_def in_level_def Let_def)
next
  case False
  let ?a = "addLeafToCacheAndHashToRoot env leaf i t"
  define t' where "t' = snd (SparseTree_updateLeaf env leaf i t)"
  have t': "SparseTree_updateLeaf env leaf i t = (Inr (), t')"
    "\<exists>n. t' = ?a\<lparr>cachedSize := n\<rparr>"
    "getNumLeaves t' True = getNumLeaves t True + (if leaf \<noteq> INITIAL_LEAF then 1 else 0) -
      (if getLeafValue env t i True \<noteq> INITIAL_LEAF then 1 else 0)" "getNumLeaves t' False = getNumLeaves t False"
    using False i
    by (auto simp: t'_def SparseTree_updateLeaf_def in_level_maxIndex[OF tree_inv_wf[OF inv]] Let_def getNumLeaves_def
        split: option.splits intro: exI[of _ "cachedSize ?a"])
  have "tree_inv env ?a" by (rule add_leaf_correct[OF inv i])
  with t' show ?thesis
    using add_leaf_leaf[OF inv i, of _ leaf] i
    by (auto simp: leaf_view_def sparse_spec_def fun_eq_iff in_level_def)
qed

lemma sparse_update_error:
  "i > maxIndex t \<Longrightarrow> SparseTree_updateLeaf env leaf i t =
    (Inl (Error (''Index out of bounds. Index '' @ dec i @ '', max index: '' @ dec (maxIndex t) @ ''.'')), t)"
  by (simp add: SparseTree_updateLeaf_def)

lemma finite_in_level [simp]: "finite {i. in_level d i}"
  by (simp add: in_level_def)

lemma num_nonzero_upd:
  assumes "in_level d i"
  shows "num_nonzero d (f(i := x)) =
    num_nonzero d f + (if x \<noteq> INITIAL_LEAF then 1 else 0) - (if f i \<noteq> INITIAL_LEAF then 1 else 0)"
proof -
  let ?S = "{j. in_level d j \<and> j \<noteq> i \<and> f j \<noteq> INITIAL_LEAF}"
  have fin: "finite ?S" by (rule finite_subset[OF _ finite_in_level[of d]]) auto
  have 1: "{j. in_level d j \<and> (f(i := x)) j \<noteq> INITIAL_LEAF} = (if x \<noteq> INITIAL_LEAF then insert i ?S else ?S)"
    using assms by auto
  have 2: "{j. in_level d j \<and> f j \<noteq> INITIAL_LEAF} = (if f i \<noteq> INITIAL_LEAF then insert i ?S else ?S)"
    using assms by auto
  show ?thesis unfolding num_nonzero_def 1 2 using fin by auto
qed

text \<open>The invariant of the sparse tree: both counts are the number of leaves that are not empty.\<close>

definition count_ok :: "nat \<Rightarrow> (int \<Rightarrow> buffer) \<times> int \<Rightarrow> bool" where
  "count_ok d v \<longleftrightarrow> snd v = num_nonzero d (fst v)"

lemma sparse_spec_count: "count_ok d v \<Longrightarrow> 0 \<le> i \<Longrightarrow> count_ok d (sparse_spec d (leaf, i) v)"
  using num_nonzero_upd[of d i "fst v" leaf]
  by (auto simp: count_ok_def sparse_spec_def in_level_def split: prod.splits)

definition sparse_inv :: "'db tree_env \<Rightarrow> nat \<Rightarrow> 'db tree \<Rightarrow> bool" where
  "sparse_inv env d t \<longleftrightarrow> tree_inv env t \<and> tdepth t = d \<and> (\<forall>b. count_ok d (leaf_view env b t))"

lemma leaf_view_node:
  "tree_inv env t \<Longrightarrow> leaf_view env b t =
     ((\<lambda>i. if in_level (tdepth t) i then node env t b (tdepth t) i else INITIAL_LEAF), getNumLeaves t b)"
  by (simp add: leaf_view_def getLeafValue_node tree_inv_wf cong: if_cong)

lemma TreeBase_commit_leaf_view:
  assumes "tree_inv env t"
  shows "\<exists>t'. TreeBase_commit env t = (Inr (), t') \<and> tree_inv env t' \<and> tdepth t' = tdepth t \<and>
    tname t' = tname t \<and> (\<forall>b. leaf_view env b t' = leaf_view env True t)"
proof -
  obtain data t' where t': "TreeBase_commit env t = (Inr (), t')" "tree_inv env t'"
    "\<forall>b. node env t' b = node env t True" "\<forall>b. getNumLeaves t' b = getNumLeaves t True"
    "t' = clearCache (t\<lparr>tsize := getNumLeaves t True, troot := getRoot t True,
      tdb := lu_batch env (tdb t) (map (\<lambda>(k, v). (k, VBuffer v)) (tcache t) @ [(tname t, VBuffer data)])\<rparr>)"
    using TreeBase_commit_ok[OF assms] by blast
  moreover have "tdepth t' = tdepth t" "tname t' = tname t" using t'(5) by (simp_all add: clearCache_def)
  moreover have "\<forall>b. leaf_view env b t' = leaf_view env True t"
    unfolding leaf_view_node[OF t'(2)] leaf_view_node[OF assms] using t'(3,4) calculation(6) by (simp cong: if_cong)
  ultimately show ?thesis by blast
qed

lemma TreeBase_rollback_leaf_view:
  assumes "tree_inv env t"
  shows "tree_inv env (TreeBase_rollback t) \<and> tdepth (TreeBase_rollback t) = tdepth t \<and>
    (\<forall>b. leaf_view env b (TreeBase_rollback t) = leaf_view env False t)"
proof -
  have d: "tdepth (TreeBase_rollback t) = tdepth t" by (simp add: TreeBase_rollback_def clearCache_def)
  show ?thesis
    using TreeBase_rollback_ok[OF assms] d by (simp add: leaf_view_node assms getNumLeaves_def[of t] cong: if_cong)
qed

lemma sparse_perform:
  assumes "sparse_inv env d t" and "0 \<le> i"
  shows "tree_inv env (snd (SparseTree_updateLeaf env leaf i t)) \<and> tdepth (snd (SparseTree_updateLeaf env leaf i t)) = d \<and>
    leaf_view env False (snd (SparseTree_updateLeaf env leaf i t)) = leaf_view env False t \<and>
    leaf_view env True (snd (SparseTree_updateLeaf env leaf i t)) = sparse_spec d (leaf, i) (leaf_view env True t)"
proof (cases "in_level d i")
  case True
  then show ?thesis using assms sparse_update_step[of env t i leaf] by (auto simp: sparse_inv_def)
next
  case False
  then have "i \<ge> 2 ^ d" using assms(2) by (simp add: in_level_def)
  moreover from this have "i > maxIndex t" using assms(1) by (simp add: sparse_inv_def tree_inv_def tree_wf_def)
  ultimately show ?thesis
    using assms(1) by (auto simp: sparse_update_error sparse_spec_def sparse_inv_def split: prod.splits)
qed

interpretation sparse_tx: transactional_ops "\<lambda>t. snd (TreeBase_commit env t)" TreeBase_rollback
    "leaf_view env False" "leaf_view env True" "sparse_inv env d"
    "\<lambda>(leaf, i) t. snd (SparseTree_updateLeaf env leaf i t)" "sparse_spec d" "\<lambda>(leaf, i). 0 \<le> i" for env d
proof (unfold_locales, goal_cases)
  case (1 t)
  then show ?case using TreeBase_commit_leaf_view[of env t] by (auto simp: sparse_inv_def)
next
  case (2 t)
  then show ?case using TreeBase_rollback_leaf_view[of env t] by (auto simp: sparse_inv_def)
next
  case (3 t)
  then show ?case using TreeBase_commit_leaf_view[of env t] by (auto simp: sparse_inv_def)
next
  case (4 t)
  then show ?case using TreeBase_commit_leaf_view[of env t] by (auto simp: sparse_inv_def)
next
  case (5 t)
  then show ?case using TreeBase_rollback_leaf_view[of env t] by (auto simp: sparse_inv_def)
next
  case (6 t)
  then show ?case using TreeBase_rollback_leaf_view[of env t] by (auto simp: sparse_inv_def)
next
  case (7 t x)
  then show ?case using sparse_perform[of env d t "snd x" "fst x"] sparse_spec_count[of d _ "snd x" "fst x"]
    by (auto simp: case_prod_unfold sparse_inv_def all_bool_eq)
next
  case (8 t x)
  then show ?case using sparse_perform[of env d t "snd x" "fst x"] by (simp add: case_prod_unfold)
next
  case (9 t x)
  then show ?case using sparse_perform[of env d t "snd x" "fst x"] by (simp add: case_prod_unfold)
qed

section \<open>What an append does\<close>

definition standard_spec :: "nat \<Rightarrow> buffer list \<Rightarrow> (int \<Rightarrow> buffer) \<times> int \<Rightarrow> (int \<Rightarrow> buffer) \<times> int" where
  "standard_spec d leaves = (\<lambda>(f, n).
     if n + int (length leaves) > 2 ^ d then (f, n)
     else (\<lambda>j. if n \<le> j \<and> j < n + int (length leaves) then leaves ! nat (j - n) else f j, n + int (length leaves)))"

lemma append_loop_frame [simp]:
  "tdepth (append_loop env i xs t) = tdepth t" "tsize (append_loop env i xs t) = tsize t"
  "tname (append_loop env i xs t) = tname t" "maxIndex (append_loop env i xs t) = maxIndex t"
  "getLeafValue env' (append_loop env i xs t) j False = getLeafValue env' t j False"
  by (induction xs arbitrary: i t) simp_all

lemma append_loop_correct:
  assumes "tree_inv env t" and "0 \<le> i" and "i + int (length xs) \<le> 2 ^ tdepth t"
  shows "tree_inv env (append_loop env i xs t) \<and>
    (\<forall>j. in_level (tdepth t) j \<longrightarrow> getLeafValue env (append_loop env i xs t) j True =
      (if i \<le> j \<and> j < i + int (length xs) then xs ! nat (j - i) else getLeafValue env t j True))"
  using assms
proof (induction xs arbitrary: i t)
  case (Cons x xs)
  let ?a = "addLeafToCacheAndHashToRoot env x i t"
  have i: "in_level (tdepth t) i" using Cons.prems by (simp add: in_level_def)
  have "tree_inv env ?a" using Cons.prems(1) i by (rule add_leaf_correct)
  then have IH: "tree_inv env (append_loop env (i + 1) xs ?a) \<and>
    (\<forall>j. in_level (tdepth t) j \<longrightarrow> getLeafValue env (append_loop env (i + 1) xs ?a) j True =
      (if i + 1 \<le> j \<and> j < i + 1 + int (length xs) then xs ! nat (j - (i + 1)) else getLeafValue env ?a j True))"
    using Cons.IH[of ?a "i + 1"] Cons.prems by simp
  have nth: "(x # xs) ! nat (j - i) = xs ! nat (j - (i + 1))" if "i + 1 \<le> j" for j
  proof -
    have "nat (j - i) = Suc (nat (j - (i + 1)))" using that by simp
    then show ?thesis by simp
  qed
  show ?case using IH nth add_leaf_leaf[OF Cons.prems(1) i, of _ x] by auto
qed auto

definition standard_inv :: "'db tree_env \<Rightarrow> nat \<Rightarrow> 'db tree \<Rightarrow> bool" where
  "standard_inv env d t \<longleftrightarrow> tree_inv env t \<and> tdepth t = d \<and> (\<forall>b. 0 \<le> getNumLeaves t b)"

lemma standard_append_error:
  "getNumLeaves t True + int (length leaves) - 1 > maxIndex t \<Longrightarrow> StandardTree_appendLeaves env leaves t =
    (Inl (Error (''Can't append beyond max index. Max index: '' @ dec (maxIndex t))), t)"
  by (simp add: StandardTree_appendLeaves_def)

lemma standard_append_step:
  assumes inv: "standard_inv env d t" and fit: "getNumLeaves t True + int (length leaves) \<le> 2 ^ d"
  shows "\<exists>t'. StandardTree_appendLeaves env leaves t = (Inr (), t') \<and> standard_inv env d t' \<and>
    leaf_view env False t' = leaf_view env False t \<and>
    leaf_view env True t' = standard_spec d leaves (leaf_view env True t)"
proof -
  let ?n = "getNumLeaves t True"
  let ?t = "(append_loop env ?n leaves t)\<lparr>cachedSize := Some (?n + int (length leaves))\<rparr>"
  have ti: "tree_inv env t" and d: "tdepth t = d" and n: "0 \<le> ?n" "0 \<le> getNumLeaves t False"
    using inv by (simp_all add: standard_inv_def)
  have run: "StandardTree_appendLeaves env leaves t = (Inr (), ?t)"
    using tree_inv_wf[OF ti] fit d by (simp add: StandardTree_appendLeaves_def tree_wf_def Let_def)
  have loop: "tree_inv env (append_loop env ?n leaves t)"
    "\<And>j. in_level d j \<Longrightarrow> getLeafValue env (append_loop env ?n leaves t) j True =
      (if ?n \<le> j \<and> j < ?n + int (length leaves) then leaves ! nat (j - ?n) else getLeafValue env t j True)"
    using append_loop_correct[OF ti n(1), of leaves] fit d by auto
  have num: "getNumLeaves ?t True = ?n + int (length leaves)" "getNumLeaves ?t False = getNumLeaves t False"
    by (simp_all add: getNumLeaves_def)
  have "standard_inv env d ?t" using loop(1) d n num by (simp add: standard_inv_def all_bool_eq)
  moreover have "leaf_view env False ?t = leaf_view env False t" using d num by (simp add: leaf_view_def cong: if_cong)
  moreover have "leaf_view env True ?t = standard_spec d leaves (leaf_view env True t)"
    using d num loop(2) fit n(1) by (auto simp: leaf_view_def standard_spec_def fun_eq_iff in_level_def)
  ultimately show ?thesis using run by blast
qed

lemma standard_perform:
  assumes "standard_inv env d t"
  shows "standard_inv env d (snd (StandardTree_appendLeaves env leaves t)) \<and>
    leaf_view env False (snd (StandardTree_appendLeaves env leaves t)) = leaf_view env False t \<and>
    leaf_view env True (snd (StandardTree_appendLeaves env leaves t)) = standard_spec d leaves (leaf_view env True t)"
proof (cases "getNumLeaves t True + int (length leaves) \<le> 2 ^ d")
  case True
  then show ?thesis using standard_append_step[OF assms True] by auto
next
  case False
  then have "getNumLeaves t True + int (length leaves) - 1 > maxIndex t"
    using assms by (simp add: standard_inv_def tree_inv_def tree_wf_def)
  then show ?thesis using assms False by (simp add: standard_append_error standard_spec_def leaf_view_def)
qed

lemma getNumLeaves_leaf_view: "getNumLeaves t b = snd (leaf_view env b t)"
  by (simp add: leaf_view_def)

interpretation standard_tx: transactional_ops "\<lambda>t. snd (TreeBase_commit env t)" TreeBase_rollback
    "leaf_view env False" "leaf_view env True" "standard_inv env d"
    "\<lambda>leaves t. snd (StandardTree_appendLeaves env leaves t)" "standard_spec d" "\<lambda>_. True" for env d
proof (unfold_locales, goal_cases)
  case (1 t)
  then show ?case using TreeBase_commit_leaf_view[of env t]
    by (auto simp: standard_inv_def getNumLeaves_leaf_view[of _ _ env])
next
  case (2 t)
  then show ?case using TreeBase_rollback_leaf_view[of env t]
    by (auto simp: standard_inv_def getNumLeaves_leaf_view[of _ _ env])
next
  case (3 t)
  then show ?case using TreeBase_commit_leaf_view[of env t] by (auto simp: standard_inv_def)
next
  case (4 t)
  then show ?case using TreeBase_commit_leaf_view[of env t] by (auto simp: standard_inv_def)
next
  case (5 t)
  then show ?case using TreeBase_rollback_leaf_view[of env t] by (auto simp: standard_inv_def)
next
  case (6 t)
  then show ?case using TreeBase_rollback_leaf_view[of env t] by (auto simp: standard_inv_def)
next
  case (7 t x)
  then show ?case using standard_perform[of env d t x] by blast
next
  case (8 t x)
  then show ?case using standard_perform[of env d t x] by blast
next
  case (9 t x)
  then show ?case using standard_perform[of env d t x] by blast
qed

section \<open>Properties\<close>

lemma leaf_view_new:
  assumes "tree_inv env t" and "tdepth t = d" and "\<And>b. getNumLeaves t b = 0" and "\<And>b i. node env t b d i = INITIAL_LEAF"
  shows "leaf_view env b t = (\<lambda>_. INITIAL_LEAF, 0)"
  using assms by (simp add: leaf_view_def getLeafValue_node tree_inv_wf cong: if_cong)

lemma sparse_inv_new:
  assumes "tree_inv env t" and "tdepth t = d" and "\<And>b. getNumLeaves t b = 0" and "\<And>b i. node env t b d i = INITIAL_LEAF"
  shows "sparse_inv env d t"
  using assms leaf_view_new[OF assms] by (simp add: sparse_inv_def count_ok_def num_nonzero_def)

text \<open>\<open>SparseTree.updateLeaf\<close> at an index of the tree succeeds; it sets that leaf and no other, the new root is the
  Merkle root of the updated leaves, the committed view is unchanged, and the leaf count goes up or down by one
  exactly when the leaf becomes non-empty or empty.\<close>

theorem sparse_update_leaf:
  assumes "tree_inv env t" and "0 \<le> i" "i \<le> maxIndex t"
  shows "\<exists>t'. SparseTree_updateLeaf env leaf i t = (Inr (), t') \<and> tree_inv env t' \<and>
    leaf_view env False t' = leaf_view env False t \<and>
    (\<forall>j. in_level (tdepth t) j \<longrightarrow> getLeafValue env t' j True = (if j = i then leaf else getLeafValue env t j True)) \<and>
    getRoot t' True = merkle_root (compress env) (tdepth t) ((\<lambda>j. getLeafValue env t j True)(i := leaf)) \<and>
    getNumLeaves t' True = getNumLeaves t True + (if leaf \<noteq> INITIAL_LEAF then 1 else 0) -
      (if getLeafValue env t i True \<noteq> INITIAL_LEAF then 1 else 0)"
proof -
  have i: "in_level (tdepth t) i" using assms in_level_maxIndex[OF tree_inv_wf[OF assms(1)]] by simp
  obtain t' where t': "SparseTree_updateLeaf env leaf i t = (Inr (), t')" "tree_inv env t'" "tdepth t' = tdepth t"
    "leaf_view env False t' = leaf_view env False t"
    "leaf_view env True t' = sparse_spec (tdepth t) (leaf, i) (leaf_view env True t)"
    using sparse_update_step[OF assms(1) i] by blast
  have lv: "getLeafValue env t' j True = (if j = i then leaf else getLeafValue env t j True)" if "in_level (tdepth t) j" for j
    using fun_cong[OF arg_cong[OF t'(5), of fst], of j] that i t'(3)
    by (auto simp: leaf_view_def sparse_spec_def in_level_def split: if_splits)
  have "getRoot t' True = merkle_root (compress env) (tdepth t) ((\<lambda>j. getLeafValue env t j True)(i := leaf))"
    unfolding getRoot_merkle[OF t'(2)] t'(3) by (rule merkle_root_cong) (simp add: lv)
  moreover have "getNumLeaves t' True = getNumLeaves t True + (if leaf \<noteq> INITIAL_LEAF then 1 else 0) -
      (if getLeafValue env t i True \<noteq> INITIAL_LEAF then 1 else 0)"
    using arg_cong[OF t'(5), of snd] i by (auto simp: leaf_view_def sparse_spec_def in_level_def)
  ultimately show ?thesis using t' lv by blast
qed

theorem sparse_update_leaf_witness:
  "\<exists>t t'. newTree mem_env [] ''s'' 4 = Inr t \<and> SparseTree_updateLeaf mem_env (replicate 32 2) 9 t = (Inr (), t') \<and>
    getLeafValue mem_env t' 9 True = replicate 32 2 \<and> getNumLeaves t' True = 1"
proof -
  obtain t where t: "newTree mem_env [] ''s'' 4 = Inr t" "tree_inv mem_env t" "tdepth t = 4"
    "\<And>b. getNumLeaves t b = 0" "\<And>b i. node mem_env t b 4 i = INITIAL_LEAF"
    by (rule newTree_mem[of 4 "''s''"]) (simp_all add: MAX_DEPTH_def)
  have m: "maxIndex t = 15" using t(2,3) by (simp add: tree_inv_def tree_wf_def)
  have "getLeafValue mem_env t 9 True = INITIAL_LEAF" using t by (simp add: getLeafValue_node tree_inv_wf)
  moreover have "replicate 32 (2 :: byte) \<noteq> INITIAL_LEAF" by (simp add: INITIAL_LEAF_def)
  ultimately show ?thesis using sparse_update_leaf[OF t(2), of 9 "replicate 32 2"] t m by (auto simp: in_level_def)
qed

text \<open>An update beyond the last index throws \<open>Index out of bounds\<close> and an append that does not fit throws
  \<open>Can't append beyond max index\<close>; both leave the tree untouched.\<close>

theorem tree_bounds_errors:
  "(i > maxIndex t \<longrightarrow> SparseTree_updateLeaf env leaf i t =
     (Inl (Error (''Index out of bounds. Index '' @ dec i @ '', max index: '' @ dec (maxIndex t) @ ''.'')), t)) \<and>
   (getNumLeaves t True + int (length ls) > maxIndex t + 1 \<longrightarrow> StandardTree_appendLeaves env ls t =
     (Inl (Error (''Can't append beyond max index. Max index: '' @ dec (maxIndex t))), t))"
  by (simp add: sparse_update_error standard_append_error)

theorem tree_bounds_errors_witness:
  "\<exists>t e. newTree mem_env [] ''s'' 1 = Inr t \<and> SparseTree_updateLeaf mem_env [1] 2 t = (Inl e, t)"
proof -
  obtain t where t: "newTree mem_env [] ''s'' 1 = Inr t" "tree_inv mem_env t" "tdepth t = 1"
    by (rule newTree_mem[of 1 "''s''"]) (simp_all add: MAX_DEPTH_def)
  then have "maxIndex t = 1" by (simp add: tree_inv_def tree_wf_def)
  then show ?thesis using tree_bounds_errors[of t 2 mem_env "[1]" "[]"] t(1) by auto
qed

text \<open>C19. Refinement of the sparse tree: over any sequence of updates (at non-negative indices), commits and
  rollbacks starting from a new tree, the committed and the pending leaves and counts are those of the abstract
  pair of leaf functions, out-of-range updates included (they change nothing).\<close>

theorem sparse_tree_refines:
  assumes "levelup_ok env" and "no_nodes env db name" and "1 \<le> d" "d \<le> MAX_DEPTH"
    and "\<forall>op \<in> set ops. tx_ok (\<lambda>(leaf, i). 0 \<le> i) op"
  shows "\<exists>t t'. newTree env db name d = Inr t \<and>
    t' = fold (tx_step (\<lambda>t. snd (TreeBase_commit env t)) TreeBase_rollback
      (\<lambda>(leaf, i) t. snd (SparseTree_updateLeaf env leaf i t))) ops t \<and>
    (leaf_view env False t', leaf_view env True t') =
      fold (tx_spec (sparse_spec d)) ops ((\<lambda>_. INITIAL_LEAF, 0), (\<lambda>_. INITIAL_LEAF, 0)) \<and>
    (\<forall>b. getNumLeaves t' b = num_nonzero d (\<lambda>i. getLeafValue env t' i b))"
proof -
  obtain t where t: "newTree env db name d = Inr t" "tree_inv env t" "tdepth t = d" "\<And>b. getNumLeaves t b = 0"
    "\<And>b i. node env t b d i = INITIAL_LEAF"
    using newTree_inv[OF assms(1-4)] by blast
  define t' where "t' = fold (tx_step (\<lambda>t. snd (TreeBase_commit env t)) TreeBase_rollback
      (\<lambda>(leaf, i) t. snd (SparseTree_updateLeaf env leaf i t))) ops t"
  note run = sparse_tx.run_refines[OF sparse_inv_new[OF t(2,3,4,5)] assms(5), folded t'_def]
  have "getNumLeaves t' b = num_nonzero d (\<lambda>i. getLeafValue env t' i b)" for b
  proof -
    have "tdepth t' = d" "count_ok d (leaf_view env b t')" using run by (auto simp: sparse_inv_def)
    then show ?thesis by (simp add: count_ok_def leaf_view_def num_nonzero_def cong: conj_cong)
  qed
  then show ?thesis using t(1) t'_def run leaf_view_new[OF t(2,3,4,5)] by auto
qed

theorem sparse_tree_refines_witness:
  "\<exists>t t'. newTree mem_env [] ''s'' 3 = Inr t \<and>
    t' = fold (tx_step (\<lambda>t. snd (TreeBase_commit mem_env t)) TreeBase_rollback
      (\<lambda>(leaf, i) t. snd (SparseTree_updateLeaf mem_env leaf i t))) [Perform ([9], 2), Commit, Perform ([8], 5), Rollback] t \<and>
    getNumLeaves t' True = 1"
proof -
  let ?ops = "[Perform ([9], 2), Commit, Perform ([8], 5), Rollback] :: (buffer \<times> int) tx_op list"
  have ne: "[9] \<noteq> INITIAL_LEAF" "[8] \<noteq> INITIAL_LEAF"
    by (auto simp: INITIAL_LEAF_def dest: arg_cong[of _ _ length])
  have "\<exists>t t'. newTree mem_env [] ''s'' 3 = Inr t \<and>
    t' = fold (tx_step (\<lambda>t. snd (TreeBase_commit mem_env t)) TreeBase_rollback
      (\<lambda>(leaf, i) t. snd (SparseTree_updateLeaf mem_env leaf i t))) ?ops t \<and>
    (leaf_view mem_env False t', leaf_view mem_env True t') =
      fold (tx_spec (sparse_spec 3)) ?ops ((\<lambda>_. INITIAL_LEAF, 0), (\<lambda>_. INITIAL_LEAF, 0)) \<and>
    (\<forall>b. getNumLeaves t' b = num_nonzero 3 (\<lambda>i. getLeafValue mem_env t' i b))"
    by (rule sparse_tree_refines[OF levelup_ok_mem no_nodes_mem]) (simp_all add: MAX_DEPTH_def)
  then show ?thesis
    using ne by (force simp: sparse_spec_def leaf_view_def)
qed

text \<open>C16. Refinement of the append-only tree: over any sequence of appends, commits and rollbacks starting from a new
  tree, the leaves are the appended values in order, the count is their number, an append that does not fit
  changes nothing, and the root is always the Merkle root of the leaves.\<close>

theorem standard_tree_refines:
  assumes "levelup_ok env" and "no_nodes env db name" and "1 \<le> d" "d \<le> MAX_DEPTH"
  shows "\<exists>t t'. newTree env db name d = Inr t \<and>
    t' = fold (tx_step (\<lambda>t. snd (TreeBase_commit env t)) TreeBase_rollback
      (\<lambda>ls t. snd (StandardTree_appendLeaves env ls t))) ops t \<and>
    (leaf_view env False t', leaf_view env True t') =
      fold (tx_spec (standard_spec d)) ops ((\<lambda>_. INITIAL_LEAF, 0), (\<lambda>_. INITIAL_LEAF, 0)) \<and>
    (\<forall>b. getRoot t' b = merkle_root (compress env) d (fst (leaf_view env b t')))"
proof -
  obtain t where t: "newTree env db name d = Inr t" "tree_inv env t" "tdepth t = d" "\<And>b. getNumLeaves t b = 0"
    "\<And>b i. node env t b d i = INITIAL_LEAF"
    using newTree_inv[OF assms] by blast
  have inv: "standard_inv env d t" using t by (simp add: standard_inv_def)
  define t' where "t' = fold (tx_step (\<lambda>t. snd (TreeBase_commit env t)) TreeBase_rollback
      (\<lambda>ls t. snd (StandardTree_appendLeaves env ls t))) ops t"
  have ok: "\<forall>op \<in> set ops. tx_ok (\<lambda>_. True) op" by (metis tx_ok.elims(3))
  note run = standard_tx.run_refines[OF inv ok, folded t'_def]
  have "getRoot t' b = merkle_root (compress env) d (fst (leaf_view env b t'))" for b
  proof -
    have t': "tree_inv env t'" "tdepth t' = d" using run by (auto simp: standard_inv_def)
    show ?thesis unfolding getRoot_merkle[OF t'(1)] t'(2) by (rule merkle_root_cong) (simp add: leaf_view_def t'(2))
  qed
  then show ?thesis using t(1) t'_def run leaf_view_new[OF t(2,3,4,5)] by auto
qed

theorem standard_tree_refines_witness:
  "\<exists>t t'. newTree mem_env [] ''s'' 3 = Inr t \<and>
    t' = fold (tx_step (\<lambda>t. snd (TreeBase_commit mem_env t)) TreeBase_rollback
      (\<lambda>ls t. snd (StandardTree_appendLeaves mem_env ls t))) [Perform [[9], [8]], Commit, Perform [[7]]] t \<and>
    getNumLeaves t' True = 3 \<and> getNumLeaves t' False = 2"
proof -
  let ?ops = "[Perform [[9], [8]], Commit, Perform [[7]]] :: buffer list tx_op list"
  have "\<exists>t t'. newTree mem_env [] ''s'' 3 = Inr t \<and>
    t' = fold (tx_step (\<lambda>t. snd (TreeBase_commit mem_env t)) TreeBase_rollback
      (\<lambda>ls t. snd (StandardTree_appendLeaves mem_env ls t))) ?ops t \<and>
    (leaf_view mem_env False t', leaf_view mem_env True t') =
      fold (tx_spec (standard_spec 3)) ?ops ((\<lambda>_. INITIAL_LEAF, 0), (\<lambda>_. INITIAL_LEAF, 0)) \<and>
    (\<forall>b. getRoot t' b = merkle_root (compress mem_env) 3 (fst (leaf_view mem_env b t')))"
    by (rule standard_tree_refines[OF levelup_ok_mem no_nodes_mem]) (simp_all add: MAX_DEPTH_def)
  then show ?thesis by (force simp: standard_spec_def leaf_view_def)
qed

end
