(* ===== verification/IndexedTree.thy ===== *)
theory IndexedTree
  imports SparseStandardTree
begin

text \<open>
  \<^verbatim>\<open>merkle-tree/src/standard_indexed_tree/standard_indexed_tree.ts\<close>: the nullifier tree. Its leaves form a
  linked list sorted by value, each leaf holding the value and index of the next one; the leaf hashes are
  kept in the underlying \<open>TreeBase\<close>. The theory models every operation, among them the single insertion
  \<open>appendLeaf\<close> and the subtree insertion \<open>batchInsert\<close>, and shows that both keep the list linked and sorted and
  insert exactly the given values.
\<close>

section \<open>Arrays and numbers\<close>

text \<open>A JavaScript array with holes: its properties and its \<open>length\<close>.\<close>

record 'a js_array =
  slots :: "int \<rightharpoonup> 'a"
  arr_length :: int

definition empty_array :: "'a js_array" where
  "empty_array = \<lparr>slots = (\<lambda>_. None), arr_length = 0\<rparr>"

definition js_set :: "'a js_array \<Rightarrow> int \<Rightarrow> 'a \<Rightarrow> 'a js_array" where
  "js_set a i x = a\<lparr>slots := (slots a)(i \<mapsto> x), arr_length := max (arr_length a) (i + 1)\<rparr>"

definition js_push :: "'a js_array \<Rightarrow> 'a \<Rightarrow> 'a js_array" where
  "js_push a x = js_set a (arr_length a) x"

text \<open>\<open>Number(n)\<close> of a bigint: the nearest double, ties to even. It is the identity up to \<open>2 ^ 53\<close>.\<close>

fun excess_bits :: "nat \<Rightarrow> nat" where
  "excess_bits a = (if a < 2 ^ 53 then 0 else Suc (excess_bits (a div 2)))"

declare excess_bits.simps [simp del]

definition js_Number :: "int \<Rightarrow> int" where
  "js_Number n =
     (let a = \<bar>n\<bar>; e = excess_bits (nat a); q = a div 2 ^ e; r = 2 * (a mod 2 ^ e);
          q' = (if r > 2 ^ e \<or> (r = 2 ^ e \<and> odd q) then q + 1 else q)
      in (if e = 0 then n else sgn n * (q' * 2 ^ e)))"

lemma js_Number_small [simp]: "0 \<le> n \<Longrightarrow> n < 2 ^ 53 \<Longrightarrow> js_Number n = n"
  by (simp add: js_Number_def Let_def excess_bits.simps nat_less_iff)

section \<open>Leaves and their encoding\<close>

definition indexToKeyLeaf :: "string \<Rightarrow> int \<Rightarrow> string" where
  "indexToKeyLeaf name index = name @ '':leaf:'' @ dec index"

definition zeroLeaf :: leaf_data where
  "zeroLeaf = \<lparr>ld_value = 0, nextIndex = 0, nextValue = 0\<rparr>"

definition initialLeaf :: leaf_data where
  "initialLeaf = \<lparr>ld_value = 0, nextIndex = 0, nextValue = 0\<rparr>"

record low_leaf_witness =
  leafData :: leaf_data
  siblingPath :: sibling_path
  wit_index :: int

definition getEmptyLowLeafWitness :: "nat \<Rightarrow> low_leaf_witness result" where
  "getEmptyLowLeafWitness treeHeight =
     rbind (toBufferBE 0 32) (\<lambda>z.
       rbind (new_SiblingPath (int treeHeight) (replicate treeHeight z)) (\<lambda>path.
         Inr \<lparr>leafData = zeroLeaf, siblingPath = path, wit_index = 0\<rparr>))"

definition encodeTreeValue :: "leaf_data \<Rightarrow> buffer result" where
  "encodeTreeValue leaf =
     rbind (toBufferBE (ld_value leaf) 32) (\<lambda>valueAsBuffer.
       rbind (toBufferBE (nextIndex leaf) 32) (\<lambda>indexAsBuffer.
         rbind (toBufferBE (nextValue leaf) 32) (\<lambda>nextValueAsBuffer.
           Inr (valueAsBuffer @ indexAsBuffer @ nextValueAsBuffer))))"

definition hashEncodedTreeValue :: "(buffer list \<Rightarrow> buffer) \<Rightarrow> leaf_data \<Rightarrow> buffer result" where
  "hashEncodedTreeValue hash leaf =
     rbind (rtraverse (\<lambda>val. toBufferBE val 32) [ld_value leaf, nextIndex leaf, nextValue leaf])
       (\<lambda>inputs. Inr (hash inputs))"

definition decodeTreeValue :: "buffer \<Rightarrow> leaf_data" where
  "decodeTreeValue buf =
     \<lparr>ld_value = toBigIntBE (subarray 0 32 buf), nextIndex = toBigIntBE (subarray 32 64 buf),
      nextValue = toBigIntBE (subarray 64 96 buf)\<rparr>"

section \<open>State\<close>

text \<open>\<open>cachedLeaves\<close> is an object keyed by leaf index, kept as an association list.\<close>

record 'db indexed_tree =
  it_base :: "'db tree"
  leaves :: "leaf_data js_array"
  cachedLeaves :: "(int \<times> leaf_data) list"

text \<open>A method inherited from \<open>TreeBase\<close>.\<close>

definition it_super :: "('db tree, 'a) js \<Rightarrow> ('db indexed_tree, 'a) js" where
  "it_super m t = (case m (it_base t) of (r, b) \<Rightarrow> (r, t\<lparr>it_base := b\<rparr>))"

definition cachedLeaves_put :: "int \<Rightarrow> leaf_data \<Rightarrow> 'db indexed_tree \<Rightarrow> 'db indexed_tree" where
  "cachedLeaves_put i leaf t = t\<lparr>cachedLeaves := AList.update i leaf (cachedLeaves t)\<rparr>"

definition it_getNumLeaves :: "'db indexed_tree \<Rightarrow> bool \<Rightarrow> int" where
  "it_getNumLeaves t b = getNumLeaves (it_base t) b"

definition it_set_cachedSize :: "int \<Rightarrow> 'db indexed_tree \<Rightarrow> 'db indexed_tree" where
  "it_set_cachedSize n t = t\<lparr>it_base := (it_base t)\<lparr>cachedSize := Some n\<rparr>\<rparr>"

section \<open>Lookups\<close>

definition getLatestLeafDataCopy :: "'db indexed_tree \<Rightarrow> int \<Rightarrow> bool \<Rightarrow> leaf_data option" where
  "getLatestLeafDataCopy t index includeUncommitted =
     (if \<not> includeUncommitted then slots (leaves t) index
      else case map_of (cachedLeaves t) index of Some leaf \<Rightarrow> Some leaf | None \<Rightarrow> slots (leaves t) index)"

definition it_getLeafValue :: "'db indexed_tree \<Rightarrow> int \<Rightarrow> bool \<Rightarrow> buffer option result" where
  "it_getLeafValue t index includeUncommitted =
     (case getLatestLeafDataCopy t (js_Number index) includeUncommitted of
        None \<Rightarrow> Inr None
      | Some leaf \<Rightarrow> rbind (toBufferBE (ld_value leaf) 32) (\<lambda>b. Inr (Some b)))"

fun min_loop :: "int list \<Rightarrow> nat \<Rightarrow> nat list \<Rightarrow> nat" where
  "min_loop vs minIndex [] = minIndex"
| "min_loop vs minIndex (i # is) = min_loop vs (if vs ! minIndex > vs ! i then i else minIndex) is"

definition findMinIndex :: "int list \<Rightarrow> nat" where
  "findMinIndex vs = (if vs = [] then 0 else min_loop vs 0 [1..<length vs])"

text \<open>The scan over the leaves: \<open>Inl i\<close> is the early return on an equal value, \<open>Inr\<close> the array \<open>diff\<close>.\<close>

fun diff_loop :: "(int \<Rightarrow> leaf_data option) \<Rightarrow> int \<Rightarrow> int list \<Rightarrow> int list \<Rightarrow> int + int list" where
  "diff_loop get newValue [] diff = Inr diff"
| "diff_loop get newValue (i # is) diff =
     (case get i of
        None \<Rightarrow> diff_loop get newValue is (diff @ [newValue])
      | Some storedLeaf \<Rightarrow>
          if ld_value storedLeaf > newValue then diff_loop get newValue is (diff @ [newValue])
          else if ld_value storedLeaf = newValue then Inl i
          else diff_loop get newValue is (diff @ [newValue - ld_value storedLeaf]))"

definition findIndexOfPreviousValue :: "'db indexed_tree \<Rightarrow> int \<Rightarrow> bool \<Rightarrow> int \<times> bool" where
  "findIndexOfPreviousValue t newValue includeUncommitted =
     (let numLeaves = it_getNumLeaves t includeUncommitted in
      case diff_loop (\<lambda>i. getLatestLeafDataCopy t i includeUncommitted) newValue
             (map int [0..<nat numLeaves]) [] of
        Inl i \<Rightarrow> (i, True)
      | Inr diff \<Rightarrow> (int (findMinIndex diff), False))"

section \<open>Updates\<close>

definition it_updateLeaf_hash :: "'db tree_env \<Rightarrow> buffer \<Rightarrow> int \<Rightarrow> ('db indexed_tree, unit) js" where
  "it_updateLeaf_hash env leaf index t =
     (if index > maxIndex (it_base t) then
        (Inl (Error (''Index out of bounds. Index '' @ dec index @ '', max index: '' @ dec (maxIndex (it_base t)) @ ''.'')), t)
      else
        let t = t\<lparr>it_base := addLeafToCacheAndHashToRoot env leaf index (it_base t)\<rparr>;
            numLeaves = it_getNumLeaves t True
        in (Inr (), if index \<ge> numLeaves then it_set_cachedSize (index + 1) t else t))"

definition it_updateLeaf :: "'db tree_env \<Rightarrow> leaf_data \<Rightarrow> int \<Rightarrow> ('db indexed_tree, unit) js" where
  "it_updateLeaf env leaf index =
     jbind (jlift (if ld_value leaf = 0 then toBufferBE 0 32 else hashEncodedTreeValue (compressInputs env) leaf))
       (\<lambda>encodedLeaf. jbind (jmodify (cachedLeaves_put (js_Number index) leaf))
          (\<lambda>_. it_updateLeaf_hash env encodedLeaf index))"

definition appendLeaf :: "'db tree_env \<Rightarrow> buffer \<Rightarrow> ('db indexed_tree, unit) js" where
  "appendLeaf env leaf t =
     (let newValue = toBigIntBE leaf; base = it_base t in
      if newValue = 0 then
        let newSize = getNumLeaves base True + 1 in
        if newSize - 1 > maxIndex base then
          (Inl (Error (''Can't append beyond max index. Max index: '' @ dec (maxIndex base))), t)
        else (Inr (), it_set_cachedSize newSize t)
      else
        let (index, alreadyPresent) = findIndexOfPreviousValue t newValue True in
        case getLatestLeafDataCopy t index True of
          None \<Rightarrow> (Inl (Error ''Previous leaf not found!''), t)
        | Some previousLeafCopy \<Rightarrow>
            let newLeaf = \<lparr>ld_value = newValue, nextIndex = nextIndex previousLeafCopy, nextValue = nextValue previousLeafCopy\<rparr>
            in if alreadyPresent then (Inr (), t)
               else
                 let currentSize = it_getNumLeaves t True;
                     previousLeafCopy = previousLeafCopy\<lparr>nextIndex := currentSize, nextValue := ld_value newLeaf\<rparr>;
                     t = cachedLeaves_put (js_Number currentSize) newLeaf t;
                     t = cachedLeaves_put index previousLeafCopy t
                 in jbind (jlift (hashEncodedTreeValue (compressInputs env) previousLeafCopy))
                      (\<lambda>h. jbind (it_updateLeaf_hash env h index)
                        (\<lambda>_. jbind (jlift (hashEncodedTreeValue (compressInputs env) newLeaf))
                          (\<lambda>h'. jbind jget (\<lambda>t. it_updateLeaf_hash env h' (it_getNumLeaves t True))))) t)"

definition it_appendLeaves :: "'db tree_env \<Rightarrow> buffer list \<Rightarrow> ('db indexed_tree, unit) js" where
  "it_appendLeaves env ls = jfor (appendLeaf env) ls"

definition clearCachedLeaves :: "'db indexed_tree \<Rightarrow> 'db indexed_tree" where
  "clearCachedLeaves t = t\<lparr>cachedLeaves := []\<rparr>"

definition commitLeaves :: "'db tree_env \<Rightarrow> 'db indexed_tree \<Rightarrow> 'db indexed_tree" where
  "commitLeaves env t =
     (let batch = map (\<lambda>(i, leaf). (dec i, VObject leaf)) (cachedLeaves t);
          ls = fold (\<lambda>(i, leaf) a. js_set a i leaf) (cachedLeaves t) (leaves t);
          db = lu_batch env (tdb (it_base t)) batch
      in clearCachedLeaves (t\<lparr>leaves := ls, it_base := (it_base t)\<lparr>tdb := db\<rparr>\<rparr>))"

definition it_commit :: "'db tree_env \<Rightarrow> ('db indexed_tree, unit) js" where
  "it_commit env = jbind (it_super (TreeBase_commit env)) (\<lambda>_. jmodify (commitLeaves env))"

definition it_rollback :: "'db indexed_tree \<Rightarrow> 'db indexed_tree" where
  "it_rollback t = clearCachedLeaves (t\<lparr>it_base := TreeBase_rollback (it_base t)\<rparr>)"

definition it_init :: "'db tree_env \<Rightarrow> int \<Rightarrow> ('db indexed_tree, unit) js" where
  "it_init env prefilledSize =
     jbind (jmodify (\<lambda>t. t\<lparr>leaves := js_push (leaves t) initialLeaf\<rparr>)) (\<lambda>_.
     jbind (jlift (hashEncodedTreeValue (compressInputs env) initialLeaf)) (\<lambda>h.
     jbind (it_updateLeaf_hash env h 0) (\<lambda>_.
     jbind (jfor (\<lambda>i. appendLeaf env [word_of_int i]) [1..prefilledSize - 1]) (\<lambda>_. it_commit env))))"

definition new_StandardIndexedTree ::
  "'db tree_env \<Rightarrow> 'db \<Rightarrow> string \<Rightarrow> nat \<Rightarrow> int \<Rightarrow> buffer option \<Rightarrow> 'db indexed_tree result" where
  "new_StandardIndexedTree env db name depth sz root =
     rbind (new_TreeBase env db name depth sz root) (\<lambda>b.
       Inr \<lparr>it_base = b, leaves = empty_array, cachedLeaves = []\<rparr>)"

definition newIndexedTree :: "'db tree_env \<Rightarrow> 'db \<Rightarrow> string \<Rightarrow> nat \<Rightarrow> int \<Rightarrow> 'db indexed_tree result" where
  "newIndexedTree env db name depth prefilledSize =
     rbind (new_StandardIndexedTree env db name depth 0 None) (\<lambda>t.
       case it_init env prefilledSize t of (Inl e, _) \<Rightarrow> Inl e | (Inr _, t') \<Rightarrow> Inr t')"

text \<open>\<open>initFromDb\<close>: \<open>entries\<close> is what the store's read stream delivers, the entries whose keys lie between
  \<open>indexToKeyLeaf name 0\<close> and \<open>indexToKeyLeaf name (2 ^ depth)\<close> in the store's order. \<open>Number(key)\<close> of such a key
  is \<open>NaN\<close>, since the key contains a colon: the decoded leaf becomes the property \<open>"NaN"\<close> of the array, which
  no index reads. A key that is a decimal numeral would give its number; other numeric formats cannot occur
  in the range.\<close>

definition key_Number :: "string \<Rightarrow> int option" where
  "key_Number key =
     (if key \<noteq> [] \<and> list_all (\<lambda>c. c \<in> set ''0123456789'') key
      then Some (js_Number (foldl (\<lambda>n c. 10 * n + (int (of_char c) - 48)) 0 key)) else None)"

definition it_initFromDb :: "(string \<times> buffer) list \<Rightarrow> 'db indexed_tree \<Rightarrow> 'db indexed_tree" where
  "it_initFromDb entries t =
     t\<lparr>leaves := fold (\<lambda>(key, v) values.
         case key_Number key of None \<Rightarrow> values | Some index \<Rightarrow> js_set values index (decodeTreeValue v))
       entries empty_array\<rparr>"

definition loadIndexedTree ::
  "'db tree_env \<Rightarrow> 'db \<Rightarrow> string \<Rightarrow> (string \<times> buffer) list \<Rightarrow> 'db indexed_tree result" where
  "loadIndexedTree env db name entries =
     rbind (loadTree env db name) (\<lambda>b.
       Inr (it_initFromDb entries \<lparr>it_base = b, leaves = empty_array, cachedLeaves = []\<rparr>))"

section \<open>Batch insertion\<close>

definition it_getSiblingPath :: "'db tree_env \<Rightarrow> 'db indexed_tree \<Rightarrow> int \<Rightarrow> bool \<Rightarrow> sibling_path result" where
  "it_getSiblingPath env t index b = getSiblingPath env (it_base t) index b"

definition it_getSubtreeSiblingPath :: "'db tree_env \<Rightarrow> nat \<Rightarrow> bool \<Rightarrow> 'db indexed_tree \<Rightarrow> sibling_path result" where
  "it_getSubtreeSiblingPath env subtreeHeight includeUncommitted t =
     (let nextAvailableLeafIndex = it_getNumLeaves t includeUncommitted in
      rbind (it_getSiblingPath env t nextAvailableLeafIndex includeUncommitted) (\<lambda>fullSiblingPath.
        SiblingPath_getSubtreeSiblingPath fullSiblingPath subtreeHeight))"

text \<open>The accumulators of \<open>batchInsert\<close>.\<close>

record batch_acc =
  touched :: "(int \<times> int list) list"
  lowLeavesWitnesses :: "low_leaf_witness list"
  pending :: "leaf_data list"

text \<open>The inner loop over \<open>pendingInsertionSubtree\<close>: the position at which it stops, if any.\<close>

fun pending_find :: "int \<Rightarrow> nat \<Rightarrow> leaf_data list \<Rightarrow> nat option" where
  "pending_find newValue j [] = None"
| "pending_find newValue j (p # ps) =
     (if ld_value p = 0 then pending_find newValue (j + 1) ps
      else if ld_value p < newValue \<and> (nextValue p > newValue \<or> nextValue p = 0) then Some j
      else pending_find newValue (j + 1) ps)"

definition pending_insert :: "int \<Rightarrow> int \<Rightarrow> leaf_data list \<Rightarrow> leaf_data list" where
  "pending_insert newValue newIndex ps =
     (case pending_find newValue 0 ps of
        None \<Rightarrow> ps
      | Some j \<Rightarrow>
          let currentLowLeaf = \<lparr>ld_value = newValue, nextIndex = nextIndex (ps ! j), nextValue = nextValue (ps ! j)\<rparr>
          in (ps @ [currentLowLeaf])[j := (ps ! j)\<lparr>nextIndex := newIndex, nextValue := newValue\<rparr>])"

text \<open>One iteration of the first loop for the leaf at position \<open>i\<close>; the value \<open>None\<close> is the early return.\<close>

definition batch_step ::
  "'db tree_env \<Rightarrow> low_leaf_witness \<Rightarrow> int \<Rightarrow> int \<Rightarrow> buffer \<Rightarrow> batch_acc \<Rightarrow> ('db indexed_tree, batch_acc option) js" where
  "batch_step env emptyLowLeafWitness startInsertionIndex i leaf acc t =
     (let newValue = toBigIntBE leaf in
      if newValue = 0 then
        (Inr (Some (acc\<lparr>pending := pending acc @ [zeroLeaf],
                        lowLeavesWitnesses := lowLeavesWitnesses acc @ [emptyLowLeafWitness]\<rparr>)), t)
      else
        let (index, _) = findIndexOfPreviousValue t newValue True;
            prevNodes = map_of (touched acc) index
        in if (case prevNodes of Some vs \<Rightarrow> list_ex (\<lambda>v. v < newValue) vs | None \<Rightarrow> False) then
             (Inr (Some (acc\<lparr>pending := pending_insert newValue (startInsertionIndex + i) (pending acc),
                             lowLeavesWitnesses := lowLeavesWitnesses acc @ [emptyLowLeafWitness]\<rparr>)), t)
           else
             let vs = (case prevNodes of Some vs \<Rightarrow> vs @ [newValue] | None \<Rightarrow> [newValue]);
                 acc = acc\<lparr>touched := AList.update index vs (touched acc)\<rparr>
             in case getLatestLeafDataCopy t index True of
                  None \<Rightarrow> (Inr None, t)
                | Some lowLeaf \<Rightarrow>
                    jbind (jlift (it_getSiblingPath env t index True)) (\<lambda>path.
                      let acc = acc\<lparr>lowLeavesWitnesses := lowLeavesWitnesses acc @
                                   [\<lparr>leafData = lowLeaf, siblingPath = path, wit_index = index\<rparr>],
                                pending := pending acc @
                                  [\<lparr>ld_value = newValue, nextIndex = nextIndex lowLeaf, nextValue = nextValue lowLeaf\<rparr>]\<rparr>;
                          lowLeaf = lowLeaf\<lparr>nextIndex := startInsertionIndex + i, nextValue := newValue\<rparr>
                      in jbind (it_updateLeaf env lowLeaf index) (\<lambda>_. jreturn (Some acc))) t)"

fun batch_loop ::
  "'db tree_env \<Rightarrow> low_leaf_witness \<Rightarrow> int \<Rightarrow> int \<Rightarrow> buffer list \<Rightarrow> batch_acc \<Rightarrow> ('db indexed_tree, batch_acc option) js" where
  "batch_loop env w start i [] acc = jreturn (Some acc)"
| "batch_loop env w start i (leaf # ls) acc =
     jbind (batch_step env w start i leaf acc) (\<lambda>r.
       case r of None \<Rightarrow> jreturn None | Some acc \<Rightarrow> batch_loop env w start (i + 1) ls acc)"

fun insert_loop :: "'db tree_env \<Rightarrow> int \<Rightarrow> leaf_data list \<Rightarrow> ('db indexed_tree, unit) js" where
  "insert_loop env index [] = jreturn ()"
| "insert_loop env index (p # ps) = jbind (it_updateLeaf env p index) (\<lambda>_. insert_loop env (index + 1) ps)"

definition batchInsert ::
  "'db tree_env \<Rightarrow> buffer list \<Rightarrow> nat \<Rightarrow> nat \<Rightarrow> ('db indexed_tree, low_leaf_witness list option \<times> sibling_path) js" where
  "batchInsert env ls treeHeight subtreeHeight =
     jbind (jlift (getEmptyLowLeafWitness treeHeight)) (\<lambda>w.
     jbind jget (\<lambda>t0.
     let startInsertionIndex = it_getNumLeaves t0 True in
     jbind (batch_loop env w startInsertionIndex 0 ls \<lparr>touched = [], lowLeavesWitnesses = [], pending = []\<rparr>) (\<lambda>r.
     jbind jget (\<lambda>t1.
     jbind (jlift (it_getSubtreeSiblingPath env subtreeHeight True t1)) (\<lambda>newSubtreeSiblingPath.
     case r of
       None \<Rightarrow> jreturn (None, newSubtreeSiblingPath)
     | Some acc \<Rightarrow>
         jbind (insert_loop env startInsertionIndex (pending acc)) (\<lambda>_.
           jreturn (Some (lowLeavesWitnesses acc), newSubtreeSiblingPath)))))))"

end
