(* ===== verification/SortedLinks.thy ===== *)
theory SortedLinks
  imports MerkleTreeBase
begin

text \<open>
  The abstract contract of the indexed tree: a map from leaf indices to leaf records in which every used leaf
  points at the leaf with the next larger value. Leaf 0 holds the value 0 and heads the list; the last leaf has
  the pointers 0. An index below the size may be unused (no record, or a record of value 0).
\<close>

type_synonym leaf_map = "int \<Rightarrow> leaf_data option"

definition active :: "int \<Rightarrow> leaf_map \<Rightarrow> int \<Rightarrow> leaf_data \<Rightarrow> bool" where
  "active n L i ld \<longleftrightarrow> 0 \<le> i \<and> i < n \<and> L i = Some ld \<and> (i = 0 \<or> ld_value ld \<noteq> 0)"

definition link_ok :: "int \<Rightarrow> leaf_map \<Rightarrow> leaf_data \<Rightarrow> bool" where
  "link_ok n L ld \<longleftrightarrow>
     (nextValue ld = 0 \<and> nextIndex ld = 0 \<and> (\<forall>j b. active n L j b \<longrightarrow> ld_value b \<le> ld_value ld)) \<or>
     (ld_value ld < nextValue ld \<and> (\<exists>b. active n L (nextIndex ld) b \<and> ld_value b = nextValue ld) \<and>
      (\<forall>j b. active n L j b \<longrightarrow> ld_value b \<le> ld_value ld \<or> nextValue ld \<le> ld_value b))"

definition linked :: "int \<Rightarrow> leaf_map \<Rightarrow> bool" where
  "linked n L \<longleftrightarrow>
     0 < n \<and> (\<exists>ld. L 0 = Some ld \<and> ld_value ld = 0) \<and>
     (\<forall>i. i < 0 \<or> n \<le> i \<longrightarrow> L i = None) \<and>
     (\<forall>i ld. active n L i ld \<longrightarrow> 0 \<le> ld_value ld) \<and>
     (\<forall>i j a b. active n L i a \<longrightarrow> active n L j b \<longrightarrow> ld_value a = ld_value b \<longrightarrow> i = j) \<and>
     (\<forall>i ld. active n L i ld \<longrightarrow> link_ok n L ld)"

text \<open>The set of values the list holds.\<close>

definition leaf_values :: "int \<Rightarrow> leaf_map \<Rightarrow> int set" where
  "leaf_values n L = {ld_value ld | ld i. active n L i ld}"

text \<open>The leaf after which a new value belongs.\<close>

definition is_low :: "int \<Rightarrow> leaf_map \<Rightarrow> int \<Rightarrow> int \<Rightarrow> leaf_data \<Rightarrow> bool" where
  "is_low n L v p ld \<longleftrightarrow> active n L p ld \<and> ld_value ld < v \<and> (nextValue ld > v \<or> nextValue ld = 0)"

text \<open>Insertion: a new record at index \<open>n\<close> that takes over the pointers of the low leaf, and the low leaf
  pointing at it.\<close>

definition link_insert :: "int \<Rightarrow> int \<Rightarrow> int \<Rightarrow> leaf_data \<Rightarrow> leaf_map \<Rightarrow> leaf_map" where
  "link_insert n v p ld L =
     L(n \<mapsto> \<lparr>ld_value = v, nextIndex = nextIndex ld, nextValue = nextValue ld\<rparr>,
       p \<mapsto> ld\<lparr>nextIndex := n, nextValue := v\<rparr>)"

lemma active_functional: "active n L i a \<Longrightarrow> active n L i b \<Longrightarrow> a = b"
  by (simp add: active_def)

lemma linked_zero: "linked n L \<Longrightarrow> \<exists>ld. active n L 0 ld \<and> ld_value ld = 0"
proof -
  assume "linked n L"
  then obtain ld where "0 < n" "L 0 = Some ld" "ld_value ld = 0" unfolding linked_def by blast
  then show ?thesis by (intro exI[of _ ld]) (simp add: active_def)
qed

lemma leaf_values_iff: "w \<in> leaf_values n L \<longleftrightarrow> (\<exists>i ld. active n L i ld \<and> ld_value ld = w)"
  unfolding leaf_values_def by blast

lemma leaf_valuesI: "active n L i ld \<Longrightarrow> ld_value ld \<in> leaf_values n L"
  unfolding leaf_values_iff by blast

lemma zero_in_values: "linked n L \<Longrightarrow> 0 \<in> leaf_values n L"
  unfolding leaf_values_iff using linked_zero by blast

lemma linked_nonneg: "linked n L \<Longrightarrow> active n L i a \<Longrightarrow> 0 \<le> ld_value a"
  by (simp add: linked_def)

lemma linked_inj: "linked n L \<Longrightarrow> active n L i a \<Longrightarrow> active n L j b \<Longrightarrow> ld_value a = ld_value b \<Longrightarrow> i = j"
  unfolding linked_def by blast

lemma linked_link: "linked n L \<Longrightarrow> active n L i a \<Longrightarrow> link_ok n L a"
  unfolding linked_def by blast

text \<open>The low leaf of an absent value has the largest value below it.\<close>

lemma is_low_maximal:
  assumes "linked n L" and "is_low n L v p ld" and "active n L j b"
  shows "ld_value b \<le> ld_value ld \<or> v < ld_value b \<or> ld_value b = v"
  using linked_link[OF assms(1), of p ld] assms(2,3) linked_nonneg[OF assms(1), of p ld]
  unfolding is_low_def link_ok_def by force

lemma is_low_unique:
  assumes "linked n L" and "is_low n L v p a" and "is_low n L v q b"
  shows "p = q \<and> a = b"
proof -
  have "ld_value a = ld_value b"
    using is_low_maximal[OF assms(1,2), of q b] is_low_maximal[OF assms(1,3), of p a] assms(2,3)
    by (auto simp: is_low_def)
  then show ?thesis using linked_inj[OF assms(1), of p a q b] assms(2,3) active_functional
    by (auto simp: is_low_def)
qed

lemma is_lowI:
  assumes "linked n L" and "active n L p ld" and "ld_value ld < v"
    and "\<And>j b. active n L j b \<Longrightarrow> ld_value b \<le> ld_value ld \<or> v < ld_value b"
  shows "is_low n L v p ld"
proof -
  have "link_ok n L ld" using assms(1,2) by (rule linked_link)
  then show ?thesis using assms(2-4) unfolding is_low_def link_ok_def by force
qed

lemma link_insert_active:
  assumes l: "linked n L" and low: "is_low n L v p ld" and v: "0 < v"
  shows "active (n + 1) (link_insert n v p ld L) i x \<longleftrightarrow>
    (i = n \<and> x = \<lparr>ld_value = v, nextIndex = nextIndex ld, nextValue = nextValue ld\<rparr>) \<or>
    (i = p \<and> x = ld\<lparr>nextIndex := n, nextValue := v\<rparr>) \<or> (i \<noteq> n \<and> i \<noteq> p \<and> active n L i x)"
proof -
  have p: "0 \<le> p" "p < n" "p = 0 \<or> ld_value ld \<noteq> 0" using low by (auto simp: is_low_def active_def)
  have "L i = None" if "n \<le> i" for i using l that by (simp add: linked_def)
  then show ?thesis using p v by (auto simp: active_def link_insert_def)
qed

lemma link_insert_keeps:
  assumes "linked n L" and "is_low n L v p ld" and "0 < v" and "active n L i x"
  shows "\<exists>y. active (n + 1) (link_insert n v p ld L) i y \<and> ld_value y = ld_value x"
proof (cases "i = p")
  case True
  then have "x = ld" using assms(2,4) active_functional by (auto simp: is_low_def)
  then show ?thesis using True link_insert_active[OF assms(1-3)]
    by (intro exI[of _ "ld\<lparr>nextIndex := n, nextValue := v\<rparr>"]) simp
next
  case False
  moreover have "i \<noteq> n" using assms(4) by (simp add: active_def)
  ultimately show ?thesis using assms(4) link_insert_active[OF assms(1-3)] by blast
qed

lemma link_insert_back:
  assumes "linked n L" and "is_low n L v p ld" and "0 < v" and "active (n + 1) (link_insert n v p ld L) i x"
  shows "(i = n \<and> ld_value x = v) \<or> (\<exists>y. active n L i y \<and> ld_value y = ld_value x)"
proof -
  consider "i = n" "ld_value x = v" | "i = p" "ld_value x = ld_value ld" | "active n L i x"
    using assms(4) unfolding link_insert_active[OF assms(1-3)] by auto
  then show ?thesis
  proof cases
    case 2
    then show ?thesis using assms(2) unfolding is_low_def by metis
  qed blast+
qed

lemma link_insert_values:
  assumes "linked n L" and "is_low n L v p ld" and "0 < v"
  shows "leaf_values (n + 1) (link_insert n v p ld L) = insert v (leaf_values n L)"
proof (rule set_eqI)
  fix w
  let ?p = "ld\<lparr>nextIndex := n, nextValue := v\<rparr>"
  have p: "active n L p ld" using assms(2) by (simp add: is_low_def)
  note act = link_insert_active[OF assms]
  show "w \<in> leaf_values (n + 1) (link_insert n v p ld L) \<longleftrightarrow> w \<in> insert v (leaf_values n L)"
  proof
    assume "w \<in> leaf_values (n + 1) (link_insert n v p ld L)"
    then obtain i x where "active (n + 1) (link_insert n v p ld L) i x" "ld_value x = w"
      unfolding leaf_values_iff by blast
    then show "w \<in> insert v (leaf_values n L)"
      using leaf_valuesI[OF p] leaf_valuesI[of n L i x] unfolding act by auto
  next
    assume "w \<in> insert v (leaf_values n L)"
    then consider "w = v" | i x where "active n L i x" "ld_value x = w" unfolding leaf_values_iff insert_iff by blast
    then show "w \<in> leaf_values (n + 1) (link_insert n v p ld L)"
    proof cases
      case 1
      then show ?thesis using leaf_valuesI[of "n + 1" "link_insert n v p ld L" n] act by fastforce
    next
      case (2 i x)
      then show ?thesis using link_insert_keeps[OF assms, of i x] leaf_valuesI by metis
    qed
  qed
qed

text \<open>What holds of the new value and of all old values holds of all values after an insertion.\<close>

lemma link_insert_all:
  assumes "linked n L" and "is_low n L v p ld" and "0 < v"
    and "P v" and "\<And>j y. active n L j y \<Longrightarrow> P (ld_value y)"
  shows "\<forall>j b. active (n + 1) (link_insert n v p ld L) j b \<longrightarrow> P (ld_value b)"
  using link_insert_back[OF assms(1-3)] assms(4,5) by metis

lemma link_insert_target:
  assumes "linked n L" and "is_low n L v p ld" and "0 < v"
    and "\<exists>b. active n L i b \<and> ld_value b = w"
  shows "\<exists>b. active (n + 1) (link_insert n v p ld L) i b \<and> ld_value b = w"
  using assms(4) link_insert_keeps[OF assms(1-3)] by metis

lemma link_insert_new_ok:
  assumes l: "linked n L" and low: "is_low n L v p ld" and v: "0 < v"
  shows "link_ok (n + 1) (link_insert n v p ld L) \<lparr>ld_value = v, nextIndex = nextIndex ld, nextValue = nextValue ld\<rparr>"
proof -
  have pa: "active n L p ld" and ldv: "ld_value ld < v" using low by (simp_all add: is_low_def)
  show ?thesis using linked_link[OF l pa] unfolding link_ok_def
  proof (elim disjE conjE, goal_cases)
    case 1
    have "\<forall>j b. active (n + 1) (link_insert n v p ld L) j b \<longrightarrow> ld_value b \<le> v"
      by (rule link_insert_all[OF l low v]) (use 1 ldv in fastforce)+
    then show ?case using 1 by simp
  next
    case 2
    have "v < nextValue ld" using low 2(1) linked_nonneg[OF l pa] by (auto simp: is_low_def)
    moreover have "\<forall>j b. active (n + 1) (link_insert n v p ld L) j b \<longrightarrow> ld_value b \<le> v \<or> nextValue ld \<le> ld_value b"
      by (rule link_insert_all[OF l low v]) (use 2 ldv in fastforce)+
    ultimately show ?case using link_insert_target[OF l low v 2(2)] by simp
  qed
qed

lemma link_insert_low_ok:
  assumes l: "linked n L" and low: "is_low n L v p ld" and v: "0 < v"
  shows "link_ok (n + 1) (link_insert n v p ld L) (ld\<lparr>nextIndex := n, nextValue := v\<rparr>)"
proof -
  let ?new = "\<lparr>ld_value = v, nextIndex = nextIndex ld, nextValue = nextValue ld\<rparr>"
  have "active (n + 1) (link_insert n v p ld L) n ?new" by (simp add: link_insert_active[OF l low v])
  then have "\<exists>b. active (n + 1) (link_insert n v p ld L) n b \<and> ld_value b = v"
    by (rule exI[of _ ?new, OF conjI]) simp
  moreover have "\<forall>j b. active (n + 1) (link_insert n v p ld L) j b \<longrightarrow> ld_value b \<le> ld_value ld \<or> v \<le> ld_value b"
    by (rule link_insert_all[OF l low v]) (use is_low_maximal[OF l low] in fastforce)+
  ultimately show ?thesis unfolding link_ok_def using low by (simp add: is_low_def)
qed

lemma link_insert_other_ok:
  assumes l: "linked n L" and low: "is_low n L v p ld" and v: "0 < v" and new: "v \<notin> leaf_values n L"
    and x: "active n L i x" "i \<noteq> p"
  shows "link_ok (n + 1) (link_insert n v p ld L) x"
proof -
  have pa: "active n L p ld" and ldv: "ld_value ld < v" using low by (simp_all add: is_low_def)
  have ne: "ld_value x \<noteq> ld_value ld" using linked_inj[OF l x(1) pa] x(2) by blast
  have max: "ld_value x \<le> ld_value ld \<or> v < ld_value x"
    using is_low_maximal[OF l low x(1)] new leaf_valuesI[OF x(1)] by auto
  show ?thesis using linked_link[OF l x(1)] unfolding link_ok_def
  proof (elim disjE conjE, goal_cases)
    case 1
    then have "v \<le> ld_value x" using max ne pa by fastforce
    then have "\<forall>j b. active (n + 1) (link_insert n v p ld L) j b \<longrightarrow> ld_value b \<le> ld_value x"
      by (rule link_insert_all[OF l low v]) (use 1 in blast)
    then show ?case using 1 by simp
  next
    case 2
    have "v \<le> ld_value x \<or> nextValue x \<le> v" using max ne 2(3) pa ldv by fastforce
    then have "\<forall>j b. active (n + 1) (link_insert n v p ld L) j b \<longrightarrow> ld_value b \<le> ld_value x \<or> nextValue x \<le> ld_value b"
      by (rule link_insert_all[OF l low v]) (use 2 in blast)
    then show ?case using 2 link_insert_target[OF l low v 2(2)] by simp
  qed
qed

lemma link_insert_linked:
  assumes l: "linked n L" and low: "is_low n L v p ld" and v: "0 < v" and new: "v \<notin> leaf_values n L"
  shows "linked (n + 1) (link_insert n v p ld L)"
proof -
  let ?L = "link_insert n v p ld L"
  have pn: "0 \<le> p" "p < n" using low by (auto simp: is_low_def active_def)
  have old: "ld_value x \<noteq> v" if "active n L i x" for i x using new leaf_valuesI[OF that] by auto
  have inj: "i = j" if "active (n + 1) ?L i a" "active (n + 1) ?L j b" "ld_value a = ld_value b" for i j a b
    using link_insert_back[OF l low v that(1)] link_insert_back[OF l low v that(2)] linked_inj[OF l] old that(3)
    by metis
  have link: "link_ok (n + 1) ?L x" if "active (n + 1) ?L i x" for i x
    using that link_insert_new_ok[OF l low v] link_insert_low_ok[OF l low v] link_insert_other_ok[OF l low v new]
    unfolding link_insert_active[OF l low v] by blast
  obtain z where z: "active n L 0 z" "ld_value z = 0" using linked_zero[OF l] by blast
  obtain y where "active (n + 1) ?L 0 y" "ld_value y = 0" using link_insert_keeps[OF l low v z(1)] z(2) by auto
  then have zero: "\<exists>ld. ?L 0 = Some ld \<and> ld_value ld = 0" unfolding active_def by blast
  have none: "?L i = None" if "i < 0 \<or> n + 1 \<le> i" for i
    using that l pn by (auto simp: linked_def link_insert_def)
  have nonneg: "0 \<le> ld_value x" if "active (n + 1) ?L i x" for i x
    using link_insert_back[OF l low v that] linked_nonneg[OF l] v by force
  have "0 < n + 1" using l by (simp add: linked_def)
  then show ?thesis
    unfolding linked_def using zero none nonneg inj link by blast
qed

text \<open>Growing the list by an unused index.\<close>

lemma linked_grow:
  assumes l: "linked n L" and z: "\<And>ld. z = Some ld \<Longrightarrow> ld_value ld = 0"
  shows "linked (n + 1) (L(n := z))" "leaf_values (n + 1) (L(n := z)) = leaf_values n L"
proof -
  have n: "0 < n" "L n = None" using l by (auto simp: linked_def)
  have act: "active (n + 1) (L(n := z)) i x \<longleftrightarrow> active n L i x" for i x
    using n z by (auto simp: active_def)
  show "leaf_values (n + 1) (L(n := z)) = leaf_values n L" unfolding leaf_values_def act ..
  show "linked (n + 1) (L(n := z))"
    using l n unfolding linked_def link_ok_def act by auto
qed

text \<open>A low leaf exists exactly for the absent values: this is what makes a low leaf a proof of non-membership.\<close>

lemma leaf_values_subset: "leaf_values n L \<subseteq> (\<lambda>i. ld_value (the (L i))) ` {0..<n}"
proof
  fix w assume "w \<in> leaf_values n L"
  then obtain i ld where "active n L i ld" "ld_value ld = w" unfolding leaf_values_iff by blast
  then show "w \<in> (\<lambda>i. ld_value (the (L i))) ` {0..<n}" by (intro image_eqI[of _ _ i]) (auto simp: active_def)
qed

lemma finite_leaf_values: "finite (leaf_values n L)"
  by (rule finite_subset[OF leaf_values_subset]) simp

lemma is_low_exists:
  assumes l: "linked n L" and v: "0 < v" and new: "v \<notin> leaf_values n L"
  shows "\<exists>p ld. is_low n L v p ld"
proof -
  let ?S = "{w \<in> leaf_values n L. w < v}"
  have S: "finite ?S" "0 \<in> ?S" using finite_leaf_values[of n L] zero_in_values[OF l] v by auto
  then have "Max ?S \<in> ?S" by (intro Max_in) auto
  then obtain p ld where p: "active n L p ld" "ld_value ld = Max ?S" "ld_value ld < v"
    unfolding leaf_values_iff by auto
  have "ld_value b \<le> ld_value ld \<or> v < ld_value b" if "active n L j b" for j b
    using S(1) leaf_valuesI[OF that] new p(2) by (cases "ld_value b < v") (auto intro: Max_ge order.not_eq_order_implies_strict)
  then show ?thesis using is_lowI[OF l p(1,3)] by blast
qed

lemma is_low_absent: "linked n L \<Longrightarrow> is_low n L v p ld \<Longrightarrow> v \<notin> leaf_values n L"
  using linked_link[of n L p ld] linked_nonneg[of n L p ld]
  unfolding is_low_def link_ok_def leaf_values_iff by force

section \<open>Values of a leaf map\<close>

definition vactive :: "int \<Rightarrow> leaf_map \<Rightarrow> int \<Rightarrow> int \<Rightarrow> bool" where
  "vactive n L i w \<longleftrightarrow> (\<exists>ld. active n L i ld \<and> ld_value ld = w)"

definition low_index :: "int \<Rightarrow> leaf_map \<Rightarrow> int \<Rightarrow> int \<Rightarrow> bool" where
  "low_index n L v k \<longleftrightarrow> (\<exists>w. vactive n L k w \<and> w < v \<and> (\<forall>j u. vactive n L j u \<longrightarrow> u \<le> w \<or> v < u))"

lemma vactive_upd:
  "L p = Some ld \<Longrightarrow> ld_value ld' = ld_value ld \<Longrightarrow> vactive n (L(p \<mapsto> ld')) = vactive n L"
  by (auto simp: vactive_def active_def fun_eq_iff)

lemma low_index_upd:
  "L p = Some ld \<Longrightarrow> ld_value ld' = ld_value ld \<Longrightarrow> low_index n (L(p \<mapsto> ld')) = low_index n L"
  unfolding low_index_def by (simp add: vactive_upd)

lemma leaf_values_vactive: "w \<in> leaf_values n L \<longleftrightarrow> (\<exists>i. vactive n L i w)"
  by (auto simp: leaf_values_iff vactive_def)

lemma low_index_is_low:
  assumes "linked n L" and "low_index n L v p" and "L p = Some ld"
  shows "is_low n L v p ld"
proof -
  obtain w where w: "vactive n L p w" "w < v" "\<forall>j u. vactive n L j u \<longrightarrow> u \<le> w \<or> v < u"
    using assms(2) unfolding low_index_def by blast
  then have p: "active n L p ld" "ld_value ld = w" using assms(3) by (auto simp: vactive_def active_def)
  show ?thesis by (rule is_lowI[OF assms(1) p(1)]) (use w p in \<open>auto simp: vactive_def\<close>)
qed

section \<open>Following the pointers\<close>

text \<open>The values met from a leaf on along \<open>nextIndex\<close>, which is 0 at the end of the list.\<close>

fun chain :: "nat \<Rightarrow> leaf_map \<Rightarrow> int \<Rightarrow> int list" where
  "chain 0 L i = []"
| "chain (Suc k) L i =
     (case L i of None \<Rightarrow> [] | Some ld \<Rightarrow> ld_value ld # (if nextIndex ld = 0 then [] else chain k L (nextIndex ld)))"

lemma sorted_list_of_least:
  assumes "finite S" and "x \<notin> S" and "\<And>y. y \<in> S \<Longrightarrow> x < y"
  shows "sorted_list_of_set (insert x S) = x # sorted_list_of_set (S :: int set)"
proof -
  have "Min (insert x S) = x" using assms by (intro Min_eqI) (auto intro: less_imp_le)
  then show ?thesis using sorted_list_of_set_nonempty[of "insert x S"] assms by simp
qed

lemma chain_from:
  assumes l: "linked n L"
  shows "active n L i ld \<Longrightarrow> card {u \<in> leaf_values n L. ld_value ld \<le> u} \<le> k \<Longrightarrow>
    chain k L i = sorted_list_of_set {u \<in> leaf_values n L. ld_value ld \<le> u}"
proof (induction k arbitrary: i ld)
  case 0
  have "ld_value ld \<in> {u \<in> leaf_values n L. ld_value ld \<le> u}" using leaf_valuesI[OF 0(1)] by simp
  moreover have "finite {u \<in> leaf_values n L. ld_value ld \<le> u}" using finite_leaf_values[of n L] by simp
  ultimately show ?case using 0(2) by auto
next
  case (Suc k)
  let ?V = "leaf_values n L" and ?v = "ld_value ld"
  have Li: "L i = Some ld" using Suc.prems(1) by (simp add: active_def)
  show ?case using linked_link[OF l Suc.prems(1)] unfolding link_ok_def
  proof (elim disjE conjE, goal_cases)
    case 1
    then have "u \<le> ?v" if "u \<in> ?V" for u using that unfolding leaf_values_iff by blast
    then have "{u \<in> ?V. ?v \<le> u} = {?v}" using leaf_valuesI[OF Suc.prems(1)] by force
    then show ?case using 1 Li by simp
  next
    case 2
    obtain b where b: "active n L (nextIndex ld) b" "ld_value b = nextValue ld" using 2(2) by blast
    let ?S = "{u \<in> ?V. ld_value b \<le> u}"
    have "u \<le> ?v \<or> ld_value b \<le> u" if "u \<in> ?V" for u using that 2(3) b(2) unfolding leaf_values_iff by auto
    then have S: "{u \<in> ?V. ?v \<le> u} = insert ?v ?S" using 2(1) b(2) leaf_valuesI[OF Suc.prems(1)] by force
    have fin: "finite ?S" "?v \<notin> ?S" "\<And>y. y \<in> ?S \<Longrightarrow> ?v < y" using finite_leaf_values[of n L] b 2(1) by auto
    have "card ?S \<le> k" using Suc.prems(2) S fin by simp
    then have IH: "chain k L (nextIndex ld) = sorted_list_of_set ?S" by (rule Suc.IH[OF b(1)])
    obtain z where "L 0 = Some z" "ld_value z = 0" using l unfolding linked_def by blast
    then have "nextIndex ld \<noteq> 0" using b 2(1) linked_nonneg[OF l Suc.prems(1)] by (auto simp: active_def)
    then show ?case using Li IH S sorted_list_of_least[OF fin] by simp
  qed
qed

lemma card_leaf_values: "card (leaf_values n L) \<le> nat n"
  using surj_card_le[OF _ leaf_values_subset, of n] by simp

lemma chain_sorted:
  assumes "linked n L"
  shows "chain (nat n) L 0 = sorted_list_of_set (leaf_values n L)"
proof -
  obtain z where z: "active n L 0 z" "ld_value z = 0" using linked_zero[OF assms] by blast
  have "0 \<le> u" if "u \<in> leaf_values n L" for u using that linked_nonneg[OF assms] by (auto simp: leaf_values_iff)
  then have "{u \<in> leaf_values n L. ld_value z \<le> u} = leaf_values n L" using z by auto
  then show ?thesis using chain_from[OF assms z(1), of "nat n"] card_leaf_values[of n L] by simp
qed

end
