(* ===== verification/IndexedTreeProofs.thy ===== *)
theory IndexedTreeProofs
  imports IndexedTree SortedLinks
begin

text \<open>
  Correctness of the indexed tree: the lookup of the previous value, single insertion, commit and rollback,
  and initialisation, against the sorted linked list of \<^verbatim>\<open>SortedLinks\<close>.
\<close>

section \<open>Finding the previous value\<close>

lemma min_loop_correct:
  assumes "m < i" and "i \<le> length vs" and "\<forall>j < i. vs ! m \<le> vs ! j" and "\<forall>j < m. vs ! m < vs ! j"
  shows "min_loop vs m [i..<length vs] < length vs \<and>
    (\<forall>j < length vs. vs ! min_loop vs m [i..<length vs] \<le> vs ! j) \<and>
    (\<forall>j < min_loop vs m [i..<length vs]. vs ! min_loop vs m [i..<length vs] < vs ! j)"
  using assms
proof (induction "length vs - i" arbitrary: i m)
  case (Suc k)
  then have i: "i < length vs" by simp
  let ?m = "if vs ! m > vs ! i then i else m"
  have "min_loop vs ?m [Suc i..<length vs] < length vs \<and>
    (\<forall>j < length vs. vs ! min_loop vs ?m [Suc i..<length vs] \<le> vs ! j) \<and>
    (\<forall>j < min_loop vs ?m [Suc i..<length vs]. vs ! min_loop vs ?m [Suc i..<length vs] < vs ! j)"
    by (rule Suc.hyps(1)) (use Suc i in \<open>auto simp: less_Suc_eq intro: order.strict_trans2\<close>)
  then show ?case by (simp add: upt_conv_Cons[OF i])
qed simp

lemma findMinIndex_correct:
  assumes "vs \<noteq> []"
  shows "findMinIndex vs < length vs" and "\<And>j. j < length vs \<Longrightarrow> vs ! findMinIndex vs \<le> vs ! j"
    and "\<And>j. j < findMinIndex vs \<Longrightarrow> vs ! findMinIndex vs < vs ! j"
  using min_loop_correct[of 0 1 vs] assms by (auto simp: findMinIndex_def Suc_le_eq)

text \<open>The entry of \<open>diff\<close> for a leaf.\<close>

definition diff_at :: "leaf_map \<Rightarrow> int \<Rightarrow> int \<Rightarrow> int" where
  "diff_at get v i = (case get i of None \<Rightarrow> v | Some l \<Rightarrow> if ld_value l > v then v else v - ld_value l)"

lemma diff_loop_absent:
  "(\<And>i l. i \<in> set is \<Longrightarrow> get i = Some l \<Longrightarrow> ld_value l \<noteq> v) \<Longrightarrow>
    diff_loop get v is diff = Inr (diff @ map (diff_at get v) is)"
proof (induction "is" arbitrary: diff)
  case (Cons i "is")
  have "diff_loop get v is d = Inr (d @ map (diff_at get v) is)" for d
    by (rule Cons.IH) (use Cons.prems in auto)
  then show ?case using Cons.prems[of i] by (simp add: diff_at_def split: option.splits)
qed simp

lemma diff_loop_present:
  "i \<in> set is \<Longrightarrow> get i = Some l \<Longrightarrow> ld_value l = v \<Longrightarrow>
    \<exists>j l. diff_loop get v is diff = Inl j \<and> j \<in> set is \<and> get j = Some l \<and> ld_value l = v"
proof (induction "is" arbitrary: diff)
  case (Cons k ks)
  then show ?case by (cases "get k") auto
qed simp

lemma previous_present:
  assumes "linked n L" and "n = it_getNumLeaves t b" and "L = (\<lambda>i. getLatestLeafDataCopy t i b)"
    and "0 < v" and "v \<in> leaf_values n L"
  shows "\<exists>i ld. findIndexOfPreviousValue t v b = (i, True) \<and> active n L i ld \<and> ld_value ld = v"
proof -
  obtain k l where k: "active n L k l" "ld_value l = v" using assms(5) unfolding leaf_values_iff by blast
  then have "k \<in> set (map int [0..<nat n])" "L k = Some l" by (auto simp: active_def image_iff intro!: bexI[of _ "nat k"])
  from diff_loop_present[of k "map int [0..<nat n]" L l v "[]", OF this k(2)]
  obtain j l' where "diff_loop L v (map int [0..<nat n]) [] = Inl j" "j \<in> set (map int [0..<nat n])"
    "L j = Some l'" "ld_value l' = v" by blast
  then show ?thesis using assms(2-4) by (intro exI[of _ j] exI[of _ l'])
      (auto simp: findIndexOfPreviousValue_def active_def)
qed

text \<open>The search only looks at values, so it is stated for any map whose leaf 0 has the value 0.\<close>

lemma previous_absent:
  assumes n: "n = it_getNumLeaves t b" and L: "L = (\<lambda>i. getLatestLeafDataCopy t i b)"
    and z: "L 0 = Some z" "ld_value z = 0" and n0: "0 < n" and v: "0 < v" and new: "v \<notin> leaf_values n L"
  shows "\<exists>p ld. findIndexOfPreviousValue t v b = (p, False) \<and> active n L p ld \<and> low_index n L v p"
proof -
  let ?is = "map int [0..<nat n]" and ?d = "diff_at L v"
  have ne: "ld_value x \<noteq> v" if "i \<in> set ?is" "L i = Some x" for i x
  proof
    assume "ld_value x = v"
    then have "active n L i x" using that v by (auto simp: active_def)
    then show False using leaf_valuesI new \<open>ld_value x = v\<close> by blast
  qed
  have run: "findIndexOfPreviousValue t v b = (int (findMinIndex (map ?d ?is)), False)"
    using diff_loop_absent[of ?is L v "[]", OF ne] by (simp add: findIndexOfPreviousValue_def L[symmetric] n[symmetric])
  define m where "m = findMinIndex (map ?d ?is)"
  have nonempty: "map ?d ?is \<noteq> []" using n0 by simp
  have m: "m < nat n" and min: "\<And>j. j < nat n \<Longrightarrow> ?d (int m) \<le> ?d (int j)"
    and first: "\<And>j. j < m \<Longrightarrow> ?d (int m) < ?d (int j)"
    using findMinIndex_correct[OF nonempty] by (auto simp: m_def)
  have d0: "?d 0 = v" using z v by (simp add: diff_at_def)
  obtain p where p: "active n L (int m) p" "?d (int m) = v - ld_value p" "ld_value p < v"
  proof (cases "?d (int m) < v")
    case True
    then obtain p where "L (int m) = Some p" "?d (int m) = v - ld_value p" "ld_value p \<noteq> 0" "ld_value p < v"
      using ne[of "int m"] m by (auto simp: diff_at_def split: option.splits if_splits)
    then show ?thesis using that m by (auto simp: active_def)
  next
    case False
    then have "m = 0" using first[of 0] min[of 0] d0 n0 by (cases m) auto
    then show ?thesis using that[of z] z v n0 d0 by (simp add: active_def)
  qed
  have "ld_value x \<le> ld_value p \<or> v < ld_value x" if x: "active n L j x" for j x
  proof (rule ccontr)
    assume *: "\<not> ?thesis"
    have j: "0 \<le> j" "j < n" "L j = Some x" using x by (auto simp: active_def)
    then have "?d j = v - ld_value x" using * by (simp add: diff_at_def)
    moreover have "?d (int m) \<le> ?d j" using min[of "nat j"] j by simp
    ultimately show False using * p(2) by simp
  qed
  then have "low_index n L v (int m)" using p(1,3) unfolding low_index_def vactive_def by blast
  then show ?thesis using run p(1) by (auto simp: m_def)
qed

lemma previous_absent_linked:
  assumes l: "linked n L" and "n = it_getNumLeaves t b" and "L = (\<lambda>i. getLatestLeafDataCopy t i b)"
    and "0 < v" and "v \<notin> leaf_values n L"
  shows "\<exists>p ld. findIndexOfPreviousValue t v b = (p, False) \<and> is_low n L v p ld"
proof -
  obtain z where z: "L 0 = Some z" "ld_value z = 0" "0 < n" using l unfolding linked_def by blast
  then obtain p ld where p: "findIndexOfPreviousValue t v b = (p, False)" "active n L p ld" "low_index n L v p"
    using previous_absent[OF assms(2,3) z(1,2,3) assms(4,5)] by blast
  moreover have "is_low n L v p ld" by (rule low_index_is_low[OF l p(3)]) (use p(2) in \<open>simp add: active_def\<close>)
  ultimately show ?thesis by blast
qed

section \<open>Invariant\<close>

definition latest :: "'db indexed_tree \<Rightarrow> bool \<Rightarrow> leaf_map" where
  "latest t b = (\<lambda>i. getLatestLeafDataCopy t i b)"

text \<open>What the Merkle tree holds for a leaf record. A record of value 0 may also be stored as an empty leaf:
  \<open>updateLeaf\<close> encodes every such record by zero bytes.\<close>

definition leaf_hash_ok :: "'db tree_env \<Rightarrow> leaf_data option \<Rightarrow> buffer \<Rightarrow> bool" where
  "leaf_hash_ok env r h \<longleftrightarrow>
     (case r of None \<Rightarrow> h = INITIAL_LEAF
      | Some ld \<Rightarrow> hashEncodedTreeValue (compressInputs env) ld = Inr h \<or> (ld_value ld = 0 \<and> h = INITIAL_LEAF))"

definition idx_base :: "'db tree_env \<Rightarrow> 'db indexed_tree \<Rightarrow> bool" where
  "idx_base env t \<longleftrightarrow> tree_inv env (it_base t) \<and> tdepth (it_base t) \<le> 53 \<and> distinct (map fst (cachedLeaves t))"

definition idx_view_ok :: "'db tree_env \<Rightarrow> bool \<Rightarrow> 'db indexed_tree \<Rightarrow> bool" where
  "idx_view_ok env b t \<longleftrightarrow>
     linked (it_getNumLeaves t b) (latest t b) \<and> it_getNumLeaves t b \<le> 2 ^ tdepth (it_base t) \<and>
     (\<forall>i. in_level (tdepth (it_base t)) i \<longrightarrow>
        leaf_hash_ok env (latest t b i) (node env (it_base t) b (tdepth (it_base t)) i))"

definition idx_inv :: "'db tree_env \<Rightarrow> 'db indexed_tree \<Rightarrow> bool" where
  "idx_inv env t \<longleftrightarrow> idx_base env t \<and> (\<forall>b. idx_view_ok env b t)"

text \<open>The values of a view.\<close>

definition idx_values :: "'db indexed_tree \<Rightarrow> bool \<Rightarrow> int set" where
  "idx_values t b = leaf_values (it_getNumLeaves t b) (latest t b)"

text \<open>What pending work leaves alone: the committed view and the identity of the tree.\<close>

definition idx_frame :: "'db tree_env \<Rightarrow> 'db indexed_tree \<Rightarrow> 'db indexed_tree \<Rightarrow> bool" where
  "idx_frame env t t' \<longleftrightarrow> tdepth (it_base t') = tdepth (it_base t) \<and> tname (it_base t') = tname (it_base t) \<and>
     leaves t' = leaves t \<and> it_getNumLeaves t' False = it_getNumLeaves t False \<and>
     node env (it_base t') False = node env (it_base t) False"

lemma idx_frame_refl [simp]: "idx_frame env t t"
  by (simp add: idx_frame_def)

lemma idx_frame_trans: "idx_frame env t t' \<Longrightarrow> idx_frame env t' t'' \<Longrightarrow> idx_frame env t t''"
  by (simp add: idx_frame_def)

lemma latest_False: "latest t False = slots (leaves t)"
  by (simp add: latest_def getLatestLeafDataCopy_def)

lemma latest_True: "latest t True i = (case map_of (cachedLeaves t) i of Some l \<Rightarrow> Some l | None \<Rightarrow> slots (leaves t) i)"
  by (simp add: latest_def getLatestLeafDataCopy_def)

lemma idx_frame_committed:
  assumes "idx_frame env t t'"
  shows "idx_view_ok env False t' \<longleftrightarrow> idx_view_ok env False t" "latest t' False = latest t False"
  using assms by (auto simp: idx_frame_def idx_view_ok_def latest_False)

lemma hashEncoded_total: "\<exists>h. hashEncodedTreeValue H ld = Inr h"
proof -
  obtain x y z where "toBufferBE (ld_value ld) 32 = Inr x" "toBufferBE (nextIndex ld) 32 = Inr y"
    "toBufferBE (nextValue ld) 32 = Inr z" using toBufferBE_total by metis
  then show ?thesis by (simp add: hashEncodedTreeValue_def)
qed

section \<open>Updating a leaf\<close>

lemma latest_put:
  "latest (cachedLeaves_put i l t) True = (latest t True)(i \<mapsto> l)"
  by (auto simp: fun_eq_iff latest_True cachedLeaves_put_def update_conv' split: option.splits)

lemma cachedLeaves_put_frame [simp]:
  "it_base (cachedLeaves_put i l t) = it_base t" "leaves (cachedLeaves_put i l t) = leaves t"
  "it_getNumLeaves (cachedLeaves_put i l t) b = it_getNumLeaves t b"
  "idx_frame env t (cachedLeaves_put i l t)"
  "idx_base env t \<Longrightarrow> idx_base env (cachedLeaves_put i l t)"
  by (simp_all add: cachedLeaves_put_def it_getNumLeaves_def idx_frame_def idx_base_def distinct_update)

lemma latest_cong: "leaves t' = leaves t \<Longrightarrow> cachedLeaves t' = cachedLeaves t \<Longrightarrow> latest t' b = latest t b"
  by (auto simp: latest_def getLatestLeafDataCopy_def fun_eq_iff cong: option.case_cong)

lemma it_getNumLeaves_set [simp]:
  "it_getNumLeaves (it_set_cachedSize n t) True = n"
  "it_getNumLeaves (it_set_cachedSize n t) False = it_getNumLeaves t False"
  by (simp_all add: it_set_cachedSize_def it_getNumLeaves_def getNumLeaves_def)

lemma updateLeaf_hash_ok:
  assumes base: "idx_base env t" and i: "in_level (tdepth (it_base t)) i"
  shows "\<exists>t'. it_updateLeaf_hash env h i t = (Inr (), t') \<and> idx_base env t' \<and> idx_frame env t t' \<and>
    latest t' True = latest t True \<and> it_getNumLeaves t' True = max (it_getNumLeaves t True) (i + 1) \<and>
    (\<forall>j. in_level (tdepth (it_base t)) j \<longrightarrow> node env (it_base t') True (tdepth (it_base t)) j =
       (if j = i then h else node env (it_base t) True (tdepth (it_base t)) j))"
proof -
  have inv: "tree_inv env (it_base t)" using base by (simp add: idx_base_def)
  let ?b = "addLeafToCacheAndHashToRoot env h i (it_base t)"
  let ?t1 = "t\<lparr>it_base := ?b\<rparr>"
  let ?t = "if i \<ge> it_getNumLeaves ?t1 True then it_set_cachedSize (i + 1) ?t1 else ?t1"
  have run: "it_updateLeaf_hash env h i t = (Inr (), ?t)"
    using i in_level_maxIndex[OF tree_inv_wf[OF inv]] by (simp add: it_updateLeaf_hash_def Let_def)
  have num: "it_getNumLeaves ?t1 b = it_getNumLeaves t b" for b
    by (simp add: it_getNumLeaves_def getNumLeaves_def cong: option.case_cong)
  have nd: "node env (it_base ?t) b = node env ?b b" for b by (simp add: it_set_cachedSize_def)
  have "idx_base env ?t"
    using base add_leaf_correct(1)[OF inv i] by (auto simp: idx_base_def it_set_cachedSize_def)
  moreover have "idx_frame env t ?t"
    using num[of False] nd[of False]
    by (auto simp: idx_frame_def) (simp_all add: it_set_cachedSize_def)
  moreover have "latest ?t True = latest t True" by (rule latest_cong) (simp_all add: it_set_cachedSize_def)
  moreover have "it_getNumLeaves ?t True = max (it_getNumLeaves t True) (i + 1)"
    using num[of True] by auto
  moreover have "node env (it_base ?t) True (tdepth (it_base t)) j =
      (if j = i then h else node env (it_base t) True (tdepth (it_base t)) j)" if "in_level (tdepth (it_base t)) j" for j
    unfolding nd by (rule add_leaf_correct(2)[OF inv i that])
  ultimately show ?thesis using run by blast
qed

section \<open>Appending a leaf\<close>

lemma toBigIntBE_nonneg: "0 \<le> toBigIntBE b"
  using be_val_less[of b] by (simp add: toBigIntBE_be_val)

lemma appendLeaf_zero:
  assumes base: "idx_base env t" and ok: "idx_view_ok env True t" and v: "toBigIntBE leaf = 0"
    and room: "it_getNumLeaves t True < 2 ^ tdepth (it_base t)"
  shows "\<exists>t'. appendLeaf env leaf t = (Inr (), t') \<and> idx_base env t' \<and> idx_view_ok env True t' \<and> idx_frame env t t' \<and>
    it_getNumLeaves t' True = it_getNumLeaves t True + 1 \<and> idx_values t' True = idx_values t True"
proof -
  let ?n = "it_getNumLeaves t True" and ?L = "latest t True"
  let ?t = "it_set_cachedSize (?n + 1) t"
  have l: "linked ?n ?L" using ok by (simp add: idx_view_ok_def)
  have nd: "node env (it_base ?t) b = node env (it_base t) b" for b by (simp add: it_set_cachedSize_def)
  have num: "it_getNumLeaves ?t True = ?n + 1" "it_getNumLeaves ?t False = it_getNumLeaves t False"
    by simp_all
  have lat: "latest ?t True = ?L" by (rule latest_cong) (simp_all add: it_set_cachedSize_def)
  have d: "tdepth (it_base ?t) = tdepth (it_base t)" by (simp add: it_set_cachedSize_def)
  have "?L ?n = None" using l by (simp add: linked_def)
  then have upd: "?L = ?L(?n := None)" by auto
  have gr: "linked (?n + 1) ?L" "leaf_values (?n + 1) ?L = leaf_values ?n ?L"
    using linked_grow[OF l, of None] upd by simp_all
  have run: "appendLeaf env leaf t = (Inr (), ?t)"
    using base v room by (simp add: appendLeaf_def Let_def it_getNumLeaves_def idx_base_def tree_inv_def tree_wf_def)
  have "idx_base env ?t" using base by (simp add: idx_base_def it_set_cachedSize_def)
  moreover have "idx_frame env t ?t" using num nd by (simp add: idx_frame_def it_set_cachedSize_def)
  moreover have "idx_view_ok env True ?t" using ok gr room by (simp add: idx_view_ok_def num lat nd d)
  ultimately show ?thesis using run num gr by (intro exI[of _ ?t]) (simp add: idx_values_def lat)
qed

lemma appendLeaf_full_zero:
  assumes "toBigIntBE leaf = 0" and "it_getNumLeaves t True > maxIndex (it_base t)"
  shows "appendLeaf env leaf t =
    (Inl (Error (''Can't append beyond max index. Max index: '' @ dec (maxIndex (it_base t)))), t)"
  using assms by (simp add: appendLeaf_def Let_def it_getNumLeaves_def)

lemma appendLeaf_present:
  assumes "idx_view_ok env' True t" and "toBigIntBE leaf \<noteq> 0" and "toBigIntBE leaf \<in> idx_values t True"
  shows "appendLeaf env leaf t = (Inr (), t)"
proof -
  have v: "0 < toBigIntBE leaf" using assms(2) toBigIntBE_nonneg[of leaf] by simp
  obtain i ld where "findIndexOfPreviousValue t (toBigIntBE leaf) True = (i, True)"
    "active (it_getNumLeaves t True) (latest t True) i ld"
    using previous_present[OF _ refl refl v, where b = True] assms(1,3)
    unfolding idx_view_ok_def idx_values_def latest_def by blast
  then show ?thesis using assms(2) by (simp add: appendLeaf_def Let_def active_def latest_def)
qed

text \<open>The insertion proper.\<close>

lemma appendLeaf_new:
  assumes base: "idx_base env t" and ok: "idx_view_ok env True t" and v: "toBigIntBE leaf \<noteq> 0"
    and new: "toBigIntBE leaf \<notin> idx_values t True" and room: "it_getNumLeaves t True < 2 ^ tdepth (it_base t)"
  shows "\<exists>t' p ld. appendLeaf env leaf t = (Inr (), t') \<and> idx_base env t' \<and> idx_view_ok env True t' \<and> idx_frame env t t' \<and>
    it_getNumLeaves t' True = it_getNumLeaves t True + 1 \<and>
    is_low (it_getNumLeaves t True) (latest t True) (toBigIntBE leaf) p ld \<and>
    latest t' True = link_insert (it_getNumLeaves t True) (toBigIntBE leaf) p ld (latest t True)"
proof -
  let ?n = "it_getNumLeaves t True" and ?L = "latest t True" and ?v = "toBigIntBE leaf" and ?d = "tdepth (it_base t)"
  have l: "linked ?n ?L" using ok by (simp add: idx_view_ok_def)
  have v0: "0 < ?v" using v toBigIntBE_nonneg[of leaf] by simp
  obtain p ld where find: "findIndexOfPreviousValue t ?v True = (p, False)" and low: "is_low ?n ?L ?v p ld"
    using previous_absent_linked[OF l refl latest_def v0] new by (auto simp: idx_values_def)
  have p: "0 \<le> p" "p < ?n" "?L p = Some ld" using low by (auto simp: is_low_def active_def)
  have "?n < 2 ^ 53" using room base power_increasing[of ?d 53 "2::int"] by (simp add: idx_base_def)
  then have num: "js_Number ?n = ?n" using p by simp
  have lev: "in_level ?d p" "in_level ?d ?n" using p room by (auto simp: in_level_def)
  let ?new = "\<lparr>ld_value = ?v, nextIndex = nextIndex ld, nextValue = nextValue ld\<rparr>"
  let ?low = "ld\<lparr>nextIndex := ?n, nextValue := ?v\<rparr>"
  let ?t1 = "cachedLeaves_put p ?low (cachedLeaves_put ?n ?new t)"
  have L1: "latest ?t1 True = link_insert ?n ?v p ld ?L" by (simp add: latest_put link_insert_def)
  obtain h h' where h: "hashEncodedTreeValue (compressInputs env) ?low = Inr h"
    "hashEncodedTreeValue (compressInputs env) ?new = Inr h'" using hashEncoded_total by metis
  have b1: "idx_base env ?t1" using base by simp
  obtain t2 where t2: "it_updateLeaf_hash env h p ?t1 = (Inr (), t2)" "idx_base env t2" "idx_frame env ?t1 t2"
    "latest t2 True = latest ?t1 True" "it_getNumLeaves t2 True = ?n"
    "\<And>j. in_level ?d j \<Longrightarrow> node env (it_base t2) True ?d j = (if j = p then h else node env (it_base t) True ?d j)"
    using updateLeaf_hash_ok[OF b1, of p h] lev p by auto
  have d2: "tdepth (it_base t2) = ?d" using t2(3) by (simp add: idx_frame_def)
  obtain t3 where t3: "it_updateLeaf_hash env h' ?n t2 = (Inr (), t3)" "idx_base env t3" "idx_frame env t2 t3"
    "latest t3 True = latest t2 True" "it_getNumLeaves t3 True = ?n + 1"
    "\<And>j. in_level ?d j \<Longrightarrow> node env (it_base t3) True ?d j = (if j = ?n then h' else node env (it_base t2) True ?d j)"
    using updateLeaf_hash_ok[OF t2(2), of ?n h'] lev t2(5) d2 by auto
  have run: "appendLeaf env leaf t = (Inr (), t3)"
    using v find p num h t2 t3 by (simp add: appendLeaf_def Let_def latest_def[symmetric] latest_def[of t, symmetric, THEN fun_cong] jbind_def)
  have d3: "tdepth (it_base t3) = ?d" using t3(3) d2 by (simp add: idx_frame_def)
  have L3: "latest t3 True = link_insert ?n ?v p ld ?L" using t3(4) t2(4) L1 by simp
  have "leaf_hash_ok env (latest t3 True i) (node env (it_base t3) True ?d i)" if "in_level ?d i" for i
  proof -
    consider "i = p" "i \<noteq> ?n" | "i = ?n" | "i \<noteq> p" "i \<noteq> ?n" by blast
    then show ?thesis
      by cases (use ok that t3(6)[OF that] t2(6)[OF that] h p in
        \<open>simp_all add: L3 link_insert_def idx_view_ok_def leaf_hash_ok_def[of _ "Some _"]\<close>)
  qed
  then have "idx_view_ok env True t3"
    using link_insert_linked[OF l low v0] new room t3(5) by (simp add: idx_view_ok_def L3 d3 idx_values_def)
  moreover have "idx_frame env t t3" using t2(3) t3(3) by (auto simp: idx_frame_def it_getNumLeaves_def)
  ultimately show ?thesis using run t3(2,5) low L3 by blast
qed

text \<open>One append, whatever the value: the list gains the value, and nothing else.\<close>

lemma appendLeaf_correct:
  assumes "idx_base env t" and "idx_view_ok env True t" and "it_getNumLeaves t True < 2 ^ tdepth (it_base t)"
  shows "\<exists>t'. appendLeaf env leaf t = (Inr (), t') \<and> idx_base env t' \<and> idx_view_ok env True t' \<and> idx_frame env t t' \<and>
    it_getNumLeaves t' True \<le> it_getNumLeaves t True + 1 \<and>
    idx_values t' True = insert (toBigIntBE leaf) (idx_values t True)"
proof -
  let ?v = "toBigIntBE leaf"
  have l: "linked (it_getNumLeaves t True) (latest t True)" using assms(2) by (simp add: idx_view_ok_def)
  consider "?v = 0" | "?v \<noteq> 0" "?v \<in> idx_values t True" | "?v \<noteq> 0" "?v \<notin> idx_values t True" by blast
  then show ?thesis
  proof cases
    case 1
    moreover have "0 \<in> idx_values t True" unfolding idx_values_def by (rule zero_in_values[OF l])
    ultimately show ?thesis using appendLeaf_zero[OF assms(1,2) 1 assms(3)] by (auto simp: insert_absorb)
  next
    case 2
    then show ?thesis using appendLeaf_present[OF assms(2) 2] assms(1,2) by (auto simp: insert_absorb)
  next
    case 3
    have "0 < ?v" using 3(1) toBigIntBE_nonneg[of leaf] by simp
    then show ?thesis using appendLeaf_new[OF assms(1,2) 3 assms(3)] link_insert_values[OF l]
      by (fastforce simp: idx_values_def)
  qed
qed

lemma appendLeaves_correct:
  assumes "idx_base env t" and "idx_view_ok env True t"
    and "it_getNumLeaves t True + int (length ls) \<le> 2 ^ tdepth (it_base t)"
  shows "\<exists>t'. it_appendLeaves env ls t = (Inr (), t') \<and> idx_base env t' \<and> idx_view_ok env True t' \<and> idx_frame env t t' \<and>
    it_getNumLeaves t' True \<le> it_getNumLeaves t True + int (length ls) \<and>
    idx_values t' True = toBigIntBE ` set ls \<union> idx_values t True"
  using assms
proof (induction ls arbitrary: t)
  case Nil
  then show ?case by (simp add: it_appendLeaves_def)
next
  case (Cons x xs)
  have "it_getNumLeaves t True < 2 ^ tdepth (it_base t)" using Cons.prems(3) by simp
  then obtain t1 where t1: "appendLeaf env x t = (Inr (), t1)" "idx_base env t1" "idx_view_ok env True t1" "idx_frame env t t1"
    "it_getNumLeaves t1 True \<le> it_getNumLeaves t True + 1" "idx_values t1 True = insert (toBigIntBE x) (idx_values t True)"
    using appendLeaf_correct[OF Cons.prems(1,2)] by blast
  have "it_getNumLeaves t1 True + int (length xs) \<le> 2 ^ tdepth (it_base t1)"
    using t1(4,5) Cons.prems(3) by (simp add: idx_frame_def)
  from Cons.IH[OF t1(2,3) this]
  obtain t2 where "it_appendLeaves env xs t1 = (Inr (), t2)" "idx_base env t2" "idx_view_ok env True t2" "idx_frame env t1 t2"
    "it_getNumLeaves t2 True \<le> it_getNumLeaves t1 True + int (length xs)"
    "idx_values t2 True = toBigIntBE ` set xs \<union> idx_values t1 True" by blast
  then show ?case using t1 idx_frame_trans[OF t1(4)]
    by (intro exI[of _ t2]) (simp add: it_appendLeaves_def jbind_def)
qed

section \<open>Commit and rollback\<close>

text \<open>Writes under keys without a colon do not touch the nodes of a tree.\<close>

lemma node_other_keys:
  assumes "levelup_ok env" and "\<And>k v. (k, v) \<in> set ops \<Longrightarrow> CHR '':'' \<notin> set k"
  shows "node env (t\<lparr>tdb := lu_batch env (tdb t) ops\<rparr>) b = node env t b"
proof -
  have "map_of (rev ops) (indexToKeyHash (tname t) l i) = None" for l i
  proof (rule ccontr)
    assume "map_of (rev ops) (indexToKeyHash (tname t) l i) \<noteq> None"
    then obtain v where "(indexToKeyHash (tname t) l i, v) \<in> set ops" by (auto dest: map_of_SomeD)
    then show False using assms(2) by (fastforce simp: indexToKeyHash_def)
  qed
  then have "lu_get env (lu_batch env (tdb t) ops) (indexToKeyHash (tname t) l i) = lu_get env (tdb t) (indexToKeyHash (tname t) l i)"
    for l i using assms(1) by (simp add: levelup_ok_def)
  then show ?thesis
    by (auto simp: node_def getRoot_def getLatestValueAtIndex_def fun_eq_iff Let_def cong: option.case_cong)
qed

lemma getNumLeaves_tdb [simp]: "getNumLeaves (t\<lparr>tdb := x\<rparr>) b = getNumLeaves t b"
  by (simp add: getNumLeaves_def cong: option.case_cong)

lemma slots_fold_set:
  "distinct (map fst c) \<Longrightarrow> slots (fold (\<lambda>(i, leaf) a. js_set a i leaf) c a) i =
    (case map_of c i of Some l \<Rightarrow> Some l | None \<Rightarrow> slots a i)"
proof (induction c arbitrary: a)
  case (Cons x c)
  have "map_of c (fst x) = None" using Cons.prems by (simp add: map_of_eq_None_iff)
  then show ?case using Cons by (auto simp: js_set_def case_prod_unfold split: option.splits)
qed simp

lemma it_commit_ok:
  assumes base: "idx_base env t" and ok: "idx_view_ok env True t"
  shows "\<exists>t'. it_commit env t = (Inr (), t') \<and> idx_inv env t' \<and> tdepth (it_base t') = tdepth (it_base t) \<and>
    (\<forall>b. latest t' b = latest t True \<and> it_getNumLeaves t' b = it_getNumLeaves t True \<and>
      node env (it_base t') b = node env (it_base t) True)"
proof -
  have inv: "tree_inv env (it_base t)" and lu: "levelup_ok env" using base by (simp_all add: idx_base_def tree_inv_def)
  obtain data b' where b': "TreeBase_commit env (it_base t) = (Inr (), b')" "tree_inv env b'"
    "\<And>b. node env b' b = node env (it_base t) True" "\<And>b. getNumLeaves b' b = getNumLeaves (it_base t) True"
    "tdepth b' = tdepth (it_base t)"
    using TreeBase_commit_ok[OF inv] by (auto simp: clearCache_def)
  let ?t1 = "t\<lparr>it_base := b'\<rparr>"
  let ?ops = "map (\<lambda>(i, leaf). (dec i, VObject leaf)) (cachedLeaves t)"
  let ?t = "commitLeaves env ?t1"
  have run: "it_commit env t = (Inr (), ?t)" by (simp add: it_commit_def it_super_def jbind_def b')
  have base': "it_base ?t = b'\<lparr>tdb := lu_batch env (tdb b') ?ops\<rparr>"
    by (simp add: commitLeaves_def clearCachedLeaves_def Let_def)
  have nd: "node env (it_base ?t) b = node env (it_base t) True" for b
    unfolding base' b'(3)[of b, symmetric] by (rule node_other_keys[OF lu]) (auto simp: dec_no_colon)
  have num: "it_getNumLeaves ?t b = it_getNumLeaves t True" for b
    using b'(4)[of b] by (simp add: it_getNumLeaves_def base')
  have ti: "tree_inv env (it_base ?t)"
    using b'(2) nd b'(3) unfolding tree_inv_def tree_wf_def by (simp add: base')
  have cl: "cachedLeaves ?t = []" by (simp add: commitLeaves_def clearCachedLeaves_def Let_def)
  have "slots (leaves ?t) i = latest t True i" for i
    using base by (simp add: commitLeaves_def clearCachedLeaves_def Let_def slots_fold_set idx_base_def latest_True)
  then have lat: "latest ?t b = latest t True" for b
    using cl by (cases b) (auto simp: latest_True latest_False fun_eq_iff)
  have d: "tdepth (it_base ?t) = tdepth (it_base t)" by (simp add: base' b')
  have "idx_inv env ?t"
    using base ok ti by (simp add: idx_inv_def idx_base_def idx_view_ok_def lat num nd d cl)
  then show ?thesis using run lat num nd d by blast
qed

lemma it_rollback_ok:
  assumes base: "idx_base env t" and ok: "idx_view_ok env False t"
  shows "idx_inv env (it_rollback t) \<and>
    (\<forall>b. latest (it_rollback t) b = latest t False \<and> it_getNumLeaves (it_rollback t) b = it_getNumLeaves t False \<and>
      node env (it_base (it_rollback t)) b = node env (it_base t) False)"
proof -
  have inv: "tree_inv env (it_base t)" using base by (simp add: idx_base_def)
  let ?t = "it_rollback t"
  have b: "it_base ?t = TreeBase_rollback (it_base t)" "cachedLeaves ?t = []" "leaves ?t = leaves t"
    by (simp_all add: it_rollback_def clearCachedLeaves_def)
  have lat: "latest ?t c = latest t False" for c by (cases c) (auto simp: latest_True latest_False b fun_eq_iff)
  have num: "it_getNumLeaves ?t c = it_getNumLeaves t False" for c
    using TreeBase_rollback_ok(3)[OF inv] by (simp add: it_getNumLeaves_def b getNumLeaves_def[of "it_base t" False])
  have d: "tdepth (TreeBase_rollback (it_base t)) = tdepth (it_base t)"
    by (simp add: TreeBase_rollback_def clearCache_def)
  have "idx_inv env ?t"
    using base ok TreeBase_rollback_ok(1,2)[OF inv]
    by (simp add: idx_inv_def idx_base_def idx_view_ok_def lat num d b)
  then show ?thesis using lat num TreeBase_rollback_ok(2)[OF inv] by (simp add: b)
qed

text \<open>The abstract state: leaf records, number of leaves and node labels.\<close>

definition idx_state :: "'db tree_env \<Rightarrow> bool \<Rightarrow> 'db indexed_tree \<Rightarrow> leaf_map \<times> int \<times> (nat \<Rightarrow> int \<Rightarrow> buffer)" where
  "idx_state env b t = (latest t b, it_getNumLeaves t b, node env (it_base t) b)"

interpretation idx_tx: transactional "\<lambda>t. snd (it_commit env t)" it_rollback
    "idx_state env False" "idx_state env True" "idx_inv env" for env
proof (unfold_locales, goal_cases)
  case (1 t)
  then show ?case using it_commit_ok[of env t] by (auto simp: idx_inv_def[of env t])
next
  case (2 t)
  then show ?case using it_rollback_ok[of env t] by (auto simp: idx_inv_def[of env t])
next
  case (3 t)
  then show ?case using it_commit_ok[of env t] by (auto simp: idx_inv_def[of env t] idx_state_def)
next
  case (4 t)
  then show ?case using it_commit_ok[of env t] by (auto simp: idx_inv_def[of env t] idx_state_def)
next
  case (5 t)
  then show ?case using it_rollback_ok[of env t] by (auto simp: idx_inv_def[of env t] idx_state_def)
next
  case (6 t)
  then show ?case using it_rollback_ok[of env t] by (auto simp: idx_inv_def[of env t] idx_state_def)
qed

section \<open>Initialisation\<close>

lemma fresh_linked: "linked 1 ((\<lambda>_. None)(0 \<mapsto> initialLeaf))" "leaf_values 1 ((\<lambda>_. None)(0 \<mapsto> initialLeaf)) = {0}"
proof -
  have act: "active 1 ((\<lambda>_. None)(0 \<mapsto> initialLeaf)) i x \<longleftrightarrow> i = 0 \<and> x = initialLeaf" for i x
    by (auto simp: active_def)
  show "linked 1 ((\<lambda>_. None)(0 \<mapsto> initialLeaf))"
    unfolding linked_def link_ok_def act by (auto simp: initialLeaf_def)
  show "leaf_values 1 ((\<lambda>_. None)(0 \<mapsto> initialLeaf)) = {0}"
    unfolding leaf_values_def act by (auto simp: initialLeaf_def)
qed

lemma prefill_values:
  assumes "p \<le> 256"
  shows "toBigIntBE ` set (map (\<lambda>i. [word_of_int i :: byte]) [1..p - 1]) = {1..p - 1}"
proof -
  have "toBigIntBE [word_of_int i :: byte] = i" if "1 \<le> i" "i \<le> p - 1" for i
    using that assms by (simp add: toBigIntBE_be_val be_val_def digits_val_def take_bit_int_eq_self unsigned_of_int)
  then show ?thesis by (force simp: image_iff)
qed

lemma newIndexedTree_ok:
  assumes lu: "levelup_ok env" and fresh: "no_nodes env db name" and d: "1 \<le> depth" "depth \<le> 53"
    and p: "p \<le> 256" "p \<le> 2 ^ depth"
  shows "\<exists>t. newIndexedTree env db name depth p = Inr t \<and> idx_inv env t \<and> tdepth (it_base t) = depth \<and>
    (\<forall>b. idx_values t b = {0..max 0 (p - 1)} \<and> it_getNumLeaves t b \<le> max 1 p) \<and>
    (\<forall>b. latest t b = latest t True \<and> it_getNumLeaves t b = it_getNumLeaves t True \<and> node env (it_base t) b = node env (it_base t) True)"
proof -
  have "depth \<le> MAX_DEPTH" using d by (simp add: MAX_DEPTH_def)
  then obtain b0 where b0: "new_TreeBase env db name depth 0 None = Inr b0" "tree_inv env b0" "tdepth b0 = depth"
    "\<And>b. getNumLeaves b0 b = 0" "\<And>b i. node env b0 b depth i = INITIAL_LEAF"
    using new_TreeBase_fresh[OF lu fresh d(1)] by blast
  let ?t0 = "\<lparr>it_base = b0, leaves = js_push empty_array initialLeaf, cachedLeaves = []\<rparr>"
  obtain h where h: "hashEncodedTreeValue (compressInputs env) initialLeaf = Inr h" using hashEncoded_total by blast
  have base0: "idx_base env ?t0" using b0 d by (simp add: idx_base_def)
  have lat0: "latest ?t0 True = (\<lambda>_. None)(0 \<mapsto> initialLeaf)"
    by (auto simp: latest_True fun_eq_iff js_push_def js_set_def empty_array_def)
  obtain t1 where t1: "it_updateLeaf_hash env h 0 ?t0 = (Inr (), t1)" "idx_base env t1" "idx_frame env ?t0 t1"
    "latest t1 True = latest ?t0 True" "it_getNumLeaves t1 True = 1"
    "\<And>j. in_level depth j \<Longrightarrow> node env (it_base t1) True depth j = (if j = 0 then h else INITIAL_LEAF)"
    using updateLeaf_hash_ok[OF base0, of 0 h] b0 by (auto simp: in_level_def it_getNumLeaves_def)
  have d1: "tdepth (it_base t1) = depth" using t1(3) b0 by (simp add: idx_frame_def)
  have ok1: "idx_view_ok env True t1"
    using t1 d1 h fresh_linked lat0 by (auto simp: idx_view_ok_def leaf_hash_ok_def)
  have v1: "idx_values t1 True = {0}" using t1 lat0 fresh_linked by (simp add: idx_values_def)
  let ?ls = "map (\<lambda>i. [word_of_int i :: byte]) [1..p - 1]"
  have "it_getNumLeaves t1 True + int (length ?ls) \<le> 2 ^ tdepth (it_base t1)" using t1(5) d1 p by simp
  from appendLeaves_correct[OF t1(2) ok1 this]
  obtain t2 where t2: "it_appendLeaves env ?ls t1 = (Inr (), t2)" "idx_base env t2" "idx_view_ok env True t2"
    "idx_frame env t1 t2" "idx_values t2 True = {1..p - 1} \<union> {0}"
    "it_getNumLeaves t2 True \<le> it_getNumLeaves t1 True + int (length ?ls)"
    using prefill_values[OF p(1)] v1 by auto
  obtain t3 where t3: "it_commit env t2 = (Inr (), t3)" "idx_inv env t3" "tdepth (it_base t3) = tdepth (it_base t2)"
    "\<And>b. latest t3 b = latest t2 True" "\<And>b. it_getNumLeaves t3 b = it_getNumLeaves t2 True"
    "\<And>b. node env (it_base t3) b = node env (it_base t2) True"
    using it_commit_ok[OF t2(2,3)] by blast
  have for_map: "jfor (\<lambda>i. appendLeaf env [word_of_int i]) [1..p - 1] t1 = (Inr (), t2)"
    using t2(1) by (simp add: it_appendLeaves_def jfor_map comp_def)
  have run: "newIndexedTree env db name depth p = Inr t3"
    using b0(1) h t1(1) for_map t3(1)
    by (simp add: newIndexedTree_def new_StandardIndexedTree_def it_init_def jbind_def)
  have "idx_values t3 b = {0..max 0 (p - 1)}" for b
    using t2(5) t3(4,5) by (auto simp: idx_values_def)
  moreover have "it_getNumLeaves t3 b \<le> max 1 p" for b using t2(6) t3(5) t1(5) by (simp split: if_splits)
  ultimately show ?thesis using run t3(2-6) t2(4) d1 by (intro exI[of _ t3]) (simp add: idx_frame_def)
qed

end
