(* ===== verification/BatchInsertion.thy ===== *)
theory BatchInsertion
  imports IndexedTreeProofs
begin

text \<open>
  Correctness of \<open>batchInsert\<close> (\<^verbatim>\<open>standard_indexed_tree.ts\<close>): inserting a subtree of new values updates the
  pointers of the leaves already in the tree while the new leaves wait in \<open>pendingInsertionSubtree\<close>. During the
  loop the leaves of the tree and the pending ones together form the sorted linked list; \<open>touched\<close> tells for
  which low leaves of the tree a smaller pending value exists, so that the true low leaf is a pending one.
\<close>

section \<open>The leaves of the tree with the pending subtree\<close>

definition comb :: "int \<Rightarrow> leaf_map \<Rightarrow> leaf_data list \<Rightarrow> leaf_map" where
  "comb n L P = (\<lambda>i. if n \<le> i \<and> i < n + int (length P) then Some (P ! nat (i - n)) else L i)"

definition pending_values :: "leaf_data list \<Rightarrow> int set" where
  "pending_values P = {ld_value x | x. x \<in> set P \<and> ld_value x \<noteq> 0}"

text \<open>The loop invariant: \<open>n\<close> leaves in the tree, leaf map \<open>L\<close>, touched map \<open>T\<close>, pending leaves \<open>P\<close>.\<close>

definition batch_inv :: "int \<Rightarrow> leaf_map \<Rightarrow> (int \<times> int list) list \<Rightarrow> leaf_data list \<Rightarrow> bool" where
  "batch_inv n L T P \<longleftrightarrow>
     0 < n \<and> (\<exists>z. L 0 = Some z \<and> ld_value z = 0) \<and> (\<forall>i \<ge> n. L i = None) \<and>
     linked (n + int (length P)) (comb n L P) \<and>
     (\<forall>k vs v. map_of T k = Some vs \<longrightarrow> v \<in> set vs \<longrightarrow> low_index n L v k \<and> v \<in> pending_values P) \<and>
     (\<forall>w \<in> pending_values P. \<exists>k vs v. low_index n L w k \<and> map_of T k = Some vs \<and> v \<in> set vs \<and> v \<le> w)"

lemma comb_Nil [simp]: "comb n L [] = L"
  by (auto simp: comb_def fun_eq_iff)

lemma comb_main: "i < n \<Longrightarrow> comb n L P i = L i"
  by (simp add: comb_def)

lemma comb_pending: "j < length P \<Longrightarrow> comb n L P (n + int j) = Some (P ! j)"
  by (simp add: comb_def)

lemma vactive_comb:
  assumes "0 < n"
  shows "vactive (n + int (length P)) (comb n L P) i w \<longleftrightarrow>
    vactive n L i w \<or> (n \<le> i \<and> i < n + int (length P) \<and> ld_value (P ! nat (i - n)) = w \<and> w \<noteq> 0)"
  using assms by (auto simp: vactive_def active_def comb_def)

lemma pending_values_iff:
  "w \<in> pending_values P \<longleftrightarrow> w \<noteq> 0 \<and> (\<exists>j < length P. ld_value (P ! j) = w)"
  by (auto simp: pending_values_def in_set_conv_nth)

lemma comb_values:
  assumes "0 < n"
  shows "leaf_values (n + int (length P)) (comb n L P) = leaf_values n L \<union> pending_values P"
proof (rule set_eqI)
  fix w
  have "(\<exists>i. n \<le> i \<and> i < n + int (length P) \<and> ld_value (P ! nat (i - n)) = w \<and> w \<noteq> 0) \<longleftrightarrow> w \<in> pending_values P"
    unfolding pending_values_iff
  proof safe
    fix i assume "n \<le> i" "i < n + int (length P)"
    then show "\<exists>j < length P. ld_value (P ! j) = ld_value (P ! nat (i - n))" by (intro exI[of _ "nat (i - n)"]) auto
  next
    fix j assume "j < length P"
    then show "\<exists>i \<ge> n. i < n + int (length P) \<and> ld_value (P ! nat (i - n)) = ld_value (P ! j) \<and> ld_value (P ! j) \<noteq> 0"
      if "ld_value (P ! j) \<noteq> 0" using that by (intro exI[of _ "n + int j"]) auto
  qed
  then show "w \<in> leaf_values (n + int (length P)) (comb n L P) \<longleftrightarrow> w \<in> leaf_values n L \<union> pending_values P"
    unfolding leaf_values_vactive vactive_comb[OF assms] Un_iff by blast
qed

text \<open>In a linked list the index below which a value belongs is unique.\<close>

lemma vactive_inj: "linked n L \<Longrightarrow> vactive n L i w \<Longrightarrow> vactive n L j w \<Longrightarrow> i = j"
  unfolding vactive_def using linked_inj by blast

lemma low_index_unique:
  assumes "linked (n + int (length P)) (comb n L P)" and "0 < n" and "low_index n L v i" and "low_index n L v j"
  shows "i = j"
proof -
  obtain w where w: "vactive n L i w" "w < v" "\<forall>j u. vactive n L j u \<longrightarrow> u \<le> w \<or> v < u"
    using assms(3) unfolding low_index_def by blast
  obtain u where u: "vactive n L j u" "u < v" "\<forall>j w. vactive n L j w \<longrightarrow> w \<le> u \<or> v < w"
    using assms(4) unfolding low_index_def by blast
  have "w = u" using w(3)[rule_format, OF u(1)] u(3)[rule_format, OF w(1)] w(2) u(2) by simp
  moreover have "vactive (n + int (length P)) (comb n L P) i w" "vactive (n + int (length P)) (comb n L P) j u"
    unfolding vactive_comb[OF assms(2)] using w(1) u(1) by blast+
  ultimately show ?thesis using vactive_inj[OF assms(1)] by blast
qed

section \<open>The two ways to insert\<close>

text \<open>No touched value below the new one: the low leaf of the tree is the low leaf of the whole list.\<close>

lemma direct_low:
  assumes inv: "batch_inv n L T P" and low: "low_index n L v p" and p: "L p = Some ld" and v: "0 < v"
    and new: "v \<notin> leaf_values n L \<union> pending_values P"
    and none: "\<And>vs u. map_of T p = Some vs \<Longrightarrow> u \<in> set vs \<Longrightarrow> \<not> u < v"
  shows "is_low (n + int (length P)) (comb n L P) v p ld"
proof -
  let ?N = "n + int (length P)" and ?C = "comb n L P"
  have n: "0 < n" and l: "linked ?N ?C" using inv by (simp_all add: batch_inv_def)
  obtain w where w: "vactive n L p w" "w < v" "\<And>j u. vactive n L j u \<Longrightarrow> u \<le> w \<or> v < u"
    using low unfolding low_index_def by blast
  have "u \<le> w \<or> v < u" if u: "vactive ?N ?C j u" for j u
  proof (rule ccontr)
    assume between: "\<not> (u \<le> w \<or> v < u)"
    then have "u \<notin> leaf_values n L" using w(3) unfolding leaf_values_vactive by blast
    moreover have "u \<in> leaf_values ?N ?C" using u unfolding leaf_values_vactive by blast
    ultimately have pv: "u \<in> pending_values P" unfolding comb_values[OF n] by blast
    then obtain k vs x where k: "low_index n L u k" "map_of T k = Some vs" "x \<in> set vs" "x \<le> u"
      using inv unfolding batch_inv_def by blast
    have "low_index n L u p" unfolding low_index_def
    proof (intro exI conjI allI impI)
      show "vactive n L p w" "w < u" using w(1) between by simp_all
      show "x \<le> w \<or> u < x" if "vactive n L i x" for i x using w(3)[OF that] between by auto
    qed
    then have "k = p" using low_index_unique[OF l n k(1)] by blast
    moreover have "u \<noteq> v" using pv new by auto
    ultimately show False using none[of vs x] k between by simp
  qed
  moreover have "vactive ?N ?C p w" unfolding vactive_comb[OF n] using w(1) by blast
  ultimately have "low_index ?N ?C v p" using w(2) unfolding low_index_def by blast
  moreover have "p < n" using w(1) by (auto simp: vactive_def active_def)
  ultimately show ?thesis using low_index_is_low[OF l] p by (simp add: comb_main)
qed

text \<open>A touched value below the new one: the low leaf is pending.\<close>

lemma pending_low:
  assumes inv: "batch_inv n L T P" and low: "low_index n L v p" and v: "0 < v"
    and new: "v \<notin> leaf_values n L \<union> pending_values P"
    and touch: "map_of T p = Some vs" "u \<in> set vs" "u < v"
  shows "\<exists>j < length P. is_low (n + int (length P)) (comb n L P) v (n + int j) (P ! j)"
proof -
  let ?N = "n + int (length P)" and ?C = "comb n L P"
  have n: "0 < n" and l: "linked ?N ?C" using inv by (simp_all add: batch_inv_def)
  obtain q c where q: "is_low ?N ?C v q c" using is_low_exists[OF l v] new comb_values[OF n] by blast
  obtain w where w: "vactive n L p w" "w < v" "\<And>j u. vactive n L j u \<Longrightarrow> u \<le> w \<or> v < u"
    using low unfolding low_index_def by blast
  have u: "low_index n L u p" "u \<in> pending_values P" using inv touch unfolding batch_inv_def by blast+
  then obtain w' where "vactive n L p w'" "w' < u" unfolding low_index_def by blast
  then have wu: "w < u" using w(1) by (auto simp: vactive_def active_def)
  have "u \<in> leaf_values ?N ?C" using u(2) comb_values[OF n] by blast
  then obtain j b where "active ?N ?C j b" "ld_value b = u" unfolding leaf_values_iff by blast
  then have uc: "u \<le> ld_value c" using is_low_maximal[OF l q, of j b] touch(3) by auto
  have "n \<le> q"
  proof (rule ccontr)
    assume "\<not> n \<le> q"
    then have "vactive n L q (ld_value c)" using q by (auto simp: is_low_def active_def vactive_def comb_main)
    then have "ld_value c \<le> w \<or> v < ld_value c" by (rule w(3))
    then show False using uc wu q by (auto simp: is_low_def)
  qed
  then obtain j where "q = n + int j" using zle_iff_zadd by blast
  moreover from this have "j < length P" "c = P ! j" using q n by (auto simp: is_low_def active_def comb_def)
  ultimately show ?thesis using q by blast
qed

lemma comb_snoc: "comb n L (P @ [x]) = (comb n L P)(n + int (length P) \<mapsto> x)"
  by (auto simp: comb_def fun_eq_iff nth_append nat_less_iff)

lemma comb_upd_main: "p < n \<Longrightarrow> comb n (L(p \<mapsto> y)) P = (comb n L P)(p \<mapsto> y)"
  by (auto simp: comb_def fun_eq_iff)

lemma comb_upd_pending: "j < length P \<Longrightarrow> comb n L (P[j := y]) = (comb n L P)(n + int j \<mapsto> y)"
  by (auto simp: comb_def fun_eq_iff nth_list_update)

lemma pending_values_snoc: "pending_values (P @ [x]) = (if ld_value x = 0 then {} else {ld_value x}) \<union> pending_values P"
  by (auto simp: pending_values_def)

lemma pending_values_upd:
  assumes "j < length P" and "ld_value y = ld_value (P ! j)"
  shows "pending_values (P[j := y]) = pending_values P"
  using assms by (auto simp: pending_values_iff nth_list_update split: if_splits)

lemma batch_inv_zero:
  assumes "batch_inv n L T P"
  shows "batch_inv n L T (P @ [zeroLeaf])"
proof -
  have "linked (n + int (length P)) (comb n L P)" using assms by (simp add: batch_inv_def)
  from linked_grow(1)[OF this, of "Some zeroLeaf"]
  have "linked (n + int (length (P @ [zeroLeaf]))) (comb n L (P @ [zeroLeaf]))"
    by (simp add: comb_snoc zeroLeaf_def ac_simps)
  moreover have "pending_values (P @ [zeroLeaf]) = pending_values P" by (simp add: pending_values_snoc zeroLeaf_def)
  ultimately show ?thesis using assms unfolding batch_inv_def by simp
qed

lemma batch_inv_direct:
  assumes inv: "batch_inv n L T P" and low: "low_index n L v p" and p: "L p = Some ld" and v: "0 < v"
    and new: "v \<notin> leaf_values n L \<union> pending_values P"
    and none: "\<And>vs u. map_of T p = Some vs \<Longrightarrow> u \<in> set vs \<Longrightarrow> \<not> u < v"
    and vs: "vs = (case map_of T p of Some us \<Rightarrow> us @ [v] | None \<Rightarrow> [v])"
  shows "batch_inv n (L(p \<mapsto> ld\<lparr>nextIndex := n + int (length P), nextValue := v\<rparr>)) (AList.update p vs T)
    (P @ [\<lparr>ld_value = v, nextIndex = nextIndex ld, nextValue = nextValue ld\<rparr>])"
proof -
  let ?N = "n + int (length P)" and ?C = "comb n L P"
  let ?y = "ld\<lparr>nextIndex := ?N, nextValue := v\<rparr>"
  let ?L = "L(p \<mapsto> ?y)" and ?x = "\<lparr>ld_value = v, nextIndex = nextIndex ld, nextValue = nextValue ld\<rparr>"
  have n: "0 < n" and l: "linked ?N ?C" using inv by (simp_all add: batch_inv_def)
  have pn: "p < n" using low by (auto simp: low_index_def vactive_def active_def)
  have is_low: "is_low ?N ?C v p ld" by (rule direct_low[OF inv low p v new none])
  have "comb n ?L (P @ [?x]) = link_insert ?N v p ld ?C"
    using pn by (simp add: comb_snoc comb_upd_main link_insert_def fun_upd_twist)
  then have "linked (n + int (length (P @ [?x]))) (comb n ?L (P @ [?x]))"
    using link_insert_linked[OF l is_low v] new comb_values[OF n] by (simp add: ac_simps)
  moreover have li: "low_index n ?L = low_index n L" by (rule low_index_upd[of L p ld ?y, OF p]) simp
  moreover have pv: "pending_values (P @ [?x]) = insert v (pending_values P)" using v by (simp add: pending_values_snoc)
  moreover have "low_index n L u k \<and> u \<in> insert v (pending_values P)"
    if "map_of (AList.update p vs T) k = Some us" "u \<in> set us" for k us u
  proof (cases "k = p")
    case True
    then have "us = vs" using that by (simp add: update_conv')
    then have "u = v \<or> (\<exists>ws. map_of T p = Some ws \<and> u \<in> set ws)" using that vs by (auto split: option.splits)
    then show ?thesis using inv low True unfolding batch_inv_def by blast
  next
    case False
    then have "map_of T k = Some us" using that by (simp add: update_conv')
    then show ?thesis using inv that(2) unfolding batch_inv_def by blast
  qed
  moreover have "\<exists>k us u. low_index n L w k \<and> map_of (AList.update p vs T) k = Some us \<and> u \<in> set us \<and> u \<le> w"
    if w: "w \<in> insert v (pending_values P)" for w
  proof (cases "w = v")
    case True
    have "map_of (AList.update p vs T) p = Some vs" "v \<in> set vs" using vs by (auto simp: update_conv' split: option.splits)
    then show ?thesis using low True by blast
  next
    case False
    then obtain k us u where k: "low_index n L w k" "map_of T k = Some us" "u \<in> set us" "u \<le> w"
      using inv w unfolding batch_inv_def by blast
    then have "\<exists>us'. map_of (AList.update p vs T) k = Some us' \<and> u \<in> set us'"
      using vs by (cases "k = p") (simp_all add: update_conv')
    then show ?thesis using k by blast
  qed
  moreover have "\<exists>z. ?L 0 = Some z \<and> ld_value z = 0" using inv p by (auto simp: batch_inv_def)
  moreover have "\<forall>i \<ge> n. ?L i = None" using inv pn by (auto simp: batch_inv_def)
  ultimately show ?thesis using n unfolding batch_inv_def li pv by blast
qed

lemma pending_find_Some:
  assumes "j < length P" and "ld_value (P ! j) \<noteq> 0" "ld_value (P ! j) < v"
    and "nextValue (P ! j) > v \<or> nextValue (P ! j) = 0"
  shows "\<exists>i < length P. pending_find v k P = Some (k + i) \<and> ld_value (P ! i) \<noteq> 0 \<and> ld_value (P ! i) < v \<and>
    (nextValue (P ! i) > v \<or> nextValue (P ! i) = 0)"
  using assms
proof (induction P arbitrary: j k)
  case (Cons x P)
  show ?case
  proof (cases "ld_value x \<noteq> 0 \<and> ld_value x < v \<and> (nextValue x > v \<or> nextValue x = 0)")
    case True
    then show ?thesis by (intro exI[of _ 0]) auto
  next
    case False
    then have find: "pending_find v k (x # P) = pending_find v (k + 1) P" by auto
    obtain j' where "j = Suc j'" using Cons.prems False by (cases j) auto
    then obtain i where "i < length P" "pending_find v (k + 1) P = Some (k + 1 + i)" "ld_value (P ! i) \<noteq> 0"
      "ld_value (P ! i) < v" "nextValue (P ! i) > v \<or> nextValue (P ! i) = 0"
      using Cons.IH[of j' "k + 1"] Cons.prems by auto
    then show ?thesis using find by (intro exI[of _ "Suc i"]) simp
  qed
qed simp

lemma batch_inv_pending:
  assumes inv: "batch_inv n L T P" and low: "low_index n L v p" and v: "0 < v"
    and new: "v \<notin> leaf_values n L \<union> pending_values P"
    and touch: "map_of T p = Some vs" "u \<in> set vs" "u < v"
  shows "batch_inv n L T (pending_insert v (n + int (length P)) P) \<and>
    length (pending_insert v (n + int (length P)) P) = length P + 1 \<and>
    pending_values (pending_insert v (n + int (length P)) P) = insert v (pending_values P) \<and>
    map ld_value (pending_insert v (n + int (length P)) P) = map ld_value P @ [v]"
proof -
  let ?N = "n + int (length P)" and ?C = "comb n L P"
  have n: "0 < n" and l: "linked ?N ?C" using inv by (simp_all add: batch_inv_def)
  obtain j where "j < length P" "is_low ?N ?C v (n + int j) (P ! j)"
    using pending_low[OF inv low v new touch] by blast
  then have "\<exists>i < length P. pending_find v 0 P = Some (0 + i) \<and> ld_value (P ! i) \<noteq> 0 \<and> ld_value (P ! i) < v \<and>
      (nextValue (P ! i) > v \<or> nextValue (P ! i) = 0)"
    using n by (intro pending_find_Some[of j]) (auto simp: is_low_def active_def)
  then obtain j where j: "j < length P" "pending_find v 0 P = Some j" "is_low ?N ?C v (n + int j) (P ! j)"
    using n by (auto simp: is_low_def active_def comb_pending)
  let ?x = "\<lparr>ld_value = v, nextIndex = nextIndex (P ! j), nextValue = nextValue (P ! j)\<rparr>"
  let ?y = "(P ! j)\<lparr>nextIndex := ?N, nextValue := v\<rparr>"
  let ?P = "(P @ [?x])[j := ?y]"
  have ins: "pending_insert v ?N P = ?P" using j by (simp add: pending_insert_def Let_def)
  have "comb n L ?P = link_insert ?N v (n + int j) (P ! j) ?C"
    using j(1) by (simp add: comb_upd_pending comb_snoc link_insert_def)
  then have lk: "linked (n + int (length ?P)) (comb n L ?P)"
    using link_insert_linked[OF l j(3) v] new comb_values[OF n] by (simp add: ac_simps)
  have pv: "pending_values ?P = insert v (pending_values P)"
    using j(1) v by (subst pending_values_upd) (simp_all add: nth_append pending_values_snoc)
  have "batch_inv n L T ?P"
    using inv lk low touch unfolding batch_inv_def pv by (auto intro: less_imp_le)
  moreover have "map ld_value ?P = map ld_value P @ [v]" using j(1) by (auto simp: nth_append nth_list_update intro!: nth_equalityI)
  ultimately show ?thesis using ins pv by simp
qed

section \<open>The loop of the code\<close>

text \<open>The Merkle tree holds the hash of every leaf record of the pending view.\<close>

definition hashes_ok :: "'db tree_env \<Rightarrow> 'db indexed_tree \<Rightarrow> bool" where
  "hashes_ok env t \<longleftrightarrow> (\<forall>i. in_level (tdepth (it_base t)) i \<longrightarrow>
     leaf_hash_ok env (latest t True i) (node env (it_base t) True (tdepth (it_base t)) i))"

lemma it_updateLeaf_ok:
  assumes base: "idx_base env t" and i: "in_level (tdepth (it_base t)) i" and h: "hashes_ok env t"
  shows "\<exists>t'. it_updateLeaf env leaf i t = (Inr (), t') \<and> idx_base env t' \<and> idx_frame env t t' \<and> hashes_ok env t' \<and>
    latest t' True = (latest t True)(i \<mapsto> leaf) \<and> it_getNumLeaves t' True = max (it_getNumLeaves t True) (i + 1)"
proof -
  obtain e where e: "(if ld_value leaf = 0 then toBufferBE 0 32 else hashEncodedTreeValue (compressInputs env) leaf) = Inr e"
    using hashEncoded_total toBufferBE_zero by metis
  then have ok: "leaf_hash_ok env (Some leaf) e"
    by (auto simp: leaf_hash_ok_def toBufferBE_zero INITIAL_LEAF_def split: if_splits)
  have "i < 2 ^ 53" using i base power_increasing[of "tdepth (it_base t)" 53 "2::int"]
    by (auto simp: in_level_def idx_base_def)
  then have num: "js_Number i = i" using i by (simp add: in_level_def)
  let ?t1 = "cachedLeaves_put i leaf t"
  have b1: "idx_base env ?t1" using base by simp
  obtain t' where t': "it_updateLeaf_hash env e i ?t1 = (Inr (), t')" "idx_base env t'" "idx_frame env ?t1 t'"
    "latest t' True = (latest t True)(i \<mapsto> leaf)" "it_getNumLeaves t' True = max (it_getNumLeaves t True) (i + 1)"
    "\<And>j. in_level (tdepth (it_base t)) j \<Longrightarrow> node env (it_base t') True (tdepth (it_base t)) j =
       (if j = i then e else node env (it_base t) True (tdepth (it_base t)) j)"
    using updateLeaf_hash_ok[OF b1, of i e] i by (auto simp: latest_put)
  have run: "it_updateLeaf env leaf i t = (Inr (), t')"
    using e t'(1) num by (simp add: it_updateLeaf_def jbind_def)
  have fr: "idx_frame env t t'" using t'(3) by (auto simp: idx_frame_def)
  then have "hashes_ok env t'" using h ok t'(4,6) by (auto simp: hashes_ok_def idx_frame_def)
  then show ?thesis using run t' fr by blast
qed

text \<open>The state between two iterations.\<close>

definition batch_ok :: "'db tree_env \<Rightarrow> int \<Rightarrow> 'db indexed_tree \<Rightarrow> batch_acc \<Rightarrow> bool" where
  "batch_ok env n t acc \<longleftrightarrow> idx_base env t \<and> hashes_ok env t \<and> it_getNumLeaves t True = n \<and>
     n \<le> 2 ^ tdepth (it_base t) \<and> batch_inv n (latest t True) (touched acc) (pending acc)"

text \<open>When a value has its low leaf among the earlier values \<open>B\<close> of the batch rather than in the tree, whose values are \<open>S\<close>: an earlier value
  lies below it, with no value of the tree between them.\<close>

definition below_pending :: "int set \<Rightarrow> int set \<Rightarrow> int \<Rightarrow> bool" where
  "below_pending S B v \<longleftrightarrow> (\<exists>u \<in> B. u \<noteq> 0 \<and> u < v \<and> (\<forall>x \<in> S. x \<le> u \<or> v \<le> x))"

text \<open>What a witness is: the empty one exactly for a zero and for a value whose low leaf is not yet in the tree; otherwise it shows a leaf of the
  intermediate tree whose pointers enclose the new value, with a sibling path that leads to the root of that tree.\<close>

definition witness_ok :: "'db tree_env \<Rightarrow> 'db indexed_tree \<Rightarrow> low_leaf_witness \<Rightarrow> int set \<Rightarrow> int set \<Rightarrow> int \<Rightarrow> low_leaf_witness \<Rightarrow> bool" where
  "witness_ok env t e S B v w \<longleftrightarrow>
     (if v = 0 \<or> below_pending S B v then w = e
      else ld_value (leafData w) < v \<and> (v < nextValue (leafData w) \<or> nextValue (leafData w) = 0) \<and>
        getLatestLeafDataCopy t (wit_index w) True = Some (leafData w) \<and>
        leaf_hash_ok env (Some (leafData w)) (getLatestValueAtIndex env (it_base t) (tdepth (it_base t)) (wit_index w) True) \<and>
        path_root (compress env) (getLatestValueAtIndex env (it_base t) (tdepth (it_base t)) (wit_index w) True)
          (wit_index w) (sp_data (siblingPath w)) = getRoot (it_base t) True)"

lemma below_pending_cong: "B - {0} = B' - {0} \<Longrightarrow> below_pending S B v = below_pending S B' v"
  unfolding below_pending_def by blast

lemma touched_below_pending:
  assumes inv: "batch_inv n L T P" and low: "low_index n L v p" and touch: "map_of T p = Some vs" "u \<in> set vs" "u < v"
  shows "below_pending (leaf_values n L) (pending_values P) v"
proof -
  obtain w where w: "vactive n L p w" "w < v" "\<And>j u. vactive n L j u \<Longrightarrow> u \<le> w \<or> v < u"
    using low unfolding low_index_def by blast
  have u: "low_index n L u p" "u \<in> pending_values P" using inv touch unfolding batch_inv_def by blast+
  then obtain w' where "vactive n L p w'" "w' < u" unfolding low_index_def by blast
  then have "w < u" using w(1) by (auto simp: vactive_def active_def)
  then have "x \<le> u \<or> v \<le> x" if "x \<in> leaf_values n L" for x using that w(3) unfolding leaf_values_vactive by fastforce
  moreover have "u \<noteq> 0" using u(2) by (simp add: pending_values_iff)
  ultimately show ?thesis unfolding below_pending_def using u(2) touch(3) by blast
qed

lemma untouched_not_below_pending:
  assumes inv: "batch_inv n L T P" and low: "low_index n L v p"
    and none: "\<And>vs u. map_of T p = Some vs \<Longrightarrow> u \<in> set vs \<Longrightarrow> \<not> u < v"
  shows "\<not> below_pending (leaf_values n L) (pending_values P) v"
proof
  assume "below_pending (leaf_values n L) (pending_values P) v"
  then obtain u where u: "u \<in> pending_values P" "u < v" "\<And>x. x \<in> leaf_values n L \<Longrightarrow> x \<le> u \<or> v \<le> x"
    unfolding below_pending_def by blast
  obtain w where w: "vactive n L p w" "w < v" "\<And>j u. vactive n L j u \<Longrightarrow> u \<le> w \<or> v < u"
    using low unfolding low_index_def by blast
  obtain k vs x where k: "low_index n L u k" "map_of T k = Some vs" "x \<in> set vs" "x \<le> u"
    using inv u(1) unfolding batch_inv_def by blast
  have "w \<in> leaf_values n L" using w(1) unfolding leaf_values_vactive by blast
  moreover have "u \<notin> leaf_values n L" using k(1) unfolding low_index_def leaf_values_vactive by fastforce
  ultimately have "w < u" using u(3)[of w] w(2) by (cases "w = u") auto
  then have "low_index n L u p" unfolding low_index_def using w u(2) by (metis less_trans not_le order.strict_trans1)
  then have "k = p" using low_index_unique[OF _ _ k(1)] inv unfolding batch_inv_def by blast
  then show False using none[of vs x] k u(2) by simp
qed

lemma getSiblingPath_ok:
  assumes "tree_inv env t" and "in_level (tdepth t) i"
  shows "\<exists>path. getSiblingPath env t i True = Inr path \<and> pathSize path = int (tdepth t) \<and>
    length (sp_data path) = tdepth t \<and>
    path_root (compress env) (getLatestValueAtIndex env t (tdepth t) i True) i (sp_data path) = getRoot t True"
  using path_root_sibling_loop[of env t True "tdepth t" i] assms
  by (simp add: getSiblingPath_def new_SiblingPath_def tree_inv_def tree_wf_def node_def)

text \<open>The three branches of an iteration.\<close>

definition step_goal ::
  "'db tree_env \<Rightarrow> low_leaf_witness \<Rightarrow> int \<Rightarrow> buffer \<Rightarrow> batch_acc \<Rightarrow> 'db indexed_tree \<Rightarrow> batch_acc \<Rightarrow> 'db indexed_tree \<Rightarrow> bool" where
  "step_goal env e n leaf acc t acc' t' \<longleftrightarrow>
     batch_step env e n (int (length (pending acc))) leaf acc t = (Inr (Some acc'), t') \<and>
     batch_ok env n t' acc' \<and> idx_frame env t t' \<and> length (pending acc') = length (pending acc) + 1 \<and>
     pending_values (pending acc') = {toBigIntBE leaf} - {0} \<union> pending_values (pending acc) \<and>
     leaf_values n (latest t' True) = leaf_values n (latest t True) \<and>
     map ld_value (pending acc') = map ld_value (pending acc) @ [toBigIntBE leaf] \<and>
     (\<forall>i. map_option ld_value (latest t' True i) = map_option ld_value (latest t True i)) \<and>
     (\<exists>w. lowLeavesWitnesses acc' = lowLeavesWitnesses acc @ [w] \<and>
        witness_ok env t e (leaf_values n (latest t True)) (pending_values (pending acc)) (toBigIntBE leaf) w)"

lemma batch_step_zero:
  assumes "batch_ok env n t acc" and "toBigIntBE leaf = 0"
  shows "\<exists>acc' t'. step_goal env e n leaf acc t acc' t'"
  using assms batch_inv_zero[of n "latest t True" "touched acc" "pending acc"]
  unfolding step_goal_def
  by (intro exI[of _ "acc\<lparr>pending := pending acc @ [zeroLeaf], lowLeavesWitnesses := lowLeavesWitnesses acc @ [e]\<rparr>"] exI[of _ t])
    (simp add: batch_step_def batch_ok_def pending_values_snoc zeroLeaf_def witness_ok_def)

lemma batch_step_find:
  assumes "batch_ok env n t acc" and "0 < v" and "v \<notin> leaf_values n (latest t True)"
  shows "\<exists>p ld. findIndexOfPreviousValue t v True = (p, False) \<and> active n (latest t True) p ld \<and>
    low_index n (latest t True) v p"
proof -
  obtain z where "latest t True 0 = Some z" "ld_value z = 0" "0 < n"
    using assms(1) unfolding batch_ok_def batch_inv_def by blast
  then show ?thesis using assms previous_absent[of n t True "latest t True" z v] by (simp add: batch_ok_def latest_def)
qed

lemma batch_step_pending:
  assumes ok: "batch_ok env n t acc" and v: "toBigIntBE leaf \<noteq> 0"
    and new: "toBigIntBE leaf \<notin> leaf_values n (latest t True) \<union> pending_values (pending acc)"
    and find: "findIndexOfPreviousValue t (toBigIntBE leaf) True = (p, False)"
    and low: "low_index n (latest t True) (toBigIntBE leaf) p"
    and touch: "map_of (touched acc) p = Some vs" "u \<in> set vs" "u < toBigIntBE leaf"
  shows "\<exists>acc' t'. step_goal env e n leaf acc t acc' t'"
proof -
  let ?v = "toBigIntBE leaf"
  let ?P = "pending_insert ?v (n + int (length (pending acc))) (pending acc)"
  have v0: "0 < ?v" using v toBigIntBE_nonneg[of leaf] by simp
  have inv: "batch_inv n (latest t True) (touched acc) (pending acc)" using ok by (simp add: batch_ok_def)
  have "list_ex (\<lambda>x. x < ?v) vs" using touch(2,3) by (auto simp: list_ex_iff)
  then have "batch_step env e n (int (length (pending acc))) leaf acc t =
      (Inr (Some (acc\<lparr>pending := ?P, lowLeavesWitnesses := lowLeavesWitnesses acc @ [e]\<rparr>)), t)"
    using v find touch(1) by (simp add: batch_step_def Let_def)
  moreover have "batch_inv n (latest t True) (touched acc) ?P" "length ?P = length (pending acc) + 1"
    "pending_values ?P = insert ?v (pending_values (pending acc))" "map ld_value ?P = map ld_value (pending acc) @ [?v]"
    using batch_inv_pending[OF inv low v0 new touch] by simp_all
  ultimately show ?thesis unfolding step_goal_def using ok v touched_below_pending[OF inv low touch]
    by (intro exI[of _ "acc\<lparr>pending := ?P, lowLeavesWitnesses := lowLeavesWitnesses acc @ [e]\<rparr>"] exI[of _ t])
      (simp add: batch_ok_def witness_ok_def insert_Diff_if)
qed

lemma batch_step_direct:
  assumes ok: "batch_ok env n t acc" and v: "toBigIntBE leaf \<noteq> 0"
    and new: "toBigIntBE leaf \<notin> leaf_values n (latest t True) \<union> pending_values (pending acc)"
    and find: "findIndexOfPreviousValue t (toBigIntBE leaf) True = (p, False)"
    and p: "active n (latest t True) p ld" and low: "low_index n (latest t True) (toBigIntBE leaf) p"
    and none: "\<And>vs u. map_of (touched acc) p = Some vs \<Longrightarrow> u \<in> set vs \<Longrightarrow> \<not> u < toBigIntBE leaf"
  shows "\<exists>acc' t'. step_goal env e n leaf acc t acc' t'"
proof -
  let ?v = "toBigIntBE leaf" and ?L = "latest t True" and ?P = "pending acc" and ?d = "tdepth (it_base t)"
  let ?y = "ld\<lparr>nextIndex := n + int (length ?P), nextValue := ?v\<rparr>"
  let ?x = "\<lparr>ld_value = ?v, nextIndex = nextIndex ld, nextValue = nextValue ld\<rparr>"
  define vs where "vs = (case map_of (touched acc) p of Some us \<Rightarrow> us @ [?v] | None \<Rightarrow> [?v])"
  have v0: "0 < ?v" using v toBigIntBE_nonneg[of leaf] by simp
  have base: "idx_base env t" "hashes_ok env t" "it_getNumLeaves t True = n" "n \<le> 2 ^ ?d"
    and inv: "batch_inv n ?L (touched acc) ?P" using ok by (simp_all add: batch_ok_def)
  have pL: "?L p = Some ld" "0 \<le> p" "p < n" using p by (auto simp: active_def)
  then have lev: "in_level ?d p" using base by (simp add: in_level_def)
  have ti: "tree_inv env (it_base t)" using base by (simp add: idx_base_def)
  obtain path where path: "getSiblingPath env (it_base t) p True = Inr path"
    "path_root (compress env) (getLatestValueAtIndex env (it_base t) ?d p True) p (sp_data path) = getRoot (it_base t) True"
    using getSiblingPath_ok[OF ti lev] by blast
  obtain t' where t': "it_updateLeaf env ?y p t = (Inr (), t')" "idx_base env t'" "idx_frame env t t'" "hashes_ok env t'"
    "latest t' True = ?L(p \<mapsto> ?y)" "it_getNumLeaves t' True = n"
    using it_updateLeaf_ok[OF base(1) lev base(2), of ?y] base(3) pL by auto
  let ?w = "\<lparr>leafData = ld, siblingPath = path, wit_index = p\<rparr>"
  let ?acc = "acc\<lparr>touched := AList.update p vs (touched acc), lowLeavesWitnesses := lowLeavesWitnesses acc @ [?w], pending := ?P @ [?x]\<rparr>"
  have "\<not> (case map_of (touched acc) p of Some vs \<Rightarrow> list_ex (\<lambda>v. v < ?v) vs | None \<Rightarrow> False)"
    using none by (auto simp: list_ex_iff split: option.splits)
  then have run: "batch_step env e n (int (length ?P)) leaf acc t = (Inr (Some ?acc), t')"
    using v find pL(1) path(1) t'(1) vs_def
    by (simp add: batch_step_def Let_def it_getSiblingPath_def latest_def jbind_def)
  have "batch_ok env n t' ?acc"
    using batch_inv_direct[OF inv low pL(1) v0 new none vs_def] t' base(4) by (simp add: batch_ok_def idx_frame_def)
  moreover have "witness_ok env t e (leaf_values n ?L) (pending_values ?P) ?v ?w"
  proof -
    have "is_low (n + int (length ?P)) (comb n ?L ?P) ?v p ld"
      by (rule direct_low[OF inv low pL(1) v0 new none])
    moreover have "node env (it_base t) True ?d p = getLatestValueAtIndex env (it_base t) ?d p True"
      using ti by (simp add: node_def tree_inv_def tree_wf_def)
    ultimately show ?thesis using path(2) base(2) lev pL(1) v untouched_not_below_pending[OF inv low none]
      by (auto simp: witness_ok_def is_low_def hashes_ok_def latest_def)
  qed
  moreover have "leaf_values n (latest t' True) = leaf_values n ?L"
    unfolding t'(5) leaf_values_vactive set_eq_iff using vactive_upd[of ?L p ld ?y n, OF pL(1)] by simp
  ultimately show ?thesis unfolding step_goal_def using run t'(3) v
    by (intro exI[of _ ?acc] exI[of _ t']) (simp add: pending_values_snoc insert_Diff_if t'(5) pL(1))
qed

lemma batch_step_ok:
  assumes ok: "batch_ok env n t acc"
    and new: "toBigIntBE leaf = 0 \<or> toBigIntBE leaf \<notin> leaf_values n (latest t True) \<union> pending_values (pending acc)"
  shows "\<exists>acc' t'. step_goal env e n leaf acc t acc' t'"
proof (cases "toBigIntBE leaf = 0")
  case True
  then show ?thesis by (rule batch_step_zero[OF ok])
next
  case False
  then have v: "0 < toBigIntBE leaf" and fresh: "toBigIntBE leaf \<notin> leaf_values n (latest t True) \<union> pending_values (pending acc)"
    using toBigIntBE_nonneg[of leaf] new by auto
  then obtain p ld where p: "findIndexOfPreviousValue t (toBigIntBE leaf) True = (p, False)"
    "active n (latest t True) p ld" "low_index n (latest t True) (toBigIntBE leaf) p"
    using batch_step_find[OF ok v] by blast
  show ?thesis
  proof (cases "\<exists>vs u. map_of (touched acc) p = Some vs \<and> u \<in> set vs \<and> u < toBigIntBE leaf")
    case True
    then show ?thesis using batch_step_pending[OF ok False fresh p(1,3)] by blast
  next
    case nt: False
    then show ?thesis using batch_step_direct[OF ok False fresh p] by blast
  qed
qed

text \<open>The states in which the iterations of the loop start.\<close>

fun batch_states ::
  "'db tree_env \<Rightarrow> low_leaf_witness \<Rightarrow> int \<Rightarrow> int \<Rightarrow> buffer list \<Rightarrow> batch_acc \<Rightarrow> 'db indexed_tree \<Rightarrow> 'db indexed_tree list" where
  "batch_states env e start i [] acc t = []"
| "batch_states env e start i (leaf # ls) acc t =
     t # (case batch_step env e start i leaf acc t of
            (Inr (Some acc'), t') \<Rightarrow> batch_states env e start (i + 1) ls acc' t' | _ \<Rightarrow> [])"

text \<open>The values a batch may contain: zeros, and values that are pairwise distinct and absent.\<close>

fun insertable :: "int set \<Rightarrow> buffer list \<Rightarrow> bool" where
  "insertable S [] = True"
| "insertable S (leaf # ls) =
     (if toBigIntBE leaf = 0 then insertable S ls
      else toBigIntBE leaf \<notin> S \<and> insertable (insert (toBigIntBE leaf) S) ls)"

lemma batch_loop_ok:
  assumes "batch_ok env n t acc" and "insertable (leaf_values n (latest t True) \<union> pending_values (pending acc)) ls"
    and "i = int (length (pending acc))"
  shows "\<exists>acc' t' ws. batch_loop env e n i ls acc t = (Inr (Some acc'), t') \<and> batch_ok env n t' acc' \<and> idx_frame env t t' \<and>
    length (pending acc') = length (pending acc) + length ls \<and>
    pending_values (pending acc') = toBigIntBE ` set ls - {0} \<union> pending_values (pending acc) \<and>
    leaf_values n (latest t' True) = leaf_values n (latest t True) \<and>
    map ld_value (pending acc') = map ld_value (pending acc) @ map toBigIntBE ls \<and>
    (\<forall>i. map_option ld_value (latest t' True i) = map_option ld_value (latest t True i)) \<and>
    lowLeavesWitnesses acc' = lowLeavesWitnesses acc @ ws \<and> length ws = length ls \<and> length (batch_states env e n i ls acc t) = length ls \<and>
    (\<forall>j < length ls. witness_ok env (batch_states env e n i ls acc t ! j) e (leaf_values n (latest t True))
       (pending_values (pending acc) \<union> toBigIntBE ` set (take j ls)) (toBigIntBE (ls ! j)) (ws ! j))"
  using assms
proof (induction ls arbitrary: i acc t)
  case Nil
  then show ?case by auto
next
  case (Cons leaf ls)
  have "toBigIntBE leaf = 0 \<or> toBigIntBE leaf \<notin> leaf_values n (latest t True) \<union> pending_values (pending acc)"
    using Cons.prems(2) by (auto split: if_splits)
  then obtain acc1 t1 where "step_goal env e n leaf acc t acc1 t1" using batch_step_ok[OF Cons.prems(1)] by blast
  then obtain w where step: "batch_step env e n i leaf acc t = (Inr (Some acc1), t1)" "batch_ok env n t1 acc1" "idx_frame env t t1"
    "length (pending acc1) = length (pending acc) + 1"
    "pending_values (pending acc1) = {toBigIntBE leaf} - {0} \<union> pending_values (pending acc)"
    "leaf_values n (latest t1 True) = leaf_values n (latest t True)"
    "lowLeavesWitnesses acc1 = lowLeavesWitnesses acc @ [w]"
    "witness_ok env t e (leaf_values n (latest t True)) (pending_values (pending acc)) (toBigIntBE leaf) w"
    "map ld_value (pending acc1) = map ld_value (pending acc) @ [toBigIntBE leaf]"
    "\<forall>i. map_option ld_value (latest t1 True i) = map_option ld_value (latest t True i)"
    using Cons.prems(3) unfolding step_goal_def by blast
  have "insertable (leaf_values n (latest t1 True) \<union> pending_values (pending acc1)) ls"
    using Cons.prems(2) step(5,6) by (auto split: if_splits)
  from Cons.IH[OF step(2) this, of "i + 1"] step(4) Cons.prems(3)
  obtain acc2 t2 ws where "batch_loop env e n (i + 1) ls acc1 t1 = (Inr (Some acc2), t2)" "batch_ok env n t2 acc2"
    "idx_frame env t1 t2" "length (pending acc2) = length (pending acc1) + length ls"
    "pending_values (pending acc2) = toBigIntBE ` set ls - {0} \<union> pending_values (pending acc1)"
    "leaf_values n (latest t2 True) = leaf_values n (latest t1 True)"
    "lowLeavesWitnesses acc2 = lowLeavesWitnesses acc1 @ ws" "length ws = length ls" "length (batch_states env e n (i + 1) ls acc1 t1) = length ls"
    "map ld_value (pending acc2) = map ld_value (pending acc1) @ map toBigIntBE ls"
    "\<forall>i. map_option ld_value (latest t2 True i) = map_option ld_value (latest t1 True i)"
    and ws: "\<forall>j < length ls. witness_ok env (batch_states env e n (i + 1) ls acc1 t1 ! j) e (leaf_values n (latest t1 True))
       (pending_values (pending acc1) \<union> toBigIntBE ` set (take j ls)) (toBigIntBE (ls ! j)) (ws ! j)"
    by auto
  moreover have "witness_ok env (batch_states env e n i (leaf # ls) acc t ! j) e (leaf_values n (latest t True))
       (pending_values (pending acc) \<union> toBigIntBE ` set (take j (leaf # ls))) (toBigIntBE ((leaf # ls) ! j)) ((w # ws) ! j)"
    if "j < length (leaf # ls)" for j
  proof (cases j)
    case 0
    then show ?thesis using step(8) by simp
  next
    case (Suc k)
    have "below_pending S (pending_values (pending acc1) \<union> toBigIntBE ` set (take k ls)) v =
      below_pending S (pending_values (pending acc) \<union> toBigIntBE ` set (take j (leaf # ls))) v" for S v
      unfolding step(5) Suc by (rule below_pending_cong) auto
    moreover have "k < length ls" using that Suc by simp
    ultimately show ?thesis using ws step(1,6) Suc by (auto simp: witness_ok_def)
  qed
  moreover have "toBigIntBE ` set ls - {0} \<union> ({toBigIntBE leaf} - {0} \<union> X) = insert (toBigIntBE leaf) (toBigIntBE ` set ls) - {0} \<union> X" for X
    by blast
  ultimately show ?case using step idx_frame_trans[OF step(3)]
    by (intro exI[of _ acc2] exI[of _ t2] exI[of _ "w # ws"]) (simp add: jbind_def)
qed

lemma insert_loop_ok:
  assumes "idx_base env t" and "hashes_ok env t" and "it_getNumLeaves t True \<le> n" "0 \<le> n"
    and "n + int (length P) \<le> 2 ^ tdepth (it_base t)" and "P = [] \<Longrightarrow> it_getNumLeaves t True = n"
  shows "\<exists>t'. insert_loop env n P t = (Inr (), t') \<and> idx_base env t' \<and> idx_frame env t t' \<and> hashes_ok env t' \<and>
    latest t' True = comb n (latest t True) P \<and> it_getNumLeaves t' True = n + int (length P)"
  using assms
proof (induction P arbitrary: n t)
  case Nil
  then show ?case by simp
next
  case (Cons x P)
  have "in_level (tdepth (it_base t)) n" using Cons.prems by (simp add: in_level_def)
  then obtain t1 where t1: "it_updateLeaf env x n t = (Inr (), t1)" "idx_base env t1" "idx_frame env t t1" "hashes_ok env t1"
    "latest t1 True = (latest t True)(n \<mapsto> x)" "it_getNumLeaves t1 True = n + 1"
    using it_updateLeaf_ok[OF Cons.prems(1) _ Cons.prems(2), of n x] Cons.prems(3) by auto
  have "n + 1 + int (length P) \<le> 2 ^ tdepth (it_base t1)" using Cons.prems(5) t1(3) by (simp add: idx_frame_def)
  then obtain t2 where "insert_loop env (n + 1) P t1 = (Inr (), t2)" "idx_base env t2" "idx_frame env t1 t2" "hashes_ok env t2"
    "latest t2 True = comb (n + 1) (latest t1 True) P" "it_getNumLeaves t2 True = n + 1 + int (length P)"
    using Cons.IH[OF t1(2,4), of "n + 1"] t1(6) Cons.prems(4) by auto
  moreover have "comb (n + 1) ((latest t True)(n \<mapsto> x)) P = comb n (latest t True) (x # P)"
  proof
    fix i
    have "n + 1 \<le> i \<Longrightarrow> nat (i - n) = Suc (nat (i - (n + 1)))" by simp
    then show "comb (n + 1) ((latest t True)(n \<mapsto> x)) P i = comb n (latest t True) (x # P) i"
      by (cases "i = n") (auto simp: comb_def)
  qed
  ultimately show ?case using t1 idx_frame_trans[OF t1(3)] by (intro exI[of _ t2]) (simp add: jbind_def)
qed

lemma subtree_path_ok:
  assumes "h \<le> tdepth (it_base t)"
  shows "\<exists>path. it_getSubtreeSiblingPath env h b t = Inr path \<and> length (sp_data path) = tdepth (it_base t) - h"
  using assms by (simp add: it_getSubtreeSiblingPath_def it_getSiblingPath_def getSiblingPath_def new_SiblingPath_def
      SiblingPath_getSubtreeSiblingPath_def)

text \<open>The state in which iteration \<open>j\<close> of the loop of \<open>batchInsert\<close> starts.\<close>

definition batch_state :: "'db tree_env \<Rightarrow> low_leaf_witness \<Rightarrow> buffer list \<Rightarrow> 'db indexed_tree \<Rightarrow> nat \<Rightarrow> 'db indexed_tree" where
  "batch_state env e ls t j =
     batch_states env e (it_getNumLeaves t True) 0 ls \<lparr>touched = [], lowLeavesWitnesses = [], pending = []\<rparr> t ! j"

theorem batchInsert_ok:
  assumes base: "idx_base env t" and ok: "idx_view_ok env True t"
    and room: "it_getNumLeaves t True + int (length ls) \<le> 2 ^ tdepth (it_base t)"
    and new: "insertable (idx_values t True) ls" and h: "subtreeHeight \<le> tdepth (it_base t)"
  shows "\<exists>t' e ws path. getEmptyLowLeafWitness treeHeight = Inr e \<and>
    batchInsert env ls treeHeight subtreeHeight t = (Inr (Some ws, path), t') \<and>
    idx_base env t' \<and> idx_view_ok env True t' \<and> idx_frame env t t' \<and>
    it_getNumLeaves t' True = it_getNumLeaves t True + int (length ls) \<and>
    idx_values t' True = toBigIntBE ` set ls \<union> idx_values t True \<and> length ws = length ls \<and>
    (\<forall>i < it_getNumLeaves t True. map_option ld_value (latest t' True i) = map_option ld_value (latest t True i)) \<and>
    (\<forall>j < length ls. map_option ld_value (latest t' True (it_getNumLeaves t True + int j)) = Some (toBigIntBE (ls ! j))) \<and>
    (\<forall>j < length ls. witness_ok env (batch_state env e ls t j) e (idx_values t True) (toBigIntBE ` set (take j ls)) (toBigIntBE (ls ! j)) (ws ! j))"
proof -
  let ?n = "it_getNumLeaves t True" and ?acc = "\<lparr>touched = [], lowLeavesWitnesses = [], pending = []\<rparr>"
  obtain e where e: "getEmptyLowLeafWitness treeHeight = Inr e"
    by (simp add: getEmptyLowLeafWitness_def toBufferBE_zero new_SiblingPath_def)
  have l: "linked ?n (latest t True)" and hs: "hashes_ok env t" and n: "?n \<le> 2 ^ tdepth (it_base t)"
    using ok by (simp_all add: idx_view_ok_def hashes_ok_def)
  have zero: "0 \<in> idx_values t True" unfolding idx_values_def by (rule zero_in_values[OF l])
  have "batch_inv ?n (latest t True) [] []"
    using l by (auto simp: batch_inv_def pending_values_def linked_def)
  then have "batch_ok env ?n t ?acc" using base hs n by (simp add: batch_ok_def)
  from batch_loop_ok[OF this, of ls 0 e] new
  obtain acc t1 ws where loop: "batch_loop env e ?n 0 ls ?acc t = (Inr (Some acc), t1)" "batch_ok env ?n t1 acc"
    "idx_frame env t t1" "length (pending acc) = length ls" "pending_values (pending acc) = toBigIntBE ` set ls - {0}"
    "leaf_values ?n (latest t1 True) = idx_values t True" "lowLeavesWitnesses acc = ws" "length ws = length ls"
    "map ld_value (pending acc) = map toBigIntBE ls"
    "\<forall>i. map_option ld_value (latest t1 True i) = map_option ld_value (latest t True i)"
    "\<forall>j < length ls. witness_ok env (batch_state env e ls t j) e (idx_values t True) (toBigIntBE ` set (take j ls)) (toBigIntBE (ls ! j)) (ws ! j)"
    by (auto simp: pending_values_def idx_values_def batch_state_def)
  have d: "tdepth (it_base t1) = tdepth (it_base t)" using loop(3) by (simp add: idx_frame_def)
  have t1: "idx_base env t1" "hashes_ok env t1" "it_getNumLeaves t1 True = ?n" "0 < ?n"
    and lk: "linked (?n + int (length ls)) (comb ?n (latest t1 True) (pending acc))"
    using loop(2,4) by (simp_all add: batch_ok_def batch_inv_def)
  obtain path where path: "it_getSubtreeSiblingPath env subtreeHeight True t1 = Inr path"
    using subtree_path_ok[of subtreeHeight t1 env True] h d by auto
  obtain t2 where t2: "insert_loop env ?n (pending acc) t1 = (Inr (), t2)" "idx_base env t2" "idx_frame env t1 t2"
    "hashes_ok env t2" "latest t2 True = comb ?n (latest t1 True) (pending acc)" "it_getNumLeaves t2 True = ?n + int (length ls)"
    using insert_loop_ok[OF t1(1,2), of ?n "pending acc"] t1(3,4) room d loop(4) by auto
  have run: "batchInsert env ls treeHeight subtreeHeight t = (Inr (Some ws, path), t2)"
    using e loop(1,7) path t2(1) by (simp add: batchInsert_def jbind_def Let_def)
  have "idx_view_ok env True t2"
    using lk t2 room t2(3) d by (simp add: idx_view_ok_def hashes_ok_def idx_frame_def)
  moreover have "idx_values t2 True = toBigIntBE ` set ls \<union> idx_values t True"
    using comb_values[OF t1(4), of "pending acc" "latest t1 True"] t2(5,6) loop(4,5,6) zero by (auto simp: idx_values_def)
  moreover have "map_option ld_value (latest t2 True i) = map_option ld_value (latest t True i)" if "i < ?n" for i
    using that loop(10) t2(5) by (simp add: comb_main)
  moreover have "map_option ld_value (latest t2 True (?n + int j)) = Some (toBigIntBE (ls ! j))" if "j < length ls" for j
    using that arg_cong[OF loop(9), of "\<lambda>xs. xs ! j"] loop(4) t2(5) by (simp add: comb_pending)
  ultimately show ?thesis using e run t2(2,6) idx_frame_trans[OF loop(3) t2(3)] loop(8,11) by blast
qed

end
