(* ===== verification/IndexedTreeProperties.thy ===== *)
theory IndexedTreeProperties
  imports BatchInsertion
begin

text \<open>
  The properties of the indexed tree (\<^verbatim>\<open>standard_indexed_tree.ts\<close>), stated on its operations: lookup, insertion
  one by one and in batches, non-membership, persistence and initialisation.
\<close>

lemma newIndexedTree_mem:
  assumes "1 \<le> d" "d \<le> 53" "p \<le> 256" "p \<le> 2 ^ d"
  obtains t where "newIndexedTree mem_env [] name d p = Inr t" "idx_inv mem_env t" "tdepth (it_base t) = d"
    "\<And>b. idx_values t b = {0..max 0 (p - 1)}" "\<And>b. it_getNumLeaves t b \<le> max 1 p"
  using newIndexedTree_ok[OF levelup_ok_mem no_nodes_mem assms] by blast

text \<open>\<open>findIndexOfPreviousValue\<close> on a valid tree: for a value in the tree it returns the index of its leaf and
  \<open>alreadyPresent\<close>; for an absent positive value it returns the index of the leaf with the largest smaller value,
  whose pointers enclose the value.\<close>

theorem find_previous_value:
  assumes "idx_view_ok env b t" and "0 < v"
  shows "\<exists>i ld. getLatestLeafDataCopy t i b = Some ld \<and> 0 \<le> i \<and> i < it_getNumLeaves t b \<and>
    findIndexOfPreviousValue t v b = (i, v \<in> idx_values t b) \<and>
    (if v \<in> idx_values t b then ld_value ld = v
     else ld_value ld = Max {w \<in> idx_values t b. w < v} \<and> (v < nextValue ld \<or> nextValue ld = 0))"
proof -
  have l: "linked (it_getNumLeaves t b) (latest t b)" using assms(1) by (simp add: idx_view_ok_def)
  show ?thesis
  proof (cases "v \<in> idx_values t b")
    case True
    then show ?thesis using previous_present[OF l refl latest_def assms(2)] unfolding idx_values_def
      by (fastforce simp: active_def latest_def)
  next
    case False
    then obtain p ld where p: "findIndexOfPreviousValue t v b = (p, False)" "is_low (it_getNumLeaves t b) (latest t b) v p ld"
      using previous_absent_linked[OF l refl latest_def assms(2)] unfolding idx_values_def by blast
    let ?S = "{w \<in> idx_values t b. w < v}"
    have "w \<le> ld_value ld" if "w \<in> ?S" for w
      using that is_low_maximal[OF l p(2)] by (fastforce simp: idx_values_def leaf_values_iff)
    moreover have "ld_value ld \<in> ?S" using p(2) leaf_valuesI[of "it_getNumLeaves t b" "latest t b" p ld] by (simp add: is_low_def idx_values_def)
    moreover have "finite ?S" using finite_leaf_values by (simp add: idx_values_def)
    ultimately have "Max ?S = ld_value ld" by (intro Max_eqI) auto
    then show ?thesis using p False by (auto simp: is_low_def active_def latest_def)
  qed
qed

theorem find_previous_value_witness:
  "\<exists>t ld i. newIndexedTree mem_env [] ''n'' 4 6 = Inr t \<and> findIndexOfPreviousValue t 9 True = (i, False) \<and>
    getLatestLeafDataCopy t i True = Some ld \<and> ld_value ld = 5"
proof -
  obtain t where t: "newIndexedTree mem_env [] ''n'' 4 6 = Inr t" "idx_inv mem_env t" "\<And>b. idx_values t b = {0..max 0 (6 - 1)}"
    by (rule newIndexedTree_mem[of 4 6 "''n''"]) simp_all
  have v: "idx_values t True = {0..5}" using t(3)[of True] by simp
  have m: "Max {w \<in> idx_values t True. w < 9} = 5" unfolding v
  proof (rule Max_eqI)
    show "finite {w \<in> {0..5 :: int}. w < 9}" by (rule finite_subset[of _ "{0..5}"]) blast+
  qed simp_all
  have ok: "idx_view_ok mem_env True t" and nine: "0 < (9 :: int)" using t(2) by (simp_all add: idx_inv_def)
  obtain i ld where "findIndexOfPreviousValue t 9 True = (i, 9 \<in> idx_values t True)"
    "getLatestLeafDataCopy t i True = Some ld"
    "if 9 \<in> idx_values t True then ld_value ld = 9
     else ld_value ld = Max {w \<in> idx_values t True. w < 9} \<and> (9 < nextValue ld \<or> nextValue ld = 0)"
    using find_previous_value[OF ok nine] by blast
  moreover have "9 \<notin> idx_values t True" using v by simp
  ultimately have "findIndexOfPreviousValue t 9 True = (i, False) \<and> getLatestLeafDataCopy t i True = Some ld \<and> ld_value ld = 5"
    using m by simp
  then show ?thesis using t(1) by blast
qed

text \<open>A low leaf is a proof of non-membership: in a valid tree, for every positive value there is a used leaf with a
  smaller value whose next value is larger (or which is the last) if and only if the value is not in the tree.\<close>

theorem low_leaf_proves_absence:
  assumes "idx_view_ok env b t" and "0 < v"
  shows "(\<exists>i ld. 0 \<le> i \<and> i < it_getNumLeaves t b \<and> getLatestLeafDataCopy t i b = Some ld \<and> (i = 0 \<or> ld_value ld \<noteq> 0) \<and>
      ld_value ld < v \<and> (v < nextValue ld \<or> nextValue ld = 0)) \<longleftrightarrow> v \<notin> idx_values t b"
proof -
  have l: "linked (it_getNumLeaves t b) (latest t b)" using assms(1) by (simp add: idx_view_ok_def)
  have "(\<exists>i ld. is_low (it_getNumLeaves t b) (latest t b) v i ld) \<longleftrightarrow> v \<notin> idx_values t b"
    using is_low_exists[OF l assms(2)] is_low_absent[OF l] by (auto simp: idx_values_def)
  then show ?thesis by (simp add: is_low_def active_def latest_def conj_assoc)
qed

theorem low_leaf_proves_absence_witness:
  "\<exists>t. newIndexedTree mem_env [] ''n'' 3 4 = Inr t \<and>
    \<not> (\<exists>i ld. 0 \<le> i \<and> i < it_getNumLeaves t True \<and> getLatestLeafDataCopy t i True = Some ld \<and> (i = 0 \<or> ld_value ld \<noteq> 0) \<and>
      ld_value ld < 2 \<and> (2 < nextValue ld \<or> nextValue ld = 0))"
proof -
  obtain t where t: "newIndexedTree mem_env [] ''n'' 3 4 = Inr t" "idx_inv mem_env t" "\<And>b. idx_values t b = {0..max 0 (4 - 1)}"
    by (rule newIndexedTree_mem[of 3 4 "''n''"]) simp_all
  then show ?thesis using low_leaf_proves_absence[of mem_env True t 2] by (auto simp: idx_inv_def)
qed

text \<open>Following \<open>nextIndex\<close> from leaf 0 visits the values of the tree in increasing order, each exactly once, in the
  committed and in the uncommitted view.\<close>

theorem pointers_enumerate_values:
  assumes "idx_inv env t"
  shows "chain (nat (it_getNumLeaves t b)) (\<lambda>i. getLatestLeafDataCopy t i b) 0 = sorted_list_of_set (idx_values t b)"
  using assms chain_sorted[of "it_getNumLeaves t b" "latest t b"]
  by (simp add: idx_inv_def idx_view_ok_def idx_values_def latest_def)

theorem pointers_enumerate_values_witness:
  "\<exists>t. newIndexedTree mem_env [] ''n'' 3 4 = Inr t \<and>
    chain (nat (it_getNumLeaves t True)) (\<lambda>i. getLatestLeafDataCopy t i True) 0 = [0, 1, 2, 3]"
proof -
  obtain t where t: "newIndexedTree mem_env [] ''n'' 3 4 = Inr t" "idx_inv mem_env t" "\<And>b. idx_values t b = {0..max 0 (4 - 1)}"
    by (rule newIndexedTree_mem[of 3 4 "''n''"]) simp_all
  have "{0..max 0 (4 - 1)} = set [0, 1, 2, 3 :: int]" by auto
  then have "sorted_list_of_set (idx_values t True) = sort (remdups [0, 1, 2, 3])"
    using t(3)[of True] sorted_list_of_set_sort_remdups by metis
  then show ?thesis using pointers_enumerate_values[OF t(2), of True] t(1) by simp
qed

text \<open>C18. Appending: while there is room for all of them, \<open>appendLeaves\<close> succeeds on any list of leaves, keeps the sorted
  linked list and its hashes valid, and the values of the tree become the old ones and the appended ones; the
  committed view does not change until a commit.\<close>

theorem append_leaves_inserts:
  assumes "idx_inv env t" and "it_getNumLeaves t True + int (length ls) \<le> 2 ^ tdepth (it_base t)"
  shows "\<exists>t'. it_appendLeaves env ls t = (Inr (), t') \<and> idx_inv env t' \<and>
    idx_values t' True = toBigIntBE ` set ls \<union> idx_values t True \<and> idx_values t' False = idx_values t False \<and>
    it_getNumLeaves t' True \<le> it_getNumLeaves t True + int (length ls)"
proof -
  obtain t' where t': "it_appendLeaves env ls t = (Inr (), t')" "idx_base env t'" "idx_view_ok env True t'" "idx_frame env t t'"
    "it_getNumLeaves t' True \<le> it_getNumLeaves t True + int (length ls)"
    "idx_values t' True = toBigIntBE ` set ls \<union> idx_values t True"
    using appendLeaves_correct[OF _ _ assms(2), of env] assms(1) by (auto simp: idx_inv_def)
  moreover have "idx_inv env t'"
    using assms(1) t' idx_frame_committed(1)[OF t'(4)] by (simp add: idx_inv_def all_bool_eq)
  moreover have "idx_values t' False = idx_values t False"
    using t'(4) idx_frame_committed(2)[OF t'(4)] by (simp add: idx_values_def idx_frame_def)
  ultimately show ?thesis by blast
qed

theorem append_leaves_inserts_witness:
  "\<exists>t t'. newIndexedTree mem_env [] ''n'' 3 4 = Inr t \<and> it_appendLeaves mem_env [[9], [7]] t = (Inr (), t') \<and>
    idx_values t' True = {0, 1, 2, 3, 7, 9}"
proof -
  obtain t where t: "newIndexedTree mem_env [] ''n'' 3 4 = Inr t" "idx_inv mem_env t" "tdepth (it_base t) = 3"
      "\<And>b. idx_values t b = {0..max 0 (4 - 1)}" "\<And>b. it_getNumLeaves t b \<le> max 1 4"
    by (rule newIndexedTree_mem[of 3 4 "''n''"]) simp_all
  have "toBigIntBE [9] = 9" "toBigIntBE [7] = 7" by (simp_all add: toBigIntBE_be_val be_val_def digits_val_def)
  moreover have "{0..max 0 (4 - 1)} = {0, 1, 2, 3 :: int}" by auto
  ultimately show ?thesis using append_leaves_inserts[OF t(2), of "[[9], [7]]"] t(1,3) t(4)[of True] t(5)[of True] by auto
qed

text \<open>C1. Batch insertion: for leaves that are zero or pairwise distinct and absent, with room for them, \<open>batchInsert\<close> succeeds; afterwards the leaves
  form a valid sorted linked list with their hashes in the Merkle tree, the old leaves have kept their values, the leaf at position \<open>j\<close> of the
  batch is stored \<open>j\<close> places after the old leaves, and nothing else is. The result has a witness per leaf. It is the empty one exactly for a zero and
  for a value above an earlier value of the batch with no value of the tree between them; otherwise it is a leaf of the state its iteration started
  in, whose pointers enclose the new value and whose sibling path leads to that state's root.\<close>

theorem batch_insert_correct:
  assumes "idx_inv env t" and "it_getNumLeaves t True + int (length ls) \<le> 2 ^ tdepth (it_base t)"
    and "insertable (idx_values t True) ls" and "subtreeHeight \<le> tdepth (it_base t)"
  shows "\<exists>t' e ws path. getEmptyLowLeafWitness treeHeight = Inr e \<and>
    batchInsert env ls treeHeight subtreeHeight t = (Inr (Some ws, path), t') \<and> idx_inv env t' \<and>
    it_getNumLeaves t' True = it_getNumLeaves t True + int (length ls) \<and>
    (\<forall>i < it_getNumLeaves t True. map_option ld_value (latest t' True i) = map_option ld_value (latest t True i)) \<and>
    (\<forall>j < length ls. map_option ld_value (latest t' True (it_getNumLeaves t True + int j)) = Some (toBigIntBE (ls ! j))) \<and>
    idx_values t' True = toBigIntBE ` set ls \<union> idx_values t True \<and> idx_values t' False = idx_values t False \<and>
    length ws = length ls \<and>
    (\<forall>j < length ls. witness_ok env (batch_state env e ls t j) e (idx_values t True) (toBigIntBE ` set (take j ls)) (toBigIntBE (ls ! j)) (ws ! j))"
proof -
  obtain t' e ws path where r: "getEmptyLowLeafWitness treeHeight = Inr e"
    "batchInsert env ls treeHeight subtreeHeight t = (Inr (Some ws, path), t')"
    "idx_base env t'" "idx_view_ok env True t'" "idx_frame env t t'"
    "it_getNumLeaves t' True = it_getNumLeaves t True + int (length ls)"
    "idx_values t' True = toBigIntBE ` set ls \<union> idx_values t True" "length ws = length ls"
    "\<forall>i < it_getNumLeaves t True. map_option ld_value (latest t' True i) = map_option ld_value (latest t True i)"
    "\<forall>j < length ls. map_option ld_value (latest t' True (it_getNumLeaves t True + int j)) = Some (toBigIntBE (ls ! j))"
    "\<forall>j < length ls. witness_ok env (batch_state env e ls t j) e (idx_values t True) (toBigIntBE ` set (take j ls)) (toBigIntBE (ls ! j)) (ws ! j)"
    using batchInsert_ok[OF _ _ assms(2-4), of env treeHeight] assms(1) unfolding idx_inv_def by blast
  moreover have "idx_inv env t'"
    using assms(1) r idx_frame_committed(1)[OF r(5)] by (simp add: idx_inv_def all_bool_eq)
  moreover have "idx_values t' False = idx_values t False"
    using r(5) idx_frame_committed(2)[OF r(5)] by (simp add: idx_values_def idx_frame_def)
  ultimately show ?thesis by blast
qed

theorem batch_insert_correct_witness:
  "\<exists>t t' e ws path. newIndexedTree mem_env [] ''n'' 4 4 = Inr t \<and> getEmptyLowLeafWitness 3 = Inr e \<and>
    batchInsert mem_env [[20], [0], [19], [22]] 3 1 t = (Inr (Some ws, path), t') \<and>
    idx_values t' True = {0, 1, 2, 3, 19, 20, 22} \<and> length ws = 4 \<and>
    map_option ld_value (latest t' True (it_getNumLeaves t True + 2)) = Some 19 \<and> ld_value (leafData (ws ! 2)) < 19 \<and> ws ! 3 = e"
proof -
  obtain t where t: "newIndexedTree mem_env [] ''n'' 4 4 = Inr t" "idx_inv mem_env t" "tdepth (it_base t) = 4"
      "\<And>b. idx_values t b = {0..max 0 (4 - 1)}" "\<And>b. it_getNumLeaves t b \<le> max 1 4"
    by (rule newIndexedTree_mem[of 4 4 "''n''"]) simp_all
  have v: "toBigIntBE [20] = 20" "toBigIntBE [0] = 0" "toBigIntBE [19] = 19" "toBigIntBE [22] = 22"
    by (simp_all add: toBigIntBE_be_val be_val_def digits_val_def)
  have s: "{0..max 0 (4 - 1)} = {0, 1, 2, 3 :: int}" by auto
  define ls where "ls = [[20], [0], [19], [22 :: byte]]"
  have ins: "insertable (idx_values t True) ls" using t(4)[of True] v by (simp add: ls_def)
  have room: "it_getNumLeaves t True + int (length ls) \<le> 2 ^ tdepth (it_base t)" using t(3) t(5)[of True] by (simp add: ls_def)
  have h: "1 \<le> tdepth (it_base t)" using t(3) by simp
  obtain t' e ws path where r: "getEmptyLowLeafWitness 3 = Inr e" "batchInsert mem_env ls 3 1 t = (Inr (Some ws, path), t')"
    "idx_values t' True = toBigIntBE ` set ls \<union> idx_values t True" "length ws = length ls"
    "\<forall>j < length ls. map_option ld_value (latest t' True (it_getNumLeaves t True + int j)) = Some (toBigIntBE (ls ! j))"
    "\<forall>j < length ls. witness_ok mem_env (batch_state mem_env e ls t j) e (idx_values t True) (toBigIntBE ` set (take j ls)) (toBigIntBE (ls ! j)) (ws ! j)"
    using batch_insert_correct[OF t(2) room ins h, of 3] by (elim exE conjE) (rule that)
  have low: "\<not> below_pending (idx_values t True) {toBigIntBE [20], toBigIntBE [0]} (toBigIntBE [19])"
    "below_pending (idx_values t True) {toBigIntBE [20], toBigIntBE [0], toBigIntBE [19]} (toBigIntBE [22])"
    using t(4)[of True] s v by (auto simp: below_pending_def)
  have "map_option ld_value (latest t' True (it_getNumLeaves t True + 2)) = Some 19" using r(5)[rule_format, of 2] v(3) by (simp add: ls_def)
  moreover have "ld_value (leafData (ws ! 2)) < 19" using r(6)[rule_format, of 2] low(1) v(3) unfolding ls_def witness_ok_def by simp
  moreover have "ws ! 3 = e" using r(6)[rule_format, of 3] low(2) unfolding ls_def witness_ok_def by simp
  moreover have "idx_values t' True = {0, 1, 2, 3, 19, 20, 22}" using r(3) t(4)[of True] s v by (auto simp: ls_def)
  ultimately show ?thesis using r(1,2,4) t(1) unfolding ls_def by auto
qed

text \<open>Commit and rollback of the indexed tree: a commit succeeds and makes the pending leaf records, count and nodes
  the committed ones; a rollback returns every reader to the committed ones.\<close>

theorem indexed_commit_rollback:
  assumes "idx_inv env t"
  shows "\<exists>t'. it_commit env t = (Inr (), t') \<and> idx_inv env t' \<and> (\<forall>b. idx_state env b t' = idx_state env True t) \<and>
    idx_inv env (it_rollback t) \<and> (\<forall>b. idx_state env b (it_rollback t) = idx_state env False t)"
proof -
  obtain t' where "it_commit env t = (Inr (), t')" using it_commit_ok[of env t] assms by (auto simp: idx_inv_def)
  then show ?thesis
    using idx_tx.commit_invar[OF assms] idx_tx.committed_commit[OF assms] idx_tx.pending_commit[OF assms]
      idx_tx.rollback_invar[OF assms] idx_tx.committed_rollback[OF assms] idx_tx.pending_rollback[OF assms]
    by (simp add: all_bool_eq)
qed

theorem indexed_commit_rollback_witness:
  "\<exists>t t'. newIndexedTree mem_env [] ''n'' 3 4 = Inr t \<and> it_commit mem_env t = (Inr (), t') \<and> idx_inv mem_env t'"
proof -
  obtain t where t: "newIndexedTree mem_env [] ''n'' 3 4 = Inr t" "idx_inv mem_env t"
    by (rule newIndexedTree_mem[of 3 4 "''n''"]) simp_all
  then show ?thesis using indexed_commit_rollback[OF t(2)] by blast
qed

text \<open>Initialisation: \<open>newTree\<close> of an indexed tree over a store without its keys, prefilled with at most 256 leaves that
  fit, gives a valid tree holding exactly the values \<open>0\<close> to \<open>prefilledSize - 1\<close>, committed.\<close>

theorem new_indexed_tree_prefilled:
  assumes "levelup_ok env" and "no_nodes env db name" and "1 \<le> depth" "depth \<le> 53" and "p \<le> 256" "p \<le> 2 ^ depth"
  shows "\<exists>t. newIndexedTree env db name depth p = Inr t \<and> idx_inv env t \<and>
    (\<forall>b. idx_values t b = {0..max 0 (p - 1)} \<and> it_getNumLeaves t b \<le> max 1 p)"
  using newIndexedTree_ok[OF assms] by blast

theorem new_indexed_tree_prefilled_witness:
  "\<exists>t. newIndexedTree mem_env [] ''n'' 20 8 = Inr t \<and> idx_values t False = {0..7}"
  using new_indexed_tree_prefilled[OF levelup_ok_mem no_nodes_mem, of 20 8 "''n''"] by auto

text \<open>The encoding of a leaf record is read back: \<open>decodeTreeValue\<close> inverts \<open>encodeTreeValue\<close> on records of 256-bit
  numbers.\<close>

theorem tree_value_roundtrip:
  assumes "0 \<le> ld_value l" "ld_value l < 2 ^ 256" and "0 \<le> nextIndex l" "nextIndex l < 2 ^ 256"
    and "0 \<le> nextValue l" "nextValue l < 2 ^ 256"
  shows "\<exists>buf. encodeTreeValue l = Inr buf \<and> length buf = 96 \<and> decodeTreeValue buf = l"
proof -
  have fit: "toBufferBE x 32 = Inr (be_bytes 32 x)" "be_val (be_bytes 32 x) = x" if "0 \<le> x" "x < 2 ^ 256" for x
    using toBufferBE_fit[of x 32] be_val_be_bytes[of x 32] that by simp_all
  have "encodeTreeValue l = Inr (be_bytes 32 (ld_value l) @ be_bytes 32 (nextIndex l) @ be_bytes 32 (nextValue l))"
    using fit assms by (simp add: encodeTreeValue_def)
  then show ?thesis
    using fit(2)[OF assms(1,2)] fit(2)[OF assms(3,4)] fit(2)[OF assms(5,6)]
    by (simp add: decodeTreeValue_def subarray_def length_be_bytes toBigIntBE_be_val)
qed

theorem tree_value_roundtrip_witness:
  "\<exists>buf. encodeTreeValue \<lparr>ld_value = 12, nextIndex = 3, nextValue = 40\<rparr> = Inr buf \<and>
    decodeTreeValue buf = \<lparr>ld_value = 12, nextIndex = 3, nextValue = 40\<rparr>"
  using tree_value_roundtrip[of "\<lparr>ld_value = 12, nextIndex = 3, nextValue = 40\<rparr>"] by auto

text \<open>A reloaded indexed tree has no leaves: every key the read stream of \<open>initFromDb\<close> can deliver contains a colon,
  so that \<open>Number(key)\<close> is \<open>NaN\<close> and no leaf is restored, although the root and the size are.\<close>

theorem reload_loses_leaves:
  assumes "\<forall>(key, v) \<in> set entries. CHR '':'' \<in> set key" and "loadIndexedTree env db name entries = Inr t"
  shows "getLatestLeafDataCopy t i b = None"
proof -
  have "fold (\<lambda>(key, v) arr. case key_Number key of None \<Rightarrow> arr | Some index \<Rightarrow> js_set arr index (decodeTreeValue v))
      entries a = a" for a
    using assms(1)
  proof (induction entries)
    case (Cons x xs)
    obtain k v where x: "x = (k, v)" by force
    then have "key_Number k = None" using Cons.prems by (fastforce simp: key_Number_def list_all_iff)
    then show ?case using Cons x by simp
  qed simp
  then show ?thesis using assms(2)
    by (auto simp: loadIndexedTree_def it_initFromDb_def getLatestLeafDataCopy_def empty_array_def)
qed

theorem reload_loses_leaves_witness:
  "\<exists>db t. loadIndexedTree mem_env db ''t'' [(indexToKeyLeaf ''t'' 2, replicate 96 1)] = Inr t \<and>
    getLatestLeafDataCopy t 2 True = None"
proof -
  obtain b where b: "newTree mem_env [] ''t'' 2 = Inr b" "tree_inv mem_env b" "tname b = ''t''" "\<And>c. getNumLeaves b c = 0"
    by (rule newTree_mem[of 2 "''t''"]) (simp_all add: MAX_DEPTH_def)
  then obtain b' where "loadTree mem_env (tdb b') ''t'' = Inr b'"
    using loadTree_after_commit[OF b(2) mem_root_length[OF b(2)]] by auto
  then obtain t where "loadIndexedTree mem_env (tdb b') ''t'' [(indexToKeyLeaf ''t'' 2, replicate 96 1)] = Inr t"
    by (simp add: loadIndexedTree_def)
  moreover from this have "getLatestLeafDataCopy t 2 True = None"
    by (rule reload_loses_leaves[rotated]) (simp add: indexToKeyLeaf_def)
  ultimately show ?thesis by blast
qed

text \<open>\<open>updateLeaf\<close> encodes a record of value 0 by zero bytes whatever its pointers, so when a batch insertion updates the
  pointers of leaf 0 the Merkle leaf is the empty one and does not depend on the pointers.\<close>

theorem update_leaf_zero_value_encoding:
  assumes "idx_base env t" and "ld_value leaf = 0"
  shows "\<exists>t'. it_updateLeaf env leaf 0 t = (Inr (), t') \<and> getLatestLeafDataCopy t' 0 True = Some leaf \<and>
    getLatestValueAtIndex env (it_base t') (tdepth (it_base t')) 0 True = INITIAL_LEAF"
proof -
  have lev: "in_level (tdepth (it_base t)) 0" by (simp add: in_level_def)
  have d: "tdepth (it_base t) \<noteq> 0" using assms(1) by (simp add: idx_base_def tree_inv_def tree_wf_def)
  let ?t1 = "cachedLeaves_put 0 leaf t"
  obtain t' where t': "it_updateLeaf_hash env INITIAL_LEAF 0 ?t1 = (Inr (), t')" "idx_frame env ?t1 t'"
    "latest t' True = latest ?t1 True" "node env (it_base t') True (tdepth (it_base t)) 0 = INITIAL_LEAF"
    using updateLeaf_hash_ok[of env ?t1 0 INITIAL_LEAF] assms(1) lev by auto
  have "toBufferBE 0 32 = Inr INITIAL_LEAF" by (simp add: toBufferBE_zero INITIAL_LEAF_def)
  then have "it_updateLeaf env leaf 0 t = (Inr (), t')" using assms(2) t'(1) by (simp add: it_updateLeaf_def jbind_def)
  moreover have "getLatestLeafDataCopy t' 0 True = Some leaf"
    using fun_cong[OF t'(3), of 0] by (simp add: latest_put) (simp add: latest_def)
  ultimately show ?thesis using t'(2,4) d by (simp add: idx_frame_def node_def)
qed

theorem update_leaf_zero_value_encoding_witness:
  "\<exists>t t'. newIndexedTree mem_env [] ''n'' 3 1 = Inr t \<and>
    it_updateLeaf mem_env \<lparr>ld_value = 0, nextIndex = 1, nextValue = 77\<rparr> 0 t = (Inr (), t') \<and>
    getLatestValueAtIndex mem_env (it_base t') (tdepth (it_base t')) 0 True = INITIAL_LEAF"
proof -
  obtain t where t: "newIndexedTree mem_env [] ''n'' 3 1 = Inr t" "idx_inv mem_env t"
    by (rule newIndexedTree_mem[of 3 1 "''n''"]) simp_all
  then show ?thesis
    using update_leaf_zero_value_encoding[of mem_env t "\<lparr>ld_value = 0, nextIndex = 1, nextValue = 77\<rparr>"]
    by (auto simp: idx_inv_def)
qed

end
