(* ===== verification/CodecProperties.thy ===== *)
theory CodecProperties
  imports SiblingPaths
begin

text \<open>
  The properties of the byte codecs: big integers, the serializer and deserializer, the buffer reader, field
  elements, addresses and sibling paths.
\<close>

text \<open>Big integers: \<open>toBufferBE\<close> and \<open>toBufferLE\<close> write a number of at most \<open>w\<close> bytes into exactly \<open>w\<close> bytes from which
  \<open>toBigIntBE\<close> and \<open>toBigIntLE\<close> read it back, and every buffer is the big-endian encoding of the number it reads as.\<close>

theorem bigint_buffer_roundtrip:
  assumes "0 \<le> n" and "n < 256 ^ w"
  shows "(\<exists>b. toBufferBE n w = Inr b \<and> length b = w \<and> toBigIntBE b = n) \<and>
    length (toBufferLE n w) = w \<and> toBigIntLE (toBufferLE n w) = n \<and>
    (\<forall>b. toBufferBE (toBigIntBE b) (length b) = Inr b)"
  using assms by (simp add: toBufferBE_fit toBufferLE_fit toBigIntBE_be_val toBigIntLE_be_val be_val_be_bytes toBufferBE_buf)

theorem bigint_buffer_roundtrip_witness:
  "\<exists>b. toBufferBE 70000 4 = Inr b \<and> length b = 4 \<and> toBigIntBE b = 70000"
  using bigint_buffer_roundtrip[of 70000 4] by simp

text \<open>A number too large for the width is not rejected: \<open>toBufferBE\<close> returns without an error for every number and
  width, and for a number of more than \<open>w\<close> bytes the bytes read back as a different number.\<close>

theorem oversize_number_is_truncated:
  assumes "256 ^ w \<le> n"
  shows "\<exists>b. toBufferBE n w = Inr b \<and> toBigIntBE b \<noteq> n"
proof -
  obtain b where b: "toBufferBE n w = Inr b" "length b \<le> w" using toBufferBE_total by blast
  have "be_val b < 256 ^ length b" by (rule be_val_less)
  also have "\<dots> \<le> 256 ^ w" using b(2) by (intro power_increasing) simp_all
  finally show ?thesis using b(1) assms by (auto simp: toBigIntBE_be_val)
qed

theorem oversize_number_is_truncated_witness: "\<exists>b. toBufferBE 65536 2 = Inr b \<and> toBigIntBE b \<noteq> 65536"
  using oversize_number_is_truncated[of 2 65536] by simp

text \<open>A serializer session: any sequence of booleans, unsigned and signed 32-bit integers, 256-bit integers, vectors and
  dates within their ranges is written without an error, and the matching sequence of deserializer calls on the
  resulting buffer returns the same values.\<close>

theorem serializer_session_roundtrip:
  assumes "\<forall>i \<in> set items. item_ok i"
  shows "\<exists>s. jfor write_item items new_Serializer = (Inr (), s) \<and>
    fst (read_items items (new_Deserializer (Serializer_getBuffer s) 0)) = Inr items"
proof -
  obtain bss where w: "\<And>s. jfor write_item items s = (Inr (), s\<lparr>ser_buf := ser_buf s @ bss\<rparr>)"
    and r: "\<And>pre post. read_items items \<lparr>des_buf = pre @ concat bss @ post, des_offset = length pre\<rparr> =
      (Inr items, \<lparr>des_buf = pre @ concat bss @ post, des_offset = length (pre @ concat bss)\<rparr>)"
    using session_roundtrip_gen[OF assms] by blast
  show ?thesis using r[of "[]" "[]"]
    by (simp add: w new_Serializer_def Serializer_getBuffer_def new_Deserializer_def)
qed

theorem serializer_session_roundtrip_witness:
  "\<exists>s. jfor write_item [SBool True, SInt32 (-5), SVector [1, 2], SBigInt 99] new_Serializer = (Inr (), s) \<and>
    fst (read_items [SBool True, SInt32 (-5), SVector [1, 2], SBigInt 99] (new_Deserializer (Serializer_getBuffer s) 0)) =
      Inr [SBool True, SInt32 (-5), SVector [1, 2], SBigInt 99]"
  using serializer_session_roundtrip[of "[SBool True, SInt32 (-5), SVector [1, 2], SBigInt 99]"] by simp

text \<open>Vectors of field elements: the length-prefixed concatenation of the \<open>toBuffer\<close> of field elements is read back by
  \<open>readVector(Fr)\<close> at any position of a longer buffer, leaving the reader just behind it.\<close>

theorem field_vector_roundtrip:
  assumes "\<forall>x \<in> set xs. 0 \<le> fr_value x \<and> fr_value x < 2 ^ 256" and "int (length xs) < 2 ^ 32"
  shows "\<exists>bss. rtraverse Fr_toBuffer xs = Inr bss \<and>
    readVector Fr_fromBuffer \<lparr>br_buffer = pre @ (be_bytes 4 (int (length xs)) @ concat bss) @ post, br_index = length pre\<rparr> =
      (Inr xs, \<lparr>br_buffer = pre @ (be_bytes 4 (int (length xs)) @ concat bss) @ post,
        br_index = length pre + 4 + length (concat bss)\<rparr>)"
proof -
  have v: "\<forall>x \<in> set xs. 0 \<le> fr_value x \<and> fr_value x < 256 ^ 32" using assms(1) by simp
  obtain bss where bss: "rtraverse Fr_toBuffer xs = Inr bss"
    using rtraverse_total[of xs Fr_toBuffer] v fr_codec.to_total by blast
  show ?thesis using bss readsD[OF fr_codec.vector_reads[OF v bss assms(2)], of pre post] by auto
qed

theorem field_vector_roundtrip_witness:
  "\<exists>bss. rtraverse Fr_toBuffer [new_Fr 3, new_Fr 77] = Inr bss \<and>
    fst (readVector Fr_fromBuffer \<lparr>br_buffer = be_bytes 4 2 @ concat bss, br_index = 0\<rparr>) = Inr [new_Fr 3, new_Fr 77]"
  using field_vector_roundtrip[of "[new_Fr 3, new_Fr 77]" "[]" "[]"] by (auto simp: new_Fr_def)

text \<open>Addresses and points: reading back the bytes of a valid \<open>AztecAddress\<close> or \<open>Point\<close> gives the same object.\<close>

theorem address_point_roundtrip:
  assumes "length (aa_buffer a) = 32" "be_val (aa_buffer a) \<le> AztecAddress_MAX_VALUE" and "new_Point (pt_buffer p) = Inr p"
    "length (pt_buffer p) = 64"
  shows "fst (AztecAddress_fromBuffer (new_BufferReader (AztecAddress_toBuffer a) 0)) = Inr a \<and>
    fst (Point_fromBuffer (new_BufferReader (Point_toBuffer p) 0)) = Inr p"
  using address_codec.whole_roundtrip[of a] point_codec.whole_roundtrip[of p] assms by simp

theorem address_point_roundtrip_witness:
  "fst (AztecAddress_fromBuffer (new_BufferReader (replicate 31 0 @ [9]) 0)) = Inr \<lparr>aa_buffer = replicate 31 0 @ [9]\<rparr> \<and>
   fst (Point_fromBuffer (new_BufferReader (replicate 64 0) 0)) = Inr \<lparr>pt_buffer = replicate 64 0\<rparr>"
proof -
  have p: "new_Point (replicate 64 0) = Inr \<lparr>pt_buffer = replicate 64 0\<rparr>" by code_simp
  have a: "be_val (replicate 31 0 @ [9]) \<le> AztecAddress_MAX_VALUE" by code_simp
  show ?thesis
    using address_point_roundtrip[of "\<lparr>aa_buffer = replicate 31 0 @ [9]\<rparr>" "\<lparr>pt_buffer = replicate 64 0\<rparr>"] p a
    by (simp add: AztecAddress_toBuffer_def Point_toBuffer_def)
qed

text \<open>\<open>EthAddress.fromBuffer\<close> does not read what \<open>toBuffer\<close> writes: it expects a length prefix that is not there, and
  throws on the 20 bytes of every address.\<close>

theorem eth_address_buffer_mismatch:
  assumes "new_EthAddress b = Inr a"
  shows "\<exists>e. fst (EthAddress_fromBuffer (new_BufferReader (EthAddress_toBuffer a) 0)) = Inl e"
proof -
  have len: "length (EthAddress_toBuffer a) = 20"
    using assms by (auto simp: new_EthAddress_def EthAddress_toBuffer_def split: if_splits)
  define m where "m = nat (be_val (subarray 0 4 (EthAddress_toBuffer a)))"
  have "length (subarray 4 (4 + m) (EthAddress_toBuffer a)) \<le> 16" using len by (simp add: subarray_def)
  then have "\<exists>e. new_EthAddress (subarray 4 (4 + m) (EthAddress_toBuffer a)) = Inl e" by (auto simp: new_EthAddress_def)
  then show ?thesis using len
    by (simp add: EthAddress_fromBuffer_def readBuffer_def readNumber_def readBytes_def advance_def jbind_def
        new_BufferReader_def readUInt32BE_def m_def)
qed

theorem eth_address_buffer_mismatch_witness:
  "\<exists>e. fst (EthAddress_fromBuffer (new_BufferReader (EthAddress_toBuffer EthAddress_ZERO) 0)) = Inl e"
  by (rule eth_address_buffer_mismatch[of "replicate 20 0"]) (simp add: new_EthAddress_def EthAddress_ZERO_def)

text \<open>The range check of \<open>Fq\<close> uses the modulus of \<open>Fr\<close>: every element of the field between the two moduli is rejected.\<close>

theorem fq_rejects_field_elements:
  assumes "Fr_MODULUS \<le> v" and "v < Fq_MODULUS"
  shows "\<exists>e. new_Fq v = Inl e"
  using assms by (simp add: new_Fq_def Fq_MAX_VALUE_def)

theorem fq_rejects_field_elements_witness: "\<exists>e. new_Fq Fr_MODULUS = Inl e"
  by (rule fq_rejects_field_elements) (simp_all add: Fr_MODULUS_def Fq_MODULUS_def)

text \<open>Sibling paths: deserialising the buffer of a path of 32-byte hashes gives the path back.\<close>

theorem sibling_path_roundtrip:
  assumes "path_ok p" and "\<forall>b \<in> set (sp_data p). length b = 32" and "length (sp_data p) < 2 ^ 32"
  shows "\<exists>v. SiblingPath_toBuffer p = Inr v \<and> SiblingPath_fromBuffer (pre @ v @ post) (length pre) = Inr p"
proof -
  obtain v where "SiblingPath_toBuffer p = Inr v"
    using assms(3) by (simp add: SiblingPath_toBuffer_def serializeBufferArrayToVector_def write_alloc)
  then show ?thesis using SiblingPath_roundtrip_at[OF assms, of v pre post] by (simp add: SiblingPath_fromBuffer_def)
qed

theorem sibling_path_roundtrip_witness:
  "\<exists>v. SiblingPath_toBuffer \<lparr>pathSize = 2, sp_data = [replicate 32 7, replicate 32 8]\<rparr> = Inr v \<and>
    SiblingPath_fromBuffer v 0 = Inr \<lparr>pathSize = 2, sp_data = [replicate 32 7, replicate 32 8]\<rparr>"
  using sibling_path_roundtrip[of "\<lparr>pathSize = 2, sp_data = [replicate 32 7, replicate 32 8]\<rparr>" "[]" "[]"]
  by (simp add: path_ok_def)

end
