(* ===== verification/Fifo.thy ===== *)
theory Fifo
  imports Prelude
begin

text \<open>
  \<^verbatim>\<open>foundation/src/fifo/memory_fifo.ts\<close> and \<^verbatim>\<open>semaphore.ts\<close>: the asynchronous queue under the job queues of the
  system. A pending \<open>get\<close> is a consumer, named by a number; a method that calls resolvers returns the consumers
  it resolves. The world of a queue records which promise has been settled with what (a promise is settled at
  most once), and its step relation interleaves calls of the methods and expiring timers in any order.
\<close>

section \<open>MemoryFifo\<close>

record 'a memory_fifo =
  waiting :: "nat list"
  fifo_items :: "'a list"
  flushing :: bool

definition new_MemoryFifo :: "'a memory_fifo" where
  "new_MemoryFifo = \<lparr>waiting = [], fifo_items = [], flushing = False\<rparr>"

definition MemoryFifo_length :: "'a memory_fifo \<Rightarrow> nat" where
  "MemoryFifo_length q = length (fifo_items q)"

text \<open>\<open>get()\<close> of consumer \<open>c\<close>: \<open>Some r\<close> is a promise resolved at once (\<open>r = None\<close> for \<open>null\<close>), \<open>None\<close> a pending one.\<close>

definition MemoryFifo_get :: "nat \<Rightarrow> 'a memory_fifo \<Rightarrow> 'a option option \<times> 'a memory_fifo" where
  "MemoryFifo_get c q =
     (case fifo_items q of
        x # xs \<Rightarrow> (Some (Some x), q\<lparr>fifo_items := xs\<rparr>)
      | [] \<Rightarrow> if flushing q then (Some None, q) else (None, q\<lparr>waiting := waiting q @ [c]\<rparr>))"

text \<open>The timer of \<open>get(timeout)\<close>: whether it rejects, that is whether the resolver is still waiting.\<close>

definition MemoryFifo_timeout :: "nat \<Rightarrow> 'a memory_fifo \<Rightarrow> bool \<times> 'a memory_fifo" where
  "MemoryFifo_timeout c q =
     (if c \<in> set (waiting q) then (True, q\<lparr>waiting := remove1 c (waiting q)\<rparr>) else (False, q))"

text \<open>\<open>put(item)\<close>: the consumer that is handed the item, if any.\<close>

definition MemoryFifo_put :: "'a \<Rightarrow> 'a memory_fifo \<Rightarrow> nat option \<times> 'a memory_fifo" where
  "MemoryFifo_put item q =
     (if flushing q then (None, q)
      else case waiting q of
        c # cs \<Rightarrow> (Some c, q\<lparr>waiting := cs\<rparr>)
      | [] \<Rightarrow> (None, q\<lparr>fifo_items := fifo_items q @ [item]\<rparr>))"

text \<open>\<open>end()\<close> and \<open>cancel()\<close>: the consumers whose resolvers are called with \<open>null\<close>. They stay in \<open>waiting\<close>.\<close>

definition MemoryFifo_end :: "'a memory_fifo \<Rightarrow> nat list \<times> 'a memory_fifo" where
  "MemoryFifo_end q = (waiting q, q\<lparr>flushing := True\<rparr>)"

definition MemoryFifo_cancel :: "'a memory_fifo \<Rightarrow> nat list \<times> 'a memory_fifo" where
  "MemoryFifo_cancel q = (waiting q, q\<lparr>flushing := True, fifo_items := []\<rparr>)"

section \<open>The world of a queue\<close>

datatype 'a outcome = Got 'a | GotNull | TimedOut

text \<open>Besides the queue and the settled promises, the history: the consumers in the order of their calls, the items
  accepted by \<open>put\<close>, the hand-overs in their order, and the items dropped by \<open>cancel\<close>.\<close>

record 'a fifo_world =
  fifo :: "'a memory_fifo"
  settled :: "nat \<rightharpoonup> 'a outcome"
  callers :: "nat list"
  accepted :: "'a list"
  served :: "(nat \<times> 'a) list"
  dropped :: "'a list"

definition fifo_init :: "'a fifo_world" where
  "fifo_init = \<lparr>fifo = new_MemoryFifo, settled = (\<lambda>_. None), callers = [], accepted = [], served = [], dropped = []\<rparr>"

definition settle :: "nat \<Rightarrow> 'a outcome \<Rightarrow> (nat \<rightharpoonup> 'a outcome) \<Rightarrow> (nat \<rightharpoonup> 'a outcome)" where
  "settle c v m = (if m c = None then m(c \<mapsto> v) else m)"

definition settle_all :: "nat list \<Rightarrow> 'a outcome \<Rightarrow> (nat \<rightharpoonup> 'a outcome) \<Rightarrow> (nat \<rightharpoonup> 'a outcome)" where
  "settle_all cs v m = fold (\<lambda>c. settle c v) cs m"

definition do_get :: "nat \<Rightarrow> 'a fifo_world \<Rightarrow> 'a fifo_world" where
  "do_get c w =
     (let (r, q) = MemoryFifo_get c (fifo w); w = w\<lparr>fifo := q, callers := callers w @ [c]\<rparr> in
      case r of
        None \<Rightarrow> w
      | Some None \<Rightarrow> w\<lparr>settled := settle c GotNull (settled w)\<rparr>
      | Some (Some x) \<Rightarrow> w\<lparr>settled := settle c (Got x) (settled w), served := served w @ [(c, x)]\<rparr>)"

definition do_put :: "'a \<Rightarrow> 'a fifo_world \<Rightarrow> 'a fifo_world" where
  "do_put x w =
     (let (r, q) = MemoryFifo_put x (fifo w);
          w' = w\<lparr>fifo := q, accepted := accepted w @ (if flushing (fifo w) then [] else [x])\<rparr> in
      case r of
        None \<Rightarrow> w'
      | Some c \<Rightarrow> w'\<lparr>settled := settle c (Got x) (settled w), served := served w @ [(c, x)]\<rparr>)"

definition do_end :: "'a fifo_world \<Rightarrow> 'a fifo_world" where
  "do_end w =
     (let (cs, q) = MemoryFifo_end (fifo w) in w\<lparr>fifo := q, settled := settle_all cs GotNull (settled w)\<rparr>)"

definition do_cancel :: "'a fifo_world \<Rightarrow> 'a fifo_world" where
  "do_cancel w =
     (let (cs, q) = MemoryFifo_cancel (fifo w) in
      w\<lparr>fifo := q, settled := settle_all cs GotNull (settled w), dropped := fifo_items (fifo w) @ dropped w\<rparr>)"

definition do_timeout :: "nat \<Rightarrow> 'a fifo_world \<Rightarrow> 'a fifo_world" where
  "do_timeout c w =
     (let (rejects, q) = MemoryFifo_timeout c (fifo w) in
      w\<lparr>fifo := q, settled := (if rejects then settle c TimedOut (settled w) else settled w)\<rparr>)"

inductive fifo_step :: "'a fifo_world \<Rightarrow> 'a fifo_world \<Rightarrow> bool" where
  step_get: "c \<notin> set (callers w) \<Longrightarrow> fifo_step w (do_get c w)"
| step_put: "fifo_step w (do_put x w)"
| step_end: "fifo_step w (do_end w)"
| step_cancel: "fifo_step w (do_cancel w)"
| step_timeout: "c \<in> set (callers w) \<Longrightarrow> fifo_step w (do_timeout c w)"

inductive_cases fifo_stepE: "fifo_step w w'"

section \<open>Invariant\<close>

text \<open>Items: what was accepted has been handed over, is queued, or was dropped, in this order.\<close>

definition items_inv :: "'a fifo_world \<Rightarrow> bool" where
  "items_inv w \<longleftrightarrow>
     accepted w = map snd (served w) @ fifo_items (fifo w) @ dropped w \<and>
     (dropped w \<noteq> [] \<longrightarrow> fifo_items (fifo w) = [] \<and> flushing (fifo w)) \<and>
     (flushing (fifo w) \<or> waiting (fifo w) = [] \<or> fifo_items (fifo w) = [])"

text \<open>Promises: the pending ones are those of the waiting consumers, and none is pending once the queue flushes.\<close>

definition promise_inv :: "'a fifo_world \<Rightarrow> bool" where
  "promise_inv w \<longleftrightarrow>
     distinct (callers w) \<and> distinct (waiting (fifo w)) \<and> set (waiting (fifo w)) \<subseteq> set (callers w) \<and>
     (\<forall>c. settled w c = None \<longleftrightarrow> c \<notin> set (callers w) \<or> (c \<in> set (waiting (fifo w)) \<and> \<not> flushing (fifo w)))"

text \<open>Hand-overs: every consumer receives at most one item, and its promise is settled with it.\<close>

definition served_inv :: "'a fifo_world \<Rightarrow> bool" where
  "served_inv w \<longleftrightarrow>
     distinct (map fst (served w)) \<and> (\<forall>c x. settled w c = Some (Got x) \<longleftrightarrow> (c, x) \<in> set (served w))"

definition fifo_inv :: "'a fifo_world \<Rightarrow> bool" where
  "fifo_inv w \<longleftrightarrow> items_inv w \<and> promise_inv w \<and> served_inv w"

lemma settle_None: "m c = None \<Longrightarrow> settle c v m = m(c \<mapsto> v)"
  by (simp add: settle_def)

lemma settle_Some: "m c \<noteq> None \<Longrightarrow> settle c v m = m"
  by (auto simp: settle_def)

lemma settle_all_apply:
  "settle_all cs v m c = (if c \<in> set cs \<and> m c = None then Some v else m c)"
proof (induction cs arbitrary: m)
  case (Cons a cs)
  then show ?case by (auto simp: settle_all_def settle_def)
qed (simp add: settle_all_def)

lemma fifo_inv_init: "fifo_inv fifo_init"
  by (simp add: fifo_inv_def items_inv_def promise_inv_def served_inv_def fifo_init_def new_MemoryFifo_def)

lemma pending_not_served:
  assumes "fifo_inv w" and "settled w c = None"
  shows "c \<notin> fst ` set (served w)"
proof
  assume "c \<in> fst ` set (served w)"
  then obtain x where "(c, x) \<in> set (served w)" by force
  then have "settled w c = Some (Got x)" using assms(1) by (simp add: fifo_inv_def served_inv_def)
  then show False using assms(2) by simp
qed

text \<open>Handing an item to a consumer with a pending promise.\<close>

lemma served_inv_hand:
  assumes "fifo_inv w" and "settled w c = None"
    and "settled w' = settle c (Got x) (settled w)" and "served w' = served w @ [(c, x)]"
  shows "served_inv w'"
  using assms(1) pending_not_served[OF assms(1,2)] assms(2)
  unfolding fifo_inv_def served_inv_def assms(3,4) by (auto simp: settle_None image_iff)

lemma served_inv_other:
  assumes "fifo_inv w" and "\<And>a x. settled w' a = Some (Got x) \<longleftrightarrow> settled w a = Some (Got x)" and "served w' = served w"
  shows "served_inv w'"
  using assms by (simp add: fifo_inv_def served_inv_def)

lemma fifo_inv_get:
  assumes inv: "fifo_inv w" and c: "c \<notin> set (callers w)"
  shows "fifo_inv (do_get c w)"
proof -
  have n: "settled w c = None" using inv c by (simp add: fifo_inv_def promise_inv_def)
  have cw: "c \<notin> set (waiting (fifo w))" using inv c by (auto simp: fifo_inv_def promise_inv_def)
  consider x xs where "fifo_items (fifo w) = x # xs" | "fifo_items (fifo w) = []" "flushing (fifo w)" |
    "fifo_items (fifo w) = []" "\<not> flushing (fifo w)" by (cases "fifo_items (fifo w)") auto
  then show ?thesis
  proof cases
    case (1 x xs)
    then have w': "do_get c w = w\<lparr>fifo := (fifo w)\<lparr>fifo_items := xs\<rparr>, callers := callers w @ [c],
        settled := settle c (Got x) (settled w), served := served w @ [(c, x)]\<rparr>"
      by (simp add: do_get_def MemoryFifo_get_def)
    have "served_inv (do_get c w)" by (rule served_inv_hand[OF inv n]) (simp_all add: w')
    moreover have "items_inv (do_get c w)" using inv 1 by (auto simp: fifo_inv_def items_inv_def w')
    moreover have "promise_inv (do_get c w)"
      using inv 1 c cw n by (auto simp: fifo_inv_def promise_inv_def items_inv_def w' settle_None)
    ultimately show ?thesis by (simp add: fifo_inv_def)
  next
    case 2
    then have w': "do_get c w = w\<lparr>callers := callers w @ [c], settled := settle c GotNull (settled w)\<rparr>"
      by (simp add: do_get_def MemoryFifo_get_def)
    have "served_inv (do_get c w)" by (rule served_inv_other[OF inv]) (auto simp: w' settle_def)
    moreover have "promise_inv (do_get c w)"
      using inv 2 c cw n by (auto simp: fifo_inv_def promise_inv_def w' settle_None)
    moreover have "items_inv (do_get c w)" using inv by (simp add: fifo_inv_def items_inv_def w')
    ultimately show ?thesis by (simp add: fifo_inv_def)
  next
    case 3
    then have w': "do_get c w = w\<lparr>fifo := (fifo w)\<lparr>waiting := waiting (fifo w) @ [c]\<rparr>, callers := callers w @ [c]\<rparr>"
      by (simp add: do_get_def MemoryFifo_get_def)
    have "served_inv (do_get c w)" by (rule served_inv_other[OF inv]) (simp_all add: w')
    moreover have "promise_inv (do_get c w)" using inv 3 c cw n by (auto simp: fifo_inv_def promise_inv_def w')
    moreover have "items_inv (do_get c w)" using inv 3 by (simp add: fifo_inv_def items_inv_def w')
    ultimately show ?thesis by (simp add: fifo_inv_def)
  qed
qed

lemma fifo_inv_put:
  assumes inv: "fifo_inv w"
  shows "fifo_inv (do_put x w)"
proof -
  consider "flushing (fifo w)" | "\<not> flushing (fifo w)" "waiting (fifo w) = []" |
    c cs where "\<not> flushing (fifo w)" "waiting (fifo w) = c # cs" by (cases "waiting (fifo w)") auto
  then show ?thesis
  proof cases
    case 1
    then show ?thesis using inv by (simp add: do_put_def MemoryFifo_put_def)
  next
    case 2
    then show ?thesis using inv
      by (simp add: do_put_def MemoryFifo_put_def fifo_inv_def items_inv_def promise_inv_def served_inv_def)
  next
    case (3 c cs)
    then have w': "do_put x w = w\<lparr>fifo := (fifo w)\<lparr>waiting := cs\<rparr>, accepted := accepted w @ [x],
        settled := settle c (Got x) (settled w), served := served w @ [(c, x)]\<rparr>"
      by (simp add: do_put_def MemoryFifo_put_def)
    have n: "settled w c = None" using inv 3 by (simp add: fifo_inv_def promise_inv_def)
    have "served_inv (do_put x w)" by (rule served_inv_hand[OF inv n]) (simp_all add: w')
    moreover have "items_inv (do_put x w)" using inv 3 by (auto simp: fifo_inv_def items_inv_def w')
    moreover have "promise_inv (do_put x w)" using inv 3 n by (auto simp: fifo_inv_def promise_inv_def w' settle_None)
    ultimately show ?thesis by (simp add: fifo_inv_def)
  qed
qed

lemma fifo_inv_flush:
  assumes inv: "fifo_inv w" and q: "fifo w' = (fifo w)\<lparr>flushing := True, fifo_items := xs\<rparr>"
    and st: "settled w' = settle_all (waiting (fifo w)) GotNull (settled w)"
    and same: "callers w' = callers w" "accepted w' = accepted w" "served w' = served w"
    and drop: "fifo_items (fifo w) @ dropped w = xs @ dropped w'" "dropped w' \<noteq> [] \<longrightarrow> xs = []"
  shows "fifo_inv w'"
proof -
  have "served_inv w'" by (rule served_inv_other[OF inv]) (simp_all add: st same settle_all_apply)
  moreover have "items_inv w'" using inv drop by (simp add: fifo_inv_def items_inv_def same q)
  moreover have "settled w' c = None \<longleftrightarrow> c \<notin> set (callers w)" for c
    using inv by (auto simp: st settle_all_apply fifo_inv_def promise_inv_def)
  then have "promise_inv w'" using inv by (simp add: fifo_inv_def promise_inv_def same q)
  ultimately show ?thesis by (simp add: fifo_inv_def)
qed

lemma fifo_inv_end:
  assumes "fifo_inv w"
  shows "fifo_inv (do_end w)"
proof (rule fifo_inv_flush[OF assms])
  show "fifo (do_end w) = (fifo w)\<lparr>flushing := True, fifo_items := fifo_items (fifo w)\<rparr>"
    by (simp add: do_end_def MemoryFifo_end_def)
qed (use assms in \<open>simp_all add: do_end_def MemoryFifo_end_def fifo_inv_def items_inv_def\<close>)

lemma fifo_inv_cancel:
  assumes "fifo_inv w"
  shows "fifo_inv (do_cancel w)"
proof (rule fifo_inv_flush[OF assms])
  show "fifo (do_cancel w) = (fifo w)\<lparr>flushing := True, fifo_items := []\<rparr>"
    by (simp add: do_cancel_def MemoryFifo_cancel_def)
qed (simp_all add: do_cancel_def MemoryFifo_cancel_def)

lemma fifo_inv_timeout:
  assumes inv: "fifo_inv w"
  shows "fifo_inv (do_timeout c w)"
proof (cases "c \<in> set (waiting (fifo w))")
  case True
  then have w: "do_timeout c w = w\<lparr>fifo := (fifo w)\<lparr>waiting := remove1 c (waiting (fifo w))\<rparr>,
      settled := settle c TimedOut (settled w)\<rparr>"
    by (simp add: do_timeout_def MemoryFifo_timeout_def)
  have rm: "set (remove1 c (waiting (fifo w))) = set (waiting (fifo w)) - {c}" "distinct (remove1 c (waiting (fifo w)))"
    using inv by (auto simp: fifo_inv_def promise_inv_def)
  have c: "c \<in> set (callers w)" using inv True by (auto simp: fifo_inv_def promise_inv_def)
  have "served_inv (do_timeout c w)" by (rule served_inv_other[OF inv]) (auto simp: w settle_def)
  moreover have "items_inv (do_timeout c w)" using inv by (auto simp: fifo_inv_def items_inv_def w)
  moreover have "settle c TimedOut (settled w) a = None \<longleftrightarrow> settled w a = None \<and> a \<noteq> c" for a
    by (auto simp: settle_def)
  then have "promise_inv (do_timeout c w)" using inv c by (auto simp: fifo_inv_def promise_inv_def w rm)
  ultimately show ?thesis by (simp add: fifo_inv_def)
next
  case False
  then show ?thesis using inv by (simp add: do_timeout_def MemoryFifo_timeout_def)
qed

interpretation fifo_sm: state_machine fifo_init fifo_step fifo_inv
proof
  show "fifo_inv fifo_init" by (rule fifo_inv_init)
  show "fifo_inv w'" if "fifo_inv w" "fifo_step w w'" for w w'
    using that(2,1) by (cases rule: fifo_step.cases)
      (auto intro: fifo_inv_get fifo_inv_put fifo_inv_end fifo_inv_cancel fifo_inv_timeout)
qed

section \<open>Semaphore\<close>

text \<open>A semaphore is a queue of tokens. The state adds the number of releases.\<close>

definition new_Semaphore :: "nat \<Rightarrow> bool fifo_world" where
  "new_Semaphore n = (do_put True ^^ n) fifo_init"

definition Semaphore_acquire :: "nat \<Rightarrow> bool fifo_world \<Rightarrow> bool fifo_world" where
  "Semaphore_acquire c w = do_get c w"

definition Semaphore_release :: "bool fifo_world \<Rightarrow> bool fifo_world" where
  "Semaphore_release w = do_put True w"

inductive sem_step :: "bool fifo_world \<times> nat \<Rightarrow> bool fifo_world \<times> nat \<Rightarrow> bool" where
  sem_acquire: "c \<notin> set (callers w) \<Longrightarrow> sem_step (w, r) (Semaphore_acquire c w, r)"
| sem_release: "sem_step (w, r) (Semaphore_release w, Suc r)"

definition sem_inv :: "nat \<Rightarrow> bool fifo_world \<times> nat \<Rightarrow> bool" where
  "sem_inv n = (\<lambda>(w, r). fifo_inv w \<and> \<not> flushing (fifo w) \<and> length (accepted w) = n + r)"

lemma do_get_frame: "flushing (fifo (do_get c w)) = flushing (fifo w)" "accepted (do_get c w) = accepted w"
  by (auto simp: do_get_def MemoryFifo_get_def Let_def split: list.splits)

lemma do_put_frame:
  "flushing (fifo (do_put x w)) = flushing (fifo w)"
  "\<not> flushing (fifo w) \<Longrightarrow> accepted (do_put x w) = accepted w @ [x]"
  by (auto simp: do_put_def MemoryFifo_put_def Let_def split: list.splits)

lemma sem_inv_new: "sem_inv n (new_Semaphore n, 0)"
proof (induction n)
  case 0
  then show ?case using fifo_inv_init by (simp add: sem_inv_def new_Semaphore_def) (simp add: fifo_init_def new_MemoryFifo_def)
next
  case (Suc n)
  then show ?case by (simp add: sem_inv_def new_Semaphore_def fifo_inv_put do_put_frame)
qed

interpretation sem_sm: state_machine "(new_Semaphore n, 0)" sem_step "sem_inv n" for n
proof
  show "sem_inv n (new_Semaphore n, 0)" by (rule sem_inv_new)
  show "sem_inv n s'" if "sem_inv n s" "sem_step s s'" for s s'
    using that(2,1) by (cases rule: sem_step.cases)
      (auto simp: sem_inv_def Semaphore_acquire_def Semaphore_release_def fifo_inv_get fifo_inv_put do_get_frame do_put_frame)
qed

section \<open>Properties\<close>

text \<open>C24. The queue is first-in first-out and loses nothing: in every reachable state of a \<open>MemoryFifo\<close>, under any
  interleaving of gets, puts, ends, cancels and timeouts, the accepted items are the ones handed over, in the
  order they were put, followed by the queued ones and those a cancel dropped; no consumer receives two items,
  and a consumer waits only while there is no item and the queue has not ended.\<close>

theorem fifo_order:
  assumes "fifo_step\<^sup>*\<^sup>* fifo_init w"
  shows "accepted w = map snd (served w) @ fifo_items (fifo w) @ dropped w \<and> distinct (map fst (served w)) \<and>
    (\<forall>c x. settled w c = Some (Got x) \<longleftrightarrow> (c, x) \<in> set (served w)) \<and>
    (\<forall>c \<in> set (callers w). settled w c = None \<longrightarrow> fifo_items (fifo w) = [] \<and> \<not> flushing (fifo w))"
proof -
  have "fifo_inv w" using assms by (rule fifo_sm.reachable_inv)
  then show ?thesis
    by (auto simp: fifo_inv_def items_inv_def promise_inv_def served_inv_def)
qed

theorem fifo_order_witness:
  "map snd (served (do_get 3 (do_put 8 (do_put 7 (fifo_init :: nat fifo_world))))) @ [8] = [7, 8]"
proof -
  let ?w1 = "do_put 7 (fifo_init :: nat fifo_world)"
  let ?w2 = "do_put 8 ?w1"
  let ?w = "do_get 3 ?w2"
  have w: "callers ?w2 = []" "accepted ?w = [7, 8]" "fifo_items (fifo ?w) = [8]" "dropped ?w = []"
    by (simp_all add: do_get_def MemoryFifo_get_def do_put_def MemoryFifo_put_def fifo_init_def new_MemoryFifo_def)
  have "fifo_step fifo_init ?w1" "fifo_step ?w1 ?w2" by (rule step_put)+
  moreover have "fifo_step ?w2 ?w" by (rule step_get) (simp add: w)
  ultimately have "fifo_step\<^sup>*\<^sup>* fifo_init ?w"
    by (metis rtranclp.rtrancl_into_rtrancl rtranclp.rtrancl_refl)
  then have "accepted ?w = map snd (served ?w) @ fifo_items (fifo ?w) @ dropped ?w" using fifo_order by blast
  then show ?thesis by (simp add: w)
qed

text \<open>A semaphore of \<open>n\<close> tokens never grants more than \<open>n\<close> acquisitions beyond the releases, and makes a caller wait
  only when exactly that many are granted.\<close>

theorem semaphore_bound:
  assumes "sem_step\<^sup>*\<^sup>* (new_Semaphore n, 0) (w, r)"
  shows "length (served w) \<le> n + r \<and>
    ((\<exists>c \<in> set (callers w). settled w c = None) \<longrightarrow> length (served w) = n + r)"
proof -
  have "sem_inv n (w, r)" using assms by (rule sem_sm.reachable_inv)
  then have inv: "fifo_inv w" "\<not> flushing (fifo w)" "length (accepted w) = n + r" by (simp_all add: sem_inv_def)
  have "dropped w = []" using inv(1,2) unfolding fifo_inv_def items_inv_def by blast
  then have acc: "length (accepted w) = length (served w) + length (fifo_items (fifo w))"
    using inv(1) by (simp add: fifo_inv_def items_inv_def)
  have "fifo_items (fifo w) = []" if "c \<in> set (callers w)" "settled w c = None" for c
  proof -
    have "c \<in> set (waiting (fifo w))" using inv(1) that unfolding fifo_inv_def promise_inv_def by blast
    then show ?thesis using inv(1,2) unfolding fifo_inv_def items_inv_def by auto
  qed
  then have "(\<exists>c \<in> set (callers w). settled w c = None) \<longrightarrow> length (fifo_items (fifo w)) = 0" by auto
  then show ?thesis using inv(3) acc by linarith
qed

theorem semaphore_bound_witness:
  "length (served (Semaphore_acquire 5 (Semaphore_acquire 4 (new_Semaphore 1)))) = 1"
proof -
  let ?w1 = "Semaphore_acquire 4 (new_Semaphore 1)" and ?w2 = "Semaphore_acquire 5 (Semaphore_acquire 4 (new_Semaphore 1))"
  have c: "4 \<notin> set (callers (new_Semaphore 1))" "5 \<notin> set (callers ?w1)" "5 \<in> set (callers ?w2)" "settled ?w2 5 = None"
    by (simp_all add: Semaphore_acquire_def new_Semaphore_def do_get_def MemoryFifo_get_def do_put_def MemoryFifo_put_def
        fifo_init_def new_MemoryFifo_def settle_def)
  have "sem_step (new_Semaphore 1, 0) (?w1, 0)" "sem_step (?w1, 0) (?w2, 0)"
    by (rule sem_acquire, rule c)+
  then have "sem_step\<^sup>*\<^sup>* (new_Semaphore 1, 0) (?w2, 0)"
    by (metis rtranclp.rtrancl_into_rtrancl rtranclp.rtrancl_refl)
  from semaphore_bound[OF this] c(3,4) show ?thesis by auto
qed

end
