(* ===== verification/SerialQueues.thy ===== *)
theory SerialQueues
  imports Fifo
begin

text \<open>
  \<^verbatim>\<open>foundation/src/fifo/serial_queue.ts\<close> and \<^verbatim>\<open>bounded_serial_queue.ts\<close>: the job queues that run asynchronous functions
  one at a time. A job is named by a value, its run ends with a result; \<open>process\<close> is the loop that takes a job from
  the queue, awaits it and takes the next. Between two awaits of the loop any of the other methods may be called.
\<close>

section \<open>SerialQueue\<close>

text \<open>Where the loop of \<open>process\<close> stands: not started, in \<open>await this.get()\<close>, in \<open>await handler(item)\<close>, or returned.\<close>

datatype 't runner = NotStarted | Awaiting | Executing 't | Returned

text \<open>The history: jobs accepted by \<open>put\<close>, jobs whose promise has been settled with their result, jobs dropped by a cancel,
  and jobs put after the queue ended, whose promise is never settled.\<close>

record ('t, 'r) serial_queue =
  sq_fifo :: "'t memory_fifo"
  runner :: "'t runner"
  sq_accepted :: "'t list"
  sq_done :: "('t \<times> 'r) list"
  sq_dropped :: "'t list"
  sq_ignored :: "'t list"

definition new_SerialQueue :: "('t, 'r) serial_queue" where
  "new_SerialQueue = \<lparr>sq_fifo = new_MemoryFifo, runner = NotStarted, sq_accepted = [], sq_done = [], sq_dropped = [], sq_ignored = []\<rparr>"

text \<open>One \<open>await this.get()\<close> of the loop of \<open>process\<close>, which is the only consumer of the queue (consumer 0).\<close>

definition process_get :: "('t, 'r) serial_queue \<Rightarrow> ('t, 'r) serial_queue" where
  "process_get s =
     (case MemoryFifo_get 0 (sq_fifo s) of
        (Some (Some t), q) \<Rightarrow> s\<lparr>sq_fifo := q, runner := Executing t\<rparr>
      | (Some None, q) \<Rightarrow> s\<lparr>sq_fifo := q, runner := Returned\<rparr>
      | (None, q) \<Rightarrow> s\<lparr>sq_fifo := q, runner := Awaiting\<rparr>)"

definition SerialQueue_start :: "('t, 'r) serial_queue \<Rightarrow> ('t, 'r) serial_queue" where
  "SerialQueue_start s = process_get s"

definition SerialQueue_length :: "('t, 'r) serial_queue \<Rightarrow> nat" where
  "SerialQueue_length s = MemoryFifo_length (sq_fifo s)"

text \<open>\<open>put(fn)\<close>: the wrapper it enqueues catches every exception of \<open>fn\<close> and settles the promise of the call.\<close>

definition SerialQueue_put :: "'t \<Rightarrow> ('t, 'r) serial_queue \<Rightarrow> ('t, 'r) serial_queue" where
  "SerialQueue_put t s =
     (let (r, q) = MemoryFifo_put t (sq_fifo s);
          s' = (if flushing (sq_fifo s) then s\<lparr>sq_ignored := sq_ignored s @ [t]\<rparr> else s\<lparr>sq_accepted := sq_accepted s @ [t]\<rparr>)
      in case r of None \<Rightarrow> s'\<lparr>sq_fifo := q\<rparr> | Some _ \<Rightarrow> s'\<lparr>sq_fifo := q, runner := Executing t\<rparr>)"

text \<open>The job that runs ends with a result or an exception \<open>r\<close>: its promise is settled, and the loop goes on.\<close>

definition job_ends :: "'r \<Rightarrow> ('t, 'r) serial_queue \<Rightarrow> ('t, 'r) serial_queue" where
  "job_ends r s = (case runner s of Executing t \<Rightarrow> process_get (s\<lparr>sq_done := sq_done s @ [(t, r)]\<rparr>) | _ \<Rightarrow> s)"

definition SerialQueue_end :: "('t, 'r) serial_queue \<Rightarrow> ('t, 'r) serial_queue" where
  "SerialQueue_end s =
     (let (cs, q) = MemoryFifo_end (sq_fifo s) in
      s\<lparr>sq_fifo := q, runner := (if cs \<noteq> [] then Returned else runner s)\<rparr>)"

definition SerialQueue_cancel :: "('t, 'r) serial_queue \<Rightarrow> ('t, 'r) serial_queue" where
  "SerialQueue_cancel s =
     (let (cs, q) = MemoryFifo_cancel (sq_fifo s) in
      s\<lparr>sq_fifo := q, runner := (if cs \<noteq> [] then Returned else runner s),
        sq_dropped := fifo_items (sq_fifo s) @ sq_dropped s\<rparr>)"

text \<open>\<open>syncPoint()\<close> is the job \<open>t\<close> that does nothing.\<close>

definition SerialQueue_syncPoint :: "'t \<Rightarrow> ('t, 'r) serial_queue \<Rightarrow> ('t, 'r) serial_queue" where
  "SerialQueue_syncPoint t s = SerialQueue_put t s"

inductive sq_step :: "('t, 'r) serial_queue \<Rightarrow> ('t, 'r) serial_queue \<Rightarrow> bool" where
  sq_start: "runner s = NotStarted \<Longrightarrow> sq_step s (SerialQueue_start s)"
| sq_put: "sq_step s (SerialQueue_put t s)"
| sq_job: "sq_step s (job_ends r s)"
| sq_end: "sq_step s (SerialQueue_end s)"
| sq_cancel: "sq_step s (SerialQueue_cancel s)"

fun running :: "'t runner \<Rightarrow> 't list" where
  "running (Executing t) = [t]"
| "running _ = []"

definition sq_inv :: "('t, 'r) serial_queue \<Rightarrow> bool" where
  "sq_inv s \<longleftrightarrow>
     sq_accepted s = map fst (sq_done s) @ running (runner s) @ fifo_items (sq_fifo s) @ sq_dropped s \<and>
     (sq_dropped s \<noteq> [] \<longrightarrow> fifo_items (sq_fifo s) = [] \<and> flushing (sq_fifo s)) \<and>
     (sq_ignored s \<noteq> [] \<longrightarrow> flushing (sq_fifo s)) \<and>
     (case runner s of
        NotStarted \<Rightarrow> waiting (sq_fifo s) = []
      | Executing _ \<Rightarrow> waiting (sq_fifo s) = []
      | Awaiting \<Rightarrow> waiting (sq_fifo s) = [0] \<and> fifo_items (sq_fifo s) = [] \<and> \<not> flushing (sq_fifo s)
      | Returned \<Rightarrow> fifo_items (sq_fifo s) = [] \<and> flushing (sq_fifo s))"

lemma sq_inv_init: "sq_inv new_SerialQueue"
  by (simp add: sq_inv_def new_SerialQueue_def new_MemoryFifo_def)

lemma sq_inv_process_get:
  assumes "sq_accepted s = map fst (sq_done s) @ fifo_items (sq_fifo s) @ sq_dropped s"
    and "sq_dropped s \<noteq> [] \<longrightarrow> fifo_items (sq_fifo s) = [] \<and> flushing (sq_fifo s)"
    and "sq_ignored s \<noteq> [] \<longrightarrow> flushing (sq_fifo s)" and "waiting (sq_fifo s) = []"
  shows "sq_inv (process_get s)"
  using assms by (auto simp: process_get_def MemoryFifo_get_def sq_inv_def split: list.splits)

lemma sq_inv_start: "sq_inv s \<Longrightarrow> runner s = NotStarted \<Longrightarrow> sq_inv (SerialQueue_start s)"
  unfolding SerialQueue_start_def by (rule sq_inv_process_get) (auto simp: sq_inv_def)

lemma sq_inv_job:
  assumes "sq_inv s"
  shows "sq_inv (job_ends r s)"
proof (cases "runner s")
  case (Executing t)
  have "sq_inv (process_get (s\<lparr>sq_done := sq_done s @ [(t, r)]\<rparr>))"
    by (rule sq_inv_process_get) (use assms Executing in \<open>simp_all add: sq_inv_def\<close>)
  then show ?thesis by (simp add: job_ends_def Executing)
qed (simp_all add: job_ends_def assms)

lemma sq_inv_put: "sq_inv s \<Longrightarrow> sq_inv (SerialQueue_put t s)"
  unfolding SerialQueue_put_def MemoryFifo_put_def sq_inv_def
  by (cases "runner s") (auto simp: Let_def split: list.splits)

lemma sq_inv_end: "sq_inv s \<Longrightarrow> sq_inv (SerialQueue_end s)"
  unfolding SerialQueue_end_def MemoryFifo_end_def sq_inv_def
  by (cases "runner s") (auto simp: Let_def)

lemma sq_inv_cancel: "sq_inv s \<Longrightarrow> sq_inv (SerialQueue_cancel s)"
  unfolding SerialQueue_cancel_def MemoryFifo_cancel_def sq_inv_def
  by (cases "runner s") (auto simp: Let_def)

interpretation sq_sm: state_machine new_SerialQueue sq_step sq_inv
proof
  show "sq_inv new_SerialQueue" by (rule sq_inv_init)
  show "sq_inv s'" if "sq_inv s" "sq_step s s'" for s s'
    using that(2,1) by (cases rule: sq_step.cases)
      (auto intro: sq_inv_start sq_inv_put sq_inv_job sq_inv_end sq_inv_cancel)
qed

section \<open>BoundedSerialQueue\<close>

text \<open>A call of \<open>put\<close> or \<open>exec\<close> first awaits a token. \<open>blocked\<close> holds the calls that wait for one, in order, with the job
  they will enqueue. The token of a job that the ended queue ignores or drops is never released. The empty job of \<open>syncPoint\<close> goes to the
  inner queue without a token.\<close>

datatype 't bounded_job = TokenJob 't | SyncJob

record ('t, 'r) bounded_queue =
  tokens :: "bool memory_fifo"
  bq :: "('t bounded_job, 'r) serial_queue"
  blocked :: "(nat \<times> 't) list"

definition new_BoundedSerialQueue :: "nat \<Rightarrow> ('t, 'r) bounded_queue" where
  "new_BoundedSerialQueue maxQueueSize =
     \<lparr>tokens = \<lparr>waiting = [], fifo_items = replicate maxQueueSize True, flushing = False\<rparr>,
      bq = new_SerialQueue, blocked = []\<rparr>"

definition BoundedSerialQueue_put :: "nat \<Rightarrow> 't \<Rightarrow> ('t, 'r) bounded_queue \<Rightarrow> ('t, 'r) bounded_queue" where
  "BoundedSerialQueue_put c t b =
     (case MemoryFifo_get c (tokens b) of
        (Some _, q) \<Rightarrow> b\<lparr>tokens := q, bq := SerialQueue_put (TokenJob t) (bq b)\<rparr>
      | (None, q) \<Rightarrow> b\<lparr>tokens := q, blocked := blocked b @ [(c, t)]\<rparr>)"

text \<open>\<open>exec\<close> enqueues the same way; it differs in that its caller then awaits the result of the job.\<close>

definition BoundedSerialQueue_exec :: "nat \<Rightarrow> 't \<Rightarrow> ('t, 'r) bounded_queue \<Rightarrow> ('t, 'r) bounded_queue" where
  "BoundedSerialQueue_exec c t b = BoundedSerialQueue_put c t b"

definition BoundedSerialQueue_syncPoint :: "('t, 'r) bounded_queue \<Rightarrow> ('t, 'r) bounded_queue" where
  "BoundedSerialQueue_syncPoint b = b\<lparr>bq := SerialQueue_syncPoint SyncJob (bq b)\<rparr>"

text \<open>A job ends: the \<open>finally\<close> of a job with a token releases it, and the first blocked call takes it to enqueue its job.\<close>

definition bounded_release :: "('t, 'r) bounded_queue \<Rightarrow> ('t, 'r) bounded_queue" where
  "bounded_release b =
     (case MemoryFifo_put True (tokens b) of
        (Some c, q) \<Rightarrow>
          (case blocked b of
             (_, t) # bs \<Rightarrow> b\<lparr>tokens := q, blocked := bs, bq := SerialQueue_put (TokenJob t) (bq b)\<rparr>
           | [] \<Rightarrow> b\<lparr>tokens := q\<rparr>)
      | (None, q) \<Rightarrow> b\<lparr>tokens := q\<rparr>)"

definition bounded_job_ends :: "'r \<Rightarrow> ('t, 'r) bounded_queue \<Rightarrow> ('t, 'r) bounded_queue" where
  "bounded_job_ends r b =
     (case runner (bq b) of
        Executing (TokenJob t) \<Rightarrow> bounded_release (b\<lparr>bq := job_ends r (bq b)\<rparr>)
      | Executing SyncJob \<Rightarrow> b\<lparr>bq := job_ends r (bq b)\<rparr>
      | _ \<Rightarrow> b)"

inductive bq_step :: "('t, 'r) bounded_queue \<Rightarrow> ('t, 'r) bounded_queue \<Rightarrow> bool" where
  bq_start: "runner (bq b) = NotStarted \<Longrightarrow> bq_step b (b\<lparr>bq := SerialQueue_start (bq b)\<rparr>)"
| bq_put: "c \<notin> fst ` set (blocked b) \<Longrightarrow> bq_step b (BoundedSerialQueue_put c t b)"
| bq_exec: "c \<notin> fst ` set (blocked b) \<Longrightarrow> bq_step b (BoundedSerialQueue_exec c t b)"
| bq_syncPoint: "bq_step b (BoundedSerialQueue_syncPoint b)"
| bq_job: "bq_step b (bounded_job_ends r b)"
| bq_end: "bq_step b (b\<lparr>bq := SerialQueue_end (bq b)\<rparr>)"
| bq_cancel: "bq_step b (b\<lparr>bq := SerialQueue_cancel (bq b)\<rparr>)"

text \<open>Jobs in the queue or running that satisfy a predicate, and those of them that the queue has dropped or ignored in addition.\<close>

definition load :: "('t \<Rightarrow> bool) \<Rightarrow> ('t, 'r) serial_queue \<Rightarrow> nat" where
  "load P s = length (filter P (running (runner s) @ fifo_items (sq_fifo s)))"

definition lost :: "('t \<Rightarrow> bool) \<Rightarrow> ('t, 'r) serial_queue \<Rightarrow> nat" where
  "lost P s = length (filter P (sq_dropped s @ sq_ignored s))"

definition takes_token :: "'t bounded_job \<Rightarrow> bool" where
  "takes_token j \<longleftrightarrow> j \<noteq> SyncJob"

definition holding :: "('t bounded_job, 'r) serial_queue \<Rightarrow> nat" where
  "holding s = load takes_token s + lost takes_token s"

lemmas holding_defs = holding_def load_def lost_def takes_token_def

definition bq_inv :: "nat \<Rightarrow> ('t, 'r) bounded_queue \<Rightarrow> bool" where
  "bq_inv n b \<longleftrightarrow> sq_inv (bq b) \<and> \<not> flushing (tokens b) \<and> waiting (tokens b) = map fst (blocked b) \<and>
     (blocked b \<noteq> [] \<longrightarrow> fifo_items (tokens b) = []) \<and>
     length (fifo_items (tokens b)) + holding (bq b) = n"

lemma holding_put: "sq_inv s \<Longrightarrow> holding (SerialQueue_put j s) = holding s + (if takes_token j then 1 else 0)"
  unfolding SerialQueue_put_def MemoryFifo_put_def sq_inv_def holding_defs
  by (cases "runner s") (auto simp: Let_def split: list.splits)

lemma holding_process_get: "runner s' = NotStarted \<or> running (runner s') = [] \<Longrightarrow> holding (process_get s') = holding s'"
  unfolding process_get_def MemoryFifo_get_def holding_defs
  by (cases "runner s'") (auto split: list.splits)

lemma holding_job: "runner s = Executing j \<Longrightarrow> holding (job_ends r s) + (if takes_token j then 1 else 0) = holding s"
  unfolding job_ends_def process_get_def MemoryFifo_get_def holding_defs
  by (auto split: list.splits)

lemma holding_end: "sq_inv s \<Longrightarrow> holding (SerialQueue_end s) = holding s"
  unfolding SerialQueue_end_def MemoryFifo_end_def sq_inv_def holding_defs
  by (cases "runner s") (auto simp: Let_def)

lemma holding_cancel: "sq_inv s \<Longrightarrow> holding (SerialQueue_cancel s) = holding s"
  unfolding SerialQueue_cancel_def MemoryFifo_cancel_def sq_inv_def holding_defs
  by (cases "runner s") (auto simp: Let_def)

lemma bq_inv_init: "bq_inv n (new_BoundedSerialQueue n)"
  using sq_inv_init
  by (simp add: bq_inv_def new_BoundedSerialQueue_def holding_defs)
    (simp add: new_SerialQueue_def new_MemoryFifo_def)

lemma bq_inv_put:
  assumes "bq_inv n b"
  shows "bq_inv n (BoundedSerialQueue_put c t b)"
proof (cases "fifo_items (tokens b)")
  case Nil
  then show ?thesis using assms by (simp add: bq_inv_def BoundedSerialQueue_put_def MemoryFifo_get_def)
next
  case (Cons x xs)
  then have e: "BoundedSerialQueue_put c t b = b\<lparr>tokens := (tokens b)\<lparr>fifo_items := xs\<rparr>, bq := SerialQueue_put (TokenJob t) (bq b)\<rparr>"
    by (simp add: BoundedSerialQueue_put_def MemoryFifo_get_def)
  have "sq_inv (bq b)" using assms by (simp add: bq_inv_def)
  then show ?thesis using assms Cons sq_inv_put[of "bq b" "TokenJob t"] holding_put[of "bq b" "TokenJob t"]
    unfolding e bq_inv_def by (auto simp: takes_token_def)
qed

lemma bq_inv_syncPoint:
  assumes "bq_inv n b"
  shows "bq_inv n (BoundedSerialQueue_syncPoint b)"
  using assms sq_inv_put[of "bq b" SyncJob] holding_put[of "bq b" SyncJob]
  by (simp add: bq_inv_def BoundedSerialQueue_syncPoint_def SerialQueue_syncPoint_def takes_token_def)

lemma bq_inv_release:
  assumes s: "sq_inv (bq b)" and fl: "\<not> flushing (tokens b)" and w: "waiting (tokens b) = map fst (blocked b)"
    and bl: "blocked b \<noteq> [] \<longrightarrow> fifo_items (tokens b) = []" and n: "length (fifo_items (tokens b)) + holding (bq b) + 1 = n"
  shows "bq_inv n (bounded_release b)"
proof (cases "blocked b")
  case Nil
  then show ?thesis using assms by (simp add: bq_inv_def bounded_release_def MemoryFifo_put_def)
next
  case (Cons x bs)
  obtain c t where x: "x = (c, t)" by force
  have e: "bounded_release b = b\<lparr>tokens := (tokens b)\<lparr>waiting := map fst bs\<rparr>, blocked := bs, bq := SerialQueue_put (TokenJob t) (bq b)\<rparr>"
    using fl w Cons x by (simp add: bounded_release_def MemoryFifo_put_def)
  show ?thesis unfolding e bq_inv_def
    using sq_inv_put[OF s] holding_put[OF s, of "TokenJob t"] fl bl n Cons by (simp add: takes_token_def)
qed

lemma bq_inv_job:
  assumes "bq_inv n b"
  shows "bq_inv n (bounded_job_ends r b)"
proof (cases "runner (bq b)")
  case (Executing j)
  note inv = assms[unfolded bq_inv_def] and job = holding_job[OF Executing, of r]
  show ?thesis
  proof (cases j)
    case (TokenJob t)
    have "bq_inv n (bounded_release (b\<lparr>bq := job_ends r (bq b)\<rparr>))"
      by (rule bq_inv_release) (use inv job sq_inv_job[of "bq b" r] TokenJob in \<open>simp_all add: takes_token_def\<close>)
    then show ?thesis by (simp add: bounded_job_ends_def Executing TokenJob)
  next
    case SyncJob
    then show ?thesis using inv job sq_inv_job[of "bq b" r] by (simp add: bounded_job_ends_def Executing bq_inv_def takes_token_def)
  qed
qed (simp_all add: bounded_job_ends_def assms)

interpretation bq_sm: state_machine "new_BoundedSerialQueue n" bq_step "bq_inv n" for n
proof
  show "bq_inv n (new_BoundedSerialQueue n)" by (rule bq_inv_init)
  show "bq_inv n b'" if "bq_inv n b" "bq_step b b'" for b b'
    using that(2,1)
  proof (cases rule: bq_step.cases)
    case bq_start
    then show ?thesis using that(1) sq_inv_start[of "bq b"] holding_process_get[of "bq b"]
      by (simp add: bq_inv_def SerialQueue_start_def)
  next
    case bq_end
    then show ?thesis using that(1) by (simp add: bq_inv_def sq_inv_end holding_end)
  next
    case bq_cancel
    then show ?thesis using that(1) by (simp add: bq_inv_def sq_inv_cancel holding_cancel)
  qed (simp_all add: bq_inv_put bq_inv_job bq_inv_syncPoint BoundedSerialQueue_exec_def)
qed

section \<open>Properties\<close>

text \<open>C23. Serial execution: in every reachable state of a \<open>SerialQueue\<close> the jobs whose promises are settled, then the job that
  runs (at most one), then the queued ones are the accepted jobs in the order of their \<open>put\<close>; so when the promise
  of a job is settled every job put before it has been settled, and when the loop waits or has returned no
  accepted job is left except those a cancel dropped.\<close>

theorem serial_queue_order:
  assumes "sq_step\<^sup>*\<^sup>* new_SerialQueue s"
  shows "sq_accepted s = map fst (sq_done s) @ running (runner s) @ fifo_items (sq_fifo s) @ sq_dropped s \<and>
    (runner s = Awaiting \<longrightarrow> sq_accepted s = map fst (sq_done s)) \<and>
    (runner s = Returned \<longrightarrow> sq_accepted s = map fst (sq_done s) @ sq_dropped s)"
proof -
  have "sq_inv s" using assms by (rule sq_sm.reachable_inv)
  then show ?thesis by (auto simp: sq_inv_def)
qed

theorem serial_queue_order_witness:
  "map fst (sq_done (job_ends ''ok'' (SerialQueue_put (2 :: nat) (SerialQueue_put 1 (SerialQueue_start new_SerialQueue))))) @ [2] = [1, 2]"
proof -
  let ?s1 = "SerialQueue_start new_SerialQueue :: (nat, string) serial_queue"
  let ?s2 = "SerialQueue_put 1 ?s1" and ?s3 = "SerialQueue_put 2 (SerialQueue_put 1 ?s1)"
  let ?s = "job_ends ''ok'' ?s3"
  note d = SerialQueue_start_def process_get_def MemoryFifo_get_def MemoryFifo_put_def SerialQueue_put_def job_ends_def
    new_SerialQueue_def new_MemoryFifo_def
  have "runner (new_SerialQueue :: (nat, string) serial_queue) = NotStarted" by (simp add: d)
  then have "sq_step new_SerialQueue ?s1" by (rule sq_start)
  moreover have "sq_step ?s1 ?s2" "sq_step ?s2 ?s3" by (rule sq_put)+
  moreover have "sq_step ?s3 ?s" by (rule sq_job)
  ultimately have "sq_step\<^sup>*\<^sup>* new_SerialQueue ?s"
    by (metis rtranclp.rtrancl_into_rtrancl rtranclp.rtrancl_refl)
  then have "sq_accepted ?s = map fst (sq_done ?s) @ running (runner ?s) @ fifo_items (sq_fifo ?s) @ sq_dropped ?s"
    using serial_queue_order by blast
  then show ?thesis by (simp add: d)
qed

text \<open>A job put after \<open>end\<close> or \<open>cancel\<close> is ignored: it never runs and the promise returned by \<open>put\<close> is never settled.\<close>

theorem put_after_cancel_is_ignored:
  assumes "sq_step\<^sup>*\<^sup>* (SerialQueue_put t (SerialQueue_cancel s)) s'"
  shows "sq_accepted s' = sq_accepted s \<and> t \<in> set (sq_ignored s')"
proof -
  have "flushing (sq_fifo s') \<and> sq_accepted s' = sq_accepted s \<and> t \<in> set (sq_ignored s')"
    using assms
  proof (induction rule: rtranclp_induct)
    case base
    show ?case by (simp add: SerialQueue_put_def MemoryFifo_put_def SerialQueue_cancel_def MemoryFifo_cancel_def)
  next
    case (step y z)
    from step(2,3) show ?case
      by (cases rule: sq_step.cases)
        (auto simp: SerialQueue_start_def process_get_def MemoryFifo_get_def SerialQueue_put_def MemoryFifo_put_def
          job_ends_def SerialQueue_end_def MemoryFifo_end_def SerialQueue_cancel_def MemoryFifo_cancel_def
          split: list.splits runner.splits)
  qed
  then show ?thesis by simp
qed

theorem put_after_cancel_is_ignored_witness:
  "sq_accepted (SerialQueue_put (1 :: nat) (SerialQueue_cancel (new_SerialQueue :: (nat, string) serial_queue))) = []"
  using put_after_cancel_is_ignored[OF rtranclp.rtrancl_refl, of 1 "new_SerialQueue :: (nat, string) serial_queue"]
  by (simp add: new_SerialQueue_def)

text \<open>C31. A \<open>BoundedSerialQueue\<close> of size \<open>n\<close> never has more than \<open>n\<close> jobs of \<open>put\<close> and \<open>exec\<close> queued or running. The empty jobs of \<open>syncPoint\<close> come
  without a token: whatever is queued or running beyond \<open>n\<close> is such a job. A call of \<open>put\<close> or \<open>exec\<close> is blocked only when all \<open>n\<close> tokens are held by
  jobs that are queued, running, or were lost when the queue was ended.\<close>

theorem bounded_queue_bound:
  assumes "bq_step\<^sup>*\<^sup>* (new_BoundedSerialQueue n) b"
  shows "load takes_token (bq b) \<le> n \<and> load (\<lambda>_. True) (bq b) \<le> n + load (\<lambda>j. j = SyncJob) (bq b) \<and>
    (blocked b \<noteq> [] \<longrightarrow> load takes_token (bq b) + lost takes_token (bq b) = n)"
proof -
  have "bq_inv n b" using assms by (rule bq_sm.reachable_inv)
  moreover have "load (\<lambda>_. True) (bq b) = load takes_token (bq b) + load (\<lambda>j. j = SyncJob) (bq b)"
    using sum_length_filter_compl[of takes_token "running (runner (bq b)) @ fifo_items (sq_fifo (bq b))"] by (simp add: load_def takes_token_def)
  ultimately show ?thesis by (auto simp: bq_inv_def holding_def)
qed

theorem bounded_queue_bound_witness:
  "let b = BoundedSerialQueue_put 6 2 (BoundedSerialQueue_syncPoint (BoundedSerialQueue_put 5 (1 :: nat) (new_BoundedSerialQueue 1 :: (nat, string) bounded_queue)))
   in load takes_token (bq b) = 1 \<and> load (\<lambda>_. True) (bq b) = 2"
proof -
  let ?b0 = "new_BoundedSerialQueue 1 :: (nat, string) bounded_queue"
  let ?b1 = "BoundedSerialQueue_put 5 1 ?b0" let ?b2 = "BoundedSerialQueue_syncPoint ?b1" let ?b3 = "BoundedSerialQueue_put 6 2 ?b2"
  note d = new_BoundedSerialQueue_def BoundedSerialQueue_put_def BoundedSerialQueue_syncPoint_def SerialQueue_syncPoint_def MemoryFifo_get_def MemoryFifo_put_def
    SerialQueue_put_def new_SerialQueue_def new_MemoryFifo_def
  have e: "blocked ?b0 = []" "blocked ?b2 = []" "blocked ?b3 \<noteq> []" "lost takes_token (bq ?b3) = 0" "load (\<lambda>_. True) (bq ?b3) = 2"
    by (simp_all add: d lost_def load_def)
  have "bq_step ?b0 ?b1" "bq_step ?b2 ?b3" by (rule bq_put, simp only: e, simp)+
  moreover have "bq_step ?b1 ?b2" by (rule bq_syncPoint)
  ultimately have "bq_step\<^sup>*\<^sup>* ?b0 ?b3" by (metis rtranclp.rtrancl_into_rtrancl rtranclp.rtrancl_refl)
  from bounded_queue_bound[OF this] e(3-5) show ?thesis by auto
qed

end
