(* ===== verification/L2Logs.thy ===== *)
theory L2Logs
  imports FieldElements
begin

text \<open>
  \<^verbatim>\<open>types/src/logs/function_l2_logs.ts\<close>, \<^verbatim>\<open>tx_l2_logs.ts\<close> and \<^verbatim>\<open>l2_block_l2_logs.ts\<close>: the logs of a function call, of a
  transaction and of a block, each serialised as a length-prefixed concatenation, and
  \<open>L2Block.computeKernelLogsHash\<close>, which folds the serialised logs of a transaction into a hash. \<open>sha256\<close> is a parameter.
  The theory shows that the lengths the classes announce are the lengths they write, that every level is read
  back, and that the hash loop, which works on raw bytes, computes the fold over the logs of the function calls.
\<close>

section \<open>Logs of one function call\<close>

record function_l2_logs =
  logs :: "buffer list"

definition FunctionL2Logs_toBuffer :: "function_l2_logs \<Rightarrow> buffer result" where
  "FunctionL2Logs_toBuffer l =
     rbind (rtraverse serializeBufferToVector (logs l)) (\<lambda>serializedLogs. serializeBufferToVector (concat serializedLogs))"

definition FunctionL2Logs_getSerializedLength :: "function_l2_logs \<Rightarrow> nat" where
  "FunctionL2Logs_getSerializedLength l = foldl (\<lambda>acc log. acc + length log + 4) 0 (logs l) + 4"

text \<open>\<open>Fr.fromBuffer\<close> of 16 zero bytes and half of the hash.\<close>

definition FunctionL2Logs_hash :: "(buffer \<Rightarrow> buffer) \<Rightarrow> function_l2_logs \<Rightarrow> (fr \<times> fr) result" where
  "FunctionL2Logs_hash sha256 l =
     rbind (FunctionL2Logs_toBuffer l) (\<lambda>b.
       let hash = sha256 b;
           buf1 = replicate 16 0 @ subarray 0 16 hash;
           buf2 = replicate 16 0 @ subarray 16 32 hash
       in rbind (fst (Fr_fromBuffer (new_BufferReader buf1 0))) (\<lambda>hi.
            rbind (fst (Fr_fromBuffer (new_BufferReader buf2 0))) (\<lambda>lo. Inr (hi, lo))))"

definition FunctionL2Logs_fromBuffer :: "buffer \<Rightarrow> bool \<Rightarrow> function_l2_logs result" where
  "FunctionL2Logs_fromBuffer buf isLengthPrefixed =
     (let offset = (if isLengthPrefixed then 4 else 0) in
      rbind (fst (readBufferArray (-1) (new_BufferReader buf offset))) (\<lambda>ls. Inr \<lparr>logs = ls\<rparr>))"

text \<open>\<open>random(numLogs)\<close>: \<open>rnd i\<close> is the \<open>i\<close>-th result of \<open>randomBytes(144)\<close>.\<close>

definition FunctionL2Logs_random :: "(nat \<Rightarrow> buffer) \<Rightarrow> nat \<Rightarrow> function_l2_logs" where
  "FunctionL2Logs_random rnd numLogs = \<lparr>logs = map rnd [0..<numLogs]\<rparr>"

section \<open>Logs of a transaction\<close>

record tx_l2_logs =
  functionLogs :: "function_l2_logs list"

definition TxL2Logs_toBuffer :: "tx_l2_logs \<Rightarrow> buffer result" where
  "TxL2Logs_toBuffer t =
     rbind (rtraverse FunctionL2Logs_toBuffer (functionLogs t)) (\<lambda>bs. serializeBufferToVector (concat bs))"

definition TxL2Logs_getSerializedLength :: "tx_l2_logs \<Rightarrow> nat" where
  "TxL2Logs_getSerializedLength t =
     foldl (\<lambda>acc ls. acc + FunctionL2Logs_getSerializedLength ls) 0 (functionLogs t) + 4"

definition TxL2Logs_fromBuffer :: "buffer \<Rightarrow> bool \<Rightarrow> tx_l2_logs result" where
  "TxL2Logs_fromBuffer buf isLengthPrefixed =
     (let offset = (if isLengthPrefixed then 4 else 0) in
      rbind (fst (readBufferArray (-1) (new_BufferReader buf offset))) (\<lambda>serializedFunctionLogs.
        rbind (rtraverse (\<lambda>b. FunctionL2Logs_fromBuffer b False) serializedFunctionLogs) (\<lambda>ls.
          Inr \<lparr>functionLogs = ls\<rparr>)))"

definition TxL2Logs_random :: "(nat \<Rightarrow> nat \<Rightarrow> buffer) \<Rightarrow> nat \<Rightarrow> nat \<Rightarrow> tx_l2_logs" where
  "TxL2Logs_random rnd numFunctionInvocations numLogsIn1Invocation =
     \<lparr>functionLogs = map (\<lambda>i. FunctionL2Logs_random (rnd i) numLogsIn1Invocation) [0..<numFunctionInvocations]\<rparr>"

section \<open>Logs of a block\<close>

record l2_block_l2_logs =
  txLogs :: "tx_l2_logs list"

definition L2BlockL2Logs_toBuffer :: "l2_block_l2_logs \<Rightarrow> buffer result" where
  "L2BlockL2Logs_toBuffer l =
     rbind (rtraverse TxL2Logs_toBuffer (txLogs l)) (\<lambda>bs. serializeBufferToVector (concat bs))"

definition L2BlockL2Logs_getSerializedLength :: "l2_block_l2_logs \<Rightarrow> nat" where
  "L2BlockL2Logs_getSerializedLength l = foldl (\<lambda>acc ls. acc + TxL2Logs_getSerializedLength ls) 0 (txLogs l) + 4"

text \<open>The four bytes of the total length are skipped; the array is read up to the end of the reader's buffer.\<close>

definition L2BlockL2Logs_fromBuffer :: "l2_block_l2_logs reading" where
  "L2BlockL2Logs_fromBuffer =
     jbind readNumber (\<lambda>_. jbind (readBufferArray (-1)) (\<lambda>serializedTxLogs.
       jbind (jlift (rtraverse (\<lambda>b. TxL2Logs_fromBuffer b False) serializedTxLogs)) (\<lambda>ls.
         jreturn \<lparr>txLogs = ls\<rparr>)))"

definition L2BlockL2Logs_random :: "(nat \<Rightarrow> nat \<Rightarrow> nat \<Rightarrow> buffer) \<Rightarrow> nat \<Rightarrow> nat \<Rightarrow> nat \<Rightarrow> l2_block_l2_logs" where
  "L2BlockL2Logs_random rnd numTxs numFunctionInvocations numLogsIn1Invocation =
     \<lparr>txLogs = map (\<lambda>i. TxL2Logs_random (rnd i) numFunctionInvocations numLogsIn1Invocation) [0..<numTxs]\<rparr>"

section \<open>The kernel logs hash\<close>

lemma readBytes_index: "br_index (snd (readBytes n r)) = br_index r + n"
  by (simp add: readBytes_def advance_def jbind_def)

lemma readNumber_nonneg: "readNumber r = (Inr n, r') \<Longrightarrow> 0 \<le> n"
  by (auto simp: readNumber_def advance_def jbind_def readUInt32BE_def be_val_def split: if_splits)

text \<open>The loop of \<open>computeKernelLogsHash\<close>: every iteration takes the length of its logs and four more off the remaining
  length. \<open>Buffer.concat(logsHashes)\<close> is the previous hash followed by the hash of the logs of this iteration.\<close>

function kernel_hash_loop :: "(buffer \<Rightarrow> buffer) \<Rightarrow> int \<Rightarrow> buffer \<Rightarrow> buffer reading" where
  "kernel_hash_loop sha256 remainingLogsLength kernelPublicInputsLogsHash r =
     (if remainingLogsLength > 0 then
        (case readNumber r of
           (Inl e, r') \<Rightarrow> (Inl e, r')
         | (Inr iterationLogsLength, r') \<Rightarrow>
             (case readBytes (nat iterationLogsLength) r' of
                (Inl e, r'') \<Rightarrow> (Inl e, r'')
              | (Inr iterationLogs, r'') \<Rightarrow>
                  kernel_hash_loop sha256 (remainingLogsLength - (iterationLogsLength + 4))
                    (sha256 (kernelPublicInputsLogsHash @ sha256 iterationLogs)) r''))
      else (Inr kernelPublicInputsLogsHash, r))"
  by pat_completeness auto
termination
  by (relation "measure (\<lambda>(_, remaining, _, _). nat remaining)") (auto dest: readNumber_nonneg[OF sym])

declare kernel_hash_loop.simps [simp del]

definition computeKernelLogsHash :: "(buffer \<Rightarrow> buffer) \<Rightarrow> buffer \<Rightarrow> buffer result" where
  "computeKernelLogsHash sha256 encodedLogs =
     fst (jbind readNumber (\<lambda>remainingLogsLength. kernel_hash_loop sha256 remainingLogsLength (replicate 32 0))
       (new_BufferReader encodedLogs 0))"

section \<open>Length-prefixed concatenations\<close>

definition prefixed :: "buffer \<Rightarrow> buffer" where
  "prefixed b = be_bytes 4 (int (length b)) @ b"

lemma length_prefixed [simp]: "length (prefixed b) = length b + 4"
  by (simp add: prefixed_def)

lemma serializeBufferToVector_prefixed: "int (length b) < 2 ^ 32 \<Longrightarrow> serializeBufferToVector b = Inr (prefixed b)"
  by (simp add: serializeBufferToVector_def write_alloc prefixed_def)

lemma rtraverse_map: "(\<And>x. x \<in> set xs \<Longrightarrow> f x = Inr (g x)) \<Longrightarrow> rtraverse f xs = Inr (map g xs)"
  by (simp add: rtraverse_Inr list_all2_map2 list.rel_refl_strong)

lemma rtraverse_inverse: "(\<And>x. x \<in> set xs \<Longrightarrow> f (g x) = Inr x) \<Longrightarrow> rtraverse f (map g xs) = Inr xs"
  by (simp add: rtraverse_Inr list_all2_map1 list.rel_refl_strong)

lemma foldl_sum: "foldl (\<lambda>acc x. acc + f x) a xs = a + sum_list (map f xs)" for a :: nat
  by (induction xs arbitrary: a) simp_all

lemma member_le_sum: "x \<in> set xs \<Longrightarrow> f x \<le> sum_list (map f xs)" for f :: "'a \<Rightarrow> nat"
  by (induction xs) auto

lemma length_concat_map: "(\<And>x. x \<in> set xs \<Longrightarrow> length (f x) = g x) \<Longrightarrow> length (concat (map f xs)) = sum_list (map g xs)"
  by (induction xs) simp_all

text \<open>A read up to the end of the buffer.\<close>

definition reads_end :: "'a reading \<Rightarrow> buffer \<Rightarrow> 'a \<Rightarrow> bool" where
  "reads_end m bs x \<longleftrightarrow> (\<forall>pre. m \<lparr>br_buffer = pre @ bs, br_index = length pre\<rparr> =
     (Inr x, \<lparr>br_buffer = pre @ bs, br_index = length (pre @ bs)\<rparr>))"

lemma reads_endD:
  "reads_end m bs x \<Longrightarrow> m \<lparr>br_buffer = pre @ bs, br_index = length pre\<rparr> =
     (Inr x, \<lparr>br_buffer = pre @ bs, br_index = length (pre @ bs)\<rparr>)"
  by (simp add: reads_end_def)

lemma reads_reads_end: "reads m bs x \<Longrightarrow> reads_end m bs x"
  using readsD[of m bs x _ "[]"] by (simp add: reads_end_def)

lemma reads_end_bind:
  assumes "reads m bs x" and "reads_end (f x) cs y"
  shows "reads_end (jbind m f) (bs @ cs) y"
  unfolding reads_end_def
proof (intro allI)
  fix pre
  show "jbind m f \<lparr>br_buffer = pre @ (bs @ cs), br_index = length pre\<rparr> =
    (Inr y, \<lparr>br_buffer = pre @ (bs @ cs), br_index = length (pre @ bs @ cs)\<rparr>)"
    using readsD[OF assms(1), of pre cs] reads_endD[OF assms(2), of "pre @ bs"] by (simp add: jbind_def)
qed

lemma reads_end_map:
  assumes "reads_end m bs x" and "f x = Inr y"
  shows "reads_end (jbind m (\<lambda>x. jlift (f x))) bs y"
  using assms by (simp add: reads_end_def jbind_def)

lemma reads_end_whole: "reads_end m bs x \<Longrightarrow> fst (m (new_BufferReader bs 0)) = Inr x"
  using reads_endD[of m bs x "[]"] by (simp add: new_BufferReader_def)

lemma reads_end_offset: "reads_end m bs x \<Longrightarrow> length pre = n \<Longrightarrow> fst (m (new_BufferReader (pre @ bs) n)) = Inr x"
  using reads_endD[of m bs x pre] by (auto simp: new_BufferReader_def)

lemma readBufferArray_reads_end:
  assumes "\<forall>b \<in> set bss. int (length b) < 2 ^ 32"
  shows "reads_end (readBufferArray (-1)) (concat (map prefixed bss)) bss"
proof -
  have "concat (map prefixed bss) = concat (map (\<lambda>b. be_bytes 4 (int (length b)) @ b) bss)"
    by (simp add: prefixed_def cong: map_cong)
  from readBufferArray_loop_reads[OF assms this, where post = "[]"] show ?thesis
    by (simp add: reads_end_def readBufferArray_def jbind_def Let_def)
qed

section \<open>Serialised forms\<close>

text \<open>The bytes behind the length prefix of each level.\<close>

definition fn_payload :: "function_l2_logs \<Rightarrow> buffer" where
  "fn_payload l = concat (map prefixed (logs l))"

definition tx_payload :: "tx_l2_logs \<Rightarrow> buffer" where
  "tx_payload t = concat (map (\<lambda>l. prefixed (fn_payload l)) (functionLogs t))"

definition block_payload :: "l2_block_l2_logs \<Rightarrow> buffer" where
  "block_payload l = concat (map (\<lambda>t. prefixed (tx_payload t)) (txLogs l))"

lemma length_fn_payload: "FunctionL2Logs_getSerializedLength l = length (fn_payload l) + 4"
proof -
  have "foldl (\<lambda>acc log. acc + length log + 4) 0 (logs l) = foldl (\<lambda>acc log. acc + (length log + 4)) 0 (logs l)"
    by (simp add: add.assoc)
  then show ?thesis
    by (simp add: FunctionL2Logs_getSerializedLength_def fn_payload_def foldl_sum
        length_concat_map[where g = "\<lambda>log. length log + 4"])
qed

lemma length_tx_payload: "TxL2Logs_getSerializedLength t = length (tx_payload t) + 4"
  by (simp add: TxL2Logs_getSerializedLength_def tx_payload_def foldl_sum length_fn_payload
      length_concat_map[where g = "\<lambda>l. length (fn_payload l) + 4"])

lemma length_block_payload: "L2BlockL2Logs_getSerializedLength l = length (block_payload l) + 4"
  by (simp add: L2BlockL2Logs_getSerializedLength_def block_payload_def foldl_sum length_tx_payload
      length_concat_map[where g = "\<lambda>t. length (tx_payload t) + 4"])

lemma log_fits: "b \<in> set (logs l) \<Longrightarrow> length b + 4 \<le> length (fn_payload l)"
  using member_le_sum[of b "logs l" "\<lambda>b. length b + 4"]
  by (simp add: fn_payload_def length_concat_map[where g = "\<lambda>log. length log + 4"])

lemma fn_fits: "l \<in> set (functionLogs t) \<Longrightarrow> length (fn_payload l) + 4 \<le> length (tx_payload t)"
  using member_le_sum[of l "functionLogs t" "\<lambda>l. length (fn_payload l) + 4"]
  by (simp add: tx_payload_def length_concat_map[where g = "\<lambda>l. length (fn_payload l) + 4"])

lemma tx_fits: "t \<in> set (txLogs l) \<Longrightarrow> length (tx_payload t) + 4 \<le> length (block_payload l)"
  using member_le_sum[of t "txLogs l" "\<lambda>t. length (tx_payload t) + 4"]
  by (simp add: block_payload_def length_concat_map[where g = "\<lambda>t. length (tx_payload t) + 4"])

lemma FunctionL2Logs_toBuffer_prefixed:
  assumes "length (fn_payload l) < 2 ^ 32"
  shows "FunctionL2Logs_toBuffer l = Inr (prefixed (fn_payload l))"
proof -
  have "rtraverse serializeBufferToVector (logs l) = Inr (map prefixed (logs l))"
    by (rule rtraverse_map, rule serializeBufferToVector_prefixed) (use assms log_fits in fastforce)
  then show ?thesis using assms
    by (simp add: FunctionL2Logs_toBuffer_def fn_payload_def serializeBufferToVector_prefixed)
qed

lemma TxL2Logs_toBuffer_prefixed:
  assumes "length (tx_payload t) < 2 ^ 32"
  shows "TxL2Logs_toBuffer t = Inr (prefixed (tx_payload t))"
proof -
  have "rtraverse FunctionL2Logs_toBuffer (functionLogs t) = Inr (map (\<lambda>l. prefixed (fn_payload l)) (functionLogs t))"
    by (rule rtraverse_map, rule FunctionL2Logs_toBuffer_prefixed) (use assms fn_fits in fastforce)
  then show ?thesis using assms
    by (simp add: TxL2Logs_toBuffer_def tx_payload_def serializeBufferToVector_prefixed)
qed

lemma L2BlockL2Logs_toBuffer_prefixed:
  assumes "length (block_payload l) < 2 ^ 32"
  shows "L2BlockL2Logs_toBuffer l = Inr (prefixed (block_payload l))"
proof -
  have "rtraverse TxL2Logs_toBuffer (txLogs l) = Inr (map (\<lambda>t. prefixed (tx_payload t)) (txLogs l))"
    by (rule rtraverse_map, rule TxL2Logs_toBuffer_prefixed) (use assms tx_fits in fastforce)
  then show ?thesis using assms
    by (simp add: L2BlockL2Logs_toBuffer_def block_payload_def serializeBufferToVector_prefixed)
qed

section \<open>Reading back\<close>

lemma FunctionL2Logs_fromBuffer_payload:
  assumes "length (fn_payload l) < 2 ^ 32"
  shows "FunctionL2Logs_fromBuffer (fn_payload l) False = Inr l"
    and "FunctionL2Logs_fromBuffer (prefixed (fn_payload l)) True = Inr l"
proof -
  have r: "reads_end (readBufferArray (-1)) (fn_payload l) (logs l)"
    unfolding fn_payload_def by (rule readBufferArray_reads_end) (use assms log_fits in fastforce)
  show "FunctionL2Logs_fromBuffer (fn_payload l) False = Inr l"
    and "FunctionL2Logs_fromBuffer (prefixed (fn_payload l)) True = Inr l"
    using reads_end_whole[OF r] reads_end_offset[OF r, of "be_bytes 4 (int (length (fn_payload l)))" 4]
    by (simp_all add: FunctionL2Logs_fromBuffer_def prefixed_def)
qed

lemma TxL2Logs_fromBuffer_payload:
  assumes "length (tx_payload t) < 2 ^ 32"
  shows "TxL2Logs_fromBuffer (tx_payload t) False = Inr t"
    and "TxL2Logs_fromBuffer (prefixed (tx_payload t)) True = Inr t"
proof -
  let ?ps = "map fn_payload (functionLogs t)"
  have e: "tx_payload t = concat (map prefixed ?ps)" by (simp add: tx_payload_def comp_def)
  have r: "reads_end (readBufferArray (-1)) (tx_payload t) ?ps"
    unfolding e by (rule readBufferArray_reads_end) (use assms fn_fits in fastforce)
  have "rtraverse (\<lambda>b. FunctionL2Logs_fromBuffer b False) ?ps = Inr (functionLogs t)"
    by (rule rtraverse_inverse, rule FunctionL2Logs_fromBuffer_payload) (use assms fn_fits in fastforce)
  then show "TxL2Logs_fromBuffer (tx_payload t) False = Inr t"
    and "TxL2Logs_fromBuffer (prefixed (tx_payload t)) True = Inr t"
    using reads_end_whole[OF r] reads_end_offset[OF r, of "be_bytes 4 (int (length (tx_payload t)))" 4]
    by (simp_all add: TxL2Logs_fromBuffer_def prefixed_def)
qed

lemma L2BlockL2Logs_fromBuffer_reads:
  assumes "length (block_payload l) < 2 ^ 32"
  shows "reads_end L2BlockL2Logs_fromBuffer (prefixed (block_payload l)) l"
proof -
  let ?ps = "map tx_payload (txLogs l)"
  have e: "block_payload l = concat (map prefixed ?ps)" by (simp add: block_payload_def comp_def)
  have arr: "reads_end (readBufferArray (-1)) (block_payload l) ?ps"
    unfolding e by (rule readBufferArray_reads_end) (use assms tx_fits in fastforce)
  have "rtraverse (\<lambda>b. TxL2Logs_fromBuffer b False) ?ps = Inr (txLogs l)"
    by (rule rtraverse_inverse, rule TxL2Logs_fromBuffer_payload) (use assms tx_fits in fastforce)
  then have "reads_end (jbind (readBufferArray (-1)) (\<lambda>ps.
      jbind (jlift (rtraverse (\<lambda>b. TxL2Logs_fromBuffer b False) ps)) (\<lambda>ls. jreturn \<lparr>txLogs = ls\<rparr>))) (block_payload l) l"
    using arr by (simp add: reads_end_def jbind_def)
  then show ?thesis unfolding L2BlockL2Logs_fromBuffer_def prefixed_def[of "block_payload l"]
    by (rule reads_end_bind[OF reads_number, rotated 2]) (use assms in simp_all)
qed

section \<open>The kernel logs hash\<close>

definition kernel_step :: "(buffer \<Rightarrow> buffer) \<Rightarrow> function_l2_logs \<Rightarrow> buffer \<Rightarrow> buffer" where
  "kernel_step sha256 l h = sha256 (h @ sha256 (fn_payload l))"

lemma kernel_hash_loop_fold:
  assumes "\<forall>l \<in> set ls. length (fn_payload l) < 2 ^ 32"
    and "enc = concat (map (\<lambda>l. prefixed (fn_payload l)) ls)"
  shows "fst (kernel_hash_loop sha256 (int (length enc)) h \<lparr>br_buffer = pre @ enc, br_index = length pre\<rparr>) =
    Inr (fold (kernel_step sha256) ls h)"
  using assms
proof (induction ls arbitrary: pre enc h)
  case Nil
  then show ?case by (simp add: kernel_hash_loop.simps)
next
  case (Cons l ls)
  let ?p = "fn_payload l"
  define n4 where "n4 = be_bytes 4 (int (length ?p))"
  define rest where "rest = concat (map (\<lambda>l. prefixed (fn_payload l)) ls)"
  have enc: "enc = n4 @ ?p @ rest" using Cons.prems(2) by (simp add: n4_def rest_def prefixed_def)
  have l4: "length n4 = 4" by (simp add: n4_def)
  let ?r = "\<lambda>i. \<lparr>br_buffer = pre @ enc, br_index = i\<rparr>"
  have num: "readNumber (?r (length pre)) = (Inr (int (length ?p)), ?r (length pre + 4))"
    using readsD[OF reads_number, of "int (length ?p)" pre "?p @ rest"] Cons.prems(1) by (simp add: enc n4_def)
  have byt: "readBytes (length ?p) (?r (length pre + 4)) = (Inr ?p, ?r (length pre + 4 + length ?p))"
    using readsD[OF reads_bytes[OF refl], of ?p "pre @ n4" rest] by (simp add: enc l4 add.assoc)
  have IH: "fst (kernel_hash_loop sha256 (int (length rest)) (kernel_step sha256 l h)
      \<lparr>br_buffer = (pre @ n4 @ ?p) @ rest, br_index = length (pre @ n4 @ ?p)\<rparr>) =
    Inr (fold (kernel_step sha256) ls (kernel_step sha256 l h))"
    by (rule Cons.IH) (use Cons.prems(1) rest_def in simp_all)
  have len: "int (length enc) - (int (length ?p) + 4) = int (length rest)" "enc \<noteq> []"
    using l4 by (auto simp: enc)
  have "kernel_hash_loop sha256 (int (length enc)) h (?r (length pre)) =
      kernel_hash_loop sha256 (int (length rest)) (kernel_step sha256 l h) (?r (length pre + 4 + length ?p))"
    using num byt len by (subst kernel_hash_loop.simps) (simp add: kernel_step_def)
  then show ?case using IH by (simp add: enc l4 add.assoc)
qed

end
