(* ===== verification/L2Block.thy ===== *)
theory L2Block
  imports L2Logs
begin

text \<open>
  The data that travels between the components: \<^verbatim>\<open>circuits.js/src/utils/serialize.ts\<close> (the variadic \<open>serializeToBuffer\<close>),
  \<open>AppendOnlyTreeSnapshot\<close>, \<open>PublicDataWrite\<close>, \<open>ContractData\<close>, \<open>ContractPublicData\<close>, \<open>TxHash\<close>, \<open>L2Tx\<close> and \<open>L2Block\<close> of
  \<^verbatim>\<open>types/src\<close>, with their encodings, hashes and accessors. \<open>sha256\<close> is a parameter.
\<close>

section \<open>serializeToBuffer\<close>

definition boolToBuffer :: "bool \<Rightarrow> buffer" where
  "boolToBuffer v = [if v then 1 else 0]"

definition cj_numToUInt32BE :: "int \<Rightarrow> nat \<Rightarrow> buffer result" where
  "cj_numToUInt32BE n bufferSize = writeUInt32BE (Buffer_alloc bufferSize) n (int bufferSize - 4)"

text \<open>A \<open>Bufferable\<close>. \<open>BObject\<close> is an object whose \<open>toBuffer32()\<close>, or else \<open>toBuffer()\<close>, gives the result; a string is its
  length and its UTF-8 bytes; \<open>BUndefined\<close> is what a missing optional member passes.\<close>

datatype bufferable =
  BBool bool | BBuffer buffer | BNumber int | BString nat buffer | BObject "buffer result" | BUndefined
  | BArray "bufferable list"

fun serializeToBufferArray :: "bufferable list \<Rightarrow> buffer list result" where
  "serializeToBufferArray [] = Inr []"
| "serializeToBufferArray (BArray xs # objs) =
     rbind (serializeToBufferArray xs) (\<lambda>bs. rbind (serializeToBufferArray objs) (\<lambda>ret. Inr (bs @ ret)))"
| "serializeToBufferArray (BBuffer b # objs) = rbind (serializeToBufferArray objs) (\<lambda>ret. Inr (b # ret))"
| "serializeToBufferArray (BBool v # objs) = rbind (serializeToBufferArray objs) (\<lambda>ret. Inr (boolToBuffer v # ret))"
| "serializeToBufferArray (BNumber n # objs) =
     rbind (cj_numToUInt32BE n 4) (\<lambda>b. rbind (serializeToBufferArray objs) (\<lambda>ret. Inr (b # ret)))"
| "serializeToBufferArray (BString n utf8 # objs) =
     rbind (cj_numToUInt32BE (int n) 4) (\<lambda>b. rbind (serializeToBufferArray objs) (\<lambda>ret. Inr (b # utf8 # ret)))"
| "serializeToBufferArray (BObject r # objs) =
     rbind r (\<lambda>b. rbind (serializeToBufferArray objs) (\<lambda>ret. Inr (b # ret)))"
| "serializeToBufferArray (BUndefined # objs) = Inl TypeError"

definition serializeToBuffer :: "bufferable list \<Rightarrow> buffer result" where
  "serializeToBuffer objs = rbind (serializeToBufferArray objs) (\<lambda>bs. Inr (concat bs))"

section \<open>Parts of a block\<close>

record append_only_tree_snapshot =
  snap_root :: fr
  nextAvailableLeafIndex :: int

definition AppendOnlyTreeSnapshot_toBuffer :: "append_only_tree_snapshot \<Rightarrow> buffer result" where
  "AppendOnlyTreeSnapshot_toBuffer s =
     serializeToBuffer [BObject (Fr_toBuffer (snap_root s)), BNumber (nextAvailableLeafIndex s)]"

definition AppendOnlyTreeSnapshot_fromBuffer :: "append_only_tree_snapshot reading" where
  "AppendOnlyTreeSnapshot_fromBuffer = jbind Fr_fromBuffer (\<lambda>root. jbind readNumber (\<lambda>n.
     jreturn \<lparr>snap_root = root, nextAvailableLeafIndex = n\<rparr>))"

definition AppendOnlyTreeSnapshot_empty :: append_only_tree_snapshot where
  "AppendOnlyTreeSnapshot_empty = \<lparr>snap_root = Fr_ZERO, nextAvailableLeafIndex = 0\<rparr>"

record public_data_write =
  leafIndex :: fr
  newValue :: fr

definition PublicDataWrite_toBuffer :: "public_data_write \<Rightarrow> buffer result" where
  "PublicDataWrite_toBuffer w = serializeToBuffer [BObject (Fr_toBuffer (leafIndex w)), BObject (Fr_toBuffer (newValue w))]"

definition PublicDataWrite_isEmpty :: "public_data_write \<Rightarrow> bool" where
  "PublicDataWrite_isEmpty w = (Fr_isZero (leafIndex w) \<and> Fr_isZero (newValue w))"

definition PublicDataWrite_fromBuffer :: "public_data_write reading" where
  "PublicDataWrite_fromBuffer = jbind Fr_fromBuffer (\<lambda>i. jbind Fr_fromBuffer (\<lambda>v.
     jreturn \<lparr>leafIndex = i, newValue = v\<rparr>))"

definition PublicDataWrite_empty :: public_data_write where
  "PublicDataWrite_empty = \<lparr>leafIndex = Fr_ZERO, newValue = Fr_ZERO\<rparr>"

record contract_data =
  contractAddress :: aztec_address
  portalContractAddress :: eth_address

definition ContractData_toBuffer :: "contract_data \<Rightarrow> buffer result" where
  "ContractData_toBuffer c =
     serializeToBuffer [BObject (Inr (AztecAddress_toBuffer (contractAddress c))),
       BBuffer (EthAddress_toBuffer (portalContractAddress c))]"

definition ContractData_fromBuffer :: "contract_data reading" where
  "ContractData_fromBuffer = jbind AztecAddress_fromBuffer (\<lambda>aztecAddr. jbind (readBytes 20) (\<lambda>b.
     jbind (jlift (new_EthAddress b)) (\<lambda>ethAddr.
       jreturn \<lparr>contractAddress = aztecAddr, portalContractAddress = ethAddr\<rparr>)))"

definition FUNCTION_SELECTOR_NUM_BYTES :: nat where
  "FUNCTION_SELECTOR_NUM_BYTES = 4"

record encoded_contract_function =
  functionSelector :: buffer
  fn_bytecode :: buffer

definition EncodedContractFunction_toBuffer :: "encoded_contract_function \<Rightarrow> buffer result" where
  "EncodedContractFunction_toBuffer f =
     rbind (numToInt32BE (int (length (fn_bytecode f))) 4) (\<lambda>n.
       serializeToBuffer [BBuffer (functionSelector f), BBuffer (n @ fn_bytecode f)])"

definition EncodedContractFunction_fromBuffer :: "encoded_contract_function reading" where
  "EncodedContractFunction_fromBuffer = jbind (readBytes FUNCTION_SELECTOR_NUM_BYTES) (\<lambda>fnSelector.
     jbind readBuffer (\<lambda>b. jreturn \<lparr>functionSelector = fnSelector, fn_bytecode = b\<rparr>))"

record contract_public_data =
  contractData :: contract_data
  publicFunctions :: "encoded_contract_function list"
  bytecode :: buffer

definition new_ContractPublicData :: "contract_data \<Rightarrow> encoded_contract_function list \<Rightarrow> contract_public_data result" where
  "new_ContractPublicData cd fns =
     (if fns = [] then Inl (Error ''No public functions provided for ContractPublicData.'')
      else rbind (rtraverse EncodedContractFunction_toBuffer fns) (\<lambda>bs.
        rbind (serializeBufferArrayToVector bs) (\<lambda>code.
          Inr \<lparr>contractData = cd, publicFunctions = fns, bytecode = code\<rparr>)))"

definition ContractPublicData_toBuffer :: "contract_public_data \<Rightarrow> buffer result" where
  "ContractPublicData_toBuffer c =
     rbind (ContractData_toBuffer (contractData c)) (\<lambda>contractDataBuf.
       serializeToBuffer [BBuffer contractDataBuf, BBuffer (bytecode c)])"

definition ContractPublicData_fromBuffer :: "contract_public_data reading" where
  "ContractPublicData_fromBuffer = jbind (readObject ContractData_fromBuffer) (\<lambda>cd.
     jbind (readVector EncodedContractFunction_fromBuffer) (\<lambda>publicFns. jlift (new_ContractPublicData cd publicFns)))"

record tx_hash =
  th_buffer :: buffer

definition TxHash_SIZE :: nat where
  "TxHash_SIZE = 32"

definition new_TxHash :: "buffer \<Rightarrow> tx_hash result" where
  "new_TxHash b =
     (if length b \<noteq> TxHash_SIZE
      then Inl (Error (''Expected buffer to have length '' @ dec (int TxHash_SIZE) @ '' but was '' @ dec (int (length b))))
      else Inr \<lparr>th_buffer = b\<rparr>)"

definition TxHash_equals :: "tx_hash \<Rightarrow> tx_hash \<Rightarrow> bool" where
  "TxHash_equals h hash = (th_buffer h = th_buffer hash)"

definition TxHash_toString :: "tx_hash \<Rightarrow> string" where
  "TxHash_toString h = buf_to_hex (th_buffer h)"

definition TxHash_toBigInt :: "tx_hash \<Rightarrow> int result" where
  "TxHash_toBigInt h = rbind (deserializeBigInt TxHash_SIZE (th_buffer h) 0) (\<lambda>r. Inr (fst r))"

definition TxHash_fromBigInt :: "int \<Rightarrow> tx_hash result" where
  "TxHash_fromBigInt hash = rbind (serializeBigInt hash TxHash_SIZE) new_TxHash"

definition TxHash_fromBuffer28 :: "buffer \<Rightarrow> tx_hash result" where
  "TxHash_fromBuffer28 b =
     (if length b \<noteq> 28 then Inl (Error ''Expected TxHash input buffer to be 28 bytes'')
      else new_TxHash (Buffer_alloc (TxHash_SIZE - 28) @ b))"

section \<open>The block\<close>

record l2_block =
  blk_number :: int
  startPrivateDataTreeSnapshot :: append_only_tree_snapshot
  startNullifierTreeSnapshot :: append_only_tree_snapshot
  startContractTreeSnapshot :: append_only_tree_snapshot
  startTreeOfHistoricPrivateDataTreeRootsSnapshot :: append_only_tree_snapshot
  startTreeOfHistoricContractTreeRootsSnapshot :: append_only_tree_snapshot
  startPublicDataTreeRoot :: fr
  startL1ToL2MessageTreeSnapshot :: append_only_tree_snapshot
  startTreeOfHistoricL1ToL2MessageTreeRootsSnapshot :: append_only_tree_snapshot
  endPrivateDataTreeSnapshot :: append_only_tree_snapshot
  endNullifierTreeSnapshot :: append_only_tree_snapshot
  endContractTreeSnapshot :: append_only_tree_snapshot
  endTreeOfHistoricPrivateDataTreeRootsSnapshot :: append_only_tree_snapshot
  endTreeOfHistoricContractTreeRootsSnapshot :: append_only_tree_snapshot
  endPublicDataTreeRoot :: fr
  endL1ToL2MessageTreeSnapshot :: append_only_tree_snapshot
  endTreeOfHistoricL1ToL2MessageTreeRootsSnapshot :: append_only_tree_snapshot
  newCommitments :: "fr list"
  newNullifiers :: "fr list"
  newPublicDataWrites :: "public_data_write list"
  newL2ToL1Msgs :: "fr list"
  newContracts :: "fr list"
  newContractData :: "contract_data list"
  newL1ToL2Messages :: "fr list"
  newEncryptedLogs :: "l2_block_l2_logs option"

definition new_L2Block ::
  "int \<Rightarrow> append_only_tree_snapshot \<Rightarrow> append_only_tree_snapshot \<Rightarrow>
   append_only_tree_snapshot \<Rightarrow> append_only_tree_snapshot \<Rightarrow> append_only_tree_snapshot \<Rightarrow>
   fr \<Rightarrow> append_only_tree_snapshot \<Rightarrow> append_only_tree_snapshot \<Rightarrow>
   append_only_tree_snapshot \<Rightarrow> append_only_tree_snapshot \<Rightarrow> append_only_tree_snapshot \<Rightarrow>
   append_only_tree_snapshot \<Rightarrow> append_only_tree_snapshot \<Rightarrow> fr \<Rightarrow>
   append_only_tree_snapshot \<Rightarrow> append_only_tree_snapshot \<Rightarrow> fr list \<Rightarrow>
   fr list \<Rightarrow> public_data_write list \<Rightarrow> fr list \<Rightarrow> fr list \<Rightarrow>
   contract_data list \<Rightarrow> fr list \<Rightarrow> l2_block_l2_logs option \<Rightarrow> l2_block" where
  "new_L2Block x0 x1 x2 x3 x4 x5 x6 x7 x8 x9 x10 x11 x12 x13 x14 x15 x16 x17 x18 x19 x20 x21 x22 x23 x24 =
     \<lparr>blk_number = x0, startPrivateDataTreeSnapshot = x1, startNullifierTreeSnapshot = x2, startContractTreeSnapshot = x3,
      startTreeOfHistoricPrivateDataTreeRootsSnapshot = x4, startTreeOfHistoricContractTreeRootsSnapshot = x5,
      startPublicDataTreeRoot = x6, startL1ToL2MessageTreeSnapshot = x7,
      startTreeOfHistoricL1ToL2MessageTreeRootsSnapshot = x8, endPrivateDataTreeSnapshot = x9,
      endNullifierTreeSnapshot = x10, endContractTreeSnapshot = x11, endTreeOfHistoricPrivateDataTreeRootsSnapshot = x12,
      endTreeOfHistoricContractTreeRootsSnapshot = x13, endPublicDataTreeRoot = x14, endL1ToL2MessageTreeSnapshot = x15,
      endTreeOfHistoricL1ToL2MessageTreeRootsSnapshot = x16, newCommitments = x17, newNullifiers = x18,
      newPublicDataWrites = x19, newL2ToL1Msgs = x20, newContracts = x21, newContractData = x22, newL1ToL2Messages = x23,
      newEncryptedLogs = x24\<rparr>"

text \<open>The members of the object given to \<open>fromFields\<close> are passed by name to the positional constructor.\<close>

definition L2Block_fromFields :: "l2_block \<Rightarrow> l2_block" where
  "L2Block_fromFields f =
     new_L2Block (blk_number f) (startPrivateDataTreeSnapshot f) (startNullifierTreeSnapshot f)
       (startContractTreeSnapshot f) (startTreeOfHistoricPrivateDataTreeRootsSnapshot f)
       (startTreeOfHistoricContractTreeRootsSnapshot f) (startPublicDataTreeRoot f)
       (startL1ToL2MessageTreeSnapshot f) (startTreeOfHistoricL1ToL2MessageTreeRootsSnapshot f)
       (endPrivateDataTreeSnapshot f) (endNullifierTreeSnapshot f) (endContractTreeSnapshot f)
       (endTreeOfHistoricPrivateDataTreeRootsSnapshot f) (endTreeOfHistoricContractTreeRootsSnapshot f)
       (endPublicDataTreeRoot f) (endL1ToL2MessageTreeSnapshot f)
       (endTreeOfHistoricL1ToL2MessageTreeRootsSnapshot f) (newCommitments f) (newNullifiers f)
       (newPublicDataWrites f) (newL2ToL1Msgs f) (newContracts f) (newContractData f)
       (newL1ToL2Messages f) (newEncryptedLogs f)"

text \<open>The arguments of \<open>serializeToBuffer\<close> that \<open>encode\<close> shares with the hash functions.\<close>

definition start_items :: "l2_block \<Rightarrow> bufferable list" where
  "start_items b =
    [BObject (AppendOnlyTreeSnapshot_toBuffer (startPrivateDataTreeSnapshot b)),
     BObject (AppendOnlyTreeSnapshot_toBuffer (startNullifierTreeSnapshot b)),
     BObject (AppendOnlyTreeSnapshot_toBuffer (startContractTreeSnapshot b)),
     BObject (AppendOnlyTreeSnapshot_toBuffer (startTreeOfHistoricPrivateDataTreeRootsSnapshot b)),
     BObject (AppendOnlyTreeSnapshot_toBuffer (startTreeOfHistoricContractTreeRootsSnapshot b)),
     BObject (Fr_toBuffer (startPublicDataTreeRoot b)),
     BObject (AppendOnlyTreeSnapshot_toBuffer (startL1ToL2MessageTreeSnapshot b)),
     BObject (AppendOnlyTreeSnapshot_toBuffer (startTreeOfHistoricL1ToL2MessageTreeRootsSnapshot b))]"

definition end_items :: "l2_block \<Rightarrow> bufferable list" where
  "end_items b =
    [BObject (AppendOnlyTreeSnapshot_toBuffer (endPrivateDataTreeSnapshot b)),
     BObject (AppendOnlyTreeSnapshot_toBuffer (endNullifierTreeSnapshot b)),
     BObject (AppendOnlyTreeSnapshot_toBuffer (endContractTreeSnapshot b)),
     BObject (AppendOnlyTreeSnapshot_toBuffer (endTreeOfHistoricPrivateDataTreeRootsSnapshot b)),
     BObject (AppendOnlyTreeSnapshot_toBuffer (endTreeOfHistoricContractTreeRootsSnapshot b)),
     BObject (Fr_toBuffer (endPublicDataTreeRoot b)),
     BObject (AppendOnlyTreeSnapshot_toBuffer (endL1ToL2MessageTreeSnapshot b)),
     BObject (AppendOnlyTreeSnapshot_toBuffer (endTreeOfHistoricL1ToL2MessageTreeRootsSnapshot b))]"

definition fr_items :: "fr list \<Rightarrow> bufferable list" where
  "fr_items xs = map (\<lambda>x. BObject (Fr_toBuffer x)) xs"

definition L2Block_encode :: "l2_block \<Rightarrow> buffer result" where
  "L2Block_encode b = serializeToBuffer
    (BNumber (blk_number b) # start_items b @ end_items b @
     [BNumber (int (length (newCommitments b))), BArray (fr_items (newCommitments b)),
      BNumber (int (length (newNullifiers b))), BArray (fr_items (newNullifiers b)),
      BNumber (int (length (newPublicDataWrites b))),
      BArray (map (\<lambda>w. BObject (PublicDataWrite_toBuffer w)) (newPublicDataWrites b)),
      BNumber (int (length (newL2ToL1Msgs b))), BArray (fr_items (newL2ToL1Msgs b)),
      BNumber (int (length (newContracts b))), BArray (fr_items (newContracts b)),
      BArray (map (\<lambda>c. BObject (ContractData_toBuffer c)) (newContractData b)),
      BNumber (int (length (newL1ToL2Messages b))), BArray (fr_items (newL1ToL2Messages b)),
      (case newEncryptedLogs b of None \<Rightarrow> BUndefined | Some l \<Rightarrow> BObject (L2BlockL2Logs_toBuffer l))])"

definition L2Block_toBuffer :: "l2_block \<Rightarrow> buffer result" where
  "L2Block_toBuffer b = L2Block_encode b"

definition L2Block_decode :: "l2_block reading" where
  "L2Block_decode =
     jbind readNumber (\<lambda>v_number.
     jbind (readObject AppendOnlyTreeSnapshot_fromBuffer) (\<lambda>v_startPrivateDataTreeSnapshot.
     jbind (readObject AppendOnlyTreeSnapshot_fromBuffer) (\<lambda>v_startNullifierTreeSnapshot.
     jbind (readObject AppendOnlyTreeSnapshot_fromBuffer) (\<lambda>v_startContractTreeSnapshot.
     jbind (readObject AppendOnlyTreeSnapshot_fromBuffer) (\<lambda>v_startTreeOfHistoricPrivateDataTreeRootsSnapshot.
     jbind (readObject AppendOnlyTreeSnapshot_fromBuffer) (\<lambda>v_startTreeOfHistoricContractTreeRootsSnapshot.
     jbind (readObject Fr_fromBuffer) (\<lambda>v_startPublicDataTreeRoot.
     jbind (readObject AppendOnlyTreeSnapshot_fromBuffer) (\<lambda>v_startL1ToL2MessageTreeSnapshot.
     jbind (readObject AppendOnlyTreeSnapshot_fromBuffer) (\<lambda>v_startTreeOfHistoricL1ToL2MessageTreeRootsSnapshot.
     jbind (readObject AppendOnlyTreeSnapshot_fromBuffer) (\<lambda>v_endPrivateDataTreeSnapshot.
     jbind (readObject AppendOnlyTreeSnapshot_fromBuffer) (\<lambda>v_endNullifierTreeSnapshot.
     jbind (readObject AppendOnlyTreeSnapshot_fromBuffer) (\<lambda>v_endContractTreeSnapshot.
     jbind (readObject AppendOnlyTreeSnapshot_fromBuffer) (\<lambda>v_endTreeOfHistoricPrivateDataTreeRootsSnapshot.
     jbind (readObject AppendOnlyTreeSnapshot_fromBuffer) (\<lambda>v_endTreeOfHistoricContractTreeRootsSnapshot.
     jbind (readObject Fr_fromBuffer) (\<lambda>v_endPublicDataTreeRoot.
     jbind (readObject AppendOnlyTreeSnapshot_fromBuffer) (\<lambda>v_endL1ToL2MessageTreeSnapshot.
     jbind (readObject AppendOnlyTreeSnapshot_fromBuffer) (\<lambda>v_endTreeOfHistoricL1ToL2MessageTreeRootsSnapshot.
     jbind (readVector Fr_fromBuffer) (\<lambda>v_newCommitments.
     jbind (readVector Fr_fromBuffer) (\<lambda>v_newNullifiers.
     jbind (readVector PublicDataWrite_fromBuffer) (\<lambda>v_newPublicDataWrites.
     jbind (readVector Fr_fromBuffer) (\<lambda>v_newL2ToL1Msgs.
     jbind (readVector Fr_fromBuffer) (\<lambda>v_newContracts.
     jbind (readArray (length v_newContracts) ContractData_fromBuffer) (\<lambda>v_newContractData.
     jbind (readVector Fr_fromBuffer) (\<lambda>v_newL1ToL2Messages.
     jbind (readObject L2BlockL2Logs_fromBuffer) (\<lambda>v_newEncryptedLogs.
     jreturn (L2Block_fromFields
       \<lparr>blk_number = v_number, startPrivateDataTreeSnapshot = v_startPrivateDataTreeSnapshot,
        startNullifierTreeSnapshot = v_startNullifierTreeSnapshot, startContractTreeSnapshot = v_startContractTreeSnapshot,
        startTreeOfHistoricPrivateDataTreeRootsSnapshot = v_startTreeOfHistoricPrivateDataTreeRootsSnapshot,
        startTreeOfHistoricContractTreeRootsSnapshot = v_startTreeOfHistoricContractTreeRootsSnapshot,
        startPublicDataTreeRoot = v_startPublicDataTreeRoot, startL1ToL2MessageTreeSnapshot = v_startL1ToL2MessageTreeSnapshot,
        startTreeOfHistoricL1ToL2MessageTreeRootsSnapshot = v_startTreeOfHistoricL1ToL2MessageTreeRootsSnapshot,
        endPrivateDataTreeSnapshot = v_endPrivateDataTreeSnapshot, endNullifierTreeSnapshot = v_endNullifierTreeSnapshot,
        endContractTreeSnapshot = v_endContractTreeSnapshot,
        endTreeOfHistoricPrivateDataTreeRootsSnapshot = v_endTreeOfHistoricPrivateDataTreeRootsSnapshot,
        endTreeOfHistoricContractTreeRootsSnapshot = v_endTreeOfHistoricContractTreeRootsSnapshot,
        endPublicDataTreeRoot = v_endPublicDataTreeRoot, endL1ToL2MessageTreeSnapshot = v_endL1ToL2MessageTreeSnapshot,
        endTreeOfHistoricL1ToL2MessageTreeRootsSnapshot = v_endTreeOfHistoricL1ToL2MessageTreeRootsSnapshot,
        newCommitments = v_newCommitments, newNullifiers = v_newNullifiers, newPublicDataWrites = v_newPublicDataWrites,
        newL2ToL1Msgs = v_newL2ToL1Msgs, newContracts = v_newContracts, newContractData = v_newContractData,
        newL1ToL2Messages = v_newL1ToL2Messages, newEncryptedLogs = Some v_newEncryptedLogs\<rparr>))))))))))))))))))))))))))"

text \<open>The only method that mutates a block.\<close>

definition L2Block_attachEncryptedLogs :: "l2_block_l2_logs \<Rightarrow> (l2_block, unit) js" where
  "L2Block_attachEncryptedLogs encryptedLogs b =
     (case newEncryptedLogs b of
        Some _ \<Rightarrow> (Inl (Error ''L2 block already has encrypted logs attached.''), b)
      | None \<Rightarrow> (Inr (), b\<lparr>newEncryptedLogs := Some encryptedLogs\<rparr>))"

section \<open>Hashes of a block\<close>

definition KERNEL_NEW_COMMITMENTS_LENGTH :: nat where
  "KERNEL_NEW_COMMITMENTS_LENGTH = 4"

definition KERNEL_NEW_NULLIFIERS_LENGTH :: nat where
  "KERNEL_NEW_NULLIFIERS_LENGTH = 4"

definition KERNEL_NEW_CONTRACTS_LENGTH :: nat where
  "KERNEL_NEW_CONTRACTS_LENGTH = 1"

definition KERNEL_NEW_L2_TO_L1_MSGS_LENGTH :: nat where
  "KERNEL_NEW_L2_TO_L1_MSGS_LENGTH = 2"

definition KERNEL_PUBLIC_DATA_UPDATE_REQUESTS_LENGTH :: nat where
  "KERNEL_PUBLIC_DATA_UPDATE_REQUESTS_LENGTH = 4"

definition L2Block_getStartStateHash :: "(buffer \<Rightarrow> buffer) \<Rightarrow> l2_block \<Rightarrow> buffer result" where
  "L2Block_getStartStateHash sha256 b =
     rbind (serializeToBuffer (BNumber (blk_number b - 1) # start_items b)) (\<lambda>inputValue. Inr (sha256 inputValue))"

definition L2Block_getEndStateHash :: "(buffer \<Rightarrow> buffer) \<Rightarrow> l2_block \<Rightarrow> buffer result" where
  "L2Block_getEndStateHash sha256 b =
     rbind (serializeToBuffer (BNumber (blk_number b) # end_items b)) (\<lambda>inputValue. Inr (sha256 inputValue))"

definition L2Block_getL1ToL2MessagesHash :: "(buffer \<Rightarrow> buffer) \<Rightarrow> l2_block \<Rightarrow> buffer result" where
  "L2Block_getL1ToL2MessagesHash sha256 b =
     rbind (rtraverse Fr_toBuffer (newL1ToL2Messages b)) (\<lambda>bs. Inr (sha256 (concat bs)))"

text \<open>One pass of the loop of \<open>computeRoot\<close>; \<open>Buffer.concat\<close> of a missing right neighbour throws.\<close>

fun hash_layer :: "(buffer \<Rightarrow> buffer) \<Rightarrow> buffer list \<Rightarrow> buffer list result" where
  "hash_layer sha256 [] = Inr []"
| "hash_layer sha256 [left] = Inl TypeError"
| "hash_layer sha256 (left # right # rest) =
     rbind (hash_layer sha256 rest) (\<lambda>layer. Inr (sha256 (left @ right) # layer))"

lemma hash_layer_length: "hash_layer sha256 xs = Inr ys \<Longrightarrow> 2 * length ys = length xs"
  by (induction sha256 xs arbitrary: ys rule: hash_layer.induct) auto

text \<open>\<open>computeRoot(leafs)\<close>; without leaves the result is \<open>undefined\<close>.\<close>

function computeRoot :: "(buffer \<Rightarrow> buffer) \<Rightarrow> buffer list \<Rightarrow> buffer option result" where
  "computeRoot sha256 leafs =
     (if length leafs > 1 then
        (case hash_layer sha256 leafs of Inl e \<Rightarrow> Inl e | Inr layer \<Rightarrow> computeRoot sha256 layer)
      else Inr (case leafs of [] \<Rightarrow> None | x # _ \<Rightarrow> Some x))"
  by pat_completeness auto
termination
  by (relation "measure (\<lambda>(_, xs). length xs)") (auto dest!: hash_layer_length[OF sym] hash_layer_length)

declare computeRoot.simps [simp del]

text \<open>A property access on \<open>xs[i]\<close>.\<close>

definition js_at :: "'a list \<Rightarrow> nat \<Rightarrow> 'a result" where
  "js_at xs i = (if i < length xs then Inr (xs ! i) else Inl TypeError)"

definition portal32 :: "contract_data \<Rightarrow> buffer" where
  "portal32 c = EthAddress_toBuffer32 (portalContractAddress c)"

text \<open>The input of the \<open>i\<close>-th leaf of the calldata tree, the data of two kernels.\<close>

definition calldata_leaf :: "l2_block \<Rightarrow> nat \<Rightarrow> buffer result" where
  "calldata_leaf b i =
     (let commitmentsPerBase = KERNEL_NEW_COMMITMENTS_LENGTH * 2;
          nullifiersPerBase = KERNEL_NEW_NULLIFIERS_LENGTH * 2;
          publicDataUpdateRequestsPerBase = KERNEL_PUBLIC_DATA_UPDATE_REQUESTS_LENGTH * 2;
          l2ToL1MsgsPerBase = KERNEL_NEW_L2_TO_L1_MSGS_LENGTH * 2
      in
      rbind (rtraverse Fr_toBuffer (subarray (i * commitmentsPerBase) ((i + 1) * commitmentsPerBase) (newCommitments b))) (\<lambda>cs.
      rbind (rtraverse Fr_toBuffer (subarray (i * nullifiersPerBase) ((i + 1) * nullifiersPerBase) (newNullifiers b))) (\<lambda>ns.
      rbind (rtraverse PublicDataWrite_toBuffer
        (subarray (i * publicDataUpdateRequestsPerBase) ((i + 1) * publicDataUpdateRequestsPerBase) (newPublicDataWrites b))) (\<lambda>ws.
      rbind (rtraverse Fr_toBuffer (subarray (i * l2ToL1MsgsPerBase) ((i + 1) * l2ToL1MsgsPerBase) (newL2ToL1Msgs b))) (\<lambda>ms.
      rbind (rbind (js_at (newContracts b) (i * 2)) Fr_toBuffer) (\<lambda>c0.
      rbind (rbind (js_at (newContracts b) (i * 2 + 1)) Fr_toBuffer) (\<lambda>c1.
      rbind (js_at (newContractData b) (i * 2)) (\<lambda>d0.
      rbind (js_at (newContractData b) (i * 2 + 1)) (\<lambda>d1.
        Inr (concat [concat cs, concat ns, concat ws, concat ms, c0, c1,
          AztecAddress_toBuffer (contractAddress d0), portal32 d0,
          AztecAddress_toBuffer (contractAddress d1), portal32 d1]))))))))))"

text \<open>\<open>leafCount\<close> is a quotient of numbers: the loop runs for every \<open>i\<close> below it, also when it is not whole.\<close>

definition L2Block_getCalldataHash :: "(buffer \<Rightarrow> buffer) \<Rightarrow> l2_block \<Rightarrow> buffer option result" where
  "L2Block_getCalldataHash sha256 b =
     (let perLeaf = KERNEL_NEW_COMMITMENTS_LENGTH * 2;
          rounds = (length (newCommitments b) + perLeaf - 1) div perLeaf
      in rbind (rtraverse (\<lambda>i. rbind (calldata_leaf b i) (\<lambda>inputValue. Inr (sha256 inputValue))) [0..<rounds])
           (computeRoot sha256))"

definition L2Block_getPublicInputsHash :: "(buffer \<Rightarrow> buffer) \<Rightarrow> l2_block \<Rightarrow> fr result" where
  "L2Block_getPublicInputsHash sha256 b =
     rbind (L2Block_getCalldataHash sha256 b) (\<lambda>calldataHash.
     rbind (L2Block_getL1ToL2MessagesHash sha256 b) (\<lambda>messagesHash.
     rbind (serializeToBuffer (start_items b @ end_items b @
         [case calldataHash of None \<Rightarrow> BUndefined | Some h \<Rightarrow> BBuffer h, BBuffer messagesHash])) (\<lambda>buf.
       let temp = toBigIntBE (sha256 buf) in
       rbind (toBufferBE (temp mod Fr_MODULUS) 32) (\<lambda>bytes. fst (Fr_fromBuffer (new_BufferReader bytes 0))))))"

section \<open>Transactions of a block\<close>

record l2_tx =
  tx_newCommitments :: "fr list"
  tx_newNullifiers :: "fr list"
  tx_newPublicDataWrites :: "public_data_write list"
  tx_newL2ToL1Msgs :: "fr list"
  tx_newContracts :: "fr list"
  tx_newContractData :: "contract_data list"
  tx_txHash :: tx_hash

definition new_L2Tx ::
  "fr list \<Rightarrow> fr list \<Rightarrow> public_data_write list \<Rightarrow> fr list \<Rightarrow> fr list \<Rightarrow> contract_data list \<Rightarrow> l2_tx result" where
  "new_L2Tx commitments nullifiers publicDataWrites l2ToL1Msgs contracts cdata =
     rbind (rbind (js_at nullifiers 0) Fr_toBuffer) (\<lambda>h. rbind (new_TxHash h) (\<lambda>txHash.
       Inr \<lparr>tx_newCommitments = commitments, tx_newNullifiers = nullifiers, tx_newPublicDataWrites = publicDataWrites,
            tx_newL2ToL1Msgs = l2ToL1Msgs, tx_newContracts = contracts, tx_newContractData = cdata, tx_txHash = txHash\<rparr>))"

definition L2Block_getTx :: "nat \<Rightarrow> l2_block \<Rightarrow> l2_tx result" where
  "L2Block_getTx txIndex b =
     (let numTxs = length (newCommitments b) div KERNEL_NEW_COMMITMENTS_LENGTH in
      if txIndex \<ge> numTxs then
        Inl (Error (''Failed to get tx '' @ dec (int txIndex) @ ''. Block '' @ dec (blk_number b) @ '' only has '' @
          dec (int numTxs) @ '' txs.''))
      else
        new_L2Tx
          (subarray (KERNEL_NEW_COMMITMENTS_LENGTH * txIndex) (KERNEL_NEW_COMMITMENTS_LENGTH * (txIndex + 1)) (newCommitments b))
          (subarray (KERNEL_NEW_NULLIFIERS_LENGTH * txIndex) (KERNEL_NEW_NULLIFIERS_LENGTH * (txIndex + 1)) (newNullifiers b))
          (subarray (KERNEL_PUBLIC_DATA_UPDATE_REQUESTS_LENGTH * txIndex)
            (KERNEL_PUBLIC_DATA_UPDATE_REQUESTS_LENGTH * (txIndex + 1)) (newPublicDataWrites b))
          (subarray (KERNEL_NEW_L2_TO_L1_MSGS_LENGTH * txIndex) (KERNEL_NEW_L2_TO_L1_MSGS_LENGTH * (txIndex + 1)) (newL2ToL1Msgs b))
          (subarray (KERNEL_NEW_CONTRACTS_LENGTH * txIndex) (KERNEL_NEW_CONTRACTS_LENGTH * (txIndex + 1)) (newContracts b))
          (subarray (KERNEL_NEW_CONTRACTS_LENGTH * txIndex) (KERNEL_NEW_CONTRACTS_LENGTH * (txIndex + 1)) (newContractData b)))"

end
