(* ===== verification/WorldState.thy ===== *)
theory WorldState
  imports IndexedTreeProofs BatchInsertion L2Block
begin

text \<open>
  \<^verbatim>\<open>world-state/src/world-state-db/merkle_trees.ts\<close> and \<^verbatim>\<open>merkle-tree/merkle_tree_operations_facade.ts\<close>: the eight Merkle trees of
  the rollup state over one shared database. The methods of \<open>MerkleTrees\<close> run their bodies as jobs of a \<open>SerialQueue\<close>,
  one after the other (theory \<open>SerialQueues\<close>), so each body is modelled as one transition of the state. All trees
  hold a reference to the same store: \<open>on_tree\<close> runs a method of a tree on the current store and keeps the store it
  leaves.
\<close>

section \<open>The trees\<close>

datatype MerkleTreeId =
  CONTRACT_TREE | CONTRACT_TREE_ROOTS_TREE | NULLIFIER_TREE | PRIVATE_DATA_TREE | PRIVATE_DATA_TREE_ROOTS_TREE
  | PUBLIC_DATA_TREE | L1_TO_L2_MESSAGES_TREE | L1_TO_L2_MESSAGES_ROOTS_TREE

fun treeIndex :: "MerkleTreeId \<Rightarrow> nat" where
  "treeIndex CONTRACT_TREE = 0"
| "treeIndex CONTRACT_TREE_ROOTS_TREE = 1"
| "treeIndex NULLIFIER_TREE = 2"
| "treeIndex PRIVATE_DATA_TREE = 3"
| "treeIndex PRIVATE_DATA_TREE_ROOTS_TREE = 4"
| "treeIndex PUBLIC_DATA_TREE = 5"
| "treeIndex L1_TO_L2_MESSAGES_TREE = 6"
| "treeIndex L1_TO_L2_MESSAGES_ROOTS_TREE = 7"

text \<open>\<open>MerkleTreeId[id]\<close>, the name of an enumeration value.\<close>

fun treeName :: "MerkleTreeId \<Rightarrow> string" where
  "treeName CONTRACT_TREE = ''CONTRACT_TREE''"
| "treeName CONTRACT_TREE_ROOTS_TREE = ''CONTRACT_TREE_ROOTS_TREE''"
| "treeName NULLIFIER_TREE = ''NULLIFIER_TREE''"
| "treeName PRIVATE_DATA_TREE = ''PRIVATE_DATA_TREE''"
| "treeName PRIVATE_DATA_TREE_ROOTS_TREE = ''PRIVATE_DATA_TREE_ROOTS_TREE''"
| "treeName PUBLIC_DATA_TREE = ''PUBLIC_DATA_TREE''"
| "treeName L1_TO_L2_MESSAGES_TREE = ''L1_TO_L2_MESSAGES_TREE''"
| "treeName L1_TO_L2_MESSAGES_ROOTS_TREE = ''L1_TO_L2_MESSAGES_ROOTS_TREE''"

definition tree_ids :: "MerkleTreeId list" where
  "tree_ids = [CONTRACT_TREE, CONTRACT_TREE_ROOTS_TREE, NULLIFIER_TREE, PRIVATE_DATA_TREE, PRIVATE_DATA_TREE_ROOTS_TREE,
     PUBLIC_DATA_TREE, L1_TO_L2_MESSAGES_TREE, L1_TO_L2_MESSAGES_ROOTS_TREE]"

text \<open>\<^verbatim>\<open>circuits.js/src/structs/constants.ts\<close>: the heights of the trees.\<close>

fun treeHeight :: "MerkleTreeId \<Rightarrow> nat" where
  "treeHeight CONTRACT_TREE = 8"
| "treeHeight CONTRACT_TREE_ROOTS_TREE = 8"
| "treeHeight NULLIFIER_TREE = 8"
| "treeHeight PRIVATE_DATA_TREE = 8"
| "treeHeight PRIVATE_DATA_TREE_ROOTS_TREE = 8"
| "treeHeight PUBLIC_DATA_TREE = 254"
| "treeHeight L1_TO_L2_MESSAGES_TREE = 8"
| "treeHeight L1_TO_L2_MESSAGES_ROOTS_TREE = 8"

definition INITIAL_NULLIFIER_TREE_SIZE :: int where
  "INITIAL_NULLIFIER_TREE_SIZE = 8"

text \<open>An entry of \<open>trees\<close>, by its class.\<close>

datatype 'db ws_tree = Standard "'db tree" | Indexed "'db indexed_tree" | Sparse "'db tree"

fun ws_base :: "'db ws_tree \<Rightarrow> 'db tree" where
  "ws_base (Standard t) = t"
| "ws_base (Indexed t) = it_base t"
| "ws_base (Sparse t) = t"

fun ws_set_db :: "'db \<Rightarrow> 'db ws_tree \<Rightarrow> 'db ws_tree" where
  "ws_set_db db (Standard t) = Standard (t\<lparr>tdb := db\<rparr>)"
| "ws_set_db db (Indexed t) = Indexed (t\<lparr>it_base := (it_base t)\<lparr>tdb := db\<rparr>\<rparr>)"
| "ws_set_db db (Sparse t) = Sparse (t\<lparr>tdb := db\<rparr>)"

record 'db merkle_trees =
  wdb :: 'db
  trees :: "'db ws_tree list"

text \<open>\<open>this.trees[treeId]\<close>, with its reference to the shared store.\<close>

definition the_tree :: "'db merkle_trees \<Rightarrow> MerkleTreeId \<Rightarrow> 'db ws_tree" where
  "the_tree w i = ws_set_db (wdb w) (trees w ! treeIndex i)"

definition put_tree :: "MerkleTreeId \<Rightarrow> 'db ws_tree \<Rightarrow> 'db merkle_trees \<Rightarrow> 'db merkle_trees" where
  "put_tree i t w = w\<lparr>wdb := tdb (ws_base t), trees := (trees w)[treeIndex i := t]\<rparr>"

definition on_tree :: "MerkleTreeId \<Rightarrow> ('db ws_tree, 'a) js \<Rightarrow> ('db merkle_trees, 'a) js" where
  "on_tree i m w = (case m (the_tree w i) of (r, t) \<Rightarrow> (r, put_tree i t w))"

section \<open>Methods of a tree, by class\<close>

definition lift_standard :: "('db tree, 'a) js \<Rightarrow> 'db tree \<Rightarrow> 'a result \<times> 'db ws_tree" where
  "lift_standard m t = (case m t of (r, t') \<Rightarrow> (r, Standard t'))"

definition lift_indexed :: "('db indexed_tree, 'a) js \<Rightarrow> 'db indexed_tree \<Rightarrow> 'a result \<times> 'db ws_tree" where
  "lift_indexed m t = (case m t of (r, t') \<Rightarrow> (r, Indexed t'))"

definition lift_sparse :: "('db tree, 'a) js \<Rightarrow> 'db tree \<Rightarrow> 'a result \<times> 'db ws_tree" where
  "lift_sparse m t = (case m t of (r, t') \<Rightarrow> (r, Sparse t'))"

fun ws_commit :: "'db tree_env \<Rightarrow> ('db ws_tree, unit) js" where
  "ws_commit env (Standard t) = lift_standard (TreeBase_commit env) t"
| "ws_commit env (Indexed t) = lift_indexed (it_commit env) t"
| "ws_commit env (Sparse t) = lift_sparse (TreeBase_commit env) t"

fun ws_rollback :: "('db ws_tree, unit) js" where
  "ws_rollback (Standard t) = (Inr (), Standard (TreeBase_rollback t))"
| "ws_rollback (Indexed t) = (Inr (), Indexed (it_rollback t))"
| "ws_rollback (Sparse t) = (Inr (), Sparse (TreeBase_rollback t))"

fun ws_appendLeaves :: "'db tree_env \<Rightarrow> buffer list \<Rightarrow> ('db ws_tree, unit) js" where
  "ws_appendLeaves env ls (Standard t) = lift_standard (StandardTree_appendLeaves env ls) t"
| "ws_appendLeaves env ls (Indexed t) = lift_indexed (it_appendLeaves env ls) t"
| "ws_appendLeaves env ls (Sparse t) = (Inl (Error ''Tree does not support `appendLeaves` method''), Sparse t)"

text \<open>A leaf is a buffer or a record; a class that is given the other one throws when it calls a method of the leaf.\<close>

datatype ws_leaf = LeafBuffer buffer | LeafRecord leaf_data

fun ws_updateLeaf :: "'db tree_env \<Rightarrow> ws_leaf \<Rightarrow> int \<Rightarrow> ('db ws_tree, unit) js" where
  "ws_updateLeaf env leaf index (Standard t) = (Inl (Error ''Tree does not support `updateLeaf` method''), Standard t)"
| "ws_updateLeaf env (LeafRecord r) index (Indexed t) = lift_indexed (it_updateLeaf env r index) t"
| "ws_updateLeaf env (LeafBuffer b) index (Indexed t) = (Inl TypeError, Indexed t)"
| "ws_updateLeaf env (LeafBuffer b) index (Sparse t) = lift_sparse (SparseTree_updateLeaf env b index) t"
| "ws_updateLeaf env (LeafRecord r) index (Sparse t) =
     (if index > maxIndex t then lift_sparse (SparseTree_updateLeaf env [] index) t else (Inl TypeError, Sparse t))"

fun ws_getLeafValue :: "'db tree_env \<Rightarrow> int \<Rightarrow> bool \<Rightarrow> 'db ws_tree \<Rightarrow> buffer option result" where
  "ws_getLeafValue env index b (Standard t) = Inr (Some (getLeafValue env t index b))"
| "ws_getLeafValue env index b (Indexed t) = it_getLeafValue t index b"
| "ws_getLeafValue env index b (Sparse t) = Inr (Some (getLeafValue env t index b))"

section \<open>Bodies of the jobs\<close>

record tree_info =
  ti_treeId :: MerkleTreeId
  ti_root :: buffer
  ti_size :: int
  ti_depth :: nat

definition MerkleTrees_getTreeInfo :: "MerkleTreeId \<Rightarrow> bool \<Rightarrow> 'db merkle_trees \<Rightarrow> tree_info" where
  "MerkleTrees_getTreeInfo i includeUncommitted w =
     (let t = ws_base (the_tree w i) in
      \<lparr>ti_treeId = i, ti_root = getRoot t includeUncommitted, ti_size = getNumLeaves t includeUncommitted,
       ti_depth = getDepth t\<rparr>)"

record commitment_roots =
  privateDataTreeRoot :: buffer
  contractDataTreeRoot :: buffer
  l1Tol2MessagesTreeRoot :: buffer
  nullifierTreeRoot :: buffer

definition MerkleTrees_getCommitmentTreeRoots :: "bool \<Rightarrow> 'db merkle_trees \<Rightarrow> commitment_roots" where
  "MerkleTrees_getCommitmentTreeRoots includeUncommitted w =
     (let roots = map (\<lambda>i. getRoot (ws_base (the_tree w i)) includeUncommitted)
            [PRIVATE_DATA_TREE, CONTRACT_TREE, L1_TO_L2_MESSAGES_TREE, NULLIFIER_TREE]
      in \<lparr>privateDataTreeRoot = roots ! 0, contractDataTreeRoot = roots ! 1, l1Tol2MessagesTreeRoot = roots ! 2,
          nullifierTreeRoot = roots ! 3\<rparr>)"

definition MerkleTrees_getLeafValue :: "'db tree_env \<Rightarrow> MerkleTreeId \<Rightarrow> int \<Rightarrow> bool \<Rightarrow> 'db merkle_trees \<Rightarrow> buffer option result" where
  "MerkleTrees_getLeafValue env i index includeUncommitted w = ws_getLeafValue env index includeUncommitted (the_tree w i)"

definition MerkleTrees_getSiblingPath :: "'db tree_env \<Rightarrow> MerkleTreeId \<Rightarrow> int \<Rightarrow> bool \<Rightarrow> 'db merkle_trees \<Rightarrow> sibling_path result" where
  "MerkleTrees_getSiblingPath env i index includeUncommitted w =
     getSiblingPath env (ws_base (the_tree w i)) index includeUncommitted"

text \<open>\<open>_getIndexedTree\<close> casts; a method that the tree does not have is \<open>undefined\<close> and cannot be called.\<close>

definition MerkleTrees_getPreviousValueIndex :: "MerkleTreeId \<Rightarrow> int \<Rightarrow> bool \<Rightarrow> 'db merkle_trees \<Rightarrow> (int \<times> bool) result" where
  "MerkleTrees_getPreviousValueIndex i v includeUncommitted w =
     (case the_tree w i of Indexed t \<Rightarrow> Inr (findIndexOfPreviousValue t v includeUncommitted) | _ \<Rightarrow> Inl TypeError)"

definition MerkleTrees_getLeafData :: "MerkleTreeId \<Rightarrow> int \<Rightarrow> bool \<Rightarrow> 'db merkle_trees \<Rightarrow> leaf_data option result" where
  "MerkleTrees_getLeafData i index includeUncommitted w =
     (case the_tree w i of Indexed t \<Rightarrow> Inr (getLatestLeafDataCopy t index includeUncommitted) | _ \<Rightarrow> Inl TypeError)"

text \<open>The loop of \<open>findLeafIndex\<close> over the indices below \<open>getNumLeaves\<close>.\<close>

fun find_leaf_loop :: "(int \<Rightarrow> buffer option result) \<Rightarrow> buffer \<Rightarrow> int list \<Rightarrow> int option result" where
  "find_leaf_loop getValue v [] = Inr None"
| "find_leaf_loop getValue v (i # is) =
     rbind (getValue i) (\<lambda>currentValue. if currentValue = Some v then Inr (Some i) else find_leaf_loop getValue v is)"

definition MerkleTrees_findLeafIndex :: "'db tree_env \<Rightarrow> MerkleTreeId \<Rightarrow> buffer \<Rightarrow> bool \<Rightarrow> 'db merkle_trees \<Rightarrow> int option result" where
  "MerkleTrees_findLeafIndex env i v includeUncommitted w =
     (let tree = the_tree w i in
      find_leaf_loop (\<lambda>j. ws_getLeafValue env j includeUncommitted tree) v
        (map int [0..<nat (getNumLeaves (ws_base tree) includeUncommitted)]))"

definition MerkleTrees_appendLeaves :: "'db tree_env \<Rightarrow> MerkleTreeId \<Rightarrow> buffer list \<Rightarrow> ('db merkle_trees, unit) js" where
  "MerkleTrees_appendLeaves env i ls = on_tree i (ws_appendLeaves env ls)"

definition MerkleTrees_updateLeaf :: "'db tree_env \<Rightarrow> MerkleTreeId \<Rightarrow> ws_leaf \<Rightarrow> int \<Rightarrow> ('db merkle_trees, unit) js" where
  "MerkleTrees_updateLeaf env i leaf index = on_tree i (ws_updateLeaf env leaf index)"

definition MerkleTrees_batchInsert ::
  "'db tree_env \<Rightarrow> MerkleTreeId \<Rightarrow> buffer list \<Rightarrow> nat \<Rightarrow> nat \<Rightarrow> ('db merkle_trees, low_leaf_witness list option \<times> sibling_path) js" where
  "MerkleTrees_batchInsert env i ls height subtreeHeight = on_tree i (\<lambda>t.
     case t of
       Indexed it \<Rightarrow> lift_indexed (batchInsert env ls height subtreeHeight) it
     | _ \<Rightarrow> (Inl (Error ''Tree does not support `batchInsert` method''), t))"

definition MerkleTrees_commit :: "'db tree_env \<Rightarrow> ('db merkle_trees, unit) js" where
  "MerkleTrees_commit env = jfor (\<lambda>i. on_tree i (ws_commit env)) tree_ids"

definition MerkleTrees_rollback :: "('db merkle_trees, unit) js" where
  "MerkleTrees_rollback = jfor (\<lambda>i. on_tree i ws_rollback) tree_ids"

text \<open>The pairs of a tree and the tree of its historic roots.\<close>

definition roots_pairs :: "(MerkleTreeId \<times> MerkleTreeId) list" where
  "roots_pairs = [(PRIVATE_DATA_TREE, PRIVATE_DATA_TREE_ROOTS_TREE), (CONTRACT_TREE, CONTRACT_TREE_ROOTS_TREE),
     (L1_TO_L2_MESSAGES_TREE, L1_TO_L2_MESSAGES_ROOTS_TREE)]"

text \<open>Two jobs per pair; other jobs of the queue may come between them.\<close>

definition updateHistoricRootsTrees :: "'db tree_env \<Rightarrow> bool \<Rightarrow> ('db merkle_trees, unit) js" where
  "updateHistoricRootsTrees env includeUncommitted =
     jfor (\<lambda>(newTree, rootTree). jbind jget (\<lambda>w.
       MerkleTrees_appendLeaves env rootTree [ti_root (MerkleTrees_getTreeInfo newTree includeUncommitted w)])) roots_pairs"

section \<open>Handling a block\<close>

definition compareRoot :: "fr \<Rightarrow> MerkleTreeId \<Rightarrow> 'db merkle_trees \<Rightarrow> bool result" where
  "compareRoot root i w = rbind (Fr_toBuffer root) (\<lambda>b. Inr (getRoot (ws_base (the_tree w i)) True = b))"

definition rootChecks :: "l2_block \<Rightarrow> 'db merkle_trees \<Rightarrow> bool list result" where
  "rootChecks l2Block w = rtraverse (\<lambda>(root, i). compareRoot root i w)
     [(snap_root (endContractTreeSnapshot l2Block), CONTRACT_TREE),
      (snap_root (endNullifierTreeSnapshot l2Block), NULLIFIER_TREE),
      (snap_root (endPrivateDataTreeSnapshot l2Block), PRIVATE_DATA_TREE),
      (endPublicDataTreeRoot l2Block, PUBLIC_DATA_TREE),
      (snap_root (endTreeOfHistoricContractTreeRootsSnapshot l2Block), CONTRACT_TREE_ROOTS_TREE),
      (snap_root (endTreeOfHistoricPrivateDataTreeRootsSnapshot l2Block), PRIVATE_DATA_TREE_ROOTS_TREE),
      (snap_root (endL1ToL2MessageTreeSnapshot l2Block), L1_TO_L2_MESSAGES_TREE),
      (snap_root (endTreeOfHistoricL1ToL2MessageTreeRootsSnapshot l2Block), L1_TO_L2_MESSAGES_ROOTS_TREE)]"

definition append_frs :: "'db tree_env \<Rightarrow> MerkleTreeId \<times> fr list \<Rightarrow> ('db merkle_trees, unit) js" where
  "append_frs env = (\<lambda>(tree, leaves). jbind (jlift (rtraverse Fr_toBuffer leaves)) (MerkleTrees_appendLeaves env tree))"

definition write_public_data :: "'db tree_env \<Rightarrow> public_data_write \<Rightarrow> ('db merkle_trees, unit) js" where
  "write_public_data env dataWrite =
     (if PublicDataWrite_isEmpty dataWrite then jreturn ()
      else jbind (jlift (Fr_toBuffer (newValue dataWrite))) (\<lambda>b.
        MerkleTrees_updateLeaf env PUBLIC_DATA_TREE (LeafBuffer b) (fr_value (leafIndex dataWrite))))"

definition append_root :: "'db tree_env \<Rightarrow> MerkleTreeId \<times> MerkleTreeId \<Rightarrow> ('db merkle_trees, unit) js" where
  "append_root env = (\<lambda>(newTree, rootTree). jbind jget (\<lambda>w.
     MerkleTrees_appendLeaves env rootTree [getRoot (ws_base (the_tree w newTree)) True]))"

definition MerkleTrees_handleL2Block :: "'db tree_env \<Rightarrow> l2_block \<Rightarrow> ('db merkle_trees, unit) js" where
  "MerkleTrees_handleL2Block env l2Block =
     jbind jget (\<lambda>w. jbind (jlift (rootChecks l2Block w)) (\<lambda>checks.
       if list_all id checks then MerkleTrees_commit env
       else
         jbind MerkleTrees_rollback (\<lambda>_.
         jbind (jfor (append_frs env)
           [(CONTRACT_TREE, newContracts l2Block), (NULLIFIER_TREE, newNullifiers l2Block),
            (PRIVATE_DATA_TREE, newCommitments l2Block), (L1_TO_L2_MESSAGES_TREE, newL1ToL2Messages l2Block)]) (\<lambda>_.
         jbind (jfor (write_public_data env) (newPublicDataWrites l2Block)) (\<lambda>_.
         jbind (jfor (append_root env) roots_pairs) (\<lambda>_.
           MerkleTrees_commit env))))))"

section \<open>Initialisation\<close>

text \<open>The call of \<open>newTree\<close> for each tree: its class, name, height and prefilled size.\<close>

definition new_ws_tree :: "'db tree_env \<Rightarrow> 'db \<Rightarrow> MerkleTreeId \<Rightarrow> 'db ws_tree result" where
  "new_ws_tree env db i =
     (if i = NULLIFIER_TREE
      then rbind (newIndexedTree env db (treeName i) (treeHeight i) INITIAL_NULLIFIER_TREE_SIZE) (\<lambda>t. Inr (Indexed t))
      else if i = PUBLIC_DATA_TREE then rbind (newTree env db (treeName i) (treeHeight i)) (\<lambda>t. Inr (Sparse t))
      else rbind (newTree env db (treeName i) (treeHeight i)) (\<lambda>t. Inr (Standard t)))"

fun init_trees :: "'db tree_env \<Rightarrow> 'db \<Rightarrow> MerkleTreeId list \<Rightarrow> 'db ws_tree list \<Rightarrow> 'db merkle_trees result" where
  "init_trees env db [] ts = Inr \<lparr>wdb = db, trees = ts\<rparr>"
| "init_trees env db (i # is) ts =
     rbind (new_ws_tree env db i) (\<lambda>t. init_trees env (tdb (ws_base t)) is (ts @ [t]))"

definition MerkleTrees_new :: "'db tree_env \<Rightarrow> 'db \<Rightarrow> 'db merkle_trees result" where
  "MerkleTrees_new env db =
     rbind (init_trees env db tree_ids []) (\<lambda>w.
       case jbind (updateHistoricRootsTrees env True) (\<lambda>_.
              jfor (\<lambda>i. on_tree i (ws_commit env))
                [CONTRACT_TREE_ROOTS_TREE, PRIVATE_DATA_TREE_ROOTS_TREE, L1_TO_L2_MESSAGES_ROOTS_TREE]) w of
         (Inl e, _) \<Rightarrow> Inl e
       | (Inr _, w') \<Rightarrow> Inr w')"

section \<open>The facade\<close>

text \<open>\<open>asLatest()\<close> and \<open>asCommitted()\<close>: the same operations with a fixed \<open>includeUncommitted\<close>.\<close>

record facade =
  includeUncommitted :: bool

definition asLatest :: facade where
  "asLatest = \<lparr>includeUncommitted = True\<rparr>"

definition asCommitted :: facade where
  "asCommitted = \<lparr>includeUncommitted = False\<rparr>"

definition Facade_getTreeInfo :: "facade \<Rightarrow> MerkleTreeId \<Rightarrow> 'db merkle_trees \<Rightarrow> tree_info" where
  "Facade_getTreeInfo f i w = MerkleTrees_getTreeInfo i (includeUncommitted f) w"

definition Facade_getCommitmentTreeRoots :: "facade \<Rightarrow> 'db merkle_trees \<Rightarrow> commitment_roots" where
  "Facade_getCommitmentTreeRoots f w = MerkleTrees_getCommitmentTreeRoots (includeUncommitted f) w"

definition Facade_getSiblingPath :: "'db tree_env \<Rightarrow> facade \<Rightarrow> MerkleTreeId \<Rightarrow> int \<Rightarrow> 'db merkle_trees \<Rightarrow> sibling_path result" where
  "Facade_getSiblingPath env f i index w = MerkleTrees_getSiblingPath env i index (includeUncommitted f) w"

definition Facade_getPreviousValueIndex :: "facade \<Rightarrow> MerkleTreeId \<Rightarrow> int \<Rightarrow> 'db merkle_trees \<Rightarrow> (int \<times> bool) result" where
  "Facade_getPreviousValueIndex f i v w = MerkleTrees_getPreviousValueIndex i v (includeUncommitted f) w"

definition Facade_getLeafData :: "facade \<Rightarrow> MerkleTreeId \<Rightarrow> int \<Rightarrow> 'db merkle_trees \<Rightarrow> leaf_data option result" where
  "Facade_getLeafData f i index w = MerkleTrees_getLeafData i index (includeUncommitted f) w"

definition Facade_findLeafIndex :: "'db tree_env \<Rightarrow> facade \<Rightarrow> MerkleTreeId \<Rightarrow> buffer \<Rightarrow> 'db merkle_trees \<Rightarrow> int option result" where
  "Facade_findLeafIndex env f i v w = MerkleTrees_findLeafIndex env i v (includeUncommitted f) w"

definition Facade_getLeafValue :: "'db tree_env \<Rightarrow> facade \<Rightarrow> MerkleTreeId \<Rightarrow> int \<Rightarrow> 'db merkle_trees \<Rightarrow> buffer option result" where
  "Facade_getLeafValue env f i index w = MerkleTrees_getLeafValue env i index (includeUncommitted f) w"

definition Facade_updateHistoricRootsTrees :: "'db tree_env \<Rightarrow> facade \<Rightarrow> ('db merkle_trees, unit) js" where
  "Facade_updateHistoricRootsTrees env f = updateHistoricRootsTrees env (includeUncommitted f)"

text \<open>The writing methods pass on to \<open>MerkleTrees\<close> whatever the view.\<close>

definition Facade_appendLeaves :: "'db tree_env \<Rightarrow> facade \<Rightarrow> MerkleTreeId \<Rightarrow> buffer list \<Rightarrow> ('db merkle_trees, unit) js" where
  "Facade_appendLeaves env f i ls = MerkleTrees_appendLeaves env i ls"

definition Facade_updateLeaf :: "'db tree_env \<Rightarrow> facade \<Rightarrow> MerkleTreeId \<Rightarrow> ws_leaf \<Rightarrow> int \<Rightarrow> ('db merkle_trees, unit) js" where
  "Facade_updateLeaf env f i leaf index = MerkleTrees_updateLeaf env i leaf index"

definition Facade_handleL2Block :: "'db tree_env \<Rightarrow> facade \<Rightarrow> l2_block \<Rightarrow> ('db merkle_trees, unit) js" where
  "Facade_handleL2Block env f block = MerkleTrees_handleL2Block env block"

definition Facade_commit :: "'db tree_env \<Rightarrow> facade \<Rightarrow> ('db merkle_trees, unit) js" where
  "Facade_commit env f = MerkleTrees_commit env"

definition Facade_rollback :: "facade \<Rightarrow> ('db merkle_trees, unit) js" where
  "Facade_rollback f = MerkleTrees_rollback"

definition Facade_batchInsert ::
  "'db tree_env \<Rightarrow> facade \<Rightarrow> MerkleTreeId \<Rightarrow> buffer list \<Rightarrow> nat \<Rightarrow> nat \<Rightarrow> ('db merkle_trees, low_leaf_witness list option \<times> sibling_path) js" where
  "Facade_batchInsert env f i ls height subtreeHeight = MerkleTrees_batchInsert env i ls height subtreeHeight"

end
