(* ===== verification/WorldStateFrames.thy ===== *)
theory WorldStateFrames
  imports WorldState
begin

text \<open>
  Non-interference of the trees in the shared store. The keys of a tree are its name and \<open>name:level:index\<close>; every method
  of a tree writes keys of that tree only (the indexed tree also decimal numerals, which are keys of no tree), so a
  method of one tree leaves the views of the others alone.
\<close>

section \<open>Keys\<close>

definition tree_key :: "string \<Rightarrow> string \<Rightarrow> bool" where
  "tree_key name k \<longleftrightarrow> k = name \<or> (\<exists>l i. k = indexToKeyHash name l i)"

definition own_keys :: "'db tree \<Rightarrow> bool" where
  "own_keys t \<longleftrightarrow> (\<forall>k \<in> fst ` set (tcache t). tree_key (tname t) k)"

text \<open>Two stores that agree on the keys of a tree.\<close>

definition agree :: "'db tree_env \<Rightarrow> string \<Rightarrow> 'db \<Rightarrow> 'db \<Rightarrow> bool" where
  "agree env name db db' \<longleftrightarrow> (\<forall>k. tree_key name k \<longrightarrow> lu_get env db k = lu_get env db' k)"

lemma agree_refl [simp]: "agree env name db db"
  by (simp add: agree_def)

lemma agree_trans: "agree env name db db' \<Longrightarrow> agree env name db' db'' \<Longrightarrow> agree env name db db''"
  by (simp add: agree_def)

lemma agree_batch:
  assumes "levelup_ok env" and "\<And>k. k \<in> fst ` set ops \<Longrightarrow> \<not> tree_key name k"
  shows "agree env name db (lu_batch env db ops)"
proof -
  have "map_of (rev ops) k = None" if "tree_key name k" for k
    using assms(2) that by (auto simp: map_of_eq_None_iff)
  then show ?thesis using assms(1) by (simp add: agree_def levelup_ok_def)
qed

lemma tree_key_disjoint:
  assumes "CHR '':'' \<notin> set a" "CHR '':'' \<notin> set b" "a \<noteq> b" and "tree_key a k"
  shows "\<not> tree_key b k"
proof
  assume b: "tree_key b k"
  show False
    using assms(4) b assms(1-3) append_sep_inject[OF assms(1,2)]
    by (auto simp: tree_key_def indexToKeyHash_def)
qed

lemma treeName_no_colon: "CHR '':'' \<notin> set (treeName i)"
  by (cases i) simp_all

lemma treeName_inject [simp]: "treeName i = treeName j \<longleftrightarrow> i = j"
  by (cases i; cases j) simp_all

lemma treeIndex_inject [simp]: "treeIndex i = treeIndex j \<longleftrightarrow> i = j"
  by (cases i; cases j) simp_all

lemma treeIndex_bound [simp]: "treeIndex i < 8"
  by (cases i) simp_all

lemma tree_ids_all: "i \<in> set tree_ids"
  by (cases i) (simp_all add: tree_ids_def)

lemma distinct_tree_ids: "distinct tree_ids"
  by (simp add: tree_ids_def)

lemma treeName_keys: "i \<noteq> j \<Longrightarrow> tree_key (treeName i) k \<Longrightarrow> \<not> tree_key (treeName j) k"
  using tree_key_disjoint[of "treeName i" "treeName j" k] treeName_no_colon by simp

text \<open>The decimal numerals under which the indexed tree stores leaf records are keys of no tree.\<close>

lemma dec_not_tree_key: "\<not> tree_key (treeName i) (dec n)"
proof
  assume "tree_key (treeName i) (dec n)"
  then have "dec n = treeName i" using dec_no_colon[of n] by (auto simp: tree_key_def indexToKeyHash_def)
  moreover have "CHR ''T'' \<in> set (treeName i)" by (cases i) simp_all
  moreover have "CHR ''T'' \<notin> set (dec n)"
  proof
    assume "CHR ''T'' \<in> set (dec n)"
    then have "CHR ''T'' \<in> insert (CHR ''-'') (set ''0123456789abcdef'')" by (rule dec_chars)
    then show False by simp
  qed
  ultimately show False by metis
qed

section \<open>Views depend on the keys of the tree only\<close>

lemma node_agree:
  assumes "agree env (tname t) db db'"
  shows "node env (t\<lparr>tdb := db'\<rparr>) b = node env (t\<lparr>tdb := db\<rparr>) b"
proof (intro ext)
  fix l i
  have "lu_get env db' (indexToKeyHash (tname t) l i) = lu_get env db (indexToKeyHash (tname t) l i)"
    using assms by (simp add: agree_def tree_key_def)
  then show "node env (t\<lparr>tdb := db'\<rparr>) b l i = node env (t\<lparr>tdb := db\<rparr>) b l i"
    by (simp add: node_def getRoot_def getLatestValueAtIndex_def Let_def cong: option.case_cong if_cong)
qed

lemma tree_inv_agree:
  assumes "agree env (tname t) db db'"
  shows "tree_inv env (t\<lparr>tdb := db'\<rparr>) \<longleftrightarrow> tree_inv env (t\<lparr>tdb := db\<rparr>)"
  by (simp add: tree_inv_def tree_wf_def node_agree[OF assms])

lemma leaf_view_agree:
  assumes "agree env (tname t) db db'" and "tree_inv env (t\<lparr>tdb := db\<rparr>)"
  shows "leaf_view env b (t\<lparr>tdb := db'\<rparr>) = leaf_view env b (t\<lparr>tdb := db\<rparr>)"
proof -
  have "tree_inv env (t\<lparr>tdb := db'\<rparr>)" using assms(2) tree_inv_agree[OF assms(1)] by simp
  then show ?thesis by (simp add: leaf_view_node assms(2) node_agree[OF assms(1)] cong: if_cong)
qed

lemma standard_inv_agree:
  "agree env (tname t) db db' \<Longrightarrow> standard_inv env d (t\<lparr>tdb := db\<rparr>) \<Longrightarrow> standard_inv env d (t\<lparr>tdb := db'\<rparr>)"
  by (simp add: standard_inv_def tree_inv_agree)

lemma sparse_inv_agree:
  assumes "agree env (tname t) db db'" and "sparse_inv env d (t\<lparr>tdb := db\<rparr>)"
  shows "sparse_inv env d (t\<lparr>tdb := db'\<rparr>)"
  using assms leaf_view_agree[OF assms(1)] by (simp add: sparse_inv_def tree_inv_agree)

definition it_set_db :: "'db \<Rightarrow> 'db indexed_tree \<Rightarrow> 'db indexed_tree" where
  "it_set_db db t = t\<lparr>it_base := (it_base t)\<lparr>tdb := db\<rparr>\<rparr>"

lemma latest_set_db [simp]: "latest (it_set_db db t) b = latest t b"
  by (rule latest_cong) (simp_all add: it_set_db_def)

lemma it_getNumLeaves_set_db [simp]: "it_getNumLeaves (it_set_db db t) b = it_getNumLeaves t b"
  by (simp add: it_set_db_def it_getNumLeaves_def)

lemma idx_inv_agree:
  assumes "agree env (tname (it_base t)) db db'" and "idx_inv env (it_set_db db t)"
  shows "idx_inv env (it_set_db db' t)"
  using assms(2)
  by (simp add: idx_inv_def idx_base_def idx_view_ok_def)
    (simp add: it_set_db_def tree_inv_agree[OF assms(1)] node_agree[OF assms(1)])

section \<open>Methods keep to the keys of their tree\<close>

text \<open>A property of the common part of a tree that survives what the methods do to it: filling the cache under keys of the tree, setting the
  cached leaf count and clearing the cache. Every method but \<open>commit\<close> then keeps it, in each of the three classes.\<close>

locale tree_frame =
  fixes P :: "'db tree \<Rightarrow> bool"
  assumes frame_cache_put: "P t \<Longrightarrow> P (cache_put (indexToKeyHash (tname t) l i) v t)"
    and frame_cachedSize [simp]: "P (t\<lparr>cachedSize := n\<rparr>) \<longleftrightarrow> P t"
    and frame_clearCache: "P t \<Longrightarrow> P (clearCache t)"
begin

lemma frame_hash_loop: "P t \<Longrightarrow> P (hash_loop env l i c t)"
proof (induction l arbitrary: i c t)
  case (Suc l)
  then show ?case unfolding hash_loop.simps Let_def by (intro Suc.IH) (simp only: frame_cache_put Suc.prems)
qed simp

lemma frame_add_leaf: "P t \<Longrightarrow> P (addLeafToCacheAndHashToRoot env x i t)"
  unfolding addLeafToCacheAndHashToRoot_def Let_def using frame_hash_loop frame_cache_put by blast

lemma frame_append_loop: "P t \<Longrightarrow> P (append_loop env i xs t)"
  by (induction xs arbitrary: i t) (simp_all add: frame_add_leaf)

lemma preserves_sparse: "preserves P (SparseTree_updateLeaf env leaf i)"
  by (auto simp: preserves_def SparseTree_updateLeaf_def Let_def frame_add_leaf)

lemma preserves_standard: "preserves P (StandardTree_appendLeaves env ls)"
  by (auto simp: preserves_def StandardTree_appendLeaves_def Let_def frame_append_loop)

lemma preserves_hash: "preserves (\<lambda>t. P (it_base t)) (it_updateLeaf_hash env h i)"
  by (auto simp: preserves_def it_updateLeaf_hash_def it_set_cachedSize_def Let_def frame_add_leaf)

lemma preserves_it_update: "preserves (\<lambda>t. P (it_base t)) (it_updateLeaf env ld i)"
  unfolding it_updateLeaf_def by (intro preserves_jbind preserves_jmodify preserves_hash) simp_all

lemma preserves_appendLeaf: "preserves (\<lambda>t. P (it_base t)) (appendLeaf env leaf)"
proof -
  have "preserves (\<lambda>t. P (it_base t)) (jbind (jlift x) (\<lambda>h. jbind (it_updateLeaf_hash env h i)
      (\<lambda>_. jbind (jlift y) (\<lambda>h'. jbind jget (\<lambda>t. it_updateLeaf_hash env h' (it_getNumLeaves t True))))))" for x y i
    by (intro preserves_jbind preserves_hash) simp_all
  from preservesD[OF this] show ?thesis
    by (auto simp: preserves_def appendLeaf_def Let_def it_set_cachedSize_def split: prod.splits option.splits)
qed

lemma preserves_it_append: "preserves (\<lambda>t. P (it_base t)) (it_appendLeaves env ls)"
  unfolding it_appendLeaves_def by (intro preserves_jfor preserves_appendLeaf)

lemma preserves_batch_step: "preserves (\<lambda>t. P (it_base t)) (batch_step env w start i leaf acc)"
proof -
  have "preserves (\<lambda>t. P (it_base t)) (jbind (jlift x) (\<lambda>path. jbind (it_updateLeaf env (f path) j) (\<lambda>_. jreturn (g path))))"
    for x :: "sibling_path result" and f j and g :: "sibling_path \<Rightarrow> batch_acc option"
    by (intro preserves_jbind preserves_it_update) simp_all
  from preservesD[OF this] show ?thesis
    by (auto simp: preserves_def batch_step_def Let_def split: prod.splits option.splits)
qed

lemma preserves_batch_loop: "preserves (\<lambda>t. P (it_base t)) (batch_loop env w start i ls acc)"
proof (induction ls arbitrary: i acc)
  case (Cons x xs)
  show ?case unfolding batch_loop.simps
    by (intro preserves_jbind preserves_batch_step) (simp split: option.split add: Cons.IH)
qed simp

lemma preserves_insert_loop: "preserves (\<lambda>t. P (it_base t)) (insert_loop env i ps)"
  by (induction ps arbitrary: i) (simp_all add: preserves_jbind preserves_it_update)

lemma preserves_batchInsert: "preserves (\<lambda>t. P (it_base t)) (batchInsert env ls h sh)"
  unfolding batchInsert_def Let_def
  by (intro preserves_jbind preserves_batch_loop preserves_simps)
    (auto split: option.split intro!: preserves_jbind preserves_insert_loop)

lemma frame_lift:
  "preserves P m \<Longrightarrow> P t \<Longrightarrow> P (ws_base (snd (lift_standard m t)))"
  "preserves P m \<Longrightarrow> P t \<Longrightarrow> P (ws_base (snd (lift_sparse m t)))"
  "preserves (\<lambda>t. P (it_base t)) k \<Longrightarrow> P (it_base it) \<Longrightarrow> P (ws_base (snd (lift_indexed k it)))"
  by (auto simp: lift_standard_def lift_sparse_def lift_indexed_def preserves_def split: prod.splits)

lemma preserves_ws_append: "preserves (\<lambda>t. P (ws_base t)) (ws_appendLeaves env ls)"
  unfolding preserves_def
proof (intro allI impI)
  fix t assume "P (ws_base t)"
  then show "P (ws_base (snd (ws_appendLeaves env ls t)))"
    by (cases t) (simp_all add: frame_lift preserves_standard preserves_it_append)
qed

lemma preserves_ws_update: "preserves (\<lambda>t. P (ws_base t)) (ws_updateLeaf env leaf i)"
  unfolding preserves_def
proof (intro allI impI)
  fix t assume "P (ws_base t)"
  then show "P (ws_base (snd (ws_updateLeaf env leaf i t)))"
    by (cases t; cases leaf) (simp_all add: frame_lift preserves_sparse preserves_it_update)
qed

lemma preserves_ws_rollback: "preserves (\<lambda>t. P (ws_base t)) ws_rollback"
  unfolding preserves_def
proof (intro allI impI)
  fix t assume "P (ws_base t)"
  then show "P (ws_base (snd (ws_rollback t)))"
    by (cases t) (simp_all add: TreeBase_rollback_def it_rollback_def clearCachedLeaves_def frame_clearCache)
qed

end

definition base_frame :: "'db \<Rightarrow> string \<Rightarrow> 'db tree \<Rightarrow> bool" where
  "base_frame db name t \<longleftrightarrow> own_keys t \<and> tdb t = db \<and> tname t = name"

abbreviation it_frame :: "'db \<Rightarrow> string \<Rightarrow> 'db indexed_tree \<Rightarrow> bool" where
  "it_frame db name t \<equiv> base_frame db name (it_base t)"

abbreviation ws_frame :: "'db \<Rightarrow> string \<Rightarrow> 'db ws_tree \<Rightarrow> bool" where
  "ws_frame db name t \<equiv> base_frame db name (ws_base t)"

interpretation own: tree_frame "base_frame db name" for db :: 'db and name
proof
  show "base_frame db name (cache_put (indexToKeyHash (tname t) l i) v t)" if "base_frame db name t" for t l i v
    using that unfolding base_frame_def own_keys_def cache_put_def by (simp add: dom_update tree_key_def) blast
qed (simp_all add: base_frame_def own_keys_def clearCache_def)

text \<open>A commit writes keys of its own tree, and numerals.\<close>

lemma commit_agree:
  assumes lu: "levelup_ok env" and "own_keys t" and "tname t = treeName i" and "j \<noteq> i"
    and run: "TreeBase_commit env t = (Inr (), t')"
  shows "agree env (treeName j) (tdb t) (tdb t')" "tname t' = tname t" "own_keys t'"
proof -
  obtain data where t': "t' = clearCache (t\<lparr>tsize := getNumLeaves t True, troot := getRoot (t\<lparr>tsize := getNumLeaves t True\<rparr>) True,
      tdb := lu_batch env (tdb t) (map (\<lambda>(k, v). (k, VBuffer v)) (tcache t) @ [(tname t, VBuffer data)])\<rparr>)"
    using run by (auto simp: TreeBase_commit_def metaWrite_def Let_def rbind_def split: sum.splits)
  have "\<not> tree_key (treeName j) k" if "k \<in> fst ` set (map (\<lambda>(k, v). (k, VBuffer v)) (tcache t) @ [(tname t, VBuffer data)])" for k
  proof -
    have "k \<in> fst ` set (tcache t) \<or> k = tname t" using that by force
    then have "tree_key (treeName i) k" using assms(2,3) by (auto simp: own_keys_def tree_key_def)
    then show ?thesis using treeName_keys[of i j k] assms(4) by auto
  qed
  then have "agree env (treeName j) (tdb t)
      (lu_batch env (tdb t) (map (\<lambda>(k, v). (k, VBuffer v)) (tcache t) @ [(tname t, VBuffer data)]))"
    by (rule agree_batch[OF lu])
  then show "agree env (treeName j) (tdb t) (tdb t')" by (simp add: t' clearCache_def)
  show "tname t' = tname t" "own_keys t'" by (simp_all add: t' clearCache_def own_keys_def)
qed

lemma commitLeaves_agree:
  assumes "levelup_ok env"
  shows "agree env (treeName j) (tdb (it_base t)) (tdb (it_base (commitLeaves env t)))"
proof -
  have "agree env (treeName j) (tdb (it_base t))
      (lu_batch env (tdb (it_base t)) (map (\<lambda>(i, leaf). (dec i, VObject leaf)) (cachedLeaves t)))"
    by (rule agree_batch[OF assms]) (use dec_not_tree_key in force)
  then show ?thesis by (simp add: commitLeaves_def clearCachedLeaves_def Let_def)
qed

lemma it_commit_agree:
  assumes lu: "levelup_ok env" and "own_keys (it_base t)" and "tname (it_base t) = treeName i" and "j \<noteq> i"
    and run: "it_commit env t = (Inr (), t')"
  shows "agree env (treeName j) (tdb (it_base t)) (tdb (it_base t'))" "tname (it_base t') = tname (it_base t)" "own_keys (it_base t')"
proof -
  obtain b' where b': "TreeBase_commit env (it_base t) = (Inr (), b')" "t' = commitLeaves env (t\<lparr>it_base := b'\<rparr>)"
    using run by (auto simp: it_commit_def it_super_def jbind_def split: prod.splits sum.splits)
  note c = commit_agree[OF assms(1-4) b'(1)]
  show "agree env (treeName j) (tdb (it_base t)) (tdb (it_base t'))"
    using agree_trans[OF c(1)] commitLeaves_agree[OF lu, of j "t\<lparr>it_base := b'\<rparr>"] b'(2) by simp
  show "tname (it_base t') = tname (it_base t)" "own_keys (it_base t')"
    using c(2,3) by (simp_all add: b'(2) commitLeaves_def clearCachedLeaves_def Let_def own_keys_def)
qed

text \<open>The constructors write keys of their own tree, and numerals.\<close>

lemma newIndexedTree_agree:
  assumes lu: "levelup_ok env" and new: "newIndexedTree env db (treeName i) d p = Inr t" and "j \<noteq> i"
  shows "agree env (treeName j) db (tdb (it_base t)) \<and> tname (it_base t) = treeName i \<and> own_keys (it_base t)"
proof -
  obtain b0 where b0: "new_TreeBase env db (treeName i) d 0 None = Inr b0"
    "it_init env p \<lparr>it_base = b0, leaves = empty_array, cachedLeaves = []\<rparr> = (Inr (), t)"
    using new by (auto simp: newIndexedTree_def new_StandardIndexedTree_def rbind_def split: prod.splits sum.splits)
  have f0: "base_frame db (treeName i) b0"
    using b0(1) by (auto simp: new_TreeBase_def base_frame_def own_keys_def Let_def split: if_splits prod.splits)
  define prep :: "('a indexed_tree, unit) js" where "prep =
    jbind (jmodify (\<lambda>t. t\<lparr>leaves := js_push (leaves t) initialLeaf\<rparr>)) (\<lambda>_.
    jbind (jlift (hashEncodedTreeValue (compressInputs env) initialLeaf)) (\<lambda>h.
    jbind (it_updateLeaf_hash env h 0) (\<lambda>_. jfor (\<lambda>i. appendLeaf env [word_of_int i]) [1..p - 1])))"
  have pres: "preserves (it_frame db (treeName i)) prep"
    unfolding prep_def by (intro preserves_jbind preserves_jmodify own.preserves_hash preserves_jfor own.preserves_appendLeaf) simp_all
  obtain t1 where t1: "prep \<lparr>it_base = b0, leaves = empty_array, cachedLeaves = []\<rparr> = (Inr (), t1)" "it_commit env t1 = (Inr (), t)"
    using b0(2) by (auto simp: it_init_def prep_def jbind_def split: prod.splits sum.splits)
  have "it_frame db (treeName i) t1" using preservesD[OF pres, of "\<lparr>it_base = b0, leaves = empty_array, cachedLeaves = []\<rparr>"] f0 t1(1) by simp
  then show ?thesis using it_commit_agree[OF lu _ _ assms(3) t1(2)] by (simp add: base_frame_def)
qed

end
