(* ===== verification/WorldStateProofs.thy ===== *)
theory WorldStateProofs
  imports WorldStateFrames
begin

text \<open>
  The invariant of the world state and what each job does to it. The abstract state of a tree is the triple of its node
  labels, its leaf count and, for the indexed tree, its leaf records, in a committed and a pending version; the
  world state maps every tree to such a pair. A job on one tree changes the pending version of that tree only;
  \<open>commit\<close> and \<open>rollback\<close> act on all eight trees, which makes \<open>MerkleTrees\<close> an instance of the interface \<open>transactional\<close>.
\<close>

section \<open>Invariant and views\<close>

fun ws_class_ok :: "'db tree_env \<Rightarrow> MerkleTreeId \<Rightarrow> 'db ws_tree \<Rightarrow> bool" where
  "ws_class_ok env i (Standard t) \<longleftrightarrow> i \<noteq> NULLIFIER_TREE \<and> i \<noteq> PUBLIC_DATA_TREE \<and> standard_inv env (treeHeight i) t"
| "ws_class_ok env i (Indexed t) \<longleftrightarrow> i = NULLIFIER_TREE \<and> idx_inv env t"
| "ws_class_ok env i (Sparse t) \<longleftrightarrow> i = PUBLIC_DATA_TREE \<and> sparse_inv env (treeHeight i) t"

definition ws_ok :: "'db tree_env \<Rightarrow> MerkleTreeId \<Rightarrow> 'db ws_tree \<Rightarrow> bool" where
  "ws_ok env i t \<longleftrightarrow> ws_class_ok env i t \<and> tname (ws_base t) = treeName i \<and> tdepth (ws_base t) = treeHeight i \<and>
     own_keys (ws_base t)"

definition world_inv :: "'db tree_env \<Rightarrow> 'db merkle_trees \<Rightarrow> bool" where
  "world_inv env w \<longleftrightarrow> length (trees w) = 8 \<and> (\<forall>i. ws_ok env i (the_tree w i))"

fun ws_records :: "bool \<Rightarrow> 'db ws_tree \<Rightarrow> leaf_map" where
  "ws_records b (Indexed t) = latest t b"
| "ws_records b _ = (\<lambda>_. None)"

type_synonym tree_abs = "(nat \<Rightarrow> int \<Rightarrow> buffer) \<times> int \<times> leaf_map"

definition ws_view :: "'db tree_env \<Rightarrow> bool \<Rightarrow> 'db ws_tree \<Rightarrow> tree_abs" where
  "ws_view env b t = (node env (ws_base t) b, getNumLeaves (ws_base t) b, ws_records b t)"

definition world_view :: "'db tree_env \<Rightarrow> bool \<Rightarrow> 'db merkle_trees \<Rightarrow> MerkleTreeId \<Rightarrow> tree_abs" where
  "world_view env b w i = ws_view env b (the_tree w i)"

text \<open>What a reader sees: the root, the leaves and the count of a tree, and the nullifiers.\<close>

definition world_root :: "bool \<Rightarrow> 'db merkle_trees \<Rightarrow> MerkleTreeId \<Rightarrow> buffer" where
  "world_root b w i = getRoot (ws_base (the_tree w i)) b"

definition world_leaves :: "'db tree_env \<Rightarrow> bool \<Rightarrow> 'db merkle_trees \<Rightarrow> MerkleTreeId \<Rightarrow> (int \<Rightarrow> buffer) \<times> int" where
  "world_leaves env b w i = leaf_view env b (ws_base (the_tree w i))"

definition abs_values :: "tree_abs \<Rightarrow> int set" where
  "abs_values = (\<lambda>(N, n, L). leaf_values n L)"

definition world_nullifiers :: "'db tree_env \<Rightarrow> bool \<Rightarrow> 'db merkle_trees \<Rightarrow> int set" where
  "world_nullifiers env b w = abs_values (world_view env b w NULLIFIER_TREE)"

lemma ws_ok_inv: "ws_ok env i t \<Longrightarrow> tree_inv env (ws_base t)"
  by (cases t) (auto simp: ws_ok_def standard_inv_def sparse_inv_def idx_inv_def idx_base_def)

lemma world_inv_ok: "world_inv env w \<Longrightarrow> ws_ok env i (the_tree w i)"
  by (simp add: world_inv_def)

lemma world_root_view: "world_root b w i = fst (world_view env b w i) 0 0"
  by (simp add: world_root_def world_view_def ws_view_def node_def)

lemma world_leaves_view:
  assumes "world_inv env w"
  shows "world_leaves env b w i = ((\<lambda>j. if in_level (treeHeight i) j then fst (world_view env b w i) (treeHeight i) j else INITIAL_LEAF),
    fst (snd (world_view env b w i)))"
  using leaf_view_node[OF ws_ok_inv[OF world_inv_ok[OF assms]]] world_inv_ok[OF assms, of i]
  by (simp add: world_leaves_def world_view_def ws_view_def ws_ok_def cong: if_cong)

lemma world_leaves_cong:
  assumes "world_inv env w" "world_inv env w'" and "world_view env b w i = world_view env b' w' i"
  shows "world_leaves env b w i = world_leaves env b' w' i"
  using assms by (simp add: world_leaves_view cong: if_cong)

section \<open>A job on one tree\<close>

lemma ws_base_set_db [simp]: "ws_base (ws_set_db db t) = (ws_base t)\<lparr>tdb := db\<rparr>"
  by (cases t) simp_all

lemma ws_set_db_same: "ws_set_db (tdb (ws_base t)) t = t"
  by (cases t) simp_all

lemma ws_set_db_twice [simp]: "ws_set_db db' (ws_set_db db t) = ws_set_db db' t"
  by (cases t) simp_all

lemma ws_records_set_db [simp]: "ws_records b (ws_set_db db t) = ws_records b t"
  by (cases t) (simp_all add: it_set_db_def[symmetric])

lemma ws_view_agree:
  "agree env (tname (ws_base t)) db db' \<Longrightarrow> ws_view env b (ws_set_db db' t) = ws_view env b (ws_set_db db t)"
  by (simp add: ws_view_def node_agree)

lemma ws_ok_agree:
  assumes "agree env (treeName i) db db'" and "ws_ok env i (ws_set_db db t)"
  shows "ws_ok env i (ws_set_db db' t)"
proof -
  have n: "tname (ws_base t) = treeName i" using assms(2) by (simp add: ws_ok_def)
  have "ws_class_ok env i (ws_set_db db' t)"
    using assms n standard_inv_agree[of env "ws_base t" db db'] sparse_inv_agree[of env "ws_base t" db db']
      idx_inv_agree[of env _ db db']
    by (cases t) (auto simp: ws_ok_def it_set_db_def)
  then show ?thesis using assms(2) n by (auto simp: ws_ok_def own_keys_def)
qed

lemma the_tree_put:
  assumes "length (trees w) = 8"
  shows "the_tree (put_tree i t w) i = t"
    and "j \<noteq> i \<Longrightarrow> the_tree (put_tree i t w) j = ws_set_db (tdb (ws_base t)) (the_tree w j)"
  using assms treeIndex_bound[of i] by (simp_all add: the_tree_def put_tree_def ws_set_db_same)

lemma on_tree_ok:
  assumes inv: "world_inv env w" and m: "m (the_tree w i) = (r, t')" and ok: "ws_ok env i t'"
    and ag: "\<And>j. j \<noteq> i \<Longrightarrow> agree env (treeName j) (wdb w) (tdb (ws_base t'))"
  shows "\<exists>w'. on_tree i m w = (r, w') \<and> world_inv env w' \<and> the_tree w' i = t' \<and>
    (\<forall>j b. j \<noteq> i \<longrightarrow> world_view env b w' j = world_view env b w j)"
proof -
  let ?w = "put_tree i t' w"
  have len: "length (trees w) = 8" using inv by (simp add: world_inv_def)
  have old: "the_tree w j = ws_set_db (wdb w) (trees w ! treeIndex j)" for j by (simp add: the_tree_def)
  have new: "the_tree ?w j = ws_set_db (tdb (ws_base t')) (the_tree w j)" if "j \<noteq> i" for j
    by (rule the_tree_put(2)[OF len that])
  have same: "ws_set_db (wdb w) (the_tree w j) = the_tree w j" for j by (simp add: old)
  have nm: "tname (ws_base (the_tree w j)) = treeName j" for j using world_inv_ok[OF inv, of j] by (simp add: ws_ok_def)
  have "ws_ok env j (the_tree ?w j)" for j
  proof (cases "j = i")
    case False
    show ?thesis unfolding new[OF False]
      by (rule ws_ok_agree[OF ag[OF False]]) (simp add: same world_inv_ok[OF inv])
  qed (simp add: the_tree_put(1)[OF len] ok)
  then have "world_inv env ?w" using len by (simp add: world_inv_def put_tree_def)
  moreover have "world_view env b ?w j = world_view env b w j" if "j \<noteq> i" for j b
    unfolding world_view_def new[OF that] using ws_view_agree[of env "the_tree w j" "wdb w"] ag[OF that] nm[of j] same[of j] by metis
  ultimately show ?thesis using m by (auto simp: on_tree_def the_tree_put(1)[OF len])
qed

text \<open>A job that does not touch the store.\<close>

lemma on_tree_local:
  assumes inv: "world_inv env w" and m: "m (the_tree w i) = (r, t')" and ok: "ws_class_ok env i t'"
    and d: "tdepth (ws_base t') = treeHeight i" and pres: "\<And>db name. preserves (ws_frame db name) m"
  shows "\<exists>w'. on_tree i m w = (r, w') \<and> world_inv env w' \<and> the_tree w' i = t' \<and>
    (\<forall>j b. j \<noteq> i \<longrightarrow> world_view env b w' j = world_view env b w j)"
proof -
  let ?t = "the_tree w i"
  have "ws_frame (wdb w) (treeName i) ?t"
    using world_inv_ok[OF inv, of i] by (simp add: base_frame_def ws_ok_def the_tree_def)
  from preservesD[OF pres this] have f: "ws_frame (wdb w) (treeName i) t'" by (simp add: m)
  then have "ws_ok env i t'" using ok d by (simp add: ws_ok_def base_frame_def)
  then show ?thesis using on_tree_ok[OF inv, of m i r t'] m f by (simp add: base_frame_def)
qed

section \<open>Appending, updating\<close>

text \<open>Only the pending view of tree \<open>i\<close> may change.\<close>

definition pending_step :: "'db tree_env \<Rightarrow> MerkleTreeId \<Rightarrow> 'db merkle_trees \<Rightarrow> 'db merkle_trees \<Rightarrow> bool" where
  "pending_step env i w w' \<longleftrightarrow> world_inv env w' \<and>
     (\<forall>j b. j \<noteq> i \<or> \<not> b \<longrightarrow> world_view env b w' j = world_view env b w j)"

lemma append_loop_node_False [simp]: "node env' (append_loop env i xs t) False = node env' t False"
  by (induction xs arbitrary: i t) simp_all

lemma standard_append_committed:
  "StandardTree_appendLeaves env ls t = (r, t') \<Longrightarrow> node env' t' False = node env' t False \<and> getNumLeaves t' False = getNumLeaves t False"
  by (auto simp: StandardTree_appendLeaves_def Let_def getNumLeaves_def split: if_splits)

lemma sparse_update_committed:
  "SparseTree_updateLeaf env leaf i t = (r, t') \<Longrightarrow> node env' t' False = node env' t False \<and> getNumLeaves t' False = getNumLeaves t False"
  by (auto simp: SparseTree_updateLeaf_def Let_def getNumLeaves_def split: if_splits)

lemma the_tree_class:
  assumes "world_inv env w"
  shows "i \<noteq> NULLIFIER_TREE \<Longrightarrow> i \<noteq> PUBLIC_DATA_TREE \<Longrightarrow> \<exists>t. the_tree w i = Standard t \<and> standard_inv env (treeHeight i) t"
    and "\<exists>t. the_tree w NULLIFIER_TREE = Indexed t \<and> idx_inv env t"
    and "\<exists>t. the_tree w PUBLIC_DATA_TREE = Sparse t \<and> sparse_inv env (treeHeight PUBLIC_DATA_TREE) t"
proof -
  have c: "ws_class_ok env j (the_tree w j)" for j using world_inv_ok[OF assms, of j] by (simp add: ws_ok_def)
  show "\<exists>t. the_tree w i = Standard t \<and> standard_inv env (treeHeight i) t" if "i \<noteq> NULLIFIER_TREE" "i \<noteq> PUBLIC_DATA_TREE"
    using c[of i] that by (cases "the_tree w i") simp_all
  show "\<exists>t. the_tree w NULLIFIER_TREE = Indexed t \<and> idx_inv env t"
    using c[of NULLIFIER_TREE] by (cases "the_tree w NULLIFIER_TREE") simp_all
  show "\<exists>t. the_tree w PUBLIC_DATA_TREE = Sparse t \<and> sparse_inv env (treeHeight PUBLIC_DATA_TREE) t"
    using c[of PUBLIC_DATA_TREE] by (cases "the_tree w PUBLIC_DATA_TREE") simp_all
qed

lemma pending_stepI:
  assumes "world_inv env w'" and "\<forall>j b. j \<noteq> i \<longrightarrow> world_view env b w' j = world_view env b w j"
    and "ws_view env False (the_tree w' i) = ws_view env False (the_tree w i)"
  shows "pending_step env i w w'"
  using assms by (auto simp: pending_step_def world_view_def)

lemma append_standard_step:
  assumes inv: "world_inv env w" and i: "i \<noteq> NULLIFIER_TREE" "i \<noteq> PUBLIC_DATA_TREE"
    and room: "snd (world_leaves env True w i) + int (length ls) \<le> 2 ^ treeHeight i"
  shows "\<exists>w'. MerkleTrees_appendLeaves env i ls w = (Inr (), w') \<and> pending_step env i w w' \<and>
    world_leaves env True w' i = standard_spec (treeHeight i) ls (world_leaves env True w i)"
proof -
  obtain t where t: "the_tree w i = Standard t" "standard_inv env (treeHeight i) t" using the_tree_class(1)[OF inv i] by blast
  have "getNumLeaves t True + int (length ls) \<le> 2 ^ treeHeight i" using room by (simp add: world_leaves_def t leaf_view_def)
  from standard_append_step[OF t(2) this] obtain t' where t': "StandardTree_appendLeaves env ls t = (Inr (), t')"
    "standard_inv env (treeHeight i) t'" "leaf_view env True t' = standard_spec (treeHeight i) ls (leaf_view env True t)" by blast
  have m: "ws_appendLeaves env ls (the_tree w i) = (Inr (), Standard t')" by (simp add: t t' lift_standard_def)
  obtain w' where w': "on_tree i (ws_appendLeaves env ls) w = (Inr (), w')" "world_inv env w'" "the_tree w' i = Standard t'"
    "\<forall>j b. j \<noteq> i \<longrightarrow> world_view env b w' j = world_view env b w j"
    using on_tree_local[of env w "ws_appendLeaves env ls" i "Inr ()" "Standard t'", OF inv m _ _ own.preserves_ws_append] t'(2) i
    by (auto simp: standard_inv_def)
  have "pending_step env i w w'"
    by (rule pending_stepI[OF w'(2,4)]) (use standard_append_committed[OF t'(1), of env] t w' in \<open>simp add: ws_view_def\<close>)
  then show ?thesis using w' t t' by (simp add: MerkleTrees_appendLeaves_def world_leaves_def)
qed

lemma append_nullifiers_step:
  assumes inv: "world_inv env w"
    and room: "snd (world_leaves env True w NULLIFIER_TREE) + int (length ls) \<le> 2 ^ treeHeight NULLIFIER_TREE"
  shows "\<exists>w'. MerkleTrees_appendLeaves env NULLIFIER_TREE ls w = (Inr (), w') \<and> pending_step env NULLIFIER_TREE w w' \<and>
    world_nullifiers env True w' = toBigIntBE ` set ls \<union> world_nullifiers env True w \<and>
    snd (world_leaves env True w' NULLIFIER_TREE) \<le> snd (world_leaves env True w NULLIFIER_TREE) + int (length ls)"
proof -
  let ?i = NULLIFIER_TREE
  obtain t where t: "the_tree w ?i = Indexed t" "idx_inv env t" using the_tree_class(2)[OF inv] by blast
  have d: "tdepth (it_base t) = treeHeight ?i" using world_inv_ok[OF inv, of ?i] by (simp add: ws_ok_def t)
  have "it_getNumLeaves t True + int (length ls) \<le> 2 ^ tdepth (it_base t)"
    using room by (simp add: world_leaves_def t leaf_view_def d it_getNumLeaves_def)
  with t(2) obtain t' where t': "it_appendLeaves env ls t = (Inr (), t')" "idx_base env t'" "idx_view_ok env True t'"
    "idx_frame env t t'" "idx_values t' True = toBigIntBE ` set ls \<union> idx_values t True"
    "it_getNumLeaves t' True \<le> it_getNumLeaves t True + int (length ls)"
    using appendLeaves_correct[of env t ls] by (auto simp: idx_inv_def)
  have "idx_view_ok env False t'" using idx_frame_committed[OF t'(4)] t(2) by (simp add: idx_inv_def)
  then have inv': "idx_inv env t'" using t'(2,3) by (simp add: idx_inv_def all_bool_eq)
  have d': "tdepth (it_base t') = treeHeight ?i" using t'(4) d by (simp add: idx_frame_def)
  have m: "ws_appendLeaves env ls (the_tree w ?i) = (Inr (), Indexed t')" by (simp add: t t' lift_indexed_def)
  obtain w' where w': "on_tree ?i (ws_appendLeaves env ls) w = (Inr (), w')" "world_inv env w'" "the_tree w' ?i = Indexed t'"
    "\<forall>j b. j \<noteq> ?i \<longrightarrow> world_view env b w' j = world_view env b w j"
    using on_tree_local[of env w "ws_appendLeaves env ls" ?i "Inr ()" "Indexed t'", OF inv m _ _ own.preserves_ws_append] inv' d' by auto
  have "ws_view env False (Indexed t') = ws_view env False (Indexed t)"
    using t'(4) idx_frame_committed(2)[OF t'(4)] by (simp add: ws_view_def idx_frame_def it_getNumLeaves_def)
  then have "pending_step env ?i w w'" using pending_stepI[OF w'(2,4)] t(1) w'(3) by simp
  moreover have "world_nullifiers env True x = idx_values y True" if "the_tree x ?i = Indexed y" for x y
    using that by (simp add: world_nullifiers_def world_view_def ws_view_def abs_values_def idx_values_def it_getNumLeaves_def)
  ultimately show ?thesis using w' t t'(5,6) by (simp add: MerkleTrees_appendLeaves_def world_leaves_def leaf_view_def it_getNumLeaves_def)
qed

lemma update_public_step:
  assumes inv: "world_inv env w" and i: "in_level (treeHeight PUBLIC_DATA_TREE) index"
  shows "\<exists>w'. MerkleTrees_updateLeaf env PUBLIC_DATA_TREE (LeafBuffer leaf) index w = (Inr (), w') \<and>
    pending_step env PUBLIC_DATA_TREE w w' \<and>
    world_leaves env True w' PUBLIC_DATA_TREE = sparse_spec (treeHeight PUBLIC_DATA_TREE) (leaf, index) (world_leaves env True w PUBLIC_DATA_TREE)"
proof -
  let ?i = PUBLIC_DATA_TREE and ?d = "treeHeight PUBLIC_DATA_TREE"
  obtain t where t: "the_tree w ?i = Sparse t" "sparse_inv env ?d t" using the_tree_class(3)[OF inv] by blast
  have ti: "tree_inv env t" "tdepth t = ?d" using t(2) by (simp_all add: sparse_inv_def)
  obtain t' where t': "SparseTree_updateLeaf env leaf index t = (Inr (), t')" "tdepth t' = ?d"
    "leaf_view env True t' = sparse_spec ?d (leaf, index) (leaf_view env True t)"
    using sparse_update_step[OF ti(1), of index leaf] i ti(2) by auto
  have "sparse_inv env ?d (snd (SparseTree_updateLeaf env leaf index t))"
    using sparse_tx.perform_invar[OF t(2), of "(leaf, index)"] i by (simp add: in_level_def)
  then have inv': "sparse_inv env ?d t'" by (simp add: t')
  have m: "ws_updateLeaf env (LeafBuffer leaf) index (the_tree w ?i) = (Inr (), Sparse t')" by (simp add: t t' lift_sparse_def)
  obtain w' where w': "on_tree ?i (ws_updateLeaf env (LeafBuffer leaf) index) w = (Inr (), w')" "world_inv env w'"
    "the_tree w' ?i = Sparse t'" "\<forall>j b. j \<noteq> ?i \<longrightarrow> world_view env b w' j = world_view env b w j"
    using on_tree_local[of env w "ws_updateLeaf env (LeafBuffer leaf) index" ?i "Inr ()" "Sparse t'",
      OF inv m _ _ own.preserves_ws_update] inv' t'(2) by auto
  have "pending_step env ?i w w'"
    by (rule pending_stepI[OF w'(2,4)]) (use sparse_update_committed[OF t'(1), of env] t w' in \<open>simp add: ws_view_def\<close>)
  then show ?thesis using w' t t' by (simp add: MerkleTrees_updateLeaf_def world_leaves_def)
qed

section \<open>Commit and rollback\<close>

text \<open>Each version of the view of tree \<open>i\<close> becomes version \<open>c\<close>; the other trees keep theirs.\<close>

definition settles :: "'db tree_env \<Rightarrow> bool \<Rightarrow> MerkleTreeId \<Rightarrow> 'db merkle_trees \<Rightarrow> 'db merkle_trees \<Rightarrow> bool" where
  "settles env c i w w' \<longleftrightarrow> world_inv env w' \<and> (\<forall>b. world_view env b w' i = world_view env c w i) \<and>
     (\<forall>j b. j \<noteq> i \<longrightarrow> world_view env b w' j = world_view env b w j)"

lemma ws_commit_ok:
  assumes "ws_ok env i t"
  shows "\<exists>t'. ws_commit env t = (Inr (), t') \<and> ws_ok env i t' \<and> (\<forall>b. ws_view env b t' = ws_view env True t) \<and>
    (\<forall>j. j \<noteq> i \<longrightarrow> agree env (treeName j) (tdb (ws_base t)) (tdb (ws_base t')))"
proof -
  have inv: "tree_inv env (ws_base t)" and n: "tname (ws_base t) = treeName i" and k: "own_keys (ws_base t)"
    and d: "tdepth (ws_base t) = treeHeight i" and c: "ws_class_ok env i t"
    using assms ws_ok_inv[OF assms] by (simp_all add: ws_ok_def)
  have lu: "levelup_ok env" using inv by (simp add: tree_inv_def)
  obtain other where other: "other \<noteq> i" using MerkleTreeId.distinct(1) by metis
  show ?thesis
  proof (cases t)
    case (Indexed it)
    then have idx: "idx_inv env it" and i: "i = NULLIFIER_TREE" using c by simp_all
    then obtain it' where it': "it_commit env it = (Inr (), it')" "idx_inv env it'" "tdepth (it_base it') = tdepth (it_base it)"
      "\<forall>b. latest it' b = latest it True \<and> it_getNumLeaves it' b = it_getNumLeaves it True \<and>
        node env (it_base it') b = node env (it_base it) True"
      using it_commit_ok[of env it] by (auto simp: idx_inv_def[of env it])
    note ag = it_commit_agree[OF _ _ _ _ it'(1)]
    have "ws_ok env i (Indexed it')"
      using ag(2,3)[OF _ _ _ other] lu n k d i it'(2,3) Indexed by (simp add: ws_ok_def)
    moreover have "\<forall>b. ws_view env b (Indexed it') = ws_view env True t"
      using it'(4) Indexed by (simp add: ws_view_def it_getNumLeaves_def)
    ultimately show ?thesis using it'(1) ag(1) lu n k Indexed by (intro exI[of _ "Indexed it'"]) (simp add: lift_indexed_def)
  next
    case (Standard b)
    obtain b' where b': "TreeBase_commit env b = (Inr (), b')" "\<forall>c. node env b' c = node env b True"
      "\<forall>c. getNumLeaves b' c = getNumLeaves b True" "tdepth b' = tdepth b"
      using TreeBase_commit_ok[of env b] inv Standard by (auto simp: clearCache_def)
    note ag = commit_agree[OF _ _ _ _ b'(1)]
    have "standard_inv env (treeHeight i) b'" using standard_tx.commit_invar[of env "treeHeight i" b] c Standard b'(1) by simp
    then have "ws_ok env i (Standard b')"
      using ag(2,3)[OF _ _ _ other] lu n k d b'(4) Standard c by (simp add: ws_ok_def)
    then show ?thesis using b' ag(1) lu n k Standard
      by (intro exI[of _ "Standard b'"]) (simp add: lift_standard_def ws_view_def)
  next
    case (Sparse b)
    obtain b' where b': "TreeBase_commit env b = (Inr (), b')" "\<forall>c. node env b' c = node env b True"
      "\<forall>c. getNumLeaves b' c = getNumLeaves b True" "tdepth b' = tdepth b"
      using TreeBase_commit_ok[of env b] inv Sparse by (auto simp: clearCache_def)
    note ag = commit_agree[OF _ _ _ _ b'(1)]
    have s: "sparse_inv env (treeHeight i) b" using c unfolding Sparse ws_class_ok.simps by (rule conjunct2)
    have "sparse_inv env (treeHeight i) b'" using sparse_tx.commit_invar[OF s] b'(1) by (simp only: snd_conv)
    then have "ws_ok env i (Sparse b')"
      using ag(2,3)[OF _ _ _ other] lu n k d b'(4) Sparse c by (simp add: ws_ok_def)
    then show ?thesis using b' ag(1) lu n k Sparse
      by (intro exI[of _ "Sparse b'"]) (simp add: lift_sparse_def ws_view_def)
  qed
qed

lemma ws_rollback_ok:
  assumes "ws_ok env i t"
  shows "\<exists>t'. ws_rollback t = (Inr (), t') \<and> ws_class_ok env i t' \<and> tdepth (ws_base t') = treeHeight i \<and>
    (\<forall>b. ws_view env b t' = ws_view env False t)"
proof -
  have inv: "tree_inv env (ws_base t)" and c: "ws_class_ok env i t" and d: "tdepth (ws_base t) = treeHeight i"
    using assms ws_ok_inv[OF assms] by (simp_all add: ws_ok_def)
  show ?thesis
  proof (cases t)
    case (Indexed it)
    then show ?thesis using c d it_rollback_ok[of env it]
      by (auto simp: idx_inv_def[of env it] ws_view_def it_getNumLeaves_def)
        (simp add: it_rollback_def clearCachedLeaves_def TreeBase_rollback_def clearCache_def)
  next
    case (Standard b)
    then show ?thesis
      using c d standard_tx.rollback_invar[of env "treeHeight i" b] TreeBase_rollback_ok(2,3)[OF inv]
      by (auto simp: ws_view_def getNumLeaves_def[of b]) (simp add: TreeBase_rollback_def clearCache_def)
  next
    case (Sparse b)
    then show ?thesis
      using c d sparse_tx.rollback_invar[of env "treeHeight i" b] TreeBase_rollback_ok(2,3)[OF inv]
      by (auto simp: ws_view_def getNumLeaves_def[of b]) (simp add: TreeBase_rollback_def clearCache_def)
  qed
qed

lemma commit_tree_settles:
  assumes inv: "world_inv env w"
  shows "\<exists>w'. on_tree i (ws_commit env) w = (Inr (), w') \<and> settles env True i w w'"
proof -
  obtain t' where t': "ws_commit env (the_tree w i) = (Inr (), t')" "ws_ok env i t'" "\<forall>b. ws_view env b t' = ws_view env True (the_tree w i)"
    "\<forall>j. j \<noteq> i \<longrightarrow> agree env (treeName j) (tdb (ws_base (the_tree w i))) (tdb (ws_base t'))"
    using ws_commit_ok[OF world_inv_ok[OF inv]] by blast
  have db: "tdb (ws_base (the_tree w i)) = wdb w" by (simp add: the_tree_def)
  show ?thesis
    using on_tree_ok[of env w "ws_commit env" i "Inr ()" t', OF inv t'(1,2)] t'(3,4) db
    by (auto simp: settles_def world_view_def)
qed

lemma rollback_tree_settles:
  assumes inv: "world_inv env w"
  shows "\<exists>w'. on_tree i ws_rollback w = (Inr (), w') \<and> settles env False i w w'"
proof -
  obtain t' where t': "ws_rollback (the_tree w i) = (Inr (), t')" "ws_class_ok env i t'" "tdepth (ws_base t') = treeHeight i"
    "\<forall>b. ws_view env b t' = ws_view env False (the_tree w i)"
    using ws_rollback_ok[OF world_inv_ok[OF inv]] by blast
  show ?thesis
    using on_tree_local[of env w ws_rollback i "Inr ()" t', OF inv t'(1-3) own.preserves_ws_rollback] t'(4)
    by (auto simp: settles_def world_view_def)
qed

lemma jfor_settles:
  assumes step: "\<And>i w. world_inv env w \<Longrightarrow> \<exists>w'. f i w = (Inr (), w') \<and> settles env c i w w'"
    and "world_inv env w" and "distinct is"
  shows "\<exists>w'. jfor f is w = (Inr (), w') \<and> world_inv env w' \<and>
    (\<forall>j b. world_view env b w' j = world_view env (if j \<in> set is then c else b) w j)"
  using assms(2,3)
proof (induction "is" arbitrary: w)
  case (Cons i "is")
  obtain w1 where w1: "f i w = (Inr (), w1)" "settles env c i w w1" using step[OF Cons.prems(1)] by blast
  then obtain w' where w': "jfor f is w1 = (Inr (), w')" "world_inv env w'"
    "\<forall>j b. world_view env b w' j = world_view env (if j \<in> set is then c else b) w1 j"
    using Cons.IH[of w1] Cons.prems(2) by (auto simp: settles_def)
  have "world_view env b w' j = world_view env (if j \<in> set (i # is) then c else b) w j" for j b
    using w'(3) w1(2) Cons.prems(2) by (cases "j = i") (auto simp: settles_def)
  then show ?case using w1(1) w'(1,2) by (simp add: jbind_def)
qed simp

lemma world_commit_ok:
  assumes "world_inv env w"
  shows "\<exists>w'. MerkleTrees_commit env w = (Inr (), w') \<and> world_inv env w' \<and> (\<forall>b. world_view env b w' = world_view env True w)"
  using jfor_settles[of env "\<lambda>i. on_tree i (ws_commit env)" True, OF commit_tree_settles assms distinct_tree_ids]
  by (auto simp: MerkleTrees_commit_def tree_ids_all fun_eq_iff)

lemma world_rollback_ok:
  assumes "world_inv env w"
  shows "\<exists>w'. MerkleTrees_rollback w = (Inr (), w') \<and> world_inv env w' \<and> (\<forall>b. world_view env b w' = world_view env False w)"
  using jfor_settles[of env "\<lambda>i. on_tree i ws_rollback" False, OF rollback_tree_settles assms distinct_tree_ids]
  by (auto simp: MerkleTrees_rollback_def tree_ids_all fun_eq_iff)

interpretation world_tx: transactional "\<lambda>w. snd (MerkleTrees_commit env w)" "\<lambda>w. snd (MerkleTrees_rollback w)"
    "world_view env False" "world_view env True" "world_inv env" for env
proof (unfold_locales, goal_cases)
  case (1 w)
  then show ?case using world_commit_ok[of env w] by auto
next
  case (2 w)
  then show ?case using world_rollback_ok[of env w] by auto
next
  case (3 w)
  then show ?case using world_commit_ok[of env w] by auto
next
  case (4 w)
  then show ?case using world_commit_ok[of env w] by auto
next
  case (5 w)
  then show ?case using world_rollback_ok[of env w] by auto
next
  case (6 w)
  then show ?case using world_rollback_ok[of env w] by auto
qed

section \<open>A new world state\<close>

lemma no_nodes_agree: "agree env name db db' \<Longrightarrow> no_nodes env db name \<Longrightarrow> no_nodes env db' name"
  by (simp add: agree_def no_nodes_def tree_key_def)

lemma treeHeight_range: "1 \<le> treeHeight i" "treeHeight i \<le> MAX_DEPTH"
  by (cases i; simp add: MAX_DEPTH_def)+

text \<open>What a new tree holds: nothing, except for the initial records of the nullifier tree.\<close>

definition new_tree_ok :: "'db tree_env \<Rightarrow> MerkleTreeId \<Rightarrow> 'db ws_tree \<Rightarrow> bool" where
  "new_tree_ok env i t \<longleftrightarrow> ws_ok env i t \<and> ws_view env False t = ws_view env True t \<and>
     (\<forall>b. if i = NULLIFIER_TREE then getNumLeaves (ws_base t) b \<le> 8 \<and> abs_values (ws_view env b t) = {0..7}
          else leaf_view env b (ws_base t) = ((\<lambda>_. INITIAL_LEAF), 0))"

lemma node_no_cache: "tcache t = [] \<Longrightarrow> node env t b = node env t True"
  by (auto simp: node_def getRoot_def getLatestValueAtIndex_def fun_eq_iff Let_def cong: option.case_cong)

lemma new_ws_tree_ok:
  assumes lu: "levelup_ok env" and fresh: "no_nodes env db (treeName i)"
  shows "\<exists>t. new_ws_tree env db i = Inr t \<and> new_tree_ok env i t \<and>
    (\<forall>j. j \<noteq> i \<longrightarrow> agree env (treeName j) db (tdb (ws_base t)))"
proof (cases "i = NULLIFIER_TREE")
  case True
  obtain t where t: "newIndexedTree env db (treeName i) (treeHeight i) INITIAL_NULLIFIER_TREE_SIZE = Inr t" "idx_inv env t"
    "tdepth (it_base t) = treeHeight i" "\<forall>b. idx_values t b = {0..7} \<and> it_getNumLeaves t b \<le> 8"
    "\<forall>b. latest t b = latest t True \<and> it_getNumLeaves t b = it_getNumLeaves t True \<and> node env (it_base t) b = node env (it_base t) True"
    using newIndexedTree_ok[OF lu fresh, of "treeHeight i" INITIAL_NULLIFIER_TREE_SIZE] True
    unfolding INITIAL_NULLIFIER_TREE_SIZE_def by force
  have ag: "agree env (treeName j) db (tdb (it_base t)) \<and> tname (it_base t) = treeName i \<and> own_keys (it_base t)" if "j \<noteq> i" for j
    by (rule newIndexedTree_agree[OF lu t(1) that])
  have "ws_view env False (Indexed t) = ws_view env True (Indexed t)"
    using t(5)[THEN spec, of False] by (simp add: ws_view_def it_getNumLeaves_def)
  then have "new_tree_ok env i (Indexed t)"
    using t ag[of CONTRACT_TREE] True
    by (simp add: new_tree_ok_def ws_ok_def abs_values_def ws_view_def idx_values_def it_getNumLeaves_def)
  then show ?thesis using t(1) ag True by (intro exI[of _ "Indexed t"]) (simp add: new_ws_tree_def)
next
  case False
  obtain t v where t: "newTree env db (treeName i) (treeHeight i) = Inr t" "tree_inv env t" "tname t = treeName i"
    "tdepth t = treeHeight i" "tcache t = []" "\<forall>b. getNumLeaves t b = 0" "\<forall>b j. node env t b (treeHeight i) j = INITIAL_LEAF"
    "tdb t = lu_batch env db [(treeName i, v)]"
    using newTree_inv[OF lu fresh treeHeight_range] by blast
  have lv: "leaf_view env b t = ((\<lambda>_. INITIAL_LEAF), 0)" for b using t by (simp add: leaf_view_node cong: if_cong)
  have ag: "agree env (treeName j) db (tdb t)" if "j \<noteq> i" for j
    unfolding t(8) by (rule agree_batch[OF lu]) (use that treeName_keys[of i j "treeName i"] in \<open>simp add: tree_key_def\<close>)
  define w where "w = (if i = PUBLIC_DATA_TREE then Sparse t else Standard t)"
  have "ws_class_ok env i w"
    using t False lv by (simp add: w_def standard_inv_def sparse_inv_def count_ok_def num_nonzero_def)
  moreover have "ws_view env False w = ws_view env True w"
    using t(6) node_no_cache[OF t(5), of env False] by (simp add: ws_view_def w_def)
  ultimately have "new_tree_ok env i w"
    using t lv False by (simp add: new_tree_ok_def ws_ok_def w_def own_keys_def)
  moreover have "new_ws_tree env db i = Inr w"
    using t(1) False by (cases "i = PUBLIC_DATA_TREE") (auto simp: new_ws_tree_def w_def)
  ultimately show ?thesis using ag by (intro exI[of _ w]) (simp add: w_def)
qed

lemma new_tree_ok_agree:
  assumes "agree env (treeName i) db db'" and ok: "new_tree_ok env i (ws_set_db db t)"
  shows "new_tree_ok env i (ws_set_db db' t)"
proof -
  have n: "tname (ws_base t) = treeName i" and inv: "tree_inv env ((ws_base t)\<lparr>tdb := db\<rparr>)"
    using ok ws_ok_inv[of env i "ws_set_db db t"] by (simp_all add: new_tree_ok_def ws_ok_def)
  then have ag: "agree env (tname (ws_base t)) db db'" using assms(1) by simp
  show ?thesis
    using ok ws_ok_agree[OF assms(1)] ws_view_agree[OF ag] leaf_view_agree[OF ag inv]
    by (cases "i = NULLIFIER_TREE") (simp_all add: new_tree_ok_def)
qed

lemma init_trees_ok:
  assumes "levelup_ok env" and "\<forall>j \<in> set is. no_nodes env db (treeName j)" and "distinct (ds @ is)"
    and "list_all2 (\<lambda>i t. new_tree_ok env i (ws_set_db db t)) ds ts"
  shows "\<exists>w. init_trees env db is ts = Inr w \<and> list_all2 (\<lambda>i t. new_tree_ok env i (ws_set_db (wdb w) t)) (ds @ is) (trees w)"
  using assms(2-4)
proof (induction "is" arbitrary: db ds ts)
  case (Cons i "is")
  obtain t where t: "new_ws_tree env db i = Inr t" "new_tree_ok env i t"
    "\<forall>j. j \<noteq> i \<longrightarrow> agree env (treeName j) db (tdb (ws_base t))"
    using new_ws_tree_ok[OF assms(1), of db i] Cons.prems(1) by auto
  let ?db = "tdb (ws_base t)"
  have fresh: "\<forall>j \<in> set is. no_nodes env ?db (treeName j)"
    using Cons.prems(1,2) t(3) no_nodes_agree by (metis distinct.simps(2) distinct_append list.set_intros(2))
  have "list_all2 (\<lambda>i t. new_tree_ok env i (ws_set_db ?db t)) ds ts"
  proof (rule list.rel_mono_strong[OF Cons.prems(3)])
    fix d u assume d: "d \<in> set ds" "new_tree_ok env d (ws_set_db db u)"
    then have "agree env (treeName d) db ?db" using Cons.prems(2) t(3) by auto
    then show "new_tree_ok env d (ws_set_db ?db u)" using d(2) by (rule new_tree_ok_agree)
  qed
  then have all: "list_all2 (\<lambda>i t. new_tree_ok env i (ws_set_db ?db t)) (ds @ [i]) (ts @ [t])"
    using t(2) by (intro list_all2_appendI) (simp_all add: ws_set_db_same)
  show ?case using Cons.IH[OF fresh _ all] Cons.prems(2) t(1) by simp
qed simp

lemma tree_ids_nth: "tree_ids ! treeIndex i = i"
  by (cases i) (simp_all add: tree_ids_def)

lemma init_world_ok:
  assumes "levelup_ok env" and "\<forall>i. no_nodes env db (treeName i)"
  shows "\<exists>w. init_trees env db tree_ids [] = Inr w \<and> world_inv env w \<and> (\<forall>i. new_tree_ok env i (the_tree w i))"
proof -
  obtain w where w: "init_trees env db tree_ids [] = Inr w"
    "list_all2 (\<lambda>i t. new_tree_ok env i (ws_set_db (wdb w) t)) tree_ids (trees w)"
    using init_trees_ok[OF assms(1), of tree_ids db "[]" "[]"] assms(2) distinct_tree_ids by auto
  have len: "length tree_ids = 8" by (simp add: tree_ids_def)
  have "new_tree_ok env i (the_tree w i)" for i
    using list_all2_nthD[OF w(2), of "treeIndex i"] len by (simp add: the_tree_def tree_ids_nth)
  then show ?thesis using w(1) list_all2_lengthD[OF w(2)] len by (simp add: world_inv_def new_tree_ok_def)
qed

end
