(* ===== verification/L2BlockProperties.thy ===== *)
theory L2BlockProperties
  imports L2Block MerkleTreeBase
begin

text \<open>
  Properties of the block encoding. \<open>encodes_end objs m y\<close> says that serialising \<open>objs\<close> succeeds and that the reader method
  \<open>m\<close>, run on a buffer that ends with these bytes, returns \<open>y\<close>. The interface \<open>reader_codec\<close> of a serialisable class
  gives one rule for a single object, one for a counted vector and one for an array, so that the round trip of
  a whole block is a chain of these rules in the order of the fields.
\<close>

section \<open>serializeToBuffer\<close>

lemma serializeToBuffer_Nil [simp]: "serializeToBuffer [] = Inr []"
  by (simp add: serializeToBuffer_def)

lemma cj_numToUInt32BE_4: "0 \<le> n \<Longrightarrow> n < 2 ^ 32 \<Longrightarrow> cj_numToUInt32BE n 4 = Inr (be_bytes 4 n)"
  by (simp add: cj_numToUInt32BE_def write_alloc)

lemma serializeToBuffer_Cons:
  assumes "serializeToBuffer objs = Inr bs"
  shows "serializeToBuffer (BObject (Inr b) # objs) = Inr (b @ bs)"
    "serializeToBuffer (BBuffer b # objs) = Inr (b @ bs)"
    "0 \<le> n \<Longrightarrow> n < 2 ^ 32 \<Longrightarrow> serializeToBuffer (BNumber n # objs) = Inr (be_bytes 4 n @ bs)"
    "serializeToBuffer xs = Inr as \<Longrightarrow> serializeToBuffer (BArray xs # objs) = Inr (as @ bs)"
  using assms by (auto simp: serializeToBuffer_def cj_numToUInt32BE_4)

lemma serializeToBuffer_objects:
  assumes "rtraverse toB xs = Inr bss"
  shows "serializeToBuffer (map (\<lambda>x. BObject (toB x)) xs) = Inr (concat bss)"
  using assms by (induction xs arbitrary: bss) (auto simp: serializeToBuffer_Cons)

definition encodes_end :: "bufferable list \<Rightarrow> 'a reading \<Rightarrow> 'a \<Rightarrow> bool" where
  "encodes_end objs m y \<longleftrightarrow> (\<exists>bs. serializeToBuffer objs = Inr bs \<and> reads_end m bs y)"

lemma encodes_end_number:
  assumes "0 \<le> n" "n < 2 ^ 32" and "encodes_end objs (f n) y"
  shows "encodes_end (BNumber n # objs) (jbind readNumber f) y"
  using assms reads_end_bind[OF reads_number[OF assms(1,2)], of f] serializeToBuffer_Cons(3)
  unfolding encodes_end_def by blast

context reader_codec
begin

lemma object_end:
  assumes "valid x" and "encodes_end objs (f x) y"
  shows "encodes_end (BObject (toBuffer x) # objs) (jbind fromBuffer f) y"
proof -
  obtain b where b: "toBuffer x = Inr b" using to_total[OF assms(1)] by blast
  show ?thesis using assms(2) reads_end_bind[OF from_to[OF assms(1) b], of f] serializeToBuffer_Cons(1)
    unfolding encodes_end_def b by blast
qed

lemma array_end:
  assumes "\<forall>x \<in> set xs. valid x" and "length xs = n" and "encodes_end objs (f xs) y"
  shows "encodes_end (BArray (map (\<lambda>x. BObject (toBuffer x)) xs) # objs) (jbind (readArray n fromBuffer) f) y"
proof -
  obtain bss where bss: "rtraverse toBuffer xs = Inr bss" using rtraverse_total[of xs toBuffer] assms(1) to_total by blast
  show ?thesis
    using assms(3) reads_end_bind[OF array_reads[OF assms(1) bss], of f] serializeToBuffer_Cons(4)
      serializeToBuffer_objects[OF bss]
    unfolding encodes_end_def assms(2)[symmetric] by blast
qed

lemma vector_end:
  assumes "\<forall>x \<in> set xs. valid x" and "int (length xs) < 2 ^ 32" and "encodes_end objs (f xs) y"
  shows "encodes_end (BNumber (int (length xs)) # BArray (map (\<lambda>x. BObject (toBuffer x)) xs) # objs)
    (jbind (readVector fromBuffer) f) y"
proof -
  obtain bss where bss: "rtraverse toBuffer xs = Inr bss" using rtraverse_total[of xs toBuffer] assms(1) to_total by blast
  obtain bs where bs: "serializeToBuffer objs = Inr bs" "reads_end (f xs) bs y"
    using assms(3) by (auto simp: encodes_end_def)
  have "serializeToBuffer (BNumber (int (length xs)) # BArray (map (\<lambda>x. BObject (toBuffer x)) xs) # objs) =
      Inr (be_bytes 4 (int (length xs)) @ concat bss @ bs)"
    by (intro serializeToBuffer_Cons(3) serializeToBuffer_Cons(4) serializeToBuffer_objects bs bss) (use assms(2) in simp_all)
  then show ?thesis using reads_end_bind[OF vector_reads[OF assms(1) bss assms(2)], of f bs y] bs(2)
    unfolding encodes_end_def by (metis append.assoc)
qed

end

section \<open>The classes\<close>

definition fr_ok :: "fr \<Rightarrow> bool" where
  "fr_ok x \<longleftrightarrow> 0 \<le> fr_value x \<and> fr_value x < 256 ^ 32"

definition snapshot_ok :: "append_only_tree_snapshot \<Rightarrow> bool" where
  "snapshot_ok s \<longleftrightarrow> fr_ok (snap_root s) \<and> 0 \<le> nextAvailableLeafIndex s \<and> nextAvailableLeafIndex s < 2 ^ 32"

definition contract_data_ok :: "contract_data \<Rightarrow> bool" where
  "contract_data_ok c \<longleftrightarrow> length (aa_buffer (contractAddress c)) = 32 \<and>
     be_val (aa_buffer (contractAddress c)) \<le> AztecAddress_MAX_VALUE \<and> length (ea_buffer (portalContractAddress c)) = 20"

lemma reads_Fr_bytes: "fr_ok x \<Longrightarrow> Fr_toBuffer x = Inr (be_bytes 32 (fr_value x)) \<and> reads Fr_fromBuffer (be_bytes 32 (fr_value x)) x"
  using fr_codec.from_to[of x] by (simp add: fr_ok_def Fr_toBuffer_bytes)

interpretation fr32: reader_codec Fr_toBuffer Fr_fromBuffer fr_ok
  using reads_Fr_bytes by unfold_locales auto

interpretation snapshot_codec: reader_codec AppendOnlyTreeSnapshot_toBuffer AppendOnlyTreeSnapshot_fromBuffer snapshot_ok
proof (unfold_locales, goal_cases)
  case (1 s)
  then show ?case
    by (simp add: AppendOnlyTreeSnapshot_toBuffer_def snapshot_ok_def reads_Fr_bytes serializeToBuffer_def cj_numToUInt32BE_4)
next
  case (2 s bs)
  let ?r = "be_bytes 32 (fr_value (snap_root s))" and ?n = "nextAvailableLeafIndex s"
  have bs: "bs = ?r @ be_bytes 4 ?n @ []"
    using 2 by (simp add: AppendOnlyTreeSnapshot_toBuffer_def snapshot_ok_def reads_Fr_bytes serializeToBuffer_def cj_numToUInt32BE_4)
  have "reads AppendOnlyTreeSnapshot_fromBuffer (?r @ be_bytes 4 ?n @ []) \<lparr>snap_root = snap_root s, nextAvailableLeafIndex = ?n\<rparr>"
    unfolding AppendOnlyTreeSnapshot_fromBuffer_def
    by (intro reads_bind[where x = "snap_root s"] reads_bind[where x = ?n] reads_return reads_number)
      (use 2 in \<open>simp_all add: snapshot_ok_def reads_Fr_bytes\<close>)
  then show ?case unfolding bs by (cases s) simp
qed

interpretation write_codec: reader_codec PublicDataWrite_toBuffer PublicDataWrite_fromBuffer
    "\<lambda>w. fr_ok (leafIndex w) \<and> fr_ok (newValue w)"
proof (unfold_locales, goal_cases)
  case (1 w)
  then show ?case by (simp add: PublicDataWrite_toBuffer_def reads_Fr_bytes serializeToBuffer_def)
next
  case (2 w bs)
  let ?i = "be_bytes 32 (fr_value (leafIndex w))" and ?v = "be_bytes 32 (fr_value (newValue w))"
  have bs: "bs = ?i @ ?v @ []" using 2 by (simp add: PublicDataWrite_toBuffer_def reads_Fr_bytes serializeToBuffer_def)
  have "reads PublicDataWrite_fromBuffer (?i @ ?v @ []) \<lparr>leafIndex = leafIndex w, newValue = newValue w\<rparr>"
    unfolding PublicDataWrite_fromBuffer_def
    by (intro reads_bind[where x = "leafIndex w"] reads_bind[where x = "newValue w"] reads_return)
      (use 2 in \<open>simp_all add: reads_Fr_bytes\<close>)
  then show ?case unfolding bs by (cases w) simp
qed

interpretation contract_codec: reader_codec ContractData_toBuffer ContractData_fromBuffer contract_data_ok
proof (unfold_locales, goal_cases)
  case (1 c)
  then show ?case by (simp add: ContractData_toBuffer_def serializeToBuffer_def)
next
  case (2 c bs)
  let ?a = "aa_buffer (contractAddress c)" and ?e = "ea_buffer (portalContractAddress c)"
  have bs: "bs = ?a @ ?e @ [] @ []"
    using 2 by (simp add: ContractData_toBuffer_def serializeToBuffer_def AztecAddress_toBuffer_def EthAddress_toBuffer_def)
  have a: "reads AztecAddress_fromBuffer ?a (contractAddress c)"
    using address_codec.from_to[of "contractAddress c"] 2 by (simp add: contract_data_ok_def AztecAddress_toBuffer_def)
  have e: "reads (jlift (new_EthAddress ?e)) [] (portalContractAddress c)"
    using 2 by (simp add: contract_data_ok_def new_EthAddress_def reads_def)
  have "reads ContractData_fromBuffer (?a @ ?e @ [] @ [])
      \<lparr>contractAddress = contractAddress c, portalContractAddress = portalContractAddress c\<rparr>"
    unfolding ContractData_fromBuffer_def
    by (intro reads_bind[where x = "contractAddress c"] reads_bind[where x = ?e] reads_bind[where x = "portalContractAddress c"]
        reads_return reads_bytes a e) (use 2 in \<open>simp add: contract_data_ok_def\<close>)
  then show ?case unfolding bs by (cases c) simp
qed

section \<open>The round trip of a block\<close>

definition start_ok :: "l2_block \<Rightarrow> bool" where
  "start_ok b \<longleftrightarrow> snapshot_ok (startPrivateDataTreeSnapshot b) \<and> snapshot_ok (startNullifierTreeSnapshot b) \<and>
     snapshot_ok (startContractTreeSnapshot b) \<and> snapshot_ok (startTreeOfHistoricPrivateDataTreeRootsSnapshot b) \<and>
     snapshot_ok (startTreeOfHistoricContractTreeRootsSnapshot b) \<and> fr_ok (startPublicDataTreeRoot b) \<and>
     snapshot_ok (startL1ToL2MessageTreeSnapshot b) \<and> snapshot_ok (startTreeOfHistoricL1ToL2MessageTreeRootsSnapshot b)"

definition end_ok :: "l2_block \<Rightarrow> bool" where
  "end_ok b \<longleftrightarrow> snapshot_ok (endPrivateDataTreeSnapshot b) \<and> snapshot_ok (endNullifierTreeSnapshot b) \<and>
     snapshot_ok (endContractTreeSnapshot b) \<and> snapshot_ok (endTreeOfHistoricPrivateDataTreeRootsSnapshot b) \<and>
     snapshot_ok (endTreeOfHistoricContractTreeRootsSnapshot b) \<and> fr_ok (endPublicDataTreeRoot b) \<and>
     snapshot_ok (endL1ToL2MessageTreeSnapshot b) \<and> snapshot_ok (endTreeOfHistoricL1ToL2MessageTreeRootsSnapshot b)"

definition frs_ok :: "fr list \<Rightarrow> bool" where
  "frs_ok xs \<longleftrightarrow> (\<forall>x \<in> set xs. fr_ok x) \<and> int (length xs) < 2 ^ 32"

definition body_ok :: "l2_block \<Rightarrow> bool" where
  "body_ok b \<longleftrightarrow> frs_ok (newCommitments b) \<and> frs_ok (newNullifiers b) \<and> frs_ok (newL2ToL1Msgs b) \<and>
     frs_ok (newContracts b) \<and> frs_ok (newL1ToL2Messages b) \<and>
     (\<forall>w \<in> set (newPublicDataWrites b). fr_ok (leafIndex w) \<and> fr_ok (newValue w)) \<and>
     int (length (newPublicDataWrites b)) < 2 ^ 32 \<and>
     (\<forall>c \<in> set (newContractData b). contract_data_ok c) \<and> length (newContractData b) = length (newContracts b)"

text \<open>A block all of whose parts fit their encodings, with its logs attached.\<close>

definition block_ok :: "l2_block \<Rightarrow> bool" where
  "block_ok b \<longleftrightarrow> 0 \<le> blk_number b \<and> blk_number b < 2 ^ 32 \<and> start_ok b \<and> end_ok b \<and> body_ok b \<and>
     (\<exists>l. newEncryptedLogs b = Some l \<and> L2BlockL2Logs_getSerializedLength l < 2 ^ 32)"

lemma encodes_end_logs:
  assumes "L2BlockL2Logs_getSerializedLength l < 2 ^ 32" and "g l = y"
  shows "encodes_end [BObject (L2BlockL2Logs_toBuffer l)] (jbind L2BlockL2Logs_fromBuffer (\<lambda>l. jreturn (g l))) y"
proof -
  have "length (block_payload l) < 2 ^ 32" using assms(1) by (simp add: length_block_payload)
  from L2BlockL2Logs_toBuffer_prefixed[OF this] L2BlockL2Logs_fromBuffer_reads[OF this]
  show ?thesis using assms(2) by (auto simp: encodes_end_def serializeToBuffer_def reads_end_def jbind_def)
qed

lemmas encodes_end_rules = encodes_end_number fr32.vector_end write_codec.vector_end
  snapshot_codec.object_end fr32.object_end contract_codec.array_end

lemma L2Block_fromFields_id [simp]: "L2Block_fromFields b = b"
  by (cases b) (simp add: L2Block_fromFields_def new_L2Block_def)

lemma L2Block_encode_decode:
  assumes "block_ok b"
  shows "\<exists>bs. L2Block_encode b = Inr bs \<and> reads_end L2Block_decode bs b"
proof -
  obtain l where l: "newEncryptedLogs b = Some l" "L2BlockL2Logs_getSerializedLength l < 2 ^ 32"
    using assms by (auto simp: block_ok_def)
  have n: "0 \<le> blk_number b" "blk_number b < 2 ^ 32" and s: "start_ok b" and e: "end_ok b" and body: "body_ok b"
    using assms by (simp_all add: block_ok_def)
  note v = s[unfolded start_ok_def] e[unfolded end_ok_def] body[unfolded body_ok_def frs_ok_def]
  have "encodes_end
    (BNumber (blk_number b) # start_items b @ end_items b @
     [BNumber (int (length (newCommitments b))), BArray (fr_items (newCommitments b)),
      BNumber (int (length (newNullifiers b))), BArray (fr_items (newNullifiers b)),
      BNumber (int (length (newPublicDataWrites b))),
      BArray (map (\<lambda>w. BObject (PublicDataWrite_toBuffer w)) (newPublicDataWrites b)),
      BNumber (int (length (newL2ToL1Msgs b))), BArray (fr_items (newL2ToL1Msgs b)),
      BNumber (int (length (newContracts b))), BArray (fr_items (newContracts b)),
      BArray (map (\<lambda>c. BObject (ContractData_toBuffer c)) (newContractData b)),
      BNumber (int (length (newL1ToL2Messages b))), BArray (fr_items (newL1ToL2Messages b)),
      BObject (L2BlockL2Logs_toBuffer l)]) L2Block_decode b"
    unfolding L2Block_decode_def start_items_def end_items_def fr_items_def readObject_def append_Cons append_Nil L2Block_fromFields_id
    apply (rule encodes_end_rules, (rule n)+)
    apply (rule snapshot_codec.object_end fr32.object_end, use v in blast)+
    apply (rule encodes_end_rules, use v in blast, use v in blast)+
    apply (rule encodes_end_logs[OF l(2)])
    using l(1) by (cases b) simp
  then show ?thesis by (auto simp: encodes_end_def L2Block_encode_def l)
qed

section \<open>The calldata tree\<close>

lemma hash_layer_even:
  "even (length xs) \<Longrightarrow> hash_layer sha256 xs =
     Inr (map (\<lambda>i. sha256 (xs ! (2 * i) @ xs ! (2 * i + 1))) [0..<length xs div 2])"
proof (induction sha256 xs rule: hash_layer.induct)
  case (3 sha256 l r rest)
  have "[0..<length (l # r # rest) div 2] = 0 # map Suc [0..<length rest div 2]"
    by (simp add: map_Suc_upt upt_conv_Cons del: upt_Suc)
  then show ?case using 3 by (simp add: comp_def)
qed simp_all

lemma mnode_pairs: "mnode H (\<lambda>i. H (f (2 * i)) (f (2 * i + 1))) k i = mnode H f (Suc k) i"
  by (induction k arbitrary: i) simp_all

lemma computeRoot_merkle:
  "length leafs = 2 ^ k \<Longrightarrow>
    computeRoot sha256 leafs = Inr (Some (merkle_root (\<lambda>l r. sha256 (l @ r)) k (\<lambda>i. leafs ! nat i)))"
proof (induction k arbitrary: leafs)
  case 0
  then obtain x where "leafs = [x]" by (cases leafs) auto
  then show ?case by (simp add: computeRoot.simps merkle_root_def)
next
  case (Suc k)
  let ?H = "\<lambda>l r. sha256 (l @ r)"
  let ?ys = "map (\<lambda>i. ?H (leafs ! (2 * i)) (leafs ! (2 * i + 1))) [0..<2 ^ k]"
  have "(1 :: nat) < 2 ^ Suc k" by (rule one_less_power) simp_all
  then have len: "length leafs > 1" using Suc.prems by (simp only:)
  have "hash_layer sha256 leafs = Inr ?ys" using Suc.prems by (simp add: hash_layer_even)
  then have "computeRoot sha256 leafs = computeRoot sha256 ?ys" using len by (subst computeRoot.simps) simp
  also have "\<dots> = Inr (Some (merkle_root ?H k (\<lambda>i. ?ys ! nat i)))" by (rule Suc.IH) simp
  also have "merkle_root ?H k (\<lambda>i. ?ys ! nat i) =
      merkle_root ?H k (\<lambda>i. ?H (leafs ! nat (2 * i)) (leafs ! nat (2 * i + 1)))"
    by (rule merkle_root_cong) (auto simp: in_level_def nat_mult_distrib nat_add_distrib nat_less_iff)
  finally show ?case using mnode_pairs[of ?H "\<lambda>i. leafs ! nat i" k 0] by (simp add: merkle_root_def)
qed

lemma Fr_toBuffer_total: "\<exists>bs. Fr_toBuffer x = Inr bs"
  unfolding Fr_toBuffer_def using toBufferBE_total by blast

lemma PublicDataWrite_toBuffer_total: "\<exists>bs. PublicDataWrite_toBuffer w = Inr bs"
  using Fr_toBuffer_total[of "leafIndex w"] Fr_toBuffer_total[of "newValue w"]
  by (auto simp: PublicDataWrite_toBuffer_def serializeToBuffer_def)

text \<open>The input of a leaf is defined when the two contracts of its kernels are there.\<close>

lemma calldata_leaf_total:
  assumes "2 * i + 1 < length (newContracts b)" and "2 * i + 1 < length (newContractData b)"
  shows "\<exists>x. calldata_leaf b i = Inr x"
proof -
  have fr: "\<exists>bss. rtraverse Fr_toBuffer xs = Inr bss" for xs by (rule rtraverse_total) (simp add: Fr_toBuffer_total)
  have pw: "\<exists>bss. rtraverse PublicDataWrite_toBuffer xs = Inr bss" for xs
    by (rule rtraverse_total) (simp add: PublicDataWrite_toBuffer_total)
  obtain c0 c1 where c: "Fr_toBuffer (newContracts b ! (2 * i)) = Inr c0" "Fr_toBuffer (newContracts b ! (2 * i + 1)) = Inr c1"
    using Fr_toBuffer_total by metis
  obtain cs ns ws ms where l: "rtraverse Fr_toBuffer (subarray (i * 8) ((i + 1) * 8) (newCommitments b)) = Inr cs"
    "rtraverse Fr_toBuffer (subarray (i * 8) ((i + 1) * 8) (newNullifiers b)) = Inr ns"
    "rtraverse PublicDataWrite_toBuffer (subarray (i * 8) ((i + 1) * 8) (newPublicDataWrites b)) = Inr ws"
    "rtraverse Fr_toBuffer (subarray (i * 4) ((i + 1) * 4) (newL2ToL1Msgs b)) = Inr ms"
    using fr pw by metis
  have at: "js_at (newContracts b) (i * 2) = Inr (newContracts b ! (2 * i))" "js_at (newContracts b) (i * 2 + 1) = Inr (newContracts b ! (2 * i + 1))"
    "js_at (newContractData b) (i * 2) = Inr (newContractData b ! (2 * i))" "js_at (newContractData b) (i * 2 + 1) = Inr (newContractData b ! (2 * i + 1))"
    using assms by (simp_all add: js_at_def mult.commute[of i])
  have per: "KERNEL_NEW_COMMITMENTS_LENGTH * 2 = 8" "KERNEL_NEW_NULLIFIERS_LENGTH * 2 = 8"
    "KERNEL_PUBLIC_DATA_UPDATE_REQUESTS_LENGTH * 2 = 8" "KERNEL_NEW_L2_TO_L1_MSGS_LENGTH * 2 = 4"
    by (simp_all add: KERNEL_NEW_COMMITMENTS_LENGTH_def KERNEL_NEW_NULLIFIERS_LENGTH_def
        KERNEL_PUBLIC_DATA_UPDATE_REQUESTS_LENGTH_def KERNEL_NEW_L2_TO_L1_MSGS_LENGTH_def)
  show ?thesis unfolding calldata_leaf_def Let_def per l at rbind_simps c by blast
qed

section \<open>Transactions of a block\<close>

lemma concat_slices:
  "length xs = k * n \<Longrightarrow> concat (map (\<lambda>i. subarray (k * i) (k * (i + 1)) xs) [0..<n]) = xs"
proof (induction n arbitrary: xs)
  case (Suc n)
  have l: "length (take (k * n) xs) = k * n" using Suc.prems by simp
  have "subarray (k * i) (k * (i + 1)) (take (k * n) xs) = subarray (k * i) (k * (i + 1)) xs" if "i < n" for i
  proof -
    have "k * (i + 1) \<le> k * n" by (rule mult_le_mono2) (use that in simp)
    then show ?thesis by (simp add: subarray_def drop_take min_absorb1)
  qed
  then have "concat (map (\<lambda>i. subarray (k * i) (k * (i + 1)) xs) [0..<n]) =
      concat (map (\<lambda>i. subarray (k * i) (k * (i + 1)) (take (k * n) xs)) [0..<n])"
    by (intro arg_cong[where f = concat] map_cong) simp_all
  also have "\<dots> = take (k * n) xs" by (rule Suc.IH[OF l])
  finally have "concat (map (\<lambda>i. subarray (k * i) (k * (i + 1)) xs) [0..<n]) = take (k * n) xs" .
  moreover have "subarray (k * n) (k * (n + 1)) xs = drop (k * n) xs" using Suc.prems by (simp add: subarray_def)
  ultimately show ?case by simp
qed simp

lemma new_L2Tx_ok:
  assumes "nullifiers \<noteq> []" and "fr_ok (nullifiers ! 0)"
  shows "new_L2Tx cs nullifiers ws ms ks ds = Inr \<lparr>tx_newCommitments = cs, tx_newNullifiers = nullifiers,
    tx_newPublicDataWrites = ws, tx_newL2ToL1Msgs = ms, tx_newContracts = ks, tx_newContractData = ds,
    tx_txHash = \<lparr>th_buffer = be_bytes 32 (fr_value (nullifiers ! 0))\<rparr>\<rparr>"
  using assms by (simp add: new_L2Tx_def js_at_def reads_Fr_bytes new_TxHash_def TxHash_SIZE_def)

definition tx_slice :: "nat \<Rightarrow> nat \<Rightarrow> 'a list \<Rightarrow> 'a list" where
  "tx_slice k i xs = subarray (k * i) (k * (i + 1)) xs"

lemma concat_tx_slice:
  "length xs = k * n \<Longrightarrow> concat (map (\<lambda>i. tx_slice k i xs) [0..<n]) = xs"
  unfolding tx_slice_def by (rule concat_slices)

lemma getTx_ok:
  assumes "i < n" and "length (newCommitments b) = 4 * n" and "length (newNullifiers b) = 4 * n" and "\<forall>x \<in> set (newNullifiers b). fr_ok x"
  shows "L2Block_getTx i b = Inr \<lparr>tx_newCommitments = tx_slice 4 i (newCommitments b),
    tx_newNullifiers = tx_slice 4 i (newNullifiers b), tx_newPublicDataWrites = tx_slice 4 i (newPublicDataWrites b),
    tx_newL2ToL1Msgs = tx_slice 2 i (newL2ToL1Msgs b), tx_newContracts = tx_slice 1 i (newContracts b),
    tx_newContractData = tx_slice 1 i (newContractData b),
    tx_txHash = \<lparr>th_buffer = be_bytes 32 (fr_value (newNullifiers b ! (4 * i)))\<rparr>\<rparr>"
proof -
  have l: "length (tx_slice 4 i (newNullifiers b)) = 4" using assms(1,3) by (simp add: tx_slice_def length_subarray)
  have h: "tx_slice 4 i (newNullifiers b) ! 0 = newNullifiers b ! (4 * i)"
    using l assms(1,3) by (simp add: tx_slice_def subarray_def)
  have "fr_ok (newNullifiers b ! (4 * i))" using assms(1,3,4) by simp
  moreover have "tx_slice 4 i (newNullifiers b) \<noteq> []" using l by auto
  ultimately show ?thesis using assms(1,2) new_L2Tx_ok[of "tx_slice 4 i (newNullifiers b)"] h
    by (simp add: L2Block_getTx_def tx_slice_def KERNEL_NEW_COMMITMENTS_LENGTH_def KERNEL_NEW_NULLIFIERS_LENGTH_def
        KERNEL_PUBLIC_DATA_UPDATE_REQUESTS_LENGTH_def KERNEL_NEW_L2_TO_L1_MSGS_LENGTH_def KERNEL_NEW_CONTRACTS_LENGTH_def Let_def)
qed

text \<open>A block source delivers block \<open>k\<close> of its chain with the number \<open>k\<close>.\<close>

definition numbered :: "(int \<Rightarrow> l2_block) \<Rightarrow> int \<Rightarrow> l2_block" where
  "numbered blks k = (blks k)\<lparr>blk_number := k\<rparr>"

section \<open>Properties\<close>

text \<open>C20. The round trip of a block: for every block whose parts fit their encodings and whose logs are attached, \<open>encode\<close>
  succeeds and \<open>decode\<close> of the bytes gives the block back, with every one of its 25 members in place.\<close>

theorem block_roundtrip:
  assumes "block_ok b"
  shows "\<exists>bs. L2Block_encode b = Inr bs \<and> fst (L2Block_decode (new_BufferReader bs 0)) = Inr b"
proof -
  obtain bs where "L2Block_encode b = Inr bs" "reads_end L2Block_decode bs b" using L2Block_encode_decode[OF assms] by (elim exE conjE)
  then show ?thesis by (intro exI[of _ bs] conjI reads_end_whole)
qed

definition sample_block :: l2_block where
  "sample_block = new_L2Block 7 AppendOnlyTreeSnapshot_empty AppendOnlyTreeSnapshot_empty AppendOnlyTreeSnapshot_empty
     AppendOnlyTreeSnapshot_empty AppendOnlyTreeSnapshot_empty Fr_ZERO AppendOnlyTreeSnapshot_empty AppendOnlyTreeSnapshot_empty
     AppendOnlyTreeSnapshot_empty AppendOnlyTreeSnapshot_empty AppendOnlyTreeSnapshot_empty AppendOnlyTreeSnapshot_empty
     AppendOnlyTreeSnapshot_empty Fr_ZERO AppendOnlyTreeSnapshot_empty AppendOnlyTreeSnapshot_empty
     [new_Fr 1, new_Fr 2, new_Fr 3, new_Fr 4] [new_Fr 11, new_Fr 12, new_Fr 13, new_Fr 14]
     (replicate 4 PublicDataWrite_empty) [new_Fr 21, new_Fr 22] [new_Fr 31]
     [\<lparr>contractAddress = AztecAddress_ZERO, portalContractAddress = EthAddress_ZERO\<rparr>] [new_Fr 41]
     (Some \<lparr>txLogs = [\<lparr>functionLogs = [\<lparr>logs = [[1, 2, 3], []]\<rparr>]\<rparr>]\<rparr>)"

lemma sample_block_ok: "block_ok sample_block"
proof -
  have s: "snapshot_ok AppendOnlyTreeSnapshot_empty" "fr_ok Fr_ZERO"
    by (simp_all add: snapshot_ok_def AppendOnlyTreeSnapshot_empty_def fr_ok_def Fr_ZERO_def new_Fr_def)
  have z: "be_val (replicate 32 0) \<le> AztecAddress_MAX_VALUE" by code_simp
  have c: "contract_data_ok \<lparr>contractAddress = AztecAddress_ZERO, portalContractAddress = EthAddress_ZERO\<rparr>"
    using z by (simp add: contract_data_ok_def AztecAddress_ZERO_def EthAddress_ZERO_def)
  have "start_ok sample_block" "end_ok sample_block" using s by (simp_all add: start_ok_def end_ok_def sample_block_def new_L2Block_def)
  moreover have "body_ok sample_block"
    using s c by (simp add: body_ok_def frs_ok_def sample_block_def new_L2Block_def PublicDataWrite_empty_def) (simp add: fr_ok_def new_Fr_def)
  ultimately show ?thesis
    by (simp add: block_ok_def sample_block_def new_L2Block_def L2BlockL2Logs_getSerializedLength_def TxL2Logs_getSerializedLength_def
        FunctionL2Logs_getSerializedLength_def)
qed

theorem block_roundtrip_witness:
  "\<exists>bs. L2Block_encode sample_block = Inr bs \<and> fst (L2Block_decode (new_BufferReader bs 0)) = Inr sample_block"
  by (rule block_roundtrip[OF sample_block_ok])

text \<open>Logs of a block: the announced length is the length of the encoding, and the encoding is read back, for every
  block log that is shorter than four gigabytes.\<close>

theorem block_logs_roundtrip:
  assumes "L2BlockL2Logs_getSerializedLength l < 2 ^ 32"
  shows "\<exists>bs. L2BlockL2Logs_toBuffer l = Inr bs \<and> length bs = L2BlockL2Logs_getSerializedLength l \<and>
    fst (L2BlockL2Logs_fromBuffer (new_BufferReader bs 0)) = Inr l"
proof -
  have "length (block_payload l) < 2 ^ 32" using assms by (simp add: length_block_payload)
  from L2BlockL2Logs_toBuffer_prefixed[OF this] L2BlockL2Logs_fromBuffer_reads[OF this]
  show ?thesis using reads_end_whole by (auto simp: length_block_payload)
qed

theorem block_logs_roundtrip_witness:
  "\<exists>bs. L2BlockL2Logs_toBuffer \<lparr>txLogs = [\<lparr>functionLogs = [\<lparr>logs = [[1, 2, 3], []]\<rparr>]\<rparr>]\<rparr> = Inr bs \<and> length bs = 23"
  using block_logs_roundtrip[of "\<lparr>txLogs = [\<lparr>functionLogs = [\<lparr>logs = [[1, 2, 3], []]\<rparr>]\<rparr>]\<rparr>"]
  by (auto simp: L2BlockL2Logs_getSerializedLength_def TxL2Logs_getSerializedLength_def FunctionL2Logs_getSerializedLength_def)

text \<open>\<open>computeKernelLogsHash\<close> of the serialised logs of a transaction terminates and is the fold over its function calls: the
  hash of the previous hash and of the hash of the logs of the call, starting from 32 zero bytes.\<close>

theorem kernel_logs_hash_fold:
  assumes "TxL2Logs_getSerializedLength t < 2 ^ 32"
  shows "\<exists>bs. TxL2Logs_toBuffer t = Inr bs \<and>
    computeKernelLogsHash sha256 bs = Inr (fold (kernel_step sha256) (functionLogs t) (replicate 32 0))"
proof -
  have len: "length (tx_payload t) < 2 ^ 32" using assms by (simp add: length_tx_payload)
  define n4 where "n4 = be_bytes 4 (int (length (tx_payload t)))"
  have num: "readNumber (new_BufferReader (n4 @ tx_payload t) 0) =
      (Inr (int (length (tx_payload t))), \<lparr>br_buffer = n4 @ tx_payload t, br_index = length n4\<rparr>)"
    using readsD[OF reads_number, of "int (length (tx_payload t))" "[]" "tx_payload t"] len
    by (simp add: n4_def new_BufferReader_def)
  have "fst (kernel_hash_loop sha256 (int (length (tx_payload t))) (replicate 32 0)
      \<lparr>br_buffer = n4 @ tx_payload t, br_index = length n4\<rparr>) = Inr (fold (kernel_step sha256) (functionLogs t) (replicate 32 0))"
    by (rule kernel_hash_loop_fold) (use len fn_fits in \<open>fastforce simp: tx_payload_def\<close>)+
  then show ?thesis using TxL2Logs_toBuffer_prefixed[OF len] num
    by (simp add: computeKernelLogsHash_def jbind_def prefixed_def n4_def)
qed

theorem kernel_logs_hash_fold_witness:
  "\<exists>bs. TxL2Logs_toBuffer \<lparr>functionLogs = [\<lparr>logs = [[5]]\<rparr>]\<rparr> = Inr bs \<and>
    computeKernelLogsHash (\<lambda>b. [word_of_nat (length b)]) bs = Inr [33]"
  using kernel_logs_hash_fold[of "\<lparr>functionLogs = [\<lparr>logs = [[5]]\<rparr>]\<rparr>" "\<lambda>b. [word_of_nat (length b)]"]
  by (auto simp: TxL2Logs_getSerializedLength_def FunctionL2Logs_getSerializedLength_def kernel_step_def)

text \<open>Chaining of blocks: when a block continues another (next number, start snapshots equal to the end snapshots), its
  start state hash is the end state hash of the other, so the rollup contract accepts it as its successor.\<close>

theorem state_hash_chain:
  assumes "blk_number b' = blk_number b + 1" and "start_items b' = end_items b"
  shows "L2Block_getStartStateHash sha256 b' = L2Block_getEndStateHash sha256 b"
  using assms by (simp add: L2Block_getStartStateHash_def L2Block_getEndStateHash_def)

theorem state_hash_chain_witness:
  "L2Block_getStartStateHash id (sample_block\<lparr>blk_number := 8\<rparr>) = L2Block_getEndStateHash id sample_block"
  by (rule state_hash_chain) (simp_all add: sample_block_def new_L2Block_def start_items_def end_items_def)

text \<open>The transactions of a block: \<open>getTx\<close> succeeds exactly for the indices below the number of transactions, the
  transactions partition the commitments, nullifiers, writes, messages and contracts of the block in order, and the hash
  of each is its first nullifier.\<close>

theorem block_transactions:
  assumes "length (newCommitments b) = 4 * n" and "length (newNullifiers b) = 4 * n" and "length (newPublicDataWrites b) = 4 * n"
    and "length (newL2ToL1Msgs b) = 2 * n" and "length (newContracts b) = n" and "length (newContractData b) = n"
    and "\<forall>x \<in> set (newNullifiers b). fr_ok x"
  shows "\<exists>txs. rtraverse (\<lambda>i. L2Block_getTx i b) [0..<n] = Inr txs \<and>
    concat (map tx_newCommitments txs) = newCommitments b \<and> concat (map tx_newNullifiers txs) = newNullifiers b \<and>
    concat (map tx_newPublicDataWrites txs) = newPublicDataWrites b \<and> concat (map tx_newL2ToL1Msgs txs) = newL2ToL1Msgs b \<and>
    concat (map tx_newContracts txs) = newContracts b \<and> concat (map tx_newContractData txs) = newContractData b \<and>
    map (th_buffer \<circ> tx_txHash) txs = map (\<lambda>i. be_bytes 32 (fr_value (newNullifiers b ! (4 * i)))) [0..<n] \<and>
    (\<forall>i \<ge> n. \<exists>e. L2Block_getTx i b = Inl e)"
proof -
  define tx where "tx i = \<lparr>tx_newCommitments = tx_slice 4 i (newCommitments b),
    tx_newNullifiers = tx_slice 4 i (newNullifiers b), tx_newPublicDataWrites = tx_slice 4 i (newPublicDataWrites b),
    tx_newL2ToL1Msgs = tx_slice 2 i (newL2ToL1Msgs b), tx_newContracts = tx_slice 1 i (newContracts b),
    tx_newContractData = tx_slice 1 i (newContractData b),
    tx_txHash = \<lparr>th_buffer = be_bytes 32 (fr_value (newNullifiers b ! (4 * i)))\<rparr>\<rparr>" for i
  have run: "rtraverse (\<lambda>i. L2Block_getTx i b) [0..<n] = Inr (map tx [0..<n])"
    by (rule rtraverse_map) (use getTx_ok[OF _ assms(1,2,7)] in \<open>simp add: tx_def\<close>)
  have "\<exists>e. L2Block_getTx i b = Inl e" if "i \<ge> n" for i
    using that assms(1) by (simp add: L2Block_getTx_def KERNEL_NEW_COMMITMENTS_LENGTH_def Let_def)
  moreover have "concat (map tx_newCommitments (map tx [0..<n])) = newCommitments b"
    "concat (map tx_newNullifiers (map tx [0..<n])) = newNullifiers b"
    "concat (map tx_newPublicDataWrites (map tx [0..<n])) = newPublicDataWrites b"
    "concat (map tx_newL2ToL1Msgs (map tx [0..<n])) = newL2ToL1Msgs b"
    "concat (map tx_newContracts (map tx [0..<n])) = newContracts b"
    "concat (map tx_newContractData (map tx [0..<n])) = newContractData b"
    unfolding map_map comp_def tx_def by (simp_all only: l2_tx.simps, simp_all only: concat_tx_slice assms mult_1)
  moreover have "map (th_buffer \<circ> tx_txHash) (map tx [0..<n]) = map (\<lambda>i. be_bytes 32 (fr_value (newNullifiers b ! (4 * i)))) [0..<n]"
    by (simp add: tx_def)
  ultimately show ?thesis using run by blast
qed

theorem block_transactions_witness:
  "\<exists>txs. rtraverse (\<lambda>i. L2Block_getTx i sample_block) [0..<1] = Inr txs \<and> concat (map tx_newCommitments txs) = newCommitments sample_block"
  using block_transactions[of sample_block 1]
  by (auto simp: sample_block_def new_L2Block_def fr_ok_def new_Fr_def)

text \<open>The calldata hash of a block whose leaves are a power of two is the Merkle root of the hashes of the leaf inputs,
  under the hash of two concatenated nodes.\<close>

theorem calldata_hash_is_merkle_root:
  assumes "length (newCommitments b) = 8 * 2 ^ k" and "\<And>i. i < 2 ^ k \<Longrightarrow> calldata_leaf b i = Inr (leaf i)"
  shows "L2Block_getCalldataHash sha256 b =
    Inr (Some (merkle_root (\<lambda>l r. sha256 (l @ r)) k (\<lambda>i. sha256 (leaf (nat i)))))"
proof -
  let ?ls = "map (\<lambda>i. sha256 (leaf i)) [0..<2 ^ k]"
  have "(length (newCommitments b) + 8 - 1) div 8 = 2 ^ k" using assms(1) by simp
  moreover have "rtraverse (\<lambda>i. rbind (calldata_leaf b i) (\<lambda>inputValue. Inr (sha256 inputValue))) [0..<2 ^ k] = Inr ?ls"
    by (rule rtraverse_map) (simp add: assms(2))
  ultimately have "L2Block_getCalldataHash sha256 b = computeRoot sha256 ?ls"
    by (simp add: L2Block_getCalldataHash_def KERNEL_NEW_COMMITMENTS_LENGTH_def Let_def)
  also have "\<dots> = Inr (Some (merkle_root (\<lambda>l r. sha256 (l @ r)) k (\<lambda>i. ?ls ! nat i)))"
    by (rule computeRoot_merkle) simp
  also have "merkle_root (\<lambda>l r. sha256 (l @ r)) k (\<lambda>i. ?ls ! nat i) =
      merkle_root (\<lambda>l r. sha256 (l @ r)) k (\<lambda>i. sha256 (leaf (nat i)))"
    by (rule merkle_root_cong) (simp add: in_level_def nat_less_iff)
  finally show ?thesis .
qed

theorem calldata_hash_is_merkle_root_witness:
  "\<exists>b x. calldata_leaf b 0 = Inr x \<and> L2Block_getCalldataHash id b = Inr (Some x)"
proof -
  let ?b = "sample_block\<lparr>newCommitments := replicate 8 Fr_ZERO, newContracts := [Fr_ZERO, Fr_ZERO],
    newContractData := newContractData sample_block @ newContractData sample_block\<rparr>"
  obtain x where x: "calldata_leaf ?b 0 = Inr x"
    using calldata_leaf_total[of 0 ?b] by (auto simp: sample_block_def new_L2Block_def)
  have "L2Block_getCalldataHash id ?b = Inr (Some (merkle_root (\<lambda>l r. id (l @ r)) 0 (\<lambda>i. id ((\<lambda>_. x) (nat i)))))"
    by (rule calldata_hash_is_merkle_root) (use x in simp_all)
  with x show ?thesis by (auto simp: merkle_root_def)
qed

end
