(* ===== verification/WorldStateProperties.thy ===== *)
theory WorldStateProperties
  imports WorldStateProofs L2BlockProperties
begin

text \<open>
  What handling a block does to the eight trees, and the other properties of the world state. \<open>world_leaves env b w i\<close> is the
  leaf function and leaf count of tree \<open>i\<close> in the committed (\<open>b\<close> false) or pending view, \<open>world_nullifiers\<close> the set of values of
  the nullifier tree.
\<close>

section \<open>Frames\<close>

text \<open>A job, or a sequence of jobs, that may change the pending version of the trees \<open>S\<close> only.\<close>

definition pending_on :: "'db tree_env \<Rightarrow> MerkleTreeId set \<Rightarrow> 'db merkle_trees \<Rightarrow> 'db merkle_trees \<Rightarrow> bool" where
  "pending_on env S w w' \<longleftrightarrow> world_inv env w' \<and> (\<forall>j b. j \<notin> S \<or> \<not> b \<longrightarrow> world_view env b w' j = world_view env b w j)"

lemma pending_step_on: "pending_step env i w w' \<longleftrightarrow> pending_on env {i} w w'"
  by (simp add: pending_step_def pending_on_def)

lemma pending_on_refl: "world_inv env w \<Longrightarrow> pending_on env S w w"
  by (simp add: pending_on_def)

lemma pending_on_trans: "pending_on env S w w' \<Longrightarrow> pending_on env T w' w'' \<Longrightarrow> pending_on env (S \<union> T) w w''"
  by (auto simp: pending_on_def)

lemma pending_frame:
  assumes "world_inv env w" and "pending_on env S w w'"
  shows "world_inv env w'"
    and "j \<notin> S \<or> \<not> b \<Longrightarrow> world_leaves env b w' j = world_leaves env b w j"
    and "j \<notin> S \<or> \<not> b \<Longrightarrow> world_root b w' j = world_root b w j"
    and "NULLIFIER_TREE \<notin> S \<or> \<not> b \<Longrightarrow> world_nullifiers env b w' = world_nullifiers env b w"
proof -
  show inv: "world_inv env w'" using assms(2) by (simp add: pending_on_def)
  have v: "world_view env b w' j = world_view env b w j" if "j \<notin> S \<or> \<not> b" for j b
    using assms(2) that by (simp add: pending_on_def)
  show "world_leaves env b w' j = world_leaves env b w j" if "j \<notin> S \<or> \<not> b"
    by (rule world_leaves_cong[OF inv assms(1) v[OF that]])
  show "world_root b w' j = world_root b w j" if "j \<notin> S \<or> \<not> b"
    using v[OF that] by (simp add: world_root_view[of _ _ _ env])
  show "world_nullifiers env b w' = world_nullifiers env b w" if "NULLIFIER_TREE \<notin> S \<or> \<not> b"
    using v[OF that] by (simp add: world_nullifiers_def)
qed

lemma settled_frame:
  assumes "world_inv env w" "world_inv env w'" and "\<forall>b. world_view env b w' = world_view env c w"
  shows "world_leaves env b w' j = world_leaves env c w j" "world_root b w' j = world_root c w j"
    "world_nullifiers env b w' = world_nullifiers env c w"
  using world_leaves_cong[OF assms(2,1)] assms(3)
  by (simp_all add: world_nullifiers_def world_root_view[of _ _ _ env])

section \<open>Steps of handling a block\<close>

definition fr_bytes :: "fr \<Rightarrow> buffer" where
  "fr_bytes x = be_bytes 32 (fr_value x)"

lemma Fr_toBuffer_fr_bytes: "fr_ok x \<Longrightarrow> Fr_toBuffer x = Inr (fr_bytes x)"
  by (simp add: fr_bytes_def reads_Fr_bytes)

lemma rtraverse_fr_bytes: "\<forall>x \<in> set xs. fr_ok x \<Longrightarrow> rtraverse Fr_toBuffer xs = Inr (map fr_bytes xs)"
  by (rule rtraverse_map) (simp add: Fr_toBuffer_fr_bytes)

lemma toBigIntBE_fr_bytes: "fr_ok x \<Longrightarrow> toBigIntBE (fr_bytes x) = fr_value x"
  by (simp add: toBigIntBE_be_val fr_bytes_def fr_ok_def be_val_be_bytes)

lemma append_frs_run:
  "\<forall>x \<in> set xs. fr_ok x \<Longrightarrow> append_frs env (i, xs) w = MerkleTrees_appendLeaves env i (map fr_bytes xs) w"
  by (simp add: append_frs_def rtraverse_fr_bytes jbind_def)

definition write_spec :: "public_data_write \<Rightarrow> (int \<Rightarrow> buffer) \<times> int \<Rightarrow> (int \<Rightarrow> buffer) \<times> int" where
  "write_spec dw v = (if PublicDataWrite_isEmpty dw then v
     else sparse_spec (treeHeight PUBLIC_DATA_TREE) (fr_bytes (newValue dw), fr_value (leafIndex dw)) v)"

definition write_ok :: "public_data_write \<Rightarrow> bool" where
  "write_ok dw \<longleftrightarrow> fr_ok (newValue dw) \<and> in_level (treeHeight PUBLIC_DATA_TREE) (fr_value (leafIndex dw))"

lemma writes_step:
  assumes "world_inv env w" and "\<forall>dw \<in> set ws. write_ok dw"
  shows "\<exists>w'. jfor (write_public_data env) ws w = (Inr (), w') \<and> pending_on env {PUBLIC_DATA_TREE} w w' \<and>
    world_leaves env True w' PUBLIC_DATA_TREE = fold write_spec ws (world_leaves env True w PUBLIC_DATA_TREE)"
  using assms
proof (induction ws arbitrary: w)
  case Nil
  then show ?case by (simp add: pending_on_refl)
next
  case (Cons dw ws)
  have ok: "fr_ok (newValue dw)" "in_level (treeHeight PUBLIC_DATA_TREE) (fr_value (leafIndex dw))"
    using Cons.prems(2) by (simp_all add: write_ok_def)
  have "\<exists>w1. write_public_data env dw w = (Inr (), w1) \<and> pending_on env {PUBLIC_DATA_TREE} w w1 \<and>
      world_leaves env True w1 PUBLIC_DATA_TREE = write_spec dw (world_leaves env True w PUBLIC_DATA_TREE)"
  proof (cases "PublicDataWrite_isEmpty dw")
    case True
    then show ?thesis using Cons.prems(1) by (simp add: write_public_data_def write_spec_def pending_on_refl)
  next
    case False
    then show ?thesis using update_public_step[OF Cons.prems(1) ok(2), of "fr_bytes (newValue dw)"]
      by (simp add: write_public_data_def write_spec_def Fr_toBuffer_fr_bytes[OF ok(1)] jbind_def pending_step_on)
  qed
  then obtain w1 where w1: "write_public_data env dw w = (Inr (), w1)" "pending_on env {PUBLIC_DATA_TREE} w w1"
    "world_leaves env True w1 PUBLIC_DATA_TREE = write_spec dw (world_leaves env True w PUBLIC_DATA_TREE)" by blast
  obtain w' where w': "jfor (write_public_data env) ws w1 = (Inr (), w')" "pending_on env {PUBLIC_DATA_TREE} w1 w'"
    "world_leaves env True w' PUBLIC_DATA_TREE = fold write_spec ws (world_leaves env True w1 PUBLIC_DATA_TREE)"
    using Cons.IH[of w1] w1(2) Cons.prems(2) by (auto simp: pending_on_def)
  show ?case
    by (rule exI[of _ w']) (use w1 w' pending_on_trans[OF w1(2) w'(2)] in \<open>simp add: jbind_def\<close>)
qed

text \<open>Appending the fields of a block to a standard tree, and the root of a tree to the tree of its historic roots.\<close>

lemma append_frs_step:
  assumes "world_inv env w" and "i \<noteq> NULLIFIER_TREE" "i \<noteq> PUBLIC_DATA_TREE" and "\<forall>x \<in> set xs. fr_ok x"
    and "snd (world_leaves env True w i) + int (length xs) \<le> 2 ^ treeHeight i"
  shows "\<exists>w'. append_frs env (i, xs) w = (Inr (), w') \<and> pending_on env {i} w w' \<and>
    world_leaves env True w' i = standard_spec (treeHeight i) (map fr_bytes xs) (world_leaves env True w i)"
  using append_standard_step[OF assms(1-3), of "map fr_bytes xs"] assms(4,5) by (simp add: append_frs_run pending_step_on)

lemma append_frs_nullifiers:
  assumes "world_inv env w" and ok: "\<forall>x \<in> set xs. fr_ok x"
    and "snd (world_leaves env True w NULLIFIER_TREE) + int (length xs) \<le> 2 ^ treeHeight NULLIFIER_TREE"
  shows "\<exists>w'. append_frs env (NULLIFIER_TREE, xs) w = (Inr (), w') \<and> pending_on env {NULLIFIER_TREE} w w' \<and>
    world_nullifiers env True w' = fr_value ` set xs \<union> world_nullifiers env True w \<and>
    snd (world_leaves env True w' NULLIFIER_TREE) \<le> snd (world_leaves env True w NULLIFIER_TREE) + int (length xs)"
proof -
  have "toBigIntBE ` set (map fr_bytes xs) = fr_value ` set xs"
    unfolding set_map image_image using ok toBigIntBE_fr_bytes by (intro image_cong) auto
  then show ?thesis
    using append_nullifiers_step[OF assms(1), of "map fr_bytes xs"] assms(2,3)
    by (simp only: append_frs_run pending_step_on length_map simp_thms)
qed

lemma append_root_step:
  assumes "world_inv env w" and "i \<noteq> NULLIFIER_TREE" "i \<noteq> PUBLIC_DATA_TREE"
    and "snd (world_leaves env True w i) + 1 \<le> 2 ^ treeHeight i"
  shows "\<exists>w'. append_root env (k, i) w = (Inr (), w') \<and> pending_on env {i} w w' \<and>
    world_leaves env True w' i = standard_spec (treeHeight i) [world_root True w k] (world_leaves env True w i)"
  using append_standard_step[OF assms(1-3), of "[world_root True w k]"] assms(4)
  by (simp add: append_root_def jbind_def world_root_def pending_step_on)

abbreviation root_trees :: "MerkleTreeId set" where
  "root_trees \<equiv> {PRIVATE_DATA_TREE_ROOTS_TREE, CONTRACT_TREE_ROOTS_TREE, L1_TO_L2_MESSAGES_ROOTS_TREE}"

lemma roots_step:
  assumes inv: "world_inv env w" and room: "\<forall>r \<in> root_trees. snd (world_leaves env True w r) + 1 \<le> 2 ^ 8"
  shows "\<exists>w'. jfor (append_root env) roots_pairs w = (Inr (), w') \<and> pending_on env root_trees w w' \<and>
    (\<forall>(i, r) \<in> set roots_pairs. world_leaves env True w' r = standard_spec 8 [world_root True w' i] (world_leaves env True w r))"
proof -
  let ?P = PRIVATE_DATA_TREE_ROOTS_TREE and ?C = CONTRACT_TREE_ROOTS_TREE and ?M = L1_TO_L2_MESSAGES_ROOTS_TREE
  obtain w1 where w1: "append_root env (PRIVATE_DATA_TREE, ?P) w = (Inr (), w1)" "pending_on env {?P} w w1"
    "world_leaves env True w1 ?P = standard_spec 8 [world_root True w PRIVATE_DATA_TREE] (world_leaves env True w ?P)"
    using append_root_step[OF inv, of ?P PRIVATE_DATA_TREE] room by auto
  note f1 = pending_frame[OF inv w1(2)]
  obtain w2 where w2: "append_root env (CONTRACT_TREE, ?C) w1 = (Inr (), w2)" "pending_on env {?C} w1 w2"
    "world_leaves env True w2 ?C = standard_spec 8 [world_root True w CONTRACT_TREE] (world_leaves env True w ?C)"
    using append_root_step[OF f1(1), of ?C CONTRACT_TREE] room by (auto simp: f1)
  note f2 = pending_frame[OF f1(1) w2(2)]
  obtain w3 where w3: "append_root env (L1_TO_L2_MESSAGES_TREE, ?M) w2 = (Inr (), w3)" "pending_on env {?M} w2 w3"
    "world_leaves env True w3 ?M = standard_spec 8 [world_root True w L1_TO_L2_MESSAGES_TREE] (world_leaves env True w ?M)"
    using append_root_step[OF f2(1), of ?M L1_TO_L2_MESSAGES_TREE] room by (auto simp: f1 f2)
  note f3 = pending_frame[OF f2(1) w3(2)]
  have "pending_on env root_trees w w3"
    using pending_on_trans[OF pending_on_trans[OF w1(2) w2(2)] w3(2)] by (simp add: insert_commute)
  moreover have "jfor (append_root env) roots_pairs w = (Inr (), w3)"
    using w1(1) w2(1) w3(1) by (simp add: roots_pairs_def jbind_def)
  ultimately show ?thesis using w1(3) w2(3) w3(3) by (intro exI[of _ w3]) (simp add: roots_pairs_def f3 f2 f1)
qed

section \<open>The effect of a block on the state\<close>

text \<open>Enough room for a block in the committed trees, and leaf indices of the public data tree.\<close>

definition block_fits :: "'db tree_env \<Rightarrow> 'db merkle_trees \<Rightarrow> l2_block \<Rightarrow> bool" where
  "block_fits env w b \<longleftrightarrow>
     (\<forall>x \<in> set (newContracts b) \<union> set (newNullifiers b) \<union> set (newCommitments b) \<union> set (newL1ToL2Messages b). fr_ok x) \<and>
     (\<forall>dw \<in> set (newPublicDataWrites b). write_ok dw) \<and>
     snd (world_leaves env False w CONTRACT_TREE) + int (length (newContracts b)) \<le> 2 ^ 8 \<and>
     snd (world_leaves env False w NULLIFIER_TREE) + int (length (newNullifiers b)) \<le> 2 ^ 8 \<and>
     snd (world_leaves env False w PRIVATE_DATA_TREE) + int (length (newCommitments b)) \<le> 2 ^ 8 \<and>
     snd (world_leaves env False w L1_TO_L2_MESSAGES_TREE) + int (length (newL1ToL2Messages b)) \<le> 2 ^ 8 \<and>
     (\<forall>i \<in> root_trees. snd (world_leaves env False w i) + 1 \<le> 2 ^ 8)"

text \<open>The specification of a block from another node: what every tree holds afterwards, in terms of the committed state before.\<close>

definition block_applied :: "'db tree_env \<Rightarrow> l2_block \<Rightarrow> 'db merkle_trees \<Rightarrow> 'db merkle_trees \<Rightarrow> bool \<Rightarrow> bool" where
  "block_applied env b w w' c \<longleftrightarrow>
     world_leaves env c w' CONTRACT_TREE = standard_spec 8 (map fr_bytes (newContracts b)) (world_leaves env False w CONTRACT_TREE) \<and>
     world_leaves env c w' PRIVATE_DATA_TREE = standard_spec 8 (map fr_bytes (newCommitments b)) (world_leaves env False w PRIVATE_DATA_TREE) \<and>
     world_leaves env c w' L1_TO_L2_MESSAGES_TREE =
       standard_spec 8 (map fr_bytes (newL1ToL2Messages b)) (world_leaves env False w L1_TO_L2_MESSAGES_TREE) \<and>
     world_nullifiers env c w' = fr_value ` set (newNullifiers b) \<union> world_nullifiers env False w \<and>
     snd (world_leaves env c w' NULLIFIER_TREE) \<le> snd (world_leaves env False w NULLIFIER_TREE) + int (length (newNullifiers b)) \<and>
     world_leaves env c w' PUBLIC_DATA_TREE = fold write_spec (newPublicDataWrites b) (world_leaves env False w PUBLIC_DATA_TREE) \<and>
     (\<forall>(i, r) \<in> set roots_pairs.
        world_leaves env c w' r = standard_spec 8 [world_root c w' i] (world_leaves env False w r))"

text \<open>The four loops of appends.\<close>

definition block_appends :: "l2_block \<Rightarrow> (MerkleTreeId \<times> fr list) list" where
  "block_appends b = [(CONTRACT_TREE, newContracts b), (NULLIFIER_TREE, newNullifiers b), (PRIVATE_DATA_TREE, newCommitments b),
     (L1_TO_L2_MESSAGES_TREE, newL1ToL2Messages b)]"

lemma appends_step:
  assumes inv: "world_inv env w" and fits: "block_fits env w b" and settled: "world_view env True w = world_view env False w"
  shows "\<exists>w'. jfor (append_frs env) (block_appends b) w = (Inr (), w') \<and>
    pending_on env {CONTRACT_TREE, NULLIFIER_TREE, PRIVATE_DATA_TREE, L1_TO_L2_MESSAGES_TREE} w w' \<and>
    (\<forall>(i, xs) \<in> set (block_appends b). i \<noteq> NULLIFIER_TREE \<longrightarrow>
      world_leaves env True w' i = standard_spec 8 (map fr_bytes xs) (world_leaves env False w i)) \<and>
    world_nullifiers env True w' = fr_value ` set (newNullifiers b) \<union> world_nullifiers env False w \<and>
    snd (world_leaves env True w' NULLIFIER_TREE) \<le> snd (world_leaves env False w NULLIFIER_TREE) + int (length (newNullifiers b))"
proof -
  note ok = fits[unfolded block_fits_def]
  have f0: "world_leaves env True w = world_leaves env False w" "world_nullifiers env True w = world_nullifiers env False w"
    using world_leaves_cong[OF inv inv, of True _ False] settled by (auto simp: world_nullifiers_def)
  obtain w1 where w1: "append_frs env (CONTRACT_TREE, newContracts b) w = (Inr (), w1)" "pending_on env {CONTRACT_TREE} w w1"
    "world_leaves env True w1 CONTRACT_TREE = standard_spec 8 (map fr_bytes (newContracts b)) (world_leaves env False w CONTRACT_TREE)"
    using append_frs_step[OF inv, of CONTRACT_TREE "newContracts b"] ok by (auto simp: f0)
  note f1 = pending_frame[OF inv w1(2)]
  obtain w2 where w2: "append_frs env (NULLIFIER_TREE, newNullifiers b) w1 = (Inr (), w2)" "pending_on env {NULLIFIER_TREE} w1 w2"
    "world_nullifiers env True w2 = fr_value ` set (newNullifiers b) \<union> world_nullifiers env False w"
    "snd (world_leaves env True w2 NULLIFIER_TREE) \<le> snd (world_leaves env False w NULLIFIER_TREE) + int (length (newNullifiers b))"
    using append_frs_nullifiers[OF f1(1), of "newNullifiers b"] ok by (auto simp: f0 f1)
  note f2 = pending_frame[OF f1(1) w2(2)]
  obtain w3 where w3: "append_frs env (PRIVATE_DATA_TREE, newCommitments b) w2 = (Inr (), w3)" "pending_on env {PRIVATE_DATA_TREE} w2 w3"
    "world_leaves env True w3 PRIVATE_DATA_TREE = standard_spec 8 (map fr_bytes (newCommitments b)) (world_leaves env False w PRIVATE_DATA_TREE)"
    using append_frs_step[OF f2(1), of PRIVATE_DATA_TREE "newCommitments b"] ok by (auto simp: f0 f1 f2)
  note f3 = pending_frame[OF f2(1) w3(2)]
  obtain w4 where w4: "append_frs env (L1_TO_L2_MESSAGES_TREE, newL1ToL2Messages b) w3 = (Inr (), w4)"
    "pending_on env {L1_TO_L2_MESSAGES_TREE} w3 w4" "world_leaves env True w4 L1_TO_L2_MESSAGES_TREE =
      standard_spec 8 (map fr_bytes (newL1ToL2Messages b)) (world_leaves env False w L1_TO_L2_MESSAGES_TREE)"
    using append_frs_step[OF f3(1), of L1_TO_L2_MESSAGES_TREE "newL1ToL2Messages b"] ok by (auto simp: f0 f1 f2 f3)
  note f4 = pending_frame[OF f3(1) w4(2)]
  have "pending_on env {CONTRACT_TREE, NULLIFIER_TREE, PRIVATE_DATA_TREE, L1_TO_L2_MESSAGES_TREE} w w4"
    using pending_on_trans[OF pending_on_trans[OF pending_on_trans[OF w1(2) w2(2)] w3(2)] w4(2)] by (simp add: insert_commute)
  moreover have "jfor (append_frs env) (block_appends b) w = (Inr (), w4)"
    using w1(1) w2(1) w3(1) w4(1) by (simp add: block_appends_def jbind_def)
  ultimately show ?thesis
    using w1(3) w2(3,4) w3(3) w4(3) by (intro exI[of _ w4]) (simp add: block_appends_def f4 f3 f2)
qed

lemma foreign_block_ok:
  assumes inv: "world_inv env w" and fits: "block_fits env w b" and checks: "rootChecks b w = Inr cs" "\<not> list_all id cs"
  shows "\<exists>w'. MerkleTrees_handleL2Block env b w = (Inr (), w') \<and> world_inv env w' \<and>
    world_view env False w' = world_view env True w' \<and> (\<forall>c. block_applied env b w w' c)"
proof -
  obtain w0 where w0: "MerkleTrees_rollback w = (Inr (), w0)" "world_inv env w0" "\<forall>c. world_view env c w0 = world_view env False w"
    using world_rollback_ok[OF inv] by blast
  note f0 = settled_frame[OF inv w0(2,3)]
  have fits0: "block_fits env w0 b" using fits by (simp add: block_fits_def f0)
  obtain w1 where w1: "jfor (append_frs env) (block_appends b) w0 = (Inr (), w1)"
    "pending_on env {CONTRACT_TREE, NULLIFIER_TREE, PRIVATE_DATA_TREE, L1_TO_L2_MESSAGES_TREE} w0 w1"
    "\<forall>(i, xs) \<in> set (block_appends b). i \<noteq> NULLIFIER_TREE \<longrightarrow>
      world_leaves env True w1 i = standard_spec 8 (map fr_bytes xs) (world_leaves env False w i)"
    "world_nullifiers env True w1 = fr_value ` set (newNullifiers b) \<union> world_nullifiers env False w"
    "snd (world_leaves env True w1 NULLIFIER_TREE) \<le> snd (world_leaves env False w NULLIFIER_TREE) + int (length (newNullifiers b))"
    using appends_step[OF w0(2) fits0] w0(3) by (auto simp: f0)
  note f1 = pending_frame[OF w0(2) w1(2)]
  obtain w2 where w2: "jfor (write_public_data env) (newPublicDataWrites b) w1 = (Inr (), w2)" "pending_on env {PUBLIC_DATA_TREE} w1 w2"
    "world_leaves env True w2 PUBLIC_DATA_TREE = fold write_spec (newPublicDataWrites b) (world_leaves env False w PUBLIC_DATA_TREE)"
    using writes_step[OF f1(1), of "newPublicDataWrites b"] fits by (auto simp: f0 f1 block_fits_def)
  note f2 = pending_frame[OF f1(1) w2(2)]
  have "\<forall>r \<in> root_trees. snd (world_leaves env True w2 r) + 1 \<le> 2 ^ 8" using fits by (simp add: f2 f1 f0 block_fits_def)
  then obtain w3 where w3: "jfor (append_root env) roots_pairs w2 = (Inr (), w3)" "pending_on env root_trees w2 w3"
    "\<forall>(i, r) \<in> set roots_pairs. world_leaves env True w3 r = standard_spec 8 [world_root True w3 i] (world_leaves env True w2 r)"
    using roots_step[OF f2(1)] by blast
  note f3 = pending_frame[OF f2(1) w3(2)]
  obtain w4 where w4: "MerkleTrees_commit env w3 = (Inr (), w4)" "world_inv env w4" "\<forall>c. world_view env c w4 = world_view env True w3"
    using world_commit_ok[OF f3(1)] by blast
  note f4 = settled_frame[OF f3(1) w4(2,3)]
  have run: "MerkleTrees_handleL2Block env b w = (Inr (), w4)"
    using checks w0(1) w1(1) w2(1) w3(1) w4(1) by (simp add: MerkleTrees_handleL2Block_def jbind_def block_appends_def)
  have "block_applied env b w w4 c" for c
    using w1(3-5) w2(3) w3(3) unfolding block_applied_def
    by (simp add: block_appends_def roots_pairs_def f4 f3 f2 f1 f0)
  then show ?thesis using run w4(2,3) by auto
qed

section \<open>Whose block it is\<close>

text \<open>The roots that a block announces for the eight trees.\<close>

definition end_roots :: "l2_block \<Rightarrow> (fr \<times> MerkleTreeId) list" where
  "end_roots b =
     [(snap_root (endContractTreeSnapshot b), CONTRACT_TREE), (snap_root (endNullifierTreeSnapshot b), NULLIFIER_TREE),
      (snap_root (endPrivateDataTreeSnapshot b), PRIVATE_DATA_TREE), (endPublicDataTreeRoot b, PUBLIC_DATA_TREE),
      (snap_root (endTreeOfHistoricContractTreeRootsSnapshot b), CONTRACT_TREE_ROOTS_TREE),
      (snap_root (endTreeOfHistoricPrivateDataTreeRootsSnapshot b), PRIVATE_DATA_TREE_ROOTS_TREE),
      (snap_root (endL1ToL2MessageTreeSnapshot b), L1_TO_L2_MESSAGES_TREE),
      (snap_root (endTreeOfHistoricL1ToL2MessageTreeRootsSnapshot b), L1_TO_L2_MESSAGES_ROOTS_TREE)]"

definition roots_match :: "bool \<Rightarrow> l2_block \<Rightarrow> 'db merkle_trees \<Rightarrow> bool" where
  "roots_match c b w \<longleftrightarrow> (\<forall>(r, i) \<in> set (end_roots b). world_root c w i = fr_bytes r)"

lemma rootChecks_run:
  assumes "end_ok b"
  shows "\<exists>cs. rootChecks b w = Inr cs \<and> (list_all id cs \<longleftrightarrow> roots_match True b w)"
  using assms
  by (simp add: rootChecks_def compareRoot_def Fr_toBuffer_fr_bytes end_ok_def snapshot_ok_def roots_match_def end_roots_def world_root_def)

lemma own_block_ok:
  assumes "world_inv env w" and "end_ok b" and "roots_match True b w"
  shows "\<exists>w'. MerkleTrees_handleL2Block env b w = (Inr (), w') \<and> world_inv env w' \<and> (\<forall>c. world_view env c w' = world_view env True w)"
proof -
  obtain cs where cs: "rootChecks b w = Inr cs" "list_all id cs" using rootChecks_run[OF assms(2), of w] assms(3) by auto
  then show ?thesis using world_commit_ok[OF assms(1)] by (auto simp: MerkleTrees_handleL2Block_def jbind_def)
qed

section \<open>A new world state\<close>

lemma updateHistoric_append_root: "updateHistoricRootsTrees env True = jfor (append_root env) roots_pairs"
  by (simp add: updateHistoricRootsTrees_def append_root_def MerkleTrees_getTreeInfo_def Let_def)

lemma new_world_ok:
  assumes "levelup_ok env" and "\<forall>i. no_nodes env db (treeName i)"
  shows "\<exists>w. MerkleTrees_new env db = Inr w \<and> world_inv env w \<and> world_view env False w = world_view env True w \<and> (\<forall>b.
    world_nullifiers env b w = {0..7} \<and> snd (world_leaves env b w NULLIFIER_TREE) \<le> 8 \<and>
    (\<forall>i. i \<notin> root_trees \<union> {NULLIFIER_TREE} \<longrightarrow> world_leaves env b w i = ((\<lambda>_. INITIAL_LEAF), 0)) \<and>
    (\<forall>(i, r) \<in> set roots_pairs. world_leaves env b w r = standard_spec 8 [world_root True w i] ((\<lambda>_. INITIAL_LEAF), 0)))"
proof -
  obtain w0 where w0: "init_trees env db tree_ids [] = Inr w0" "world_inv env w0" "\<forall>i. new_tree_ok env i (the_tree w0 i)"
    using init_world_ok[OF assms] by blast
  have lv: "world_leaves env b w0 i = ((\<lambda>_. INITIAL_LEAF), 0)" if "i \<noteq> NULLIFIER_TREE" for b i
    using w0(3) that by (simp add: new_tree_ok_def world_leaves_def)
  have nl: "world_nullifiers env b w0 = {0..7}" "snd (world_leaves env b w0 NULLIFIER_TREE) \<le> 8" for b
    using w0(3)[THEN spec, of NULLIFIER_TREE] by (simp_all add: new_tree_ok_def world_nullifiers_def world_view_def world_leaves_def leaf_view_def)
  obtain w1 where w1: "jfor (append_root env) roots_pairs w0 = (Inr (), w1)" "pending_on env root_trees w0 w1"
    "\<forall>(i, r) \<in> set roots_pairs. world_leaves env True w1 r = standard_spec 8 [world_root True w1 i] (world_leaves env True w0 r)"
    using roots_step[OF w0(2)] lv by auto
  note f1 = pending_frame[OF w0(2) w1(2)]
  let ?rs = "[CONTRACT_TREE_ROOTS_TREE, PRIVATE_DATA_TREE_ROOTS_TREE, L1_TO_L2_MESSAGES_ROOTS_TREE]"
  obtain w2 where w2: "jfor (\<lambda>i. on_tree i (ws_commit env)) ?rs w1 = (Inr (), w2)" "world_inv env w2"
    "\<forall>j b. world_view env b w2 j = world_view env (if j \<in> set ?rs then True else b) w1 j"
    using jfor_settles[of env "\<lambda>i. on_tree i (ws_commit env)" True, OF commit_tree_settles f1(1), of ?rs] by auto
  have f2: "world_leaves env b w2 j = world_leaves env (if j \<in> set ?rs then True else b) w1 j"
    "world_root b w2 j = world_root (if j \<in> set ?rs then True else b) w1 j" for j b
    using world_leaves_cong[OF w2(2) f1(1)] w2(3) by (simp_all add: world_root_view[of _ _ _ env])
  have n2: "world_nullifiers env b w2 = world_nullifiers env b w1" for b using w2(3) by (simp add: world_nullifiers_def)
  have "world_view env False w1 j = world_view env True w1 j" if "j \<notin> set ?rs" for j
  proof -
    have "world_view env False w0 j = world_view env True w0 j" using w0(3) by (simp add: new_tree_ok_def world_view_def)
    then show ?thesis using w1(2) that by (simp add: pending_on_def)
  qed
  then have "world_view env False w2 = world_view env True w2" using w2(3) by (auto simp: fun_eq_iff)
  moreover have "MerkleTrees_new env db = Inr w2"
    using w0(1) w1(1) w2(1) by (simp add: MerkleTrees_new_def updateHistoric_append_root jbind_def)
  ultimately show ?thesis using w2(2) w1(3) nl by (intro exI[of _ w2]) (simp add: f2 n2 f1 lv roots_pairs_def)
qed

section \<open>Properties\<close>

text \<open>C4. \<open>handleL2Block\<close> on a block of another node, that is, one of whose end roots differs from the pending root of its
  tree: the pending changes are discarded, the contracts, commitments and messages of the block are appended to their
  trees, its nullifiers are added to the nullifiers, its public data writes that are not empty are applied in order, the new
  roots of the three append-only trees are appended to the trees of historic roots, and everything is committed.\<close>

theorem handle_foreign_block:
  assumes "world_inv env w" and "end_ok b" and "block_fits env w b" and "\<not> roots_match True b w"
  shows "\<exists>w'. MerkleTrees_handleL2Block env b w = (Inr (), w') \<and> world_inv env w' \<and>
    world_view env False w' = world_view env True w' \<and> (\<forall>c. block_applied env b w w' c)"
  using rootChecks_run[OF assms(2), of w] foreign_block_ok[OF assms(1,3)] assms(4) by auto

text \<open>\<open>handleL2Block\<close> on a block this node built, all of whose end roots are the pending roots: the pending state of all eight
  trees becomes the committed state, without repeating any write, and the committed roots are those of the block.\<close>

theorem handle_own_block:
  assumes "world_inv env w" and "end_ok b" and "roots_match True b w"
  shows "\<exists>w'. MerkleTrees_handleL2Block env b w = (Inr (), w') \<and> world_inv env w' \<and>
    (\<forall>c. world_view env c w' = world_view env True w \<and> roots_match c b w')"
proof -
  obtain w' where w': "MerkleTrees_handleL2Block env b w = (Inr (), w')" "world_inv env w'" "\<forall>c. world_view env c w' = world_view env True w"
    using own_block_ok[OF assms] by blast
  then show ?thesis using assms(3) settled_frame(2)[OF assms(1) w'(2,3)] by (simp add: roots_match_def)
qed

text \<open>\<open>MerkleTrees.new\<close> on a store without nodes gives a well-formed world state, the same in its committed and pending
  versions: the nullifiers are the prefilled values 0 to 7, the data trees are empty, and each tree of historic roots
  holds one leaf, the root of its empty data tree.\<close>

theorem new_world_state:
  assumes "levelup_ok env" and "\<forall>i. no_nodes env db (treeName i)"
  shows "\<exists>w. MerkleTrees_new env db = Inr w \<and> world_inv env w \<and> world_view env False w = world_view env True w \<and> (\<forall>b.
    world_nullifiers env b w = {0..7} \<and>
    (\<forall>i. i \<notin> root_trees \<union> {NULLIFIER_TREE} \<longrightarrow> world_leaves env b w i = ((\<lambda>_. INITIAL_LEAF), 0)) \<and>
    (\<forall>(i, r) \<in> set roots_pairs. world_leaves env b w r = standard_spec 8 [world_root True w i] ((\<lambda>_. INITIAL_LEAF), 0)))"
  using new_world_ok[OF assms] by blast

theorem new_world_state_witness:
  "\<exists>w. MerkleTrees_new mem_env [] = Inr w \<and> world_inv mem_env w \<and> world_nullifiers mem_env False w = {0..7}"
  using new_world_state[OF levelup_ok_mem, of "[]"] no_nodes_mem by blast

lemma new_world_fits:
  assumes new: "\<forall>b. world_nullifiers env b w = {0..7} \<and> snd (world_leaves env b w NULLIFIER_TREE) \<le> 8 \<and>
    (\<forall>i. i \<notin> root_trees \<union> {NULLIFIER_TREE} \<longrightarrow> world_leaves env b w i = ((\<lambda>_. INITIAL_LEAF), 0)) \<and>
    (\<forall>(i, r) \<in> set roots_pairs. world_leaves env b w r = standard_spec 8 [world_root True w i] ((\<lambda>_. INITIAL_LEAF), 0))"
  shows "block_fits env w sample_block"
proof -
  have "snd (world_leaves env False w i) \<le> 8" for i
    using new[THEN spec, of False] by (cases i) (simp_all add: roots_pairs_def standard_spec_def)
  from this[of CONTRACT_TREE] this[of NULLIFIER_TREE] this[of PRIVATE_DATA_TREE] this[of L1_TO_L2_MESSAGES_TREE]
    this[of PRIVATE_DATA_TREE_ROOTS_TREE] this[of CONTRACT_TREE_ROOTS_TREE] this[of L1_TO_L2_MESSAGES_ROOTS_TREE]
  show ?thesis
    by (simp add: block_fits_def sample_block_def new_L2Block_def PublicDataWrite_empty_def write_ok_def fr_ok_def Fr_ZERO_def new_Fr_def in_level_def)
qed

text \<open>A root that a block can announce and that is not the pending root of the contract tree.\<close>

theorem handle_foreign_block_witness:
  "\<exists>w b w'. MerkleTrees_new mem_env [] = Inr w \<and> \<not> roots_match True b w \<and> MerkleTrees_handleL2Block mem_env b w = (Inr (), w') \<and>
    block_applied mem_env b w w' False"
proof -
  obtain w where w: "MerkleTrees_new mem_env [] = Inr w" "world_inv mem_env w" "block_fits mem_env w sample_block"
    using new_world_ok[OF levelup_ok_mem, of "[]"] no_nodes_mem new_world_fits by blast
  define v :: int where "v = (if world_root True w CONTRACT_TREE = fr_bytes (new_Fr 0) then 1 else 0)"
  define b where "b = sample_block\<lparr>endContractTreeSnapshot := \<lparr>snap_root = new_Fr v, nextAvailableLeafIndex = 0\<rparr>\<rparr>"
  have "fr_bytes (new_Fr 0) \<noteq> fr_bytes (new_Fr 1)" by (simp add: fr_bytes_def new_Fr_def) code_simp
  then have no: "\<not> roots_match True b w" by (auto simp: roots_match_def end_roots_def b_def v_def)
  have "end_ok b"
    using sample_block_ok by (auto simp: block_ok_def end_ok_def b_def snapshot_ok_def fr_ok_def new_Fr_def v_def)
  moreover have "block_fits mem_env w b" using w(3) by (simp add: block_fits_def b_def)
  ultimately show ?thesis using handle_foreign_block[OF w(2) _ _ no] w(1) no by blast
qed

definition zero_env :: "(string \<times> buffer) list tree_env" where
  "zero_env = mem_env\<lparr>compress := (\<lambda>_ _. be_bytes 32 0)\<rparr>"

lemma zero_env_root:
  assumes "world_inv zero_env w"
  shows "world_root b w i = be_bytes 32 0"
proof -
  have inv: "tree_inv zero_env (ws_base (the_tree w i))" and d: "tdepth (ws_base (the_tree w i)) = treeHeight i"
    using ws_ok_inv[OF world_inv_ok[OF assms]] world_inv_ok[OF assms, of i] by (simp_all add: ws_ok_def)
  have "consistent (\<lambda>_ _. be_bytes 32 0) (treeHeight i) (node zero_env (ws_base (the_tree w i)) b)"
    using inv d by (cases b) (simp_all add: tree_inv_def zero_env_def)
  then show ?thesis using treeHeight_range(1)[of i]
    by (simp add: world_root_view[of _ _ _ zero_env] world_view_def ws_view_def consistent_def in_level_def)
qed

theorem handle_own_block_witness:
  "\<exists>w w1 w2. MerkleTrees_new zero_env [] = Inr w \<and> MerkleTrees_appendLeaves zero_env CONTRACT_TREE [[1]] w = (Inr (), w1) \<and>
    roots_match True sample_block w1 \<and> MerkleTrees_handleL2Block zero_env sample_block w1 = (Inr (), w2) \<and>
    world_view zero_env False w2 = world_view zero_env True w1"
proof -
  have lu: "levelup_ok zero_env" "no_nodes zero_env [] name" for name
    using levelup_ok_mem no_nodes_mem[of name] by (simp_all add: zero_env_def levelup_ok_def no_nodes_def)
  obtain w where w: "MerkleTrees_new zero_env [] = Inr w" "world_inv zero_env w"
    "world_leaves zero_env True w CONTRACT_TREE = ((\<lambda>_. INITIAL_LEAF), 0)"
    using new_world_ok[OF lu(1), of "[]"] lu(2) by fastforce
  obtain w1 where w1: "MerkleTrees_appendLeaves zero_env CONTRACT_TREE [[1]] w = (Inr (), w1)" "pending_step zero_env CONTRACT_TREE w w1"
    using append_standard_step[OF w(2), of CONTRACT_TREE "[[1]]"] w(3) by auto
  have inv: "world_inv zero_env w1" using w1(2) by (simp add: pending_step_def)
  have m: "roots_match True sample_block w1"
    by (simp add: roots_match_def end_roots_def zero_env_root[OF inv] sample_block_def new_L2Block_def
        AppendOnlyTreeSnapshot_empty_def fr_bytes_def Fr_ZERO_def new_Fr_def)
  have "end_ok sample_block" using sample_block_ok by (simp add: block_ok_def)
  then show ?thesis using handle_own_block[OF inv _ m] w(1) w1(1) m by blast
qed

lemma find_leaf_loop_find:
  "\<forall>j \<in> set is. getValue j = Inr (Some (f j)) \<Longrightarrow> find_leaf_loop getValue v is = Inr (List.find (\<lambda>j. f j = v) is)"
  by (induction "is") simp_all

lemma find_upt_int:
  "List.find P (map int [0..<n]) = Some k \<longleftrightarrow> 0 \<le> k \<and> k < int n \<and> P k \<and> (\<forall>j. 0 \<le> j \<longrightarrow> j < k \<longrightarrow> \<not> P j)"
proof
  assume "List.find P (map int [0..<n]) = Some k"
  then obtain m where m: "m < n" "P (int m)" "k = int m" "\<forall>j < m. \<not> P (map int [0..<n] ! j)" by (auto simp: find_Some_iff)
  have "\<not> P j" if "0 \<le> j" "j < k" for j
    using m(4)[THEN spec, of "nat j"] that m(1,3) by (simp add: nat_less_iff)
  then show "0 \<le> k \<and> k < int n \<and> P k \<and> (\<forall>j. 0 \<le> j \<longrightarrow> j < k \<longrightarrow> \<not> P j)" using m by simp
next
  assume k: "0 \<le> k \<and> k < int n \<and> P k \<and> (\<forall>j. 0 \<le> j \<longrightarrow> j < k \<longrightarrow> \<not> P j)"
  then have "nat k < n" by (simp add: nat_less_iff)
  then show "List.find P (map int [0..<n]) = Some k"
    using k unfolding find_Some_iff by (intro exI[of _ "nat k"]) auto
qed

text \<open>\<open>findLeafIndex\<close> on a standard or sparse tree returns the least index below the leaf count whose value is the one
  searched for, and \<open>undefined\<close> if there is none.\<close>

theorem find_leaf_index:
  assumes "world_inv env w" and "i \<noteq> NULLIFIER_TREE"
  shows "\<exists>r. MerkleTrees_findLeafIndex env i v b w = Inr r \<and>
    (\<forall>k. r = Some k \<longleftrightarrow> 0 \<le> k \<and> k < ti_size (MerkleTrees_getTreeInfo i b w) \<and>
      MerkleTrees_getLeafValue env i k b w = Inr (Some v) \<and>
      (\<forall>j. 0 \<le> j \<longrightarrow> j < k \<longrightarrow> MerkleTrees_getLeafValue env i j b w \<noteq> Inr (Some v)))"
proof -
  let ?t = "ws_base (the_tree w i)"
  have val: "ws_getLeafValue env j b (the_tree w i) = Inr (Some (getLeafValue env ?t j b))" for j
    using world_inv_ok[OF assms(1), of i] assms(2) by (cases "the_tree w i") (simp_all add: ws_ok_def)
  show ?thesis
    by (auto simp: MerkleTrees_findLeafIndex_def MerkleTrees_getLeafValue_def MerkleTrees_getTreeInfo_def Let_def val
        find_leaf_loop_find[where f = "\<lambda>j. getLeafValue env ?t j b"] find_upt_int)
qed

text \<open>The leaf count of the public data tree counts the leaves that are not empty, so the search misses a leaf whose
  index is not below that number.\<close>

lemma find_misses_public_leaf:
  assumes inv: "world_inv env w" and new: "world_leaves env True w PUBLIC_DATA_TREE = ((\<lambda>_. INITIAL_LEAF), 0)"
    and k: "in_level 254 k" "k \<noteq> 0" and v: "v \<noteq> INITIAL_LEAF"
  shows "\<exists>w'. MerkleTrees_updateLeaf env PUBLIC_DATA_TREE (LeafBuffer v) k w = (Inr (), w') \<and>
    MerkleTrees_getLeafValue env PUBLIC_DATA_TREE k True w' = Inr (Some v) \<and>
    MerkleTrees_findLeafIndex env PUBLIC_DATA_TREE v True w' = Inr None"
proof -
  obtain w' where w': "MerkleTrees_updateLeaf env PUBLIC_DATA_TREE (LeafBuffer v) k w = (Inr (), w')"
    "pending_step env PUBLIC_DATA_TREE w w'"
    "world_leaves env True w' PUBLIC_DATA_TREE = sparse_spec 254 (v, k) ((\<lambda>_. INITIAL_LEAF), 0)"
    using update_public_step[OF inv, of k v] k new by auto
  have inv': "world_inv env w'" using w'(2) by (simp add: pending_step_def)
  obtain t where t: "the_tree w' PUBLIC_DATA_TREE = Sparse t" using the_tree_class(3)[OF inv'] by blast
  have d: "tdepth t = 254" using world_inv_ok[OF inv', of PUBLIC_DATA_TREE] t by (simp add: ws_ok_def)
  have lv: "leaf_view env True t = ((\<lambda>_. INITIAL_LEAF)(k := v), 1)"
    using w'(3) t k v by (simp add: world_leaves_def sparse_spec_def in_level_def)
  then have n: "getNumLeaves t True = 1" by (simp add: leaf_view_def)
  have g: "getLeafValue env t j True = (if j = k then v else INITIAL_LEAF)" if "in_level 254 j" for j
    using fun_cong[OF arg_cong[OF lv, of fst], of j] that d by (simp add: leaf_view_def)
  show ?thesis using w'(1) g[OF k(1)] g[of 0] k(2) v
    by (simp add: MerkleTrees_getLeafValue_def MerkleTrees_findLeafIndex_def t n in_level_def)
qed

theorem find_leaf_index_witness:
  "\<exists>w r. MerkleTrees_new mem_env [] = Inr w \<and> MerkleTrees_findLeafIndex mem_env CONTRACT_TREE [1] True w = Inr r \<and> r \<noteq> Some 0"
proof -
  obtain w where w: "MerkleTrees_new mem_env [] = Inr w" "world_inv mem_env w"
    "world_leaves mem_env True w CONTRACT_TREE = ((\<lambda>_. INITIAL_LEAF), 0)"
    using new_world_ok[OF levelup_ok_mem, of "[]"] no_nodes_mem by fastforce
  have "ti_size (MerkleTrees_getTreeInfo CONTRACT_TREE True w) = 0"
    using w(3) by (simp add: MerkleTrees_getTreeInfo_def Let_def world_leaves_def leaf_view_def)
  then show ?thesis using find_leaf_index[OF w(2), of CONTRACT_TREE "[1]" True] w(1) by fastforce
qed

text \<open>Methods that the class of a tree does not have fail and change no tree: the public data tree cannot be appended to,
  the append-only trees cannot be updated, and only the nullifier tree has batch insertion and leaf records.\<close>

theorem unsupported_tree_methods:
  assumes "world_inv env w"
  shows "(\<forall>ls. MerkleTrees_appendLeaves env PUBLIC_DATA_TREE ls w =
      (Inl (Error ''Tree does not support `appendLeaves` method''), put_tree PUBLIC_DATA_TREE (the_tree w PUBLIC_DATA_TREE) w)) \<and>
    (\<forall>i leaf index. i \<noteq> NULLIFIER_TREE \<longrightarrow> i \<noteq> PUBLIC_DATA_TREE \<longrightarrow> MerkleTrees_updateLeaf env i leaf index w =
      (Inl (Error ''Tree does not support `updateLeaf` method''), put_tree i (the_tree w i) w)) \<and>
    (\<forall>i. i \<noteq> NULLIFIER_TREE \<longrightarrow> (\<forall>ls height subtreeHeight. MerkleTrees_batchInsert env i ls height subtreeHeight w =
      (Inl (Error ''Tree does not support `batchInsert` method''), put_tree i (the_tree w i) w)) \<and>
      (\<forall>x b. MerkleTrees_getPreviousValueIndex i x b w = Inl TypeError) \<and>
      (\<forall>index b. MerkleTrees_getLeafData i index b w = Inl TypeError)) \<and>
    (\<forall>i j. the_tree (put_tree i (the_tree w i) w) j = the_tree w j)"
proof (intro conjI allI impI)
  have c: "ws_class_ok env j (the_tree w j)" for j using world_inv_ok[OF assms, of j] by (simp add: ws_ok_def)
  note defs = MerkleTrees_appendLeaves_def MerkleTrees_updateLeaf_def MerkleTrees_batchInsert_def on_tree_def
    MerkleTrees_getPreviousValueIndex_def MerkleTrees_getLeafData_def
  fix i j :: MerkleTreeId and leaf index ls height subtreeHeight x b
  show "MerkleTrees_appendLeaves env PUBLIC_DATA_TREE ls w =
      (Inl (Error ''Tree does not support `appendLeaves` method''), put_tree PUBLIC_DATA_TREE (the_tree w PUBLIC_DATA_TREE) w)"
    using the_tree_class(3)[OF assms] by (auto simp: defs)
  show "MerkleTrees_updateLeaf env i leaf index w =
      (Inl (Error ''Tree does not support `updateLeaf` method''), put_tree i (the_tree w i) w)"
    if "i \<noteq> NULLIFIER_TREE" "i \<noteq> PUBLIC_DATA_TREE"
    using the_tree_class(1)[OF assms that] by (auto simp: defs)
  show "MerkleTrees_batchInsert env i ls height subtreeHeight w =
      (Inl (Error ''Tree does not support `batchInsert` method''), put_tree i (the_tree w i) w)"
    "MerkleTrees_getPreviousValueIndex i x b w = Inl TypeError" "MerkleTrees_getLeafData i index b w = Inl TypeError"
    if "i \<noteq> NULLIFIER_TREE"
    using c[of i] that by (cases "the_tree w i"; simp add: defs)+
  have len: "length (trees w) = 8" using assms by (simp add: world_inv_def)
  show "the_tree (put_tree i (the_tree w i) w) j = the_tree w j"
    using the_tree_put[OF len] by (cases "j = i") (simp_all add: the_tree_def)
qed

theorem unsupported_tree_methods_witness:
  "\<exists>w. MerkleTrees_new mem_env [] = Inr w \<and> fst (MerkleTrees_appendLeaves mem_env PUBLIC_DATA_TREE [] w) =
    Inl (Error ''Tree does not support `appendLeaves` method'') \<and> MerkleTrees_getLeafData CONTRACT_TREE 0 True w = Inl TypeError"
proof -
  obtain w where w: "MerkleTrees_new mem_env [] = Inr w" "world_inv mem_env w"
    using new_world_ok[OF levelup_ok_mem, of "[]"] no_nodes_mem by blast
  show ?thesis using unsupported_tree_methods[OF w(2)] w(1) by simp
qed

end
