(* ===== verification/WorldStateTypes.thy ===== *)
theory WorldStateTypes
  imports WorldStateProperties
begin

text \<open>
  The shape of the world state: eight trees, each in its slot with its class, its name and its depth. Every job keeps the shape, for all
  arguments and whether or not it fails; \<open>MerkleTrees.new\<close> establishes it on any store.
\<close>

datatype tree_class = StandardTree | StandardIndexedTree | SparseTree

fun class_of :: "'db ws_tree \<Rightarrow> tree_class" where
  "class_of (Standard t) = StandardTree"
| "class_of (Indexed t) = StandardIndexedTree"
| "class_of (Sparse t) = SparseTree"

definition treeClass :: "MerkleTreeId \<Rightarrow> tree_class" where
  "treeClass i = (if i = NULLIFIER_TREE then StandardIndexedTree else if i = PUBLIC_DATA_TREE then SparseTree else StandardTree)"

definition base_shape :: "string \<Rightarrow> nat \<Rightarrow> 'db tree \<Rightarrow> bool" where
  "base_shape name depth t \<longleftrightarrow> tname t = name \<and> tdepth t = depth"

definition tree_shape :: "tree_class \<Rightarrow> string \<Rightarrow> nat \<Rightarrow> 'db ws_tree \<Rightarrow> bool" where
  "tree_shape c name depth t \<longleftrightarrow> class_of t = c \<and> base_shape name depth (ws_base t)"

definition world_typed :: "'db merkle_trees \<Rightarrow> bool" where
  "world_typed w \<longleftrightarrow> length (trees w) = 8 \<and> (\<forall>i. tree_shape (treeClass i) (treeName i) (treeHeight i) (trees w ! treeIndex i))"

interpretation shape: tree_frame "base_shape name depth" for name depth
  by unfold_locales (simp_all add: base_shape_def cache_put_def clearCache_def)

section \<open>Methods of a tree\<close>

lemma preserves_class:
  "class_of (snd (ws_appendLeaves env ls t)) = class_of t"
  "class_of (snd (ws_updateLeaf env leaf i t)) = class_of t"
  "class_of (snd (ws_rollback t)) = class_of t"
  "class_of (snd (ws_commit env t)) = class_of t"
  by (cases t; cases leaf; simp add: lift_standard_def lift_sparse_def lift_indexed_def split_def)+

lemma commit_shape: "preserves (base_shape name depth) (TreeBase_commit env)"
  by (auto simp: preserves_def base_shape_def TreeBase_commit_def Let_def clearCache_def split: sum.splits)

lemma it_commit_shape: "preserves (\<lambda>t. base_shape name depth (it_base t)) (it_commit env)"
  unfolding it_commit_def
proof (intro preserves_jbind preserves_jmodify)
  show "preserves (\<lambda>t. base_shape name depth (it_base t)) (it_super (TreeBase_commit env))"
    using commit_shape[of name depth env] by (auto simp: preserves_def it_super_def split: prod.splits)
  show "base_shape name depth (it_base (commitLeaves env t))" if "base_shape name depth (it_base t)" for t
    using that by (simp add: base_shape_def commitLeaves_def clearCachedLeaves_def Let_def)
qed

lemma ws_commit_shape: "preserves (\<lambda>t. base_shape name depth (ws_base t)) (ws_commit env)"
  unfolding preserves_def
proof (intro allI impI)
  fix t :: "'a ws_tree" assume "base_shape name depth (ws_base t)"
  then show "base_shape name depth (ws_base (snd (ws_commit env t)))"
    by (cases t) (simp_all add: shape.frame_lift commit_shape it_commit_shape)
qed

lemma preserves_tree_shape:
  assumes "\<And>t. class_of (snd (m t)) = class_of t" and "preserves (\<lambda>t. base_shape name depth (ws_base t)) m"
  shows "preserves (tree_shape c name depth) m"
  using assms by (simp add: preserves_def tree_shape_def)

lemma tree_shape_ops:
  "preserves (tree_shape c name depth) (ws_appendLeaves env ls)"
  "preserves (tree_shape c name depth) (ws_updateLeaf env leaf i)"
  "preserves (tree_shape c name depth) ws_rollback"
  "preserves (tree_shape c name depth) (ws_commit env)"
  by (rule preserves_tree_shape, rule preserves_class, rule shape.preserves_ws_append shape.preserves_ws_update
      shape.preserves_ws_rollback ws_commit_shape)+

lemma tree_shape_batchInsert:
  "preserves (tree_shape c name depth) (\<lambda>t. case t of
     Indexed it \<Rightarrow> lift_indexed (batchInsert env ls height subtreeHeight) it
   | _ \<Rightarrow> (Inl e, t))"
  unfolding preserves_def
proof (intro allI impI)
  fix t :: "'a ws_tree" assume t: "tree_shape c name depth t"
  show "tree_shape c name depth (snd (case t of Indexed it \<Rightarrow> lift_indexed (batchInsert env ls height subtreeHeight) it | _ \<Rightarrow> (Inl e, t)))"
  proof (cases t)
    case (Indexed it)
    then have "base_shape name depth (ws_base (snd (lift_indexed (batchInsert env ls height subtreeHeight) it)))"
      using t by (intro shape.frame_lift(3) shape.preserves_batchInsert) (simp add: tree_shape_def)
    then show ?thesis using t Indexed by (simp add: tree_shape_def lift_indexed_def split_def)
  qed (use t in simp_all)
qed

section \<open>Jobs\<close>

lemma tree_shape_set_db [simp]: "tree_shape c name depth (ws_set_db db t) \<longleftrightarrow> tree_shape c name depth t"
  by (cases t) (simp_all add: tree_shape_def base_shape_def)

lemma on_tree_typed:
  assumes "\<And>c name depth. preserves (tree_shape c name depth) m"
  shows "preserves world_typed (on_tree i m)"
  unfolding preserves_def
proof (intro allI impI)
  fix w :: "'a merkle_trees" assume w: "world_typed w"
  obtain r t where t: "m (the_tree w i) = (r, t)" by (cases "m (the_tree w i)")
  have "tree_shape (treeClass i) (treeName i) (treeHeight i) (the_tree w i)" using w by (simp add: world_typed_def the_tree_def)
  from preservesD[OF assms this] t have "tree_shape (treeClass i) (treeName i) (treeHeight i) t" by simp
  then have "tree_shape (treeClass j) (treeName j) (treeHeight j) ((trees w)[treeIndex i := t] ! treeIndex j)" for j
    using w by (cases "i = j") (simp_all add: world_typed_def)
  then show "world_typed (snd (on_tree i m w))" using w by (simp add: on_tree_def t put_tree_def world_typed_def)
qed

lemma typed_jobs:
  "preserves world_typed (MerkleTrees_appendLeaves env i ls)"
  "preserves world_typed (MerkleTrees_updateLeaf env i leaf index)"
  "preserves world_typed (MerkleTrees_batchInsert env i ls height subtreeHeight)"
  "preserves world_typed (MerkleTrees_commit env)"
  "preserves world_typed MerkleTrees_rollback"
  unfolding MerkleTrees_appendLeaves_def MerkleTrees_updateLeaf_def MerkleTrees_batchInsert_def MerkleTrees_commit_def MerkleTrees_rollback_def
  by (intro preserves_jfor on_tree_typed tree_shape_ops tree_shape_batchInsert)+

lemma typed_historic: "preserves world_typed (updateHistoricRootsTrees env b)"
  unfolding updateHistoricRootsTrees_def split_def by (intro preserves_jfor preserves_jbind typed_jobs) simp_all

lemma typed_handleL2Block: "preserves world_typed (MerkleTrees_handleL2Block env block)"
proof -
  have "preserves world_typed (append_frs env x)" "preserves world_typed (write_public_data env y)" "preserves world_typed (append_root env z)" for x y z
    unfolding append_frs_def write_public_data_def append_root_def split_def
    by (auto intro!: preserves_jbind typed_jobs)
  then show ?thesis unfolding MerkleTrees_handleL2Block_def
    by (auto intro!: preserves_jbind preserves_jfor typed_jobs)
qed

section \<open>Initialisation\<close>

lemma new_TreeBase_shape: "new_TreeBase env db name depth sz root = Inr t \<Longrightarrow> base_shape name depth t"
  by (auto simp: new_TreeBase_def base_shape_def Let_def split: if_splits prod.splits)

lemma newTree_shape: "newTree env db name depth = Inr t \<Longrightarrow> base_shape name depth t"
  by (auto simp: newTree_def TreeBase_init_def rbind_def base_shape_def split: sum.splits dest!: new_TreeBase_shape)

lemma newIndexedTree_shape: "newIndexedTree env db name depth p = Inr t \<Longrightarrow> base_shape name depth (it_base t)"
proof -
  assume new: "newIndexedTree env db name depth p = Inr t"
  then obtain b where b: "new_TreeBase env db name depth 0 None = Inr b"
    "it_init env p \<lparr>it_base = b, leaves = empty_array, cachedLeaves = []\<rparr> = (Inr (), t)"
    by (auto simp: newIndexedTree_def new_StandardIndexedTree_def rbind_def split: prod.splits sum.splits)
  have "preserves (\<lambda>t. base_shape name depth (it_base t)) (it_init env p)"
    unfolding it_init_def
    by (intro preserves_jbind preserves_jmodify preserves_jfor shape.preserves_hash shape.preserves_appendLeaf it_commit_shape) simp_all
  from preservesD[OF this, of "\<lparr>it_base = b, leaves = empty_array, cachedLeaves = []\<rparr>"] b new_TreeBase_shape[OF b(1)]
  show ?thesis by simp
qed

lemma new_ws_tree_shape: "new_ws_tree env db i = Inr t \<Longrightarrow> tree_shape (treeClass i) (treeName i) (treeHeight i) t"
  by (auto simp: new_ws_tree_def tree_shape_def treeClass_def newTree_shape newIndexedTree_shape split: if_splits)

lemma init_trees_shape:
  assumes "init_trees env db ids ts = Inr w"
  shows "\<exists>us. trees w = ts @ us \<and> list_all2 (\<lambda>i. tree_shape (treeClass i) (treeName i) (treeHeight i)) ids us"
  using assms
proof (induction ids arbitrary: db ts)
  case (Cons i ids)
  then obtain t where t: "new_ws_tree env db i = Inr t" "init_trees env (tdb (ws_base t)) ids (ts @ [t]) = Inr w" by auto
  from Cons.IH[OF t(2)] new_ws_tree_shape[OF t(1)] show ?case by auto
qed auto

lemma new_world_typed:
  assumes "MerkleTrees_new env db = Inr w"
  shows "world_typed w"
proof -
  let ?m = "jbind (updateHistoricRootsTrees env True) (\<lambda>_. jfor (\<lambda>i. on_tree i (ws_commit env))
    [CONTRACT_TREE_ROOTS_TREE, PRIVATE_DATA_TREE_ROOTS_TREE, L1_TO_L2_MESSAGES_ROOTS_TREE])"
  obtain w0 where w0: "init_trees env db tree_ids [] = Inr w0" "?m w0 = (Inr (), w)"
    using assms unfolding MerkleTrees_new_def by (auto simp: rbind_def simp del: jfor.simps split: prod.splits sum.splits)
  from init_trees_shape[OF w0(1)] have l: "list_all2 (\<lambda>i. tree_shape (treeClass i) (treeName i) (treeHeight i)) tree_ids (trees w0)" by auto
  have len: "length tree_ids = 8" by (simp add: tree_ids_def)
  have "world_typed w0"
    using l list_all2_nthD[OF l, of "treeIndex i" for i] by (simp add: world_typed_def list_all2_lengthD[OF l, symmetric] len tree_ids_nth)
  moreover have "preserves world_typed ?m" by (intro preserves_jbind preserves_jfor typed_historic on_tree_typed tree_shape_ops)
  ultimately show ?thesis using preservesD[of world_typed ?m w0] w0(2) by simp
qed

text \<open>The world state keeps its types: \<open>MerkleTrees.new\<close> makes eight trees, each in its slot with the class, the name and the depth of its
  identifier, and every job (append, update, batch insertion, commit, rollback, update of the historic roots, handling a block) keeps them so, for
  all arguments and also when it fails.\<close>

theorem world_state_typed:
  "(MerkleTrees_new env db = Inr w \<longrightarrow> world_typed w) \<and>
   (world_typed w \<longrightarrow>
     world_typed (snd (MerkleTrees_appendLeaves env i ls w)) \<and> world_typed (snd (MerkleTrees_updateLeaf env i leaf index w)) \<and>
     world_typed (snd (MerkleTrees_batchInsert env i ls height subtreeHeight w)) \<and> world_typed (snd (MerkleTrees_commit env w)) \<and>
     world_typed (snd (MerkleTrees_rollback w)) \<and> world_typed (snd (updateHistoricRootsTrees env b w)) \<and>
     world_typed (snd (MerkleTrees_handleL2Block env block w)))"
proof (intro conjI impI)
  assume w: "world_typed w"
  note jobs = typed_jobs[THEN preservesD, OF w]
  show "world_typed (snd (MerkleTrees_appendLeaves env i ls w))" "world_typed (snd (MerkleTrees_updateLeaf env i leaf index w))"
    "world_typed (snd (MerkleTrees_batchInsert env i ls height subtreeHeight w))" "world_typed (snd (MerkleTrees_commit env w))"
    "world_typed (snd (MerkleTrees_rollback w))" by (rule jobs)+
  show "world_typed (snd (updateHistoricRootsTrees env b w))" by (rule preservesD[OF typed_historic w])
  show "world_typed (snd (MerkleTrees_handleL2Block env block w))" by (rule preservesD[OF typed_handleL2Block w])
qed (rule new_world_typed)

theorem world_state_typed_witness:
  "\<exists>w. MerkleTrees_new mem_env [] = Inr w \<and> world_typed w \<and> world_typed (snd (MerkleTrees_handleL2Block mem_env sample_block w))"
proof -
  obtain w where "MerkleTrees_new mem_env [] = Inr w" using new_world_ok[OF levelup_ok_mem, of "[]"] no_nodes_mem by blast
  then show ?thesis
    using world_state_typed[of mem_env "[]" w CONTRACT_TREE "[]" "LeafBuffer []" 0 0 0 True sample_block] by simp
qed

end
