(* ===== verification/BlockDownloader.thy ===== *)
theory BlockDownloader
  imports Fifo
begin

text \<open>
  \<^verbatim>\<open>types/src/l2_block_downloader/l2_block_downloader.ts\<close> with \<^verbatim>\<open>InterruptableSleep\<close> of \<^verbatim>\<open>foundation/src/sleep/index.ts\<close>: a loop that
  fetches blocks from a source and queues them in batches, at most \<open>maxQueueSize\<close> at a time. An asynchronous function is a
  state machine between its \<open>await\<close>s: a step runs it from one \<open>await\<close> to the next. The loop is named by its position
  among the loops that \<open>start\<close> has launched; a pending call of \<open>getL2Blocks\<close> by a number. Calls whose promise is settled
  resume in the order of settlement, as the microtask queue runs them.
\<close>

section \<open>InterruptableSleep\<close>

text \<open>\<open>racing\<close>: the sleeps that wait for their timer or for the current \<open>interruptPromise\<close>.\<close>

record isleep =
  racing :: "nat list"
  timeouts :: "nat list"

definition new_InterruptableSleep :: isleep where
  "new_InterruptableSleep = \<lparr>racing = [], timeouts = []\<rparr>"

definition sleep_begins :: "nat \<Rightarrow> isleep \<Rightarrow> isleep" where
  "sleep_begins c s = s\<lparr>timeouts := timeouts s @ [c], racing := racing s @ [c]\<rparr>"

definition sleep_timer :: "nat \<Rightarrow> isleep \<Rightarrow> isleep" where
  "sleep_timer c s = s\<lparr>racing := remove1 c (racing s)\<rparr>"

text \<open>After the race: the timer is cleared and taken off the list; an interrupt may ask for an exception.\<close>

definition sleep_resumes :: "nat \<Rightarrow> bool \<Rightarrow> isleep \<Rightarrow> unit result \<times> isleep" where
  "sleep_resumes c shouldThrow s =
     (if shouldThrow then Inl (Error ''Interrupted.'') else Inr (), s\<lparr>timeouts := remove1 c (timeouts s)\<rparr>)"

text \<open>\<open>interrupt\<close> resolves the promise all current sleeps race against: the sleeps it ends, each with \<open>sleepShouldThrow\<close>.\<close>

definition InterruptableSleep_interrupt :: "bool \<Rightarrow> isleep \<Rightarrow> (nat \<times> bool) list \<times> isleep" where
  "InterruptableSleep_interrupt sleepShouldThrow s = (map (\<lambda>c. (c, sleepShouldThrow)) (racing s), s\<lparr>racing := []\<rparr>)"

section \<open>The downloader\<close>

text \<open>Where a loop is: waiting for \<open>getL2Blocks(from, 10)\<close>, asleep, woken, waiting for a token, given a token, or done.\<close>

datatype 'b dl_loop = Fetching int | Sleeping | Woken | Acquiring "'b list" | Acquired "'b list" | Ended

record 'b downloader =
  dl_running :: bool
  dl_from :: int
  dl_sleep :: isleep
  dl_semaphore :: "bool memory_fifo"
  dl_queue :: "'b list memory_fifo"
  dl_loops :: "'b dl_loop list"
  dl_resolved :: "(nat \<times> 'b list option) list"
  dl_returned :: "(nat \<times> 'b list) list"

definition new_L2BlockDownloader :: "nat \<Rightarrow> 'b downloader" where
  "new_L2BlockDownloader maxQueueSize =
     \<lparr>dl_running = False, dl_from = 0, dl_sleep = new_InterruptableSleep, dl_semaphore = fifo (new_Semaphore maxQueueSize),
      dl_queue = new_MemoryFifo, dl_loops = [], dl_resolved = [], dl_returned = []\<rparr>"

definition set_loop :: "nat \<Rightarrow> 'b dl_loop \<Rightarrow> 'b downloader \<Rightarrow> 'b downloader" where
  "set_loop i l d = d\<lparr>dl_loops := (dl_loops d)[i := l]\<rparr>"

definition dl_interrupt :: "'b downloader \<Rightarrow> 'b downloader" where
  "dl_interrupt d =
     (let (cs, s) = InterruptableSleep_interrupt False (dl_sleep d)
      in fold (\<lambda>(c, _). set_loop c Woken) cs (d\<lparr>dl_sleep := s\<rparr>))"

text \<open>The test of \<open>while (this.running)\<close> and the call of the source.\<close>

definition loop_head :: "'b downloader \<Rightarrow> 'b dl_loop" where
  "loop_head d = (if dl_running d then Fetching (dl_from d) else Ended)"

definition dl_start :: "int \<Rightarrow> 'b downloader \<Rightarrow> 'b downloader" where
  "dl_start from d =
     (let d = d\<lparr>dl_from := from\<rparr>
      in if dl_running d then dl_interrupt d
         else let d = d\<lparr>dl_running := True\<rparr> in d\<lparr>dl_loops := dl_loops d @ [loop_head d]\<rparr>)"

text \<open>\<open>stop()\<close> up to \<open>await this.runningPromise\<close>, which is settled when the loop has ended. A second \<open>cancel\<close> calls the
  resolvers again, of promises that the first one has settled.\<close>

definition dl_stop :: "'b downloader \<Rightarrow> 'b downloader" where
  "dl_stop d =
     (let d = dl_interrupt (d\<lparr>dl_running := False\<rparr>); (cs, q) = MemoryFifo_cancel (dl_queue d)
      in d\<lparr>dl_queue := q, dl_resolved := dl_resolved d @ (if flushing (dl_queue d) then [] else map (\<lambda>c. (c, None)) cs)\<rparr>)"

definition dl_sleeps :: "nat \<Rightarrow> 'b downloader \<Rightarrow> 'b downloader" where
  "dl_sleeps i d = set_loop i Sleeping (d\<lparr>dl_sleep := sleep_begins i (dl_sleep d)\<rparr>)"

text \<open>The source answers: no blocks, and the loop sleeps; or blocks, and it acquires a token.\<close>

definition dl_fetched :: "nat \<Rightarrow> 'b list \<Rightarrow> 'b downloader \<Rightarrow> 'b downloader" where
  "dl_fetched i blocks d =
     (if blocks = [] then dl_sleeps i d
      else case MemoryFifo_get i (dl_semaphore d) of
        (Some _, q) \<Rightarrow> set_loop i (Acquired blocks) (d\<lparr>dl_semaphore := q\<rparr>)
      | (None, q) \<Rightarrow> set_loop i (Acquiring blocks) (d\<lparr>dl_semaphore := q\<rparr>))"

text \<open>The source throws: the error is logged and the loop sleeps.\<close>

definition dl_fetch_fails :: "nat \<Rightarrow> 'b downloader \<Rightarrow> 'b downloader" where
  "dl_fetch_fails i d = dl_sleeps i d"

definition dl_timer :: "nat \<Rightarrow> 'b downloader \<Rightarrow> 'b downloader" where
  "dl_timer i d = set_loop i Woken (d\<lparr>dl_sleep := sleep_timer i (dl_sleep d)\<rparr>)"

definition dl_wakes :: "nat \<Rightarrow> 'b downloader \<Rightarrow> 'b downloader" where
  "dl_wakes i d = set_loop i (loop_head d) (d\<lparr>dl_sleep := snd (sleep_resumes i False (dl_sleep d))\<rparr>)"

definition dl_puts :: "nat \<Rightarrow> 'b list \<Rightarrow> 'b downloader \<Rightarrow> 'b downloader" where
  "dl_puts i blocks d =
     (let (r, q) = MemoryFifo_put blocks (dl_queue d);
          d = d\<lparr>dl_queue := q, dl_from := dl_from d + int (length blocks),
                dl_resolved := dl_resolved d @ (case r of None \<Rightarrow> [] | Some c \<Rightarrow> [(c, Some blocks)])\<rparr>
      in set_loop i (loop_head d) d)"

text \<open>\<open>getL2Blocks()\<close>: the call, and what runs when its promise is settled.\<close>

definition dl_getL2Blocks :: "nat \<Rightarrow> 'b downloader \<Rightarrow> 'b downloader" where
  "dl_getL2Blocks c d =
     (let (r, q) = MemoryFifo_get c (dl_queue d)
      in d\<lparr>dl_queue := q, dl_resolved := dl_resolved d @ (case r of None \<Rightarrow> [] | Some b \<Rightarrow> [(c, b)])\<rparr>)"

definition dl_release :: "'b downloader \<Rightarrow> 'b downloader" where
  "dl_release d =
     (let (r, q) = MemoryFifo_put True (dl_semaphore d); d = d\<lparr>dl_semaphore := q\<rparr>
      in case r of
           None \<Rightarrow> d
         | Some j \<Rightarrow> case dl_loops d ! j of Acquiring blocks \<Rightarrow> set_loop j (Acquired blocks) d | _ \<Rightarrow> d)"

definition dl_returns :: "'b downloader \<Rightarrow> 'b downloader" where
  "dl_returns d =
     (case dl_resolved d of
        [] \<Rightarrow> d
      | (c, None) # rs \<Rightarrow> d\<lparr>dl_resolved := rs, dl_returned := dl_returned d @ [(c, [])]\<rparr>
      | (c, Some blocks) # rs \<Rightarrow> dl_release (d\<lparr>dl_resolved := rs, dl_returned := dl_returned d @ [(c, blocks)]\<rparr>))"

section \<open>Steps\<close>

text \<open>The blocks from number \<open>a\<close> up to \<open>b\<close> (excluded) of a chain. The source is an interface: an answer to \<open>getL2Blocks(from, 10)\<close> is some
  number of consecutive blocks of the chain from \<open>from\<close> on (the downloader does not rely on there being at most ten).\<close>

definition chain_segment :: "(int \<Rightarrow> 'b) \<Rightarrow> int \<Rightarrow> int \<Rightarrow> 'b list" where
  "chain_segment chain a b = map chain [a..b - 1]"

inductive loop_step :: "(int \<Rightarrow> 'b) \<Rightarrow> 'b downloader \<Rightarrow> 'b downloader \<Rightarrow> bool" for chain where
  fetched: "i < length (dl_loops d) \<Longrightarrow> dl_loops d ! i = Fetching from \<Longrightarrow>
    loop_step chain d (dl_fetched i (chain_segment chain from (from + int k)) d)"
| fails: "i < length (dl_loops d) \<Longrightarrow> dl_loops d ! i = Fetching from \<Longrightarrow> loop_step chain d (dl_fetch_fails i d)"
| timer: "i < length (dl_loops d) \<Longrightarrow> dl_loops d ! i = Sleeping \<Longrightarrow> loop_step chain d (dl_timer i d)"
| wakes: "i < length (dl_loops d) \<Longrightarrow> dl_loops d ! i = Woken \<Longrightarrow> loop_step chain d (dl_wakes i d)"
| puts: "i < length (dl_loops d) \<Longrightarrow> dl_loops d ! i = Acquired blocks \<Longrightarrow> loop_step chain d (dl_puts i blocks d)"

text \<open>The steps between one \<open>start\<close> and the next.\<close>

inductive dl_step :: "(int \<Rightarrow> 'b) \<Rightarrow> 'b downloader \<Rightarrow> 'b downloader \<Rightarrow> bool" for chain where
  loop: "loop_step chain d d' \<Longrightarrow> dl_step chain d d'"
| stop: "dl_step chain d (dl_stop d)"
| calls: "dl_step chain d (dl_getL2Blocks c d)"
| returns: "dl_resolved d \<noteq> [] \<Longrightarrow> dl_step chain d (dl_returns d)"

inductive_cases loop_stepE: "loop_step chain d d'"

section \<open>Invariant\<close>

text \<open>The batches that were handed over or are queued, in order; those that hold a token.\<close>

definition batches :: "'b downloader \<Rightarrow> 'b list list" where
  "batches d = map snd (dl_returned d) @ map (\<lambda>(c, r). case r of None \<Rightarrow> [] | Some b \<Rightarrow> b) (dl_resolved d) @ fifo_items (dl_queue d)"

definition in_flight :: "'b downloader \<Rightarrow> nat" where
  "in_flight d = length (fifo_items (dl_queue d)) + length (filter (\<lambda>(c, r). r \<noteq> None) (dl_resolved d))"

fun holds_token :: "'b dl_loop \<Rightarrow> nat" where
  "holds_token (Acquired bs) = 1"
| "holds_token _ = 0"

fun waits_token :: "'b dl_loop \<Rightarrow> nat list" where
  "waits_token (Acquiring bs) = [0]"
| "waits_token _ = []"

fun loop_ok :: "(int \<Rightarrow> 'b) \<Rightarrow> int \<Rightarrow> 'b dl_loop \<Rightarrow> bool" where
  "loop_ok chain n (Fetching f) \<longleftrightarrow> f = n"
| "loop_ok chain n (Acquiring bs) \<longleftrightarrow> bs = chain_segment chain n (n + int (length bs))"
| "loop_ok chain n (Acquired bs) \<longleftrightarrow> bs = chain_segment chain n (n + int (length bs))"
| "loop_ok chain n _ \<longleftrightarrow> True"

definition tokens_inv :: "nat \<Rightarrow> 'b downloader \<Rightarrow> 'b dl_loop \<Rightarrow> bool" where
  "tokens_inv n d l \<longleftrightarrow> \<not> flushing (dl_semaphore d) \<and> waiting (dl_semaphore d) = waits_token l \<and>
     (waits_token l \<noteq> [] \<longrightarrow> fifo_items (dl_semaphore d) = []) \<and>
     length (fifo_items (dl_semaphore d)) + in_flight d + holds_token l \<le> n \<and>
     (dl_running d \<longrightarrow> length (fifo_items (dl_semaphore d)) + in_flight d + holds_token l = n)"

definition order_inv :: "(int \<Rightarrow> 'b) \<Rightarrow> int \<Rightarrow> 'b downloader \<Rightarrow> bool" where
  "order_inv chain a d \<longleftrightarrow> a \<le> dl_from d \<and> (\<exists>ext. chain_segment chain a (dl_from d) = concat (batches d) @ ext \<and> (dl_running d \<longrightarrow> ext = []))"

definition queue_inv :: "'b downloader \<Rightarrow> bool" where
  "queue_inv d \<longleftrightarrow> flushing (dl_queue d) = (\<not> dl_running d) \<and> (flushing (dl_queue d) \<longrightarrow> fifo_items (dl_queue d) = []) \<and>
     (waiting (dl_queue d) = [] \<or> fifo_items (dl_queue d) = [])"

definition dl_inv :: "(int \<Rightarrow> 'b) \<Rightarrow> nat \<Rightarrow> int \<Rightarrow> 'b downloader \<Rightarrow> bool" where
  "dl_inv chain n a d \<longleftrightarrow> (\<exists>l. dl_loops d = [l] \<and> loop_ok chain (dl_from d) l \<and> racing (dl_sleep d) = (if l = Sleeping then [0] else []) \<and>
     tokens_inv n d l) \<and> order_inv chain a d \<and> queue_inv d"

lemma length_chain_segment [simp]: "length (chain_segment chain a (a + int k)) = k"
  by (simp add: chain_segment_def)

lemma chain_segment_append: "a \<le> b \<Longrightarrow> chain_segment chain a b @ chain_segment chain b (b + int k) = chain_segment chain a (b + int k)"
  using upto_split1[of a b "b + int k - 1"] by (cases k) (simp_all add: chain_segment_def)

lemma fifo_new_Semaphore: "fifo (new_Semaphore n) = \<lparr>waiting = [], fifo_items = replicate n True, flushing = False\<rparr>"
  unfolding new_Semaphore_def
  by (induction n) (simp_all add: fifo_init_def new_MemoryFifo_def do_put_def MemoryFifo_put_def Let_def replicate_append_same)

lemma dl_inv_start: "dl_inv chain n a (dl_start a (new_L2BlockDownloader n))"
  by (simp add: dl_inv_def dl_start_def new_L2BlockDownloader_def Let_def loop_head_def tokens_inv_def order_inv_def queue_inv_def
      in_flight_def batches_def fifo_new_Semaphore new_MemoryFifo_def new_InterruptableSleep_def chain_segment_def)

lemma dl_inv_sleeps:
  assumes "dl_inv chain n a d" and "dl_loops d = [Fetching f]"
  shows "dl_inv chain n a (dl_sleeps 0 d)"
  using assms
  by (simp add: dl_inv_def dl_sleeps_def set_loop_def sleep_begins_def tokens_inv_def order_inv_def queue_inv_def in_flight_def batches_def)

lemma dl_inv_fetched:
  assumes inv: "dl_inv chain n a d" and l: "dl_loops d = [Fetching f]"
  shows "dl_inv chain n a (dl_fetched 0 (chain_segment chain f (f + int k)) d)"
proof (cases k)
  case 0
  then show ?thesis using dl_inv_sleeps[OF assms] by (simp add: dl_fetched_def chain_segment_def)
next
  case (Suc m)
  then have "chain_segment chain f (f + int k) \<noteq> []" using length_chain_segment[of chain f k] by (metis list.size(3) nat.distinct(1))
  then show ?thesis using inv l
    by (cases "fifo_items (dl_semaphore d)")
      (auto simp: dl_inv_def dl_fetched_def set_loop_def MemoryFifo_get_def tokens_inv_def order_inv_def queue_inv_def in_flight_def batches_def)
qed

lemma loop_head_ok [simp]: "loop_ok chain (dl_from d) (loop_head d)" "loop_head d \<noteq> Sleeping" "holds_token (loop_head d) = 0" "waits_token (loop_head d) = []"
  by (simp_all add: loop_head_def)

lemma loop_head_cong: "dl_running d' = dl_running d \<Longrightarrow> dl_from d' = dl_from d \<Longrightarrow> loop_head d' = loop_head d"
  by (simp add: loop_head_def)

lemma dl_inv_wakes:
  assumes "dl_inv chain n a d" and "dl_loops d = [Woken]"
  shows "dl_inv chain n a (dl_wakes 0 d)"
  using assms
  by (simp add: dl_inv_def dl_wakes_def set_loop_def sleep_resumes_def tokens_inv_def order_inv_def queue_inv_def in_flight_def batches_def)

lemma dl_inv_timer:
  assumes "dl_inv chain n a d" and "dl_loops d = [Sleeping]"
  shows "dl_inv chain n a (dl_timer 0 d)"
  using assms
  by (simp add: dl_inv_def dl_timer_def set_loop_def sleep_timer_def tokens_inv_def order_inv_def queue_inv_def in_flight_def batches_def)

lemma dl_inv_puts:
  assumes inv: "dl_inv chain n a d" and l: "dl_loops d = [Acquired bs]"
  shows "dl_inv chain n a (dl_puts 0 bs d)"
proof -
  have bs: "bs = chain_segment chain (dl_from d) (dl_from d + int (length bs))" and a: "a \<le> dl_from d"
    using inv l by (simp_all add: dl_inv_def order_inv_def)
  have seg: "chain_segment chain a (dl_from d + int (length bs)) = chain_segment chain a (dl_from d) @ bs"
    using chain_segment_append[OF a, of chain "length bs"] bs by simp
  obtain ext where ext: "chain_segment chain a (dl_from d) = concat (batches d) @ ext" "dl_running d \<longrightarrow> ext = []"
    using inv by (auto simp: dl_inv_def order_inv_def)
  have q: "queue_inv d" and t: "tokens_inv n d (Acquired bs)" and r: "racing (dl_sleep d) = []" using inv l by (simp_all add: dl_inv_def)
  let ?d = "dl_puts 0 bs d"
  consider "\<not> dl_running d" | "dl_running d" "waiting (dl_queue d) = []" | c cs where "dl_running d" "waiting (dl_queue d) = c # cs"
    by (cases "waiting (dl_queue d)") auto
  then show ?thesis
  proof cases
    case 1
    then have d: "?d = d\<lparr>dl_from := dl_from d + int (length bs), dl_loops := [Ended]\<rparr>"
      using q l by (simp add: dl_puts_def MemoryFifo_put_def queue_inv_def set_loop_def loop_head_def)
    show ?thesis unfolding d using q t r 1 a ext(1) seg
      by (simp add: dl_inv_def queue_inv_def tokens_inv_def order_inv_def in_flight_def batches_def)
  next
    case 2
    then have d: "?d = d\<lparr>dl_queue := (dl_queue d)\<lparr>fifo_items := fifo_items (dl_queue d) @ [bs]\<rparr>,
        dl_from := dl_from d + int (length bs), dl_loops := [Fetching (dl_from d + int (length bs))]\<rparr>"
      using q l by (simp add: dl_puts_def MemoryFifo_put_def queue_inv_def set_loop_def loop_head_def)
    show ?thesis unfolding d using q t r 2 a ext seg
      by (simp add: dl_inv_def queue_inv_def tokens_inv_def order_inv_def in_flight_def batches_def)
  next
    case (3 c cs)
    then have d: "?d = d\<lparr>dl_queue := (dl_queue d)\<lparr>waiting := cs\<rparr>, dl_resolved := dl_resolved d @ [(c, Some bs)],
        dl_from := dl_from d + int (length bs), dl_loops := [Fetching (dl_from d + int (length bs))]\<rparr>"
      using q l by (simp add: dl_puts_def MemoryFifo_put_def queue_inv_def set_loop_def loop_head_def)
    show ?thesis unfolding d using q t r 3 a ext seg
      by (simp add: dl_inv_def queue_inv_def tokens_inv_def order_inv_def in_flight_def batches_def)
  qed
qed

lemma dl_inv_stop:
  assumes inv: "dl_inv chain n a d"
  shows "dl_inv chain n a (dl_stop d)"
proof -
  obtain l ext where l: "dl_loops d = [l]" "loop_ok chain (dl_from d) l" "racing (dl_sleep d) = (if l = Sleeping then [0] else [])" "tokens_inv n d l"
    and ext: "chain_segment chain a (dl_from d) = concat (batches d) @ ext" and a: "a \<le> dl_from d"
    using inv by (auto simp: dl_inv_def order_inv_def)
  have d: "dl_stop d = d\<lparr>dl_running := False, dl_sleep := (dl_sleep d)\<lparr>racing := []\<rparr>, dl_loops := [if l = Sleeping then Woken else l],
      dl_queue := (dl_queue d)\<lparr>flushing := True, fifo_items := []\<rparr>,
      dl_resolved := dl_resolved d @ (if flushing (dl_queue d) then [] else map (\<lambda>c. (c, None)) (waiting (dl_queue d)))\<rparr>"
    using l by (simp add: dl_stop_def dl_interrupt_def InterruptableSleep_interrupt_def set_loop_def MemoryFifo_cancel_def)
  have "concat (batches d) = concat (batches (dl_stop d)) @ concat (fifo_items (dl_queue d))"
    by (simp add: batches_def d comp_def)
  moreover have "filter (\<lambda>(c, r). r \<noteq> None) (dl_resolved (dl_stop d)) = filter (\<lambda>(c, r). r \<noteq> None) (dl_resolved d)"
    by (simp add: d filter_empty_conv)
  ultimately show ?thesis using l ext a
    by (auto simp: dl_inv_def queue_inv_def order_inv_def tokens_inv_def in_flight_def d)
qed

lemma dl_inv_calls:
  assumes inv: "dl_inv chain n a d"
  shows "dl_inv chain n a (dl_getL2Blocks c d)"
proof (cases "fifo_items (dl_queue d)")
  case Nil
  then have d: "dl_getL2Blocks c d = (if dl_running d then d\<lparr>dl_queue := (dl_queue d)\<lparr>waiting := waiting (dl_queue d) @ [c]\<rparr>\<rparr>
      else d\<lparr>dl_resolved := dl_resolved d @ [(c, None)]\<rparr>)"
    using inv by (auto simp: dl_inv_def queue_inv_def dl_getL2Blocks_def MemoryFifo_get_def)
  obtain l where l: "dl_loops d = [l]" using inv by (auto simp: dl_inv_def)
  show ?thesis unfolding d using inv Nil l
    by (cases "dl_running d") (simp_all add: dl_inv_def queue_inv_def order_inv_def tokens_inv_def in_flight_def batches_def)
next
  case (Cons x xs)
  then have d: "dl_getL2Blocks c d = d\<lparr>dl_queue := (dl_queue d)\<lparr>fifo_items := xs\<rparr>, dl_resolved := dl_resolved d @ [(c, Some x)]\<rparr>"
    by (simp add: dl_getL2Blocks_def MemoryFifo_get_def)
  have "dl_running d" using inv Cons by (auto simp: dl_inv_def queue_inv_def)
  with inv Cons show ?thesis unfolding d
    by (simp add: dl_inv_def queue_inv_def order_inv_def tokens_inv_def in_flight_def batches_def)
qed

lemma dl_inv_returns:
  assumes inv: "dl_inv chain n a d" and r: "dl_resolved d = (c, r) # rs"
  shows "dl_inv chain n a (dl_returns d)"
proof (cases r)
  case None
  then show ?thesis using inv r
    by (simp add: dl_returns_def dl_inv_def queue_inv_def order_inv_def tokens_inv_def in_flight_def batches_def)
next
  case (Some bs)
  let ?d = "d\<lparr>dl_resolved := rs, dl_returned := dl_returned d @ [(c, bs)]\<rparr>"
  obtain l where l: "dl_loops d = [l]" "tokens_inv n d l" using inv by (auto simp: dl_inv_def)
  show ?thesis
  proof (cases "waits_token l")
    case Nil
    then have d: "dl_returns d = ?d\<lparr>dl_semaphore := (dl_semaphore d)\<lparr>fifo_items := fifo_items (dl_semaphore d) @ [True]\<rparr>\<rparr>"
      using l r Some by (simp add: dl_returns_def dl_release_def MemoryFifo_put_def tokens_inv_def)
    show ?thesis unfolding d using inv r Some Nil l(1)
      by (simp add: dl_inv_def queue_inv_def order_inv_def tokens_inv_def in_flight_def batches_def)
  next
    case (Cons i js)
    then obtain bs' where bs': "l = Acquiring bs'" by (cases l) simp_all
    then have d: "dl_returns d = ?d\<lparr>dl_semaphore := (dl_semaphore d)\<lparr>waiting := []\<rparr>, dl_loops := [Acquired bs']\<rparr>"
      using l r Some by (simp add: dl_returns_def dl_release_def MemoryFifo_put_def tokens_inv_def set_loop_def)
    have "fifo_items (dl_semaphore d) = []" using l(2) bs' by (simp add: tokens_inv_def)
    with inv r Some bs' l(1) show ?thesis unfolding d
      by (simp add: dl_inv_def queue_inv_def order_inv_def tokens_inv_def in_flight_def batches_def)
  qed
qed

lemma dl_inv_loop:
  assumes "dl_inv chain n a d" and "loop_step chain d d'"
  shows "dl_inv chain n a d'"
proof -
  obtain l where l: "dl_loops d = [l]" using assms(1) by (auto simp: dl_inv_def)
  show ?thesis using assms(2,1) l
    by (cases rule: loop_step.cases)
      (auto simp: dl_fetch_fails_def intro: dl_inv_fetched dl_inv_sleeps dl_inv_timer dl_inv_wakes dl_inv_puts)
qed

interpretation dl_sm: state_machine "dl_start a (new_L2BlockDownloader n)" "dl_step chain" "dl_inv chain n a" for a n chain
proof
  show "dl_inv chain n a (dl_start a (new_L2BlockDownloader n))" by (rule dl_inv_start)
  show "dl_inv chain n a d'" if "dl_inv chain n a d" "dl_step chain d d'" for d d'
    using that(2,1)
  proof (cases rule: dl_step.cases)
    case returns
    then show ?thesis using that(1) dl_inv_returns by (cases "dl_resolved d") auto
  qed (auto intro: dl_inv_loop dl_inv_stop dl_inv_calls)
qed

section \<open>Properties\<close>

text \<open>Which steps extend the blocks returned.\<close>

lemma loop_step_returned: "loop_step blks d d' \<Longrightarrow> dl_returned d' = dl_returned d"
  by (erule loop_stepE)
    (auto simp: dl_fetched_def dl_fetch_fails_def dl_sleeps_def dl_timer_def dl_wakes_def dl_puts_def set_loop_def Let_def split: prod.splits option.splits)

lemma calls_returned [simp]: "dl_returned (dl_getL2Blocks c d) = dl_returned d"
  by (simp add: dl_getL2Blocks_def split: prod.split)

lemma dl_interrupt_returned [simp]: "dl_returned (dl_interrupt d) = dl_returned d"
proof -
  have "dl_returned (fold (\<lambda>(c, _). set_loop c Woken) cs d) = dl_returned d" for cs :: "(nat \<times> bool) list" and d :: "'a downloader"
    by (induction cs arbitrary: d) (auto simp: set_loop_def)
  then show ?thesis by (simp add: dl_interrupt_def split: prod.split)
qed

lemma stop_returned [simp]: "dl_returned (dl_stop d) = dl_returned d"
  by (simp add: dl_stop_def Let_def split: prod.split)

lemma returns_returned:
  "dl_resolved d = (c, r) # rs \<Longrightarrow> dl_returned (dl_returns d) = dl_returned d @ [(c, case r of None \<Rightarrow> [] | Some b \<Rightarrow> b)]"
  by (auto simp: dl_returns_def dl_release_def set_loop_def Let_def split: option.splits prod.splits dl_loop.splits)

text \<open>C14. The downloader delivers the chain: in every state of a downloader of size \<open>n\<close> started at block \<open>a\<close>, under any timing of
  the source, the sleeps, the calls and a stop, the blocks returned by \<open>getL2Blocks\<close>, in the order of return, are consecutive
  blocks of the chain from \<open>a\<close> on, without gap or repetition; and at most \<open>n\<close> batches are queued or on their way to a caller.\<close>

theorem downloader_delivers_chain:
  assumes "(dl_step chain)\<^sup>*\<^sup>* (dl_start a (new_L2BlockDownloader n)) d"
  shows "(\<exists>m \<ge> a. concat (map snd (dl_returned d)) = chain_segment chain a m \<and> m \<le> dl_from d) \<and> in_flight d \<le> n"
proof -
  have inv: "dl_inv chain n a d" by (rule dl_sm.reachable_inv[OF assms])
  obtain ext where ext: "chain_segment chain a (dl_from d) = concat (map snd (dl_returned d)) @ ext" and a: "a \<le> dl_from d"
    using inv by (auto simp: dl_inv_def order_inv_def batches_def)
  let ?k = "length (concat (map snd (dl_returned d)))"
  have len: "?k + length ext = nat (dl_from d - a)" using arg_cong[OF ext, of length] a by (simp add: chain_segment_def)
  then have le: "a + int ?k \<le> dl_from d" using a by linarith
  have "concat (map snd (dl_returned d)) = take ?k (chain_segment chain a (dl_from d))" by (simp add: ext)
  also have "chain_segment chain a (dl_from d) = chain_segment chain a (a + int ?k) @ chain_segment chain (a + int ?k) (dl_from d)"
    using chain_segment_append[of a "a + int ?k" chain "nat (dl_from d - (a + int ?k))"] le by simp
  also have "take ?k \<dots> = chain_segment chain a (a + int ?k)" by simp
  finally have "concat (map snd (dl_returned d)) = chain_segment chain a (a + int ?k)" .
  moreover have "in_flight d \<le> n" using inv by (auto simp: dl_inv_def tokens_inv_def)
  ultimately show ?thesis using le by (intro conjI exI[of _ "a + int ?k"]) simp_all
qed

text \<open>A run of a downloader of size one: a block is queued.\<close>

definition demo1 :: "int downloader" where
  "demo1 = dl_puts 0 [1] (dl_fetched 0 [1] (dl_start 1 (new_L2BlockDownloader 1)))"

lemma demo1_simp:
  "demo1 = \<lparr>dl_running = True, dl_from = 2, dl_sleep = new_InterruptableSleep, dl_semaphore = \<lparr>waiting = [], fifo_items = [], flushing = False\<rparr>,
     dl_queue = \<lparr>waiting = [], fifo_items = [[1]], flushing = False\<rparr>, dl_loops = [Fetching 2], dl_resolved = [], dl_returned = []\<rparr>"
  by (simp add: demo1_def dl_puts_def dl_fetched_def dl_start_def new_L2BlockDownloader_def fifo_new_Semaphore new_MemoryFifo_def
      MemoryFifo_get_def MemoryFifo_put_def set_loop_def loop_head_def Let_def)

lemma demo1_reachable: "(dl_step id)\<^sup>*\<^sup>* (dl_start 1 (new_L2BlockDownloader 1)) demo1"
proof -
  let ?d0 = "dl_start 1 (new_L2BlockDownloader 1) :: int downloader"
  let ?d1 = "dl_fetched 0 [1] ?d0"
  have "dl_loops ?d0 = [Fetching 1]" by (simp add: dl_start_def new_L2BlockDownloader_def loop_head_def Let_def)
  then have "dl_step id ?d0 ?d1" using loop_step.fetched[of 0 ?d0 1 id 1] by (auto intro: dl_step.loop simp: chain_segment_def)
  moreover have "dl_loops ?d1 = [Acquired [1]]"
    by (simp add: dl_start_def new_L2BlockDownloader_def loop_head_def dl_fetched_def fifo_new_Semaphore MemoryFifo_get_def set_loop_def Let_def)
  then have "dl_step id ?d1 demo1" using loop_step.puts[of 0 ?d1 "[1]" id] by (auto intro: dl_step.loop simp: demo1_def)
  ultimately show ?thesis by (metis rtranclp.rtrancl_into_rtrancl rtranclp.rtrancl_refl)
qed

theorem downloader_delivers_chain_witness:
  "\<exists>d m. (dl_step id)\<^sup>*\<^sup>* (dl_start 1 (new_L2BlockDownloader 1)) d \<and> dl_returned d = [(7, [1 :: int])] \<and>
    concat (map snd (dl_returned d)) = chain_segment id 1 m \<and> in_flight d \<le> 1"
proof -
  let ?d1 = "dl_getL2Blocks 7 demo1"
  let ?d2 = "dl_returns ?d1"
  have r: "dl_resolved ?d1 \<noteq> []" "dl_returned ?d2 = [(7, [1])]"
    by (simp_all add: demo1_simp dl_getL2Blocks_def MemoryFifo_get_def dl_returns_def dl_release_def MemoryFifo_put_def)
  have "(dl_step id)\<^sup>*\<^sup>* (dl_start 1 (new_L2BlockDownloader 1)) ?d2"
    using demo1_reachable dl_step.calls[of id demo1 7] dl_step.returns[OF r(1), of id] by (meson rtranclp.rtrancl_into_rtrancl)
  with downloader_delivers_chain[OF this] r(2) show ?thesis by blast
qed

text \<open>A stopped loop: every step of its own brings it closer to its end.\<close>

fun loop_rank :: "'b dl_loop \<Rightarrow> nat" where
  "loop_rank (Fetching f) = 3"
| "loop_rank Sleeping = 2"
| "loop_rank (Acquiring bs) = 2"
| "loop_rank Woken = 1"
| "loop_rank (Acquired bs) = 1"
| "loop_rank Ended = 0"

definition can_end :: "'b downloader \<Rightarrow> bool" where
  "can_end d \<longleftrightarrow> \<not> dl_running d \<and> (\<exists>l. dl_loops d = [l] \<and> (case l of Acquiring bs \<Rightarrow> False | Fetching f \<Rightarrow> fifo_items (dl_semaphore d) \<noteq> [] | _ \<Rightarrow> True))"

lemma loop_step_rank:
  assumes "can_end d" and "loop_step chain d d'"
  shows "can_end d' \<and> loop_rank (hd (dl_loops d')) < loop_rank (hd (dl_loops d))"
proof -
  obtain l where l: "dl_loops d = [l]" "\<not> dl_running d" using assms(1) by (auto simp: can_end_def)
  show ?thesis using assms(2)
  proof (cases rule: loop_step.cases)
    case (fetched i f k)
    then show ?thesis using l assms(1)
      by (cases "fifo_items (dl_semaphore d)")
        (auto simp: can_end_def dl_fetched_def dl_sleeps_def set_loop_def MemoryFifo_get_def)
  qed (use l in \<open>auto simp: can_end_def dl_fetch_fails_def dl_sleeps_def dl_timer_def dl_wakes_def dl_puts_def set_loop_def loop_head_def
      MemoryFifo_put_def split: list.splits\<close>)
qed

lemma loop_step_enabled:
  assumes "can_end d" and "dl_loops d \<noteq> [Ended]"
  shows "\<exists>d'. loop_step chain d d'"
proof -
  obtain l where l: "dl_loops d = [l]" using assms(1) by (auto simp: can_end_def)
  show ?thesis
  proof (cases l)
    case (Fetching f)
    then show ?thesis using loop_step.fails[of 0 d f chain] l by auto
  next
    case Sleeping
    then show ?thesis using loop_step.timer[of 0 d chain] l by auto
  next
    case Woken
    then show ?thesis using loop_step.wakes[of 0 d chain] l by auto
  next
    case (Acquired bs)
    then show ?thesis using loop_step.puts[of 0 d bs chain] l by auto
  qed (use assms l in \<open>auto simp: can_end_def\<close>)
qed

text \<open>After \<open>stop\<close> the loop ends, so that \<open>stop\<close> returns: if the loop does not wait for a token, and one is free when it is still
  to acquire one, then it makes at most three more steps, whatever the source answers, and when it can make no more
  it has ended.\<close>

theorem stop_ends_loop:
  assumes "can_end d" and "(loop_step chain ^^ k) d d'"
  shows "k \<le> 3 \<and> ((\<nexists>d''. loop_step chain d' d'') \<longrightarrow> dl_loops d' = [Ended])"
proof -
  have steps: "can_end d' \<and> k + loop_rank (hd (dl_loops d')) \<le> loop_rank (hd (dl_loops d))"
    using assms(2)
  proof (induction k arbitrary: d')
    case (Suc k)
    then obtain e where e: "(loop_step chain ^^ k) d e" "loop_step chain e d'" by (auto simp: relcompp_apply)
    then show ?case using Suc.IH[OF e(1)] loop_step_rank[of e chain d'] by auto
  qed (use assms(1) in simp)
  have "loop_rank (hd (dl_loops d)) \<le> 3" by (cases "hd (dl_loops d)") simp_all
  then show ?thesis using steps loop_step_enabled[of d' chain] by auto
qed

text \<open>But a \<open>stop\<close> while the loop waits for a token and no batch is on its way to a caller never returns: \<open>cancel\<close> drops
  the queued batches without giving their tokens back, so no later call frees one, and the loop waits forever.\<close>

theorem stop_hangs_on_full_queue:
  assumes "dl_inv chain n a d" and "dl_loops d = [Acquiring bs]" and "\<forall>(c, r) \<in> set (dl_resolved d). r = None"
    and "(dl_step chain)\<^sup>*\<^sup>* (dl_stop d) d'"
  shows "dl_loops d' = [Acquiring bs]"
proof -
  let ?stuck = "\<lambda>d. dl_loops d = [Acquiring bs] \<and> \<not> dl_running d \<and> fifo_items (dl_queue d) = [] \<and> flushing (dl_queue d) \<and>
    racing (dl_sleep d) = [] \<and> (\<forall>(c, r) \<in> set (dl_resolved d). r = None)"
  have base: "?stuck (dl_stop d)"
    using assms(1-3) by (auto simp: dl_inv_def dl_stop_def dl_interrupt_def InterruptableSleep_interrupt_def MemoryFifo_cancel_def Let_def)
  have step: "?stuck e'" if s: "?stuck e" and "dl_step chain e e'" for e e'
    using that(2)
  proof (cases rule: dl_step.cases)
    case loop
    then show ?thesis using s by (auto elim!: loop_stepE)
  next
    case returns
    then obtain c r rs where r: "dl_resolved e = (c, r) # rs" by (cases "dl_resolved e") auto
    then have "r = None" using s by simp
    then show ?thesis using s returns r by (simp add: dl_returns_def)
  qed (use s in \<open>auto simp: dl_stop_def dl_interrupt_def InterruptableSleep_interrupt_def MemoryFifo_cancel_def Let_def dl_getL2Blocks_def MemoryFifo_get_def\<close>)
  have "?stuck d'" using assms(4)
  proof (induction rule: rtranclp_induct)
    case base
    show ?case by (rule \<open>?stuck (dl_stop d)\<close>)
  next
    case (step e e')
    then show ?case using \<open>\<And>e e'. ?stuck e \<Longrightarrow> dl_step chain e e' \<Longrightarrow> ?stuck e'\<close> by blast
  qed
  then show ?thesis by simp
qed

theorem stop_ends_loop_witness:
  "\<exists>d'. (loop_step id ^^ 3) (dl_stop (dl_start 1 (new_L2BlockDownloader 1)) :: int downloader) d' \<and> dl_loops d' = [Ended]"
proof -
  define d0 :: "int downloader" where "d0 = dl_stop (dl_start 1 (new_L2BlockDownloader 1))"
  have d: "d0 = \<lparr>dl_running = False, dl_from = 1, dl_sleep = new_InterruptableSleep,
      dl_semaphore = \<lparr>waiting = [], fifo_items = [True], flushing = False\<rparr>,
      dl_queue = \<lparr>waiting = [], fifo_items = [], flushing = True\<rparr>, dl_loops = [Fetching 1], dl_resolved = [], dl_returned = []\<rparr>"
    by (simp add: d0_def dl_stop_def dl_start_def dl_interrupt_def InterruptableSleep_interrupt_def new_InterruptableSleep_def MemoryFifo_cancel_def
        new_L2BlockDownloader_def fifo_new_Semaphore new_MemoryFifo_def loop_head_def Let_def)
  let ?d1 = "dl_fetch_fails 0 d0" and ?d2 = "dl_timer 0 (dl_fetch_fails 0 d0)"
  have "loop_step id d0 ?d1" by (rule loop_step.fails[of 0 _ 1]) (simp_all add: d)
  moreover have "loop_step id ?d1 ?d2" by (rule loop_step.timer) (simp_all add: d dl_fetch_fails_def dl_sleeps_def set_loop_def)
  moreover have "loop_step id ?d2 (dl_wakes 0 ?d2)"
    by (rule loop_step.wakes) (simp_all add: d dl_fetch_fails_def dl_sleeps_def dl_timer_def set_loop_def)
  ultimately have s: "(loop_step id ^^ 3) d0 (dl_wakes 0 ?d2)" by (auto simp: numeral_3_eq_3)
  have "can_end d0" by (simp add: can_end_def d)
  from stop_ends_loop[OF this s] have "(\<nexists>d''. loop_step id (dl_wakes 0 ?d2) d'') \<longrightarrow> dl_loops (dl_wakes 0 ?d2) = [Ended]" ..
  moreover have "\<nexists>d''. loop_step id (dl_wakes 0 ?d2) d''"
    by (auto elim!: loop_stepE simp: d dl_fetch_fails_def dl_sleeps_def dl_timer_def dl_wakes_def set_loop_def loop_head_def)
  ultimately show ?thesis using s d0_def by blast
qed

theorem stop_hangs_on_full_queue_witness:
  "\<exists>d. (dl_step id)\<^sup>*\<^sup>* (dl_start 1 (new_L2BlockDownloader 1)) d \<and> dl_loops (dl_getL2Blocks 9 (dl_stop d)) = [Acquiring [2 :: int]]"
proof -
  let ?d = "dl_fetched 0 [2] demo1"
  have "dl_step id demo1 ?d"
    using loop_step.fetched[of 0 demo1 2 id 1] by (auto intro: dl_step.loop simp: demo1_simp chain_segment_def)
  with demo1_reachable have r: "(dl_step id)\<^sup>*\<^sup>* (dl_start 1 (new_L2BlockDownloader 1)) ?d" by (rule rtranclp.rtrancl_into_rtrancl)
  have inv: "dl_inv id 1 1 ?d" by (rule dl_sm.reachable_inv[OF r])
  have d: "dl_loops ?d = [Acquiring [2]]" "dl_resolved ?d = []"
    by (simp_all add: demo1_simp dl_fetched_def MemoryFifo_get_def set_loop_def)
  have "(dl_step id)\<^sup>*\<^sup>* (dl_stop ?d) (dl_getL2Blocks 9 (dl_stop ?d))" using dl_step.calls by blast
  then show ?thesis using stop_hangs_on_full_queue[OF inv d(1)] d(2) r by auto
qed

end
