(* ===== verification/WorldStateSync.thy ===== *)
theory WorldStateSync
  imports WorldStateProperties BlockDownloader
begin

text \<open>
  \<^verbatim>\<open>world-state/src/synchroniser/server_world_state_synchroniser.ts\<close>: the process that takes the batches of the block downloader
  and hands their blocks to \<open>MerkleTrees.handleL2Block\<close>, and its life cycle. As in \<open>BlockDownloader\<close>, a step runs one of the
  asynchronous functions from one \<open>await\<close> to the next; the state holds the downloader and the trees, so that the steps
  of the three components interleave in any order.
\<close>

section \<open>State\<close>

datatype WorldStateRunningState = IDLE | SYNCHING | RUNNING | STOPPED

text \<open>\<open>runningPromise\<close>: the resolved promise of the constructor, or the state of \<open>blockProcess\<close>: waiting for a batch, about to hand the first
  block of the rest of one to the trees, waiting in \<open>handleL2Block\<close> for the trees that have taken a block, finished, or rejected with the error of a block.\<close>

datatype block_process = NotStarted | Awaiting | Handling "l2_block list" | Inserted l2_block "l2_block list" | Finished | Rejected js_error

text \<open>A call of \<open>start()\<close> that has passed its checks: not made, waiting for \<open>getBlockHeight()\<close>, or run to its end.\<close>

datatype start_call = NotCalled | AwaitingHeight | StartReturned

record 'db synchroniser =
  currentL2BlockNum :: int
  latestBlockNumberAtStart :: int
  currentState :: WorldStateRunningState
  syncResolved :: bool
  stopping :: bool
  startCall :: start_call
  blockProcess :: block_process
  merkleTreeDb :: "'db merkle_trees"
  l2BlockDownloader :: "l2_block downloader"

definition new_Synchroniser :: "'db merkle_trees \<Rightarrow> nat \<Rightarrow> 'db synchroniser" where
  "new_Synchroniser db l2QueueSize =
     \<lparr>currentL2BlockNum = 0, latestBlockNumberAtStart = 0, currentState = IDLE, syncResolved = True, stopping = False, startCall = NotCalled,
      blockProcess = NotStarted, merkleTreeDb = db, l2BlockDownloader = new_L2BlockDownloader l2QueueSize\<rparr>"

text \<open>\<open>getConfigEnvVars\<close>: the queue size, from the environment variable if it is set.\<close>

definition l2QueueSize :: "nat option \<Rightarrow> nat" where
  "l2QueueSize WS_L2_BLOCK_QUEUE_SIZE = (case WS_L2_BLOCK_QUEUE_SIZE of None \<Rightarrow> 1000 | Some n \<Rightarrow> n)"

section \<open>Operations\<close>

text \<open>The checks at the head of \<open>start()\<close>: an error, or whether it goes on to ask for the block height.\<close>

definition sync_start_check :: "'db synchroniser \<Rightarrow> bool result" where
  "sync_start_check s =
     (if currentState s = STOPPED then Inl (Error ''Synchroniser already stopped'') else Inr (currentState s = IDLE))"

text \<open>The rest of \<open>start()\<close>, once \<open>getBlockHeight()\<close> has answered. \<open>blockProcess\<close> runs up to its first \<open>await\<close>.\<close>

definition process_head :: "'db synchroniser \<Rightarrow> 'db synchroniser" where
  "process_head s =
     (if stopping s then s\<lparr>blockProcess := Finished\<rparr>
      else s\<lparr>blockProcess := Awaiting, l2BlockDownloader := dl_getL2Blocks 0 (l2BlockDownloader s)\<rparr>)"

definition sync_start :: "int \<Rightarrow> 'db synchroniser \<Rightarrow> 'db synchroniser" where
  "sync_start height s =
     (let s = s\<lparr>latestBlockNumberAtStart := height\<rparr>; blockToDownloadFrom = currentL2BlockNum s + 1;
          s = (if blockToDownloadFrom \<le> latestBlockNumberAtStart s
               then s\<lparr>currentState := SYNCHING, syncResolved := False\<rparr>
               else s\<lparr>currentState := RUNNING, syncResolved := True\<rparr>);
          s = process_head s
      in s\<lparr>l2BlockDownloader := dl_start blockToDownloadFrom (l2BlockDownloader s), startCall := StartReturned\<rparr>)"

definition on_db :: "('db merkle_trees, 'a) js \<Rightarrow> ('db synchroniser, 'a) js" where
  "on_db m s = (case m (merkleTreeDb s) of (r, db) \<Rightarrow> (r, s\<lparr>merkleTreeDb := db\<rparr>))"

text \<open>\<open>handleL2Block\<close>: the trees take the block; what follows the \<open>await\<close>; and the whole.\<close>

definition sync_counts :: "l2_block \<Rightarrow> 'db synchroniser \<Rightarrow> 'db synchroniser" where
  "sync_counts l2Block s =
     (let s = s\<lparr>currentL2BlockNum := blk_number l2Block\<rparr>
      in if currentState s = SYNCHING \<and> currentL2BlockNum s \<ge> latestBlockNumberAtStart s
         then s\<lparr>currentState := RUNNING, syncResolved := True\<rparr> else s)"

definition sync_handleL2Block :: "'db tree_env \<Rightarrow> l2_block \<Rightarrow> ('db synchroniser, unit) js" where
  "sync_handleL2Block env l2Block = jbind (on_db (MerkleTrees_handleL2Block env l2Block)) (\<lambda>_. jmodify (sync_counts l2Block))"

definition sync_handleL2Blocks :: "'db tree_env \<Rightarrow> l2_block list \<Rightarrow> ('db synchroniser, unit) js" where
  "sync_handleL2Blocks env = jfor (sync_handleL2Block env)"

text \<open>\<open>blockProcess\<close>: it is given a batch; the trees take a block of it, or throw; the block is counted; it comes back to the head of its loop.\<close>

definition process_receives :: "'db synchroniser \<Rightarrow> 'db synchroniser" where
  "process_receives s =
     (case dl_resolved (l2BlockDownloader s) of
        [] \<Rightarrow> s
      | (c, r) # rs \<Rightarrow> s\<lparr>l2BlockDownloader := dl_returns (l2BlockDownloader s),
          blockProcess := Handling (case r of None \<Rightarrow> [] | Some blocks \<Rightarrow> blocks)\<rparr>)"

definition process_handles :: "'db tree_env \<Rightarrow> 'db synchroniser \<Rightarrow> 'db synchroniser" where
  "process_handles env s =
     (case blockProcess s of
        Handling (b # bs) \<Rightarrow> (case on_db (MerkleTrees_handleL2Block env b) s of
            (Inr _, s') \<Rightarrow> s'\<lparr>blockProcess := Inserted b bs\<rparr>
          | (Inl e, s') \<Rightarrow> s'\<lparr>blockProcess := Rejected e\<rparr>)
      | Handling [] \<Rightarrow> process_head s
      | _ \<Rightarrow> s)"

definition process_counts :: "'db synchroniser \<Rightarrow> 'db synchroniser" where
  "process_counts s = (case blockProcess s of Inserted b bs \<Rightarrow> (sync_counts b s)\<lparr>blockProcess := Handling bs\<rparr> | _ \<Rightarrow> s)"

text \<open>\<open>stop()\<close>: the call, up to the awaited promises; and its end, when the loop of the downloader and \<open>blockProcess\<close> are done.\<close>

definition sync_stop :: "'db synchroniser \<Rightarrow> 'db synchroniser" where
  "sync_stop s = s\<lparr>stopping := True, l2BlockDownloader := dl_stop (l2BlockDownloader s)\<rparr>"

definition sync_stopped :: "'db synchroniser \<Rightarrow> 'db synchroniser" where
  "sync_stopped s = s\<lparr>currentState := STOPPED\<rparr>"

record sync_status =
  syncedToL2Block :: int
  ss_state :: WorldStateRunningState

definition Synchroniser_status :: "'db synchroniser \<Rightarrow> sync_status" where
  "Synchroniser_status s = \<lparr>syncedToL2Block = currentL2BlockNum s, ss_state = currentState s\<rparr>"

definition getLatest :: facade where
  "getLatest = \<lparr>includeUncommitted = True\<rparr>"

definition getCommitted :: facade where
  "getCommitted = \<lparr>includeUncommitted = False\<rparr>"

section \<open>Steps\<close>

text \<open>\<open>blks\<close> is the chain the block source delivers. The caller is assumed to make its calls of \<open>start()\<close> and \<open>stop()\<close> one after the other: while a
  \<open>start()\<close> waits for the block height, in state \<open>IDLE\<close>, neither is called. (Nothing in the code enforces this: a second \<open>start()\<close> in that
  time passes the same checks and sets a second \<open>blockProcess\<close> going, and a \<open>stop()\<close> is undone by the rest of \<open>start()\<close>.) A
  \<open>stop\<close> before any \<open>start\<close> ends at once and is left out.\<close>

inductive sync_step :: "'db tree_env \<Rightarrow> (int \<Rightarrow> l2_block) \<Rightarrow> 'db synchroniser \<Rightarrow> 'db synchroniser \<Rightarrow> bool" for env blks where
  start: "sync_start_check s = Inr True \<Longrightarrow> startCall s = NotCalled \<Longrightarrow> sync_step env blks s (s\<lparr>startCall := AwaitingHeight\<rparr>)"
| resumes: "startCall s = AwaitingHeight \<Longrightarrow> currentState s = IDLE \<Longrightarrow> sync_step env blks s (sync_start height s)"
| downloads: "loop_step blks (l2BlockDownloader s) d \<Longrightarrow> sync_step env blks s (s\<lparr>l2BlockDownloader := d\<rparr>)"
| receives: "blockProcess s = Awaiting \<Longrightarrow> dl_resolved (l2BlockDownloader s) \<noteq> [] \<Longrightarrow> sync_step env blks s (process_receives s)"
| handles: "blockProcess s = Handling bs \<Longrightarrow> sync_step env blks s (process_handles env s)"
| counts: "blockProcess s = Inserted b bs \<Longrightarrow> sync_step env blks s (process_counts s)"
| stop: "currentState s \<noteq> IDLE \<Longrightarrow> sync_step env blks s (sync_stop s)"
| stopped: "stopping s \<Longrightarrow> dl_loops (l2BlockDownloader s) = [Ended] \<Longrightarrow> blockProcess s = Finished \<Longrightarrow>
    sync_step env blks s (sync_stopped s)"

inductive_cases sync_stepE: "sync_step env blks s s'"

section \<open>Invariant\<close>

fun remaining :: "block_process \<Rightarrow> l2_block list" where
  "remaining (Handling bs) = bs"
| "remaining (Inserted b bs) = bs"
| "remaining _ = []"

definition rejected :: "'db synchroniser \<Rightarrow> bool" where
  "rejected s \<longleftrightarrow> (\<exists>e. blockProcess s = Rejected e)"

text \<open>The number of the last block that the trees have taken: the one of the status, or the next one between the two halves of \<open>handleL2Block\<close>.\<close>

definition inserted :: "'db synchroniser \<Rightarrow> int" where
  "inserted s = currentL2BlockNum s + (case blockProcess s of Inserted b bs \<Rightarrow> 1 | _ \<Rightarrow> 0)"

text \<open>The blocks that the trees have taken are the first ones of the chain, the trees are the result of handling them in order.\<close>

definition handled_inv :: "'db tree_env \<Rightarrow> (int \<Rightarrow> l2_block) \<Rightarrow> 'db merkle_trees \<Rightarrow> 'db synchroniser \<Rightarrow> bool" where
  "handled_inv env blks w0 s \<longleftrightarrow> rejected s \<or>
     (concat (map snd (dl_returned (l2BlockDownloader s))) = chain_segment blks 1 (inserted s + 1) @ remaining (blockProcess s) \<and>
      jfor (MerkleTrees_handleL2Block env) (chain_segment blks 1 (inserted s + 1)) w0 = (Inr (), merkleTreeDb s) \<and>
      (\<forall>b bs. blockProcess s = Inserted b bs \<longrightarrow> b = blks (inserted s)))"

definition status_inv :: "'db synchroniser \<Rightarrow> bool" where
  "status_inv s \<longleftrightarrow> startCall s = StartReturned \<and> (case currentState s of
       IDLE \<Rightarrow> False
     | SYNCHING \<Rightarrow> currentL2BlockNum s < latestBlockNumberAtStart s \<and> \<not> syncResolved s
     | RUNNING \<Rightarrow> latestBlockNumberAtStart s \<le> currentL2BlockNum s \<and> syncResolved s
     | STOPPED \<Rightarrow> stopping s \<and> blockProcess s = Finished \<and> (syncResolved s \<longleftrightarrow> latestBlockNumberAtStart s \<le> currentL2BlockNum s))"

definition sync_inv :: "'db tree_env \<Rightarrow> (int \<Rightarrow> l2_block) \<Rightarrow> nat \<Rightarrow> 'db merkle_trees \<Rightarrow> 'db synchroniser \<Rightarrow> bool" where
  "sync_inv env blks n w0 s \<longleftrightarrow> s \<in> {new_Synchroniser w0 n, (new_Synchroniser w0 n)\<lparr>startCall := AwaitingHeight\<rparr>} \<or>
     (0 \<le> currentL2BlockNum s \<and> dl_inv blks n 1 (l2BlockDownloader s) \<and> handled_inv env blks w0 s \<and> status_inv s)"

lemma next_block:
  assumes "dl_inv blks n 1 d" and "concat (map snd (dl_returned d)) = chain_segment blks 1 (c + 1) @ b # bs" and "0 \<le> c"
  shows "b = blks (c + 1)"
proof -
  obtain ext where ext: "chain_segment blks 1 (dl_from d) = concat (map snd (dl_returned d)) @ ext"
    using assms(1) by (auto simp: dl_inv_def order_inv_def batches_def)
  have len: "length (chain_segment blks 1 (c + 1)) = nat c" using assms(3) by (simp add: chain_segment_def)
  then have "chain_segment blks 1 (dl_from d) ! nat c = b" by (simp add: ext assms(2) nth_append)
  moreover have "nat c < length (chain_segment blks 1 (dl_from d))" by (simp only: ext assms(2)) (simp add: len)
  then have "chain_segment blks 1 (dl_from d) ! nat c = blks (c + 1)" using assms(3) by (simp add: chain_segment_def add.commute)
  ultimately show ?thesis by simp
qed

lemma sync_inv_start: "sync_inv env blks n w0 (sync_start height ((new_Synchroniser w0 n)\<lparr>startCall := c\<rparr>))"
proof -
  have "dl_inv blks n 1 (dl_start 1 (dl_getL2Blocks 0 (new_L2BlockDownloader n)))"
    by (simp add: dl_inv_def dl_start_def new_L2BlockDownloader_def Let_def loop_head_def tokens_inv_def order_inv_def queue_inv_def
        in_flight_def batches_def fifo_new_Semaphore new_MemoryFifo_def new_InterruptableSleep_def chain_segment_def dl_getL2Blocks_def
        MemoryFifo_get_def)
  moreover have "dl_returned (dl_start 1 (dl_getL2Blocks 0 (new_L2BlockDownloader n)) :: l2_block downloader) = []"
    by (simp add: dl_start_def new_L2BlockDownloader_def Let_def dl_getL2Blocks_def MemoryFifo_get_def new_MemoryFifo_def)
  ultimately show ?thesis
    by (simp add: sync_inv_def sync_start_def new_Synchroniser_def process_head_def Let_def handled_inv_def inserted_def status_inv_def chain_segment_def
        jreturn_def)
qed

lemma sync_inv_handles:
  assumes p: "blockProcess s = Handling (b # bs)"
    and inv: "0 \<le> currentL2BlockNum s" "dl_inv blks n 1 (l2BlockDownloader s)" "handled_inv env blks w0 s" "status_inv s"
  shows "sync_inv env blks n w0 (process_handles env s)"
proof -
  let ?c = "currentL2BlockNum s"
  have h: "concat (map snd (dl_returned (l2BlockDownloader s))) = chain_segment blks 1 (?c + 1) @ b # bs"
    "jfor (MerkleTrees_handleL2Block env) (chain_segment blks 1 (?c + 1)) w0 = (Inr (), merkleTreeDb s)"
    using inv(3) p by (simp_all add: handled_inv_def rejected_def inserted_def)
  have b: "b = blks (?c + 1)" by (rule next_block[OF inv(2) h(1) inv(1)])
  have seg: "chain_segment blks 1 (?c + 2) = chain_segment blks 1 (?c + 1) @ [b]"
    using chain_segment_append[of 1 "?c + 1" blks 1] inv(1) b by (simp add: chain_segment_def add.commute)
  have live: "currentState s \<noteq> STOPPED" using inv(4) p by (auto simp: status_inv_def)
  obtain r w where w: "MerkleTrees_handleL2Block env b (merkleTreeDb s) = (r, w)" by fastforce
  show ?thesis
  proof (cases r)
    case (Inl e)
    then show ?thesis using inv(1,2,4) p w live
      by (auto simp: process_handles_def on_db_def sync_inv_def handled_inv_def rejected_def status_inv_def split: WorldStateRunningState.splits)
  next
    case (Inr u)
    have s': "process_handles env s = s\<lparr>merkleTreeDb := w, blockProcess := Inserted b bs\<rparr>" using w p Inr by (simp add: process_handles_def on_db_def)
    have "jfor (MerkleTrees_handleL2Block env) (chain_segment blks 1 (?c + 2)) w0 = (Inr (), w)"
      using h(2) w Inr by (simp add: seg jfor_append jbind_def jreturn_def)
    then have "handled_inv env blks w0 (process_handles env s)" using h(1) seg b by (simp add: s' handled_inv_def inserted_def add.commute)
    moreover have "status_inv (process_handles env s)" using inv(4) live by (auto simp: s' status_inv_def split: WorldStateRunningState.splits)
    ultimately show ?thesis using inv(1,2) by (simp add: s' sync_inv_def)
  qed
qed

lemma sync_inv_counts:
  assumes num: "\<And>k. blk_number (blks k) = k" and p: "blockProcess s = Inserted b bs"
    and inv: "0 \<le> currentL2BlockNum s" "dl_inv blks n 1 (l2BlockDownloader s)" "handled_inv env blks w0 s" "status_inv s"
  shows "sync_inv env blks n w0 (process_counts s)"
proof -
  have b: "blk_number b = currentL2BlockNum s + 1" using inv(3) p num by (simp add: handled_inv_def rejected_def inserted_def)
  have "handled_inv env blks w0 (process_counts s)"
    using inv(3) p b by (simp add: process_counts_def sync_counts_def Let_def handled_inv_def rejected_def inserted_def)
  moreover have "status_inv (process_counts s)"
    using inv(4) p b by (auto simp: process_counts_def sync_counts_def Let_def status_inv_def split: WorldStateRunningState.splits)
  ultimately show ?thesis using inv(1,2) p b by (simp add: sync_inv_def) (simp add: process_counts_def sync_counts_def Let_def)
qed

lemma sync_inv_step:
  assumes num: "\<And>k. blk_number (blks k) = k" and inv: "sync_inv env blks n w0 s" and "sync_step env blks s s'"
  shows "sync_inv env blks n w0 s'"
proof (cases "s \<in> {new_Synchroniser w0 n, (new_Synchroniser w0 n)\<lparr>startCall := AwaitingHeight\<rparr>}")
  case True
  then consider "s = new_Synchroniser w0 n" | "s = (new_Synchroniser w0 n)\<lparr>startCall := AwaitingHeight\<rparr>" by blast
  then show ?thesis
  proof cases
    case 1
    then have "s' = (new_Synchroniser w0 n)\<lparr>startCall := AwaitingHeight\<rparr>"
      using assms(3) by (auto simp: new_Synchroniser_def new_L2BlockDownloader_def elim!: sync_stepE loop_stepE)
    then show ?thesis by (simp add: sync_inv_def)
  next
    case 2
    then obtain height where "s' = sync_start height s"
      using assms(3) by (auto simp: new_Synchroniser_def new_L2BlockDownloader_def elim!: sync_stepE loop_stepE)
    then show ?thesis using sync_inv_start 2 by simp
  qed
next
  case False
  then have i: "0 \<le> currentL2BlockNum s" "dl_inv blks n 1 (l2BlockDownloader s)" "handled_inv env blks w0 s" "status_inv s"
    using inv by (simp_all add: sync_inv_def)
  show ?thesis using assms(3)
  proof (cases rule: sync_step.cases)
    case start
    then show ?thesis using i(4) by (simp add: status_inv_def)
  next
    case (resumes height)
    then show ?thesis using i(4) by (simp add: status_inv_def)
  next
    case (downloads d)
    then show ?thesis using i dl_inv_loop[OF i(2)] loop_step_returned[of blks "l2BlockDownloader s" d]
      by (simp add: sync_inv_def handled_inv_def inserted_def status_inv_def rejected_def split: WorldStateRunningState.splits)
  next
    case receives
    then obtain c r rs where r: "dl_resolved (l2BlockDownloader s) = (c, r) # rs" by (cases "dl_resolved (l2BlockDownloader s)") auto
    show ?thesis using receives i dl_inv_returns[OF i(2) r] returns_returned[OF r] r
      by (simp add: sync_inv_def handled_inv_def inserted_def status_inv_def rejected_def process_receives_def split: WorldStateRunningState.splits)
  next
    case (handles bs)
    show ?thesis
    proof (cases bs)
      case Nil
      then show ?thesis using handles i dl_inv_calls[OF i(2), of 0]
        by (auto simp: sync_inv_def handled_inv_def inserted_def status_inv_def rejected_def process_handles_def process_head_def
            split: WorldStateRunningState.splits)
    next
      case (Cons b bs')
      then show ?thesis using sync_inv_handles[OF _ i, of b bs'] handles by simp
    qed
  next
    case (counts b bs)
    then show ?thesis using sync_inv_counts[OF num counts(2) i] by simp
  next
    case stop
    then show ?thesis using i dl_inv_stop[OF i(2)]
      by (simp add: sync_inv_def handled_inv_def inserted_def status_inv_def rejected_def sync_stop_def split: WorldStateRunningState.splits)
  next
    case stopped
    then show ?thesis using i
      by (auto simp: sync_inv_def handled_inv_def inserted_def status_inv_def rejected_def sync_stopped_def split: WorldStateRunningState.splits)
  qed
qed

interpretation sync_sm: state_machine "new_Synchroniser w0 n" "sync_step env (numbered blks)" "sync_inv env (numbered blks) n w0"
  for w0 n env blks
proof
  show "sync_inv env (numbered blks) n w0 (new_Synchroniser w0 n)" by (simp add: sync_inv_def)
  show "sync_inv env (numbered blks) n w0 s'" if "sync_inv env (numbered blks) n w0 s" "sync_step env (numbered blks) s s'" for s s'
    by (rule sync_inv_step[OF _ that]) (simp add: numbered_def)
qed

section \<open>Handling a chain of blocks\<close>

fun tree_adds :: "l2_block \<Rightarrow> MerkleTreeId \<Rightarrow> int" where
  "tree_adds b CONTRACT_TREE = int (length (newContracts b))"
| "tree_adds b NULLIFIER_TREE = int (length (newNullifiers b))"
| "tree_adds b PRIVATE_DATA_TREE = int (length (newCommitments b))"
| "tree_adds b L1_TO_L2_MESSAGES_TREE = int (length (newL1ToL2Messages b))"
| "tree_adds b PUBLIC_DATA_TREE = 0"
| "tree_adds b _ = 1"

definition content_ok :: "l2_block \<Rightarrow> bool" where
  "content_ok b \<longleftrightarrow> end_ok b \<and>
     (\<forall>x \<in> set (newContracts b) \<union> set (newNullifiers b) \<union> set (newCommitments b) \<union> set (newL1ToL2Messages b). fr_ok x) \<and>
     (\<forall>dw \<in> set (newPublicDataWrites b). write_ok dw)"

text \<open>The trees of height 8 have room for all blocks.\<close>

definition chain_fits :: "'db tree_env \<Rightarrow> 'db merkle_trees \<Rightarrow> l2_block list \<Rightarrow> bool" where
  "chain_fits env w bs \<longleftrightarrow> (\<forall>b \<in> set bs. content_ok b) \<and>
     (\<forall>i. i \<noteq> PUBLIC_DATA_TREE \<longrightarrow> snd (world_leaves env False w i) + (\<Sum>b\<leftarrow>bs. tree_adds b i) \<le> 2 ^ 8)"

text \<open>What the blocks did, one after the other.\<close>

fun block_effects :: "'db tree_env \<Rightarrow> l2_block list \<Rightarrow> 'db merkle_trees \<Rightarrow> 'db merkle_trees \<Rightarrow> bool" where
  "block_effects env [] w w' \<longleftrightarrow> w' = w"
| "block_effects env (b # bs) w w' \<longleftrightarrow>
     (\<exists>w1. (if roots_match True b w then \<forall>c. world_view env c w1 = world_view env True w else \<forall>c. block_applied env b w w1 c) \<and>
       block_effects env bs w1 w')"

lemma tree_adds_nonneg: "0 \<le> tree_adds b i"
  by (cases i) simp_all

lemma sum_adds_nonneg: "0 \<le> (\<Sum>b\<leftarrow>bs. tree_adds b i)"
  by (rule sum_list_nonneg) (auto simp: tree_adds_nonneg)

lemma chain_fits_block:
  assumes "chain_fits env w (b # bs)"
  shows "block_fits env w b"
proof -
  have "snd (world_leaves env False w i) + tree_adds b i \<le> 2 ^ 8" if "i \<noteq> PUBLIC_DATA_TREE" for i
    using assms that sum_adds_nonneg[of i bs] by (auto simp: chain_fits_def dest: spec[of _ i])
  from this[of CONTRACT_TREE] this[of NULLIFIER_TREE] this[of PRIVATE_DATA_TREE] this[of L1_TO_L2_MESSAGES_TREE]
    this[of PRIVATE_DATA_TREE_ROOTS_TREE] this[of CONTRACT_TREE_ROOTS_TREE] this[of L1_TO_L2_MESSAGES_ROOTS_TREE]
  show ?thesis using assms by (simp add: block_fits_def chain_fits_def content_ok_def)
qed

lemma standard_spec_count: "snd (standard_spec d ls v) \<le> snd v + int (length ls)"
  by (cases v) (simp add: standard_spec_def)

lemma block_applied_count:
  assumes "block_applied env b w w' c" and "i \<noteq> PUBLIC_DATA_TREE"
  shows "snd (world_leaves env c w' i) \<le> snd (world_leaves env False w i) + tree_adds b i"
  using assms
  by (cases i) (auto simp: block_applied_def roots_pairs_def intro: standard_spec_count[THEN order_trans])

lemma handle_block_settled:
  assumes inv: "world_inv env w" and settled: "world_view env False w = world_view env True w" and fits: "chain_fits env w (b # bs)"
  shows "\<exists>w'. MerkleTrees_handleL2Block env b w = (Inr (), w') \<and> world_inv env w' \<and> world_view env False w' = world_view env True w' \<and>
    chain_fits env w' bs \<and>
    (if roots_match True b w then \<forall>c. world_view env c w' = world_view env True w else \<forall>c. block_applied env b w w' c)"
proof -
  have e: "end_ok b" using fits by (simp add: chain_fits_def content_ok_def)
  have rest: "chain_fits env w' bs" if "\<And>i. i \<noteq> PUBLIC_DATA_TREE \<Longrightarrow> snd (world_leaves env False w' i) \<le> snd (world_leaves env False w i) + tree_adds b i" for w'
    using fits that by (fastforce simp: chain_fits_def)
  show ?thesis
  proof (cases "roots_match True b w")
    case True
    obtain w' where w': "MerkleTrees_handleL2Block env b w = (Inr (), w')" "world_inv env w'" "\<forall>c. world_view env c w' = world_view env True w"
      using own_block_ok[OF inv e True] by blast
    have "snd (world_leaves env False w' i) \<le> snd (world_leaves env False w i) + tree_adds b i" for i
      using world_leaves_cong[OF w'(2) inv, of False i False] w'(3) settled tree_adds_nonneg[of b i] by simp
    then show ?thesis using w' True rest by auto
  next
    case False
    obtain cs where "rootChecks b w = Inr cs" "\<not> list_all id cs" using rootChecks_run[OF e, of w] False by auto
    from foreign_block_ok[OF inv chain_fits_block[OF fits] this]
    obtain w' where w': "MerkleTrees_handleL2Block env b w = (Inr (), w')" "world_inv env w'"
      "world_view env False w' = world_view env True w'" "\<forall>c. block_applied env b w w' c" by blast
    have "chain_fits env w' bs" by (rule rest) (use w'(4) block_applied_count in blast)
    then show ?thesis using w' False by auto
  qed
qed

lemma handle_chain_ok:
  assumes "world_inv env w" and "world_view env False w = world_view env True w" and "chain_fits env w bs"
  shows "\<exists>w'. jfor (MerkleTrees_handleL2Block env) bs w = (Inr (), w') \<and> world_inv env w' \<and>
    world_view env False w' = world_view env True w' \<and> block_effects env bs w w'"
  using assms
proof (induction bs arbitrary: w)
  case (Cons b bs)
  obtain w1 where w1: "MerkleTrees_handleL2Block env b w = (Inr (), w1)" "world_inv env w1" "world_view env False w1 = world_view env True w1"
    "chain_fits env w1 bs" "if roots_match True b w then \<forall>c. world_view env c w1 = world_view env True w else \<forall>c. block_applied env b w w1 c"
    using handle_block_settled[OF Cons.prems] by blast
  obtain w' where w': "jfor (MerkleTrees_handleL2Block env) bs w1 = (Inr (), w')" "world_inv env w'"
    "world_view env False w' = world_view env True w'" "block_effects env bs w1 w'"
    using Cons.IH[OF w1(2-4)] by blast
  have "block_effects env (b # bs) w w'" unfolding block_effects.simps using w1(5) w'(4) by blast
  then show ?case using w1(1) w'(1-3) by (intro exI[of _ w']) (simp add: jbind_def)
qed (simp add: jreturn_def)

section \<open>Properties\<close>

text \<open>C5. Following the chain, for the whole composition of downloader, block process and trees: in every state that is reachable when the calls of
  \<open>start\<close> and \<open>stop\<close> are made one after the other, whatever the interleaving of the steps otherwise, and whose block process has not failed, the trees are
  the result of handling the first blocks of the chain, each once and in order: the blocks 1 to \<open>syncedToL2Block\<close>, and one more exactly while
  \<open>handleL2Block\<close> waits between the trees and the counter; the state is \<open>SYNCHING\<close>, with \<open>start\<close> still pending, exactly while the block height
  read at the start is not reached, and \<open>RUNNING\<close> afterwards.\<close>

theorem synchroniser_follows_chain:
  assumes "(sync_step env (numbered blks))\<^sup>*\<^sup>* (new_Synchroniser w0 n) s" and "\<not> rejected s"
  shows "jfor (MerkleTrees_handleL2Block env)
      (chain_segment (numbered blks) 1 (syncedToL2Block (Synchroniser_status s) + (if \<exists>b bs. blockProcess s = Inserted b bs then 1 else 0) + 1)) w0 =
      (Inr (), merkleTreeDb s) \<and>
    (currentState s = SYNCHING \<longrightarrow> currentL2BlockNum s < latestBlockNumberAtStart s \<and> \<not> syncResolved s) \<and>
    (currentState s = RUNNING \<longrightarrow> latestBlockNumberAtStart s \<le> currentL2BlockNum s \<and> syncResolved s)"
proof -
  have "sync_inv env (numbered blks) n w0 s" by (rule sync_sm.reachable_inv[OF assms(1)])
  then show ?thesis using assms(2)
    by (auto simp: sync_inv_def handled_inv_def inserted_def status_inv_def Synchroniser_status_def new_Synchroniser_def chain_segment_def jreturn_def
        split: block_process.splits)
qed

text \<open>Handling a chain of blocks for which the trees have room never fails, starting from a state without pending changes: every
  block in turn is committed if its roots are the pending ones and applied otherwise, and no pending change is left.\<close>

theorem synchronise_chain:
  assumes "world_inv env w" and "world_view env False w = world_view env True w" and "chain_fits env w bs"
  shows "\<exists>w'. jfor (MerkleTrees_handleL2Block env) bs w = (Inr (), w') \<and> world_inv env w' \<and>
    world_view env False w' = world_view env True w' \<and> block_effects env bs w w'"
  by (rule handle_chain_ok[OF assms])

section \<open>A run\<close>

lemma new_world_chain:
  "\<exists>w. MerkleTrees_new mem_env [] = Inr w \<and> world_inv mem_env w \<and> world_view mem_env False w = world_view mem_env True w \<and>
    chain_fits mem_env w [sample_block\<lparr>blk_number := 1\<rparr>, sample_block]"
proof -
  obtain w where w: "MerkleTrees_new mem_env [] = Inr w" "world_inv mem_env w" "world_view mem_env False w = world_view mem_env True w"
    "\<forall>b. world_nullifiers mem_env b w = {0..7} \<and> snd (world_leaves mem_env b w NULLIFIER_TREE) \<le> 8 \<and>
      (\<forall>i. i \<notin> root_trees \<union> {NULLIFIER_TREE} \<longrightarrow> world_leaves mem_env b w i = ((\<lambda>_. INITIAL_LEAF), 0)) \<and>
      (\<forall>(i, r) \<in> set roots_pairs. world_leaves mem_env b w r = standard_spec 8 [world_root True w i] ((\<lambda>_. INITIAL_LEAF), 0))"
    using new_world_ok[OF levelup_ok_mem, of "[]"] no_nodes_mem by blast
  have ok: "content_ok sample_block" "content_ok (sample_block\<lparr>blk_number := 1\<rparr>)"
    using new_world_fits[OF w(4)] sample_block_ok by (simp_all add: content_ok_def block_fits_def block_ok_def end_ok_def)
  have count: "snd (world_leaves mem_env False w i) \<le> 8" for i
    using w(4)[THEN spec, of False] by (cases i) (simp_all add: roots_pairs_def standard_spec_def)
  have adds: "tree_adds sample_block i \<le> 4" "tree_adds (sample_block\<lparr>blk_number := 1\<rparr>) i \<le> 4" for i
    by (cases i; simp add: sample_block_def new_L2Block_def)+
  have "snd (world_leaves mem_env False w i) + (tree_adds (sample_block\<lparr>blk_number := 1\<rparr>) i + tree_adds sample_block i) \<le> 2 ^ 8" for i
    using count[of i] adds[of i] by simp
  then show ?thesis using w(1-3) ok by (auto simp: chain_fits_def)
qed

theorem synchronise_chain_witness:
  "\<exists>w w'. MerkleTrees_new mem_env [] = Inr w \<and>
    jfor (MerkleTrees_handleL2Block mem_env) [sample_block\<lparr>blk_number := 1\<rparr>, sample_block] w = (Inr (), w') \<and>
    block_effects mem_env [sample_block\<lparr>blk_number := 1\<rparr>, sample_block] w w'"
  using new_world_chain synchronise_chain by blast

text \<open>The states of a synchroniser over a chain of sample blocks, from its start to the queueing of the first block.\<close>

definition demo_start :: "'db merkle_trees \<Rightarrow> 'db synchroniser" where
  "demo_start w = \<lparr>currentL2BlockNum = 0, latestBlockNumberAtStart = 1, currentState = SYNCHING, syncResolved = False, stopping = False, startCall = StartReturned,
     blockProcess = Awaiting, merkleTreeDb = w,
     l2BlockDownloader = \<lparr>dl_running = True, dl_from = 1, dl_sleep = new_InterruptableSleep,
       dl_semaphore = \<lparr>waiting = [], fifo_items = [True], flushing = False\<rparr>, dl_queue = \<lparr>waiting = [0], fifo_items = [], flushing = False\<rparr>,
       dl_loops = [Fetching 1], dl_resolved = [], dl_returned = []\<rparr>\<rparr>"

lemma demo_start_steps: "(sync_step env blks)\<^sup>*\<^sup>* (new_Synchroniser w 1) (demo_start w)"
proof -
  let ?s = "(new_Synchroniser w 1)\<lparr>startCall := AwaitingHeight\<rparr>"
  have "sync_start 1 ?s = demo_start w"
    by (simp add: sync_start_def new_Synchroniser_def process_head_def demo_start_def Let_def dl_start_def new_L2BlockDownloader_def loop_head_def
        dl_getL2Blocks_def MemoryFifo_get_def fifo_new_Semaphore new_MemoryFifo_def)
  then have "sync_step env blks ?s (demo_start w)" using sync_step.resumes[of ?s env blks 1] by (simp add: new_Synchroniser_def)
  moreover have "sync_step env blks (new_Synchroniser w 1) ?s" by (rule sync_step.start) (simp_all add: sync_start_check_def new_Synchroniser_def)
  ultimately show ?thesis by (meson rtranclp.rtrancl_into_rtrancl rtranclp.rtrancl_refl)
qed

theorem synchroniser_follows_chain_witness:
  "\<exists>w s. MerkleTrees_new mem_env [] = Inr w \<and> (sync_step mem_env (numbered (\<lambda>_. sample_block)))\<^sup>*\<^sup>* (new_Synchroniser w 1) s \<and>
    currentL2BlockNum s = 1 \<and> currentState s = RUNNING \<and>
    jfor (MerkleTrees_handleL2Block mem_env) [sample_block\<lparr>blk_number := 1\<rparr>] w = (Inr (), merkleTreeDb s)"
proof -
  let ?b = "sample_block\<lparr>blk_number := 1\<rparr>" and ?blks = "numbered (\<lambda>_. sample_block)"
  obtain w where w: "MerkleTrees_new mem_env [] = Inr w" "world_inv mem_env w" "world_view mem_env False w = world_view mem_env True w"
    "chain_fits mem_env w [?b, sample_block]" using new_world_chain by blast
  obtain w' where w': "MerkleTrees_handleL2Block mem_env ?b w = (Inr (), w')" using handle_block_settled[OF w(2-4)] by blast
  let ?s1 = "demo_start w"
  let ?d2 = "dl_fetched 0 [?b] (l2BlockDownloader ?s1)" let ?d3 = "dl_puts 0 [?b] ?d2"
  let ?s2 = "?s1\<lparr>l2BlockDownloader := ?d2\<rparr>" let ?s3 = "?s2\<lparr>l2BlockDownloader := ?d3\<rparr>"
  let ?s4 = "process_receives ?s3" let ?s4' = "process_handles mem_env ?s4" let ?s5 = "process_counts ?s4'"
  note defs = demo_start_def dl_fetched_def dl_puts_def MemoryFifo_get_def MemoryFifo_put_def set_loop_def loop_head_def Let_def
  have seg: "chain_segment ?blks 1 (1 + int 1) = [?b]" "chain_segment ?blks 1 2 = [?b]" by (simp_all add: chain_segment_def numbered_def)
  have "loop_step ?blks (l2BlockDownloader ?s1) ?d2"
    using loop_step.fetched[of 0 "l2BlockDownloader ?s1" 1 ?blks 1] unfolding seg by (simp add: demo_start_def)
  then have "sync_step mem_env ?blks ?s1 ?s2" by (rule sync_step.downloads)
  moreover have "loop_step ?blks (l2BlockDownloader ?s2) ?d3"
    using loop_step.puts[of 0 "l2BlockDownloader ?s2" "[?b]" ?blks] by (simp add: defs)
  then have "sync_step mem_env ?blks ?s2 ?s3" by (rule sync_step.downloads)
  moreover have "sync_step mem_env ?blks ?s3 ?s4" by (rule sync_step.receives) (simp_all add: defs)
  moreover have p4: "blockProcess ?s4 = Handling [?b]" "merkleTreeDb ?s4 = w" "currentState ?s4 = SYNCHING" "latestBlockNumberAtStart ?s4 = 1"
    by (simp_all add: defs process_receives_def)
  then have "sync_step mem_env ?blks ?s4 ?s4'" by (intro sync_step.handles)
  moreover have p4': "?s4' = ?s4\<lparr>merkleTreeDb := w', blockProcess := Inserted ?b []\<rparr>" using p4(1,2) w' by (simp add: process_handles_def on_db_def)
  have "blockProcess ?s4' = Inserted ?b []" unfolding p4' by simp
  then have "sync_step mem_env ?blks ?s4' ?s5" by (rule sync_step.counts)
  ultimately have r: "(sync_step mem_env ?blks)\<^sup>*\<^sup>* (new_Synchroniser w 1) ?s5"
    using demo_start_steps[of mem_env ?blks w] by (meson rtranclp.rtrancl_into_rtrancl)
  have s5: "currentL2BlockNum ?s5 = 1 \<and> currentState ?s5 = RUNNING \<and> blockProcess ?s5 = Handling []"
    unfolding p4' using p4(3,4) by (simp add: process_counts_def sync_counts_def Let_def)
  then have "\<not> rejected ?s5" by (simp add: rejected_def)
  from synchroniser_follows_chain[OF r this] s5 seg(2)
  have "jfor (MerkleTrees_handleL2Block mem_env) [?b] w = (Inr (), merkleTreeDb ?s5)" by (simp add: Synchroniser_status_def)
  then show ?thesis using w(1) r s5 by blast
qed

text \<open>C32. A synchroniser that is stopped before it has reached the block height never resolves the promise that \<open>start\<close> returned:
  nothing that happens afterwards does.\<close>

theorem stopped_sync_never_resolves:
  assumes "currentState s = STOPPED" and "blockProcess s = Finished" and "\<not> syncResolved s"
    and "(sync_step env blks)\<^sup>*\<^sup>* s s'"
  shows "\<not> syncResolved s' \<and> currentState s' = STOPPED \<and> sync_start_check s' = Inl (Error ''Synchroniser already stopped'')"
proof -
  have "currentState s' = STOPPED \<and> blockProcess s' = Finished \<and> \<not> syncResolved s'" using assms(4)
  proof (induction rule: rtranclp_induct)
    case (step s1 s2)
    then show ?case by (auto elim!: sync_stepE simp: sync_start_check_def sync_stop_def sync_stopped_def)
  qed (use assms in simp)
  then show ?thesis by (simp add: sync_start_check_def)
qed

text \<open>Stopped right after the start: the source fails once, the loop and the block process end.\<close>

lemma demo_stopped:
  "\<exists>s. (sync_step env blks)\<^sup>*\<^sup>* (new_Synchroniser w 1) s \<and> currentState s = STOPPED \<and> blockProcess s = Finished \<and> \<not> syncResolved s"
proof -
  let ?s2 = "sync_stop (demo_start w)"
  let ?d2 = "l2BlockDownloader ?s2"
  let ?d3 = "dl_fetch_fails 0 ?d2" let ?d4 = "dl_timer 0 ?d3" let ?d5 = "dl_wakes 0 ?d4"
  let ?s5 = "?s2\<lparr>l2BlockDownloader := ?d3\<rparr>\<lparr>l2BlockDownloader := ?d4\<rparr>\<lparr>l2BlockDownloader := ?d5\<rparr>"
  let ?s6 = "process_receives ?s5" let ?s7 = "process_handles env ?s6" let ?s8 = "sync_stopped ?s7"
  note defs = demo_start_def sync_stop_def dl_stop_def dl_interrupt_def InterruptableSleep_interrupt_def new_InterruptableSleep_def
    MemoryFifo_cancel_def dl_fetch_fails_def dl_sleeps_def sleep_begins_def dl_timer_def sleep_timer_def dl_wakes_def sleep_resumes_def
    set_loop_def loop_head_def Let_def
  have "sync_step env blks (demo_start w) ?s2" by (rule sync_step.stop) (simp add: demo_start_def)
  moreover have "loop_step blks ?d2 ?d3" by (rule loop_step.fails[of 0 _ 1]) (simp_all add: defs)
  then have "sync_step env blks ?s2 (?s2\<lparr>l2BlockDownloader := ?d3\<rparr>)" by (rule sync_step.downloads)
  moreover have "loop_step blks ?d3 ?d4" by (rule loop_step.timer) (simp_all add: defs)
  then have "sync_step env blks (?s2\<lparr>l2BlockDownloader := ?d3\<rparr>) (?s2\<lparr>l2BlockDownloader := ?d3\<rparr>\<lparr>l2BlockDownloader := ?d4\<rparr>)"
    by (intro sync_step.downloads) simp
  moreover have "loop_step blks ?d4 ?d5" by (rule loop_step.wakes) (simp_all add: defs)
  then have "sync_step env blks (?s2\<lparr>l2BlockDownloader := ?d3\<rparr>\<lparr>l2BlockDownloader := ?d4\<rparr>) ?s5" by (intro sync_step.downloads) simp
  moreover have "sync_step env blks ?s5 ?s6" by (rule sync_step.receives) (simp_all add: defs)
  moreover have p6: "blockProcess ?s6 = Handling []" "stopping ?s6" "dl_loops (l2BlockDownloader ?s6) = [Ended]" "\<not> syncResolved ?s6"
    by (simp_all add: process_receives_def dl_returns_def defs)
  then have "sync_step env blks ?s6 ?s7" by (intro sync_step.handles)
  moreover have p7: "blockProcess ?s7 = Finished" "stopping ?s7" "dl_loops (l2BlockDownloader ?s7) = [Ended]" "\<not> syncResolved ?s7"
    using p6 by (simp_all add: process_handles_def process_head_def)
  then have "sync_step env blks ?s7 ?s8" by (intro sync_step.stopped)
  ultimately have "(sync_step env blks)\<^sup>*\<^sup>* (new_Synchroniser w 1) ?s8"
    using demo_start_steps[of env blks w] by (meson rtranclp.rtrancl_into_rtrancl)
  then show ?thesis using p7 by (intro exI[of _ ?s8]) (simp add: sync_stopped_def)
qed

theorem stopped_sync_never_resolves_witness:
  "\<exists>s. (sync_step mem_env (\<lambda>_. sample_block))\<^sup>*\<^sup>* (new_Synchroniser \<lparr>wdb = [], trees = []\<rparr> 1) s \<and>
    \<not> syncResolved (sync_stop s) \<and> sync_start_check (sync_stop s) = Inl (Error ''Synchroniser already stopped'')"
proof -
  obtain s where s: "(sync_step mem_env (\<lambda>_. sample_block))\<^sup>*\<^sup>* (new_Synchroniser \<lparr>wdb = [], trees = []\<rparr> 1) s"
    "currentState s = STOPPED" "blockProcess s = Finished" "\<not> syncResolved s" using demo_stopped by blast
  have "(sync_step mem_env (\<lambda>_. sample_block))\<^sup>*\<^sup>* s (sync_stop s)" using sync_step.stop[of s] s(2) by auto
  from stopped_sync_never_resolves[OF s(2-4) this] s(1) show ?thesis by blast
qed

end
