(* ===== verification/L1Messages.thy ===== *)
theory L1Messages
  imports L2BlockProperties "HOL-Library.Multiset" "HOL-Library.AList"
begin

text \<open>
  \<^verbatim>\<open>types/src/l1_to_l2_message.ts\<close>, the messages from the base chain with their encodings, and \<^verbatim>\<open>archiver/src/archiver/l1_to_l2_message_store.ts\<close>,
  the stores that count them. A \<open>Map\<close> is an association list in insertion order. The abstract state of a store is the
  multiset of the message keys it holds.
\<close>

section \<open>Messages\<close>

record l1_actor =
  l1_sender :: eth_address
  chainId :: int

record l2_actor =
  l2_recipient :: aztec_address
  version :: int

record l1_to_l2_message =
  msg_sender :: l1_actor
  msg_recipient :: l2_actor
  content :: fr
  secretHash :: fr
  deadline :: int
  fee :: int
  entryKey :: "fr option"

definition L1Actor_empty :: l1_actor where
  "L1Actor_empty = \<lparr>l1_sender = EthAddress_ZERO, chainId = 0\<rparr>"

definition L1Actor_toFieldArray :: "l1_actor \<Rightarrow> fr list result" where
  "L1Actor_toFieldArray a = rbind (EthAddress_toField (l1_sender a)) (\<lambda>s. Inr [s, new_Fr (chainId a)])"

text \<open>\<open>serializeToBuffer\<close> writes an address with its \<open>toBuffer32\<close>.\<close>

definition L1Actor_toBuffer :: "l1_actor \<Rightarrow> buffer result" where
  "L1Actor_toBuffer a = serializeToBuffer [BObject (Inr (EthAddress_toBuffer32 (l1_sender a))), BNumber (chainId a)]"

definition L1Actor_fromBuffer :: "l1_actor reading" where
  "L1Actor_fromBuffer = jbind (readBytes 32) (\<lambda>b. jbind (jlift (new_EthAddress b)) (\<lambda>ethAddr.
     jbind readNumber (\<lambda>n. jreturn \<lparr>l1_sender = ethAddr, chainId = n\<rparr>)))"

definition L2Actor_empty :: l2_actor where
  "L2Actor_empty = \<lparr>l2_recipient = AztecAddress_ZERO, version = 0\<rparr>"

definition L2Actor_toFieldArray :: "l2_actor \<Rightarrow> fr list result" where
  "L2Actor_toFieldArray a = rbind (AztecAddress_toField (l2_recipient a)) (\<lambda>r. Inr [r, new_Fr (version a)])"

definition L2Actor_toBuffer :: "l2_actor \<Rightarrow> buffer result" where
  "L2Actor_toBuffer a = serializeToBuffer [BObject (Inr (AztecAddress_toBuffer (l2_recipient a))), BNumber (version a)]"

definition L2Actor_fromBuffer :: "l2_actor reading" where
  "L2Actor_fromBuffer = jbind AztecAddress_fromBuffer (\<lambda>a. jbind readNumber (\<lambda>n.
     jreturn \<lparr>l2_recipient = a, version = n\<rparr>))"

definition L1ToL2Message_toFieldArray :: "l1_to_l2_message \<Rightarrow> fr list result" where
  "L1ToL2Message_toFieldArray m =
     rbind (L1Actor_toFieldArray (msg_sender m)) (\<lambda>s. rbind (L2Actor_toFieldArray (msg_recipient m)) (\<lambda>r.
       Inr (s @ r @ [content m, secretHash m, new_Fr (deadline m), new_Fr (fee m)])))"

definition L1ToL2Message_toBuffer :: "l1_to_l2_message \<Rightarrow> buffer result" where
  "L1ToL2Message_toBuffer m =
     serializeToBuffer [BObject (L1Actor_toBuffer (msg_sender m)), BObject (L2Actor_toBuffer (msg_recipient m)),
       BObject (Fr_toBuffer (content m)), BObject (Fr_toBuffer (secretHash m)), BNumber (deadline m), BNumber (fee m)]"

definition L1ToL2Message_fromBuffer :: "l1_to_l2_message reading" where
  "L1ToL2Message_fromBuffer =
     jbind (readObject L1Actor_fromBuffer) (\<lambda>s. jbind (readObject L2Actor_fromBuffer) (\<lambda>r.
     jbind Fr_fromBuffer (\<lambda>c. jbind Fr_fromBuffer (\<lambda>h. jbind readNumber (\<lambda>d. jbind readNumber (\<lambda>f.
       jreturn \<lparr>msg_sender = s, msg_recipient = r, content = c, secretHash = h, deadline = d, fee = f, entryKey = None\<rparr>))))))"

definition L1ToL2Message_empty :: l1_to_l2_message where
  "L1ToL2Message_empty = \<lparr>msg_sender = L1Actor_empty, msg_recipient = L2Actor_empty, content = Fr_ZERO, secretHash = Fr_ZERO,
     deadline = 0, fee = 0, entryKey = None\<rparr>"

section \<open>The stores\<close>

text \<open>The message is \<open>undefined\<close> where a caller asserted with \<open>!\<close> one that is not there.\<close>

record message_and_count =
  mc_message :: "l1_to_l2_message option"
  mc_count :: nat

type_synonym message_store = "(int \<times> message_and_count) list"

definition addMessage :: "fr \<Rightarrow> l1_to_l2_message option \<Rightarrow> message_store \<Rightarrow> message_store" where
  "addMessage messageKey msg store =
     (case map_of store (fr_value messageKey) of
        Some mc \<Rightarrow> AList.update (fr_value messageKey) (mc\<lparr>mc_count := mc_count mc + 1\<rparr>) store
      | None \<Rightarrow> AList.update (fr_value messageKey) \<lparr>mc_message = msg, mc_count = 1\<rparr> store)"

definition getMessage :: "fr \<Rightarrow> message_store \<Rightarrow> l1_to_l2_message option" where
  "getMessage messageKey store = Option.bind (map_of store (fr_value messageKey)) mc_message"

definition getMessageAndCount :: "fr \<Rightarrow> message_store \<Rightarrow> message_and_count option" where
  "getMessageAndCount messageKey store = map_of store (fr_value messageKey)"

text \<open>The two nested loops of \<open>getMessageKeys\<close>, which return as soon as there are \<open>take\<close> keys.\<close>

fun push_copies :: "nat \<Rightarrow> 'k \<Rightarrow> nat \<Rightarrow> 'k list \<Rightarrow> bool \<times> 'k list" where
  "push_copies tk key 0 messages = (False, messages)"
| "push_copies tk key (Suc n) messages =
     (let messages = messages @ [key] in if length messages = tk then (True, messages) else push_copies tk key n messages)"

fun push_messages :: "nat \<Rightarrow> ('k \<times> nat) list \<Rightarrow> 'k list \<Rightarrow> 'k list" where
  "push_messages tk [] messages = messages"
| "push_messages tk ((key, n) # rest) messages =
     (case push_copies tk key n messages of (True, messages) \<Rightarrow> messages | (False, messages) \<Rightarrow> push_messages tk rest messages)"

text \<open>The sort is stable; the comparison reads \<open>message.fee\<close>, which throws on \<open>undefined\<close>.\<close>

definition getMessageKeys :: "int \<Rightarrow> message_store \<Rightarrow> fr option list result" where
  "getMessageKeys tk store =
     (if tk < 1 then Inr []
      else rbind (rtraverse (\<lambda>(k, mc). case mc_message mc of None \<Rightarrow> Inl TypeError | Some m \<Rightarrow> Inr (m, mc_count mc)) store) (\<lambda>values.
        let sortedMessages = sort_key (\<lambda>(m, n). - fee m) values
        in Inr (push_messages (nat tk) (map (\<lambda>(m, n). (entryKey m, n)) sortedMessages) [])))"

definition removeMessage :: "fr \<Rightarrow> (message_store, unit) js" where
  "removeMessage messageKey store =
     (if fr_value messageKey = fr_value Fr_ZERO then (Inr (), store)
      else case map_of store (fr_value messageKey) of
        None \<Rightarrow> (Inl (Error (''Message with key '' @ dec (fr_value messageKey) @ '' not found in store'')), store)
      | Some mc \<Rightarrow> (Inr (), if mc_count mc > 1 then AList.update (fr_value messageKey) (mc\<lparr>mc_count := mc_count mc - 1\<rparr>) store
          else AList.delete (fr_value messageKey) store))"

section \<open>Round trips of the messages\<close>

definition l1_actor_ok :: "l1_actor \<Rightarrow> bool" where
  "l1_actor_ok a \<longleftrightarrow> length (ea_buffer (l1_sender a)) = 20 \<and> 0 \<le> chainId a \<and> chainId a < 2 ^ 32"

definition l2_actor_ok :: "l2_actor \<Rightarrow> bool" where
  "l2_actor_ok a \<longleftrightarrow> length (aa_buffer (l2_recipient a)) = 32 \<and> be_val (aa_buffer (l2_recipient a)) \<le> AztecAddress_MAX_VALUE \<and>
     0 \<le> version a \<and> version a < 2 ^ 32"

definition message_ok :: "l1_to_l2_message \<Rightarrow> bool" where
  "message_ok m \<longleftrightarrow> l1_actor_ok (msg_sender m) \<and> l2_actor_ok (msg_recipient m) \<and> fr_ok (content m) \<and> fr_ok (secretHash m) \<and>
     0 \<le> deadline m \<and> deadline m < 2 ^ 32 \<and> 0 \<le> fee m \<and> fee m < 2 ^ 32"

interpretation l1_actor_codec: reader_codec L1Actor_toBuffer L1Actor_fromBuffer l1_actor_ok
proof (unfold_locales, goal_cases)
  case (1 a)
  then show ?case by (simp add: L1Actor_toBuffer_def l1_actor_ok_def serializeToBuffer_def cj_numToUInt32BE_4)
next
  case (2 a bs)
  let ?e = "EthAddress_toBuffer32 (l1_sender a)" and ?n = "chainId a"
  have len: "length (ea_buffer (l1_sender a)) = 20" using 2 by (simp add: l1_actor_ok_def)
  have bs: "bs = ?e @ [] @ be_bytes 4 ?n @ []"
    using 2 by (simp add: L1Actor_toBuffer_def l1_actor_ok_def serializeToBuffer_def cj_numToUInt32BE_4)
  have e: "length ?e = 32" "new_EthAddress ?e = Inr (l1_sender a)"
    using len by (simp_all add: EthAddress_toBuffer32_def new_EthAddress_def subarray_def)
  have l: "reads (jlift (new_EthAddress ?e)) [] (l1_sender a)" using e(2) by (simp add: reads_def)
  have "reads L1Actor_fromBuffer (?e @ [] @ be_bytes 4 ?n @ []) \<lparr>l1_sender = l1_sender a, chainId = ?n\<rparr>"
    unfolding L1Actor_fromBuffer_def
    by (intro reads_bind[where x = ?e] reads_bind[where x = "l1_sender a"] reads_bind[where x = ?n] reads_return reads_number reads_bytes e l)
      (use 2 in \<open>simp_all add: l1_actor_ok_def\<close>)
  then show ?case unfolding bs by (cases a) simp
qed

interpretation l2_actor_codec: reader_codec L2Actor_toBuffer L2Actor_fromBuffer l2_actor_ok
proof (unfold_locales, goal_cases)
  case (1 a)
  then show ?case by (simp add: L2Actor_toBuffer_def l2_actor_ok_def serializeToBuffer_def cj_numToUInt32BE_4)
next
  case (2 a bs)
  let ?r = "aa_buffer (l2_recipient a)" and ?n = "version a"
  have bs: "bs = ?r @ be_bytes 4 ?n @ []"
    using 2 by (simp add: L2Actor_toBuffer_def l2_actor_ok_def serializeToBuffer_def cj_numToUInt32BE_4 AztecAddress_toBuffer_def)
  have r: "reads AztecAddress_fromBuffer ?r (l2_recipient a)"
    using address_codec.from_to[of "l2_recipient a"] 2 by (simp add: l2_actor_ok_def AztecAddress_toBuffer_def)
  have "reads L2Actor_fromBuffer (?r @ be_bytes 4 ?n @ []) \<lparr>l2_recipient = l2_recipient a, version = ?n\<rparr>"
    unfolding L2Actor_fromBuffer_def
    by (intro reads_bind[where x = "l2_recipient a"] reads_bind[where x = ?n] reads_return reads_number r)
      (use 2 in \<open>simp_all add: l2_actor_ok_def\<close>)
  then show ?case unfolding bs by (cases a) simp
qed

lemma encodes_end_return: "encodes_end [] (jreturn x) x"
  by (auto simp: encodes_end_def reads_end_def jreturn_def)

text \<open>A message whose numbers fit their encodings is read back, except for its entry key, which is not encoded.\<close>

theorem l1_message_roundtrip:
  assumes "message_ok m"
  shows "\<exists>bs. L1ToL2Message_toBuffer m = Inr bs \<and> fst (L1ToL2Message_fromBuffer (new_BufferReader bs 0)) = Inr (m\<lparr>entryKey := None\<rparr>)"
proof -
  have m: "\<lparr>msg_sender = msg_sender m, msg_recipient = msg_recipient m, content = content m,
      secretHash = secretHash m, deadline = deadline m, fee = fee m, entryKey = None\<rparr> = m\<lparr>entryKey := None\<rparr>" by (cases m) simp
  have "encodes_end [BObject (L1Actor_toBuffer (msg_sender m)), BObject (L2Actor_toBuffer (msg_recipient m)),
       BObject (Fr_toBuffer (content m)), BObject (Fr_toBuffer (secretHash m)), BNumber (deadline m), BNumber (fee m)]
     L1ToL2Message_fromBuffer (m\<lparr>entryKey := None\<rparr>)"
    unfolding L1ToL2Message_fromBuffer_def readObject_def m[symmetric]
    by (intro l1_actor_codec.object_end l2_actor_codec.object_end fr32.object_end encodes_end_number encodes_end_return)
      (use assms in \<open>simp_all add: message_ok_def\<close>)
  then obtain bs where bs: "L1ToL2Message_toBuffer m = Inr bs" "reads_end L1ToL2Message_fromBuffer bs (m\<lparr>entryKey := None\<rparr>)"
    unfolding encodes_end_def by (elim exE conjE) (rule that, simp_all only: L1ToL2Message_toBuffer_def)
  show ?thesis using reads_end_whole[OF bs(2)] bs(1) by (intro exI conjI)
qed

theorem l1_message_roundtrip_witness:
  "\<exists>bs. L1ToL2Message_toBuffer L1ToL2Message_empty = Inr bs \<and>
    fst (L1ToL2Message_fromBuffer (new_BufferReader bs 0)) = Inr L1ToL2Message_empty"
proof -
  have z: "be_val (replicate 32 0) \<le> AztecAddress_MAX_VALUE" by code_simp
  have ok: "message_ok L1ToL2Message_empty"
    using z by (simp add: message_ok_def L1ToL2Message_empty_def l1_actor_ok_def l2_actor_ok_def L1Actor_empty_def L2Actor_empty_def
        EthAddress_ZERO_def AztecAddress_ZERO_def fr_ok_def Fr_ZERO_def new_Fr_def)
  show ?thesis using l1_message_roundtrip[OF ok] by (simp add: L1ToL2Message_empty_def)
qed

section \<open>The stores as multisets\<close>

definition store_ok :: "message_store \<Rightarrow> bool" where
  "store_ok s \<longleftrightarrow> distinct (map fst s) \<and> (\<forall>(k, mc) \<in> set s. 1 \<le> mc_count mc)"

text \<open>The messages of the pending store are there, under their entry keys.\<close>

definition pending_ok :: "message_store \<Rightarrow> bool" where
  "pending_ok s \<longleftrightarrow> store_ok s \<and> (\<forall>(k, mc) \<in> set s. \<exists>m key. mc_message mc = Some m \<and> entryKey m = Some key \<and> fr_value key = k)"

definition keys_mset :: "message_store \<Rightarrow> int multiset" where
  "keys_mset s = (\<Sum>(k, mc)\<leftarrow>s. replicate_mset (mc_count mc) k)"

lemma keys_mset_simps [simp]:
  "keys_mset [] = {#}"
  "keys_mset ((k, mc) # s) = replicate_mset (mc_count mc) k + keys_mset s"
  by (simp_all add: keys_mset_def)

lemma count_keys:
  "distinct (map fst s) \<Longrightarrow> count (keys_mset s) k = (case map_of s k of None \<Rightarrow> 0 | Some mc \<Rightarrow> mc_count mc)"
proof (induction s)
  case (Cons p s)
  obtain a mc where p: "p = (a, mc)" by (cases p)
  have "map_of s a = None" using Cons.prems by (simp add: p map_of_eq_None_iff)
  then show ?case using Cons by (cases "k = a") (simp_all add: p del: map_of_eq_Some_iff)
qed simp

lemma store_entry: "store_ok s \<Longrightarrow> map_of s k = Some mc \<Longrightarrow> 1 \<le> mc_count mc"
  by (auto simp: store_ok_def dest: map_of_SomeD)

lemma store_okI:
  assumes "distinct (map fst s)" and "\<And>k mc. map_of s k = Some mc \<Longrightarrow> 1 \<le> mc_count mc"
  shows "store_ok s"
  using assms by (auto simp: store_ok_def)

lemma keys_member: "store_ok s \<Longrightarrow> k \<in># keys_mset s \<longleftrightarrow> map_of s k \<noteq> None"
  using count_keys[of s k] store_entry[of s k]
  by (cases "map_of s k") (simp_all add: store_ok_def count_greater_zero_iff[symmetric] del: map_of_eq_Some_iff count_greater_zero_iff)

lemma map_of_addMessage:
  "map_of (addMessage key m s) = (map_of s)(fr_value key \<mapsto> (case map_of s (fr_value key) of
     None \<Rightarrow> \<lparr>mc_message = m, mc_count = 1\<rparr> | Some mc \<Rightarrow> mc\<lparr>mc_count := mc_count mc + 1\<rparr>))"
  by (auto simp: addMessage_def update_conv' split: option.splits)

lemma addMessage_ok:
  assumes "store_ok s"
  shows "store_ok (addMessage key m s)" "keys_mset (addMessage key m s) = add_mset (fr_value key) (keys_mset s)"
proof -
  have d: "distinct (map fst (addMessage key m s))"
    using assms by (auto simp: addMessage_def store_ok_def intro: distinct_update split: option.splits)
  show "store_ok (addMessage key m s)"
    by (rule store_okI[OF d]) (use store_entry[OF assms] in \<open>auto simp: map_of_addMessage split: if_splits option.splits\<close>)
  show "keys_mset (addMessage key m s) = add_mset (fr_value key) (keys_mset s)"
    using assms
    by (intro multiset_eqI) (auto simp: count_keys[OF d] count_keys map_of_addMessage store_ok_def simp del: map_of_eq_Some_iff split: option.splits)
qed

lemma removeMessage_ok:
  assumes ok: "store_ok s" and k: "fr_value key \<noteq> 0" "fr_value key \<in># keys_mset s"
  shows "\<exists>s'. removeMessage key s = (Inr (), s') \<and> store_ok s' \<and> keys_mset s' = keys_mset s - {#fr_value key#} \<and>
    (\<forall>k mc'. map_of s' k = Some mc' \<longrightarrow> (\<exists>mc. map_of s k = Some mc \<and> mc_message mc' = mc_message mc))"
proof -
  obtain mc where mc: "map_of s (fr_value key) = Some mc" using keys_member[OF ok] k(2) by blast
  define s' where "s' = (if mc_count mc > 1 then AList.update (fr_value key) (mc\<lparr>mc_count := mc_count mc - 1\<rparr>) s else AList.delete (fr_value key) s)"
  have run: "removeMessage key s = (Inr (), s')" using k(1) mc by (simp add: removeMessage_def s'_def Fr_ZERO_def new_Fr_def)
  have d: "distinct (map fst s')" using ok by (auto simp: s'_def store_ok_def intro: distinct_update distinct_delete)
  have m: "map_of s' = (map_of s)(fr_value key := if mc_count mc > 1 then Some (mc\<lparr>mc_count := mc_count mc - 1\<rparr>) else None)"
    by (auto simp: s'_def update_conv' delete_conv')
  have "store_ok s'" by (rule store_okI[OF d]) (use store_entry[OF ok] in \<open>auto simp: m split: if_splits\<close>)
  moreover have "keys_mset s' = keys_mset s - {#fr_value key#}"
    using ok mc store_entry[OF ok mc]
    by (intro multiset_eqI) (auto simp: count_keys[OF d] count_keys m store_ok_def simp del: map_of_eq_Some_iff split: option.splits)
  ultimately show ?thesis using run mc by (auto simp: m split: if_splits)
qed

lemma removeMessage_pending:
  assumes ok: "pending_ok s" and k: "fr_value key \<noteq> 0" "fr_value key \<in># keys_mset s"
  shows "\<exists>s'. removeMessage key s = (Inr (), s') \<and> pending_ok s' \<and> keys_mset s' = keys_mset s - {#fr_value key#}"
proof -
  obtain s' where s': "removeMessage key s = (Inr (), s')" "store_ok s'" "keys_mset s' = keys_mset s - {#fr_value key#}"
    "\<forall>k mc'. map_of s' k = Some mc' \<longrightarrow> (\<exists>mc. map_of s k = Some mc \<and> mc_message mc' = mc_message mc)"
    using removeMessage_ok[OF _ k] ok by (auto simp: pending_ok_def)
  have "\<exists>m key. mc_message mc' = Some m \<and> entryKey m = Some key \<and> fr_value key = k" if "(k, mc') \<in> set s'" for k mc'
  proof -
    have "map_of s' k = Some mc'" using s'(2) that by (simp add: store_ok_def)
    then obtain mc where "map_of s k = Some mc" "mc_message mc' = mc_message mc" using s'(4) by blast
    then show ?thesis using ok map_of_SomeD[of s k mc] by (auto simp: pending_ok_def)
  qed
  then show ?thesis using s'(1-3) by (auto simp: pending_ok_def)
qed

lemma removeMessage_error:
  assumes "store_ok s" and "fr_value key \<noteq> 0" and "fr_value key \<notin># keys_mset s"
  shows "removeMessage key s = (Inl (Error (''Message with key '' @ dec (fr_value key) @ '' not found in store'')), s)"
  using assms keys_member[OF assms(1)] by (simp add: removeMessage_def Fr_ZERO_def new_Fr_def)

section \<open>Keys by fee\<close>

lemma push_copies_take:
  "length acc < tk \<Longrightarrow> push_copies tk key n acc =
    (if tk \<le> length acc + n then (True, acc @ replicate (tk - length acc) key) else (False, acc @ replicate n key))"
proof (induction n arbitrary: acc)
  case (Suc n)
  show ?case
  proof (cases "Suc (length acc) = tk")
    case True
    then have "tk - length acc = 1" by simp
    then show ?thesis using True by simp
  next
    case False
    then have "tk - length acc = Suc (tk - Suc (length acc))" using Suc.prems by simp
    then show ?thesis using Suc.IH[of "acc @ [key]"] Suc.prems False by (simp add: replicate_append_same[symmetric] Let_def)
  qed
qed simp

lemma push_messages_take:
  "length acc < tk \<Longrightarrow> push_messages tk xs acc = take tk (acc @ concat (map (\<lambda>(k, n). replicate n k) xs))"
proof (induction xs arbitrary: acc)
  case (Cons x xs)
  obtain k n where x: "x = (k, n)" by (cases x)
  show ?case
  proof (cases "tk \<le> length acc + n")
    case True
    then have "min (tk - length acc) n = tk - length acc" by simp
    then show ?thesis using Cons.prems True by (simp add: x push_copies_take take_replicate)
  next
    case False
    then show ?thesis using Cons.IH[of "acc @ replicate n k"] Cons.prems by (simp add: x push_copies_take)
  qed
qed simp

definition key_fee :: "message_store \<Rightarrow> fr \<Rightarrow> int" where
  "key_fee s key = (case getMessage key s of None \<Rightarrow> 0 | Some m \<Rightarrow> fee m)"

definition store_values :: "message_store \<Rightarrow> (l1_to_l2_message \<times> nat) list" where
  "store_values s = map (\<lambda>(k, mc). (the (mc_message mc), mc_count mc)) s"

definition by_fee :: "message_store \<Rightarrow> fr list" where
  "by_fee s = concat (map (\<lambda>(m, n). replicate n (the (entryKey m))) (sort_key (\<lambda>(m, n). - fee m) (store_values s)))"

lemma store_values_entry:
  assumes "pending_ok s" and "(m, n) \<in> set (store_values s)"
  shows "\<exists>key. entryKey m = Some key \<and> getMessage key s = Some m"
proof -
  obtain k mc where mc: "(k, mc) \<in> set s" "m = the (mc_message mc)" using assms(2) by (auto simp: store_values_def)
  then obtain key where key: "mc_message mc = Some m" "entryKey m = Some key" "fr_value key = k"
    using assms(1) by (fastforce simp: pending_ok_def)
  have "map_of s k = Some mc" using assms(1) mc(1) by (simp add: pending_ok_def store_ok_def)
  then show ?thesis using key by (simp add: getMessage_def)
qed

lemma getMessageKeys_take:
  assumes "pending_ok s" and "1 \<le> tk"
  shows "getMessageKeys tk s = Inr (map Some (take (nat tk) (by_fee s)))"
proof -
  let ?vs = "sort_key (\<lambda>(m, n). - fee m) (store_values s)"
  have vs: "rtraverse (\<lambda>(k, mc). case mc_message mc of None \<Rightarrow> Inl TypeError | Some m \<Rightarrow> Inr (m, mc_count mc)) s = Inr (store_values s)"
    unfolding store_values_def by (rule rtraverse_map) (use assms(1) in \<open>force simp: pending_ok_def\<close>)
  have keys: "map (\<lambda>(m, n). (entryKey m, n)) ?vs = map (\<lambda>(m, n). (Some (the (entryKey m)), n)) ?vs"
    using store_values_entry[OF assms(1)] by (intro map_cong) (auto, fastforce)
  have some: "concat (map (\<lambda>(k, n). replicate n k) (map (\<lambda>(m, n). (Some (the (entryKey m)), n)) xs)) =
      map Some (concat (map (\<lambda>(m, n). replicate n (the (entryKey m))) xs))" for xs :: "(l1_to_l2_message \<times> nat) list"
    by (induction xs) auto
  have "length ([] :: fr option list) < nat tk" using assms(2) by simp
  from push_messages_take[OF this] have "push_messages (nat tk) (map (\<lambda>(m, n). (entryKey m, n)) ?vs) [] = map Some (take (nat tk) (by_fee s))"
    by (simp only: keys some by_fee_def append_Nil take_map)
  then show ?thesis using assms(2) vs by (simp add: getMessageKeys_def)
qed

lemma mset_concat_replicate: "mset (concat (map (\<lambda>(m, n). replicate n (f m)) xs)) = (\<Sum>(m, n)\<in>#mset xs. replicate_mset n (f m))"
  by (induction xs) auto

lemma mset_by_fee:
  assumes "pending_ok s"
  shows "mset (map fr_value (by_fee s)) = keys_mset s"
proof -
  have "map fr_value (by_fee s) = concat (map (\<lambda>(m, n). replicate n (fr_value (the (entryKey m)))) (sort_key (\<lambda>(m, n). - fee m) (store_values s)))"
    by (simp add: by_fee_def map_concat comp_def case_prod_unfold)
  then have "mset (map fr_value (by_fee s)) = (\<Sum>(m, n)\<in>#mset (store_values s). replicate_mset n (fr_value (the (entryKey m))))"
    by (simp add: mset_concat_replicate)
  also have "\<dots> = (\<Sum>(k, mc)\<leftarrow>s. replicate_mset (mc_count mc) (fr_value (the (entryKey (the (mc_message mc))))))"
    unfolding store_values_def by (induction s) auto
  also have "\<dots> = keys_mset s"
    unfolding keys_mset_def using assms
    by (intro arg_cong[of _ _ sum_list] map_cong refl) (fastforce simp: pending_ok_def)
  finally show ?thesis .
qed

lemma sorted_by_fee:
  assumes "pending_ok s"
  shows "sorted_wrt (\<lambda>a b. key_fee s b \<le> key_fee s a) (by_fee s)"
proof -
  have "sorted_wrt (\<lambda>a b. key_fee s b \<le> key_fee s a) (concat (map (\<lambda>(m, n). replicate n (the (entryKey m))) xs))"
    if "sorted (map (\<lambda>(m, n). - fee m) xs)" and "set xs \<subseteq> set (store_values s)" for xs
    using that
  proof (induction xs)
    case (Cons x xs)
    obtain m n where x: "x = (m, n)" by (cases x)
    have kf: "key_fee s (the (entryKey m)) = fee m" if "(m, n) \<in> set (store_values s)" for m n
      using store_values_entry[OF assms that] by (auto simp: key_fee_def)
    have "sorted_wrt (\<lambda>a b. key_fee s b \<le> key_fee s a) (replicate n (the (entryKey m)))" by (induction n) auto
    moreover have "sorted_wrt (\<lambda>a b. key_fee s b \<le> key_fee s a) (concat (map (\<lambda>(m, n). replicate n (the (entryKey m))) xs))"
      using Cons by simp
    moreover have "key_fee s b \<le> fee m" if b: "b \<in> set (concat (map (\<lambda>(m, n). replicate n (the (entryKey m))) xs))" for b
    proof -
      obtain m' n' where m': "(m', n') \<in> set xs" "b = the (entryKey m')" using b by auto
      have "key_fee s b = fee m'" using kf[of m' n'] Cons.prems(2) m' by auto
      moreover have "fee m' \<le> fee m" using Cons.prems(1) m'(1) by (auto simp: x)
      ultimately show ?thesis by simp
    qed
    moreover have "key_fee s (the (entryKey m)) = fee m" using kf[of m n] Cons.prems(2) by (simp add: x)
    ultimately show ?case unfolding x list.map concat.simps prod.case sorted_wrt_append by simp
  qed simp
  then show ?thesis by (simp add: by_fee_def)
qed

text \<open>C21. \<open>getMessageKeys(take)\<close> of the pending store returns the \<open>take\<close> keys of highest fee, every key as often as the message was
  seen: all keys of the store can be listed by falling fee, with the result as the first \<open>take\<close> of them.\<close>

theorem pending_keys_by_fee:
  assumes "pending_ok s" and "1 \<le> tk"
  shows "\<exists>ks rest. getMessageKeys tk s = Inr (map Some ks) \<and> length ks = min (nat tk) (size (keys_mset s)) \<and>
    mset (map fr_value (ks @ rest)) = keys_mset s \<and> sorted_wrt (\<lambda>a b. key_fee s b \<le> key_fee s a) (ks @ rest)"
proof (intro exI conjI)
  let ?ks = "take (nat tk) (by_fee s)" and ?rest = "drop (nat tk) (by_fee s)"
  show "getMessageKeys tk s = Inr (map Some ?ks)" by (rule getMessageKeys_take[OF assms])
  show "mset (map fr_value (?ks @ ?rest)) = keys_mset s" using mset_by_fee[OF assms(1)] by simp
  show "sorted_wrt (\<lambda>a b. key_fee s b \<le> key_fee s a) (?ks @ ?rest)" using sorted_by_fee[OF assms(1)] by simp
  show "length ?ks = min (nat tk) (size (keys_mset s))"
    using arg_cong[OF mset_by_fee[OF assms(1)], of size] by (simp add: min.commute)
qed

definition demo_message :: "int \<Rightarrow> int \<Rightarrow> l1_to_l2_message" where
  "demo_message k f = L1ToL2Message_empty\<lparr>fee := f, entryKey := Some (new_Fr k)\<rparr>"

lemma pending_ok_empty: "pending_ok []"
  by (simp add: pending_ok_def store_ok_def)

lemma addMessage_pending:
  assumes "pending_ok s" and "entryKey m = Some key"
  shows "pending_ok (addMessage key (Some m) s)"
proof -
  have ok: "store_ok (addMessage key (Some m) s)" using assms(1) addMessage_ok(1) by (simp add: pending_ok_def)
  have "\<exists>m key. mc_message mc = Some m \<and> entryKey m = Some key \<and> fr_value key = k"
    if "(k, mc) \<in> set (addMessage key (Some m) s)" for k mc
  proof -
    have e: "map_of (addMessage key (Some m) s) k = Some mc" using ok that by (simp add: store_ok_def)
    have old: "\<exists>m key. mc_message mc = Some m \<and> entryKey m = Some key \<and> fr_value key = k" if "map_of s k = Some mc" for k mc
      using assms(1) map_of_SomeD[OF that] by (auto simp: pending_ok_def)
    show ?thesis
    proof (cases "map_of s (fr_value key)")
      case None
      then show ?thesis using e old assms(2) by (auto simp: map_of_addMessage split: if_splits)
    next
      case (Some mc0)
      then show ?thesis using e old[of k mc] old[OF Some] by (auto simp: map_of_addMessage split: if_splits)
    qed
  qed
  then show ?thesis using ok by (auto simp: pending_ok_def)
qed

theorem pending_keys_by_fee_witness:
  "\<exists>ks. getMessageKeys 2 (addMessage (new_Fr 5) (Some (demo_message 5 9)) (addMessage (new_Fr 4) (Some (demo_message 4 3)) [])) =
    Inr (map Some ks) \<and> length ks = 2"
proof -
  have ok: "pending_ok (addMessage (new_Fr 5) (Some (demo_message 5 9)) (addMessage (new_Fr 4) (Some (demo_message 4 3)) []))"
    by (intro addMessage_pending pending_ok_empty) (simp_all add: demo_message_def)
  show ?thesis using pending_keys_by_fee[OF ok, of 2] by (auto simp: addMessage_ok pending_ok_empty[unfolded pending_ok_def])
qed

text \<open>C22. The pending store refines a multiset of keys: adding a message adds its key once; removing a key takes one occurrence away,
  except for the key zero, which is ignored; removing a key that is not there fails and changes nothing.\<close>

theorem pending_store_refines:
  assumes "pending_ok s"
  shows "(entryKey m = Some key \<longrightarrow> pending_ok (addMessage key (Some m) s) \<and>
      keys_mset (addMessage key (Some m) s) = add_mset (fr_value key) (keys_mset s)) \<and>
    (fr_value key = 0 \<longrightarrow> removeMessage key s = (Inr (), s)) \<and>
    (fr_value key \<noteq> 0 \<and> fr_value key \<in># keys_mset s \<longrightarrow> (\<exists>s'. removeMessage key s = (Inr (), s') \<and> pending_ok s' \<and>
      keys_mset s' = keys_mset s - {#fr_value key#})) \<and>
    (fr_value key \<noteq> 0 \<and> fr_value key \<notin># keys_mset s \<longrightarrow>
      removeMessage key s = (Inl (Error (''Message with key '' @ dec (fr_value key) @ '' not found in store'')), s))"
proof (intro conjI impI)
  have ok: "store_ok s" using assms by (simp add: pending_ok_def)
  show "pending_ok (addMessage key (Some m) s)" if "entryKey m = Some key" by (rule addMessage_pending[OF assms that])
  show "keys_mset (addMessage key (Some m) s) = add_mset (fr_value key) (keys_mset s)" by (rule addMessage_ok(2)[OF ok])
  show "removeMessage key s = (Inr (), s)" if "fr_value key = 0" using that by (simp add: removeMessage_def Fr_ZERO_def new_Fr_def)
  show "removeMessage key s = (Inl (Error (''Message with key '' @ dec (fr_value key) @ '' not found in store'')), s)"
    if "fr_value key \<noteq> 0 \<and> fr_value key \<notin># keys_mset s" using removeMessage_error[OF ok] that by blast
  show "\<exists>s'. removeMessage key s = (Inr (), s') \<and> pending_ok s' \<and> keys_mset s' = keys_mset s - {#fr_value key#}"
    if "fr_value key \<noteq> 0 \<and> fr_value key \<in># keys_mset s"
    using removeMessage_pending[OF assms] that by blast
qed

theorem pending_store_refines_witness:
  "\<exists>s'. removeMessage (new_Fr 5) (addMessage (new_Fr 5) (Some (demo_message 5 9)) []) = (Inr (), s') \<and> keys_mset s' = {#}"
proof -
  have ok: "pending_ok (addMessage (new_Fr 5) (Some (demo_message 5 9)) [])"
    by (intro addMessage_pending pending_ok_empty) (simp add: demo_message_def)
  have "keys_mset (addMessage (new_Fr 5) (Some (demo_message 5 9)) []) = {#5#}"
    using pending_store_refines[OF pending_ok_empty, of "demo_message 5 9" "new_Fr 5"] by (simp add: demo_message_def new_Fr_def)
  then show ?thesis using pending_store_refines[OF ok, of _ "new_Fr 5"] by (auto simp: new_Fr_def)
qed

end
