(* ===== verification/Archiver.thy ===== *)
theory Archiver
  imports L1Messages IndexedTree BlockDownloader
begin

text \<open>
  The archiver, which follows the rollup contract on the base chain: \<^verbatim>\<open>archiver/src/archiver/archiver_store.ts\<close> (its memory store),
  \<^verbatim>\<open>eth_log_handlers.ts\<close> and \<^verbatim>\<open>data_retrieval.ts\<close> (from the logs of the base chain to blocks, messages and contracts) and \<open>sync\<close> of
  \<^verbatim>\<open>archiver.ts\<close>. The client of the base chain is a parameter: its answers to \<open>getBlockNumber\<close>, \<open>getLogs\<close> and \<open>getTransaction\<close>.
\<close>

section \<open>The store\<close>

record archiver_store =
  l2Blocks :: "l2_block list"
  encryptedLogs :: "l2_block_l2_logs option list"
  contractPublicData :: "contract_public_data list js_array"
  confirmedL1ToL2Messages :: message_store
  pendingL1ToL2Messages :: message_store

definition INITIAL_L2_BLOCK_NUM :: int where
  "INITIAL_L2_BLOCK_NUM = 1"

definition new_MemoryArchiverStore :: archiver_store where
  "new_MemoryArchiverStore = \<lparr>l2Blocks = [], encryptedLogs = [], contractPublicData = empty_array, confirmedL1ToL2Messages = [],
     pendingL1ToL2Messages = []\<rparr>"

definition addL2Blocks :: "l2_block list \<Rightarrow> archiver_store \<Rightarrow> archiver_store" where
  "addL2Blocks blocks s = s\<lparr>l2Blocks := l2Blocks s @ blocks\<rparr>"

definition addEncryptedLogs :: "l2_block_l2_logs option list \<Rightarrow> archiver_store \<Rightarrow> archiver_store" where
  "addEncryptedLogs data s = s\<lparr>encryptedLogs := encryptedLogs s @ data\<rparr>"

definition addPendingL1ToL2Messages :: "l1_to_l2_message list \<Rightarrow> (archiver_store, unit) js" where
  "addPendingL1ToL2Messages = jfor (\<lambda>msg s. case entryKey msg of
     None \<Rightarrow> (Inl TypeError, s)
   | Some key \<Rightarrow> (Inr (), s\<lparr>pendingL1ToL2Messages := addMessage key (Some msg) (pendingL1ToL2Messages s)\<rparr>))"

definition on_pending :: "(message_store, unit) js \<Rightarrow> (archiver_store, unit) js" where
  "on_pending m s = (case m (pendingL1ToL2Messages s) of (r, p) \<Rightarrow> (r, s\<lparr>pendingL1ToL2Messages := p\<rparr>))"

definition cancelPendingL1ToL2Messages :: "fr list \<Rightarrow> (archiver_store, unit) js" where
  "cancelPendingL1ToL2Messages = jfor (\<lambda>messageKey. on_pending (removeMessage messageKey))"

definition confirmL1ToL2Messages :: "fr list \<Rightarrow> (archiver_store, unit) js" where
  "confirmL1ToL2Messages = jfor (\<lambda>messageKey.
     jbind (jmodify (\<lambda>s. s\<lparr>confirmedL1ToL2Messages :=
       addMessage messageKey (getMessage messageKey (pendingL1ToL2Messages s)) (confirmedL1ToL2Messages s)\<rparr>)) (\<lambda>_.
     on_pending (removeMessage messageKey)))"

definition addL2ContractPublicData :: "contract_public_data list \<Rightarrow> int \<Rightarrow> archiver_store \<Rightarrow> archiver_store" where
  "addL2ContractPublicData data blockNum s = s\<lparr>contractPublicData := js_set (contractPublicData s) blockNum data\<rparr>"

text \<open>\<open>xs.slice(start, end)\<close>, with negative positions counted from the end.\<close>

definition js_slice :: "int \<Rightarrow> int \<Rightarrow> 'a list \<Rightarrow> 'a list" where
  "js_slice a b xs =
     (let pos = \<lambda>i. nat (if i < 0 then max 0 (int (length xs) + i) else min i (int (length xs)))
      in take (pos b - pos a) (drop (pos a) xs))"

definition store_getL2Blocks :: "int \<Rightarrow> int \<Rightarrow> archiver_store \<Rightarrow> l2_block list result" where
  "store_getL2Blocks frm tk s =
     (if frm < INITIAL_L2_BLOCK_NUM then Inl (Error (''Invalid block range '' @ dec frm))
      else if frm > int (length (l2Blocks s)) then Inr []
      else let startIndex = frm - INITIAL_L2_BLOCK_NUM; endIndex = frm + tk in Inr (js_slice startIndex endIndex (l2Blocks s)))"

definition getPendingL1ToL2MessageKeys :: "int \<Rightarrow> archiver_store \<Rightarrow> fr option list result" where
  "getPendingL1ToL2MessageKeys tk s = getMessageKeys tk (pendingL1ToL2Messages s)"

definition getConfirmedL1ToL2Message :: "fr \<Rightarrow> archiver_store \<Rightarrow> l1_to_l2_message result" where
  "getConfirmedL1ToL2Message messageKey s =
     (case getMessage messageKey (confirmedL1ToL2Messages s) of
        None \<Rightarrow> Inl (Error (''Message with key '' @ Fr_toString False messageKey @ '' not found''))
      | Some m \<Rightarrow> Inr m)"

definition getEncryptedLogs :: "int \<Rightarrow> int \<Rightarrow> archiver_store \<Rightarrow> l2_block_l2_logs option list result" where
  "getEncryptedLogs frm tk s =
     (if frm < INITIAL_L2_BLOCK_NUM then Inl (Error (''Invalid block range '' @ dec frm))
      else if frm > int (length (encryptedLogs s)) then Inr []
      else let startIndex = frm - INITIAL_L2_BLOCK_NUM; endIndex = frm + tk in Inr (js_slice startIndex endIndex (encryptedLogs s)))"

definition is_at :: "aztec_address \<Rightarrow> contract_data \<Rightarrow> bool" where
  "is_at a c = AztecAddress_equals (contractAddress c) a"

fun find_contract :: "aztec_address \<Rightarrow> contract_public_data list js_array \<Rightarrow> int list \<Rightarrow> contract_public_data option" where
  "find_contract a arr [] = None"
| "find_contract a arr (i # is) =
     (case Option.bind (slots arr i) (List.find (\<lambda>c. is_at a (contractData c))) of
        Some c \<Rightarrow> Some c | None \<Rightarrow> find_contract a arr is)"

definition getL2ContractPublicData :: "aztec_address \<Rightarrow> archiver_store \<Rightarrow> contract_public_data option" where
  "getL2ContractPublicData a s =
     find_contract a (contractPublicData s) [INITIAL_L2_BLOCK_NUM..arr_length (contractPublicData s) - 1]"

definition getL2ContractPublicDataInBlock :: "int \<Rightarrow> archiver_store \<Rightarrow> contract_public_data list" where
  "getL2ContractPublicDataInBlock blockNum s =
     (if blockNum > int (length (l2Blocks s)) then []
      else case slots (contractPublicData s) blockNum of None \<Rightarrow> [] | Some data \<Rightarrow> data)"

definition getL2ContractInfo :: "aztec_address \<Rightarrow> archiver_store \<Rightarrow> contract_data option" where
  "getL2ContractInfo a s = List.find (is_at a) (concat (map newContractData (l2Blocks s)))"

text \<open>\<open>this.l2Blocks[l2BlockNum]\<close> is \<open>undefined\<close> out of range, and its member cannot be read.\<close>

definition getL2ContractInfoInBlock :: "int \<Rightarrow> archiver_store \<Rightarrow> contract_data list result" where
  "getL2ContractInfoInBlock l2BlockNum s =
     (if l2BlockNum > int (length (l2Blocks s)) then Inr []
      else if 0 \<le> l2BlockNum \<and> l2BlockNum < int (length (l2Blocks s)) then Inr (newContractData (l2Blocks s ! nat l2BlockNum))
      else Inl TypeError)"

definition getBlockHeight :: "archiver_store \<Rightarrow> int" where
  "getBlockHeight s = (if l2Blocks s = [] then INITIAL_L2_BLOCK_NUM - 1 else blk_number (last (l2Blocks s)))"

definition getBlocksLength :: "archiver_store \<Rightarrow> int" where
  "getBlocksLength s = int (length (l2Blocks s))"

section \<open>From logs to data\<close>

record 'a l1_log =
  log_blockNumber :: int
  log_args :: 'a

record message_added =
  ma_sender :: string
  ma_senderChainId :: int
  ma_recipient :: string
  ma_recipientVersion :: int
  ma_content :: string
  ma_secretHash :: string
  ma_deadline :: int
  ma_fee :: int
  ma_entryKey :: string

definition processPendingL1ToL2MessageAddedLogs ::
  "(string \<Rightarrow> string) \<Rightarrow> message_added l1_log list \<Rightarrow> l1_to_l2_message list result" where
  "processPendingL1ToL2MessageAddedLogs keccak evs = rtraverse (\<lambda>log. let a = log_args log in
     rbind (EthAddress_fromString keccak (ma_sender a)) (\<lambda>sender.
     rbind (AztecAddress_fromString (ma_recipient a)) (\<lambda>recipient.
     rbind (Fr_fromString (ma_content a)) (\<lambda>cont.
     rbind (Fr_fromString (ma_secretHash a)) (\<lambda>hash.
     rbind (Fr_fromString (ma_entryKey a)) (\<lambda>key.
       Inr \<lparr>msg_sender = \<lparr>l1_sender = sender, chainId = js_Number (ma_senderChainId a)\<rparr>,
         msg_recipient = \<lparr>l2_recipient = recipient, version = js_Number (ma_recipientVersion a)\<rparr>, content = cont,
         secretHash = hash, deadline = ma_deadline a, fee = js_Number (ma_fee a), entryKey = Some key\<rparr>)))))) evs"

definition processCancelledL1ToL2MessagesLogs :: "string l1_log list \<Rightarrow> fr list result" where
  "processCancelledL1ToL2MessagesLogs evs = rtraverse (\<lambda>log. Fr_fromString (log_args log)) evs"

text \<open>The call that a transaction made: the name of the function and the encoded block. \<open>getTransaction\<close> and the decoding of the
  call data belong to the client library.\<close>

record rollup_call =
  functionName :: string
  l2BlockBytes :: buffer

record block_processed =
  bp_blockNum :: int
  bp_transactionHash :: string

definition getBlockFromCallData :: "(string \<Rightarrow> rollup_call result) \<Rightarrow> string \<Rightarrow> int \<Rightarrow> l2_block result" where
  "getBlockFromCallData getCall txHash l2BlockNum =
     rbind (getCall txHash) (\<lambda>call.
     if functionName call \<noteq> ''process'' then Inl (Error (''Unexpected method called '' @ functionName call))
     else rbind (fst (L2Block_decode (new_BufferReader (l2BlockBytes call) 0))) (\<lambda>block.
       if blk_number block \<noteq> l2BlockNum
       then Inl (Error (''Block number mismatch: expected '' @ dec l2BlockNum @ '' but got '' @ dec (blk_number block)))
       else Inr block))"

fun processBlockLogs :: "(string \<Rightarrow> rollup_call result) \<Rightarrow> int \<Rightarrow> block_processed l1_log list \<Rightarrow> l2_block list result" where
  "processBlockLogs getCall expectedRollupNumber [] = Inr []"
| "processBlockLogs getCall expectedRollupNumber (log # evs) =
     (let blockNum = bp_blockNum (log_args log) in
      if blockNum \<noteq> expectedRollupNumber
      then Inl (Error (''Block number mismatch. Expected: '' @ dec expectedRollupNumber @ '' but got: '' @ dec blockNum @ ''.''))
      else rbind (getBlockFromCallData getCall (bp_transactionHash (log_args log)) blockNum) (\<lambda>newBlock.
        rbind (processBlockLogs getCall (expectedRollupNumber + 1) evs) (\<lambda>retrievedBlocks. Inr (newBlock # retrievedBlocks))))"

record contract_deployment =
  cd_l2BlockNum :: int
  cd_l2BlockHash :: buffer
  cd_aztecAddress :: string
  cd_portalAddress :: string
  cd_acir :: buffer

text \<open>The result is an array with a slot per log, with holes for the logs that are skipped; \<open>if (contractPublicData[i])\<close> tests the slot of the
  log itself.\<close>

type_synonym deployed = "contract_public_data list \<times> int"

definition deployment_contract :: "(string \<Rightarrow> string) \<Rightarrow> contract_deployment \<Rightarrow> contract_public_data result" where
  "deployment_contract keccak a =
     rbind (AztecAddress_fromString (cd_aztecAddress a)) (\<lambda>addr. rbind (EthAddress_fromString keccak (cd_portalAddress a)) (\<lambda>portal.
     rbind (fst (readVector EncodedContractFunction_fromBuffer (new_BufferReader (cd_acir a) 0))) (\<lambda>fns.
       new_ContractPublicData \<lparr>contractAddress = addr, portalContractAddress = portal\<rparr> fns)))"

fun deployment_loop ::
  "(string \<Rightarrow> string) \<Rightarrow> (int \<Rightarrow> buffer option) \<Rightarrow> int \<Rightarrow> contract_deployment l1_log list \<Rightarrow> deployed js_array \<Rightarrow> deployed js_array result" where
  "deployment_loop keccak blockHashMapping i [] acc = Inr acc"
| "deployment_loop keccak blockHashMapping i (log # evs) acc =
     (let a = log_args log; l2BlockNum = js_Number (cd_l2BlockNum a) in
      if blockHashMapping l2BlockNum \<noteq> Some (cd_l2BlockHash a) then deployment_loop keccak blockHashMapping (i + 1) evs acc
      else rbind (deployment_contract keccak a) (\<lambda>c.
        deployment_loop keccak blockHashMapping (i + 1) evs
          (case slots acc i of
             Some (cs, n) \<Rightarrow> js_set acc i (cs @ [c], n)
           | None \<Rightarrow> js_set acc i ([c], l2BlockNum))))"

definition js_entries :: "'a js_array \<Rightarrow> 'a list" where
  "js_entries a = List.map_filter (slots a) [0..arr_length a - 1]"

text \<open>The entries of the array without its holes, which is what \<open>concat\<close> and \<open>forEach\<close> make of it.\<close>

definition processContractDeploymentLogs ::
  "(string \<Rightarrow> string) \<Rightarrow> (int \<Rightarrow> buffer option) \<Rightarrow> contract_deployment l1_log list \<Rightarrow> deployed list result" where
  "processContractDeploymentLogs keccak blockHashMapping evs =
     rbind (deployment_loop keccak blockHashMapping 0 evs empty_array) (\<lambda>a. Inr (js_entries a))"

section \<open>Retrieval\<close>

text \<open>\<open>do ... while\<close>: the body either throws or returns the new state and whether to go on. A loop that never ends has the result \<open>None\<close>.\<close>

partial_function (option) do_while :: "('s \<Rightarrow> ('s \<times> bool) result) \<Rightarrow> 's \<Rightarrow> 's result option" where
  "do_while body s =
     (case body s of
        Inl e \<Rightarrow> Some (Inl e)
      | Inr (s', continue) \<Rightarrow> if continue then do_while body s' else Some (Inr s'))"

text \<open>The client: the current block number and the logs from a given block on, of the four events.\<close>

record l1_client =
  getBlockNumber :: int
  messageAddedLogs :: "int \<Rightarrow> message_added l1_log list"
  messageCancelledLogs :: "int \<Rightarrow> string l1_log list"
  blockProcessedLogs :: "int \<Rightarrow> block_processed l1_log list"
  deploymentLogs :: "int \<Rightarrow> contract_deployment l1_log list"
  getCallData :: "string \<Rightarrow> rollup_call result"

text \<open>\<open>(logs.findLast(log => !!log)?.blockNumber || searchStartBlock) + 1n\<close>: a block number \<open>0n\<close> counts as missing.\<close>

definition next_search :: "'a l1_log list \<Rightarrow> int \<Rightarrow> int" where
  "next_search evs searchStartBlock =
     (if evs = [] \<or> log_blockNumber (last evs) = 0 then searchStartBlock else log_blockNumber (last evs)) + 1"

definition retrieveBlocks_body ::
  "l1_client \<Rightarrow> bool \<Rightarrow> int \<Rightarrow> int \<times> int \<times> l2_block list \<Rightarrow> ((int \<times> int \<times> l2_block list) \<times> bool) result" where
  "retrieveBlocks_body c blockUntilSynced currentBlockNumber = (\<lambda>(searchStartBlock, expected, retrievedBlocks).
     if searchStartBlock > currentBlockNumber then Inr ((searchStartBlock, expected, retrievedBlocks), False)
     else let evs = blockProcessedLogs c searchStartBlock in
       if evs = [] then Inr ((searchStartBlock, expected, retrievedBlocks), False)
       else rbind (processBlockLogs (getCallData c) expected evs) (\<lambda>newBlocks.
         let next = log_blockNumber (last evs) + 1
         in Inr ((next, expected + int (length newBlocks), retrievedBlocks @ newBlocks), blockUntilSynced \<and> next \<le> currentBlockNumber)))"

definition retrieveBlocks :: "l1_client \<Rightarrow> bool \<Rightarrow> int \<Rightarrow> int \<Rightarrow> int \<Rightarrow> (int \<times> l2_block list) result option" where
  "retrieveBlocks c blockUntilSynced currentBlockNumber searchStartBlock expectedNextRollupNumber =
     map_option (map_sum id (\<lambda>(next, _, blocks). (next, blocks)))
       (do_while (retrieveBlocks_body c blockUntilSynced currentBlockNumber) (searchStartBlock, expectedNextRollupNumber, []))"

definition retrieveNewContractData_body ::
  "(string \<Rightarrow> string) \<Rightarrow> l1_client \<Rightarrow> bool \<Rightarrow> int \<Rightarrow> (int \<Rightarrow> buffer option) \<Rightarrow> int \<times> deployed list \<Rightarrow> ((int \<times> deployed list) \<times> bool) result" where
  "retrieveNewContractData_body keccak c blockUntilSynced currentBlockNumber blockHashMapping = (\<lambda>(searchStartBlock, retrieved).
     if searchStartBlock > currentBlockNumber then Inr ((searchStartBlock, retrieved), False)
     else let evs = deploymentLogs c searchStartBlock in
       if evs = [] then Inr ((searchStartBlock, retrieved), False)
       else rbind (processContractDeploymentLogs keccak blockHashMapping evs) (\<lambda>new.
         let next = next_search evs searchStartBlock
         in Inr ((next, retrieved @ new), blockUntilSynced \<and> next \<le> currentBlockNumber)))"

definition retrieveNewContractData ::
  "(string \<Rightarrow> string) \<Rightarrow> l1_client \<Rightarrow> bool \<Rightarrow> int \<Rightarrow> int \<Rightarrow> (int \<Rightarrow> buffer option) \<Rightarrow> (int \<times> deployed list) result option" where
  "retrieveNewContractData keccak c blockUntilSynced currentBlockNumber searchStartBlock blockHashMapping =
     do_while (retrieveNewContractData_body keccak c blockUntilSynced currentBlockNumber blockHashMapping) (searchStartBlock, [])"

text \<open>The loops over the logs of messages do not stop at an empty answer.\<close>

definition retrieve_messages_body ::
  "(int \<Rightarrow> 'l l1_log list) \<Rightarrow> ('l l1_log list \<Rightarrow> 'a list result) \<Rightarrow> bool \<Rightarrow> int \<Rightarrow> int \<times> 'a list \<Rightarrow> ((int \<times> 'a list) \<times> bool) result" where
  "retrieve_messages_body getLogs process blockUntilSynced currentBlockNumber = (\<lambda>(searchStartBlock, retrieved).
     if searchStartBlock > currentBlockNumber then Inr ((searchStartBlock, retrieved), False)
     else let evs = getLogs searchStartBlock in
       rbind (process evs) (\<lambda>new.
         let next = next_search evs searchStartBlock
         in Inr ((next, retrieved @ new), blockUntilSynced \<and> next \<le> currentBlockNumber)))"

definition retrieveNewPendingL1ToL2Messages ::
  "(string \<Rightarrow> string) \<Rightarrow> l1_client \<Rightarrow> bool \<Rightarrow> int \<Rightarrow> int \<Rightarrow> (int \<times> l1_to_l2_message list) result option" where
  "retrieveNewPendingL1ToL2Messages keccak c blockUntilSynced currentBlockNumber searchStartBlock =
     do_while (retrieve_messages_body (messageAddedLogs c) (processPendingL1ToL2MessageAddedLogs keccak) blockUntilSynced currentBlockNumber)
       (searchStartBlock, [])"

definition retrieveNewCancelledL1ToL2Messages :: "l1_client \<Rightarrow> bool \<Rightarrow> int \<Rightarrow> int \<Rightarrow> (int \<times> fr list) result option" where
  "retrieveNewCancelledL1ToL2Messages c blockUntilSynced currentBlockNumber searchStartBlock =
     do_while (retrieve_messages_body (messageCancelledLogs c) processCancelledL1ToL2MessagesLogs blockUntilSynced currentBlockNumber)
       (searchStartBlock, [])"

section \<open>sync\<close>

record archiver =
  ar_store :: archiver_store
  nextL2BlockFromBlock :: int
  lastProcessedBlockNumber :: int

definition new_Archiver :: "int \<Rightarrow> archiver" where
  "new_Archiver searchStartBlock = \<lparr>ar_store = new_MemoryArchiverStore, nextL2BlockFromBlock = searchStartBlock, lastProcessedBlockNumber = 0\<rparr>"

definition oread :: "(archiver \<Rightarrow> 'a result option) \<Rightarrow> (archiver, 'a) ojs" where
  "oread f a = (case f a of None \<Rightarrow> None | Some r \<Rightarrow> Some (r, a))"

definition ostore :: "(archiver_store, unit) js \<Rightarrow> (archiver, unit) ojs" where
  "ostore m a = (case m (ar_store a) of (r, s) \<Rightarrow> Some (r, a\<lparr>ar_store := s\<rparr>))"

definition omodify :: "(archiver \<Rightarrow> archiver) \<Rightarrow> (archiver, unit) ojs" where
  "omodify f a = Some (Inr (), f a)"

text \<open>\<open>omit(block, ['newEncryptedLogs'])\<close>\<close>

definition without_logs :: "l2_block \<Rightarrow> l2_block" where
  "without_logs b = L2Block_fromFields (b\<lparr>newEncryptedLogs := None\<rparr>)"

definition block_hash_mapping :: "(buffer \<Rightarrow> buffer) \<Rightarrow> l2_block list \<Rightarrow> (int \<Rightarrow> buffer option) result" where
  "block_hash_mapping sha256 blocks =
     rbind (rtraverse (\<lambda>b. rbind (L2Block_getCalldataHash sha256 b) (\<lambda>h. Inr (blk_number b, h))) blocks) (\<lambda>hs.
       Inr (fold (\<lambda>(n, h) m. m(n := h)) hs (\<lambda>_. None)))"

text \<open>The writes once everything is retrieved.\<close>

definition store_retrieved :: "l2_block list \<Rightarrow> deployed list \<Rightarrow> (archiver_store, unit) js" where
  "store_retrieved blocks contracts =
     jbind (jmodify (addEncryptedLogs (map newEncryptedLogs blocks))) (\<lambda>_.
     jbind (jmodify (fold (\<lambda>(cs, l2BlockNum) s. if l2BlockNum \<le> blk_number (last blocks) then addL2ContractPublicData cs l2BlockNum s else s)
       contracts)) (\<lambda>_.
     jbind (confirmL1ToL2Messages (concat (map newL1ToL2Messages blocks))) (\<lambda>_.
       jmodify (addL2Blocks (map without_logs blocks)))))"

definition sync_messages :: "(string \<Rightarrow> string) \<Rightarrow> l1_client \<Rightarrow> bool \<Rightarrow> (archiver, unit) ojs" where
  "sync_messages keccak c blockUntilSynced =
     obind (oread (\<lambda>a. retrieveNewPendingL1ToL2Messages keccak c blockUntilSynced (getBlockNumber c) (lastProcessedBlockNumber a + 1))) (\<lambda>(_, pending).
     obind (oread (\<lambda>a. retrieveNewCancelledL1ToL2Messages c blockUntilSynced (getBlockNumber c) (lastProcessedBlockNumber a + 1))) (\<lambda>(_, cancelled).
     obind (ostore (addPendingL1ToL2Messages pending)) (\<lambda>_.
     obind (ostore (cancelPendingL1ToL2Messages cancelled)) (\<lambda>_.
       omodify (\<lambda>a. a\<lparr>lastProcessedBlockNumber := getBlockNumber c\<rparr>)))))"

definition sync_blocks :: "(string \<Rightarrow> string) \<Rightarrow> (buffer \<Rightarrow> buffer) \<Rightarrow> l1_client \<Rightarrow> bool \<Rightarrow> (archiver, unit) ojs" where
  "sync_blocks keccak sha256 c blockUntilSynced =
     obind (oread (\<lambda>a. retrieveBlocks c blockUntilSynced (getBlockNumber c) (nextL2BlockFromBlock a)
       (getBlocksLength (ar_store a) + INITIAL_L2_BLOCK_NUM))) (\<lambda>(next, blocks).
     obind (oread (\<lambda>a. Some (block_hash_mapping sha256 blocks))) (\<lambda>blockHashMapping.
     obind (oread (\<lambda>a. retrieveNewContractData keccak c blockUntilSynced (getBlockNumber c) (nextL2BlockFromBlock a) blockHashMapping)) (\<lambda>(_, contracts).
       if blocks = [] then omodify id
       else obind (ostore (store_retrieved blocks contracts)) (\<lambda>_. omodify (\<lambda>a. a\<lparr>nextL2BlockFromBlock := next\<rparr>)))))"

definition Archiver_sync :: "(string \<Rightarrow> string) \<Rightarrow> (buffer \<Rightarrow> buffer) \<Rightarrow> l1_client \<Rightarrow> bool \<Rightarrow> (archiver, unit) ojs" where
  "Archiver_sync keccak sha256 c blockUntilSynced a =
     (if getBlockNumber c \<le> lastProcessedBlockNumber a then Some (Inr (), a)
      else obind (sync_messages keccak c blockUntilSynced) (\<lambda>_. sync_blocks keccak sha256 c blockUntilSynced) a)"

section \<open>Reading from the archiver\<close>

text \<open>The methods of the interfaces that \<open>Archiver\<close> implements: each asks the store.\<close>

definition Archiver_getL2Blocks :: "int \<Rightarrow> int \<Rightarrow> archiver \<Rightarrow> l2_block list result" where
  "Archiver_getL2Blocks frm tk a = store_getL2Blocks frm tk (ar_store a)"

definition Archiver_getL2ContractPublicData :: "aztec_address \<Rightarrow> archiver \<Rightarrow> contract_public_data option" where
  "Archiver_getL2ContractPublicData addr a = getL2ContractPublicData addr (ar_store a)"

definition Archiver_getL2ContractPublicDataInBlock :: "int \<Rightarrow> archiver \<Rightarrow> contract_public_data list" where
  "Archiver_getL2ContractPublicDataInBlock blockNum a = getL2ContractPublicDataInBlock blockNum (ar_store a)"

definition Archiver_getL2ContractInfo :: "aztec_address \<Rightarrow> archiver \<Rightarrow> contract_data option" where
  "Archiver_getL2ContractInfo addr a = getL2ContractInfo addr (ar_store a)"

definition Archiver_getL2ContractInfoInBlock :: "int \<Rightarrow> archiver \<Rightarrow> contract_data list result" where
  "Archiver_getL2ContractInfoInBlock l2BlockNum a = getL2ContractInfoInBlock l2BlockNum (ar_store a)"

definition getPublicFunction :: "aztec_address \<Rightarrow> buffer \<Rightarrow> archiver \<Rightarrow> encoded_contract_function option" where
  "getPublicFunction addr sel a =
     Option.bind (Archiver_getL2ContractPublicData addr a) (\<lambda>c. List.find (\<lambda>fn. functionSelector fn = sel) (publicFunctions c))"

definition Archiver_getEncryptedLogs :: "int \<Rightarrow> int \<Rightarrow> archiver \<Rightarrow> l2_block_l2_logs option list result" where
  "Archiver_getEncryptedLogs frm tk a = getEncryptedLogs frm tk (ar_store a)"

definition Archiver_getBlockHeight :: "archiver \<Rightarrow> int" where
  "Archiver_getBlockHeight a = getBlockHeight (ar_store a)"

definition Archiver_getPendingL1ToL2Messages :: "int \<Rightarrow> archiver \<Rightarrow> fr option list result" where
  "Archiver_getPendingL1ToL2Messages tk a = getPendingL1ToL2MessageKeys tk (ar_store a)"

definition Archiver_getConfirmedL1ToL2Message :: "fr \<Rightarrow> archiver \<Rightarrow> l1_to_l2_message result" where
  "Archiver_getConfirmedL1ToL2Message messageKey a = getConfirmedL1ToL2Message messageKey (ar_store a)"

end
