(* ===== verification/ArchiverProperties.thy ===== *)
theory ArchiverProperties
  imports Archiver
begin

text \<open>
  Properties of the archiver: its loops end, a successful \<open>sync\<close> extends the chain of blocks and its logs, what the store answers,
  that it is a block source for the downloader, and where a \<open>sync\<close> loses or repeats data.
\<close>

section \<open>Loops\<close>

lemma do_while_terminates:
  fixes m :: "'s \<Rightarrow> nat"
  assumes "\<And>s s'. body s = Inr (s', True) \<Longrightarrow> m s' < m s"
  shows "\<exists>r. do_while body s = Some r"
proof (induction "m s" arbitrary: s rule: less_induct)
  case less
  show ?case
  proof (cases "body s")
    case (Inr p)
    obtain s' continue where p: "p = (s', continue)" by (cases p)
    show ?thesis
    proof (cases continue)
      case True
      then have "m s' < m s" using assms Inr p by simp
      then show ?thesis using less[of s'] Inr p True by (simp add: do_while.simps[of body s])
    qed (use Inr p in \<open>simp add: do_while.simps[of body s]\<close>)
  qed (simp add: do_while.simps[of body s])
qed

lemma do_while_invariant:
  assumes step: "\<And>s s' continue. P s \<Longrightarrow> body s = Inr (s', continue) \<Longrightarrow> P s'"
    and "do_while body s = Some (Inr s')" and "P s"
  shows "P s'"
proof -
  have "body s = b s \<longrightarrow> (\<forall>s. b s = body s) \<longrightarrow> P s \<longrightarrow> (\<forall>x. r = Inr x \<longrightarrow> P x)" if "do_while b s = Some r" for b s r
  proof (rule do_while.raw_induct[OF _ that])
    fix dw :: "('a \<Rightarrow> ('a \<times> bool) result) \<Rightarrow> 'a \<Rightarrow> 'a result option" and b s r
    assume IH: "\<And>b s r. dw b s = Some r \<Longrightarrow> body s = b s \<longrightarrow> (\<forall>s. b s = body s) \<longrightarrow> P s \<longrightarrow> (\<forall>x. r = Inr x \<longrightarrow> P x)"
      and eq: "(case b s of Inl e \<Rightarrow> Some (Inl e) | Inr (s', continue) \<Rightarrow> if continue then dw b s' else Some (Inr s')) = Some r"
    show "body s = b s \<longrightarrow> (\<forall>s. b s = body s) \<longrightarrow> P s \<longrightarrow> (\<forall>x. r = Inr x \<longrightarrow> P x)"
    proof (intro impI allI)
      fix x assume b: "\<forall>s. b s = body s" and P: "P s" and r: "r = Inr x"
      obtain s' continue where s': "body s = Inr (s', continue)" using eq b r by (auto split: sum.splits)
      then have "P s'" using step[OF P] by blast
      then show "P x" using IH[of b s' r] eq b s' r by (auto split: if_splits)
    qed
  qed
  then show ?thesis using assms(2,3) by blast
qed

lemma processBlockLogs_numbers:
  "processBlockLogs getCall e evs = Inr bs \<Longrightarrow> length bs = length evs \<and> map blk_number bs = [e..e + int (length bs) - 1]"
proof (induction evs arbitrary: e bs)
  case (Cons ev evs)
  obtain b bs' where bs: "bs = b # bs'" "blk_number b = e" "processBlockLogs getCall (e + 1) evs = Inr bs'"
    using Cons.prems by (auto simp: Let_def getBlockFromCallData_def split: if_splits)
  then show ?case using Cons.IH[OF bs(3)] by (simp add: upto_rec1[of e])
qed simp

text \<open>The documented behaviour of \<open>getLogs({ fromBlock })\<close>: no log of an earlier block.\<close>

definition client_ok :: "l1_client \<Rightarrow> bool" where
  "client_ok c \<longleftrightarrow> (\<forall>f. \<forall>l \<in> set (blockProcessedLogs c f). f \<le> log_blockNumber l) \<and>
     (\<forall>f. \<forall>l \<in> set (messageAddedLogs c f). f \<le> log_blockNumber l) \<and>
     (\<forall>f. \<forall>l \<in> set (messageCancelledLogs c f). f \<le> log_blockNumber l) \<and>
     (\<forall>f. \<forall>l \<in> set (deploymentLogs c f). f \<le> log_blockNumber l)"

lemma next_search_increases: "\<forall>l \<in> set evs. f \<le> log_blockNumber l \<Longrightarrow> f < next_search evs f"
  using last_in_set[of evs] by (auto simp: next_search_def)

lemma retrieve_messages_terminates:
  assumes "\<And>f. \<forall>l \<in> set (getLogs f). f \<le> log_blockNumber l"
  shows "\<exists>r. do_while (retrieve_messages_body getLogs process b current) s = Some r"
proof (rule do_while_terminates[where m = "\<lambda>(f, _). nat (current + 1 - f)"], goal_cases)
  case (1 s s')
  then show ?case using next_search_increases[OF assms]
    by (auto simp: retrieve_messages_body_def Let_def split: prod.splits if_splits)
qed

lemma retrieveBlocks_terminates:
  assumes "client_ok c"
  shows "\<exists>r. retrieveBlocks c b current start e = Some r"
proof -
  have "\<exists>r. do_while (retrieveBlocks_body c b current) s = Some r" for s
  proof (rule do_while_terminates[where m = "\<lambda>(f, _, _). nat (current + 1 - f)"], goal_cases)
    case (1 s s')
    obtain f e bs where s: "s = (f, e, bs)" by (cases s)
    have "f < log_blockNumber (last (blockProcessedLogs c f)) + 1" if "blockProcessedLogs c f \<noteq> []"
      using assms last_in_set[OF that] by (auto simp: client_ok_def zless_add1_eq)
    then show ?case using 1 by (auto simp: s retrieveBlocks_body_def Let_def split: if_splits)
  qed
  then show ?thesis by (auto simp: retrieveBlocks_def)
qed

lemma retrieveNewContractData_terminates:
  assumes "client_ok c"
  shows "\<exists>r. retrieveNewContractData keccak c b current start m = Some r"
  unfolding retrieveNewContractData_def
proof (rule do_while_terminates[where m = "\<lambda>(f, _). nat (current + 1 - f)"], goal_cases)
  case (1 s s')
  obtain f ds where s: "s = (f, ds)" by (cases s)
  have "f < next_search (deploymentLogs c f) f" by (rule next_search_increases) (use assms in \<open>simp add: client_ok_def\<close>)
  then show ?case using 1 by (auto simp: s retrieveNewContractData_body_def Let_def split: if_splits)
qed

lemma obind_total:
  assumes "\<exists>r a'. m a = Some (r, a')" and "\<And>x a. \<exists>r a'. f x a = Some (r, a')"
  shows "\<exists>r a'. obind m f a = Some (r, a')"
  using assms by (auto simp: obind_def split: sum.splits)

lemma oread_total: "\<exists>r. f a = Some r \<Longrightarrow> \<exists>r a'. oread f a = Some (r, a')"
  by (auto simp: oread_def)

lemma ostore_total: "\<exists>r a'. ostore m a = Some (r, a')"
  by (auto simp: ostore_def split: prod.splits)

lemma omodify_total: "\<exists>r a'. omodify f a = Some (r, a')"
  by (simp add: omodify_def)

text \<open>C33. \<open>sync\<close> ends: for every client whose \<open>getLogs\<close> returns no log of a block before the one asked for, the loops that retrieve messages,
  blocks and contracts end, and with them \<open>sync\<close>, also when it blocks until it is synced.\<close>

theorem archiver_sync_terminates:
  assumes "client_ok c"
  shows "\<exists>r a'. Archiver_sync keccak sha256 c blockUntilSynced a = Some (r, a')"
proof -
  have m: "\<exists>r. retrieveNewPendingL1ToL2Messages keccak c b cur st = Some r" "\<exists>r. retrieveNewCancelledL1ToL2Messages c b cur st = Some r" for b cur st
    using assms by (auto simp: retrieveNewPendingL1ToL2Messages_def retrieveNewCancelledL1ToL2Messages_def client_ok_def
        intro!: retrieve_messages_terminates)
  have 1: "\<exists>r a'. sync_messages keccak c blockUntilSynced a = Some (r, a')" for a
    unfolding sync_messages_def split_def
    by (intro obind_total oread_total ostore_total omodify_total m)
  have 2: "\<exists>r a'. sync_blocks keccak sha256 c blockUntilSynced a = Some (r, a')" for a
    unfolding sync_blocks_def split_def
    by (intro obind_total oread_total retrieveBlocks_terminates[OF assms] retrieveNewContractData_terminates[OF assms])
      (simp_all add: obind_total ostore_total omodify_total)
  have "\<exists>r a'. obind (sync_messages keccak c blockUntilSynced) (\<lambda>_. sync_blocks keccak sha256 c blockUntilSynced) a = Some (r, a')"
    by (intro obind_total 1 2)
  then show ?thesis by (simp add: Archiver_sync_def)
qed

definition idle_client :: "int \<Rightarrow> l1_client" where
  "idle_client n = \<lparr>getBlockNumber = n, messageAddedLogs = (\<lambda>_. []), messageCancelledLogs = (\<lambda>_. []), blockProcessedLogs = (\<lambda>_. []),
     deploymentLogs = (\<lambda>_. []), getCallData = (\<lambda>_. Inl TypeError)\<rparr>"

theorem archiver_sync_terminates_witness:
  "\<exists>r a'. Archiver_sync id id (idle_client 7) True (new_Archiver 0) = Some (r, a')"
  by (rule archiver_sync_terminates) (simp add: client_ok_def idle_client_def)

section \<open>The chain of blocks\<close>

definition store_chain :: "archiver_store \<Rightarrow> bool" where
  "store_chain s \<longleftrightarrow> map blk_number (l2Blocks s) = [1..int (length (l2Blocks s))] \<and> length (encryptedLogs s) = length (l2Blocks s)"

text \<open>The jobs on messages do not touch the blocks and their logs.\<close>

abbreviation same_blocks :: "l2_block list \<Rightarrow> l2_block_l2_logs option list \<Rightarrow> archiver_store \<Rightarrow> bool" where
  "same_blocks bs ls s \<equiv> l2Blocks s = bs \<and> encryptedLogs s = ls"

lemma preserves_on_pending: "preserves (same_blocks bs ls) (on_pending m)"
  by (auto simp: preserves_def on_pending_def split: prod.splits)

lemma preserves_message_ops:
  "preserves (same_blocks bs ls) (addPendingL1ToL2Messages ms)"
  "preserves (same_blocks bs ls) (cancelPendingL1ToL2Messages ks)"
  "preserves (same_blocks bs ls) (confirmL1ToL2Messages ks)"
proof -
  show "preserves (same_blocks bs ls) (addPendingL1ToL2Messages ms)"
    unfolding addPendingL1ToL2Messages_def by (rule preserves_jfor) (auto simp: preserves_def split: option.splits)
  show "preserves (same_blocks bs ls) (cancelPendingL1ToL2Messages ks)"
    unfolding cancelPendingL1ToL2Messages_def by (intro preserves_jfor preserves_on_pending)
  show "preserves (same_blocks bs ls) (confirmL1ToL2Messages ks)"
    unfolding confirmL1ToL2Messages_def by (intro preserves_jfor preserves_jbind preserves_jmodify preserves_on_pending) simp_all
qed

lemma fold_contracts_frame:
  "l2Blocks (fold (\<lambda>(cs, n) s. if n \<le> k then addL2ContractPublicData cs n s else s) ds s) = l2Blocks s"
  "encryptedLogs (fold (\<lambda>(cs, n) s. if n \<le> k then addL2ContractPublicData cs n s else s) ds s) = encryptedLogs s"
  by (induction ds arbitrary: s) (auto simp: addL2ContractPublicData_def)

text \<open>What the writes do to blocks and logs, whether or not the confirmation of messages fails.\<close>

lemma store_retrieved_blocks:
  assumes "store_retrieved blocks contracts s = (r, s')"
  shows "encryptedLogs s' = encryptedLogs s @ map newEncryptedLogs blocks \<and>
    l2Blocks s' = l2Blocks s @ (case r of Inl e \<Rightarrow> [] | Inr _ \<Rightarrow> map without_logs blocks)"
proof -
  define s1 where "s1 = fold (\<lambda>(cs, n) s. if n \<le> blk_number (last blocks) then addL2ContractPublicData cs n s else s) contracts
    (addEncryptedLogs (map newEncryptedLogs blocks) s)"
  obtain r2 s2 where s2: "confirmL1ToL2Messages (concat (map newL1ToL2Messages blocks)) s1 = (r2, s2)" by (cases "confirmL1ToL2Messages (concat (map newL1ToL2Messages blocks)) s1")
  have b1: "same_blocks (l2Blocks s) (encryptedLogs s @ map newEncryptedLogs blocks) s1"
    by (simp add: s1_def fold_contracts_frame addEncryptedLogs_def)
  have "same_blocks (l2Blocks s) (encryptedLogs s @ map newEncryptedLogs blocks) s2"
    using preservesD[OF preserves_message_ops(3) b1, of "concat (map newL1ToL2Messages blocks)"] s2 by simp
  then show ?thesis using assms s2
    by (auto simp: store_retrieved_def jbind_def jmodify_def s1_def[symmetric] addL2Blocks_def split: sum.splits)
qed

lemma without_logs_number [simp]: "blk_number (without_logs b) = blk_number b"
  by (simp add: without_logs_def L2Block_fromFields_def new_L2Block_def)

lemma retrieveBlocks_numbers:
  assumes "retrieveBlocks c b current start e = Some (Inr (next, blocks))"
  shows "map blk_number blocks = [e..e + int (length blocks) - 1]"
proof -
  obtain n e' where run: "do_while (retrieveBlocks_body c b current) (start, e, []) = Some (Inr (n, e', blocks))"
    using assms by (cases "do_while (retrieveBlocks_body c b current) (start, e, [])") (auto simp: retrieveBlocks_def map_sum_def split: sum.splits)
  let ?P = "\<lambda>(n, e', bs). e' = e + int (length bs) \<and> map blk_number bs = [e..e' - 1]"
  have "?P (n, e', blocks)"
  proof (rule do_while_invariant[OF _ run], goal_cases)
    case (1 s s' continue)
    obtain f e1 bs where s: "s = (f, e1, bs)" by (cases s)
    have "map blk_number new = [e1..e1 + int (length new) - 1]" if "processBlockLogs (getCallData c) e1 evs = Inr new" for evs new
      using processBlockLogs_numbers[OF that] by simp
    moreover have "[e..e1 - 1] @ [e1..e1 + int k - 1] = [e..e1 + int k - 1]" if "e \<le> e1" for k
      using upto_split1[of e e1 "e1 + int k - 1"] that by (cases k) simp_all
    ultimately show ?case using 1 by (auto simp: s retrieveBlocks_body_def Let_def split: if_splits)
  qed simp
  then show ?thesis by simp
qed

text \<open>The documented behaviour of \<open>getLogs({ fromBlock })\<close> on a chain with the events \<open>evs\<close>, in the order of their blocks: those from a block on.\<close>

definition chain_events :: "l1_client \<Rightarrow> block_processed l1_log list \<Rightarrow> bool" where
  "chain_events c evs \<longleftrightarrow> sorted (map log_blockNumber evs) \<and> (\<forall>f. blockProcessedLogs c f = filter (\<lambda>l. f \<le> log_blockNumber l) evs)"

text \<open>The block that an event announces, from the call data of its transaction.\<close>

definition announces :: "l1_client \<Rightarrow> block_processed l1_log \<Rightarrow> l2_block \<Rightarrow> bool" where
  "announces c l b \<longleftrightarrow> getBlockFromCallData (getCallData c) (bp_transactionHash (log_args l)) (bp_blockNum (log_args l)) = Inr b"

lemma processBlockLogs_announces: "processBlockLogs (getCallData c) e evs = Inr bs \<Longrightarrow> list_all2 (announces c) evs bs"
  by (induction evs arbitrary: e bs) (auto simp: Let_def announces_def split: if_splits)

lemma events_seen:
  assumes "chain_events c evs" and "blockProcessedLogs c f \<noteq> []"
  shows "blockProcessedLogs c (log_blockNumber (last (blockProcessedLogs c f)) + 1) = []"
proof -
  let ?n = "log_blockNumber (last (filter (\<lambda>l. f \<le> log_blockNumber l) evs))"
  have s: "sorted (map log_blockNumber (filter (\<lambda>l. f \<le> log_blockNumber l) evs))" and ne: "filter (\<lambda>l. f \<le> log_blockNumber l) evs \<noteq> []"
    using assms by (simp_all add: chain_events_def sorted_filter)
  have "log_blockNumber l \<le> ?n" if "l \<in> set (filter (\<lambda>l. f \<le> log_blockNumber l) evs)" for l
  proof -
    obtain xs y where "filter (\<lambda>l. f \<le> log_blockNumber l) evs = xs @ [y]" using ne by (cases "filter (\<lambda>l. f \<le> log_blockNumber l) evs" rule: rev_cases) auto
    then show ?thesis using s that by (auto simp: sorted_append)
  qed
  moreover have "f \<le> ?n" using last_in_set[OF ne] by simp
  ultimately show ?thesis using assms(1) by (force simp: chain_events_def filter_empty_conv)
qed

lemma do_while_once: "body s = Inr (s', False) \<Longrightarrow> do_while body s = Some (Inr s')"
  by (simp add: do_while.simps[of body s])

lemma do_while_twice: "body s = Inr (s', b) \<Longrightarrow> body s' = Inr (s', False) \<Longrightarrow> do_while body s = Some (Inr s')"
  using do_while_once[of body s' s'] by (simp add: do_while.simps[of body s])

lemma retrieveBlocks_announced:
  assumes ev: "chain_events c evs" and run: "retrieveBlocks c b current f e = Some (Inr (next, blocks))"
  shows "list_all2 (announces c) (if current < f then [] else filter (\<lambda>l. f \<le> log_blockNumber l) evs) blocks"
proof (cases "current < f \<or> blockProcessedLogs c f = []")
  case True
  then have "retrieveBlocks_body c b current (f, e, []) = Inr ((f, e, []), False)" by (auto simp: retrieveBlocks_body_def)
  from do_while_once[of "retrieveBlocks_body c b current", OF this] show ?thesis using run ev True by (auto simp: retrieveBlocks_def chain_events_def)
next
  case False
  let ?next = "log_blockNumber (last (blockProcessedLogs c f)) + 1" and ?body = "retrieveBlocks_body c b current"
  show ?thesis
  proof (cases "processBlockLogs (getCallData c) e (blockProcessedLogs c f)")
    case (Inl err)
    then have "?body (f, e, []) = Inl err" using False by (simp add: retrieveBlocks_body_def)
    then show ?thesis using run by (simp add: retrieveBlocks_def do_while.simps[of ?body "(f, e, [])"])
  next
    case (Inr bs)
    then have "?body (f, e, []) = Inr ((?next, e + int (length bs), bs), b \<and> ?next \<le> current)"
      "?body (?next, e + int (length bs), bs) = Inr ((?next, e + int (length bs), bs), False)"
      using events_seen[OF ev] False by (simp_all add: retrieveBlocks_body_def Let_def)
    from do_while_twice[of ?body, OF this] show ?thesis using run processBlockLogs_announces[OF Inr] False ev
      by (auto simp: retrieveBlocks_def chain_events_def)
  qed
qed

lemma store_chain_extend:
  assumes "store_chain s" and "map blk_number new = [int (length (l2Blocks s)) + 1..int (length (l2Blocks s)) + int (length new)]"
    and "l2Blocks s' = l2Blocks s @ map without_logs new" and "encryptedLogs s' = encryptedLogs s @ map newEncryptedLogs new"
  shows "store_chain s'"
proof -
  let ?n = "int (length (l2Blocks s))"
  have "[1..?n] @ [?n + 1..?n + int (length new)] = [1..?n + int (length new)]"
    using upto_split1[of 1 "?n + 1" "?n + int (length new)"] by (cases new) simp_all
  then show ?thesis using assms by (simp add: store_chain_def comp_def)
qed

lemma obind_cases:
  assumes "obind m f a = Some (Inr y, a')"
  obtains x a1 where "m a = Some (Inr x, a1)" "f x a1 = Some (Inr y, a')"
  using assms by (auto simp: obind_def split: option.splits sum.splits)

lemma oread_cases: "oread f a = Some (r, a') \<longleftrightarrow> f a = Some r \<and> a' = a"
  by (auto simp: oread_def split: option.splits)

lemma sync_messages_frame:
  assumes "sync_messages keccak c b a = Some (Inr (), a')"
  shows "l2Blocks (ar_store a') = l2Blocks (ar_store a)" "encryptedLogs (ar_store a') = encryptedLogs (ar_store a)"
    "nextL2BlockFromBlock a' = nextL2BlockFromBlock a"
proof -
  obtain ms ks s1 s2 where s: "addPendingL1ToL2Messages ms (ar_store a) = (Inr (), s1)" "cancelPendingL1ToL2Messages ks s1 = (Inr (), s2)"
    "a' = a\<lparr>ar_store := s2, lastProcessedBlockNumber := getBlockNumber c\<rparr>"
    using assms unfolding sync_messages_def by (auto elim!: obind_cases simp: oread_cases ostore_def omodify_def split: prod.splits)
  have "same_blocks (l2Blocks (ar_store a)) (encryptedLogs (ar_store a)) s1"
    using preservesD[OF preserves_message_ops(1)[of "l2Blocks (ar_store a)" "encryptedLogs (ar_store a)" ms], of "ar_store a"] s(1) by simp
  from preservesD[OF preserves_message_ops(2) this, of ks] s(2,3)
  show "l2Blocks (ar_store a') = l2Blocks (ar_store a)" "encryptedLogs (ar_store a') = encryptedLogs (ar_store a)"
    "nextL2BlockFromBlock a' = nextL2BlockFromBlock a" by simp_all
qed

lemma sync_blocks_chain:
  assumes chain: "store_chain (ar_store a)" and run: "sync_blocks keccak sha256 c b a = Some (Inr (), a')"
  shows "\<exists>nxt new. retrieveBlocks c b (getBlockNumber c) (nextL2BlockFromBlock a) (getBlocksLength (ar_store a) + 1) = Some (Inr (nxt, new)) \<and>
    l2Blocks (ar_store a') = l2Blocks (ar_store a) @ map without_logs new \<and>
    encryptedLogs (ar_store a') = encryptedLogs (ar_store a) @ map newEncryptedLogs new \<and> store_chain (ar_store a')"
proof -
  let ?s = "ar_store a"
  obtain nxt blocks contracts where bl: "retrieveBlocks c b (getBlockNumber c) (nextL2BlockFromBlock a) (getBlocksLength ?s + 1) = Some (Inr (nxt, blocks))"
    "(if blocks = [] then omodify id else obind (ostore (store_retrieved blocks contracts)) (\<lambda>_. omodify (\<lambda>a. a\<lparr>nextL2BlockFromBlock := nxt\<rparr>))) a
      = Some (Inr (), a')"
    using run unfolding sync_blocks_def by (auto elim!: obind_cases simp: oread_cases INITIAL_L2_BLOCK_NUM_def)
  have nums: "map blk_number blocks = [int (length (l2Blocks ?s)) + 1..int (length (l2Blocks ?s)) + int (length blocks)]"
    using retrieveBlocks_numbers[OF bl(1)] by (simp add: getBlocksLength_def algebra_simps)
  show ?thesis
  proof (cases "blocks = []")
    case True
    then show ?thesis using bl chain by (intro exI[of _ nxt] exI[of _ "[]"]) (simp add: omodify_def)
  next
    case False
    then obtain s' where s': "store_retrieved blocks contracts ?s = (Inr (), s')" "a' = a\<lparr>ar_store := s', nextL2BlockFromBlock := nxt\<rparr>"
      using bl(2) by (auto elim!: obind_cases simp: ostore_def omodify_def split: prod.splits)
    note w = store_retrieved_blocks[OF s'(1)]
    have "store_chain s'" by (rule store_chain_extend[OF chain nums]) (use w in simp_all)
    then show ?thesis using w s'(2) bl(1) by (intro exI[of _ nxt] exI[of _ blocks]) simp
  qed
qed

text \<open>C15. A successful \<open>sync\<close> extends the chain with exactly the blocks that the base chain announces: unless the base chain has no block that is not
  processed or searched yet, every \<open>L2BlockProcessed\<close> event from the next block to search on adds, in the order of the events, the block decoded from
  the call data of its transaction; the stored blocks stay numbered from 1 on without gap, the new ones are appended behind the old ones without their
  encrypted logs, and the logs are stored under the same positions.\<close>

theorem archiver_sync_extends_chain:
  assumes "chain_events c evs" and "store_chain (ar_store a)" and "Archiver_sync keccak sha256 c blockUntilSynced a = Some (Inr (), a')"
  shows "\<exists>new. list_all2 (announces c)
      (if getBlockNumber c \<le> lastProcessedBlockNumber a \<or> getBlockNumber c < nextL2BlockFromBlock a then []
       else filter (\<lambda>l. nextL2BlockFromBlock a \<le> log_blockNumber l) evs) new \<and>
    l2Blocks (ar_store a') = l2Blocks (ar_store a) @ map without_logs new \<and>
    encryptedLogs (ar_store a') = encryptedLogs (ar_store a) @ map newEncryptedLogs new \<and> store_chain (ar_store a')"
proof (cases "getBlockNumber c \<le> lastProcessedBlockNumber a")
  case True
  then show ?thesis using assms by (intro exI[of _ "[]"]) (simp add: Archiver_sync_def)
next
  case False
  then obtain a1 where a1: "sync_messages keccak c blockUntilSynced a = Some (Inr (), a1)" "sync_blocks keccak sha256 c blockUntilSynced a1 = Some (Inr (), a')"
    using assms(3) by (auto simp: Archiver_sync_def elim!: obind_cases)
  note f = sync_messages_frame[OF a1(1)]
  have "store_chain (ar_store a1)" using assms(2) f by (simp add: store_chain_def)
  from sync_blocks_chain[OF this a1(2)] obtain nxt new where
    new: "retrieveBlocks c blockUntilSynced (getBlockNumber c) (nextL2BlockFromBlock a) (getBlocksLength (ar_store a1) + 1) = Some (Inr (nxt, new))"
    "l2Blocks (ar_store a') = l2Blocks (ar_store a) @ map without_logs new"
    "encryptedLogs (ar_store a') = encryptedLogs (ar_store a) @ map newEncryptedLogs new" "store_chain (ar_store a')"
    by (auto simp: f)
  then show ?thesis using retrieveBlocks_announced[OF assms(1) new(1)] False by (intro exI[of _ new]) (simp split: if_splits)
qed

text \<open>A client that has one block, published in block \<open>n\<close> of the base chain.\<close>

definition one_block_client :: "int \<Rightarrow> l2_block \<Rightarrow> l1_client" where
  "one_block_client n b = (idle_client n)\<lparr>
     blockProcessedLogs := (\<lambda>f. if f \<le> n then [\<lparr>log_blockNumber = n, log_args = \<lparr>bp_blockNum = blk_number b, bp_transactionHash = ''0x1''\<rparr>\<rparr>] else []),
     getCallData := (\<lambda>_. rbind (L2Block_encode b) (\<lambda>bs. Inr \<lparr>functionName = ''process'', l2BlockBytes = bs\<rparr>))\<rparr>"

lemma one_block_retrieved:
  assumes "block_ok b" and "blk_number b = e" and "f \<le> n"
  shows "retrieveBlocks (one_block_client n b) False n f e = Some (Inr (n + 1, [b]))"
proof -
  obtain bs where bs: "L2Block_encode b = Inr bs" "reads_end L2Block_decode bs b" using L2Block_encode_decode[OF assms(1)] by (elim exE conjE)
  from reads_end_whole[OF bs(2)] bs(1) assms(2,3)
  have "retrieveBlocks_body (one_block_client n b) False n (f, e, []) = Inr ((n + 1, e + 1, [b]), False)"
    by (simp add: retrieveBlocks_body_def one_block_client_def getBlockFromCallData_def)
  from do_while_once[of "retrieveBlocks_body (one_block_client n b) False n", OF this] show ?thesis by (simp add: retrieveBlocks_def)
qed

lemma idle_messages:
  "messageAddedLogs (one_block_client n b) = (\<lambda>_. [])" "messageCancelledLogs (one_block_client n b) = (\<lambda>_. [])"
  "deploymentLogs (one_block_client n b) = (\<lambda>_. [])" "getBlockNumber (one_block_client n b) = n"
  by (simp_all add: one_block_client_def idle_client_def)

lemma one_block_sync:
  assumes b: "block_ok b" "blk_number b = 1" "newL1ToL2Messages b = []" and h: "L2Block_getCalldataHash sha256 b = Inr h" and n: "1 \<le> n"
  shows "\<exists>a'. Archiver_sync keccak sha256 (one_block_client n b) False (new_Archiver 0) = Some (Inr (), a') \<and> l2Blocks (ar_store a') = [without_logs b]"
proof -
  let ?c = "one_block_client n b"
  have p: "retrieveNewPendingL1ToL2Messages keccak ?c False n 1 = Some (Inr (2, []))"
    unfolding retrieveNewPendingL1ToL2Messages_def using n
    by (intro do_while_once) (simp add: retrieve_messages_body_def idle_messages processPendingL1ToL2MessageAddedLogs_def next_search_def)
  have k: "retrieveNewCancelledL1ToL2Messages ?c False n 1 = Some (Inr (2, []))"
    unfolding retrieveNewCancelledL1ToL2Messages_def using n
    by (intro do_while_once) (simp add: retrieve_messages_body_def idle_messages processCancelledL1ToL2MessagesLogs_def next_search_def)
  have d: "retrieveNewContractData keccak ?c False n 0 m = Some (Inr (0, []))" for m
    unfolding retrieveNewContractData_def using n
    by (intro do_while_once) (simp add: retrieveNewContractData_body_def idle_messages)
  have m: "sync_messages keccak ?c False (new_Archiver 0) = Some (Inr (), (new_Archiver 0)\<lparr>lastProcessedBlockNumber := n\<rparr>)"
    by (simp add: sync_messages_def obind_def oread_def ostore_def omodify_def p k idle_messages new_Archiver_def addPendingL1ToL2Messages_def
        cancelPendingL1ToL2Messages_def jreturn_def)
  have r: "retrieveBlocks ?c False n 0 1 = Some (Inr (n + 1, [b]))" using one_block_retrieved[OF b(1,2)] n by simp
  have s: "store_retrieved [b] [] new_MemoryArchiverStore = (Inr (), addL2Blocks [without_logs b] (addEncryptedLogs [newEncryptedLogs b] new_MemoryArchiverStore))"
    using b(3) by (simp add: store_retrieved_def jbind_def jmodify_def confirmL1ToL2Messages_def jreturn_def)
  show ?thesis using n
    by (simp add: Archiver_sync_def obind_def m) (simp add: sync_blocks_def obind_def oread_def ostore_def omodify_def r d s h idle_messages new_Archiver_def
        block_hash_mapping_def getBlocksLength_def new_MemoryArchiverStore_def[THEN arg_cong, of l2Blocks] INITIAL_L2_BLOCK_NUM_def addL2Blocks_def addEncryptedLogs_def)
qed

definition first_block :: l2_block where
  "first_block = sample_block\<lparr>blk_number := 1, newL1ToL2Messages := [], newContracts := [Fr_ZERO, Fr_ZERO],
     newContractData := newContractData sample_block @ newContractData sample_block\<rparr>"

lemma first_block_ok: "block_ok first_block"
proof -
  have "fr_ok Fr_ZERO" by (simp add: fr_ok_def Fr_ZERO_def new_Fr_def)
  then show ?thesis using sample_block_ok
    by (simp add: block_ok_def body_ok_def start_ok_def end_ok_def frs_ok_def first_block_def) (simp add: sample_block_def new_L2Block_def)
qed

theorem archiver_sync_extends_chain_witness:
  "\<exists>a'. Archiver_sync id id (one_block_client 5 first_block) False (new_Archiver 0) = Some (Inr (), a') \<and> store_chain (ar_store a') \<and>
    l2Blocks (ar_store a') = [without_logs first_block]"
proof -
  obtain x where "calldata_leaf first_block 0 = Inr x"
    using calldata_leaf_total[of 0 first_block] by (auto simp: first_block_def sample_block_def new_L2Block_def)
  then have h: "L2Block_getCalldataHash id first_block = Inr (Some x)"
    by (simp add: L2Block_getCalldataHash_def first_block_def sample_block_def new_L2Block_def KERNEL_NEW_COMMITMENTS_LENGTH_def computeRoot.simps)
  have m: "blk_number first_block = 1" "newL1ToL2Messages first_block = []" by (simp_all add: first_block_def)
  obtain a' where a': "Archiver_sync id id (one_block_client 5 first_block) False (new_Archiver 0) = Some (Inr (), a')"
    "l2Blocks (ar_store a') = [without_logs first_block]"
    using one_block_sync[OF first_block_ok m h, of 5 id] by auto
  have "store_chain (ar_store (new_Archiver 0))" by (simp add: store_chain_def new_Archiver_def new_MemoryArchiverStore_def)
  moreover have "chain_events (one_block_client 5 first_block) [\<lparr>log_blockNumber = 5, log_args = \<lparr>bp_blockNum = 1, bp_transactionHash = ''0x1''\<rparr>\<rparr>]"
    by (simp add: chain_events_def one_block_client_def m(1))
  ultimately show ?thesis using archiver_sync_extends_chain[OF _ _ a'(1)] a' by blast
qed

section \<open>What a sync loses or repeats\<close>

text \<open>The logs of blocks are written before their messages are confirmed and the blocks themselves after: when a message of a block is not
  pending, the logs stay behind without their blocks.\<close>

lemma failed_store_leaves_logs:
  assumes "store_retrieved blocks contracts s = (Inl e, s')" and "length (encryptedLogs s) = length (l2Blocks s)"
  shows "l2Blocks s' = l2Blocks s \<and> length (encryptedLogs s') = length (l2Blocks s') + length blocks"
  using store_retrieved_blocks[OF assms(1)] assms(2) by simp

text \<open>Two contracts deployed in one block: one entry per log, and the last entry stored replaces the others.\<close>

lemma same_block_deployments_lost:
  assumes n: "js_Number (cd_l2BlockNum (log_args l1)) = n" "js_Number (cd_l2BlockNum (log_args l2)) = n"
    and h: "m n = Some (cd_l2BlockHash (log_args l1))" "m n = Some (cd_l2BlockHash (log_args l2))"
    and c: "deployment_contract keccak (log_args l1) = Inr c1" "deployment_contract keccak (log_args l2) = Inr c2"
  shows "processContractDeploymentLogs keccak m [l1, l2] = Inr [([c1], n), ([c2], n)] \<and>
    slots (contractPublicData (fold (\<lambda>(cs, n) s. if n \<le> k then addL2ContractPublicData cs n s else s) [([c1], n), ([c2], n)] s)) n =
      (if n \<le> k then Some [c2] else slots (contractPublicData s) n)"
proof -
  have "deployment_loop keccak m 0 [l1, l2] empty_array = Inr (js_set (js_set empty_array 0 ([c1], n)) 1 ([c2], n))"
    using assms by (simp add: Let_def js_set_def empty_array_def)
  then show ?thesis
    by (simp add: processContractDeploymentLogs_def js_entries_def js_set_def empty_array_def map_filter_simps upto_rec1 addL2ContractPublicData_def)
qed

text \<open>\<open>getLogs\<close> has no upper bound, and the next search starts behind the block number that was read before: a message of a block that
  arrives in between is added by both.\<close>

lemma sync_messages_one:
  assumes c: "messageAddedLogs c (lastProcessedBlockNumber a + 1) = [l]" "messageCancelledLogs c (lastProcessedBlockNumber a + 1) = []"
    and n: "lastProcessedBlockNumber a < getBlockNumber c"
    and m: "processPendingL1ToL2MessageAddedLogs keccak [l] = Inr [m]" "entryKey m = Some key"
  shows "sync_messages keccak c False a = Some (Inr (), a\<lparr>ar_store := (ar_store a)\<lparr>pendingL1ToL2Messages :=
    addMessage key (Some m) (pendingL1ToL2Messages (ar_store a))\<rparr>, lastProcessedBlockNumber := getBlockNumber c\<rparr>)"
proof -
  let ?f = "lastProcessedBlockNumber a + 1"
  have p: "retrieveNewPendingL1ToL2Messages keccak c False (getBlockNumber c) ?f = Some (Inr (next_search [l] ?f, [m]))"
    unfolding retrieveNewPendingL1ToL2Messages_def using n c m
    by (intro do_while_once) (simp add: retrieve_messages_body_def)
  have k: "retrieveNewCancelledL1ToL2Messages c False (getBlockNumber c) ?f = Some (Inr (next_search ([] :: string l1_log list) ?f, []))"
    unfolding retrieveNewCancelledL1ToL2Messages_def using n c
    by (intro do_while_once) (simp add: retrieve_messages_body_def processCancelledL1ToL2MessagesLogs_def)
  show ?thesis
    by (simp add: sync_messages_def obind_def oread_def ostore_def omodify_def p k addPendingL1ToL2Messages_def m jbind_def jreturn_def
        cancelPendingL1ToL2Messages_def)
qed

text \<open>A message can be counted twice: when a message is logged in the block behind the block number that \<open>sync\<close> has read, and the client
  already returns its log, this and the next \<open>sync\<close> both add it to the pending messages.\<close>

theorem late_message_counted_twice:
  assumes "messageAddedLogs c (lastProcessedBlockNumber a + 1) = [l]" and "messageCancelledLogs c (lastProcessedBlockNumber a + 1) = []"
    and "lastProcessedBlockNumber a < getBlockNumber c" and "log_blockNumber l = getBlockNumber c + 1"
    and "messageAddedLogs c' (getBlockNumber c + 1) = [l]" and "messageCancelledLogs c' (getBlockNumber c + 1) = []"
    and "getBlockNumber c' = getBlockNumber c + 1"
    and "processPendingL1ToL2MessageAddedLogs keccak [l] = Inr [m]" and "entryKey m = Some key"
    and "store_ok (pendingL1ToL2Messages (ar_store a))"
  shows "\<exists>a1 a2. sync_messages keccak c False a = Some (Inr (), a1) \<and> sync_messages keccak c' False a1 = Some (Inr (), a2) \<and>
    keys_mset (pendingL1ToL2Messages (ar_store a2)) =
      add_mset (fr_value key) (add_mset (fr_value key) (keys_mset (pendingL1ToL2Messages (ar_store a))))"
proof -
  let ?a1 = "a\<lparr>ar_store := (ar_store a)\<lparr>pendingL1ToL2Messages := addMessage key (Some m) (pendingL1ToL2Messages (ar_store a))\<rparr>,
    lastProcessedBlockNumber := getBlockNumber c\<rparr>"
  have 1: "sync_messages keccak c False a = Some (Inr (), ?a1)" using assms by (intro sync_messages_one)
  have 2: "sync_messages keccak c' False ?a1 = Some (Inr (), ?a1\<lparr>ar_store := (ar_store ?a1)\<lparr>pendingL1ToL2Messages :=
      addMessage key (Some m) (pendingL1ToL2Messages (ar_store ?a1))\<rparr>, lastProcessedBlockNumber := getBlockNumber c'\<rparr>)"
    by (rule sync_messages_one) (use assms in simp_all)
  show ?thesis using 1 2 assms(10) by (auto simp: addMessage_ok)
qed

definition late_log :: "message_added l1_log" where
  "late_log = \<lparr>log_blockNumber = 8, log_args = \<lparr>ma_sender = ''0x'' @ replicate 40 (CHR ''1''), ma_senderChainId = 1,
     ma_recipient = ''0x'' @ replicate 64 (CHR ''0''), ma_recipientVersion = 1, ma_content = ''0x'' @ replicate 64 (CHR ''0''),
     ma_secretHash = ''0x'' @ replicate 64 (CHR ''0''), ma_deadline = 9, ma_fee = 3, ma_entryKey = ''0x'' @ replicate 63 (CHR ''0'') @ ''5''\<rparr>\<rparr>"

theorem late_message_counted_twice_witness:
  "\<exists>a1 a2. sync_messages id ((idle_client 7)\<lparr>messageAddedLogs := \<lambda>_. [late_log]\<rparr>) False (new_Archiver 0) = Some (Inr (), a1) \<and>
    sync_messages id ((idle_client 8)\<lparr>messageAddedLogs := \<lambda>_. [late_log]\<rparr>) False a1 = Some (Inr (), a2) \<and>
    keys_mset (pendingL1ToL2Messages (ar_store a2)) = {#5, 5#}"
proof -
  have strs: "case EthAddress_fromString id (ma_sender (log_args late_log)) of Inr _ \<Rightarrow> True | _ \<Rightarrow> False"
    "case AztecAddress_fromString (ma_recipient (log_args late_log)) of Inr _ \<Rightarrow> True | _ \<Rightarrow> False"
    "case Fr_fromString (ma_entryKey (log_args late_log)) of Inr x \<Rightarrow> fr_value x = 5 | _ \<Rightarrow> False"
    "case Fr_fromString (ma_content (log_args late_log)) of Inr x \<Rightarrow> True | _ \<Rightarrow> False" by code_simp+
  have "ma_secretHash (log_args late_log) = ma_content (log_args late_log)" by (simp add: late_log_def)
  with strs obtain m where m: "processPendingL1ToL2MessageAddedLogs id [late_log] = Inr [m]" "entryKey m = Some \<lparr>fr_value = 5\<rparr>"
    by (auto simp: processPendingL1ToL2MessageAddedLogs_def Let_def split: sum.splits)
  show ?thesis
    using late_message_counted_twice[of "(idle_client 7)\<lparr>messageAddedLogs := \<lambda>_. [late_log]\<rparr>" "new_Archiver 0" late_log
        "(idle_client 8)\<lparr>messageAddedLogs := \<lambda>_. [late_log]\<rparr>" id m "\<lparr>fr_value = 5\<rparr>"] m
    by (simp add: idle_client_def new_Archiver_def new_MemoryArchiverStore_def late_log_def store_ok_def keys_mset_def)
qed

section \<open>Reading\<close>

lemma js_slice_nonneg:
  assumes "0 \<le> i" "i \<le> j"
  shows "js_slice i j xs = take (nat (j - i)) (drop (nat i) xs)"
proof (cases "i \<le> int (length xs)")
  case True
  then have i: "nat (min i (int (length xs))) = nat i" by simp
  have "take (nat (min j (int (length xs))) - nat i) ys = take (nat (j - i)) ys" if "length ys = length xs - nat i" for ys :: "'a list"
    using assms True that by (cases "j \<le> int (length xs)") (simp_all add: nat_diff_distrib)
  then show ?thesis using assms i by (simp add: js_slice_def Let_def)
next
  case False
  then have "length xs \<le> nat i" by linarith
  then show ?thesis using assms False by (simp add: js_slice_def Let_def)
qed

text \<open>Block \<open>k\<close> of the store.\<close>

definition store_block :: "archiver_store \<Rightarrow> int \<Rightarrow> l2_block" where
  "store_block s k = l2Blocks s ! nat (k - 1)"

lemma store_getL2Blocks_segment:
  assumes "1 \<le> f" "0 \<le> tk"
  shows "store_getL2Blocks f tk s = Inr (chain_segment (store_block s) f (max f (min (f + tk) (int (length (l2Blocks s))) + 1)))"
proof (cases "f \<le> int (length (l2Blocks s))")
  case True
  let ?n = "int (length (l2Blocks s))"
  have "take (nat (tk + 1)) (drop (nat (f - 1)) (l2Blocks s)) = map (store_block s) [f..min (f + tk) ?n]"
  proof (rule nth_equalityI)
    show "length (take (nat (tk + 1)) (drop (nat (f - 1)) (l2Blocks s))) = length (map (store_block s) [f..min (f + tk) ?n])"
      using assms True by (cases "f + tk \<le> ?n") (simp_all add: min_def, linarith+)
    fix i assume "i < length (take (nat (tk + 1)) (drop (nat (f - 1)) (l2Blocks s)))"
    then have i: "int i \<le> tk" "f + int i \<le> ?n" using assms by (simp_all, linarith+)
    then have "[f..min (f + tk) ?n] ! i = f + int i" by (intro nth_upto) simp
    moreover have "i < length [f..min (f + tk) ?n]" using i by (simp add: min_def) linarith
    moreover have "nat (f - 1) + i = nat (f + int i - 1)" using assms by simp
    ultimately show "take (nat (tk + 1)) (drop (nat (f - 1)) (l2Blocks s)) ! i = map (store_block s) [f..min (f + tk) ?n] ! i"
      using assms True i by (simp add: store_block_def)
  qed
  then show ?thesis using assms True
    by (simp add: store_getL2Blocks_def INITIAL_L2_BLOCK_NUM_def js_slice_nonneg chain_segment_def max_def)
qed (use assms in \<open>simp add: store_getL2Blocks_def INITIAL_L2_BLOCK_NUM_def chain_segment_def\<close>)

lemma store_chain_height: "store_chain s \<Longrightarrow> getBlockHeight s = int (length (l2Blocks s))"
proof (cases "l2Blocks s" rule: rev_cases)
  case (snoc bs b)
  assume "store_chain s"
  then have "map blk_number bs @ [blk_number b] = [1..int (length bs)] @ [int (length bs) + 1]"
    by (simp add: store_chain_def snoc upto_rec2[of 1 "1 + int (length bs)"] add.commute)
  then show ?thesis by (simp add: getBlockHeight_def snoc)
qed (simp add: getBlockHeight_def INITIAL_L2_BLOCK_NUM_def)

text \<open>What the archiver answers to \<open>getL2Blocks(from, take)\<close>: an error for a block number below 1, and otherwise the consecutive stored
  blocks from number \<open>from\<close> to number \<open>from + take\<close>, included, up to the block height. That is one block more than the documented
  \<open>take\<close>.\<close>

theorem archiver_get_blocks:
  assumes "store_chain (ar_store a)" and "0 \<le> tk"
  shows "(f < 1 \<longrightarrow> Archiver_getL2Blocks f tk a = Inl (Error (''Invalid block range '' @ dec f))) \<and>
    (1 \<le> f \<longrightarrow> (\<exists>bs. Archiver_getL2Blocks f tk a = Inr bs \<and> map blk_number bs = [f..min (f + tk) (Archiver_getBlockHeight a)] \<and>
      set bs \<subseteq> set (l2Blocks (ar_store a))))"
proof (intro conjI impI)
  let ?s = "ar_store a"
  let ?m = "min (f + tk) (int (length (l2Blocks ?s)))"
  assume f: "1 \<le> f"
  have blk: "blk_number (store_block ?s k) = k \<and> store_block ?s k \<in> set (l2Blocks ?s)" if "1 \<le> k" "k \<le> int (length (l2Blocks ?s))" for k
  proof -
    have k: "nat (k - 1) < length (l2Blocks ?s)" using that by linarith
    then have "map blk_number (l2Blocks ?s) ! nat (k - 1) = k" using assms(1) that by (simp add: store_chain_def nth_upto)
    then show ?thesis using k by (simp add: store_block_def)
  qed
  have seg: "[f..max f (?m + 1) - 1] = [f..?m]" by (cases "f \<le> ?m + 1") simp_all
  have h: "Archiver_getBlockHeight a = int (length (l2Blocks ?s))"
    using store_chain_height[OF assms(1)] by (simp add: Archiver_getBlockHeight_def)
  show "\<exists>bs. Archiver_getL2Blocks f tk a = Inr bs \<and> map blk_number bs = [f..min (f + tk) (Archiver_getBlockHeight a)] \<and> set bs \<subseteq> set (l2Blocks ?s)"
    unfolding Archiver_getL2Blocks_def store_getL2Blocks_segment[OF f assms(2)] chain_segment_def seg h
    using blk f by (intro exI[of _ "map (store_block ?s) [f..?m]"]) (auto intro!: map_idI)
qed (simp add: Archiver_getL2Blocks_def store_getL2Blocks_def INITIAL_L2_BLOCK_NUM_def)

definition two_blocks :: archiver where
  "two_blocks = (new_Archiver 0)\<lparr>ar_store := addEncryptedLogs [None, None]
     (addL2Blocks [sample_block\<lparr>blk_number := 1\<rparr>, sample_block\<lparr>blk_number := 2\<rparr>] new_MemoryArchiverStore)\<rparr>"

theorem archiver_get_blocks_witness:
  "\<exists>bs. Archiver_getL2Blocks 1 1 two_blocks = Inr bs \<and> map blk_number bs = [1, 2]"
proof -
  have "store_chain (ar_store two_blocks)" "Archiver_getBlockHeight two_blocks = 2"
    by (simp_all add: two_blocks_def store_chain_def addEncryptedLogs_def addL2Blocks_def new_MemoryArchiverStore_def upto_rec1
        Archiver_getBlockHeight_def getBlockHeight_def)
  then show ?thesis using archiver_get_blocks[of two_blocks 1 1] by (auto simp: upto_rec1)
qed

section \<open>A source of blocks\<close>

text \<open>What the downloader relies on of a block source: the answer to \<open>getL2Blocks(from, 10)\<close> is a run of blocks from \<open>from\<close> on.\<close>

locale block_source =
  fixes getBlocks :: "int \<Rightarrow> int \<Rightarrow> 's \<Rightarrow> 'b list result"
    and height :: "'s \<Rightarrow> int"
    and block :: "'s \<Rightarrow> int \<Rightarrow> 'b"
  assumes segment: "1 \<le> f \<Longrightarrow> \<exists>k \<le> 11. f + int k \<le> max f (height s + 1) \<and> getBlocks f 10 s = Inr (chain_segment (block s) f (f + int k))"
begin

lemma fetch_step:
  assumes agree: "\<forall>k. 1 \<le> k \<and> k \<le> height s \<longrightarrow> block s k = chn k"
    and at: "i < length (dl_loops d)" "dl_loops d ! i = Fetching f" and f: "1 \<le> f"
  shows "\<exists>bs. getBlocks f 10 s = Inr bs \<and> length bs \<le> 11 \<and> loop_step chn d (dl_fetched i bs d)"
proof -
  obtain k where k: "k \<le> 11" "f + int k \<le> max f (height s + 1)" "getBlocks f 10 s = Inr (chain_segment (block s) f (f + int k))"
    using segment[OF f] by blast
  have "chain_segment (block s) f (f + int k) = chain_segment chn f (f + int k)"
    using agree k(2) f by (auto simp: chain_segment_def)
  then show ?thesis using k loop_step.fetched[OF at, of chn k] by simp
qed

end

interpretation archiver_source: block_source store_getL2Blocks "\<lambda>s. int (length (l2Blocks s))" store_block
proof
  fix f :: int and s :: archiver_store assume f: "1 \<le> f"
  let ?n = "int (length (l2Blocks s))"
  define k where "k = nat (max f (min (f + 10) ?n + 1) - f)"
  have k: "f + int k = max f (min (f + 10) ?n + 1)" by (simp add: k_def)
  then have "k \<le> 11" by linarith
  moreover have "f + int k \<le> max f (?n + 1)" using k by linarith
  moreover have "store_getL2Blocks f 10 s = Inr (chain_segment (store_block s) f (f + int k))"
    using store_getL2Blocks_segment[OF f, of 10 s] k by simp
  ultimately show "\<exists>k \<le> 11. f + int k \<le> max f (?n + 1) \<and> store_getL2Blocks f 10 s = Inr (chain_segment (store_block s) f (f + int k))"
    by blast
qed

text \<open>C34. The archiver feeds the downloader: whatever state a downloader started at block 1 has reached, its request to the archiver's store is
  answered without an error, by at most eleven blocks, and the answer is a step of the downloader along the chain that the store holds a
  prefix of.\<close>

theorem archiver_feeds_downloader:
  assumes "(dl_step chn)\<^sup>*\<^sup>* (dl_start 1 (new_L2BlockDownloader n)) d"
    and "i < length (dl_loops d)" and "dl_loops d ! i = Fetching f"
    and "\<forall>k. 1 \<le> k \<and> k \<le> int (length (l2Blocks s)) \<longrightarrow> store_block s k = chn k"
  shows "\<exists>bs. store_getL2Blocks f 10 s = Inr bs \<and> length bs \<le> 11 \<and> loop_step chn d (dl_fetched i bs d)"
proof (rule archiver_source.fetch_step[OF assms(4,2,3)])
  have "dl_inv chn n 1 d" by (rule dl_sm.reachable_inv[OF assms(1)])
  then show "1 \<le> f" using assms(2,3) by (auto simp: dl_inv_def order_inv_def)
qed

theorem archiver_feeds_downloader_witness:
  "\<exists>bs. store_getL2Blocks 1 10 (addL2Blocks [sample_block\<lparr>blk_number := 1\<rparr>] new_MemoryArchiverStore) = Inr bs \<and>
    loop_step (\<lambda>k. sample_block\<lparr>blk_number := k\<rparr>) (dl_start 1 (new_L2BlockDownloader 2)) (dl_fetched 0 bs (dl_start 1 (new_L2BlockDownloader 2)))"
proof -
  let ?s = "addL2Blocks [sample_block\<lparr>blk_number := 1\<rparr>] new_MemoryArchiverStore"
  have "\<forall>k. 1 \<le> k \<and> k \<le> int (length (l2Blocks ?s)) \<longrightarrow> store_block ?s k = sample_block\<lparr>blk_number := k\<rparr>"
    by (auto simp: addL2Blocks_def new_MemoryArchiverStore_def store_block_def)
  then show ?thesis
    using archiver_feeds_downloader[of "\<lambda>k. sample_block\<lparr>blk_number := k\<rparr>" 2 "dl_start 1 (new_L2BlockDownloader 2)" 0 1 ?s]
    by (auto simp: dl_start_def new_L2BlockDownloader_def loop_head_def Let_def)
qed

end
