(* ===== verification/StructCodec.thy ===== *)
theory StructCodec
  imports L2BlockProperties "HOL-Library.Sublist"
begin

text \<open>
  Codecs of the structs of the circuits. \<open>encodes objs m y\<close> says that \<open>serializeToBuffer\<close> of \<open>objs\<close> succeeds and that the reader method
  \<open>m\<close> reads these bytes, wherever they stand in a buffer, as \<open>y\<close>. There is one rule per kind of field, collected in
  \<open>encodes_intros\<close>, so that a struct is an instance of the interface \<open>reader_codec\<close> by a chain of rules in the order of its fields.
\<close>

named_theorems encodes_intros \<open>rules for the fields of a struct\<close>

definition encodes :: "bufferable list \<Rightarrow> 'a reading \<Rightarrow> 'a \<Rightarrow> bool" where
  "encodes objs m y \<longleftrightarrow> (\<exists>bs. serializeToBuffer objs = Inr bs \<and> reads m bs y)"

lemma encodes_return [encodes_intros]: "x = y \<Longrightarrow> encodes [] (jreturn x) y"
  by (simp add: encodes_def)

lemma encodes_lift [encodes_intros]: "r = Inr y \<Longrightarrow> encodes [] (jlift r) y"
  by (simp add: encodes_def reads_def)

lemma encodes_cons:
  assumes "\<And>bs. serializeToBuffer objs = Inr bs \<Longrightarrow> serializeToBuffer (ob # objs) = Inr (b @ bs)"
    and "reads m b x" and "encodes objs (f x) y"
  shows "encodes (ob # objs) (jbind m f) y"
  using assms reads_bind unfolding encodes_def by metis

lemma encodes_number [encodes_intros]:
  "0 \<le> n \<Longrightarrow> n < 2 ^ 32 \<Longrightarrow> encodes objs (f n) y \<Longrightarrow> encodes (BNumber n # objs) (jbind readNumber f) y"
  by (rule encodes_cons[OF serializeToBuffer_Cons(3) reads_number])

lemma encodes_bool [encodes_intros]:
  "encodes objs (f v) y \<Longrightarrow> encodes (BBool v # objs) (jbind readBoolean f) y"
  by (rule encodes_cons[OF _ reads_boolean]) (auto simp: serializeToBuffer_def boolToBuffer_def)

lemma encodes_bytes [encodes_intros]:
  "length b = n \<Longrightarrow> encodes objs (f b) y \<Longrightarrow> encodes (BBuffer b # objs) (jbind (readBytes n) f) y"
  by (rule encodes_cons[OF serializeToBuffer_Cons(2) reads_bytes])

lemma jbind_jreturn: "jbind m jreturn = m"
  by (rule ext) (auto simp: jbind_def jreturn_def split: prod.splits sum.splits)

lemma encodes_nested_array:
  "encodes xs (jbind m jreturn) x \<Longrightarrow> encodes objs (f x) y \<Longrightarrow> encodes (BArray xs # objs) (jbind m f) y"
  using reads_bind[of m _ x f] serializeToBuffer_Cons(4) unfolding encodes_def jbind_jreturn by metis

lemma serializeToBuffer_singleton_array: "serializeToBuffer [BArray xs] = serializeToBuffer xs"
  by (cases "serializeToBufferArray xs") (simp_all add: serializeToBuffer_def)

lemma serializeToBufferArray_append:
  "serializeToBufferArray xs = Inr a \<Longrightarrow> serializeToBufferArray ys = Inr b \<Longrightarrow> serializeToBufferArray (xs @ ys) = Inr (a @ b)"
  by (induction xs arbitrary: a rule: serializeToBufferArray.induct) auto

lemma encodes_spread:
  assumes "encodes (BArray xs # objs) m y"
  shows "encodes (xs @ objs) m y"
  using assms by (auto simp: encodes_def serializeToBuffer_def dest: serializeToBufferArray_append)

text \<open>The contract of a struct, from its fields.\<close>

lemma struct_codec:
  assumes "\<And>x. valid x \<Longrightarrow> toB x = serializeToBuffer (items x)" and "\<And>x. valid x \<Longrightarrow> encodes (items x) fromB x"
  shows "reader_codec toB fromB valid"
  by unfold_locales (use assms(2) in \<open>fastforce simp: encodes_def assms(1)\<close>)+

definition Vector_toBuffer :: "bufferable list \<Rightarrow> buffer result" where
  "Vector_toBuffer xs = serializeToBuffer [BNumber (int (length xs)), BArray xs]"

context reader_codec
begin

lemma encodes_object:
  assumes "valid x" and "encodes objs (f x) y"
  shows "encodes (BObject (toBuffer x) # objs) (jbind fromBuffer f) y"
proof -
  obtain b where b: "toBuffer x = Inr b" using to_total[OF assms(1)] by blast
  show ?thesis unfolding b
    by (rule encodes_cons[where b = b and x = x]) (use assms(2) from_to[OF assms(1) b] in \<open>simp_all add: serializeToBuffer_Cons\<close>)
qed

lemma encodes_array:
  assumes "\<forall>x \<in> set xs. valid x" and "length xs = n" and "encodes objs (f xs) y"
  shows "encodes (BArray (map (\<lambda>x. BObject (toBuffer x)) xs) # objs) (jbind (readArray n fromBuffer) f) y"
proof -
  obtain bss where bss: "rtraverse toBuffer xs = Inr bss" using rtraverse_total[of xs toBuffer] assms(1) to_total by blast
  show ?thesis unfolding assms(2)[symmetric]
    by (rule encodes_cons[where b = "concat bss" and x = xs])
      (use assms(3) array_reads[OF assms(1) bss] in \<open>simp_all add: serializeToBuffer_Cons serializeToBuffer_objects[OF bss]\<close>)
qed

lemma encodes_vector:
  assumes "\<forall>x \<in> set xs. valid x" and "int (length xs) < 2 ^ 32" and "encodes objs (f xs) y"
  shows "encodes (BObject (Vector_toBuffer (map (\<lambda>x. BObject (toBuffer x)) xs)) # objs) (jbind (readVector fromBuffer) f) y"
proof -
  obtain bss where bss: "rtraverse toBuffer xs = Inr bss" using rtraverse_total[of xs toBuffer] assms(1) to_total by blast
  have "Vector_toBuffer (map (\<lambda>x. BObject (toBuffer x)) xs) = Inr (be_bytes 4 (int (length xs)) @ concat bss)"
    unfolding Vector_toBuffer_def length_map
    using serializeToBuffer_Cons(3)[OF serializeToBuffer_Cons(4)[OF serializeToBuffer_Nil serializeToBuffer_objects[OF bss]]] assms(2) by simp
  then show ?thesis
    by (intro encodes_cons[where b = "be_bytes 4 (int (length xs)) @ concat bss" and x = xs])
      (use assms(3) vector_reads[OF assms(1) bss assms(2)] in \<open>simp_all add: serializeToBuffer_Cons\<close>)
qed

lemma prefix_free:
  assumes "valid x" and "valid y" and "toBuffer x = Inr bs" and "toBuffer y = Inr cs" and "prefix bs cs"
  shows "x = y"
proof -
  obtain ds where cs: "cs = bs @ ds" using assms(5) by (auto simp: prefix_def)
  have "fst (fromBuffer \<lparr>br_buffer = [] @ bs @ ds, br_index = length ([] :: buffer)\<rparr>) = Inr x"
    using from_to[OF assms(1,3)] unfolding reads_def by (metis fst_conv)
  moreover have "fst (fromBuffer \<lparr>br_buffer = [] @ cs @ [], br_index = length ([] :: buffer)\<rparr>) = Inr y"
    using from_to[OF assms(2,4)] unfolding reads_def by (metis fst_conv)
  ultimately show ?thesis by (simp add: cs)
qed

lemmas struct_rules = encodes_object encodes_array encodes_vector

end

lemma readObject_eq: "readObject m = m"
  by (simp add: readObject_def)

lemmas encodes_unfold = readObject_eq

text \<open>A computation that succeeds with a value of a given kind, composed along \<open>rbind\<close>.\<close>

definition yields :: "'a result \<Rightarrow> ('a \<Rightarrow> bool) \<Rightarrow> bool" where
  "yields r P \<longleftrightarrow> (\<exists>x. r = Inr x \<and> P x)"

lemma yields_Inr [simp]: "yields (Inr x) P \<longleftrightarrow> P x"
  by (simp add: yields_def)

lemma yields_bind: "yields r P \<Longrightarrow> (\<And>x. P x \<Longrightarrow> yields (f x) Q) \<Longrightarrow> yields (rbind r f) Q"
  by (auto simp: yields_def rbind_def)

section \<open>Numbers, addresses and points\<close>

lemma fr_ok_ZERO [simp]: "fr_ok Fr_ZERO"
  by (simp add: fr_ok_def Fr_ZERO_def new_Fr_def)

lemma encodes_number_vector [encodes_intros]:
  assumes "\<forall>n \<in> set ns. 0 \<le> n \<and> n < 2 ^ 32" and "int (length ns) < 2 ^ 32" and "encodes objs (f ns) y"
  shows "encodes (BObject (Vector_toBuffer (map BNumber ns)) # objs) (jbind readNumberVector f) y"
proof -
  have ser: "serializeToBuffer (map BNumber ns) = Inr (concat (map (be_bytes 4) ns))"
    using assms(1) by (induction ns) (simp_all add: serializeToBuffer_Cons)
  have "reads (jrepeat (length ns) readNumber) (concat (map (be_bytes 4) ns)) ns"
    by (rule reads_repeat) (use assms(1) in \<open>auto simp: list_all2_conv_all_nth intro!: reads_number\<close>)
  then have "reads readNumberVector (be_bytes 4 (int (length ns)) @ concat (map (be_bytes 4) ns)) ns"
    unfolding readNumberVector_def readVector_def using assms(2)
    by (intro reads_bind[where x = "int (length ns)"] reads_number) simp_all
  moreover have "Vector_toBuffer (map BNumber ns) = Inr (be_bytes 4 (int (length ns)) @ concat (map (be_bytes 4) ns))"
    unfolding Vector_toBuffer_def length_map
    using serializeToBuffer_Cons(3)[OF serializeToBuffer_Cons(4)[OF serializeToBuffer_Nil ser]] assms(2) by simp
  ultimately show ?thesis
    by (intro encodes_cons[where b = "be_bytes 4 (int (length ns)) @ concat (map (be_bytes 4) ns)" and x = ns])
      (use assms(3) in \<open>simp_all add: serializeToBuffer_Cons\<close>)
qed

definition address_ok :: "aztec_address \<Rightarrow> bool" where
  "address_ok a \<longleftrightarrow> length (aa_buffer a) = 32 \<and> be_val (aa_buffer a) \<le> AztecAddress_MAX_VALUE"

definition eth_ok :: "eth_address \<Rightarrow> bool" where
  "eth_ok e \<longleftrightarrow> length (ea_buffer e) = 20"

lemma eth_ok_ZERO [simp]: "eth_ok EthAddress_ZERO"
  by (simp add: eth_ok_def EthAddress_ZERO_def)

lemma address_ok_ZERO [simp]: "address_ok AztecAddress_ZERO"
proof -
  have "be_val (replicate n 0) = 0" for n by (induction n) (simp_all add: be_val_Cons)
  then show ?thesis by (simp add: address_ok_def AztecAddress_ZERO_def AztecAddress_MAX_VALUE_def Fr_MODULUS_def)
qed

text \<open>\<open>new EthAddress(reader.readBytes(32))\<close>\<close>

definition readEthAddress32 :: "eth_address reading" where
  "readEthAddress32 = jbind (readBytes 32) (\<lambda>b. jlift (new_EthAddress b))"

interpretation address32: reader_codec "\<lambda>a. Inr (AztecAddress_toBuffer a)" AztecAddress_fromBuffer address_ok
  using address_codec.from_to by unfold_locales (auto simp: address_ok_def)

interpretation eth32: reader_codec "\<lambda>e. Inr (EthAddress_toBuffer32 e)" readEthAddress32 eth_ok
proof unfold_locales
  fix e bs assume "eth_ok e" "Inr (EthAddress_toBuffer32 e) = (Inr bs :: buffer result)"
  then have bs: "length bs = 32" "new_EthAddress bs = Inr e"
    by (auto simp: eth_ok_def EthAddress_toBuffer32_def new_EthAddress_def subarray_def)
  show "reads readEthAddress32 bs e" unfolding readEthAddress32_def
    by (rule reads_jlift[of "readBytes 32" bs bs new_EthAddress]) (use bs in \<open>simp_all add: reads_bytes\<close>)
qed simp

lemma new_EthAddress_copy [simp]: "eth_ok e \<Longrightarrow> new_EthAddress (EthAddress_toBuffer e) = Inr e"
  by (cases e) (simp add: eth_ok_def new_EthAddress_def EthAddress_toBuffer_def)

text \<open>\<open>EthAddress.fromField(a.toField())\<close>, by which some constructors normalise an address.\<close>

definition eth_normalise :: "eth_address \<Rightarrow> eth_address result" where
  "eth_normalise a = rbind (EthAddress_toField a) EthAddress_fromField"

lemma eth_normalise_ok [simp]: "eth_ok e \<Longrightarrow> eth_normalise e = Inr e"
proof -
  assume e: "eth_ok e"
  let ?b = "EthAddress_toBuffer32 e"
  have len: "length ?b = 32" using e by (simp add: eth_ok_def EthAddress_toBuffer32_def)
  have "EthAddress_toField e = Inr (new_Fr (be_val ?b))"
    unfolding EthAddress_toField_def by (rule reads_whole[OF reads_Fr[OF len]])
  moreover have "0 \<le> be_val ?b" "be_val ?b < 256 ^ 32" using be_val_less[of ?b] len by simp_all
  then have "Fr_toBuffer (new_Fr (be_val ?b)) = Inr ?b"
    using len be_bytes_be_val[of ?b] by (simp add: Fr_toBuffer_bytes new_Fr_def)
  ultimately show "eth_normalise e = Inr e"
    using e by (simp add: eth_normalise_def EthAddress_fromField_def eth_ok_def EthAddress_toBuffer32_def new_EthAddress_def)
qed

lemmas [encodes_intros] = fr32.struct_rules address32.struct_rules eth32.struct_rules snapshot_codec.struct_rules

end
