(* ===== verification/KernelStructs.thy ===== *)
theory KernelStructs
  imports StructCodec "HOL-Library.AList"
begin

text \<open>
  The structs of the kernel circuits, \<^verbatim>\<open>circuits.js/src/structs\<close> with \<^verbatim>\<open>utils/jsUtils.ts\<close>: what a transaction carries from its execution to the rollup.
  A class is a record; \<open>new_C\<close> is the body of its constructor, which checks lengths or normalises an address; \<open>C_items\<close> are the
  arguments of \<open>serializeToBuffer\<close> in its \<open>toBuffer\<close>.
\<close>

section \<open>Helpers\<close>

definition assertMemberLength :: "string \<Rightarrow> nat \<Rightarrow> 'a list \<Rightarrow> unit result" where
  "assertMemberLength member len xs =
     (if length xs \<noteq> len
      then Inl (Error (''Expected '' @ member @ '' to have length '' @ dec (int len) @ '' but was '' @ dec (int (length xs))))
      else Inr ())"

fun assertItemsLength_from :: "string \<Rightarrow> nat \<Rightarrow> nat \<Rightarrow> 'a list list \<Rightarrow> unit result" where
  "assertItemsLength_from member len i [] = Inr ()"
| "assertItemsLength_from member len i (xs # xss) =
     (if length xs \<noteq> len
      then Inl (Error (''Expected '' @ member @ ''['' @ dec (int i) @ ''] to have length '' @ dec (int len) @ '' but was '' @ dec (int (length xs))))
      else assertItemsLength_from member len (i + 1) xss)"

definition assertItemsLength :: "string \<Rightarrow> nat \<Rightarrow> 'a list list \<Rightarrow> unit result" where
  "assertItemsLength member len xss = assertItemsLength_from member len 0 xss"

definition range_from :: "nat \<Rightarrow> int \<Rightarrow> int list" where
  "range_from n offset = map (\<lambda>i. offset + int i) [0..<n]"

definition makeTuple :: "nat \<Rightarrow> (int \<Rightarrow> 'a) \<Rightarrow> int \<Rightarrow> 'a list" where
  "makeTuple len fn offset = map (\<lambda>i. fn (int i + offset)) [0..<len]"

definition makeHalfFullTuple :: "nat \<Rightarrow> (int \<Rightarrow> 'a) \<Rightarrow> int \<Rightarrow> 'a list" where
  "makeHalfFullTuple len fn offset = map (\<lambda>i. if 2 * i < len then fn (int i + offset) else fn 0) [0..<len]"

section \<open>Constants\<close>

definition KERNEL_PRIVATE_CALL_STACK_LENGTH :: nat where
  "KERNEL_PRIVATE_CALL_STACK_LENGTH = 8"

definition KERNEL_PUBLIC_CALL_STACK_LENGTH :: nat where
  "KERNEL_PUBLIC_CALL_STACK_LENGTH = 8"

definition KERNEL_OPTIONALLY_REVEALED_DATA_LENGTH :: nat where
  "KERNEL_OPTIONALLY_REVEALED_DATA_LENGTH = 4"

definition KERNEL_PUBLIC_DATA_READS_LENGTH :: nat where
  "KERNEL_PUBLIC_DATA_READS_LENGTH = 4"

definition VK_TREE_HEIGHT :: nat where
  "VK_TREE_HEIGHT = 3"

lemmas length_constants = KERNEL_NEW_COMMITMENTS_LENGTH_def KERNEL_NEW_NULLIFIERS_LENGTH_def KERNEL_NEW_CONTRACTS_LENGTH_def
  KERNEL_NEW_L2_TO_L1_MSGS_LENGTH_def KERNEL_PUBLIC_DATA_UPDATE_REQUESTS_LENGTH_def KERNEL_PRIVATE_CALL_STACK_LENGTH_def
  KERNEL_PUBLIC_CALL_STACK_LENGTH_def KERNEL_OPTIONALLY_REVEALED_DATA_LENGTH_def KERNEL_PUBLIC_DATA_READS_LENGTH_def VK_TREE_HEIGHT_def

section \<open>Points, proofs and keys\<close>

text \<open>A coordinate is an \<open>Fq\<close>, or the \<open>Fr\<close> that \<open>fromBuffer\<close> reads; both classes encode their value by 32 bytes. The model keeps the value.\<close>
record g1_affine =
  g1_x :: int
  g1_y :: int

definition new_G1AffineElement :: "int \<Rightarrow> int \<Rightarrow> g1_affine result" where
  "new_G1AffineElement x y = rbind (new_Fq x) (\<lambda>fx. rbind (new_Fq y) (\<lambda>fy. Inr \<lparr>g1_x = fq_value fx, g1_y = fq_value fy\<rparr>))"

definition G1AffineElement_items :: "g1_affine \<Rightarrow> bufferable list" where
  "G1AffineElement_items g = [BObject (toBufferBE (g1_x g) 32), BObject (toBufferBE (g1_y g) 32)]"

definition G1AffineElement_toBuffer :: "g1_affine \<Rightarrow> buffer result" where
  "G1AffineElement_toBuffer g = serializeToBuffer (G1AffineElement_items g)"

definition G1AffineElement_fromBuffer :: "g1_affine reading" where
  "G1AffineElement_fromBuffer = jbind Fr_fromBuffer (\<lambda>x. jbind Fr_fromBuffer (\<lambda>y. jreturn \<lparr>g1_x = fr_value x, g1_y = fr_value y\<rparr>))"

text \<open>The commitments of a key by name, in the order of the object's members. Names are ASCII and no array indices, so that \<open>Object.entries\<close> lists
  them in the order of insertion.\<close>

definition ascii_bytes :: "string \<Rightarrow> buffer" where
  "ascii_bytes s = map of_char s"

definition ascii_string :: "buffer \<Rightarrow> string" where
  "ascii_string b = map (\<lambda>w. char_of (unat w)) b"

type_synonym commitment_map = "(string \<times> g1_affine) list"

definition CommitmentMap_items :: "commitment_map \<Rightarrow> bufferable list" where
  "CommitmentMap_items record =
     BNumber (int (length record)) # concat (map (\<lambda>(name, g). [BString (length name) (ascii_bytes name), BObject (G1AffineElement_toBuffer g)]) record)"

definition CommitmentMap_toBuffer :: "commitment_map \<Rightarrow> buffer result" where
  "CommitmentMap_toBuffer record = serializeToBuffer (CommitmentMap_items record)"

text \<open>\<open>readMap\<close>, with the order in which the members are set.\<close>

fun readEntries :: "(buffer \<Rightarrow> 'str) \<Rightarrow> 'a reading \<Rightarrow> nat \<Rightarrow> ('str \<times> 'a) list \<Rightarrow> ('str \<times> 'a) list reading" where
  "readEntries utf8 fromB 0 m = jreturn m"
| "readEntries utf8 fromB (Suc i) m =
     jbind (readString utf8) (\<lambda>key. jbind (readObject fromB) (\<lambda>v. readEntries utf8 fromB i (AList.update key v m)))"

definition CommitmentMap_fromBuffer :: "commitment_map reading" where
  "CommitmentMap_fromBuffer = jbind readNumber (\<lambda>numEntries. readEntries ascii_string G1AffineElement_fromBuffer (nat numEntries) [])"

record verification_key =
  vk_composerType :: int
  vk_circuitSize :: int
  vk_numPublicInputs :: int
  vk_commitments :: commitment_map
  vk_containsRecursiveProof :: bool
  vk_recursiveProofPublicInputIndices :: "int list"

definition VerificationKey_items :: "verification_key \<Rightarrow> bufferable list" where
  "VerificationKey_items r =
     [BNumber (vk_composerType r), BNumber (vk_circuitSize r), BNumber (vk_numPublicInputs r),
     BObject (CommitmentMap_toBuffer (vk_commitments r)), BBool (vk_containsRecursiveProof r),
     BObject (Vector_toBuffer (map BNumber (vk_recursiveProofPublicInputIndices r)))]"

definition VerificationKey_toBuffer :: "verification_key \<Rightarrow> buffer result" where
  "VerificationKey_toBuffer r = serializeToBuffer (VerificationKey_items r)"

definition VerificationKey_fromBuffer :: "verification_key reading" where
  "VerificationKey_fromBuffer =
     jbind readNumber (\<lambda>v_vk_composerType. jbind readNumber (\<lambda>v_vk_circuitSize.
     jbind readNumber (\<lambda>v_vk_numPublicInputs. jbind (readObject CommitmentMap_fromBuffer) (\<lambda>v_vk_commitments.
     jbind readBoolean (\<lambda>v_vk_containsRecursiveProof. jbind readNumberVector (\<lambda>v_vk_recursiveProofPublicInputIndices.
       jreturn \<lparr>vk_composerType = v_vk_composerType, vk_circuitSize = v_vk_circuitSize, vk_numPublicInputs = v_vk_numPublicInputs,
        vk_commitments = v_vk_commitments, vk_containsRecursiveProof = v_vk_containsRecursiveProof,
        vk_recursiveProofPublicInputIndices = v_vk_recursiveProofPublicInputIndices\<rparr>))))))"

definition VerificationKey_makeFake :: "verification_key result" where
  "VerificationKey_makeFake =
     rbind (rtraverse (\<lambda>(name, x, y). rbind (new_G1AffineElement x y) (\<lambda>g. Inr (name, g)))
       [(''Q_1'', 0x09623eb3c25aa5b16a1a79fd558bac7a7ce62c4560a8c537c77ce80dd339128d, 0x1d37b6582ee9e6df9567efb64313471dfa18f520f9ce53161b50dbf7731bc5f9),
        (''Q_2'', 0x2bc4cce83a486a92c92fd59bd84e0f92595baa639fc2ed86b00ffa0dfded2a09, 0x2a669a3bdb7a273a015eda494457cc7ed5236f26cee330c290d45a33b9daa948),
        (''Q_3'', 0x2729426c008c085a81bd34d8ef12dd31e80130339ef99d50013a89e4558eee6d, 0x0fa4ffe2ee7b7b62eb92608b2251ac31396a718f9b34978888789042b790a301),
        (''Q_4'', 0x2be6b6824a913eb7a57b03cb1ee7bfb4de02f2f65fe8a4e97baa7766ddb353a8, 0x2a8a25c49dc63778cd9fe96173f12a2bc77f3682f4c4448f98f1df82c75234a1),
        (''Q_5'', 0x1f85760d6ab567465aadc2f180af9eae3800e6958fec96aef53fd8a7b195d7c0, 0x00c6267a0dd5cfc22b3fe804f53e266069c0e36f51885baec1e7e67650c62e17),
        (''Q_ARITHMETIC'', 0x0d9d0f8ece2aa12012fa21e6e5c859e97bd5704e5c122064a66051294bc5e042, 0x13f61f54a0ebdf6fee4d4a6ecf693478191de0c2899bcd8e86a636c8d3eff434),
        (''Q_C'', 0x224a99d02c86336737c8dd5b746c40d2be6aead8393889a76a18d664029096e9, 0x0f7fe81adcc92a74350eada9622ac453f49ebac24a066a1f83b394df54dfa013),
        (''Q_FIXED_BASE'', 0x060e8a013ed289c2f9fd7473b04f6594b138ddb4b4cf6b901622a14088f04b8d, 0x2c83ff74fce56e3d5573b99c7b26d85d5046ce0c6559506acb7a675e7713eb3a),
        (''Q_LOGIC'', 0x0721a91cb8da4b917e054f72147e1760cfe0ef3d45090ac0f4961d84ec199696, 0x1a25e787b26bd8b50b1a99450f77a424a83513c2b33af268cd253b0587ff50c7),
        (''Q_M'', 0x05dbd8623b8652511e1eb38d38887a69eceb082f807514f09e127237c5213b40, 0x1b9325b48c6c225968002318095f89d0ef9cf629b2b7f0172e03bc39aacf6ed8),
        (''Q_RANGE'', 0x04b57a3805e41df328f5ca9aefa40fad5917391543b7b65c6476e60b8f72e9ad, 0x07c92f3b3e11c8feae96dedc4b14a6226ef3201244f37cfc1ee5b96781f48d2b),
        (''SIGMA_1'', 0x25001d1954a18571eaa007144c5a567bb0d2be4def08a8be918b8c05e3b27d31, 0x2c59ed41e09e144eab5de77ca89a2fd783be702a47c951d3112e3de02ce6e47c),
        (''SIGMA_2'', 0x23994e6a23618e60fa01c449a7ab88378709197e186d48d604bfb6931ffb15ad, 0x11c5ec7a0700570f80088fd5198ab5d5c227f2ad2a455a6edeec024156bb7beb),
        (''SIGMA_3'', 0x00cda5845f23468a13275d18bddae27c6bb189cf9aa95b6a03a0cb6688c7e8d8, 0x29639b45cf8607c525cc400b55ebf90205f2f378626dc3406cc59b2d1b474fba),
        (''SIGMA_4'', 0x2d299e7928496ea2d37f10b43afd6a80c90a33b483090d18069ffa275eedb2fc, 0x2f82121e8de43dc036d99b478b6227ceef34248939987a19011f065d8b5cef5c)])
     (\<lambda>commitments. Inr \<lparr>vk_composerType = 1, vk_circuitSize = 2048, vk_numPublicInputs = 116, vk_commitments = commitments,
        vk_containsRecursiveProof = False, vk_recursiveProofPublicInputIndices = map int [0..<16]\<rparr>)"

record proof_data =
  proof_buffer :: buffer

definition Proof_items :: "proof_data \<Rightarrow> bufferable list" where
  "Proof_items p = [BNumber (int (length (proof_buffer p))), BBuffer (proof_buffer p)]"

definition Proof_toBuffer :: "proof_data \<Rightarrow> buffer result" where
  "Proof_toBuffer p = serializeToBuffer (Proof_items p)"

definition Proof_fromBuffer :: "proof_data reading" where
  "Proof_fromBuffer = jbind readNumber (\<lambda>n. jbind (readBytes (nat n)) (\<lambda>b. jreturn \<lparr>proof_buffer = b\<rparr>))"

definition makeEmptyProof :: proof_data where
  "makeEmptyProof = \<lparr>proof_buffer = []\<rparr>"

record aggregation_object =
  ao_p0 :: g1_affine
  ao_p1 :: g1_affine
  ao_publicInputs :: "fr list"
  ao_proofWitnessIndices :: "int list"
  ao_hasData :: bool

definition AggregationObject_items :: "aggregation_object \<Rightarrow> bufferable list" where
  "AggregationObject_items r =
     [BObject (G1AffineElement_toBuffer (ao_p0 r)), BObject (G1AffineElement_toBuffer (ao_p1 r)),
     BObject (Vector_toBuffer (map (\<lambda>x. BObject (Fr_toBuffer x)) (ao_publicInputs r))),
     BObject (Vector_toBuffer (map BNumber (ao_proofWitnessIndices r))), BBool (ao_hasData r)]"

definition AggregationObject_toBuffer :: "aggregation_object \<Rightarrow> buffer result" where
  "AggregationObject_toBuffer r = serializeToBuffer (AggregationObject_items r)"

definition AggregationObject_fromBuffer :: "aggregation_object reading" where
  "AggregationObject_fromBuffer =
     jbind (readObject G1AffineElement_fromBuffer) (\<lambda>v_ao_p0. jbind (readObject G1AffineElement_fromBuffer) (\<lambda>v_ao_p1.
     jbind (readVector Fr_fromBuffer) (\<lambda>v_ao_publicInputs. jbind readNumberVector (\<lambda>v_ao_proofWitnessIndices.
     jbind readBoolean (\<lambda>v_ao_hasData.
       jreturn \<lparr>ao_p0 = v_ao_p0, ao_p1 = v_ao_p1, ao_publicInputs = v_ao_publicInputs, ao_proofWitnessIndices = v_ao_proofWitnessIndices,
        ao_hasData = v_ao_hasData\<rparr>)))))"

definition AggregationObject_makeFake :: "aggregation_object result" where
  "AggregationObject_makeFake = rbind (new_G1AffineElement 1 2) (\<lambda>p.
     Inr \<lparr>ao_p0 = p, ao_p1 = p, ao_publicInputs = [], ao_proofWitnessIndices = map (\<lambda>i. 3027 + int i) [0..<16], ao_hasData = False\<rparr>)"

section \<open>Function data and signatures\<close>

definition FUNCTION_SELECTOR_LENGTH :: nat where
  "FUNCTION_SELECTOR_LENGTH = 4"

record function_data =
  fd_functionSelectorBuffer :: buffer
  fd_isPrivate :: bool
  fd_isConstructor :: bool

text \<open>The constructor on a selector buffer, and on a number.\<close>

definition new_FunctionData :: "function_data \<Rightarrow> function_data result" where
  "new_FunctionData r =
     (if length (fd_functionSelectorBuffer r) \<noteq> FUNCTION_SELECTOR_LENGTH
      then Inl (Error (''Function selector must be '' @ dec (int FUNCTION_SELECTOR_LENGTH) @ '' bytes long, got '' @
        dec (int (length (fd_functionSelectorBuffer r))) @ '' bytes.''))
      else Inr r)"

definition new_FunctionData_number :: "int \<Rightarrow> bool \<Rightarrow> bool \<Rightarrow> function_data result" where
  "new_FunctionData_number n prv con =
     rbind (numToUInt32BE n 4) (\<lambda>b. Inr \<lparr>fd_functionSelectorBuffer = b, fd_isPrivate = prv, fd_isConstructor = con\<rparr>)"

definition FunctionData_items :: "function_data \<Rightarrow> bufferable list" where
  "FunctionData_items r =
     [BBuffer (fd_functionSelectorBuffer r), BBool (fd_isPrivate r), BBool (fd_isConstructor r)]"

definition FunctionData_toBuffer :: "function_data \<Rightarrow> buffer result" where
  "FunctionData_toBuffer r = serializeToBuffer (FunctionData_items r)"

definition FunctionData_fromBuffer :: "function_data reading" where
  "FunctionData_fromBuffer =
     jbind (readBytes FUNCTION_SELECTOR_LENGTH) (\<lambda>v_fd_functionSelectorBuffer. jbind readBoolean (\<lambda>v_fd_isPrivate.
     jbind readBoolean (\<lambda>v_fd_isConstructor.
       jlift (new_FunctionData \<lparr>fd_functionSelectorBuffer = v_fd_functionSelectorBuffer, fd_isPrivate = v_fd_isPrivate, fd_isConstructor = v_fd_isConstructor\<rparr>))))"

definition FunctionData_functionSelector :: "function_data \<Rightarrow> int result" where
  "FunctionData_functionSelector r = rbind (deserializeUInt32 (fd_functionSelectorBuffer r) 0) (\<lambda>(elem, _). Inr elem)"

definition FunctionData_isEmpty :: "function_data \<Rightarrow> bool" where
  "FunctionData_isEmpty r \<longleftrightarrow> fd_functionSelectorBuffer r = replicate FUNCTION_SELECTOR_LENGTH 0"

definition FunctionData_empty :: "bool \<Rightarrow> bool \<Rightarrow> function_data" where
  "FunctionData_empty prv con =
     \<lparr>fd_functionSelectorBuffer = replicate FUNCTION_SELECTOR_LENGTH 0, fd_isPrivate = prv, fd_isConstructor = con\<rparr>"

record ecdsa_signature =
  sig_r :: buffer
  sig_s :: buffer
  sig_v :: buffer

definition new_EcdsaSignature :: "ecdsa_signature \<Rightarrow> ecdsa_signature result" where
  "new_EcdsaSignature r =
     rbind (assertMemberLength ''r'' 32 (sig_r r)) (\<lambda>_.
     rbind (assertMemberLength ''s'' 32 (sig_s r)) (\<lambda>_.
     rbind (assertMemberLength ''v'' 1 (sig_v r)) (\<lambda>_.
       Inr r)))"

definition EcdsaSignature_items :: "ecdsa_signature \<Rightarrow> bufferable list" where
  "EcdsaSignature_items r =
     [BBuffer (sig_r r), BBuffer (sig_s r), BBuffer (sig_v r)]"

definition EcdsaSignature_toBuffer :: "ecdsa_signature \<Rightarrow> buffer result" where
  "EcdsaSignature_toBuffer r = serializeToBuffer (EcdsaSignature_items r)"

definition EcdsaSignature_fromBuffer :: "ecdsa_signature reading" where
  "EcdsaSignature_fromBuffer =
     jbind (readBytes 32) (\<lambda>v_sig_r. jbind (readBytes 32) (\<lambda>v_sig_s. jbind (readBytes 1) (\<lambda>v_sig_v.
       jlift (new_EcdsaSignature \<lparr>sig_r = v_sig_r, sig_s = v_sig_s, sig_v = v_sig_v\<rparr>))))"

definition EcdsaSignature_empty :: ecdsa_signature where
  "EcdsaSignature_empty = \<lparr>sig_r = replicate 32 0, sig_s = replicate 32 0, sig_v = replicate 1 0\<rparr>"

definition EcdsaSignature_fromBigInts :: "int \<Rightarrow> int \<Rightarrow> int \<Rightarrow> ecdsa_signature result" where
  "EcdsaSignature_fromBigInts r s v = rbind (toBufferBE r 32) (\<lambda>br. rbind (toBufferBE s 32) (\<lambda>bs.
     new_EcdsaSignature \<lparr>sig_r = br, sig_s = bs, sig_v = [word_of_int v]\<rparr>))"

section \<open>Accumulated data\<close>

record new_contract_data =
  ncd_contractAddress :: aztec_address
  ncd_portalContractAddress :: eth_address
  ncd_functionTreeRoot :: fr

text \<open>The constructor makes the address again from its 20 bytes.\<close>

definition new_NewContractData :: "new_contract_data \<Rightarrow> new_contract_data result" where
  "new_NewContractData r = rbind (new_EthAddress (EthAddress_toBuffer (ncd_portalContractAddress r))) (\<lambda>a.
     Inr (r\<lparr>ncd_portalContractAddress := a\<rparr>))"

definition NewContractData_items :: "new_contract_data \<Rightarrow> bufferable list" where
  "NewContractData_items r =
     [BObject (Inr (AztecAddress_toBuffer (ncd_contractAddress r))),
     BObject (Inr (EthAddress_toBuffer32 (ncd_portalContractAddress r))), BObject (Fr_toBuffer (ncd_functionTreeRoot r))]"

definition NewContractData_toBuffer :: "new_contract_data \<Rightarrow> buffer result" where
  "NewContractData_toBuffer r = serializeToBuffer (NewContractData_items r)"

definition NewContractData_fromBuffer :: "new_contract_data reading" where
  "NewContractData_fromBuffer =
     jbind AztecAddress_fromBuffer (\<lambda>v_ncd_contractAddress. jbind readEthAddress32 (\<lambda>v_ncd_portalContractAddress.
     jbind Fr_fromBuffer (\<lambda>v_ncd_functionTreeRoot.
       jlift (new_NewContractData \<lparr>ncd_contractAddress = v_ncd_contractAddress, ncd_portalContractAddress = v_ncd_portalContractAddress,
        ncd_functionTreeRoot = v_ncd_functionTreeRoot\<rparr>))))"

definition NewContractData_empty :: new_contract_data where
  "NewContractData_empty = \<lparr>ncd_contractAddress = AztecAddress_ZERO, ncd_portalContractAddress = EthAddress_ZERO, ncd_functionTreeRoot = Fr_ZERO\<rparr>"

record optionally_revealed_data =
  ord_callStackItemHash :: fr
  ord_functionData :: function_data
  ord_vkHash :: fr
  ord_portalContractAddress :: eth_address
  ord_payFeeFromL1 :: bool
  ord_payFeeFromPublicL2 :: bool
  ord_calledFromL1 :: bool
  ord_calledFromPublicL2 :: bool

definition new_OptionallyRevealedData :: "optionally_revealed_data \<Rightarrow> optionally_revealed_data result" where
  "new_OptionallyRevealedData r =
     rbind (eth_normalise (ord_portalContractAddress r)) (\<lambda>a. Inr (r\<lparr>ord_portalContractAddress := a\<rparr>))"

definition OptionallyRevealedData_items :: "optionally_revealed_data \<Rightarrow> bufferable list" where
  "OptionallyRevealedData_items r =
     [BObject (Fr_toBuffer (ord_callStackItemHash r)), BObject (FunctionData_toBuffer (ord_functionData r)),
     BObject (Fr_toBuffer (ord_vkHash r)), BObject (Inr (EthAddress_toBuffer32 (ord_portalContractAddress r))),
     BBool (ord_payFeeFromL1 r), BBool (ord_payFeeFromPublicL2 r), BBool (ord_calledFromL1 r), BBool (ord_calledFromPublicL2 r)]"

definition OptionallyRevealedData_toBuffer :: "optionally_revealed_data \<Rightarrow> buffer result" where
  "OptionallyRevealedData_toBuffer r = serializeToBuffer (OptionallyRevealedData_items r)"

definition OptionallyRevealedData_fromBuffer :: "optionally_revealed_data reading" where
  "OptionallyRevealedData_fromBuffer =
     jbind Fr_fromBuffer (\<lambda>v_ord_callStackItemHash. jbind (readObject FunctionData_fromBuffer) (\<lambda>v_ord_functionData.
     jbind Fr_fromBuffer (\<lambda>v_ord_vkHash. jbind readEthAddress32 (\<lambda>v_ord_portalContractAddress.
     jbind readBoolean (\<lambda>v_ord_payFeeFromL1. jbind readBoolean (\<lambda>v_ord_payFeeFromPublicL2.
     jbind readBoolean (\<lambda>v_ord_calledFromL1. jbind readBoolean (\<lambda>v_ord_calledFromPublicL2.
       jlift (new_OptionallyRevealedData \<lparr>ord_callStackItemHash = v_ord_callStackItemHash, ord_functionData = v_ord_functionData, ord_vkHash = v_ord_vkHash,
        ord_portalContractAddress = v_ord_portalContractAddress, ord_payFeeFromL1 = v_ord_payFeeFromL1,
        ord_payFeeFromPublicL2 = v_ord_payFeeFromPublicL2, ord_calledFromL1 = v_ord_calledFromL1,
        ord_calledFromPublicL2 = v_ord_calledFromPublicL2\<rparr>)))))))))"

definition OptionallyRevealedData_empty :: optionally_revealed_data where
  "OptionallyRevealedData_empty = \<lparr>ord_callStackItemHash = Fr_ZERO, ord_functionData = FunctionData_empty True False, ord_vkHash = Fr_ZERO,
        ord_portalContractAddress = EthAddress_ZERO, ord_payFeeFromL1 = False, ord_payFeeFromPublicL2 = False, ord_calledFromL1 = False,
        ord_calledFromPublicL2 = False\<rparr>"

record public_data_read =
  pdr_leafIndex :: fr
  pdr_value :: fr

definition PublicDataRead_items :: "public_data_read \<Rightarrow> bufferable list" where
  "PublicDataRead_items r =
     [BObject (Fr_toBuffer (pdr_leafIndex r)), BObject (Fr_toBuffer (pdr_value r))]"

definition PublicDataRead_toBuffer :: "public_data_read \<Rightarrow> buffer result" where
  "PublicDataRead_toBuffer r = serializeToBuffer (PublicDataRead_items r)"

definition PublicDataRead_fromBuffer :: "public_data_read reading" where
  "PublicDataRead_fromBuffer =
     jbind Fr_fromBuffer (\<lambda>v_pdr_leafIndex. jbind Fr_fromBuffer (\<lambda>v_pdr_value.
       jreturn \<lparr>pdr_leafIndex = v_pdr_leafIndex, pdr_value = v_pdr_value\<rparr>))"

definition PublicDataRead_empty :: public_data_read where
  "PublicDataRead_empty = \<lparr>pdr_leafIndex = Fr_ZERO, pdr_value = Fr_ZERO\<rparr>"

record public_data_update_request =
  pdu_leafIndex :: fr
  pdu_oldValue :: fr
  pdu_newValue :: fr

definition PublicDataUpdateRequest_items :: "public_data_update_request \<Rightarrow> bufferable list" where
  "PublicDataUpdateRequest_items r =
     [BObject (Fr_toBuffer (pdu_leafIndex r)), BObject (Fr_toBuffer (pdu_oldValue r)), BObject (Fr_toBuffer (pdu_newValue r))]"

definition PublicDataUpdateRequest_toBuffer :: "public_data_update_request \<Rightarrow> buffer result" where
  "PublicDataUpdateRequest_toBuffer r = serializeToBuffer (PublicDataUpdateRequest_items r)"

definition PublicDataUpdateRequest_fromBuffer :: "public_data_update_request reading" where
  "PublicDataUpdateRequest_fromBuffer =
     jbind Fr_fromBuffer (\<lambda>v_pdu_leafIndex. jbind Fr_fromBuffer (\<lambda>v_pdu_oldValue.
     jbind Fr_fromBuffer (\<lambda>v_pdu_newValue.
       jreturn \<lparr>pdu_leafIndex = v_pdu_leafIndex, pdu_oldValue = v_pdu_oldValue, pdu_newValue = v_pdu_newValue\<rparr>)))"

definition PublicDataUpdateRequest_empty :: public_data_update_request where
  "PublicDataUpdateRequest_empty = \<lparr>pdu_leafIndex = Fr_ZERO, pdu_oldValue = Fr_ZERO, pdu_newValue = Fr_ZERO\<rparr>"

record combined_accumulated_data =
  cad_aggregationObject :: aggregation_object
  cad_newCommitments :: "fr list"
  cad_newNullifiers :: "fr list"
  cad_privateCallStack :: "fr list"
  cad_publicCallStack :: "fr list"
  cad_newL2ToL1Msgs :: "fr list"
  cad_encryptedLogsHash :: "fr list"
  cad_unencryptedLogsHash :: "fr list"
  cad_encryptedLogPreimagesLength :: fr
  cad_unencryptedLogPreimagesLength :: fr
  cad_newContracts :: "new_contract_data list"
  cad_optionallyRevealedData :: "optionally_revealed_data list"
  cad_publicDataUpdateRequests :: "public_data_update_request list"
  cad_publicDataReads :: "public_data_read list"

definition new_CombinedAccumulatedData :: "combined_accumulated_data \<Rightarrow> combined_accumulated_data result" where
  "new_CombinedAccumulatedData r =
     rbind (assertMemberLength ''newCommitments'' KERNEL_NEW_COMMITMENTS_LENGTH (cad_newCommitments r)) (\<lambda>_.
     rbind (assertMemberLength ''newNullifiers'' KERNEL_NEW_NULLIFIERS_LENGTH (cad_newNullifiers r)) (\<lambda>_.
     rbind (assertMemberLength ''privateCallStack'' KERNEL_PRIVATE_CALL_STACK_LENGTH (cad_privateCallStack r)) (\<lambda>_.
     rbind (assertMemberLength ''publicCallStack'' KERNEL_PUBLIC_CALL_STACK_LENGTH (cad_publicCallStack r)) (\<lambda>_.
     rbind (assertMemberLength ''newL2ToL1Msgs'' KERNEL_NEW_L2_TO_L1_MSGS_LENGTH (cad_newL2ToL1Msgs r)) (\<lambda>_.
     rbind (assertMemberLength ''encryptedLogsHash'' 2 (cad_encryptedLogsHash r)) (\<lambda>_.
     rbind (assertMemberLength ''unencryptedLogsHash'' 2 (cad_unencryptedLogsHash r)) (\<lambda>_.
     rbind (assertMemberLength ''newContracts'' KERNEL_NEW_CONTRACTS_LENGTH (cad_newContracts r)) (\<lambda>_.
     rbind (assertMemberLength ''optionallyRevealedData'' KERNEL_OPTIONALLY_REVEALED_DATA_LENGTH (cad_optionallyRevealedData r)) (\<lambda>_.
     rbind (assertMemberLength ''publicDataUpdateRequests'' KERNEL_PUBLIC_DATA_UPDATE_REQUESTS_LENGTH (cad_publicDataUpdateRequests r)) (\<lambda>_.
     rbind (assertMemberLength ''publicDataReads'' KERNEL_PUBLIC_DATA_READS_LENGTH (cad_publicDataReads r)) (\<lambda>_.
       Inr r)))))))))))"

definition CombinedAccumulatedData_items :: "combined_accumulated_data \<Rightarrow> bufferable list" where
  "CombinedAccumulatedData_items r =
     [BObject (AggregationObject_toBuffer (cad_aggregationObject r)),
     BArray (map (\<lambda>x. BObject (Fr_toBuffer x)) (cad_newCommitments r)),
     BArray (map (\<lambda>x. BObject (Fr_toBuffer x)) (cad_newNullifiers r)),
     BArray (map (\<lambda>x. BObject (Fr_toBuffer x)) (cad_privateCallStack r)),
     BArray (map (\<lambda>x. BObject (Fr_toBuffer x)) (cad_publicCallStack r)),
     BArray (map (\<lambda>x. BObject (Fr_toBuffer x)) (cad_newL2ToL1Msgs r)),
     BArray (map (\<lambda>x. BObject (Fr_toBuffer x)) (cad_encryptedLogsHash r)),
     BArray (map (\<lambda>x. BObject (Fr_toBuffer x)) (cad_unencryptedLogsHash r)),
     BObject (Fr_toBuffer (cad_encryptedLogPreimagesLength r)), BObject (Fr_toBuffer (cad_unencryptedLogPreimagesLength r)),
     BArray (map (\<lambda>x. BObject (NewContractData_toBuffer x)) (cad_newContracts r)),
     BArray (map (\<lambda>x. BObject (OptionallyRevealedData_toBuffer x)) (cad_optionallyRevealedData r)),
     BArray (map (\<lambda>x. BObject (PublicDataUpdateRequest_toBuffer x)) (cad_publicDataUpdateRequests r)),
     BArray (map (\<lambda>x. BObject (PublicDataRead_toBuffer x)) (cad_publicDataReads r))]"

definition CombinedAccumulatedData_toBuffer :: "combined_accumulated_data \<Rightarrow> buffer result" where
  "CombinedAccumulatedData_toBuffer r = serializeToBuffer (CombinedAccumulatedData_items r)"

definition CombinedAccumulatedData_fromBuffer :: "combined_accumulated_data reading" where
  "CombinedAccumulatedData_fromBuffer =
     jbind (readObject AggregationObject_fromBuffer) (\<lambda>v_cad_aggregationObject.
     jbind (readArray KERNEL_NEW_COMMITMENTS_LENGTH Fr_fromBuffer) (\<lambda>v_cad_newCommitments.
     jbind (readArray KERNEL_NEW_NULLIFIERS_LENGTH Fr_fromBuffer) (\<lambda>v_cad_newNullifiers.
     jbind (readArray KERNEL_PRIVATE_CALL_STACK_LENGTH Fr_fromBuffer) (\<lambda>v_cad_privateCallStack.
     jbind (readArray KERNEL_PUBLIC_CALL_STACK_LENGTH Fr_fromBuffer) (\<lambda>v_cad_publicCallStack.
     jbind (readArray KERNEL_NEW_L2_TO_L1_MSGS_LENGTH Fr_fromBuffer) (\<lambda>v_cad_newL2ToL1Msgs.
     jbind (readArray 2 Fr_fromBuffer) (\<lambda>v_cad_encryptedLogsHash.
     jbind (readArray 2 Fr_fromBuffer) (\<lambda>v_cad_unencryptedLogsHash.
     jbind Fr_fromBuffer (\<lambda>v_cad_encryptedLogPreimagesLength.
     jbind Fr_fromBuffer (\<lambda>v_cad_unencryptedLogPreimagesLength.
     jbind (readArray KERNEL_NEW_CONTRACTS_LENGTH NewContractData_fromBuffer) (\<lambda>v_cad_newContracts.
     jbind (readArray KERNEL_OPTIONALLY_REVEALED_DATA_LENGTH OptionallyRevealedData_fromBuffer) (\<lambda>v_cad_optionallyRevealedData.
     jbind (readArray KERNEL_PUBLIC_DATA_UPDATE_REQUESTS_LENGTH PublicDataUpdateRequest_fromBuffer) (\<lambda>v_cad_publicDataUpdateRequests.
     jbind (readArray KERNEL_PUBLIC_DATA_READS_LENGTH PublicDataRead_fromBuffer) (\<lambda>v_cad_publicDataReads.
       jlift (new_CombinedAccumulatedData \<lparr>cad_aggregationObject = v_cad_aggregationObject, cad_newCommitments = v_cad_newCommitments,
        cad_newNullifiers = v_cad_newNullifiers, cad_privateCallStack = v_cad_privateCallStack,
        cad_publicCallStack = v_cad_publicCallStack, cad_newL2ToL1Msgs = v_cad_newL2ToL1Msgs,
        cad_encryptedLogsHash = v_cad_encryptedLogsHash, cad_unencryptedLogsHash = v_cad_unencryptedLogsHash,
        cad_encryptedLogPreimagesLength = v_cad_encryptedLogPreimagesLength,
        cad_unencryptedLogPreimagesLength = v_cad_unencryptedLogPreimagesLength, cad_newContracts = v_cad_newContracts,
        cad_optionallyRevealedData = v_cad_optionallyRevealedData, cad_publicDataUpdateRequests = v_cad_publicDataUpdateRequests,
        cad_publicDataReads = v_cad_publicDataReads\<rparr>)))))))))))))))"

definition CombinedAccumulatedData_empty :: "combined_accumulated_data result" where
  "CombinedAccumulatedData_empty =
     rbind AggregationObject_makeFake (\<lambda>ao. rbind (new_NewContractData NewContractData_empty) (\<lambda>nc.
     rbind (new_FunctionData (FunctionData_empty True False)) (\<lambda>_. rbind (new_OptionallyRevealedData OptionallyRevealedData_empty) (\<lambda>rd.
     new_CombinedAccumulatedData \<lparr>cad_aggregationObject = ao, cad_newCommitments = makeTuple KERNEL_NEW_COMMITMENTS_LENGTH (\<lambda>_. Fr_ZERO) 0,
        cad_newNullifiers = makeTuple KERNEL_NEW_NULLIFIERS_LENGTH (\<lambda>_. Fr_ZERO) 0,
        cad_privateCallStack = makeTuple KERNEL_PRIVATE_CALL_STACK_LENGTH (\<lambda>_. Fr_ZERO) 0,
        cad_publicCallStack = makeTuple KERNEL_PUBLIC_CALL_STACK_LENGTH (\<lambda>_. Fr_ZERO) 0,
        cad_newL2ToL1Msgs = makeTuple KERNEL_NEW_L2_TO_L1_MSGS_LENGTH (\<lambda>_. Fr_ZERO) 0,
        cad_encryptedLogsHash = makeTuple 2 (\<lambda>_. Fr_ZERO) 0, cad_unencryptedLogsHash = makeTuple 2 (\<lambda>_. Fr_ZERO) 0,
        cad_encryptedLogPreimagesLength = Fr_ZERO, cad_unencryptedLogPreimagesLength = Fr_ZERO,
        cad_newContracts = makeTuple KERNEL_NEW_CONTRACTS_LENGTH (\<lambda>_. nc) 0,
        cad_optionallyRevealedData = makeTuple KERNEL_OPTIONALLY_REVEALED_DATA_LENGTH (\<lambda>_. rd) 0,
        cad_publicDataUpdateRequests = makeTuple KERNEL_PUBLIC_DATA_UPDATE_REQUESTS_LENGTH (\<lambda>_. PublicDataUpdateRequest_empty) 0,
        cad_publicDataReads = makeTuple KERNEL_PUBLIC_DATA_READS_LENGTH (\<lambda>_. PublicDataRead_empty) 0\<rparr>))))"

section \<open>Constant data\<close>

record private_historic_tree_roots =
  pht_privateDataTreeRoot :: fr
  pht_nullifierTreeRoot :: fr
  pht_contractTreeRoot :: fr
  pht_l1ToL2MessagesTreeRoot :: fr
  pht_privateKernelVkTreeRoot :: fr

definition PrivateHistoricTreeRoots_items :: "private_historic_tree_roots \<Rightarrow> bufferable list" where
  "PrivateHistoricTreeRoots_items r =
     [BObject (Fr_toBuffer (pht_privateDataTreeRoot r)), BObject (Fr_toBuffer (pht_nullifierTreeRoot r)),
     BObject (Fr_toBuffer (pht_contractTreeRoot r)), BObject (Fr_toBuffer (pht_l1ToL2MessagesTreeRoot r)),
     BObject (Fr_toBuffer (pht_privateKernelVkTreeRoot r))]"

definition PrivateHistoricTreeRoots_toBuffer :: "private_historic_tree_roots \<Rightarrow> buffer result" where
  "PrivateHistoricTreeRoots_toBuffer r = serializeToBuffer (PrivateHistoricTreeRoots_items r)"

definition PrivateHistoricTreeRoots_fromBuffer :: "private_historic_tree_roots reading" where
  "PrivateHistoricTreeRoots_fromBuffer =
     jbind Fr_fromBuffer (\<lambda>v_pht_privateDataTreeRoot. jbind Fr_fromBuffer (\<lambda>v_pht_nullifierTreeRoot.
     jbind Fr_fromBuffer (\<lambda>v_pht_contractTreeRoot. jbind Fr_fromBuffer (\<lambda>v_pht_l1ToL2MessagesTreeRoot.
     jbind Fr_fromBuffer (\<lambda>v_pht_privateKernelVkTreeRoot.
       jreturn \<lparr>pht_privateDataTreeRoot = v_pht_privateDataTreeRoot, pht_nullifierTreeRoot = v_pht_nullifierTreeRoot,
        pht_contractTreeRoot = v_pht_contractTreeRoot, pht_l1ToL2MessagesTreeRoot = v_pht_l1ToL2MessagesTreeRoot,
        pht_privateKernelVkTreeRoot = v_pht_privateKernelVkTreeRoot\<rparr>)))))"

definition PrivateHistoricTreeRoots_empty :: private_historic_tree_roots where
  "PrivateHistoricTreeRoots_empty = \<lparr>pht_privateDataTreeRoot = Fr_ZERO, pht_nullifierTreeRoot = Fr_ZERO, pht_contractTreeRoot = Fr_ZERO,
        pht_l1ToL2MessagesTreeRoot = Fr_ZERO, pht_privateKernelVkTreeRoot = Fr_ZERO\<rparr>"

definition PrivateHistoricTreeRoots_isEmpty :: "private_historic_tree_roots \<Rightarrow> bool" where
  "PrivateHistoricTreeRoots_isEmpty r \<longleftrightarrow> Fr_isZero (pht_privateDataTreeRoot r) \<and> Fr_isZero (pht_nullifierTreeRoot r) \<and>
     Fr_isZero (pht_contractTreeRoot r) \<and> Fr_isZero (pht_l1ToL2MessagesTreeRoot r) \<and> Fr_isZero (pht_privateKernelVkTreeRoot r)"

record combined_historic_tree_roots =
  cht_privateHistoricTreeRoots :: private_historic_tree_roots

definition CombinedHistoricTreeRoots_items :: "combined_historic_tree_roots \<Rightarrow> bufferable list" where
  "CombinedHistoricTreeRoots_items r =
     [BObject (PrivateHistoricTreeRoots_toBuffer (cht_privateHistoricTreeRoots r))]"

definition CombinedHistoricTreeRoots_toBuffer :: "combined_historic_tree_roots \<Rightarrow> buffer result" where
  "CombinedHistoricTreeRoots_toBuffer r = serializeToBuffer (CombinedHistoricTreeRoots_items r)"

definition CombinedHistoricTreeRoots_fromBuffer :: "combined_historic_tree_roots reading" where
  "CombinedHistoricTreeRoots_fromBuffer =
     jbind (readObject PrivateHistoricTreeRoots_fromBuffer) (\<lambda>v_cht_privateHistoricTreeRoots.
       jreturn \<lparr>cht_privateHistoricTreeRoots = v_cht_privateHistoricTreeRoots\<rparr>)"

definition CombinedHistoricTreeRoots_empty :: combined_historic_tree_roots where
  "CombinedHistoricTreeRoots_empty = \<lparr>cht_privateHistoricTreeRoots = PrivateHistoricTreeRoots_empty\<rparr>"

definition CombinedHistoricTreeRoots_isEmpty :: "combined_historic_tree_roots \<Rightarrow> bool" where
  "CombinedHistoricTreeRoots_isEmpty r \<longleftrightarrow> PrivateHistoricTreeRoots_isEmpty (cht_privateHistoricTreeRoots r)"

text \<open>The key of the deployer is kept as its two coordinates; \<open>fromBuffer\<close> reads a point, whose constructor checks them.\<close>

record contract_deployment_data =
  cdd_deployerPublicKey :: "fr list"
  cdd_constructorVkHash :: fr
  cdd_functionTreeRoot :: fr
  cdd_contractAddressSalt :: fr
  cdd_portalContractAddress :: eth_address

definition new_ContractDeploymentData :: "contract_deployment_data \<Rightarrow> contract_deployment_data result" where
  "new_ContractDeploymentData r =
     rbind (eth_normalise (cdd_portalContractAddress r)) (\<lambda>a. Inr (r\<lparr>cdd_portalContractAddress := a\<rparr>))"

definition point_coordinates :: "point \<Rightarrow> fr list result" where
  "point_coordinates p = rbind (Point_x p) (\<lambda>x. rbind (Point_y p) (\<lambda>y. Inr [x, y]))"

definition ContractDeploymentData_items :: "contract_deployment_data \<Rightarrow> bufferable list" where
  "ContractDeploymentData_items r =
     [BArray (map (\<lambda>x. BObject (Fr_toBuffer x)) (cdd_deployerPublicKey r)), BObject (Fr_toBuffer (cdd_constructorVkHash r)),
      BObject (Fr_toBuffer (cdd_functionTreeRoot r)), BObject (Fr_toBuffer (cdd_contractAddressSalt r)),
      BObject (Inr (EthAddress_toBuffer32 (cdd_portalContractAddress r)))]"

definition ContractDeploymentData_toBuffer :: "contract_deployment_data \<Rightarrow> buffer result" where
  "ContractDeploymentData_toBuffer r = serializeToBuffer (ContractDeploymentData_items r)"

definition ContractDeploymentData_fromBuffer :: "contract_deployment_data reading" where
  "ContractDeploymentData_fromBuffer =
     jbind (jbind Point_fromBuffer (\<lambda>p. jlift (point_coordinates p))) (\<lambda>k. jbind Fr_fromBuffer (\<lambda>v. jbind Fr_fromBuffer (\<lambda>t.
     jbind Fr_fromBuffer (\<lambda>s. jbind readEthAddress32 (\<lambda>a.
       jlift (new_ContractDeploymentData \<lparr>cdd_deployerPublicKey = k, cdd_constructorVkHash = v, cdd_functionTreeRoot = t,
         cdd_contractAddressSalt = s, cdd_portalContractAddress = a\<rparr>))))))"

definition ContractDeploymentData_empty :: contract_deployment_data where
  "ContractDeploymentData_empty = \<lparr>cdd_deployerPublicKey = [Fr_ZERO, Fr_ZERO], cdd_constructorVkHash = Fr_ZERO, cdd_functionTreeRoot = Fr_ZERO,
     cdd_contractAddressSalt = Fr_ZERO, cdd_portalContractAddress = EthAddress_ZERO\<rparr>"

record tx_context =
  txc_isFeePaymentTx :: bool
  txc_isRebatePaymentTx :: bool
  txc_isContractDeploymentTx :: bool
  txc_contractDeploymentData :: contract_deployment_data

definition TxContext_items :: "tx_context \<Rightarrow> bufferable list" where
  "TxContext_items r =
     [BBool (txc_isFeePaymentTx r), BBool (txc_isRebatePaymentTx r), BBool (txc_isContractDeploymentTx r),
     BObject (ContractDeploymentData_toBuffer (txc_contractDeploymentData r))]"

definition TxContext_toBuffer :: "tx_context \<Rightarrow> buffer result" where
  "TxContext_toBuffer r = serializeToBuffer (TxContext_items r)"

definition TxContext_fromBuffer :: "tx_context reading" where
  "TxContext_fromBuffer =
     jbind readBoolean (\<lambda>v_txc_isFeePaymentTx. jbind readBoolean (\<lambda>v_txc_isRebatePaymentTx.
     jbind readBoolean (\<lambda>v_txc_isContractDeploymentTx.
     jbind (readObject ContractDeploymentData_fromBuffer) (\<lambda>v_txc_contractDeploymentData.
       jreturn \<lparr>txc_isFeePaymentTx = v_txc_isFeePaymentTx, txc_isRebatePaymentTx = v_txc_isRebatePaymentTx,
        txc_isContractDeploymentTx = v_txc_isContractDeploymentTx, txc_contractDeploymentData = v_txc_contractDeploymentData\<rparr>))))"

definition TxContext_empty :: tx_context where
  "TxContext_empty = \<lparr>txc_isFeePaymentTx = False, txc_isRebatePaymentTx = False, txc_isContractDeploymentTx = False,
        txc_contractDeploymentData = ContractDeploymentData_empty\<rparr>"

record combined_constant_data =
  ccd_historicTreeRoots :: combined_historic_tree_roots
  ccd_txContext :: tx_context

definition CombinedConstantData_items :: "combined_constant_data \<Rightarrow> bufferable list" where
  "CombinedConstantData_items r =
     [BObject (CombinedHistoricTreeRoots_toBuffer (ccd_historicTreeRoots r)), BObject (TxContext_toBuffer (ccd_txContext r))]"

definition CombinedConstantData_toBuffer :: "combined_constant_data \<Rightarrow> buffer result" where
  "CombinedConstantData_toBuffer r = serializeToBuffer (CombinedConstantData_items r)"

definition CombinedConstantData_fromBuffer :: "combined_constant_data reading" where
  "CombinedConstantData_fromBuffer =
     jbind (readObject CombinedHistoricTreeRoots_fromBuffer) (\<lambda>v_ccd_historicTreeRoots.
     jbind (readObject TxContext_fromBuffer) (\<lambda>v_ccd_txContext.
       jreturn \<lparr>ccd_historicTreeRoots = v_ccd_historicTreeRoots, ccd_txContext = v_ccd_txContext\<rparr>))"

definition CombinedConstantData_empty :: combined_constant_data where
  "CombinedConstantData_empty = \<lparr>ccd_historicTreeRoots = CombinedHistoricTreeRoots_empty, ccd_txContext = TxContext_empty\<rparr>"

record kernel_public_inputs =
  kpi_end :: combined_accumulated_data
  kpi_constants :: combined_constant_data
  kpi_isPrivate :: bool

definition KernelCircuitPublicInputs_items :: "kernel_public_inputs \<Rightarrow> bufferable list" where
  "KernelCircuitPublicInputs_items r =
     [BObject (CombinedAccumulatedData_toBuffer (kpi_end r)), BObject (CombinedConstantData_toBuffer (kpi_constants r)),
     BBool (kpi_isPrivate r)]"

definition KernelCircuitPublicInputs_toBuffer :: "kernel_public_inputs \<Rightarrow> buffer result" where
  "KernelCircuitPublicInputs_toBuffer r = serializeToBuffer (KernelCircuitPublicInputs_items r)"

definition KernelCircuitPublicInputs_fromBuffer :: "kernel_public_inputs reading" where
  "KernelCircuitPublicInputs_fromBuffer =
     jbind (readObject CombinedAccumulatedData_fromBuffer) (\<lambda>v_kpi_end.
     jbind (readObject CombinedConstantData_fromBuffer) (\<lambda>v_kpi_constants. jbind readBoolean (\<lambda>v_kpi_isPrivate.
       jreturn \<lparr>kpi_end = v_kpi_end, kpi_constants = v_kpi_constants, kpi_isPrivate = v_kpi_isPrivate\<rparr>)))"

definition KernelCircuitPublicInputs_empty :: "kernel_public_inputs result" where
  "KernelCircuitPublicInputs_empty = rbind CombinedAccumulatedData_empty (\<lambda>d. rbind (new_ContractDeploymentData ContractDeploymentData_empty) (\<lambda>_.
     Inr \<lparr>kpi_end = d, kpi_constants = CombinedConstantData_empty, kpi_isPrivate = True\<rparr>))"

definition new_PublicKernelPublicInputs :: "combined_accumulated_data \<Rightarrow> combined_constant_data \<Rightarrow> kernel_public_inputs" where
  "new_PublicKernelPublicInputs d c = \<lparr>kpi_end = d, kpi_constants = c, kpi_isPrivate = False\<rparr>"

definition new_PrivateKernelPublicInputs :: "combined_accumulated_data \<Rightarrow> combined_constant_data \<Rightarrow> kernel_public_inputs" where
  "new_PrivateKernelPublicInputs d c = \<lparr>kpi_end = d, kpi_constants = c, kpi_isPrivate = True\<rparr>"

record previous_kernel_data =
  pkd_publicInputs :: kernel_public_inputs
  pkd_proof :: proof_data
  pkd_vk :: verification_key
  pkd_vkIndex :: int
  pkd_vkPath :: "fr list"

definition new_PreviousKernelData :: "previous_kernel_data \<Rightarrow> previous_kernel_data result" where
  "new_PreviousKernelData r =
     rbind (assertMemberLength ''vkPath'' VK_TREE_HEIGHT (pkd_vkPath r)) (\<lambda>_.
       Inr r)"

definition PreviousKernelData_items :: "previous_kernel_data \<Rightarrow> bufferable list" where
  "PreviousKernelData_items r =
     [BObject (KernelCircuitPublicInputs_toBuffer (pkd_publicInputs r)), BObject (Proof_toBuffer (pkd_proof r)),
     BObject (VerificationKey_toBuffer (pkd_vk r)), BNumber (pkd_vkIndex r),
     BArray (map (\<lambda>x. BObject (Fr_toBuffer x)) (pkd_vkPath r))]"

definition PreviousKernelData_toBuffer :: "previous_kernel_data \<Rightarrow> buffer result" where
  "PreviousKernelData_toBuffer r = serializeToBuffer (PreviousKernelData_items r)"

definition PreviousKernelData_fromBuffer :: "previous_kernel_data reading" where
  "PreviousKernelData_fromBuffer =
     jbind (readObject KernelCircuitPublicInputs_fromBuffer) (\<lambda>v_pkd_publicInputs.
     jbind (readObject Proof_fromBuffer) (\<lambda>v_pkd_proof. jbind (readObject VerificationKey_fromBuffer) (\<lambda>v_pkd_vk.
     jbind readNumber (\<lambda>v_pkd_vkIndex. jbind (readArray VK_TREE_HEIGHT Fr_fromBuffer) (\<lambda>v_pkd_vkPath.
       jlift (new_PreviousKernelData \<lparr>pkd_publicInputs = v_pkd_publicInputs, pkd_proof = v_pkd_proof, pkd_vk = v_pkd_vk, pkd_vkIndex = v_pkd_vkIndex,
        pkd_vkPath = v_pkd_vkPath\<rparr>))))))"

definition PreviousKernelData_empty :: "previous_kernel_data result" where
  "PreviousKernelData_empty = rbind KernelCircuitPublicInputs_empty (\<lambda>p. rbind VerificationKey_makeFake (\<lambda>vk.
     new_PreviousKernelData \<lparr>pkd_publicInputs = p, pkd_proof = makeEmptyProof, pkd_vk = vk, pkd_vkIndex = 0,
       pkd_vkPath = makeTuple VK_TREE_HEIGHT (\<lambda>_. Fr_ZERO) 0\<rparr>))"

end
