(* ===== verification/CallStructs.thy ===== *)
theory CallStructs
  imports KernelStructs
begin

text \<open>
  The structs of function calls, \<^verbatim>\<open>circuits.js/src/structs\<close>: call contexts, the public inputs of private and public circuits, call stack items,
  membership witnesses, transaction requests, and the inputs of the private and public kernel circuits.
\<close>

section \<open>Constants\<close>

definition ARGS_LENGTH :: nat where
  "ARGS_LENGTH = 8"

definition RETURN_VALUES_LENGTH :: nat where
  "RETURN_VALUES_LENGTH = 4"

definition READ_REQUESTS_LENGTH :: nat where
  "READ_REQUESTS_LENGTH = 4"

definition NEW_COMMITMENTS_LENGTH :: nat where
  "NEW_COMMITMENTS_LENGTH = 4"

definition NEW_NULLIFIERS_LENGTH :: nat where
  "NEW_NULLIFIERS_LENGTH = 4"

definition NEW_L2_TO_L1_MSGS_LENGTH :: nat where
  "NEW_L2_TO_L1_MSGS_LENGTH = 2"

definition PRIVATE_CALL_STACK_LENGTH :: nat where
  "PRIVATE_CALL_STACK_LENGTH = 4"

definition PUBLIC_CALL_STACK_LENGTH :: nat where
  "PUBLIC_CALL_STACK_LENGTH = 4"

definition FUNCTION_TREE_HEIGHT :: nat where
  "FUNCTION_TREE_HEIGHT = 4"

definition CONTRACT_TREE_HEIGHT :: nat where
  "CONTRACT_TREE_HEIGHT = 8"

definition PRIVATE_DATA_TREE_HEIGHT :: nat where
  "PRIVATE_DATA_TREE_HEIGHT = 8"

definition PUBLIC_DATA_TREE_HEIGHT :: nat where
  "PUBLIC_DATA_TREE_HEIGHT = 254"

section \<open>Call contexts\<close>

record call_context =
  cc_msgSender :: aztec_address
  cc_storageContractAddress :: aztec_address
  cc_portalContractAddress :: eth_address
  cc_isDelegateCall :: bool
  cc_isStaticCall :: bool
  cc_isContractDeployment :: bool

definition CallContext_items :: "call_context \<Rightarrow> bufferable list" where
  "CallContext_items r =
     [BObject (Inr (AztecAddress_toBuffer (cc_msgSender r))), BObject (Inr (AztecAddress_toBuffer (cc_storageContractAddress r))),
     BObject (Inr (EthAddress_toBuffer32 (cc_portalContractAddress r))), BBool (cc_isDelegateCall r), BBool (cc_isStaticCall r),
     BBool (cc_isContractDeployment r)]"

definition CallContext_toBuffer :: "call_context \<Rightarrow> buffer result" where
  "CallContext_toBuffer r = serializeToBuffer (CallContext_items r)"

definition CallContext_fromBuffer :: "call_context reading" where
  "CallContext_fromBuffer =
     jbind AztecAddress_fromBuffer (\<lambda>v_cc_msgSender. jbind AztecAddress_fromBuffer (\<lambda>v_cc_storageContractAddress.
     jbind readEthAddress32 (\<lambda>v_cc_portalContractAddress. jbind readBoolean (\<lambda>v_cc_isDelegateCall.
     jbind readBoolean (\<lambda>v_cc_isStaticCall. jbind readBoolean (\<lambda>v_cc_isContractDeployment.
       jreturn \<lparr>cc_msgSender = v_cc_msgSender, cc_storageContractAddress = v_cc_storageContractAddress,
        cc_portalContractAddress = v_cc_portalContractAddress, cc_isDelegateCall = v_cc_isDelegateCall,
        cc_isStaticCall = v_cc_isStaticCall, cc_isContractDeployment = v_cc_isContractDeployment\<rparr>))))))"

text \<open>The constructor takes the portal contract as an address or as a field element.\<close>

definition new_CallContext :: "aztec_address \<Rightarrow> aztec_address \<Rightarrow> eth_address + fr \<Rightarrow> bool \<Rightarrow> bool \<Rightarrow> bool \<Rightarrow> call_context result" where
  "new_CallContext msgSender storage portal del stat depl =
     rbind (case portal of Inl a \<Rightarrow> Inr a | Inr x \<Rightarrow> EthAddress_fromField x) (\<lambda>a.
       Inr \<lparr>cc_msgSender = msgSender, cc_storageContractAddress = storage, cc_portalContractAddress = a,
         cc_isDelegateCall = del, cc_isStaticCall = stat, cc_isContractDeployment = depl\<rparr>)"

definition CallContext_empty :: "call_context result" where
  "CallContext_empty = new_CallContext AztecAddress_ZERO AztecAddress_ZERO (Inr Fr_ZERO) False False False"

definition CallContext_isEmpty :: "call_context \<Rightarrow> bool" where
  "CallContext_isEmpty c \<longleftrightarrow> AztecAddress_isZero (cc_msgSender c) \<and> AztecAddress_isZero (cc_storageContractAddress c) \<and>
     EthAddress_isZero (cc_portalContractAddress c)"

section \<open>Public circuits\<close>

record contract_storage_read =
  csr_storageSlot :: fr
  csr_currentValue :: fr

definition ContractStorageRead_items :: "contract_storage_read \<Rightarrow> bufferable list" where
  "ContractStorageRead_items r =
     [BObject (Fr_toBuffer (csr_storageSlot r)), BObject (Fr_toBuffer (csr_currentValue r))]"

definition ContractStorageRead_toBuffer :: "contract_storage_read \<Rightarrow> buffer result" where
  "ContractStorageRead_toBuffer r = serializeToBuffer (ContractStorageRead_items r)"

definition ContractStorageRead_fromBuffer :: "contract_storage_read reading" where
  "ContractStorageRead_fromBuffer =
     jbind Fr_fromBuffer (\<lambda>v_csr_storageSlot. jbind Fr_fromBuffer (\<lambda>v_csr_currentValue.
       jreturn \<lparr>csr_storageSlot = v_csr_storageSlot, csr_currentValue = v_csr_currentValue\<rparr>))"

definition ContractStorageRead_empty :: contract_storage_read where
  "ContractStorageRead_empty = \<lparr>csr_storageSlot = Fr_ZERO, csr_currentValue = Fr_ZERO\<rparr>"

record contract_storage_update_request =
  csu_storageSlot :: fr
  csu_oldValue :: fr
  csu_newValue :: fr

definition ContractStorageUpdateRequest_items :: "contract_storage_update_request \<Rightarrow> bufferable list" where
  "ContractStorageUpdateRequest_items r =
     [BObject (Fr_toBuffer (csu_storageSlot r)), BObject (Fr_toBuffer (csu_oldValue r)), BObject (Fr_toBuffer (csu_newValue r))]"

definition ContractStorageUpdateRequest_toBuffer :: "contract_storage_update_request \<Rightarrow> buffer result" where
  "ContractStorageUpdateRequest_toBuffer r = serializeToBuffer (ContractStorageUpdateRequest_items r)"

definition ContractStorageUpdateRequest_fromBuffer :: "contract_storage_update_request reading" where
  "ContractStorageUpdateRequest_fromBuffer =
     jbind Fr_fromBuffer (\<lambda>v_csu_storageSlot. jbind Fr_fromBuffer (\<lambda>v_csu_oldValue.
     jbind Fr_fromBuffer (\<lambda>v_csu_newValue.
       jreturn \<lparr>csu_storageSlot = v_csu_storageSlot, csu_oldValue = v_csu_oldValue, csu_newValue = v_csu_newValue\<rparr>)))"

definition ContractStorageUpdateRequest_empty :: contract_storage_update_request where
  "ContractStorageUpdateRequest_empty = \<lparr>csu_storageSlot = Fr_ZERO, csu_oldValue = Fr_ZERO, csu_newValue = Fr_ZERO\<rparr>"

definition ContractStorageRead_isEmpty :: "contract_storage_read \<Rightarrow> bool" where
  "ContractStorageRead_isEmpty r \<longleftrightarrow> Fr_isZero (csr_storageSlot r) \<and> Fr_isZero (csr_currentValue r)"

definition ContractStorageUpdateRequest_isEmpty :: "contract_storage_update_request \<Rightarrow> bool" where
  "ContractStorageUpdateRequest_isEmpty r \<longleftrightarrow> Fr_isZero (csu_storageSlot r) \<and> Fr_isZero (csu_oldValue r) \<and> Fr_isZero (csu_newValue r)"

record public_circuit_public_inputs =
  pci_callContext :: call_context
  pci_argsHash :: fr
  pci_returnValues :: "fr list"
  pci_contractStorageUpdateRequests :: "contract_storage_update_request list"
  pci_contractStorageReads :: "contract_storage_read list"
  pci_publicCallStack :: "fr list"
  pci_newCommitments :: "fr list"
  pci_newNullifiers :: "fr list"
  pci_newL2ToL1Msgs :: "fr list"
  pci_historicPublicDataTreeRoot :: fr
  pci_proverAddress :: aztec_address

definition new_PublicCircuitPublicInputs :: "public_circuit_public_inputs \<Rightarrow> public_circuit_public_inputs result" where
  "new_PublicCircuitPublicInputs r =
     rbind (assertMemberLength ''returnValues'' RETURN_VALUES_LENGTH (pci_returnValues r)) (\<lambda>_.
     rbind (assertMemberLength ''publicCallStack'' PUBLIC_CALL_STACK_LENGTH (pci_publicCallStack r)) (\<lambda>_.
     rbind (assertMemberLength ''newCommitments'' NEW_COMMITMENTS_LENGTH (pci_newCommitments r)) (\<lambda>_.
     rbind (assertMemberLength ''newNullifiers'' NEW_NULLIFIERS_LENGTH (pci_newNullifiers r)) (\<lambda>_.
     rbind (assertMemberLength ''newL2ToL1Msgs'' NEW_L2_TO_L1_MSGS_LENGTH (pci_newL2ToL1Msgs r)) (\<lambda>_.
     rbind (assertMemberLength ''contractStorageUpdateRequests'' KERNEL_PUBLIC_DATA_UPDATE_REQUESTS_LENGTH (pci_contractStorageUpdateRequests r)) (\<lambda>_.
     rbind (assertMemberLength ''contractStorageReads'' KERNEL_PUBLIC_DATA_READS_LENGTH (pci_contractStorageReads r)) (\<lambda>_.
       Inr r)))))))"

definition PublicCircuitPublicInputs_items :: "public_circuit_public_inputs \<Rightarrow> bufferable list" where
  "PublicCircuitPublicInputs_items r =
     [BObject (CallContext_toBuffer (pci_callContext r)), BObject (Fr_toBuffer (pci_argsHash r)),
     BArray (map (\<lambda>x. BObject (Fr_toBuffer x)) (pci_returnValues r)),
     BArray (map (\<lambda>x. BObject (ContractStorageUpdateRequest_toBuffer x)) (pci_contractStorageUpdateRequests r)),
     BArray (map (\<lambda>x. BObject (ContractStorageRead_toBuffer x)) (pci_contractStorageReads r)),
     BArray (map (\<lambda>x. BObject (Fr_toBuffer x)) (pci_publicCallStack r)),
     BArray (map (\<lambda>x. BObject (Fr_toBuffer x)) (pci_newCommitments r)),
     BArray (map (\<lambda>x. BObject (Fr_toBuffer x)) (pci_newNullifiers r)),
     BArray (map (\<lambda>x. BObject (Fr_toBuffer x)) (pci_newL2ToL1Msgs r)),
     BObject (Fr_toBuffer (pci_historicPublicDataTreeRoot r)), BObject (Inr (AztecAddress_toBuffer (pci_proverAddress r)))]"

definition PublicCircuitPublicInputs_toBuffer :: "public_circuit_public_inputs \<Rightarrow> buffer result" where
  "PublicCircuitPublicInputs_toBuffer r = serializeToBuffer (PublicCircuitPublicInputs_items r)"

definition PublicCircuitPublicInputs_empty :: "public_circuit_public_inputs result" where
  "PublicCircuitPublicInputs_empty = rbind CallContext_empty (\<lambda>c. new_PublicCircuitPublicInputs
     \<lparr>pci_callContext = c, pci_argsHash = Fr_ZERO, pci_returnValues = makeTuple RETURN_VALUES_LENGTH (\<lambda>_. Fr_ZERO) 0,
      pci_contractStorageUpdateRequests = makeTuple KERNEL_PUBLIC_DATA_UPDATE_REQUESTS_LENGTH (\<lambda>_. ContractStorageUpdateRequest_empty) 0,
      pci_contractStorageReads = makeTuple KERNEL_PUBLIC_DATA_READS_LENGTH (\<lambda>_. ContractStorageRead_empty) 0,
      pci_publicCallStack = makeTuple PUBLIC_CALL_STACK_LENGTH (\<lambda>_. Fr_ZERO) 0,
      pci_newCommitments = makeTuple NEW_COMMITMENTS_LENGTH (\<lambda>_. Fr_ZERO) 0, pci_newNullifiers = makeTuple NEW_NULLIFIERS_LENGTH (\<lambda>_. Fr_ZERO) 0,
      pci_newL2ToL1Msgs = makeTuple NEW_L2_TO_L1_MSGS_LENGTH (\<lambda>_. Fr_ZERO) 0, pci_historicPublicDataTreeRoot = Fr_ZERO,
      pci_proverAddress = AztecAddress_ZERO\<rparr>)"

definition PublicCircuitPublicInputs_isEmpty :: "public_circuit_public_inputs \<Rightarrow> bool" where
  "PublicCircuitPublicInputs_isEmpty r \<longleftrightarrow> CallContext_isEmpty (pci_callContext r) \<and> Fr_isZero (pci_argsHash r) \<and>
     isArrayEmpty (pci_returnValues r) Fr_isZero \<and>
     isArrayEmpty (pci_contractStorageUpdateRequests r) ContractStorageUpdateRequest_isEmpty \<and>
     isArrayEmpty (pci_contractStorageReads r) ContractStorageRead_isEmpty \<and> isArrayEmpty (pci_publicCallStack r) Fr_isZero \<and>
     isArrayEmpty (pci_newCommitments r) Fr_isZero \<and> isArrayEmpty (pci_newNullifiers r) Fr_isZero \<and>
     isArrayEmpty (pci_newL2ToL1Msgs r) Fr_isZero \<and> Fr_isZero (pci_historicPublicDataTreeRoot r) \<and> AztecAddress_isZero (pci_proverAddress r)"

section \<open>Private circuits\<close>

record private_circuit_public_inputs =
  pvi_callContext :: call_context
  pvi_argsHash :: fr
  pvi_returnValues :: "fr list"
  pvi_readRequests :: "fr list"
  pvi_newCommitments :: "fr list"
  pvi_newNullifiers :: "fr list"
  pvi_privateCallStack :: "fr list"
  pvi_publicCallStack :: "fr list"
  pvi_newL2ToL1Msgs :: "fr list"
  pvi_encryptedLogsHash :: "fr list"
  pvi_unencryptedLogsHash :: "fr list"
  pvi_encryptedLogPreimagesLength :: fr
  pvi_unencryptedLogPreimagesLength :: fr
  pvi_historicPrivateDataTreeRoot :: fr
  pvi_historicPrivateNullifierTreeRoot :: fr
  pvi_historicContractTreeRoot :: fr
  pvi_historicL1ToL2MessagesTreeRoot :: fr
  pvi_contractDeploymentData :: contract_deployment_data

definition new_PrivateCircuitPublicInputs :: "private_circuit_public_inputs \<Rightarrow> private_circuit_public_inputs result" where
  "new_PrivateCircuitPublicInputs r =
     rbind (assertMemberLength ''returnValues'' RETURN_VALUES_LENGTH (pvi_returnValues r)) (\<lambda>_.
     rbind (assertMemberLength ''readRequests'' READ_REQUESTS_LENGTH (pvi_readRequests r)) (\<lambda>_.
     rbind (assertMemberLength ''newCommitments'' NEW_COMMITMENTS_LENGTH (pvi_newCommitments r)) (\<lambda>_.
     rbind (assertMemberLength ''newNullifiers'' NEW_NULLIFIERS_LENGTH (pvi_newNullifiers r)) (\<lambda>_.
     rbind (assertMemberLength ''privateCallStack'' PRIVATE_CALL_STACK_LENGTH (pvi_privateCallStack r)) (\<lambda>_.
     rbind (assertMemberLength ''publicCallStack'' PUBLIC_CALL_STACK_LENGTH (pvi_publicCallStack r)) (\<lambda>_.
     rbind (assertMemberLength ''newL2ToL1Msgs'' NEW_L2_TO_L1_MSGS_LENGTH (pvi_newL2ToL1Msgs r)) (\<lambda>_.
     rbind (assertMemberLength ''encryptedLogsHash'' 2 (pvi_encryptedLogsHash r)) (\<lambda>_.
     rbind (assertMemberLength ''unencryptedLogsHash'' 2 (pvi_unencryptedLogsHash r)) (\<lambda>_.
       Inr r)))))))))"

definition PrivateCircuitPublicInputs_items :: "private_circuit_public_inputs \<Rightarrow> bufferable list" where
  "PrivateCircuitPublicInputs_items r =
     [BObject (CallContext_toBuffer (pvi_callContext r)), BObject (Fr_toBuffer (pvi_argsHash r)),
     BArray (map (\<lambda>x. BObject (Fr_toBuffer x)) (pvi_returnValues r)),
     BArray (map (\<lambda>x. BObject (Fr_toBuffer x)) (pvi_readRequests r)),
     BArray (map (\<lambda>x. BObject (Fr_toBuffer x)) (pvi_newCommitments r)),
     BArray (map (\<lambda>x. BObject (Fr_toBuffer x)) (pvi_newNullifiers r)),
     BArray (map (\<lambda>x. BObject (Fr_toBuffer x)) (pvi_privateCallStack r)),
     BArray (map (\<lambda>x. BObject (Fr_toBuffer x)) (pvi_publicCallStack r)),
     BArray (map (\<lambda>x. BObject (Fr_toBuffer x)) (pvi_newL2ToL1Msgs r)),
     BArray (map (\<lambda>x. BObject (Fr_toBuffer x)) (pvi_encryptedLogsHash r)),
     BArray (map (\<lambda>x. BObject (Fr_toBuffer x)) (pvi_unencryptedLogsHash r)),
     BObject (Fr_toBuffer (pvi_encryptedLogPreimagesLength r)), BObject (Fr_toBuffer (pvi_unencryptedLogPreimagesLength r)),
     BObject (Fr_toBuffer (pvi_historicPrivateDataTreeRoot r)), BObject (Fr_toBuffer (pvi_historicPrivateNullifierTreeRoot r)),
     BObject (Fr_toBuffer (pvi_historicContractTreeRoot r)), BObject (Fr_toBuffer (pvi_historicL1ToL2MessagesTreeRoot r)),
     BObject (ContractDeploymentData_toBuffer (pvi_contractDeploymentData r))]"

definition PrivateCircuitPublicInputs_toBuffer :: "private_circuit_public_inputs \<Rightarrow> buffer result" where
  "PrivateCircuitPublicInputs_toBuffer r = serializeToBuffer (PrivateCircuitPublicInputs_items r)"

definition PrivateCircuitPublicInputs_empty :: "private_circuit_public_inputs result" where
  "PrivateCircuitPublicInputs_empty = rbind CallContext_empty (\<lambda>c. rbind (new_ContractDeploymentData ContractDeploymentData_empty) (\<lambda>d.
     let frArray = (\<lambda>num. replicate num Fr_ZERO) in new_PrivateCircuitPublicInputs
     \<lparr>pvi_callContext = c, pvi_argsHash = Fr_ZERO, pvi_returnValues = frArray RETURN_VALUES_LENGTH,
      pvi_readRequests = frArray READ_REQUESTS_LENGTH,
      pvi_newCommitments = frArray NEW_COMMITMENTS_LENGTH,
      pvi_newNullifiers = frArray NEW_NULLIFIERS_LENGTH,
      pvi_privateCallStack = frArray PRIVATE_CALL_STACK_LENGTH,
      pvi_publicCallStack = frArray PUBLIC_CALL_STACK_LENGTH,
      pvi_newL2ToL1Msgs = frArray NEW_L2_TO_L1_MSGS_LENGTH,
      pvi_encryptedLogsHash = frArray 2,
      pvi_unencryptedLogsHash = frArray 2,
      pvi_encryptedLogPreimagesLength = Fr_ZERO,
      pvi_unencryptedLogPreimagesLength = Fr_ZERO,
      pvi_historicPrivateDataTreeRoot = Fr_ZERO,
      pvi_historicPrivateNullifierTreeRoot = Fr_ZERO,
      pvi_historicContractTreeRoot = Fr_ZERO,
      pvi_historicL1ToL2MessagesTreeRoot = Fr_ZERO,
      pvi_contractDeploymentData = d\<rparr>))"

section \<open>Call stack items\<close>

record private_call_stack_item =
  pvs_contractAddress :: aztec_address
  pvs_functionData :: function_data
  pvs_publicInputs :: private_circuit_public_inputs

definition PrivateCallStackItem_items :: "private_call_stack_item \<Rightarrow> bufferable list" where
  "PrivateCallStackItem_items r =
     [BObject (Inr (AztecAddress_toBuffer (pvs_contractAddress r))), BObject (FunctionData_toBuffer (pvs_functionData r)),
     BObject (PrivateCircuitPublicInputs_toBuffer (pvs_publicInputs r)), BBool False]"

definition PrivateCallStackItem_toBuffer :: "private_call_stack_item \<Rightarrow> buffer result" where
  "PrivateCallStackItem_toBuffer r = serializeToBuffer (PrivateCallStackItem_items r)"

record public_call_stack_item =
  pcs_contractAddress :: aztec_address
  pcs_functionData :: function_data
  pcs_publicInputs :: public_circuit_public_inputs
  pcs_isExecutionRequest :: bool

definition PublicCallStackItem_items :: "public_call_stack_item \<Rightarrow> bufferable list" where
  "PublicCallStackItem_items r =
     [BObject (Inr (AztecAddress_toBuffer (pcs_contractAddress r))), BObject (FunctionData_toBuffer (pcs_functionData r)),
     BObject (PublicCircuitPublicInputs_toBuffer (pcs_publicInputs r)), BBool (pcs_isExecutionRequest r)]"

definition PublicCallStackItem_toBuffer :: "public_call_stack_item \<Rightarrow> buffer result" where
  "PublicCallStackItem_toBuffer r = serializeToBuffer (PublicCallStackItem_items r)"

definition PrivateCallStackItem_empty :: "private_call_stack_item result" where
  "PrivateCallStackItem_empty = rbind (new_FunctionData (FunctionData_empty True False)) (\<lambda>fd. rbind PrivateCircuitPublicInputs_empty (\<lambda>p.
     Inr \<lparr>pvs_contractAddress = AztecAddress_ZERO, pvs_functionData = fd, pvs_publicInputs = p\<rparr>))"

definition PublicCallStackItem_empty :: "public_call_stack_item result" where
  "PublicCallStackItem_empty = rbind (new_FunctionData (FunctionData_empty False False)) (\<lambda>fd. rbind PublicCircuitPublicInputs_empty (\<lambda>p.
     Inr \<lparr>pcs_contractAddress = AztecAddress_ZERO, pcs_functionData = fd, pcs_publicInputs = p, pcs_isExecutionRequest = False\<rparr>))"

definition PublicCallStackItem_isEmpty :: "public_call_stack_item \<Rightarrow> bool" where
  "PublicCallStackItem_isEmpty i \<longleftrightarrow> AztecAddress_isZero (pcs_contractAddress i) \<and> FunctionData_isEmpty (pcs_functionData i) \<and>
     PublicCircuitPublicInputs_isEmpty (pcs_publicInputs i)"

record public_call_request =
  pcr_contractAddress :: aztec_address
  pcr_functionData :: function_data
  pcr_callContext :: call_context
  pcr_args :: "fr list"

definition PublicCallRequest_items :: "public_call_request \<Rightarrow> bufferable list" where
  "PublicCallRequest_items r =
     [BObject (Inr (AztecAddress_toBuffer (pcr_contractAddress r))), BObject (FunctionData_toBuffer (pcr_functionData r)),
     BObject (CallContext_toBuffer (pcr_callContext r)), BArray (map (\<lambda>x. BObject (Fr_toBuffer x)) (pcr_args r))]"

definition PublicCallRequest_toBuffer :: "public_call_request \<Rightarrow> buffer result" where
  "PublicCallRequest_toBuffer r = serializeToBuffer (PublicCallRequest_items r)"

definition PublicCallRequest_fromBuffer :: "public_call_request reading" where
  "PublicCallRequest_fromBuffer =
     jbind AztecAddress_fromBuffer (\<lambda>v_pcr_contractAddress.
     jbind (readObject FunctionData_fromBuffer) (\<lambda>v_pcr_functionData.
     jbind (readObject CallContext_fromBuffer) (\<lambda>v_pcr_callContext.
     jbind (readArray ARGS_LENGTH Fr_fromBuffer) (\<lambda>v_pcr_args.
       jreturn \<lparr>pcr_contractAddress = v_pcr_contractAddress, pcr_functionData = v_pcr_functionData, pcr_callContext = v_pcr_callContext,
        pcr_args = v_pcr_args\<rparr>))))"

text \<open>The hash of the arguments is computed by the circuits in WebAssembly, a parameter of the model.\<close>

definition PublicCallRequest_getArgsHash :: "(fr list \<Rightarrow> fr result) \<Rightarrow> public_call_request \<Rightarrow> fr result" where
  "PublicCallRequest_getArgsHash computeVarArgsHash r = computeVarArgsHash (pcr_args r)"

definition PublicCallRequest_toPublicCallStackItem ::
  "(fr list \<Rightarrow> fr result) \<Rightarrow> public_call_request \<Rightarrow> public_call_stack_item result" where
  "PublicCallRequest_toPublicCallStackItem computeVarArgsHash r =
     rbind PublicCircuitPublicInputs_empty (\<lambda>p. rbind (PublicCallRequest_getArgsHash computeVarArgsHash r) (\<lambda>h.
       Inr \<lparr>pcs_contractAddress = pcr_contractAddress r, pcs_functionData = pcr_functionData r,
         pcs_publicInputs = p\<lparr>pci_callContext := pcr_callContext r, pci_argsHash := h\<rparr>, pcs_isExecutionRequest = True\<rparr>))"

section \<open>Membership witnesses and function leaves\<close>

record membership_witness =
  mw_leafIndex :: int
  mw_siblingPath :: "fr list"

definition new_MembershipWitness :: "nat \<Rightarrow> int \<Rightarrow> fr list \<Rightarrow> membership_witness result" where
  "new_MembershipWitness sz i path =
     rbind (assertMemberLength ''siblingPath'' sz path) (\<lambda>_. Inr \<lparr>mw_leafIndex = i, mw_siblingPath = path\<rparr>)"

definition MembershipWitness_items :: "membership_witness \<Rightarrow> bufferable list" where
  "MembershipWitness_items w = BObject (toBufferBE (mw_leafIndex w) 32) # map (\<lambda>x. BObject (Fr_toBuffer x)) (mw_siblingPath w)"

definition MembershipWitness_toBuffer :: "membership_witness \<Rightarrow> buffer result" where
  "MembershipWitness_toBuffer w = serializeToBuffer (MembershipWitness_items w)"

definition MembershipWitness_empty :: "nat \<Rightarrow> int \<Rightarrow> membership_witness result" where
  "MembershipWitness_empty sz i = new_MembershipWitness sz i (replicate sz Fr_ZERO)"

definition MembershipWitness_mock :: "nat \<Rightarrow> int \<Rightarrow> membership_witness result" where
  "MembershipWitness_mock n start = new_MembershipWitness n start (map new_Fr (range_from n start))"

definition MembershipWitness_fromBufferArray :: "int \<Rightarrow> buffer list \<Rightarrow> membership_witness result" where
  "MembershipWitness_fromBufferArray i path =
     rbind (rtraverse (\<lambda>b. fst (Fr_fromBuffer (new_BufferReader b 0))) path) (\<lambda>frs. new_MembershipWitness (length path) i frs)"

record function_leaf_preimage =
  flp_functionSelector :: buffer
  flp_isPrivate :: bool
  flp_vkHash :: fr
  flp_acirHash :: fr

definition assertFunctionSelectorLength :: "buffer \<Rightarrow> unit result" where
  "assertFunctionSelectorLength sel =
     (if length sel \<noteq> FUNCTION_SELECTOR_LENGTH
      then Inl (Error (''Function selector must be '' @ dec (int FUNCTION_SELECTOR_LENGTH) @ '' bytes long, got '' @ dec (int (length sel)) @ '' bytes.''))
      else Inr ())"

definition new_FunctionLeafPreimage :: "function_leaf_preimage \<Rightarrow> function_leaf_preimage result" where
  "new_FunctionLeafPreimage r = rbind (assertFunctionSelectorLength (flp_functionSelector r)) (\<lambda>_. Inr r)"

definition FunctionLeafPreimage_items :: "function_leaf_preimage \<Rightarrow> bufferable list" where
  "FunctionLeafPreimage_items r =
     [BBuffer (flp_functionSelector r), BBool (flp_isPrivate r), BObject (Fr_toBuffer (flp_vkHash r)),
     BObject (Fr_toBuffer (flp_acirHash r))]"

definition FunctionLeafPreimage_toBuffer :: "function_leaf_preimage \<Rightarrow> buffer result" where
  "FunctionLeafPreimage_toBuffer r =
     rbind (assertFunctionSelectorLength (flp_functionSelector r)) (\<lambda>_. serializeToBuffer (FunctionLeafPreimage_items r))"

definition FunctionLeafPreimage_fromBuffer :: "function_leaf_preimage reading" where
  "FunctionLeafPreimage_fromBuffer =
     jbind (readBytes FUNCTION_SELECTOR_LENGTH) (\<lambda>v_flp_functionSelector. jbind readBoolean (\<lambda>v_flp_isPrivate.
     jbind Fr_fromBuffer (\<lambda>v_flp_vkHash. jbind Fr_fromBuffer (\<lambda>v_flp_acirHash.
       jlift (new_FunctionLeafPreimage \<lparr>flp_functionSelector = v_flp_functionSelector, flp_isPrivate = v_flp_isPrivate, flp_vkHash = v_flp_vkHash,
        flp_acirHash = v_flp_acirHash\<rparr>)))))"

section \<open>Private kernel\<close>

record tx_request =
  txr_from :: aztec_address
  txr_to :: aztec_address
  txr_functionData :: function_data
  txr_argsHash :: fr
  txr_nonce :: fr
  txr_txContext :: tx_context
  txr_chainId :: fr

definition TxRequest_items :: "tx_request \<Rightarrow> bufferable list" where
  "TxRequest_items r =
     [BObject (Inr (AztecAddress_toBuffer (txr_from r))), BObject (Inr (AztecAddress_toBuffer (txr_to r))),
     BObject (FunctionData_toBuffer (txr_functionData r)), BObject (Fr_toBuffer (txr_argsHash r)), BObject (Fr_toBuffer (txr_nonce r)),
     BObject (TxContext_toBuffer (txr_txContext r)), BObject (Fr_toBuffer (txr_chainId r))]"

definition TxRequest_toBuffer :: "tx_request \<Rightarrow> buffer result" where
  "TxRequest_toBuffer r = serializeToBuffer [BArray (TxRequest_items r)]"

definition TxRequest_fromBuffer :: "tx_request reading" where
  "TxRequest_fromBuffer =
     jbind AztecAddress_fromBuffer (\<lambda>v_txr_from. jbind AztecAddress_fromBuffer (\<lambda>v_txr_to.
     jbind (readObject FunctionData_fromBuffer) (\<lambda>v_txr_functionData. jbind Fr_fromBuffer (\<lambda>v_txr_argsHash.
     jbind Fr_fromBuffer (\<lambda>v_txr_nonce. jbind (readObject TxContext_fromBuffer) (\<lambda>v_txr_txContext.
     jbind Fr_fromBuffer (\<lambda>v_txr_chainId.
       jreturn \<lparr>txr_from = v_txr_from, txr_to = v_txr_to, txr_functionData = v_txr_functionData, txr_argsHash = v_txr_argsHash,
        txr_nonce = v_txr_nonce, txr_txContext = v_txr_txContext, txr_chainId = v_txr_chainId\<rparr>)))))))"

record signed_tx_request =
  stx_txRequest :: tx_request
  stx_signature :: ecdsa_signature

definition SignedTxRequest_items :: "signed_tx_request \<Rightarrow> bufferable list" where
  "SignedTxRequest_items r =
     [BObject (TxRequest_toBuffer (stx_txRequest r)), BObject (EcdsaSignature_toBuffer (stx_signature r))]"

definition SignedTxRequest_toBuffer :: "signed_tx_request \<Rightarrow> buffer result" where
  "SignedTxRequest_toBuffer r = serializeToBuffer (SignedTxRequest_items r)"

definition SignedTxRequest_fromBuffer :: "signed_tx_request reading" where
  "SignedTxRequest_fromBuffer =
     jbind (readObject TxRequest_fromBuffer) (\<lambda>v_stx_txRequest.
     jbind (readObject EcdsaSignature_fromBuffer) (\<lambda>v_stx_signature.
       jreturn \<lparr>stx_txRequest = v_stx_txRequest, stx_signature = v_stx_signature\<rparr>))"

record private_call_data =
  pvd_callStackItem :: private_call_stack_item
  pvd_privateCallStackPreimages :: "private_call_stack_item list"
  pvd_proof :: proof_data
  pvd_vk :: verification_key
  pvd_functionLeafMembershipWitness :: membership_witness
  pvd_contractLeafMembershipWitness :: membership_witness
  pvd_readRequestMembershipWitnesses :: "membership_witness list"
  pvd_portalContractAddress :: eth_address
  pvd_acirHash :: fr

definition new_PrivateCallData :: "private_call_data \<Rightarrow> private_call_data result" where
  "new_PrivateCallData r =
     rbind (assertMemberLength ''privateCallStackPreimages'' PRIVATE_CALL_STACK_LENGTH (pvd_privateCallStackPreimages r)) (\<lambda>_.
     rbind (assertMemberLength ''readRequestMembershipWitnesses'' READ_REQUESTS_LENGTH (pvd_readRequestMembershipWitnesses r)) (\<lambda>_.
       Inr r))"

definition PrivateCallData_items :: "private_call_data \<Rightarrow> bufferable list" where
  "PrivateCallData_items r =
     [BObject (PrivateCallStackItem_toBuffer (pvd_callStackItem r)),
     BArray (map (\<lambda>x. BObject (PrivateCallStackItem_toBuffer x)) (pvd_privateCallStackPreimages r)),
     BObject (Proof_toBuffer (pvd_proof r)), BObject (VerificationKey_toBuffer (pvd_vk r)),
     BObject (MembershipWitness_toBuffer (pvd_functionLeafMembershipWitness r)),
     BObject (MembershipWitness_toBuffer (pvd_contractLeafMembershipWitness r)),
     BArray (map (\<lambda>x. BObject (MembershipWitness_toBuffer x)) (pvd_readRequestMembershipWitnesses r)),
     BObject (Inr (EthAddress_toBuffer32 (pvd_portalContractAddress r))), BObject (Fr_toBuffer (pvd_acirHash r))]"

definition PrivateCallData_toBuffer :: "private_call_data \<Rightarrow> buffer result" where
  "PrivateCallData_toBuffer r = serializeToBuffer (PrivateCallData_items r)"

record private_kernel_inputs_init =
  pki_signedTxRequest :: signed_tx_request
  pki_privateCall :: private_call_data

definition PrivateKernelInputsInit_items :: "private_kernel_inputs_init \<Rightarrow> bufferable list" where
  "PrivateKernelInputsInit_items r =
     [BObject (SignedTxRequest_toBuffer (pki_signedTxRequest r)), BObject (PrivateCallData_toBuffer (pki_privateCall r))]"

definition PrivateKernelInputsInit_toBuffer :: "private_kernel_inputs_init \<Rightarrow> buffer result" where
  "PrivateKernelInputsInit_toBuffer r = serializeToBuffer (PrivateKernelInputsInit_items r)"

record private_kernel_inputs_inner =
  pkn_previousKernel :: previous_kernel_data
  pkn_privateCall :: private_call_data

definition PrivateKernelInputsInner_items :: "private_kernel_inputs_inner \<Rightarrow> bufferable list" where
  "PrivateKernelInputsInner_items r =
     [BObject (PreviousKernelData_toBuffer (pkn_previousKernel r)), BObject (PrivateCallData_toBuffer (pkn_privateCall r))]"

definition PrivateKernelInputsInner_toBuffer :: "private_kernel_inputs_inner \<Rightarrow> buffer result" where
  "PrivateKernelInputsInner_toBuffer r = serializeToBuffer (PrivateKernelInputsInner_items r)"

section \<open>Public kernel\<close>

record public_call_data =
  pcd_callStackItem :: public_call_stack_item
  pcd_publicCallStackPreimages :: "public_call_stack_item list"
  pcd_proof :: proof_data
  pcd_portalContractAddress :: fr
  pcd_bytecodeHash :: fr

definition new_PublicCallData :: "public_call_data \<Rightarrow> public_call_data result" where
  "new_PublicCallData r =
     rbind (assertMemberLength ''publicCallStackPreimages'' PUBLIC_CALL_STACK_LENGTH (pcd_publicCallStackPreimages r)) (\<lambda>_.
       Inr r)"

definition PublicCallData_items :: "public_call_data \<Rightarrow> bufferable list" where
  "PublicCallData_items r =
     [BObject (PublicCallStackItem_toBuffer (pcd_callStackItem r)),
     BArray (map (\<lambda>x. BObject (PublicCallStackItem_toBuffer x)) (pcd_publicCallStackPreimages r)),
     BObject (Proof_toBuffer (pcd_proof r)), BObject (Fr_toBuffer (pcd_portalContractAddress r)),
     BObject (Fr_toBuffer (pcd_bytecodeHash r))]"

definition PublicCallData_toBuffer :: "public_call_data \<Rightarrow> buffer result" where
  "PublicCallData_toBuffer r = serializeToBuffer (PublicCallData_items r)"

record witnessed_public_call_data =
  wpc_publicCall :: public_call_data
  wpc_updateRequestsHashPaths :: "membership_witness list"
  wpc_readsHashPaths :: "membership_witness list"
  wpc_publicDataTreeRoot :: fr

definition new_WitnessedPublicCallData :: "witnessed_public_call_data \<Rightarrow> witnessed_public_call_data result" where
  "new_WitnessedPublicCallData r =
     rbind (assertMemberLength ''updateRequestsHashPaths'' KERNEL_PUBLIC_DATA_UPDATE_REQUESTS_LENGTH (wpc_updateRequestsHashPaths r)) (\<lambda>_.
     rbind (assertMemberLength ''readsHashPaths'' KERNEL_PUBLIC_DATA_READS_LENGTH (wpc_readsHashPaths r)) (\<lambda>_.
       Inr r))"

definition WitnessedPublicCallData_items :: "witnessed_public_call_data \<Rightarrow> bufferable list" where
  "WitnessedPublicCallData_items r =
     [BObject (PublicCallData_toBuffer (wpc_publicCall r)),
     BArray (map (\<lambda>x. BObject (MembershipWitness_toBuffer x)) (wpc_updateRequestsHashPaths r)),
     BArray (map (\<lambda>x. BObject (MembershipWitness_toBuffer x)) (wpc_readsHashPaths r)),
     BObject (Fr_toBuffer (wpc_publicDataTreeRoot r))]"

definition WitnessedPublicCallData_toBuffer :: "witnessed_public_call_data \<Rightarrow> buffer result" where
  "WitnessedPublicCallData_toBuffer r = serializeToBuffer (WitnessedPublicCallData_items r)"

record public_kernel_inputs =
  pbi_previousKernel :: previous_kernel_data
  pbi_publicCall :: public_call_data

definition PublicKernelInputs_items :: "public_kernel_inputs \<Rightarrow> bufferable list" where
  "PublicKernelInputs_items r =
     [BObject (PreviousKernelData_toBuffer (pbi_previousKernel r)), BObject (PublicCallData_toBuffer (pbi_publicCall r))]"

definition PublicKernelInputs_toBuffer :: "public_kernel_inputs \<Rightarrow> buffer result" where
  "PublicKernelInputs_toBuffer r = serializeToBuffer (PublicKernelInputs_items r)"

record public_kernel_inputs_no_previous =
  pbn_signedTxRequest :: signed_tx_request
  pbn_publicCallData :: public_call_data
  pbn_historicTreeRoots :: combined_historic_tree_roots

definition PublicKernelInputsNoPreviousKernel_items :: "public_kernel_inputs_no_previous \<Rightarrow> bufferable list" where
  "PublicKernelInputsNoPreviousKernel_items r =
     [BObject (SignedTxRequest_toBuffer (pbn_signedTxRequest r)), BObject (PublicCallData_toBuffer (pbn_publicCallData r)),
     BObject (CombinedHistoricTreeRoots_toBuffer (pbn_historicTreeRoots r))]"

definition PublicKernelInputsNoPreviousKernel_toBuffer :: "public_kernel_inputs_no_previous \<Rightarrow> buffer result" where
  "PublicKernelInputsNoPreviousKernel_toBuffer r = serializeToBuffer (PublicKernelInputsNoPreviousKernel_items r)"

end
