(* ===== verification/RollupStructs.thy ===== *)
theory RollupStructs
  imports CallStructs
begin

text \<open>
  The structs of the rollup circuits, \<^verbatim>\<open>circuits.js/src/structs/rollup\<close>: the inputs and public inputs of the base, merge and root rollups.
\<close>

section \<open>Constants\<close>

definition NULLIFIER_TREE_HEIGHT :: nat where
  "NULLIFIER_TREE_HEIGHT = 8"

definition NUMBER_OF_L1_L2_MESSAGES_PER_ROLLUP :: nat where
  "NUMBER_OF_L1_L2_MESSAGES_PER_ROLLUP = 16"

definition L1_TO_L2_MESSAGES_TREE_HEIGHT :: nat where
  "L1_TO_L2_MESSAGES_TREE_HEIGHT = 8"

definition L1_TO_L2_MESSAGES_ROOTS_TREE_HEIGHT :: nat where
  "L1_TO_L2_MESSAGES_ROOTS_TREE_HEIGHT = 8"

definition PRIVATE_DATA_TREE_ROOTS_TREE_HEIGHT :: nat where
  "PRIVATE_DATA_TREE_ROOTS_TREE_HEIGHT = 8"

definition CONTRACT_TREE_ROOTS_TREE_HEIGHT :: nat where
  "CONTRACT_TREE_ROOTS_TREE_HEIGHT = 8"

definition ROLLUP_VK_TREE_HEIGHT :: nat where
  "ROLLUP_VK_TREE_HEIGHT = 8"

text \<open>The heights of subtrees are logarithms of numbers that are powers of two.\<close>

definition L1_TO_L2_MESSAGES_SUBTREE_HEIGHT :: nat where
  "L1_TO_L2_MESSAGES_SUBTREE_HEIGHT = 4"

definition L1_TO_L2_MESSAGES_SIBLING_PATH_LENGTH :: nat where
  "L1_TO_L2_MESSAGES_SIBLING_PATH_LENGTH = L1_TO_L2_MESSAGES_TREE_HEIGHT - L1_TO_L2_MESSAGES_SUBTREE_HEIGHT"

definition PRIVATE_DATA_SUBTREE_HEIGHT :: nat where
  "PRIVATE_DATA_SUBTREE_HEIGHT = 3"

definition CONTRACT_SUBTREE_HEIGHT :: nat where
  "CONTRACT_SUBTREE_HEIGHT = 1"

definition NULLIFIER_SUBTREE_HEIGHT :: nat where
  "NULLIFIER_SUBTREE_HEIGHT = 3"

lemma subtree_heights:
  "2 ^ L1_TO_L2_MESSAGES_SUBTREE_HEIGHT = NUMBER_OF_L1_L2_MESSAGES_PER_ROLLUP"
  "2 ^ PRIVATE_DATA_SUBTREE_HEIGHT = 2 * KERNEL_NEW_COMMITMENTS_LENGTH"
  "2 ^ CONTRACT_SUBTREE_HEIGHT = 2 * KERNEL_NEW_CONTRACTS_LENGTH"
  "2 ^ NULLIFIER_SUBTREE_HEIGHT = 2 * KERNEL_NEW_NULLIFIERS_LENGTH"
  by (simp_all add: L1_TO_L2_MESSAGES_SUBTREE_HEIGHT_def NUMBER_OF_L1_L2_MESSAGES_PER_ROLLUP_def PRIVATE_DATA_SUBTREE_HEIGHT_def
      CONTRACT_SUBTREE_HEIGHT_def NULLIFIER_SUBTREE_HEIGHT_def KERNEL_NEW_COMMITMENTS_LENGTH_def KERNEL_NEW_CONTRACTS_LENGTH_def
      KERNEL_NEW_NULLIFIERS_LENGTH_def)

section \<open>Base rollup\<close>

record nullifier_leaf_preimage =
  nlp_leafValue :: fr
  nlp_nextValue :: fr
  nlp_nextIndex :: int

definition NullifierLeafPreimage_items :: "nullifier_leaf_preimage \<Rightarrow> bufferable list" where
  "NullifierLeafPreimage_items r =
     [BObject (Fr_toBuffer (nlp_leafValue r)), BObject (Fr_toBuffer (nlp_nextValue r)), BNumber (nlp_nextIndex r)]"

definition NullifierLeafPreimage_toBuffer :: "nullifier_leaf_preimage \<Rightarrow> buffer result" where
  "NullifierLeafPreimage_toBuffer r = serializeToBuffer (NullifierLeafPreimage_items r)"

definition NullifierLeafPreimage_empty :: nullifier_leaf_preimage where
  "NullifierLeafPreimage_empty = \<lparr>nlp_leafValue = Fr_ZERO, nlp_nextValue = Fr_ZERO, nlp_nextIndex = 0\<rparr>"

record constant_base_rollup_data =
  cbr_startTreeOfHistoricPrivateDataTreeRootsSnapshot :: append_only_tree_snapshot
  cbr_startTreeOfHistoricContractTreeRootsSnapshot :: append_only_tree_snapshot
  cbr_startTreeOfHistoricL1ToL2MsgTreeRootsSnapshot :: append_only_tree_snapshot
  cbr_privateKernelVkTreeRoot :: fr
  cbr_publicKernelVkTreeRoot :: fr
  cbr_baseRollupVkHash :: fr
  cbr_mergeRollupVkHash :: fr

definition ConstantBaseRollupData_items :: "constant_base_rollup_data \<Rightarrow> bufferable list" where
  "ConstantBaseRollupData_items r =
     [BObject (AppendOnlyTreeSnapshot_toBuffer (cbr_startTreeOfHistoricPrivateDataTreeRootsSnapshot r)),
     BObject (AppendOnlyTreeSnapshot_toBuffer (cbr_startTreeOfHistoricContractTreeRootsSnapshot r)),
     BObject (AppendOnlyTreeSnapshot_toBuffer (cbr_startTreeOfHistoricL1ToL2MsgTreeRootsSnapshot r)),
     BObject (Fr_toBuffer (cbr_privateKernelVkTreeRoot r)), BObject (Fr_toBuffer (cbr_publicKernelVkTreeRoot r)),
     BObject (Fr_toBuffer (cbr_baseRollupVkHash r)), BObject (Fr_toBuffer (cbr_mergeRollupVkHash r))]"

definition ConstantBaseRollupData_toBuffer :: "constant_base_rollup_data \<Rightarrow> buffer result" where
  "ConstantBaseRollupData_toBuffer r = serializeToBuffer (ConstantBaseRollupData_items r)"

definition ConstantBaseRollupData_fromBuffer :: "constant_base_rollup_data reading" where
  "ConstantBaseRollupData_fromBuffer =
     jbind (readObject AppendOnlyTreeSnapshot_fromBuffer) (\<lambda>v_cbr_startTreeOfHistoricPrivateDataTreeRootsSnapshot.
     jbind (readObject AppendOnlyTreeSnapshot_fromBuffer) (\<lambda>v_cbr_startTreeOfHistoricContractTreeRootsSnapshot.
     jbind (readObject AppendOnlyTreeSnapshot_fromBuffer) (\<lambda>v_cbr_startTreeOfHistoricL1ToL2MsgTreeRootsSnapshot.
     jbind Fr_fromBuffer (\<lambda>v_cbr_privateKernelVkTreeRoot. jbind Fr_fromBuffer (\<lambda>v_cbr_publicKernelVkTreeRoot.
     jbind Fr_fromBuffer (\<lambda>v_cbr_baseRollupVkHash. jbind Fr_fromBuffer (\<lambda>v_cbr_mergeRollupVkHash.
       jreturn \<lparr>cbr_startTreeOfHistoricPrivateDataTreeRootsSnapshot = v_cbr_startTreeOfHistoricPrivateDataTreeRootsSnapshot,
        cbr_startTreeOfHistoricContractTreeRootsSnapshot = v_cbr_startTreeOfHistoricContractTreeRootsSnapshot,
        cbr_startTreeOfHistoricL1ToL2MsgTreeRootsSnapshot = v_cbr_startTreeOfHistoricL1ToL2MsgTreeRootsSnapshot,
        cbr_privateKernelVkTreeRoot = v_cbr_privateKernelVkTreeRoot, cbr_publicKernelVkTreeRoot = v_cbr_publicKernelVkTreeRoot,
        cbr_baseRollupVkHash = v_cbr_baseRollupVkHash, cbr_mergeRollupVkHash = v_cbr_mergeRollupVkHash\<rparr>)))))))"

record base_rollup_inputs =
  bri_kernelData :: "previous_kernel_data list"
  bri_startPrivateDataTreeSnapshot :: append_only_tree_snapshot
  bri_startNullifierTreeSnapshot :: append_only_tree_snapshot
  bri_startContractTreeSnapshot :: append_only_tree_snapshot
  bri_startPublicDataTreeRoot :: fr
  bri_lowNullifierLeafPreimages :: "nullifier_leaf_preimage list"
  bri_lowNullifierMembershipWitness :: "membership_witness list"
  bri_newCommitmentsSubtreeSiblingPath :: "fr list"
  bri_newNullifiersSubtreeSiblingPath :: "fr list"
  bri_newContractsSubtreeSiblingPath :: "fr list"
  bri_newPublicDataUpdateRequestsSiblingPaths :: "fr list list"
  bri_newPublicDataReadsSiblingPaths :: "fr list list"
  bri_historicPrivateDataTreeRootMembershipWitnesses :: "membership_witness list"
  bri_historicContractsTreeRootMembershipWitnesses :: "membership_witness list"
  bri_historicL1ToL2MsgTreeRootMembershipWitnesses :: "membership_witness list"
  bri_constants :: constant_base_rollup_data

definition new_BaseRollupInputs :: "base_rollup_inputs \<Rightarrow> base_rollup_inputs result" where
  "new_BaseRollupInputs r =
     rbind (assertMemberLength ''lowNullifierLeafPreimages'' (2 * KERNEL_NEW_NULLIFIERS_LENGTH) (bri_lowNullifierLeafPreimages r)) (\<lambda>_.
     rbind (assertMemberLength ''lowNullifierMembershipWitness'' (2 * KERNEL_NEW_NULLIFIERS_LENGTH) (bri_lowNullifierMembershipWitness r)) (\<lambda>_.
     rbind (assertMemberLength ''newCommitmentsSubtreeSiblingPath'' (PRIVATE_DATA_TREE_HEIGHT - PRIVATE_DATA_SUBTREE_HEIGHT) (bri_newCommitmentsSubtreeSiblingPath r)) (\<lambda>_.
     rbind (assertMemberLength ''newNullifiersSubtreeSiblingPath'' (NULLIFIER_TREE_HEIGHT - NULLIFIER_SUBTREE_HEIGHT) (bri_newNullifiersSubtreeSiblingPath r)) (\<lambda>_.
     rbind (assertMemberLength ''newContractsSubtreeSiblingPath'' (CONTRACT_TREE_HEIGHT - CONTRACT_SUBTREE_HEIGHT) (bri_newContractsSubtreeSiblingPath r)) (\<lambda>_.
     rbind (assertMemberLength ''newPublicDataUpdateRequestsSiblingPaths'' (2 * KERNEL_PUBLIC_DATA_UPDATE_REQUESTS_LENGTH) (bri_newPublicDataUpdateRequestsSiblingPaths r)) (\<lambda>_.
     rbind (assertMemberLength ''newPublicDataReadsSiblingPaths'' (2 * KERNEL_PUBLIC_DATA_READS_LENGTH) (bri_newPublicDataReadsSiblingPaths r)) (\<lambda>_.
     rbind (assertItemsLength ''newPublicDataUpdateRequestsSiblingPaths'' PUBLIC_DATA_TREE_HEIGHT (bri_newPublicDataUpdateRequestsSiblingPaths r)) (\<lambda>_.
     rbind (assertItemsLength ''newPublicDataReadsSiblingPaths'' PUBLIC_DATA_TREE_HEIGHT (bri_newPublicDataReadsSiblingPaths r)) (\<lambda>_.
       Inr r)))))))))"

definition BaseRollupInputs_items :: "base_rollup_inputs \<Rightarrow> bufferable list" where
  "BaseRollupInputs_items r =
     [BArray (map (\<lambda>x. BObject (PreviousKernelData_toBuffer x)) (bri_kernelData r)),
     BObject (AppendOnlyTreeSnapshot_toBuffer (bri_startPrivateDataTreeSnapshot r)),
     BObject (AppendOnlyTreeSnapshot_toBuffer (bri_startNullifierTreeSnapshot r)),
     BObject (AppendOnlyTreeSnapshot_toBuffer (bri_startContractTreeSnapshot r)),
     BObject (Fr_toBuffer (bri_startPublicDataTreeRoot r)),
     BArray (map (\<lambda>x. BObject (NullifierLeafPreimage_toBuffer x)) (bri_lowNullifierLeafPreimages r)),
     BArray (map (\<lambda>x. BObject (MembershipWitness_toBuffer x)) (bri_lowNullifierMembershipWitness r)),
     BArray (map (\<lambda>x. BObject (Fr_toBuffer x)) (bri_newCommitmentsSubtreeSiblingPath r)),
     BArray (map (\<lambda>x. BObject (Fr_toBuffer x)) (bri_newNullifiersSubtreeSiblingPath r)),
     BArray (map (\<lambda>x. BObject (Fr_toBuffer x)) (bri_newContractsSubtreeSiblingPath r)),
     BArray (map (\<lambda>p. BArray (map (\<lambda>x. BObject (Fr_toBuffer x)) p)) (bri_newPublicDataUpdateRequestsSiblingPaths r)),
     BArray (map (\<lambda>p. BArray (map (\<lambda>x. BObject (Fr_toBuffer x)) p)) (bri_newPublicDataReadsSiblingPaths r)),
     BArray (map (\<lambda>x. BObject (MembershipWitness_toBuffer x)) (bri_historicPrivateDataTreeRootMembershipWitnesses r)),
     BArray (map (\<lambda>x. BObject (MembershipWitness_toBuffer x)) (bri_historicContractsTreeRootMembershipWitnesses r)),
     BArray (map (\<lambda>x. BObject (MembershipWitness_toBuffer x)) (bri_historicL1ToL2MsgTreeRootMembershipWitnesses r)),
     BObject (ConstantBaseRollupData_toBuffer (bri_constants r))]"

definition BaseRollupInputs_toBuffer :: "base_rollup_inputs \<Rightarrow> buffer result" where
  "BaseRollupInputs_toBuffer r = serializeToBuffer (BaseRollupInputs_items r)"

section \<open>Merge rollup\<close>

record rollup_public_inputs =
  rpi_rollupType :: int
  rpi_rollupSubTreeHeight :: fr
  rpi_endAggregationObject :: aggregation_object
  rpi_constants :: constant_base_rollup_data
  rpi_startPrivateDataTreeSnapshot :: append_only_tree_snapshot
  rpi_endPrivateDataTreeSnapshot :: append_only_tree_snapshot
  rpi_startNullifierTreeSnapshot :: append_only_tree_snapshot
  rpi_endNullifierTreeSnapshot :: append_only_tree_snapshot
  rpi_startContractTreeSnapshot :: append_only_tree_snapshot
  rpi_endContractTreeSnapshot :: append_only_tree_snapshot
  rpi_startPublicDataTreeRoot :: fr
  rpi_endPublicDataTreeRoot :: fr
  rpi_calldataHash :: "fr list"

definition BaseOrMergeRollupPublicInputs_items :: "rollup_public_inputs \<Rightarrow> bufferable list" where
  "BaseOrMergeRollupPublicInputs_items r =
     [BNumber (rpi_rollupType r), BObject (Fr_toBuffer (rpi_rollupSubTreeHeight r)),
     BObject (AggregationObject_toBuffer (rpi_endAggregationObject r)), BObject (ConstantBaseRollupData_toBuffer (rpi_constants r)),
     BObject (AppendOnlyTreeSnapshot_toBuffer (rpi_startPrivateDataTreeSnapshot r)),
     BObject (AppendOnlyTreeSnapshot_toBuffer (rpi_endPrivateDataTreeSnapshot r)),
     BObject (AppendOnlyTreeSnapshot_toBuffer (rpi_startNullifierTreeSnapshot r)),
     BObject (AppendOnlyTreeSnapshot_toBuffer (rpi_endNullifierTreeSnapshot r)),
     BObject (AppendOnlyTreeSnapshot_toBuffer (rpi_startContractTreeSnapshot r)),
     BObject (AppendOnlyTreeSnapshot_toBuffer (rpi_endContractTreeSnapshot r)), BObject (Fr_toBuffer (rpi_startPublicDataTreeRoot r)),
     BObject (Fr_toBuffer (rpi_endPublicDataTreeRoot r)), BArray (map (\<lambda>x. BObject (Fr_toBuffer x)) (rpi_calldataHash r))]"

definition BaseOrMergeRollupPublicInputs_toBuffer :: "rollup_public_inputs \<Rightarrow> buffer result" where
  "BaseOrMergeRollupPublicInputs_toBuffer r = serializeToBuffer (BaseOrMergeRollupPublicInputs_items r)"

definition BaseOrMergeRollupPublicInputs_fromBuffer :: "rollup_public_inputs reading" where
  "BaseOrMergeRollupPublicInputs_fromBuffer =
     jbind readNumber (\<lambda>v_rpi_rollupType. jbind Fr_fromBuffer (\<lambda>v_rpi_rollupSubTreeHeight.
     jbind (readObject AggregationObject_fromBuffer) (\<lambda>v_rpi_endAggregationObject.
     jbind (readObject ConstantBaseRollupData_fromBuffer) (\<lambda>v_rpi_constants.
     jbind (readObject AppendOnlyTreeSnapshot_fromBuffer) (\<lambda>v_rpi_startPrivateDataTreeSnapshot.
     jbind (readObject AppendOnlyTreeSnapshot_fromBuffer) (\<lambda>v_rpi_endPrivateDataTreeSnapshot.
     jbind (readObject AppendOnlyTreeSnapshot_fromBuffer) (\<lambda>v_rpi_startNullifierTreeSnapshot.
     jbind (readObject AppendOnlyTreeSnapshot_fromBuffer) (\<lambda>v_rpi_endNullifierTreeSnapshot.
     jbind (readObject AppendOnlyTreeSnapshot_fromBuffer) (\<lambda>v_rpi_startContractTreeSnapshot.
     jbind (readObject AppendOnlyTreeSnapshot_fromBuffer) (\<lambda>v_rpi_endContractTreeSnapshot.
     jbind Fr_fromBuffer (\<lambda>v_rpi_startPublicDataTreeRoot. jbind Fr_fromBuffer (\<lambda>v_rpi_endPublicDataTreeRoot.
     jbind (readArray 2 Fr_fromBuffer) (\<lambda>v_rpi_calldataHash.
       jreturn \<lparr>rpi_rollupType = v_rpi_rollupType, rpi_rollupSubTreeHeight = v_rpi_rollupSubTreeHeight,
        rpi_endAggregationObject = v_rpi_endAggregationObject, rpi_constants = v_rpi_constants,
        rpi_startPrivateDataTreeSnapshot = v_rpi_startPrivateDataTreeSnapshot,
        rpi_endPrivateDataTreeSnapshot = v_rpi_endPrivateDataTreeSnapshot,
        rpi_startNullifierTreeSnapshot = v_rpi_startNullifierTreeSnapshot, rpi_endNullifierTreeSnapshot = v_rpi_endNullifierTreeSnapshot,
        rpi_startContractTreeSnapshot = v_rpi_startContractTreeSnapshot, rpi_endContractTreeSnapshot = v_rpi_endContractTreeSnapshot,
        rpi_startPublicDataTreeRoot = v_rpi_startPublicDataTreeRoot, rpi_endPublicDataTreeRoot = v_rpi_endPublicDataTreeRoot,
        rpi_calldataHash = v_rpi_calldataHash\<rparr>)))))))))))))"

record previous_rollup_data =
  prd_publicInputs :: rollup_public_inputs
  prd_proof :: proof_data
  prd_vk :: verification_key
  prd_vkIndex :: int
  prd_vkSiblingPath :: membership_witness

definition PreviousRollupData_items :: "previous_rollup_data \<Rightarrow> bufferable list" where
  "PreviousRollupData_items r =
     [BObject (BaseOrMergeRollupPublicInputs_toBuffer (prd_publicInputs r)), BObject (Proof_toBuffer (prd_proof r)),
     BObject (VerificationKey_toBuffer (prd_vk r)), BNumber (prd_vkIndex r), BObject (MembershipWitness_toBuffer (prd_vkSiblingPath r))]"

definition PreviousRollupData_toBuffer :: "previous_rollup_data \<Rightarrow> buffer result" where
  "PreviousRollupData_toBuffer r = serializeToBuffer (PreviousRollupData_items r)"

record merge_rollup_inputs =
  mri_previousRollupData :: "previous_rollup_data list"

definition MergeRollupInputs_items :: "merge_rollup_inputs \<Rightarrow> bufferable list" where
  "MergeRollupInputs_items r =
     [BArray (map (\<lambda>x. BObject (PreviousRollupData_toBuffer x)) (mri_previousRollupData r))]"

definition MergeRollupInputs_toBuffer :: "merge_rollup_inputs \<Rightarrow> buffer result" where
  "MergeRollupInputs_toBuffer r = serializeToBuffer (MergeRollupInputs_items r)"

section \<open>Root rollup\<close>

record root_rollup_inputs =
  rri_previousRollupData :: "previous_rollup_data list"
  rri_newHistoricPrivateDataTreeRootSiblingPath :: "fr list"
  rri_newHistoricContractDataTreeRootSiblingPath :: "fr list"
  rri_newL1ToL2Messages :: "fr list"
  rri_newL1ToL2MessageTreeRootSiblingPath :: "fr list"
  rri_newHistoricL1ToL2MessageTreeRootSiblingPath :: "fr list"
  rri_startL1ToL2MessageTreeSnapshot :: append_only_tree_snapshot
  rri_startHistoricTreeL1ToL2MessageTreeRootsSnapshot :: append_only_tree_snapshot

definition new_RootRollupInputs :: "root_rollup_inputs \<Rightarrow> root_rollup_inputs result" where
  "new_RootRollupInputs r =
     rbind (assertMemberLength ''newHistoricPrivateDataTreeRootSiblingPath'' PRIVATE_DATA_TREE_ROOTS_TREE_HEIGHT (rri_newHistoricPrivateDataTreeRootSiblingPath r)) (\<lambda>_.
     rbind (assertMemberLength ''newHistoricContractDataTreeRootSiblingPath'' CONTRACT_TREE_ROOTS_TREE_HEIGHT (rri_newHistoricContractDataTreeRootSiblingPath r)) (\<lambda>_.
     rbind (assertMemberLength ''newL1ToL2MessageTreeRootSiblingPath'' L1_TO_L2_MESSAGES_SIBLING_PATH_LENGTH (rri_newL1ToL2MessageTreeRootSiblingPath r)) (\<lambda>_.
     rbind (assertMemberLength ''newHistoricL1ToL2MessageTreeRootSiblingPath'' L1_TO_L2_MESSAGES_ROOTS_TREE_HEIGHT (rri_newHistoricL1ToL2MessageTreeRootSiblingPath r)) (\<lambda>_.
     rbind (assertMemberLength ''newL1ToL2Messages'' NUMBER_OF_L1_L2_MESSAGES_PER_ROLLUP (rri_newL1ToL2Messages r)) (\<lambda>_.
       Inr r)))))"

definition RootRollupInputs_items :: "root_rollup_inputs \<Rightarrow> bufferable list" where
  "RootRollupInputs_items r =
     [BArray (map (\<lambda>x. BObject (PreviousRollupData_toBuffer x)) (rri_previousRollupData r)),
     BArray (map (\<lambda>x. BObject (Fr_toBuffer x)) (rri_newHistoricPrivateDataTreeRootSiblingPath r)),
     BArray (map (\<lambda>x. BObject (Fr_toBuffer x)) (rri_newHistoricContractDataTreeRootSiblingPath r)),
     BArray (map (\<lambda>x. BObject (Fr_toBuffer x)) (rri_newL1ToL2Messages r)),
     BArray (map (\<lambda>x. BObject (Fr_toBuffer x)) (rri_newL1ToL2MessageTreeRootSiblingPath r)),
     BArray (map (\<lambda>x. BObject (Fr_toBuffer x)) (rri_newHistoricL1ToL2MessageTreeRootSiblingPath r)),
     BObject (AppendOnlyTreeSnapshot_toBuffer (rri_startL1ToL2MessageTreeSnapshot r)),
     BObject (AppendOnlyTreeSnapshot_toBuffer (rri_startHistoricTreeL1ToL2MessageTreeRootsSnapshot r))]"

definition RootRollupInputs_toBuffer :: "root_rollup_inputs \<Rightarrow> buffer result" where
  "RootRollupInputs_toBuffer r = serializeToBuffer (RootRollupInputs_items r)"

definition readFrPair :: "fr list reading" where
  "readFrPair = jbind Fr_fromBuffer (\<lambda>a. jbind Fr_fromBuffer (\<lambda>b. jreturn [a, b]))"

record root_rollup_public_inputs =
  rrp_endAggregationObject :: aggregation_object
  rrp_startPrivateDataTreeSnapshot :: append_only_tree_snapshot
  rrp_endPrivateDataTreeSnapshot :: append_only_tree_snapshot
  rrp_startNullifierTreeSnapshot :: append_only_tree_snapshot
  rrp_endNullifierTreeSnapshot :: append_only_tree_snapshot
  rrp_startContractTreeSnapshot :: append_only_tree_snapshot
  rrp_endContractTreeSnapshot :: append_only_tree_snapshot
  rrp_startPublicDataTreeRoot :: fr
  rrp_endPublicDataTreeRoot :: fr
  rrp_startTreeOfHistoricPrivateDataTreeRootsSnapshot :: append_only_tree_snapshot
  rrp_endTreeOfHistoricPrivateDataTreeRootsSnapshot :: append_only_tree_snapshot
  rrp_startTreeOfHistoricContractTreeRootsSnapshot :: append_only_tree_snapshot
  rrp_endTreeOfHistoricContractTreeRootsSnapshot :: append_only_tree_snapshot
  rrp_startL1ToL2MessageTreeSnapshot :: append_only_tree_snapshot
  rrp_endL1ToL2MessageTreeSnapshot :: append_only_tree_snapshot
  rrp_startTreeOfHistoricL1ToL2MessageTreeRootsSnapshot :: append_only_tree_snapshot
  rrp_endTreeOfHistoricL1ToL2MessageTreeRootsSnapshot :: append_only_tree_snapshot
  rrp_calldataHash :: "fr list"
  rrp_l1ToL2MessagesHash :: "fr list"

definition RootRollupPublicInputs_items :: "root_rollup_public_inputs \<Rightarrow> bufferable list" where
  "RootRollupPublicInputs_items r =
     [BObject (AggregationObject_toBuffer (rrp_endAggregationObject r)),
     BObject (AppendOnlyTreeSnapshot_toBuffer (rrp_startPrivateDataTreeSnapshot r)),
     BObject (AppendOnlyTreeSnapshot_toBuffer (rrp_endPrivateDataTreeSnapshot r)),
     BObject (AppendOnlyTreeSnapshot_toBuffer (rrp_startNullifierTreeSnapshot r)),
     BObject (AppendOnlyTreeSnapshot_toBuffer (rrp_endNullifierTreeSnapshot r)),
     BObject (AppendOnlyTreeSnapshot_toBuffer (rrp_startContractTreeSnapshot r)),
     BObject (AppendOnlyTreeSnapshot_toBuffer (rrp_endContractTreeSnapshot r)), BObject (Fr_toBuffer (rrp_startPublicDataTreeRoot r)),
     BObject (Fr_toBuffer (rrp_endPublicDataTreeRoot r)),
     BObject (AppendOnlyTreeSnapshot_toBuffer (rrp_startTreeOfHistoricPrivateDataTreeRootsSnapshot r)),
     BObject (AppendOnlyTreeSnapshot_toBuffer (rrp_endTreeOfHistoricPrivateDataTreeRootsSnapshot r)),
     BObject (AppendOnlyTreeSnapshot_toBuffer (rrp_startTreeOfHistoricContractTreeRootsSnapshot r)),
     BObject (AppendOnlyTreeSnapshot_toBuffer (rrp_endTreeOfHistoricContractTreeRootsSnapshot r)),
     BObject (AppendOnlyTreeSnapshot_toBuffer (rrp_startL1ToL2MessageTreeSnapshot r)),
     BObject (AppendOnlyTreeSnapshot_toBuffer (rrp_endL1ToL2MessageTreeSnapshot r)),
     BObject (AppendOnlyTreeSnapshot_toBuffer (rrp_startTreeOfHistoricL1ToL2MessageTreeRootsSnapshot r)),
     BObject (AppendOnlyTreeSnapshot_toBuffer (rrp_endTreeOfHistoricL1ToL2MessageTreeRootsSnapshot r)),
     BArray (map (\<lambda>x. BObject (Fr_toBuffer x)) (rrp_calldataHash r)),
     BArray (map (\<lambda>x. BObject (Fr_toBuffer x)) (rrp_l1ToL2MessagesHash r))]"

definition RootRollupPublicInputs_toBuffer :: "root_rollup_public_inputs \<Rightarrow> buffer result" where
  "RootRollupPublicInputs_toBuffer r = serializeToBuffer (RootRollupPublicInputs_items r)"

definition RootRollupPublicInputs_fromBuffer :: "root_rollup_public_inputs reading" where
  "RootRollupPublicInputs_fromBuffer =
     jbind (readObject AggregationObject_fromBuffer) (\<lambda>v_rrp_endAggregationObject.
     jbind (readObject AppendOnlyTreeSnapshot_fromBuffer) (\<lambda>v_rrp_startPrivateDataTreeSnapshot.
     jbind (readObject AppendOnlyTreeSnapshot_fromBuffer) (\<lambda>v_rrp_endPrivateDataTreeSnapshot.
     jbind (readObject AppendOnlyTreeSnapshot_fromBuffer) (\<lambda>v_rrp_startNullifierTreeSnapshot.
     jbind (readObject AppendOnlyTreeSnapshot_fromBuffer) (\<lambda>v_rrp_endNullifierTreeSnapshot.
     jbind (readObject AppendOnlyTreeSnapshot_fromBuffer) (\<lambda>v_rrp_startContractTreeSnapshot.
     jbind (readObject AppendOnlyTreeSnapshot_fromBuffer) (\<lambda>v_rrp_endContractTreeSnapshot.
     jbind Fr_fromBuffer (\<lambda>v_rrp_startPublicDataTreeRoot. jbind Fr_fromBuffer (\<lambda>v_rrp_endPublicDataTreeRoot.
     jbind (readObject AppendOnlyTreeSnapshot_fromBuffer) (\<lambda>v_rrp_startTreeOfHistoricPrivateDataTreeRootsSnapshot.
     jbind (readObject AppendOnlyTreeSnapshot_fromBuffer) (\<lambda>v_rrp_endTreeOfHistoricPrivateDataTreeRootsSnapshot.
     jbind (readObject AppendOnlyTreeSnapshot_fromBuffer) (\<lambda>v_rrp_startTreeOfHistoricContractTreeRootsSnapshot.
     jbind (readObject AppendOnlyTreeSnapshot_fromBuffer) (\<lambda>v_rrp_endTreeOfHistoricContractTreeRootsSnapshot.
     jbind (readObject AppendOnlyTreeSnapshot_fromBuffer) (\<lambda>v_rrp_startL1ToL2MessageTreeSnapshot.
     jbind (readObject AppendOnlyTreeSnapshot_fromBuffer) (\<lambda>v_rrp_endL1ToL2MessageTreeSnapshot.
     jbind (readObject AppendOnlyTreeSnapshot_fromBuffer) (\<lambda>v_rrp_startTreeOfHistoricL1ToL2MessageTreeRootsSnapshot.
     jbind (readObject AppendOnlyTreeSnapshot_fromBuffer) (\<lambda>v_rrp_endTreeOfHistoricL1ToL2MessageTreeRootsSnapshot.
     jbind readFrPair (\<lambda>v_rrp_calldataHash. jbind readFrPair (\<lambda>v_rrp_l1ToL2MessagesHash.
       jreturn \<lparr>rrp_endAggregationObject = v_rrp_endAggregationObject, rrp_startPrivateDataTreeSnapshot = v_rrp_startPrivateDataTreeSnapshot,
        rrp_endPrivateDataTreeSnapshot = v_rrp_endPrivateDataTreeSnapshot,
        rrp_startNullifierTreeSnapshot = v_rrp_startNullifierTreeSnapshot, rrp_endNullifierTreeSnapshot = v_rrp_endNullifierTreeSnapshot,
        rrp_startContractTreeSnapshot = v_rrp_startContractTreeSnapshot, rrp_endContractTreeSnapshot = v_rrp_endContractTreeSnapshot,
        rrp_startPublicDataTreeRoot = v_rrp_startPublicDataTreeRoot, rrp_endPublicDataTreeRoot = v_rrp_endPublicDataTreeRoot,
        rrp_startTreeOfHistoricPrivateDataTreeRootsSnapshot = v_rrp_startTreeOfHistoricPrivateDataTreeRootsSnapshot,
        rrp_endTreeOfHistoricPrivateDataTreeRootsSnapshot = v_rrp_endTreeOfHistoricPrivateDataTreeRootsSnapshot,
        rrp_startTreeOfHistoricContractTreeRootsSnapshot = v_rrp_startTreeOfHistoricContractTreeRootsSnapshot,
        rrp_endTreeOfHistoricContractTreeRootsSnapshot = v_rrp_endTreeOfHistoricContractTreeRootsSnapshot,
        rrp_startL1ToL2MessageTreeSnapshot = v_rrp_startL1ToL2MessageTreeSnapshot,
        rrp_endL1ToL2MessageTreeSnapshot = v_rrp_endL1ToL2MessageTreeSnapshot,
        rrp_startTreeOfHistoricL1ToL2MessageTreeRootsSnapshot = v_rrp_startTreeOfHistoricL1ToL2MessageTreeRootsSnapshot,
        rrp_endTreeOfHistoricL1ToL2MessageTreeRootsSnapshot = v_rrp_endTreeOfHistoricL1ToL2MessageTreeRootsSnapshot,
        rrp_calldataHash = v_rrp_calldataHash, rrp_l1ToL2MessagesHash = v_rrp_l1ToL2MessagesHash\<rparr>)))))))))))))))))))"

text \<open>\<open>sha256CalldataHash\<close> joins the low halves of the two field elements; an index out of range reads as \<open>undefined\<close>, which is stored as 0.\<close>

definition byte_at :: "buffer \<Rightarrow> nat \<Rightarrow> byte" where
  "byte_at b i = (if i < length b then b ! i else 0)"

definition RootRollupPublicInputs_sha256CalldataHash :: "root_rollup_public_inputs \<Rightarrow> buffer result" where
  "RootRollupPublicInputs_sha256CalldataHash r =
     (case rrp_calldataHash r of
        h # l # _ \<Rightarrow> rbind (Fr_toBuffer h) (\<lambda>high. rbind (Fr_toBuffer l) (\<lambda>low.
          Inr (map (\<lambda>i. byte_at high (i + 16)) [0..<16] @ map (\<lambda>i. byte_at low (i + 16)) [0..<16])))
      | _ \<Rightarrow> Inl TypeError)"

end
