(* ===== verification/KernelCodecs.thy ===== *)
theory KernelCodecs
  imports KernelStructs
begin

text \<open>
  Every struct of the kernel circuits is read back from its encoding: one instance of \<open>reader_codec\<close> per class, for the values whose members
  fit their encodings (\<open>C_ok\<close>).
\<close>

definition G1AffineElement_ok :: "g1_affine \<Rightarrow> bool" where
  "G1AffineElement_ok g \<longleftrightarrow> 0 \<le> g1_x g \<and> g1_x g < 256 ^ 32 \<and> 0 \<le> g1_y g \<and> g1_y g < 256 ^ 32"

interpretation g1: reader_codec G1AffineElement_toBuffer G1AffineElement_fromBuffer G1AffineElement_ok
proof (rule struct_codec[OF G1AffineElement_toBuffer_def], goal_cases)
  case (1 g)
  have fr: "BObject (toBufferBE n 32) = BObject (Fr_toBuffer \<lparr>fr_value = n\<rparr>)" for n by (simp add: Fr_toBuffer_def)
  show ?case unfolding G1AffineElement_items_def G1AffineElement_fromBuffer_def fr
    using 1 by (cases g; intro encodes_intros; simp add: G1AffineElement_ok_def fr_ok_def)
qed

lemmas [encodes_intros] = g1.struct_rules

definition ascii :: "string \<Rightarrow> bool" where
  "ascii s \<longleftrightarrow> int (length s) < 2 ^ 32 \<and> list_all (\<lambda>c. of_char c < (128 :: nat)) s"

definition CommitmentMap_ok :: "commitment_map \<Rightarrow> bool" where
  "CommitmentMap_ok m \<longleftrightarrow> distinct (map fst m) \<and> int (length m) < 2 ^ 32 \<and> (\<forall>(name, g) \<in> set m. ascii name \<and> G1AffineElement_ok g)"

lemma unat_of_char: "unat (of_char c :: 8 word) = of_char c"
proof -
  have "(of_char c :: 8 word) = of_nat (of_char c)" by (rule of_nat_of_char[symmetric])
  then show ?thesis using nat_of_char_less_256[of c] by (simp only: unat_of_nat) (simp add: take_bit_eq_mod)
qed

lemma ascii_string_bytes [simp]: "ascii_string (ascii_bytes s) = s"
  by (induction s) (simp_all add: ascii_string_def ascii_bytes_def unat_of_char)

lemma encodes_string:
  assumes "ascii s" and "encodes objs (f s) y"
  shows "encodes (BString (length s) (ascii_bytes s) # objs) (jbind (readString ascii_string) f) y"
proof (rule encodes_cons[where b = "be_bytes 4 (int (length s)) @ ascii_bytes s" and x = s])
  show "serializeToBuffer (BString (length s) (ascii_bytes s) # objs) = Inr ((be_bytes 4 (int (length s)) @ ascii_bytes s) @ bs)"
    if "serializeToBuffer objs = Inr bs" for bs
    using that assms(1) by (auto simp: serializeToBuffer_def cj_numToUInt32BE_4 ascii_def)
  have "reads readBuffer (be_bytes 4 (int (length (ascii_bytes s))) @ ascii_bytes s) (ascii_bytes s)"
    using assms(1) by (intro reads_buffer) (simp add: ascii_def ascii_bytes_def)
  from reads_map[OF this, of ascii_string]
  show "reads (readString ascii_string) (be_bytes 4 (int (length s)) @ ascii_bytes s) s"
    by (simp add: readString_def) (simp add: ascii_bytes_def)
qed fact

lemma encodes_entries:
  assumes "distinct (map fst (m @ es))" and "\<forall>(name, g) \<in> set es. ascii name \<and> G1AffineElement_ok g"
  shows "encodes (concat (map (\<lambda>(name, g). [BString (length name) (ascii_bytes name), BObject (G1AffineElement_toBuffer g)]) es))
    (readEntries ascii_string G1AffineElement_fromBuffer (length es) m) (m @ es)"
  using assms
proof (induction es arbitrary: m)
  case (Cons e es)
  obtain name g where e: "e = (name, g)" by (cases e)
  have "AList.update name g m = m @ [(name, g)]" using Cons.prems(1) by (induction m) (auto simp: e)
  then have IH: "encodes (concat (map (\<lambda>(name, g). [BString (length name) (ascii_bytes name), BObject (G1AffineElement_toBuffer g)]) es))
      (readEntries ascii_string G1AffineElement_fromBuffer (length es) (AList.update name g m)) (m @ e # es)"
    using Cons.IH[of "m @ [(name, g)]"] Cons.prems by (simp add: e)
  show ?case unfolding e list.map concat.simps prod.case append_Cons append_Nil length_Cons readEntries.simps readObject_eq
    using Cons.prems IH by (intro encodes_string encodes_intros) (simp_all add: e)
qed (simp add: encodes_return)

interpretation cm: reader_codec CommitmentMap_toBuffer CommitmentMap_fromBuffer CommitmentMap_ok
proof (rule struct_codec[OF CommitmentMap_toBuffer_def], goal_cases)
  case (1 m)
  then show ?case unfolding CommitmentMap_items_def CommitmentMap_fromBuffer_def
    using encodes_entries[of "[]" m] by (intro encodes_number) (simp_all add: CommitmentMap_ok_def)
qed

lemmas [encodes_intros] = cm.struct_rules

definition VerificationKey_ok :: "verification_key \<Rightarrow> bool" where
  "VerificationKey_ok r \<longleftrightarrow> 0 \<le> vk_composerType r \<and> vk_composerType r < 2 ^ 32 \<and> 0 \<le> vk_circuitSize r \<and>
     vk_circuitSize r < 2 ^ 32 \<and> 0 \<le> vk_numPublicInputs r \<and> vk_numPublicInputs r < 2 ^ 32 \<and>
     CommitmentMap_ok (vk_commitments r) \<and>
     (\<forall>n \<in> set (vk_recursiveProofPublicInputIndices r). 0 \<le> n \<and> n < 2 ^ 32) \<and>
     int (length (vk_recursiveProofPublicInputIndices r)) < 2 ^ 32"

interpretation vk: reader_codec VerificationKey_toBuffer VerificationKey_fromBuffer VerificationKey_ok
proof (rule struct_codec[OF VerificationKey_toBuffer_def], goal_cases)
  case (1 r)
  then show ?case unfolding VerificationKey_items_def VerificationKey_fromBuffer_def encodes_unfold
    by (cases r; intro encodes_intros; simp add: VerificationKey_ok_def)
qed

lemmas [encodes_intros] = vk.struct_rules

definition Proof_ok :: "proof_data \<Rightarrow> bool" where
  "Proof_ok p \<longleftrightarrow> int (length (proof_buffer p)) < 2 ^ 32"

interpretation proof_codec: reader_codec Proof_toBuffer Proof_fromBuffer Proof_ok
proof (rule struct_codec[OF Proof_toBuffer_def], goal_cases)
  case (1 p)
  then show ?case unfolding Proof_items_def Proof_fromBuffer_def
    by (cases p; intro encodes_intros; simp add: Proof_ok_def)
qed

lemmas [encodes_intros] = proof_codec.struct_rules

definition AggregationObject_ok :: "aggregation_object \<Rightarrow> bool" where
  "AggregationObject_ok r \<longleftrightarrow> G1AffineElement_ok (ao_p0 r) \<and> G1AffineElement_ok (ao_p1 r) \<and> (\<forall>y \<in> set (ao_publicInputs r). fr_ok y) \<and>
     int (length (ao_publicInputs r)) < 2 ^ 32 \<and>
     (\<forall>n \<in> set (ao_proofWitnessIndices r). 0 \<le> n \<and> n < 2 ^ 32) \<and>
     int (length (ao_proofWitnessIndices r)) < 2 ^ 32"

interpretation ao: reader_codec AggregationObject_toBuffer AggregationObject_fromBuffer AggregationObject_ok
proof (rule struct_codec[OF AggregationObject_toBuffer_def], goal_cases)
  case (1 r)
  then show ?case unfolding AggregationObject_items_def AggregationObject_fromBuffer_def encodes_unfold
    by (cases r; intro encodes_intros; simp add: AggregationObject_ok_def)
qed

lemmas [encodes_intros] = ao.struct_rules

definition FunctionData_ok :: "function_data \<Rightarrow> bool" where
  "FunctionData_ok r \<longleftrightarrow> length (fd_functionSelectorBuffer r) = FUNCTION_SELECTOR_LENGTH"

interpretation fd: reader_codec FunctionData_toBuffer FunctionData_fromBuffer FunctionData_ok
proof (rule struct_codec[OF FunctionData_toBuffer_def], goal_cases)
  case (1 r)
  then show ?case unfolding FunctionData_items_def FunctionData_fromBuffer_def encodes_unfold
    by (cases r; intro encodes_intros; simp add: FunctionData_ok_def new_FunctionData_def)
qed

lemmas [encodes_intros] = fd.struct_rules

definition EcdsaSignature_ok :: "ecdsa_signature \<Rightarrow> bool" where
  "EcdsaSignature_ok r \<longleftrightarrow> length (sig_r r) = 32 \<and> length (sig_s r) = 32 \<and> length (sig_v r) = 1"

interpretation sig: reader_codec EcdsaSignature_toBuffer EcdsaSignature_fromBuffer EcdsaSignature_ok
proof (rule struct_codec[OF EcdsaSignature_toBuffer_def], goal_cases)
  case (1 r)
  then show ?case unfolding EcdsaSignature_items_def EcdsaSignature_fromBuffer_def encodes_unfold
    by (cases r; intro encodes_intros; simp add: EcdsaSignature_ok_def new_EcdsaSignature_def assertMemberLength_def)
qed

lemmas [encodes_intros] = sig.struct_rules

definition NewContractData_ok :: "new_contract_data \<Rightarrow> bool" where
  "NewContractData_ok r \<longleftrightarrow> address_ok (ncd_contractAddress r) \<and> eth_ok (ncd_portalContractAddress r) \<and> fr_ok (ncd_functionTreeRoot r)"

interpretation ncd: reader_codec NewContractData_toBuffer NewContractData_fromBuffer NewContractData_ok
proof (rule struct_codec[OF NewContractData_toBuffer_def], goal_cases)
  case (1 r)
  then show ?case unfolding NewContractData_items_def NewContractData_fromBuffer_def encodes_unfold
    by (cases r; intro encodes_intros; simp add: NewContractData_ok_def new_NewContractData_def)
qed

lemmas [encodes_intros] = ncd.struct_rules

definition OptionallyRevealedData_ok :: "optionally_revealed_data \<Rightarrow> bool" where
  "OptionallyRevealedData_ok r \<longleftrightarrow> fr_ok (ord_callStackItemHash r) \<and> FunctionData_ok (ord_functionData r) \<and> fr_ok (ord_vkHash r) \<and>
     eth_ok (ord_portalContractAddress r)"

interpretation ord: reader_codec OptionallyRevealedData_toBuffer OptionallyRevealedData_fromBuffer OptionallyRevealedData_ok
proof (rule struct_codec[OF OptionallyRevealedData_toBuffer_def], goal_cases)
  case (1 r)
  then show ?case unfolding OptionallyRevealedData_items_def OptionallyRevealedData_fromBuffer_def encodes_unfold
    by (cases r; intro encodes_intros; simp add: OptionallyRevealedData_ok_def new_OptionallyRevealedData_def)
qed

lemmas [encodes_intros] = ord.struct_rules

definition PublicDataRead_ok :: "public_data_read \<Rightarrow> bool" where
  "PublicDataRead_ok r \<longleftrightarrow> fr_ok (pdr_leafIndex r) \<and> fr_ok (pdr_value r)"

interpretation pdr: reader_codec PublicDataRead_toBuffer PublicDataRead_fromBuffer PublicDataRead_ok
proof (rule struct_codec[OF PublicDataRead_toBuffer_def], goal_cases)
  case (1 r)
  then show ?case unfolding PublicDataRead_items_def PublicDataRead_fromBuffer_def encodes_unfold
    by (cases r; intro encodes_intros; simp add: PublicDataRead_ok_def)
qed

lemmas [encodes_intros] = pdr.struct_rules

definition PublicDataUpdateRequest_ok :: "public_data_update_request \<Rightarrow> bool" where
  "PublicDataUpdateRequest_ok r \<longleftrightarrow> fr_ok (pdu_leafIndex r) \<and> fr_ok (pdu_oldValue r) \<and> fr_ok (pdu_newValue r)"

interpretation pdu: reader_codec PublicDataUpdateRequest_toBuffer PublicDataUpdateRequest_fromBuffer PublicDataUpdateRequest_ok
proof (rule struct_codec[OF PublicDataUpdateRequest_toBuffer_def], goal_cases)
  case (1 r)
  then show ?case unfolding PublicDataUpdateRequest_items_def PublicDataUpdateRequest_fromBuffer_def encodes_unfold
    by (cases r; intro encodes_intros; simp add: PublicDataUpdateRequest_ok_def)
qed

lemmas [encodes_intros] = pdu.struct_rules

definition CombinedAccumulatedData_ok :: "combined_accumulated_data \<Rightarrow> bool" where
  "CombinedAccumulatedData_ok r \<longleftrightarrow> AggregationObject_ok (cad_aggregationObject r) \<and> length (cad_newCommitments r) = KERNEL_NEW_COMMITMENTS_LENGTH \<and>
     (\<forall>y \<in> set (cad_newCommitments r). fr_ok y) \<and> length (cad_newNullifiers r) = KERNEL_NEW_NULLIFIERS_LENGTH \<and>
     (\<forall>y \<in> set (cad_newNullifiers r). fr_ok y) \<and>
     length (cad_privateCallStack r) = KERNEL_PRIVATE_CALL_STACK_LENGTH \<and>
     (\<forall>y \<in> set (cad_privateCallStack r). fr_ok y) \<and>
     length (cad_publicCallStack r) = KERNEL_PUBLIC_CALL_STACK_LENGTH \<and>
     (\<forall>y \<in> set (cad_publicCallStack r). fr_ok y) \<and>
     length (cad_newL2ToL1Msgs r) = KERNEL_NEW_L2_TO_L1_MSGS_LENGTH \<and> (\<forall>y \<in> set (cad_newL2ToL1Msgs r). fr_ok y) \<and>
     length (cad_encryptedLogsHash r) = 2 \<and> (\<forall>y \<in> set (cad_encryptedLogsHash r). fr_ok y) \<and>
     length (cad_unencryptedLogsHash r) = 2 \<and> (\<forall>y \<in> set (cad_unencryptedLogsHash r). fr_ok y) \<and>
     fr_ok (cad_encryptedLogPreimagesLength r) \<and> fr_ok (cad_unencryptedLogPreimagesLength r) \<and>
     length (cad_newContracts r) = KERNEL_NEW_CONTRACTS_LENGTH \<and>
     (\<forall>y \<in> set (cad_newContracts r). NewContractData_ok y) \<and>
     length (cad_optionallyRevealedData r) = KERNEL_OPTIONALLY_REVEALED_DATA_LENGTH \<and>
     (\<forall>y \<in> set (cad_optionallyRevealedData r). OptionallyRevealedData_ok y) \<and>
     length (cad_publicDataUpdateRequests r) = KERNEL_PUBLIC_DATA_UPDATE_REQUESTS_LENGTH \<and>
     (\<forall>y \<in> set (cad_publicDataUpdateRequests r). PublicDataUpdateRequest_ok y) \<and>
     length (cad_publicDataReads r) = KERNEL_PUBLIC_DATA_READS_LENGTH \<and>
     (\<forall>y \<in> set (cad_publicDataReads r). PublicDataRead_ok y)"

interpretation cad: reader_codec CombinedAccumulatedData_toBuffer CombinedAccumulatedData_fromBuffer CombinedAccumulatedData_ok
proof (rule struct_codec[OF CombinedAccumulatedData_toBuffer_def], goal_cases)
  case (1 r)
  then show ?case unfolding CombinedAccumulatedData_items_def CombinedAccumulatedData_fromBuffer_def encodes_unfold
    by (cases r; intro encodes_intros; simp add: CombinedAccumulatedData_ok_def new_CombinedAccumulatedData_def assertMemberLength_def)
qed

lemmas [encodes_intros] = cad.struct_rules

definition PrivateHistoricTreeRoots_ok :: "private_historic_tree_roots \<Rightarrow> bool" where
  "PrivateHistoricTreeRoots_ok r \<longleftrightarrow> fr_ok (pht_privateDataTreeRoot r) \<and> fr_ok (pht_nullifierTreeRoot r) \<and> fr_ok (pht_contractTreeRoot r) \<and>
     fr_ok (pht_l1ToL2MessagesTreeRoot r) \<and> fr_ok (pht_privateKernelVkTreeRoot r)"

interpretation pht: reader_codec PrivateHistoricTreeRoots_toBuffer PrivateHistoricTreeRoots_fromBuffer PrivateHistoricTreeRoots_ok
proof (rule struct_codec[OF PrivateHistoricTreeRoots_toBuffer_def], goal_cases)
  case (1 r)
  then show ?case unfolding PrivateHistoricTreeRoots_items_def PrivateHistoricTreeRoots_fromBuffer_def encodes_unfold
    by (cases r; intro encodes_intros; simp add: PrivateHistoricTreeRoots_ok_def)
qed

lemmas [encodes_intros] = pht.struct_rules

definition CombinedHistoricTreeRoots_ok :: "combined_historic_tree_roots \<Rightarrow> bool" where
  "CombinedHistoricTreeRoots_ok r \<longleftrightarrow> PrivateHistoricTreeRoots_ok (cht_privateHistoricTreeRoots r)"

interpretation cht: reader_codec CombinedHistoricTreeRoots_toBuffer CombinedHistoricTreeRoots_fromBuffer CombinedHistoricTreeRoots_ok
proof (rule struct_codec[OF CombinedHistoricTreeRoots_toBuffer_def], goal_cases)
  case (1 r)
  then show ?case unfolding CombinedHistoricTreeRoots_items_def CombinedHistoricTreeRoots_fromBuffer_def encodes_unfold
    by (cases r; intro encodes_intros; simp add: CombinedHistoricTreeRoots_ok_def)
qed

lemmas [encodes_intros] = cht.struct_rules

definition coordinate_ok :: "fr \<Rightarrow> bool" where
  "coordinate_ok x \<longleftrightarrow> 0 \<le> fr_value x \<and> fr_value x \<le> Point_MAX_VALUE"

lemma coordinate_fr_ok: "coordinate_ok x \<Longrightarrow> fr_ok x"
  by (simp add: coordinate_ok_def fr_ok_def Point_MAX_VALUE_def)

lemma reads_point_coordinates:
  assumes "coordinate_ok x" and "coordinate_ok y"
  shows "reads (jbind Point_fromBuffer (\<lambda>p. jlift (point_coordinates p))) (be_bytes 32 (fr_value x) @ be_bytes 32 (fr_value y)) [x, y]"
proof -
  let ?bx = "be_bytes 32 (fr_value x)" and ?by = "be_bytes 32 (fr_value y)"
  have v: "be_val ?bx = fr_value x" "be_val ?by = fr_value y"
    using assms by (simp_all add: coordinate_ok_def Point_MAX_VALUE_def be_val_be_bytes)
  let ?p = "\<lparr>pt_buffer = ?bx @ ?by\<rparr>"
  have sub: "subarray 0 32 (?bx @ ?by) = ?bx" "subarray 32 64 (?bx @ ?by) = ?by" by (simp_all add: subarray_def)
  have p: "new_Point (?bx @ ?by) = Inr ?p"
    using assms by (simp add: new_Point_def sub toBigIntBE_be_val v coordinate_ok_def)
  have "new_Fr (fr_value x) = x" "new_Fr (fr_value y) = y" by (simp_all add: new_Fr_def)
  then have c: "point_coordinates ?p = Inr [x, y]"
    using reads_whole[OF reads_Fr, of ?bx] reads_whole[OF reads_Fr, of ?by] v by (simp add: point_coordinates_def Point_x_def Point_y_def sub)
  have "reads Point_fromBuffer (?bx @ ?by) ?p" unfolding Point_fromBuffer_def
    by (rule reads_jlift[of "readBytes 64" _ "?bx @ ?by" new_Point]) (use p in \<open>simp_all add: reads_bytes\<close>)
  from reads_jlift[of _ _ _ point_coordinates, OF this c] show ?thesis .
qed

lemma encodes_point:
  assumes "list_all coordinate_ok k" and "length k = 2" and "encodes objs (f k) y"
  shows "encodes (BArray (map (\<lambda>x. BObject (Fr_toBuffer x)) k) # objs) (jbind (jbind Point_fromBuffer (\<lambda>p. jlift (point_coordinates p))) f) y"
proof -
  obtain a b where k: "k = [a, b]" using assms(2) by (auto simp: numeral_2_eq_2 length_Suc_conv)
  have ok: "coordinate_ok a" "coordinate_ok b" using assms(1) by (simp_all add: k)
  show ?thesis
    by (rule encodes_cons[where b = "be_bytes 32 (fr_value a) @ be_bytes 32 (fr_value b)" and x = "[a, b]"])
      (use ok assms(3) reads_point_coordinates in \<open>auto simp: k serializeToBuffer_def reads_Fr_bytes coordinate_fr_ok\<close>)
qed

definition ContractDeploymentData_ok :: "contract_deployment_data \<Rightarrow> bool" where
  "ContractDeploymentData_ok r \<longleftrightarrow> list_all coordinate_ok (cdd_deployerPublicKey r) \<and> length (cdd_deployerPublicKey r) = 2 \<and>
     fr_ok (cdd_constructorVkHash r) \<and> fr_ok (cdd_functionTreeRoot r) \<and> fr_ok (cdd_contractAddressSalt r) \<and> eth_ok (cdd_portalContractAddress r)"

interpretation cdd: reader_codec ContractDeploymentData_toBuffer ContractDeploymentData_fromBuffer ContractDeploymentData_ok
proof (rule struct_codec[OF ContractDeploymentData_toBuffer_def], goal_cases)
  case (1 r)
  then show ?case unfolding ContractDeploymentData_items_def ContractDeploymentData_fromBuffer_def
    by (cases r; intro encodes_point encodes_intros; simp add: ContractDeploymentData_ok_def new_ContractDeploymentData_def)
qed

lemmas [encodes_intros] = cdd.struct_rules

definition TxContext_ok :: "tx_context \<Rightarrow> bool" where
  "TxContext_ok r \<longleftrightarrow> ContractDeploymentData_ok (txc_contractDeploymentData r)"

interpretation txc: reader_codec TxContext_toBuffer TxContext_fromBuffer TxContext_ok
proof (rule struct_codec[OF TxContext_toBuffer_def], goal_cases)
  case (1 r)
  then show ?case unfolding TxContext_items_def TxContext_fromBuffer_def encodes_unfold
    by (cases r; intro encodes_intros; simp add: TxContext_ok_def)
qed

lemmas [encodes_intros] = txc.struct_rules

definition CombinedConstantData_ok :: "combined_constant_data \<Rightarrow> bool" where
  "CombinedConstantData_ok r \<longleftrightarrow> CombinedHistoricTreeRoots_ok (ccd_historicTreeRoots r) \<and> TxContext_ok (ccd_txContext r)"

interpretation ccd: reader_codec CombinedConstantData_toBuffer CombinedConstantData_fromBuffer CombinedConstantData_ok
proof (rule struct_codec[OF CombinedConstantData_toBuffer_def], goal_cases)
  case (1 r)
  then show ?case unfolding CombinedConstantData_items_def CombinedConstantData_fromBuffer_def encodes_unfold
    by (cases r; intro encodes_intros; simp add: CombinedConstantData_ok_def)
qed

lemmas [encodes_intros] = ccd.struct_rules

definition KernelCircuitPublicInputs_ok :: "kernel_public_inputs \<Rightarrow> bool" where
  "KernelCircuitPublicInputs_ok r \<longleftrightarrow> CombinedAccumulatedData_ok (kpi_end r) \<and> CombinedConstantData_ok (kpi_constants r)"

interpretation kpi: reader_codec KernelCircuitPublicInputs_toBuffer KernelCircuitPublicInputs_fromBuffer KernelCircuitPublicInputs_ok
proof (rule struct_codec[OF KernelCircuitPublicInputs_toBuffer_def], goal_cases)
  case (1 r)
  then show ?case unfolding KernelCircuitPublicInputs_items_def KernelCircuitPublicInputs_fromBuffer_def encodes_unfold
    by (cases r; intro encodes_intros; simp add: KernelCircuitPublicInputs_ok_def)
qed

lemmas [encodes_intros] = kpi.struct_rules

definition PreviousKernelData_ok :: "previous_kernel_data \<Rightarrow> bool" where
  "PreviousKernelData_ok r \<longleftrightarrow> KernelCircuitPublicInputs_ok (pkd_publicInputs r) \<and> Proof_ok (pkd_proof r) \<and> VerificationKey_ok (pkd_vk r) \<and>
     0 \<le> pkd_vkIndex r \<and> pkd_vkIndex r < 2 ^ 32 \<and> length (pkd_vkPath r) = VK_TREE_HEIGHT \<and>
     (\<forall>y \<in> set (pkd_vkPath r). fr_ok y)"

interpretation pkd: reader_codec PreviousKernelData_toBuffer PreviousKernelData_fromBuffer PreviousKernelData_ok
proof (rule struct_codec[OF PreviousKernelData_toBuffer_def], goal_cases)
  case (1 r)
  then show ?case unfolding PreviousKernelData_items_def PreviousKernelData_fromBuffer_def encodes_unfold
    by (cases r; intro encodes_intros; simp add: PreviousKernelData_ok_def new_PreviousKernelData_def assertMemberLength_def)
qed

lemmas [encodes_intros] = pkd.struct_rules

section \<open>The empty instances\<close>

lemma makeTuple_const [simp]: "makeTuple n (\<lambda>_. x) k = replicate n x"
  by (simp add: makeTuple_def map_replicate_const)

lemma makeFake_ok: "yields VerificationKey_makeFake VerificationKey_ok"
  unfolding VerificationKey_makeFake_def new_G1AffineElement_def new_Fq_def Fq_MAX_VALUE_def
  by (simp add: VerificationKey_ok_def CommitmentMap_ok_def G1AffineElement_ok_def ascii_def Fr_MODULUS_def)

lemma AggregationObject_makeFake_ok: "yields AggregationObject_makeFake AggregationObject_ok"
  by (simp add: AggregationObject_makeFake_def new_G1AffineElement_def new_Fq_def Fq_MAX_VALUE_def Fr_MODULUS_def AggregationObject_ok_def
      G1AffineElement_ok_def)

lemma NewContractData_empty_ok: "yields (new_NewContractData NewContractData_empty) NewContractData_ok"
  by (simp add: new_NewContractData_def NewContractData_empty_def NewContractData_ok_def)

lemma FunctionData_empty_ok: "yields (new_FunctionData (FunctionData_empty prv con)) FunctionData_ok"
  by (simp add: new_FunctionData_def FunctionData_ok_def FunctionData_empty_def)

lemma OptionallyRevealedData_empty_ok: "yields (new_OptionallyRevealedData OptionallyRevealedData_empty) OptionallyRevealedData_ok"
  by (simp add: new_OptionallyRevealedData_def OptionallyRevealedData_empty_def OptionallyRevealedData_ok_def FunctionData_ok_def FunctionData_empty_def)

lemma CombinedAccumulatedData_empty_stack:
  "yields CombinedAccumulatedData_empty (\<lambda>d. CombinedAccumulatedData_ok d \<and> cad_publicCallStack d = replicate KERNEL_PUBLIC_CALL_STACK_LENGTH Fr_ZERO)"
  unfolding CombinedAccumulatedData_empty_def
  by (intro yields_bind[OF AggregationObject_makeFake_ok] yields_bind[OF NewContractData_empty_ok] yields_bind[OF FunctionData_empty_ok]
      yields_bind[OF OptionallyRevealedData_empty_ok])
    (simp add: new_CombinedAccumulatedData_def assertMemberLength_def CombinedAccumulatedData_ok_def PublicDataUpdateRequest_empty_def
      PublicDataUpdateRequest_ok_def PublicDataRead_empty_def PublicDataRead_ok_def)

lemma CombinedAccumulatedData_empty_ok: "yields CombinedAccumulatedData_empty CombinedAccumulatedData_ok"
  using CombinedAccumulatedData_empty_stack by (auto simp: yields_def)

lemma ContractDeploymentData_empty_ok [simp]: "ContractDeploymentData_ok ContractDeploymentData_empty"
  by (simp add: ContractDeploymentData_ok_def ContractDeploymentData_empty_def coordinate_ok_def Fr_ZERO_def new_Fr_def Point_MAX_VALUE_def fr_ok_def)

lemma new_ContractDeploymentData_ok [simp]: "ContractDeploymentData_ok d \<Longrightarrow> new_ContractDeploymentData d = Inr d"
  by (simp add: new_ContractDeploymentData_def ContractDeploymentData_ok_def)

lemma CombinedConstantData_empty_ok [simp]: "CombinedConstantData_ok CombinedConstantData_empty"
  by (simp add: CombinedConstantData_empty_def CombinedConstantData_ok_def TxContext_empty_def TxContext_ok_def
      CombinedHistoricTreeRoots_empty_def CombinedHistoricTreeRoots_ok_def PrivateHistoricTreeRoots_empty_def PrivateHistoricTreeRoots_ok_def)

lemma KernelCircuitPublicInputs_empty_ok: "yields KernelCircuitPublicInputs_empty KernelCircuitPublicInputs_ok"
  unfolding KernelCircuitPublicInputs_empty_def
  by (intro yields_bind[OF CombinedAccumulatedData_empty_ok]) (simp add: KernelCircuitPublicInputs_ok_def)

lemma PreviousKernelData_empty_ok: "yields PreviousKernelData_empty PreviousKernelData_ok"
  unfolding PreviousKernelData_empty_def
  by (intro yields_bind[OF KernelCircuitPublicInputs_empty_ok] yields_bind[OF makeFake_ok])
    (simp add: new_PreviousKernelData_def assertMemberLength_def PreviousKernelData_ok_def Proof_ok_def makeEmptyProof_def)

text \<open>C28. Round trip of the data of a kernel iteration: the public inputs, the proof and the verification key that \<open>toBuffer\<close> writes are
  read back by \<open>fromBuffer\<close>, wherever the bytes stand in a buffer, for all members that fit their encodings.\<close>

theorem kernel_data_roundtrip:
  assumes "PreviousKernelData_ok d"
  shows "\<exists>bs. PreviousKernelData_toBuffer d = Inr bs \<and>
    (\<forall>before after. PreviousKernelData_fromBuffer (new_BufferReader (before @ bs @ after) (length before)) =
       (Inr d, new_BufferReader (before @ bs @ after) (length before + length bs)))"
proof -
  obtain bs where bs: "PreviousKernelData_toBuffer d = Inr bs" using pkd.to_total[OF assms] by blast
  show ?thesis using pkd.from_to[OF assms bs] bs by (auto simp: reads_def new_BufferReader_def)
qed

theorem kernel_data_roundtrip_witness:
  "\<exists>d bs. PreviousKernelData_empty = Inr d \<and> PreviousKernelData_toBuffer d = Inr bs \<and>
    fst (PreviousKernelData_fromBuffer (new_BufferReader bs 0)) = Inr d"
proof -
  obtain d where d: "PreviousKernelData_empty = Inr d" "PreviousKernelData_ok d"
    using PreviousKernelData_empty_ok by (auto simp: yields_def)
  obtain bs where "PreviousKernelData_toBuffer d = Inr bs"
    "PreviousKernelData_fromBuffer (new_BufferReader ([] @ bs @ []) (length ([] :: byte list))) = (Inr d, new_BufferReader ([] @ bs @ []) (length ([] :: byte list) + length bs))"
    using kernel_data_roundtrip[OF d(2)] by blast
  then show ?thesis using d(1) by auto
qed

end
