(* ===== verification/CallCodecs.thy ===== *)
theory CallCodecs
  imports CallStructs KernelCodecs
begin

text \<open>
  The encodings of calls are injective. Most of these structs are only written: they are the arguments of circuits in WebAssembly. For those a
  reference reader \<open>C_reads\<close> takes the members apart in the order of \<open>toBuffer\<close>, so that each is an instance of \<open>reader_codec\<close> too.
\<close>

definition CallContext_ok :: "call_context \<Rightarrow> bool" where
  "CallContext_ok r \<longleftrightarrow> address_ok (cc_msgSender r) \<and> address_ok (cc_storageContractAddress r) \<and> eth_ok (cc_portalContractAddress r)"

interpretation cc: reader_codec CallContext_toBuffer CallContext_fromBuffer CallContext_ok
proof (rule struct_codec[OF CallContext_toBuffer_def], goal_cases)
  case (1 r)
  then show ?case unfolding CallContext_items_def CallContext_fromBuffer_def encodes_unfold
    by (cases r; intro encodes_intros; simp add: CallContext_ok_def)
qed

lemmas [encodes_intros] = cc.struct_rules

definition ContractStorageRead_ok :: "contract_storage_read \<Rightarrow> bool" where
  "ContractStorageRead_ok r \<longleftrightarrow> fr_ok (csr_storageSlot r) \<and> fr_ok (csr_currentValue r)"

interpretation csr: reader_codec ContractStorageRead_toBuffer ContractStorageRead_fromBuffer ContractStorageRead_ok
proof (rule struct_codec[OF ContractStorageRead_toBuffer_def], goal_cases)
  case (1 r)
  then show ?case unfolding ContractStorageRead_items_def ContractStorageRead_fromBuffer_def encodes_unfold
    by (cases r; intro encodes_intros; simp add: ContractStorageRead_ok_def)
qed

lemmas [encodes_intros] = csr.struct_rules

definition ContractStorageUpdateRequest_ok :: "contract_storage_update_request \<Rightarrow> bool" where
  "ContractStorageUpdateRequest_ok r \<longleftrightarrow> fr_ok (csu_storageSlot r) \<and> fr_ok (csu_oldValue r) \<and> fr_ok (csu_newValue r)"

interpretation csu: reader_codec ContractStorageUpdateRequest_toBuffer ContractStorageUpdateRequest_fromBuffer ContractStorageUpdateRequest_ok
proof (rule struct_codec[OF ContractStorageUpdateRequest_toBuffer_def], goal_cases)
  case (1 r)
  then show ?case unfolding ContractStorageUpdateRequest_items_def ContractStorageUpdateRequest_fromBuffer_def encodes_unfold
    by (cases r; intro encodes_intros; simp add: ContractStorageUpdateRequest_ok_def)
qed

lemmas [encodes_intros] = csu.struct_rules

definition PublicCircuitPublicInputs_reads :: "public_circuit_public_inputs reading" where
  "PublicCircuitPublicInputs_reads =
     jbind (readObject CallContext_fromBuffer) (\<lambda>v_pci_callContext. jbind Fr_fromBuffer (\<lambda>v_pci_argsHash.
     jbind (readArray RETURN_VALUES_LENGTH Fr_fromBuffer) (\<lambda>v_pci_returnValues.
     jbind (readArray KERNEL_PUBLIC_DATA_UPDATE_REQUESTS_LENGTH ContractStorageUpdateRequest_fromBuffer) (\<lambda>v_pci_contractStorageUpdateRequests.
     jbind (readArray KERNEL_PUBLIC_DATA_READS_LENGTH ContractStorageRead_fromBuffer) (\<lambda>v_pci_contractStorageReads.
     jbind (readArray PUBLIC_CALL_STACK_LENGTH Fr_fromBuffer) (\<lambda>v_pci_publicCallStack.
     jbind (readArray NEW_COMMITMENTS_LENGTH Fr_fromBuffer) (\<lambda>v_pci_newCommitments.
     jbind (readArray NEW_NULLIFIERS_LENGTH Fr_fromBuffer) (\<lambda>v_pci_newNullifiers.
     jbind (readArray NEW_L2_TO_L1_MSGS_LENGTH Fr_fromBuffer) (\<lambda>v_pci_newL2ToL1Msgs.
     jbind Fr_fromBuffer (\<lambda>v_pci_historicPublicDataTreeRoot. jbind AztecAddress_fromBuffer (\<lambda>v_pci_proverAddress.
       jreturn \<lparr>pci_callContext = v_pci_callContext, pci_argsHash = v_pci_argsHash, pci_returnValues = v_pci_returnValues,
        pci_contractStorageUpdateRequests = v_pci_contractStorageUpdateRequests, pci_contractStorageReads = v_pci_contractStorageReads,
        pci_publicCallStack = v_pci_publicCallStack, pci_newCommitments = v_pci_newCommitments, pci_newNullifiers = v_pci_newNullifiers,
        pci_newL2ToL1Msgs = v_pci_newL2ToL1Msgs, pci_historicPublicDataTreeRoot = v_pci_historicPublicDataTreeRoot,
        pci_proverAddress = v_pci_proverAddress\<rparr>)))))))))))"

definition PublicCircuitPublicInputs_ok :: "public_circuit_public_inputs \<Rightarrow> bool" where
  "PublicCircuitPublicInputs_ok r \<longleftrightarrow> CallContext_ok (pci_callContext r) \<and> fr_ok (pci_argsHash r) \<and> length (pci_returnValues r) = RETURN_VALUES_LENGTH \<and>
     (\<forall>y \<in> set (pci_returnValues r). fr_ok y) \<and>
     length (pci_contractStorageUpdateRequests r) = KERNEL_PUBLIC_DATA_UPDATE_REQUESTS_LENGTH \<and>
     (\<forall>y \<in> set (pci_contractStorageUpdateRequests r). ContractStorageUpdateRequest_ok y) \<and>
     length (pci_contractStorageReads r) = KERNEL_PUBLIC_DATA_READS_LENGTH \<and>
     (\<forall>y \<in> set (pci_contractStorageReads r). ContractStorageRead_ok y) \<and>
     length (pci_publicCallStack r) = PUBLIC_CALL_STACK_LENGTH \<and> (\<forall>y \<in> set (pci_publicCallStack r). fr_ok y) \<and>
     length (pci_newCommitments r) = NEW_COMMITMENTS_LENGTH \<and> (\<forall>y \<in> set (pci_newCommitments r). fr_ok y) \<and>
     length (pci_newNullifiers r) = NEW_NULLIFIERS_LENGTH \<and> (\<forall>y \<in> set (pci_newNullifiers r). fr_ok y) \<and>
     length (pci_newL2ToL1Msgs r) = NEW_L2_TO_L1_MSGS_LENGTH \<and> (\<forall>y \<in> set (pci_newL2ToL1Msgs r). fr_ok y) \<and>
     fr_ok (pci_historicPublicDataTreeRoot r) \<and> address_ok (pci_proverAddress r)"

interpretation pci: reader_codec PublicCircuitPublicInputs_toBuffer PublicCircuitPublicInputs_reads PublicCircuitPublicInputs_ok
proof (rule struct_codec[OF PublicCircuitPublicInputs_toBuffer_def], goal_cases)
  case (1 r)
  then show ?case unfolding PublicCircuitPublicInputs_items_def PublicCircuitPublicInputs_reads_def encodes_unfold
    by (cases r; intro encodes_intros; simp add: PublicCircuitPublicInputs_ok_def new_PublicCircuitPublicInputs_def assertMemberLength_def)
qed

lemmas [encodes_intros] = pci.struct_rules

definition PrivateCircuitPublicInputs_reads :: "private_circuit_public_inputs reading" where
  "PrivateCircuitPublicInputs_reads =
     jbind (readObject CallContext_fromBuffer) (\<lambda>v_pvi_callContext. jbind Fr_fromBuffer (\<lambda>v_pvi_argsHash.
     jbind (readArray RETURN_VALUES_LENGTH Fr_fromBuffer) (\<lambda>v_pvi_returnValues.
     jbind (readArray READ_REQUESTS_LENGTH Fr_fromBuffer) (\<lambda>v_pvi_readRequests.
     jbind (readArray NEW_COMMITMENTS_LENGTH Fr_fromBuffer) (\<lambda>v_pvi_newCommitments.
     jbind (readArray NEW_NULLIFIERS_LENGTH Fr_fromBuffer) (\<lambda>v_pvi_newNullifiers.
     jbind (readArray PRIVATE_CALL_STACK_LENGTH Fr_fromBuffer) (\<lambda>v_pvi_privateCallStack.
     jbind (readArray PUBLIC_CALL_STACK_LENGTH Fr_fromBuffer) (\<lambda>v_pvi_publicCallStack.
     jbind (readArray NEW_L2_TO_L1_MSGS_LENGTH Fr_fromBuffer) (\<lambda>v_pvi_newL2ToL1Msgs.
     jbind (readArray 2 Fr_fromBuffer) (\<lambda>v_pvi_encryptedLogsHash.
     jbind (readArray 2 Fr_fromBuffer) (\<lambda>v_pvi_unencryptedLogsHash.
     jbind Fr_fromBuffer (\<lambda>v_pvi_encryptedLogPreimagesLength.
     jbind Fr_fromBuffer (\<lambda>v_pvi_unencryptedLogPreimagesLength.
     jbind Fr_fromBuffer (\<lambda>v_pvi_historicPrivateDataTreeRoot.
     jbind Fr_fromBuffer (\<lambda>v_pvi_historicPrivateNullifierTreeRoot.
     jbind Fr_fromBuffer (\<lambda>v_pvi_historicContractTreeRoot. jbind Fr_fromBuffer (\<lambda>v_pvi_historicL1ToL2MessagesTreeRoot.
     jbind (readObject ContractDeploymentData_fromBuffer) (\<lambda>v_pvi_contractDeploymentData.
       jreturn \<lparr>pvi_callContext = v_pvi_callContext, pvi_argsHash = v_pvi_argsHash, pvi_returnValues = v_pvi_returnValues,
        pvi_readRequests = v_pvi_readRequests, pvi_newCommitments = v_pvi_newCommitments, pvi_newNullifiers = v_pvi_newNullifiers,
        pvi_privateCallStack = v_pvi_privateCallStack, pvi_publicCallStack = v_pvi_publicCallStack,
        pvi_newL2ToL1Msgs = v_pvi_newL2ToL1Msgs, pvi_encryptedLogsHash = v_pvi_encryptedLogsHash,
        pvi_unencryptedLogsHash = v_pvi_unencryptedLogsHash, pvi_encryptedLogPreimagesLength = v_pvi_encryptedLogPreimagesLength,
        pvi_unencryptedLogPreimagesLength = v_pvi_unencryptedLogPreimagesLength,
        pvi_historicPrivateDataTreeRoot = v_pvi_historicPrivateDataTreeRoot,
        pvi_historicPrivateNullifierTreeRoot = v_pvi_historicPrivateNullifierTreeRoot,
        pvi_historicContractTreeRoot = v_pvi_historicContractTreeRoot,
        pvi_historicL1ToL2MessagesTreeRoot = v_pvi_historicL1ToL2MessagesTreeRoot,
        pvi_contractDeploymentData = v_pvi_contractDeploymentData\<rparr>))))))))))))))))))"

definition PrivateCircuitPublicInputs_ok :: "private_circuit_public_inputs \<Rightarrow> bool" where
  "PrivateCircuitPublicInputs_ok r \<longleftrightarrow> CallContext_ok (pvi_callContext r) \<and> fr_ok (pvi_argsHash r) \<and> length (pvi_returnValues r) = RETURN_VALUES_LENGTH \<and>
     (\<forall>y \<in> set (pvi_returnValues r). fr_ok y) \<and> length (pvi_readRequests r) = READ_REQUESTS_LENGTH \<and>
     (\<forall>y \<in> set (pvi_readRequests r). fr_ok y) \<and> length (pvi_newCommitments r) = NEW_COMMITMENTS_LENGTH \<and>
     (\<forall>y \<in> set (pvi_newCommitments r). fr_ok y) \<and> length (pvi_newNullifiers r) = NEW_NULLIFIERS_LENGTH \<and>
     (\<forall>y \<in> set (pvi_newNullifiers r). fr_ok y) \<and> length (pvi_privateCallStack r) = PRIVATE_CALL_STACK_LENGTH \<and>
     (\<forall>y \<in> set (pvi_privateCallStack r). fr_ok y) \<and> length (pvi_publicCallStack r) = PUBLIC_CALL_STACK_LENGTH \<and>
     (\<forall>y \<in> set (pvi_publicCallStack r). fr_ok y) \<and> length (pvi_newL2ToL1Msgs r) = NEW_L2_TO_L1_MSGS_LENGTH \<and>
     (\<forall>y \<in> set (pvi_newL2ToL1Msgs r). fr_ok y) \<and> length (pvi_encryptedLogsHash r) = 2 \<and>
     (\<forall>y \<in> set (pvi_encryptedLogsHash r). fr_ok y) \<and> length (pvi_unencryptedLogsHash r) = 2 \<and>
     (\<forall>y \<in> set (pvi_unencryptedLogsHash r). fr_ok y) \<and> fr_ok (pvi_encryptedLogPreimagesLength r) \<and>
     fr_ok (pvi_unencryptedLogPreimagesLength r) \<and> fr_ok (pvi_historicPrivateDataTreeRoot r) \<and>
     fr_ok (pvi_historicPrivateNullifierTreeRoot r) \<and> fr_ok (pvi_historicContractTreeRoot r) \<and>
     fr_ok (pvi_historicL1ToL2MessagesTreeRoot r) \<and> ContractDeploymentData_ok (pvi_contractDeploymentData r)"

interpretation pvi: reader_codec PrivateCircuitPublicInputs_toBuffer PrivateCircuitPublicInputs_reads PrivateCircuitPublicInputs_ok
proof (rule struct_codec[OF PrivateCircuitPublicInputs_toBuffer_def], goal_cases)
  case (1 r)
  then show ?case unfolding PrivateCircuitPublicInputs_items_def PrivateCircuitPublicInputs_reads_def encodes_unfold
    by (cases r; intro encodes_intros; simp add: PrivateCircuitPublicInputs_ok_def new_PrivateCircuitPublicInputs_def assertMemberLength_def)
qed

lemmas [encodes_intros] = pvi.struct_rules

definition PrivateCallStackItem_reads :: "private_call_stack_item reading" where
  "PrivateCallStackItem_reads =
     jbind AztecAddress_fromBuffer (\<lambda>v_pvs_contractAddress.
     jbind (readObject FunctionData_fromBuffer) (\<lambda>v_pvs_functionData.
     jbind (readObject PrivateCircuitPublicInputs_reads) (\<lambda>v_pvs_publicInputs.
     jbind readBoolean (\<lambda>v_pvs_isExecutionRequest.
       jreturn \<lparr>pvs_contractAddress = v_pvs_contractAddress, pvs_functionData = v_pvs_functionData, pvs_publicInputs = v_pvs_publicInputs\<rparr>))))"

definition PrivateCallStackItem_ok :: "private_call_stack_item \<Rightarrow> bool" where
  "PrivateCallStackItem_ok r \<longleftrightarrow> address_ok (pvs_contractAddress r) \<and> FunctionData_ok (pvs_functionData r) \<and>
     PrivateCircuitPublicInputs_ok (pvs_publicInputs r)"

interpretation pvs: reader_codec PrivateCallStackItem_toBuffer PrivateCallStackItem_reads PrivateCallStackItem_ok
proof (rule struct_codec[OF PrivateCallStackItem_toBuffer_def], goal_cases)
  case (1 r)
  then show ?case unfolding PrivateCallStackItem_items_def PrivateCallStackItem_reads_def encodes_unfold
    by (cases r; intro encodes_intros; simp add: PrivateCallStackItem_ok_def)
qed

lemmas [encodes_intros] = pvs.struct_rules

definition PublicCallStackItem_reads :: "public_call_stack_item reading" where
  "PublicCallStackItem_reads =
     jbind AztecAddress_fromBuffer (\<lambda>v_pcs_contractAddress.
     jbind (readObject FunctionData_fromBuffer) (\<lambda>v_pcs_functionData.
     jbind (readObject PublicCircuitPublicInputs_reads) (\<lambda>v_pcs_publicInputs.
     jbind readBoolean (\<lambda>v_pcs_isExecutionRequest.
       jreturn \<lparr>pcs_contractAddress = v_pcs_contractAddress, pcs_functionData = v_pcs_functionData, pcs_publicInputs = v_pcs_publicInputs,
        pcs_isExecutionRequest = v_pcs_isExecutionRequest\<rparr>))))"

definition PublicCallStackItem_ok :: "public_call_stack_item \<Rightarrow> bool" where
  "PublicCallStackItem_ok r \<longleftrightarrow> address_ok (pcs_contractAddress r) \<and> FunctionData_ok (pcs_functionData r) \<and>
     PublicCircuitPublicInputs_ok (pcs_publicInputs r)"

interpretation pcs: reader_codec PublicCallStackItem_toBuffer PublicCallStackItem_reads PublicCallStackItem_ok
proof (rule struct_codec[OF PublicCallStackItem_toBuffer_def], goal_cases)
  case (1 r)
  then show ?case unfolding PublicCallStackItem_items_def PublicCallStackItem_reads_def encodes_unfold
    by (cases r; intro encodes_intros; simp add: PublicCallStackItem_ok_def)
qed

lemmas [encodes_intros] = pcs.struct_rules

definition PublicCallRequest_ok :: "public_call_request \<Rightarrow> bool" where
  "PublicCallRequest_ok r \<longleftrightarrow> address_ok (pcr_contractAddress r) \<and> FunctionData_ok (pcr_functionData r) \<and> CallContext_ok (pcr_callContext r) \<and>
     length (pcr_args r) = ARGS_LENGTH \<and> (\<forall>y \<in> set (pcr_args r). fr_ok y)"

interpretation pcr: reader_codec PublicCallRequest_toBuffer PublicCallRequest_fromBuffer PublicCallRequest_ok
proof (rule struct_codec[OF PublicCallRequest_toBuffer_def], goal_cases)
  case (1 r)
  then show ?case unfolding PublicCallRequest_items_def PublicCallRequest_fromBuffer_def encodes_unfold
    by (cases r; intro encodes_intros; simp add: PublicCallRequest_ok_def)
qed

lemmas [encodes_intros] = pcr.struct_rules

text \<open>A membership witness does not name the length of its path: the reader takes it from the type.\<close>

definition MembershipWitness_reads :: "nat \<Rightarrow> membership_witness reading" where
  "MembershipWitness_reads n = jbind Fr_fromBuffer (\<lambda>i. jbind (readArray n Fr_fromBuffer) (\<lambda>path.
     jreturn \<lparr>mw_leafIndex = fr_value i, mw_siblingPath = path\<rparr>))"

definition MembershipWitness_ok :: "nat \<Rightarrow> membership_witness \<Rightarrow> bool" where
  "MembershipWitness_ok n w \<longleftrightarrow> 0 \<le> mw_leafIndex w \<and> mw_leafIndex w < 256 ^ 32 \<and> length (mw_siblingPath w) = n \<and>
     (\<forall>y \<in> set (mw_siblingPath w). fr_ok y)"

interpretation mw: reader_codec MembershipWitness_toBuffer "MembershipWitness_reads n" "MembershipWitness_ok n" for n
proof (rule struct_codec[OF MembershipWitness_toBuffer_def], goal_cases)
  case (1 w)
  have items: "MembershipWitness_items w = BObject (Fr_toBuffer \<lparr>fr_value = mw_leafIndex w\<rparr>) # map (\<lambda>x. BObject (Fr_toBuffer x)) (mw_siblingPath w) @ []"
    by (simp add: MembershipWitness_items_def Fr_toBuffer_def)
  show ?case unfolding items MembershipWitness_reads_def
    using 1 by (cases w; intro fr32.encodes_object encodes_spread fr32.encodes_array encodes_return; simp add: MembershipWitness_ok_def fr_ok_def)
qed

lemmas [encodes_intros] = mw.struct_rules

definition FunctionLeafPreimage_ok :: "function_leaf_preimage \<Rightarrow> bool" where
  "FunctionLeafPreimage_ok r \<longleftrightarrow> length (flp_functionSelector r) = FUNCTION_SELECTOR_LENGTH \<and> fr_ok (flp_vkHash r) \<and> fr_ok (flp_acirHash r)"

interpretation flp: reader_codec FunctionLeafPreimage_toBuffer FunctionLeafPreimage_fromBuffer FunctionLeafPreimage_ok
proof (rule struct_codec[where items = FunctionLeafPreimage_items], goal_cases)
  case (1 r)
  then show ?case by (simp add: FunctionLeafPreimage_toBuffer_def assertFunctionSelectorLength_def FunctionLeafPreimage_ok_def)
next
  case (2 r)
  then show ?case unfolding FunctionLeafPreimage_items_def FunctionLeafPreimage_fromBuffer_def encodes_unfold
    by (cases r; intro encodes_intros; simp add: FunctionLeafPreimage_ok_def new_FunctionLeafPreimage_def assertFunctionSelectorLength_def)
qed

lemmas [encodes_intros] = flp.struct_rules

definition TxRequest_ok :: "tx_request \<Rightarrow> bool" where
  "TxRequest_ok r \<longleftrightarrow> address_ok (txr_from r) \<and> address_ok (txr_to r) \<and> FunctionData_ok (txr_functionData r) \<and>
     fr_ok (txr_argsHash r) \<and> fr_ok (txr_nonce r) \<and> TxContext_ok (txr_txContext r) \<and> fr_ok (txr_chainId r)"

interpretation txr: reader_codec TxRequest_toBuffer TxRequest_fromBuffer TxRequest_ok
proof (rule struct_codec[OF TxRequest_toBuffer_def[unfolded serializeToBuffer_singleton_array]], goal_cases)
  case (1 r)
  then show ?case unfolding TxRequest_items_def TxRequest_fromBuffer_def encodes_unfold
    by (cases r; intro encodes_intros; simp add: TxRequest_ok_def)
qed

lemmas [encodes_intros] = txr.struct_rules

definition SignedTxRequest_ok :: "signed_tx_request \<Rightarrow> bool" where
  "SignedTxRequest_ok r \<longleftrightarrow> TxRequest_ok (stx_txRequest r) \<and> EcdsaSignature_ok (stx_signature r)"

interpretation stx: reader_codec SignedTxRequest_toBuffer SignedTxRequest_fromBuffer SignedTxRequest_ok
proof (rule struct_codec[OF SignedTxRequest_toBuffer_def], goal_cases)
  case (1 r)
  then show ?case unfolding SignedTxRequest_items_def SignedTxRequest_fromBuffer_def encodes_unfold
    by (cases r; intro encodes_intros; simp add: SignedTxRequest_ok_def)
qed

lemmas [encodes_intros] = stx.struct_rules

definition PrivateCallData_reads :: "private_call_data reading" where
  "PrivateCallData_reads =
     jbind (readObject PrivateCallStackItem_reads) (\<lambda>v_pvd_callStackItem.
     jbind (readArray PRIVATE_CALL_STACK_LENGTH PrivateCallStackItem_reads) (\<lambda>v_pvd_privateCallStackPreimages.
     jbind (readObject Proof_fromBuffer) (\<lambda>v_pvd_proof. jbind (readObject VerificationKey_fromBuffer) (\<lambda>v_pvd_vk.
     jbind (readObject (MembershipWitness_reads FUNCTION_TREE_HEIGHT)) (\<lambda>v_pvd_functionLeafMembershipWitness.
     jbind (readObject (MembershipWitness_reads CONTRACT_TREE_HEIGHT)) (\<lambda>v_pvd_contractLeafMembershipWitness.
     jbind (readArray READ_REQUESTS_LENGTH (MembershipWitness_reads PRIVATE_DATA_TREE_HEIGHT)) (\<lambda>v_pvd_readRequestMembershipWitnesses.
     jbind readEthAddress32 (\<lambda>v_pvd_portalContractAddress. jbind Fr_fromBuffer (\<lambda>v_pvd_acirHash.
       jreturn \<lparr>pvd_callStackItem = v_pvd_callStackItem, pvd_privateCallStackPreimages = v_pvd_privateCallStackPreimages, pvd_proof = v_pvd_proof,
        pvd_vk = v_pvd_vk, pvd_functionLeafMembershipWitness = v_pvd_functionLeafMembershipWitness,
        pvd_contractLeafMembershipWitness = v_pvd_contractLeafMembershipWitness,
        pvd_readRequestMembershipWitnesses = v_pvd_readRequestMembershipWitnesses,
        pvd_portalContractAddress = v_pvd_portalContractAddress, pvd_acirHash = v_pvd_acirHash\<rparr>)))))))))"

definition PrivateCallData_ok :: "private_call_data \<Rightarrow> bool" where
  "PrivateCallData_ok r \<longleftrightarrow> PrivateCallStackItem_ok (pvd_callStackItem r) \<and> length (pvd_privateCallStackPreimages r) = PRIVATE_CALL_STACK_LENGTH \<and>
     (\<forall>y \<in> set (pvd_privateCallStackPreimages r). PrivateCallStackItem_ok y) \<and> Proof_ok (pvd_proof r) \<and>
     VerificationKey_ok (pvd_vk r) \<and> MembershipWitness_ok FUNCTION_TREE_HEIGHT (pvd_functionLeafMembershipWitness r) \<and>
     MembershipWitness_ok CONTRACT_TREE_HEIGHT (pvd_contractLeafMembershipWitness r) \<and>
     length (pvd_readRequestMembershipWitnesses r) = READ_REQUESTS_LENGTH \<and>
     (\<forall>y \<in> set (pvd_readRequestMembershipWitnesses r). MembershipWitness_ok PRIVATE_DATA_TREE_HEIGHT y) \<and>
     eth_ok (pvd_portalContractAddress r) \<and> fr_ok (pvd_acirHash r)"

interpretation pvd: reader_codec PrivateCallData_toBuffer PrivateCallData_reads PrivateCallData_ok
proof (rule struct_codec[OF PrivateCallData_toBuffer_def], goal_cases)
  case (1 r)
  then show ?case unfolding PrivateCallData_items_def PrivateCallData_reads_def encodes_unfold
    by (cases r; intro encodes_intros; simp add: PrivateCallData_ok_def new_PrivateCallData_def assertMemberLength_def)
qed

lemmas [encodes_intros] = pvd.struct_rules

definition PrivateKernelInputsInit_reads :: "private_kernel_inputs_init reading" where
  "PrivateKernelInputsInit_reads =
     jbind (readObject SignedTxRequest_fromBuffer) (\<lambda>v_pki_signedTxRequest.
     jbind (readObject PrivateCallData_reads) (\<lambda>v_pki_privateCall.
       jreturn \<lparr>pki_signedTxRequest = v_pki_signedTxRequest, pki_privateCall = v_pki_privateCall\<rparr>))"

definition PrivateKernelInputsInit_ok :: "private_kernel_inputs_init \<Rightarrow> bool" where
  "PrivateKernelInputsInit_ok r \<longleftrightarrow> SignedTxRequest_ok (pki_signedTxRequest r) \<and> PrivateCallData_ok (pki_privateCall r)"

interpretation pki: reader_codec PrivateKernelInputsInit_toBuffer PrivateKernelInputsInit_reads PrivateKernelInputsInit_ok
proof (rule struct_codec[OF PrivateKernelInputsInit_toBuffer_def], goal_cases)
  case (1 r)
  then show ?case unfolding PrivateKernelInputsInit_items_def PrivateKernelInputsInit_reads_def encodes_unfold
    by (cases r; intro encodes_intros; simp add: PrivateKernelInputsInit_ok_def)
qed

lemmas [encodes_intros] = pki.struct_rules

definition PrivateKernelInputsInner_reads :: "private_kernel_inputs_inner reading" where
  "PrivateKernelInputsInner_reads =
     jbind (readObject PreviousKernelData_fromBuffer) (\<lambda>v_pkn_previousKernel.
     jbind (readObject PrivateCallData_reads) (\<lambda>v_pkn_privateCall.
       jreturn \<lparr>pkn_previousKernel = v_pkn_previousKernel, pkn_privateCall = v_pkn_privateCall\<rparr>))"

definition PrivateKernelInputsInner_ok :: "private_kernel_inputs_inner \<Rightarrow> bool" where
  "PrivateKernelInputsInner_ok r \<longleftrightarrow> PreviousKernelData_ok (pkn_previousKernel r) \<and> PrivateCallData_ok (pkn_privateCall r)"

interpretation pkn: reader_codec PrivateKernelInputsInner_toBuffer PrivateKernelInputsInner_reads PrivateKernelInputsInner_ok
proof (rule struct_codec[OF PrivateKernelInputsInner_toBuffer_def], goal_cases)
  case (1 r)
  then show ?case unfolding PrivateKernelInputsInner_items_def PrivateKernelInputsInner_reads_def encodes_unfold
    by (cases r; intro encodes_intros; simp add: PrivateKernelInputsInner_ok_def)
qed

lemmas [encodes_intros] = pkn.struct_rules

definition PublicCallData_reads :: "public_call_data reading" where
  "PublicCallData_reads =
     jbind (readObject PublicCallStackItem_reads) (\<lambda>v_pcd_callStackItem.
     jbind (readArray PUBLIC_CALL_STACK_LENGTH PublicCallStackItem_reads) (\<lambda>v_pcd_publicCallStackPreimages.
     jbind (readObject Proof_fromBuffer) (\<lambda>v_pcd_proof. jbind Fr_fromBuffer (\<lambda>v_pcd_portalContractAddress.
     jbind Fr_fromBuffer (\<lambda>v_pcd_bytecodeHash.
       jreturn \<lparr>pcd_callStackItem = v_pcd_callStackItem, pcd_publicCallStackPreimages = v_pcd_publicCallStackPreimages, pcd_proof = v_pcd_proof,
        pcd_portalContractAddress = v_pcd_portalContractAddress, pcd_bytecodeHash = v_pcd_bytecodeHash\<rparr>)))))"

definition PublicCallData_ok :: "public_call_data \<Rightarrow> bool" where
  "PublicCallData_ok r \<longleftrightarrow> PublicCallStackItem_ok (pcd_callStackItem r) \<and> length (pcd_publicCallStackPreimages r) = PUBLIC_CALL_STACK_LENGTH \<and>
     (\<forall>y \<in> set (pcd_publicCallStackPreimages r). PublicCallStackItem_ok y) \<and> Proof_ok (pcd_proof r) \<and>
     fr_ok (pcd_portalContractAddress r) \<and> fr_ok (pcd_bytecodeHash r)"

interpretation pcd: reader_codec PublicCallData_toBuffer PublicCallData_reads PublicCallData_ok
proof (rule struct_codec[OF PublicCallData_toBuffer_def], goal_cases)
  case (1 r)
  then show ?case unfolding PublicCallData_items_def PublicCallData_reads_def encodes_unfold
    by (cases r; intro encodes_intros; simp add: PublicCallData_ok_def new_PublicCallData_def assertMemberLength_def)
qed

lemmas [encodes_intros] = pcd.struct_rules

definition WitnessedPublicCallData_reads :: "witnessed_public_call_data reading" where
  "WitnessedPublicCallData_reads =
     jbind (readObject PublicCallData_reads) (\<lambda>v_wpc_publicCall.
     jbind (readArray KERNEL_PUBLIC_DATA_UPDATE_REQUESTS_LENGTH (MembershipWitness_reads PUBLIC_DATA_TREE_HEIGHT)) (\<lambda>v_wpc_updateRequestsHashPaths.
     jbind (readArray KERNEL_PUBLIC_DATA_READS_LENGTH (MembershipWitness_reads PUBLIC_DATA_TREE_HEIGHT)) (\<lambda>v_wpc_readsHashPaths.
     jbind Fr_fromBuffer (\<lambda>v_wpc_publicDataTreeRoot.
       jreturn \<lparr>wpc_publicCall = v_wpc_publicCall, wpc_updateRequestsHashPaths = v_wpc_updateRequestsHashPaths,
        wpc_readsHashPaths = v_wpc_readsHashPaths, wpc_publicDataTreeRoot = v_wpc_publicDataTreeRoot\<rparr>))))"

definition WitnessedPublicCallData_ok :: "witnessed_public_call_data \<Rightarrow> bool" where
  "WitnessedPublicCallData_ok r \<longleftrightarrow> PublicCallData_ok (wpc_publicCall r) \<and>
     length (wpc_updateRequestsHashPaths r) = KERNEL_PUBLIC_DATA_UPDATE_REQUESTS_LENGTH \<and>
     (\<forall>y \<in> set (wpc_updateRequestsHashPaths r). MembershipWitness_ok PUBLIC_DATA_TREE_HEIGHT y) \<and>
     length (wpc_readsHashPaths r) = KERNEL_PUBLIC_DATA_READS_LENGTH \<and>
     (\<forall>y \<in> set (wpc_readsHashPaths r). MembershipWitness_ok PUBLIC_DATA_TREE_HEIGHT y) \<and>
     fr_ok (wpc_publicDataTreeRoot r)"

interpretation wpc: reader_codec WitnessedPublicCallData_toBuffer WitnessedPublicCallData_reads WitnessedPublicCallData_ok
proof (rule struct_codec[OF WitnessedPublicCallData_toBuffer_def], goal_cases)
  case (1 r)
  then show ?case unfolding WitnessedPublicCallData_items_def WitnessedPublicCallData_reads_def encodes_unfold
    by (cases r; intro encodes_intros; simp add: WitnessedPublicCallData_ok_def new_WitnessedPublicCallData_def assertMemberLength_def)
qed

lemmas [encodes_intros] = wpc.struct_rules

definition PublicKernelInputs_reads :: "public_kernel_inputs reading" where
  "PublicKernelInputs_reads =
     jbind (readObject PreviousKernelData_fromBuffer) (\<lambda>v_pbi_previousKernel.
     jbind (readObject PublicCallData_reads) (\<lambda>v_pbi_publicCall.
       jreturn \<lparr>pbi_previousKernel = v_pbi_previousKernel, pbi_publicCall = v_pbi_publicCall\<rparr>))"

definition PublicKernelInputs_ok :: "public_kernel_inputs \<Rightarrow> bool" where
  "PublicKernelInputs_ok r \<longleftrightarrow> PreviousKernelData_ok (pbi_previousKernel r) \<and> PublicCallData_ok (pbi_publicCall r)"

interpretation pbi: reader_codec PublicKernelInputs_toBuffer PublicKernelInputs_reads PublicKernelInputs_ok
proof (rule struct_codec[OF PublicKernelInputs_toBuffer_def], goal_cases)
  case (1 r)
  then show ?case unfolding PublicKernelInputs_items_def PublicKernelInputs_reads_def encodes_unfold
    by (cases r; intro encodes_intros; simp add: PublicKernelInputs_ok_def)
qed

lemmas [encodes_intros] = pbi.struct_rules

definition PublicKernelInputsNoPreviousKernel_reads :: "public_kernel_inputs_no_previous reading" where
  "PublicKernelInputsNoPreviousKernel_reads =
     jbind (readObject SignedTxRequest_fromBuffer) (\<lambda>v_pbn_signedTxRequest.
     jbind (readObject PublicCallData_reads) (\<lambda>v_pbn_publicCallData.
     jbind (readObject CombinedHistoricTreeRoots_fromBuffer) (\<lambda>v_pbn_historicTreeRoots.
       jreturn \<lparr>pbn_signedTxRequest = v_pbn_signedTxRequest, pbn_publicCallData = v_pbn_publicCallData,
        pbn_historicTreeRoots = v_pbn_historicTreeRoots\<rparr>)))"

definition PublicKernelInputsNoPreviousKernel_ok :: "public_kernel_inputs_no_previous \<Rightarrow> bool" where
  "PublicKernelInputsNoPreviousKernel_ok r \<longleftrightarrow> SignedTxRequest_ok (pbn_signedTxRequest r) \<and> PublicCallData_ok (pbn_publicCallData r) \<and>
     CombinedHistoricTreeRoots_ok (pbn_historicTreeRoots r)"

interpretation pbn: reader_codec PublicKernelInputsNoPreviousKernel_toBuffer PublicKernelInputsNoPreviousKernel_reads PublicKernelInputsNoPreviousKernel_ok
proof (rule struct_codec[OF PublicKernelInputsNoPreviousKernel_toBuffer_def], goal_cases)
  case (1 r)
  then show ?case unfolding PublicKernelInputsNoPreviousKernel_items_def PublicKernelInputsNoPreviousKernel_reads_def encodes_unfold
    by (cases r; intro encodes_intros; simp add: PublicKernelInputsNoPreviousKernel_ok_def)
qed

lemmas [encodes_intros] = pbn.struct_rules

section \<open>Properties\<close>

lemma EthAddress_fromField_ZERO: "yields (EthAddress_fromField Fr_ZERO) eth_ok"
  by (simp add: EthAddress_fromField_def Fr_toBuffer_bytes Fr_ZERO_def new_Fr_def new_EthAddress_def eth_ok_def subarray_def)

lemma CallContext_empty_ok: "yields CallContext_empty CallContext_ok"
  unfolding CallContext_empty_def new_CallContext_def sum.case
  by (rule yields_bind[OF EthAddress_fromField_ZERO]) (simp add: CallContext_ok_def)

lemma PublicCircuitPublicInputs_empty_ok: "yields PublicCircuitPublicInputs_empty PublicCircuitPublicInputs_ok"
  unfolding PublicCircuitPublicInputs_empty_def
  by (rule yields_bind[OF CallContext_empty_ok])
    (simp add: new_PublicCircuitPublicInputs_def assertMemberLength_def PublicCircuitPublicInputs_ok_def ContractStorageRead_empty_def
      ContractStorageRead_ok_def ContractStorageUpdateRequest_empty_def ContractStorageUpdateRequest_ok_def)

lemma PrivateCircuitPublicInputs_empty_ok: "yields PrivateCircuitPublicInputs_empty PrivateCircuitPublicInputs_ok"
  unfolding PrivateCircuitPublicInputs_empty_def
  by (rule yields_bind[OF CallContext_empty_ok])
    (simp add: new_PrivateCircuitPublicInputs_def assertMemberLength_def PrivateCircuitPublicInputs_ok_def)

lemma PublicCallStackItem_empty_ok: "yields PublicCallStackItem_empty PublicCallStackItem_ok"
  unfolding PublicCallStackItem_empty_def
  by (intro yields_bind[OF FunctionData_empty_ok] yields_bind[OF PublicCircuitPublicInputs_empty_ok]) (simp add: PublicCallStackItem_ok_def)

text \<open>The arguments of the public kernel circuit are encoded without ambiguity: the encoding of two valid inputs is the same only if the
  inputs are, in every member of the previous kernel and of the call; and the encoding of one is no prefix of that of another.\<close>

theorem public_kernel_encoding_injective:
  assumes "PublicKernelInputs_ok x" and "PublicKernelInputs_ok y"
  shows "\<exists>bs cs. PublicKernelInputs_toBuffer x = Inr bs \<and> PublicKernelInputs_toBuffer y = Inr cs \<and> (prefix bs cs \<longrightarrow> x = y)"
  using pbi.prefix_free[OF assms] pbi.to_total[OF assms(1)] pbi.to_total[OF assms(2)] by metis

lemma PublicKernelInputs_sample:
  "\<exists>x. PublicKernelInputs_ok x \<and> PublicKernelInputs_ok (x\<lparr>pbi_publicCall := (pbi_publicCall x)\<lparr>pcd_bytecodeHash := Fr_ZERO\<rparr>\<rparr>) \<and>
     pcd_bytecodeHash (pbi_publicCall x) = new_Fr 1"
proof -
  obtain k where k: "PreviousKernelData_ok k" using PreviousKernelData_empty_ok by (auto simp: yields_def)
  obtain i where i: "PublicCallStackItem_ok i" using PublicCallStackItem_empty_ok by (auto simp: yields_def)
  have "fr_ok (new_Fr 1)" by (simp add: fr_ok_def new_Fr_def)
  then show ?thesis using k i
    by (intro exI[of _ "\<lparr>pbi_previousKernel = k, pbi_publicCall = \<lparr>pcd_callStackItem = i,
      pcd_publicCallStackPreimages = replicate PUBLIC_CALL_STACK_LENGTH i, pcd_proof = makeEmptyProof, pcd_portalContractAddress = Fr_ZERO,
      pcd_bytecodeHash = new_Fr 1\<rparr>\<rparr>"]) (simp add: PublicKernelInputs_ok_def PublicCallData_ok_def Proof_ok_def makeEmptyProof_def)
qed

theorem public_kernel_encoding_injective_witness:
  "\<exists>x y bs cs. PublicKernelInputs_toBuffer x = Inr bs \<and> PublicKernelInputs_toBuffer y = Inr cs \<and> bs \<noteq> cs"
proof -
  obtain x where x: "PublicKernelInputs_ok x" "pcd_bytecodeHash (pbi_publicCall x) = new_Fr 1"
    and y: "PublicKernelInputs_ok (x\<lparr>pbi_publicCall := (pbi_publicCall x)\<lparr>pcd_bytecodeHash := Fr_ZERO\<rparr>\<rparr>)" (is "PublicKernelInputs_ok ?y")
    using PublicKernelInputs_sample by blast
  have "pcd_bytecodeHash (pbi_publicCall ?y) \<noteq> pcd_bytecodeHash (pbi_publicCall x)" using x(2) by (simp add: Fr_ZERO_def new_Fr_def)
  then have "x \<noteq> ?y" by metis
  then show ?thesis using public_kernel_encoding_injective[OF x(1) y] by blast
qed

text \<open>A public call that is enqueued by a transaction becomes an item of the call stack that is an execution request: it has the
  address, function, call context and hash of arguments of the request, all other public inputs are empty, and it can be encoded.\<close>

lemma enqueued_call_item:
  assumes "PublicCallRequest_ok r" and "computeVarArgsHash (pcr_args r) = Inr h" and "fr_ok h"
  shows "\<exists>i. PublicCallRequest_toPublicCallStackItem computeVarArgsHash r = Inr i \<and> PublicCallStackItem_ok i \<and> pcs_isExecutionRequest i \<and>
    pcs_contractAddress i = pcr_contractAddress r \<and> pcs_functionData i = pcr_functionData r \<and>
    pci_callContext (pcs_publicInputs i) = pcr_callContext r \<and> pci_argsHash (pcs_publicInputs i) = h \<and>
    (\<exists>p. PublicCircuitPublicInputs_empty = Inr p \<and>
      pcs_publicInputs i = p\<lparr>pci_callContext := pcr_callContext r, pci_argsHash := h\<rparr>)"
proof -
  obtain p where p: "PublicCircuitPublicInputs_empty = Inr p" "PublicCircuitPublicInputs_ok p"
    using PublicCircuitPublicInputs_empty_ok by (auto simp: yields_def)
  let ?i = "\<lparr>pcs_contractAddress = pcr_contractAddress r, pcs_functionData = pcr_functionData r,
    pcs_publicInputs = p\<lparr>pci_callContext := pcr_callContext r, pci_argsHash := h\<rparr>, pcs_isExecutionRequest = True\<rparr>"
  have "PublicCallRequest_toPublicCallStackItem computeVarArgsHash r = Inr ?i"
    unfolding PublicCallRequest_toPublicCallStackItem_def PublicCallRequest_getArgsHash_def p(1) assms(2) rbind_simps ..
  moreover have "PublicCallStackItem_ok ?i"
    using p(2) assms(1,3) by (simp add: PublicCallStackItem_ok_def PublicCallRequest_ok_def PublicCircuitPublicInputs_ok_def)
  ultimately show ?thesis using p(1) by (intro exI[of _ ?i] conjI exI[of _ p]) simp_all
qed

end
