(* ===== verification/RollupCodecs.thy ===== *)
theory RollupCodecs
  imports RollupStructs CallCodecs
begin

text \<open>
  The encodings of the rollup structs, read back by \<open>fromBuffer\<close> or by a reference reader \<open>C_reads\<close>.
\<close>

interpretation fr_row: reader_codec "\<lambda>p. serializeToBuffer (map (\<lambda>x. BObject (Fr_toBuffer x)) p)" "readArray m Fr_fromBuffer"
  "\<lambda>p. length p = m \<and> (\<forall>y \<in> set p. fr_ok y)" for m
proof (rule struct_codec[OF refl], goal_cases)
  case (1 p)
  then have "encodes [BArray (map (\<lambda>x. BObject (Fr_toBuffer x)) p)] (jbind (readArray m Fr_fromBuffer) jreturn) p"
    by (intro fr32.encodes_array encodes_return) simp_all
  then show ?case by (simp add: encodes_def serializeToBuffer_singleton_array jbind_jreturn)
qed

lemma encodes_rows [encodes_intros]:
  assumes "\<forall>p \<in> set ps. length p = m \<and> (\<forall>y \<in> set p. fr_ok y)" and "length ps = n" and "encodes objs (f ps) y"
  shows "encodes (BArray (map (\<lambda>p. BArray (map (\<lambda>x. BObject (Fr_toBuffer x)) p)) ps) # objs) (jbind (readArray n (readArray m Fr_fromBuffer)) f) y"
proof -
  obtain bss where bss: "rtraverse (\<lambda>p. serializeToBuffer (map (\<lambda>x. BObject (Fr_toBuffer x)) p)) ps = Inr bss"
    using rtraverse_total[of ps "\<lambda>p. serializeToBuffer (map (\<lambda>x. BObject (Fr_toBuffer x)) p)"] assms(1) fr_row.to_total[of _ m] by blast
  have ser: "serializeToBuffer (map (\<lambda>p. BArray (map (\<lambda>x. BObject (Fr_toBuffer x)) p)) ps) = Inr (concat bss)"
    using bss by (induction ps arbitrary: bss) (auto simp: serializeToBuffer_Cons)
  show ?thesis unfolding assms(2)[symmetric]
    by (rule encodes_cons[where b = "concat bss" and x = ps])
      (use assms(3) fr_row.array_reads[OF assms(1) bss] ser in \<open>simp_all add: serializeToBuffer_Cons\<close>)
qed

lemma encodes_pair [encodes_intros]:
  assumes "length p = 2" and "\<forall>y \<in> set p. fr_ok y" and "encodes objs (f p) y"
  shows "encodes (BArray (map (\<lambda>x. BObject (Fr_toBuffer x)) p) # objs) (jbind readFrPair f) y"
proof -
  obtain a b where p: "p = [a, b]" using assms(1) by (auto simp: numeral_2_eq_2 length_Suc_conv)
  have "encodes [BObject (Fr_toBuffer a), BObject (Fr_toBuffer b)] readFrPair p" unfolding readFrPair_def
    using assms(2) by (intro fr32.encodes_object encodes_return) (simp_all add: p)
  then show ?thesis using assms(3) by (intro encodes_nested_array) (simp_all add: p jbind_jreturn)
qed

definition NullifierLeafPreimage_reads :: "nullifier_leaf_preimage reading" where
  "NullifierLeafPreimage_reads =
     jbind Fr_fromBuffer (\<lambda>v_nlp_leafValue. jbind Fr_fromBuffer (\<lambda>v_nlp_nextValue.
     jbind readNumber (\<lambda>v_nlp_nextIndex.
       jreturn \<lparr>nlp_leafValue = v_nlp_leafValue, nlp_nextValue = v_nlp_nextValue, nlp_nextIndex = v_nlp_nextIndex\<rparr>)))"

definition NullifierLeafPreimage_ok :: "nullifier_leaf_preimage \<Rightarrow> bool" where
  "NullifierLeafPreimage_ok r \<longleftrightarrow> fr_ok (nlp_leafValue r) \<and> fr_ok (nlp_nextValue r) \<and> 0 \<le> nlp_nextIndex r \<and> nlp_nextIndex r < 2 ^ 32"

interpretation nlp: reader_codec NullifierLeafPreimage_toBuffer NullifierLeafPreimage_reads NullifierLeafPreimage_ok
proof (rule struct_codec[OF NullifierLeafPreimage_toBuffer_def], goal_cases)
  case (1 r)
  then show ?case unfolding NullifierLeafPreimage_items_def NullifierLeafPreimage_reads_def encodes_unfold
    by (cases r; intro encodes_intros; simp add: NullifierLeafPreimage_ok_def)
qed

lemmas [encodes_intros] = nlp.struct_rules

definition ConstantBaseRollupData_ok :: "constant_base_rollup_data \<Rightarrow> bool" where
  "ConstantBaseRollupData_ok r \<longleftrightarrow> snapshot_ok (cbr_startTreeOfHistoricPrivateDataTreeRootsSnapshot r) \<and>
     snapshot_ok (cbr_startTreeOfHistoricContractTreeRootsSnapshot r) \<and>
     snapshot_ok (cbr_startTreeOfHistoricL1ToL2MsgTreeRootsSnapshot r) \<and> fr_ok (cbr_privateKernelVkTreeRoot r) \<and>
     fr_ok (cbr_publicKernelVkTreeRoot r) \<and> fr_ok (cbr_baseRollupVkHash r) \<and> fr_ok (cbr_mergeRollupVkHash r)"

interpretation cbr: reader_codec ConstantBaseRollupData_toBuffer ConstantBaseRollupData_fromBuffer ConstantBaseRollupData_ok
proof (rule struct_codec[OF ConstantBaseRollupData_toBuffer_def], goal_cases)
  case (1 r)
  then show ?case unfolding ConstantBaseRollupData_items_def ConstantBaseRollupData_fromBuffer_def encodes_unfold
    by (cases r; intro encodes_intros; simp add: ConstantBaseRollupData_ok_def)
qed

lemmas [encodes_intros] = cbr.struct_rules

definition BaseRollupInputs_reads :: "base_rollup_inputs reading" where
  "BaseRollupInputs_reads =
     jbind (readArray 2 PreviousKernelData_fromBuffer) (\<lambda>v_bri_kernelData.
     jbind (readObject AppendOnlyTreeSnapshot_fromBuffer) (\<lambda>v_bri_startPrivateDataTreeSnapshot.
     jbind (readObject AppendOnlyTreeSnapshot_fromBuffer) (\<lambda>v_bri_startNullifierTreeSnapshot.
     jbind (readObject AppendOnlyTreeSnapshot_fromBuffer) (\<lambda>v_bri_startContractTreeSnapshot.
     jbind Fr_fromBuffer (\<lambda>v_bri_startPublicDataTreeRoot.
     jbind (readArray (2 * KERNEL_NEW_NULLIFIERS_LENGTH) NullifierLeafPreimage_reads) (\<lambda>v_bri_lowNullifierLeafPreimages.
     jbind (readArray (2 * KERNEL_NEW_NULLIFIERS_LENGTH) (MembershipWitness_reads NULLIFIER_TREE_HEIGHT)) (\<lambda>v_bri_lowNullifierMembershipWitness.
     jbind (readArray (PRIVATE_DATA_TREE_HEIGHT - PRIVATE_DATA_SUBTREE_HEIGHT) Fr_fromBuffer) (\<lambda>v_bri_newCommitmentsSubtreeSiblingPath.
     jbind (readArray (NULLIFIER_TREE_HEIGHT - NULLIFIER_SUBTREE_HEIGHT) Fr_fromBuffer) (\<lambda>v_bri_newNullifiersSubtreeSiblingPath.
     jbind (readArray (CONTRACT_TREE_HEIGHT - CONTRACT_SUBTREE_HEIGHT) Fr_fromBuffer) (\<lambda>v_bri_newContractsSubtreeSiblingPath.
     jbind (readArray (2 * KERNEL_PUBLIC_DATA_UPDATE_REQUESTS_LENGTH) (readArray PUBLIC_DATA_TREE_HEIGHT Fr_fromBuffer)) (\<lambda>v_bri_newPublicDataUpdateRequestsSiblingPaths.
     jbind (readArray (2 * KERNEL_PUBLIC_DATA_READS_LENGTH) (readArray PUBLIC_DATA_TREE_HEIGHT Fr_fromBuffer)) (\<lambda>v_bri_newPublicDataReadsSiblingPaths.
     jbind (readArray 2 (MembershipWitness_reads PRIVATE_DATA_TREE_ROOTS_TREE_HEIGHT)) (\<lambda>v_bri_historicPrivateDataTreeRootMembershipWitnesses.
     jbind (readArray 2 (MembershipWitness_reads CONTRACT_TREE_ROOTS_TREE_HEIGHT)) (\<lambda>v_bri_historicContractsTreeRootMembershipWitnesses.
     jbind (readArray 2 (MembershipWitness_reads L1_TO_L2_MESSAGES_ROOTS_TREE_HEIGHT)) (\<lambda>v_bri_historicL1ToL2MsgTreeRootMembershipWitnesses.
     jbind (readObject ConstantBaseRollupData_fromBuffer) (\<lambda>v_bri_constants.
       jreturn \<lparr>bri_kernelData = v_bri_kernelData, bri_startPrivateDataTreeSnapshot = v_bri_startPrivateDataTreeSnapshot,
        bri_startNullifierTreeSnapshot = v_bri_startNullifierTreeSnapshot,
        bri_startContractTreeSnapshot = v_bri_startContractTreeSnapshot, bri_startPublicDataTreeRoot = v_bri_startPublicDataTreeRoot,
        bri_lowNullifierLeafPreimages = v_bri_lowNullifierLeafPreimages,
        bri_lowNullifierMembershipWitness = v_bri_lowNullifierMembershipWitness,
        bri_newCommitmentsSubtreeSiblingPath = v_bri_newCommitmentsSubtreeSiblingPath,
        bri_newNullifiersSubtreeSiblingPath = v_bri_newNullifiersSubtreeSiblingPath,
        bri_newContractsSubtreeSiblingPath = v_bri_newContractsSubtreeSiblingPath,
        bri_newPublicDataUpdateRequestsSiblingPaths = v_bri_newPublicDataUpdateRequestsSiblingPaths,
        bri_newPublicDataReadsSiblingPaths = v_bri_newPublicDataReadsSiblingPaths,
        bri_historicPrivateDataTreeRootMembershipWitnesses = v_bri_historicPrivateDataTreeRootMembershipWitnesses,
        bri_historicContractsTreeRootMembershipWitnesses = v_bri_historicContractsTreeRootMembershipWitnesses,
        bri_historicL1ToL2MsgTreeRootMembershipWitnesses = v_bri_historicL1ToL2MsgTreeRootMembershipWitnesses,
        bri_constants = v_bri_constants\<rparr>))))))))))))))))"

definition BaseRollupInputs_ok :: "base_rollup_inputs \<Rightarrow> bool" where
  "BaseRollupInputs_ok r \<longleftrightarrow> length (bri_kernelData r) = 2 \<and> (\<forall>y \<in> set (bri_kernelData r). PreviousKernelData_ok y) \<and>
     snapshot_ok (bri_startPrivateDataTreeSnapshot r) \<and> snapshot_ok (bri_startNullifierTreeSnapshot r) \<and>
     snapshot_ok (bri_startContractTreeSnapshot r) \<and> fr_ok (bri_startPublicDataTreeRoot r) \<and>
     length (bri_lowNullifierLeafPreimages r) = (2 * KERNEL_NEW_NULLIFIERS_LENGTH) \<and>
     (\<forall>y \<in> set (bri_lowNullifierLeafPreimages r). NullifierLeafPreimage_ok y) \<and>
     length (bri_lowNullifierMembershipWitness r) = (2 * KERNEL_NEW_NULLIFIERS_LENGTH) \<and>
     (\<forall>y \<in> set (bri_lowNullifierMembershipWitness r). MembershipWitness_ok NULLIFIER_TREE_HEIGHT y) \<and>
     length (bri_newCommitmentsSubtreeSiblingPath r) = (PRIVATE_DATA_TREE_HEIGHT - PRIVATE_DATA_SUBTREE_HEIGHT) \<and>
     (\<forall>y \<in> set (bri_newCommitmentsSubtreeSiblingPath r). fr_ok y) \<and>
     length (bri_newNullifiersSubtreeSiblingPath r) = (NULLIFIER_TREE_HEIGHT - NULLIFIER_SUBTREE_HEIGHT) \<and>
     (\<forall>y \<in> set (bri_newNullifiersSubtreeSiblingPath r). fr_ok y) \<and>
     length (bri_newContractsSubtreeSiblingPath r) = (CONTRACT_TREE_HEIGHT - CONTRACT_SUBTREE_HEIGHT) \<and>
     (\<forall>y \<in> set (bri_newContractsSubtreeSiblingPath r). fr_ok y) \<and>
     length (bri_newPublicDataUpdateRequestsSiblingPaths r) = (2 * KERNEL_PUBLIC_DATA_UPDATE_REQUESTS_LENGTH) \<and>
     (\<forall>p \<in> set (bri_newPublicDataUpdateRequestsSiblingPaths r). length p = PUBLIC_DATA_TREE_HEIGHT \<and> (\<forall>y \<in> set p. fr_ok y)) \<and>
     length (bri_newPublicDataReadsSiblingPaths r) = (2 * KERNEL_PUBLIC_DATA_READS_LENGTH) \<and>
     (\<forall>p \<in> set (bri_newPublicDataReadsSiblingPaths r). length p = PUBLIC_DATA_TREE_HEIGHT \<and> (\<forall>y \<in> set p. fr_ok y)) \<and>
     length (bri_historicPrivateDataTreeRootMembershipWitnesses r) = 2 \<and>
     (\<forall>y \<in> set (bri_historicPrivateDataTreeRootMembershipWitnesses r). MembershipWitness_ok PRIVATE_DATA_TREE_ROOTS_TREE_HEIGHT y) \<and>
     length (bri_historicContractsTreeRootMembershipWitnesses r) = 2 \<and>
     (\<forall>y \<in> set (bri_historicContractsTreeRootMembershipWitnesses r). MembershipWitness_ok CONTRACT_TREE_ROOTS_TREE_HEIGHT y) \<and>
     length (bri_historicL1ToL2MsgTreeRootMembershipWitnesses r) = 2 \<and>
     (\<forall>y \<in> set (bri_historicL1ToL2MsgTreeRootMembershipWitnesses r). MembershipWitness_ok L1_TO_L2_MESSAGES_ROOTS_TREE_HEIGHT y) \<and>
     ConstantBaseRollupData_ok (bri_constants r)"

interpretation bri: reader_codec BaseRollupInputs_toBuffer BaseRollupInputs_reads BaseRollupInputs_ok
proof (rule struct_codec[OF BaseRollupInputs_toBuffer_def], goal_cases)
  case (1 r)
  then show ?case unfolding BaseRollupInputs_items_def BaseRollupInputs_reads_def encodes_unfold
    by (cases r; intro encodes_intros; simp add: BaseRollupInputs_ok_def new_BaseRollupInputs_def)
qed

lemmas [encodes_intros] = bri.struct_rules

definition BaseOrMergeRollupPublicInputs_ok :: "rollup_public_inputs \<Rightarrow> bool" where
  "BaseOrMergeRollupPublicInputs_ok r \<longleftrightarrow> 0 \<le> rpi_rollupType r \<and> rpi_rollupType r < 2 ^ 32 \<and> fr_ok (rpi_rollupSubTreeHeight r) \<and>
     AggregationObject_ok (rpi_endAggregationObject r) \<and> ConstantBaseRollupData_ok (rpi_constants r) \<and>
     snapshot_ok (rpi_startPrivateDataTreeSnapshot r) \<and> snapshot_ok (rpi_endPrivateDataTreeSnapshot r) \<and>
     snapshot_ok (rpi_startNullifierTreeSnapshot r) \<and> snapshot_ok (rpi_endNullifierTreeSnapshot r) \<and>
     snapshot_ok (rpi_startContractTreeSnapshot r) \<and> snapshot_ok (rpi_endContractTreeSnapshot r) \<and>
     fr_ok (rpi_startPublicDataTreeRoot r) \<and> fr_ok (rpi_endPublicDataTreeRoot r) \<and> length (rpi_calldataHash r) = 2 \<and>
     (\<forall>y \<in> set (rpi_calldataHash r). fr_ok y)"

interpretation rpi: reader_codec BaseOrMergeRollupPublicInputs_toBuffer BaseOrMergeRollupPublicInputs_fromBuffer BaseOrMergeRollupPublicInputs_ok
proof (rule struct_codec[OF BaseOrMergeRollupPublicInputs_toBuffer_def], goal_cases)
  case (1 r)
  then show ?case unfolding BaseOrMergeRollupPublicInputs_items_def BaseOrMergeRollupPublicInputs_fromBuffer_def encodes_unfold
    by (cases r; intro encodes_intros; simp add: BaseOrMergeRollupPublicInputs_ok_def)
qed

lemmas [encodes_intros] = rpi.struct_rules

definition PreviousRollupData_reads :: "previous_rollup_data reading" where
  "PreviousRollupData_reads =
     jbind (readObject BaseOrMergeRollupPublicInputs_fromBuffer) (\<lambda>v_prd_publicInputs.
     jbind (readObject Proof_fromBuffer) (\<lambda>v_prd_proof. jbind (readObject VerificationKey_fromBuffer) (\<lambda>v_prd_vk.
     jbind readNumber (\<lambda>v_prd_vkIndex.
     jbind (readObject (MembershipWitness_reads ROLLUP_VK_TREE_HEIGHT)) (\<lambda>v_prd_vkSiblingPath.
       jreturn \<lparr>prd_publicInputs = v_prd_publicInputs, prd_proof = v_prd_proof, prd_vk = v_prd_vk, prd_vkIndex = v_prd_vkIndex,
        prd_vkSiblingPath = v_prd_vkSiblingPath\<rparr>)))))"

definition PreviousRollupData_ok :: "previous_rollup_data \<Rightarrow> bool" where
  "PreviousRollupData_ok r \<longleftrightarrow> BaseOrMergeRollupPublicInputs_ok (prd_publicInputs r) \<and> Proof_ok (prd_proof r) \<and> VerificationKey_ok (prd_vk r) \<and>
     0 \<le> prd_vkIndex r \<and> prd_vkIndex r < 2 ^ 32 \<and> MembershipWitness_ok ROLLUP_VK_TREE_HEIGHT (prd_vkSiblingPath r)"

interpretation prd: reader_codec PreviousRollupData_toBuffer PreviousRollupData_reads PreviousRollupData_ok
proof (rule struct_codec[OF PreviousRollupData_toBuffer_def], goal_cases)
  case (1 r)
  then show ?case unfolding PreviousRollupData_items_def PreviousRollupData_reads_def encodes_unfold
    by (cases r; intro encodes_intros; simp add: PreviousRollupData_ok_def)
qed

lemmas [encodes_intros] = prd.struct_rules

definition MergeRollupInputs_reads :: "merge_rollup_inputs reading" where
  "MergeRollupInputs_reads =
     jbind (readArray 2 PreviousRollupData_reads) (\<lambda>v_mri_previousRollupData.
       jreturn \<lparr>mri_previousRollupData = v_mri_previousRollupData\<rparr>)"

definition MergeRollupInputs_ok :: "merge_rollup_inputs \<Rightarrow> bool" where
  "MergeRollupInputs_ok r \<longleftrightarrow> length (mri_previousRollupData r) = 2 \<and> (\<forall>y \<in> set (mri_previousRollupData r). PreviousRollupData_ok y)"

interpretation mri: reader_codec MergeRollupInputs_toBuffer MergeRollupInputs_reads MergeRollupInputs_ok
proof (rule struct_codec[OF MergeRollupInputs_toBuffer_def], goal_cases)
  case (1 r)
  then show ?case unfolding MergeRollupInputs_items_def MergeRollupInputs_reads_def encodes_unfold
    by (cases r; intro encodes_intros; simp add: MergeRollupInputs_ok_def)
qed

lemmas [encodes_intros] = mri.struct_rules

definition RootRollupInputs_reads :: "root_rollup_inputs reading" where
  "RootRollupInputs_reads =
     jbind (readArray 2 PreviousRollupData_reads) (\<lambda>v_rri_previousRollupData.
     jbind (readArray PRIVATE_DATA_TREE_ROOTS_TREE_HEIGHT Fr_fromBuffer) (\<lambda>v_rri_newHistoricPrivateDataTreeRootSiblingPath.
     jbind (readArray CONTRACT_TREE_ROOTS_TREE_HEIGHT Fr_fromBuffer) (\<lambda>v_rri_newHistoricContractDataTreeRootSiblingPath.
     jbind (readArray NUMBER_OF_L1_L2_MESSAGES_PER_ROLLUP Fr_fromBuffer) (\<lambda>v_rri_newL1ToL2Messages.
     jbind (readArray L1_TO_L2_MESSAGES_SIBLING_PATH_LENGTH Fr_fromBuffer) (\<lambda>v_rri_newL1ToL2MessageTreeRootSiblingPath.
     jbind (readArray L1_TO_L2_MESSAGES_ROOTS_TREE_HEIGHT Fr_fromBuffer) (\<lambda>v_rri_newHistoricL1ToL2MessageTreeRootSiblingPath.
     jbind (readObject AppendOnlyTreeSnapshot_fromBuffer) (\<lambda>v_rri_startL1ToL2MessageTreeSnapshot.
     jbind (readObject AppendOnlyTreeSnapshot_fromBuffer) (\<lambda>v_rri_startHistoricTreeL1ToL2MessageTreeRootsSnapshot.
       jreturn \<lparr>rri_previousRollupData = v_rri_previousRollupData,
        rri_newHistoricPrivateDataTreeRootSiblingPath = v_rri_newHistoricPrivateDataTreeRootSiblingPath,
        rri_newHistoricContractDataTreeRootSiblingPath = v_rri_newHistoricContractDataTreeRootSiblingPath,
        rri_newL1ToL2Messages = v_rri_newL1ToL2Messages,
        rri_newL1ToL2MessageTreeRootSiblingPath = v_rri_newL1ToL2MessageTreeRootSiblingPath,
        rri_newHistoricL1ToL2MessageTreeRootSiblingPath = v_rri_newHistoricL1ToL2MessageTreeRootSiblingPath,
        rri_startL1ToL2MessageTreeSnapshot = v_rri_startL1ToL2MessageTreeSnapshot,
        rri_startHistoricTreeL1ToL2MessageTreeRootsSnapshot = v_rri_startHistoricTreeL1ToL2MessageTreeRootsSnapshot\<rparr>))))))))"

definition RootRollupInputs_ok :: "root_rollup_inputs \<Rightarrow> bool" where
  "RootRollupInputs_ok r \<longleftrightarrow> length (rri_previousRollupData r) = 2 \<and> (\<forall>y \<in> set (rri_previousRollupData r). PreviousRollupData_ok y) \<and>
     length (rri_newHistoricPrivateDataTreeRootSiblingPath r) = PRIVATE_DATA_TREE_ROOTS_TREE_HEIGHT \<and>
     (\<forall>y \<in> set (rri_newHistoricPrivateDataTreeRootSiblingPath r). fr_ok y) \<and>
     length (rri_newHistoricContractDataTreeRootSiblingPath r) = CONTRACT_TREE_ROOTS_TREE_HEIGHT \<and>
     (\<forall>y \<in> set (rri_newHistoricContractDataTreeRootSiblingPath r). fr_ok y) \<and>
     length (rri_newL1ToL2Messages r) = NUMBER_OF_L1_L2_MESSAGES_PER_ROLLUP \<and>
     (\<forall>y \<in> set (rri_newL1ToL2Messages r). fr_ok y) \<and>
     length (rri_newL1ToL2MessageTreeRootSiblingPath r) = L1_TO_L2_MESSAGES_SIBLING_PATH_LENGTH \<and>
     (\<forall>y \<in> set (rri_newL1ToL2MessageTreeRootSiblingPath r). fr_ok y) \<and>
     length (rri_newHistoricL1ToL2MessageTreeRootSiblingPath r) = L1_TO_L2_MESSAGES_ROOTS_TREE_HEIGHT \<and>
     (\<forall>y \<in> set (rri_newHistoricL1ToL2MessageTreeRootSiblingPath r). fr_ok y) \<and>
     snapshot_ok (rri_startL1ToL2MessageTreeSnapshot r) \<and> snapshot_ok (rri_startHistoricTreeL1ToL2MessageTreeRootsSnapshot r)"

interpretation rri: reader_codec RootRollupInputs_toBuffer RootRollupInputs_reads RootRollupInputs_ok
proof (rule struct_codec[OF RootRollupInputs_toBuffer_def], goal_cases)
  case (1 r)
  then show ?case unfolding RootRollupInputs_items_def RootRollupInputs_reads_def encodes_unfold
    by (cases r; intro encodes_intros; simp add: RootRollupInputs_ok_def new_RootRollupInputs_def assertMemberLength_def)
qed

lemmas [encodes_intros] = rri.struct_rules

definition RootRollupPublicInputs_ok :: "root_rollup_public_inputs \<Rightarrow> bool" where
  "RootRollupPublicInputs_ok r \<longleftrightarrow> AggregationObject_ok (rrp_endAggregationObject r) \<and> snapshot_ok (rrp_startPrivateDataTreeSnapshot r) \<and>
     snapshot_ok (rrp_endPrivateDataTreeSnapshot r) \<and> snapshot_ok (rrp_startNullifierTreeSnapshot r) \<and>
     snapshot_ok (rrp_endNullifierTreeSnapshot r) \<and> snapshot_ok (rrp_startContractTreeSnapshot r) \<and>
     snapshot_ok (rrp_endContractTreeSnapshot r) \<and> fr_ok (rrp_startPublicDataTreeRoot r) \<and>
     fr_ok (rrp_endPublicDataTreeRoot r) \<and> snapshot_ok (rrp_startTreeOfHistoricPrivateDataTreeRootsSnapshot r) \<and>
     snapshot_ok (rrp_endTreeOfHistoricPrivateDataTreeRootsSnapshot r) \<and>
     snapshot_ok (rrp_startTreeOfHistoricContractTreeRootsSnapshot r) \<and>
     snapshot_ok (rrp_endTreeOfHistoricContractTreeRootsSnapshot r) \<and> snapshot_ok (rrp_startL1ToL2MessageTreeSnapshot r) \<and>
     snapshot_ok (rrp_endL1ToL2MessageTreeSnapshot r) \<and>
     snapshot_ok (rrp_startTreeOfHistoricL1ToL2MessageTreeRootsSnapshot r) \<and>
     snapshot_ok (rrp_endTreeOfHistoricL1ToL2MessageTreeRootsSnapshot r) \<and> length (rrp_calldataHash r) = 2 \<and>
     (\<forall>y \<in> set (rrp_calldataHash r). fr_ok y) \<and> length (rrp_l1ToL2MessagesHash r) = 2 \<and>
     (\<forall>y \<in> set (rrp_l1ToL2MessagesHash r). fr_ok y)"

interpretation rrp: reader_codec RootRollupPublicInputs_toBuffer RootRollupPublicInputs_fromBuffer RootRollupPublicInputs_ok
proof (rule struct_codec[OF RootRollupPublicInputs_toBuffer_def], goal_cases)
  case (1 r)
  then show ?case unfolding RootRollupPublicInputs_items_def RootRollupPublicInputs_fromBuffer_def encodes_unfold
    by (cases r; intro encodes_intros; simp add: RootRollupPublicInputs_ok_def)
qed

lemmas [encodes_intros] = rrp.struct_rules

section \<open>The hash of the calldata\<close>

text \<open>A hash of 32 bytes is passed through the circuits as two field elements, its halves; \<open>sha256CalldataHash\<close> puts it together again.\<close>

lemma low_half_of_field:
  assumes "length b = 16"
  shows "\<exists>buf. Fr_toBuffer (new_Fr (be_val b)) = Inr buf \<and> map (\<lambda>i. byte_at buf (i + 16)) [0..<16] = b"
proof -
  let ?buf = "replicate 16 0 @ b"
  have z: "be_val (replicate n 0) = 0" for n by (induction n) (simp_all add: be_val_Cons)
  have v: "be_val ?buf = be_val b" by (simp add: be_val_append z)
  have "be_val b < 256 ^ 32" using be_val_less[of ?buf] assms v by simp
  then have "Fr_toBuffer (new_Fr (be_val b)) = Inr ?buf"
    using be_bytes_be_val[of ?buf] assms v by (simp add: Fr_toBuffer_bytes new_Fr_def)
  moreover have "map (\<lambda>i. byte_at ?buf (i + 16)) [0..<16] = b"
    using assms by (intro nth_equalityI) (simp_all add: byte_at_def nth_append)
  ultimately show ?thesis by blast
qed

lemma sha256CalldataHash_joins_halves:
  assumes "length h = 32" and "rrp_calldataHash r = [new_Fr (be_val (take 16 h)), new_Fr (be_val (drop 16 h))]"
  shows "RootRollupPublicInputs_sha256CalldataHash r = Inr h"
proof -
  obtain b c where "Fr_toBuffer (new_Fr (be_val (take 16 h))) = Inr b" "map (\<lambda>i. byte_at b (i + 16)) [0..<16] = take 16 h"
    "Fr_toBuffer (new_Fr (be_val (drop 16 h))) = Inr c" "map (\<lambda>i. byte_at c (i + 16)) [0..<16] = drop 16 h"
    using low_half_of_field[of "take 16 h"] low_half_of_field[of "drop 16 h"] assms(1) by auto
  then show ?thesis using assms(2) by (simp add: RootRollupPublicInputs_sha256CalldataHash_def)
qed

end
