(* ===== verification/Transactions.thy ===== *)
theory Transactions
  imports CallCodecs
begin

text \<open>
  Transactions, \<^verbatim>\<open>types/src/tx.ts\<close> and \<^verbatim>\<open>types/src/tx_execution_request.ts\<close>, and the context of a block,
  \<^verbatim>\<open>types/src/l2_block_context.ts\<close>. The hashes that the circuits compute in WebAssembly (\<open>computeVarArgsHash\<close>, \<open>computeTxHash\<close>), keccak
  and lodash's \<open>cloneDeep\<close> are parameters. \<open>Tx.txHash\<close> only caches the result of a function of the immutable members and is not kept.
\<close>

section \<open>Execution requests\<close>

record tx_execution_request =
  txe_from :: aztec_address
  txe_to :: aztec_address
  txe_functionData :: function_data
  txe_args :: "fr list"
  txe_nonce :: fr
  txe_txContext :: tx_context
  txe_chainId :: fr

definition TxExecutionRequest_items :: "tx_execution_request \<Rightarrow> bufferable list" where
  "TxExecutionRequest_items r =
     [BObject (Inr (AztecAddress_toBuffer (txe_from r))), BObject (Inr (AztecAddress_toBuffer (txe_to r))),
     BObject (FunctionData_toBuffer (txe_functionData r)),
     BObject (Vector_toBuffer (map (\<lambda>x. BObject (Fr_toBuffer x)) (txe_args r))), BObject (Fr_toBuffer (txe_nonce r)),
     BObject (TxContext_toBuffer (txe_txContext r)), BObject (Fr_toBuffer (txe_chainId r))]"

definition TxExecutionRequest_toBuffer :: "tx_execution_request \<Rightarrow> buffer result" where
  "TxExecutionRequest_toBuffer r = serializeToBuffer (TxExecutionRequest_items r)"

definition TxExecutionRequest_fromBuffer :: "tx_execution_request reading" where
  "TxExecutionRequest_fromBuffer =
     jbind AztecAddress_fromBuffer (\<lambda>v_txe_from. jbind AztecAddress_fromBuffer (\<lambda>v_txe_to.
     jbind (readObject FunctionData_fromBuffer) (\<lambda>v_txe_functionData. jbind (readVector Fr_fromBuffer) (\<lambda>v_txe_args.
     jbind Fr_fromBuffer (\<lambda>v_txe_nonce. jbind (readObject TxContext_fromBuffer) (\<lambda>v_txe_txContext.
     jbind Fr_fromBuffer (\<lambda>v_txe_chainId.
       jreturn \<lparr>txe_from = v_txe_from, txe_to = v_txe_to, txe_functionData = v_txe_functionData, txe_args = v_txe_args, txe_nonce = v_txe_nonce,
        txe_txContext = v_txe_txContext, txe_chainId = v_txe_chainId\<rparr>)))))))"

record signed_tx_execution_request =
  ste_txRequest :: tx_execution_request
  ste_signature :: ecdsa_signature

definition SignedTxExecutionRequest_items :: "signed_tx_execution_request \<Rightarrow> bufferable list" where
  "SignedTxExecutionRequest_items r =
     [BObject (TxExecutionRequest_toBuffer (ste_txRequest r)), BObject (EcdsaSignature_toBuffer (ste_signature r))]"

definition SignedTxExecutionRequest_toBuffer :: "signed_tx_execution_request \<Rightarrow> buffer result" where
  "SignedTxExecutionRequest_toBuffer r = serializeToBuffer (SignedTxExecutionRequest_items r)"

definition SignedTxExecutionRequest_fromBuffer :: "signed_tx_execution_request reading" where
  "SignedTxExecutionRequest_fromBuffer =
     jbind (readObject TxExecutionRequest_fromBuffer) (\<lambda>v_ste_txRequest.
     jbind (readObject EcdsaSignature_fromBuffer) (\<lambda>v_ste_signature.
       jreturn \<lparr>ste_txRequest = v_ste_txRequest, ste_signature = v_ste_signature\<rparr>))"

definition TxExecutionRequest_toTxRequestUsingArgsHash :: "tx_execution_request \<Rightarrow> fr \<Rightarrow> tx_request" where
  "TxExecutionRequest_toTxRequestUsingArgsHash r argsHash =
     \<lparr>txr_from = txe_from r, txr_to = txe_to r, txr_functionData = txe_functionData r, txr_argsHash = argsHash, txr_nonce = txe_nonce r,
      txr_txContext = txe_txContext r, txr_chainId = txe_chainId r\<rparr>"

definition TxExecutionRequest_toTxRequest :: "(fr list \<Rightarrow> fr result) \<Rightarrow> tx_execution_request \<Rightarrow> tx_request result" where
  "TxExecutionRequest_toTxRequest computeVarArgsHash r =
     rbind (computeVarArgsHash (txe_args r)) (\<lambda>argsHash. Inr (TxExecutionRequest_toTxRequestUsingArgsHash r argsHash))"

definition TxExecutionRequest_fromExecutionRequest ::
  "aztec_address \<Rightarrow> function_data \<Rightarrow> fr list \<Rightarrow> tx_execution_request result" where
  "TxExecutionRequest_fromExecutionRequest account fd args =
     rbind (new_ContractDeploymentData ContractDeploymentData_empty) (\<lambda>_.
       Inr \<lparr>txe_from = account, txe_to = account, txe_functionData = fd, txe_args = args, txe_nonce = Fr_ZERO,
         txe_txContext = TxContext_empty, txe_chainId = Fr_ZERO\<rparr>)"

definition SignedTxExecutionRequest_toSignedTxRequest ::
  "(fr list \<Rightarrow> fr result) \<Rightarrow> signed_tx_execution_request \<Rightarrow> signed_tx_request result" where
  "SignedTxExecutionRequest_toSignedTxRequest computeVarArgsHash r =
     rbind (TxExecutionRequest_toTxRequest computeVarArgsHash (ste_txRequest r)) (\<lambda>t.
       Inr \<lparr>stx_txRequest = t, stx_signature = ste_signature r\<rparr>)"

section \<open>Transactions\<close>

text \<open>An item of an array may be \<open>undefined\<close>: \<open>fromTxMessage\<close> can put one there.\<close>

record tx =
  tx_data :: "kernel_public_inputs option"
  tx_proof :: "proof_data option"
  tx_encryptedLogs :: "tx_l2_logs option"
  tx_txRequest :: "signed_tx_execution_request option"
  tx_newContractPublicFunctions :: "encoded_contract_function option list option"
  tx_enqueuedPublicFunctionCalls :: "public_call_request option list option"

definition enqueued_length :: "tx \<Rightarrow> nat" where
  "enqueued_length t = (case tx_enqueuedPublicFunctionCalls t of None \<Rightarrow> 0 | Some calls \<Rightarrow> length calls)"

definition new_Tx :: "tx \<Rightarrow> tx result" where
  "new_Tx t =
     (case tx_data t of
        None \<Rightarrow> Inr t
      | Some d \<Rightarrow>
          let kernelPublicCallStackSize = arrayNonEmptyLength (cad_publicCallStack (kpi_end d)) Fr_isZero in
          if kernelPublicCallStackSize \<noteq> 0 \<and> kernelPublicCallStackSize > enqueued_length t
          then Inl (Error (''Missing preimages for enqueued public function calls in kernel circuit public inputs (expected '' @
            dec (int kernelPublicCallStackSize) @ '', got '' @
            (case tx_enqueuedPublicFunctionCalls t of None \<Rightarrow> ''undefined'' | Some calls \<Rightarrow> dec (int (length calls))) @ '')''))
          else Inr t)"

definition Tx_createPrivate ::
  "kernel_public_inputs option \<Rightarrow> proof_data option \<Rightarrow> tx_l2_logs \<Rightarrow> encoded_contract_function option list \<Rightarrow>
   public_call_request option list \<Rightarrow> tx result" where
  "Tx_createPrivate d p ls fns calls =
     new_Tx \<lparr>tx_data = d, tx_proof = p, tx_encryptedLogs = Some ls, tx_txRequest = None,
       tx_newContractPublicFunctions = Some fns, tx_enqueuedPublicFunctionCalls = Some calls\<rparr>"

definition Tx_createPublic :: "signed_tx_execution_request \<Rightarrow> tx result" where
  "Tx_createPublic r =
     new_Tx \<lparr>tx_data = None, tx_proof = None, tx_encryptedLogs = None, tx_txRequest = Some r,
       tx_newContractPublicFunctions = None, tx_enqueuedPublicFunctionCalls = None\<rparr>"

definition Tx_createPrivatePublic ::
  "kernel_public_inputs \<Rightarrow> proof_data option \<Rightarrow> tx_l2_logs \<Rightarrow> signed_tx_execution_request \<Rightarrow> tx result" where
  "Tx_createPrivatePublic d p ls r =
     new_Tx \<lparr>tx_data = Some d, tx_proof = p, tx_encryptedLogs = Some ls, tx_txRequest = Some r,
       tx_newContractPublicFunctions = None, tx_enqueuedPublicFunctionCalls = None\<rparr>"

definition Tx_create ::
  "kernel_public_inputs option \<Rightarrow> proof_data option \<Rightarrow> tx_l2_logs option \<Rightarrow> signed_tx_execution_request option \<Rightarrow> tx result" where
  "Tx_create d p ls r =
     new_Tx \<lparr>tx_data = d, tx_proof = p, tx_encryptedLogs = ls, tx_txRequest = r,
       tx_newContractPublicFunctions = None, tx_enqueuedPublicFunctionCalls = None\<rparr>"

definition isPublicTx :: "tx \<Rightarrow> bool" where
  "isPublicTx t \<longleftrightarrow> tx_txRequest t \<noteq> None"

definition isPrivateTx :: "tx \<Rightarrow> bool" where
  "isPrivateTx t \<longleftrightarrow> tx_data t \<noteq> None \<and> tx_proof t \<noteq> None \<and> tx_encryptedLogs t \<noteq> None"

text \<open>The hashes that the circuits compute.\<close>

record circuit_hashes =
  computeVarArgsHash :: "fr list \<Rightarrow> fr result"
  computeTxHash :: "signed_tx_request \<Rightarrow> fr result"

definition getTxHashFromRequest :: "circuit_hashes \<Rightarrow> signed_tx_execution_request \<Rightarrow> tx_hash result" where
  "getTxHashFromRequest wasm r =
     rbind (SignedTxExecutionRequest_toSignedTxRequest (computeVarArgsHash wasm) r) (\<lambda>s.
       rbind (rbind (computeTxHash wasm s) Fr_toBuffer) new_TxHash)"

definition Tx_getTxHash :: "circuit_hashes \<Rightarrow> tx \<Rightarrow> tx_hash result" where
  "Tx_getTxHash wasm t =
     (case (tx_data t, isPrivateTx t, tx_txRequest t) of
        (Some d, True, _) \<Rightarrow> rbind (rbind (js_at (cad_newNullifiers (kpi_end d)) 0) Fr_toBuffer) new_TxHash
      | (_, _, Some r) \<Rightarrow> getTxHashFromRequest wasm r
      | _ \<Rightarrow> Inl (Error ''Tx data incorrectly set.''))"

definition Tx_getHashes :: "circuit_hashes \<Rightarrow> tx list \<Rightarrow> tx_hash list result" where
  "Tx_getHashes wasm = rtraverse (Tx_getTxHash wasm)"

text \<open>\<open>fromBuffer(x.toBuffer())\<close> of a member that may be \<open>undefined\<close>.\<close>

definition copy_by :: "('a \<Rightarrow> buffer result) \<Rightarrow> 'a reading \<Rightarrow> 'a \<Rightarrow> 'a result" where
  "copy_by toB fromB x = rbind (toB x) (\<lambda>b. fst (fromB (new_BufferReader b 0)))"

definition copy_item :: "('a \<Rightarrow> buffer result) \<Rightarrow> 'a reading \<Rightarrow> 'a option \<Rightarrow> 'a option result" where
  "copy_item toB fromB v = (case v of None \<Rightarrow> Inl TypeError | Some x \<Rightarrow> rbind (copy_by toB fromB x) (\<lambda>y. Inr (Some y)))"

definition roption :: "('a \<Rightarrow> 'b result) \<Rightarrow> 'a option \<Rightarrow> 'b option result" where
  "roption f v = (case v of None \<Rightarrow> Inr None | Some x \<Rightarrow> rbind (f x) (\<lambda>y. Inr (Some y)))"

definition Tx_clone :: "(signed_tx_execution_request \<Rightarrow> signed_tx_execution_request) \<Rightarrow> tx \<Rightarrow> tx result" where
  "Tx_clone cloneDeep t =
     rbind (roption (copy_by KernelCircuitPublicInputs_toBuffer KernelCircuitPublicInputs_fromBuffer) (tx_data t)) (\<lambda>publicInputs.
     rbind (roption (copy_by Proof_toBuffer Proof_fromBuffer) (tx_proof t)) (\<lambda>proof.
     rbind (roption (\<lambda>l. rbind (TxL2Logs_toBuffer l) (\<lambda>b. TxL2Logs_fromBuffer b True)) (tx_encryptedLogs t)) (\<lambda>encryptedLogs.
     rbind (roption (rtraverse (copy_item EncodedContractFunction_toBuffer EncodedContractFunction_fromBuffer))
       (tx_newContractPublicFunctions t)) (\<lambda>publicFunctions.
     rbind (roption (rtraverse (copy_item PublicCallRequest_toBuffer PublicCallRequest_fromBuffer)) (tx_enqueuedPublicFunctionCalls t))
       (\<lambda>enqueuedPublicFunctions.
       new_Tx \<lparr>tx_data = publicInputs, tx_proof = proof, tx_encryptedLogs = encryptedLogs,
         tx_txRequest = map_option cloneDeep (tx_txRequest t), tx_newContractPublicFunctions = publicFunctions,
         tx_enqueuedPublicFunctionCalls = enqueuedPublicFunctions\<rparr>)))))"

section \<open>Block contexts\<close>

record l2_block_context =
  bc_block :: l2_block
  bc_txHashes :: "tx_hash option list"
  bc_blockHash :: "buffer option"

definition new_L2BlockContext :: "l2_block \<Rightarrow> l2_block_context" where
  "new_L2BlockContext b =
     \<lparr>bc_block = b, bc_txHashes = replicate (length (newCommitments b) div KERNEL_NEW_COMMITMENTS_LENGTH) None, bc_blockHash = None\<rparr>"

definition L2BlockContext_getBlockHash :: "(buffer \<Rightarrow> buffer) \<Rightarrow> (l2_block_context, buffer) js" where
  "L2BlockContext_getBlockHash keccak c =
     (case bc_blockHash c of
        Some h \<Rightarrow> (Inr h, c)
      | None \<Rightarrow> (case L2Block_encode (bc_block c) of
            Inl e \<Rightarrow> (Inl e, c)
          | Inr bs \<Rightarrow> (Inr (keccak bs), c\<lparr>bc_blockHash := Some (keccak bs)\<rparr>)))"

text \<open>The hash of a transaction of the block, from the cache or from the block. An assignment past the end of the array extends it.\<close>

definition context_hash :: "nat \<Rightarrow> (l2_block_context, tx_hash) js" where
  "context_hash i c =
     (case (if i < length (bc_txHashes c) then bc_txHashes c ! i else None) of
        Some h \<Rightarrow> (Inr h, c)
      | None \<Rightarrow> (case L2Block_getTx i (bc_block c) of
            Inl e \<Rightarrow> (Inl e, c)
          | Inr t \<Rightarrow> (Inr (tx_txHash t), c\<lparr>bc_txHashes := (bc_txHashes c @ replicate (i + 1 - length (bc_txHashes c)) None)[i := Some (tx_txHash t)]\<rparr>)))"

definition L2BlockContext_getTxHash :: "nat \<Rightarrow> (l2_block_context, tx_hash) js" where
  "L2BlockContext_getTxHash i = context_hash i"

fun context_hashes :: "nat \<Rightarrow> nat \<Rightarrow> (l2_block_context, tx_hash list) js" where
  "context_hashes i 0 = jreturn []"
| "context_hashes i (Suc n) = jbind (context_hash i) (\<lambda>h. jbind (context_hashes (i + 1) n) (\<lambda>hs. jreturn (h # hs)))"

definition L2BlockContext_getTxHashes :: "(l2_block_context, tx_hash list) js" where
  "L2BlockContext_getTxHashes c = context_hashes 0 (length (bc_txHashes c)) c"

section \<open>Codecs\<close>

definition TxExecutionRequest_ok :: "tx_execution_request \<Rightarrow> bool" where
  "TxExecutionRequest_ok r \<longleftrightarrow> address_ok (txe_from r) \<and> address_ok (txe_to r) \<and> FunctionData_ok (txe_functionData r) \<and>
     (\<forall>y \<in> set (txe_args r). fr_ok y) \<and> int (length (txe_args r)) < 2 ^ 32 \<and> fr_ok (txe_nonce r) \<and>
     TxContext_ok (txe_txContext r) \<and> fr_ok (txe_chainId r)"

interpretation txe: reader_codec TxExecutionRequest_toBuffer TxExecutionRequest_fromBuffer TxExecutionRequest_ok
proof (rule struct_codec[OF TxExecutionRequest_toBuffer_def], goal_cases)
  case (1 r)
  then show ?case unfolding TxExecutionRequest_items_def TxExecutionRequest_fromBuffer_def encodes_unfold
    by (cases r; intro encodes_intros; simp add: TxExecutionRequest_ok_def)
qed

lemmas [encodes_intros] = txe.struct_rules

definition SignedTxExecutionRequest_ok :: "signed_tx_execution_request \<Rightarrow> bool" where
  "SignedTxExecutionRequest_ok r \<longleftrightarrow> TxExecutionRequest_ok (ste_txRequest r) \<and> EcdsaSignature_ok (ste_signature r)"

interpretation ste: reader_codec SignedTxExecutionRequest_toBuffer SignedTxExecutionRequest_fromBuffer SignedTxExecutionRequest_ok
proof (rule struct_codec[OF SignedTxExecutionRequest_toBuffer_def], goal_cases)
  case (1 r)
  then show ?case unfolding SignedTxExecutionRequest_items_def SignedTxExecutionRequest_fromBuffer_def encodes_unfold
    by (cases r; intro encodes_intros; simp add: SignedTxExecutionRequest_ok_def)
qed

lemmas [encodes_intros] = ste.struct_rules

definition EncodedContractFunction_ok :: "encoded_contract_function \<Rightarrow> bool" where
  "EncodedContractFunction_ok f \<longleftrightarrow> length (functionSelector f) = FUNCTION_SELECTOR_NUM_BYTES \<and> int (length (fn_bytecode f)) < 2 ^ 31"

interpretation ecf: reader_codec EncodedContractFunction_toBuffer EncodedContractFunction_fromBuffer EncodedContractFunction_ok
proof unfold_locales
  fix f assume ok: "EncodedContractFunction_ok f"
  let ?n = "be_bytes 4 (int (length (fn_bytecode f)))"
  have "numToInt32BE (int (length (fn_bytecode f))) 4 = Inr ?n"
    using ok by (simp add: EncodedContractFunction_ok_def numToInt32BE_def write_alloc)
  then have b: "EncodedContractFunction_toBuffer f = Inr (functionSelector f @ ?n @ fn_bytecode f)"
    by (simp add: EncodedContractFunction_toBuffer_def serializeToBuffer_def)
  then show "\<exists>bs. EncodedContractFunction_toBuffer f = Inr bs" by blast
  fix bs assume "EncodedContractFunction_toBuffer f = Inr bs"
  with b have bs: "bs = functionSelector f @ ?n @ fn_bytecode f" by simp
  show "reads EncodedContractFunction_fromBuffer bs f" unfolding EncodedContractFunction_fromBuffer_def bs
    using ok reads_buffer[of "fn_bytecode f", THEN reads_map, of "\<lambda>b. \<lparr>functionSelector = functionSelector f, fn_bytecode = b\<rparr>"]
    by (cases f; intro reads_bind[of "readBytes _" _ "functionSelector f"] reads_bytes; simp add: EncodedContractFunction_ok_def)
qed

section \<open>Clones\<close>

text \<open>The members of a transaction fit their encodings, and the kernel's calls have their preimages.\<close>

definition tx_ok :: "tx \<Rightarrow> bool" where
  "tx_ok t \<longleftrightarrow> pred_option KernelCircuitPublicInputs_ok (tx_data t) \<and> pred_option Proof_ok (tx_proof t) \<and>
     pred_option (\<lambda>l. TxL2Logs_getSerializedLength l < 2 ^ 32) (tx_encryptedLogs t) \<and>
     pred_option SignedTxExecutionRequest_ok (tx_txRequest t) \<and>
     pred_option (list_all (case_option False EncodedContractFunction_ok)) (tx_newContractPublicFunctions t) \<and>
     pred_option (list_all (case_option False PublicCallRequest_ok)) (tx_enqueuedPublicFunctionCalls t) \<and> new_Tx t = Inr t"

context reader_codec
begin

lemma copy_by_id: "valid x \<Longrightarrow> copy_by toBuffer fromBuffer x = Inr x"
  using to_total[of x] from_to[of x] reads_whole[of fromBuffer _ x] by (auto simp: copy_by_def)

lemma copy_list_id: "list_all (case_option False valid) vs \<Longrightarrow> rtraverse (copy_item toBuffer fromBuffer) vs = Inr vs"
  by (induction vs) (auto simp: copy_item_def copy_by_id split: option.splits)

end

lemma roption_id: "pred_option P v \<Longrightarrow> (\<And>x. P x \<Longrightarrow> f x = Inr x) \<Longrightarrow> roption f v = Inr v"
  by (cases v) (simp_all add: roption_def)

lemma logs_copy_id:
  assumes "TxL2Logs_getSerializedLength l < 2 ^ 32"
  shows "rbind (TxL2Logs_toBuffer l) (\<lambda>b. TxL2Logs_fromBuffer b True) = Inr l"
proof -
  have "length (tx_payload l) < 2 ^ 32" using assms by (simp add: length_tx_payload)
  then show ?thesis by (simp add: TxL2Logs_toBuffer_prefixed TxL2Logs_fromBuffer_payload)
qed

lemma tx_clone_id:
  assumes "tx_ok t" and "\<And>r. cloneDeep r = r"
  shows "Tx_clone cloneDeep t = Inr t"
proof -
  have "map_option cloneDeep v = v" for v by (cases v) (simp_all add: assms(2))
  moreover have "roption (copy_by KernelCircuitPublicInputs_toBuffer KernelCircuitPublicInputs_fromBuffer) (tx_data t) = Inr (tx_data t)"
    using assms(1) by (intro roption_id[of KernelCircuitPublicInputs_ok] kpi.copy_by_id) (simp_all add: tx_ok_def)
  moreover have "roption (copy_by Proof_toBuffer Proof_fromBuffer) (tx_proof t) = Inr (tx_proof t)"
    using assms(1) by (intro roption_id[of Proof_ok] proof_codec.copy_by_id) (simp_all add: tx_ok_def)
  moreover have "roption (\<lambda>l. rbind (TxL2Logs_toBuffer l) (\<lambda>b. TxL2Logs_fromBuffer b True)) (tx_encryptedLogs t) = Inr (tx_encryptedLogs t)"
    using assms(1) by (intro roption_id[of "\<lambda>l. TxL2Logs_getSerializedLength l < 2 ^ 32"] logs_copy_id) (simp_all add: tx_ok_def)
  moreover have "roption (rtraverse (copy_item EncodedContractFunction_toBuffer EncodedContractFunction_fromBuffer))
      (tx_newContractPublicFunctions t) = Inr (tx_newContractPublicFunctions t)"
    using assms(1) by (intro roption_id[of "list_all (case_option False EncodedContractFunction_ok)"] ecf.copy_list_id) (simp_all add: tx_ok_def)
  moreover have "roption (rtraverse (copy_item PublicCallRequest_toBuffer PublicCallRequest_fromBuffer)) (tx_enqueuedPublicFunctionCalls t) =
      Inr (tx_enqueuedPublicFunctionCalls t)"
    using assms(1) by (intro roption_id[of "list_all (case_option False PublicCallRequest_ok)"] pcr.copy_list_id) (simp_all add: tx_ok_def)
  ultimately show ?thesis using assms(1) unfolding Tx_clone_def by (cases t) (simp add: tx_ok_def)
qed

text \<open>The pool of transactions hands out clones, not its own objects: \<open>Tx.clone\<close> of a transaction whose members fit their encodings
  succeeds and returns an equal transaction with all six members, provided that \<open>cloneDeep\<close> returns an equal value.\<close>

theorem tx_clone_equal:
  assumes "tx_ok t" and "\<And>r. cloneDeep r = r"
  shows "Tx_clone cloneDeep t = Inr t"
  by (rule tx_clone_id[OF assms])

text \<open>The empty kernel data as a private transaction.\<close>

lemma empty_private_tx:
  "yields (rbind KernelCircuitPublicInputs_empty (\<lambda>d. Tx_createPrivate (Some d) (Some makeEmptyProof) \<lparr>functionLogs = []\<rparr> [] []))
     (\<lambda>t. tx_ok t \<and> isPrivateTx t \<and> tx_txRequest t = None \<and> tx_newContractPublicFunctions t = Some [] \<and> tx_enqueuedPublicFunctionCalls t = Some [])"
proof (rule yields_bind[where P = "\<lambda>d. KernelCircuitPublicInputs_ok d \<and> arrayNonEmptyLength (cad_publicCallStack (kpi_end d)) Fr_isZero = 0"])
  have z: "foldl (\<lambda>sum item. if Fr_isZero item then sum else sum + 1) (k :: nat) (replicate n Fr_ZERO) = k" for n k
    by (induction n) (simp_all add: Fr_isZero_def Fr_ZERO_def new_Fr_def)
  have "yields CombinedAccumulatedData_empty (\<lambda>d. CombinedAccumulatedData_ok d \<and> arrayNonEmptyLength (cad_publicCallStack d) Fr_isZero = 0)"
    using CombinedAccumulatedData_empty_stack by (auto simp: yields_def arrayNonEmptyLength_def z)
  then show "yields KernelCircuitPublicInputs_empty
      (\<lambda>d. KernelCircuitPublicInputs_ok d \<and> arrayNonEmptyLength (cad_publicCallStack (kpi_end d)) Fr_isZero = 0)"
    unfolding KernelCircuitPublicInputs_empty_def by (rule yields_bind) (simp add: KernelCircuitPublicInputs_ok_def)
qed (simp add: Tx_createPrivate_def new_Tx_def tx_ok_def isPrivateTx_def Proof_ok_def makeEmptyProof_def TxL2Logs_getSerializedLength_def)

theorem tx_clone_equal_witness:
  "\<exists>d t. KernelCircuitPublicInputs_empty = Inr d \<and> Tx_createPrivate (Some d) (Some makeEmptyProof) \<lparr>functionLogs = []\<rparr> [] [] = Inr t \<and>
     Tx_clone (\<lambda>r. r) t = Inr t"
proof -
  obtain d t where "KernelCircuitPublicInputs_empty = Inr d" "Tx_createPrivate (Some d) (Some makeEmptyProof) \<lparr>functionLogs = []\<rparr> [] [] = Inr t" "tx_ok t"
    using empty_private_tx by (auto simp: yields_def)
  then show ?thesis using tx_clone_equal[of t "\<lambda>r. r"] by blast
qed

end
