(* ===== verification/TxMessages.thy ===== *)
theory TxMessages
  imports Transactions
begin

text \<open>
  \<^verbatim>\<open>p2p/src/service/tx_messages.ts\<close>: the messages by which nodes exchange transactions and their hashes.
\<close>

section \<open>Envelopes\<close>

definition POOLED_TRANSACTIONS :: int where
  "POOLED_TRANSACTIONS = 1"

definition POOLED_TRANSACTION_HASHES :: int where
  "POOLED_TRANSACTION_HASHES = 2"

definition GET_TRANSACTIONS :: int where
  "GET_TRANSACTIONS = 3"

definition createMessage :: "int \<Rightarrow> buffer \<Rightarrow> buffer result" where
  "createMessage type messageData = rbind (numToUInt32BE type 4) (\<lambda>t. Inr (t @ messageData))"

definition decodeMessageType :: "buffer \<Rightarrow> int result" where
  "decodeMessageType message = readUInt32BE message 0"

definition getEncodedMessage :: "buffer \<Rightarrow> buffer" where
  "getEncodedMessage message = drop 4 message"

section \<open>Encoding a transaction\<close>

text \<open>The argument of \<open>createMessageComponent\<close> is \<open>None\<close> for \<open>undefined\<close>, and otherwise the result of \<open>toBuffer\<close>.\<close>

definition createMessageComponent :: "buffer result option \<Rightarrow> buffer result" where
  "createMessageComponent obj =
     (case obj of
        None \<Rightarrow> numToUInt32BE 0 4
      | Some r \<Rightarrow> rbind r (\<lambda>b. rbind (numToUInt32BE (int (length b)) 4) (\<lambda>n. Inr (n @ b))))"

definition createMessageComponents :: "buffer result option list option \<Rightarrow> buffer result" where
  "createMessageComponents obj =
     (case obj of
        None \<Rightarrow> numToUInt32BE 0 4
      | Some [] \<Rightarrow> numToUInt32BE 0 4
      | Some os \<Rightarrow> rbind (rtraverse createMessageComponent os) (\<lambda>allComponents.
          rbind (numToUInt32BE (int (length os)) 4) (\<lambda>n. Inr (n @ concat allComponents))))"

definition toTxMessage :: "tx \<Rightarrow> buffer result" where
  "toTxMessage t =
     rbind (rtraverse id
       [createMessageComponent (map_option KernelCircuitPublicInputs_toBuffer (tx_data t)),
        createMessageComponent (map_option Proof_toBuffer (tx_proof t)),
        createMessageComponent (map_option SignedTxExecutionRequest_toBuffer (tx_txRequest t)),
        createMessageComponent (map_option TxL2Logs_toBuffer (tx_encryptedLogs t)),
        createMessageComponents (map_option (map (map_option EncodedContractFunction_toBuffer)) (tx_newContractPublicFunctions t)),
        createMessageComponents (map_option (map (map_option PublicCallRequest_toBuffer)) (tx_enqueuedPublicFunctionCalls t))])
     (\<lambda>parts. let messageBuffer = concat parts in
        rbind (numToUInt32BE (int (length messageBuffer)) 4) (\<lambda>messageLength. Inr (messageLength @ messageBuffer)))"

definition createTransactionsMessage :: "tx list \<Rightarrow> buffer result" where
  "createTransactionsMessage txs =
     rbind (rtraverse toTxMessage txs) (\<lambda>messageData. createMessage POOLED_TRANSACTIONS (concat messageData))"

section \<open>Decoding a transaction\<close>

text \<open>\<open>factory.fromBuffer\<close> of a class whose reader is \<open>m\<close>, on a whole buffer.\<close>

definition read_whole :: "'a reading \<Rightarrow> buffer \<Rightarrow> 'a result" where
  "read_whole m b = fst (m (new_BufferReader b 0))"

definition toObject :: "(buffer \<Rightarrow> 'a result) \<Rightarrow> buffer \<Rightarrow> ('a option \<times> buffer) result" where
  "toObject fromB objectBuffer =
     rbind (readUInt32BE objectBuffer 0) (\<lambda>objectSize.
       rbind (if objectSize = 0 then Inr None else rbind (fromB (subarray 4 (nat objectSize + 4) objectBuffer)) (\<lambda>x. Inr (Some x))) (\<lambda>obj.
         Inr (obj, drop (nat objectSize + 4) objectBuffer)))"

text \<open>The loop of \<open>toObjectArray\<close>. The test against \<open>undefined\<close> is of the pair that \<open>toObject\<close> returns, which is never \<open>undefined\<close>, so that
  an object of size 0 is pushed as \<open>undefined\<close>.\<close>

fun toObjects :: "(buffer \<Rightarrow> 'a result) \<Rightarrow> nat \<Rightarrow> buffer \<Rightarrow> ('a option list \<times> buffer) result" where
  "toObjects fromB 0 workingBuffer = Inr ([], workingBuffer)"
| "toObjects fromB (Suc n) workingBuffer =
     rbind (toObject fromB workingBuffer) (\<lambda>(obj, remainingData).
       rbind (toObjects fromB n remainingData) (\<lambda>(output, remaining). Inr (obj # output, remaining)))"

definition toObjectArray :: "(buffer \<Rightarrow> 'a result) \<Rightarrow> buffer \<Rightarrow> ('a option list \<times> buffer) result" where
  "toObjectArray fromB objectBuffer =
     rbind (readUInt32BE objectBuffer 0) (\<lambda>numItems. toObjects fromB (nat numItems) (drop 4 objectBuffer))"

definition fromTxMessage :: "buffer \<Rightarrow> tx result" where
  "fromTxMessage buf =
     rbind (toObject (read_whole KernelCircuitPublicInputs_fromBuffer) (drop 4 buf)) (\<lambda>(publicInputs, rest).
     rbind (toObject (read_whole Proof_fromBuffer) rest) (\<lambda>(proof, rest).
     rbind (toObject (read_whole SignedTxExecutionRequest_fromBuffer) rest) (\<lambda>(txRequest, rest).
     rbind (toObject (\<lambda>b. TxL2Logs_fromBuffer b True) rest) (\<lambda>(logsObj, rest).
     let encryptedLogs = (case logsObj of None \<Rightarrow> \<lparr>functionLogs = []\<rparr> | Some l \<Rightarrow> l) in
     rbind (toObjectArray (read_whole EncodedContractFunction_fromBuffer) rest) (\<lambda>(fns, rest).
     rbind (toObjectArray (read_whole PublicCallRequest_fromBuffer) rest) (\<lambda>(publicCalls, _).
       case txRequest of
         Some r \<Rightarrow> (case publicInputs of
             Some d \<Rightarrow> Tx_createPrivatePublic d proof encryptedLogs r
           | None \<Rightarrow> Tx_createPublic r)
       | None \<Rightarrow> Tx_createPrivate publicInputs proof encryptedLogs fns publicCalls))))))"

function decode_txs :: "buffer \<Rightarrow> nat \<Rightarrow> tx list result" where
  "decode_txs message offset =
     (if offset < length message then
        rbind (readUInt32BE message offset) (\<lambda>dataSize.
          let totalSizeOfMessage = 4 + nat dataSize in
          rbind (fromTxMessage (subarray offset (offset + totalSizeOfMessage) message)) (\<lambda>t.
            rbind (decode_txs message (offset + totalSizeOfMessage)) (\<lambda>ts. Inr (t # ts))))
      else Inr [])"
  by auto
termination by (relation "measure (\<lambda>(message, offset). length message - offset)") auto

declare decode_txs.simps [simp del]

definition decodeTransactionsMessage :: "buffer \<Rightarrow> tx list result" where
  "decodeTransactionsMessage message = decode_txs message 0"

section \<open>Hashes\<close>

definition createTransactionHashesMessage :: "tx_hash list \<Rightarrow> buffer result" where
  "createTransactionHashesMessage hashes = createMessage POOLED_TRANSACTION_HASHES (concat (map th_buffer hashes))"

definition createGetTransactionsRequestMessage :: "tx_hash list \<Rightarrow> buffer result" where
  "createGetTransactionsRequestMessage hashes = createMessage GET_TRANSACTIONS (concat (map th_buffer hashes))"

function decode_hashes :: "buffer \<Rightarrow> nat \<Rightarrow> tx_hash list result" where
  "decode_hashes message offset =
     (if offset < length message then
        let slice = subarray offset (offset + TxHash_SIZE) message in
        if length slice < TxHash_SIZE then Inl (Error ''Invalid message size when processing transaction hashes message'')
        else rbind (new_TxHash slice) (\<lambda>h. rbind (decode_hashes message (offset + TxHash_SIZE)) (\<lambda>hs. Inr (h # hs)))
      else Inr [])"
  by auto
termination by (relation "measure (\<lambda>(message, offset). length message - offset)") (auto simp: TxHash_SIZE_def)

declare decode_hashes.simps [simp del]

definition decodeTransactionHashesMessage :: "buffer \<Rightarrow> tx_hash list result" where
  "decodeTransactionHashesMessage message = decode_hashes message 0"

definition decodeGetTransactionsRequestMessage :: "buffer \<Rightarrow> tx_hash list result" where
  "decodeGetTransactionsRequestMessage message = decodeTransactionHashesMessage message"

section \<open>Components\<close>

lemma numToUInt32BE_Inr: "numToUInt32BE n 4 = Inr b \<longleftrightarrow> 0 \<le> n \<and> n < 2 ^ 32 \<and> b = be_bytes 4 n"
  by (auto simp: numToUInt32BE_def writeUInt32BE_def Buffer_alloc_def)

lemma be_bytes_4_nonempty [simp]: "be_bytes 4 n \<noteq> []"
  using length_be_bytes[of 4 n] by (metis length_0_conv zero_neq_numeral)

lemma readUInt32BE_prefix: "0 \<le> n \<Longrightarrow> n < 2 ^ 32 \<Longrightarrow> readUInt32BE (be_bytes 4 n @ b) 0 = Inr n"
  by (simp add: readUInt32BE_def subarray_def be_val_be_bytes)

lemma toObject_missing: "createMessageComponent None = Inr c \<Longrightarrow> toObject fromB (c @ rest) = Inr (None, rest)"
  by (auto simp: createMessageComponent_def numToUInt32BE_Inr toObject_def readUInt32BE_prefix)

text \<open>What the messages need of a class: \<open>fromBuffer\<close> inverts \<open>toBuffer\<close>, and no value is encoded as the empty buffer.\<close>

locale message_codec =
  fixes toB :: "'a \<Rightarrow> buffer result" and fromB :: "buffer \<Rightarrow> 'a result" and valid :: "'a \<Rightarrow> bool"
  assumes from_to: "valid x \<Longrightarrow> toB x = Inr b \<Longrightarrow> fromB b = Inr x"
    and nonempty: "valid x \<Longrightarrow> toB x = Inr b \<Longrightarrow> b \<noteq> []"
begin

lemma toObject_component:
  assumes "valid x" and "createMessageComponent (Some (toB x)) = Inr c"
  shows "toObject fromB (c @ rest) = Inr (Some x, rest)"
proof -
  obtain b where b: "toB x = Inr b" "int (length b) < 2 ^ 32" "c = be_bytes 4 (int (length b)) @ b"
    using assms(2) by (auto simp: createMessageComponent_def numToUInt32BE_Inr)
  then show ?thesis using nonempty[OF assms(1) b(1)] from_to[OF assms(1) b(1)] readUInt32BE_prefix[of "int (length b)" "b @ rest"]
    by (simp add: toObject_def subarray_def)
qed

lemma toObject_optional:
  assumes "pred_option valid v" and "createMessageComponent (map_option toB v) = Inr c"
  shows "toObject fromB (c @ rest) = Inr (v, rest)"
  using assms by (cases v) (auto intro: toObject_component toObject_missing)

lemma toObjects_components:
  assumes "list_all (pred_option valid) vs" and "rtraverse createMessageComponent (map (map_option toB) vs) = Inr cs"
  shows "toObjects fromB (length vs) (concat cs @ rest) = Inr (vs, rest)"
  using assms
proof (induction vs arbitrary: cs)
  case (Cons v vs)
  then obtain c cs' where "createMessageComponent (map_option toB v) = Inr c"
    "rtraverse createMessageComponent (map (map_option toB) vs) = Inr cs'" "cs = c # cs'" by auto
  then show ?case using Cons.IH[of cs'] Cons.prems(1) toObject_optional[of v c] by simp
qed simp

lemma toObjectArray_components:
  assumes "pred_option (list_all (pred_option valid)) v" and "createMessageComponents (map_option (map (map_option toB)) v) = Inr c"
  shows "toObjectArray fromB (c @ rest) = Inr (case v of None \<Rightarrow> [] | Some vs \<Rightarrow> vs, rest)"
proof -
  have *: "toObjectArray fromB (c @ rest) = Inr ([], rest)" if "numToUInt32BE 0 4 = Inr c"
    using that by (auto simp: toObjectArray_def numToUInt32BE_Inr readUInt32BE_prefix)
  show ?thesis
  proof (cases v)
    case None
    then show ?thesis using assms(2) * by (simp add: createMessageComponents_def)
  next
    case (Some vs)
    show ?thesis
    proof (cases vs)
      case Nil
      then show ?thesis using Some assms(2) * by (simp add: createMessageComponents_def)
    next
      case (Cons w ws)
      then obtain cs where cs: "rtraverse createMessageComponent (map (map_option toB) vs) = Inr cs" "int (length vs) < 2 ^ 32"
        "c = be_bytes 4 (int (length vs)) @ concat cs"
        using Some assms(2) by (auto simp: createMessageComponents_def numToUInt32BE_Inr)
      have "toObjects fromB (length vs) (concat cs @ rest) = Inr (vs, rest)"
        using toObjects_components[OF _ cs(1)] assms(1) Some by simp
      then show ?thesis using Some cs(2,3) readUInt32BE_prefix[of "int (length vs)" "concat cs @ rest"] by (simp add: toObjectArray_def)
    qed
  qed
qed

end

lemma message_codecI:
  assumes "reader_codec toB m valid" and "\<And>x b. valid x \<Longrightarrow> toB x = Inr b \<Longrightarrow> b \<noteq> []"
  shows "message_codec toB (read_whole m) valid"
  by unfold_locales (use assms(2) in \<open>auto simp: read_whole_def intro: reads_whole reader_codec.from_to[OF assms(1)]\<close>)

interpretation kpi_msg: message_codec KernelCircuitPublicInputs_toBuffer "read_whole KernelCircuitPublicInputs_fromBuffer" KernelCircuitPublicInputs_ok
  by (rule message_codecI[OF kpi.reader_codec_axioms])
    (auto simp: KernelCircuitPublicInputs_toBuffer_def KernelCircuitPublicInputs_items_def serializeToBuffer_def boolToBuffer_def)

interpretation proof_msg: message_codec Proof_toBuffer "read_whole Proof_fromBuffer" Proof_ok
  by (rule message_codecI[OF proof_codec.reader_codec_axioms])
    (auto simp: Proof_toBuffer_def Proof_items_def serializeToBuffer_def cj_numToUInt32BE_4 Proof_ok_def)

interpretation ste_msg: message_codec SignedTxExecutionRequest_toBuffer "read_whole SignedTxExecutionRequest_fromBuffer" SignedTxExecutionRequest_ok
  by (rule message_codecI[OF ste.reader_codec_axioms])
    (auto simp: SignedTxExecutionRequest_toBuffer_def SignedTxExecutionRequest_items_def serializeToBuffer_def SignedTxExecutionRequest_ok_def
      EcdsaSignature_toBuffer_def EcdsaSignature_items_def EcdsaSignature_ok_def)

interpretation logs_msg: message_codec TxL2Logs_toBuffer "\<lambda>b. TxL2Logs_fromBuffer b True" "\<lambda>l. TxL2Logs_getSerializedLength l < 2 ^ 32"
proof unfold_locales
  fix l b assume "TxL2Logs_getSerializedLength l < 2 ^ 32" "TxL2Logs_toBuffer l = Inr b"
  then have "length (tx_payload l) < 2 ^ 32" "b = prefixed (tx_payload l)" by (simp_all add: length_tx_payload TxL2Logs_toBuffer_prefixed)
  then show "TxL2Logs_fromBuffer b True = Inr l" "b \<noteq> []" by (simp_all add: TxL2Logs_fromBuffer_payload) (simp add: prefixed_def)
qed

interpretation ecf_msg: message_codec EncodedContractFunction_toBuffer "read_whole EncodedContractFunction_fromBuffer" EncodedContractFunction_ok
  by (rule message_codecI[OF ecf.reader_codec_axioms])
    (auto simp: EncodedContractFunction_toBuffer_def serializeToBuffer_def EncodedContractFunction_ok_def FUNCTION_SELECTOR_NUM_BYTES_def)

interpretation pcr_msg: message_codec PublicCallRequest_toBuffer "read_whole PublicCallRequest_fromBuffer" PublicCallRequest_ok
  by (rule message_codecI[OF pcr.reader_codec_axioms])
    (auto simp: PublicCallRequest_toBuffer_def PublicCallRequest_items_def serializeToBuffer_def PublicCallRequest_ok_def address_ok_def
      AztecAddress_toBuffer_def)

section \<open>Round trips\<close>

text \<open>The transactions that the constructors other than \<open>Tx.create\<close> make, of members that fit their encodings. Items of arrays may be
  \<open>undefined\<close>: they are encoded with the size 0.\<close>

definition tx_encodable :: "tx \<Rightarrow> bool" where
  "tx_encodable t \<longleftrightarrow> pred_option KernelCircuitPublicInputs_ok (tx_data t) \<and> pred_option Proof_ok (tx_proof t) \<and>
     pred_option (\<lambda>l. TxL2Logs_getSerializedLength l < 2 ^ 32) (tx_encryptedLogs t) \<and>
     pred_option SignedTxExecutionRequest_ok (tx_txRequest t) \<and>
     pred_option (list_all (pred_option EncodedContractFunction_ok)) (tx_newContractPublicFunctions t) \<and>
     pred_option (list_all (pred_option PublicCallRequest_ok)) (tx_enqueuedPublicFunctionCalls t) \<and> new_Tx t = Inr t"

definition relayable :: "tx \<Rightarrow> bool" where
  "relayable t \<longleftrightarrow> tx_encodable t \<and>
     (case tx_txRequest t of
        None \<Rightarrow> tx_encryptedLogs t \<noteq> None \<and> tx_newContractPublicFunctions t \<noteq> None \<and> tx_enqueuedPublicFunctionCalls t \<noteq> None
      | Some r \<Rightarrow> tx_newContractPublicFunctions t = None \<and> tx_enqueuedPublicFunctionCalls t = None \<and>
          (if tx_data t = None then tx_proof t = None \<and> tx_encryptedLogs t = None else tx_encryptedLogs t \<noteq> None))"

lemma tx_ok_encodable: "tx_ok t \<Longrightarrow> tx_encodable t"
proof -
  have items: "pred_option (list_all (pred_option P)) v" if "pred_option (list_all (case_option False P)) v" for P and v :: "'a option list option"
    using that by (cases v) (auto simp: list_all_iff split: option.splits)
  show "tx_ok t \<Longrightarrow> tx_encodable t" using items[of _ "tx_newContractPublicFunctions t"] items[of _ "tx_enqueuedPublicFunctionCalls t"]
    by (simp add: tx_ok_def tx_encodable_def)
qed

lemma toTxMessage_parts:
  assumes "toTxMessage t = Inr m"
  obtains c1 c2 c3 c4 c5 c6 n where
    "createMessageComponent (map_option KernelCircuitPublicInputs_toBuffer (tx_data t)) = Inr c1"
    "createMessageComponent (map_option Proof_toBuffer (tx_proof t)) = Inr c2"
    "createMessageComponent (map_option SignedTxExecutionRequest_toBuffer (tx_txRequest t)) = Inr c3"
    "createMessageComponent (map_option TxL2Logs_toBuffer (tx_encryptedLogs t)) = Inr c4"
    "createMessageComponents (map_option (map (map_option EncodedContractFunction_toBuffer)) (tx_newContractPublicFunctions t)) = Inr c5"
    "createMessageComponents (map_option (map (map_option PublicCallRequest_toBuffer)) (tx_enqueuedPublicFunctionCalls t)) = Inr c6"
    "n = int (length (c1 @ c2 @ c3 @ c4 @ c5 @ c6 @ []))" "n < 2 ^ 32" "m = be_bytes 4 n @ c1 @ c2 @ c3 @ c4 @ c5 @ c6 @ []"
  using assms unfolding toTxMessage_def by (auto simp: Let_def numToUInt32BE_Inr)

lemma fromTxMessage_toTxMessage:
  assumes "relayable t" and "toTxMessage t = Inr m"
  shows "fromTxMessage m = Inr t"
  using assms(2)
proof (rule toTxMessage_parts)
  fix c1 c2 c3 c4 c5 c6 n
  assume c: "createMessageComponent (map_option KernelCircuitPublicInputs_toBuffer (tx_data t)) = Inr c1"
    "createMessageComponent (map_option Proof_toBuffer (tx_proof t)) = Inr c2"
    "createMessageComponent (map_option SignedTxExecutionRequest_toBuffer (tx_txRequest t)) = Inr c3"
    "createMessageComponent (map_option TxL2Logs_toBuffer (tx_encryptedLogs t)) = Inr c4"
    "createMessageComponents (map_option (map (map_option EncodedContractFunction_toBuffer)) (tx_newContractPublicFunctions t)) = Inr c5"
    "createMessageComponents (map_option (map (map_option PublicCallRequest_toBuffer)) (tx_enqueuedPublicFunctionCalls t)) = Inr c6"
    and m: "m = be_bytes 4 n @ c1 @ c2 @ c3 @ c4 @ c5 @ c6 @ []"
  have ok: "tx_encodable t" using assms(1) by (simp add: relayable_def)
  have "drop 4 m = c1 @ c2 @ c3 @ c4 @ c5 @ c6 @ []" by (simp add: m)
  then have "fromTxMessage m = (case tx_txRequest t of
       Some r \<Rightarrow> (case tx_data t of
           Some d \<Rightarrow> Tx_createPrivatePublic d (tx_proof t) (case tx_encryptedLogs t of None \<Rightarrow> \<lparr>functionLogs = []\<rparr> | Some l \<Rightarrow> l) r
         | None \<Rightarrow> Tx_createPublic r)
     | None \<Rightarrow> Tx_createPrivate (tx_data t) (tx_proof t) (case tx_encryptedLogs t of None \<Rightarrow> \<lparr>functionLogs = []\<rparr> | Some l \<Rightarrow> l)
         (case tx_newContractPublicFunctions t of None \<Rightarrow> [] | Some vs \<Rightarrow> vs)
         (case tx_enqueuedPublicFunctionCalls t of None \<Rightarrow> [] | Some vs \<Rightarrow> vs))"
    using ok kpi_msg.toObject_optional[OF _ c(1)] proof_msg.toObject_optional[OF _ c(2)] ste_msg.toObject_optional[OF _ c(3)]
      logs_msg.toObject_optional[OF _ c(4)] ecf_msg.toObjectArray_components[OF _ c(5)] pcr_msg.toObjectArray_components[OF _ c(6)]
    unfolding fromTxMessage_def tx_encodable_def by (simp only: rbind_simps prod.case Let_def)
  also have "\<dots> = new_Tx t"
    using assms(1) by (cases t)
      (auto simp: relayable_def Tx_createPrivatePublic_def Tx_createPublic_def Tx_createPrivate_def split: option.splits if_splits)
  finally show ?thesis using ok by (simp add: tx_encodable_def)
qed

lemma decode_txs_concat:
  assumes "list_all relayable ts" and "rtraverse toTxMessage ts = Inr ms"
  shows "decode_txs (pre @ concat ms) (length pre) = Inr ts"
  using assms
proof (induction ts arbitrary: ms pre)
  case Nil
  then show ?case by (subst decode_txs.simps) simp
next
  case (Cons t ts)
  then obtain m ms' where m: "toTxMessage t = Inr m" "rtraverse toTxMessage ts = Inr ms'" "ms = m # ms'" by auto
  from m(1) obtain b n where b: "m = be_bytes 4 n @ b" "n = int (length b)" "n < 2 ^ 32"
    by (rule toTxMessage_parts) blast
  have "readUInt32BE (pre @ concat ms) (length pre) = Inr n"
    using b be_val_be_bytes[of n 4] by (simp add: readUInt32BE_def subarray_def m(3))
  moreover have "subarray (length pre) (length pre + (4 + nat n)) (pre @ concat ms) = m" using b by (simp add: subarray_def m(3))
  moreover have "decode_txs (pre @ concat ms) (length pre + (4 + nat n)) = Inr ts"
    using Cons.IH[OF _ m(2), of "pre @ m"] Cons.prems(1) b by (simp add: m(3))
  ultimately show ?case
    using fromTxMessage_toTxMessage[OF _ m(1)] Cons.prems(1) b
    by (subst decode_txs.simps) (simp add: Let_def m(3))
qed

lemma decode_hashes_concat:
  assumes "list_all (\<lambda>h. length (th_buffer h) = TxHash_SIZE) hs"
  shows "decode_hashes (pre @ concat (map th_buffer hs)) (length pre) = Inr hs"
  using assms
proof (induction hs arbitrary: pre)
  case Nil
  then show ?case by (subst decode_hashes.simps) simp
next
  case (Cons h hs)
  then have "decode_hashes (pre @ concat (map th_buffer (h # hs))) (length pre + TxHash_SIZE) = Inr hs"
    using Cons.IH[of "pre @ th_buffer h"] by simp
  then show ?case using Cons.prems
    by (subst decode_hashes.simps) (cases h, simp add: Let_def subarray_def new_TxHash_def TxHash_SIZE_def)
qed

lemma tx_messages_decoded:
  assumes "list_all relayable ts" and "createTransactionsMessage ts = Inr m" and "list_all (\<lambda>h. length (th_buffer h) = TxHash_SIZE) hs"
  shows "decodeMessageType m = Inr POOLED_TRANSACTIONS \<and> decodeTransactionsMessage (getEncodedMessage m) = Inr ts \<and>
    (\<exists>k. createTransactionHashesMessage hs = Inr k \<and> decodeMessageType k = Inr POOLED_TRANSACTION_HASHES \<and>
      decodeTransactionHashesMessage (getEncodedMessage k) = Inr hs) \<and>
    (\<exists>k. createGetTransactionsRequestMessage hs = Inr k \<and> decodeMessageType k = Inr GET_TRANSACTIONS \<and>
      decodeGetTransactionsRequestMessage (getEncodedMessage k) = Inr hs)"
proof -
  have env: "createMessage ty b = Inr (be_bytes 4 ty @ b) \<and> decodeMessageType (be_bytes 4 ty @ b) = Inr ty \<and> getEncodedMessage (be_bytes 4 ty @ b) = b"
    if "0 \<le> ty" "ty < 2 ^ 32" for ty b
    using that numToUInt32BE_Inr[of ty "be_bytes 4 ty"] by (simp add: createMessage_def decodeMessageType_def readUInt32BE_prefix getEncodedMessage_def)
  obtain ms where ms: "rtraverse toTxMessage ts = Inr ms" "createMessage POOLED_TRANSACTIONS (concat ms) = Inr m"
    using assms(2) by (auto simp: createTransactionsMessage_def)
  show ?thesis
    using env[of POOLED_TRANSACTIONS "concat ms"] env[of POOLED_TRANSACTION_HASHES "concat (map th_buffer hs)"]
      env[of GET_TRANSACTIONS "concat (map th_buffer hs)"] ms(2) decode_txs_concat[OF assms(1) ms(1), of "[]"] decode_hashes_concat[OF assms(3), of "[]"]
    by (simp add: POOLED_TRANSACTIONS_def POOLED_TRANSACTION_HASHES_def GET_TRANSACTIONS_def decodeTransactionsMessage_def
        decodeTransactionHashesMessage_def decodeGetTransactionsRequestMessage_def createTransactionHashesMessage_def
        createGetTransactionsRequestMessage_def)
qed

text \<open>C29. Messages between nodes: transactions that are made by \<open>createPrivate\<close>, \<open>createPublic\<close> or \<open>createPrivatePublic\<close> are read back
  from a transactions message with all their members, in order; hashes are read back from both messages that carry hashes; and the type of each
  message is read back.\<close>

theorem tx_messages_roundtrip:
  assumes "list_all relayable ts" and "createTransactionsMessage ts = Inr m" and "list_all (\<lambda>h. length (th_buffer h) = TxHash_SIZE) hs"
  shows "decodeMessageType m = Inr POOLED_TRANSACTIONS \<and> decodeTransactionsMessage (getEncodedMessage m) = Inr ts \<and>
    (\<exists>k. createTransactionHashesMessage hs = Inr k \<and> decodeMessageType k = Inr POOLED_TRANSACTION_HASHES \<and>
      decodeTransactionHashesMessage (getEncodedMessage k) = Inr hs) \<and>
    (\<exists>k. createGetTransactionsRequestMessage hs = Inr k \<and> decodeMessageType k = Inr GET_TRANSACTIONS \<and>
      decodeGetTransactionsRequestMessage (getEncodedMessage k) = Inr hs)"
  by (rule tx_messages_decoded[OF assms])

definition sample_request :: signed_tx_execution_request where
  "sample_request = \<lparr>ste_txRequest = \<lparr>txe_from = AztecAddress_ZERO, txe_to = AztecAddress_ZERO, txe_functionData = FunctionData_empty False False,
     txe_args = [new_Fr 7], txe_nonce = Fr_ZERO, txe_txContext = TxContext_empty, txe_chainId = Fr_ZERO\<rparr>,
     ste_signature = \<lparr>sig_r = replicate 32 1, sig_s = replicate 32 2, sig_v = [3]\<rparr>\<rparr>"

definition sample_public_tx :: tx where
  "sample_public_tx = \<lparr>tx_data = None, tx_proof = None, tx_encryptedLogs = None, tx_txRequest = Some sample_request,
     tx_newContractPublicFunctions = None, tx_enqueuedPublicFunctionCalls = None\<rparr>"

lemma sample_request_ok: "SignedTxExecutionRequest_ok sample_request"
  by (simp add: sample_request_def SignedTxExecutionRequest_ok_def TxExecutionRequest_ok_def FunctionData_ok_def FunctionData_empty_def
      TxContext_ok_def TxContext_empty_def EcdsaSignature_ok_def) (simp add: fr_ok_def new_Fr_def)

lemma sample_request_bytes: "\<exists>b. SignedTxExecutionRequest_toBuffer sample_request = Inr b \<and> length b = 430"
  by (simp add: sample_request_def SignedTxExecutionRequest_toBuffer_def SignedTxExecutionRequest_items_def serializeToBuffer_def
      TxExecutionRequest_toBuffer_def TxExecutionRequest_items_def FunctionData_toBuffer_def FunctionData_items_def FunctionData_empty_def
      Vector_toBuffer_def TxContext_toBuffer_def TxContext_items_def TxContext_empty_def ContractDeploymentData_toBuffer_def
      ContractDeploymentData_items_def ContractDeploymentData_empty_def EcdsaSignature_toBuffer_def EcdsaSignature_items_def
      boolToBuffer_def cj_numToUInt32BE_4 Fr_toBuffer_bytes Fr_ZERO_def new_Fr_def AztecAddress_toBuffer_def AztecAddress_ZERO_def
      EthAddress_toBuffer32_def EthAddress_ZERO_def FUNCTION_SELECTOR_LENGTH_def)

lemma sample_public_tx_message: "\<exists>m. toTxMessage sample_public_tx = Inr m"
proof -
  obtain b where b: "SignedTxExecutionRequest_toBuffer sample_request = Inr b" "length b = 430" using sample_request_bytes by blast
  have "numToUInt32BE n 4 = Inr (be_bytes 4 n)" if "0 \<le> n" "n < 2 ^ 32" for n using that numToUInt32BE_Inr by blast
  then show ?thesis using b
    by (simp add: toTxMessage_def sample_public_tx_def createMessageComponent_def createMessageComponents_def Let_def)
qed

theorem tx_messages_roundtrip_witness:
  "\<exists>m. createTransactionsMessage [sample_public_tx, sample_public_tx] = Inr m \<and>
    decodeTransactionsMessage (getEncodedMessage m) = Inr [sample_public_tx, sample_public_tx]"
proof -
  have "numToUInt32BE 1 4 = Inr (be_bytes 4 1)" using numToUInt32BE_Inr[of 1 "be_bytes 4 1"] by simp
  then obtain m where m: "createTransactionsMessage [sample_public_tx, sample_public_tx] = Inr m"
    using sample_public_tx_message by (auto simp: createTransactionsMessage_def createMessage_def POOLED_TRANSACTIONS_def)
  have "relayable sample_public_tx"
    using sample_request_ok by (simp add: relayable_def tx_encodable_def sample_public_tx_def new_Tx_def)
  then show ?thesis using tx_messages_roundtrip[OF _ m, of "[]"] m by simp
qed

end
