(* ===== verification/TxPool.thy ===== *)
theory TxPool
  imports TxMessages
begin

text \<open>
  \<^verbatim>\<open>p2p/src/tx_pool/memory_tx_pool.ts\<close> and \<^verbatim>\<open>p2p/src/service/known_txs.ts\<close>: the transactions of a node by hash, and the record of which peer has
  seen which transaction. A JavaScript \<open>Map\<close> is the list of its entries in the order of insertion; \<open>set\<close> keeps the place of a key.
\<close>

section \<open>InMemoryTxPool\<close>

type_synonym tx_pool = "(int \<times> tx) list"

definition InMemoryTxPool_getTxByHash ::
  "(signed_tx_execution_request \<Rightarrow> signed_tx_execution_request) \<Rightarrow> tx_hash \<Rightarrow> tx_pool \<Rightarrow> tx option result" where
  "InMemoryTxPool_getTxByHash cloneDeep h p =
     rbind (TxHash_toBigInt h) (\<lambda>k. case map_of p k of None \<Rightarrow> Inr None | Some t \<Rightarrow> rbind (Tx_clone cloneDeep t) (\<lambda>c. Inr (Some c)))"

definition pool_add :: "circuit_hashes \<Rightarrow> tx \<Rightarrow> (tx_pool, unit) js" where
  "pool_add wasm t p =
     (case rbind (Tx_getTxHash wasm t) TxHash_toBigInt of
        Inl e \<Rightarrow> (Inl e, p)
      | Inr k \<Rightarrow> (Inr (), AList.update k t p))"

definition InMemoryTxPool_addTxs :: "circuit_hashes \<Rightarrow> tx list \<Rightarrow> (tx_pool, unit) js" where
  "InMemoryTxPool_addTxs wasm = jfor (pool_add wasm)"

text \<open>\<open>map\<close> deletes the hashes one after the other, then the successes are counted.\<close>

fun InMemoryTxPool_deleteTxs :: "tx_hash list \<Rightarrow> (tx_pool, nat) js" where
  "InMemoryTxPool_deleteTxs [] p = (Inr 0, p)"
| "InMemoryTxPool_deleteTxs (h # hs) p =
     (case TxHash_toBigInt h of
        Inl e \<Rightarrow> (Inl e, p)
      | Inr k \<Rightarrow> (case InMemoryTxPool_deleteTxs hs (AList.delete k p) of
            (Inl e, q) \<Rightarrow> (Inl e, q)
          | (Inr n, q) \<Rightarrow> (Inr ((if map_of p k = None then 0 else 1) + n), q)))"

definition InMemoryTxPool_getAllTxs :: "(signed_tx_execution_request \<Rightarrow> signed_tx_execution_request) \<Rightarrow> tx_pool \<Rightarrow> tx list result" where
  "InMemoryTxPool_getAllTxs cloneDeep p = rtraverse (Tx_clone cloneDeep) (map snd p)"

definition InMemoryTxPool_getAllTxHashes :: "tx_pool \<Rightarrow> tx_hash list result" where
  "InMemoryTxPool_getAllTxHashes p = rtraverse TxHash_fromBigInt (map fst p)"

definition InMemoryTxPool_hasTx :: "tx_hash \<Rightarrow> tx_pool \<Rightarrow> bool result" where
  "InMemoryTxPool_hasTx h p = rbind (TxHash_toBigInt h) (\<lambda>k. Inr (map_of p k \<noteq> None))"

section \<open>KnownTxLookup\<close>

type_synonym known_txs = "string \<rightharpoonup> (string \<rightharpoonup> bool)"

definition KnownTxLookup_addPeerForTx :: "string \<Rightarrow> string \<Rightarrow> known_txs \<Rightarrow> known_txs" where
  "KnownTxLookup_addPeerForTx peerId h lookup =
     (case lookup h of
        None \<Rightarrow> lookup(h \<mapsto> [peerId \<mapsto> True])
      | Some existingLookup \<Rightarrow> lookup(h \<mapsto> existingLookup(peerId \<mapsto> True)))"

definition KnownTxLookup_hasPeerSeenTx :: "string \<Rightarrow> string \<Rightarrow> known_txs \<Rightarrow> bool" where
  "KnownTxLookup_hasPeerSeenTx peerId h lookup =
     (case lookup h of None \<Rightarrow> False | Some existingLookup \<Rightarrow> existingLookup peerId = Some True)"

definition KnownTxLookup_handleSettledTxs :: "string list \<Rightarrow> known_txs \<Rightarrow> known_txs" where
  "KnownTxLookup_handleSettledTxs hashes lookup = fold (\<lambda>h l. l(h := None)) hashes lookup"

section \<open>Lemmas\<close>

definition hash_ok :: "tx_hash \<Rightarrow> bool" where
  "hash_ok h \<longleftrightarrow> length (th_buffer h) = TxHash_SIZE"

definition hash_key :: "tx_hash \<Rightarrow> int" where
  "hash_key h = be_val (th_buffer h)"

lemma TxHash_toBigInt_key [simp]: "hash_ok h \<Longrightarrow> TxHash_toBigInt h = Inr (hash_key h)"
  by (simp add: hash_ok_def hash_key_def TxHash_toBigInt_def TxHash_SIZE_def deserializeBigInt_def toBigIntBE_be_val subarray_def)

lemma TxHash_fromBigInt_key [simp]: "hash_ok h \<Longrightarrow> TxHash_fromBigInt (hash_key h) = Inr h"
  using be_val_less[of "th_buffer h"] be_bytes_be_val[of "th_buffer h"]
  by (cases h) (simp add: hash_ok_def hash_key_def TxHash_fromBigInt_def TxHash_SIZE_def serializeBigInt_def new_TxHash_def toBufferBE_fit)

lemma hash_key_inject: "hash_ok h \<Longrightarrow> hash_ok h' \<Longrightarrow> hash_key h = hash_key h' \<longleftrightarrow> h = h'"
  by (cases h; cases h') (simp add: hash_ok_def hash_key_def be_val_inject)

lemma new_TxHash_ok: "new_TxHash b = Inr h \<Longrightarrow> hash_ok h"
  by (auto simp: new_TxHash_def hash_ok_def split: if_splits)

lemma Tx_getTxHash_ok: "Tx_getTxHash wasm t = Inr h \<Longrightarrow> hash_ok h"
  by (auto simp: Tx_getTxHash_def getTxHashFromRequest_def new_TxHash_ok split: option.splits bool.splits)

text \<open>Every entry of a pool is stored under the hash of its transaction.\<close>

definition pool_ok :: "circuit_hashes \<Rightarrow> tx_pool \<Rightarrow> bool" where
  "pool_ok wasm p \<longleftrightarrow> distinct (map fst p) \<and> (\<forall>(k, t) \<in> set p. \<exists>h. Tx_getTxHash wasm t = Inr h \<and> k = hash_key h)"

lemma pool_add_ok:
  assumes "Tx_getTxHash wasm t = Inr h"
  shows "pool_add wasm t p = (Inr (), AList.update (hash_key h) t p)"
  using assms Tx_getTxHash_ok[OF assms] by (simp add: pool_add_def)

lemma pool_ok_update:
  assumes "pool_ok wasm p" and "Tx_getTxHash wasm t = Inr h"
  shows "pool_ok wasm (AList.update (hash_key h) t p)"
proof -
  have "(k, v) \<in> set (AList.update (hash_key h) t p) \<Longrightarrow> (k, v) = (hash_key h, t) \<or> (k, v) \<in> set p" for k v
    by (induction p) (auto split: if_splits)
  then show ?thesis using assms AList.distinct_update[of p "hash_key h" t] unfolding pool_ok_def by blast
qed

lemma count_delete:
  assumes "distinct (map fst p)"
  shows "(if map_of p a = None then 0 else 1) + length (filter (\<lambda>(k, t). k \<in> S) (AList.delete a p)) = length (filter (\<lambda>(k, t). k \<in> insert a S) p)"
  using assms
proof (induction p)
  case (Cons e p)
  obtain k t where e: "e = (k, t)" by (cases e)
  show ?case
  proof (cases "k = a")
    case True
    then have "map_of p a = None" using Cons.prems by (simp add: e map_of_eq_None_iff)
    then show ?thesis using Cons.IH Cons.prems by (simp add: e True)
  next
    case False
    then show ?thesis using Cons.IH Cons.prems by (simp add: e split: if_splits)
  qed
qed simp

lemma deleteTxs_ok:
  assumes "list_all hash_ok hs"
  shows "\<exists>n. InMemoryTxPool_deleteTxs hs p = (Inr n, filter (\<lambda>(k, t). k \<notin> hash_key ` set hs) p) \<and>
    (distinct (map fst p) \<longrightarrow> n = length (filter (\<lambda>(k, t). k \<in> hash_key ` set hs) p))"
  using assms
proof (induction hs arbitrary: p)
  case (Cons h hs)
  let ?q = "AList.delete (hash_key h) p"
  obtain n where n: "InMemoryTxPool_deleteTxs hs ?q = (Inr n, filter (\<lambda>(k, t). k \<notin> hash_key ` set hs) ?q)"
    "distinct (map fst ?q) \<longrightarrow> n = length (filter (\<lambda>(k, t). k \<in> hash_key ` set hs) ?q)"
    using Cons.IH[of ?q] Cons.prems by auto
  have q: "filter (\<lambda>(k, t). k \<notin> hash_key ` set hs) ?q = filter (\<lambda>(k, t). k \<notin> hash_key ` set (h # hs)) p"
    by (auto simp: AList.delete_eq intro: filter_cong)
  have "(if map_of p (hash_key h) = None then 0 else 1) + length (filter (\<lambda>(k, t). k \<in> hash_key ` set hs) ?q) =
      length (filter (\<lambda>(k, t). k \<in> hash_key ` set (h # hs)) p)" if "distinct (map fst p)"
    using count_delete[OF that, of "hash_key h" "hash_key ` set hs"] by simp
  then show ?case using n q Cons.prems AList.distinct_delete[of p "hash_key h"] by simp
qed simp

end
