(* ===== verification/P2PService.thy ===== *)
theory P2PService
  imports TxPool
begin

text \<open>
  \<^verbatim>\<open>p2p/src/service/libp2p_service.ts\<close>: what a node does with the messages of its peers. libp2p is a parameter: the connected peers, whether a
  message can be sent to a peer, and the names of the bootstrap nodes. The state is the pool of transactions that the service shares
  with the client, the record of known transactions, the jobs of \<open>jobQueue\<close> that have not run, and the messages sent, in order.
  \<open>jobQueue\<close> is a \<open>SerialQueue\<close>, so that jobs do not interleave; a job is one step of the model.
\<close>

section \<open>State\<close>

datatype p2p_job = SendTx tx | SendHashes string | HandleDial string buffer

record p2p_service =
  svc_pool :: tx_pool
  svc_known :: known_txs
  svc_jobs :: "p2p_job list"
  svc_sent :: "(string \<times> buffer) list"

record p2p_env =
  getPeers :: "string list"
  bootstrapNodes :: "string list"
  dialProtocol :: "string \<Rightarrow> unit result"
  wasm :: circuit_hashes
  cloneDeep :: "signed_tx_execution_request \<Rightarrow> signed_tx_execution_request"

text \<open>\<open>try m catch (err) log(err)\<close>\<close>

definition js_try :: "('s, unit) js \<Rightarrow> ('s, unit) js" where
  "js_try m s = (Inr (), snd (m s))"

definition on_pool :: "(tx_pool, 'a) js \<Rightarrow> (p2p_service, 'a) js" where
  "on_pool m s = (case m (svc_pool s) of (r, p) \<Rightarrow> (r, s\<lparr>svc_pool := p\<rparr>))"

definition mark_known :: "string \<Rightarrow> tx_hash \<Rightarrow> (p2p_service, unit) js" where
  "mark_known peer h = jmodify (\<lambda>s. s\<lparr>svc_known := KnownTxLookup_addPeerForTx peer (TxHash_toString h) (svc_known s)\<rparr>)"

section \<open>Sending\<close>

definition isBootstrapPeer :: "p2p_env \<Rightarrow> string \<Rightarrow> bool" where
  "isBootstrapPeer env peer \<longleftrightarrow> list_ex (\<lambda>bootstrap. sublist peer bootstrap) (bootstrapNodes env)"

definition getTxPeers :: "p2p_env \<Rightarrow> string list" where
  "getTxPeers env = filter (\<lambda>peer. \<not> isBootstrapPeer env peer) (getPeers env)"

definition sendRawMessageToPeer :: "p2p_env \<Rightarrow> buffer \<Rightarrow> string \<Rightarrow> (p2p_service, unit) js" where
  "sendRawMessageToPeer env message peer = jbind (jlift (dialProtocol env peer)) (\<lambda>_. jmodify (\<lambda>s. s\<lparr>svc_sent := svc_sent s @ [(peer, message)]\<rparr>))"

definition propagateTx :: "tx \<Rightarrow> (p2p_service, unit) js" where
  "propagateTx t = jmodify (\<lambda>s. s\<lparr>svc_jobs := svc_jobs s @ [SendTx t]\<rparr>)"

definition settledTxs :: "tx_hash list \<Rightarrow> (p2p_service, unit) js" where
  "settledTxs hs = jmodify (\<lambda>s. s\<lparr>svc_known := KnownTxLookup_handleSettledTxs (map TxHash_toString hs) (svc_known s)\<rparr>)"

definition sendTxToPeer :: "p2p_env \<Rightarrow> buffer \<Rightarrow> tx_hash \<Rightarrow> string \<Rightarrow> (p2p_service, unit) js" where
  "sendTxToPeer env payload h peer = jbind jget (\<lambda>s.
     if KnownTxLookup_hasPeerSeenTx peer (TxHash_toString h) (svc_known s) then jreturn ()
     else js_try (jbind (sendRawMessageToPeer env payload peer) (\<lambda>_. mark_known peer h)))"

definition sendTxToPeers :: "p2p_env \<Rightarrow> tx \<Rightarrow> (p2p_service, unit) js" where
  "sendTxToPeers env t =
     jbind (jlift (createTransactionsMessage [t])) (\<lambda>payload.
     jbind (jlift (Tx_getTxHash (wasm env) t)) (\<lambda>h. jfor (sendTxToPeer env payload h) (getTxPeers env)))"

definition sendTxHashesMessageToPeer :: "p2p_env \<Rightarrow> string \<Rightarrow> (p2p_service, unit) js" where
  "sendTxHashesMessageToPeer env peer = js_try (jbind jget (\<lambda>s.
     jbind (jlift (InMemoryTxPool_getAllTxHashes (svc_pool s))) (\<lambda>hashes.
       if hashes = [] then jreturn ()
       else jbind (jlift (createTransactionHashesMessage hashes)) (\<lambda>message. sendRawMessageToPeer env message peer))))"

definition sendGetTransactionsMessageToPeer :: "p2p_env \<Rightarrow> tx_hash list \<Rightarrow> string \<Rightarrow> (p2p_service, unit) js" where
  "sendGetTransactionsMessageToPeer env hashes peer =
     js_try (jbind (jlift (createGetTransactionsRequestMessage hashes)) (\<lambda>message. sendRawMessageToPeer env message peer))"

definition sendTransactionsMessageToPeer :: "p2p_env \<Rightarrow> tx list \<Rightarrow> string \<Rightarrow> (p2p_service, unit) js" where
  "sendTransactionsMessageToPeer env ts peer =
     jbind (jlift (createTransactionsMessage ts)) (\<lambda>message.
     jbind (sendRawMessageToPeer env message peer) (\<lambda>_.
       jfor (\<lambda>t. jbind (jlift (Tx_getTxHash (wasm env) t)) (mark_known peer)) ts))"

section \<open>Receiving\<close>

text \<open>The hashes that the node lacks decide only whether it asks; it asks for all of them.\<close>

definition processReceivedTxHashes :: "p2p_env \<Rightarrow> buffer \<Rightarrow> string \<Rightarrow> (p2p_service, unit) js" where
  "processReceivedTxHashes env encodedMessage peer = js_try (
     jbind (jlift (decodeTransactionHashesMessage encodedMessage)) (\<lambda>txHashes.
     jbind jget (\<lambda>s.
     jbind (jlift (rtraverse (\<lambda>h. InMemoryTxPool_hasTx h (svc_pool s)) txHashes)) (\<lambda>has.
       let requiredHashes = map fst (filter (\<lambda>(h, b). \<not> b) (zip txHashes has)) in
       if requiredHashes = [] then jreturn () else sendGetTransactionsMessageToPeer env txHashes peer))))"

definition processReceivedGetTransactionsRequest :: "p2p_env \<Rightarrow> buffer \<Rightarrow> string \<Rightarrow> (p2p_service, unit) js" where
  "processReceivedGetTransactionsRequest env encodedMessage peer = js_try (
     jbind (jlift (decodeGetTransactionsRequestMessage encodedMessage)) (\<lambda>txHashes.
     jbind jget (\<lambda>s.
     jbind (jlift (rtraverse (\<lambda>h. InMemoryTxPool_getTxByHash (cloneDeep env) h (svc_pool s)) txHashes)) (\<lambda>found.
       let txs = map the (filter (\<lambda>v. v \<noteq> None) found) in
       if txs = [] then jreturn () else sendTransactionsMessageToPeer env txs peer))))"

definition processTxFromPeer :: "p2p_env \<Rightarrow> string \<Rightarrow> tx \<Rightarrow> (p2p_service, unit) js" where
  "processTxFromPeer env peer t =
     jbind (jlift (Tx_getTxHash (wasm env) t)) (\<lambda>h.
     jbind (mark_known peer h) (\<lambda>_.
     jbind (on_pool (InMemoryTxPool_addTxs (wasm env) [t])) (\<lambda>_. propagateTx t)))"

definition processReceivedTxs :: "p2p_env \<Rightarrow> buffer \<Rightarrow> string \<Rightarrow> (p2p_service, unit) js" where
  "processReceivedTxs env encodedMessage peer = js_try (
     jbind (jlift (decodeTransactionsMessage encodedMessage)) (\<lambda>txs. jfor (processTxFromPeer env peer) txs))"

definition processMessage :: "p2p_env \<Rightarrow> buffer \<Rightarrow> string \<Rightarrow> (p2p_service, unit) js" where
  "processMessage env message peer =
     jbind (jlift (readUInt32BE message 0)) (\<lambda>type.
       let encodedMessage = getEncodedMessage message in
       if type = POOLED_TRANSACTIONS then processReceivedTxs env encodedMessage peer
       else if type = POOLED_TRANSACTION_HASHES then processReceivedTxHashes env encodedMessage peer
       else if type = GET_TRANSACTIONS then processReceivedGetTransactionsRequest env encodedMessage peer
       else jlift (Inl (Error (''Unknown message type '' @ dec type))))"

definition handleProtocolDial :: "p2p_env \<Rightarrow> string \<Rightarrow> buffer \<Rightarrow> (p2p_service, unit) js" where
  "handleProtocolDial env peer message = js_try (processMessage env message peer)"

definition handleNewConnection :: "p2p_env \<Rightarrow> string \<Rightarrow> (p2p_service, unit) js" where
  "handleNewConnection env peer =
     (if isBootstrapPeer env peer then jreturn () else jmodify (\<lambda>s. s\<lparr>svc_jobs := svc_jobs s @ [SendHashes peer]\<rparr>))"

text \<open>An incoming stream is queued; the queue runs its first job.\<close>

definition incoming :: "string \<Rightarrow> buffer \<Rightarrow> (p2p_service, unit) js" where
  "incoming peer message = jmodify (\<lambda>s. s\<lparr>svc_jobs := svc_jobs s @ [HandleDial peer message]\<rparr>)"

fun do_job :: "p2p_env \<Rightarrow> p2p_job \<Rightarrow> (p2p_service, unit) js" where
  "do_job env (SendTx t) = sendTxToPeers env t"
| "do_job env (SendHashes peer) = sendTxHashesMessageToPeer env peer"
| "do_job env (HandleDial peer message) = handleProtocolDial env peer message"

definition run_next_job :: "p2p_env \<Rightarrow> (p2p_service, unit) js" where
  "run_next_job env s = (case svc_jobs s of [] \<Rightarrow> (Inr (), s) | j # js \<Rightarrow> do_job env j (s\<lparr>svc_jobs := js\<rparr>))"

end
