(* ===== verification/P2PProperties.thy ===== *)
theory P2PProperties
  imports P2PService
begin

text \<open>
  What the peer-to-peer service guarantees: transactions are sent to a peer once, two nodes that meet exchange their pools, and a pool keeps
  every transaction under its hash; and how a single message can make a pool unusable.
\<close>

lemma jfor_step: "f x s = (Inr (), s') \<Longrightarrow> jfor f (x # xs) s = jfor f xs s'"
  by (simp add: jbind_def)

section \<open>Known transactions\<close>

lemma hasPeerSeenTx_add [simp]:
  "KnownTxLookup_hasPeerSeenTx p h (KnownTxLookup_addPeerForTx q h' l) \<longleftrightarrow> p = q \<and> h = h' \<or> KnownTxLookup_hasPeerSeenTx p h l"
  by (auto simp: KnownTxLookup_hasPeerSeenTx_def KnownTxLookup_addPeerForTx_def split: option.splits)

lemma hasPeerSeenTx_settled:
  "KnownTxLookup_hasPeerSeenTx p h (KnownTxLookup_handleSettledTxs hs l) \<longleftrightarrow> h \<notin> set hs \<and> KnownTxLookup_hasPeerSeenTx p h l"
  unfolding KnownTxLookup_handleSettledTxs_def
  by (induction hs arbitrary: l) (auto simp: KnownTxLookup_hasPeerSeenTx_def split: option.splits if_splits)

lemma js_try_simps [simp]: "js_try m s = (Inr (), snd (m s))"
  by (simp add: js_try_def)

definition seen :: "tx_hash \<Rightarrow> p2p_service \<Rightarrow> string \<Rightarrow> bool" where
  "seen h s peer = KnownTxLookup_hasPeerSeenTx peer (TxHash_toString h) (svc_known s)"

lemma seen_simps [simp]:
  "seen h (s\<lparr>svc_known := KnownTxLookup_addPeerForTx q (TxHash_toString h) (svc_known s)\<rparr>) p \<longleftrightarrow> p = q \<or> seen h s p"
  "seen h (s\<lparr>svc_sent := x\<rparr>) p = seen h s p" "seen h (s\<lparr>svc_pool := y\<rparr>) p = seen h s p" "seen h (s\<lparr>svc_jobs := z\<rparr>) p = seen h s p"
  by (simp_all add: seen_def)

lemma sendRaw_ok: "dialProtocol env peer = Inr () \<Longrightarrow> sendRawMessageToPeer env m peer s = (Inr (), s\<lparr>svc_sent := svc_sent s @ [(peer, m)]\<rparr>)"
  by (simp add: sendRawMessageToPeer_def jbind_def jlift_def jmodify_def)

lemma sendTxToPeer_cases:
  "sendTxToPeer env m h peer s =
     (Inr (), if seen h s peer \<or> dialProtocol env peer \<noteq> Inr () then s
       else s\<lparr>svc_sent := svc_sent s @ [(peer, m)], svc_known := KnownTxLookup_addPeerForTx peer (TxHash_toString h) (svc_known s)\<rparr>)"
proof (cases "dialProtocol env peer")
  case (Inl e)
  then show ?thesis by (simp add: sendTxToPeer_def seen_def jbind_def jget_def jreturn_def sendRawMessageToPeer_def jlift_def)
next
  case (Inr u)
  then show ?thesis
    by (simp add: sendTxToPeer_def seen_def jbind_def jget_def jreturn_def sendRaw_ok mark_known_def jmodify_def)
qed

lemma sendTxToPeer_loop:
  assumes "distinct peers"
  shows "\<exists>s'. jfor (sendTxToPeer env m h) peers s = (Inr (), s') \<and>
    svc_sent s' = svc_sent s @ map (\<lambda>p. (p, m)) (filter (\<lambda>p. \<not> seen h s p \<and> dialProtocol env p = Inr ()) peers) \<and>
    (\<forall>p. seen h s' p \<longleftrightarrow> seen h s p \<or> p \<in> set peers \<and> dialProtocol env p = Inr ()) \<and>
    svc_pool s' = svc_pool s \<and> svc_jobs s' = svc_jobs s"
  using assms
proof (induction peers arbitrary: s)
  case Nil
  then show ?case by (simp add: jreturn_def)
next
  case (Cons q peers)
  let ?s = "snd (sendTxToPeer env m h q s)"
  obtain s' where s': "jfor (sendTxToPeer env m h) peers ?s = (Inr (), s')"
    "svc_sent s' = svc_sent ?s @ map (\<lambda>p. (p, m)) (filter (\<lambda>p. \<not> seen h ?s p \<and> dialProtocol env p = Inr ()) peers)"
    "\<forall>p. seen h s' p \<longleftrightarrow> seen h ?s p \<or> p \<in> set peers \<and> dialProtocol env p = Inr ()" "svc_pool s' = svc_pool ?s" "svc_jobs s' = svc_jobs ?s"
    using Cons.IH[of ?s] Cons.prems by auto
  have "filter (\<lambda>p. \<not> seen h ?s p \<and> dialProtocol env p = Inr ()) peers = filter (\<lambda>p. \<not> seen h s p \<and> dialProtocol env p = Inr ()) peers"
    using Cons.prems by (intro filter_cong) (auto simp: sendTxToPeer_cases seen_def)
  moreover have "jfor (sendTxToPeer env m h) (q # peers) s = (Inr (), s')"
    using s'(1) by (simp add: jbind_def sendTxToPeer_cases)
  moreover have "svc_sent ?s = svc_sent s @ (if seen h s q \<or> dialProtocol env q \<noteq> Inr () then [] else [(q, m)])"
    "seen h ?s p \<longleftrightarrow> seen h s p \<or> p = q \<and> dialProtocol env q = Inr ()" "svc_pool ?s = svc_pool s" "svc_jobs ?s = svc_jobs s" for p
    by (auto simp: sendTxToPeer_cases seen_def)
  ultimately show ?case using s'(2-) by (intro exI[of _ s']) auto
qed

text \<open>C27. A transaction is propagated once: the job that sends a transaction sends it to exactly those connected peers, other than bootstrap
  nodes, that are reachable and not known to have it, in the order of the peers; then these are known to have it, so that a second job for the
  same transaction sends nothing.\<close>

theorem propagation_once:
  assumes "createTransactionsMessage [t] = Inr m" and "Tx_getTxHash (wasm env) t = Inr h" and "distinct (getPeers env)"
  shows "\<exists>s'. do_job env (SendTx t) s = (Inr (), s') \<and>
    svc_sent s' = svc_sent s @ map (\<lambda>p. (p, m)) (filter (\<lambda>p. \<not> seen h s p \<and> dialProtocol env p = Inr ()) (getTxPeers env)) \<and>
    (\<forall>p. seen h s' p \<longleftrightarrow> seen h s p \<or> p \<in> set (getTxPeers env) \<and> dialProtocol env p = Inr ()) \<and>
    svc_pool s' = svc_pool s \<and> svc_jobs s' = svc_jobs s \<and> do_job env (SendTx t) s' = (Inr (), s')"
proof -
  have job: "do_job env (SendTx t) s = jfor (sendTxToPeer env m h) (getTxPeers env) s" for s
    using assms(1,2) by (simp add: sendTxToPeers_def jbind_def jlift_def)
  have "distinct (getTxPeers env)" using assms(3) by (simp add: getTxPeers_def)
  from sendTxToPeer_loop[OF this, of env m h s] obtain s' where s':
    "jfor (sendTxToPeer env m h) (getTxPeers env) s = (Inr (), s')"
    "svc_sent s' = svc_sent s @ map (\<lambda>p. (p, m)) (filter (\<lambda>p. \<not> seen h s p \<and> dialProtocol env p = Inr ()) (getTxPeers env))"
    "\<forall>p. seen h s' p \<longleftrightarrow> seen h s p \<or> p \<in> set (getTxPeers env) \<and> dialProtocol env p = Inr ()"
    "svc_pool s' = svc_pool s" "svc_jobs s' = svc_jobs s" by blast
  have "jfor (sendTxToPeer env m h) ps s' = (Inr (), s')" if "set ps \<subseteq> set (getTxPeers env)" for ps
    using that s'(3) by (induction ps) (auto simp: jreturn_def jbind_def sendTxToPeer_cases)
  then show ?thesis using s' job by (intro exI[of _ s']) simp
qed

section \<open>Exchange of pools\<close>

lemma pool_hashes:
  assumes "pool_ok W p"
  obtains hs where "Tx_getHashes W (map snd p) = Inr hs" "map fst p = map hash_key hs" "list_all hash_ok hs"
proof -
  have "\<forall>(k, t) \<in> set p. \<exists>h. Tx_getTxHash W t = Inr h \<and> k = hash_key h" using assms by (simp add: pool_ok_def)
  then have "\<exists>hs. Tx_getHashes W (map snd p) = Inr hs \<and> map fst p = map hash_key hs \<and> list_all hash_ok hs"
  proof (induction p)
    case (Cons e p)
    then obtain hs where hs: "Tx_getHashes W (map snd p) = Inr hs" "map fst p = map hash_key hs" "list_all hash_ok hs" by auto
    obtain h where h: "Tx_getTxHash W (snd e) = Inr h" "fst e = hash_key h" using Cons.prems by (cases e) auto
    show ?case using hs h Tx_getTxHash_ok[OF h(1)] by (intro exI[of _ "h # hs"]) (simp add: Tx_getHashes_def)
  qed (simp add: Tx_getHashes_def)
  then show thesis using that by blast
qed

lemma getAllTxHashes_keys:
  assumes "map fst p = map hash_key hs" and "list_all hash_ok hs"
  shows "InMemoryTxPool_getAllTxHashes p = Inr hs"
  unfolding InMemoryTxPool_getAllTxHashes_def assms(1) using assms(2) by (induction hs) simp_all

lemma announce_hashes:
  assumes "map fst (svc_pool s) = map hash_key hs" and "list_all hash_ok hs" and "hs \<noteq> []" and "dialProtocol env peer = Inr ()"
    and "createTransactionHashesMessage hs = Inr m"
  shows "sendTxHashesMessageToPeer env peer s = (Inr (), s\<lparr>svc_sent := svc_sent s @ [(peer, m)]\<rparr>)"
  using assms getAllTxHashes_keys[OF assms(1,2)] by (simp add: sendTxHashesMessageToPeer_def jbind_def jget_def jlift_def sendRaw_ok)

text \<open>The service asks a peer for all the hashes it was sent, if it lacks any of them.\<close>

lemma request_hashes:
  assumes "list_all hash_ok hs" and "\<exists>h \<in> set hs. map_of (svc_pool s) (hash_key h) = None" and "dialProtocol env peer = Inr ()"
    and "createGetTransactionsRequestMessage hs = Inr m" and "decodeTransactionHashesMessage b = Inr hs"
  shows "processReceivedTxHashes env b peer s = (Inr (), s\<lparr>svc_sent := svc_sent s @ [(peer, m)]\<rparr>)"
proof -
  have "rtraverse (\<lambda>h. InMemoryTxPool_hasTx h (svc_pool s)) hs = Inr (map (\<lambda>h. map_of (svc_pool s) (hash_key h) \<noteq> None) hs)"
    using assms(1) by (induction hs) (simp_all add: InMemoryTxPool_hasTx_def)
  moreover have "map fst (filter (\<lambda>(h, b). \<not> b) (zip hs (map (\<lambda>h. map_of (svc_pool s) (hash_key h) \<noteq> None) hs))) \<noteq> []"
    using assms(2) by (induction hs) auto
  ultimately show ?thesis using assms(3-)
    by (simp add: processReceivedTxHashes_def sendGetTransactionsMessageToPeer_def jbind_def jget_def jlift_def sendRaw_ok Let_def)
qed

lemma mark_all_known:
  assumes "Tx_getHashes (wasm env) ts = Inr hs"
  shows "\<exists>k. jfor (\<lambda>t. jbind (jlift (Tx_getTxHash (wasm env) t)) (mark_known peer)) ts s = (Inr (), s\<lparr>svc_known := k\<rparr>)"
  using assms
proof (induction ts arbitrary: s hs)
  case Nil
  show ?case by (intro exI[of _ "svc_known s"]) (simp add: jreturn_def)
next
  case (Cons t ts)
  then obtain h hs' where h: "Tx_getTxHash (wasm env) t = Inr h" "Tx_getHashes (wasm env) ts = Inr hs'" by (auto simp: Tx_getHashes_def)
  let ?s = "s\<lparr>svc_known := KnownTxLookup_addPeerForTx peer (TxHash_toString h) (svc_known s)\<rparr>"
  obtain k where "jfor (\<lambda>t. jbind (jlift (Tx_getTxHash (wasm env) t)) (mark_known peer)) ts ?s = (Inr (), ?s\<lparr>svc_known := k\<rparr>)"
    using Cons.IH[OF h(2)] by blast
  moreover have step: "jbind (jlift (Tx_getTxHash (wasm env) t)) (mark_known peer) s = (Inr (), ?s)"
    using h(1) by (simp add: jbind_def jlift_def mark_known_def jmodify_def)
  ultimately show ?case unfolding jfor_step[where f = "\<lambda>t. jbind (jlift (Tx_getTxHash (wasm env) t)) (mark_known peer)", OF step]
    by (intro exI[of _ k]) simp
qed

lemma pool_lookup_all:
  assumes "distinct (map fst p)" and "map fst p = map hash_key hs" and "list_all hash_ok hs" and "\<forall>t \<in> snd ` set p. Tx_clone cl t = Inr t"
  shows "rtraverse (\<lambda>h. InMemoryTxPool_getTxByHash cl h p) hs = Inr (map (Some \<circ> snd) p)"
proof -
  have "rtraverse (\<lambda>h. InMemoryTxPool_getTxByHash cl h p) hs' = Inr (map (Some \<circ> snd) q)"
    if "map fst q = map hash_key hs'" "list_all hash_ok hs'" "set q \<subseteq> set p" for q hs'
    using that
  proof (induction q arbitrary: hs')
    case (Cons e q)
    then obtain h hs'' where h: "hs' = h # hs''" "fst e = hash_key h" "hash_ok h" "map fst q = map hash_key hs''" "list_all hash_ok hs''"
      by (cases hs') auto
    have "map_of p (hash_key h) = Some (snd e)" using assms(1) Cons.prems(3) h(2) by (cases e) (auto intro: map_of_is_SomeI)
    moreover have "Tx_clone cl (snd e) = Inr (snd e)" using assms(4) Cons.prems(3) by auto
    ultimately show ?case using Cons.IH[OF h(4,5)] Cons.prems(3) h(1,3) by (simp add: InMemoryTxPool_getTxByHash_def)
  qed simp
  from this[OF assms(2,3)] show ?thesis by simp
qed

lemma answer_request:
  assumes p: "pool_ok (wasm env) (svc_pool s)" "svc_pool s \<noteq> []" and cl: "\<forall>t \<in> snd ` set (svc_pool s). Tx_clone (cloneDeep env) t = Inr t"
    and hs: "map fst (svc_pool s) = map hash_key hs" "list_all hash_ok hs" "Tx_getHashes (wasm env) (map snd (svc_pool s)) = Inr hs"
    and "dialProtocol env peer = Inr ()" and "createTransactionsMessage (map snd (svc_pool s)) = Inr m"
    and "decodeGetTransactionsRequestMessage b = Inr hs"
  shows "\<exists>k. processReceivedGetTransactionsRequest env b peer s = (Inr (), s\<lparr>svc_sent := svc_sent s @ [(peer, m)], svc_known := k\<rparr>)"
proof -
  let ?s = "s\<lparr>svc_sent := svc_sent s @ [(peer, m)]\<rparr>"
  have "rtraverse (\<lambda>h. InMemoryTxPool_getTxByHash (cloneDeep env) h (svc_pool s)) hs = Inr (map (Some \<circ> snd) (svc_pool s))"
    using p(1) by (intro pool_lookup_all hs cl) (simp add: pool_ok_def)
  moreover have "map the (filter (\<lambda>v. v \<noteq> None) (map (Some \<circ> snd) (svc_pool s))) = map snd (svc_pool s)" by (simp add: filter_map comp_def)
  moreover obtain k where "jfor (\<lambda>t. jbind (jlift (Tx_getTxHash (wasm env) t)) (mark_known peer)) (map snd (svc_pool s)) ?s = (Inr (), ?s\<lparr>svc_known := k\<rparr>)"
    using mark_all_known[OF hs(3)] by blast
  moreover have "sendTransactionsMessageToPeer env ts peer s =
      jfor (\<lambda>t. jbind (jlift (Tx_getTxHash (wasm env) t)) (mark_known peer)) ts ?s" if "createTransactionsMessage ts = Inr m" for ts
    unfolding sendTransactionsMessageToPeer_def using that assms(7) by (simp add: jbind_Inr[OF sendRaw_ok] jbind_def[of "jlift _"] jlift_def)
  ultimately show ?thesis using assms(2,7-) unfolding processReceivedGetTransactionsRequest_def
    by (intro exI[of _ k]) (simp add: jbind_def jget_def jlift_def Let_def del: map_map)
qed

lemma store_received:
  assumes "Tx_getHashes (wasm env) ts = Inr hs"
  shows "\<exists>k. jfor (processTxFromPeer env peer) ts s =
    (Inr (), s\<lparr>svc_known := k, svc_pool := fold (\<lambda>(k, t). AList.update k t) (zip (map hash_key hs) ts) (svc_pool s), svc_jobs := svc_jobs s @ map SendTx ts\<rparr>)"
  using assms
proof (induction ts arbitrary: s hs)
  case Nil
  show ?case by (intro exI[of _ "svc_known s"]) (simp add: jreturn_def)
next
  case (Cons t ts)
  then obtain h hs' where h: "Tx_getTxHash (wasm env) t = Inr h" "Tx_getHashes (wasm env) ts = Inr hs'" "hs = h # hs'"
    by (auto simp: Tx_getHashes_def)
  let ?s = "s\<lparr>svc_known := KnownTxLookup_addPeerForTx peer (TxHash_toString h) (svc_known s),
    svc_pool := AList.update (hash_key h) t (svc_pool s), svc_jobs := svc_jobs s @ [SendTx t]\<rparr>"
  have "processTxFromPeer env peer t s = (Inr (), ?s)"
    using h(1) pool_add_ok[OF h(1)]
    by (simp add: processTxFromPeer_def jbind_def jlift_def mark_known_def jmodify_def on_pool_def InMemoryTxPool_addTxs_def jreturn_def propagateTx_def)
  moreover obtain k where "jfor (processTxFromPeer env peer) ts ?s = (Inr (), ?s\<lparr>svc_known := k,
      svc_pool := fold (\<lambda>(k, t). AList.update k t) (zip (map hash_key hs') ts) (svc_pool ?s), svc_jobs := svc_jobs ?s @ map SendTx ts\<rparr>)"
    using Cons.IH[OF h(2), of ?s] by blast
  ultimately show ?case by (intro exI[of _ k]) (simp add: jbind_def h(3))
qed

lemma dial_simps:
  shows dial_txs: "readUInt32BE m 0 = Inr POOLED_TRANSACTIONS \<Longrightarrow>
      do_job env (HandleDial peer m) s = (Inr (), snd (processReceivedTxs env (getEncodedMessage m) peer s))"
    and dial_hashes: "readUInt32BE m 0 = Inr POOLED_TRANSACTION_HASHES \<Longrightarrow>
      do_job env (HandleDial peer m) s = (Inr (), snd (processReceivedTxHashes env (getEncodedMessage m) peer s))"
    and dial_request: "readUInt32BE m 0 = Inr GET_TRANSACTIONS \<Longrightarrow>
      do_job env (HandleDial peer m) s = (Inr (), snd (processReceivedGetTransactionsRequest env (getEncodedMessage m) peer s))"
  by (simp_all add: handleProtocolDial_def processMessage_def jbind_def jlift_def Let_def POOLED_TRANSACTIONS_def POOLED_TRANSACTION_HASHES_def
      GET_TRANSACTIONS_def)

lemma update_absent: "k \<notin> fst ` set q \<Longrightarrow> AList.update k t q = q @ [(k, t)]"
  by (induction q) auto

lemma fold_update_absent:
  "distinct (map fst p) \<Longrightarrow> fst ` set p \<inter> fst ` set q = {} \<Longrightarrow> fold (\<lambda>(k, t). AList.update k t) p q = q @ p"
  by (induction p arbitrary: q) (auto simp: update_absent)

text \<open>C26. When two nodes meet they exchange their transactions. Let the second node have none of the transactions of the first: after the first has
  announced its hashes, the second has asked for them, the first has answered and the second has processed the answer, the pool of the first is appended
  to the pool of the second, in its order, and the second goes on to propagate the transactions it received.\<close>

theorem pool_exchange:
  assumes pool: "pool_ok W (svc_pool a)" "svc_pool a \<noteq> []" "\<forall>t \<in> snd ` set (svc_pool a). tx_ok t \<and> relayable t"
    and fits: "createTransactionsMessage (map snd (svc_pool a)) = Inr m"
    and env: "wasm envA = W" "wasm envB = W" "\<And>r. cloneDeep envA r = r" "dialProtocol envA nodeB = Inr ()" "dialProtocol envB nodeA = Inr ()"
    and lacks: "fst ` set (svc_pool a) \<inter> fst ` set (svc_pool b) = {}"
  shows "\<exists>m1 m2 m3 a1 a2 b1 b2.
    do_job envA (SendHashes nodeB) a = (Inr (), a1) \<and> svc_sent a1 = svc_sent a @ [(nodeB, m1)] \<and>
    do_job envB (HandleDial nodeA m1) b = (Inr (), b1) \<and> svc_sent b1 = svc_sent b @ [(nodeA, m2)] \<and>
    do_job envA (HandleDial nodeB m2) a1 = (Inr (), a2) \<and> svc_sent a2 = svc_sent a1 @ [(nodeB, m3)] \<and>
    do_job envB (HandleDial nodeA m3) b1 = (Inr (), b2) \<and>
    svc_pool b2 = svc_pool b @ svc_pool a \<and> svc_pool a2 = svc_pool a \<and>
    svc_jobs b2 = svc_jobs b @ map SendTx (map snd (svc_pool a))"
proof -
  let ?p = "svc_pool a"
  obtain hs where hs: "Tx_getHashes W (map snd ?p) = Inr hs" "map fst ?p = map hash_key hs" "list_all hash_ok hs"
    using pool_hashes[OF pool(1)] by blast
  have ne: "hs \<noteq> []" using hs(2) pool(2) by auto
  have rel: "list_all relayable (map snd ?p)" using pool(3) by (auto simp: list_all_iff)
  have len: "list_all (\<lambda>h. length (th_buffer h) = TxHash_SIZE) hs" using hs(3) by (auto simp: list_all_iff hash_ok_def)
  note rt = tx_messages_decoded[OF rel fits len, unfolded decodeMessageType_def]
  obtain m1 where m1: "createTransactionHashesMessage hs = Inr m1" "readUInt32BE m1 0 = Inr POOLED_TRANSACTION_HASHES"
    "decodeTransactionHashesMessage (getEncodedMessage m1) = Inr hs" using rt by blast
  obtain m2 where m2: "createGetTransactionsRequestMessage hs = Inr m2" "readUInt32BE m2 0 = Inr GET_TRANSACTIONS"
    "decodeGetTransactionsRequestMessage (getEncodedMessage m2) = Inr hs" using rt by blast
  have m3: "readUInt32BE m 0 = Inr POOLED_TRANSACTIONS" "decodeTransactionsMessage (getEncodedMessage m) = Inr (map snd ?p)"
    using rt by blast+
  define a1 where "a1 = a\<lparr>svc_sent := svc_sent a @ [(nodeB, m1)]\<rparr>"
  define b1 where "b1 = b\<lparr>svc_sent := svc_sent b @ [(nodeA, m2)]\<rparr>"
  have 1: "do_job envA (SendHashes nodeB) a = (Inr (), a1)" using announce_hashes[OF hs(2,3) ne env(4) m1(1)] by (simp add: a1_def)
  have "\<exists>h \<in> set hs. map_of (svc_pool b) (hash_key h) = None" 
  proof -
    have "fst ` set ?p = hash_key ` set hs" using hs(2) by (metis list.set_map)
    moreover obtain h where "h \<in> set hs" using ne by (cases hs) auto
    ultimately show ?thesis using lacks by (auto simp: map_of_eq_None_iff)
  qed
  then have 2: "do_job envB (HandleDial nodeA m1) b = (Inr (), b1)"
    using request_hashes[OF hs(3) _ env(5) m2(1) m1(3), of b] dial_hashes[OF m1(2)] by (simp add: b1_def)
  have "\<forall>t \<in> snd ` set (svc_pool a1). Tx_clone (cloneDeep envA) t = Inr t"
    using pool(3) tx_clone_id[OF _ env(3)] by (simp add: a1_def)
  then obtain k where 3: "do_job envA (HandleDial nodeB m2) a1 = (Inr (), a1\<lparr>svc_sent := svc_sent a1 @ [(nodeB, m)], svc_known := k\<rparr>)"
    using answer_request[of envA a1 hs nodeB m "getEncodedMessage m2"] pool(1,2) hs env(1,4) fits m2(3) dial_request[OF m2(2)] by (force simp: a1_def)
  obtain k' where k': "jfor (processTxFromPeer envB nodeA) (map snd ?p) b1 = (Inr (), b1\<lparr>svc_known := k',
      svc_pool := fold (\<lambda>(k, t). AList.update k t) (zip (map hash_key hs) (map snd ?p)) (svc_pool b1), svc_jobs := svc_jobs b1 @ map SendTx (map snd ?p)\<rparr>)"
    (is "_ = (Inr (), ?b2)") using store_received[of envB "map snd ?p" hs nodeA b1] hs(1) env(2) by blast
  then have 4: "do_job envB (HandleDial nodeA m) b1 = (Inr (), ?b2)"
    using m3(2) dial_txs[OF m3(1)] by (simp add: processReceivedTxs_def jbind_def jlift_def)
  have "zip (map hash_key hs) (map snd ?p) = ?p" by (simp add: hs(2)[symmetric] zip_map_fst_snd)
  then have "svc_pool ?b2 = svc_pool b @ ?p" using pool(1) fold_update_absent[of ?p "svc_pool b"] lacks by (simp add: b1_def pool_ok_def)
  moreover have "svc_sent a1 = svc_sent a @ [(nodeB, m1)]" "svc_sent b1 = svc_sent b @ [(nodeA, m2)]" by (simp_all add: a1_def b1_def)
  moreover have "svc_sent (a1\<lparr>svc_sent := svc_sent a1 @ [(nodeB, m)], svc_known := k\<rparr>) = svc_sent a1 @ [(nodeB, m)]"
    "svc_pool (a1\<lparr>svc_sent := svc_sent a1 @ [(nodeB, m)], svc_known := k\<rparr>) = svc_pool a" "svc_jobs ?b2 = svc_jobs b @ map SendTx (map snd ?p)"
    by (simp_all add: a1_def b1_def)
  ultimately show ?thesis using 1 2 3 4 by blast
qed

section \<open>A message that makes a pool unusable\<close>

lemma rtraverse_Inr_all: "rtraverse f xs = Inr ys \<Longrightarrow> x \<in> set xs \<Longrightarrow> \<exists>y. f x = Inr y"
  by (induction xs arbitrary: ys) auto

lemma clone_undefined_item:
  assumes "tx_newContractPublicFunctions t = Some fns" and "None \<in> set fns"
  shows "\<exists>e. Tx_clone cl t = Inl e"
proof (cases "Tx_clone cl t")
  case (Inr c)
  then obtain ys where "rtraverse (copy_item EncodedContractFunction_toBuffer EncodedContractFunction_fromBuffer) fns = Inr ys"
    using assms(1) by (auto simp: Tx_clone_def roption_def)
  from rtraverse_Inr_all[OF this assms(2)] show ?thesis by (simp add: copy_item_def)
qed blast

text \<open>An \<open>undefined\<close> item of a transaction poisons the pool of every node it reaches: a message that announces a public function of size 0
  is decoded into a transaction with an \<open>undefined\<close> function, which is stored and propagated; from then on \<open>getAllTxs\<close> of the pool throws, because
  the transaction cannot be cloned.\<close>

theorem undefined_item_poisons_pool:
  assumes "relayable t" and "tx_newContractPublicFunctions t = Some fns" and "None \<in> set fns"
    and "createTransactionsMessage [t] = Inr m" and "Tx_getTxHash (wasm env) t = Inr h"
  shows "\<exists>s'. do_job env (HandleDial peer m) s = (Inr (), s') \<and> map_of (svc_pool s') (hash_key h) = Some t \<and>
    svc_jobs s' = svc_jobs s @ [SendTx t] \<and> (\<exists>e. InMemoryTxPool_getAllTxs (cloneDeep env) (svc_pool s') = Inl e)"
proof -
  have m: "readUInt32BE m 0 = Inr POOLED_TRANSACTIONS" "decodeTransactionsMessage (getEncodedMessage m) = Inr [t]"
    using tx_messages_decoded[of "[t]" m "[]"] assms(1,4) by (simp_all add: decodeMessageType_def)
  obtain k where k: "jfor (processTxFromPeer env peer) [t] s =
      (Inr (), s\<lparr>svc_known := k, svc_pool := AList.update (hash_key h) t (svc_pool s), svc_jobs := svc_jobs s @ [SendTx t]\<rparr>)" (is "_ = (_, ?s)")
    using store_received[of env "[t]" "[h]" peer s] assms(5) by (auto simp: Tx_getHashes_def)
  then have "do_job env (HandleDial peer m) s = (Inr (), ?s)"
    using m(2) unfolding dial_txs[OF m(1)] by (simp add: processReceivedTxs_def jbind_def[of "jlift _"] jlift_def)
  moreover have at: "map_of (svc_pool ?s) (hash_key h) = Some t" by (simp add: update_conv')
  moreover have "\<exists>e. InMemoryTxPool_getAllTxs (cloneDeep env) (svc_pool ?s) = Inl e"
  proof (cases "InMemoryTxPool_getAllTxs (cloneDeep env) (svc_pool ?s)")
    case (Inr ys)
    have "t \<in> set (map snd (svc_pool ?s))" using map_of_SomeD[OF at] by force
    then have "\<exists>y. Tx_clone (cloneDeep env) t = Inr y" by (rule rtraverse_Inr_all[OF Inr[unfolded InMemoryTxPool_getAllTxs_def]])
    then show ?thesis using clone_undefined_item[OF assms(2,3), of "cloneDeep env"] by auto
  qed blast
  ultimately show ?thesis by (intro exI[of _ ?s]) simp
qed

section \<open>Witnesses\<close>

definition sample_wasm :: circuit_hashes where
  "sample_wasm = \<lparr>computeVarArgsHash = (\<lambda>_. Inr Fr_ZERO), computeTxHash = (\<lambda>_. Inr (new_Fr 5))\<rparr>"

definition sample_env :: p2p_env where
  "sample_env = \<lparr>getPeers = [''alice'', ''boot'', ''bob''], bootstrapNodes = [''/p2p/boot''], dialProtocol = (\<lambda>_. Inr ()), wasm = sample_wasm,
     cloneDeep = (\<lambda>r. r)\<rparr>"

definition sample_hash :: tx_hash where
  "sample_hash = \<lparr>th_buffer = be_bytes 32 5\<rparr>"

lemma sample_tx_hash: "Tx_getTxHash sample_wasm sample_public_tx = Inr sample_hash"
  by (simp add: Tx_getTxHash_def sample_public_tx_def isPrivateTx_def getTxHashFromRequest_def SignedTxExecutionRequest_toSignedTxRequest_def
      TxExecutionRequest_toTxRequest_def sample_wasm_def Fr_toBuffer_bytes new_Fr_def new_TxHash_def TxHash_SIZE_def sample_hash_def)

lemma sample_hash_key: "hash_key sample_hash = 5"
  by (simp add: hash_key_def sample_hash_def be_val_be_bytes)

lemma sample_txs_message: "\<exists>m. createTransactionsMessage [sample_public_tx] = Inr m"
proof -
  have "numToUInt32BE 1 4 = Inr (be_bytes 4 1)" using numToUInt32BE_Inr[of 1 "be_bytes 4 1"] by simp
  then show ?thesis using sample_public_tx_message by (auto simp: createTransactionsMessage_def createMessage_def POOLED_TRANSACTIONS_def)
qed

definition empty_service :: p2p_service where
  "empty_service = \<lparr>svc_pool = [], svc_known = Map.empty, svc_jobs = [], svc_sent = []\<rparr>"

theorem propagation_once_witness:
  "\<exists>m s'. createTransactionsMessage [sample_public_tx] = Inr m \<and> do_job sample_env (SendTx sample_public_tx) empty_service = (Inr (), s') \<and>
    svc_sent s' = [(''alice'', m), (''bob'', m)] \<and> do_job sample_env (SendTx sample_public_tx) s' = (Inr (), s')"
proof -
  obtain m where m: "createTransactionsMessage [sample_public_tx] = Inr m" using sample_txs_message by blast
  have "getTxPeers sample_env = [''alice'', ''bob'']" by (simp add: getTxPeers_def sample_env_def isBootstrapPeer_def) code_simp
  then show ?thesis using propagation_once[of sample_public_tx m sample_env sample_hash empty_service] m sample_tx_hash
    by (auto simp: sample_env_def empty_service_def seen_def KnownTxLookup_hasPeerSeenTx_def)
qed

lemma sample_public_tx_ok: "tx_ok sample_public_tx \<and> relayable sample_public_tx"
  using sample_request_ok by (simp add: relayable_def tx_ok_def tx_encodable_def sample_public_tx_def new_Tx_def)

theorem pool_exchange_witness:
  "\<exists>m1 m2 m3 a1 a2 b1 b2.
    do_job sample_env (SendHashes ''bob'') (empty_service\<lparr>svc_pool := [(5, sample_public_tx)]\<rparr>) = (Inr (), a1) \<and> svc_sent a1 = [(''bob'', m1)] \<and>
    do_job sample_env (HandleDial ''alice'' m1) empty_service = (Inr (), b1) \<and> svc_sent b1 = [(''alice'', m2)] \<and>
    do_job sample_env (HandleDial ''bob'' m2) a1 = (Inr (), a2) \<and> svc_sent a2 = [(''bob'', m1), (''bob'', m3)] \<and>
    do_job sample_env (HandleDial ''alice'' m3) b1 = (Inr (), b2) \<and> svc_pool b2 = [(5, sample_public_tx)]"
proof -
  obtain m where m: "createTransactionsMessage [sample_public_tx] = Inr m" using sample_txs_message by blast
  have "pool_ok sample_wasm [(5, sample_public_tx)]" using sample_tx_hash sample_hash_key by (simp add: pool_ok_def)
  moreover have "wasm sample_env = sample_wasm" "\<And>r. cloneDeep sample_env r = r" "\<And>p. dialProtocol sample_env p = Inr ()"
    by (simp_all add: sample_env_def)
  ultimately show ?thesis
    using pool_exchange[of sample_wasm "empty_service\<lparr>svc_pool := [(5, sample_public_tx)]\<rparr>" m sample_env sample_env "''bob''" "''alice''" empty_service]
      m sample_public_tx_ok by (fastforce simp: empty_service_def)
qed

text \<open>The empty kernel data, written out.\<close>

definition sample_kernel :: kernel_public_inputs where
  "sample_kernel =
     (let g = \<lparr>g1_x = 1, g1_y = 2\<rparr>;
          zeros = (\<lambda>n. replicate n Fr_ZERO) in
      \<lparr>kpi_end = \<lparr>cad_aggregationObject = \<lparr>ao_p0 = g, ao_p1 = g, ao_publicInputs = [], ao_proofWitnessIndices = [], ao_hasData = False\<rparr>,
         cad_newCommitments = zeros 4, cad_newNullifiers = zeros 4, cad_privateCallStack = zeros 8, cad_publicCallStack = zeros 8,
         cad_newL2ToL1Msgs = zeros 2, cad_encryptedLogsHash = zeros 2, cad_unencryptedLogsHash = zeros 2,
         cad_encryptedLogPreimagesLength = Fr_ZERO, cad_unencryptedLogPreimagesLength = Fr_ZERO, cad_newContracts = replicate 1 NewContractData_empty,
         cad_optionallyRevealedData = replicate 4 OptionallyRevealedData_empty,
         cad_publicDataUpdateRequests = replicate 4 PublicDataUpdateRequest_empty, cad_publicDataReads = replicate 4 PublicDataRead_empty\<rparr>,
       kpi_constants = CombinedConstantData_empty, kpi_isPrivate = True\<rparr>)"

lemma sample_kernel_ok: "KernelCircuitPublicInputs_ok sample_kernel"
  by (simp add: sample_kernel_def Let_def KernelCircuitPublicInputs_ok_def CombinedAccumulatedData_ok_def AggregationObject_ok_def G1AffineElement_ok_def
      NewContractData_ok_def NewContractData_empty_def OptionallyRevealedData_ok_def OptionallyRevealedData_empty_def FunctionData_ok_def FunctionData_empty_def
      PublicDataUpdateRequest_ok_def PublicDataUpdateRequest_empty_def PublicDataRead_ok_def PublicDataRead_empty_def length_constants)

lemma kernel_parts_bytes:
  "\<exists>b. AggregationObject_toBuffer (cad_aggregationObject (kpi_end sample_kernel)) = Inr b \<and> length b = 137"
  "\<exists>b. OptionallyRevealedData_toBuffer OptionallyRevealedData_empty = Inr b \<and> length b = 106"
  "\<exists>b. CombinedConstantData_toBuffer CombinedConstantData_empty = Inr b \<and> length b = 355"
  by (simp_all add: sample_kernel_def Let_def AggregationObject_toBuffer_def AggregationObject_items_def G1AffineElement_toBuffer_def
      G1AffineElement_items_def Vector_toBuffer_def serializeToBuffer_def toBufferBE_fit cj_numToUInt32BE_4 boolToBuffer_def
      OptionallyRevealedData_toBuffer_def OptionallyRevealedData_items_def OptionallyRevealedData_empty_def FunctionData_toBuffer_def
      FunctionData_items_def FunctionData_empty_def FUNCTION_SELECTOR_LENGTH_def EthAddress_toBuffer32_def EthAddress_ZERO_def Fr_toBuffer_bytes
      CombinedConstantData_toBuffer_def CombinedConstantData_items_def CombinedConstantData_empty_def CombinedHistoricTreeRoots_toBuffer_def
      CombinedHistoricTreeRoots_items_def CombinedHistoricTreeRoots_empty_def PrivateHistoricTreeRoots_toBuffer_def
      PrivateHistoricTreeRoots_items_def PrivateHistoricTreeRoots_empty_def TxContext_toBuffer_def TxContext_items_def TxContext_empty_def
      ContractDeploymentData_toBuffer_def ContractDeploymentData_items_def ContractDeploymentData_empty_def Fr_ZERO_def new_Fr_def)

definition has_size :: "bufferable list \<Rightarrow> nat \<Rightarrow> bool" where
  "has_size objs n \<longleftrightarrow> (\<exists>b. serializeToBuffer objs = Inr b \<and> length b = n)"

lemma has_size_intros:
  shows has_size_Nil: "has_size [] 0"
    and has_size_object: "r = Inr b \<Longrightarrow> length b = k \<Longrightarrow> has_size objs n \<Longrightarrow> has_size (BObject r # objs) (k + n)"
    and has_size_bool: "has_size objs n \<Longrightarrow> has_size (BBool v # objs) (1 + n)"
    and has_size_array: "g a = Inr b \<Longrightarrow> length b = k \<Longrightarrow> has_size objs n \<Longrightarrow>
      has_size (BArray (map (\<lambda>x. BObject (g x)) (replicate c a)) # objs) (c * k + n)"
proof -
  show "has_size (BArray (map (\<lambda>x. BObject (g x)) (replicate c a)) # objs) (c * k + n)"
    if "g a = Inr b" "length b = k" "has_size objs n"
  proof -
    have "serializeToBufferArray (map (\<lambda>x. BObject (g x)) (replicate c a)) = Inr (replicate c b)" using that(1) by (induction c) simp_all
    moreover have "length (concat (replicate c b)) = c * k" using that(2) by (induction c) simp_all
    ultimately show ?thesis using that(3) by (auto simp: has_size_def serializeToBuffer_def simp del: map_replicate)
  qed
qed (auto simp: has_size_def serializeToBuffer_def boolToBuffer_def)

lemma zero_field_bytes: "Fr_toBuffer Fr_ZERO = Inr (be_bytes 32 0)"
  by (simp add: Fr_toBuffer_bytes Fr_ZERO_def new_Fr_def)

lemma small_structs_bytes:
  "\<exists>b. NewContractData_toBuffer NewContractData_empty = Inr b \<and> length b = 96"
  "\<exists>b. PublicDataUpdateRequest_toBuffer PublicDataUpdateRequest_empty = Inr b \<and> length b = 96"
  "\<exists>b. PublicDataRead_toBuffer PublicDataRead_empty = Inr b \<and> length b = 64"
  by (simp_all add: NewContractData_toBuffer_def NewContractData_items_def NewContractData_empty_def serializeToBuffer_def zero_field_bytes
      PublicDataUpdateRequest_toBuffer_def PublicDataUpdateRequest_items_def PublicDataUpdateRequest_empty_def PublicDataRead_toBuffer_def
      PublicDataRead_items_def PublicDataRead_empty_def EthAddress_toBuffer32_def EthAddress_ZERO_def AztecAddress_toBuffer_def AztecAddress_ZERO_def)

lemma accumulated_data_bytes: "\<exists>b. CombinedAccumulatedData_toBuffer (kpi_end sample_kernel) = Inr b \<and> length b = 2321"
proof -
  obtain ao od nc pu pr where ao: "AggregationObject_toBuffer (cad_aggregationObject (kpi_end sample_kernel)) = Inr ao" "length ao = 137"
    and od: "OptionallyRevealedData_toBuffer OptionallyRevealedData_empty = Inr od" "length od = 106"
    and nc: "NewContractData_toBuffer NewContractData_empty = Inr nc" "length nc = 96"
    and pu: "PublicDataUpdateRequest_toBuffer PublicDataUpdateRequest_empty = Inr pu" "length pu = 96"
    and pr: "PublicDataRead_toBuffer PublicDataRead_empty = Inr pr" "length pr = 64"
    using kernel_parts_bytes small_structs_bytes by blast
  note fr = zero_field_bytes length_be_bytes[of 32 0]
  have "has_size (CombinedAccumulatedData_items (kpi_end sample_kernel))
    (137 + (4 * 32 + (4 * 32 + (8 * 32 + (8 * 32 + (2 * 32 + (2 * 32 + (2 * 32 + (32 + (32 + (1 * 96 + (4 * 106 + (4 * 96 + (4 * 64 + 0))))))))))))))"
    unfolding CombinedAccumulatedData_items_def
    using ao by (simp only: sample_kernel_def Let_def kernel_public_inputs.simps combined_accumulated_data.simps)
      (intro has_size_object[OF refl] has_size_object[OF fr] has_size_array[where g = Fr_toBuffer, OF fr] has_size_array[where g = NewContractData_toBuffer, OF nc]
        has_size_array[where g = OptionallyRevealedData_toBuffer, OF od] has_size_array[where g = PublicDataUpdateRequest_toBuffer, OF pu]
        has_size_array[where g = PublicDataRead_toBuffer, OF pr] has_size_Nil; assumption)
  then show ?thesis by (simp add: has_size_def CombinedAccumulatedData_toBuffer_def)
qed

lemma sample_kernel_bytes: "\<exists>b. KernelCircuitPublicInputs_toBuffer sample_kernel = Inr b \<and> length b = 2677"
proof -
  obtain cad cc where cad: "CombinedAccumulatedData_toBuffer (kpi_end sample_kernel) = Inr cad" "length cad = 2321"
    and cc: "CombinedConstantData_toBuffer CombinedConstantData_empty = Inr cc" "length cc = 355"
    using kernel_parts_bytes accumulated_data_bytes by blast
  have "kpi_constants sample_kernel = CombinedConstantData_empty" by (simp add: sample_kernel_def Let_def)
  then have "has_size (KernelCircuitPublicInputs_items sample_kernel) (2321 + (355 + (1 + 0)))"
    unfolding KernelCircuitPublicInputs_items_def using cc
    by (intro has_size_object[OF cad] has_size_object has_size_bool has_size_Nil) simp_all
  then show ?thesis by (simp add: has_size_def KernelCircuitPublicInputs_toBuffer_def)
qed

definition poison_tx :: tx where
  "poison_tx = \<lparr>tx_data = Some sample_kernel, tx_proof = Some makeEmptyProof, tx_encryptedLogs = Some \<lparr>functionLogs = []\<rparr>, tx_txRequest = None,
     tx_newContractPublicFunctions = Some [None], tx_enqueuedPublicFunctionCalls = Some []\<rparr>"

lemma poison_tx_relayable: "relayable poison_tx"
proof -
  have "arrayNonEmptyLength (cad_publicCallStack (kpi_end sample_kernel)) Fr_isZero = 0"
    by (simp add: sample_kernel_def Let_def arrayNonEmptyLength_def Fr_isZero_def Fr_ZERO_def new_Fr_def numeral_eq_Suc)
  then show ?thesis using sample_kernel_ok
    by (simp add: poison_tx_def relayable_def tx_encodable_def new_Tx_def Proof_ok_def makeEmptyProof_def TxL2Logs_getSerializedLength_def)
qed

lemma poison_tx_message: "\<exists>m. createTransactionsMessage [poison_tx] = Inr m"
proof -
  obtain b where b: "KernelCircuitPublicInputs_toBuffer sample_kernel = Inr b" "length b = 2677" using sample_kernel_bytes by blast
  have num: "numToUInt32BE n 4 = Inr (be_bytes 4 n)" if "0 \<le> n" "n < 2 ^ 32" for n using that numToUInt32BE_Inr by blast
  have "Proof_toBuffer makeEmptyProof = Inr (be_bytes 4 0)"
    by (simp add: Proof_toBuffer_def Proof_items_def makeEmptyProof_def serializeToBuffer_def cj_numToUInt32BE_4)
  moreover have "TxL2Logs_toBuffer \<lparr>functionLogs = []\<rparr> = Inr (prefixed [])"
    using TxL2Logs_toBuffer_prefixed[of "\<lparr>functionLogs = []\<rparr>"] by (simp add: tx_payload_def)
  ultimately show ?thesis using b num
    by (simp add: createTransactionsMessage_def createMessage_def POOLED_TRANSACTIONS_def toTxMessage_def poison_tx_def createMessageComponent_def
        createMessageComponents_def Let_def prefixed_def)
qed

theorem undefined_item_poisons_pool_witness:
  "\<exists>m s'. createTransactionsMessage [poison_tx] = Inr m \<and> do_job sample_env (HandleDial ''eve'' m) empty_service = (Inr (), s') \<and>
    (\<exists>e. InMemoryTxPool_getAllTxs (\<lambda>r. r) (svc_pool s') = Inl e)"
proof -
  obtain m where m: "createTransactionsMessage [poison_tx] = Inr m" using poison_tx_message by blast
  have "Tx_getTxHash sample_wasm poison_tx = Inr \<lparr>th_buffer = be_bytes 32 0\<rparr>"
    by (simp add: Tx_getTxHash_def poison_tx_def isPrivateTx_def sample_kernel_def Let_def js_at_def zero_field_bytes new_TxHash_def TxHash_SIZE_def)
  then show ?thesis
    using undefined_item_poisons_pool[OF poison_tx_relayable _ _ m, of "[None]" sample_env _ "''eve''" empty_service] m
    by (auto simp: poison_tx_def sample_env_def)
qed

end
