(* ===== verification/P2PClient.thy ===== *)
theory P2PClient
  imports P2PProperties BlockDownloader
begin

text \<open>
  \<^verbatim>\<open>p2p/src/client/p2p_client.ts\<close>: the client that owns the pool of transactions, follows the chain with a block downloader and removes the
  transactions of its blocks from the pool. As in \<open>WorldStateSync\<close>, a step runs one of the asynchronous functions from one \<open>await\<close> to the next;
  the steps of the client, of its downloader and of the service interleave in any order. Whether libp2p starts is a parameter.
\<close>

section \<open>State\<close>

datatype P2PClientState = P2P_IDLE | P2P_SYNCHING | P2P_RUNNING | P2P_STOPPED

text \<open>\<open>runningPromise\<close>: not set, or the state of \<open>blockProcess\<close>: waiting for a batch; about to handle one; in \<open>handleL2Blocks\<close>, after the
  \<open>await\<close> of \<open>reconcileTxPool\<close>, or waiting for \<open>p2pService.start()\<close>; back at the loop; finished or rejected.\<close>

datatype client_process = NoProcess | AwaitingBlocks | HandlingBlocks "l2_block list" | ReconciledBlocks "l2_block list" | AwaitingService
  | HandledBlocks | ProcessFinished | ProcessRejected js_error

text \<open>A call of \<open>start()\<close> that has passed its checks: not made; waiting for \<open>getBlockHeight()\<close>; waiting for \<open>p2pService.start()\<close>, with the
  block to download from; run to its end, or rejected.\<close>

datatype client_start_call = NoStart | StartAwaitsHeight | StartAwaitsService int | StartDone | StartThrown js_error

record p2p_client =
  pc_blockDownloader :: "l2_block downloader"
  pc_stopping :: bool
  pc_process :: client_process
  pc_start :: client_start_call
  pc_currentL2BlockNum :: int
  pc_currentState :: P2PClientState
  pc_syncResolved :: bool
  pc_latestBlockNumberAtStart :: int
  pc_service :: p2p_service
  pc_serviceStarted :: bool

definition new_P2PClient :: "nat \<Rightarrow> p2p_service \<Rightarrow> p2p_client" where
  "new_P2PClient queueSize svc =
     \<lparr>pc_blockDownloader = new_L2BlockDownloader queueSize, pc_stopping = False, pc_process = NoProcess, pc_start = NoStart, pc_currentL2BlockNum = 0,
      pc_currentState = P2P_IDLE, pc_syncResolved = True, pc_latestBlockNumberAtStart = -1, pc_service = svc, pc_serviceStarted = False\<rparr>"

record client_env =
  p2pEnv :: p2p_env
  startNode :: "unit result"

section \<open>Operations\<close>

definition on_service :: "(p2p_service, 'a) js \<Rightarrow> (p2p_client, 'a) js" where
  "on_service m c = (case m (pc_service c) of (r, s) \<Rightarrow> (r, c\<lparr>pc_service := s\<rparr>))"

text \<open>\<open>p2pService.start()\<close>: the check when it is called; and \<open>node.start()\<close>, which is awaited and may fail.\<close>

definition service_check :: "p2p_client \<Rightarrow> unit result" where
  "service_check c = (if pc_serviceStarted c then Inl (Error ''P2P service already started'') else Inr ())"

definition service_starts :: "client_env \<Rightarrow> (p2p_client, unit) js" where
  "service_starts env c = (case startNode env of Inl e \<Rightarrow> (Inl e, c) | Inr _ \<Rightarrow> (Inr (), c\<lparr>pc_serviceStarted := True\<rparr>))"

definition client_start_check :: "p2p_client \<Rightarrow> bool result" where
  "client_start_check c =
     (if pc_currentState c = P2P_STOPPED then Inl (Error ''P2P client already stopped'') else Inr (pc_currentState c = P2P_IDLE))"

definition client_process_head :: "p2p_client \<Rightarrow> p2p_client" where
  "client_process_head c =
     (if pc_stopping c then c\<lparr>pc_process := ProcessFinished\<rparr>
      else c\<lparr>pc_process := AwaitingBlocks, pc_blockDownloader := dl_getL2Blocks 0 (pc_blockDownloader c)\<rparr>)"

text \<open>\<open>start()\<close>: its last part, which sets the loop and the downloader going; once the source has told its block height; and once
  \<open>p2pService.start()\<close> is settled.\<close>

definition client_launches :: "int \<Rightarrow> p2p_client \<Rightarrow> p2p_client" where
  "client_launches blockToDownloadFrom c =
     (let c = client_process_head c in c\<lparr>pc_blockDownloader := dl_start blockToDownloadFrom (pc_blockDownloader c), pc_start := StartDone\<rparr>)"

definition client_start :: "int \<Rightarrow> p2p_client \<Rightarrow> p2p_client" where
  "client_start height c =
     (let c = c\<lparr>pc_latestBlockNumberAtStart := height\<rparr>; blockToDownloadFrom = pc_currentL2BlockNum c + 1 in
      if blockToDownloadFrom \<le> pc_latestBlockNumberAtStart c
      then client_launches blockToDownloadFrom (c\<lparr>pc_currentState := P2P_SYNCHING, pc_syncResolved := False\<rparr>)
      else let c = c\<lparr>pc_currentState := P2P_RUNNING, pc_syncResolved := True\<rparr> in
        (case service_check c of
           Inl e \<Rightarrow> c\<lparr>pc_start := StartThrown e\<rparr>
         | Inr _ \<Rightarrow> c\<lparr>pc_start := StartAwaitsService blockToDownloadFrom\<rparr>))"

definition client_start_served :: "client_env \<Rightarrow> p2p_client \<Rightarrow> p2p_client" where
  "client_start_served env c =
     (case pc_start c of
        StartAwaitsService blockToDownloadFrom \<Rightarrow>
          (case service_starts env c of
             (Inl e, c') \<Rightarrow> c'\<lparr>pc_start := StartThrown e\<rparr>
           | (Inr _, c') \<Rightarrow> client_launches blockToDownloadFrom c')
      | _ \<Rightarrow> c)"

definition isReady :: "p2p_client \<Rightarrow> bool" where
  "isReady c \<longleftrightarrow> pc_currentState c = P2P_RUNNING"

definition client_sendTx :: "client_env \<Rightarrow> tx \<Rightarrow> (p2p_client, unit) js" where
  "client_sendTx env t = jbind jget (\<lambda>c.
     if \<not> isReady c then jlift (Inl (Error ''P2P client not ready''))
     else jbind (on_service (on_pool (InMemoryTxPool_addTxs (wasm (p2pEnv env)) [t]))) (\<lambda>_. on_service (propagateTx t)))"

definition client_deleteTxs :: "tx_hash list \<Rightarrow> (p2p_client, unit) js" where
  "client_deleteTxs hs = jbind jget (\<lambda>c.
     if \<not> isReady c then jlift (Inl (Error ''P2P client not ready''))
     else jbind (on_service (on_pool (InMemoryTxPool_deleteTxs hs))) (\<lambda>_. jreturn ()))"

definition client_getTxs :: "client_env \<Rightarrow> p2p_client \<Rightarrow> tx list result" where
  "client_getTxs env c = InMemoryTxPool_getAllTxs (cloneDeep (p2pEnv env)) (svc_pool (pc_service c))"

definition client_getTxByhash :: "client_env \<Rightarrow> tx_hash \<Rightarrow> p2p_client \<Rightarrow> tx option result" where
  "client_getTxByhash env h c = InMemoryTxPool_getTxByHash (cloneDeep (p2pEnv env)) h (svc_pool (pc_service c))"

record p2p_sync_state =
  p2p_state :: P2PClientState
  p2p_syncedToL2Block :: int

definition client_getStatus :: "p2p_client \<Rightarrow> p2p_sync_state" where
  "client_getStatus c = \<lparr>p2p_state = pc_currentState c, p2p_syncedToL2Block = pc_currentL2BlockNum c\<rparr>"

text \<open>The hashes of the transactions of a block, from a fresh context.\<close>

definition block_tx_hashes :: "l2_block \<Rightarrow> tx_hash list result" where
  "block_tx_hashes b = fst (L2BlockContext_getTxHashes (new_L2BlockContext b))"

definition reconcileTxPool :: "l2_block list \<Rightarrow> (p2p_service, unit) js" where
  "reconcileTxPool = jfor (\<lambda>b. jbind (jlift (block_tx_hashes b)) (\<lambda>hs. jbind (on_pool (InMemoryTxPool_deleteTxs hs)) (\<lambda>_. settledTxs hs)))"

text \<open>\<open>handleL2Blocks\<close> after \<open>reconcileTxPool\<close>, up to the call of \<open>p2pService.start()\<close>.\<close>

definition client_settles :: "l2_block list \<Rightarrow> p2p_client \<Rightarrow> p2p_client" where
  "client_settles blocks c =
     (let c = c\<lparr>pc_currentL2BlockNum := blk_number (last blocks)\<rparr> in
      if pc_currentState c = P2P_SYNCHING \<and> pc_currentL2BlockNum c \<ge> pc_latestBlockNumberAtStart c
      then let c = c\<lparr>pc_currentState := P2P_RUNNING, pc_syncResolved := True\<rparr> in
        (case service_check c of Inl e \<Rightarrow> c\<lparr>pc_process := ProcessRejected e\<rparr> | Inr _ \<Rightarrow> c\<lparr>pc_process := AwaitingService\<rparr>)
      else c\<lparr>pc_process := HandledBlocks\<rparr>)"

text \<open>The loop of \<open>blockProcess\<close>: it is given a batch; the pool is reconciled with it; it is counted; the service has been started or not; and
  the loop comes back to its head.\<close>

definition client_receives :: "p2p_client \<Rightarrow> p2p_client" where
  "client_receives c =
     (case dl_resolved (pc_blockDownloader c) of
        [] \<Rightarrow> c
      | (i, r) # rs \<Rightarrow> c\<lparr>pc_blockDownloader := dl_returns (pc_blockDownloader c),
          pc_process := HandlingBlocks (case r of None \<Rightarrow> [] | Some blocks \<Rightarrow> blocks)\<rparr>)"

definition client_handles :: "p2p_client \<Rightarrow> p2p_client" where
  "client_handles c =
     (case pc_process c of
        HandlingBlocks blocks \<Rightarrow>
          (if blocks = [] then c\<lparr>pc_process := HandledBlocks\<rparr>
           else case on_service (reconcileTxPool blocks) c of
             (Inr _, c') \<Rightarrow> c'\<lparr>pc_process := ReconciledBlocks blocks\<rparr>
           | (Inl e, c') \<Rightarrow> c'\<lparr>pc_process := ProcessRejected e\<rparr>)
      | _ \<Rightarrow> c)"

definition client_counts :: "p2p_client \<Rightarrow> p2p_client" where
  "client_counts c = (case pc_process c of ReconciledBlocks blocks \<Rightarrow> client_settles blocks c | _ \<Rightarrow> c)"

definition client_served :: "client_env \<Rightarrow> p2p_client \<Rightarrow> p2p_client" where
  "client_served env c =
     (case pc_process c of
        AwaitingService \<Rightarrow> (case service_starts env c of
            (Inr _, c') \<Rightarrow> c'\<lparr>pc_process := HandledBlocks\<rparr>
          | (Inl e, c') \<Rightarrow> c'\<lparr>pc_process := ProcessRejected e\<rparr>)
      | _ \<Rightarrow> c)"

text \<open>\<open>stop()\<close>: the call; once \<open>p2pService.stop()\<close> is settled; once the loops of the downloader and of the client have ended.\<close>

definition client_stop :: "p2p_client \<Rightarrow> p2p_client" where
  "client_stop c = c\<lparr>pc_stopping := True\<rparr>"

definition client_service_stopped :: "p2p_client \<Rightarrow> p2p_client" where
  "client_service_stopped c = c\<lparr>pc_serviceStarted := False, pc_blockDownloader := dl_stop (pc_blockDownloader c)\<rparr>"

definition client_stopped :: "p2p_client \<Rightarrow> p2p_client" where
  "client_stopped c = c\<lparr>pc_currentState := P2P_STOPPED\<rparr>"

section \<open>Steps\<close>

text \<open>As for the synchroniser, the caller is assumed to make its calls of \<open>start()\<close> and \<open>stop()\<close> one after the other: neither is called while a
  \<open>start()\<close> waits for the block height or for the service. The code does not enforce this. A \<open>stop\<close> before any \<open>start\<close> ends at once and is left out.\<close>

definition start_over :: "p2p_client \<Rightarrow> bool" where
  "start_over c \<longleftrightarrow> (case pc_start c of StartDone \<Rightarrow> True | StartThrown _ \<Rightarrow> True | _ \<Rightarrow> False)"

inductive client_step :: "client_env \<Rightarrow> (int \<Rightarrow> l2_block) \<Rightarrow> p2p_client \<Rightarrow> p2p_client \<Rightarrow> bool" for env blks where
  start: "client_start_check c = Inr True \<Longrightarrow> pc_start c = NoStart \<Longrightarrow> client_step env blks c (c\<lparr>pc_start := StartAwaitsHeight\<rparr>)"
| resumes: "pc_start c = StartAwaitsHeight \<Longrightarrow> client_step env blks c (client_start height c)"
| start_served: "pc_start c = StartAwaitsService first \<Longrightarrow> client_step env blks c (client_start_served env c)"
| downloads: "loop_step blks (pc_blockDownloader c) d \<Longrightarrow> client_step env blks c (c\<lparr>pc_blockDownloader := d\<rparr>)"
| receives: "pc_process c = AwaitingBlocks \<Longrightarrow> dl_resolved (pc_blockDownloader c) \<noteq> [] \<Longrightarrow> client_step env blks c (client_receives c)"
| handles: "pc_process c = HandlingBlocks bs \<Longrightarrow> client_step env blks c (client_handles c)"
| counts: "pc_process c = ReconciledBlocks bs \<Longrightarrow> client_step env blks c (client_counts c)"
| served: "pc_process c = AwaitingService \<Longrightarrow> client_step env blks c (client_served env c)"
| loops: "pc_process c = HandledBlocks \<Longrightarrow> client_step env blks c (client_process_head c)"
| sends: "client_step env blks c (snd (client_sendTx env t c))"
| deletes: "list_all hash_ok hs \<Longrightarrow> client_step env blks c (snd (client_deleteTxs hs c))"
| connects: "client_step env blks c (snd (on_service (handleNewConnection (p2pEnv env) peer) c))"
| dialled: "client_step env blks c (snd (on_service (incoming peer message) c))"
| runs_job: "client_step env blks c (snd (on_service (run_next_job (p2pEnv env)) c))"
| stop: "start_over c \<Longrightarrow> client_step env blks c (client_stop c)"
| service_stopped: "start_over c \<Longrightarrow> pc_stopping c \<Longrightarrow> client_step env blks c (client_service_stopped c)"
| stopped: "start_over c \<Longrightarrow> pc_stopping c \<Longrightarrow> set (dl_loops (pc_blockDownloader c)) \<subseteq> {Ended} \<Longrightarrow> pc_process c \<in> {NoProcess, ProcessFinished} \<Longrightarrow>
    client_step env blks c (client_stopped c)"

inductive_cases client_stepE: "client_step env blks c c'"

section \<open>The pool\<close>

definition svc_ok :: "circuit_hashes \<Rightarrow> p2p_service \<Rightarrow> bool" where
  "svc_ok W s \<longleftrightarrow> pool_ok W (svc_pool s)"

lemma preserves_js_try: "preserves P m \<Longrightarrow> preserves P (js_try m)"
  by (simp add: preserves_def)

lemma preserves_on_pool: "preserves (pool_ok W) m \<Longrightarrow> preserves (svc_ok W) (on_pool m)"
  by (auto simp: preserves_def svc_ok_def on_pool_def split: prod.splits)

lemma preserves_svc_modify:
  "preserves (svc_ok W) (jmodify (\<lambda>s. s\<lparr>svc_known := f s\<rparr>))" "preserves (svc_ok W) (jmodify (\<lambda>s. s\<lparr>svc_sent := g s\<rparr>))"
  "preserves (svc_ok W) (jmodify (\<lambda>s. s\<lparr>svc_jobs := h s\<rparr>))"
  by (auto simp: svc_ok_def intro!: preserves_jmodify)

lemma pool_ok_filter: "pool_ok W p \<Longrightarrow> pool_ok W (filter P p)"
  by (auto simp: pool_ok_def distinct_map_filter)

lemma preserves_pool_add: "preserves (pool_ok W) (pool_add W t)"
  unfolding preserves_def pool_add_def
  using pool_ok_update Tx_getTxHash_ok by (fastforce split: sum.splits)

lemma preserves_addTxs: "preserves (pool_ok W) (InMemoryTxPool_addTxs W ts)"
  unfolding InMemoryTxPool_addTxs_def by (intro preserves_jfor preserves_pool_add)

lemma preserves_deleteTxs: "list_all hash_ok hs \<Longrightarrow> preserves (pool_ok W) (InMemoryTxPool_deleteTxs hs)"
  unfolding preserves_def using deleteTxs_ok[of hs] pool_ok_filter by (metis snd_conv)

lemmas svc_preserves = preserves_jbind preserves_jfor preserves_js_try preserves_on_pool preserves_svc_modify preserves_addTxs

lemma preserves_do_job:
  assumes "wasm env = W"
  shows "preserves (svc_ok W) (do_job env j)"
proof -
  have send: "preserves (svc_ok W) (sendRawMessageToPeer env m peer)" for m peer
    unfolding sendRawMessageToPeer_def by (intro svc_preserves preserves_simps)
  have mark: "preserves (svc_ok W) (mark_known peer h)" for peer h unfolding mark_known_def by (rule svc_preserves)
  have rcv: "preserves (svc_ok W) (processTxFromPeer env peer t)" for peer t
    unfolding processTxFromPeer_def propagateTx_def assms by (intro svc_preserves preserves_simps mark)
  show ?thesis
  proof (cases j)
    case (SendTx t)
    have "preserves (svc_ok W) (sendTxToPeer env m h peer)" for m h peer
      unfolding preserves_def sendTxToPeer_cases by (simp add: svc_ok_def)
    then show ?thesis by (auto simp: SendTx sendTxToPeers_def intro!: svc_preserves)
  next
    case (SendHashes peer)
    then show ?thesis by (auto simp: sendTxHashesMessageToPeer_def intro!: svc_preserves send)
  next
    case (HandleDial peer m)
    have "preserves (svc_ok W) (processReceivedTxs env b peer)" for b unfolding processReceivedTxs_def
      by (intro svc_preserves preserves_simps rcv)
    moreover have "preserves (svc_ok W) (processReceivedTxHashes env b peer)" for b
      unfolding processReceivedTxHashes_def sendGetTransactionsMessageToPeer_def Let_def by (auto intro!: svc_preserves send)
    moreover have "preserves (svc_ok W) (processReceivedGetTransactionsRequest env b peer)" for b
      unfolding processReceivedGetTransactionsRequest_def sendTransactionsMessageToPeer_def Let_def by (auto intro!: svc_preserves send mark)
    ultimately show ?thesis unfolding HandleDial do_job.simps handleProtocolDial_def processMessage_def Let_def
      by (auto intro!: svc_preserves)
  qed
qed

section \<open>Settled transactions\<close>

lemma context_hashes_fresh:
  assumes "\<And>j. i \<le> j \<Longrightarrow> j < length (bc_txHashes c) \<Longrightarrow> bc_txHashes c ! j = None" and "i + n \<le> length (bc_txHashes c)"
  shows "fst (context_hashes i n c) = rtraverse (\<lambda>j. rbind (L2Block_getTx j (bc_block c)) (\<lambda>t. Inr (tx_txHash t))) [i..<i + n]"
  using assms
proof (induction n arbitrary: i c)
  case (Suc n)
  show ?case
  proof (cases "L2Block_getTx i (bc_block c)")
    case (Inl e)
    then show ?thesis using Suc.prems by (simp add: context_hash_def jbind_def upt_rec[of i])
  next
    case (Inr t)
    let ?c = "c\<lparr>bc_txHashes := (bc_txHashes c)[i := Some (tx_txHash t)]\<rparr>"
    have step: "context_hash i c = (Inr (tx_txHash t), ?c)" using Suc.prems Inr by (simp add: context_hash_def list_update_append)
    have "fst (context_hashes (i + 1) n ?c) = rtraverse (\<lambda>j. rbind (L2Block_getTx j (bc_block c)) (\<lambda>t. Inr (tx_txHash t))) [i + 1..<i + 1 + n]"
      using Suc.IH[of "i + 1" ?c] Suc.prems by simp
    then show ?thesis using Inr unfolding context_hashes.simps jbind_Inr[of "context_hash i", OF step]
      by (cases "context_hashes (i + 1) n ?c") (auto simp: jbind_def upt_rec[of i] split: sum.splits)
  qed
qed simp

lemma block_tx_hashes_eq:
  "block_tx_hashes b = rtraverse (\<lambda>j. rbind (L2Block_getTx j b) (\<lambda>t. Inr (tx_txHash t))) [0..<length (newCommitments b) div KERNEL_NEW_COMMITMENTS_LENGTH]"
  using context_hashes_fresh[of 0 "new_L2BlockContext b" "length (newCommitments b) div KERNEL_NEW_COMMITMENTS_LENGTH"]
  by (simp add: block_tx_hashes_def L2BlockContext_getTxHashes_def new_L2BlockContext_def)

lemma rtraverse_list_all:
  assumes "\<And>x y. f x = Inr y \<Longrightarrow> P y" and "rtraverse f xs = Inr ys"
  shows "list_all P ys"
  using assms(2) by (induction xs arbitrary: ys) (auto intro: assms(1))

lemma block_tx_hashes_ok: "block_tx_hashes b = Inr hs \<Longrightarrow> list_all hash_ok hs"
  unfolding block_tx_hashes_eq
  by (rule rtraverse_list_all[rotated]) (auto simp: L2Block_getTx_def new_L2Tx_def Let_def new_TxHash_ok split: if_splits)

lemma TxHash_toString_inject: "hash_ok h \<Longrightarrow> hash_ok h' \<Longrightarrow> TxHash_toString h = TxHash_toString h' \<longleftrightarrow> h = h'"
  using hash_key_inject[of h h'] hex_number_buf_to_hex[of "th_buffer h"] hex_number_buf_to_hex[of "th_buffer h'"]
  by (auto simp: TxHash_toString_def hash_key_def)

lemma reconcile_blocks:
  assumes "rtraverse block_tx_hashes blocks = Inr hss"
  shows "\<exists>s'. reconcileTxPool blocks s = (Inr (), s') \<and>
    svc_pool s' = filter (\<lambda>(k, t). k \<notin> hash_key ` set (concat hss)) (svc_pool s) \<and>
    (\<forall>peer h. hash_ok h \<longrightarrow> (seen h s' peer \<longleftrightarrow> seen h s peer \<and> h \<notin> set (concat hss))) \<and> svc_jobs s' = svc_jobs s \<and> svc_sent s' = svc_sent s"
  using assms
proof (induction blocks arbitrary: s hss)
  case Nil
  then show ?case by (simp add: reconcileTxPool_def)
next
  case (Cons b blocks)
  then obtain hs hss' where hs: "block_tx_hashes b = Inr hs" "rtraverse block_tx_hashes blocks = Inr hss'" "hss = hs # hss'" by auto
  have ok: "list_all hash_ok hs" by (rule block_tx_hashes_ok[OF hs(1)])
  obtain n where n: "InMemoryTxPool_deleteTxs hs (svc_pool s) = (Inr n, filter (\<lambda>(k, t). k \<notin> hash_key ` set hs) (svc_pool s))"
    using deleteTxs_ok[OF ok] by blast
  define s1 where "s1 = s\<lparr>svc_pool := filter (\<lambda>(k, t). k \<notin> hash_key ` set hs) (svc_pool s),
    svc_known := KnownTxLookup_handleSettledTxs (map TxHash_toString hs) (svc_known s)\<rparr>"
  have step: "jbind (jlift (block_tx_hashes b)) (\<lambda>hs. jbind (on_pool (InMemoryTxPool_deleteTxs hs)) (\<lambda>_. settledTxs hs)) s = (Inr (), s1)"
    using hs(1) n by (simp add: jbind_def on_pool_def settledTxs_def s1_def)
  obtain s' where s': "reconcileTxPool blocks s1 = (Inr (), s')" "svc_pool s' = filter (\<lambda>(k, t). k \<notin> hash_key ` set (concat hss')) (svc_pool s1)"
    "\<forall>peer h. hash_ok h \<longrightarrow> (seen h s' peer \<longleftrightarrow> seen h s1 peer \<and> h \<notin> set (concat hss'))" "svc_jobs s' = svc_jobs s1" "svc_sent s' = svc_sent s1"
    using Cons.IH[OF hs(2)] by blast
  have "seen h s1 peer \<longleftrightarrow> seen h s peer \<and> h \<notin> set hs" if "hash_ok h" for h peer
    using ok that TxHash_toString_inject[OF that] by (auto simp: seen_def s1_def hasPeerSeenTx_settled list_all_iff image_iff)
  moreover have "reconcileTxPool (b # blocks) s = (Inr (), s')"
    unfolding reconcileTxPool_def jfor_step[where f = "\<lambda>b. jbind (jlift (block_tx_hashes b)) (\<lambda>hs. jbind (on_pool (InMemoryTxPool_deleteTxs hs)) (\<lambda>_. settledTxs hs))", OF step]
    using s'(1) by (simp add: reconcileTxPool_def)
  ultimately show ?case using s'(2-) by (intro exI[of _ s']) (auto simp: hs(3) s1_def image_Un intro!: filter_cong)
qed

section \<open>Invariant\<close>

fun client_remaining :: "client_process \<Rightarrow> l2_block list" where
  "client_remaining (HandlingBlocks bs) = bs"
| "client_remaining (ReconciledBlocks bs) = bs"
| "client_remaining _ = []"

definition client_rejected :: "p2p_client \<Rightarrow> bool" where
  "client_rejected c \<longleftrightarrow> (\<exists>e. pc_process c = ProcessRejected e)"

text \<open>What has become of the service of a client that is ready: it is started, it is being started, it has failed to start, or the client is being stopped.\<close>

definition service_pending :: "p2p_client \<Rightarrow> bool" where
  "service_pending c \<longleftrightarrow> pc_process c = AwaitingService \<or> (\<exists>first. pc_start c = StartAwaitsService first)"

definition service_failed :: "p2p_client \<Rightarrow> bool" where
  "service_failed c \<longleftrightarrow> client_rejected c \<or> (\<exists>e. pc_start c = StartThrown e)"

definition client_status :: "p2p_client \<Rightarrow> bool" where
  "client_status c \<longleftrightarrow> (case pc_currentState c of
       P2P_IDLE \<Rightarrow> False
     | P2P_SYNCHING \<Rightarrow> pc_currentL2BlockNum c < pc_latestBlockNumberAtStart c \<and> \<not> pc_syncResolved c \<and> pc_process c \<noteq> AwaitingService
     | P2P_RUNNING \<Rightarrow> pc_latestBlockNumberAtStart c \<le> pc_currentL2BlockNum c \<and> pc_syncResolved c \<and>
         (pc_serviceStarted c \<or> service_pending c \<or> service_failed c \<or> pc_stopping c)
     | P2P_STOPPED \<Rightarrow> pc_stopping c \<and> pc_process c \<in> {NoProcess, ProcessFinished})"

definition client_handled :: "(int \<Rightarrow> l2_block) \<Rightarrow> p2p_client \<Rightarrow> bool" where
  "client_handled blks c \<longleftrightarrow> client_rejected c \<or>
     concat (map snd (dl_returned (pc_blockDownloader c))) = chain_segment blks 1 (pc_currentL2BlockNum c + 1) @ client_remaining (pc_process c)"

text \<open>A client before its downloader is started: before \<open>start()\<close>, while it waits for the height or the service, or after it has failed.\<close>

definition client_unlaunched :: "nat \<Rightarrow> p2p_client \<Rightarrow> bool" where
  "client_unlaunched n c \<longleftrightarrow> pc_process c = NoProcess \<and> pc_currentL2BlockNum c = 0 \<and>
     (case pc_start c of
        NoStart \<Rightarrow> pc_currentState c = P2P_IDLE
      | StartAwaitsHeight \<Rightarrow> pc_currentState c = P2P_IDLE
      | StartAwaitsService first \<Rightarrow> pc_currentState c = P2P_RUNNING \<and> first = 1 \<and> pc_latestBlockNumberAtStart c \<le> 0 \<and> pc_syncResolved c
      | StartThrown e \<Rightarrow> client_status c
      | StartDone \<Rightarrow> False) \<and>
     (if start_over c then dl_loops (pc_blockDownloader c) = [] \<and> dl_returned (pc_blockDownloader c) = []
      else \<not> pc_stopping c \<and> pc_blockDownloader c = new_L2BlockDownloader n)"

definition client_launched :: "(int \<Rightarrow> l2_block) \<Rightarrow> nat \<Rightarrow> p2p_client \<Rightarrow> bool" where
  "client_launched blks n c \<longleftrightarrow> pc_start c = StartDone \<and> 0 \<le> pc_currentL2BlockNum c \<and> dl_inv blks n 1 (pc_blockDownloader c) \<and>
     client_handled blks c \<and> client_status c \<and> pc_process c \<noteq> ReconciledBlocks []"

definition client_inv :: "(int \<Rightarrow> l2_block) \<Rightarrow> nat \<Rightarrow> circuit_hashes \<Rightarrow> p2p_client \<Rightarrow> bool" where
  "client_inv blks n W c \<longleftrightarrow> svc_ok W (pc_service c) \<and> (client_unlaunched n c \<or> client_launched blks n c)"

lemmas client_inv_defs = client_inv_def client_launched_def client_handled_def client_rejected_def client_status_def service_pending_def service_failed_def

lemma client_inv_service: "client_inv blks n W c \<Longrightarrow> svc_ok W s \<Longrightarrow> client_inv blks n W (c\<lparr>pc_service := s\<rparr>)"
  by (auto simp: client_inv_defs client_unlaunched_def start_over_def split: P2PClientState.splits client_start_call.splits)

lemma snd_on_service: "snd (on_service m c) = c\<lparr>pc_service := snd (m (pc_service c))\<rparr>"
  by (simp add: on_service_def split: prod.splits)

lemma next_blocks:
  assumes "dl_inv blks n 1 d" and "concat (map snd (dl_returned d)) = chain_segment blks 1 (c + 1) @ bs" and "0 \<le> c"
  shows "bs = chain_segment blks (c + 1) (c + 1 + int (length bs))"
proof -
  obtain ext where ext: "chain_segment blks 1 (dl_from d) = concat (map snd (dl_returned d)) @ ext"
    using assms(1) by (auto simp: dl_inv_def order_inv_def batches_def)
  have len: "length (chain_segment blks 1 (c + 1)) = nat c" using assms(3) by (simp add: chain_segment_def)
  have le: "nat c + length bs \<le> length (chain_segment blks 1 (dl_from d))" by (simp add: ext assms(2) len)
  show ?thesis
  proof (rule nth_equalityI)
    show "bs ! i = chain_segment blks (c + 1) (c + 1 + int (length bs)) ! i" if "i < length bs" for i
    proof -
      have "bs ! i = chain_segment blks 1 (dl_from d) ! (nat c + i)" using that len by (simp add: ext assms(2) nth_append)
      then show ?thesis using that le assms(3) by (simp add: chain_segment_def algebra_simps)
    qed
  qed (simp add: chain_segment_def)
qed

lemma preserves_reconcile: "preserves (svc_ok W) (reconcileTxPool blocks)"
  unfolding reconcileTxPool_def
proof (rule preserves_jfor)
  fix b
  show "preserves (svc_ok W) (jbind (jlift (block_tx_hashes b)) (\<lambda>hs. jbind (on_pool (InMemoryTxPool_deleteTxs hs)) (\<lambda>_. settledTxs hs)))"
  proof (cases "block_tx_hashes b")
    case (Inl e)
    then show ?thesis by (simp add: preserves_def jbind_def)
  next
    case (Inr hs)
    then have "jbind (jlift (block_tx_hashes b)) f = f hs" for f :: "tx_hash list \<Rightarrow> (p2p_service, unit) js" by (intro ext) (simp add: jbind_def)
    moreover have "preserves (svc_ok W) (jbind (on_pool (InMemoryTxPool_deleteTxs hs)) (\<lambda>_. settledTxs hs))"
      unfolding settledTxs_def by (intro svc_preserves preserves_deleteTxs block_tx_hashes_ok[OF Inr])
    ultimately show ?thesis by simp
  qed
qed

lemma client_inv_handles:
  assumes p: "pc_process c = HandlingBlocks blocks" and inv: "svc_ok W (pc_service c)" "client_launched blks n c"
  shows "client_inv blks n W (client_handles c)"
proof (cases "blocks = []")
  case True
  then show ?thesis using inv p by (auto simp: client_handles_def client_inv_defs split: P2PClientState.splits)
next
  case False
  obtain r s where r: "reconcileTxPool blocks (pc_service c) = (r, s)" by fastforce
  have "svc_ok W s" using preservesD[OF preserves_reconcile inv(1), of blocks] r by simp
  then show ?thesis using inv p r False
    by (cases r) (auto simp: client_handles_def on_service_def client_inv_defs split: P2PClientState.splits)
qed

lemma client_inv_counts:
  assumes num: "\<And>k. blk_number (blks k) = k" and p: "pc_process c = ReconciledBlocks blocks" and ne: "blocks \<noteq> []"
    and inv: "svc_ok W (pc_service c)" "client_launched blks n c"
  shows "client_inv blks n W (client_counts c)"
proof -
  let ?n = "pc_currentL2BlockNum c"
  have dl: "dl_inv blks n 1 (pc_blockDownloader c)" and n: "0 \<le> ?n" and st: "client_status c" "pc_start c = StartDone"
    and h: "concat (map snd (dl_returned (pc_blockDownloader c))) = chain_segment blks 1 (?n + 1) @ blocks"
    using inv(2) p by (simp_all add: client_launched_def client_handled_def client_rejected_def)
  have bs: "blocks = chain_segment blks (?n + 1) (?n + 1 + int (length blocks))" by (rule next_blocks[OF dl h n])
  then have "last blocks = blks (?n + int (length blocks))"
  proof -
    have "[?n + 1..?n + int (length blocks)] = [?n + 1..?n + int (length blocks) - 1] @ [?n + int (length blocks)]"
      using ne by (intro upto_rec2) (cases blocks, simp_all)
    then show ?thesis by (subst bs) (simp add: chain_segment_def)
  qed
  then have last: "blk_number (last blocks) = ?n + int (length blocks)" by (simp add: num)
  have seg: "chain_segment blks 1 (?n + 1) @ blocks = chain_segment blks 1 (?n + int (length blocks) + 1)"
    using chain_segment_append[of 1 "?n + 1" blks "length blocks"] bs n by (simp add: algebra_simps)
  show ?thesis using inv(1) dl n st h seg last p
    by (auto simp: client_counts_def client_settles_def Let_def service_check_def client_inv_defs add.commute split: P2PClientState.splits)
qed

lemma client_inv_served:
  assumes "pc_process c = AwaitingService" and inv: "svc_ok W (pc_service c)" "client_launched blks n c"
  shows "client_inv blks n W (client_served env c)"
  using assms by (auto simp: client_served_def service_starts_def client_inv_defs split: P2PClientState.splits sum.splits)

lemma client_inv_loops:
  assumes "pc_process c = HandledBlocks" and inv: "svc_ok W (pc_service c)" "client_launched blks n c"
  shows "client_inv blks n W (client_process_head c)"
  using assms dl_inv_calls[of blks n 1 "pc_blockDownloader c" 0]
  by (auto simp: client_process_head_def client_inv_defs split: P2PClientState.splits)

lemma client_inv_launches:
  assumes "svc_ok W (pc_service c)" "pc_blockDownloader c = new_L2BlockDownloader n" "pc_currentL2BlockNum c = 0" "\<not> pc_stopping c" "pc_process c = NoProcess"
    "pc_currentState c \<in> {P2P_SYNCHING, P2P_RUNNING}" "pc_currentState c = P2P_SYNCHING \<longrightarrow> 0 < pc_latestBlockNumberAtStart c \<and> \<not> pc_syncResolved c"
    "pc_currentState c = P2P_RUNNING \<longrightarrow> pc_latestBlockNumberAtStart c \<le> 0 \<and> pc_syncResolved c \<and> pc_serviceStarted c"
  shows "client_inv blks n W (client_launches 1 c)"
proof -
  have "dl_inv blks n 1 (dl_start 1 (dl_getL2Blocks 0 (new_L2BlockDownloader n)))"
    by (simp add: dl_inv_def dl_start_def new_L2BlockDownloader_def Let_def loop_head_def tokens_inv_def order_inv_def queue_inv_def
        in_flight_def batches_def fifo_new_Semaphore new_MemoryFifo_def new_InterruptableSleep_def chain_segment_def dl_getL2Blocks_def
        MemoryFifo_get_def)
  moreover have "dl_returned (dl_start 1 (dl_getL2Blocks 0 (new_L2BlockDownloader n)) :: l2_block downloader) = []"
    by (simp add: dl_start_def new_L2BlockDownloader_def Let_def dl_getL2Blocks_def MemoryFifo_get_def new_MemoryFifo_def)
  ultimately show ?thesis using assms
    by (auto simp: client_inv_defs client_launches_def client_process_head_def Let_def chain_segment_def)
qed

lemma client_inv_resumes:
  assumes "svc_ok W (pc_service c)" "client_unlaunched n c" "pc_start c = StartAwaitsHeight"
  shows "client_inv blks n W (client_start height c)"
proof (cases "1 \<le> height")
  case True
  have "client_inv blks n W (client_launches 1 (c\<lparr>pc_latestBlockNumberAtStart := height, pc_currentState := P2P_SYNCHING, pc_syncResolved := False\<rparr>))"
    by (rule client_inv_launches) (use assms True in \<open>simp_all add: client_unlaunched_def start_over_def\<close>)
  then show ?thesis using True assms(2) by (simp add: client_start_def Let_def client_unlaunched_def)
next
  case False
  then show ?thesis using assms
    by (auto simp: client_start_def Let_def service_check_def client_inv_def client_unlaunched_def start_over_def client_status_def service_failed_def
        new_L2BlockDownloader_def)
qed

lemma client_inv_start_served:
  assumes "svc_ok W (pc_service c)" "client_unlaunched n c" "pc_start c = StartAwaitsService first"
  shows "client_inv blks n W (client_start_served env c)"
proof (cases "startNode env")
  case (Inl e)
  then show ?thesis using assms
    by (auto simp: client_start_served_def service_starts_def client_inv_def client_unlaunched_def start_over_def client_status_def service_failed_def
        new_L2BlockDownloader_def)
next
  case (Inr u)
  have "client_inv blks n W (client_launches 1 (c\<lparr>pc_serviceStarted := True\<rparr>))"
    by (rule client_inv_launches) (use assms in \<open>simp_all add: client_unlaunched_def start_over_def\<close>)
  then show ?thesis using Inr assms(2,3) by (simp add: client_start_served_def service_starts_def client_unlaunched_def)
qed

lemma client_inv_sends:
  assumes "client_inv blks n W c" and "wasm (p2pEnv env) = W"
  shows "client_inv blks n W (snd (client_sendTx env t c))"
proof -
  have ok: "svc_ok W (pc_service c)" using assms(1) by (simp add: client_inv_def)
  have "preserves (svc_ok W) (jbind (on_pool (InMemoryTxPool_addTxs W [t])) (\<lambda>_. propagateTx t))"
    unfolding propagateTx_def by (intro svc_preserves)
  then have "svc_ok W (snd (jbind (on_pool (InMemoryTxPool_addTxs W [t])) (\<lambda>_. propagateTx t) (pc_service c)))" using ok by (rule preservesD)
  moreover have "snd (client_sendTx env t c) = (if isReady c
      then c\<lparr>pc_service := snd (jbind (on_pool (InMemoryTxPool_addTxs W [t])) (\<lambda>_. propagateTx t) (pc_service c))\<rparr> else c)"
    by (simp add: client_sendTx_def jbind_def on_service_def assms(2) split: prod.splits sum.splits)
  ultimately show ?thesis using assms(1) client_inv_service by simp
qed

lemma client_inv_deletes:
  assumes "client_inv blks n W c" and "list_all hash_ok hs"
  shows "client_inv blks n W (snd (client_deleteTxs hs c))"
proof -
  have "svc_ok W (pc_service c)" using assms(1) by (simp add: client_inv_def)
  then have "svc_ok W (snd (on_pool (InMemoryTxPool_deleteTxs hs) (pc_service c)))"
    using preservesD[OF preserves_on_pool[OF preserves_deleteTxs[OF assms(2)]]] by blast
  moreover have "snd (client_deleteTxs hs c) = (if isReady c then c\<lparr>pc_service := snd (on_pool (InMemoryTxPool_deleteTxs hs) (pc_service c))\<rparr> else c)"
    by (simp add: client_deleteTxs_def jbind_def on_service_def split: prod.splits sum.splits)
  ultimately show ?thesis using assms(1) client_inv_service by simp
qed

lemma client_inv_on_service:
  assumes "client_inv blks n W c" and "preserves (svc_ok W) m"
  shows "client_inv blks n W (snd (on_service m c))"
  unfolding snd_on_service using assms by (intro client_inv_service preservesD[OF assms(2)]) (simp_all add: client_inv_def)

lemma preserves_run_next_job: "wasm env = W \<Longrightarrow> preserves (svc_ok W) (run_next_job env)"
  using preserves_do_job[of env W] by (auto simp: preserves_def run_next_job_def svc_ok_def split: list.splits)

lemma dl_stop_unstarted: "dl_loops d = [] \<Longrightarrow> dl_loops (dl_stop d) = [] \<and> dl_returned (dl_stop d) = dl_returned d"
proof -
  have "dl_loops (fold (\<lambda>(c, _). set_loop c Woken) cs e) = [] \<and> dl_returned (fold (\<lambda>(c, _). set_loop c Woken) cs e) = dl_returned e"
    if "dl_loops e = []" for cs :: "(nat \<times> bool) list" and e :: "'a downloader"
    using that by (induction cs arbitrary: e) (auto simp: set_loop_def)
  then show "dl_loops d = [] \<Longrightarrow> dl_loops (dl_stop d) = [] \<and> dl_returned (dl_stop d) = dl_returned d"
    by (auto simp: dl_stop_def dl_interrupt_def Let_def split: prod.splits)
qed

lemma client_inv_stops:
  assumes inv: "client_inv blks n W c" and "start_over c"
  shows "client_inv blks n W (client_stop c)"
    and "pc_stopping c \<Longrightarrow> client_inv blks n W (client_service_stopped c)"
    and "pc_stopping c \<Longrightarrow> pc_process c \<in> {NoProcess, ProcessFinished} \<Longrightarrow> client_inv blks n W (client_stopped c)"
  using assms dl_inv_stop[of blks n 1 "pc_blockDownloader c"] dl_stop_unstarted[of "pc_blockDownloader c"]
  by (auto simp: client_stop_def client_service_stopped_def client_stopped_def client_inv_defs client_unlaunched_def start_over_def
      split: P2PClientState.splits client_start_call.splits)

lemma client_inv_step:
  assumes num: "\<And>k. blk_number (blks k) = k" and W: "wasm (p2pEnv env) = W"
    and inv: "client_inv blks n W c" and step: "client_step env blks c c'"
  shows "client_inv blks n W c'"
proof -
  have svc: "svc_ok W (pc_service c)" using inv by (simp add: client_inv_def)
  have on: "client_launched blks n c" if "pc_process c \<noteq> NoProcess" using inv that by (auto simp: client_inv_def client_unlaunched_def)
  have off: "client_unlaunched n c" if "pc_start c \<noteq> StartDone" using inv that by (auto simp: client_inv_def client_launched_def)
  show ?thesis using step
  proof (cases rule: client_step.cases)
    case start
    then show ?thesis using svc off by (simp add: client_inv_def client_unlaunched_def start_over_def)
  next
    case (resumes height)
    then show ?thesis using client_inv_resumes[OF svc] off by simp
  next
    case (start_served first)
    then show ?thesis using client_inv_start_served[OF svc] off by simp
  next
    case (downloads d)
    have "\<not> client_unlaunched n c" using downloads(2)
      by (auto simp: client_unlaunched_def new_L2BlockDownloader_def split: if_splits elim: loop_stepE)
    then show ?thesis using inv downloads dl_inv_loop[of blks n 1 "pc_blockDownloader c" d] loop_step_returned[of blks "pc_blockDownloader c" d]
      by (auto simp: client_inv_defs split: P2PClientState.splits)
  next
    case receives
    then obtain i r rs where r: "dl_resolved (pc_blockDownloader c) = (i, r) # rs" by (cases "dl_resolved (pc_blockDownloader c)") auto
    note p = on[unfolded receives(2), simplified]
    have "dl_inv blks n 1 (dl_returns (pc_blockDownloader c))" using dl_inv_returns[OF _ r] p by (simp add: client_launched_def)
    then show ?thesis using svc receives p r returns_returned[OF r]
      by (auto simp: client_inv_defs client_receives_def split: P2PClientState.splits)
  next
    case (handles bs)
    then show ?thesis using client_inv_handles[OF handles(2) svc] on by simp
  next
    case (counts bs)
    then show ?thesis using client_inv_counts[OF num counts(2) _ svc] on by (auto simp: client_launched_def)
  next
    case served
    then show ?thesis using client_inv_served[OF served(2) svc] on by simp
  next
    case loops
    then show ?thesis using client_inv_loops[OF loops(2) svc] on by simp
  next
    case (sends t)
    then show ?thesis using client_inv_sends[OF inv W] by simp
  next
    case (deletes hs)
    then show ?thesis using client_inv_deletes[OF inv] by simp
  next
    case (connects peer)
    show ?thesis unfolding connects
      by (rule client_inv_on_service[OF inv]) (auto simp: handleNewConnection_def intro: preserves_svc_modify)
  next
    case (dialled peer message)
    show ?thesis unfolding dialled by (rule client_inv_on_service[OF inv]) (auto simp: incoming_def intro: preserves_svc_modify)
  next
    case runs_job
    show ?thesis unfolding runs_job by (rule client_inv_on_service[OF inv preserves_run_next_job[OF W]])
  qed (use client_inv_stops[OF inv] in auto)
qed

interpretation client_sm: state_machine "new_P2PClient n empty_service" "client_step env (numbered blks)" "client_inv (numbered blks) n (wasm (p2pEnv env))" for n env blks
proof
  show "client_inv (numbered blks) n (wasm (p2pEnv env)) (new_P2PClient n empty_service)"
    by (simp add: client_inv_def client_unlaunched_def start_over_def svc_ok_def pool_ok_def empty_service_def new_P2PClient_def)
  show "client_inv (numbered blks) n (wasm (p2pEnv env)) c'"
    if "client_inv (numbered blks) n (wasm (p2pEnv env)) c" "client_step env (numbered blks) c c'" for c c'
    by (rule client_inv_step[OF _ _ that]) (simp_all add: numbered_def)
qed

section \<open>Properties\<close>

text \<open>Blocks settle transactions: when the client handles a batch of blocks, exactly the transactions whose hash is the hash of a transaction
  of one of the blocks leave the pool, the others keep their order; the service forgets which peers know the settled ones; and the client
  is synchronised to the last block of the batch.\<close>

theorem settled_txs_leave_pool:
  assumes "rtraverse block_tx_hashes blocks = Inr hss" and "blocks \<noteq> []" and "pc_process c = HandlingBlocks blocks"
  shows "\<exists>c'. client_counts (client_handles c) = c' \<and>
    svc_pool (pc_service c') = filter (\<lambda>(k, t). k \<notin> hash_key ` set (concat hss)) (svc_pool (pc_service c)) \<and>
    (\<forall>peer h. hash_ok h \<longrightarrow> (seen h (pc_service c') peer \<longleftrightarrow> seen h (pc_service c) peer \<and> h \<notin> set (concat hss))) \<and>
    pc_currentL2BlockNum c' = blk_number (last blocks) \<and>
    (isReady c' \<longleftrightarrow> isReady c \<or> pc_currentState c = P2P_SYNCHING \<and> pc_latestBlockNumberAtStart c \<le> blk_number (last blocks))"
proof -
  obtain s where s: "reconcileTxPool blocks (pc_service c) = (Inr (), s)"
    "svc_pool s = filter (\<lambda>(k, t). k \<notin> hash_key ` set (concat hss)) (svc_pool (pc_service c))"
    "\<forall>peer h. hash_ok h \<longrightarrow> (seen h s peer \<longleftrightarrow> seen h (pc_service c) peer \<and> h \<notin> set (concat hss))"
    using reconcile_blocks[OF assms(1)] by blast
  show ?thesis using s assms(2,3)
    by (auto simp: client_handles_def client_counts_def on_service_def client_settles_def Let_def service_check_def isReady_def)
qed

lemma sample_block_hashes: "block_tx_hashes sample_block = Inr [\<lparr>th_buffer = be_bytes 32 (fr_value (newNullifiers sample_block ! 0))\<rparr>]"
proof -
  have "Fr_toBuffer (newNullifiers sample_block ! 0) = Inr (be_bytes 32 (fr_value (newNullifiers sample_block ! 0)))"
    by (rule Fr_toBuffer_bytes) (simp_all add: sample_block_def new_L2Block_def new_Fr_def)
  then show ?thesis
    by (simp add: block_tx_hashes_eq sample_block_def new_L2Block_def KERNEL_NEW_COMMITMENTS_LENGTH_def L2Block_getTx_def new_L2Tx_def js_at_def
        subarray_def KERNEL_NEW_NULLIFIERS_LENGTH_def new_TxHash_def TxHash_SIZE_def)
qed

definition sample_client :: p2p_client where
  "sample_client = (new_P2PClient 1 (empty_service\<lparr>svc_pool := [(fr_value (newNullifiers sample_block ! 0), sample_public_tx), (5, sample_public_tx)]\<rparr>))
     \<lparr>pc_currentState := P2P_RUNNING, pc_serviceStarted := True, pc_process := HandlingBlocks [sample_block]\<rparr>"

theorem settled_txs_leave_pool_witness:
  "\<exists>c'. client_counts (client_handles sample_client) = c' \<and> svc_pool (pc_service c') = [(5, sample_public_tx)] \<and> pc_currentL2BlockNum c' = 7"
proof -
  have k: "hash_key \<lparr>th_buffer = be_bytes 32 (fr_value (newNullifiers sample_block ! 0))\<rparr> = fr_value (newNullifiers sample_block ! 0)"
    "fr_value (newNullifiers sample_block ! 0) \<noteq> 5" "blk_number sample_block = 7"
    by (simp_all add: hash_key_def sample_block_def new_L2Block_def new_Fr_def be_val_be_bytes)
  show ?thesis using settled_txs_leave_pool[of "[sample_block]" _ sample_client] sample_block_hashes k
    by (auto simp: sample_client_def new_P2PClient_def)
qed

text \<open>C25. In every state that a client, its block downloader and its service can reach, under any interleaving of blocks, of messages from peers
  and of local requests, and whether or not libp2p can be started: every transaction of the pool is stored under its hash; unless the loop of the
  client has been rejected, the batches handled are consecutive blocks of the chain from block 1 to the block that the status reports; and the
  client is ready for transactions only after it has caught up with the height at its start, with its service started, being started, or failed to
  start, or the client being stopped: the code becomes ready before it starts the service. Calls of \<open>start()\<close> and \<open>stop()\<close> are
  assumed not to overlap a call of \<open>start()\<close>, and the block source to answer.\<close>

theorem p2p_client_follows_chain:
  assumes "(client_step env (numbered blks))\<^sup>*\<^sup>* (new_P2PClient n empty_service) c"
  shows "pool_ok (wasm (p2pEnv env)) (svc_pool (pc_service c)) \<and>
    (client_rejected c \<or> concat (map snd (dl_returned (pc_blockDownloader c))) =
       chain_segment (numbered blks) 1 (p2p_syncedToL2Block (client_getStatus c) + 1) @ client_remaining (pc_process c)) \<and>
    (isReady c \<longrightarrow> pc_latestBlockNumberAtStart c \<le> p2p_syncedToL2Block (client_getStatus c) \<and> pc_syncResolved c \<and>
       (pc_serviceStarted c \<or> service_pending c \<or> service_failed c \<or> pc_stopping c))"
proof -
  have inv: "client_inv (numbered blks) n (wasm (p2pEnv env)) c" by (rule client_sm.reachable_inv[OF assms])
  show ?thesis
  proof (cases "client_unlaunched n c")
    case True
    then have "pc_process c = NoProcess" "pc_currentL2BlockNum c = 0" "dl_returned (pc_blockDownloader c) = []"
      "isReady c \<longrightarrow> pc_latestBlockNumberAtStart c \<le> 0 \<and> pc_syncResolved c \<and> (service_pending c \<or> service_failed c)"
      by (auto simp: client_unlaunched_def new_L2BlockDownloader_def isReady_def client_status_def service_pending_def service_failed_def
          start_over_def split: client_start_call.splits if_splits)
    then show ?thesis using inv by (auto simp: client_inv_def svc_ok_def client_getStatus_def chain_segment_def)
  next
    case False
    then show ?thesis using inv
      by (auto simp: client_inv_def client_launched_def svc_ok_def client_handled_def client_status_def client_getStatus_def isReady_def)
  qed
qed

definition sample_client_env :: client_env where
  "sample_client_env = \<lparr>p2pEnv = sample_env, startNode = Inr ()\<rparr>"

theorem p2p_client_follows_chain_witness:
  "\<exists>c. (client_step sample_client_env (numbered (\<lambda>_. sample_block)))\<^sup>*\<^sup>* (new_P2PClient 1 empty_service) c \<and>
    svc_pool (pc_service c) = [(5, sample_public_tx)] \<and> pool_ok sample_wasm (svc_pool (pc_service c)) \<and> isReady c \<and> pc_serviceStarted c"
proof -
  let ?env = sample_client_env and ?c0 = "new_P2PClient 1 empty_service" and ?blks = "numbered (\<lambda>_. sample_block)"
  let ?c1 = "?c0\<lparr>pc_start := StartAwaitsHeight\<rparr>"
  let ?c2 = "client_start 0 ?c1"
  let ?c3 = "client_start_served ?env ?c2"
  let ?c4 = "snd (client_sendTx ?env sample_public_tx ?c3)"
  have "client_step ?env ?blks ?c0 ?c1" by (rule client_step.start) (simp_all add: client_start_check_def new_P2PClient_def)
  moreover have "client_step ?env ?blks ?c1 ?c2" by (rule client_step.resumes) simp
  moreover have awaits: "pc_start ?c2 = StartAwaitsService 1" by (simp add: client_start_def new_P2PClient_def service_check_def Let_def)
  then have "client_step ?env ?blks ?c2 ?c3" by (rule client_step.start_served)
  moreover have "client_step ?env ?blks ?c3 ?c4" by (rule client_step.sends)
  ultimately have run: "(client_step ?env ?blks)\<^sup>*\<^sup>* ?c0 ?c4" by (meson rtranclp.rtrancl_into_rtrancl rtranclp.rtrancl_refl)
  have c3: "isReady ?c3" "pc_service ?c3 = empty_service" "pc_serviceStarted ?c3"
    by (simp_all add: client_start_def new_P2PClient_def client_start_served_def service_check_def service_starts_def client_launches_def
        client_process_head_def isReady_def sample_client_env_def Let_def)
  have w: "wasm (p2pEnv ?env) = sample_wasm" by (simp add: sample_client_env_def sample_env_def)
  have "pool_add sample_wasm sample_public_tx [] = (Inr (), [(5, sample_public_tx)])"
    using pool_add_ok[OF sample_tx_hash, of "[]"] sample_hash_key by simp
  then have c4: "isReady ?c4" "svc_pool (pc_service ?c4) = [(5, sample_public_tx)]" "pc_serviceStarted ?c4"
    using c3 w by (simp_all add: client_sendTx_def jbind_def on_service_def on_pool_def InMemoryTxPool_addTxs_def propagateTx_def empty_service_def isReady_def)
  then show ?thesis using run p2p_client_follows_chain[OF run] w by auto
qed

end
