(* ===== verification/SoloBlockBuilder.thy ===== *)
theory SoloBlockBuilder
  imports RollupStructs Transactions WorldStateProperties
begin

text \<open>
  \<^verbatim>\<open>sequencer-client/src/block_builder/solo_block_builder.ts\<close>: a block is built from processed transactions by inserting their data into the
  world state, running the rollup circuits over pairs of transactions, merging their outputs in layers and checking the outputs
  against the trees. The simulation of the circuits and the hash of a contract, which run in WebAssembly, and sha256 are parameters; the prover is the
  one of \<^verbatim>\<open>sequencer-client/src/prover/empty.ts\<close>, which also changes the output that it is given. The builder reads the pending
  version of the trees (\<open>asLatest\<close>), as \<^verbatim>\<open>sequencer-client.ts\<close> makes it. The processed transactions are those of
  \<^verbatim>\<open>sequencer/processed_tx.ts\<close>.
\<close>

section \<open>State and parameters\<close>

record processed_tx =
  ptx_hash :: tx_hash
  ptx_data :: kernel_public_inputs
  ptx_proof :: proof_data
  ptx_encryptedLogs :: "tx_l2_logs option"
  ptx_txRequest :: "signed_tx_execution_request option"
  ptx_isEmpty :: bool

record verification_keys =
  publicKernelCircuit :: verification_key
  privateKernelCircuit :: verification_key
  baseRollupCircuit_vk :: verification_key
  mergeRollupCircuit_vk :: verification_key

record 'db block_builder =
  bb_trees :: "'db tree_env"
  bb_vks :: verification_keys
  simulateBaseRollup :: "base_rollup_inputs \<Rightarrow> rollup_public_inputs result"
  simulateMergeRollup :: "merge_rollup_inputs \<Rightarrow> rollup_public_inputs result"
  simulateRootRollup :: "root_rollup_inputs \<Rightarrow> root_rollup_public_inputs result"
  computeContractLeaf :: "new_contract_data \<Rightarrow> fr result"
  bb_sha256 :: "buffer \<Rightarrow> buffer"

definition FUTURE_FR :: fr where
  "FUTURE_FR = new_Fr 0"

definition FUTURE_NUM :: int where
  "FUTURE_NUM = 0"

definition DELETE_FR :: fr where
  "DELETE_FR = new_Fr 0"

definition RollupTypes_Base :: int where
  "RollupTypes_Base = 0"

definition RollupTypes_Merge :: int where
  "RollupTypes_Merge = 1"

text \<open>Reading from the trees without changing them.\<close>

definition jgets :: "('s \<Rightarrow> 'a result) \<Rightarrow> ('s, 'a) js" where
  "jgets f = jbind jget (\<lambda>s. jlift (f s))"

definition fr_of_buffer :: "buffer \<Rightarrow> fr result" where
  "fr_of_buffer b = fst (Fr_fromBuffer (new_BufferReader b 0))"

section \<open>The prover\<close>

definition EMPTY_PROOF_SIZE :: nat where
  "EMPTY_PROOF_SIZE = 42"

definition empty_proof :: proof_data where
  "empty_proof = \<lparr>proof_buffer = replicate EMPTY_PROOF_SIZE 0\<rparr>"

definition getBaseRollupProof :: "base_rollup_inputs \<Rightarrow> rollup_public_inputs \<Rightarrow> (proof_data \<times> rollup_public_inputs) result" where
  "getBaseRollupProof input publicInputs =
     rbind AggregationObject_makeFake (\<lambda>a. Inr (empty_proof, publicInputs\<lparr>rpi_endAggregationObject := a\<rparr>))"

definition getMergeRollupProof :: "merge_rollup_inputs \<Rightarrow> rollup_public_inputs \<Rightarrow> (proof_data \<times> rollup_public_inputs) result" where
  "getMergeRollupProof input publicInputs =
     rbind AggregationObject_makeFake (\<lambda>a. Inr (empty_proof, publicInputs\<lparr>rpi_endAggregationObject := a\<rparr>))"

definition getRootRollupProof :: "root_rollup_inputs \<Rightarrow> root_rollup_public_inputs \<Rightarrow> (proof_data \<times> root_rollup_public_inputs) result" where
  "getRootRollupProof input publicInputs =
     rbind AggregationObject_makeFake (\<lambda>a. Inr (empty_proof, publicInputs\<lparr>rrp_endAggregationObject := a\<rparr>))"

section \<open>Validation\<close>

text \<open>The message of the code goes on with the transaction as JSON.\<close>

definition zero_root_error :: "string \<Rightarrow> js_error" where
  "zero_root_error name = Error (''Empty '' @ name @ '' for tx: '')"

definition validateTx :: "processed_tx \<Rightarrow> unit result" where
  "validateTx t =
     (let roots = cht_privateHistoricTreeRoots (ccd_historicTreeRoots (kpi_constants (ptx_data t))) in
      rbind (rtraverse (\<lambda>(name, root). if Fr_isZero root then Inl (zero_root_error name) else Inr ())
        [(''privateDataTreeRoot'', pht_privateDataTreeRoot roots), (''contractTreeRoot'', pht_contractTreeRoot roots),
         (''nullifierTreeRoot'', pht_nullifierTreeRoot roots), (''l1ToL2MessagesTreeRoot'', pht_l1ToL2MessagesTreeRoot roots)]) (\<lambda>_. Inr ()))"

definition validateTxs :: "processed_tx list \<Rightarrow> unit result" where
  "validateTxs txs = rbind (rtraverse validateTx txs) (\<lambda>_. Inr ())"

definition getTreeSnapshot :: "MerkleTreeId \<Rightarrow> 'db merkle_trees \<Rightarrow> append_only_tree_snapshot result" where
  "getTreeSnapshot i w =
     (let treeInfo = Facade_getTreeInfo asLatest i w in
      rbind (fr_of_buffer (ti_root treeInfo)) (\<lambda>root. Inr \<lparr>snap_root = root, nextAvailableLeafIndex = js_Number (ti_size treeInfo)\<rparr>))"

text \<open>The output of a circuit and its member \<open>end...TreeSnapshot\<close>, which is \<open>undefined\<close> for a name that the class does not have. Only
  \<open>RootRollupPublicInputs\<close> has a snapshot of the messages, so that the first test of \<open>validateTree\<close> never fires. Checks that the code starts together
  (\<open>Promise.all\<close>) are made in the order of their start.\<close>

datatype rollup_output = BaseOrMergeOutput rollup_public_inputs | RootOutput root_rollup_public_inputs

datatype tree_name = PrivateDataName | ContractName | NullifierName | L1ToL2MessageName

fun name_text :: "tree_name \<Rightarrow> string" where
  "name_text PrivateDataName = ''PrivateData''"
| "name_text ContractName = ''Contract''"
| "name_text NullifierName = ''Nullifier''"
| "name_text L1ToL2MessageName = ''L1ToL2Message''"

fun endTreeSnapshot :: "rollup_output \<Rightarrow> tree_name \<Rightarrow> append_only_tree_snapshot result" where
  "endTreeSnapshot (BaseOrMergeOutput r) PrivateDataName = Inr (rpi_endPrivateDataTreeSnapshot r)"
| "endTreeSnapshot (BaseOrMergeOutput r) ContractName = Inr (rpi_endContractTreeSnapshot r)"
| "endTreeSnapshot (BaseOrMergeOutput r) NullifierName = Inr (rpi_endNullifierTreeSnapshot r)"
| "endTreeSnapshot (BaseOrMergeOutput r) L1ToL2MessageName = Inl TypeError"
| "endTreeSnapshot (RootOutput r) PrivateDataName = Inr (rrp_endPrivateDataTreeSnapshot r)"
| "endTreeSnapshot (RootOutput r) ContractName = Inr (rrp_endContractTreeSnapshot r)"
| "endTreeSnapshot (RootOutput r) NullifierName = Inr (rrp_endNullifierTreeSnapshot r)"
| "endTreeSnapshot (RootOutput r) L1ToL2MessageName = Inr (rrp_endL1ToL2MessageTreeSnapshot r)"

fun endTreeOfHistoricRootsSnapshot :: "root_rollup_public_inputs \<Rightarrow> tree_name \<Rightarrow> append_only_tree_snapshot result" where
  "endTreeOfHistoricRootsSnapshot r PrivateDataName = Inr (rrp_endTreeOfHistoricPrivateDataTreeRootsSnapshot r)"
| "endTreeOfHistoricRootsSnapshot r ContractName = Inr (rrp_endTreeOfHistoricContractTreeRootsSnapshot r)"
| "endTreeOfHistoricRootsSnapshot r L1ToL2MessageName = Inr (rrp_endTreeOfHistoricL1ToL2MessageTreeRootsSnapshot r)"
| "endTreeOfHistoricRootsSnapshot r NullifierName = Inl TypeError"

fun output_endPublicDataTreeRoot :: "rollup_output \<Rightarrow> fr" where
  "output_endPublicDataTreeRoot (BaseOrMergeOutput r) = rpi_endPublicDataTreeRoot r"
| "output_endPublicDataTreeRoot (RootOutput r) = rrp_endPublicDataTreeRoot r"

definition root_mismatch :: "string \<Rightarrow> fr \<Rightarrow> fr \<Rightarrow> js_error" where
  "root_mismatch label local simulated =
     Error (label @ '' tree root mismatch (local '' @ Fr_toString False local @ '', simulated '' @ Fr_toString False simulated @ '')'')"

definition validateSimulatedTree :: "append_only_tree_snapshot \<Rightarrow> append_only_tree_snapshot \<Rightarrow> string \<Rightarrow> unit result" where
  "validateSimulatedTree localTree simulatedTree label =
     rbind (Fr_toBuffer (snap_root simulatedTree)) (\<lambda>s. rbind (Fr_toBuffer (snap_root localTree)) (\<lambda>l.
       if s \<noteq> l then Inl (root_mismatch label (snap_root localTree) (snap_root simulatedTree))
       else if nextAvailableLeafIndex simulatedTree \<noteq> nextAvailableLeafIndex localTree
       then Inl (Error (label @ '' tree next available leaf index mismatch (local '' @ dec (nextAvailableLeafIndex localTree) @
         '', simulated '' @ dec (nextAvailableLeafIndex simulatedTree) @ '')''))
       else Inr ()))"

definition validateTree :: "rollup_output \<Rightarrow> MerkleTreeId \<Rightarrow> tree_name \<Rightarrow> 'db merkle_trees \<Rightarrow> unit result" where
  "validateTree output treeId name w =
     rbind (getTreeSnapshot treeId w) (\<lambda>localTree. rbind (endTreeSnapshot output name) (\<lambda>simulatedTree.
       validateSimulatedTree localTree simulatedTree (name_text name)))"

definition validateRootTree :: "root_rollup_public_inputs \<Rightarrow> MerkleTreeId \<Rightarrow> tree_name \<Rightarrow> 'db merkle_trees \<Rightarrow> unit result" where
  "validateRootTree rootOutput treeId name w =
     rbind (getTreeSnapshot treeId w) (\<lambda>localTree. rbind (endTreeOfHistoricRootsSnapshot rootOutput name) (\<lambda>simulatedTree.
       validateSimulatedTree localTree simulatedTree (''Roots '' @ name_text name)))"

definition validatePublicDataTreeRoot :: "rollup_output \<Rightarrow> 'db merkle_trees \<Rightarrow> unit result" where
  "validatePublicDataTreeRoot output w =
     rbind (getTreeSnapshot PUBLIC_DATA_TREE w) (\<lambda>localTree.
     rbind (Fr_toBuffer (output_endPublicDataTreeRoot output)) (\<lambda>s. rbind (Fr_toBuffer (snap_root localTree)) (\<lambda>l.
       if s \<noteq> l then Inl (root_mismatch ''PublicData'' (snap_root localTree) (output_endPublicDataTreeRoot output)) else Inr ())))"

definition validateTrees :: "rollup_output \<Rightarrow> 'db merkle_trees \<Rightarrow> unit result" where
  "validateTrees rollupOutput w =
     rbind (validateTree rollupOutput CONTRACT_TREE ContractName w) (\<lambda>_.
     rbind (validateTree rollupOutput PRIVATE_DATA_TREE PrivateDataName w) (\<lambda>_.
     rbind (validateTree rollupOutput NULLIFIER_TREE NullifierName w) (\<lambda>_.
       validatePublicDataTreeRoot rollupOutput w)))"

definition validateRootOutput :: "root_rollup_public_inputs \<Rightarrow> 'db merkle_trees \<Rightarrow> unit result" where
  "validateRootOutput rootOutput w =
     rbind (validateTrees (RootOutput rootOutput) w) (\<lambda>_.
     rbind (validateRootTree rootOutput CONTRACT_TREE_ROOTS_TREE ContractName w) (\<lambda>_.
     rbind (validateRootTree rootOutput PRIVATE_DATA_TREE_ROOTS_TREE PrivateDataName w) (\<lambda>_.
     rbind (validateRootTree rootOutput L1_TO_L2_MESSAGES_ROOTS_TREE L1ToL2MessageName w) (\<lambda>_.
       validateTree (RootOutput rootOutput) L1_TO_L2_MESSAGES_TREE L1ToL2MessageName w))))"

section \<open>Inputs of the circuits\<close>

definition makeEmptyMembershipWitness :: "nat \<Rightarrow> membership_witness result" where
  "makeEmptyMembershipWitness height = new_MembershipWitness height 0 (makeTuple height (\<lambda>_. Fr_ZERO) 0)"

definition getMembershipWitnessFor :: "'db tree_env \<Rightarrow> fr \<Rightarrow> MerkleTreeId \<Rightarrow> nat \<Rightarrow> 'db merkle_trees \<Rightarrow> membership_witness result" where
  "getMembershipWitnessFor env v treeId height w =
     (if Fr_isZero v then makeEmptyMembershipWitness height
      else rbind (Fr_toBuffer v) (\<lambda>b. rbind (Facade_findLeafIndex env asLatest treeId b w) (\<lambda>found.
        case found of
          None \<Rightarrow> Inl (Error (''Leaf with value '' @ Fr_toString False v @ '' not found in tree '' @ treeName treeId))
        | Some index \<Rightarrow>
            rbind (Facade_getSiblingPath env asLatest treeId index w) (\<lambda>path.
            rbind (rbind (SiblingPath_toFieldArray path) (\<lambda>fs. assertLength fs height)) (\<lambda>fs. new_MembershipWitness height index fs)))))"

definition tx_historic_roots :: "processed_tx \<Rightarrow> private_historic_tree_roots" where
  "tx_historic_roots t = cht_privateHistoricTreeRoots (ccd_historicTreeRoots (kpi_constants (ptx_data t)))"

definition getContractMembershipWitnessFor :: "'db tree_env \<Rightarrow> processed_tx \<Rightarrow> 'db merkle_trees \<Rightarrow> membership_witness result" where
  "getContractMembershipWitnessFor env t =
     getMembershipWitnessFor env (pht_contractTreeRoot (tx_historic_roots t)) CONTRACT_TREE_ROOTS_TREE CONTRACT_TREE_ROOTS_TREE_HEIGHT"

definition getDataMembershipWitnessFor :: "'db tree_env \<Rightarrow> processed_tx \<Rightarrow> 'db merkle_trees \<Rightarrow> membership_witness result" where
  "getDataMembershipWitnessFor env t =
     getMembershipWitnessFor env (pht_privateDataTreeRoot (tx_historic_roots t)) PRIVATE_DATA_TREE_ROOTS_TREE PRIVATE_DATA_TREE_ROOTS_TREE_HEIGHT"

definition getL1ToL2MessageMembershipWitnessFor :: "'db tree_env \<Rightarrow> processed_tx \<Rightarrow> 'db merkle_trees \<Rightarrow> membership_witness result" where
  "getL1ToL2MessageMembershipWitnessFor env t =
     getMembershipWitnessFor env (pht_l1ToL2MessagesTreeRoot (tx_historic_roots t)) L1_TO_L2_MESSAGES_ROOTS_TREE L1_TO_L2_MESSAGES_ROOTS_TREE_HEIGHT"

definition getConstantBaseRollupData :: "'db merkle_trees \<Rightarrow> constant_base_rollup_data result" where
  "getConstantBaseRollupData w =
     rbind (getTreeSnapshot CONTRACT_TREE_ROOTS_TREE w) (\<lambda>c.
     rbind (getTreeSnapshot PRIVATE_DATA_TREE_ROOTS_TREE w) (\<lambda>p.
     rbind (getTreeSnapshot L1_TO_L2_MESSAGES_ROOTS_TREE w) (\<lambda>m.
       Inr \<lparr>cbr_startTreeOfHistoricPrivateDataTreeRootsSnapshot = p, cbr_startTreeOfHistoricContractTreeRootsSnapshot = c,
         cbr_startTreeOfHistoricL1ToL2MsgTreeRootsSnapshot = m, cbr_privateKernelVkTreeRoot = FUTURE_FR,
         cbr_publicKernelVkTreeRoot = FUTURE_FR, cbr_baseRollupVkHash = DELETE_FR, cbr_mergeRollupVkHash = DELETE_FR\<rparr>)))"

text \<open>The member \<open>index\<close> of a low nullifier is a number for an empty nullifier and the result of the search otherwise.\<close>

datatype low_index = EmptyIndex int | SearchedIndex int bool

record low_nullifier_info =
  lni_index :: low_index
  lni_leafPreimage :: nullifier_leaf_preimage
  lni_witness :: membership_witness

definition getLowNullifierInfo :: "'db tree_env \<Rightarrow> fr \<Rightarrow> 'db merkle_trees \<Rightarrow> low_nullifier_info result" where
  "getLowNullifierInfo env nullifier w =
     (if fr_value nullifier = 0
      then rbind (makeEmptyMembershipWitness NULLIFIER_TREE_HEIGHT) (\<lambda>wit.
        Inr \<lparr>lni_index = EmptyIndex 0, lni_leafPreimage = NullifierLeafPreimage_empty, lni_witness = wit\<rparr>)
      else
        rbind (Fr_toBuffer nullifier) (\<lambda>b.
        rbind (Facade_getPreviousValueIndex asLatest NULLIFIER_TREE (toBigIntBE b) w) (\<lambda>(index, present).
        rbind (Facade_getLeafData asLatest NULLIFIER_TREE index w) (\<lambda>info.
          case info of
            None \<Rightarrow> Inl (Error ''Nullifier tree should have one initial leaf'')
          | Some d \<Rightarrow>
              rbind (Facade_getSiblingPath env asLatest NULLIFIER_TREE index w) (\<lambda>path.
              rbind (rbind (SiblingPath_toFieldArray path) (\<lambda>fs. assertLength fs NULLIFIER_TREE_HEIGHT)) (\<lambda>fs.
              rbind (new_MembershipWitness NULLIFIER_TREE_HEIGHT index fs) (\<lambda>wit.
                Inr \<lparr>lni_index = SearchedIndex index present,
                  lni_leafPreimage = \<lparr>nlp_leafValue = new_Fr (ld_value d), nlp_nextValue = new_Fr (nextValue d), nlp_nextIndex = js_Number (nextIndex d)\<rparr>,
                  lni_witness = wit\<rparr>)))))))"

definition builder_getSubtreeSiblingPath :: "'db tree_env \<Rightarrow> MerkleTreeId \<Rightarrow> nat \<Rightarrow> 'db merkle_trees \<Rightarrow> fr list result" where
  "builder_getSubtreeSiblingPath env treeId subtreeHeight w =
     rbind (Facade_getSiblingPath env asLatest treeId (ti_size (Facade_getTreeInfo asLatest treeId w)) w) (\<lambda>fullSiblingPath.
     rbind (SiblingPath_getSubtreeSiblingPath fullSiblingPath subtreeHeight) SiblingPath_toFieldArray)"

definition public_data_path :: "'db tree_env \<Rightarrow> int \<Rightarrow> 'db merkle_trees \<Rightarrow> fr list result" where
  "public_data_path env index w = rbind (Facade_getSiblingPath env asLatest PUBLIC_DATA_TREE index w) SiblingPath_toFieldArray"

fun process_update_requests :: "'db tree_env \<Rightarrow> public_data_update_request list \<Rightarrow> ('db merkle_trees, fr list list) js" where
  "process_update_requests env [] = jreturn []"
| "process_update_requests env (r # rs) =
     jbind (jgets (Facade_getSiblingPath env asLatest PUBLIC_DATA_TREE (fr_value (pdu_leafIndex r)))) (\<lambda>path.
     jbind (jlift (Fr_toBuffer (pdu_newValue r))) (\<lambda>b.
     jbind (Facade_updateLeaf env asLatest PUBLIC_DATA_TREE (LeafBuffer b) (fr_value (pdu_leafIndex r))) (\<lambda>_.
     jbind (jlift (SiblingPath_toFieldArray path)) (\<lambda>p.
     jbind (process_update_requests env rs) (\<lambda>ps. jreturn (p # ps))))))"

definition processPublicDataUpdateRequests :: "'db tree_env \<Rightarrow> processed_tx \<Rightarrow> ('db merkle_trees, fr list list) js" where
  "processPublicDataUpdateRequests env t = process_update_requests env (cad_publicDataUpdateRequests (kpi_end (ptx_data t)))"

definition getPublicDataReadsSiblingPaths :: "'db tree_env \<Rightarrow> processed_tx \<Rightarrow> 'db merkle_trees \<Rightarrow> fr list list result" where
  "getPublicDataReadsSiblingPaths env t w =
     rtraverse (\<lambda>r. public_data_path env (fr_value (pdr_leafIndex r)) w) (cad_publicDataReads (kpi_end (ptx_data t)))"

definition getKernelDataFor :: "verification_keys \<Rightarrow> processed_tx \<Rightarrow> previous_kernel_data result" where
  "getKernelDataFor vks t =
     rbind (assertLength (replicate VK_TREE_HEIGHT FUTURE_FR) VK_TREE_HEIGHT) (\<lambda>path.
       new_PreviousKernelData \<lparr>pkd_publicInputs = ptx_data t, pkd_proof = ptx_proof t, pkd_vk = privateKernelCircuit vks,
         pkd_vkIndex = FUTURE_NUM, pkd_vkPath = path\<rparr>)"

definition getPreviousRollupDataFromPublicInputs ::
  "rollup_public_inputs \<Rightarrow> proof_data \<Rightarrow> verification_key \<Rightarrow> previous_rollup_data result" where
  "getPreviousRollupDataFromPublicInputs rollupOutput rollupProof vk =
     rbind (new_MembershipWitness ROLLUP_VK_TREE_HEIGHT FUTURE_NUM (makeTuple ROLLUP_VK_TREE_HEIGHT (\<lambda>_. FUTURE_FR) 0)) (\<lambda>wit.
       Inr \<lparr>prd_publicInputs = rollupOutput, prd_proof = rollupProof, prd_vk = vk, prd_vkIndex = FUTURE_NUM, prd_vkSiblingPath = wit\<rparr>)"

definition getVerificationKey :: "verification_keys \<Rightarrow> int \<Rightarrow> verification_key result" where
  "getVerificationKey vks type =
     (if type = RollupTypes_Base then Inr (baseRollupCircuit_vk vks)
      else if type = RollupTypes_Merge then Inr (mergeRollupCircuit_vk vks)
      else Inl (Error (''No verification key available for '' @ dec type)))"

section \<open>The base rollup\<close>

definition tx_contract_leaves :: "'db block_builder \<Rightarrow> processed_tx list \<Rightarrow> fr list result" where
  "tx_contract_leaves B txs = rtraverse (computeContractLeaf B) (concat (map (\<lambda>t. cad_newContracts (kpi_end (ptx_data t))) txs))"

definition tx_commitments :: "processed_tx list \<Rightarrow> fr list" where
  "tx_commitments txs = concat (map (\<lambda>t. cad_newCommitments (kpi_end (ptx_data t))) txs)"

definition tx_nullifiers :: "processed_tx list \<Rightarrow> fr list" where
  "tx_nullifiers txs = concat (map (\<lambda>t. cad_newNullifiers (kpi_end (ptx_data t))) txs)"

definition low_leaf_preimage :: "low_leaf_witness \<Rightarrow> nullifier_leaf_preimage" where
  "low_leaf_preimage l = \<lparr>nlp_leafValue = new_Fr (ld_value (leafData l)), nlp_nextValue = new_Fr (nextValue (leafData l)),
     nlp_nextIndex = js_Number (nextIndex (leafData l))\<rparr>"

definition low_leaf_membership :: "low_leaf_witness \<Rightarrow> membership_witness result" where
  "low_leaf_membership l =
     rbind (assertLength (SiblingPath_toBufferArray (siblingPath l)) NULLIFIER_TREE_HEIGHT) (MembershipWitness_fromBufferArray (wit_index l))"

text \<open>The two halves of \<open>buildBaseRollupInput\<close>: the reads and writes of the trees, and the object made of what they gave.\<close>

record base_rollup_parts =
  brp_constants :: constant_base_rollup_data
  brp_nullifierSnapshot :: append_only_tree_snapshot
  brp_contractSnapshot :: append_only_tree_snapshot
  brp_privateDataSnapshot :: append_only_tree_snapshot
  brp_publicDataSnapshot :: append_only_tree_snapshot
  brp_commitmentsPath :: "fr list"
  brp_contractsPath :: "fr list"
  brp_updatePaths :: "fr list list"
  brp_readPaths :: "fr list list"
  brp_nullifierWitnesses :: "low_leaf_witness list"
  brp_nullifiersPath :: sibling_path

definition base_rollup_tree_updates :: "'db block_builder \<Rightarrow> processed_tx \<Rightarrow> processed_tx \<Rightarrow> ('db merkle_trees, base_rollup_parts) js" where
  "base_rollup_tree_updates B left right =
     (let env = bb_trees B in
      jbind (jgets getConstantBaseRollupData) (\<lambda>constants.
      jbind (jgets (getTreeSnapshot NULLIFIER_TREE)) (\<lambda>startNullifierTreeSnapshot.
      jbind (jgets (getTreeSnapshot CONTRACT_TREE)) (\<lambda>startContractTreeSnapshot.
      jbind (jgets (getTreeSnapshot PRIVATE_DATA_TREE)) (\<lambda>startPrivateDataTreeSnapshot.
      jbind (jgets (getTreeSnapshot PUBLIC_DATA_TREE)) (\<lambda>startPublicDataTreeSnapshot.
      jbind (jgets (builder_getSubtreeSiblingPath env PRIVATE_DATA_TREE PRIVATE_DATA_SUBTREE_HEIGHT)) (\<lambda>newCommitmentsSubtreeSiblingPath.
      jbind (jgets (builder_getSubtreeSiblingPath env CONTRACT_TREE CONTRACT_SUBTREE_HEIGHT)) (\<lambda>newContractsSubtreeSiblingPath.
      jbind (jlift (tx_contract_leaves B [left, right])) (\<lambda>newContracts.
      jbind (jlift (rtraverse Fr_toBuffer (tx_commitments [left, right]))) (\<lambda>newCommitments.
      jbind (jlift (rtraverse Fr_toBuffer newContracts)) (\<lambda>contractBuffers.
      jbind (Facade_appendLeaves env asLatest CONTRACT_TREE contractBuffers) (\<lambda>_.
      jbind (Facade_appendLeaves env asLatest PRIVATE_DATA_TREE newCommitments) (\<lambda>_.
      jbind (jgets (getPublicDataReadsSiblingPaths env left)) (\<lambda>leftReads.
      jbind (processPublicDataUpdateRequests env left) (\<lambda>leftUpdates.
      jbind (jgets (getPublicDataReadsSiblingPaths env right)) (\<lambda>rightReads.
      jbind (processPublicDataUpdateRequests env right) (\<lambda>rightUpdates.
      jbind (jlift (rtraverse Fr_toBuffer (tx_nullifiers [left, right]))) (\<lambda>newNullifiers.
      jbind (Facade_batchInsert env asLatest NULLIFIER_TREE newNullifiers NULLIFIER_TREE_HEIGHT NULLIFIER_SUBTREE_HEIGHT) (\<lambda>(nullifierWitnessLeaves, path).
        case nullifierWitnessLeaves of
          None \<Rightarrow> jthrow (Error ''Could not craft nullifier batch insertion proofs'')
        | Some ws \<Rightarrow> jreturn
            \<lparr>brp_constants = constants, brp_nullifierSnapshot = startNullifierTreeSnapshot, brp_contractSnapshot = startContractTreeSnapshot,
             brp_privateDataSnapshot = startPrivateDataTreeSnapshot, brp_publicDataSnapshot = startPublicDataTreeSnapshot,
             brp_commitmentsPath = newCommitmentsSubtreeSiblingPath, brp_contractsPath = newContractsSubtreeSiblingPath,
             brp_updatePaths = leftUpdates @ rightUpdates, brp_readPaths = leftReads @ rightReads,
             brp_nullifierWitnesses = ws, brp_nullifiersPath = path\<rparr>)))))))))))))))))))"

definition base_rollup_input_of :: "'db block_builder \<Rightarrow> processed_tx \<Rightarrow> processed_tx \<Rightarrow> base_rollup_parts \<Rightarrow> 'db merkle_trees \<Rightarrow> base_rollup_inputs result" where
  "base_rollup_input_of B left right p w =
     (let env = bb_trees B in
      rbind (rtraverse low_leaf_membership (brp_nullifierWitnesses p)) (\<lambda>lowNullifierMembershipWitnesses.
      rbind (SiblingPath_toFieldArray (brp_nullifiersPath p)) (\<lambda>nullifiersPath.
      rbind (rtraverse (getKernelDataFor (bb_vks B)) [left, right]) (\<lambda>kernelData.
      rbind (rtraverse (\<lambda>t. getContractMembershipWitnessFor env t w) [left, right]) (\<lambda>contractWitnesses.
      rbind (rtraverse (\<lambda>t. getDataMembershipWitnessFor env t w) [left, right]) (\<lambda>dataWitnesses.
      rbind (rtraverse (\<lambda>t. getL1ToL2MessageMembershipWitnessFor env t w) [left, right]) (\<lambda>messageWitnesses.
        new_BaseRollupInputs
          \<lparr>bri_kernelData = kernelData, bri_startPrivateDataTreeSnapshot = brp_privateDataSnapshot p,
           bri_startNullifierTreeSnapshot = brp_nullifierSnapshot p, bri_startContractTreeSnapshot = brp_contractSnapshot p,
           bri_startPublicDataTreeRoot = snap_root (brp_publicDataSnapshot p),
           bri_lowNullifierLeafPreimages = map low_leaf_preimage (brp_nullifierWitnesses p),
           bri_lowNullifierMembershipWitness = lowNullifierMembershipWitnesses,
           bri_newCommitmentsSubtreeSiblingPath = brp_commitmentsPath p, bri_newNullifiersSubtreeSiblingPath = nullifiersPath,
           bri_newContractsSubtreeSiblingPath = brp_contractsPath p, bri_newPublicDataUpdateRequestsSiblingPaths = brp_updatePaths p,
           bri_newPublicDataReadsSiblingPaths = brp_readPaths p, bri_historicPrivateDataTreeRootMembershipWitnesses = dataWitnesses,
           bri_historicContractsTreeRootMembershipWitnesses = contractWitnesses,
           bri_historicL1ToL2MsgTreeRootMembershipWitnesses = messageWitnesses, bri_constants = brp_constants p\<rparr>)))))))"

definition buildBaseRollupInput :: "'db block_builder \<Rightarrow> processed_tx \<Rightarrow> processed_tx \<Rightarrow> ('db merkle_trees, base_rollup_inputs) js" where
  "buildBaseRollupInput B left right =
     jbind (base_rollup_tree_updates B left right) (\<lambda>p. jgets (base_rollup_input_of B left right p))"

definition baseRollupCircuit ::
  "'db block_builder \<Rightarrow> processed_tx \<Rightarrow> processed_tx \<Rightarrow> ('db merkle_trees, rollup_public_inputs \<times> proof_data) js" where
  "baseRollupCircuit B tx1 tx2 =
     jbind (buildBaseRollupInput B tx1 tx2) (\<lambda>rollupInput.
     jbind (jlift (simulateBaseRollup B rollupInput)) (\<lambda>rollupOutput.
     jbind (jgets (validateTrees (BaseOrMergeOutput rollupOutput))) (\<lambda>_.
     jbind (jlift (getBaseRollupProof rollupInput rollupOutput)) (\<lambda>(proof, rollupOutput). jreturn (rollupOutput, proof)))))"

section \<open>Merging\<close>

definition mergeRollupCircuit ::
  "'db block_builder \<Rightarrow> rollup_public_inputs \<times> proof_data \<Rightarrow> rollup_public_inputs \<times> proof_data \<Rightarrow> (rollup_public_inputs \<times> proof_data) result" where
  "mergeRollupCircuit B left right =
     rbind (getVerificationKey (bb_vks B) (rpi_rollupType (fst left))) (\<lambda>vk.
     rbind (getPreviousRollupDataFromPublicInputs (fst left) (snd left) vk) (\<lambda>l.
     rbind (getPreviousRollupDataFromPublicInputs (fst right) (snd right) vk) (\<lambda>r.
     let mergeInputs = \<lparr>mri_previousRollupData = [l, r]\<rparr> in
     rbind (simulateMergeRollup B mergeInputs) (\<lambda>output.
     rbind (getMergeRollupProof mergeInputs output) (\<lambda>(proof, output). Inr (output, proof))))))"

text \<open>A loop over \<open>chunk(xs, 2)\<close>; the second member of an incomplete pair is \<open>undefined\<close>, and its use throws.\<close>

fun for_pairs :: "('a \<Rightarrow> 'a \<Rightarrow> ('s, 'b) js) \<Rightarrow> 'a list \<Rightarrow> ('s, 'b list) js" where
  "for_pairs f [] = jreturn []"
| "for_pairs f [x] = jthrow TypeError"
| "for_pairs f (x # y # xs) = jbind (f x y) (\<lambda>b. jbind (for_pairs f xs) (\<lambda>bs. jreturn (b # bs)))"

fun map_pairs :: "('a \<Rightarrow> 'a \<Rightarrow> 'b result) \<Rightarrow> 'a list \<Rightarrow> 'b list result" where
  "map_pairs f [] = Inr []"
| "map_pairs f [x] = Inl TypeError"
| "map_pairs f (x # y # xs) = rbind (f x y) (\<lambda>b. rbind (map_pairs f xs) (\<lambda>bs. Inr (b # bs)))"

lemma map_pairs_length: "map_pairs f xs = Inr ys \<Longrightarrow> length xs = 2 * length ys"
  by (induction f xs arbitrary: ys rule: map_pairs.induct) (auto simp: rbind_eq_Inr)

text \<open>The layers of merge rollups, until two outputs are left.\<close>

function merge_layers ::
  "'db block_builder \<Rightarrow> (rollup_public_inputs \<times> proof_data) list \<Rightarrow> (rollup_public_inputs \<times> proof_data) list result" where
  "merge_layers B mergeRollupInputs =
     (if length mergeRollupInputs > 2
      then (case map_pairs (mergeRollupCircuit B) mergeRollupInputs of
          Inl e \<Rightarrow> Inl e
        | Inr mergeRollupOutputs \<Rightarrow> merge_layers B mergeRollupOutputs)
      else Inr mergeRollupInputs)"
  by pat_completeness auto
termination by (relation "measure (\<lambda>(B, xs). length xs)") (use map_pairs_length in fastforce)+

declare merge_layers.simps [simp del]

section \<open>The root rollup\<close>

definition getRootTreeSiblingPath :: "'db tree_env \<Rightarrow> MerkleTreeId \<Rightarrow> 'db merkle_trees \<Rightarrow> fr list result" where
  "getRootTreeSiblingPath env treeId w =
     rbind (Facade_getSiblingPath env asLatest treeId (ti_size (Facade_getTreeInfo asLatest treeId w)) w) SiblingPath_toFieldArray"

definition getRootRollupInput ::
  "'db block_builder \<Rightarrow> rollup_public_inputs \<times> proof_data \<Rightarrow> rollup_public_inputs \<times> proof_data \<Rightarrow> fr list \<Rightarrow> 'db merkle_trees \<Rightarrow> root_rollup_inputs result" where
  "getRootRollupInput B left right newMessages w =
     (let env = bb_trees B in
      rbind (getVerificationKey (bb_vks B) (rpi_rollupType (fst left))) (\<lambda>vk.
      rbind (getPreviousRollupDataFromPublicInputs (fst left) (snd left) vk) (\<lambda>l.
      rbind (getPreviousRollupDataFromPublicInputs (fst right) (snd right) vk) (\<lambda>r.
      rbind (getRootTreeSiblingPath env CONTRACT_TREE_ROOTS_TREE w) (\<lambda>contractPath.
      rbind (getRootTreeSiblingPath env PRIVATE_DATA_TREE_ROOTS_TREE w) (\<lambda>privatePath.
      rbind (getRootTreeSiblingPath env L1_TO_L2_MESSAGES_ROOTS_TREE w) (\<lambda>messagePath.
      rbind (builder_getSubtreeSiblingPath env L1_TO_L2_MESSAGES_TREE L1_TO_L2_MESSAGES_SUBTREE_HEIGHT w) (\<lambda>subtreePath.
      rbind (getTreeSnapshot L1_TO_L2_MESSAGES_TREE w) (\<lambda>messageSnapshot.
      rbind (getTreeSnapshot L1_TO_L2_MESSAGES_ROOTS_TREE w) (\<lambda>rootsSnapshot.
        new_RootRollupInputs
          \<lparr>rri_previousRollupData = [l, r], rri_newHistoricPrivateDataTreeRootSiblingPath = privatePath,
           rri_newHistoricContractDataTreeRootSiblingPath = contractPath, rri_newL1ToL2Messages = newMessages,
           rri_newL1ToL2MessageTreeRootSiblingPath = subtreePath, rri_newHistoricL1ToL2MessageTreeRootSiblingPath = messagePath,
           rri_startL1ToL2MessageTreeSnapshot = messageSnapshot,
           rri_startHistoricTreeL1ToL2MessageTreeRootsSnapshot = rootsSnapshot\<rparr>))))))))))"

definition rootRollupCircuit ::
  "'db block_builder \<Rightarrow> rollup_public_inputs \<times> proof_data \<Rightarrow> rollup_public_inputs \<times> proof_data \<Rightarrow> fr list \<Rightarrow>
   ('db merkle_trees, root_rollup_public_inputs \<times> proof_data) js" where
  "rootRollupCircuit B left right newMessages =
     jbind (jgets (getRootRollupInput B left right newMessages)) (\<lambda>rootInput.
     jbind (jlift (rtraverse Fr_toBuffer newMessages)) (\<lambda>buffers.
     jbind (Facade_appendLeaves (bb_trees B) asLatest L1_TO_L2_MESSAGES_TREE buffers) (\<lambda>_.
     jbind (jlift (simulateRootRollup B rootInput)) (\<lambda>rootOutput.
     jbind (jlift (getRootRollupProof rootInput rootOutput)) (\<lambda>(rootProof, rootOutput).
     jbind (Facade_updateHistoricRootsTrees (bb_trees B) asLatest) (\<lambda>_.
     jbind (jgets (validateRootOutput rootOutput)) (\<lambda>_. jreturn (rootOutput, rootProof))))))))"

section \<open>The block\<close>

definition power_of_two_error :: "nat \<Rightarrow> js_error" where
  "power_of_two_error n =
     Error (''Length of txs for the block should be a power of two and at least four (got '' @ dec (int n) @ '')'')"

definition runCircuits ::
  "'db block_builder \<Rightarrow> processed_tx list \<Rightarrow> fr list \<Rightarrow> ('db merkle_trees, root_rollup_public_inputs \<times> proof_data) js" where
  "runCircuits B txs newMessages =
     (if length txs < 4 \<or> and (length txs) (length txs - 1) \<noteq> 0 then jthrow (power_of_two_error (length txs))
      else
        jbind (jlift (padArrayEnd newMessages Fr_ZERO NUMBER_OF_L1_L2_MESSAGES_PER_ROLLUP)) (\<lambda>messages.
        jbind (for_pairs (baseRollupCircuit B) txs) (\<lambda>baseRollupOutputs.
        jbind (jlift (merge_layers B baseRollupOutputs)) (\<lambda>mergeRollupInputs.
          case mergeRollupInputs of
            [mergeOutputLeft, mergeOutputRight] \<Rightarrow> rootRollupCircuit B mergeOutputLeft mergeOutputRight messages
          | _ \<Rightarrow> jthrow TypeError))))"

text \<open>The data that a block takes from its transactions.\<close>

definition tx_contract_data :: "processed_tx list \<Rightarrow> contract_data list" where
  "tx_contract_data txs = map (\<lambda>n. \<lparr>contractAddress = ncd_contractAddress n, portalContractAddress = ncd_portalContractAddress n\<rparr>)
     (concat (map (\<lambda>t. cad_newContracts (kpi_end (ptx_data t))) txs))"

definition tx_public_data_writes :: "processed_tx list \<Rightarrow> public_data_write list" where
  "tx_public_data_writes txs = concat (map (\<lambda>t. map (\<lambda>u. \<lparr>leafIndex = pdu_leafIndex u, newValue = pdu_newValue u\<rparr>)
     (cad_publicDataUpdateRequests (kpi_end (ptx_data t)))) txs)"

definition tx_l2_to_l1_msgs :: "processed_tx list \<Rightarrow> fr list" where
  "tx_l2_to_l1_msgs txs = concat (map (\<lambda>t. cad_newL2ToL1Msgs (kpi_end (ptx_data t))) txs)"

definition tx_logs :: "processed_tx list \<Rightarrow> l2_block_l2_logs" where
  "tx_logs txs = \<lparr>txLogs = concat (map (\<lambda>t. case ptx_encryptedLogs t of None \<Rightarrow> [] | Some l \<Rightarrow> [l]) txs)\<rparr>"

text \<open>The call of \<open>L2Block.fromFields\<close>: the snapshots before, the output of the root rollup, and the data of the transactions.\<close>

record start_snapshots =
  ss_private :: append_only_tree_snapshot
  ss_nullifier :: append_only_tree_snapshot
  ss_contract :: append_only_tree_snapshot
  ss_public :: append_only_tree_snapshot
  ss_privateRoots :: append_only_tree_snapshot
  ss_contractRoots :: append_only_tree_snapshot
  ss_messages :: append_only_tree_snapshot
  ss_messageRoots :: append_only_tree_snapshot

definition getStartSnapshots :: "'db merkle_trees \<Rightarrow> start_snapshots result" where
  "getStartSnapshots w =
     rbind (getTreeSnapshot PRIVATE_DATA_TREE w) (\<lambda>sPrivate.
     rbind (getTreeSnapshot NULLIFIER_TREE w) (\<lambda>sNullifier.
     rbind (getTreeSnapshot CONTRACT_TREE w) (\<lambda>sContract.
     rbind (getTreeSnapshot PUBLIC_DATA_TREE w) (\<lambda>sPublic.
     rbind (getTreeSnapshot PRIVATE_DATA_TREE_ROOTS_TREE w) (\<lambda>sPrivateRoots.
     rbind (getTreeSnapshot CONTRACT_TREE_ROOTS_TREE w) (\<lambda>sContractRoots.
     rbind (getTreeSnapshot L1_TO_L2_MESSAGES_TREE w) (\<lambda>sMessages.
     rbind (getTreeSnapshot L1_TO_L2_MESSAGES_ROOTS_TREE w) (\<lambda>sMessageRoots.
       Inr \<lparr>ss_private = sPrivate, ss_nullifier = sNullifier, ss_contract = sContract, ss_public = sPublic, ss_privateRoots = sPrivateRoots,
         ss_contractRoots = sContractRoots, ss_messages = sMessages, ss_messageRoots = sMessageRoots\<rparr>))))))))"

definition assemble_block ::
  "int \<Rightarrow> start_snapshots \<Rightarrow> root_rollup_public_inputs \<Rightarrow> processed_tx list \<Rightarrow> fr list \<Rightarrow> fr list \<Rightarrow> l2_block" where
  "assemble_block blockNumber s circuitsOutput txs contracts newMessages = L2Block_fromFields
     \<lparr>blk_number = blockNumber, startPrivateDataTreeSnapshot = ss_private s, startNullifierTreeSnapshot = ss_nullifier s,
      startContractTreeSnapshot = ss_contract s, startTreeOfHistoricPrivateDataTreeRootsSnapshot = ss_privateRoots s,
      startTreeOfHistoricContractTreeRootsSnapshot = ss_contractRoots s, startPublicDataTreeRoot = snap_root (ss_public s),
      startL1ToL2MessageTreeSnapshot = ss_messages s, startTreeOfHistoricL1ToL2MessageTreeRootsSnapshot = ss_messageRoots s,
      endPrivateDataTreeSnapshot = rrp_endPrivateDataTreeSnapshot circuitsOutput,
      endNullifierTreeSnapshot = rrp_endNullifierTreeSnapshot circuitsOutput,
      endContractTreeSnapshot = rrp_endContractTreeSnapshot circuitsOutput,
      endTreeOfHistoricPrivateDataTreeRootsSnapshot = rrp_endTreeOfHistoricPrivateDataTreeRootsSnapshot circuitsOutput,
      endTreeOfHistoricContractTreeRootsSnapshot = rrp_endTreeOfHistoricContractTreeRootsSnapshot circuitsOutput,
      endPublicDataTreeRoot = rrp_endPublicDataTreeRoot circuitsOutput,
      endL1ToL2MessageTreeSnapshot = rrp_endL1ToL2MessageTreeSnapshot circuitsOutput,
      endTreeOfHistoricL1ToL2MessageTreeRootsSnapshot = rrp_endTreeOfHistoricL1ToL2MessageTreeRootsSnapshot circuitsOutput,
      newCommitments = tx_commitments txs, newNullifiers = tx_nullifiers txs, newPublicDataWrites = tx_public_data_writes txs,
      newL2ToL1Msgs = tx_l2_to_l1_msgs txs, newContracts = contracts, newContractData = tx_contract_data txs,
      newL1ToL2Messages = newMessages, newEncryptedLogs = Some (tx_logs txs)\<rparr>"

definition check_calldata_hash :: "(buffer \<Rightarrow> buffer) \<Rightarrow> l2_block \<Rightarrow> root_rollup_public_inputs \<Rightarrow> unit result" where
  "check_calldata_hash sha256 l2Block circuitsOutput =
     rbind (L2Block_getCalldataHash sha256 l2Block) (\<lambda>blockHash.
     rbind (RootRollupPublicInputs_sha256CalldataHash circuitsOutput) (\<lambda>circuitHash.
       case blockHash of
         None \<Rightarrow> Inl TypeError
       | Some h \<Rightarrow>
           if h \<noteq> circuitHash
           then Inl (Error (''Calldata hash mismatch, '' @ buf_to_hex h @ '' == '' @ buf_to_hex circuitHash @ '' ''))
           else Inr ()))"

definition buildL2Block ::
  "'db block_builder \<Rightarrow> int \<Rightarrow> processed_tx list \<Rightarrow> fr list \<Rightarrow> ('db merkle_trees, l2_block \<times> proof_data) js" where
  "buildL2Block B blockNumber txs newMessages =
     jbind (jgets getStartSnapshots) (\<lambda>snapshots.
     jbind (jlift (validateTxs txs)) (\<lambda>_.
     jbind (runCircuits B txs newMessages) (\<lambda>(circuitsOutput, proof).
     jbind (jlift (tx_contract_leaves B txs)) (\<lambda>contracts.
     let l2Block = assemble_block blockNumber snapshots circuitsOutput txs contracts newMessages in
     jbind (jlift (check_calldata_hash (bb_sha256 B) l2Block circuitsOutput)) (\<lambda>_.
       jreturn (l2Block, proof))))))"

end
