(* ===== verification/BlockBuilderProofs.thy ===== *)
theory BlockBuilderProofs
  imports SoloBlockBuilder WorldStateSync
begin

text \<open>
  What a successful run of the block builder does to the trees: lemmas on the steps of \<open>buildL2Block\<close>. Nothing is assumed of the simulation of the
  circuits, whose outputs the builder checks against its trees.
\<close>

section \<open>Successful steps\<close>

lemma jgets_Inr [simp]: "jgets f s = (Inr x, s') \<longleftrightarrow> f s = Inr x \<and> s' = s"
  by (cases "f s") (auto simp: jgets_def jbind_def jlift_def jget_def)

lemma jlift_Inr [simp]: "jlift r s = (Inr x, s') \<longleftrightarrow> r = Inr x \<and> s' = s"
  by (cases r) (auto simp: jlift_def)

lemma jthrow_Inr [simp]: "jthrow e s \<noteq> (Inr x, s')"
  by (simp add: jthrow_def)

lemma jreturn_Inr [simp]: "jreturn y s = (Inr x, s') \<longleftrightarrow> y = x \<and> s' = s"
  by (auto simp: jreturn_def)

lemma append_success:
  assumes inv: "world_inv env w" and i: "i \<noteq> NULLIFIER_TREE" "i \<noteq> PUBLIC_DATA_TREE"
    and run: "MerkleTrees_appendLeaves env i ls w = (Inr (), w')"
  shows "pending_on env {i} w w' \<and> world_leaves env True w' i = standard_spec (treeHeight i) ls (world_leaves env True w i) \<and>
    snd (world_leaves env True w i) + int (length ls) \<le> 2 ^ treeHeight i"
proof -
  obtain t where t: "the_tree w i = Standard t" "standard_inv env (treeHeight i) t" using the_tree_class(1)[OF inv i] by blast
  have "snd (world_leaves env True w i) + int (length ls) \<le> 2 ^ treeHeight i"
  proof (rule ccontr)
    assume "\<not> ?thesis"
    then have "getNumLeaves t True + int (length ls) - 1 > maxIndex t"
      using t by (simp add: world_leaves_def leaf_view_def standard_inv_def tree_inv_def tree_wf_def)
    then have "fst (MerkleTrees_appendLeaves env i ls w) \<noteq> Inr ()"
      by (simp add: MerkleTrees_appendLeaves_def on_tree_def t lift_standard_def standard_append_error)
    then show False using run by simp
  qed
  then show ?thesis using append_standard_step[OF inv i, of ls] run by (auto simp: pending_step_on)
qed


section \<open>Nullifiers\<close>

text \<open>The nullifiers of transactions that may go into a block: those that are not zero are distinct and not in the tree.\<close>

definition fresh_nullifiers :: "int set \<Rightarrow> fr list \<Rightarrow> bool" where
  "fresh_nullifiers S xs \<longleftrightarrow> distinct (filter (\<lambda>v. v \<noteq> 0) (map fr_value xs)) \<and> (\<forall>x \<in> set xs. fr_value x \<noteq> 0 \<longrightarrow> fr_value x \<notin> S)"

lemma fresh_insertable:
  "\<forall>x \<in> set xs. fr_ok x \<Longrightarrow> fresh_nullifiers S xs \<Longrightarrow> insertable S (map fr_bytes xs)"
proof (induction xs arbitrary: S)
  case (Cons x xs)
  have "fresh_nullifiers S xs" using Cons.prems(2) by (auto simp: fresh_nullifiers_def split: if_splits)
  moreover have "fresh_nullifiers (insert (fr_value x) S) xs" if "fr_value x \<noteq> 0"
    using Cons.prems(2) that by (auto simp: fresh_nullifiers_def image_iff)
  ultimately show ?case using Cons.IH Cons.prems by (auto simp: fresh_nullifiers_def toBigIntBE_fr_bytes)
qed (simp add: fresh_nullifiers_def)

lemma fresh_append:
  assumes "fresh_nullifiers S (xs @ ys)"
  shows "fresh_nullifiers S xs" and "0 \<in> S \<Longrightarrow> fresh_nullifiers (fr_value ` set xs \<union> S) ys"
  using assms by (auto simp: fresh_nullifiers_def)

lemma batch_nullifiers_step:
  assumes inv: "world_inv env w" and new: "insertable (world_nullifiers env True w) ls"
    and room: "snd (world_leaves env True w NULLIFIER_TREE) + int (length ls) \<le> 2 ^ treeHeight NULLIFIER_TREE"
    and h: "subtreeHeight \<le> treeHeight NULLIFIER_TREE"
  shows "\<exists>w' ws path. MerkleTrees_batchInsert env NULLIFIER_TREE ls height subtreeHeight w = (Inr (Some ws, path), w') \<and>
    pending_on env {NULLIFIER_TREE} w w' \<and> length ws = length ls \<and>
    world_nullifiers env True w' = toBigIntBE ` set ls \<union> world_nullifiers env True w \<and>
    snd (world_leaves env True w' NULLIFIER_TREE) = snd (world_leaves env True w NULLIFIER_TREE) + int (length ls)"
proof -
  let ?i = NULLIFIER_TREE
  obtain t where t: "the_tree w ?i = Indexed t" "idx_inv env t" using the_tree_class(2)[OF inv] by blast
  have d: "tdepth (it_base t) = treeHeight ?i" using world_inv_ok[OF inv, of ?i] by (simp add: ws_ok_def t)
  have vals: "world_nullifiers env True x = idx_values y True" if "the_tree x ?i = Indexed y" for x y
    using that by (simp add: world_nullifiers_def world_view_def ws_view_def abs_values_def idx_values_def it_getNumLeaves_def)
  have num: "snd (world_leaves env True x ?i) = it_getNumLeaves y True" if "the_tree x ?i = Indexed y" for x y
    using that by (simp add: world_leaves_def leaf_view_def it_getNumLeaves_def)
  obtain t' ws path where t': "batchInsert env ls height subtreeHeight t = (Inr (Some ws, path), t')" "idx_base env t'"
    "idx_view_ok env True t'" "idx_frame env t t'" "it_getNumLeaves t' True = it_getNumLeaves t True + int (length ls)"
    "idx_values t' True = toBigIntBE ` set ls \<union> idx_values t True" "length ws = length ls"
    using batchInsert_ok[of env t ls subtreeHeight height] t(2) new room h unfolding vals[OF t(1)] num[OF t(1)] d idx_inv_def by metis
  have "idx_view_ok env False t'" using idx_frame_committed[OF t'(4)] t(2) by (simp add: idx_inv_def)
  then have inv': "idx_inv env t'" using t'(2,3) by (simp add: idx_inv_def all_bool_eq)
  have d': "tdepth (it_base t') = treeHeight ?i" using t'(4) d by (simp add: idx_frame_def)
  let ?m = "\<lambda>t. case t of Indexed it \<Rightarrow> lift_indexed (batchInsert env ls height subtreeHeight) it
     | _ \<Rightarrow> (Inl (Error ''Tree does not support `batchInsert` method''), t)"
  have m: "?m (the_tree w ?i) = (Inr (Some ws, path), Indexed t')" by (simp add: t t' lift_indexed_def)
  have pres: "preserves (ws_frame db name) ?m" for db name
    using preservesD[OF own.preserves_batchInsert[of db name env ls height subtreeHeight]] unfolding preserves_def
    by (fastforce simp: lift_indexed_def split: ws_tree.splits prod.splits)
  obtain w' where w': "on_tree ?i ?m w = (Inr (Some ws, path), w')" "world_inv env w'" "the_tree w' ?i = Indexed t'"
    "\<forall>j b. j \<noteq> ?i \<longrightarrow> world_view env b w' j = world_view env b w j"
    using on_tree_local[of env w ?m ?i, OF inv m _ _ pres] inv' d' by auto
  have "ws_view env False (Indexed t') = ws_view env False (Indexed t)"
    using t'(4) idx_frame_committed(2)[OF t'(4)] by (simp add: ws_view_def idx_frame_def it_getNumLeaves_def)
  then have "pending_on env {?i} w w'" using pending_stepI[OF w'(2,4)] t(1) w'(3) by (simp add: pending_step_on)
  then show ?thesis using w'(1) t'(5-7) by (auto simp: MerkleTrees_batchInsert_def vals[OF t(1)] vals[OF w'(3)] num[OF t(1)] num[OF w'(3)])
qed


section \<open>Public data\<close>

definition request_ok :: "public_data_update_request \<Rightarrow> bool" where
  "request_ok r \<longleftrightarrow> fr_ok (pdu_newValue r) \<and> in_level (treeHeight PUBLIC_DATA_TREE) (fr_value (pdu_leafIndex r))"

definition request_spec :: "public_data_update_request \<Rightarrow> (int \<Rightarrow> buffer) \<times> int \<Rightarrow> (int \<Rightarrow> buffer) \<times> int" where
  "request_spec r = sparse_spec (treeHeight PUBLIC_DATA_TREE) (fr_bytes (pdu_newValue r), fr_value (pdu_leafIndex r))"

lemma process_requests_step:
  assumes "world_inv env w" and "\<forall>r \<in> set rs. request_ok r" and "process_update_requests env rs w = (Inr ps, w')"
  shows "pending_on env {PUBLIC_DATA_TREE} w w' \<and>
    world_leaves env True w' PUBLIC_DATA_TREE = fold request_spec rs (world_leaves env True w PUBLIC_DATA_TREE)"
  using assms
proof (induction rs arbitrary: w ps)
  case Nil
  then show ?case by (simp add: pending_on_refl)
next
  case (Cons r rs)
  have ok: "fr_ok (pdu_newValue r)" "in_level (treeHeight PUBLIC_DATA_TREE) (fr_value (pdu_leafIndex r))"
    using Cons.prems(2) by (simp_all add: request_ok_def)
  obtain w1 where w1: "MerkleTrees_updateLeaf env PUBLIC_DATA_TREE (LeafBuffer (fr_bytes (pdu_newValue r))) (fr_value (pdu_leafIndex r)) w = (Inr (), w1)"
    "pending_on env {PUBLIC_DATA_TREE} w w1"
    "world_leaves env True w1 PUBLIC_DATA_TREE = request_spec r (world_leaves env True w PUBLIC_DATA_TREE)"
    using update_public_step[OF Cons.prems(1) ok(2)] by (auto simp: pending_step_on request_spec_def)
  obtain qs where "process_update_requests env rs w1 = (Inr qs, w')"
    using Cons.prems(3) w1(1) by (auto simp: jbind_eq_Inr Facade_updateLeaf_def Fr_toBuffer_fr_bytes[OF ok(1)])
  from Cons.IH[OF _ _ this] have "pending_on env {PUBLIC_DATA_TREE} w1 w'"
    "world_leaves env True w' PUBLIC_DATA_TREE = fold request_spec rs (world_leaves env True w1 PUBLIC_DATA_TREE)"
    using w1(2) Cons.prems(2) by (auto simp: pending_on_def)
  then show ?case using pending_on_trans[OF w1(2), of "{PUBLIC_DATA_TREE}" w'] w1(3) by simp
qed

section \<open>A base rollup\<close>

text \<open>A transaction that the builder can take: its data are field elements, and it writes to leaves of the public data tree.\<close>

abbreviation tx_end :: "processed_tx \<Rightarrow> combined_accumulated_data" where
  "tx_end t \<equiv> kpi_end (ptx_data t)"

definition tx_fits :: "processed_tx \<Rightarrow> bool" where
  "tx_fits t \<longleftrightarrow> (\<forall>x \<in> set (cad_newCommitments (tx_end t)) \<union> set (cad_newNullifiers (tx_end t)). fr_ok x) \<and>
     (\<forall>r \<in> set (cad_publicDataUpdateRequests (tx_end t)). request_ok r)"

definition tx_requests :: "processed_tx list \<Rightarrow> public_data_update_request list" where
  "tx_requests txs = concat (map (\<lambda>t. cad_publicDataUpdateRequests (tx_end t)) txs)"

text \<open>The data of transactions in the trees: \<open>w'\<close> is \<open>w\<close> with the contracts \<open>cs\<close> and the data of \<open>txs\<close>, all pending.\<close>

abbreviation tx_trees :: "MerkleTreeId set" where
  "tx_trees \<equiv> {CONTRACT_TREE, PRIVATE_DATA_TREE, PUBLIC_DATA_TREE, NULLIFIER_TREE}"

definition txs_inserted :: "'db tree_env \<Rightarrow> processed_tx list \<Rightarrow> fr list \<Rightarrow> 'db merkle_trees \<Rightarrow> 'db merkle_trees \<Rightarrow> bool" where
  "txs_inserted env txs cs w w' \<longleftrightarrow> pending_on env tx_trees w w' \<and>
     world_leaves env True w' CONTRACT_TREE = standard_spec 8 (map fr_bytes cs) (world_leaves env True w CONTRACT_TREE) \<and>
     snd (world_leaves env True w CONTRACT_TREE) + int (length cs) \<le> 2 ^ 8 \<and>
     world_leaves env True w' PRIVATE_DATA_TREE = standard_spec 8 (map fr_bytes (tx_commitments txs)) (world_leaves env True w PRIVATE_DATA_TREE) \<and>
     snd (world_leaves env True w PRIVATE_DATA_TREE) + int (length (tx_commitments txs)) \<le> 2 ^ 8 \<and>
     world_leaves env True w' PUBLIC_DATA_TREE = fold request_spec (tx_requests txs) (world_leaves env True w PUBLIC_DATA_TREE) \<and>
     world_nullifiers env True w' = fr_value ` set (tx_nullifiers txs) \<union> world_nullifiers env True w \<and>
     snd (world_leaves env True w' NULLIFIER_TREE) = snd (world_leaves env True w NULLIFIER_TREE) + int (length (tx_nullifiers txs))"

text \<open>A contract leaf is a field element; this is what the hash of the circuits returns.\<close>

definition contract_leaves_ok :: "'db block_builder \<Rightarrow> bool" where
  "contract_leaves_ok B \<longleftrightarrow> (\<forall>c x. computeContractLeaf B c = Inr x \<longrightarrow> fr_ok x)"

lemma contract_leaves_fr_ok:
  "contract_leaves_ok B \<Longrightarrow> tx_contract_leaves B txs = Inr cs \<Longrightarrow> \<forall>x \<in> set cs. fr_ok x"
proof -
  have "rtraverse (computeContractLeaf B) ns = Inr ys \<Longrightarrow> \<forall>x \<in> set ys. fr_ok x" if "contract_leaves_ok B" for ns ys
    using that by (induction ns arbitrary: ys) (auto simp: contract_leaves_ok_def rbind_eq_Inr)
  then show "contract_leaves_ok B \<Longrightarrow> tx_contract_leaves B txs = Inr cs \<Longrightarrow> \<forall>x \<in> set cs. fr_ok x"
    by (simp add: tx_contract_leaves_def)
qed

lemma base_updates_step:
  assumes inv: "world_inv env w" and env: "bb_trees B = env" "contract_leaves_ok B" and fits: "tx_fits t1" "tx_fits t2"
    and new: "fresh_nullifiers (world_nullifiers env True w) (tx_nullifiers [t1, t2])"
    and room: "snd (world_leaves env True w NULLIFIER_TREE) + int (length (tx_nullifiers [t1, t2])) \<le> 2 ^ 8"
    and run: "base_rollup_tree_updates B t1 t2 w = (Inr p, w')"
  shows "\<exists>cs. tx_contract_leaves B [t1, t2] = Inr cs \<and> txs_inserted env [t1, t2] cs w w'"
proof -
  have ok: "\<forall>x \<in> set (tx_commitments [t1, t2]). fr_ok x" "\<forall>x \<in> set (tx_nullifiers [t1, t2]). fr_ok x"
    using fits by (auto simp: tx_fits_def tx_commitments_def tx_nullifiers_def)
  from run obtain cs ps1 ps2 w1 w2 w3 w4 r where cs: "tx_contract_leaves B [t1, t2] = Inr cs"
    and w1: "MerkleTrees_appendLeaves env CONTRACT_TREE (map fr_bytes cs) w = (Inr (), w1)"
    and w2: "MerkleTrees_appendLeaves env PRIVATE_DATA_TREE (map fr_bytes (tx_commitments [t1, t2])) w1 = (Inr (), w2)"
    and w3: "processPublicDataUpdateRequests env t1 w2 = (Inr ps1, w3)"
    and w4: "processPublicDataUpdateRequests env t2 w3 = (Inr ps2, w4)"
    and w5: "MerkleTrees_batchInsert env NULLIFIER_TREE (map fr_bytes (tx_nullifiers [t1, t2])) NULLIFIER_TREE_HEIGHT NULLIFIER_SUBTREE_HEIGHT w4 = (Inr r, w')"
    using contract_leaves_fr_ok[OF env(2)]
    by (fastforce simp: base_rollup_tree_updates_def jbind_eq_Inr env(1) Let_def rtraverse_fr_bytes ok Facade_appendLeaves_def Facade_batchInsert_def
        split: prod.splits option.splits)
  note s1 = append_success[OF inv _ _ w1, simplified]
  note f1 = pending_frame[OF inv s1[THEN conjunct1]]
  note s2 = append_success[OF f1(1) _ _ w2, simplified]
  note f2 = pending_frame[OF f1(1) s2[THEN conjunct1]]
  have rs: "\<forall>r \<in> set (cad_publicDataUpdateRequests (tx_end t1)). request_ok r" "\<forall>r \<in> set (cad_publicDataUpdateRequests (tx_end t2)). request_ok r"
    using fits by (auto simp: tx_fits_def)
  note s3 = process_requests_step[OF f2(1) rs(1) w3[unfolded processPublicDataUpdateRequests_def]]
  note f3 = pending_frame[OF f2(1) s3[THEN conjunct1]]
  note s4 = process_requests_step[OF f3(1) rs(2) w4[unfolded processPublicDataUpdateRequests_def]]
  note f4 = pending_frame[OF f3(1) s4[THEN conjunct1]]
  have vals: "toBigIntBE ` set (map fr_bytes (tx_nullifiers [t1, t2])) = fr_value ` set (tx_nullifiers [t1, t2])"
    unfolding set_map image_image using ok(2) toBigIntBE_fr_bytes by (intro image_cong) auto
  have s5: "pending_on env {NULLIFIER_TREE} w4 w'"
    "world_nullifiers env True w' = fr_value ` set (tx_nullifiers [t1, t2]) \<union> world_nullifiers env True w"
    "snd (world_leaves env True w' NULLIFIER_TREE) = snd (world_leaves env True w NULLIFIER_TREE) + int (length (tx_nullifiers [t1, t2]))"
    using batch_nullifiers_step[OF f4(1) fresh_insertable[OF ok(2)], of NULLIFIER_SUBTREE_HEIGHT NULLIFIER_TREE_HEIGHT] new room w5
    by (auto simp: f1 f2 f3 f4 vals NULLIFIER_SUBTREE_HEIGHT_def simp del: set_map)
  note f5 = pending_frame[OF f4(1) s5(1)]
  have "pending_on env tx_trees w w'"
    using pending_on_trans[OF pending_on_trans[OF pending_on_trans[OF pending_on_trans[OF s1[THEN conjunct1] s2[THEN conjunct1]]
        s3[THEN conjunct1]] s4[THEN conjunct1]] s5(1)] by (simp add: insert_commute)
  then have "txs_inserted env [t1, t2] cs w w'"
    using s1 s2 s3 s4 s5 unfolding txs_inserted_def by (simp add: f1 f2 f3 f4 f5 tx_requests_def)
  then show ?thesis using cs by blast
qed


section \<open>All base rollups\<close>

lemma standard_spec_append:
  "snd v + int (length xs) + int (length ys) \<le> 2 ^ d \<Longrightarrow> standard_spec d (xs @ ys) v = standard_spec d ys (standard_spec d xs v)"
proof -
  have "nat (x - n) - length xs = nat (x - (n + int (length xs)))" for x n :: int by linarith
  then show "snd v + int (length xs) + int (length ys) \<le> 2 ^ d \<Longrightarrow> standard_spec d (xs @ ys) v = standard_spec d ys (standard_spec d xs v)"
    by (cases v) (auto simp: standard_spec_def fun_eq_iff nth_append)
qed

lemma txs_inserted_refl: "world_inv env w \<Longrightarrow> snd (world_leaves env True w CONTRACT_TREE) \<le> 2 ^ 8 \<Longrightarrow>
    snd (world_leaves env True w PRIVATE_DATA_TREE) \<le> 2 ^ 8 \<Longrightarrow> txs_inserted env [] [] w w"
  by (auto simp: txs_inserted_def pending_on_refl tx_commitments_def tx_nullifiers_def tx_requests_def standard_spec_def fun_eq_iff split: prod.splits)

lemma txs_inserted_trans:
  assumes "txs_inserted env xs cs w w1" and "txs_inserted env ys ds w1 w2"
  shows "txs_inserted env (xs @ ys) (cs @ ds) w w2"
proof -
  have "pending_on env tx_trees w w2" using assms pending_on_trans[of env tx_trees w w1 tx_trees w2] by (simp add: txs_inserted_def)
  moreover have "snd (standard_spec 8 ls v) = snd v + int (length ls)" if "snd v + int (length ls) \<le> 2 ^ 8" for ls and v :: "(int \<Rightarrow> buffer) \<times> int"
    using that by (cases v) (simp add: standard_spec_def)
  ultimately show ?thesis using assms unfolding txs_inserted_def
    by (auto simp: tx_commitments_def tx_nullifiers_def tx_requests_def image_Un standard_spec_append)
qed

lemma base_rollup_step:
  assumes "baseRollupCircuit B t1 t2 w = (Inr out, w')"
  shows "\<exists>p. base_rollup_tree_updates B t1 t2 w = (Inr p, w')"
  using assms by (auto simp: baseRollupCircuit_def buildBaseRollupInput_def jbind_eq_Inr split: prod.splits)

lemma tx_nullifiers_append: "tx_nullifiers (xs @ ys) = tx_nullifiers xs @ tx_nullifiers ys"
  by (simp add: tx_nullifiers_def)

lemma contract_leaves_append:
  "tx_contract_leaves B xs = Inr cs \<Longrightarrow> tx_contract_leaves B ys = Inr ds \<Longrightarrow> tx_contract_leaves B (xs @ ys) = Inr (cs @ ds)"
  by (simp add: tx_contract_leaves_def rtraverse_Inr list_all2_appendI)

lemma base_rollups_step:
  assumes "world_inv env w" and env: "bb_trees B = env" "contract_leaves_ok B" and "\<forall>t \<in> set txs. tx_fits t"
    and "fresh_nullifiers (world_nullifiers env True w) (tx_nullifiers txs)" and "0 \<in> world_nullifiers env True w"
    and "snd (world_leaves env True w NULLIFIER_TREE) + int (length (tx_nullifiers txs)) \<le> 2 ^ 8"
    and "snd (world_leaves env True w CONTRACT_TREE) \<le> 2 ^ 8" "snd (world_leaves env True w PRIVATE_DATA_TREE) \<le> 2 ^ 8"
    and "for_pairs (baseRollupCircuit B) txs w = (Inr outs, w')"
  shows "\<exists>cs. tx_contract_leaves B txs = Inr cs \<and> txs_inserted env txs cs w w'"
  using assms(1,4-)
proof (induction "baseRollupCircuit B" txs arbitrary: w outs rule: for_pairs.induct)
  case 1
  then show ?case using txs_inserted_refl[of env w] by (auto simp: tx_contract_leaves_def)
next
  case (3 t1 t2 txs)
  obtain o1 w1 os where w1: "baseRollupCircuit B t1 t2 w = (Inr o1, w1)" "for_pairs (baseRollupCircuit B) txs w1 = (Inr os, w')"
    using "3.prems"(8) by (auto simp: jbind_eq_Inr)
  have nulls: "tx_nullifiers (t1 # t2 # txs) = tx_nullifiers [t1, t2] @ tx_nullifiers txs" by (simp add: tx_nullifiers_def)
  note fresh = fresh_append[OF "3.prems"(3)[unfolded nulls]]
  obtain cs where cs: "tx_contract_leaves B [t1, t2] = Inr cs" "txs_inserted env [t1, t2] cs w w1"
    using base_rollup_step[OF w1(1)] base_updates_step[OF "3.prems"(1) env _ _ fresh(1)] "3.prems"(2,5) by (auto simp: nulls)
  note ins = cs(2)[unfolded txs_inserted_def]
  have bound: "snd (standard_spec 8 ls v) \<le> 2 ^ 8" if "snd v + int (length ls) \<le> 2 ^ 8" for ls and v :: "(int \<Rightarrow> buffer) \<times> int"
    using that by (cases v) (simp add: standard_spec_def)
  have "world_inv env w1" using ins by (simp add: pending_on_def)
  from "3.hyps"[OF this _ _ _ _ _ _ w1(2)] obtain ds where "tx_contract_leaves B txs = Inr ds" "txs_inserted env txs ds w1 w'"
    using "3.prems" ins fresh(2) bound by (auto simp: nulls)
  then show ?case using contract_leaves_append[OF cs(1)] txs_inserted_trans[OF cs(2)] by fastforce
qed simp

section \<open>The root rollup\<close>

definition padded_messages :: "fr list \<Rightarrow> fr list" where
  "padded_messages ms = ms @ replicate (NUMBER_OF_L1_L2_MESSAGES_PER_ROLLUP - length ms) Fr_ZERO"

lemma root_rollup_step:
  assumes inv: "world_inv env w" and env: "bb_trees B = env" and ok: "\<forall>x \<in> set ms. fr_ok x"
    and room: "\<forall>r \<in> root_trees. snd (world_leaves env True w r) + 1 \<le> 2 ^ 8"
    and run: "rootRollupCircuit B l r ms w = (Inr (out, p), w')"
  shows "pending_on env (insert L1_TO_L2_MESSAGES_TREE root_trees) w w' \<and>
    world_leaves env True w' L1_TO_L2_MESSAGES_TREE = standard_spec 8 (map fr_bytes ms) (world_leaves env True w L1_TO_L2_MESSAGES_TREE) \<and>
    snd (world_leaves env True w L1_TO_L2_MESSAGES_TREE) + int (length ms) \<le> 2 ^ 8 \<and>
    (\<forall>(i, r) \<in> set roots_pairs. world_leaves env True w' r = standard_spec 8 [world_root True w' i] (world_leaves env True w r)) \<and>
    validateRootOutput out w' = Inr ()"
proof -
  from run obtain w1 where w1: "MerkleTrees_appendLeaves env L1_TO_L2_MESSAGES_TREE (map fr_bytes ms) w = (Inr (), w1)"
    and w2: "jfor (append_root env) roots_pairs w1 = (Inr (), w')" and v: "validateRootOutput out w' = Inr ()"
    by (auto simp: rootRollupCircuit_def jbind_eq_Inr env rtraverse_fr_bytes[OF ok] Facade_appendLeaves_def
        Facade_updateHistoricRootsTrees_def asLatest_def updateHistoric_append_root split: prod.splits)
  note s1 = append_success[OF inv _ _ w1, simplified]
  note f1 = pending_frame[OF inv s1[THEN conjunct1]]
  have "\<forall>r \<in> root_trees. snd (world_leaves env True w1 r) + 1 \<le> 2 ^ 8" using room by (simp add: f1)
  from roots_step[OF f1(1) this] w2 have s2: "pending_on env root_trees w1 w'"
    "\<forall>(i, r) \<in> set roots_pairs. world_leaves env True w' r = standard_spec 8 [world_root True w' i] (world_leaves env True w1 r)" by auto
  note f2 = pending_frame[OF f1(1) s2(1)]
  show ?thesis using s1 s2 v pending_on_trans[OF s1[THEN conjunct1] s2(1)] by (simp add: f1 f2 roots_pairs_def insert_commute)
qed

end
