(* ===== verification/BlockBuilderEffects.thy ===== *)
theory BlockBuilderEffects
  imports BlockBuilderProofs
begin

text \<open>
  What a block that was built is: its contents, the trees after building it, and that the node that built it and a node that receives it
  reach the same trees. The hypotheses are gathered in \<open>buildable\<close>: room in the trees, data that are field elements and nullifiers that are new.
\<close>

section \<open>Snapshots and validation\<close>

text \<open>The hash of the trees returns 32 bytes.\<close>

definition hash_bytes :: "'db tree_env \<Rightarrow> bool" where
  "hash_bytes env \<longleftrightarrow> (\<forall>a b. length (compress env a b) = 32)"

lemma world_root_length:
  assumes "world_inv env w" and "hash_bytes env"
  shows "length (world_root b w i) = 32"
proof -
  have inv: "tree_inv env (ws_base (the_tree w i))" and d: "tdepth (ws_base (the_tree w i)) = treeHeight i"
    using ws_ok_inv[OF world_inv_ok[OF assms(1)]] world_inv_ok[OF assms(1), of i] by (simp_all add: ws_ok_def)
  have "consistent (compress env) (treeHeight i) (node env (ws_base (the_tree w i)) b)"
    using inv d by (cases b) (simp_all add: tree_inv_def)
  then show ?thesis using treeHeight_range(1)[of i] assms(2)
    by (simp add: world_root_view[of _ _ _ env] world_view_def ws_view_def consistent_def in_level_def hash_bytes_def)
qed

lemma fr_of_buffer_32: "length b = 32 \<Longrightarrow> fr_of_buffer b = Inr (new_Fr (be_val b))"
  by (simp add: fr_of_buffer_def Fr_fromBuffer_def new_BufferReader_def readBytes_short jbind_def subarray_def toBigIntBE_be_val)

lemma Fr_toBuffer_of_buffer: "length b = 32 \<Longrightarrow> Fr_toBuffer (new_Fr (be_val b)) = Inr b"
  using toBufferBE_buf[of b] by (simp add: Fr_toBuffer_def new_Fr_def)

definition tree_snapshot :: "'db tree_env \<Rightarrow> 'db merkle_trees \<Rightarrow> MerkleTreeId \<Rightarrow> append_only_tree_snapshot" where
  "tree_snapshot env w i = \<lparr>snap_root = new_Fr (be_val (world_root True w i)), nextAvailableLeafIndex = js_Number (snd (world_leaves env True w i))\<rparr>"

lemma getTreeSnapshot_ok:
  "world_inv env w \<Longrightarrow> hash_bytes env \<Longrightarrow> getTreeSnapshot i w = Inr (tree_snapshot env w i)"
  using world_root_length[of env w True i]
  by (simp add: getTreeSnapshot_def Facade_getTreeInfo_def MerkleTrees_getTreeInfo_def asLatest_def Let_def tree_snapshot_def world_leaves_def
      leaf_view_def fr_of_buffer_32 flip: world_root_def)

text \<open>The output of a circuit agrees with a tree: its root is encoded as the root of the tree and its leaf count is that of the tree.\<close>

definition snapshot_matches :: "'db tree_env \<Rightarrow> 'db merkle_trees \<Rightarrow> MerkleTreeId \<Rightarrow> append_only_tree_snapshot \<Rightarrow> bool" where
  "snapshot_matches env w i s \<longleftrightarrow> Fr_toBuffer (snap_root s) = Inr (world_root True w i) \<and>
     nextAvailableLeafIndex s = js_Number (snd (world_leaves env True w i))"

lemma validateSimulatedTree_iff:
  assumes "world_inv env w" and "hash_bytes env"
  shows "validateSimulatedTree (tree_snapshot env w i) s label = Inr () \<longleftrightarrow> snapshot_matches env w i s"
  using Fr_toBuffer_of_buffer[OF world_root_length[OF assms, of True i]] toBufferBE_total[of "fr_value (snap_root s)" 32]
  by (auto simp: validateSimulatedTree_def tree_snapshot_def snapshot_matches_def rbind_eq_Inr Fr_toBuffer_def)

definition root_output_matches :: "'db tree_env \<Rightarrow> 'db merkle_trees \<Rightarrow> root_rollup_public_inputs \<Rightarrow> bool" where
  "root_output_matches env w out \<longleftrightarrow>
     snapshot_matches env w CONTRACT_TREE (rrp_endContractTreeSnapshot out) \<and>
     snapshot_matches env w PRIVATE_DATA_TREE (rrp_endPrivateDataTreeSnapshot out) \<and>
     snapshot_matches env w NULLIFIER_TREE (rrp_endNullifierTreeSnapshot out) \<and>
     Fr_toBuffer (rrp_endPublicDataTreeRoot out) = Inr (world_root True w PUBLIC_DATA_TREE) \<and>
     snapshot_matches env w CONTRACT_TREE_ROOTS_TREE (rrp_endTreeOfHistoricContractTreeRootsSnapshot out) \<and>
     snapshot_matches env w PRIVATE_DATA_TREE_ROOTS_TREE (rrp_endTreeOfHistoricPrivateDataTreeRootsSnapshot out) \<and>
     snapshot_matches env w L1_TO_L2_MESSAGES_ROOTS_TREE (rrp_endTreeOfHistoricL1ToL2MessageTreeRootsSnapshot out) \<and>
     snapshot_matches env w L1_TO_L2_MESSAGES_TREE (rrp_endL1ToL2MessageTreeSnapshot out)"

lemma validatePublicDataTreeRoot_iff:
  assumes "world_inv env w" and "hash_bytes env"
  shows "validatePublicDataTreeRoot out w = Inr () \<longleftrightarrow> Fr_toBuffer (output_endPublicDataTreeRoot out) = Inr (world_root True w PUBLIC_DATA_TREE)"
  using Fr_toBuffer_of_buffer[OF world_root_length[OF assms, of True PUBLIC_DATA_TREE]] toBufferBE_total[of "fr_value (output_endPublicDataTreeRoot out)" 32]
  by (auto simp: validatePublicDataTreeRoot_def getTreeSnapshot_ok[OF assms] tree_snapshot_def rbind_eq_Inr Fr_toBuffer_def)

lemma validateRootOutput_iff:
  assumes "world_inv env w" and "hash_bytes env"
  shows "validateRootOutput out w = Inr () \<longleftrightarrow> root_output_matches env w out"
  unfolding validateRootOutput_def validateTrees_def validateTree_def validateRootTree_def root_output_matches_def
  by (simp add: rbind_eq_Inr getTreeSnapshot_ok[OF assms] validateSimulatedTree_iff[OF assms] validatePublicDataTreeRoot_iff[OF assms])

section \<open>Empty public data writes\<close>

definition request_write :: "public_data_update_request \<Rightarrow> public_data_write" where
  "request_write r = \<lparr>leafIndex = pdu_leafIndex r, newValue = pdu_newValue r\<rparr>"

lemma tx_writes: "tx_public_data_writes txs = map request_write (tx_requests txs)"
  by (simp add: tx_public_data_writes_def tx_requests_def map_concat comp_def request_write_def[abs_def])

lemma fr_bytes_zero: "fr_value x = 0 \<Longrightarrow> fr_bytes x = INITIAL_LEAF"
  by (simp add: fr_bytes_def INITIAL_LEAF_def) code_simp

text \<open>The builder writes every update request, handling a block skips the empty ones; this is the same as long as leaf 0 is empty.\<close>

lemma requests_as_writes:
  assumes "fst v 0 = INITIAL_LEAF" and "\<forall>r \<in> set rs. fr_value (pdu_leafIndex r) = 0 \<longrightarrow> fr_value (pdu_newValue r) = 0"
  shows "fold request_spec rs v = fold write_spec (map request_write rs) v"
  using assms
proof (induction rs arbitrary: v)
  case (Cons r rs)
  have eq: "request_spec r v = write_spec (request_write r) v"
    using Cons.prems fr_bytes_zero[of "pdu_newValue r"]
    by (cases v) (auto simp: request_spec_def write_spec_def request_write_def PublicDataWrite_isEmpty_def Fr_isZero_def sparse_spec_def fun_eq_iff)
  have "fst (request_spec r v) 0 = INITIAL_LEAF"
    using Cons.prems fr_bytes_zero[of "pdu_newValue r"] by (cases v) (auto simp: request_spec_def sparse_spec_def)
  then show ?case using Cons.IH[of "request_spec r v"] Cons.prems(2) by (simp add: eq)
qed simp


section \<open>Building\<close>

definition buildable :: "'db block_builder \<Rightarrow> 'db merkle_trees \<Rightarrow> processed_tx list \<Rightarrow> fr list \<Rightarrow> bool" where
  "buildable B w txs ms \<longleftrightarrow> (let env = bb_trees B in
     world_inv env w \<and> world_view env True w = world_view env False w \<and> hash_bytes env \<and> contract_leaves_ok B \<and>
     (\<forall>t \<in> set txs. tx_fits t) \<and> (\<forall>m \<in> set ms. fr_ok m) \<and>
     fresh_nullifiers (world_nullifiers env True w) (tx_nullifiers txs) \<and>
     snd (world_leaves env True w NULLIFIER_TREE) + int (length (tx_nullifiers txs)) \<le> 2 ^ 8 \<and>
     snd (world_leaves env True w CONTRACT_TREE) \<le> 2 ^ 8 \<and> snd (world_leaves env True w PRIVATE_DATA_TREE) \<le> 2 ^ 8 \<and>
     (\<forall>r \<in> root_trees. snd (world_leaves env True w r) + 1 \<le> 2 ^ 8) \<and>
     fst (world_leaves env True w PUBLIC_DATA_TREE) 0 = INITIAL_LEAF \<and>
     (\<forall>r \<in> set (tx_requests txs). fr_value (pdu_leafIndex r) = 0 \<longrightarrow> fr_value (pdu_newValue r) = 0))"

lemma zero_nullifier: "world_inv env w \<Longrightarrow> 0 \<in> world_nullifiers env b w"
  using the_tree_class(2)[of env w]
  by (auto simp: world_nullifiers_def world_view_def ws_view_def abs_values_def idx_inv_def idx_view_ok_def it_getNumLeaves_def intro!: zero_in_values)

text \<open>The parts of a block that was built.\<close>

definition block_of_txs :: "processed_tx list \<Rightarrow> fr list \<Rightarrow> fr list \<Rightarrow> l2_block \<Rightarrow> bool" where
  "block_of_txs txs cs ms b \<longleftrightarrow> newCommitments b = tx_commitments txs \<and> newNullifiers b = tx_nullifiers txs \<and>
     newPublicDataWrites b = tx_public_data_writes txs \<and> newL2ToL1Msgs b = tx_l2_to_l1_msgs txs \<and> newContracts b = cs \<and>
     newContractData b = tx_contract_data txs \<and> newL1ToL2Messages b = ms \<and> newEncryptedLogs b = Some (tx_logs txs)"

definition start_matches :: "'db tree_env \<Rightarrow> 'db merkle_trees \<Rightarrow> l2_block \<Rightarrow> bool" where
  "start_matches env w b \<longleftrightarrow>
     startContractTreeSnapshot b = tree_snapshot env w CONTRACT_TREE \<and>
     startPrivateDataTreeSnapshot b = tree_snapshot env w PRIVATE_DATA_TREE \<and>
     startNullifierTreeSnapshot b = tree_snapshot env w NULLIFIER_TREE \<and>
     startPublicDataTreeRoot b = snap_root (tree_snapshot env w PUBLIC_DATA_TREE) \<and>
     startTreeOfHistoricContractTreeRootsSnapshot b = tree_snapshot env w CONTRACT_TREE_ROOTS_TREE \<and>
     startTreeOfHistoricPrivateDataTreeRootsSnapshot b = tree_snapshot env w PRIVATE_DATA_TREE_ROOTS_TREE \<and>
     startTreeOfHistoricL1ToL2MessageTreeRootsSnapshot b = tree_snapshot env w L1_TO_L2_MESSAGES_ROOTS_TREE \<and>
     startL1ToL2MessageTreeSnapshot b = tree_snapshot env w L1_TO_L2_MESSAGES_TREE"

definition end_matches :: "'db tree_env \<Rightarrow> 'db merkle_trees \<Rightarrow> l2_block \<Rightarrow> bool" where
  "end_matches env w b \<longleftrightarrow>
     snapshot_matches env w CONTRACT_TREE (endContractTreeSnapshot b) \<and>
     snapshot_matches env w PRIVATE_DATA_TREE (endPrivateDataTreeSnapshot b) \<and>
     snapshot_matches env w NULLIFIER_TREE (endNullifierTreeSnapshot b) \<and>
     Fr_toBuffer (endPublicDataTreeRoot b) = Inr (world_root True w PUBLIC_DATA_TREE) \<and>
     snapshot_matches env w CONTRACT_TREE_ROOTS_TREE (endTreeOfHistoricContractTreeRootsSnapshot b) \<and>
     snapshot_matches env w PRIVATE_DATA_TREE_ROOTS_TREE (endTreeOfHistoricPrivateDataTreeRootsSnapshot b) \<and>
     snapshot_matches env w L1_TO_L2_MESSAGES_ROOTS_TREE (endTreeOfHistoricL1ToL2MessageTreeRootsSnapshot b) \<and>
     snapshot_matches env w L1_TO_L2_MESSAGES_TREE (endL1ToL2MessageTreeSnapshot b)"

definition start_snapshots_of :: "'db tree_env \<Rightarrow> 'db merkle_trees \<Rightarrow> start_snapshots" where
  "start_snapshots_of env w = \<lparr>ss_private = tree_snapshot env w PRIVATE_DATA_TREE, ss_nullifier = tree_snapshot env w NULLIFIER_TREE,
     ss_contract = tree_snapshot env w CONTRACT_TREE, ss_public = tree_snapshot env w PUBLIC_DATA_TREE,
     ss_privateRoots = tree_snapshot env w PRIVATE_DATA_TREE_ROOTS_TREE, ss_contractRoots = tree_snapshot env w CONTRACT_TREE_ROOTS_TREE,
     ss_messages = tree_snapshot env w L1_TO_L2_MESSAGES_TREE, ss_messageRoots = tree_snapshot env w L1_TO_L2_MESSAGES_ROOTS_TREE\<rparr>"

lemma build_run:
  assumes "world_inv (bb_trees B) w" "hash_bytes (bb_trees B)" and "buildL2Block B n txs ms w = (Inr (b, p), w')"
  shows "\<exists>cs out. runCircuits B txs ms w = (Inr (out, p), w') \<and> tx_contract_leaves B txs = Inr cs \<and> block_of_txs txs cs ms b \<and>
    blk_number b = n \<and> start_matches (bb_trees B) w b \<and> (root_output_matches (bb_trees B) w' out \<longrightarrow> end_matches (bb_trees B) w' b)"
proof -
  obtain s cs out where r: "getStartSnapshots w = Inr s" "runCircuits B txs ms w = (Inr (out, p), w')" "tx_contract_leaves B txs = Inr cs"
    "b = assemble_block n s out txs cs ms"
    using assms(3) by (auto simp: buildL2Block_def jbind_eq_Inr Let_def)
  have s: "s = start_snapshots_of (bb_trees B) w"
    using r(1) by (simp add: getStartSnapshots_def getTreeSnapshot_ok[OF assms(1,2)] start_snapshots_of_def)
  have b: "block_of_txs txs cs ms b" "blk_number b = n" "start_matches (bb_trees B) w b"
    by (simp_all add: r(4) s assemble_block_def L2Block_fromFields_def new_L2Block_def block_of_txs_def start_matches_def start_snapshots_of_def)
  have "end_matches (bb_trees B) w' b" if "root_output_matches (bb_trees B) w' out"
    using that by (simp add: r(4) assemble_block_def L2Block_fromFields_def new_L2Block_def end_matches_def root_output_matches_def)
  then show ?thesis using r(2,3) b by blast
qed

lemma circuits_run:
  assumes "runCircuits B txs ms w = (Inr (out, p), w')"
  shows "4 \<le> length txs \<and> length ms \<le> NUMBER_OF_L1_L2_MESSAGES_PER_ROLLUP \<and> (\<exists>outs w1 l r. for_pairs (baseRollupCircuit B) txs w = (Inr outs, w1) \<and>
    rootRollupCircuit B l r (padded_messages ms) w1 = (Inr (out, p), w'))"
proof -
  obtain outs w1 xs where r: "4 \<le> length txs" "length ms \<le> NUMBER_OF_L1_L2_MESSAGES_PER_ROLLUP" "for_pairs (baseRollupCircuit B) txs w = (Inr outs, w1)"
    "(case xs of [l, r] \<Rightarrow> rootRollupCircuit B l r (padded_messages ms) | _ \<Rightarrow> jthrow TypeError) w1 = (Inr (out, p), w')"
    using assms by (fastforce simp: runCircuits_def jbind_eq_Inr padArrayEnd_def padded_messages_def[symmetric] split: if_splits)
  obtain l r where "xs = [l, r]" using r(4) by (cases xs; cases "tl xs"; cases "tl (tl xs)") auto
  then show ?thesis using r by (intro conjI exI[of _ outs] exI[of _ w1] exI[of _ l] exI[of _ r]) simp_all
qed

text \<open>The trees after a block was built: all that follows rests on this lemma.\<close>

lemma build_effect:
  assumes ok: "buildable B w txs ms" and run: "buildL2Block B n txs ms w = (Inr (b, p), w')"
  defines "env \<equiv> bb_trees B"
  shows "\<exists>cs. tx_contract_leaves B txs = Inr cs \<and> block_of_txs txs cs ms b \<and> blk_number b = n \<and> start_matches env w b \<and> end_matches env w' b \<and>
    block_applied env (b\<lparr>newL1ToL2Messages := padded_messages ms\<rparr>) w w' True \<and> world_inv env w' \<and> world_view env False w' = world_view env False w \<and>
    block_fits env w b \<and> length ms \<le> 16 \<and> snd (world_leaves env True w L1_TO_L2_MESSAGES_TREE) + 16 \<le> 2 ^ 8 \<and>
    snd (world_leaves env True w' NULLIFIER_TREE) = snd (world_leaves env True w NULLIFIER_TREE) + int (length (tx_nullifiers txs))"
proof -
  note ok = ok[unfolded buildable_def Let_def, folded env_def]
  have benv: "bb_trees B = env" by (simp add: env_def)
  have inv: "world_inv env w" and hash: "hash_bytes env" and settled: "world_view env True w = world_view env False w" using ok by blast+
  obtain cs out where run: "runCircuits B txs ms w = (Inr (out, p), w')" "tx_contract_leaves B txs = Inr cs" "block_of_txs txs cs ms b"
    "blk_number b = n" "start_matches env w b" "root_output_matches env w' out \<longrightarrow> end_matches env w' b"
    using build_run[of B w, folded env_def, OF inv hash run] by blast
  obtain outs w1 l r where c: "length ms \<le> 16" "for_pairs (baseRollupCircuit B) txs w = (Inr outs, w1)"
    "rootRollupCircuit B l r (padded_messages ms) w1 = (Inr (out, p), w')"
    using circuits_run[OF run(1)] by (auto simp: NUMBER_OF_L1_L2_MESSAGES_PER_ROLLUP_def)
  have ins: "txs_inserted env txs cs w w1"
    using base_rollups_step[OF inv benv _ _ _ zero_nullifier[OF inv] _ _ _ c(2)] ok run(2) by auto
  note ins' = ins[unfolded txs_inserted_def]
  note f1 = pending_frame[OF inv ins'[THEN conjunct1]]
  have "\<forall>x \<in> set (padded_messages ms). fr_ok x" using ok by (auto simp: padded_messages_def Fr_ZERO_def new_Fr_def fr_ok_def)
  moreover have "\<forall>r \<in> root_trees. snd (world_leaves env True w1 r) + 1 \<le> 2 ^ 8" using ok by (auto simp: f1)
  ultimately have root: "pending_on env (insert L1_TO_L2_MESSAGES_TREE root_trees) w1 w'"
    "world_leaves env True w' L1_TO_L2_MESSAGES_TREE = standard_spec 8 (map fr_bytes (padded_messages ms)) (world_leaves env True w1 L1_TO_L2_MESSAGES_TREE)"
    "snd (world_leaves env True w1 L1_TO_L2_MESSAGES_TREE) + int (length (padded_messages ms)) \<le> 2 ^ 8"
    "\<forall>(i, r) \<in> set roots_pairs. world_leaves env True w' r = standard_spec 8 [world_root True w' i] (world_leaves env True w1 r)"
    "validateRootOutput out w' = Inr ()"
    using root_rollup_step[OF f1(1) benv _ _ c(3)] by blast+
  note f2 = pending_frame[OF f1(1) root(1)]
  have len: "length (padded_messages ms) = 16" using c(1) by (simp add: padded_messages_def NUMBER_OF_L1_L2_MESSAGES_PER_ROLLUP_def)
  have f0: "world_leaves env False w = world_leaves env True w" "world_nullifiers env False w = world_nullifiers env True w"
    using world_leaves_cong[OF inv inv, of False _ True] settled by (auto simp: world_nullifiers_def)
  have fields: "\<forall>x \<in> set cs. fr_ok x" using contract_leaves_fr_ok[OF _ run(2)] ok by blast
  have writes: "fold request_spec (tx_requests txs) (world_leaves env True w PUBLIC_DATA_TREE) =
      fold write_spec (tx_public_data_writes txs) (world_leaves env True w PUBLIC_DATA_TREE)"
    unfolding tx_writes by (rule requests_as_writes) (use ok in auto)
  have "block_applied env (b\<lparr>newL1ToL2Messages := padded_messages ms\<rparr>) w w' True"
    using ins' root run(3) unfolding block_applied_def
    by (simp add: f0 f1 f2 block_of_txs_def writes roots_pairs_def)
  moreover have "block_fits env w b"
    using ok ins' root(3) c(1) len run(3) fields unfolding block_fits_def block_of_txs_def
    by (auto simp: f0 f1 tx_fits_def tx_commitments_def tx_nullifiers_def tx_writes tx_requests_def request_ok_def write_ok_def request_write_def)
  moreover have "world_view env False w' = world_view env False w"
    using ins' root(1) by (auto simp: pending_on_def)
  ultimately show ?thesis using run c(1) root(3,5) len ins' validateRootOutput_iff[OF f2(1) hash] f2(1) by (auto simp: f1 f2)
qed


section \<open>The node that built the block and the others\<close>

lemma rootChecks_total: "\<exists>cs. rootChecks b w = Inr cs"
proof -
  have "\<exists>c. compareRoot r i w = Inr c" for r i
    using toBufferBE_total[of "fr_value r" 32] by (auto simp: compareRoot_def Fr_toBuffer_def)
  then show ?thesis unfolding rootChecks_def by (intro rtraverse_total) auto
qed

lemma end_matches_own:
  "end_matches env w b \<Longrightarrow> \<exists>cs. rootChecks b w = Inr cs \<and> list_all id cs"
  by (simp add: rootChecks_def compareRoot_def end_matches_def snapshot_matches_def world_root_def)

lemma built_own:
  assumes "world_inv env w" and "end_matches env w b"
  shows "\<exists>w'. MerkleTrees_handleL2Block env b w = (Inr (), w') \<and> world_inv env w' \<and> (\<forall>c. world_view env c w' = world_view env True w)"
  using world_commit_ok[OF assms(1)] end_matches_own[OF assms(2)] by (auto simp: MerkleTrees_handleL2Block_def jbind_def)

lemma world_root_leaves:
  assumes "world_inv env w"
  shows "world_root b w i = merkle_root (compress env) (treeHeight i) (fst (world_leaves env b w i))"
proof -
  let ?t = "ws_base (the_tree w i)"
  have "tree_inv env ?t" "tdepth ?t = treeHeight i" using ws_ok_inv[OF world_inv_ok[OF assms]] world_inv_ok[OF assms, of i] by (simp_all add: ws_ok_def)
  then show ?thesis unfolding world_root_def world_leaves_def leaf_view_def
    using getRoot_merkle[of env ?t b] merkle_root_cong[of "treeHeight i" "\<lambda>j. getLeafValue env ?t j b"
        "\<lambda>j. if in_level (treeHeight i) j then getLeafValue env ?t j b else INITIAL_LEAF" "compress env"] by simp
qed

text \<open>Two nodes that start from the same committed state and apply the same block.\<close>

lemma block_applied_agree:
  assumes "world_inv env w1" "world_inv env w2" and "world_inv env v" "world_inv env u" "world_view env False v = world_view env False u"
    and "block_applied env b v w1 c" and "block_applied env b u w2 c"
  shows "(\<forall>i. i \<noteq> NULLIFIER_TREE \<longrightarrow> world_leaves env c w1 i = world_leaves env c w2 i) \<and> world_nullifiers env c w1 = world_nullifiers env c w2"
proof -
  have f: "world_leaves env False v i = world_leaves env False u i" "world_nullifiers env False v = world_nullifiers env False u" for i
    using world_leaves_cong[OF assms(3,4)] assms(5) by (auto simp: world_nullifiers_def)
  note a = assms(6)[unfolded block_applied_def f] and b = assms(7)[unfolded block_applied_def]
  have base: "world_leaves env c w1 i = world_leaves env c w2 i" if "i \<notin> insert NULLIFIER_TREE root_trees" for i
    using a b that by (cases i) auto
  then have "world_root c w1 i = world_root c w2 i" if "i \<notin> insert NULLIFIER_TREE root_trees" for i
    using that world_root_leaves[OF assms(1)] world_root_leaves[OF assms(2)] by metis
  then have "world_leaves env c w1 r = world_leaves env c w2 r" if "r \<in> root_trees" for r
    using a b that by (auto simp: roots_pairs_def)
  with base have "world_leaves env c w1 i = world_leaves env c w2 i" if "i \<noteq> NULLIFIER_TREE" for i
    using that by blast
  then show ?thesis using a b by simp
qed

lemma built_handled:
  assumes ok: "buildable B w txs ms" and run: "buildL2Block B n txs ms w = (Inr (b, p), w')" and env: "env = bb_trees B"
    and v: "world_inv env v" "world_view env False v = world_view env False w" "rootChecks b v = Inr cs" "\<not> list_all id cs"
  shows "\<exists>wb vf. MerkleTrees_handleL2Block env b w' = (Inr (), wb) \<and> MerkleTrees_handleL2Block env b v = (Inr (), vf) \<and>
    world_inv env wb \<and> world_inv env vf \<and> (\<forall>c. block_applied env (b\<lparr>newL1ToL2Messages := padded_messages ms\<rparr>) w wb c) \<and> (\<forall>c. block_applied env b v vf c)"
proof -
  have e: "end_matches env w' b" "block_applied env (b\<lparr>newL1ToL2Messages := padded_messages ms\<rparr>) w w' True" "world_inv env w'" "block_fits env w b"
    using build_effect[OF ok run] env by auto
  have inv: "world_inv env w" using ok env by (simp add: buildable_def Let_def)
  obtain wb where wb: "MerkleTrees_handleL2Block env b w' = (Inr (), wb)" "world_inv env wb" "\<forall>c. world_view env c wb = world_view env True w'"
    using built_own[OF e(3,1)] by blast
  have "block_fits env v b" using e(4) world_leaves_cong[OF v(1) inv] v(2) by (simp add: block_fits_def)
  then obtain vf where vf: "MerkleTrees_handleL2Block env b v = (Inr (), vf)" "world_inv env vf" "\<forall>c. block_applied env b v vf c"
    using foreign_block_ok[OF v(1) _ v(3,4)] by blast
  have "block_applied env (b\<lparr>newL1ToL2Messages := padded_messages ms\<rparr>) w wb c" for c
    using e(2) settled_frame[OF e(3) wb(2,3)] by (simp add: block_applied_def)
  then show ?thesis using wb vf by blast
qed

end
