(* ===== verification/RollupTree.thy ===== *)
theory RollupTree
  imports BlockBuilderEffects
begin

text \<open>
  The tree of rollups: the test of the number of transactions accepts the powers of two from 4, and for these the layers of merge rollups end with
  two outputs, which are the roots of the balanced trees over the two halves of the base rollups.
\<close>

lemma and_pred_power_of_two:
  "0 < n \<Longrightarrow> and n (n - 1) = 0 \<longleftrightarrow> (\<exists>k. n = 2 ^ k)" for n :: nat
proof (induction n rule: less_induct)
  case (less n)
  show ?case
  proof (cases "even n")
    case True
    then obtain m where m: "n = 2 * m" by blast
    then have "odd (n - 1)" "(n - 1) div 2 = m - 1" using less.prems by presburger+
    then have "and n (n - 1) = 2 * and m (m - 1)" using and_rec[of n "n - 1"] True by (simp add: m)
    moreover have "(\<exists>k. n = 2 ^ k) \<longleftrightarrow> (\<exists>k. m = 2 ^ k)"
    proof
      assume "\<exists>k. n = 2 ^ k"
      then obtain k where "n = 2 ^ k" by blast
      then show "\<exists>k. m = 2 ^ k" using m by (cases k) auto
    qed (use m in \<open>auto intro: exI[of _ "Suc _"]\<close>)
    ultimately show ?thesis using less.IH[of m] less.prems m by simp
  next
    case False
    then obtain m where m: "n = 2 * m + 1" using oddE by blast
    then have "and n (n - 1) = 2 * m" using and_rec[of n "n - 1"] by simp
    moreover have "(\<exists>k. n = 2 ^ k) \<longleftrightarrow> m = 0"
    proof
      assume "\<exists>k. n = 2 ^ k"
      then obtain k where "n = 2 ^ k" by blast
      then show "m = 0" using m False by (cases k) auto
    qed (use m in \<open>auto intro: exI[of _ 0]\<close>)
    ultimately show ?thesis by simp
  qed
qed

lemma block_size_test:
  "\<not> (n < 4 \<or> and n (n - 1) \<noteq> 0) \<longleftrightarrow> (\<exists>k \<ge> 2. n = 2 ^ k)" for n :: nat
proof -
  have "(4 \<le> (2 :: nat) ^ k) \<longleftrightarrow> 2 \<le> k" for k
    using power_increasing_iff[of "2 :: nat" 2 k] by simp
  moreover have "4 \<le> n \<Longrightarrow> and n (n - 1) = 0 \<longleftrightarrow> (\<exists>k. n = 2 ^ k)" using and_pred_power_of_two[of n] by simp
  ultimately show ?thesis by (auto simp: not_less)
qed

text \<open>A reference for the layers: the balanced tree over \<open>2 ^ k\<close> outputs, by recursion on the halves.\<close>

fun merge_tree :: "('a \<Rightarrow> 'a \<Rightarrow> 'a result) \<Rightarrow> nat \<Rightarrow> 'a list \<Rightarrow> 'a result" where
  "merge_tree f 0 xs = (case xs of [x] \<Rightarrow> Inr x | _ \<Rightarrow> Inl TypeError)"
| "merge_tree f (Suc k) xs = rbind (merge_tree f k (take (2 ^ k) xs)) (\<lambda>l. rbind (merge_tree f k (drop (2 ^ k) xs)) (f l))"

lemma map_pairs_append:
  "even (length xs) \<Longrightarrow> map_pairs f (xs @ ys) = Inr zs \<longleftrightarrow> (\<exists>us vs. map_pairs f xs = Inr us \<and> map_pairs f ys = Inr vs \<and> zs = us @ vs)"
proof (induction f xs arbitrary: zs rule: map_pairs.induct)
  case (3 f x y xs)
  then show ?case by (auto simp: rbind_eq_Inr)
qed auto

lemma merge_tree_layer:
  "length xs = 2 ^ Suc k \<Longrightarrow> merge_tree f (Suc k) xs = Inr r \<longleftrightarrow> (\<exists>ys. map_pairs f xs = Inr ys \<and> merge_tree f k ys = Inr r)"
proof (induction k arbitrary: xs r)
  case 0
  then obtain x y where "xs = [x, y]" by (auto simp: length_Suc_conv numeral_eq_Suc)
  then show ?case by (auto simp: rbind_eq_Inr)
next
  case (Suc k)
  let ?l = "take (2 ^ Suc k) xs" and ?r = "drop (2 ^ Suc k) xs"
  have len: "length ?l = 2 ^ Suc k" "length ?r = 2 ^ Suc k" "xs = ?l @ ?r" using Suc.prems by simp_all
  have "merge_tree f (Suc (Suc k)) xs = Inr r \<longleftrightarrow> (\<exists>a b. merge_tree f (Suc k) ?l = Inr a \<and> merge_tree f (Suc k) ?r = Inr b \<and> f a b = Inr r)"
    by (simp add: rbind_eq_Inr del: merge_tree.simps(2) add: merge_tree.simps(2)[of f "Suc k"])
  also have "\<dots> \<longleftrightarrow> (\<exists>a b us vs. map_pairs f ?l = Inr us \<and> map_pairs f ?r = Inr vs \<and> merge_tree f k us = Inr a \<and> merge_tree f k vs = Inr b \<and> f a b = Inr r)"
    unfolding Suc.IH[OF len(1)] Suc.IH[OF len(2)] by blast
  also have "\<dots> \<longleftrightarrow> (\<exists>us vs. map_pairs f ?l = Inr us \<and> map_pairs f ?r = Inr vs \<and> merge_tree f (Suc k) (us @ vs) = Inr r)"
    using map_pairs_length[of f ?l] len(1) by (auto simp: rbind_eq_Inr)
  also have "\<dots> \<longleftrightarrow> (\<exists>ys. map_pairs f (?l @ ?r) = Inr ys \<and> merge_tree f (Suc k) ys = Inr r)"
    using map_pairs_append[of ?l f ?r] len(1) by auto
  finally show ?case using len(3) by simp
qed

lemma merge_layers_tree:
  assumes "length xs = 2 ^ Suc k"
  shows "merge_layers B xs = Inr ys \<longleftrightarrow> (\<exists>l r. ys = [l, r] \<and> merge_tree (mergeRollupCircuit B) k (take (2 ^ k) xs) = Inr l \<and>
    merge_tree (mergeRollupCircuit B) k (drop (2 ^ k) xs) = Inr r)"
  using assms
proof (induction k arbitrary: xs)
  case 0
  then obtain x y where "xs = [x, y]" by (auto simp: length_Suc_conv numeral_eq_Suc)
  then show ?case by (auto simp: merge_layers.simps)
next
  case (Suc k)
  let ?f = "mergeRollupCircuit B" and ?l = "take (2 ^ Suc k) xs" and ?r = "drop (2 ^ Suc k) xs"
  have len: "length ?l = 2 ^ Suc k" "length ?r = 2 ^ Suc k" "xs = ?l @ ?r" using Suc.prems by simp_all
  have "1 \<le> (2 :: nat) ^ k" by simp
  then have "2 < length xs" unfolding Suc.prems power_Suc by linarith
  then have "merge_layers B xs = Inr ys \<longleftrightarrow> (\<exists>zs. map_pairs ?f xs = Inr zs \<and> merge_layers B zs = Inr ys)"
    by (subst merge_layers.simps) (auto split: sum.splits)
  also have "\<dots> \<longleftrightarrow> (\<exists>us vs. map_pairs ?f ?l = Inr us \<and> map_pairs ?f ?r = Inr vs \<and> merge_layers B (us @ vs) = Inr ys)"
    using map_pairs_append[of ?l ?f ?r] len by auto
  also have "\<dots> \<longleftrightarrow> (\<exists>us vs l r. map_pairs ?f ?l = Inr us \<and> map_pairs ?f ?r = Inr vs \<and> ys = [l, r] \<and> merge_tree ?f k us = Inr l \<and> merge_tree ?f k vs = Inr r)"
  proof -
    have "merge_layers B (us @ vs) = Inr ys \<longleftrightarrow> (\<exists>l r. ys = [l, r] \<and> merge_tree ?f k us = Inr l \<and> merge_tree ?f k vs = Inr r)"
      if "map_pairs ?f ?l = Inr us" "map_pairs ?f ?r = Inr vs" for us vs
      using Suc.IH[of "us @ vs"] map_pairs_length[OF that(1)] map_pairs_length[OF that(2)] len(1,2) by simp
    then show ?thesis by blast
  qed
  finally show ?case unfolding merge_tree_layer[OF len(1)] merge_tree_layer[OF len(2)] by blast
qed

lemma rejected_run:
  assumes "getStartSnapshots w = Inr s"
  shows "validateTxs txs = Inl e \<Longrightarrow> buildL2Block B n txs ms w = (Inl e, w)"
    and "validateTxs txs = Inr () \<Longrightarrow> \<not> (\<exists>k \<ge> 2. length txs = 2 ^ k) \<Longrightarrow> buildL2Block B n txs ms w = (Inl (power_of_two_error (length txs)), w)"
    and "validateTxs txs = Inr () \<Longrightarrow> \<exists>k \<ge> 2. length txs = 2 ^ k \<Longrightarrow> NUMBER_OF_L1_L2_MESSAGES_PER_ROLLUP < length ms \<Longrightarrow>
      buildL2Block B n txs ms w = (Inl (Error ''Array size exceeds target length''), w)"
  using assms unfolding block_size_test[symmetric] by (auto simp: buildL2Block_def runCircuits_def jbind_def jgets_def padArrayEnd_def)

lemma zero_root_rejected:
  assumes "t \<in> set txs" and "r \<in> {pht_privateDataTreeRoot, pht_contractTreeRoot, pht_nullifierTreeRoot, pht_l1ToL2MessagesTreeRoot}"
    and "Fr_isZero (r (tx_historic_roots t))"
  shows "\<exists>name. validateTxs txs = Inl (zero_root_error name)"
proof -
  have all: "(\<exists>name. validateTx t = Inl (zero_root_error name)) \<or> validateTx t = Inr ()" for t
    by (auto simp: validateTx_def Let_def)
  have "\<exists>name. validateTx t = Inl (zero_root_error name)"
    using assms(2,3) by (auto simp: validateTx_def Let_def tx_historic_roots_def)
  moreover have "\<exists>name. rtraverse validateTx us = Inl (zero_root_error name)" if "t \<in> set us" for us
    using that calculation
  proof (induction us)
    case (Cons u us)
    then show ?case using all[of u] by auto blast
  qed simp
  ultimately show ?thesis using assms(1) unfolding validateTxs_def by fastforce
qed

end
