(* ===== verification/BlockBuilderSample.thy ===== *)
theory BlockBuilderSample
  imports RollupTree
begin

text \<open>
  The block builder succeeds: for transactions whose arrays have the lengths of the circuits and whose historic roots are in the trees, there are
  outputs of the circuits with which \<open>buildL2Block\<close> returns a block. The outputs are read off the trees that the builder reaches.
\<close>

section \<open>Reads that always succeed\<close>

lemma toFieldArray_total: "\<exists>fs. SiblingPath_toFieldArray p = Inr fs \<and> length fs = length (sp_data p)"
proof -
  have "\<exists>x. fst (Fr_fromBuffer (new_BufferReader b 0)) = Inr x" for b
    by (simp add: Fr_fromBuffer_def new_BufferReader_def readBytes_short jbind_def)
  then have "\<exists>fs. rtraverse (\<lambda>buf. fst (Fr_fromBuffer (new_BufferReader buf 0))) (sp_data p) = Inr fs" by (intro rtraverse_total) blast
  then show ?thesis unfolding SiblingPath_toFieldArray_def rtraverse_Inr using list_all2_lengthD by metis
qed

lemma path_total:
  assumes "world_inv env w"
  shows "\<exists>path. Facade_getSiblingPath env asLatest i j w = Inr path \<and> pathSize path = int (treeHeight i) \<and> length (sp_data path) = treeHeight i"
  using world_inv_ok[OF assms, of i]
  by (simp add: Facade_getSiblingPath_def MerkleTrees_getSiblingPath_def getSiblingPath_def new_SiblingPath_def ws_ok_def)

lemma path_fields_total:
  assumes "world_inv env w"
  shows "\<exists>fs. rbind (Facade_getSiblingPath env asLatest i j w) SiblingPath_toFieldArray = Inr fs \<and> length fs = treeHeight i"
  using path_total[OF assms, of i j] toFieldArray_total by fastforce

lemma subtree_path_total:
  assumes "world_inv env w" and "h \<le> treeHeight i"
  shows "\<exists>fs. builder_getSubtreeSiblingPath env i h w = Inr fs \<and> length fs = treeHeight i - h"
proof -
  obtain p where p: "Facade_getSiblingPath env asLatest i (ti_size (Facade_getTreeInfo asLatest i w)) w = Inr p" "pathSize p = int (treeHeight i)"
    "length (sp_data p) = treeHeight i" using path_total[OF assms(1)] by blast
  then have "SiblingPath_getSubtreeSiblingPath p h = Inr \<lparr>pathSize = int (treeHeight i) - int h, sp_data = drop h (sp_data p)\<rparr>"
    using assms(2) by (simp add: SiblingPath_getSubtreeSiblingPath_def new_SiblingPath_def Let_def)
  then show ?thesis using p(1,3) toFieldArray_total[of "\<lparr>pathSize = int (treeHeight i) - int h, sp_data = drop h (sp_data p)\<rparr>"]
    by (simp add: builder_getSubtreeSiblingPath_def)
qed

text \<open>A value that is zero or a leaf of a tree.\<close>

definition known_root :: "'db tree_env \<Rightarrow> 'db merkle_trees \<Rightarrow> MerkleTreeId \<Rightarrow> fr \<Rightarrow> bool" where
  "known_root env w i x \<longleftrightarrow> Fr_isZero x \<or> (\<exists>j. 0 \<le> j \<and> j < snd (world_leaves env True w i) \<and> j < 2 ^ treeHeight i \<and>
     fst (world_leaves env True w i) j = fr_bytes x \<and> fr_ok x)"

lemma membership_total:
  assumes inv: "world_inv env w" and i: "i \<noteq> NULLIFIER_TREE" and h: "height = treeHeight i"
    and found: "known_root env w i x"
  shows "\<exists>m. getMembershipWitnessFor env x i height w = Inr m"
proof (cases "Fr_isZero x")
  case True
  then show ?thesis by (simp add: getMembershipWitnessFor_def makeEmptyMembershipWitness_def new_MembershipWitness_def assertMemberLength_def makeTuple_def)
next
  case False
  then obtain j where j: "0 \<le> j" "j < snd (world_leaves env True w i)" "j < 2 ^ treeHeight i" "fst (world_leaves env True w i) j = fr_bytes x" "fr_ok x"
    using found by (auto simp: known_root_def)
  let ?t = "ws_base (the_tree w i)"
  have val: "ws_getLeafValue env k True (the_tree w i) = Inr (Some (getLeafValue env ?t k True))" for k
    using world_inv_ok[OF inv, of i] i by (cases "the_tree w i") (simp_all add: ws_ok_def)
  have d: "tdepth ?t = treeHeight i" using world_inv_ok[OF inv, of i] by (simp add: ws_ok_def)
  have "getLeafValue env ?t j True = fr_bytes x" "j < getNumLeaves ?t True"
    using j by (simp_all add: world_leaves_def leaf_view_def d in_level_def)
  then have "List.find (\<lambda>k. getLeafValue env ?t k True = fr_bytes x) (map int [0..<nat (getNumLeaves ?t True)]) \<noteq> None"
    using j(1) by (auto simp: find_None_iff intro!: bexI[of _ "nat j"] simp: nat_less_iff)
  then obtain k where "Facade_findLeafIndex env asLatest i (fr_bytes x) w = Inr (Some k)"
    by (auto simp: Facade_findLeafIndex_def MerkleTrees_findLeafIndex_def Let_def asLatest_def val
        find_leaf_loop_find[where f = "\<lambda>j. getLeafValue env ?t j True"])
  moreover obtain fs where "rbind (Facade_getSiblingPath env asLatest i k w) SiblingPath_toFieldArray = Inr fs" "length fs = treeHeight i"
    using path_fields_total[OF inv] by blast
  ultimately show ?thesis using False
    by (auto simp: getMembershipWitnessFor_def Fr_toBuffer_fr_bytes[OF j(5)] h rbind_eq_Inr assertLength_def new_MembershipWitness_def assertMemberLength_def)
qed


section \<open>The paths of low leaves\<close>

lemma sibling_path_length: "it_getSiblingPath env t i b = Inr path \<Longrightarrow> length (sp_data path) = tdepth (it_base t)"
  by (auto simp: it_getSiblingPath_def getSiblingPath_def new_SiblingPath_def split: if_splits)

abbreviation path_length :: "low_leaf_witness \<Rightarrow> nat" where
  "path_length l \<equiv> length (sp_data (siblingPath l))"

lemma batch_step_paths:
  assumes "batch_step env e n i leaf acc t = (Inr (Some acc'), t')" and "tdepth (it_base t) = d" and "path_length e = d"
    and "\<forall>l \<in> set (lowLeavesWitnesses acc). path_length l = d"
  shows "(\<forall>l \<in> set (lowLeavesWitnesses acc'). path_length l = d) \<and> tdepth (it_base t') = d"
  using assms
  by (auto simp: batch_step_def Let_def jbind_eq_Inr it_updateLeaf_def it_updateLeaf_hash_def it_set_cachedSize_def dest!: sibling_path_length
      split: if_splits option.splits prod.splits)

lemma batch_loop_paths:
  assumes "batch_loop env e n i ls acc t = (Inr (Some acc'), t')" and "tdepth (it_base t) = d" and "path_length e = d"
    and "\<forall>l \<in> set (lowLeavesWitnesses acc). path_length l = d"
  shows "(\<forall>l \<in> set (lowLeavesWitnesses acc'). path_length l = d) \<and> tdepth (it_base t') = d"
  using assms
proof (induction ls arbitrary: i acc t)
  case (Cons leaf ls)
  then obtain a t1 where "batch_step env e n i leaf acc t = (Inr (Some a), t1)" "batch_loop env e n (i + 1) ls a t1 = (Inr (Some acc'), t')"
    by (auto simp: jbind_eq_Inr split: option.splits)
  then show ?case using Cons.IH batch_step_paths Cons.prems(2-4) by blast
qed simp

lemma batch_paths:
  assumes "batchInsert env ls d h t = (Inr (Some ws, path), t')" and "tdepth (it_base t) = d" and "h \<le> d"
  shows "(\<forall>l \<in> set ws. path_length l = d) \<and> length (sp_data path) = d - h"
proof -
  obtain e where e: "getEmptyLowLeafWitness d = Inr e" "path_length e = d"
    by (simp add: getEmptyLowLeafWitness_def toBufferBE_zero new_SiblingPath_def)
  then obtain acc t1 where loop: "batch_loop env e (it_getNumLeaves t True) 0 ls \<lparr>touched = [], lowLeavesWitnesses = [], pending = []\<rparr> t = (Inr (Some acc), t1)"
    "ws = lowLeavesWitnesses acc" "it_getSubtreeSiblingPath env h True t1 = Inr path"
    using assms(1) by (auto simp: batchInsert_def jbind_eq_Inr Let_def split: option.splits)
  have "(\<forall>l \<in> set ws. path_length l = d) \<and> tdepth (it_base t1) = d"
    using batch_loop_paths[OF loop(1) assms(2) e(2)] loop(2) by simp
  then show ?thesis using subtree_path_ok[of h t1 env True] loop(3) assms(3) by auto
qed

lemma world_batch_paths:
  assumes "world_inv env w" and "MerkleTrees_batchInsert env NULLIFIER_TREE ls (treeHeight NULLIFIER_TREE) h w = (Inr (Some ws, path), w')"
    and "h \<le> treeHeight NULLIFIER_TREE"
  shows "(\<forall>l \<in> set ws. path_length l = treeHeight NULLIFIER_TREE) \<and> length (sp_data path) = treeHeight NULLIFIER_TREE - h"
proof -
  obtain t where t: "the_tree w NULLIFIER_TREE = Indexed t" using the_tree_class(2)[OF assms(1)] by blast
  have "tdepth (it_base t) = treeHeight NULLIFIER_TREE" using world_inv_ok[OF assms(1), of NULLIFIER_TREE] by (simp add: ws_ok_def t)
  then show ?thesis using assms(2,3) batch_paths[of env ls _ h t ws path]
    by (auto simp: MerkleTrees_batchInsert_def on_tree_def t lift_indexed_def split: prod.splits)
qed

section \<open>A base rollup succeeds\<close>

lemma requests_total:
  assumes "world_inv env w" and "\<forall>r \<in> set rs. request_ok r"
  shows "\<exists>ps w'. process_update_requests env rs w = (Inr ps, w') \<and> length ps = length rs \<and> (\<forall>p \<in> set ps. length p = treeHeight PUBLIC_DATA_TREE)"
  using assms
proof (induction rs arbitrary: w)
  case (Cons r rs)
  have ok: "fr_ok (pdu_newValue r)" "in_level (treeHeight PUBLIC_DATA_TREE) (fr_value (pdu_leafIndex r))"
    using Cons.prems(2) by (simp_all add: request_ok_def)
  obtain path where path: "Facade_getSiblingPath env asLatest PUBLIC_DATA_TREE (fr_value (pdu_leafIndex r)) w = Inr path"
    "length (sp_data path) = treeHeight PUBLIC_DATA_TREE" using path_total[OF Cons.prems(1)] by blast
  obtain fs where fs: "SiblingPath_toFieldArray path = Inr fs" "length fs = treeHeight PUBLIC_DATA_TREE"
    using toFieldArray_total[of path] path(2) by auto
  obtain w1 where w1: "MerkleTrees_updateLeaf env PUBLIC_DATA_TREE (LeafBuffer (fr_bytes (pdu_newValue r))) (fr_value (pdu_leafIndex r)) w = (Inr (), w1)"
    "world_inv env w1" using update_public_step[OF Cons.prems(1) ok(2), of "fr_bytes (pdu_newValue r)"] by (auto simp: pending_step_def)
  obtain ps w' where "process_update_requests env rs w1 = (Inr ps, w')" "length ps = length rs" "\<forall>p \<in> set ps. length p = treeHeight PUBLIC_DATA_TREE"
    using Cons.IH[OF w1(2)] Cons.prems(2) by auto
  then show ?case using path(1) fs w1(1)
    by (intro exI[of _ "fs # ps"] exI[of _ w']) (simp add: jbind_eq_Inr Facade_updateLeaf_def Fr_toBuffer_fr_bytes[OF ok(1)])
qed simp

lemma reads_total:
  assumes "world_inv env w"
  shows "\<exists>ps. getPublicDataReadsSiblingPaths env t w = Inr ps \<and> length ps = length (cad_publicDataReads (tx_end t)) \<and>
    (\<forall>p \<in> set ps. length p = treeHeight PUBLIC_DATA_TREE)"
proof -
  have "\<exists>ps. rtraverse (\<lambda>r. public_data_path env (fr_value (pdr_leafIndex r)) w) rs = Inr ps \<and> length ps = length rs \<and>
      (\<forall>p \<in> set ps. length p = treeHeight PUBLIC_DATA_TREE)" for rs
  proof (induction rs)
    case (Cons r rs)
    then show ?case using path_fields_total[OF assms, of PUBLIC_DATA_TREE "fr_value (pdr_leafIndex r)"] by (auto simp: public_data_path_def)
  qed simp
  then show ?thesis by (simp add: getPublicDataReadsSiblingPaths_def)
qed

text \<open>A transaction with arrays of the lengths of the kernel circuit.\<close>

definition tx_complete :: "processed_tx \<Rightarrow> bool" where
  "tx_complete t \<longleftrightarrow> tx_fits t \<and> length (cad_newCommitments (tx_end t)) = 4 \<and> length (cad_newNullifiers (tx_end t)) = 4 \<and>
     length (cad_newContracts (tx_end t)) = 1 \<and> length (cad_publicDataUpdateRequests (tx_end t)) = 4 \<and> length (cad_publicDataReads (tx_end t)) = 4"

text \<open>What \<open>new_BaseRollupInputs\<close> checks of the parts.\<close>

definition parts_ok :: "base_rollup_parts \<Rightarrow> bool" where
  "parts_ok p \<longleftrightarrow> length (brp_commitmentsPath p) = 5 \<and> length (brp_contractsPath p) = 7 \<and> length (brp_updatePaths p) = 8 \<and>
     length (brp_readPaths p) = 8 \<and> (\<forall>q \<in> set (brp_updatePaths p) \<union> set (brp_readPaths p). length q = 254) \<and>
     length (brp_nullifierWitnesses p) = 8 \<and> (\<forall>l \<in> set (brp_nullifierWitnesses p). path_length l = 8) \<and> length (sp_data (brp_nullifiersPath p)) = 5"

lemma base_updates_total:
  assumes inv: "world_inv env w" and env: "bb_trees B = env" "hash_bytes env" "computeContractLeaf B = (\<lambda>_. Inr Fr_ZERO)"
    and txs: "tx_complete t1" "tx_complete t2" and new: "fresh_nullifiers (world_nullifiers env True w) (tx_nullifiers [t1, t2])"
    and room: "snd (world_leaves env True w NULLIFIER_TREE) + 8 \<le> 2 ^ 8" "snd (world_leaves env True w CONTRACT_TREE) + 2 \<le> 2 ^ 8"
      "snd (world_leaves env True w PRIVATE_DATA_TREE) + 8 \<le> 2 ^ 8"
  shows "\<exists>p w'. base_rollup_tree_updates B t1 t2 w = (Inr p, w') \<and> parts_ok p \<and> brp_privateDataSnapshot p = tree_snapshot env w PRIVATE_DATA_TREE"
proof -
  have fits: "tx_fits t1" "tx_fits t2" using txs by (simp_all add: tx_complete_def)
  have ok: "\<forall>x \<in> set (tx_commitments [t1, t2]). fr_ok x" "\<forall>x \<in> set (tx_nullifiers [t1, t2]). fr_ok x"
    and rs: "\<forall>r \<in> set (cad_publicDataUpdateRequests (tx_end t1)). request_ok r" "\<forall>r \<in> set (cad_publicDataUpdateRequests (tx_end t2)). request_ok r"
    using fits by (auto simp: tx_fits_def tx_commitments_def tx_nullifiers_def)
  have len: "length (tx_commitments [t1, t2]) = 8" "length (tx_nullifiers [t1, t2]) = 8" using txs by (auto simp: tx_complete_def tx_commitments_def tx_nullifiers_def)
  have cs: "tx_contract_leaves B [t1, t2] = Inr [Fr_ZERO, Fr_ZERO]"
    using txs by (auto simp: tx_complete_def tx_contract_leaves_def env(3) length_Suc_conv)
  have z: "\<forall>x \<in> set [Fr_ZERO, Fr_ZERO]. fr_ok x" by (simp add: Fr_ZERO_def new_Fr_def fr_ok_def)
  obtain k where k: "getConstantBaseRollupData w = Inr k" by (simp add: getConstantBaseRollupData_def getTreeSnapshot_ok[OF inv env(2)])
  obtain p1 p2 where paths: "builder_getSubtreeSiblingPath env PRIVATE_DATA_TREE PRIVATE_DATA_SUBTREE_HEIGHT w = Inr p1" "length p1 = 5"
    "builder_getSubtreeSiblingPath env CONTRACT_TREE CONTRACT_SUBTREE_HEIGHT w = Inr p2" "length p2 = 7"
    using subtree_path_total[OF inv, of PRIVATE_DATA_SUBTREE_HEIGHT PRIVATE_DATA_TREE] subtree_path_total[OF inv, of CONTRACT_SUBTREE_HEIGHT CONTRACT_TREE]
    by (auto simp: PRIVATE_DATA_SUBTREE_HEIGHT_def CONTRACT_SUBTREE_HEIGHT_def)
  obtain w1 where w1: "MerkleTrees_appendLeaves env CONTRACT_TREE (map fr_bytes [Fr_ZERO, Fr_ZERO]) w = (Inr (), w1)" "pending_on env {CONTRACT_TREE} w w1"
    using append_standard_step[OF inv, of CONTRACT_TREE "map fr_bytes [Fr_ZERO, Fr_ZERO]"] room by (auto simp: pending_step_on)
  note f1 = pending_frame[OF inv w1(2)]
  obtain w2 where w2: "MerkleTrees_appendLeaves env PRIVATE_DATA_TREE (map fr_bytes (tx_commitments [t1, t2])) w1 = (Inr (), w2)" "pending_on env {PRIVATE_DATA_TREE} w1 w2"
    using append_standard_step[OF f1(1), of PRIVATE_DATA_TREE "map fr_bytes (tx_commitments [t1, t2])"] room len by (auto simp: pending_step_on f1)
  note f2 = pending_frame[OF f1(1) w2(2)]
  obtain r1 where r1: "getPublicDataReadsSiblingPaths env t1 w2 = Inr r1" "length r1 = 4" "\<forall>p \<in> set r1. length p = 254"
    using reads_total[OF f2(1), of t1] txs by (auto simp: tx_complete_def)
  obtain u1 w3 where u1: "process_update_requests env (cad_publicDataUpdateRequests (tx_end t1)) w2 = (Inr u1, w3)" "length u1 = 4" "\<forall>p \<in> set u1. length p = 254"
    using requests_total[OF f2(1) rs(1)] txs by (auto simp: tx_complete_def)
  note f3 = pending_frame[OF f2(1) process_requests_step[OF f2(1) rs(1) u1(1), THEN conjunct1]]
  obtain r2 where r2: "getPublicDataReadsSiblingPaths env t2 w3 = Inr r2" "length r2 = 4" "\<forall>p \<in> set r2. length p = 254"
    using reads_total[OF f3(1), of t2] txs by (auto simp: tx_complete_def)
  obtain u2 w4 where u2: "process_update_requests env (cad_publicDataUpdateRequests (tx_end t2)) w3 = (Inr u2, w4)" "length u2 = 4" "\<forall>p \<in> set u2. length p = 254"
    using requests_total[OF f3(1) rs(2)] txs by (auto simp: tx_complete_def)
  note f4 = pending_frame[OF f3(1) process_requests_step[OF f3(1) rs(2) u2(1), THEN conjunct1]]
  obtain w5 ws path where w5: "MerkleTrees_batchInsert env NULLIFIER_TREE (map fr_bytes (tx_nullifiers [t1, t2])) NULLIFIER_TREE_HEIGHT NULLIFIER_SUBTREE_HEIGHT w4 =
      (Inr (Some ws, path), w5)" "length ws = 8"
    using batch_nullifiers_step[OF f4(1) fresh_insertable[OF ok(2)], of NULLIFIER_SUBTREE_HEIGHT NULLIFIER_TREE_HEIGHT] new room len
    by (auto simp: f1 f2 f3 f4 NULLIFIER_SUBTREE_HEIGHT_def)
  have wp: "\<forall>l \<in> set ws. path_length l = 8" "length (sp_data path) = 5"
    using world_batch_paths[OF f4(1), of _ NULLIFIER_SUBTREE_HEIGHT ws path] w5(1) by (auto simp: NULLIFIER_TREE_HEIGHT_def NULLIFIER_SUBTREE_HEIGHT_def)
  show ?thesis
    using k paths w1(1) w2(1) r1 u1 r2 u2 w5 wp
    by (auto simp: base_rollup_tree_updates_def Let_def env(1) jbind_def jgets_def cs getTreeSnapshot_ok[OF inv env(2)] rtraverse_fr_bytes[OF ok(1)]
        rtraverse_fr_bytes[OF ok(2)] Fr_toBuffer_fr_bytes z[simplified] Facade_appendLeaves_def Facade_batchInsert_def processPublicDataUpdateRequests_def parts_ok_def)
qed


text \<open>The historic roots of a transaction are known.\<close>

definition roots_known :: "'db tree_env \<Rightarrow> 'db merkle_trees \<Rightarrow> processed_tx \<Rightarrow> bool" where
  "roots_known env w t \<longleftrightarrow> known_root env w CONTRACT_TREE_ROOTS_TREE (pht_contractTreeRoot (tx_historic_roots t)) \<and>
     known_root env w PRIVATE_DATA_TREE_ROOTS_TREE (pht_privateDataTreeRoot (tx_historic_roots t)) \<and>
     known_root env w L1_TO_L2_MESSAGES_ROOTS_TREE (pht_l1ToL2MessagesTreeRoot (tx_historic_roots t))"

lemma low_leaves_total:
  assumes "\<forall>l \<in> set ws. path_length l = 8"
  shows "\<exists>ms. rtraverse low_leaf_membership ws = Inr ms \<and> length ms = length ws"
proof -
  have "\<exists>m. low_leaf_membership l = Inr m" if "path_length l = 8" for l
    using that toFieldArray_total[of "siblingPath l"]
    by (auto simp: low_leaf_membership_def SiblingPath_toBufferArray_def assertLength_def NULLIFIER_TREE_HEIGHT_def MembershipWitness_fromBufferArray_def
        new_MembershipWitness_def assertMemberLength_def SiblingPath_toFieldArray_def)
  then have "\<exists>ms. rtraverse low_leaf_membership ws = Inr ms" using assms by (intro rtraverse_total) blast
  then show ?thesis by (metis rtraverse_Inr list_all2_lengthD)
qed

lemma items_length: "\<forall>xs \<in> set xss. length xs = n \<Longrightarrow> assertItemsLength_from m n i xss = Inr ()"
  by (induction xss arbitrary: i) auto

lemma base_input_total:
  assumes inv: "world_inv (bb_trees B) w" and p: "parts_ok p" and known: "roots_known (bb_trees B) w t1" "roots_known (bb_trees B) w t2"
  shows "\<exists>inp. base_rollup_input_of B t1 t2 p w = Inr inp \<and> bri_startPrivateDataTreeSnapshot inp = brp_privateDataSnapshot p"
proof -
  obtain ms where ms: "rtraverse low_leaf_membership (brp_nullifierWitnesses p) = Inr ms" "length ms = 8"
    using low_leaves_total[of "brp_nullifierWitnesses p"] p by (auto simp: parts_ok_def)
  obtain np where np: "SiblingPath_toFieldArray (brp_nullifiersPath p) = Inr np" "length np = 5"
    using toFieldArray_total[of "brp_nullifiersPath p"] p by (auto simp: parts_ok_def)
  have k: "\<exists>d. getKernelDataFor vks t = Inr d" for vks t
    by (simp add: getKernelDataFor_def assertLength_def new_PreviousKernelData_def assertMemberLength_def)
  have "\<exists>m. getContractMembershipWitnessFor (bb_trees B) t w = Inr m" "\<exists>m. getDataMembershipWitnessFor (bb_trees B) t w = Inr m"
    "\<exists>m. getL1ToL2MessageMembershipWitnessFor (bb_trees B) t w = Inr m" if "roots_known (bb_trees B) w t" for t
    using that membership_total[OF inv, of CONTRACT_TREE_ROOTS_TREE 8] membership_total[OF inv, of PRIVATE_DATA_TREE_ROOTS_TREE 8]
      membership_total[OF inv, of L1_TO_L2_MESSAGES_ROOTS_TREE 8]
    by (simp_all add: getContractMembershipWitnessFor_def getDataMembershipWitnessFor_def getL1ToL2MessageMembershipWitnessFor_def roots_known_def
        CONTRACT_TREE_ROOTS_TREE_HEIGHT_def PRIVATE_DATA_TREE_ROOTS_TREE_HEIGHT_def L1_TO_L2_MESSAGES_ROOTS_TREE_HEIGHT_def)
  with k known obtain k1 k2 c1 c2 d1 d2 m1 m2 where "getKernelDataFor (bb_vks B) t1 = Inr k1" "getKernelDataFor (bb_vks B) t2 = Inr k2"
    "getContractMembershipWitnessFor (bb_trees B) t1 w = Inr c1" "getContractMembershipWitnessFor (bb_trees B) t2 w = Inr c2"
    "getDataMembershipWitnessFor (bb_trees B) t1 w = Inr d1" "getDataMembershipWitnessFor (bb_trees B) t2 w = Inr d2"
    "getL1ToL2MessageMembershipWitnessFor (bb_trees B) t1 w = Inr m1" "getL1ToL2MessageMembershipWitnessFor (bb_trees B) t2 w = Inr m2" by metis
  then show ?thesis using ms np p
    by (auto simp: base_rollup_input_of_def Let_def new_BaseRollupInputs_def assertMemberLength_def assertItemsLength_def parts_ok_def
        KERNEL_NEW_NULLIFIERS_LENGTH_def PRIVATE_DATA_TREE_HEIGHT_def PRIVATE_DATA_SUBTREE_HEIGHT_def NULLIFIER_TREE_HEIGHT_def NULLIFIER_SUBTREE_HEIGHT_def
        CONTRACT_TREE_HEIGHT_def CONTRACT_SUBTREE_HEIGHT_def KERNEL_PUBLIC_DATA_UPDATE_REQUESTS_LENGTH_def KERNEL_PUBLIC_DATA_READS_LENGTH_def
        PUBLIC_DATA_TREE_HEIGHT_def items_length)
qed


section \<open>Outputs that agree with the trees\<close>

definition base_output_for :: "'db tree_env \<Rightarrow> aggregation_object \<Rightarrow> constant_base_rollup_data \<Rightarrow> 'db merkle_trees \<Rightarrow> rollup_public_inputs" where
  "base_output_for env a k w = (let s = tree_snapshot env w in
     \<lparr>rpi_rollupType = RollupTypes_Base, rpi_rollupSubTreeHeight = Fr_ZERO, rpi_endAggregationObject = a, rpi_constants = k,
      rpi_startPrivateDataTreeSnapshot = s PRIVATE_DATA_TREE, rpi_endPrivateDataTreeSnapshot = s PRIVATE_DATA_TREE,
      rpi_startNullifierTreeSnapshot = s NULLIFIER_TREE, rpi_endNullifierTreeSnapshot = s NULLIFIER_TREE,
      rpi_startContractTreeSnapshot = s CONTRACT_TREE, rpi_endContractTreeSnapshot = s CONTRACT_TREE,
      rpi_startPublicDataTreeRoot = snap_root (s PUBLIC_DATA_TREE), rpi_endPublicDataTreeRoot = snap_root (s PUBLIC_DATA_TREE),
      rpi_calldataHash = [Fr_ZERO, Fr_ZERO]\<rparr>)"

definition root_output_for :: "'db tree_env \<Rightarrow> aggregation_object \<Rightarrow> 'db merkle_trees \<Rightarrow> root_rollup_public_inputs" where
  "root_output_for env a w = (let s = tree_snapshot env w in
     \<lparr>rrp_endAggregationObject = a, rrp_startPrivateDataTreeSnapshot = s PRIVATE_DATA_TREE, rrp_endPrivateDataTreeSnapshot = s PRIVATE_DATA_TREE,
      rrp_startNullifierTreeSnapshot = s NULLIFIER_TREE, rrp_endNullifierTreeSnapshot = s NULLIFIER_TREE,
      rrp_startContractTreeSnapshot = s CONTRACT_TREE, rrp_endContractTreeSnapshot = s CONTRACT_TREE,
      rrp_startPublicDataTreeRoot = snap_root (s PUBLIC_DATA_TREE), rrp_endPublicDataTreeRoot = snap_root (s PUBLIC_DATA_TREE),
      rrp_startTreeOfHistoricPrivateDataTreeRootsSnapshot = s PRIVATE_DATA_TREE_ROOTS_TREE,
      rrp_endTreeOfHistoricPrivateDataTreeRootsSnapshot = s PRIVATE_DATA_TREE_ROOTS_TREE,
      rrp_startTreeOfHistoricContractTreeRootsSnapshot = s CONTRACT_TREE_ROOTS_TREE,
      rrp_endTreeOfHistoricContractTreeRootsSnapshot = s CONTRACT_TREE_ROOTS_TREE,
      rrp_startL1ToL2MessageTreeSnapshot = s L1_TO_L2_MESSAGES_TREE, rrp_endL1ToL2MessageTreeSnapshot = s L1_TO_L2_MESSAGES_TREE,
      rrp_startTreeOfHistoricL1ToL2MessageTreeRootsSnapshot = s L1_TO_L2_MESSAGES_ROOTS_TREE,
      rrp_endTreeOfHistoricL1ToL2MessageTreeRootsSnapshot = s L1_TO_L2_MESSAGES_ROOTS_TREE,
      rrp_calldataHash = [Fr_ZERO, Fr_ZERO], rrp_l1ToL2MessagesHash = [Fr_ZERO, Fr_ZERO]\<rparr>)"

lemma snapshot_matches_own: "world_inv env w \<Longrightarrow> hash_bytes env \<Longrightarrow> snapshot_matches env w i (tree_snapshot env w i)"
  using Fr_toBuffer_of_buffer[OF world_root_length[of env w True i]] by (simp add: snapshot_matches_def tree_snapshot_def)

lemma base_output_valid:
  assumes "world_inv env w" and "hash_bytes env"
  shows "validateTrees (BaseOrMergeOutput (base_output_for env a k w)) w = Inr ()"
  using snapshot_matches_own[OF assms] Fr_toBuffer_of_buffer[OF world_root_length[OF assms, of True PUBLIC_DATA_TREE]]
  by (simp add: validateTrees_def validateTree_def getTreeSnapshot_ok[OF assms] validateSimulatedTree_iff[OF assms] validatePublicDataTreeRoot_iff[OF assms]
      base_output_for_def Let_def tree_snapshot_def[of env w PUBLIC_DATA_TREE])

lemma root_output_valid:
  assumes "world_inv env w" and "hash_bytes env"
  shows "validateRootOutput (root_output_for env a w) w = Inr ()"
  unfolding validateRootOutput_iff[OF assms]
  using snapshot_matches_own[OF assms] Fr_toBuffer_of_buffer[OF world_root_length[OF assms, of True PUBLIC_DATA_TREE]]
  by (simp add: root_output_matches_def root_output_for_def Let_def tree_snapshot_def[of env w PUBLIC_DATA_TREE])

lemma output_for_cong:
  "(base_output_for env a k w)\<lparr>rpi_endAggregationObject := a\<rparr> = base_output_for env a k w"
  "(root_output_for env a w)\<lparr>rrp_endAggregationObject := a\<rparr> = root_output_for env a w"
  by (simp_all add: base_output_for_def root_output_for_def Let_def)

lemma rbind_total: "\<exists>x. m = Inr x \<Longrightarrow> (\<And>x. \<exists>y. f x = Inr y) \<Longrightarrow> \<exists>y. rbind m f = Inr y"
  by auto

text \<open>The hash of the call data, with a constant in place of sha256.\<close>

lemma zero_calldata:
  assumes "length (newCommitments b) = 16" and "length (newContracts b) = 4" and "length (newContractData b) = 4"
  shows "check_calldata_hash (\<lambda>_. replicate 32 0) b (root_output_for env a w) = Inr ()"
proof -
  have fr: "\<exists>bs. Fr_toBuffer x = Inr bs" for x using toBufferBE_total[of "fr_value x" 32] by (auto simp: Fr_toBuffer_def)
  have frs: "\<exists>bs. rtraverse Fr_toBuffer xs = Inr bs" for xs by (rule rtraverse_total) (simp add: fr)
  have "\<exists>bs. PublicDataWrite_toBuffer x = Inr bs" for x
    using fr[of "leafIndex x"] fr[of "newValue x"] by (auto simp: PublicDataWrite_toBuffer_def serializeToBuffer_def)
  then have ws: "\<exists>bs. rtraverse PublicDataWrite_toBuffer xs = Inr bs" for xs by (intro rtraverse_total) simp
  have leaf: "\<exists>x. calldata_leaf b i = Inr x" if "i < 2" for i
  proof -
    have "i * 2 + 1 < 4" using that by simp
    then show ?thesis using assms(2,3) unfolding calldata_leaf_def Let_def js_at_def by (intro rbind_total frs ws fr) auto
  qed
  have "\<exists>x. rbind (calldata_leaf b i) (\<lambda>v. Inr (replicate 32 0)) = Inr (replicate 32 (0 :: byte))" if "i < 2" for i using leaf[OF that] by auto
  then have "rtraverse (\<lambda>i. rbind (calldata_leaf b i) (\<lambda>v. Inr (replicate 32 0))) [0..<2] = Inr [replicate 32 (0 :: byte), replicate 32 0]"
    by (simp add: upt_rec)
  then have "L2Block_getCalldataHash (\<lambda>_. replicate 32 0) b = Inr (Some (replicate 32 0))"
    using assms(1) by (simp add: L2Block_getCalldataHash_def KERNEL_NEW_COMMITMENTS_LENGTH_def computeRoot.simps)
  moreover have "RootRollupPublicInputs_sha256CalldataHash (root_output_for env a w) = Inr (replicate 32 0)"
  proof -
    have "map (\<lambda>i. byte_at (replicate 32 0) (i + 16)) [0..<16] = replicate 16 (0 :: byte)" by (simp add: byte_at_def list_eq_iff_nth_eq)
    then show ?thesis
      by (simp add: RootRollupPublicInputs_sha256CalldataHash_def root_output_for_def Let_def Fr_toBuffer_def Fr_ZERO_def new_Fr_def toBufferBE_zero
          flip: replicate_add)
  qed
  ultimately show ?thesis by (simp add: check_calldata_hash_def)
qed


section \<open>A block of four transactions\<close>

lemma base_circuit_run:
  assumes "base_rollup_tree_updates B t1 t2 w = (Inr p, w1)" and "base_rollup_input_of B t1 t2 p w1 = Inr inp"
    and "simulateBaseRollup B inp = Inr (base_output_for env a k w1)" and "world_inv env w1" "hash_bytes env" and "AggregationObject_makeFake = Inr a"
  shows "baseRollupCircuit B t1 t2 w = (Inr (base_output_for env a k w1, empty_proof), w1)"
  using assms base_output_valid[OF assms(4,5)]
  by (simp add: baseRollupCircuit_def buildBaseRollupInput_def jbind_def jgets_def getBaseRollupProof_def output_for_cong assms(6))

lemma root_circuit_run:
  assumes "getRootRollupInput B l r ms w = Inr inp" and "\<forall>m \<in> set ms. fr_ok m"
    and "MerkleTrees_appendLeaves (bb_trees B) L1_TO_L2_MESSAGES_TREE (map fr_bytes ms) w = (Inr (), w1)"
    and "jfor (append_root (bb_trees B)) roots_pairs w1 = (Inr (), w2)" and "simulateRootRollup B inp = Inr (root_output_for (bb_trees B) a w2)"
    and "world_inv (bb_trees B) w2" "hash_bytes (bb_trees B)" and "AggregationObject_makeFake = Inr a"
  shows "rootRollupCircuit B l r ms w = (Inr (root_output_for (bb_trees B) a w2, empty_proof), w2)"
  using assms root_output_valid[OF assms(6,7)] rtraverse_fr_bytes[OF assms(2)]
  by (simp add: rootRollupCircuit_def jbind_def jgets_def getRootRollupProof_def output_for_cong assms(8) Facade_appendLeaves_def
      Facade_updateHistoricRootsTrees_def asLatest_def updateHistoric_append_root)

lemma root_input_total:
  assumes inv: "world_inv (bb_trees B) w" "hash_bytes (bb_trees B)" and "rpi_rollupType (fst l) = RollupTypes_Base" and "length ms = 16"
  shows "\<exists>inp. getRootRollupInput B l r ms w = Inr inp"
proof -
  have prev: "\<exists>d. getPreviousRollupDataFromPublicInputs o1 p1 vk = Inr d" for o1 p1 vk
    by (simp add: getPreviousRollupDataFromPublicInputs_def new_MembershipWitness_def assertMemberLength_def makeTuple_def)
  obtain d1 d2 where d: "getPreviousRollupDataFromPublicInputs (fst l) (snd l) (baseRollupCircuit_vk (bb_vks B)) = Inr d1"
    "getPreviousRollupDataFromPublicInputs (fst r) (snd r) (baseRollupCircuit_vk (bb_vks B)) = Inr d2" using prev by metis
  have path: "\<exists>fs. getRootTreeSiblingPath (bb_trees B) i w = Inr fs \<and> length fs = treeHeight i" for i
    unfolding getRootTreeSiblingPath_def using path_fields_total[OF inv(1)] by blast
  obtain c p m s where "getRootTreeSiblingPath (bb_trees B) CONTRACT_TREE_ROOTS_TREE w = Inr c" "length c = 8"
    "getRootTreeSiblingPath (bb_trees B) PRIVATE_DATA_TREE_ROOTS_TREE w = Inr p" "length p = 8"
    "getRootTreeSiblingPath (bb_trees B) L1_TO_L2_MESSAGES_ROOTS_TREE w = Inr m" "length m = 8"
    "builder_getSubtreeSiblingPath (bb_trees B) L1_TO_L2_MESSAGES_TREE L1_TO_L2_MESSAGES_SUBTREE_HEIGHT w = Inr s" "length s = 4"
    using path[of CONTRACT_TREE_ROOTS_TREE] path[of PRIVATE_DATA_TREE_ROOTS_TREE] path[of L1_TO_L2_MESSAGES_ROOTS_TREE]
      subtree_path_total[OF inv(1), of L1_TO_L2_MESSAGES_SUBTREE_HEIGHT L1_TO_L2_MESSAGES_TREE] by (auto simp: L1_TO_L2_MESSAGES_SUBTREE_HEIGHT_def)
  then show ?thesis using d assms(3,4)
    by (simp add: getRootRollupInput_def Let_def getVerificationKey_def getTreeSnapshot_ok[OF inv] new_RootRollupInputs_def assertMemberLength_def
        PRIVATE_DATA_TREE_ROOTS_TREE_HEIGHT_def CONTRACT_TREE_ROOTS_TREE_HEIGHT_def L1_TO_L2_MESSAGES_SIBLING_PATH_LENGTH_def
        L1_TO_L2_MESSAGES_TREE_HEIGHT_def L1_TO_L2_MESSAGES_SUBTREE_HEIGHT_def L1_TO_L2_MESSAGES_ROOTS_TREE_HEIGHT_def
        NUMBER_OF_L1_L2_MESSAGES_PER_ROLLUP_def)
qed

definition quad_ok :: "'db tree_env \<Rightarrow> 'db merkle_trees \<Rightarrow> processed_tx list \<Rightarrow> fr list \<Rightarrow> bool" where
  "quad_ok env w txs ms \<longleftrightarrow> world_inv env w \<and> hash_bytes env \<and> length txs = 4 \<and> (\<forall>t \<in> set txs. tx_complete t \<and> roots_known env w t) \<and>
     validateTxs txs = Inr () \<and> length ms \<le> 16 \<and> (\<forall>m \<in> set ms. fr_ok m) \<and> fresh_nullifiers (world_nullifiers env True w) (tx_nullifiers txs) \<and>
     0 \<le> snd (world_leaves env True w PRIVATE_DATA_TREE) \<and>
     (\<forall>i. i \<noteq> PUBLIC_DATA_TREE \<longrightarrow> snd (world_leaves env True w i) + 16 \<le> 2 ^ 8)"


lemma updates_params:
  assumes "bb_trees B = bb_trees B'" "computeContractLeaf B = computeContractLeaf B'" "bb_vks B = bb_vks B'"
  shows "base_rollup_tree_updates B t1 t2 = base_rollup_tree_updates B' t1 t2"
    and "base_rollup_input_of B t1 t2 p = base_rollup_input_of B' t1 t2 p"
proof -
  have "tx_contract_leaves B = tx_contract_leaves B'" by (rule ext) (simp add: tx_contract_leaves_def assms)
  then show "base_rollup_tree_updates B t1 t2 = base_rollup_tree_updates B' t1 t2" by (simp add: base_rollup_tree_updates_def assms)
  show "base_rollup_input_of B t1 t2 p = base_rollup_input_of B' t1 t2 p"
    by (rule ext) (simp add: base_rollup_input_of_def getKernelDataFor_def getVerificationKey_def assms)
qed

lemma roots_known_pending:
  "world_inv env w \<Longrightarrow> pending_on env tx_trees w w' \<Longrightarrow> roots_known env w t \<Longrightarrow> roots_known env w' t"
  by (simp add: roots_known_def known_root_def pending_frame)

text \<open>Two base rollups, one after the other, and the inputs of their circuits.\<close>

lemma two_base_rollups:
  assumes ok: "quad_ok env w [t1, t2, t3, t4] ms" and B: "bb_trees B = env" "computeContractLeaf B = (\<lambda>_. Inr Fr_ZERO)"
  shows "\<exists>p1 w1 i1 p2 w2 i2. base_rollup_tree_updates B t1 t2 w = (Inr p1, w1) \<and> base_rollup_input_of B t1 t2 p1 w1 = Inr i1 \<and>
    base_rollup_tree_updates B t3 t4 w1 = (Inr p2, w2) \<and> base_rollup_input_of B t3 t4 p2 w2 = Inr i2 \<and> world_inv env w1 \<and>
    pending_on env tx_trees w w2 \<and>
    nextAvailableLeafIndex (bri_startPrivateDataTreeSnapshot i1) \<noteq> nextAvailableLeafIndex (bri_startPrivateDataTreeSnapshot i2)"
proof -
  note ok = ok[unfolded quad_ok_def]
  have inv: "world_inv env w" "hash_bytes env" and txs: "tx_complete t1" "tx_complete t2" "tx_complete t3" "tx_complete t4" using ok by auto
  have known: "roots_known env w t1" "roots_known env w t2" "roots_known env w t3" "roots_known env w t4" using ok by auto
  have pos: "0 \<le> snd (world_leaves env True w PRIVATE_DATA_TREE)"
    and room: "snd (world_leaves env True w i) + 16 \<le> 2 ^ 8" if "i \<noteq> PUBLIC_DATA_TREE" for i using ok that by auto
  have cl: "contract_leaves_ok B" by (simp add: contract_leaves_ok_def B(2) Fr_ZERO_def new_Fr_def fr_ok_def)
  have fits: "tx_fits t1" "tx_fits t2" "tx_fits t3" "tx_fits t4" using txs by (simp_all add: tx_complete_def)
  have nl: "tx_nullifiers [t1, t2, t3, t4] = tx_nullifiers [t1, t2] @ tx_nullifiers [t3, t4]" by (simp add: tx_nullifiers_def)
  have len: "length (tx_nullifiers [t1, t2]) = 8" "length (tx_nullifiers [t3, t4]) = 8" "length (tx_commitments [t1, t2]) = 8"
    using txs by (simp_all add: tx_nullifiers_def tx_commitments_def tx_complete_def)
  have fresh: "fresh_nullifiers (world_nullifiers env True w) (tx_nullifiers [t1, t2])"
    "fresh_nullifiers (fr_value ` set (tx_nullifiers [t1, t2]) \<union> world_nullifiers env True w) (tx_nullifiers [t3, t4])"
    using fresh_append[of _ "tx_nullifiers [t1, t2]"] ok zero_nullifier[OF inv(1)] unfolding nl by auto
  obtain p1 w1 where w1: "base_rollup_tree_updates B t1 t2 w = (Inr p1, w1)" "parts_ok p1" "brp_privateDataSnapshot p1 = tree_snapshot env w PRIVATE_DATA_TREE"
    using base_updates_total[OF inv(1) B(1) inv(2) B(2) txs(1,2) fresh(1)] room[of NULLIFIER_TREE] room[of CONTRACT_TREE] room[of PRIVATE_DATA_TREE] by auto
  obtain cs where cs: "tx_contract_leaves B [t1, t2] = Inr cs" "txs_inserted env [t1, t2] cs w w1"
    using base_updates_step[OF inv(1) B(1) cl fits(1,2) fresh(1) _ w1(1)] room[of NULLIFIER_TREE] len by auto
  have "length cs = 2" using cs(1) txs by (auto simp: tx_contract_leaves_def B(2) tx_complete_def rtraverse_Inr dest!: list_all2_lengthD)
  note ins = cs(2)[unfolded txs_inserted_def]
  note f1 = pending_frame[OF inv(1) ins[THEN conjunct1]]
  have cnt: "snd (world_leaves env True w1 NULLIFIER_TREE) = snd (world_leaves env True w NULLIFIER_TREE) + 8"
    "snd (world_leaves env True w1 CONTRACT_TREE) = snd (world_leaves env True w CONTRACT_TREE) + 2"
    "snd (world_leaves env True w1 PRIVATE_DATA_TREE) = snd (world_leaves env True w PRIVATE_DATA_TREE) + 8"
    using ins len \<open>length cs = 2\<close> by (auto simp: standard_spec_def split: prod.splits)
  have new2: "fresh_nullifiers (world_nullifiers env True w1) (tx_nullifiers [t3, t4])" using fresh(2) ins by simp
  obtain p2 w2 where w2: "base_rollup_tree_updates B t3 t4 w1 = (Inr p2, w2)" "parts_ok p2" "brp_privateDataSnapshot p2 = tree_snapshot env w1 PRIVATE_DATA_TREE"
    using base_updates_total[OF f1(1) B(1) inv(2) B(2) txs(3,4)] new2 cnt room[of NULLIFIER_TREE] room[of CONTRACT_TREE] room[of PRIVATE_DATA_TREE]
    by auto
  obtain ds where ds: "txs_inserted env [t3, t4] ds w1 w2"
    using base_updates_step[OF f1(1) B(1) cl fits(3,4) new2 _ w2(1)] cnt room[of NULLIFIER_TREE] len by auto
  note p2 = ds[unfolded txs_inserted_def, THEN conjunct1]
  note f2 = pending_frame[OF f1(1) p2]
  obtain i1 where i1: "base_rollup_input_of B t1 t2 p1 w1 = Inr i1" "bri_startPrivateDataTreeSnapshot i1 = tree_snapshot env w PRIVATE_DATA_TREE"
    using base_input_total[of B w1 p1 t1 t2] f1(1) w1(2,3) roots_known_pending[OF inv(1) ins[THEN conjunct1]] known B(1) by auto
  obtain i2 where i2: "base_rollup_input_of B t3 t4 p2 w2 = Inr i2" "bri_startPrivateDataTreeSnapshot i2 = tree_snapshot env w1 PRIVATE_DATA_TREE"
    using base_input_total[of B w2 p2 t3 t4] f2(1) w2(2,3) roots_known_pending[OF f1(1) p2] roots_known_pending[OF inv(1) ins[THEN conjunct1]] known B(1) by auto
  have "nextAvailableLeafIndex (bri_startPrivateDataTreeSnapshot i1) \<noteq> nextAvailableLeafIndex (bri_startPrivateDataTreeSnapshot i2)"
    using pos[of PRIVATE_DATA_TREE] room[of PRIVATE_DATA_TREE] by (simp add: i1 i2 tree_snapshot_def cnt js_Number_small)
  moreover have "pending_on env tx_trees w w2" using pending_on_trans[OF ins[THEN conjunct1] p2] by simp
  ultimately show ?thesis using w1(1) i1(1) w2(1) i2(1) f1(1) by blast
qed

lemma root_trees_total:
  assumes inv: "world_inv env w" and room: "snd (world_leaves env True w L1_TO_L2_MESSAGES_TREE) + int (length bs) \<le> 2 ^ 8"
    "\<forall>r \<in> root_trees. snd (world_leaves env True w r) + 1 \<le> 2 ^ 8"
  shows "\<exists>w3 w4. MerkleTrees_appendLeaves env L1_TO_L2_MESSAGES_TREE bs w = (Inr (), w3) \<and> jfor (append_root env) roots_pairs w3 = (Inr (), w4) \<and>
    world_inv env w4"
proof -
  obtain w3 where w3: "MerkleTrees_appendLeaves env L1_TO_L2_MESSAGES_TREE bs w = (Inr (), w3)" "pending_on env {L1_TO_L2_MESSAGES_TREE} w w3"
    using append_standard_step[OF inv, of L1_TO_L2_MESSAGES_TREE bs] room(1) by (auto simp: pending_step_on)
  note f3 = pending_frame[OF inv w3(2)]
  have "\<forall>r \<in> root_trees. snd (world_leaves env True w3 r) + 1 \<le> 2 ^ 8" using room(2) by (fastforce simp: f3)
  then show ?thesis using roots_step[OF f3(1)] w3(1) by (auto simp: pending_on_def)
qed

lemma quad_builds:
  assumes ok: "quad_ok env w txs ms"
  shows "\<exists>B b p w'. bb_trees B = env \<and> computeContractLeaf B = (\<lambda>_. Inr Fr_ZERO) \<and> buildL2Block B n txs ms w = (Inr (b, p), w')"
proof -
  obtain t1 t2 t3 t4 where txs: "txs = [t1, t2, t3, t4]" using ok by (auto simp: quad_ok_def length_Suc_conv numeral_eq_Suc)
  have inv: "world_inv env w" "hash_bytes env" using ok by (simp_all add: quad_ok_def)
  have comp: "tx_complete t" if "t \<in> set txs" for t using ok that by (auto simp: quad_ok_def)
  obtain a vk where a: "AggregationObject_makeFake = Inr a" and vk: "VerificationKey_makeFake = Inr vk"
    using AggregationObject_makeFake_ok makeFake_ok by (auto simp: yields_def)
  obtain k where k: "getConstantBaseRollupData w = Inr k" by (simp add: getConstantBaseRollupData_def getTreeSnapshot_ok[OF inv])
  define B0 :: "'a block_builder" where "B0 = \<lparr>bb_trees = env, bb_vks = \<lparr>publicKernelCircuit = vk, privateKernelCircuit = vk, baseRollupCircuit_vk = vk, mergeRollupCircuit_vk = vk\<rparr>,
    simulateBaseRollup = (\<lambda>_. Inl TypeError), simulateMergeRollup = (\<lambda>_. Inl TypeError), simulateRootRollup = (\<lambda>_. Inl TypeError),
    computeContractLeaf = (\<lambda>_. Inr Fr_ZERO), bb_sha256 = (\<lambda>_. replicate 32 0)\<rparr>"
  obtain p1 w1 i1 p2 w2 i2 where u: "base_rollup_tree_updates B0 t1 t2 w = (Inr p1, w1)" "base_rollup_input_of B0 t1 t2 p1 w1 = Inr i1"
    "base_rollup_tree_updates B0 t3 t4 w1 = (Inr p2, w2)" "base_rollup_input_of B0 t3 t4 p2 w2 = Inr i2" "world_inv env w1" "pending_on env tx_trees w w2"
    "nextAvailableLeafIndex (bri_startPrivateDataTreeSnapshot i1) \<noteq> nextAvailableLeafIndex (bri_startPrivateDataTreeSnapshot i2)"
    using two_base_rollups[OF ok[unfolded txs], of B0] by (auto simp: B0_def)
  note f2 = pending_frame[OF inv(1) u(6)]
  have room: "snd (world_leaves env True w i) + 16 \<le> 2 ^ 8" if "i \<noteq> PUBLIC_DATA_TREE" for i using ok that by (simp add: quad_ok_def)
  let ?ms = "padded_messages ms"
  have msg: "length ?ms = 16" "\<forall>m \<in> set ?ms. fr_ok m" "length ms \<le> 16"
    using ok by (auto simp: quad_ok_def padded_messages_def NUMBER_OF_L1_L2_MESSAGES_PER_ROLLUP_def Fr_ZERO_def new_Fr_def fr_ok_def)
  obtain w3 w4 where w3: "MerkleTrees_appendLeaves env L1_TO_L2_MESSAGES_TREE (map fr_bytes ?ms) w2 = (Inr (), w3)"
    and w4: "jfor (append_root env) roots_pairs w3 = (Inr (), w4)" "world_inv env w4"
    using root_trees_total[OF f2(1), of "map fr_bytes ?ms"] room[of L1_TO_L2_MESSAGES_TREE] room msg(1) by (fastforce simp: f2)
  define B where "B = B0\<lparr>simulateBaseRollup := (\<lambda>i. Inr (base_output_for env a k
      (if nextAvailableLeafIndex (bri_startPrivateDataTreeSnapshot i) = nextAvailableLeafIndex (bri_startPrivateDataTreeSnapshot i1) then w1 else w2))),
    simulateRootRollup := (\<lambda>_. Inr (root_output_for env a w4))\<rparr>"
  have B: "bb_trees B = env" "computeContractLeaf B = (\<lambda>_. Inr Fr_ZERO)" "bb_sha256 B = (\<lambda>_. replicate 32 0)" by (simp_all add: B_def B0_def)
  have par: "base_rollup_tree_updates B x y = base_rollup_tree_updates B0 x y" "base_rollup_input_of B x y p = base_rollup_input_of B0 x y p" for x y p
    by (rule updates_params; simp add: B_def)+
  have sim: "simulateBaseRollup B i1 = Inr (base_output_for env a k w1)" "simulateBaseRollup B i2 = Inr (base_output_for env a k w2)"
    using u(7) by (simp_all add: B_def)
  let ?o1 = "(base_output_for env a k w1, empty_proof)" and ?o2 = "(base_output_for env a k w2, empty_proof)"
  have base: "baseRollupCircuit B t1 t2 w = (Inr ?o1, w1)" "baseRollupCircuit B t3 t4 w1 = (Inr ?o2, w2)"
    using base_circuit_run[of B t1 t2 w p1 w1 i1 env a k] base_circuit_run[of B t3 t4 w1 p2 w2 i2 env a k] u(1-5) f2(1) inv(2) a B(1) sim k
    by (simp_all add: par)
  obtain inp where "getRootRollupInput B ?o1 ?o2 ?ms w2 = Inr inp"
    using root_input_total[of B w2 ?o1 ?ms ?o2] f2(1) inv(2) B(1) msg(1) by (auto simp: base_output_for_def Let_def)
  then have "rootRollupCircuit B ?o1 ?o2 ?ms w2 = (Inr (root_output_for env a w4, empty_proof), w4)"
    using root_circuit_run[of B ?o1 ?o2 ?ms w2 inp w3 w4 a] msg(2) w3 w4 inv(2) a B(1) by (simp add: B_def)
  moreover have "Bit_Operations.and (Suc (Suc (Suc (Suc 0)))) (Suc (Suc (Suc 0))) = (0 :: nat)" by code_simp
  ultimately have run: "runCircuits B txs ms w = (Inr (root_output_for env a w4, empty_proof), w4)"
    using base msg(3) by (simp add: runCircuits_def txs jbind_def padArrayEnd_def padded_messages_def NUMBER_OF_L1_L2_MESSAGES_PER_ROLLUP_def merge_layers.simps)
  obtain cs where cs: "tx_contract_leaves B txs = Inr cs" "length cs = 4"
    using comp by (simp add: txs tx_contract_leaves_def B(2) tx_complete_def rtraverse_map[where g = "\<lambda>_. Fr_ZERO"])
  let ?b = "assemble_block n (start_snapshots_of env w) (root_output_for env a w4) txs cs ms"
  have "length (newCommitments ?b) = 16" "length (newContracts ?b) = 4" "length (newContractData ?b) = 4"
    using comp cs(2) by (auto simp: assemble_block_def L2Block_fromFields_def new_L2Block_def txs tx_commitments_def tx_contract_data_def tx_complete_def)
  from zero_calldata[OF this] have "check_calldata_hash (bb_sha256 B) ?b (root_output_for env a w4) = Inr ()" by (simp add: B(3))
  moreover have "getStartSnapshots w = Inr (start_snapshots_of env w)"
    by (simp add: getStartSnapshots_def getTreeSnapshot_ok[OF inv] start_snapshots_of_def)
  ultimately have "buildL2Block B n txs ms w = (Inr (?b, empty_proof), w4)"
    using run cs(1) ok by (simp add: buildL2Block_def jbind_def jgets_def Let_def quad_ok_def)
  then show ?thesis using B by blast
qed


section \<open>A block of four transactions on a new world state\<close>

text \<open>The root of an empty tree of height 8 under the hash of \<open>mem_env\<close> is $8^8 - 1$; a value in leaf 0 changes it.\<close>

lemma mem_compress: "be_val (compress mem_env a b) = (3 * be_val a + 5 * be_val b + 7) mod 2 ^ 256"
  unfolding mem_env_def by simp (rule be_val_be_bytes; simp)

lemma mem_mnode:
  assumes "length x = 32"
  shows "be_val (mnode (compress mem_env) ((\<lambda>_. INITIAL_LEAF)(0 := x)) k i) = (8 ^ k - 1 + (if i = 0 then 3 ^ k * be_val x else 0)) mod 2 ^ 256"
proof (induction k arbitrary: i)
  case 0
  have "be_val INITIAL_LEAF = 0" by code_simp
  then show ?case using be_val_less[of x] assms by simp
next
  case (Suc k)
  have m: "(3 * (p mod M) + 5 * (q mod M) + 7) mod M = (3 * p + 5 * q + 7) mod M" for p q M :: int
    by (intro mod_add_cong mod_mult_cong) simp_all
  let ?v = "\<lambda>k i. 8 ^ k - 1 + (if i = 0 then 3 ^ k * be_val x else 0) :: int"
  have "2 * i + 1 \<noteq> 0" by presburger
  then have "3 * ?v k (2 * i) + 5 * ?v k (2 * i + 1) + 7 = ?v (Suc k) i" by (simp add: algebra_simps)
  then show ?case by (simp only: mnode.simps mem_compress Suc m)
qed

lemma mem_root:
  assumes "length x = 32" "f = (\<lambda>_. INITIAL_LEAF)(0 := x)"
  shows "be_val (merkle_root (compress mem_env) 8 f) = (16777215 + 6561 * be_val x) mod 2 ^ 256"
  using mem_mnode[OF assms(1), of 8 0] by (simp add: merkle_root_def assms(2))

lemma initial_leaf: "length INITIAL_LEAF = 32" "be_val INITIAL_LEAF = 0"
  by code_simp+

lemma mem_hash_bytes: "hash_bytes mem_env"
  by (simp add: hash_bytes_def mem_env_def length_be_bytes)

definition sample_root :: fr where
  "sample_root = new_Fr 16777215"

definition sample_tx :: "kernel_public_inputs \<Rightarrow> fr \<Rightarrow> fr \<Rightarrow> processed_tx" where
  "sample_tx d c n =
     \<lparr>ptx_hash = \<lparr>th_buffer = replicate 32 1\<rparr>,
      ptx_data = d\<lparr>kpi_end := (kpi_end d)\<lparr>cad_newCommitments := [c, Fr_ZERO, Fr_ZERO, Fr_ZERO], cad_newNullifiers := [n, Fr_ZERO, Fr_ZERO, Fr_ZERO],
          cad_publicDataUpdateRequests := replicate 4 PublicDataUpdateRequest_empty\<rparr>,
        kpi_constants := (kpi_constants d)\<lparr>ccd_historicTreeRoots := \<lparr>cht_privateHistoricTreeRoots =
          \<lparr>pht_privateDataTreeRoot = sample_root, pht_nullifierTreeRoot = sample_root, pht_contractTreeRoot = sample_root,
           pht_l1ToL2MessagesTreeRoot = sample_root, pht_privateKernelVkTreeRoot = Fr_ZERO\<rparr>\<rparr>\<rparr>\<rparr>,
      ptx_proof = empty_proof, ptx_encryptedLogs = None, ptx_txRequest = None, ptx_isEmpty = False\<rparr>"

definition sample_txs :: "kernel_public_inputs \<Rightarrow> processed_tx list" where
  "sample_txs d = [sample_tx d (new_Fr 5) (new_Fr 9), sample_tx d Fr_ZERO (new_Fr 11), sample_tx d Fr_ZERO Fr_ZERO, sample_tx d Fr_ZERO (new_Fr 10)]"

lemma sample_tx_complete:
  assumes "KernelCircuitPublicInputs_ok d" "fr_ok c" "fr_ok n"
  shows "tx_complete (sample_tx d c n)"
  using assms
  by (simp add: tx_complete_def tx_fits_def sample_tx_def KernelCircuitPublicInputs_ok_def CombinedAccumulatedData_ok_def KERNEL_NEW_CONTRACTS_LENGTH_def
      KERNEL_PUBLIC_DATA_READS_LENGTH_def PublicDataUpdateRequest_empty_def request_ok_def in_level_def Fr_ZERO_def new_Fr_def fr_ok_def)

lemma sample_txs_data:
  assumes "KernelCircuitPublicInputs_ok d"
  shows "\<forall>t \<in> set (sample_txs d). tx_complete t"
    and "tx_nullifiers (sample_txs d) = [new_Fr 9, Fr_ZERO, Fr_ZERO, Fr_ZERO, new_Fr 11, Fr_ZERO, Fr_ZERO, Fr_ZERO, Fr_ZERO, Fr_ZERO, Fr_ZERO, Fr_ZERO,
      new_Fr 10, Fr_ZERO, Fr_ZERO, Fr_ZERO]"
    and "tx_commitments (sample_txs d) = new_Fr 5 # replicate 15 Fr_ZERO"
    and "tx_requests (sample_txs d) = replicate 16 PublicDataUpdateRequest_empty"
    and "fresh_nullifiers {0..7} (tx_nullifiers (sample_txs d))"
proof -
  show "\<forall>t \<in> set (sample_txs d). tx_complete t"
    by (simp add: sample_txs_def sample_tx_complete[OF assms] fr_ok_def new_Fr_def Fr_ZERO_def)
  show nls: "tx_nullifiers (sample_txs d) = [new_Fr 9, Fr_ZERO, Fr_ZERO, Fr_ZERO, new_Fr 11, Fr_ZERO, Fr_ZERO, Fr_ZERO, Fr_ZERO, Fr_ZERO, Fr_ZERO, Fr_ZERO,
      new_Fr 10, Fr_ZERO, Fr_ZERO, Fr_ZERO]"
    and "tx_commitments (sample_txs d) = new_Fr 5 # replicate 15 Fr_ZERO"
    and "tx_requests (sample_txs d) = replicate 16 PublicDataUpdateRequest_empty"
    by (simp_all add: tx_nullifiers_def tx_commitments_def tx_requests_def sample_txs_def sample_tx_def numeral_eq_Suc)
  show "fresh_nullifiers {0..7} (tx_nullifiers (sample_txs d))" by (simp add: nls fresh_nullifiers_def new_Fr_def Fr_ZERO_def)
qed

lemma sample_valid: "validateTxs (take k (sample_txs d)) = Inr ()"
proof -
  have "validateTx (sample_tx d c n) = Inr ()" for c n by (simp add: validateTx_def sample_tx_def sample_root_def Fr_isZero_def new_Fr_def)
  then have "rtraverse validateTx (take k (sample_txs d)) = Inr (map (\<lambda>_. ()) (take k (sample_txs d)))"
    by (intro rtraverse_map) (auto simp: sample_txs_def dest!: in_set_takeD)
  then show ?thesis by (simp add: validateTxs_def)
qed

lemma sample_world:
  obtains w d where "MerkleTrees_new mem_env [] = Inr w" "world_inv mem_env w" "world_view mem_env False w = world_view mem_env True w"
    "KernelCircuitPublicInputs_empty = Inr d" "KernelCircuitPublicInputs_ok d"
    "\<And>b. world_nullifiers mem_env b w = {0..7}" "\<And>i. i \<noteq> PUBLIC_DATA_TREE \<Longrightarrow> snd (world_leaves mem_env True w i) \<le> 8"
    "\<And>b i. i \<notin> root_trees \<union> {NULLIFIER_TREE} \<Longrightarrow> world_leaves mem_env b w i = ((\<lambda>_. INITIAL_LEAF), 0)"
    "\<And>i r. (i, r) \<in> set roots_pairs \<Longrightarrow> known_root mem_env w r sample_root"
proof -
  obtain d where d: "KernelCircuitPublicInputs_empty = Inr d" "KernelCircuitPublicInputs_ok d"
    using KernelCircuitPublicInputs_empty_ok by (auto simp: yields_def)
  obtain w where w: "MerkleTrees_new mem_env [] = Inr w" "world_inv mem_env w" "world_view mem_env False w = world_view mem_env True w"
    and new: "\<And>b. world_nullifiers mem_env b w = {0..7}" "\<And>b. snd (world_leaves mem_env b w NULLIFIER_TREE) \<le> 8"
      "\<And>b i. i \<notin> root_trees \<union> {NULLIFIER_TREE} \<Longrightarrow> world_leaves mem_env b w i = ((\<lambda>_. INITIAL_LEAF), 0)"
      "\<And>b. \<forall>(i, r) \<in> set roots_pairs. world_leaves mem_env b w r = standard_spec 8 [world_root True w i] ((\<lambda>_. INITIAL_LEAF), 0)"
    using new_world_ok[OF levelup_ok_mem, of "[]"] no_nodes_mem by blast
  have cnt: "snd (world_leaves mem_env True w i) \<le> 8" for i
    using new(2)[of True] new(3)[of i True] new(4)[of True] by (cases i) (simp_all add: roots_pairs_def standard_spec_def)
  have root: "known_root mem_env w r sample_root" if "(i, r) \<in> set roots_pairs" for i r
  proof -
    have i: "i \<notin> root_trees \<union> {NULLIFIER_TREE}" "treeHeight i = 8" "treeHeight r = 8" using that by (auto simp: roots_pairs_def)
    have "be_val (world_root True w i) = be_val (fr_bytes sample_root)"
      using mem_root[of INITIAL_LEAF "\<lambda>_. INITIAL_LEAF"] world_root_leaves[OF w(2), of True i] new(3)[OF i(1), of True] i(2)
      by (simp add: initial_leaf fun_upd_idem fr_bytes_def sample_root_def new_Fr_def be_val_be_bytes)
    then have "world_root True w i = fr_bytes sample_root"
      using be_val_inject world_root_length[OF w(2) mem_hash_bytes, of True i] by (simp add: fr_bytes_def length_be_bytes)
    then show ?thesis using new(4)[of True] that i(3)
      by (auto simp: known_root_def standard_spec_def sample_root_def fr_ok_def new_Fr_def intro!: exI[of _ 0])
  qed
  show ?thesis by (rule that[OF w d new(1) cnt new(3)]) (auto intro: root)
qed

text \<open>The transactions of the sample block on the new world state.\<close>

lemma sample_quad:
  assumes "length ms \<le> 16" "\<forall>m \<in> set ms. fr_ok m"
  obtains w d where "MerkleTrees_new mem_env [] = Inr w" "world_inv mem_env w" "KernelCircuitPublicInputs_empty = Inr d" "KernelCircuitPublicInputs_ok d"
    "world_nullifiers mem_env True w = {0..7}" "quad_ok mem_env w (sample_txs d) ms"
    "\<forall>B. bb_trees B = mem_env \<longrightarrow> computeContractLeaf B = (\<lambda>_. Inr Fr_ZERO) \<longrightarrow> buildable B w (sample_txs d) ms"
    "\<forall>b i. i \<notin> root_trees \<union> {NULLIFIER_TREE} \<longrightarrow> world_leaves mem_env b w i = ((\<lambda>_. INITIAL_LEAF), 0)"
proof -
  obtain w d where w: "MerkleTrees_new mem_env [] = Inr w" "world_inv mem_env w" "world_view mem_env False w = world_view mem_env True w"
    "KernelCircuitPublicInputs_empty = Inr d" "KernelCircuitPublicInputs_ok d"
    and nl: "\<And>b. world_nullifiers mem_env b w = {0..7}" and cnt: "\<And>i. i \<noteq> PUBLIC_DATA_TREE \<Longrightarrow> snd (world_leaves mem_env True w i) \<le> 8"
    and lv: "\<And>b i. i \<notin> root_trees \<union> {NULLIFIER_TREE} \<Longrightarrow> world_leaves mem_env b w i = ((\<lambda>_. INITIAL_LEAF), 0)"
    and root: "\<And>i r. (i, r) \<in> set roots_pairs \<Longrightarrow> known_root mem_env w r sample_root"
    using sample_world by metis
  let ?txs = "sample_txs d"
  note data = sample_txs_data[OF w(5)]
  have known: "\<forall>t \<in> set ?txs. roots_known mem_env w t"
    using root[of CONTRACT_TREE CONTRACT_TREE_ROOTS_TREE] root[of PRIVATE_DATA_TREE PRIVATE_DATA_TREE_ROOTS_TREE]
      root[of L1_TO_L2_MESSAGES_TREE L1_TO_L2_MESSAGES_ROOTS_TREE]
    by (simp add: sample_txs_def roots_known_def tx_historic_roots_def sample_tx_def roots_pairs_def)
  have valid: "validateTxs ?txs = Inr ()" using sample_valid[of 4 d] by (simp add: sample_txs_def)
  have room: "\<forall>i. i \<noteq> PUBLIC_DATA_TREE \<longrightarrow> snd (world_leaves mem_env True w i) + 16 \<le> 2 ^ 8"
    and roots: "\<forall>r \<in> root_trees. snd (world_leaves mem_env True w r) + 1 \<le> 2 ^ 8" using cnt by fastforce+
  have quad: "quad_ok mem_env w ?txs ms"
    using w(2) data(1) known valid assms data(5) room lv[of PRIVATE_DATA_TREE True]
    by (simp add: quad_ok_def mem_hash_bytes nl) (simp add: sample_txs_def)
  have ok: "buildable B w ?txs ms" if "bb_trees B = mem_env" "computeContractLeaf B = (\<lambda>_. Inr Fr_ZERO)" for B
    unfolding buildable_def Let_def that(1) nl data(4)
    using w(2,3) data(1) assms data(5) cnt[of NULLIFIER_TREE] cnt[of CONTRACT_TREE] cnt[of PRIVATE_DATA_TREE] roots lv[of PUBLIC_DATA_TREE True]
    by (auto simp: mem_hash_bytes contract_leaves_ok_def that(2) tx_complete_def data(2) Fr_ZERO_def new_Fr_def fr_ok_def PublicDataUpdateRequest_empty_def)
  show thesis by (rule that[OF w(1,2,4,5) nl quad]) (use ok lv in blast)+
qed

text \<open>For every list of at most 16 messages there are outputs of the circuits with which the sample block is built, and its roots are not those of
  the world state before.\<close>

lemma sample_build:
  assumes "length ms \<le> 16" "\<forall>m \<in> set ms. fr_ok m"
  shows "\<exists>w d B b p w' cs. MerkleTrees_new mem_env [] = Inr w \<and> KernelCircuitPublicInputs_empty = Inr d \<and> bb_trees B = mem_env \<and>
    buildable B w (sample_txs d) ms \<and> buildL2Block B n (sample_txs d) ms w = (Inr (b, p), w') \<and> world_inv mem_env w \<and>
    rootChecks b w = Inr cs \<and> \<not> list_all id cs"
proof -
  obtain w d where w: "MerkleTrees_new mem_env [] = Inr w" "world_inv mem_env w" "KernelCircuitPublicInputs_empty = Inr d" "KernelCircuitPublicInputs_ok d"
    and "world_nullifiers mem_env True w = {0..7}" and quad: "quad_ok mem_env w (sample_txs d) ms"
    and can: "\<forall>B. bb_trees B = mem_env \<longrightarrow> computeContractLeaf B = (\<lambda>_. Inr Fr_ZERO) \<longrightarrow> buildable B w (sample_txs d) ms"
    and lv: "\<forall>b i. i \<notin> root_trees \<union> {NULLIFIER_TREE} \<longrightarrow> world_leaves mem_env b w i = ((\<lambda>_. INITIAL_LEAF), 0)"
    by (rule sample_quad[OF assms])
  let ?txs = "sample_txs d"
  note cms = sample_txs_data(3)[OF w(4)]
  obtain B b p w' where B: "bb_trees B = mem_env" "computeContractLeaf B = (\<lambda>_. Inr Fr_ZERO)" "buildL2Block B n ?txs ms w = (Inr (b, p), w')"
    using quad_builds[OF quad] by blast
  have ok: "buildable B w ?txs ms" using can B(1,2) by blast
  have e: "end_matches mem_env w' b" "block_applied mem_env (b\<lparr>newL1ToL2Messages := padded_messages ms\<rparr>) w w' True" "world_inv mem_env w'"
    "newCommitments b = tx_commitments ?txs"
    using build_effect[OF ok B(3)] unfolding B(1) block_of_txs_def by blast+
  let ?P = PRIVATE_DATA_TREE and ?x = "fr_bytes (new_Fr 5)"
  have x: "length ?x = 32" "be_val ?x = 5" by (simp_all add: fr_bytes_def length_be_bytes new_Fr_def be_val_be_bytes)
  have "fst (world_leaves mem_env True w' ?P) = (\<lambda>_. INITIAL_LEAF)(0 := ?x)"
    using e(2,4) lv[rule_format, of ?P False] by (auto simp: block_applied_def cms standard_spec_def fun_eq_iff nth_Cons' fr_bytes_zero Fr_ZERO_def new_Fr_def)
  then have "be_val (world_root True w' ?P) = 16810020" "be_val (world_root True w ?P) = 16777215"
    using mem_root[OF x(1) refl] mem_root[OF initial_leaf(1), of "\<lambda>_. INITIAL_LEAF"] lv[rule_format, of ?P True]
    by (simp_all add: world_root_leaves[OF e(3)] world_root_leaves[OF w(2)] x(2) initial_leaf fun_upd_idem)
  then have "world_root True w' ?P \<noteq> world_root True w ?P" by auto
  then have "rootChecks b w = Inr cs \<Longrightarrow> \<not> list_all id cs" for cs
    using e(1) by (auto simp: rootChecks_def compareRoot_def end_matches_def snapshot_matches_def rbind_eq_Inr world_root_def)
  then show ?thesis using w B ok rootChecks_total[of b w] by blast
qed

text \<open>A builder whose merge circuit marks the inputs of its left side as merged.\<close>

definition merging_builder :: "verification_key \<Rightarrow> (string \<times> buffer) list block_builder" where
  "merging_builder vk =
     \<lparr>bb_trees = mem_env, bb_vks = \<lparr>publicKernelCircuit = vk, privateKernelCircuit = vk, baseRollupCircuit_vk = vk, mergeRollupCircuit_vk = vk\<rparr>,
      simulateBaseRollup = (\<lambda>_. Inl TypeError),
      simulateMergeRollup = (\<lambda>m. Inr ((prd_publicInputs (hd (mri_previousRollupData m)))\<lparr>rpi_rollupType := RollupTypes_Merge\<rparr>)),
      simulateRootRollup = (\<lambda>_. Inl TypeError), computeContractLeaf = (\<lambda>_. Inr Fr_ZERO), bb_sha256 = (\<lambda>_. replicate 32 0)\<rparr>"

lemma merging_run:
  assumes "AggregationObject_makeFake = Inr a" "rpi_rollupType o1 = RollupTypes_Base"
  shows "mergeRollupCircuit (merging_builder vk) (o1, p) r = Inr (o1\<lparr>rpi_rollupType := RollupTypes_Merge, rpi_endAggregationObject := a\<rparr>, empty_proof)"
  by (simp add: mergeRollupCircuit_def merging_builder_def getVerificationKey_def getPreviousRollupDataFromPublicInputs_def new_MembershipWitness_def
      assertMemberLength_def makeTuple_def getMergeRollupProof_def Let_def assms)

end
