(* ===== verification/BlockBuilderProperties.thy ===== *)
theory BlockBuilderProperties
  imports BlockBuilderSample
begin

text \<open>
  The properties of the block builder, with witnesses on a new world state and four transactions (theory \<open>BlockBuilderSample\<close>).
\<close>

section \<open>Properties\<close>

text \<open>C2. A block that \<open>buildL2Block\<close> returns, whatever the circuits computed: it holds the data of the transactions in their order; its start
  snapshots are those of the trees before and its end snapshots those of the trees after; the data of all transactions, the
  messages padded to their fixed number and the new roots are in the pending version of the trees, as if the block were handled, and the
  committed version is unchanged.\<close>

theorem build_block_correct:
  assumes "buildable B w txs ms" and "buildL2Block B n txs ms w = (Inr (b, p), w')"
  shows "\<exists>cs. tx_contract_leaves B txs = Inr cs \<and> block_of_txs txs cs ms b \<and> blk_number b = n \<and>
    start_matches (bb_trees B) w b \<and> end_matches (bb_trees B) w' b \<and>
    block_applied (bb_trees B) (b\<lparr>newL1ToL2Messages := padded_messages ms\<rparr>) w w' True \<and>
    world_view (bb_trees B) False w' = world_view (bb_trees B) False w"
  using build_effect[OF assms] by blast

theorem build_block_correct_witness:
  "\<exists>w d B b p w'. MerkleTrees_new mem_env [] = Inr w \<and> KernelCircuitPublicInputs_empty = Inr d \<and>
    buildL2Block B 1 (sample_txs d) [new_Fr 3] w = (Inr (b, p), w') \<and> end_matches (bb_trees B) w' b \<and>
    block_applied (bb_trees B) (b\<lparr>newL1ToL2Messages := padded_messages [new_Fr 3]\<rparr>) w w' True"
proof -
  obtain w d B b p w' where "MerkleTrees_new mem_env [] = Inr w" "KernelCircuitPublicInputs_empty = Inr d" "buildable B w (sample_txs d) [new_Fr 3]"
    "buildL2Block B 1 (sample_txs d) [new_Fr 3] w = (Inr (b, p), w')"
    using sample_build[of "[new_Fr 3]" 1] by (auto simp: fr_ok_def new_Fr_def)
  then show ?thesis using build_block_correct by blast
qed

text \<open>C3. A node that built a block and the node that receives it agree: when the block carries the full number of messages, the builder, handling its
  own block, commits what it has built, and a node with the same committed state, handling the block as that of another node, reaches the same leaves of
  all trees, the same nullifiers and the same historic roots.\<close>

theorem follower_agrees:
  assumes "buildable B w txs ms" and "buildL2Block B n txs ms w = (Inr (b, p), w')" and "length ms = NUMBER_OF_L1_L2_MESSAGES_PER_ROLLUP"
    and "world_inv (bb_trees B) v" "world_view (bb_trees B) False v = world_view (bb_trees B) False w"
    and "rootChecks b v = Inr cs" "\<not> list_all id cs"
  shows "\<exists>wb vf. MerkleTrees_handleL2Block (bb_trees B) b w' = (Inr (), wb) \<and> MerkleTrees_handleL2Block (bb_trees B) b v = (Inr (), vf) \<and>
    (\<forall>c. (\<forall>i. i \<noteq> NULLIFIER_TREE \<longrightarrow> world_leaves (bb_trees B) c wb i = world_leaves (bb_trees B) c vf i) \<and>
      world_nullifiers (bb_trees B) c wb = world_nullifiers (bb_trees B) c vf)"
proof -
  obtain wb vf where h: "MerkleTrees_handleL2Block (bb_trees B) b w' = (Inr (), wb)" "MerkleTrees_handleL2Block (bb_trees B) b v = (Inr (), vf)"
    "world_inv (bb_trees B) wb" "world_inv (bb_trees B) vf" "\<forall>c. block_applied (bb_trees B) (b\<lparr>newL1ToL2Messages := padded_messages ms\<rparr>) w wb c"
    "\<forall>c. block_applied (bb_trees B) b v vf c"
    using built_handled[OF assms(1,2) refl assms(4-)] by blast
  have "newL1ToL2Messages b = ms" using build_effect[OF assms(1,2)] by (auto simp: block_of_txs_def)
  then have "b\<lparr>newL1ToL2Messages := padded_messages ms\<rparr> = b" using assms(3) by (simp add: padded_messages_def)
  moreover have "world_inv (bb_trees B) w" using assms(1) by (simp add: buildable_def Let_def)
  ultimately show ?thesis using h block_applied_agree[OF h(3,4) _ assms(4) assms(5)[symmetric], of b] by metis
qed

theorem follower_agrees_witness:
  "\<exists>w d B b p w' wb vf. MerkleTrees_new mem_env [] = Inr w \<and> KernelCircuitPublicInputs_empty = Inr d \<and>
    buildL2Block B 1 (sample_txs d) (replicate 16 (new_Fr 3)) w = (Inr (b, p), w') \<and>
    MerkleTrees_handleL2Block (bb_trees B) b w' = (Inr (), wb) \<and> MerkleTrees_handleL2Block (bb_trees B) b w = (Inr (), vf) \<and>
    world_leaves (bb_trees B) False wb PRIVATE_DATA_TREE = world_leaves (bb_trees B) False vf PRIVATE_DATA_TREE"
proof -
  obtain w d B b p w' cs where s: "MerkleTrees_new mem_env [] = Inr w" "KernelCircuitPublicInputs_empty = Inr d" "bb_trees B = mem_env"
    "buildable B w (sample_txs d) (replicate 16 (new_Fr 3))" "buildL2Block B 1 (sample_txs d) (replicate 16 (new_Fr 3)) w = (Inr (b, p), w')"
    "world_inv mem_env w" "rootChecks b w = Inr cs" "\<not> list_all id cs"
    using sample_build[of "replicate 16 (new_Fr 3)" 1] by (auto simp: fr_ok_def new_Fr_def)
  have len: "length (replicate 16 (new_Fr 3)) = NUMBER_OF_L1_L2_MESSAGES_PER_ROLLUP" by (simp add: NUMBER_OF_L1_L2_MESSAGES_PER_ROLLUP_def)
  have "world_inv (bb_trees B) w" using s(3,6) by simp
  then show ?thesis using follower_agrees[OF s(4,5) len _ refl s(7,8)] s(1,2,5) by blast
qed

text \<open>C35. A block with fewer messages splits the network: the builder pads the messages before it appends them to its tree but publishes them
  without the padding, so that a node that receives the block appends fewer leaves; from then on new messages of the two nodes go to
  different leaves.\<close>

theorem unpadded_messages_diverge:
  assumes "buildable B w txs ms" and "buildL2Block B n txs ms w = (Inr (b, p), w')" and "length ms < NUMBER_OF_L1_L2_MESSAGES_PER_ROLLUP"
    and "world_inv (bb_trees B) v" "world_view (bb_trees B) False v = world_view (bb_trees B) False w"
    and "rootChecks b v = Inr cs" "\<not> list_all id cs"
  shows "\<exists>wb vf. MerkleTrees_handleL2Block (bb_trees B) b w' = (Inr (), wb) \<and> MerkleTrees_handleL2Block (bb_trees B) b v = (Inr (), vf) \<and>
    ti_size (MerkleTrees_getTreeInfo L1_TO_L2_MESSAGES_TREE False vf) + int (NUMBER_OF_L1_L2_MESSAGES_PER_ROLLUP - length ms) =
    ti_size (MerkleTrees_getTreeInfo L1_TO_L2_MESSAGES_TREE False wb)"
proof -
  let ?e = "bb_trees B" and ?M = L1_TO_L2_MESSAGES_TREE
  obtain wb vf where h: "MerkleTrees_handleL2Block ?e b w' = (Inr (), wb)" "MerkleTrees_handleL2Block ?e b v = (Inr (), vf)"
    "\<forall>c. block_applied ?e (b\<lparr>newL1ToL2Messages := padded_messages ms\<rparr>) w wb c" "\<forall>c. block_applied ?e b v vf c"
    using built_handled[OF assms(1,2) refl assms(4-)] by blast
  have ms: "newL1ToL2Messages b = ms" and room: "snd (world_leaves ?e True w ?M) + 16 \<le> 2 ^ 8"
    using build_effect[OF assms(1,2)] by (auto simp: block_of_txs_def)
  have inv: "world_inv ?e w" and f0: "world_leaves ?e False w ?M = world_leaves ?e True w ?M"
    using assms(1) world_leaves_cong[of ?e w w False ?M True] by (simp_all add: buildable_def Let_def)
  have fv: "world_leaves ?e False v ?M = world_leaves ?e False w ?M" using world_leaves_cong[OF assms(4) inv] assms(5) by simp
  have sz: "ti_size (MerkleTrees_getTreeInfo ?M False x) = snd (world_leaves ?e False x ?M)" for x
    by (simp add: MerkleTrees_getTreeInfo_def Let_def world_leaves_def leaf_view_def)
  have "snd (standard_spec 8 ls u) = snd u + int (length ls)" if "snd u + int (length ls) \<le> 2 ^ 8" for ls and u :: "(int \<Rightarrow> buffer) \<times> int"
    using that by (cases u) (simp add: standard_spec_def)
  then show ?thesis using h assms(3) room
    by (intro exI[of _ wb] exI[of _ vf]) (simp add: sz block_applied_def fv f0 ms padded_messages_def NUMBER_OF_L1_L2_MESSAGES_PER_ROLLUP_def)
qed

theorem unpadded_messages_diverge_witness:
  "\<exists>w d B b p w' wb vf. MerkleTrees_new mem_env [] = Inr w \<and> KernelCircuitPublicInputs_empty = Inr d \<and>
    buildL2Block B 1 (sample_txs d) [] w = (Inr (b, p), w') \<and>
    MerkleTrees_handleL2Block (bb_trees B) b w' = (Inr (), wb) \<and> MerkleTrees_handleL2Block (bb_trees B) b w = (Inr (), vf) \<and>
    ti_size (MerkleTrees_getTreeInfo L1_TO_L2_MESSAGES_TREE False vf) + 16 = ti_size (MerkleTrees_getTreeInfo L1_TO_L2_MESSAGES_TREE False wb)"
proof -
  obtain w d B b p w' cs where s: "MerkleTrees_new mem_env [] = Inr w" "KernelCircuitPublicInputs_empty = Inr d" "bb_trees B = mem_env"
    "buildable B w (sample_txs d) []" "buildL2Block B 1 (sample_txs d) [] w = (Inr (b, p), w')"
    "world_inv mem_env w" "rootChecks b w = Inr cs" "\<not> list_all id cs"
    using sample_build[of "[]" 1] by auto
  have len: "length ([] :: fr list) < NUMBER_OF_L1_L2_MESSAGES_PER_ROLLUP" by (simp add: NUMBER_OF_L1_L2_MESSAGES_PER_ROLLUP_def)
  have "world_inv (bb_trees B) w" using s(3,6) by simp
  then show ?thesis using unpadded_messages_diverge[OF s(4,5) len _ refl s(7,8)] s(1,2,5)
    by (simp add: NUMBER_OF_L1_L2_MESSAGES_PER_ROLLUP_def) blast
qed

text \<open>C36. What the builder refuses, with its error and before any tree is touched: a transaction with a zero historic root; a number of
  transactions other than a power of two from four, which is what the test \<open>n & (n - 1)\<close> of the code decides; more messages than fit.\<close>

theorem build_block_rejects:
  assumes "world_inv (bb_trees B) w" and "hash_bytes (bb_trees B)"
  shows "((\<exists>t \<in> set txs. \<exists>r \<in> {pht_privateDataTreeRoot, pht_contractTreeRoot, pht_nullifierTreeRoot, pht_l1ToL2MessagesTreeRoot}.
      Fr_isZero (r (tx_historic_roots t))) \<longrightarrow> (\<exists>name. buildL2Block B n txs ms w = (Inl (zero_root_error name), w))) \<and>
    (validateTxs txs = Inr () \<and> \<not> (\<exists>k \<ge> 2. length txs = 2 ^ k) \<longrightarrow> buildL2Block B n txs ms w = (Inl (power_of_two_error (length txs)), w)) \<and>
    (validateTxs txs = Inr () \<and> (\<exists>k \<ge> 2. length txs = 2 ^ k) \<and> NUMBER_OF_L1_L2_MESSAGES_PER_ROLLUP < length ms \<longrightarrow>
      buildL2Block B n txs ms w = (Inl (Error ''Array size exceeds target length''), w))"
proof -
  obtain s where s: "getStartSnapshots w = Inr s" by (simp add: getStartSnapshots_def getTreeSnapshot_ok[OF assms])
  note r = rejected_run[OF s, where txs = txs and B = B and n = n and ms = ms]
  show ?thesis using r zero_root_rejected[of _ txs] by (intro conjI impI) blast+
qed

theorem build_block_rejects_witness:
  "\<exists>w d B. MerkleTrees_new mem_env [] = Inr w \<and> KernelCircuitPublicInputs_empty = Inr d \<and>
    buildL2Block B 1 (take 3 (sample_txs d)) [] w = (Inl (power_of_two_error 3), w) \<and>
    buildL2Block B 1 (sample_txs d) (replicate 17 Fr_ZERO) w = (Inl (Error ''Array size exceeds target length''), w)"
proof -
  obtain w d where w: "MerkleTrees_new mem_env [] = Inr w" "world_inv mem_env w" "KernelCircuitPublicInputs_empty = Inr d"
    using sample_world by metis
  obtain vk where "VerificationKey_makeFake = Inr vk" using makeFake_ok by (auto simp: yields_def)
  let ?B = "merging_builder vk"
  have B: "world_inv (bb_trees ?B) w" "hash_bytes (bb_trees ?B)" using w(2) mem_hash_bytes by (simp_all add: merging_builder_def)
  have len: "length (take 3 (sample_txs d)) = 3" "length (sample_txs d) = 2 ^ 2" "take 4 (sample_txs d) = sample_txs d" by (simp_all add: sample_txs_def)
  have "(3 :: nat) \<noteq> 2 ^ k" if "2 \<le> k" for k using that by (cases k) (auto, presburger)
  then have "buildL2Block ?B 1 (take 3 (sample_txs d)) [] w = (Inl (power_of_two_error 3), w)"
    using build_block_rejects[OF B, of "take 3 (sample_txs d)" 1 "[]"] sample_valid[of 3 d] len(1) by metis
  moreover have "buildL2Block ?B 1 (sample_txs d) (replicate 17 Fr_ZERO) w = (Inl (Error ''Array size exceeds target length''), w)"
    using build_block_rejects[OF B, of "sample_txs d" 1 "replicate 17 Fr_ZERO"] sample_valid[of 4 d] len(2,3)
    by (auto simp: NUMBER_OF_L1_L2_MESSAGES_PER_ROLLUP_def)
  ultimately show ?thesis using w by blast
qed

text \<open>The tree of merge rollups is balanced: on \<open>2 ^ (k + 1)\<close> outputs of base rollups the loop over the layers returns two outputs, and they are
  the results of the recursive tree of merges over the first and over the second half, in order.\<close>

theorem merge_layers_balanced:
  assumes "length xs = 2 ^ Suc k"
  shows "merge_layers B xs = Inr ys \<longleftrightarrow> (\<exists>l r. ys = [l, r] \<and> merge_tree (mergeRollupCircuit B) k (take (2 ^ k) xs) = Inr l \<and>
    merge_tree (mergeRollupCircuit B) k (drop (2 ^ k) xs) = Inr r)"
  using assms by (rule merge_layers_tree)

theorem merge_layers_balanced_witness:
  "\<exists>vk a x y. VerificationKey_makeFake = Inr vk \<and> AggregationObject_makeFake = Inr a \<and> x \<noteq> y \<and>
    merge_layers (merging_builder vk) [(x, empty_proof), (y, empty_proof), (y, empty_proof), (x, empty_proof)] =
      Inr [(x\<lparr>rpi_rollupType := RollupTypes_Merge, rpi_endAggregationObject := a\<rparr>, empty_proof),
           (y\<lparr>rpi_rollupType := RollupTypes_Merge, rpi_endAggregationObject := a\<rparr>, empty_proof)]"
proof -
  obtain a where a: "AggregationObject_makeFake = Inr a" using AggregationObject_makeFake_ok by (auto simp: yields_def)
  obtain vk where vk: "VerificationKey_makeFake = Inr vk" using makeFake_ok by (auto simp: yields_def)
  obtain w where w: "world_inv mem_env w" using sample_world by metis
  obtain k where k: "getConstantBaseRollupData w = Inr k" by (simp add: getConstantBaseRollupData_def getTreeSnapshot_ok[OF w mem_hash_bytes])
  define x where "x = base_output_for mem_env a k w"
  define y where "y = x\<lparr>rpi_rollupSubTreeHeight := new_Fr 2\<rparr>"
  have t: "rpi_rollupType x = RollupTypes_Base" "rpi_rollupType y = RollupTypes_Base" by (simp_all add: x_def y_def base_output_for_def Let_def)
  have "rpi_rollupSubTreeHeight x \<noteq> rpi_rollupSubTreeHeight y" by (simp add: x_def y_def base_output_for_def Let_def Fr_ZERO_def new_Fr_def)
  moreover have "merge_layers (merging_builder vk) [(x, empty_proof), (y, empty_proof), (y, empty_proof), (x, empty_proof)] =
      Inr [(x\<lparr>rpi_rollupType := RollupTypes_Merge, rpi_endAggregationObject := a\<rparr>, empty_proof),
           (y\<lparr>rpi_rollupType := RollupTypes_Merge, rpi_endAggregationObject := a\<rparr>, empty_proof)]"
    by (subst merge_layers_balanced[where k = 1]) (simp_all add: merging_run[OF a t(1)] merging_run[OF a t(2)])
  ultimately show ?thesis using a vk by (intro exI[of _ vk] exI[of _ a] exI[of _ x] exI[of _ y]) auto
qed

end
