(* ===== verification/AcvmFields.thy ===== *)
theory AcvmFields
  imports CallCodecs L1Messages WorldStateProperties
begin

text \<open>
  The fields of the ACVM, the machine that runs compiled Noir functions: \<^verbatim>\<open>acir-simulator/src/acvm\<close>. A field is a string of a prefix \<open>0x\<close> and 64 hexadecimal
  digits; a witness maps numbers to fields. The machine itself (\<^verbatim>\<open>@noir-lang/aztec_backend_wasm\<close>) is a parameter: a run solves the
  witness, fails, or asks an oracle by name and goes on with its answer.
\<close>

section \<open>Fields\<close>

type_synonym acvm_field = string
type_synonym acvm_witness = "(int \<times> acvm_field) list"

definition ZERO_ACVM_FIELD :: acvm_field where
  "ZERO_ACVM_FIELD = ''0x'' @ concat (replicate 32 ''00'')"

definition ONE_ACVM_FIELD :: acvm_field where
  "ONE_ACVM_FIELD = ''0x'' @ concat (replicate 31 ''00'') @ ''01''"

definition adaptBufferSize :: "buffer \<Rightarrow> buffer result" where
  "adaptBufferSize originalBuf =
     (if length originalBuf > 32 then Inl (Error ''Buffer does not fit in field'')
      else Inr (replicate (32 - length originalBuf) 0 @ originalBuf))"

datatype acvm_value = AcvmBool bool | AcvmBuffer buffer | AcvmNumber int | AcvmBigint int
  | AcvmAztecAddress aztec_address | AcvmEthAddress eth_address | AcvmFr fr

fun acvm_value_buffer :: "acvm_value \<Rightarrow> buffer result" where
  "acvm_value_buffer (AcvmBuffer b) = Inr b"
| "acvm_value_buffer (AcvmNumber n) = numToUInt32BE n 32"
| "acvm_value_buffer (AcvmBigint n) = Fr_toBuffer (new_Fr n)"
| "acvm_value_buffer (AcvmAztecAddress a) = Inr (AztecAddress_toBuffer a)"
| "acvm_value_buffer (AcvmEthAddress a) = Inr (EthAddress_toBuffer a)"
| "acvm_value_buffer (AcvmFr x) = Fr_toBuffer x"
| "acvm_value_buffer (AcvmBool b) = Inl TypeError"

definition toACVMField :: "acvm_value \<Rightarrow> acvm_field result" where
  "toACVMField v =
     (case v of
        AcvmBool b \<Rightarrow> Inr (if b then ONE_ACVM_FIELD else ZERO_ACVM_FIELD)
      | _ \<Rightarrow> rbind (acvm_value_buffer v) (\<lambda>buffer. rbind (adaptBufferSize buffer) (\<lambda>b. Inr (''0x'' @ buf_to_hex b))))"

definition convertACVMFieldToBuffer :: "acvm_field \<Rightarrow> buffer" where
  "convertACVMFieldToBuffer field = buf_from_hex (drop 2 field)"

definition fromACVMField :: "acvm_field \<Rightarrow> fr result" where
  "fromACVMField field = fst (Fr_fromBuffer (new_BufferReader (convertACVMFieldToBuffer field) 0))"

section \<open>The machine and its oracles\<close>

datatype acvm_run = AcvmSolved acvm_witness | AcvmFailed js_error | AcvmOracle string "acvm_field list" "acvm_field list \<Rightarrow> acvm_run"

text \<open>The names of \<open>ACIRCallback\<close>.\<close>

definition ACIRCallback :: "string list" where
  "ACIRCallback = [''getSecretKey'', ''getNotes2'', ''getRandomField'', ''notifyCreatedNote'', ''notifyNullifiedNote'', ''callPrivateFunction'',
     ''callPublicFunction'', ''enqueuePublicFunctionCall'', ''storageRead'', ''storageWrite'', ''viewNotesPage'', ''getL1ToL2Message'',
     ''emitEncryptedLog'', ''debugLog'']"

primrec acvm :: "(string \<Rightarrow> acvm_field list \<Rightarrow> ('s, acvm_field list) ojs) \<Rightarrow> acvm_run \<Rightarrow> ('s, acvm_witness) ojs" where
  "acvm callback (AcvmSolved w) = oreturn w"
| "acvm callback (AcvmFailed e) = olift (jthrow e)"
| "acvm callback (AcvmOracle name args k) =
     (if name \<notin> set ACIRCallback then olift (jthrow (Error (''Callback '' @ name @ '' not found'')))
      else obind (callback name args) (\<lambda>r. acvm callback (k r)))"

section \<open>Writing classes as fields\<close>

definition toACVMFields :: "acvm_value list \<Rightarrow> acvm_field list result" where
  "toACVMFields = rtraverse toACVMField"

definition function_data_values :: "function_data \<Rightarrow> acvm_value list result" where
  "function_data_values d = rbind (FunctionData_functionSelector d) (\<lambda>s. Inr [AcvmNumber s, AcvmBool (fd_isPrivate d), AcvmBool (fd_isConstructor d)])"

definition toACVMFunctionData :: "function_data \<Rightarrow> acvm_field list result" where
  "toACVMFunctionData functionData = rbind (function_data_values functionData) toACVMFields"

definition call_context_values :: "call_context \<Rightarrow> acvm_value list" where
  "call_context_values c =
     [AcvmBool (cc_isContractDeployment c), AcvmBool (cc_isDelegateCall c), AcvmBool (cc_isStaticCall c), AcvmAztecAddress (cc_msgSender c),
      AcvmEthAddress (cc_portalContractAddress c), AcvmAztecAddress (cc_storageContractAddress c)]"

definition toACVMCallContext :: "call_context \<Rightarrow> acvm_field list result" where
  "toACVMCallContext callContext = toACVMFields (call_context_values callContext)"

definition deployment_values :: "contract_deployment_data \<Rightarrow> acvm_value list" where
  "deployment_values d =
     [AcvmFr (cdd_constructorVkHash d), AcvmFr (cdd_functionTreeRoot d), AcvmFr (cdd_contractAddressSalt d),
      AcvmEthAddress (cdd_portalContractAddress d)]"

definition toACVMContractDeploymentData :: "contract_deployment_data \<Rightarrow> acvm_field list result" where
  "toACVMContractDeploymentData d = toACVMFields (deployment_values d)"

definition public_inputs_values :: "private_circuit_public_inputs \<Rightarrow> acvm_value list" where
  "public_inputs_values p = call_context_values (pvi_callContext p) @ map AcvmFr
     ([pvi_argsHash p] @ pvi_returnValues p @ pvi_readRequests p @ pvi_newCommitments p @ pvi_newNullifiers p @ pvi_privateCallStack p @
      pvi_publicCallStack p @ pvi_newL2ToL1Msgs p @
      [pvi_historicPrivateDataTreeRoot p, pvi_historicPrivateNullifierTreeRoot p, pvi_historicContractTreeRoot p,
       pvi_historicL1ToL2MessagesTreeRoot p]) @ deployment_values (pvi_contractDeploymentData p)"

definition toACVMPublicInputs :: "private_circuit_public_inputs \<Rightarrow> acvm_field list result" where
  "toACVMPublicInputs publicInputs = toACVMFields (public_inputs_values publicInputs)"

definition toAcvmCallPrivateStackItem :: "private_call_stack_item \<Rightarrow> acvm_field list result" where
  "toAcvmCallPrivateStackItem item =
     rbind (function_data_values (pvs_functionData item)) (\<lambda>fd.
       toACVMFields ([AcvmAztecAddress (pvs_contractAddress item)] @ fd @ public_inputs_values (pvs_publicInputs item) @ [AcvmBool False]))"

definition toAcvmEnqueuePublicFunctionResult :: "(fr list \<Rightarrow> fr result) \<Rightarrow> public_call_request \<Rightarrow> acvm_field list result" where
  "toAcvmEnqueuePublicFunctionResult computeVarArgsHash item =
     rbind (function_data_values (pcr_functionData item)) (\<lambda>fd. rbind (PublicCallRequest_getArgsHash computeVarArgsHash item) (\<lambda>h.
       toACVMFields ([AcvmAztecAddress (pcr_contractAddress item)] @ fd @ call_context_values (pcr_callContext item) @ [AcvmFr h])))"

record message_load_oracle_inputs =
  mlo_message :: "fr list"
  mlo_index :: int
  mlo_siblingPath :: "fr list"

definition toAcvmMessageLoadOracleInputs :: "message_load_oracle_inputs \<Rightarrow> fr \<Rightarrow> acvm_field list result" where
  "toAcvmMessageLoadOracleInputs m root =
     toACVMFields (map AcvmFr (mlo_message m) @ [AcvmBigint (mlo_index m)] @ map AcvmFr (mlo_siblingPath m) @ [AcvmFr root])"

definition toACVMWitness :: "int \<Rightarrow> acvm_value list \<Rightarrow> acvm_witness result" where
  "toACVMWitness witnessStartIndex xs =
     rbind (toACVMFields xs) (\<lambda>fs. Inr (zip (map (\<lambda>i. int i + witnessStartIndex) [0..<length fs]) fs))"

section \<open>Reading the results of a private function\<close>

definition frToAztecAddress :: "fr \<Rightarrow> aztec_address result" where
  "frToAztecAddress x = rbind (Fr_toBuffer x) new_AztecAddress"

definition frToNumber :: "fr \<Rightarrow> int" where
  "frToNumber x = js_Number (fr_value x)"

definition frToBoolean :: "fr \<Rightarrow> bool result" where
  "frToBoolean x = rbind (Fr_toBuffer x) (\<lambda>buf. Inr (last buf \<noteq> 0))"

definition frToSelector :: "fr \<Rightarrow> buffer result" where
  "frToSelector x = rbind (Fr_toBuffer x) (\<lambda>buf. Inr (drop (length buf - 4) buf))"

text \<open>\<open>PublicInputsReader\<close>: its state is the list of fields that are left.\<close>

definition readField :: "(acvm_field list, fr) js" where
  "readField fs = (case fs of [] \<Rightarrow> (Inl (Error ''Not enough public inputs''), []) | f # rest \<Rightarrow>
     if f = [] then (Inl (Error ''Not enough public inputs''), rest) else (fromACVMField f, rest))"

definition readFieldArray :: "nat \<Rightarrow> (acvm_field list, fr list) js" where
  "readFieldArray n = jrepeat n readField"

definition readAztecAddress :: "(acvm_field list, aztec_address) js" where
  "readAztecAddress = jbind readField (\<lambda>x. jlift (frToAztecAddress x))"

definition readBool :: "(acvm_field list, bool) js" where
  "readBool = jbind readField (\<lambda>x. jlift (frToBoolean x))"

definition readEthAddress :: "(acvm_field list, eth_address) js" where
  "readEthAddress = jbind readField (\<lambda>x. jlift (EthAddress_fromField x))"

definition readCallContext :: "(acvm_field list, call_context) js" where
  "readCallContext =
     jbind readAztecAddress (\<lambda>msgSender.
     jbind readAztecAddress (\<lambda>storage.
     jbind readField (\<lambda>portal.
     jbind readBool (\<lambda>del.
     jbind readBool (\<lambda>stat.
     jbind readBool (\<lambda>depl.
       jlift (new_CallContext msgSender storage (Inr portal) del stat depl)))))))"

definition extractPublicInputs :: "(acvm_field list, private_circuit_public_inputs) js" where
  "extractPublicInputs =
     jbind readCallContext (\<lambda>callContext. jbind readField (\<lambda>argsHash.
     jbind (readFieldArray RETURN_VALUES_LENGTH) (\<lambda>returnValues. jbind (readFieldArray READ_REQUESTS_LENGTH) (\<lambda>readRequests.
     jbind (readFieldArray NEW_COMMITMENTS_LENGTH) (\<lambda>newCommitments. jbind (readFieldArray NEW_NULLIFIERS_LENGTH) (\<lambda>newNullifiers.
     jbind (readFieldArray PRIVATE_CALL_STACK_LENGTH) (\<lambda>privateCallStack. jbind (readFieldArray PUBLIC_CALL_STACK_LENGTH) (\<lambda>publicCallStack.
     jbind (readFieldArray NEW_L2_TO_L1_MSGS_LENGTH) (\<lambda>newL2ToL1Msgs.
     jbind readField (\<lambda>privateDataTreeRoot. jbind readField (\<lambda>nullifierTreeRoot. jbind readField (\<lambda>contractTreeRoot. jbind readField (\<lambda>l1Tol2TreeRoot.
     jbind readField (\<lambda>vkHash. jbind readField (\<lambda>functionTreeRoot. jbind readField (\<lambda>salt.
     jbind readEthAddress (\<lambda>portal.
     jbind (jlift (new_ContractDeploymentData \<lparr>cdd_deployerPublicKey = [Fr_ZERO, Fr_ZERO], cdd_constructorVkHash = vkHash,
        cdd_functionTreeRoot = functionTreeRoot, cdd_contractAddressSalt = salt, cdd_portalContractAddress = portal\<rparr>)) (\<lambda>deployment.
       jlift (new_PrivateCircuitPublicInputs
         \<lparr>pvi_callContext = callContext, pvi_argsHash = argsHash, pvi_returnValues = returnValues, pvi_readRequests = readRequests,
          pvi_newCommitments = newCommitments, pvi_newNullifiers = newNullifiers, pvi_privateCallStack = privateCallStack,
          pvi_publicCallStack = publicCallStack, pvi_newL2ToL1Msgs = newL2ToL1Msgs, pvi_encryptedLogsHash = [new_Fr 0, new_Fr 0],
          pvi_unencryptedLogsHash = [new_Fr 0, new_Fr 0], pvi_encryptedLogPreimagesLength = new_Fr 0,
          pvi_unencryptedLogPreimagesLength = new_Fr 0, pvi_historicPrivateDataTreeRoot = privateDataTreeRoot,
          pvi_historicPrivateNullifierTreeRoot = nullifierTreeRoot, pvi_historicContractTreeRoot = contractTreeRoot,
          pvi_historicL1ToL2MessagesTreeRoot = l1Tol2TreeRoot, pvi_contractDeploymentData = deployment\<rparr>)))))))))))))))))))"

section \<open>Round trips\<close>

lemma buf_hex_roundtrip: "buf_from_hex (buf_to_hex b) = b"
proof (induction b)
  case (Cons x xs)
  have d: "unat x div 16 < 16" "unat x mod 16 < 16" using unsigned_less[of x, where ?'a = nat] by simp_all
  have "(of_nat (16 * (unat x div 16) + unat x mod 16) :: byte) = x" by (simp del: of_nat_add of_nat_mult)
  then show ?case using Cons d by (simp add: buf_to_hex_def hex_val_digit_char del: of_nat_add of_nat_mult)
qed (simp add: buf_to_hex_def)

text \<open>The field element that a value stands for.\<close>

fun value_fr :: "acvm_value \<Rightarrow> fr" where
  "value_fr (AcvmBool b) = new_Fr (of_bool b)"
| "value_fr (AcvmBuffer b) = new_Fr (be_val b)"
| "value_fr (AcvmNumber n) = new_Fr n"
| "value_fr (AcvmBigint n) = new_Fr n"
| "value_fr (AcvmAztecAddress a) = new_Fr (be_val (aa_buffer a))"
| "value_fr (AcvmEthAddress a) = new_Fr (be_val (ea_buffer a))"
| "value_fr (AcvmFr x) = x"

fun value_ok :: "acvm_value \<Rightarrow> bool" where
  "value_ok (AcvmBool b) \<longleftrightarrow> True"
| "value_ok (AcvmBuffer b) \<longleftrightarrow> length b \<le> 32"
| "value_ok (AcvmNumber n) \<longleftrightarrow> 0 \<le> n \<and> n < 2 ^ 32"
| "value_ok (AcvmBigint n) \<longleftrightarrow> 0 \<le> n \<and> n < 256 ^ 32"
| "value_ok (AcvmAztecAddress a) \<longleftrightarrow> address_ok a"
| "value_ok (AcvmEthAddress a) \<longleftrightarrow> eth_ok a"
| "value_ok (AcvmFr x) \<longleftrightarrow> fr_ok x"

lemma be_val_zeros: "be_val (replicate n 0 @ b) = be_val b"
  by (induction n) (simp_all add: be_val_Cons)

lemma read_padded:
  assumes "length b \<le> 32"
  shows "readField ((''0x'' @ buf_to_hex (replicate (32 - length b) 0 @ b)) # fs) = (Inr (new_Fr (be_val b)), fs)"
proof -
  have "fst (Fr_fromBuffer (new_BufferReader c 0)) = Inr (new_Fr (be_val c))" if "length c = 32" for c
    using that by (simp add: Fr_fromBuffer_def new_BufferReader_def readBytes_short jbind_def subarray_def toBigIntBE_be_val)
  from this[of "replicate (32 - length b) 0 @ b"] show ?thesis using assms
    by (simp add: readField_def fromACVMField_def convertACVMFieldToBuffer_def buf_hex_roundtrip be_val_zeros)
qed

lemma bool_fields:
  "ZERO_ACVM_FIELD = ''0x'' @ buf_to_hex (replicate 32 0)"
  "ONE_ACVM_FIELD = ''0x'' @ buf_to_hex (replicate 31 0 @ [1])"
  by code_simp+

definition field_for :: "acvm_value \<Rightarrow> acvm_field" where
  "field_for v = (case toACVMField v of Inr f \<Rightarrow> f | Inl _ \<Rightarrow> [])"

lemma field_read_back:
  assumes "value_ok v"
  shows "toACVMField v = Inr (field_for v) \<and> readField (field_for v # fs) = (Inr (value_fr v), fs)"
proof -
  have bytes: ?thesis if "acvm_value_buffer v = Inr b" "length b \<le> 32" "value_fr v = new_Fr (be_val b)" for b
  proof -
    have "toACVMField v = Inr (''0x'' @ buf_to_hex (replicate (32 - length b) 0 @ b))"
      using that(1,2) by (cases v) (simp_all add: toACVMField_def adaptBufferSize_def)
    then show ?thesis using read_padded[OF that(2)] by (simp add: field_for_def that(3))
  qed
  have int: "acvm_value_buffer v = Inr (be_bytes 32 n) \<Longrightarrow> value_fr v = new_Fr n \<Longrightarrow> 0 \<le> n \<Longrightarrow> n < 256 ^ 32 \<Longrightarrow> ?thesis" for n
    using bytes[of "be_bytes 32 n"] by (simp add: length_be_bytes be_val_be_bytes)
  show ?thesis
  proof (cases v)
    case (AcvmBool b)
    have "be_val [1 :: byte] = 1" by code_simp
    then show ?thesis using read_padded[of "[]" fs] read_padded[of "[1]" fs] unfolding AcvmBool
      by (cases b) (simp_all add: field_for_def toACVMField_def bool_fields)
  next
    case (AcvmNumber n)
    then have "numToUInt32BE n 32 = Inr (replicate 28 0 @ be_bytes 4 n)"
      using assms by (simp add: numToUInt32BE_def writeUInt32BE_def Buffer_alloc_def)
    then show ?thesis using bytes[of "replicate 28 0 @ be_bytes 4 n"] assms AcvmNumber
      by (simp add: length_be_bytes be_val_zeros be_val_be_bytes)
  next
    case (AcvmBigint n)
    then show ?thesis using int[of n] assms by (simp add: Fr_toBuffer_bytes new_Fr_def)
  next
    case (AcvmFr x)
    then show ?thesis using int[of "fr_value x"] assms by (simp add: fr_ok_def Fr_toBuffer_bytes) (simp add: new_Fr_def)
  qed (use assms bytes in \<open>auto simp: address_ok_def eth_ok_def AztecAddress_toBuffer_def EthAddress_toBuffer_def\<close>)
qed

text \<open>The order in which a private function returns its public inputs.\<close>

definition private_outputs :: "private_circuit_public_inputs \<Rightarrow> acvm_value list" where
  "private_outputs p = (let c = pvi_callContext p in
     [AcvmAztecAddress (cc_msgSender c), AcvmAztecAddress (cc_storageContractAddress c), AcvmEthAddress (cc_portalContractAddress c),
      AcvmBool (cc_isDelegateCall c), AcvmBool (cc_isStaticCall c), AcvmBool (cc_isContractDeployment c), AcvmFr (pvi_argsHash p)] @
     map AcvmFr (pvi_returnValues p) @ map AcvmFr (pvi_readRequests p) @ map AcvmFr (pvi_newCommitments p) @ map AcvmFr (pvi_newNullifiers p) @
     map AcvmFr (pvi_privateCallStack p) @ map AcvmFr (pvi_publicCallStack p) @ map AcvmFr (pvi_newL2ToL1Msgs p) @
     [AcvmFr (pvi_historicPrivateDataTreeRoot p), AcvmFr (pvi_historicPrivateNullifierTreeRoot p), AcvmFr (pvi_historicContractTreeRoot p),
      AcvmFr (pvi_historicL1ToL2MessagesTreeRoot p)] @ deployment_values (pvi_contractDeploymentData p))"

lemma fields_total: "\<forall>v \<in> set vs. value_ok v \<Longrightarrow> toACVMFields vs = Inr (map field_for vs)"
  unfolding toACVMFields_def by (rule rtraverse_map) (use field_read_back in blast)

lemma read_value [simp]: "value_ok v \<Longrightarrow> readField (field_for v # fs) = (Inr (value_fr v), fs)"
  using field_read_back by blast

lemma read_array [simp]:
  "length xs = n \<Longrightarrow> \<forall>x \<in> set xs. fr_ok x \<Longrightarrow> readFieldArray n (map (field_for \<circ> AcvmFr) xs @ fs) = (Inr xs, fs)"
  unfolding readFieldArray_def by (induction xs arbitrary: n) (auto simp: jbind_def)

lemma read_bool [simp]:
  "readBool (field_for (AcvmBool b) # fs) = (Inr b, fs)"
proof -
  have "Fr_toBuffer (new_Fr 0) = Inr (replicate 32 0)" "Fr_toBuffer (new_Fr 1) = Inr (replicate 31 0 @ [1])" by code_simp+
  then show ?thesis by (cases b) (simp_all add: readBool_def jbind_def frToBoolean_def last_replicate)
qed

lemma read_address [simp]:
  assumes "address_ok a"
  shows "readAztecAddress (field_for (AcvmAztecAddress a) # fs) = (Inr a, fs)"
proof -
  have "Fr_toBuffer (new_Fr (be_val (aa_buffer a))) = Inr (aa_buffer a)"
    using assms toBufferBE_buf[of "aa_buffer a"] by (simp add: Fr_toBuffer_def new_Fr_def address_ok_def)
  then show ?thesis using assms
    by (simp add: readAztecAddress_def jbind_def frToAztecAddress_def new_AztecAddress_def toBigIntBE_be_val address_ok_def Let_def)
qed

lemma eth_from_value:
  assumes "eth_ok a"
  shows "EthAddress_fromField (value_fr (AcvmEthAddress a)) = Inr a"
proof -
  have b: "length (ea_buffer a) = 20" using assms by (simp add: eth_ok_def)
  have "Fr_toBuffer (new_Fr (be_val (ea_buffer a))) = Inr (replicate 12 0 @ ea_buffer a)"
    using toBufferBE_buf[of "replicate 12 0 @ ea_buffer a"] b by (simp add: Fr_toBuffer_def new_Fr_def be_val_zeros)
  then show ?thesis using b by (simp add: EthAddress_fromField_def new_EthAddress_def)
qed

lemma read_call_context [simp]:
  assumes "CallContext_ok c"
  shows "readCallContext (field_for (AcvmAztecAddress (cc_msgSender c)) # field_for (AcvmAztecAddress (cc_storageContractAddress c)) #
    field_for (AcvmEthAddress (cc_portalContractAddress c)) # field_for (AcvmBool (cc_isDelegateCall c)) # field_for (AcvmBool (cc_isStaticCall c)) #
    field_for (AcvmBool (cc_isContractDeployment c)) # fs) = (Inr c, fs)"
  using assms eth_from_value[of "cc_portalContractAddress c"]
  by (simp add: readCallContext_def CallContext_ok_def jbind_def new_CallContext_def)

lemma read_eth [simp]: "eth_ok a \<Longrightarrow> readEthAddress (field_for (AcvmEthAddress a) # fs) = (Inr a, fs)"
  using eth_from_value[of a] by (simp add: readEthAddress_def jbind_def)

text \<open>C37. \<open>extractPublicInputs\<close> reads back the public inputs of a private function from the fields of its witness, every member at its place, and
  leaves what follows; the hashes and lengths of the logs, which the function does not return, are zero.\<close>

theorem public_inputs_roundtrip:
  assumes "PrivateCircuitPublicInputs_ok p" and "cdd_deployerPublicKey (pvi_contractDeploymentData p) = [Fr_ZERO, Fr_ZERO]"
    and "pvi_encryptedLogsHash p = [new_Fr 0, new_Fr 0]" "pvi_unencryptedLogsHash p = [new_Fr 0, new_Fr 0]"
    and "pvi_encryptedLogPreimagesLength p = new_Fr 0" "pvi_unencryptedLogPreimagesLength p = new_Fr 0"
  shows "\<exists>fs. toACVMFields (private_outputs p) = Inr fs \<and> extractPublicInputs (fs @ rest) = (Inr p, rest)"
proof (intro exI conjI)
  note ok = assms(1)[unfolded PrivateCircuitPublicInputs_ok_def CallContext_ok_def ContractDeploymentData_ok_def]
  show "toACVMFields (private_outputs p) = Inr (map field_for (private_outputs p))"
    by (rule fields_total) (use ok in \<open>auto simp: private_outputs_def deployment_values_def Let_def\<close>)
  have d: "new_ContractDeploymentData (pvi_contractDeploymentData p) = Inr (pvi_contractDeploymentData p)"
    "new_PrivateCircuitPublicInputs p = Inr p" "CallContext_ok (pvi_callContext p)"
    using assms(1) by (simp_all add: PrivateCircuitPublicInputs_ok_def new_PrivateCircuitPublicInputs_def assertMemberLength_def)
  show "extractPublicInputs (map field_for (private_outputs p) @ rest) = (Inr p, rest)"
    using ok d assms(2-6) by (cases p; cases "pvi_contractDeploymentData p")
      (simp add: extractPublicInputs_def private_outputs_def deployment_values_def Let_def jbind_def)
qed

lemma empty_public_inputs:
  "yields PrivateCircuitPublicInputs_empty (\<lambda>p. PrivateCircuitPublicInputs_ok p \<and> cdd_deployerPublicKey (pvi_contractDeploymentData p) = [Fr_ZERO, Fr_ZERO] \<and>
    pvi_encryptedLogsHash p = [new_Fr 0, new_Fr 0] \<and> pvi_unencryptedLogsHash p = [new_Fr 0, new_Fr 0] \<and>
    pvi_encryptedLogPreimagesLength p = new_Fr 0 \<and> pvi_unencryptedLogPreimagesLength p = new_Fr 0)"
  unfolding PrivateCircuitPublicInputs_empty_def
  by (rule yields_bind[OF CallContext_empty_ok])
    (simp add: new_PrivateCircuitPublicInputs_def assertMemberLength_def PrivateCircuitPublicInputs_ok_def, simp add: ContractDeploymentData_empty_def numeral_eq_Suc Fr_ZERO_def)

theorem public_inputs_roundtrip_witness:
  "\<exists>p fs. PrivateCircuitPublicInputs_empty = Inr p \<and> toACVMFields (private_outputs (p\<lparr>pvi_argsHash := new_Fr 7\<rparr>)) = Inr fs \<and>
    extractPublicInputs (fs @ [ONE_ACVM_FIELD]) = (Inr (p\<lparr>pvi_argsHash := new_Fr 7\<rparr>), [ONE_ACVM_FIELD])"
proof -
  obtain p where p: "PrivateCircuitPublicInputs_empty = Inr p" "PrivateCircuitPublicInputs_ok p"
    "cdd_deployerPublicKey (pvi_contractDeploymentData p) = [Fr_ZERO, Fr_ZERO]" "pvi_encryptedLogsHash p = [new_Fr 0, new_Fr 0]"
    "pvi_unencryptedLogsHash p = [new_Fr 0, new_Fr 0]" "pvi_encryptedLogPreimagesLength p = new_Fr 0" "pvi_unencryptedLogPreimagesLength p = new_Fr 0"
    using empty_public_inputs by (auto simp: yields_def)
  then have "PrivateCircuitPublicInputs_ok (p\<lparr>pvi_argsHash := new_Fr 7\<rparr>)" by (simp add: PrivateCircuitPublicInputs_ok_def fr_ok_def new_Fr_def)
  then show ?thesis using public_inputs_roundtrip[of "p\<lparr>pvi_argsHash := new_Fr 7\<rparr>"] p by auto
qed

end
