(* ===== verification/PublicExecution.thy ===== *)
theory PublicExecution
  imports AcvmFields SoloBlockBuilder "HOL-Library.AList"
begin

text \<open>
  Execution of public functions: \<^verbatim>\<open>acir-simulator/src/public\<close> and the databases behind it, \<^verbatim>\<open>sequencer-client/src/simulator/public_executor.ts\<close>. The storage of
  contracts is the public data tree with a cache of writes; every function collects its reads and updates of storage. The ACVM, the
  Pedersen hash and the contracts of the archiver are parameters. \<open>execute\<close> calls itself for nested calls; its first argument bounds their depth, and
  \<open>None\<close> says that the bound was reached (\<open>execute_more_depth\<close>: a larger bound does not change a result).
\<close>

section \<open>Executions\<close>

record public_execution =
  pe_contractAddress :: aztec_address
  pe_functionData :: function_data
  pe_args :: "fr list"
  pe_callContext :: call_context

datatype public_execution_result = PublicExecutionResult (per_execution: public_execution) (per_returnValues: "fr list")
  (per_contractStorageReads: "contract_storage_read list") (per_contractStorageUpdateRequests: "contract_storage_update_request list")
  (per_nestedExecutions: "public_execution_result list")

record 'db public_env =
  pub_trees :: "'db tree_env"
  pedersenCompressWithHashIndex :: "buffer list \<Rightarrow> int \<Rightarrow> buffer result"
  pub_getPublicFunction :: "aztec_address \<Rightarrow> buffer \<Rightarrow> encoded_contract_function option"
  pub_getL2ContractInfo :: "aztec_address \<Rightarrow> contract_data option"
  pub_getConfirmedL1ToL2Message :: "fr \<Rightarrow> l1_to_l2_message result"
  siloCommitment :: "aztec_address \<Rightarrow> fr \<Rightarrow> fr result"
  solveIntermediateWitness :: "buffer \<Rightarrow> acvm_witness \<Rightarrow> acvm_run"
  selectPublicWitnessFlattened :: "buffer \<Rightarrow> acvm_witness \<Rightarrow> acvm_field list"

section \<open>The databases\<close>

definition GeneratorIndex_PUBLIC_LEAF_INDEX :: int where
  "GeneratorIndex_PUBLIC_LEAF_INDEX = 26"

definition computePublicDataTreeLeafIndex :: "'db public_env \<Rightarrow> aztec_address \<Rightarrow> fr \<Rightarrow> int result" where
  "computePublicDataTreeLeafIndex P contract slot =
     rbind (Fr_toBuffer slot) (\<lambda>s.
     rbind (pedersenCompressWithHashIndex P [AztecAddress_toBuffer contract, s] GeneratorIndex_PUBLIC_LEAF_INDEX) (\<lambda>b. Inr (toBigInt b)))"

definition getBytecode :: "'db public_env \<Rightarrow> aztec_address \<Rightarrow> buffer \<Rightarrow> buffer option" where
  "getBytecode P address sel = map_option fn_bytecode (pub_getPublicFunction P address sel)"

definition getPortalContractAddress :: "'db public_env \<Rightarrow> aztec_address \<Rightarrow> eth_address option" where
  "getPortalContractAddress P address = map_option portalContractAddress (pub_getL2ContractInfo P address)"

type_synonym write_cache = "int \<rightharpoonup> fr"

definition storageRead :: "'db public_env \<Rightarrow> 'db merkle_trees \<Rightarrow> aztec_address \<Rightarrow> fr \<Rightarrow> (write_cache, fr) js" where
  "storageRead P w contract slot =
     jbind (jlift (computePublicDataTreeLeafIndex P contract slot)) (\<lambda>index.
     jbind jget (\<lambda>writeCache.
       case writeCache index of
         Some cached \<Rightarrow> jreturn cached
       | None \<Rightarrow> jlift (rbind (Facade_getLeafValue (pub_trees P) asLatest PUBLIC_DATA_TREE index w) (\<lambda>v.
           case v of None \<Rightarrow> Inr Fr_ZERO | Some b \<Rightarrow> fr_of_buffer b))))"

definition storageWrite :: "'db public_env \<Rightarrow> aztec_address \<Rightarrow> fr \<Rightarrow> fr \<Rightarrow> (write_cache, unit) js" where
  "storageWrite P contract slot newVal =
     jbind (jlift (computePublicDataTreeLeafIndex P contract slot)) (\<lambda>index. jmodify (\<lambda>writeCache. writeCache(index \<mapsto> newVal)))"

text \<open>An index that was not found is \<open>undefined\<close>, and the first bit operation on it throws.\<close>

definition path_of_found :: "'db tree_env \<Rightarrow> MerkleTreeId \<Rightarrow> int option \<Rightarrow> 'db merkle_trees \<Rightarrow> (int \<times> fr list) result" where
  "path_of_found env i found w =
     (case found of
        None \<Rightarrow> Inl TypeError
      | Some index \<Rightarrow> rbind (rbind (Facade_getSiblingPath env asLatest i index w) SiblingPath_toFieldArray) (\<lambda>path. Inr (index, path)))"

definition WorldStateDB_getL1ToL2Message :: "'db public_env \<Rightarrow> 'db merkle_trees \<Rightarrow> fr \<Rightarrow> message_load_oracle_inputs result" where
  "WorldStateDB_getL1ToL2Message P w messageKey =
     rbind (pub_getConfirmedL1ToL2Message P messageKey) (\<lambda>message.
     rbind (Fr_toBuffer messageKey) (\<lambda>b.
     rbind (Facade_findLeafIndex (pub_trees P) asLatest L1_TO_L2_MESSAGES_TREE b w) (\<lambda>found.
     rbind (path_of_found (pub_trees P) L1_TO_L2_MESSAGES_TREE found w) (\<lambda>(index, path).
     rbind (L1ToL2Message_toFieldArray message) (\<lambda>fs. Inr \<lparr>mlo_message = fs, mlo_index = index, mlo_siblingPath = path\<rparr>)))))"

record commitment_oracle_inputs =
  coi_commitment :: fr
  coi_index :: int
  coi_siblingPath :: "fr list"

definition WorldStateDB_getCommitmentOracle :: "'db public_env \<Rightarrow> 'db merkle_trees \<Rightarrow> aztec_address \<Rightarrow> fr \<Rightarrow> commitment_oracle_inputs result" where
  "WorldStateDB_getCommitmentOracle P w address commitment =
     rbind (siloCommitment P address commitment) (\<lambda>siloed.
     rbind (Fr_toBuffer siloed) (\<lambda>b.
     rbind (Facade_findLeafIndex (pub_trees P) asLatest PRIVATE_DATA_TREE b w) (\<lambda>found.
     rbind (path_of_found (pub_trees P) PRIVATE_DATA_TREE found w) (\<lambda>(index, path).
       Inr \<lparr>coi_commitment = siloed, coi_index = index, coi_siblingPath = path\<rparr>))))"

definition WorldStateDB_getTreeRoots :: "'db merkle_trees \<Rightarrow> private_historic_tree_roots result" where
  "WorldStateDB_getTreeRoots w =
     (let roots = Facade_getCommitmentTreeRoots asLatest w in
      rbind (fr_of_buffer (privateDataTreeRoot roots)) (\<lambda>p. rbind (fr_of_buffer (contractDataTreeRoot roots)) (\<lambda>c.
      rbind (fr_of_buffer (nullifierTreeRoot roots)) (\<lambda>n. rbind (fr_of_buffer (l1Tol2MessagesTreeRoot roots)) (\<lambda>m.
        Inr \<lparr>pht_privateDataTreeRoot = p, pht_nullifierTreeRoot = n, pht_contractTreeRoot = c, pht_l1ToL2MessagesTreeRoot = m,
          pht_privateKernelVkTreeRoot = Fr_ZERO\<rparr>)))))"

section \<open>The collector of storage actions\<close>

text \<open>JavaScript maps keep the order of insertion, as association lists do.\<close>

record storage_actions =
  contractStorageReads :: "(int \<times> fr) list"
  contractStorageUpdateRequests :: "(int \<times> fr \<times> fr) list"

record exec_state =
  ex_actions :: storage_actions
  ex_nested :: "public_execution_result list"
  ex_cache :: write_cache

definition on_cache :: "(write_cache, 'a) js \<Rightarrow> (exec_state, 'a) js" where
  "on_cache m s = (case m (ex_cache s) of (r, c) \<Rightarrow> (r, s\<lparr>ex_cache := c\<rparr>))"

definition record_read :: "int \<Rightarrow> fr \<Rightarrow> (exec_state, unit) js" where
  "record_read slot v = jmodify (\<lambda>s. s\<lparr>ex_actions := (ex_actions s)\<lparr>contractStorageReads := AList.update slot v (contractStorageReads (ex_actions s))\<rparr>\<rparr>)"

definition record_update :: "int \<Rightarrow> fr \<Rightarrow> fr \<Rightarrow> (exec_state, unit) js" where
  "record_update slot oldV newV = jmodify (\<lambda>s. s\<lparr>ex_actions := (ex_actions s)\<lparr>contractStorageUpdateRequests :=
     AList.update slot (oldV, newV) (contractStorageUpdateRequests (ex_actions s))\<rparr>\<rparr>)"

definition delete_read :: "int \<Rightarrow> (exec_state, unit) js" where
  "delete_read slot = jmodify (\<lambda>s. s\<lparr>ex_actions := (ex_actions s)\<lparr>contractStorageReads := AList.delete slot (contractStorageReads (ex_actions s))\<rparr>\<rparr>)"

definition collector_read :: "'db public_env \<Rightarrow> 'db merkle_trees \<Rightarrow> aztec_address \<Rightarrow> fr \<Rightarrow> (exec_state, fr) js" where
  "collector_read P w address storageSlot =
     (let slot = fr_value storageSlot in
      jbind jget (\<lambda>s.
        case map_of (contractStorageUpdateRequests (ex_actions s)) slot of
          Some (oldV, newV) \<Rightarrow> jreturn newV
        | None \<Rightarrow>
            (case map_of (contractStorageReads (ex_actions s)) slot of
               Some currentValue \<Rightarrow> jreturn currentValue
             | None \<Rightarrow> jbind (on_cache (storageRead P w address storageSlot)) (\<lambda>v. jbind (record_read slot v) (\<lambda>_. jreturn v)))))"

definition collector_write :: "'db public_env \<Rightarrow> 'db merkle_trees \<Rightarrow> aztec_address \<Rightarrow> fr \<Rightarrow> fr \<Rightarrow> (exec_state, unit) js" where
  "collector_write P w address storageSlot newVal =
     (let slot = fr_value storageSlot in
      jbind jget (\<lambda>s.
        case map_of (contractStorageUpdateRequests (ex_actions s)) slot of
          Some (oldV, _) \<Rightarrow> record_update slot oldV newVal
        | None \<Rightarrow>
            (case map_of (contractStorageReads (ex_actions s)) slot of
               Some currentValue \<Rightarrow> jbind (delete_read slot) (\<lambda>_. record_update slot currentValue newVal)
             | None \<Rightarrow> jbind (on_cache (storageRead P w address storageSlot)) (\<lambda>oldV. record_update slot oldV newVal))))"

definition collect :: "storage_actions \<Rightarrow> contract_storage_read list \<times> contract_storage_update_request list" where
  "collect a =
     (map (\<lambda>(slot, v). \<lparr>csr_storageSlot = new_Fr slot, csr_currentValue = v\<rparr>) (contractStorageReads a),
      map (\<lambda>(slot, oldV, newV). \<lparr>csu_storageSlot = new_Fr slot, csu_oldValue = oldV, csu_newValue = newV\<rparr>) (contractStorageUpdateRequests a))"

section \<open>The executor\<close>

definition getInitialWitness :: "fr list \<Rightarrow> call_context \<Rightarrow> private_historic_tree_roots \<Rightarrow> int \<Rightarrow> acvm_witness result" where
  "getInitialWitness args callContext roots witnessStartIndex =
     toACVMWitness witnessStartIndex
       ([AcvmBool (cc_isContractDeployment callContext), AcvmBool (cc_isDelegateCall callContext), AcvmBool (cc_isStaticCall callContext),
         AcvmAztecAddress (cc_msgSender callContext), AcvmEthAddress (cc_portalContractAddress callContext),
         AcvmAztecAddress (cc_storageContractAddress callContext), AcvmFr (pht_contractTreeRoot roots), AcvmFr (pht_l1ToL2MessagesTreeRoot roots),
         AcvmFr (pht_nullifierTreeRoot roots), AcvmFr (pht_privateDataTreeRoot roots)] @ map AcvmFr args)"

definition getPublicExecution :: "'db public_env \<Rightarrow> tx_execution_request \<Rightarrow> public_execution result" where
  "getPublicExecution P input =
     (let portal = (case getPortalContractAddress P (txe_to input) of None \<Rightarrow> EthAddress_ZERO | Some a \<Rightarrow> a) in
      rbind (new_CallContext (txe_from input) (txe_to input) (Inl portal) False False False) (\<lambda>c.
        Inr \<lparr>pe_contractAddress = txe_to input, pe_functionData = txe_functionData input, pe_args = txe_args input, pe_callContext = c\<rparr>))"

definition nested_execution :: "'db public_env \<Rightarrow> aztec_address \<Rightarrow> buffer \<Rightarrow> fr list \<Rightarrow> call_context \<Rightarrow> public_execution result" where
  "nested_execution P target sel args callerContext =
     (let portal = (case getPortalContractAddress P target of None \<Rightarrow> EthAddress_ZERO | Some a \<Rightarrow> a) in
      rbind (new_FunctionData \<lparr>fd_functionSelectorBuffer = sel, fd_isPrivate = False, fd_isConstructor = False\<rparr>) (\<lambda>fd.
      rbind (new_CallContext (cc_storageContractAddress callerContext) target (Inl portal) False False False) (\<lambda>c.
        Inr \<lparr>pe_contractAddress = target, pe_functionData = fd, pe_args = args, pe_callContext = c\<rparr>)))"

definition NOIR_MAX_RETURN_VALUES :: nat where
  "NOIR_MAX_RETURN_VALUES = 4"

definition oracle_storageRead :: "'db public_env \<Rightarrow> 'db merkle_trees \<Rightarrow> aztec_address \<Rightarrow> acvm_field list \<Rightarrow> (exec_state, acvm_field list) js" where
  "oracle_storageRead P w address args =
     (case args of
        [] \<Rightarrow> jthrow TypeError
      | slot # _ \<Rightarrow>
          jbind (jlift (fromACVMField slot)) (\<lambda>storageSlot.
          jbind (collector_read P w address storageSlot) (\<lambda>v. jlift (toACVMFields [AcvmFr v]))))"

definition oracle_storageWrite :: "'db public_env \<Rightarrow> 'db merkle_trees \<Rightarrow> aztec_address \<Rightarrow> acvm_field list \<Rightarrow> (exec_state, acvm_field list) js" where
  "oracle_storageWrite P w address args =
     (case args of
        slot # v # _ \<Rightarrow>
          jbind (jlift (fromACVMField slot)) (\<lambda>storageSlot.
          jbind (jlift (fromACVMField v)) (\<lambda>newVal.
          jbind (collector_write P w address storageSlot newVal) (\<lambda>_.
          jbind (on_cache (storageWrite P address storageSlot newVal)) (\<lambda>_. jlift (toACVMFields [AcvmFr newVal])))))
      | _ \<Rightarrow> jthrow TypeError)"

definition call_arguments :: "'db public_env \<Rightarrow> call_context \<Rightarrow> acvm_field list \<Rightarrow> public_execution result" where
  "call_arguments P callerContext args =
     (case args of
        address # sel # rest \<Rightarrow>
          rbind (rbind (fromACVMField address) frToAztecAddress) (\<lambda>target.
          rbind (rbind (fromACVMField sel) frToSelector) (\<lambda>s.
          rbind (rtraverse fromACVMField rest) (\<lambda>xs. nested_execution P target s xs callerContext)))
      | _ \<Rightarrow> Inl TypeError)"

definition run_nested :: "(public_execution \<Rightarrow> (write_cache, public_execution_result) ojs) \<Rightarrow> public_execution \<Rightarrow> (exec_state, public_execution_result) ojs" where
  "run_nested run e s =
     (case run e (ex_cache s) of
        None \<Rightarrow> None
      | Some (Inl err, c) \<Rightarrow> Some (Inl err, s\<lparr>ex_cache := c\<rparr>)
      | Some (Inr child, c) \<Rightarrow> Some (Inr child, s\<lparr>ex_cache := c, ex_nested := ex_nested s @ [child]\<rparr>))"

definition oracle_callPublicFunction ::
  "(public_execution \<Rightarrow> (write_cache, public_execution_result) ojs) \<Rightarrow> 'db public_env \<Rightarrow> public_execution \<Rightarrow> acvm_field list \<Rightarrow> (exec_state, acvm_field list) ojs" where
  "oracle_callPublicFunction run P e args =
     obind (olift (jlift (call_arguments P (pe_callContext e) args))) (\<lambda>nested.
     obind (run_nested run nested) (\<lambda>child.
       olift (jlift (rbind (padArrayEnd (per_returnValues child) Fr_ZERO NOIR_MAX_RETURN_VALUES) (\<lambda>vs. toACVMFields (map AcvmFr vs))))))"

definition public_oracle ::
  "(public_execution \<Rightarrow> (write_cache, public_execution_result) ojs) \<Rightarrow> 'db public_env \<Rightarrow> 'db merkle_trees \<Rightarrow> public_execution \<Rightarrow>
   string \<Rightarrow> acvm_field list \<Rightarrow> (exec_state, acvm_field list) ojs" where
  "public_oracle run P w e name args =
     (if name = ''storageRead'' then olift (oracle_storageRead P w (pe_contractAddress e) args)
      else if name = ''storageWrite'' then olift (oracle_storageWrite P w (pe_contractAddress e) args)
      else if name = ''callPublicFunction'' then oracle_callPublicFunction run P e args
      else olift (jthrow (Error ''Built-in not available for public execution simulation'')))"

definition execution_result :: "'db public_env \<Rightarrow> public_execution \<Rightarrow> buffer \<Rightarrow> acvm_witness \<Rightarrow> exec_state \<Rightarrow> public_execution_result result" where
  "execution_result P e acir partialWitness s =
     rbind (rtraverse fromACVMField (selectPublicWitnessFlattened P acir partialWitness)) (\<lambda>returnValues.
       case collect (ex_actions s) of (storageReads, updates) \<Rightarrow> Inr (PublicExecutionResult e returnValues storageReads updates (ex_nested s)))"

definition bytecode_error :: "public_execution \<Rightarrow> js_error" where
  "bytecode_error e = Error (''Bytecode not found for '' @ AztecAddress_toString (pe_contractAddress e) @ '':'' @
     buf_to_hex (fd_functionSelectorBuffer (pe_functionData e)))"

definition new_exec_state :: "write_cache \<Rightarrow> exec_state" where
  "new_exec_state c = \<lparr>ex_actions = \<lparr>contractStorageReads = [], contractStorageUpdateRequests = []\<rparr>, ex_nested = [], ex_cache = c\<rparr>"

fun execute :: "nat \<Rightarrow> 'db public_env \<Rightarrow> 'db merkle_trees \<Rightarrow> private_historic_tree_roots \<Rightarrow> public_execution \<Rightarrow> (write_cache, public_execution_result) ojs" where
  "execute 0 P w roots e c = None"
| "execute (Suc n) P w roots e c =
     (case getBytecode P (pe_contractAddress e) (fd_functionSelectorBuffer (pe_functionData e)) of
        None \<Rightarrow> Some (Inl (bytecode_error e), c)
      | Some acir \<Rightarrow>
          (case getInitialWitness (pe_args e) (pe_callContext e) roots 1 of
             Inl err \<Rightarrow> Some (Inl err, c)
           | Inr initialWitness \<Rightarrow>
               (case acvm (public_oracle (execute n P w roots) P w e) (solveIntermediateWitness P acir initialWitness) (new_exec_state c) of
                  None \<Rightarrow> None
                | Some (Inl err, s) \<Rightarrow> Some (Inl err, ex_cache s)
                | Some (Inr partialWitness, s) \<Rightarrow> Some (execution_result P e acir partialWitness s, ex_cache s))))"

end
