(* ===== verification/PublicProcessor.thy ===== *)
theory PublicProcessor
  imports PublicExecution
begin

text \<open>
  \<^verbatim>\<open>sequencer-client/src/sequencer/public_processor.ts\<close>, with \<^verbatim>\<open>processed_tx.ts\<close>, \<^verbatim>\<open>utils.ts\<close>, \<^verbatim>\<open>simulator/public_kernel.ts\<close> and the public part of
  \<^verbatim>\<open>prover/empty.ts\<close>: the public calls of the transactions of a block are executed and the public kernel circuit is run once for each of them.
  The simulation of the circuits and their hashes are parameters. The random values that the code draws come from streams; the state counts the draws
  and holds the cache of writes of the executor. Calls that the code starts together (\<open>Promise.all\<close>) are made in the order of their start.
  Results are in \<open>ojs\<close>: \<open>None\<close> says that an execution reached the bound of its depth (\<open>depthBound\<close>).
\<close>

section \<open>Processed transactions\<close>

definition getCombinedHistoricTreeRoots :: "'db merkle_trees \<Rightarrow> combined_historic_tree_roots result" where
  "getCombinedHistoricTreeRoots w =
     (let root = (\<lambda>i. fr_of_buffer (ti_root (Facade_getTreeInfo asLatest i w))) in
      rbind (root PRIVATE_DATA_TREE) (\<lambda>p. rbind (root NULLIFIER_TREE) (\<lambda>n. rbind (root CONTRACT_TREE) (\<lambda>c. rbind (root L1_TO_L2_MESSAGES_TREE) (\<lambda>m.
        Inr \<lparr>cht_privateHistoricTreeRoots = \<lparr>pht_privateDataTreeRoot = p, pht_nullifierTreeRoot = n, pht_contractTreeRoot = c,
          pht_l1ToL2MessagesTreeRoot = m, pht_privateKernelVkTreeRoot = Fr_ZERO\<rparr>\<rparr>)))))"

text \<open>The overloads of \<open>makeProcessedTx\<close> ask for a transaction with data and proof when there is no output of a kernel circuit.\<close>

definition makeProcessedTx :: "circuit_hashes \<Rightarrow> tx \<Rightarrow> (kernel_public_inputs \<times> proof_data) option \<Rightarrow> processed_tx result" where
  "makeProcessedTx wasm t out =
     rbind (Tx_getTxHash wasm t) (\<lambda>h.
       case (out, tx_data t, tx_proof t) of
         (Some (d, p), _) \<Rightarrow> Inr \<lparr>ptx_hash = h, ptx_data = d, ptx_proof = p, ptx_encryptedLogs = tx_encryptedLogs t, ptx_txRequest = tx_txRequest t, ptx_isEmpty = False\<rparr>
       | (None, Some d, Some p) \<Rightarrow>
           Inr \<lparr>ptx_hash = h, ptx_data = d, ptx_proof = p, ptx_encryptedLogs = tx_encryptedLogs t, ptx_txRequest = tx_txRequest t, ptx_isEmpty = False\<rparr>
       | _ \<Rightarrow> Inl TypeError)"

definition makeEmptyProcessedTx :: "circuit_hashes \<Rightarrow> combined_historic_tree_roots \<Rightarrow> processed_tx result" where
  "makeEmptyProcessedTx wasm historicTreeRoots =
     rbind KernelCircuitPublicInputs_empty (\<lambda>k.
       let emptyKernelOutput = k\<lparr>kpi_constants := (kpi_constants k)\<lparr>ccd_historicTreeRoots := historicTreeRoots\<rparr>\<rparr> in
       rbind (Tx_createPrivate (Some emptyKernelOutput) (Some makeEmptyProof) \<lparr>functionLogs = []\<rparr> [] []) (\<lambda>emptyTx.
       rbind (Tx_getTxHash wasm emptyTx) (\<lambda>h.
         Inr \<lparr>ptx_hash = h, ptx_data = emptyKernelOutput, ptx_proof = makeEmptyProof, ptx_encryptedLogs = None, ptx_txRequest = None, ptx_isEmpty = True\<rparr>)))"

section \<open>State and parameters\<close>

record 'db processor =
  pr_public :: "'db public_env"
  pr_hashes :: circuit_hashes
  computeCallStackItemHash :: "public_call_stack_item \<Rightarrow> fr result"
  simulatePublicKernelCircuit :: "public_kernel_inputs \<Rightarrow> kernel_public_inputs result"
  simulatePublicKernelCircuitNoPreviousKernel :: "public_kernel_inputs_no_previous \<Rightarrow> kernel_public_inputs result"
  randomAddress :: "nat \<Rightarrow> aztec_address"
  randomSiblingPath :: "nat \<Rightarrow> fr list"
  depthBound :: nat

record processor_state =
  ps_cache :: write_cache
  ps_draws :: nat

definition draw :: "(nat \<Rightarrow> 'a) \<Rightarrow> (processor_state, 'a) js" where
  "draw f s = (Inr (f (ps_draws s)), s\<lparr>ps_draws := ps_draws s + 1\<rparr>)"

fun jtraverse :: "('a \<Rightarrow> ('s, 'b) js) \<Rightarrow> 'a list \<Rightarrow> ('s, 'b list) js" where
  "jtraverse f [] = jreturn []"
| "jtraverse f (x # xs) = jbind (f x) (\<lambda>y. jbind (jtraverse f xs) (\<lambda>ys. jreturn (y # ys)))"

lemma jtraverse_cong [fundef_cong]:
  "xs = ys \<Longrightarrow> (\<And>x. x \<in> set ys \<Longrightarrow> f x = g x) \<Longrightarrow> jtraverse f xs = jtraverse g ys"
  by (induction xs arbitrary: ys) auto

section \<open>The hash of arguments\<close>

text \<open>\<open>computeVarArgsHash\<close> of \<^verbatim>\<open>circuits.js/src/abis/abis.ts\<close>, over the hash of up to 32 field elements that the WebAssembly module computes. The
  processor takes it as an argument; this is the function that it is given.\<close>

definition MAX_HASHED_ARGS :: nat where "MAX_HASHED_ARGS = 32 ^ 2"

fun arg_chunks :: "nat \<Rightarrow> 'a list \<Rightarrow> 'a list list" where
  "arg_chunks n [] = []"
| "arg_chunks n (x # xs) = (x # take (n - 1) xs) # arg_chunks n (drop (n - 1) xs)"

definition abis_computeVarArgsHash :: "(fr list \<Rightarrow> fr) \<Rightarrow> fr list \<Rightarrow> fr result" where
  "abis_computeVarArgsHash wasmComputeVarArgs args =
     (if length args = 0 then Inr Fr_ZERO
      else if length args > 32 ^ 2 then Inl (Error ''Cannot hash more than 1024 arguments'')
      else if length args > 32 then Inr (wasmComputeVarArgs (map wasmComputeVarArgs (arg_chunks 32 args)))
      else Inr (wasmComputeVarArgs args))"

section \<open>Simulators, provers and keys\<close>

definition publicKernelCircuitNoInput :: "'db processor \<Rightarrow> public_kernel_inputs_no_previous \<Rightarrow> kernel_public_inputs result" where
  "publicKernelCircuitNoInput E input = simulatePublicKernelCircuitNoPreviousKernel E input"

definition publicKernelCircuitPrivateInput :: "'db processor \<Rightarrow> public_kernel_inputs \<Rightarrow> kernel_public_inputs result" where
  "publicKernelCircuitPrivateInput E input =
     (if \<not> kpi_isPrivate (pkd_publicInputs (pbi_previousKernel input)) then Inl (Error ''Expected private kernel previous inputs'')
      else simulatePublicKernelCircuit E input)"

definition publicKernelCircuitNonFirstIteration :: "'db processor \<Rightarrow> public_kernel_inputs \<Rightarrow> kernel_public_inputs result" where
  "publicKernelCircuitNonFirstIteration E input =
     (if kpi_isPrivate (pkd_publicInputs (pbi_previousKernel input)) then Inl (Error ''Expected public kernel previous inputs'')
      else simulatePublicKernelCircuit E input)"

definition getPublicCircuitProof :: "public_circuit_public_inputs \<Rightarrow> proof_data" where
  "getPublicCircuitProof publicInputs = \<lparr>proof_buffer = replicate EMPTY_PROOF_SIZE 0\<rparr>"

definition getPublicKernelCircuitProof :: "kernel_public_inputs \<Rightarrow> proof_data" where
  "getPublicKernelCircuitProof publicInputs = \<lparr>proof_buffer = replicate EMPTY_PROOF_SIZE 0\<rparr>"

definition getVerificationKeys :: "verification_keys result" where
  "getVerificationKeys =
     rbind VerificationKey_makeFake (\<lambda>vk. Inr \<lparr>publicKernelCircuit = vk, privateKernelCircuit = vk, baseRollupCircuit_vk = vk, mergeRollupCircuit_vk = vk\<rparr>)"

section \<open>The data of a call\<close>

definition call_stack_hash :: "'db processor \<Rightarrow> public_call_stack_item \<Rightarrow> fr result" where
  "call_stack_hash E item = (if PublicCallStackItem_isEmpty item then Inr Fr_ZERO else computeCallStackItemHash E item)"

definition public_inputs_from ::
  "'db processor \<Rightarrow> public_execution_result \<Rightarrow> fr \<Rightarrow> fr list \<Rightarrow> aztec_address \<Rightarrow> public_circuit_public_inputs result" where
  "public_inputs_from E r historicRoot publicCallStack proverAddress =
     rbind (computeVarArgsHash (pr_hashes E) (pe_args (per_execution r))) (\<lambda>argsHash.
     rbind (padArrayEnd [] Fr_ZERO NEW_COMMITMENTS_LENGTH) (\<lambda>newComms.
     rbind (padArrayEnd [] Fr_ZERO NEW_NULLIFIERS_LENGTH) (\<lambda>newNulls.
     rbind (padArrayEnd [] Fr_ZERO NEW_L2_TO_L1_MSGS_LENGTH) (\<lambda>newMsgs.
     rbind (padArrayEnd (per_returnValues r) Fr_ZERO RETURN_VALUES_LENGTH) (\<lambda>returnVals.
     rbind (padArrayEnd (per_contractStorageReads r) ContractStorageRead_empty KERNEL_PUBLIC_DATA_READS_LENGTH) (\<lambda>storageReads.
     rbind (padArrayEnd (per_contractStorageUpdateRequests r) ContractStorageUpdateRequest_empty KERNEL_PUBLIC_DATA_UPDATE_REQUESTS_LENGTH) (\<lambda>updates.
       new_PublicCircuitPublicInputs
         \<lparr>pci_callContext = pe_callContext (per_execution r), pci_argsHash = argsHash, pci_returnValues = returnVals,
          pci_contractStorageUpdateRequests = updates, pci_contractStorageReads = storageReads, pci_publicCallStack = publicCallStack,
          pci_newCommitments = newComms, pci_newNullifiers = newNulls, pci_newL2ToL1Msgs = newMsgs, pci_historicPublicDataTreeRoot = historicRoot,
          pci_proverAddress = proverAddress\<rparr>)))))))"

definition public_inputs_with ::
  "(processor_state, public_call_stack_item list) js \<Rightarrow> 'db processor \<Rightarrow> 'db merkle_trees \<Rightarrow> public_execution_result \<Rightarrow>
   (processor_state, public_circuit_public_inputs) js" where
  "public_inputs_with preimages E w r =
     jbind (jlift (fr_of_buffer (ti_root (Facade_getTreeInfo asLatest PUBLIC_DATA_TREE w)))) (\<lambda>historicRoot.
     jbind preimages (\<lambda>callStackPreimages.
     jbind (jlift (rtraverse (call_stack_hash E) callStackPreimages)) (\<lambda>publicCallStack.
     jbind (draw (randomAddress E)) (\<lambda>proverAddress.
       jlift (public_inputs_from E r historicRoot publicCallStack proverAddress)))))"

definition stack_item_with ::
  "(processor_state, public_call_stack_item list) js \<Rightarrow> 'db processor \<Rightarrow> 'db merkle_trees \<Rightarrow> public_execution_result \<Rightarrow> bool \<Rightarrow>
   (processor_state, public_call_stack_item) js" where
  "stack_item_with preimages E w r isExecutionRequest =
     jbind (public_inputs_with preimages E w r) (\<lambda>publicInputs.
       jreturn \<lparr>pcs_contractAddress = pe_contractAddress (per_execution r), pcs_functionData = pe_functionData (per_execution r),
         pcs_publicInputs = publicInputs, pcs_isExecutionRequest = isExecutionRequest\<rparr>)"

definition call_stack_size_error :: "nat \<Rightarrow> js_error" where
  "call_stack_size_error n =
     Error (''Public call stack size exceeded (max '' @ dec (int PUBLIC_CALL_STACK_LENGTH) @ '', got '' @ dec (int n) @ '')'')"

definition pad_preimages :: "public_call_stack_item list \<Rightarrow> public_call_stack_item list result" where
  "pad_preimages preimages =
     (if length preimages > PUBLIC_CALL_STACK_LENGTH then Inl (call_stack_size_error (length preimages))
      else rbind PublicCallStackItem_empty (\<lambda>e. padArrayStart preimages e PUBLIC_CALL_STACK_LENGTH))"

fun getPublicCallStackPreimages :: "'db processor \<Rightarrow> 'db merkle_trees \<Rightarrow> public_execution_result \<Rightarrow> (processor_state, public_call_stack_item list) js" where
  "getPublicCallStackPreimages E w (PublicExecutionResult e vs rs us nested) =
     jbind (jtraverse (\<lambda>n. stack_item_with (getPublicCallStackPreimages E w n) E w n False) nested) (\<lambda>preimages. jlift (pad_preimages preimages))"

definition getPublicCircuitPublicInputs :: "'db processor \<Rightarrow> 'db merkle_trees \<Rightarrow> public_execution_result \<Rightarrow> (processor_state, public_circuit_public_inputs) js" where
  "getPublicCircuitPublicInputs E w r = public_inputs_with (getPublicCallStackPreimages E w r) E w r"

definition getPublicCallStackItem :: "'db processor \<Rightarrow> 'db merkle_trees \<Rightarrow> public_execution_result \<Rightarrow> bool \<Rightarrow> (processor_state, public_call_stack_item) js" where
  "getPublicCallStackItem E w r isExecutionRequest = stack_item_with (getPublicCallStackPreimages E w r) E w r isExecutionRequest"

definition getBytecodeHash :: "public_execution_result \<Rightarrow> fr" where
  "getBytecodeHash r = new_Fr 1"

definition getPublicCallData ::
  "'db processor \<Rightarrow> 'db merkle_trees \<Rightarrow> public_execution_result \<Rightarrow> public_call_stack_item list \<Rightarrow> bool \<Rightarrow> (processor_state, public_call_data) js" where
  "getPublicCallData E w r preimages isExecutionRequest =
     jbind (getPublicCallStackItem E w r isExecutionRequest) (\<lambda>callStackItem.
     jbind (jlift (EthAddress_toField (cc_portalContractAddress (pe_callContext (per_execution r))))) (\<lambda>portal.
       jlift (new_PublicCallData
         \<lparr>pcd_callStackItem = callStackItem, pcd_publicCallStackPreimages = preimages,
          pcd_proof = getPublicCircuitProof (pcs_publicInputs callStackItem), pcd_portalContractAddress = portal,
          pcd_bytecodeHash = getBytecodeHash r\<rparr>)))"

section \<open>The public kernel circuit\<close>

definition getPreviousKernelData :: "'db processor \<Rightarrow> kernel_public_inputs \<Rightarrow> proof_data \<Rightarrow> (processor_state, previous_kernel_data) js" where
  "getPreviousKernelData E previousOutput previousProof =
     jbind (jlift getVerificationKeys) (\<lambda>vks.
     jbind (draw (randomSiblingPath E)) (\<lambda>vkSiblingPath.
       jlift (new_PreviousKernelData \<lparr>pkd_publicInputs = previousOutput, pkd_proof = previousProof, pkd_vk = publicKernelCircuit vks,
         pkd_vkIndex = 0, pkd_vkPath = vkSiblingPath\<rparr>)))"

definition getKernelCircuitOutput ::
  "'db processor \<Rightarrow> 'db merkle_trees \<Rightarrow> public_call_data \<Rightarrow> signed_tx_request option \<Rightarrow> (kernel_public_inputs \<times> proof_data) option \<Rightarrow>
   (processor_state, kernel_public_inputs) js" where
  "getKernelCircuitOutput E w callData txRequest previous =
     (case (previous, txRequest) of
        (Some (previousOutput, previousProof), _) \<Rightarrow>
          jbind (getPreviousKernelData E previousOutput previousProof) (\<lambda>previousKernel.
            let inputs = \<lparr>pbi_previousKernel = previousKernel, pbi_publicCall = callData\<rparr> in
            jlift (if kpi_isPrivate previousOutput then publicKernelCircuitPrivateInput E inputs
                   else publicKernelCircuitNonFirstIteration E inputs))
      | (None, Some request) \<Rightarrow>
          jlift (rbind (getCombinedHistoricTreeRoots w) (\<lambda>treeRoots.
            publicKernelCircuitNoInput E \<lparr>pbn_signedTxRequest = request, pbn_publicCallData = callData, pbn_historicTreeRoots = treeRoots\<rparr>))
      | (None, None) \<Rightarrow> jthrow (Error ''No public kernel circuit for inputs''))"

definition runKernelCircuit ::
  "'db processor \<Rightarrow> 'db merkle_trees \<Rightarrow> public_call_data \<Rightarrow> signed_tx_execution_request option \<Rightarrow> (kernel_public_inputs \<times> proof_data) option \<Rightarrow>
   (processor_state, kernel_public_inputs \<times> proof_data) js" where
  "runKernelCircuit E w callData txExecutionRequest previous =
     jbind (jlift (roption (SignedTxExecutionRequest_toSignedTxRequest (computeVarArgsHash (pr_hashes E))) txExecutionRequest)) (\<lambda>txRequest.
     jbind (getKernelCircuitOutput E w callData txRequest previous) (\<lambda>out. jreturn (out, getPublicKernelCircuitProof out)))"

section \<open>The execution stack\<close>

text \<open>An entry of the stack: a call to execute, or the result of a nested call that its caller has executed. An item of the array of calls may
  be \<open>undefined\<close>. The top of the stack is at the end of the list.\<close>

datatype stack_entry = Request public_execution | Result public_execution_result

definition request_of :: "public_call_request \<Rightarrow> public_execution" where
  "request_of r = \<lparr>pe_contractAddress = pcr_contractAddress r, pe_functionData = pcr_functionData r, pe_args = pcr_args r, pe_callContext = pcr_callContext r\<rparr>"

definition isPublicExecutionResult :: "stack_entry \<Rightarrow> bool" where
  "isPublicExecutionResult input = (case input of Request _ \<Rightarrow> False | Result _ \<Rightarrow> True)"

definition run_executor :: "'db processor \<Rightarrow> 'db merkle_trees \<Rightarrow> private_historic_tree_roots \<Rightarrow> public_execution \<Rightarrow> (processor_state, public_execution_result) ojs" where
  "run_executor E w roots e s =
     map_option (\<lambda>(r, c). (r, s\<lparr>ps_cache := c\<rparr>)) (execute (depthBound E) (pr_public E) w roots e (ps_cache s))"

definition entry_result :: "'db processor \<Rightarrow> 'db merkle_trees \<Rightarrow> private_historic_tree_roots \<Rightarrow> stack_entry option \<Rightarrow> (processor_state, public_execution_result) ojs" where
  "entry_result E w roots current =
     (case current of None \<Rightarrow> olift (jthrow TypeError) | Some (Request e) \<Rightarrow> run_executor E w roots e | Some (Result r) \<Rightarrow> oreturn r)"

definition kernel_iteration ::
  "'db processor \<Rightarrow> 'db merkle_trees \<Rightarrow> signed_tx_execution_request option \<Rightarrow> public_execution_result \<Rightarrow> bool \<Rightarrow>
   (kernel_public_inputs \<times> proof_data) option \<Rightarrow> (processor_state, kernel_public_inputs \<times> proof_data) js" where
  "kernel_iteration E w txRequest r isExecutionRequest previous =
     jbind (getPublicCallStackPreimages E w r) (\<lambda>preimages.
     jbind (getPublicCallData E w r preimages isExecutionRequest) (\<lambda>callData. runKernelCircuit E w callData txRequest previous))"

definition is_request :: "stack_entry option \<Rightarrow> bool" where
  "is_request x = (case x of Some e \<Rightarrow> \<not> isPublicExecutionResult e | None \<Rightarrow> True)"

definition entry_size :: "stack_entry option \<Rightarrow> nat" where
  "entry_size x = (case x of Some (Result r) \<Rightarrow> size r | _ \<Rightarrow> 0)"

lemma nested_size: "sum_list (map size (per_nestedExecutions r)) < size r"
  by (cases r) (simp add: size_list_conv_sum_list)

function execution_loop ::
  "'db processor \<Rightarrow> 'db merkle_trees \<Rightarrow> private_historic_tree_roots \<Rightarrow> signed_tx_execution_request option \<Rightarrow> stack_entry option list \<Rightarrow>
   (kernel_public_inputs \<times> proof_data) option \<Rightarrow> processor_state \<Rightarrow>
   ((kernel_public_inputs \<times> proof_data) option result \<times> processor_state) option" where
  "execution_loop E w roots txRequest executionStack kernel_out s =
     (if executionStack = [] then Some (Inr kernel_out, s)
      else
        (case entry_result E w roots (last executionStack) s of
           None \<Rightarrow> None
         | Some (Inl err, s1) \<Rightarrow> Some (Inl err, s1)
         | Some (Inr r, s1) \<Rightarrow>
             (case kernel_iteration E w txRequest r (is_request (last executionStack)) kernel_out s1 of
                (Inl err, s2) \<Rightarrow> Some (Inl err, s2)
              | (Inr k, s2) \<Rightarrow>
                  execution_loop E w roots txRequest (butlast executionStack @ map (Some \<circ> Result) (per_nestedExecutions r)) (Some k) s2)))"
  by pat_completeness auto

termination
proof (relation "measures [\<lambda>(E, w, roots, q, st, k, s). length (filter is_request st), \<lambda>(E, w, roots, q, st, k, s). sum_list (map entry_size st)]", simp)
  fix E :: "'db processor" and w roots q k s r s1 s2 and st :: "stack_entry option list" and x y kk
  assume a: "st \<noteq> []" "entry_result E w roots (last st) s = Some x" "(y, s1) = x" "y = Inr r"
  obtain xs z where st: "st = xs @ [z]" using a(1) by (cases st rule: rev_cases) auto
  have nested: "filter is_request (map (Some \<circ> Result) rs) = []" for rs
    by (simp add: is_request_def isPublicExecutionResult_def)
  have sizes: "entry_size \<circ> (Some \<circ> Result) = size"
    by (simp add: entry_size_def fun_eq_iff)
  show "((E, w, roots, q, butlast st @ map (Some \<circ> Result) (per_nestedExecutions r), Some kk, s2), (E, w, roots, q, st, k, s))
    \<in> measures [\<lambda>(E, w, roots, q, st, k, s). length (filter is_request st), \<lambda>(E, w, roots, q, st, k, s). sum_list (map entry_size st)]"
  proof (cases "is_request z")
    case False
    then obtain r' where "z = Some (Result r')"
      by (auto simp: is_request_def isPublicExecutionResult_def split: option.splits stack_entry.splits)
    then have "z = Some (Result r)" using a st by (auto simp: entry_result_def)
    then show ?thesis using nested_size[of r] nested[of "per_nestedExecutions r"] False
      by (simp add: st entry_size_def sizes)
  qed (use nested[of "per_nestedExecutions r"] in \<open>simp add: st\<close>)
qed

declare execution_loop.simps [simp del]

definition processExecutionStack ::
  "'db processor \<Rightarrow> 'db merkle_trees \<Rightarrow> private_historic_tree_roots \<Rightarrow> stack_entry option list \<Rightarrow> signed_tx_execution_request option \<Rightarrow>
   (kernel_public_inputs \<times> proof_data) option \<Rightarrow> (processor_state, (kernel_public_inputs \<times> proof_data) option) ojs" where
  "processExecutionStack E w roots executionStack txRequest kernel_out =
     (if executionStack = [] then olift (jthrow (Error ''Execution stack cannot be empty''))
      else execution_loop E w roots txRequest executionStack kernel_out)"

definition processEnqueuedPublicCalls ::
  "'db processor \<Rightarrow> 'db merkle_trees \<Rightarrow> private_historic_tree_roots \<Rightarrow> tx \<Rightarrow> (processor_state, (kernel_public_inputs \<times> proof_data) option) ojs" where
  "processEnqueuedPublicCalls E w roots t =
     obind (olift (jlift (Tx_getTxHash (pr_hashes E) t))) (\<lambda>_.
       case tx_enqueuedPublicFunctionCalls t of
         None \<Rightarrow> olift (jthrow (Error ''Missing preimages for enqueued public calls''))
       | Some calls \<Rightarrow>
           processExecutionStack E w roots (rev (map (map_option (Request \<circ> request_of)) calls)) None
             (case (tx_data t, tx_proof t) of (Some d, Some p) \<Rightarrow> Some (d, p) | _ \<Rightarrow> None))"

definition processPublicTx ::
  "'db processor \<Rightarrow> 'db merkle_trees \<Rightarrow> private_historic_tree_roots \<Rightarrow> tx \<Rightarrow> signed_tx_execution_request \<Rightarrow>
   (processor_state, (kernel_public_inputs \<times> proof_data) option) ojs" where
  "processPublicTx E w roots t txRequest =
     obind (olift (jlift (Tx_getTxHash (pr_hashes E) t))) (\<lambda>_.
     obind (olift (jlift (getPublicExecution (pr_public E) (ste_txRequest txRequest)))) (\<lambda>firstExecution.
     obind (run_executor E w roots firstExecution) (\<lambda>firstResult.
       processExecutionStack E w roots [Some (Result firstResult)] (Some txRequest) None)))"

section \<open>Transactions\<close>

definition processor_makeEmptyProcessedTx :: "'db processor \<Rightarrow> 'db merkle_trees \<Rightarrow> processed_tx result" where
  "processor_makeEmptyProcessedTx E w = rbind (getCombinedHistoricTreeRoots w) (makeEmptyProcessedTx (pr_hashes E))"

definition has_enqueued_calls :: "tx \<Rightarrow> bool" where
  "has_enqueued_calls t = (case tx_data t of None \<Rightarrow> False | Some d \<Rightarrow> \<not> isArrayEmpty (cad_publicCallStack (kpi_end d)) Fr_isZero)"

definition processTx :: "'db processor \<Rightarrow> 'db merkle_trees \<Rightarrow> private_historic_tree_roots \<Rightarrow> tx \<Rightarrow> (processor_state, processed_tx) ojs" where
  "processTx E w roots t =
     (case tx_txRequest t of
        Some request \<Rightarrow> obind (processPublicTx E w roots t request) (\<lambda>k. olift (jlift (makeProcessedTx (pr_hashes E) t k)))
      | None \<Rightarrow>
          if isPrivateTx t \<and> has_enqueued_calls t
          then obind (processEnqueuedPublicCalls E w roots t) (\<lambda>k. olift (jlift (makeProcessedTx (pr_hashes E) t k)))
          else if isPrivateTx t then olift (jlift (makeProcessedTx (pr_hashes E) t None))
          else olift (jlift (processor_makeEmptyProcessedTx E w)))"

text \<open>The loop over the transactions, with the two lists that it fills.\<close>

fun process_loop ::
  "'db processor \<Rightarrow> 'db merkle_trees \<Rightarrow> private_historic_tree_roots \<Rightarrow> tx list \<Rightarrow> processed_tx list \<Rightarrow> tx list \<Rightarrow>
   (processor_state, processed_tx list \<times> tx list) ojs" where
  "process_loop E w roots [] done failed s = Some (Inr (done, failed), s)"
| "process_loop E w roots (t # txs) done failed s =
     (case Tx_getTxHash (pr_hashes E) t of
        Inl err \<Rightarrow> Some (Inl err, s)
      | Inr _ \<Rightarrow>
          (case processTx E w roots t s of
             None \<Rightarrow> None
           | Some (Inr p, s') \<Rightarrow> process_loop E w roots txs (done @ [p]) failed s'
           | Some (Inl _, s') \<Rightarrow> process_loop E w roots txs done (failed @ [t]) s'))"

definition process :: "'db processor \<Rightarrow> 'db merkle_trees \<Rightarrow> private_historic_tree_roots \<Rightarrow> tx list \<Rightarrow> (processor_state, processed_tx list \<times> tx list) ojs" where
  "process E w roots txs = process_loop E w roots txs [] []"

text \<open>\<open>PublicProcessorFactory.create\<close> makes an executor with an empty cache and the roots of the trees at that moment.\<close>

definition create_processor :: "'db merkle_trees \<Rightarrow> nat \<Rightarrow> (private_historic_tree_roots \<times> processor_state) result" where
  "create_processor w draws = rbind (WorldStateDB_getTreeRoots w) (\<lambda>roots. Inr (roots, \<lparr>ps_cache = Map.empty, ps_draws = draws\<rparr>))"

end
