(* ===== verification/PublicExecutionProperties.thy ===== *)
theory PublicExecutionProperties
  imports PublicExecution BlockBuilderSample
begin

text \<open>
  Properties of the execution of public functions: the bound on the depth of calls, the collector of storage actions against plain storage, and what the caches
  get wrong.
\<close>

section \<open>Depth of calls\<close>

lemma acvm_mono:
  assumes "\<And>name args s r. cb name args s = Some r \<Longrightarrow> cb' name args s = Some r"
  shows "acvm cb run s = Some r \<Longrightarrow> acvm cb' run s = Some r"
proof (induction run arbitrary: s)
  case (AcvmOracle name args k)
  show ?case
  proof (cases "name \<in> set ACIRCallback")
    case True
    then obtain v t where v: "cb name args s = Some (v, t)" using AcvmOracle.prems by (auto simp: obind_def split: option.splits)
    then show ?thesis using AcvmOracle assms[OF v] True by (auto simp: obind_def split: sum.splits)
  qed (use AcvmOracle.prems in simp)
qed simp_all

lemma oracle_mono:
  assumes "\<And>e c r. run e c = Some r \<Longrightarrow> run' e c = Some r" and "public_oracle run P w e name args s = Some r"
  shows "public_oracle run' P w e name args s = Some r"
proof -
  have "run_nested run' x s = Some q" if "run_nested run x s = Some q" for x s q
    using that assms(1)[of x "ex_cache s"] by (auto simp: run_nested_def split: option.splits prod.splits)
  then show ?thesis using assms(2)
    by (fastforce simp: public_oracle_def oracle_callPublicFunction_def obind_def split: if_splits option.splits prod.splits sum.splits)
qed

lemma execute_Suc: "execute n P w roots e c = Some r \<Longrightarrow> execute (Suc n) P w roots e c = Some r"
proof (induction n arbitrary: e c r)
  case (Suc n)
  have "acvm (public_oracle (execute n P w roots) P w e) run s = Some q \<Longrightarrow> acvm (public_oracle (execute (Suc n) P w roots) P w e) run s = Some q" for run s q
    using acvm_mono[of "public_oracle (execute n P w roots) P w e" "public_oracle (execute (Suc n) P w roots) P w e"]
      oracle_mono[of "execute n P w roots" "execute (Suc n) P w roots"] Suc.IH by blast
  then show ?case using Suc.prems
    by (subst execute.simps(2)) (fastforce simp del: execute.simps(2) simp: execute.simps(2)[of n] split: option.splits sum.splits prod.splits)
qed simp

lemma execute_more_depth: "execute n P w roots e c = Some r \<Longrightarrow> n \<le> m \<Longrightarrow> execute m P w roots e c = Some r"
proof (induction m)
  case (Suc m)
  then show ?case by (cases "n = Suc m") (simp_all add: execute_Suc del: execute.simps)
qed (simp del: execute.simps)

text \<open>The calls that a run may make, whatever its oracles answer.\<close>

primrec all_calls :: "(acvm_field list \<Rightarrow> bool) \<Rightarrow> acvm_run \<Rightarrow> bool" where
  "all_calls Q (AcvmSolved w) \<longleftrightarrow> True"
| "all_calls Q (AcvmFailed e) \<longleftrightarrow> True"
| "all_calls Q (AcvmOracle name args k) \<longleftrightarrow> (name = ''callPublicFunction'' \<longrightarrow> Q args) \<and> (\<forall>r. all_calls Q (k r))"

text \<open>Functions are ranked when every call goes to a function of a lower rank: there is no recursion.\<close>

definition calls_ranked :: "'db public_env \<Rightarrow> (public_execution \<Rightarrow> nat) \<Rightarrow> bool" where
  "calls_ranked P rank \<longleftrightarrow> (\<forall>e acir wit. getBytecode P (pe_contractAddress e) (fd_functionSelectorBuffer (pe_functionData e)) = Some acir \<longrightarrow>
     all_calls (\<lambda>args. \<forall>e'. call_arguments P (pe_callContext e) args = Inr e' \<longrightarrow> rank e' < rank e) (solveIntermediateWitness P acir wit))"

lemma acvm_returns:
  assumes "all_calls (\<lambda>args. \<forall>e'. call_arguments P (pe_callContext e) args = Inr e' \<longrightarrow> (\<forall>c. run e' c \<noteq> None)) prog"
  shows "acvm (public_oracle run P w e) prog s \<noteq> None"
  using assms
proof (induction prog arbitrary: s)
  case (AcvmOracle name args k)
  have "public_oracle run P w e name args s \<noteq> None"
  proof (cases "name = ''callPublicFunction''")
    case True
    show ?thesis
    proof (cases "call_arguments P (pe_callContext e) args")
      case (Inr e')
      then obtain r c where "run e' (ex_cache s) = Some (r, c)" using AcvmOracle.prems True by fastforce
      then show ?thesis using True Inr
        by (cases r) (simp_all add: public_oracle_def oracle_callPublicFunction_def obind_def run_nested_def)
    qed (use True in \<open>simp add: public_oracle_def oracle_callPublicFunction_def obind_def\<close>)
  qed (simp add: public_oracle_def)
  then obtain r t where "public_oracle run P w e name args s = Some (r, t)" by fastforce
  then show ?case using AcvmOracle by (auto simp: obind_def split: sum.splits)
qed simp_all

lemma all_calls_mono: "all_calls Q prog \<Longrightarrow> (\<And>args. Q args \<Longrightarrow> Q' args) \<Longrightarrow> all_calls Q' prog"
  by (induction prog) auto

lemma execute_returns:
  assumes "calls_ranked P rank" and "rank e < n"
  shows "execute n P w roots e c \<noteq> None"
  using assms(2)
proof (induction n arbitrary: e c)
  case (Suc n)
  have "acvm (public_oracle (execute n P w roots) P w e) (solveIntermediateWitness P acir wit) s \<noteq> None"
    if "getBytecode P (pe_contractAddress e) (fd_functionSelectorBuffer (pe_functionData e)) = Some acir" for acir wit s
  proof (rule acvm_returns, rule all_calls_mono)
    show "all_calls (\<lambda>args. \<forall>e'. call_arguments P (pe_callContext e) args = Inr e' \<longrightarrow> rank e' < rank e) (solveIntermediateWitness P acir wit)"
      using assms(1) that by (simp add: calls_ranked_def)
  next
    fix args
    assume "\<forall>e'. call_arguments P (pe_callContext e) args = Inr e' \<longrightarrow> rank e' < rank e"
    then show "\<forall>e'. call_arguments P (pe_callContext e) args = Inr e' \<longrightarrow> (\<forall>c. execute n P w roots e' c \<noteq> None)"
      using Suc by (metis less_Suc_eq order.strict_trans1 less_le)
  qed
  then show ?case
    by (cases "getBytecode P (pe_contractAddress e) (fd_functionSelectorBuffer (pe_functionData e))"; cases "getInitialWitness (pe_args e) (pe_callContext e) roots 1")
      (simp_all split: option.split prod.split sum.split)
qed simp

section \<open>The collector and plain storage\<close>

text \<open>What the oracles of one function do to storage, and the same on a plain function from slots to values.\<close>

datatype storage_op = ReadOp fr | WriteOp fr fr

fun run_op :: "'db public_env \<Rightarrow> 'db merkle_trees \<Rightarrow> aztec_address \<Rightarrow> storage_op \<Rightarrow> (exec_state, fr) js" where
  "run_op P w a (ReadOp x) = collector_read P w a x"
| "run_op P w a (WriteOp x v) = jbind (collector_write P w a x v) (\<lambda>_. jbind (on_cache (storageWrite P a x v)) (\<lambda>_. jreturn v))"

fun run_ops :: "'db public_env \<Rightarrow> 'db merkle_trees \<Rightarrow> aztec_address \<Rightarrow> storage_op list \<Rightarrow> (exec_state, fr list) js" where
  "run_ops P w a [] = jreturn []"
| "run_ops P w a (x # xs) = jbind (run_op P w a x) (\<lambda>v. jbind (run_ops P w a xs) (\<lambda>vs. jreturn (v # vs)))"

fun spec_ops :: "storage_op list \<Rightarrow> (int \<Rightarrow> fr) \<Rightarrow> fr list \<times> (int \<Rightarrow> fr)" where
  "spec_ops [] f = ([], f)"
| "spec_ops (ReadOp x # ops) f = (case spec_ops ops f of (vs, g) \<Rightarrow> (f (fr_value x) # vs, g))"
| "spec_ops (WriteOp x v # ops) f = (case spec_ops ops (f(fr_value x := v)) of (vs, g) \<Rightarrow> (v # vs, g))"

fun op_slot :: "storage_op \<Rightarrow> fr" where
  "op_slot (ReadOp x) = x"
| "op_slot (WriteOp x v) = x"

definition storage_is :: "'db public_env \<Rightarrow> 'db merkle_trees \<Rightarrow> aztec_address \<Rightarrow> fr set \<Rightarrow> write_cache \<Rightarrow> (int \<Rightarrow> fr) \<Rightarrow> bool" where
  "storage_is P w a S c f \<longleftrightarrow> (\<forall>x \<in> S. storageRead P w a x c = (Inr (f (fr_value x)), c))"

definition slots_distinct :: "'db public_env \<Rightarrow> aztec_address \<Rightarrow> fr set \<Rightarrow> bool" where
  "slots_distinct P a S \<longleftrightarrow> (\<forall>x \<in> S. \<forall>y \<in> S. computePublicDataTreeLeafIndex P a x = computePublicDataTreeLeafIndex P a y \<longrightarrow> x = y)"

lemma fr_eqI: "fr_value x = fr_value y \<Longrightarrow> x = (y :: fr)"
  by (cases x; cases y) simp

lemma storage_write_spec:
  assumes "storage_is P w a S c f" "slots_distinct P a S" "x \<in> S"
  shows "\<exists>c'. storageWrite P a x v c = (Inr (), c') \<and> storage_is P w a S c' (f(fr_value x := v))"
proof -
  have ix: "\<exists>i. computePublicDataTreeLeafIndex P a y = Inr i" if "y \<in> S" for y
    using assms(1) that by (cases "computePublicDataTreeLeafIndex P a y") (auto simp: storage_is_def storageRead_def jbind_def)
  then obtain i where i: "computePublicDataTreeLeafIndex P a x = Inr i" using assms(3) by blast
  have "storageRead P w a y (c(i \<mapsto> v)) = (Inr ((f(fr_value x := v)) (fr_value y)), c(i \<mapsto> v))" if y: "y \<in> S" for y
  proof (cases "y = x")
    case False
    obtain j where j: "computePublicDataTreeLeafIndex P a y = Inr j" using ix y by blast
    then have "j \<noteq> i" using assms(2,3) y i False by (auto simp: slots_distinct_def)
    moreover have "fr_value y \<noteq> fr_value x" using False fr_eqI by blast
    moreover have "storageRead P w a y c = (Inr (f (fr_value y)), c)" using assms(1) y by (simp add: storage_is_def)
    ultimately show ?thesis by (auto simp: storageRead_def jbind_def j split: option.splits)
  qed (simp add: storageRead_def jbind_def i)
  then show ?thesis by (auto simp: storageWrite_def jbind_def i storage_is_def)
qed

text \<open>The invariant of the collector: \<open>R\<close> and \<open>W\<close> are the slots read and written so far, \<open>f0\<close> the storage at the start and \<open>f\<close> now.\<close>

definition collector_ok ::
  "'db public_env \<Rightarrow> 'db merkle_trees \<Rightarrow> aztec_address \<Rightarrow> fr set \<Rightarrow> int set \<Rightarrow> int set \<Rightarrow> (int \<Rightarrow> fr) \<Rightarrow> (int \<Rightarrow> fr) \<Rightarrow> exec_state \<Rightarrow> bool" where
  "collector_ok P w a S R W f0 f s \<longleftrightarrow> storage_is P w a S (ex_cache s) f \<and>
     distinct (map fst (contractStorageReads (ex_actions s))) \<and> distinct (map fst (contractStorageUpdateRequests (ex_actions s))) \<and>
     map_of (contractStorageUpdateRequests (ex_actions s)) = (\<lambda>k. if k \<in> W then Some (f0 k, f k) else None) \<and>
     map_of (contractStorageReads (ex_actions s)) = (\<lambda>k. if k \<in> R - W then Some (f0 k) else None) \<and> (\<forall>k. k \<notin> W \<longrightarrow> f k = f0 k)"

lemmas collector_simps = record_read_def record_update_def delete_read_def on_cache_def jbind_def update_conv' delete_conv' distinct_update distinct_delete

lemma read_step:
  assumes "collector_ok P w a S R W f0 f s" "x \<in> S"
  shows "\<exists>s'. collector_read P w a x s = (Inr (f (fr_value x)), s') \<and> collector_ok P w a S (insert (fr_value x) R) W f0 f s'"
  using assms
  by (auto simp: collector_read_def collector_ok_def storage_is_def collector_simps Let_def fun_eq_iff split: option.splits if_splits)

lemma collector_write_run:
  assumes ok: "collector_ok P w a S R W f0 f s" and x: "x \<in> S"
  shows "\<exists>s1. collector_write P w a x v s = (Inr (), s1) \<and> ex_cache s1 = ex_cache s \<and>
    distinct (map fst (contractStorageReads (ex_actions s1))) \<and> distinct (map fst (contractStorageUpdateRequests (ex_actions s1))) \<and>
    map_of (contractStorageUpdateRequests (ex_actions s1)) = (\<lambda>k. if k \<in> insert (fr_value x) W then Some (f0 k, (f(fr_value x := v)) k) else None) \<and>
    map_of (contractStorageReads (ex_actions s1)) = (\<lambda>k. if k \<in> R - insert (fr_value x) W then Some (f0 k) else None)"
proof -
  note ok = ok[unfolded collector_ok_def]
  let ?k = "fr_value x"
  have up: "map_of (contractStorageUpdateRequests (ex_actions s)) ?k = (if ?k \<in> W then Some (f0 ?k, f ?k) else None)"
    and rd: "map_of (contractStorageReads (ex_actions s)) ?k = (if ?k \<in> R - W then Some (f0 ?k) else None)" using ok by simp_all
  have st: "storageRead P w a x (ex_cache s) = (Inr (f ?k), ex_cache s)" "?k \<notin> W \<Longrightarrow> f ?k = f0 ?k" using ok x by (auto simp: storage_is_def)
  consider "?k \<in> W" | "?k \<notin> W" "?k \<in> R" | "?k \<notin> W" "?k \<notin> R" by blast
  then show ?thesis
    by cases (use ok in \<open>auto simp: collector_write_def Let_def up rd st collector_simps intro!: ext\<close>)
qed

lemma write_step:
  assumes ok: "collector_ok P w a S R W f0 f s" and x: "x \<in> S" and inj: "slots_distinct P a S"
  shows "\<exists>s'. run_op P w a (WriteOp x v) s = (Inr v, s') \<and> collector_ok P w a S R (insert (fr_value x) W) f0 (f(fr_value x := v)) s'"
proof -
  obtain s1 where s1: "collector_write P w a x v s = (Inr (), s1)" "ex_cache s1 = ex_cache s"
    "distinct (map fst (contractStorageReads (ex_actions s1)))" "distinct (map fst (contractStorageUpdateRequests (ex_actions s1)))"
    "map_of (contractStorageUpdateRequests (ex_actions s1)) = (\<lambda>k. if k \<in> insert (fr_value x) W then Some (f0 k, (f(fr_value x := v)) k) else None)"
    "map_of (contractStorageReads (ex_actions s1)) = (\<lambda>k. if k \<in> R - insert (fr_value x) W then Some (f0 k) else None)"
    using collector_write_run[OF ok x] by blast
  obtain c' where "storageWrite P a x v (ex_cache s) = (Inr (), c')" "storage_is P w a S c' (f(fr_value x := v))"
    using storage_write_spec[OF _ inj x, of w "ex_cache s" f v] ok by (auto simp: collector_ok_def)
  then show ?thesis using s1 ok by (intro exI[of _ "s1\<lparr>ex_cache := c'\<rparr>"]) (auto simp: jbind_def on_cache_def collector_ok_def)
qed

definition ops_read :: "storage_op list \<Rightarrow> int set" where
  "ops_read ops = {fr_value x | x. ReadOp x \<in> set ops}"

definition ops_written :: "storage_op list \<Rightarrow> int set" where
  "ops_written ops = {fr_value x | x v. WriteOp x v \<in> set ops}"

lemma collector_run:
  assumes "collector_ok P w a S R W f0 f s" "\<forall>q \<in> set ops. op_slot q \<in> S" "slots_distinct P a S"
  shows "\<exists>s'. run_ops P w a ops s = (Inr (fst (spec_ops ops f)), s') \<and>
    collector_ok P w a S (ops_read ops \<union> R) (ops_written ops \<union> W) f0 (snd (spec_ops ops f)) s'"
  using assms(1,2)
proof (induction ops arbitrary: s R W f)
  case (Cons q ops)
  show ?case
  proof (cases q)
    case (ReadOp x)
    then obtain s1 where s1: "collector_read P w a x s = (Inr (f (fr_value x)), s1)" "collector_ok P w a S (insert (fr_value x) R) W f0 f s1"
      using read_step[OF Cons.prems(1), of x] Cons.prems(2) by auto
    have "ops_read (q # ops) \<union> R = ops_read ops \<union> insert (fr_value x) R" "ops_written (q # ops) = ops_written ops"
      using ReadOp by (auto simp: ops_read_def ops_written_def)
    then show ?thesis using Cons.IH[OF s1(2)] s1(1) Cons.prems(2) by (auto simp: ReadOp jbind_def split: prod.split)
  next
    case (WriteOp x v)
    define g where "g = f(fr_value x := v)"
    obtain s1 where s1: "run_op P w a q s = (Inr v, s1)" "collector_ok P w a S R (insert (fr_value x) W) f0 g s1"
      unfolding g_def using WriteOp write_step[OF Cons.prems(1) _ assms(3), of x v] Cons.prems(2) by auto
    have "ops_written (q # ops) \<union> W = ops_written ops \<union> insert (fr_value x) W" "ops_read (q # ops) = ops_read ops"
      using WriteOp by (auto simp: ops_read_def ops_written_def)
    moreover have "spec_ops (q # ops) f = (v # fst (spec_ops ops g), snd (spec_ops ops g))"
      by (simp add: WriteOp g_def split: prod.split)
    ultimately show ?thesis using Cons.IH[OF s1(2)] s1(1) Cons.prems(2) by (auto simp: jbind_def simp del: run_op.simps spec_ops.simps)
  qed
qed (simp add: ops_read_def ops_written_def)

lemma distinct_slots: "distinct (map (\<lambda>p. new_Fr (fst p)) xs) \<longleftrightarrow> distinct (map fst xs)"
  by (induction xs) (auto simp: new_Fr_def)

text \<open>C6. The collector of storage actions is faithful: for any reads and writes that one function makes, with no call in between, it returns what plain storage would
  return, leaves that storage, and collects one read with the value at the start for every slot that was only read and one update with the
  value at the start and the last value for every slot that was written.\<close>

theorem collector_refines_storage:
  assumes "storage_is P w a S c f0" and "slots_distinct P a S" and "\<forall>q \<in> set ops. op_slot q \<in> S"
  shows "\<exists>s. run_ops P w a ops (new_exec_state c) = (Inr (fst (spec_ops ops f0)), s) \<and>
    storage_is P w a S (ex_cache s) (snd (spec_ops ops f0)) \<and>
    distinct (map csr_storageSlot (fst (collect (ex_actions s)))) \<and> distinct (map csu_storageSlot (snd (collect (ex_actions s)))) \<and>
    set (fst (collect (ex_actions s))) =
      (\<lambda>k. \<lparr>csr_storageSlot = new_Fr k, csr_currentValue = f0 k\<rparr>) ` (ops_read ops - ops_written ops) \<and>
    set (snd (collect (ex_actions s))) =
      (\<lambda>k. \<lparr>csu_storageSlot = new_Fr k, csu_oldValue = f0 k, csu_newValue = snd (spec_ops ops f0) k\<rparr>) ` ops_written ops"
proof -
  have "collector_ok P w a S {} {} f0 f0 (new_exec_state c)" using assms(1) by (simp add: collector_ok_def new_exec_state_def fun_eq_iff)
  then obtain s where s: "run_ops P w a ops (new_exec_state c) = (Inr (fst (spec_ops ops f0)), s)"
    "collector_ok P w a S (ops_read ops) (ops_written ops) f0 (snd (spec_ops ops f0)) s"
    using collector_run[OF _ assms(3,2), of w "{}" "{}" f0 f0] by auto
  note ok = s(2)[unfolded collector_ok_def]
  have upd: "(k, p) \<in> set (contractStorageUpdateRequests (ex_actions s)) \<longleftrightarrow> k \<in> ops_written ops \<and> p = (f0 k, snd (spec_ops ops f0) k)" for k p
    using ok map_of_eq_Some_iff[of "contractStorageUpdateRequests (ex_actions s)" k p] by (auto split: if_splits)
  have rd: "(k, v) \<in> set (contractStorageReads (ex_actions s)) \<longleftrightarrow> k \<in> ops_read ops - ops_written ops \<and> v = f0 k" for k v
    using ok map_of_eq_Some_iff[of "contractStorageReads (ex_actions s)" k v] by (auto split: if_splits)
  show ?thesis
  proof (intro exI[of _ s] conjI)
    show "set (fst (collect (ex_actions s))) = (\<lambda>k. \<lparr>csr_storageSlot = new_Fr k, csr_currentValue = f0 k\<rparr>) ` (ops_read ops - ops_written ops)"
      by (auto simp: collect_def case_prod_beta' rd image_iff) (metis rd DiffI fst_conv snd_conv)
    show "set (snd (collect (ex_actions s))) =
        (\<lambda>k. \<lparr>csu_storageSlot = new_Fr k, csu_oldValue = f0 k, csu_newValue = snd (spec_ops ops f0) k\<rparr>) ` ops_written ops"
      by (auto simp: collect_def case_prod_beta' upd image_iff) (metis upd fst_conv snd_conv)
  qed (use s(1) ok in \<open>simp_all add: collect_def comp_def case_prod_beta' distinct_slots\<close>)
qed

section \<open>A contract on a new world state\<close>

text \<open>A contract with three functions: \<open>[1]\<close> reads slot 5, calls function \<open>[2]\<close> of the same contract, reads slot 5 again and returns what it read;
  \<open>[2]\<close> writes 7 to slot 5; \<open>[3]\<close> does so and then fails. The hash of a slot is the slot.\<close>

abbreviation fld :: "int \<Rightarrow> acvm_field" where
  "fld n \<equiv> field_for (AcvmFr (new_Fr n))"

definition sample_selector :: "byte \<Rightarrow> buffer" where
  "sample_selector b = [0, 0, 0, b]"

definition sample_program :: "buffer \<Rightarrow> acvm_run" where
  "sample_program acir =
     (if acir = [1] then AcvmOracle ''storageRead'' [fld 5] (\<lambda>_. AcvmOracle ''callPublicFunction'' [fld 0, fld 2] (\<lambda>_.
        AcvmOracle ''storageRead'' [fld 5] (\<lambda>r. AcvmSolved [(1, hd r)])))
      else if acir = [2] then AcvmOracle ''storageWrite'' [fld 5, fld 7] (\<lambda>_. AcvmSolved [])
      else AcvmOracle ''storageWrite'' [fld 5, fld 7] (\<lambda>_. AcvmFailed (Error ''assertion failed'')))"

definition sample_public_env :: "(string \<times> buffer) list public_env" where
  "sample_public_env = \<lparr>pub_trees = mem_env, pedersenCompressWithHashIndex = (\<lambda>bs i. Inr (last bs)),
     pub_getPublicFunction = (\<lambda>a sel. Some \<lparr>functionSelector = sel, fn_bytecode = [last sel]\<rparr>), pub_getL2ContractInfo = (\<lambda>a. None),
     pub_getConfirmedL1ToL2Message = (\<lambda>_. Inl TypeError), siloCommitment = (\<lambda>_ x. Inr x),
     solveIntermediateWitness = (\<lambda>acir wit. sample_program acir), selectPublicWitnessFlattened = (\<lambda>acir wit. map snd wit)\<rparr>"

definition sample_call :: "byte \<Rightarrow> public_execution" where
  "sample_call b = \<lparr>pe_contractAddress = AztecAddress_ZERO,
     pe_functionData = \<lparr>fd_functionSelectorBuffer = sample_selector b, fd_isPrivate = False, fd_isConstructor = False\<rparr>, pe_args = [],
     pe_callContext = \<lparr>cc_msgSender = AztecAddress_ZERO, cc_storageContractAddress = AztecAddress_ZERO, cc_portalContractAddress = EthAddress_ZERO,
       cc_isDelegateCall = False, cc_isStaticCall = False, cc_isContractDeployment = False\<rparr>\<rparr>"

lemma sample_env_simps [simp]:
  "pub_trees sample_public_env = mem_env"
  "pedersenCompressWithHashIndex sample_public_env bs i = Inr (last bs)"
  "getBytecode sample_public_env a sel = Some [last sel]"
  "getPortalContractAddress sample_public_env a = None"
  "solveIntermediateWitness sample_public_env acir wit = sample_program acir"
  "selectPublicWitnessFlattened sample_public_env acir wit' = map snd wit'"
  by (simp_all add: sample_public_env_def getBytecode_def getPortalContractAddress_def)

lemma toBigInt_be_val: "toBigInt b = be_val b"
  using toBigIntBE_be_val[of b] by (simp add: toBigInt_def toBigIntBE_def Let_def)

lemma sample_index: "fr_ok x \<Longrightarrow> computePublicDataTreeLeafIndex sample_public_env a x = Inr (fr_value x)"
  by (simp add: computePublicDataTreeLeafIndex_def Fr_toBuffer_fr_bytes toBigInt_be_val fr_bytes_def be_val_be_bytes fr_ok_def)

lemma sample_storage:
  assumes "world_inv mem_env w" "world_leaves mem_env True w PUBLIC_DATA_TREE = ((\<lambda>_. INITIAL_LEAF), 0)" "fr_ok x" "fr_value x < 2 ^ 254"
  shows "storageRead sample_public_env w a x c = (Inr (case c (fr_value x) of None \<Rightarrow> new_Fr 0 | Some v \<Rightarrow> v), c)"
proof -
  obtain t where t: "the_tree w PUBLIC_DATA_TREE = Sparse t" "tdepth t = 254"
    using world_inv_ok[OF assms(1), of PUBLIC_DATA_TREE] by (cases "the_tree w PUBLIC_DATA_TREE") (auto simp: ws_ok_def)
  have "getLeafValue mem_env t (fr_value x) True = INITIAL_LEAF"
    using fun_cong[OF arg_cong[OF assms(2), of fst], of "fr_value x"] assms(3,4) t by (simp add: world_leaves_def leaf_view_def in_level_def fr_ok_def)
  moreover have "fr_of_buffer INITIAL_LEAF = Inr (new_Fr 0)" using fr_of_buffer_32[OF initial_leaf(1)] initial_leaf(2) by simp
  ultimately show ?thesis using assms(3)
    by (simp add: storageRead_def sample_index jbind_def Facade_getLeafValue_def MerkleTrees_getLeafValue_def t asLatest_def
        split: option.split)
qed

lemma from_fld [simp]: "0 \<le> n \<Longrightarrow> n < 256 ^ 32 \<Longrightarrow> fromACVMField (fld n) = Inr (new_Fr n)"
  using field_read_back[of "AcvmFr (new_Fr n)" "[]"] by (auto simp: readField_def fr_ok_def new_Fr_def split: if_splits)

lemma to_fld: "0 \<le> n \<Longrightarrow> n < 256 ^ 32 \<Longrightarrow> toACVMFields [AcvmFr (new_Fr n)] = Inr [fld n]"
  using fields_total[of "[AcvmFr (new_Fr n)]"] by (simp add: fr_ok_def new_Fr_def)

lemma sample_witness: "\<exists>wit. getInitialWitness [] (pe_callContext (sample_call b)) PrivateHistoricTreeRoots_empty 1 = Inr wit"
proof -
  have "address_ok AztecAddress_ZERO" by code_simp
  then show ?thesis unfolding getInitialWitness_def toACVMWitness_def
    by (subst fields_total) (auto simp: sample_call_def PrivateHistoricTreeRoots_empty_def fr_ok_def Fr_ZERO_def new_Fr_def)
qed

lemma sample_nested: "call_arguments sample_public_env (pe_callContext (sample_call b)) [fld 0, fld 2] = Inr (sample_call 2)"
proof -
  have "frToAztecAddress (new_Fr 0) = Inr AztecAddress_ZERO" "frToSelector (new_Fr 2) = Inr (sample_selector 2)" by code_simp+
  then show ?thesis
    by (simp add: call_arguments_def nested_execution_def new_FunctionData_def FUNCTION_SELECTOR_LENGTH_def new_CallContext_def sample_call_def sample_selector_def)
qed

lemma sample_write_run:
  assumes "world_inv mem_env w" "world_leaves mem_env True w PUBLIC_DATA_TREE = ((\<lambda>_. INITIAL_LEAF), 0)"
  shows "oracle_storageWrite sample_public_env w AztecAddress_ZERO [fld 5, fld 7] (new_exec_state c) =
    (Inr [fld 7], \<lparr>ex_actions = \<lparr>contractStorageReads = [], contractStorageUpdateRequests = [(5, (case c 5 of None \<Rightarrow> new_Fr 0 | Some v \<Rightarrow> v), new_Fr 7)]\<rparr>,
      ex_nested = [], ex_cache = c(5 \<mapsto> new_Fr 7)\<rparr>)"
proof -
  have ok: "fr_ok (new_Fr 5)" "fr_value (new_Fr 5) = 5" by (simp_all add: fr_ok_def new_Fr_def)
  note rd = sample_storage[OF assms ok(1), unfolded ok(2)]
  show ?thesis
    by (simp add: oracle_storageWrite_def collector_write_def Let_def ok(2) rd sample_index[OF ok(1)] storageWrite_def collector_simps
        new_exec_state_def to_fld)
qed

lemma sample_public_world:
  obtains w where "MerkleTrees_new mem_env [] = Inr w" "world_inv mem_env w" "world_leaves mem_env True w PUBLIC_DATA_TREE = ((\<lambda>_. INITIAL_LEAF), 0)"
proof (rule sample_world)
  fix w d
  assume "MerkleTrees_new mem_env [] = Inr w" "world_inv mem_env w"
    and "\<And>b i. i \<notin> root_trees \<union> {NULLIFIER_TREE} \<Longrightarrow> world_leaves mem_env b w i = (\<lambda>_. INITIAL_LEAF, 0)"
  then show thesis using that by simp
qed

lemma oracle_names: "''storageRead'' \<in> set ACIRCallback" "''storageWrite'' \<in> set ACIRCallback" "''callPublicFunction'' \<in> set ACIRCallback"
  by (simp_all add: ACIRCallback_def)

lemma sample_call_simps [simp]:
  "pe_contractAddress (sample_call b) = AztecAddress_ZERO" "fd_functionSelectorBuffer (pe_functionData (sample_call b)) = sample_selector b"
  "pe_args (sample_call b) = []" "last (sample_selector b) = b"
  by (simp_all add: sample_call_def sample_selector_def)

lemma sample_writer_run:
  assumes "world_inv mem_env w" "world_leaves mem_env True w PUBLIC_DATA_TREE = ((\<lambda>_. INITIAL_LEAF), 0)"
  shows "\<exists>r. execute (Suc n) sample_public_env w PrivateHistoricTreeRoots_empty (sample_call 2) c = Some (Inr r, c(5 \<mapsto> new_Fr 7)) \<and> per_returnValues r = []"
    and "execute (Suc n) sample_public_env w PrivateHistoricTreeRoots_empty (sample_call 3) c = Some (Inl (Error ''assertion failed''), c(5 \<mapsto> new_Fr 7))"
proof -
  obtain w2 w3 where wit: "getInitialWitness [] (pe_callContext (sample_call 2)) PrivateHistoricTreeRoots_empty 1 = Inr w2"
    "getInitialWitness [] (pe_callContext (sample_call 3)) PrivateHistoricTreeRoots_empty 1 = Inr w3" using sample_witness by blast
  show "\<exists>r. execute (Suc n) sample_public_env w PrivateHistoricTreeRoots_empty (sample_call 2) c = Some (Inr r, c(5 \<mapsto> new_Fr 7)) \<and> per_returnValues r = []"
    by (simp add: wit sample_program_def oracle_names obind_def public_oracle_def sample_write_run[OF assms] execution_result_def collect_def)
  show "execute (Suc n) sample_public_env w PrivateHistoricTreeRoots_empty (sample_call 3) c = Some (Inl (Error ''assertion failed''), c(5 \<mapsto> new_Fr 7))"
    by (simp add: wit sample_program_def oracle_names obind_def public_oracle_def sample_write_run[OF assms])
qed

text \<open>A function that calls its own contract reads stale storage: the collector of the caller keeps the value of its first read, so that after a nested call has
  written the slot the caller still reads the old value, and reports it as read, although storage has the new one.\<close>

theorem reentrant_read_is_stale:
  "\<exists>w r c. MerkleTrees_new mem_env [] = Inr w \<and>
    execute 2 sample_public_env w PrivateHistoricTreeRoots_empty (sample_call 1) Map.empty = Some (Inr r, c) \<and>
    per_returnValues r = [new_Fr 0] \<and> per_contractStorageReads r = [\<lparr>csr_storageSlot = new_Fr 5, csr_currentValue = new_Fr 0\<rparr>] \<and>
    storageRead sample_public_env w AztecAddress_ZERO (new_Fr 5) c = (Inr (new_Fr 7), c)"
proof -
  obtain w where w: "MerkleTrees_new mem_env [] = Inr w" "world_inv mem_env w" "world_leaves mem_env True w PUBLIC_DATA_TREE = ((\<lambda>_. INITIAL_LEAF), 0)"
    using sample_public_world by blast
  have ok: "fr_ok (new_Fr 5)" "fr_value (new_Fr 5) = 5" by (simp_all add: fr_ok_def new_Fr_def)
  note rd = sample_storage[OF w(2,3) ok(1), unfolded ok(2)]
  obtain wit where wit: "getInitialWitness [] (pe_callContext (sample_call 1)) PrivateHistoricTreeRoots_empty 1 = Inr wit" using sample_witness by blast
  obtain child where child: "execute (Suc 0) sample_public_env w PrivateHistoricTreeRoots_empty (sample_call 2) Map.empty = Some (Inr child, [5 \<mapsto> new_Fr 7])"
    "per_returnValues child = []" using sample_writer_run(1)[OF w(2,3), of 0 Map.empty] by auto
  have z: "toACVMFields (map AcvmFr (replicate 4 Fr_ZERO)) = Inr (replicate 4 (fld 0))"
    by (subst fields_total) (auto simp: fr_ok_def Fr_ZERO_def new_Fr_def)
  have run: "acvm (public_oracle (execute (Suc 0) sample_public_env w PrivateHistoricTreeRoots_empty) sample_public_env w (sample_call 1)) (sample_program [1]) (new_exec_state Map.empty) =
      Some (Inr [(1, fld 0)], \<lparr>ex_actions = \<lparr>contractStorageReads = [(5, new_Fr 0)], contractStorageUpdateRequests = []\<rparr>, ex_nested = [child], ex_cache = [5 \<mapsto> new_Fr 7]\<rparr>)"
    using z by (simp add: sample_program_def oracle_names obind_def public_oracle_def oracle_storageRead_def collector_read_def Let_def ok(2) rd collector_simps
        new_exec_state_def to_fld oracle_callPublicFunction_def sample_nested run_nested_def child NOIR_MAX_RETURN_VALUES_def padArrayEnd_def del: execute.simps)
  have "execute (Suc (Suc 0)) sample_public_env w PrivateHistoricTreeRoots_empty (sample_call 1) Map.empty =
      Some (Inr (PublicExecutionResult (sample_call 1) [new_Fr 0] [\<lparr>csr_storageSlot = new_Fr 5, csr_currentValue = new_Fr 0\<rparr>] [] [child]), [5 \<mapsto> new_Fr 7])"
    by (subst execute.simps(2)) (simp add: wit run execution_result_def collect_def del: execute.simps)
  then show ?thesis using w(1) rd[of AztecAddress_ZERO "[5 \<mapsto> new_Fr 7]"] by (auto simp: numeral_2_eq_2 simp del: execute.simps)
qed

text \<open>The writes of a failed execution stay: the cache of writes is shared by all transactions that one processor handles and is not reset when one of them throws,
  so that the next transaction reads values that no block will contain.\<close>

theorem failed_execution_keeps_writes:
  "\<exists>w c. MerkleTrees_new mem_env [] = Inr w \<and>
    storageRead sample_public_env w AztecAddress_ZERO (new_Fr 5) Map.empty = (Inr (new_Fr 0), Map.empty) \<and>
    execute 1 sample_public_env w PrivateHistoricTreeRoots_empty (sample_call 3) Map.empty = Some (Inl (Error ''assertion failed''), c) \<and>
    storageRead sample_public_env w AztecAddress_ZERO (new_Fr 5) c = (Inr (new_Fr 7), c)"
proof -
  obtain w where w: "MerkleTrees_new mem_env [] = Inr w" "world_inv mem_env w" "world_leaves mem_env True w PUBLIC_DATA_TREE = ((\<lambda>_. INITIAL_LEAF), 0)"
    using sample_public_world by blast
  have ok: "fr_ok (new_Fr 5)" "fr_value (new_Fr 5) = 5" by (simp_all add: fr_ok_def new_Fr_def)
  note rd = sample_storage[OF w(2,3) ok(1), unfolded ok(2)]
  show ?thesis using w(1) rd sample_writer_run(2)[OF w(2,3), of 0 Map.empty]
    by (intro exI[of _ w] exI[of _ "[5 \<mapsto> new_Fr 7]"]) (simp del: execute.simps)
qed

section \<open>Witnesses\<close>

theorem collector_refines_storage_witness:
  "\<exists>w s. MerkleTrees_new mem_env [] = Inr w \<and>
    run_ops sample_public_env w AztecAddress_ZERO [ReadOp (new_Fr 5), WriteOp (new_Fr 6) (new_Fr 1), ReadOp (new_Fr 6), WriteOp (new_Fr 6) (new_Fr 2)]
      (new_exec_state Map.empty) = (Inr [new_Fr 0, new_Fr 1, new_Fr 1, new_Fr 2], s) \<and>
    set (snd (collect (ex_actions s))) = {\<lparr>csu_storageSlot = new_Fr 6, csu_oldValue = new_Fr 0, csu_newValue = new_Fr 2\<rparr>}"
proof -
  obtain w where w: "MerkleTrees_new mem_env [] = Inr w" "world_inv mem_env w" "world_leaves mem_env True w PUBLIC_DATA_TREE = ((\<lambda>_. INITIAL_LEAF), 0)"
    using sample_public_world by blast
  let ?S = "{new_Fr 5, new_Fr 6}" and ?ops = "[ReadOp (new_Fr 5), WriteOp (new_Fr 6) (new_Fr 1), ReadOp (new_Fr 6), WriteOp (new_Fr 6) (new_Fr 2)]"
  have ok: "\<forall>x \<in> ?S. fr_ok x \<and> fr_value x < 2 ^ 254" by (simp add: fr_ok_def new_Fr_def)
  have "storage_is sample_public_env w AztecAddress_ZERO ?S Map.empty (\<lambda>_. new_Fr 0)"
    unfolding storage_is_def using ok sample_storage[OF w(2,3), of _ AztecAddress_ZERO Map.empty] by auto
  moreover have "slots_distinct sample_public_env AztecAddress_ZERO ?S"
    unfolding slots_distinct_def using ok sample_index[of _ AztecAddress_ZERO] fr_eqI by auto
  moreover have "ops_written ?ops = {6}"
    by (auto simp: ops_written_def new_Fr_def) (rule exI[of _ "\<lparr>fr_value = 6\<rparr>"], auto)
  moreover have "fst (spec_ops ?ops (\<lambda>_. new_Fr 0)) = [new_Fr 0, new_Fr 1, new_Fr 1, new_Fr 2]" "snd (spec_ops ?ops (\<lambda>_. new_Fr 0)) 6 = new_Fr 2"
    by (simp_all add: new_Fr_def)
  ultimately show ?thesis using w(1) collector_refines_storage[of sample_public_env w AztecAddress_ZERO ?S Map.empty "\<lambda>_. new_Fr 0" ?ops] by auto
qed

text \<open>C38. Executions end where contracts do not call each other in a circle: when every call goes to a function of a lower rank, an execution returns, with a result or an
  error, within a depth of calls above its rank, and any larger bound on the depth gives the same.\<close>

theorem execution_terminates:
  assumes "calls_ranked P rank" and "rank e < n"
  shows "\<exists>r c'. execute n P w roots e c = Some (r, c') \<and> (\<forall>m \<ge> n. execute m P w roots e c = Some (r, c'))"
proof -
  obtain r c' where r: "execute n P w roots e c = Some (r, c')" using execute_returns[OF assms] by fastforce
  then show ?thesis using execute_more_depth[OF r] by blast
qed

lemma sample_ranked: "calls_ranked sample_public_env (\<lambda>e. if last (fd_functionSelectorBuffer (pe_functionData e)) = 1 then 1 else 0)"
proof -
  have "frToSelector (new_Fr 2) = Inr (sample_selector 2)" by code_simp
  then have "last (fd_functionSelectorBuffer (pe_functionData e)) = 2" if "call_arguments sample_public_env ctx [fld 0, fld 2] = Inr e" for e ctx
    using that by (auto simp: call_arguments_def nested_execution_def new_FunctionData_def Let_def split: if_splits)
  then show ?thesis by (auto simp: calls_ranked_def sample_program_def)
qed

theorem execution_terminates_witness:
  "\<exists>w r c. MerkleTrees_new mem_env [] = Inr w \<and>
    execute 2 sample_public_env w PrivateHistoricTreeRoots_empty (sample_call 1) Map.empty = Some (r, c) \<and>
    (\<forall>m \<ge> 2. execute m sample_public_env w PrivateHistoricTreeRoots_empty (sample_call 1) Map.empty = Some (r, c))"
proof -
  obtain w where w: "MerkleTrees_new mem_env [] = Inr w" using sample_public_world by blast
  have "\<exists>r c. execute 2 sample_public_env w PrivateHistoricTreeRoots_empty (sample_call 1) Map.empty = Some (r, c) \<and>
      (\<forall>m \<ge> 2. execute m sample_public_env w PrivateHistoricTreeRoots_empty (sample_call 1) Map.empty = Some (r, c))"
    by (rule execution_terminates[OF sample_ranked]) simp
  then show ?thesis using w by blast
qed

end
