(* ===== verification/PublicProcessorProperties.thy ===== *)
theory PublicProcessorProperties
  imports PublicProcessor PublicExecutionProperties TxMessages
begin

text \<open>
  Properties of the public processor: the order in which the kernel circuit is run over the calls of a transaction, the call data against what the
  kernel circuit checks, and the division of the transactions into processed and failed ones.
\<close>

section \<open>The order of the kernel circuit\<close>

text \<open>Every call comes before its nested calls, and these come last first.\<close>

fun kernel_order :: "public_execution_result \<Rightarrow> public_execution_result list" where
  "kernel_order (PublicExecutionResult e vs rs us nested) =
     PublicExecutionResult e vs rs us nested # concat (map kernel_order (rev nested))"

fun kernel_runs ::
  "'db processor \<Rightarrow> 'db merkle_trees \<Rightarrow> signed_tx_execution_request option \<Rightarrow> (public_execution_result \<times> bool) list \<Rightarrow>
   (kernel_public_inputs \<times> proof_data) option \<Rightarrow> (processor_state, (kernel_public_inputs \<times> proof_data) option) ojs" where
  "kernel_runs E w q [] k = oreturn k"
| "kernel_runs E w q ((r, b) # rs) k = obind (olift (kernel_iteration E w q r b k)) (\<lambda>k'. kernel_runs E w q rs (Some k'))"

definition runs_of :: "public_execution_result \<Rightarrow> bool \<Rightarrow> (public_execution_result \<times> bool) list" where
  "runs_of r b = (r, b) # map (\<lambda>x. (x, False)) (tl (kernel_order r))"

text \<open>The calls of a transaction, each executed and followed by the runs of the circuit for it.\<close>

fun run_calls ::
  "'db processor \<Rightarrow> 'db merkle_trees \<Rightarrow> private_historic_tree_roots \<Rightarrow> public_execution list \<Rightarrow> (kernel_public_inputs \<times> proof_data) option \<Rightarrow>
   (processor_state, (kernel_public_inputs \<times> proof_data) option) ojs" where
  "run_calls E w roots [] k = oreturn k"
| "run_calls E w roots (e # es) k =
     obind (run_executor E w roots e) (\<lambda>r. obind (kernel_runs E w None (runs_of r True) k) (run_calls E w roots es))"

lemma kernel_runs_append:
  "kernel_runs E w q (rs @ ts) k s = obind (kernel_runs E w q rs k) (kernel_runs E w q ts) s"
  by (induction E w q rs k arbitrary: s rule: kernel_runs.induct) (auto simp: obind_def split: option.splits sum.splits prod.splits)

lemma loop_step:
  "execution_loop E w roots q (st @ [x]) k s =
     obind (entry_result E w roots x) (\<lambda>r. obind (olift (kernel_iteration E w q r (is_request x) k)) (\<lambda>k'.
       execution_loop E w roots q (st @ map (Some \<circ> Result) (per_nestedExecutions r)) (Some k'))) s"
  by (subst execution_loop.simps) (auto simp: obind_def split: option.splits sum.splits prod.splits)

lemma loop_results:
  assumes "\<And>r st k s. r \<in> set rs \<Longrightarrow>
      execution_loop E w roots q (st @ [Some (Result r)]) k s = obind (kernel_runs E w q (runs_of r False) k) (execution_loop E w roots q st) s"
  shows "execution_loop E w roots q (st @ map (Some \<circ> Result) rs) k s =
    obind (kernel_runs E w q (map (\<lambda>x. (x, False)) (concat (map kernel_order (rev rs)))) k) (execution_loop E w roots q st) s"
  using assms
proof (induction rs arbitrary: k s rule: rev_induct)
  case Nil
  then show ?case by (simp add: obind_def)
next
  case (snoc r rs)
  have "runs_of r False = map (\<lambda>x. (x, False)) (kernel_order r)" by (cases r) (simp add: runs_of_def)
  then show ?case using snoc.prems[of r "st @ map (Some \<circ> Result) rs" k s] snoc.IH[OF snoc.prems]
    by (auto simp: kernel_runs_append comp_def obind_def split: option.splits sum.splits)
qed

lemma loop_result:
  "execution_loop E w roots q (st @ [Some (Result r)]) k s = obind (kernel_runs E w q (runs_of r False) k) (execution_loop E w roots q st) s"
proof (induction r arbitrary: st k s)
  case (PublicExecutionResult e vs rs us nested)
  have "execution_loop E w roots q (st @ map (Some \<circ> Result) nested) k' s' =
      obind (kernel_runs E w q (map (\<lambda>x. (x, False)) (concat (map kernel_order (rev nested)))) k') (execution_loop E w roots q st) s'" for k' s'
    using PublicExecutionResult.IH by (rule loop_results)
  then show ?case
    by (subst loop_step)
      (auto simp: entry_result_def is_request_def isPublicExecutionResult_def runs_of_def obind_def split: option.splits sum.splits prod.splits)
qed

lemma loop_request:
  "execution_loop E w roots q (st @ [Some (Request e)]) k s =
     obind (run_executor E w roots e) (\<lambda>r. obind (kernel_runs E w q (runs_of r True) k) (execution_loop E w roots q st)) s"
proof -
  have "execution_loop E w roots q (st @ map (Some \<circ> Result) (per_nestedExecutions r)) k' s' =
      obind (kernel_runs E w q (map (\<lambda>x. (x, False)) (tl (kernel_order r))) k') (execution_loop E w roots q st) s'" for r k' s'
    using loop_results[OF loop_result] by (cases r) simp
  then show ?thesis
    by (subst loop_step)
      (auto simp: entry_result_def is_request_def isPublicExecutionResult_def runs_of_def obind_def split: option.splits sum.splits prod.splits)
qed

lemma loop_nil: "execution_loop E w roots q [] k = oreturn k"
  by (rule ext) (simp add: execution_loop.simps)

text \<open>C7. The execution stack runs the public kernel circuit in a fixed order. For a public transaction, whose one entry has been executed, the circuit is
  run exactly once for every call, for a caller before its callees and for the later callee before the earlier one; the calls that a private transaction has
  enqueued are executed in the order in which they were enqueued, and the circuit is run over each of them, marked as a request, and its nested calls
  before the next one is executed.\<close>

theorem execution_stack_order:
  "execution_loop E w roots q [Some (Result r)] k s = kernel_runs E w q (map (\<lambda>x. (x, False)) (kernel_order r)) k s \<and>
   execution_loop E w roots None (rev (map (Some \<circ> Request) es)) k s = run_calls E w roots es k s"
proof
  have "runs_of r False = map (\<lambda>x. (x, False)) (kernel_order r)" by (cases r) (simp add: runs_of_def)
  then show "execution_loop E w roots q [Some (Result r)] k s = kernel_runs E w q (map (\<lambda>x. (x, False)) (kernel_order r)) k s"
    using loop_result[of E w roots q "[]" r k s] by (auto simp: loop_nil obind_def split: option.splits sum.splits)
next
  show "execution_loop E w roots None (rev (map (Some \<circ> Request) es)) k s = run_calls E w roots es k s"
    by (induction es arbitrary: k s) (auto simp: loop_nil loop_request obind_def split: option.splits sum.splits)
qed

section \<open>Call data\<close>

lemma jtraverse_Inr:
  "jtraverse f xs s = (Inr ys, t) \<Longrightarrow> list_all2 (\<lambda>x y. \<exists>s t. f x s = (Inr y, t)) xs ys"
  by (induction xs arbitrary: s ys) (fastforce simp: jbind_eq_Inr)+

text \<open>Two items that differ in the address of the prover at most.\<close>

definition with_prover :: "aztec_address \<Rightarrow> public_call_stack_item \<Rightarrow> public_call_stack_item" where
  "with_prover a i = i\<lparr>pcs_publicInputs := (pcs_publicInputs i)\<lparr>pci_proverAddress := a\<rparr>\<rparr>"

definition ignores_prover :: "'db processor \<Rightarrow> bool" where
  "ignores_prover E \<longleftrightarrow> (\<forall>i a. computeCallStackItemHash E (with_prover a i) = computeCallStackItemHash E i)"

definition same_call :: "'db processor \<Rightarrow> public_call_stack_item \<Rightarrow> public_call_stack_item \<Rightarrow> bool" where
  "same_call E i j \<longleftrightarrow> (\<exists>a. j = with_prover a i) \<and> call_stack_hash E i = call_stack_hash E j"

definition calls_addressed :: "public_execution_result \<Rightarrow> bool" where
  "calls_addressed r \<longleftrightarrow> (\<forall>x \<in> set (tl (kernel_order r)). \<not> AztecAddress_isZero (pe_contractAddress (per_execution x)))"

lemma kernel_order_head: "kernel_order r = r # tl (kernel_order r)"
  by (cases r) simp

lemma calls_addressed_simp:
  "calls_addressed (PublicExecutionResult e vs rs us nested) \<longleftrightarrow>
     (\<forall>n \<in> set nested. \<not> AztecAddress_isZero (pe_contractAddress (per_execution n)) \<and> calls_addressed n)"
proof -
  have "(\<forall>x \<in> set (kernel_order n). P x) \<longleftrightarrow> P n \<and> (\<forall>x \<in> set (tl (kernel_order n)). P x)" for n P
    by (subst kernel_order_head) simp
  then show ?thesis by (simp add: calls_addressed_def)
qed

lemma public_inputs_prover:
  "public_inputs_from E r h st a = Inr x \<Longrightarrow> public_inputs_from E r h st b = Inr y \<Longrightarrow> y = x\<lparr>pci_proverAddress := b\<rparr>"
  by (auto simp: public_inputs_from_def new_PublicCircuitPublicInputs_def rbind_eq_Inr)

lemma traverse_agree: "list_all2 (\<lambda>i j. f i = f j) is js \<Longrightarrow> rtraverse f is = rtraverse f js"
  by (induction rule: list_all2_induct) auto

lemma stack_items_agree:
  assumes pre: "\<And>p p' s s' t t'. m s = (Inr p, t) \<Longrightarrow> m s' = (Inr p', t') \<Longrightarrow> list_all2 (same_call E) p p'"
    and H: "ignores_prover E" and addr: "\<not> AztecAddress_isZero (pe_contractAddress (per_execution r))"
    and i: "stack_item_with m E w r b s = (Inr i, t)" and j: "stack_item_with m E w r b s' = (Inr j, t')"
  shows "same_call E i j"
proof -
  obtain h p st a x s1 s2 where ii: "fr_of_buffer (ti_root (Facade_getTreeInfo asLatest PUBLIC_DATA_TREE w)) = Inr h" "m s = (Inr p, s1)"
    "rtraverse (call_stack_hash E) p = Inr st" "public_inputs_from E r h st a = Inr x"
    "i = \<lparr>pcs_contractAddress = pe_contractAddress (per_execution r), pcs_functionData = pe_functionData (per_execution r),
       pcs_publicInputs = x, pcs_isExecutionRequest = b\<rparr>"
    using i by (auto simp: stack_item_with_def public_inputs_with_def jbind_eq_Inr draw_def)
  obtain h' p' st' a' x' s1' where jj: "fr_of_buffer (ti_root (Facade_getTreeInfo asLatest PUBLIC_DATA_TREE w)) = Inr h'" "m s' = (Inr p', s1')"
    "rtraverse (call_stack_hash E) p' = Inr st'" "public_inputs_from E r h' st' a' = Inr x'"
    "j = \<lparr>pcs_contractAddress = pe_contractAddress (per_execution r), pcs_functionData = pe_functionData (per_execution r),
       pcs_publicInputs = x', pcs_isExecutionRequest = b\<rparr>"
    using j by (auto simp: stack_item_with_def public_inputs_with_def jbind_eq_Inr draw_def)
  have "list_all2 (\<lambda>i j. call_stack_hash E i = call_stack_hash E j) p p'"
    using pre[OF ii(2) jj(2)] by (rule list_all2_mono) (simp add: same_call_def)
  then have "st' = st" using traverse_agree[of "call_stack_hash E" p p'] ii(3) jj(3) by simp
  then have "x' = x\<lparr>pci_proverAddress := a'\<rparr>" using public_inputs_prover[of E r h st a x a' x'] ii(1,4) jj(1,4) by simp
  then have "j = with_prover a' i" by (simp add: with_prover_def ii(5) jj(5))
  moreover have "\<not> PublicCallStackItem_isEmpty i" "\<not> PublicCallStackItem_isEmpty j" using addr by (simp_all add: PublicCallStackItem_isEmpty_def ii(5) jj(5))
  ultimately show ?thesis using H by (auto simp: same_call_def call_stack_hash_def ignores_prover_def)
qed

lemma pad_agree:
  assumes "list_all2 (same_call E) p p'" "pad_preimages p = Inr q" "pad_preimages p' = Inr q'"
  shows "list_all2 (same_call E) q q'"
proof -
  have "same_call E i i" for i by (auto simp: same_call_def with_prover_def intro: exI[of _ "pci_proverAddress (pcs_publicInputs i)"])
  then have "list_all2 (same_call E) (replicate n e @ p) (replicate n e @ p')" for n e
    using assms(1) by (simp add: list_all2_appendI list_all2_refl)
  moreover obtain e where e: "PublicCallStackItem_empty = Inr e" using assms(2) by (auto simp: pad_preimages_def split: if_splits)
  ultimately show ?thesis using assms(2,3) list_all2_lengthD[OF assms(1)] by (auto simp: pad_preimages_def padArrayStart_def e split: if_splits)
qed

lemma preimages_agree:
  assumes "ignores_prover E" "calls_addressed r"
    and "getPublicCallStackPreimages E w r s = (Inr p, t)" "getPublicCallStackPreimages E w r s' = (Inr p', t')"
  shows "list_all2 (same_call E) p p'"
  using assms(2-)
proof (induction r arbitrary: s p t s' p' t')
  case (PublicExecutionResult e vs rs us nested)
  let ?f = "\<lambda>n. stack_item_with (getPublicCallStackPreimages E w n) E w n False"
  obtain q q' s1 s1' where q: "jtraverse ?f nested s = (Inr q, s1)" "pad_preimages q = Inr p" "jtraverse ?f nested s' = (Inr q', s1')" "pad_preimages q' = Inr p'"
    using PublicExecutionResult.prems(2,3) by (auto simp: jbind_eq_Inr)
  have "same_call E (q ! k) (q' ! k)" if k: "k < length nested" for k
  proof -
    let ?n = "nested ! k"
    obtain u v u' v' where "?f ?n u = (Inr (q ! k), v)" "?f ?n u' = (Inr (q' ! k), v')"
      using list_all2_nthD[OF jtraverse_Inr[OF q(1)] k] list_all2_nthD[OF jtraverse_Inr[OF q(3)] k] by blast
    moreover have "\<not> AztecAddress_isZero (pe_contractAddress (per_execution ?n))" "calls_addressed ?n"
      using PublicExecutionResult.prems(1) k by (simp_all add: calls_addressed_simp)
    ultimately show ?thesis using stack_items_agree[OF _ assms(1)] PublicExecutionResult.IH[of ?n] k by (metis nth_mem)
  qed
  then have "list_all2 (same_call E) q q'"
    using jtraverse_Inr[OF q(1)] jtraverse_Inr[OF q(3)] by (auto simp: list_all2_conv_all_nth)
  then show ?case using pad_agree q by blast
qed

lemma stack_item_address: "stack_item_with m E w r b s = (Inr i, t) \<Longrightarrow> pcs_contractAddress i = pe_contractAddress (per_execution r)"
  by (auto simp: stack_item_with_def jbind_eq_Inr)

lemma hashes_as_stack:
  "rtraverse (call_stack_hash E) p = Inr st \<Longrightarrow> list_all2 (same_call E) p q \<Longrightarrow>
   list_all2 (\<lambda>h i. if PublicCallStackItem_isEmpty i then h = Fr_ZERO else computeCallStackItemHash E i = Inr h) st q"
  by (auto simp: rtraverse_Inr list_all2_conv_all_nth same_call_def call_stack_hash_def)

text \<open>The sizes that the circuits have room for, and the number of arguments that \<open>computeVarArgsHash\<close> accepts.\<close>

definition call_sized :: "public_execution_result \<Rightarrow> bool" where
  "call_sized r \<longleftrightarrow> length (per_returnValues r) \<le> RETURN_VALUES_LENGTH \<and> length (per_contractStorageReads r) \<le> KERNEL_PUBLIC_DATA_READS_LENGTH \<and>
     length (per_contractStorageUpdateRequests r) \<le> KERNEL_PUBLIC_DATA_UPDATE_REQUESTS_LENGTH \<and> length (per_nestedExecutions r) \<le> PUBLIC_CALL_STACK_LENGTH \<and>
     length (pe_args (per_execution r)) \<le> MAX_HASHED_ARGS"

definition calls_sized :: "public_execution_result \<Rightarrow> bool" where
  "calls_sized r \<longleftrightarrow> (\<forall>x \<in> set (kernel_order r). call_sized x)"

definition hashes_total :: "'db processor \<Rightarrow> bool" where
  "hashes_total E \<longleftrightarrow> (\<forall>i. \<exists>h. computeCallStackItemHash E i = Inr h) \<and> 
     (\<forall>xs. length xs \<le> MAX_HASHED_ARGS \<longrightarrow> (\<exists>h. computeVarArgsHash (pr_hashes E) xs = Inr h))"

lemma abis_computeVarArgsHash_total: "length xs \<le> MAX_HASHED_ARGS \<longleftrightarrow> (\<exists>h. abis_computeVarArgsHash f xs = Inr h)"
  by (auto simp: abis_computeVarArgsHash_def MAX_HASHED_ARGS_def)

lemma fr_of_buffer_total: "\<exists>x. fr_of_buffer b = Inr x"
  by (simp add: fr_of_buffer_def Fr_fromBuffer_def new_BufferReader_def readBytes_short jbind_def)

lemma inputs_total:
  assumes "hashes_total E" "call_sized r" "length st = PUBLIC_CALL_STACK_LENGTH"
  shows "\<exists>x. public_inputs_from E r h st a = Inr x"
proof -
  obtain ah where "computeVarArgsHash (pr_hashes E) (pe_args (per_execution r)) = Inr ah" using assms(1,2) by (auto simp: hashes_total_def call_sized_def)
  then show ?thesis using assms(2,3)
    by (simp add: public_inputs_from_def padArrayEnd_def call_sized_def new_PublicCircuitPublicInputs_def assertMemberLength_def)
qed

lemma stack_item_total:
  assumes "hashes_total E" "call_sized r" and m: "\<And>s. \<exists>p t. m s = (Inr p, t) \<and> length p = PUBLIC_CALL_STACK_LENGTH"
  shows "\<exists>i t. stack_item_with m E w r b s = (Inr i, t)"
proof -
  obtain h where h: "fr_of_buffer (ti_root (Facade_getTreeInfo asLatest PUBLIC_DATA_TREE w)) = Inr h" using fr_of_buffer_total by blast
  obtain p t where p: "m s = (Inr p, t)" "length p = PUBLIC_CALL_STACK_LENGTH" using m by blast
  have "\<exists>y. call_stack_hash E i = Inr y" for i using assms(1) by (simp add: call_stack_hash_def hashes_total_def)
  then obtain st where st: "rtraverse (call_stack_hash E) p = Inr st" using rtraverse_total[of p "call_stack_hash E"] by blast
  then have "length st = PUBLIC_CALL_STACK_LENGTH" using p(2) list_all2_lengthD by (fastforce simp: rtraverse_Inr)
  then show ?thesis using inputs_total[OF assms(1,2), of st h "randomAddress E (ps_draws t)"] h p st
    by (auto simp: stack_item_with_def public_inputs_with_def jbind_def draw_def)
qed

lemma jtraverse_total: "(\<And>x s. x \<in> set xs \<Longrightarrow> \<exists>y t. f x s = (Inr y, t)) \<Longrightarrow> \<exists>ys t. jtraverse f xs s = (Inr ys, t)"
proof (induction xs arbitrary: s)
  case (Cons x xs)
  obtain y t where "f x s = (Inr y, t)" using Cons.prems[of x s] by auto
  moreover obtain ys u where "jtraverse f xs t = (Inr ys, u)" using Cons by fastforce
  ultimately show ?case by (simp add: jbind_def)
qed simp

lemma empty_item_total: "\<exists>e. PublicCallStackItem_empty = Inr e"
proof -
  have "(case PublicCallStackItem_empty of Inr e \<Rightarrow> True | Inl _ \<Rightarrow> False)" by code_simp
  then show ?thesis by (auto split: sum.splits)
qed

lemma preimages_total:
  assumes "hashes_total E" "calls_sized r"
  shows "\<exists>p t. getPublicCallStackPreimages E w r s = (Inr p, t) \<and> length p = PUBLIC_CALL_STACK_LENGTH"
  using assms(2)
proof (induction r arbitrary: s)
  case (PublicExecutionResult e vs rs us nested)
  let ?f = "\<lambda>n. stack_item_with (getPublicCallStackPreimages E w n) E w n False"
  have sized: "calls_sized n" "call_sized n" if "n \<in> set nested" for n
    using that PublicExecutionResult.prems kernel_order_head[of n] by (auto simp: calls_sized_def) (metis list.set_intros(1))
  have "\<exists>i t. ?f n u = (Inr i, t)" if n: "n \<in> set nested" for n u
    using stack_item_total[OF assms(1) sized(2)[OF n]] PublicExecutionResult.IH[OF n sized(1)[OF n]] by blast
  then obtain q t where q: "jtraverse ?f nested s = (Inr q, t)" using jtraverse_total[of nested ?f s] by blast
  moreover have "length q \<le> PUBLIC_CALL_STACK_LENGTH"
    using list_all2_lengthD[OF jtraverse_Inr[OF q]] PublicExecutionResult.prems by (simp add: calls_sized_def call_sized_def)
  moreover obtain e where "PublicCallStackItem_empty = Inr e" using empty_item_total by blast
  ultimately show ?case by (auto simp: jbind_def pad_preimages_def padArrayStart_def)
qed

lemma call_data_total:
  assumes "hashes_total E" "calls_sized r" "length preimages = PUBLIC_CALL_STACK_LENGTH"
  shows "\<exists>d t. getPublicCallData E w r preimages b s = (Inr d, t)"
proof -
  have "call_sized r" using assms(2) kernel_order_head[of r] by (auto simp: calls_sized_def) (metis list.set_intros(1))
  then obtain i t where "getPublicCallStackItem E w r b s = (Inr i, t)"
    using stack_item_total[OF assms(1), of r "getPublicCallStackPreimages E w r"] preimages_total[OF assms(1,2)] unfolding getPublicCallStackItem_def by blast
  moreover obtain x where "EthAddress_toField (cc_portalContractAddress (pe_callContext (per_execution r))) = Inr x"
    using fr_of_buffer_total by (auto simp: EthAddress_toField_def fr_of_buffer_def)
  ultimately show ?thesis using assms(3) by (simp add: getPublicCallData_def jbind_def new_PublicCallData_def assertMemberLength_def)
qed

lemma call_data_reconciles:
  assumes "ignores_prover E" "calls_addressed r"
    and "getPublicCallStackPreimages E w r s = (Inr preimages, s1)" "getPublicCallData E w r preimages b s2 = (Inr d, s3)"
  shows "pcd_publicCallStackPreimages d = preimages \<and>
    list_all2 (\<lambda>h i. if PublicCallStackItem_isEmpty i then h = Fr_ZERO else computeCallStackItemHash E i = Inr h)
      (pci_publicCallStack (pcs_publicInputs (pcd_callStackItem d))) preimages \<and>
    map pcs_contractAddress (drop (length preimages - length (per_nestedExecutions r)) preimages) =
      map (pe_contractAddress \<circ> per_execution) (per_nestedExecutions r)"
proof -
  obtain p st h a x s4 s5 where d: "getPublicCallStackPreimages E w r s4 = (Inr p, s5)" "rtraverse (call_stack_hash E) p = Inr st"
    "public_inputs_from E r h st a = Inr x" "pcd_publicCallStackPreimages d = preimages" "pcs_publicInputs (pcd_callStackItem d) = x"
    using assms(4)
    by (auto simp: getPublicCallData_def getPublicCallStackItem_def stack_item_with_def public_inputs_with_def new_PublicCallData_def jbind_eq_Inr draw_def)
  have st: "pci_publicCallStack x = st" using d(3) by (auto simp: public_inputs_from_def new_PublicCircuitPublicInputs_def)
  obtain q s6 where q: "jtraverse (\<lambda>n. stack_item_with (getPublicCallStackPreimages E w n) E w n False) (per_nestedExecutions r) s = (Inr q, s6)"
    "pad_preimages q = Inr preimages" using assms(3) by (cases r) (auto simp: jbind_eq_Inr)
  have "list_all2 (\<lambda>n i. pcs_contractAddress i = pe_contractAddress (per_execution n)) (per_nestedExecutions r) q"
    using jtraverse_Inr[OF q(1)] by (rule list_all2_mono) (auto dest: stack_item_address)
  then have "map pcs_contractAddress q = map (pe_contractAddress \<circ> per_execution) (per_nestedExecutions r)" "length q = length (per_nestedExecutions r)"
    by (auto simp: list_all2_conv_all_nth intro!: nth_equalityI)
  moreover have "length preimages = PUBLIC_CALL_STACK_LENGTH" "drop (length preimages - length q) preimages = q"
    using q(2) by (auto simp: pad_preimages_def padArrayStart_def split: if_splits)
  ultimately show ?thesis using hashes_as_stack[OF d(2) preimages_agree[OF assms(1,2) d(1) assms(3)]] d(4,5) st by auto
qed

text \<open>C8. The call data that the processor gives to the public kernel circuit passes the first check of the circuit. For calls within the sizes of the circuits and
  with at most 1024 arguments it is always made; the call stack of the public inputs and the preimages are computed by separate traversals, which draw different addresses of the prover, but
  since the hash of a call leaves that address out, every entry of the call stack is the hash of the preimage at its place, or zero where the place is empty,
  and the last places are those of the nested calls in the order of their execution.\<close>

theorem call_stack_reconciles:
  assumes "hashes_total E" "ignores_prover E" "calls_sized r" "calls_addressed r"
  shows "\<exists>preimages s1 d s2. getPublicCallStackPreimages E w r s = (Inr preimages, s1) \<and> getPublicCallData E w r preimages b s1 = (Inr d, s2) \<and>
    pcd_publicCallStackPreimages d = preimages \<and>
    list_all2 (\<lambda>h i. if PublicCallStackItem_isEmpty i then h = Fr_ZERO else computeCallStackItemHash E i = Inr h)
      (pci_publicCallStack (pcs_publicInputs (pcd_callStackItem d))) preimages \<and>
    map pcs_contractAddress (drop (length preimages - length (per_nestedExecutions r)) preimages) =
      map (pe_contractAddress \<circ> per_execution) (per_nestedExecutions r)"
proof -
  obtain preimages s1 where p: "getPublicCallStackPreimages E w r s = (Inr preimages, s1)" "length preimages = PUBLIC_CALL_STACK_LENGTH"
    using preimages_total[OF assms(1,3)] by blast
  moreover obtain d s2 where "getPublicCallData E w r preimages b s1 = (Inr d, s2)" using call_data_total[OF assms(1,3) p(2)] by blast
  ultimately show ?thesis using call_data_reconciles[OF assms(2,4) p(1)] by blast
qed

section \<open>Processed and failed transactions\<close>

definition processed_from :: "circuit_hashes \<Rightarrow> tx \<Rightarrow> processed_tx \<Rightarrow> bool" where
  "processed_from H t p \<longleftrightarrow> Tx_getTxHash H t = Inr (ptx_hash p) \<and> \<not> ptx_isEmpty p \<and> ptx_encryptedLogs p = tx_encryptedLogs t \<and> ptx_txRequest p = tx_txRequest t \<and>
     (tx_txRequest t = None \<and> \<not> has_enqueued_calls t \<longrightarrow> tx_data t = Some (ptx_data p) \<and> tx_proof t = Some (ptx_proof p))"

lemma makeProcessedTx_from:
  "makeProcessedTx H t k = Inr p \<Longrightarrow> k = None \<or> tx_txRequest t \<noteq> None \<or> has_enqueued_calls t \<Longrightarrow> processed_from H t p"
  by (auto simp: makeProcessedTx_def processed_from_def split: option.splits)

lemma processTx_from:
  assumes "Tx_getTxHash (pr_hashes E) t = Inr h" and "processTx E w roots t s = Some (Inr p, s')"
  shows "processed_from (pr_hashes E) t p"
proof (cases "tx_txRequest t")
  case None
  then have "isPrivateTx t" using assms(1) by (auto simp: Tx_getTxHash_def split: option.splits bool.splits)
  then show ?thesis using assms(2) None
    by (cases "has_enqueued_calls t") (auto simp: processTx_def obind_eq_Inr intro: makeProcessedTx_from)
next
  case (Some q)
  then show ?thesis using assms(2) by (auto simp: processTx_def obind_eq_Inr intro: makeProcessedTx_from)
qed

definition selected :: "bool list \<Rightarrow> 'a list \<Rightarrow> 'a list" where
  "selected bs xs = map snd (filter fst (zip bs xs))"

lemma selected_simps [simp]: "selected [] xs = []" "selected (b # bs) (x # xs) = (if b then x # selected bs xs else selected bs xs)"
  by (simp_all add: selected_def)

text \<open>A private transaction without public calls.\<close>

definition plain_tx :: "tx \<Rightarrow> bool" where
  "plain_tx t \<longleftrightarrow> tx_txRequest t = None \<and> \<not> has_enqueued_calls t"

lemma processTx_plain:
  assumes "Tx_getTxHash (pr_hashes E) t = Inr h" and "plain_tx t"
  shows "\<exists>p. processTx E w roots t s = Some (Inr p, s)"
proof -
  have "isPrivateTx t" using assms by (auto simp: Tx_getTxHash_def plain_tx_def split: option.splits bool.splits)
  then show ?thesis using assms by (auto simp: processTx_def plain_tx_def makeProcessedTx_def isPrivateTx_def)
qed

text \<open>A bound on the depth of calls that is above every rank.\<close>

definition depth_enough :: "'db processor \<Rightarrow> (public_execution \<Rightarrow> nat) \<Rightarrow> bool" where
  "depth_enough E rank \<longleftrightarrow> calls_ranked (pr_public E) rank \<and> (\<forall>e. rank e < depthBound E)"

definition always_returns :: "('s, 'a) ojs \<Rightarrow> bool" where
  "always_returns m \<longleftrightarrow> (\<forall>s. m s \<noteq> None)"

lemma always_returns_olift: "always_returns (olift m)"
  by (simp add: always_returns_def olift_def)

lemma always_returns_obind: "always_returns m \<Longrightarrow> (\<And>x. always_returns (f x)) \<Longrightarrow> always_returns (obind m f)"
  by (fastforce simp: always_returns_def obind_def split: option.split sum.split)

lemma run_executor_returns: "depth_enough E rank \<Longrightarrow> always_returns (run_executor E w roots e)"
  using execute_returns[of "pr_public E" rank e "depthBound E" w roots] by (simp add: always_returns_def run_executor_def depth_enough_def)

lemma execution_loop_returns:
  assumes "depth_enough E rank"
  shows "execution_loop E w roots q st k s \<noteq> None"
  using assms
proof (induction E w roots q st k s rule: execution_loop.induct)
  case (1 E w roots q st k s)
  have "always_returns (entry_result E w roots x)" for x
    using run_executor_returns[OF 1(2)] by (auto simp: entry_result_def always_returns_def split: option.splits stack_entry.splits)
  then obtain r s1 where "entry_result E w roots (last st) s = Some (r, s1)" unfolding always_returns_def by fastforce
  then show ?case using 1 by (subst execution_loop.simps) (auto split: sum.splits prod.splits)
qed

lemma processTx_returns:
  assumes "depth_enough E rank"
  shows "always_returns (processTx E w roots t)"
proof -
  have "always_returns (processExecutionStack E w roots st q k)" for st q k
    using execution_loop_returns[OF assms] by (auto simp: always_returns_def processExecutionStack_def)
  moreover note run_executor_returns[OF assms]
  ultimately show ?thesis
    by (auto simp: processTx_def processPublicTx_def processEnqueuedPublicCalls_def split: option.split
        intro!: always_returns_olift always_returns_obind)
qed

lemma process_loop_partition:
  assumes "depth_enough E rank" and "\<forall>t \<in> set txs. \<exists>h. Tx_getTxHash (pr_hashes E) t = Inr h"
  shows "\<exists>ok qs s'. process_loop E w roots txs ps fs s = Some (Inr (ps @ qs, fs @ selected (map Not ok) txs), s') \<and>
    list_all2 (\<lambda>t b. plain_tx t \<longrightarrow> b) txs ok \<and> list_all2 (processed_from (pr_hashes E)) (selected ok txs) qs"
  using assms(2)
proof (induction txs arbitrary: ps fs s)
  case (Cons t txs)
  obtain h where h: "Tx_getTxHash (pr_hashes E) t = Inr h" using Cons.prems by auto
  obtain x s1 where x: "processTx E w roots t s = Some (x, s1)" using processTx_returns[OF assms(1)] by (fastforce simp: always_returns_def)
  show ?case
  proof (cases x)
    case (Inl err)
    then have "\<not> plain_tx t" using processTx_plain[OF h, of w roots s] x by auto
    moreover obtain ok qs s' where "process_loop E w roots txs ps (fs @ [t]) s1 = Some (Inr (ps @ qs, fs @ t # selected (map Not ok) txs), s')"
      "list_all2 (\<lambda>t b. plain_tx t \<longrightarrow> b) txs ok" "list_all2 (processed_from (pr_hashes E)) (selected ok txs) qs"
      using Cons.IH[of ps "fs @ [t]" s1] Cons.prems by auto
    ultimately show ?thesis using h x Inl by (intro exI[of _ "False # ok"] exI[of _ qs] exI[of _ s']) simp
  next
    case (Inr p)
    then obtain ok qs s' where "process_loop E w roots txs (ps @ [p]) fs s1 = Some (Inr (ps @ p # qs, fs @ selected (map Not ok) txs), s')"
      "list_all2 (\<lambda>t b. plain_tx t \<longrightarrow> b) txs ok" "list_all2 (processed_from (pr_hashes E)) (selected ok txs) qs"
      using Cons.IH[of "ps @ [p]" fs s1] Cons.prems by auto
    then show ?thesis using h x Inr processTx_from[OF h x[unfolded Inr]] by (intro exI[of _ "True # ok"] exI[of _ "p # qs"] exI[of _ s']) simp
  qed
qed simp

text \<open>C9. \<open>process\<close> divides the transactions: when they all have hashes and the public functions do not call each other in a circle, it returns and does not
  throw, whatever the executions and the circuits do; every transaction is either in the list of failed ones or has a processed transaction with its hash, logs
  and request, both lists are in the order of the transactions, and a private transaction without public calls is processed and keeps its data and proof.\<close>

theorem process_divides_txs:
  assumes "depth_enough E rank" and "\<forall>t \<in> set txs. \<exists>h. Tx_getTxHash (pr_hashes E) t = Inr h"
  shows "\<exists>ok processed s'. process E w roots txs s = Some (Inr (processed, selected (map Not ok) txs), s') \<and>
    list_all2 (\<lambda>t b. plain_tx t \<longrightarrow> b) txs ok \<and> list_all2 (processed_from (pr_hashes E)) (selected ok txs) processed"
  using process_loop_partition[OF assms, of w roots "[]" "[]" s] by (simp add: process_def)

section \<open>Witnesses\<close>

definition address_of :: "nat \<Rightarrow> aztec_address" where
  "address_of n = \<lparr>aa_buffer = be_bytes 32 (int n)\<rparr>"

definition sample_processor :: "(string \<times> buffer) list processor" where
  "sample_processor =
     \<lparr>pr_public = sample_public_env, pr_hashes = \<lparr>computeVarArgsHash = abis_computeVarArgsHash (\<lambda>xs. new_Fr (int (length xs))), computeTxHash = (\<lambda>_. Inr (new_Fr 4))\<rparr>,
      computeCallStackItemHash = (\<lambda>i. Inr (new_Fr (be_val (aa_buffer (pcs_contractAddress i)) + 1))),
      simulatePublicKernelCircuit = (\<lambda>i. Inr ((pkd_publicInputs (pbi_previousKernel i))\<lparr>kpi_isPrivate := False\<rparr>)),
      simulatePublicKernelCircuitNoPreviousKernel = (\<lambda>_. rbind KernelCircuitPublicInputs_empty (\<lambda>k. Inr (k\<lparr>kpi_isPrivate := False\<rparr>))),
      randomAddress = address_of, randomSiblingPath = (\<lambda>_. replicate VK_TREE_HEIGHT Fr_ZERO), depthBound = 2\<rparr>"

definition sample_nested_result :: public_execution_result where
  "sample_nested_result = PublicExecutionResult (sample_call 1) [] [] []
     [PublicExecutionResult ((sample_call 2)\<lparr>pe_contractAddress := address_of 6\<rparr>) [] [] [] [],
      PublicExecutionResult ((sample_call 2)\<lparr>pe_contractAddress := address_of 7\<rparr>) [] [] [] []]"

theorem call_stack_reconciles_witness:
  "\<exists>w preimages s1 d s2. MerkleTrees_new mem_env [] = Inr w \<and>
    getPublicCallStackPreimages sample_processor w sample_nested_result \<lparr>ps_cache = Map.empty, ps_draws = 0\<rparr> = (Inr preimages, s1) \<and>
    getPublicCallData sample_processor w sample_nested_result preimages True s1 = (Inr d, s2) \<and>
    map pcs_contractAddress (drop (length preimages - 2) preimages) = [address_of 6, address_of 7]"
proof -
  obtain w where w: "MerkleTrees_new mem_env [] = Inr w" using sample_public_world by blast
  have H: "hashes_total sample_processor" "ignores_prover sample_processor"
    by (simp_all add: hashes_total_def abis_computeVarArgsHash_total[symmetric] ignores_prover_def sample_processor_def with_prover_def)
  have R: "calls_sized sample_nested_result" "calls_addressed sample_nested_result"
    by (simp_all add: calls_sized_def calls_addressed_def call_sized_def sample_nested_result_def) code_simp+
  have n: "length (per_nestedExecutions sample_nested_result) = 2"
    "map (pe_contractAddress \<circ> per_execution) (per_nestedExecutions sample_nested_result) = [address_of 6, address_of 7]"
    by (simp_all add: sample_nested_result_def)
  obtain preimages s1 d s2 where
    "getPublicCallStackPreimages sample_processor w sample_nested_result \<lparr>ps_cache = Map.empty, ps_draws = 0\<rparr> = (Inr preimages, s1)"
    "getPublicCallData sample_processor w sample_nested_result preimages True s1 = (Inr d, s2)"
    "map pcs_contractAddress (drop (length preimages - 2) preimages) = [address_of 6, address_of 7]"
    using call_stack_reconciles[OF H R, of w "\<lparr>ps_cache = Map.empty, ps_draws = 0\<rparr>" True] unfolding n by (elim exE conjE)
  then show ?thesis using w by (intro exI conjI)
qed

definition sample_private_tx :: "kernel_public_inputs \<Rightarrow> tx" where
  "sample_private_tx d = \<lparr>tx_data = Some d, tx_proof = Some makeEmptyProof, tx_encryptedLogs = Some \<lparr>functionLogs = []\<rparr>, tx_txRequest = None,
     tx_newContractPublicFunctions = Some [], tx_enqueuedPublicFunctionCalls = Some []\<rparr>"

text \<open>Without the code of its contract a public transaction fails.\<close>

abbreviation no_code_processor :: "(string \<times> buffer) list processor" where
  "no_code_processor \<equiv> sample_processor\<lparr>pr_public := sample_public_env\<lparr>pub_getPublicFunction := (\<lambda>_ _. None)\<rparr>\<rparr>"

lemma no_code_fails: "execute 2 (sample_public_env\<lparr>pub_getPublicFunction := (\<lambda>_ _. None)\<rparr>) w roots e c = Some (Inl (bytecode_error e), c)"
  by (simp add: getBytecode_def numeral_2_eq_2)

theorem process_divides_txs_witness:
  "\<exists>d w p s'. KernelCircuitPublicInputs_empty = Inr d \<and> MerkleTrees_new mem_env [] = Inr w \<and>
    process no_code_processor w PrivateHistoricTreeRoots_empty [sample_public_tx, sample_private_tx d] \<lparr>ps_cache = Map.empty, ps_draws = 0\<rparr> =
      Some (Inr ([p], [sample_public_tx]), s') \<and> ptx_data p = d"
proof -
  obtain w where w: "MerkleTrees_new mem_env [] = Inr w" using sample_public_world by blast
  have "(case KernelCircuitPublicInputs_empty of Inr d \<Rightarrow> isArrayEmpty (cad_publicCallStack (kpi_end d)) Fr_isZero \<and>
      (case rbind (rbind (js_at (cad_newNullifiers (kpi_end d)) 0) Fr_toBuffer) new_TxHash of Inr _ \<Rightarrow> True | _ \<Rightarrow> False) | Inl _ \<Rightarrow> False)" by code_simp
  then obtain d h where d: "KernelCircuitPublicInputs_empty = Inr d" "isArrayEmpty (cad_publicCallStack (kpi_end d)) Fr_isZero"
    "rbind (rbind (js_at (cad_newNullifiers (kpi_end d)) 0) Fr_toBuffer) new_TxHash = Inr h" by (auto split: sum.splits)
  let ?E = no_code_processor and ?s = "\<lparr>ps_cache = Map.empty, ps_draws = 0\<rparr>" and ?roots = PrivateHistoricTreeRoots_empty
  have priv: "isPrivateTx (sample_private_tx d)" "\<not> has_enqueued_calls (sample_private_tx d)" "Tx_getTxHash H (sample_private_tx d) = Inr h" for H
    using d(2,3) by (simp_all add: isPrivateTx_def sample_private_tx_def has_enqueued_calls_def Tx_getTxHash_def)
  have "(case rbind (Fr_toBuffer (new_Fr 4)) new_TxHash of Inr _ \<Rightarrow> True | _ \<Rightarrow> False)" by code_simp
  moreover obtain a where "computeVarArgsHash (pr_hashes ?E) (txe_args (ste_txRequest sample_request)) = Inr a"
    by (simp add: sample_processor_def abis_computeVarArgsHash_def sample_request_def)
  moreover have "computeTxHash (pr_hashes ?E) q = Inr (new_Fr 4)" for q by (simp add: sample_processor_def)
  ultimately obtain g where g: "Tx_getTxHash (pr_hashes ?E) sample_public_tx = Inr g"
    by (auto simp: Tx_getTxHash_def sample_public_tx_def getTxHashFromRequest_def SignedTxExecutionRequest_toSignedTxRequest_def TxExecutionRequest_toTxRequest_def
        split: sum.splits)
  have "\<exists>err. processTx ?E w ?roots sample_public_tx ?s = Some (Inl err, ?s)"
  proof (cases "getPublicExecution (pr_public ?E) (ste_txRequest sample_request)")
    case (Inr e)
    have "depthBound ?E = 2" by (simp add: sample_processor_def)
    then have "run_executor ?E w ?roots e ?s = Some (Inl (bytecode_error e), ?s)" by (simp add: run_executor_def no_code_fails del: execute.simps)
    then show ?thesis using Inr g by (simp add: processTx_def sample_public_tx_def processPublicTx_def obind_def)
  qed (use g in \<open>simp add: processTx_def sample_public_tx_def processPublicTx_def obind_def\<close>)
  moreover have "\<exists>p. processTx ?E w ?roots (sample_private_tx d) ?s = Some (Inr p, ?s)"
  proof -
    have "\<exists>p. makeProcessedTx (pr_hashes ?E) (sample_private_tx d) None = Inr p"
      using priv(3) by (simp add: makeProcessedTx_def) (simp add: sample_private_tx_def)
    moreover have "tx_txRequest (sample_private_tx d) = None" by (simp add: sample_private_tx_def)
    ultimately show ?thesis using priv(1,2) by (simp add: processTx_def)
  qed
  ultimately have "\<exists>p. process ?E w ?roots [sample_public_tx, sample_private_tx d] ?s = Some (Inr ([p], [sample_public_tx]), ?s)"
    using g priv(3) by (auto simp: process_def)
  then obtain p where p: "process ?E w ?roots [sample_public_tx, sample_private_tx d] ?s = Some (Inr ([p], [sample_public_tx]), ?s)" by blast
  have "depth_enough ?E (\<lambda>_. 0)" by (simp add: depth_enough_def calls_ranked_def getBytecode_def sample_processor_def)
  moreover have "\<forall>t \<in> set [sample_public_tx, sample_private_tx d]. \<exists>h. Tx_getTxHash (pr_hashes ?E) t = Inr h" using g priv(3) by auto
  ultimately obtain ok processed s' where run: "process ?E w ?roots [sample_public_tx, sample_private_tx d] ?s =
      Some (Inr (processed, selected (map Not ok) [sample_public_tx, sample_private_tx d]), s')"
    "list_all2 (\<lambda>t b. plain_tx t \<longrightarrow> b) [sample_public_tx, sample_private_tx d] ok"
    "list_all2 (processed_from (pr_hashes ?E)) (selected ok [sample_public_tx, sample_private_tx d]) processed"
    using process_divides_txs[of ?E "\<lambda>_. 0" "[sample_public_tx, sample_private_tx d]" w ?roots ?s] by blast
  have "sample_public_tx \<noteq> sample_private_tx d" by (simp add: sample_public_tx_def sample_private_tx_def)
  moreover have "processed = [p]" "selected (map Not ok) [sample_public_tx, sample_private_tx d] = [sample_public_tx]" using run(1) p by simp_all
  moreover obtain b b' where "ok = [b, b']" using run(2) by (auto simp: list_all2_Cons1)
  ultimately have "processed_from (pr_hashes ?E) (sample_private_tx d) p" using run(3) by (cases b; cases b') simp_all
  then have "ptx_data p = d" using priv(2) by (simp add: processed_from_def) (simp add: sample_private_tx_def)
  then show ?thesis using w d(1) p by blast
qed

end
