(* ===== verification/L1Publisher.thy ===== *)
theory L1Publisher
  imports L2Block AcvmFields
begin

text \<open>
  \<^verbatim>\<open>sequencer-client/src/publisher/l1-publisher.ts\<close>: sending blocks and the code of new contracts to the L1 chain. The sender of L1 transactions, which talks to an
  Ethereum node, is a parameter: its answer to the n-th call. Every \<open>await\<close> advances the clock of the publisher, and \<open>interruptedDuring n\<close> says that
  \<open>interrupt()\<close> is called while the n-th one is pending. The loops may run for ever; their first argument bounds the number of rounds, and \<open>None\<close> says
  that the publisher is still busy after them.
\<close>

record receipt =
  rc_status :: bool
  rc_transactionHash :: string

record l1_process_args =
  l1_proof :: buffer
  l1_inputs :: buffer

record tx_sender =
  sender_processTx :: "nat \<Rightarrow> l1_process_args \<Rightarrow> string option result"
  sender_emitContractDeploymentTx :: "nat \<Rightarrow> int \<Rightarrow> buffer \<Rightarrow> contract_public_data list \<Rightarrow> string option list result"
  sender_getTransactionReceipt :: "nat \<Rightarrow> string \<Rightarrow> receipt option result"
  interruptedDuring :: "nat \<Rightarrow> bool"

record l1_publisher =
  interrupted :: bool
  l1_clock :: nat

definition new_L1Publisher :: l1_publisher where
  "new_L1Publisher = \<lparr>interrupted = False, l1_clock = 0\<rparr>"

definition interrupt :: "l1_publisher \<Rightarrow> l1_publisher" where
  "interrupt p = p\<lparr>interrupted := True\<rparr>"

definition await :: "tx_sender \<Rightarrow> (nat \<Rightarrow> 'a) \<Rightarrow> l1_publisher \<Rightarrow> 'a \<times> l1_publisher" where
  "await S answer p = (answer (l1_clock p), \<lparr>interrupted = interrupted p \<or> interruptedDuring S (l1_clock p), l1_clock = l1_clock p + 1\<rparr>)"

definition sleepOrInterrupted :: "tx_sender \<Rightarrow> l1_publisher \<Rightarrow> l1_publisher" where
  "sleepOrInterrupted S p = snd (await S (\<lambda>_. ()) p)"

definition checkFeeDistributorBalance :: bool where
  "checkFeeDistributorBalance = True"

definition checkNextL2BlockNum :: "int \<Rightarrow> bool" where
  "checkNextL2BlockNum thisBlockNum = True"

section \<open>Single transactions\<close>

definition sendProcessTx :: "tx_sender \<Rightarrow> l1_process_args \<Rightarrow> l1_publisher \<Rightarrow> string option \<times> l1_publisher" where
  "sendProcessTx S encodedData p =
     (if interrupted p then (None, p)
      else case await S (\<lambda>n. sender_processTx S n encodedData) p of (Inr h, p') \<Rightarrow> (h, p') | (Inl err, p') \<Rightarrow> (None, p'))"

fun sendEmitNewContractDataTx ::
  "nat \<Rightarrow> tx_sender \<Rightarrow> int \<Rightarrow> buffer \<Rightarrow> contract_public_data list \<Rightarrow> l1_publisher \<Rightarrow> (string option list option \<times> l1_publisher) option" where
  "sendEmitNewContractDataTx 0 S l2BlockNum l2BlockHash contracts p = None"
| "sendEmitNewContractDataTx (Suc m) S l2BlockNum l2BlockHash contracts p =
     (if interrupted p then Some (None, p)
      else
        (case await S (\<lambda>n. sender_emitContractDeploymentTx S n l2BlockNum l2BlockHash contracts) p of
           (Inr hs, p') \<Rightarrow> Some (Some hs, p')
         | (Inl err, p') \<Rightarrow> sendEmitNewContractDataTx m S l2BlockNum l2BlockHash contracts (sleepOrInterrupted S p')))"

fun getTransactionReceipt :: "nat \<Rightarrow> tx_sender \<Rightarrow> string \<Rightarrow> l1_publisher \<Rightarrow> (receipt option \<times> l1_publisher) option" where
  "getTransactionReceipt 0 S txHash p = None"
| "getTransactionReceipt (Suc m) S txHash p =
     (if interrupted p then Some (None, p)
      else
        (case await S (\<lambda>n. sender_getTransactionReceipt S n txHash) p of
           (Inr r, p') \<Rightarrow> Some (r, p')
         | (Inl err, p') \<Rightarrow> getTransactionReceipt m S txHash (sleepOrInterrupted S p')))"

fun getReceipts :: "nat \<Rightarrow> tx_sender \<Rightarrow> string list \<Rightarrow> l1_publisher \<Rightarrow> (receipt option list \<times> l1_publisher) option" where
  "getReceipts m S [] p = Some ([], p)"
| "getReceipts m S (h # hs) p =
     (case getTransactionReceipt m S h p of
        None \<Rightarrow> None
      | Some (r, p1) \<Rightarrow> map_option (\<lambda>(rs, p2). (r # rs, p2)) (getReceipts m S hs p1))"

text \<open>\<open>!!txHash\<close>: neither \<open>undefined\<close> nor the empty string.\<close>

definition truthy :: "string option \<Rightarrow> bool" where
  "truthy h \<longleftrightarrow> h \<noteq> None \<and> h \<noteq> Some []"

section \<open>Blocks\<close>

fun publish_block_loop :: "nat \<Rightarrow> tx_sender \<Rightarrow> int \<Rightarrow> l1_process_args \<Rightarrow> l1_publisher \<Rightarrow> (bool \<times> l1_publisher) option" where
  "publish_block_loop 0 S num txData p = None"
| "publish_block_loop (Suc m) S num txData p =
     (if interrupted p then Some (False, p)
      else if \<not> checkFeeDistributorBalance then publish_block_loop m S num txData (sleepOrInterrupted S p)
      else
        (case sendProcessTx S txData p of (txHash, p1) \<Rightarrow>
          if \<not> truthy txHash then Some (False, p1)
          else
            (case getTransactionReceipt m S (the txHash) p1 of
               None \<Rightarrow> None
             | Some (None, p2) \<Rightarrow> Some (False, p2)
             | Some (Some r, p2) \<Rightarrow>
                 if rc_status r then Some (True, p2)
                 else if \<not> checkNextL2BlockNum num then Some (False, p2)
                 else publish_block_loop m S num txData (sleepOrInterrupted S p2))))"

definition processL2Block :: "nat \<Rightarrow> tx_sender \<Rightarrow> l2_block \<Rightarrow> (l1_publisher, bool) ojs" where
  "processL2Block m S b p =
     (case L2Block_encode b of
        Inl err \<Rightarrow> Some (Inl err, p)
      | Inr inputs \<Rightarrow> map_option (\<lambda>(r, p'). (Inr r, p')) (publish_block_loop m S (blk_number b) \<lparr>l1_proof = [], l1_inputs = inputs\<rparr> p))"

section \<open>Contracts\<close>

definition successful_contracts :: "contract_public_data list \<Rightarrow> string option list \<Rightarrow> contract_public_data list" where
  "successful_contracts arr txHashes = map fst (filter (\<lambda>(c, i). i < length txHashes \<and> truthy (txHashes ! i)) (zip arr [0..<length arr]))"

definition all_mined :: "receipt option list \<Rightarrow> bool" where
  "all_mined receipts = list_all (\<lambda>r. case r of None \<Rightarrow> False | Some r \<Rightarrow> rc_status r) receipts"

fun publish_contracts_loop ::
  "nat \<Rightarrow> tx_sender \<Rightarrow> int \<Rightarrow> buffer \<Rightarrow> contract_public_data list \<Rightarrow> contract_public_data list \<Rightarrow> l1_publisher \<Rightarrow> (bool \<times> l1_publisher) option" where
  "publish_contracts_loop 0 S num h contracts rest p = None"
| "publish_contracts_loop (Suc m) S num h contracts rest p =
     (if interrupted p then Some (False, p)
      else if \<not> checkFeeDistributorBalance then publish_contracts_loop m S num h contracts rest (sleepOrInterrupted S p)
      else
        (let arr = (if rest \<noteq> [] then rest else contracts) in
         case sendEmitNewContractDataTx m S num h arr p of
           None \<Rightarrow> None
         | Some (None, p1) \<Rightarrow> Some (False, p1)
         | Some (Some txHashes, p1) \<Rightarrow>
             (case getReceipts m S (List.map_filter id txHashes) p1 of
                None \<Rightarrow> None
              | Some (receipts, p2) \<Rightarrow>
                  if receipts = [] then Some (False, p2)
                  else if length receipts = length contracts \<and> all_mined receipts then Some (True, p2)
                  else publish_contracts_loop m S num h contracts (successful_contracts arr txHashes) (sleepOrInterrupted S p2))))"

definition processNewContractData ::
  "nat \<Rightarrow> tx_sender \<Rightarrow> int \<Rightarrow> buffer \<Rightarrow> contract_public_data list \<Rightarrow> l1_publisher \<Rightarrow> (bool \<times> l1_publisher) option" where
  "processNewContractData m S l2BlockNum l2BlockHash contracts p = publish_contracts_loop m S l2BlockNum l2BlockHash contracts [] p"

end
