(* ===== verification/L1PublisherProperties.thy ===== *)
theory L1PublisherProperties
  imports L1Publisher L2BlockProperties
begin

text \<open>
  Properties of the publisher: what a positive answer says, that an interrupt ends it, and what happens to contracts of which one was not sent.
\<close>

section \<open>The clock\<close>

lemma await_simps [simp]:
  "fst (await S f p) = f (l1_clock p)" "l1_clock (snd (await S f p)) = l1_clock p + 1"
  "interrupted (snd (await S f p)) \<longleftrightarrow> interrupted p \<or> interruptedDuring S (l1_clock p)"
  by (simp_all add: await_def)

lemma sleep_simps [simp]:
  "l1_clock (sleepOrInterrupted S p) = l1_clock p + 1"
  "interrupted (sleepOrInterrupted S p) \<longleftrightarrow> interrupted p \<or> interruptedDuring S (l1_clock p)"
  by (simp_all add: sleepOrInterrupted_def)

lemma send_step:
  assumes "sendProcessTx S txData p = (h, p')" "\<not> interrupted p"
  shows "l1_clock p' = l1_clock p + 1" "interrupted p' \<longleftrightarrow> interruptedDuring S (l1_clock p)"
    "h = (case sender_processTx S (l1_clock p) txData of Inr h \<Rightarrow> h | Inl _ \<Rightarrow> None)"
  using assms by (auto simp: sendProcessTx_def await_def split: sum.splits)

text \<open>The publisher remembers an interrupt that came before the time of its clock.\<close>

definition told :: "tx_sender \<Rightarrow> nat \<Rightarrow> l1_publisher \<Rightarrow> bool" where
  "told S n p \<longleftrightarrow> (n < l1_clock p \<longrightarrow> interrupted p)"

lemma told_step:
  assumes "told S n p" "interruptedDuring S n" "l1_clock q = l1_clock p + 1" "interrupted q \<longleftrightarrow> interrupted p \<or> interruptedDuring S (l1_clock p)"
  shows "told S n q"
  using assms by (auto simp: told_def less_Suc_eq)

definition rounds_enough :: "nat \<Rightarrow> nat \<Rightarrow> l1_publisher \<Rightarrow> bool" where
  "rounds_enough n m p \<longleftrightarrow> 0 < m \<and> (interrupted p \<or> n + 1 < l1_clock p + m)"

lemma rounds_later: "rounds_enough n (Suc m) p \<Longrightarrow> told S n p \<Longrightarrow> \<not> interrupted p \<Longrightarrow> l1_clock p < l1_clock q \<Longrightarrow> rounds_enough n m q"
  by (auto simp: rounds_enough_def told_def)

lemma receipt_ends:
  assumes "interruptedDuring S n" "told S n p" "rounds_enough n m p"
  shows "\<exists>r q. getTransactionReceipt m S h p = Some (r, q) \<and> l1_clock p \<le> l1_clock q \<and> told S n q"
  using assms(2-)
proof (induction m arbitrary: p)
  case (Suc m)
  show ?case
  proof (cases "interrupted p")
    case False
    let ?q = "snd (await S (\<lambda>k. sender_getTransactionReceipt S k h) p)"
    have t: "told S n ?q" "told S n (sleepOrInterrupted S ?q)"
      using told_step[OF Suc.prems(1) assms(1), of ?q] told_step[OF _ assms(1), of ?q "sleepOrInterrupted S ?q"] by simp_all
    have "rounds_enough n m (sleepOrInterrupted S ?q)" using rounds_later[OF Suc.prems(2,1) False] by simp
    from Suc.IH[OF t(2) this] t(1) False show ?thesis by (auto simp: await_def split: sum.splits)
  qed (use Suc.prems in simp)
qed (simp add: rounds_enough_def)

lemma publish_ends:
  assumes "interruptedDuring S n" "told S n p" "rounds_enough n m p"
  shows "\<exists>r. publish_block_loop m S num txData p = Some r"
  using assms(2-)
proof (induction m arbitrary: p)
  case (Suc m)
  show ?case
  proof (cases "interrupted p")
    case False
    obtain h p1 where s: "sendProcessTx S txData p = (h, p1)" by fastforce
    note s' = send_step[OF s False]
    have t: "told S n p1" using told_step[OF Suc.prems(1) assms(1), of p1] s' False by simp
    have "rounds_enough n m p1" using rounds_later[OF Suc.prems(2,1) False] s' by simp
    from receipt_ends[OF assms(1) t this] obtain r q where q: "getTransactionReceipt m S (the h) p1 = Some (r, q)" "l1_clock p1 \<le> l1_clock q" "told S n q" by blast
    have "told S n (sleepOrInterrupted S q)" using told_step[OF q(3) assms(1)] by simp
    moreover have "rounds_enough n m (sleepOrInterrupted S q)" using rounds_later[OF Suc.prems(2,1) False] q(2) s' by simp
    ultimately show ?thesis using Suc.IH[of "sleepOrInterrupted S q"] False s q(1)
      by (cases r) (auto simp: checkFeeDistributorBalance_def checkNextL2BlockNum_def)
  qed auto
qed (simp add: rounds_enough_def)

section \<open>Blocks\<close>

lemma receipt_answer:
  "getTransactionReceipt m S h p = Some (Some r, q) \<Longrightarrow> \<exists>k. l1_clock p \<le> k \<and> k < l1_clock q \<and> sender_getTransactionReceipt S k h = Inr (Some r)"
proof (induction m arbitrary: p)
  case (Suc m)
  let ?p = "snd (await S (\<lambda>k. sender_getTransactionReceipt S k h) p)"
  have ni: "\<not> interrupted p" using Suc.prems by auto
  show ?case
  proof (cases "sender_getTransactionReceipt S (l1_clock p) h")
    case (Inl err)
    then have "getTransactionReceipt m S h (sleepOrInterrupted S ?p) = Some (Some r, q)" using Suc.prems ni by (simp add: await_def)
    from Suc.IH[OF this] obtain k where "l1_clock p + 2 \<le> k" "k < l1_clock q" "sender_getTransactionReceipt S k h = Inr (Some r)" by auto
    then show ?thesis by (intro exI[of _ k]) simp
  next
    case (Inr x)
    then have "x = Some r" "q = ?p" using Suc.prems ni by (simp_all add: await_def)
    then show ?thesis using Inr by (intro exI[of _ "l1_clock p"]) simp
  qed
qed simp

lemma publish_true:
  "publish_block_loop m S num txData p = Some (True, q) \<Longrightarrow>
   \<exists>n h k r. l1_clock p \<le> n \<and> n < k \<and> sender_processTx S n txData = Inr (Some h) \<and> sender_getTransactionReceipt S k h = Inr (Some r) \<and> rc_status r"
proof (induction m arbitrary: p)
  case (Suc m)
  then have ni: "\<not> interrupted p" by auto
  obtain h p1 where s: "sendProcessTx S txData p = (h, p1)" by fastforce
  note s' = send_step[OF s ni]
  have h: "truthy h" using Suc.prems ni s by (auto simp: checkFeeDistributorBalance_def split: if_splits)
  then obtain x where x: "h = Some x" "sender_processTx S (l1_clock p) txData = Inr (Some x)" using s'(3) by (auto simp: truthy_def split: sum.splits)
  obtain r q1 where r: "getTransactionReceipt m S x p1 = Some (Some r, q1)"
    using Suc.prems ni s h x by (auto simp: checkFeeDistributorBalance_def split: option.splits)
  then obtain k where k: "l1_clock p1 \<le> k" "k < l1_clock q1" "sender_getTransactionReceipt S k x = Inr (Some r)" using receipt_answer by blast
  show ?case
  proof (cases "rc_status r")
    case True
    then show ?thesis using k x(2) s'(1) by (intro exI[of _ "l1_clock p"] exI[of _ x] exI[of _ k] exI[of _ r]) simp
  next
    case False
    then have "publish_block_loop m S num txData (sleepOrInterrupted S q1) = Some (True, q)"
      using Suc.prems ni s h x r by (auto simp: checkFeeDistributorBalance_def checkNextL2BlockNum_def)
    from Suc.IH[OF this] obtain n h k r where "l1_clock q1 + 1 \<le> n" "n < k" "sender_processTx S n txData = Inr (Some h)" "sender_getTransactionReceipt S k h = Inr (Some r)" "rc_status r"
      by auto
    then show ?thesis using k s'(1) by (intro exI[of _ n] exI[of _ h] exI[of _ k] exI[of _ r]) simp
  qed
qed simp

text \<open>C13. The publisher tells the truth and can be stopped. When it answers that a block is published, a transaction with the encoded block was sent to the L1 chain
  and later a receipt of that transaction said that it succeeded; a publisher that has been interrupted sends nothing and answers no; and an interrupt that comes at
  any time makes it return, after finitely many rounds.\<close>

theorem publisher_reports_receipt:
  assumes "L2Block_encode b = Inr inputs"
  shows "(\<forall>m p q. processL2Block m S b p = Some (Inr True, q) \<longrightarrow>
      (\<exists>n h k r. l1_clock p \<le> n \<and> n < k \<and> sender_processTx S n \<lparr>l1_proof = [], l1_inputs = inputs\<rparr> = Inr (Some h) \<and>
        sender_getTransactionReceipt S k h = Inr (Some r) \<and> rc_status r)) \<and>
    (\<forall>m p. interrupted p \<longrightarrow> processL2Block (Suc m) S b p = Some (Inr False, p)) \<and>
    (\<forall>n (p :: l1_publisher). l1_clock p \<le> n \<and> interruptedDuring S n \<longrightarrow> (\<exists>m published q. processL2Block m S b p = Some (Inr published, q)))"
proof (intro conjI allI impI)
  fix m p q
  assume "processL2Block m S b p = Some (Inr True, q)"
  then show "\<exists>n h k r. l1_clock p \<le> n \<and> n < k \<and> sender_processTx S n \<lparr>l1_proof = [], l1_inputs = inputs\<rparr> = Inr (Some h) \<and>
        sender_getTransactionReceipt S k h = Inr (Some r) \<and> rc_status r"
    using assms publish_true by (auto simp: processL2Block_def)
next
  fix n and p :: l1_publisher
  assume n: "l1_clock p \<le> n \<and> interruptedDuring S n"
  then have "told S n p" "rounds_enough n (n + 3) p" by (auto simp: told_def rounds_enough_def)
  then show "\<exists>m published q. processL2Block m S b p = Some (Inr published, q)"
    using publish_ends[of S n p "n + 3"] n assms by (fastforce simp: processL2Block_def)
qed (use assms in \<open>simp add: processL2Block_def\<close>)

section \<open>Contracts\<close>

text \<open>The sender answers with one hash or \<open>undefined\<close> for every contract.\<close>

definition answers_each :: "tx_sender \<Rightarrow> bool" where
  "answers_each S \<longleftrightarrow> (\<forall>n num h cs hs. sender_emitContractDeploymentTx S n num h cs = Inr hs \<longrightarrow> length hs = length cs \<and> Some [] \<notin> set hs)"

lemma emit_answer:
  assumes "answers_each S" "sendEmitNewContractDataTx m S num h cs p = Some (Some hs, q)"
  shows "length hs = length cs \<and> Some [] \<notin> set hs"
  using assms(2)
proof (induction m arbitrary: p)
  case (Suc m)
  then show ?case using assms(1) by (fastforce simp: await_def answers_each_def split: if_splits sum.splits)
qed simp

lemma receipts_length: "getReceipts m S hs p = Some (rs, q) \<Longrightarrow> length rs = length hs"
  by (induction hs arbitrary: p rs) (auto split: option.splits)

lemma filter_index:
  "map fst (filter (\<lambda>(x, i). Q (ys ! i)) (zip xs [0..<length xs])) = map fst (filter (\<lambda>(x, y). Q y) (zip xs ys))" if "length ys = length xs" for xs ys
  using that
proof (induction xs arbitrary: ys rule: rev_induct)
  case (snoc x xs)
  then obtain ys' y where ys: "ys = ys' @ [y]" "length ys' = length xs" by (cases ys rule: rev_cases) auto
  have "filter (\<lambda>(x, i). Q ((ys' @ [y]) ! i)) (zip xs [0..<length xs]) = filter (\<lambda>(x, i). Q (ys' ! i)) (zip xs [0..<length xs])"
    by (rule filter_cong) (auto simp: nth_append ys(2) set_zip)
  then show ?case using snoc.IH[OF ys(2)] ys by (simp add: nth_append)
qed simp

lemma successful_as_zip:
  assumes "length hs = length cs"
  shows "successful_contracts cs hs = map fst (filter (\<lambda>(c, h). truthy h) (zip cs hs))"
proof -
  have "filter (\<lambda>(c, i). i < length hs \<and> truthy (hs ! i)) (zip cs [0..<length cs]) = filter (\<lambda>(c, i). truthy (hs ! i)) (zip cs [0..<length cs])"
    by (rule filter_cong) (auto simp: set_zip assms)
  then show ?thesis using filter_index[OF assms, of truthy] by (simp add: successful_contracts_def)
qed

lemma successful_length:
  assumes "length hs = length cs" "Some [] \<notin> set hs"
  shows "length (successful_contracts cs hs) = length (List.map_filter id hs)"
proof -
  have "length (filter (\<lambda>(c, h). truthy h) (zip cs hs)) = length (List.map_filter id hs)"
    using assms by (induction cs hs rule: list_induct2') (auto simp: truthy_def List.map_filter_simps split: option.splits)
  then show ?thesis by (simp add: successful_as_zip[OF assms(1)])
qed

lemma map_filter_le: "length (List.map_filter id hs) \<le> length hs" and map_filter_less: "None \<in> set hs \<Longrightarrow> length (List.map_filter id hs) < length hs"
  by (induction hs) (auto simp: List.map_filter_simps split: option.splits)

lemma partial_never_true:
  assumes S: "answers_each S"
  shows "publish_contracts_loop m S num h contracts rest p = Some (b, q) \<Longrightarrow> rest \<noteq> [] \<Longrightarrow> length rest < length contracts \<Longrightarrow> \<not> b"
proof (induction m arbitrary: rest p)
  case (Suc m)
  show ?case
  proof (cases "\<exists>hs p1 rs p2. sendEmitNewContractDataTx m S num h rest p = Some (Some hs, p1) \<and> getReceipts m S (List.map_filter id hs) p1 = Some (rs, p2) \<and> rs \<noteq> []")
    case True
    then obtain hs p1 rs p2 where s: "sendEmitNewContractDataTx m S num h rest p = Some (Some hs, p1)" "getReceipts m S (List.map_filter id hs) p1 = Some (rs, p2)" "rs \<noteq> []"
      by blast
    note l = emit_answer[OF S s(1)] receipts_length[OF s(2)]
    have "length rs < length contracts" using l map_filter_le[of hs] Suc.prems(3) by simp
    moreover have "successful_contracts rest hs \<noteq> []" "length (successful_contracts rest hs) < length contracts"
      using successful_length[of hs rest] l s(3) calculation by auto
    ultimately show ?thesis using Suc s by (auto simp: checkFeeDistributorBalance_def split: if_splits)
  next
    case False
    then show ?thesis using Suc.prems by (auto simp: checkFeeDistributorBalance_def Let_def split: if_splits option.splits)
  qed
qed simp

text \<open>C39. Contracts of which one could not be sent are never reported as published: when the first attempt sends some of the contracts of a block but not all of them, the
  publisher keeps those that were sent for its next attempts, sends them again and drops the others, so that the number of receipts never reaches the number of
  contracts and the answer is never yes.\<close>

theorem unsent_contract_is_dropped:
  assumes "answers_each S" "\<not> interrupted p"
    and "sender_emitContractDeploymentTx S (l1_clock p) num h contracts = Inr hs" "None \<in> set hs"
  shows "processNewContractData m S num h contracts p \<noteq> Some (True, q)"
proof
  assume a: "processNewContractData m S num h contracts p = Some (True, q)"
  then obtain m' where m: "m = Suc m'" by (cases m) (auto simp: processNewContractData_def)
  have l: "length hs = length contracts" "Some [] \<notin> set hs" using assms(1,3) by (auto simp: answers_each_def)
  let ?p1 = "snd (await S (\<lambda>n. sender_emitContractDeploymentTx S n num h contracts) p)"
  obtain m'' where m'': "m' = Suc m''" using a m assms(2) by (cases m') (auto simp: processNewContractData_def checkFeeDistributorBalance_def)
  have s: "sendEmitNewContractDataTx m' S num h contracts p = Some (Some hs, ?p1)" using assms(2,3) m'' by (simp add: await_def)
  obtain rs p2 where r: "getReceipts m' S (List.map_filter id hs) ?p1 = Some (rs, p2)" "rs \<noteq> []"
    using a m assms(2) s by (auto simp: processNewContractData_def checkFeeDistributorBalance_def split: option.splits if_splits)
  have n: "length rs < length contracts" "length (successful_contracts contracts hs) = length rs"
    using receipts_length[OF r(1)] map_filter_less[OF assms(4)] l successful_length[OF l] by simp_all
  then have "publish_contracts_loop m' S num h contracts (successful_contracts contracts hs) (sleepOrInterrupted S p2) = Some (True, q)"
    using a m assms(2) s r by (auto simp: processNewContractData_def checkFeeDistributorBalance_def split: if_splits)
  then show False using partial_never_true[OF assms(1)] n r(2) by (metis length_0_conv)
qed

section \<open>Witnesses\<close>

text \<open>A chain on which the first receipt reports a failure and the third contract of a block is not sent.\<close>

definition sample_sender :: tx_sender where
  "sample_sender = \<lparr>sender_processTx = (\<lambda>n a. Inr (Some ''0x1'')),
     sender_emitContractDeploymentTx = (\<lambda>n num h cs. Inr (map (\<lambda>i. if i = 2 then None else Some ''0x2'') [0..<length cs])),
     sender_getTransactionReceipt = (\<lambda>n h. Inr (Some \<lparr>rc_status = 2 < n, rc_transactionHash = h\<rparr>)), interruptedDuring = (\<lambda>n. n = 9)\<rparr>"

theorem publisher_reports_receipt_witness:
  "\<exists>inputs q. L2Block_encode sample_block = Inr inputs \<and> processL2Block 5 sample_sender sample_block new_L1Publisher = Some (Inr True, q) \<and>
    (\<exists>n h k r. n < k \<and> sender_processTx sample_sender n \<lparr>l1_proof = [], l1_inputs = inputs\<rparr> = Inr (Some h) \<and>
      sender_getTransactionReceipt sample_sender k h = Inr (Some r) \<and> rc_status r)"
proof -
  obtain inputs where i: "L2Block_encode sample_block = Inr inputs" using L2Block_encode_decode[OF sample_block_ok] by (elim exE conjE)
  have "publish_block_loop 5 sample_sender (blk_number sample_block) \<lparr>l1_proof = [], l1_inputs = inputs\<rparr> new_L1Publisher = Some (True, \<lparr>interrupted = False, l1_clock = 5\<rparr>)"
    by (simp add: numeral_eq_Suc sendProcessTx_def await_def truthy_def sleepOrInterrupted_def checkFeeDistributorBalance_def checkNextL2BlockNum_def
        new_L1Publisher_def sample_sender_def)
  then have "processL2Block 5 sample_sender sample_block new_L1Publisher = Some (Inr True, \<lparr>interrupted = False, l1_clock = 5\<rparr>)" using i by (simp add: processL2Block_def)
  then show ?thesis using i publisher_reports_receipt[OF i, of sample_sender] by blast
qed

theorem unsent_contract_is_dropped_witness:
  "\<forall>c m q. processNewContractData m sample_sender 1 [] [c, c, c] new_L1Publisher \<noteq> Some (True, q)"
proof (intro allI)
  fix c m q
  have "answers_each sample_sender" by (auto simp: answers_each_def sample_sender_def)
  then show "processNewContractData m sample_sender 1 [] [c, c, c] new_L1Publisher \<noteq> Some (True, q)"
    by (rule unsent_contract_is_dropped[where hs = "[Some ''0x2'', Some ''0x2'', None]"]) (simp_all add: sample_sender_def new_L1Publisher_def)
qed

end
