(* ===== verification/Sequencer.thy ===== *)
theory Sequencer
  imports PublicProcessor L1Publisher WorldStateSync P2PClient Archiver "HOL-Library.Log_Nat"
begin

text \<open>
  \<^verbatim>\<open>sequencer-client/src/sequencer/sequencer.ts\<close>: the loop that takes transactions from the pool, runs their public calls, builds a block and publishes it. The
  state has the fields of \<open>Sequencer\<close> with the objects it works on, which are those of the other theories: the synchroniser of the world state, the client of
  the network, the archiver (the source of blocks and of messages) and the publisher. One call of \<open>work\<close> is one step of the model; the other
  components move between the calls. \<open>None\<close> says that a public execution or the publisher has not come to an end within its bound.
\<close>

section \<open>State\<close>

datatype SequencerState = SEQ_IDLE | SEQ_WAITING_FOR_TXS | SEQ_CREATING_BLOCK | SEQ_PUBLISHING_CONTRACT_DATA | SEQ_PUBLISHING_BLOCK | SEQ_STOPPED

record 'db sequencer =
  sq_state :: SequencerState
  sq_polling :: "bool option"
  maxTxsPerBlock :: nat
  minTxsPerBLock :: nat
  lastPublishedBlock :: int
  sq_publisher :: l1_publisher
  sq_p2pClient :: p2p_client
  sq_worldState :: "'db synchroniser"
  sq_archiver :: archiver
  sq_draws :: nat

text \<open>\<open>sq_polling\<close> is \<open>runningPromise\<close>: not yet made, or made and running or not.\<close>

record 'db sequencer_env =
  sq_blockBuilder :: "'db block_builder"
  sq_processor :: "'db processor"
  sq_p2pEnv :: client_env
  sq_sender :: tx_sender
  sq_rounds :: nat

record sequencer_config =
  cfg_maxTxsPerBlock :: "nat option"
  cfg_minTxsPerBlock :: "nat option"

definition config_number :: "nat option \<Rightarrow> nat \<Rightarrow> nat" where
  "config_number c d = (case c of None \<Rightarrow> d | Some n \<Rightarrow> if n = 0 then d else n)"

definition new_Sequencer :: "l1_publisher \<Rightarrow> p2p_client \<Rightarrow> 'db synchroniser \<Rightarrow> archiver \<Rightarrow> sequencer_config option \<Rightarrow> 'db sequencer" where
  "new_Sequencer publisher p2p world ar config =
     \<lparr>sq_state = SEQ_STOPPED, sq_polling = None,
      maxTxsPerBlock = config_number (Option.bind config cfg_maxTxsPerBlock) 32,
      minTxsPerBLock = config_number (Option.bind config cfg_minTxsPerBlock) 1,
      lastPublishedBlock = 0, sq_publisher = publisher, sq_p2pClient = p2p, sq_worldState = world, sq_archiver = ar, sq_draws = 0\<rparr>"

definition initialSync :: "'db sequencer \<Rightarrow> 'db sequencer" where
  "initialSync s = s\<lparr>lastPublishedBlock := syncedToL2Block (Synchroniser_status (sq_worldState s))\<rparr>"

definition sequencer_start :: "'db sequencer \<Rightarrow> 'db sequencer" where
  "sequencer_start s = (initialSync s)\<lparr>sq_polling := Some True, sq_state := SEQ_IDLE\<rparr>"

definition sequencer_stop :: "'db sequencer \<Rightarrow> 'db sequencer" where
  "sequencer_stop s = s\<lparr>sq_polling := map_option (\<lambda>_. False) (sq_polling s), sq_publisher := interrupt (sq_publisher s), sq_state := SEQ_STOPPED\<rparr>"

definition sequencer_restart :: "('db sequencer, unit) js" where
  "sequencer_restart s =
     (case sq_polling s of None \<Rightarrow> (Inl TypeError, s) | Some _ \<Rightarrow> (Inr (), s\<lparr>sq_polling := Some True, sq_state := SEQ_IDLE\<rparr>))"

section \<open>Parts of the state\<close>

definition trees_of :: "'db sequencer \<Rightarrow> 'db merkle_trees" where
  "trees_of s = merkleTreeDb (sq_worldState s)"

definition on_trees :: "('db merkle_trees, 'a) js \<Rightarrow> ('db sequencer, 'a) js" where
  "on_trees m s = (case m (trees_of s) of (r, w) \<Rightarrow> (r, s\<lparr>sq_worldState := (sq_worldState s)\<lparr>merkleTreeDb := w\<rparr>\<rparr>))"

definition on_p2p :: "(p2p_client, 'a) js \<Rightarrow> ('db sequencer, 'a) js" where
  "on_p2p m s = (case m (sq_p2pClient s) of (r, c) \<Rightarrow> (r, s\<lparr>sq_p2pClient := c\<rparr>))"

definition set_state :: "SequencerState \<Rightarrow> ('db sequencer, unit) js" where
  "set_state st = jmodify (\<lambda>s. s\<lparr>sq_state := st\<rparr>)"

section \<open>Choosing transactions\<close>

definition isBlockSynced :: "'db sequencer \<Rightarrow> bool" where
  "isBlockSynced s \<longleftrightarrow>
     min (syncedToL2Block (Synchroniser_status (sq_worldState s))) (p2p_syncedToL2Block (client_getStatus (sq_p2pClient s))) \<ge> lastPublishedBlock s"

fun nullifiers_spent :: "'db tree_env \<Rightarrow> fr list \<Rightarrow> 'db merkle_trees \<Rightarrow> bool result" where
  "nullifiers_spent env [] w = Inr False"
| "nullifiers_spent env (n # ns) w =
     (if Fr_isZero n then nullifiers_spent env ns w
      else rbind (Fr_toBuffer n) (\<lambda>b. rbind (Facade_findLeafIndex env getLatest NULLIFIER_TREE b w) (\<lambda>found.
        if found \<noteq> None then Inr True else nullifiers_spent env ns w)))"

definition isTxDoubleSpend :: "'db tree_env \<Rightarrow> tx \<Rightarrow> 'db merkle_trees \<Rightarrow> bool result" where
  "isTxDoubleSpend env t w = (case tx_data t of None \<Rightarrow> Inl TypeError | Some d \<Rightarrow> nullifiers_spent env (cad_newNullifiers (kpi_end d)) w)"

definition isValidSignature :: "tx \<Rightarrow> bool" where
  "isValidSignature t = True"

text \<open>The loop of \<open>takeValidTxs\<close>, with the lists that it fills.\<close>

fun take_valid_loop ::
  "circuit_hashes \<Rightarrow> 'db tree_env \<Rightarrow> nat \<Rightarrow> 'db merkle_trees \<Rightarrow> tx list \<Rightarrow> tx list \<Rightarrow> tx list \<Rightarrow> tx list \<Rightarrow> (tx list \<times> tx list \<times> tx list) result" where
  "take_valid_loop H env m w [] validTxs doubleSpendTxs invalidSigTxs = Inr (validTxs, doubleSpendTxs, invalidSigTxs)"
| "take_valid_loop H env m w (t # txs) validTxs doubleSpendTxs invalidSigTxs =
     rbind (if isPrivateTx t then isTxDoubleSpend env t w else Inr False) (\<lambda>spent.
       if spent then rbind (Tx_getTxHash H t) (\<lambda>_. take_valid_loop H env m w txs validTxs (doubleSpendTxs @ [t]) invalidSigTxs)
       else if isPublicTx t \<and> \<not> isValidSignature t
       then rbind (Tx_getTxHash H t) (\<lambda>_. take_valid_loop H env m w txs validTxs doubleSpendTxs (invalidSigTxs @ [t]))
       else if length (validTxs @ [t]) \<ge> m then Inr (validTxs @ [t], doubleSpendTxs, invalidSigTxs)
       else take_valid_loop H env m w txs (validTxs @ [t]) doubleSpendTxs invalidSigTxs)"

definition deleteTxs :: "circuit_hashes \<Rightarrow> tx list \<Rightarrow> ('db sequencer, unit) js" where
  "deleteTxs H txs = jbind (jlift (Tx_getHashes H txs)) (\<lambda>hs. on_p2p (client_deleteTxs hs))"

definition takeValidTxs :: "'db sequencer_env \<Rightarrow> tx list \<Rightarrow> ('db sequencer, tx list) js" where
  "takeValidTxs E txs =
     jbind jget (\<lambda>s.
     jbind (jlift (take_valid_loop (pr_hashes (sq_processor E)) (bb_trees (sq_blockBuilder E)) (maxTxsPerBlock s) (trees_of s) txs [] [] []))
       (\<lambda>(validTxs, doubleSpendTxs, invalidSigTxs).
     jbind (if doubleSpendTxs \<noteq> [] \<or> invalidSigTxs \<noteq> []
            then deleteTxs (pr_hashes (sq_processor E)) (doubleSpendTxs @ invalidSigTxs) else jreturn ()) (\<lambda>_.
       jreturn validTxs)))"

section \<open>Building and publishing\<close>

definition ceilPowerOfTwo :: "nat \<Rightarrow> nat" where
  "ceilPowerOfTwo num = (if num = 0 then 0 else 2 ^ ceillog2 num)"

definition pad_txs :: "processed_tx list \<Rightarrow> processed_tx \<Rightarrow> processed_tx list" where
  "pad_txs txs emptyTx =
     (let txsTargetSize = max (ceilPowerOfTwo (length txs)) 4; emptyTxCount = txsTargetSize - length txs in txs @ replicate emptyTxCount emptyTx)"

definition sequencer_buildBlock :: "'db sequencer_env \<Rightarrow> processed_tx list \<Rightarrow> fr list \<Rightarrow> processed_tx \<Rightarrow> ('db sequencer, l2_block) js" where
  "sequencer_buildBlock E txs newMessages emptyTx =
     jbind jget (\<lambda>s.
     jbind (on_trees (buildL2Block (sq_blockBuilder E) (Archiver_getBlockHeight (sq_archiver s) + 1) (pad_txs txs emptyTx) newMessages)) (\<lambda>(block, _).
       jreturn block))"

text \<open>A missing key of a message (\<open>undefined\<close>) makes the builder throw.\<close>

definition getPendingL1ToL2Messages :: "'db sequencer \<Rightarrow> fr list result" where
  "getPendingL1ToL2Messages s =
     rbind (Archiver_getPendingL1ToL2Messages NUMBER_OF_L1_L2_MESSAGES_PER_ROLLUP (sq_archiver s))
       (rtraverse (\<lambda>m. case m of None \<Rightarrow> Inl TypeError | Some key \<Rightarrow> Inr key))"

definition new_contract_of :: "tx \<Rightarrow> contract_public_data option result" where
  "new_contract_of t =
     (case (tx_data t, tx_newContractPublicFunctions t) of
        (Some d, Some fns) \<Rightarrow>
          (case cad_newContracts (kpi_end d) of
             [] \<Rightarrow> Inr None
           | n # _ \<Rightarrow>
               if fns = [] then Inr None
               else rbind (rtraverse (\<lambda>f. case f of None \<Rightarrow> Inl TypeError | Some f \<Rightarrow> Inr f) fns) (\<lambda>fs.
                 rbind (new_ContractPublicData \<lparr>contractAddress = ncd_contractAddress n, portalContractAddress = ncd_portalContractAddress n\<rparr> fs) (\<lambda>c.
                   Inr (Some c))))
      | _ \<Rightarrow> Inr None)"

definition contracts_to_publish :: "tx list \<Rightarrow> contract_public_data list result" where
  "contracts_to_publish validTxs = rbind (rtraverse new_contract_of (filter isPrivateTx validTxs)) (\<lambda>cs. Inr (List.map_filter id cs))"

definition on_publisher :: "(l1_publisher, 'a) ojs \<Rightarrow> ('db sequencer, 'a) ojs" where
  "on_publisher m s = map_option (\<lambda>(r, p). (r, s\<lparr>sq_publisher := p\<rparr>)) (m (sq_publisher s))"

definition publishContractPublicData :: "'db sequencer_env \<Rightarrow> tx list \<Rightarrow> l2_block \<Rightarrow> ('db sequencer, unit) ojs" where
  "publishContractPublicData E validTxs block =
     obind (olift (set_state SEQ_PUBLISHING_CONTRACT_DATA)) (\<lambda>_.
     obind (olift (jlift (contracts_to_publish validTxs))) (\<lambda>newContractData.
     obind (olift (jlift (rbind (L2Block_getCalldataHash (bb_sha256 (sq_blockBuilder E)) block)
       (\<lambda>h. case h of None \<Rightarrow> Inl TypeError | Some b \<Rightarrow> Inr b)))) (\<lambda>blockHash.
     obind (on_publisher (\<lambda>p. map_option (\<lambda>(r, p'). (Inr r, p'))
       (processNewContractData (sq_rounds E) (sq_sender E) (blk_number block) blockHash newContractData p))) (\<lambda>_. oreturn ()))))"

definition publishL2Block :: "'db sequencer_env \<Rightarrow> l2_block \<Rightarrow> ('db sequencer, unit) ojs" where
  "publishL2Block E block =
     obind (olift (set_state SEQ_PUBLISHING_BLOCK)) (\<lambda>_.
     obind (on_publisher (processL2Block (sq_rounds E) (sq_sender E) block)) (\<lambda>publishedL2Block.
       olift (if publishedL2Block then jmodify (\<lambda>s. s\<lparr>lastPublishedBlock := blk_number block\<rparr>) else jthrow (Error ''Failed to publish block''))))"

section \<open>One round\<close>

definition run_processor :: "'db sequencer_env \<Rightarrow> tx list \<Rightarrow> ('db sequencer, processed_tx list \<times> tx list) ojs" where
  "run_processor E txs s =
     (case create_processor (trees_of s) (sq_draws s) of
        Inl err \<Rightarrow> Some (Inl err, s)
      | Inr (roots, ps) \<Rightarrow> map_option (\<lambda>(r, ps'). (r, s\<lparr>sq_draws := ps_draws ps'\<rparr>)) (process (sq_processor E) (trees_of s) roots txs ps))"

text \<open>From the valid transactions to the published block.\<close>

definition make_block :: "'db sequencer_env \<Rightarrow> tx list \<Rightarrow> ('db sequencer, unit) ojs" where
  "make_block E validTxs =
     obind (olift (set_state SEQ_CREATING_BLOCK)) (\<lambda>_.
     obind (run_processor E validTxs) (\<lambda>(processedTxs, failedTxs).
     obind (olift (if failedTxs \<noteq> [] then deleteTxs (pr_hashes (sq_processor E)) failedTxs else jreturn ())) (\<lambda>_.
     if processedTxs = [] then oreturn ()
     else
       obind (olift (jgets getPendingL1ToL2Messages)) (\<lambda>l1ToL2Messages.
       obind (olift (jgets (\<lambda>s. processor_makeEmptyProcessedTx (sq_processor E) (trees_of s)))) (\<lambda>emptyTx.
       obind (olift (sequencer_buildBlock E processedTxs l1ToL2Messages emptyTx)) (\<lambda>block.
       obind (publishContractPublicData E validTxs block) (\<lambda>_. publishL2Block E block)))))))"

definition work_body :: "'db sequencer_env \<Rightarrow> ('db sequencer, unit) ojs" where
  "work_body E s =
     (if \<not> isBlockSynced s then Some (Inr (), s)
      else
        obind (olift (jmodify (\<lambda>s. if sq_state s = SEQ_PUBLISHING_BLOCK then s\<lparr>sq_state := SEQ_IDLE\<rparr> else s))) (\<lambda>_.
        obind (olift (set_state SEQ_WAITING_FOR_TXS)) (\<lambda>_.
        obind (olift (jgets (\<lambda>s. client_getTxs (sq_p2pEnv E) (sq_p2pClient s)))) (\<lambda>pendingTxs.
        if length pendingTxs < minTxsPerBLock s then oreturn ()
        else
          obind (olift (takeValidTxs E pendingTxs)) (\<lambda>validTxs.
          if length validTxs < minTxsPerBLock s then oreturn () else make_block E validTxs)))) s)"

definition work :: "'db sequencer_env \<Rightarrow> ('db sequencer, unit) ojs" where
  "work E s =
     (case work_body E s of
        None \<Rightarrow> None
      | Some (Inr _, s') \<Rightarrow> Some (Inr (), s')
      | Some (Inl err, s') \<Rightarrow> Some (on_trees (Facade_rollback getLatest) s'))"

end
