(* ===== verification/PendingChanges.thy ===== *)
theory PendingChanges
  imports Sequencer BlockBuilderEffects
begin

text \<open>
  Whatever the block builder does to the trees, and wherever it stops, a rollback undoes: every method of a tree but \<open>commit\<close> leaves the part of the tree alone
  that a rollback keeps.
\<close>

section \<open>One tree\<close>

interpretation rolled: tree_frame "\<lambda>t. clearCache t = c" for c
  by unfold_locales (auto simp: clearCache_def cache_put_def)

text \<open>The records of an indexed tree are written by \<open>commit\<close> only.\<close>

lemma leaves_hash: "preserves (\<lambda>t. leaves t = l) (it_updateLeaf_hash env h i)"
  by (auto simp: preserves_def it_updateLeaf_hash_def it_set_cachedSize_def Let_def)

lemma leaves_update: "preserves (\<lambda>t. leaves t = l) (it_updateLeaf env ld i)"
  unfolding it_updateLeaf_def by (intro preserves_jbind preserves_jmodify leaves_hash) simp_all

lemma leaves_appendLeaf: "preserves (\<lambda>t. leaves t = l) (appendLeaf env leaf)"
proof -
  have "preserves (\<lambda>t. leaves t = l) (jbind (jlift x) (\<lambda>h. jbind (it_updateLeaf_hash env h i)
      (\<lambda>_. jbind (jlift y) (\<lambda>h'. jbind jget (\<lambda>t. it_updateLeaf_hash env h' (it_getNumLeaves t True))))))" for x y i
    by (intro preserves_jbind leaves_hash) simp_all
  from preservesD[OF this] show ?thesis
    by (auto simp: preserves_def appendLeaf_def Let_def it_set_cachedSize_def cachedLeaves_put_def split: prod.splits option.splits)
qed

lemma leaves_append: "preserves (\<lambda>t. leaves t = l) (it_appendLeaves env ls)"
  unfolding it_appendLeaves_def by (intro preserves_jfor leaves_appendLeaf)

lemma leaves_batch_step: "preserves (\<lambda>t. leaves t = l) (batch_step env w start i leaf acc)"
proof -
  have "preserves (\<lambda>t. leaves t = l) (jbind (jlift x) (\<lambda>path. jbind (it_updateLeaf env (f path) j) (\<lambda>_. jreturn (g path))))"
    for x :: "sibling_path result" and f j and g :: "sibling_path \<Rightarrow> batch_acc option"
    by (intro preserves_jbind leaves_update) simp_all
  from preservesD[OF this] show ?thesis
    by (auto simp: preserves_def batch_step_def Let_def it_set_cachedSize_def split: prod.splits option.splits)
qed

lemma leaves_batch_loop: "preserves (\<lambda>t. leaves t = l) (batch_loop env w start i ls acc)"
proof (induction ls arbitrary: i acc)
  case (Cons x xs)
  show ?case unfolding batch_loop.simps
    by (intro preserves_jbind leaves_batch_step) (simp split: option.split add: Cons.IH)
qed simp

lemma leaves_batchInsert: "preserves (\<lambda>t. leaves t = l) (batchInsert env ls h sh)"
proof -
  have "preserves (\<lambda>t. leaves t = l) (insert_loop env i ps)" for i ps
    by (induction ps arbitrary: i) (simp_all add: preserves_jbind leaves_update)
  then show ?thesis unfolding batchInsert_def Let_def
    by (intro preserves_jbind leaves_batch_loop preserves_simps) (auto split: option.split intro!: preserves_jbind)
qed

text \<open>What a rollback keeps of a tree, and the methods that leave it alone.\<close>

definition kept :: "'db ws_tree \<Rightarrow> 'db ws_tree" where
  "kept t = snd (ws_rollback t)"

definition pending_only :: "('db ws_tree, 'a) js \<Rightarrow> bool" where
  "pending_only m \<longleftrightarrow> (\<forall>t. kept (snd (m t)) = kept t)"

lemma kept_simps [simp]:
  "kept (Standard t) = Standard (clearCache t)" "kept (Sparse t) = Sparse (clearCache t)"
  "kept (Indexed it) = Indexed (it\<lparr>it_base := clearCache (it_base it), cachedLeaves := []\<rparr>)"
  by (simp_all add: kept_def TreeBase_rollback_def it_rollback_def clearCachedLeaves_def)

lemma indexed_kept:
  assumes "\<And>c. preserves (\<lambda>t. clearCache (it_base t) = c) k" "\<And>l. preserves (\<lambda>t. leaves t = l) k"
  shows "kept (snd (lift_indexed k it)) = kept (Indexed it)"
proof -
  have "clearCache (it_base (snd (k it))) = clearCache (it_base it)" "leaves (snd (k it)) = leaves it"
    using assms(1)[of "clearCache (it_base it)"] assms(2)[of "leaves it"] by (simp_all add: preserves_def)
  then show ?thesis by (cases "k it") (simp add: lift_indexed_def)
qed

lemma base_kept:
  assumes "\<And>c. preserves (\<lambda>t. clearCache t = c) m"
  shows "kept (snd (lift_standard m t)) = kept (Standard t)" "kept (snd (lift_sparse m t)) = kept (Sparse t)"
proof -
  have "clearCache (snd (m t)) = clearCache t" using assms[of "clearCache t"] by (simp add: preserves_def)
  then show "kept (snd (lift_standard m t)) = kept (Standard t)" "kept (snd (lift_sparse m t)) = kept (Sparse t)"
    by (cases "m t"; simp add: lift_standard_def lift_sparse_def)+
qed

lemma pending_append: "pending_only (ws_appendLeaves env ls)"
  unfolding pending_only_def
proof
  show "kept (snd (ws_appendLeaves env ls t)) = kept t" for t
    by (cases t) (simp_all only: ws_appendLeaves.simps base_kept[OF rolled.preserves_standard] indexed_kept[OF rolled.preserves_it_append leaves_append] snd_conv)
qed

lemma pending_update: "pending_only (ws_updateLeaf env leaf i)"
  unfolding pending_only_def
proof
  show "kept (snd (ws_updateLeaf env leaf i t)) = kept t" for t
    by (cases t; cases leaf)
      (simp_all only: ws_updateLeaf.simps base_kept[OF rolled.preserves_sparse] indexed_kept[OF rolled.preserves_it_update leaves_update] snd_conv if_distrib[of snd] if_distrib[of kept] if_cancel)
qed

section \<open>All trees\<close>

definition world_kept :: "'db merkle_trees \<Rightarrow> 'db \<times> (MerkleTreeId \<Rightarrow> 'db ws_tree)" where
  "world_kept w = (wdb w, \<lambda>i. kept (the_tree w i))"

definition pending_world :: "('db merkle_trees, 'a) js \<Rightarrow> bool" where
  "pending_world m \<longleftrightarrow> (\<forall>w. length (trees w) = 8 \<longrightarrow> length (trees (snd (m w))) = 8 \<and> world_kept (snd (m w)) = world_kept w)"

lemma kept_db: "tdb (ws_base (kept t)) = tdb (ws_base t)" "kept (ws_set_db db t) = ws_set_db db (kept t)"
  by (cases t; simp add: clearCache_def it_set_db_def)+

lemma pending_on_tree:
  assumes "pending_only m"
  shows "pending_world (on_tree i m)"
  unfolding pending_world_def
proof (intro allI impI)
  fix w :: "'a merkle_trees" assume l: "length (trees w) = 8"
  obtain r t where m: "m (the_tree w i) = (r, t)" by fastforce
  have k: "kept t = kept (the_tree w i)" using assms m unfolding pending_only_def by (metis snd_conv)
  then have db: "tdb (ws_base t) = wdb w" using kept_db(1)[of t] kept_db(1)[of "the_tree w i"] by (simp add: the_tree_def)
  have "the_tree (put_tree i t w) j = (if j = i then t else the_tree w j)" for j
    using l db ws_set_db_same[of t] by (auto simp: the_tree_def put_tree_def nth_list_update)
  then show "length (trees (snd (on_tree i m w))) = 8 \<and> world_kept (snd (on_tree i m w)) = world_kept w"
    using m k db l by (auto simp: on_tree_def world_kept_def put_tree_def fun_eq_iff)
qed

lemma pending_jbind [intro]: "pending_world (m :: ('a merkle_trees, 'b) js) \<Longrightarrow> (\<And>x. pending_world (f x)) \<Longrightarrow> pending_world (jbind m f)"
proof (unfold pending_world_def, intro allI impI)
  fix w :: "'a merkle_trees"
  assume m: "\<forall>w. length (trees w) = 8 \<longrightarrow> length (trees (snd (m w))) = 8 \<and> world_kept (snd (m w)) = world_kept w" and l: "length (trees w) = 8"
    and f: "\<And>x. \<forall>w. length (trees w) = 8 \<longrightarrow> length (trees (snd (f x w))) = 8 \<and> world_kept (snd (f x w)) = world_kept w"
  obtain r w' where r: "m w = (r, w')" by fastforce
  show "length (trees (snd (jbind m f w))) = 8 \<and> world_kept (snd (jbind m f w)) = world_kept w"
    using m[rule_format, OF l] f r by (cases r) (auto simp: jbind_def)
qed

lemma pending_simps [intro, simp]:
  "pending_world (jreturn x)" "pending_world (jthrow e)" "pending_world (jlift r)" "pending_world jget" "pending_world (jgets f)" "pending_world (Pair r)"
  by (auto simp: pending_world_def jgets_def jbind_def)

lemma pending_jfor [intro]: "(\<And>x. pending_world (f x)) \<Longrightarrow> pending_world (jfor f xs)"
  by (induction xs) (simp_all add: pending_jbind)

lemma pending_facade [intro, simp]:
  "pending_world (Facade_appendLeaves env f i ls)" "pending_world (Facade_updateLeaf env f i leaf j)" "pending_world (Facade_batchInsert env f i ls h sh)"
  "pending_world (Facade_updateHistoricRootsTrees env f)"
proof -
  have batch: "pending_only (\<lambda>t. case t of Indexed it \<Rightarrow> lift_indexed (batchInsert env ls h sh) it
      | _ \<Rightarrow> (Inl (Error ''Tree does not support `batchInsert` method''), t))"
    unfolding pending_only_def by (auto simp: indexed_kept[OF rolled.preserves_batchInsert leaves_batchInsert] simp del: kept_simps split: ws_tree.split)
  show a: "pending_world (Facade_appendLeaves env f i ls)" for i ls
    by (simp add: Facade_appendLeaves_def MerkleTrees_appendLeaves_def pending_on_tree pending_append)
  show "pending_world (Facade_updateLeaf env f i leaf j)"
    by (simp add: Facade_updateLeaf_def MerkleTrees_updateLeaf_def pending_on_tree pending_update)
  show "pending_world (Facade_batchInsert env f i ls h sh)"
    using pending_on_tree[OF batch, of i] by (simp add: Facade_batchInsert_def MerkleTrees_batchInsert_def)
  have "pending_world (MerkleTrees_appendLeaves env i ls)" for i ls by (simp add: MerkleTrees_appendLeaves_def pending_on_tree pending_append)
  then show "pending_world (Facade_updateHistoricRootsTrees env f)"
    unfolding Facade_updateHistoricRootsTrees_def updateHistoricRootsTrees_def by (intro pending_jfor) (auto split: prod.split)
qed

lemma pending_requests: "pending_world (process_update_requests env rs)"
proof (induction rs)
  case (Cons r rs)
  then show ?case unfolding process_update_requests.simps by (intro pending_jbind pending_facade pending_simps)
qed simp

lemma pending_base: "pending_world (baseRollupCircuit B l r)"
proof -
  have "pending_world (base_rollup_tree_updates B l r)"
    unfolding base_rollup_tree_updates_def Let_def processPublicDataUpdateRequests_def
    by (intro pending_jbind pending_facade pending_simps pending_requests) (auto split: option.split prod.split)
  then show ?thesis unfolding baseRollupCircuit_def buildBaseRollupInput_def by (intro pending_jbind) (auto split: prod.split)
qed

lemma pending_pairs: "(\<And>x y. pending_world (f x y)) \<Longrightarrow> pending_world (for_pairs f xs)"
  by (induction f xs rule: for_pairs.induct) auto

lemma pending_build: "pending_world (buildL2Block B n txs ms)"
proof -
  have root: "pending_world (rootRollupCircuit B l r ms)" for l r ms
    unfolding rootRollupCircuit_def by (intro pending_jbind pending_facade pending_simps) (auto split: prod.split)
  have "pending_world (runCircuits B txs ms)"
    unfolding runCircuits_def
    by (auto intro!: pending_jbind pending_pairs pending_base root split: list.split)
  then show ?thesis unfolding buildL2Block_def Let_def by (intro pending_jbind) (auto split: prod.split)
qed

section \<open>Rollback\<close>

lemma rollback_trees:
  assumes "length (trees w) = 8"
  shows "\<exists>w'. MerkleTrees_rollback w = (Inr (), w') \<and> wdb w' = wdb w \<and> (\<forall>i. the_tree w' i = kept (the_tree w i))"
proof -
  have step: "\<exists>w'. on_tree i ws_rollback v = (Inr (), w') \<and> length (trees w') = 8 \<and> wdb w' = wdb v \<and>
      (\<forall>j. the_tree w' j = (if j = i then kept (the_tree v i) else the_tree v j))" if l: "length (trees v) = 8" for v i
  proof -
    have r: "ws_rollback (the_tree v i) = (Inr (), kept (the_tree v i))" by (cases "the_tree v i") (simp_all add: kept_def)
    have db: "tdb (ws_base (kept (the_tree v i))) = wdb v" by (simp add: kept_db the_tree_def)
    then have "the_tree (put_tree i (kept (the_tree v i)) v) j = (if j = i then kept (the_tree v i) else the_tree v j)" for j
      using l ws_set_db_same[of "kept (the_tree v i)"] by (auto simp: the_tree_def put_tree_def nth_list_update)
    then show ?thesis using r l db by (auto simp: on_tree_def put_tree_def)
  qed
  have "\<exists>w'. jfor (\<lambda>i. on_tree i ws_rollback) is v = (Inr (), w') \<and> wdb w' = wdb v \<and>
      (\<forall>j. the_tree w' j = (if j \<in> set is then kept (the_tree v j) else the_tree v j))" if "length (trees v) = 8" "distinct is" for v "is"
    using that
  proof (induction "is" arbitrary: v)
    case (Cons i "is")
    obtain v' where v': "on_tree i ws_rollback v = (Inr (), v')" "length (trees v') = 8" "wdb v' = wdb v"
      "\<forall>j. the_tree v' j = (if j = i then kept (the_tree v i) else the_tree v j)" using step[OF Cons.prems(1)] by blast
    then show ?case using Cons.IH[OF v'(2)] Cons.prems(2) by (auto simp: jbind_def)
  qed simp
  from this[OF assms distinct_tree_ids] show ?thesis by (simp add: MerkleTrees_rollback_def tree_ids_all)
qed

end
