(* ===== verification/SequencerRounds.thy ===== *)
theory SequencerRounds
  imports PendingChanges L1PublisherProperties
begin

text \<open>
  The rounds of the sequencer: what a round leaves alone wherever it ends, as a locale of relations between the states before and after it; the padding of a block and the run
  that publishes it; the loop that chooses transactions; and the steps of a sequencer between the calls of its methods.
\<close>

section \<open>What a round leaves alone\<close>

definition okeeps :: "('s \<Rightarrow> 's \<Rightarrow> bool) \<Rightarrow> ('s, 'a) ojs \<Rightarrow> bool" where
  "okeeps Q m \<longleftrightarrow> (\<forall>s r s'. m s = Some (r, s') \<longrightarrow> Q s s')"

lemma okeepsI: "(\<And>s r s'. m s = Some (r, s') \<Longrightarrow> Q s s') \<Longrightarrow> okeeps Q m"
  by (simp add: okeeps_def)

lemma okeepsD: "okeeps Q m \<Longrightarrow> m s = Some (r, s') \<Longrightarrow> Q s s'"
  by (simp add: okeeps_def)

lemma obind_ends:
  assumes "obind m f s = Some (r, t)"
  obtains (fails) e where "m s = Some (Inl e, t)" "r = Inl e" | (goes_on) x s' where "m s = Some (Inr x, s')" "f x s' = Some (r, t)"
  using assms by (auto simp: obind_def split: option.splits sum.splits)

text \<open>A round ends before the block is published, or with its publication.\<close>

definition frames :: "('db sequencer \<Rightarrow> 'db sequencer \<Rightarrow> bool) \<Rightarrow> 'db sequencer_env \<Rightarrow> ('db sequencer, unit) ojs \<Rightarrow> bool" where
  "frames Q E m \<longleftrightarrow> (\<forall>s r s'. m s = Some (r, s') \<longrightarrow> Q s s' \<or> (\<exists>s1 block. Q s s1 \<and> publishL2Block E block s1 = Some (r, s')))"

text \<open>A relation between the states before and after that every step of a round but the publication of the block respects.\<close>

locale round_frame =
  fixes Q :: "'db sequencer \<Rightarrow> 'db sequencer \<Rightarrow> bool"
  assumes Q_refl: "Q s s"
    and Q_trans: "Q s t \<Longrightarrow> Q t u \<Longrightarrow> Q s u"
    and Q_own: "Q s (s\<lparr>sq_state := st\<rparr>)" "Q s (s\<lparr>sq_draws := d\<rparr>)" "Q s (s\<lparr>sq_p2pClient := c\<rparr>)"
    and Q_build: "Q s (snd (on_trees (buildL2Block B n txs ms) s))"
    and Q_contracts: "processNewContractData m S num h cs (sq_publisher s) = Some (b, p) \<Longrightarrow> Q s (s\<lparr>sq_publisher := p\<rparr>)"
begin

lemma obind_okeeps: "okeeps Q m \<Longrightarrow> (\<And>x. okeeps Q (f x)) \<Longrightarrow> okeeps Q (obind m f)"
  by (rule okeepsI) (erule obind_ends; blast intro: Q_trans dest: okeepsD)

lemma olift_okeeps: "(\<And>s. Q s (snd (m s))) \<Longrightarrow> okeeps Q (olift m)"
  by (rule okeepsI) (metis olift_run option.inject snd_conv)

lemma pure_okeeps: "okeeps Q (oreturn x)" "okeeps Q (olift (jlift r))" "okeeps Q (olift (jgets f))" "okeeps Q (olift (jreturn x))"
  "okeeps Q (olift (set_state st))"
  by (auto simp: okeeps_def Q_refl jgets_def jbind_def set_state_def Q_own)

lemma delete_okeeps: "okeeps Q (olift (deleteTxs H txs))"
  by (rule olift_okeeps) (auto simp: deleteTxs_def jbind_def on_p2p_def Q_refl Q_own split: sum.splits prod.splits)

lemma take_okeeps: "okeeps Q (olift (takeValidTxs E txs))"
proof (rule olift_okeeps)
  fix s
  have d: "Q s (snd (deleteTxs H txs s))" for H txs using delete_okeeps[of H txs] by (metis okeepsD olift_run prod.collapse)
  show "Q s (snd (takeValidTxs E txs s))"
    using d by (auto simp: takeValidTxs_def jbind_def Q_refl split: sum.splits prod.splits if_splits) (metis snd_conv)+
qed

lemma processor_okeeps: "okeeps Q (run_processor E txs)"
  by (rule okeepsI) (auto simp: run_processor_def Q_refl Q_own split: sum.splits)

lemma build_okeeps: "okeeps Q (olift (sequencer_buildBlock E txs ms e))"
proof (rule olift_okeeps)
  show "Q s (snd (sequencer_buildBlock E txs ms e s))" for s
    using Q_build[of s "sq_blockBuilder E" "Archiver_getBlockHeight (sq_archiver s) + 1" "pad_txs txs e" ms]
    by (auto simp: sequencer_buildBlock_def jbind_def split: sum.splits prod.splits)
qed

lemma contracts_okeeps: "okeeps Q (publishContractPublicData E txs block)"
proof -
  have "okeeps Q (on_publisher (\<lambda>p. map_option (\<lambda>(r, p'). (Inr r, p')) (processNewContractData m S num h cs p)))" for m S num h cs
    by (rule okeepsI) (auto simp: on_publisher_def intro: Q_contracts)
  then show ?thesis unfolding publishContractPublicData_def by (intro obind_okeeps pure_okeeps)
qed

lemmas okeeps_steps = obind_okeeps pure_okeeps delete_okeeps take_okeeps processor_okeeps build_okeeps contracts_okeeps

lemma frames_obind: "okeeps Q m \<Longrightarrow> (\<And>x. frames Q E (f x)) \<Longrightarrow> frames Q E (obind m f)"
  unfolding frames_def by (intro allI impI) (erule obind_ends; blast intro: Q_trans dest: okeepsD)

lemma frames_okeeps: "okeeps Q m \<Longrightarrow> frames Q E m"
  by (auto simp: frames_def okeeps_def)

lemma frames_publish: "frames Q E (publishL2Block E block)"
  by (auto simp: frames_def intro: Q_refl)

lemma make_block_frames: "frames Q E (make_block E validTxs)"
proof -
  have del: "okeeps Q (olift (if failedTxs \<noteq> [] then deleteTxs H failedTxs else jreturn ()))" for H failedTxs
    by (simp add: delete_okeeps pure_okeeps)
  have "frames Q E (if p = [] then oreturn () else obind (olift (jgets getPendingL1ToL2Messages)) (\<lambda>l1ToL2Messages.
       obind (olift (jgets (\<lambda>s. processor_makeEmptyProcessedTx (sq_processor E) (trees_of s)))) (\<lambda>emptyTx.
       obind (olift (sequencer_buildBlock E p l1ToL2Messages emptyTx)) (\<lambda>block.
       obind (publishContractPublicData E validTxs block) (\<lambda>_. publishL2Block E block)))))" for p
    by (simp add: frames_okeeps pure_okeeps) (intro impI frames_obind okeeps_steps frames_publish)
  then show ?thesis unfolding make_block_def
    by (intro frames_obind okeeps_steps) (auto intro!: frames_obind del)
qed

lemma work_frames: "frames Q E (work_body E)"
proof -
  have st: "okeeps Q (olift (jmodify (\<lambda>s. if sq_state s = SEQ_PUBLISHING_BLOCK then s\<lparr>sq_state := SEQ_IDLE\<rparr> else s)))"
    by (rule olift_okeeps) (simp add: Q_refl Q_own)
  have "frames Q E (obind (olift (jmodify (\<lambda>s. if sq_state s = SEQ_PUBLISHING_BLOCK then s\<lparr>sq_state := SEQ_IDLE\<rparr> else s))) (\<lambda>_.
        obind (olift (set_state SEQ_WAITING_FOR_TXS)) (\<lambda>_.
        obind (olift (jgets (\<lambda>s. client_getTxs (sq_p2pEnv E) (sq_p2pClient s)))) (\<lambda>pendingTxs.
        if length pendingTxs < n then oreturn ()
        else obind (olift (takeValidTxs E pendingTxs)) (\<lambda>validTxs. if length validTxs < n then oreturn () else make_block E validTxs)))))" for n
    by (intro frames_obind st okeeps_steps) (auto intro!: frames_obind make_block_frames take_okeeps frames_okeeps[OF pure_okeeps(1)])
  then show ?thesis unfolding work_body_def frames_def using Q_refl by auto
qed

end

section \<open>The relations\<close>

definition trees_kept :: "'db sequencer \<Rightarrow> 'db sequencer \<Rightarrow> bool" where
  "trees_kept s s' \<longleftrightarrow> (length (trees (trees_of s)) = 8 \<longrightarrow>
     length (trees (trees_of s')) = 8 \<and> world_kept (trees_of s') = world_kept (trees_of s))"

definition same_published :: "'db sequencer \<Rightarrow> 'db sequencer \<Rightarrow> bool" where
  "same_published s s' \<longleftrightarrow> lastPublishedBlock s' = lastPublishedBlock s"

definition publisher_silent :: "'db sequencer \<Rightarrow> 'db sequencer \<Rightarrow> bool" where
  "publisher_silent s s' \<longleftrightarrow> (interrupted (sq_publisher s) \<longrightarrow> sq_publisher s' = sq_publisher s \<and> lastPublishedBlock s' = lastPublishedBlock s)"

lemmas round_relations = trees_kept_def same_published_def publisher_silent_def

lemma contracts_interrupted: "processNewContractData m S num h cs p = Some (b, q) \<Longrightarrow> interrupted p \<Longrightarrow> q = p"
  by (cases m) (auto simp: processNewContractData_def)

lemma on_trees_sets: "snd (on_trees m s) = s\<lparr>sq_worldState := (sq_worldState s)\<lparr>merkleTreeDb := snd (m (trees_of s))\<rparr>\<rparr>"
  by (simp add: on_trees_def split: prod.splits)

interpretation kept_round: round_frame trees_kept
proof (unfold_locales, goal_cases)
  case (6 s B n txs ms)
  show ?case using pending_build[of B n txs ms] by (simp add: trees_kept_def pending_world_def on_trees_sets trees_of_def)
qed (auto simp: trees_kept_def trees_of_def)

interpretation published_round: round_frame same_published
  by unfold_locales (auto simp: same_published_def on_trees_sets)

interpretation silent_round: round_frame publisher_silent
  by unfold_locales (auto simp: publisher_silent_def on_trees_sets dest: contracts_interrupted)

text \<open>The publication of the block.\<close>

lemma publish_run:
  assumes "publishL2Block E block s = Some (r, s')"
  obtains p x where "processL2Block (sq_rounds E) (sq_sender E) block (sq_publisher s) = Some (x, p)"
    "s' = s\<lparr>sq_state := SEQ_PUBLISHING_BLOCK, sq_publisher := p, lastPublishedBlock := (if x = Inr True then blk_number block else lastPublishedBlock s)\<rparr>"
    "isl r \<longleftrightarrow> x \<noteq> Inr True"
  using assms by (auto simp: publishL2Block_def obind_def on_publisher_def set_state_def split: option.splits sum.splits if_splits)

lemma process_interrupted: "processL2Block m S b p = Some (x, q) \<Longrightarrow> interrupted p \<Longrightarrow> q = p \<and> x \<noteq> Inr True"
  by (cases m) (auto simp: processL2Block_def split: sum.splits)

lemma publish_keeps:
  assumes "publishL2Block E block s = Some (r, s')"
  shows "trees_kept s s'" "isl r \<Longrightarrow> same_published s s'" "publisher_silent s s'"
  using assms by (auto elim!: publish_run simp: round_relations trees_of_def dest: process_interrupted)

lemma work_keeps:
  assumes "work_body E s = Some (r, s')"
  shows "trees_kept s s'" "isl r \<Longrightarrow> same_published s s'" "publisher_silent s s'"
proof -
  note f = kept_round.work_frames[of E] published_round.work_frames[of E] silent_round.work_frames[of E]
  show "trees_kept s s'" using f(1) assms unfolding frames_def by (meson kept_round.Q_trans publish_keeps(1))
  show "isl r \<Longrightarrow> same_published s s'" using f(2) assms unfolding frames_def by (meson published_round.Q_trans publish_keeps(2))
  show "publisher_silent s s'" using f(3) assms unfolding frames_def by (meson silent_round.Q_trans publish_keeps(3))
qed

section \<open>Failed rounds\<close>

lemma rollback_agrees:
  assumes "world_inv env w" "length (trees v) = 8" "world_kept v = world_kept w"
  obtains v' where "MerkleTrees_rollback v = (Inr (), v')" "\<And>b. world_view env b v' = world_view env False w"
proof -
  have l: "length (trees w) = 8" using assms(1) by (simp add: world_inv_def)
  obtain v' where v: "MerkleTrees_rollback v = (Inr (), v')" "\<forall>i. the_tree v' i = kept (the_tree v i)" using rollback_trees[OF assms(2)] by blast
  obtain w' where w: "MerkleTrees_rollback w = (Inr (), w')" "\<forall>i. the_tree w' i = kept (the_tree w i)" using rollback_trees[OF l] by blast
  have "the_tree v' = the_tree w'" using v(2) w(2) assms(3) by (auto simp: world_kept_def fun_eq_iff)
  moreover have "world_view env b w' = world_view env False w" for b using world_rollback_ok[OF assms(1)] w(1) by auto
  ultimately show thesis using that[OF v(1)] by (simp add: world_view_def fun_eq_iff)
qed

section \<open>Stopping\<close>

text \<open>What happens to a sequencer: a round, its methods, and the moves of the components it shares with the node.\<close>

inductive seq_step :: "'db sequencer_env \<Rightarrow> 'db sequencer \<Rightarrow> 'db sequencer \<Rightarrow> bool" for E where
  round: "work E s = Some (r, s') \<Longrightarrow> seq_step E s s'"
| start: "seq_step E s (sequencer_start s)"
| stop: "seq_step E s (sequencer_stop s)"
| restart: "sequencer_restart s = (r, s') \<Longrightarrow> seq_step E s s'"
| others: "seq_step E s (s\<lparr>sq_p2pClient := c, sq_worldState := w, sq_archiver := a\<rparr>)"

inductive_cases seq_stepE: "seq_step E s s'"

lemma work_silent: "work E s = Some (r, s') \<Longrightarrow> publisher_silent s s'"
  by (auto simp: work_def publisher_silent_def on_trees_def split: option.splits sum.splits prod.splits dest!: work_keeps(3))

interpretation stopped_sm: state_machine "sequencer_stop s" "seq_step E" "\<lambda>t. sq_publisher t = interrupt (sq_publisher s)" for s E
proof
  show "sq_publisher t' = interrupt (sq_publisher s)" if "sq_publisher t = interrupt (sq_publisher s)" "seq_step E t t'" for t t'
    using that(2,1) by (cases rule: seq_step.cases)
      (auto simp: sequencer_start_def initialSync_def sequencer_stop_def sequencer_restart_def publisher_silent_def interrupt_def split: option.splits dest!: work_silent)
qed (simp add: sequencer_stop_def)

section \<open>Published blocks\<close>

text \<open>The padding makes the smallest block that the builder accepts.\<close>

lemma pad_txs_size: "length (pad_txs txs e) = (LEAST n. length txs \<le> n \<and> (\<exists>k \<ge> 2. n = 2 ^ k))"
proof (rule Least_equality[symmetric])
  let ?n = "length txs"
  have c: "?n \<le> ceilPowerOfTwo ?n" by (simp add: ceilPowerOfTwo_def le_two_power_ceillog2)
  then have l: "length (pad_txs txs e) = max (ceilPowerOfTwo ?n) 4" by (simp add: pad_txs_def Let_def)
  have "\<exists>k \<ge> 2. max (ceilPowerOfTwo ?n) 4 = 2 ^ k"
  proof (cases "ceilPowerOfTwo ?n \<le> 4")
    case True
    then show ?thesis by (intro exI[of _ 2]) simp
  next
    case False
    then have n: "?n > 0" "(2 :: nat) ^ 2 < 2 ^ ceillog2 ?n" by (auto simp: ceilPowerOfTwo_def split: if_splits)
    then have "2 < ceillog2 ?n" by (intro power_less_imp_less_exp[of "2 :: nat" 2]) simp_all
    with n show ?thesis by (intro exI[of _ "ceillog2 ?n"]) (simp add: ceilPowerOfTwo_def)
  qed
  then show "?n \<le> length (pad_txs txs e) \<and> (\<exists>k \<ge> 2. length (pad_txs txs e) = 2 ^ k)" using l c by auto
  fix m assume "?n \<le> m \<and> (\<exists>k \<ge> 2. m = 2 ^ k)"
  then obtain k where k: "?n \<le> m" "2 \<le> k" "m = 2 ^ k" by blast
  have "ceilPowerOfTwo ?n \<le> m" using k ceillog2_le_iff[of ?n k] by (simp add: ceilPowerOfTwo_def)
  moreover have "4 \<le> m" using k power_increasing[of 2 k "2 :: nat"] by simp
  ultimately show "length (pad_txs txs e) \<le> m" using l by simp
qed

lemma build_number: "buildL2Block B n txs ms w = (Inr (b, p), w') \<Longrightarrow> blk_number b = n"
  by (auto simp: buildL2Block_def jbind_eq_Inr Let_def assemble_block_def split: prod.splits)

text \<open>What the steps before the block change.\<close>

lemma delete_client: "deleteTxs H txs s = (r, s') \<Longrightarrow> \<exists>c. s' = s\<lparr>sq_p2pClient := c\<rparr>"
  by (cases "Tx_getHashes H txs") (auto simp: deleteTxs_def jbind_def on_p2p_def split: prod.splits intro: exI[of _ "sq_p2pClient s"])

lemma take_client:
  assumes "takeValidTxs E txs s = (Inr v, s')"
  shows "\<exists>c. s' = s\<lparr>sq_p2pClient := c\<rparr>"
    and "\<exists>d i. take_valid_loop (pr_hashes (sq_processor E)) (bb_trees (sq_blockBuilder E)) (maxTxsPerBlock s) (trees_of s) txs [] [] [] = Inr (v, d, i)"
proof -
  show "\<exists>c. s' = s\<lparr>sq_p2pClient := c\<rparr>"
    using assms by (auto simp: takeValidTxs_def jbind_eq_Inr split: if_splits dest!: delete_client intro: exI[of _ "sq_p2pClient s"])
  show "\<exists>d i. take_valid_loop (pr_hashes (sq_processor E)) (bb_trees (sq_blockBuilder E)) (maxTxsPerBlock s) (trees_of s) txs [] [] [] = Inr (v, d, i)"
    using assms by (auto simp: takeValidTxs_def jbind_eq_Inr split: prod.splits)
qed

lemma processor_run:
  assumes "run_processor E txs s = Some (Inr (processed, failed), s')"
  obtains roots ps where "WorldStateDB_getTreeRoots (trees_of s) = Inr roots"
    "process (sq_processor E) (trees_of s) roots txs \<lparr>ps_cache = Map.empty, ps_draws = sq_draws s\<rparr> = Some (Inr (processed, failed), ps)" "s' = s\<lparr>sq_draws := ps_draws ps\<rparr>"
  using assms by (auto simp: run_processor_def create_processor_def split: sum.splits)

lemma contracts_same: "publishContractPublicData E txs b s = Some (Inr (), s') \<Longrightarrow> \<exists>p. s' = s\<lparr>sq_state := SEQ_PUBLISHING_CONTRACT_DATA, sq_publisher := p\<rparr>"
  by (auto simp: publishContractPublicData_def obind_eq_Inr on_publisher_def set_state_def)

lemma publish_state:
  assumes "publishL2Block E b s = Some (Inr (), s')"
  obtains p q where "processL2Block (sq_rounds E) (sq_sender E) b p = Some (Inr True, q)" "p = sq_publisher s"
    "lastPublishedBlock s' = blk_number b" "trees_of s' = trees_of s"
  using assms by (auto elim!: publish_run simp: trees_of_def)

definition published_from :: "'db sequencer_env \<Rightarrow> 'db sequencer \<Rightarrow> tx list \<Rightarrow> 'db sequencer \<Rightarrow> bool" where
  "published_from E s validTxs s' \<longleftrightarrow> (\<exists>roots processed failed ps ms emptyTx block pf inputs n h k receipt.
     WorldStateDB_getTreeRoots (trees_of s) = Inr roots \<and>
     process (sq_processor E) (trees_of s) roots validTxs \<lparr>ps_cache = Map.empty, ps_draws = sq_draws s\<rparr> = Some (Inr (processed, failed), ps) \<and>
     processed \<noteq> [] \<and> getPendingL1ToL2Messages s = Inr ms \<and> processor_makeEmptyProcessedTx (sq_processor E) (trees_of s) = Inr emptyTx \<and>
     length (pad_txs processed emptyTx) = (LEAST l. length processed \<le> l \<and> (\<exists>k \<ge> 2. l = 2 ^ k)) \<and>
     buildL2Block (sq_blockBuilder E) (Archiver_getBlockHeight (sq_archiver s) + 1) (pad_txs processed emptyTx) ms (trees_of s) = (Inr (block, pf), trees_of s') \<and>
     lastPublishedBlock s' = Archiver_getBlockHeight (sq_archiver s) + 1 \<and> L2Block_encode block = Inr inputs \<and>
     n < k \<and> sender_processTx (sq_sender E) n \<lparr>l1_proof = [], l1_inputs = inputs\<rparr> = Inr (Some h) \<and>
     sender_getTransactionReceipt (sq_sender E) k h = Inr (Some receipt) \<and> rc_status receipt)"

lemma getPending_cong: "sq_archiver s = sq_archiver t \<Longrightarrow> getPendingL1ToL2Messages s = getPendingL1ToL2Messages t"
  by (simp add: getPendingL1ToL2Messages_def)

lemma make_block_published:
  assumes "make_block E validTxs s = Some (Inr (), s')" "lastPublishedBlock s' \<noteq> lastPublishedBlock s"
  shows "published_from E s validTxs s'"
proof -
  let ?s0 = "s\<lparr>sq_state := SEQ_CREATING_BLOCK\<rparr>"
  obtain processed failed s1 s2 where p: "run_processor E validTxs ?s0 = Some (Inr (processed, failed), s1)"
    and d: "(if failed \<noteq> [] then deleteTxs (pr_hashes (sq_processor E)) failed else jreturn ()) s1 = (Inr (), s2)"
    and rest: "(if processed = [] then oreturn ()
     else obind (olift (jgets getPendingL1ToL2Messages)) (\<lambda>l1ToL2Messages.
       obind (olift (jgets (\<lambda>s. processor_makeEmptyProcessedTx (sq_processor E) (trees_of s)))) (\<lambda>emptyTx.
       obind (olift (sequencer_buildBlock E processed l1ToL2Messages emptyTx)) (\<lambda>block.
       obind (publishContractPublicData E validTxs block) (\<lambda>_. publishL2Block E block))))) s2 = Some (Inr (), s')"
    using assms(1) by (clarsimp simp: make_block_def obind_eq_Inr set_state_def)
  obtain roots ps where r: "WorldStateDB_getTreeRoots (trees_of s) = Inr roots"
    "process (sq_processor E) (trees_of s) roots validTxs \<lparr>ps_cache = Map.empty, ps_draws = sq_draws s\<rparr> = Some (Inr (processed, failed), ps)"
    and s1: "s1 = ?s0\<lparr>sq_draws := ps_draws ps\<rparr>" using processor_run[OF p] by (auto simp: trees_of_def)
  obtain c where s2: "s2 = s1\<lparr>sq_p2pClient := c\<rparr>" using d delete_client by (cases "failed = []") (fastforce intro: exI[of _ "sq_p2pClient s1"])+
  have same: "trees_of s2 = trees_of s" "sq_archiver s2 = sq_archiver s" "lastPublishedBlock s2 = lastPublishedBlock s" by (simp_all add: s1 s2 trees_of_def)
  then have ne: "processed \<noteq> []" using rest assms(2) by auto
  obtain ms e block s3 s4 where ms: "getPendingL1ToL2Messages s = Inr ms" and e: "processor_makeEmptyProcessedTx (sq_processor E) (trees_of s) = Inr e"
    and b: "sequencer_buildBlock E processed ms e s2 = (Inr block, s3)" and c: "publishContractPublicData E validTxs block s3 = Some (Inr (), s4)"
    and pub: "publishL2Block E block s4 = Some (Inr (), s')"
    using rest ne getPending_cong[OF same(2)] by (auto simp: obind_eq_Inr jgets_def jbind_eq_Inr same)
  obtain pf w where w: "buildL2Block (sq_blockBuilder E) (Archiver_getBlockHeight (sq_archiver s) + 1) (pad_txs processed e) ms (trees_of s) = (Inr (block, pf), w)"
    and s3: "trees_of s3 = w" using b by (auto simp: sequencer_buildBlock_def jbind_eq_Inr on_trees_def same same(1)[unfolded trees_of_def] trees_of_def split: prod.splits)
  have s4: "trees_of s4 = w" using contracts_same[OF c] s3 by (auto simp: trees_of_def)
  obtain q q' where q: "processL2Block (sq_rounds E) (sq_sender E) block q = Some (Inr True, q')" "lastPublishedBlock s' = blk_number block" "trees_of s' = w"
    using publish_state[OF pub] s4 by metis
  obtain inputs where i: "L2Block_encode block = Inr inputs" using q(1) by (auto simp: processL2Block_def split: sum.splits)
  obtain n h k receipt where l1: "n < k" "sender_processTx (sq_sender E) n \<lparr>l1_proof = [], l1_inputs = inputs\<rparr> = Inr (Some h)"
    "sender_getTransactionReceipt (sq_sender E) k h = Inr (Some receipt)" "rc_status receipt"
    using q(1) i by (auto simp: processL2Block_def dest!: publish_true)
  have "lastPublishedBlock s' = Archiver_getBlockHeight (sq_archiver s) + 1" using q(2) build_number[OF w] by simp
  then show ?thesis unfolding published_from_def
    using r ne ms e pad_txs_size[of processed e] w[folded q(3)] i l1 by (intro exI conjI)
qed

lemma published_cong:
  assumes "trees_of s = trees_of t" "sq_archiver s = sq_archiver t" "sq_draws s = sq_draws t"
  shows "published_from E s v s' = published_from E t v s'"
  using getPending_cong[OF assms(2)] by (simp add: published_from_def assms)

section \<open>Valid transactions\<close>

lemma find_leaf_total:
  assumes "\<And>i. i \<in> set is \<Longrightarrow> \<exists>c. g i = Inr c"
  shows "\<exists>found. find_leaf_loop g v is = Inr found \<and> (found \<noteq> None \<longleftrightarrow> (\<exists>i \<in> set is. g i = Inr (Some v)))"
  using assms
proof (induction "is")
  case (Cons i "is")
  obtain c where c: "g i = Inr c" using Cons.prems by auto
  show ?case using Cons.IH Cons.prems c by (cases "c = Some v") auto
qed simp

lemma find_nullifier:
  assumes inv: "world_inv env w" and fit: "\<forall>v \<in> world_nullifiers env True w. v < 256 ^ 32" and x: "0 < x" "x < 256 ^ 32"
  shows "\<exists>found. Facade_findLeafIndex env getLatest NULLIFIER_TREE (be_bytes 32 x) w = Inr found \<and> (found \<noteq> None \<longleftrightarrow> x \<in> world_nullifiers env True w)"
proof -
  obtain t where t: "the_tree w NULLIFIER_TREE = Indexed t" "idx_inv env t" using the_tree_class(2)[OF inv] by blast
  let ?n = "it_getNumLeaves t True" and ?L = "latest t True"
  have l: "linked ?n ?L" "?n \<le> 2 ^ tdepth (it_base t)" "tdepth (it_base t) \<le> 53" using t(2) by (auto simp: idx_inv_def idx_view_ok_def idx_base_def)
  then have n: "?n \<le> 2 ^ 53" using power_increasing[of "tdepth (it_base t)" 53 "2 :: int"] by simp
  have vals: "world_nullifiers env True w = leaf_values ?n ?L"
    by (simp add: world_nullifiers_def world_view_def ws_view_def abs_values_def t(1) it_getNumLeaves_def)
  let ?g = "\<lambda>j. it_getLeafValue t j True" and ?is = "map int [0..<nat ?n]"
  have g: "?g j = (case ?L j of None \<Rightarrow> Inr None | Some ld \<Rightarrow> Inr (Some (be_bytes 32 (ld_value ld)))) \<and>
      (?g j = Inr (Some (be_bytes 32 x)) \<longleftrightarrow> (\<exists>ld. active ?n ?L j ld \<and> ld_value ld = x))" if "j \<in> set ?is" for j
  proof -
    have j: "0 \<le> j" "j < ?n" using that by auto
    then have num: "js_Number j = j" using n by simp
    have v: "0 \<le> ld_value ld \<and> ld_value ld < 256 ^ 32" if "?L j = Some ld" for ld
    proof (cases "active ?n ?L j ld")
      case True
      then have "ld_value ld \<in> leaf_values ?n ?L" by (auto simp: leaf_values_def)
      then show ?thesis using fit vals l(1) True by (auto simp: linked_def)
    next
      case False
      then show ?thesis using that j by (simp add: active_def)
    qed
    have eq: "be_bytes 32 a = be_bytes 32 x \<longleftrightarrow> a = x" if "0 \<le> a" "a < 256 ^ 32" for a using that x be_val_be_bytes[of _ 32] by (metis less_imp_le)
    show ?thesis using v j x(1) eq by (auto simp: it_getLeafValue_def num latest_def toBufferBE_fit active_def split: option.splits)
  qed
  have "\<exists>found. find_leaf_loop ?g (be_bytes 32 x) ?is = Inr found \<and> (found \<noteq> None \<longleftrightarrow> (\<exists>j \<in> set ?is. ?g j = Inr (Some (be_bytes 32 x))))"
    using g by (intro find_leaf_total) (auto split: option.splits)
  moreover have "(\<exists>j \<in> set ?is. ?g j = Inr (Some (be_bytes 32 x))) \<longleftrightarrow> x \<in> leaf_values ?n ?L"
  proof -
    have "j \<in> set ?is" if "active ?n ?L j ld" for j ld using that by (auto simp: active_def image_iff intro!: bexI[of _ "nat j"])
    then show ?thesis using g by (fastforce simp: leaf_values_def)
  qed
  ultimately show ?thesis
    by (simp add: Facade_findLeafIndex_def MerkleTrees_findLeafIndex_def getLatest_def t(1) Let_def vals it_getNumLeaves_def)
qed

text \<open>A private transaction that spends a note again: one of its nullifiers is already in the tree.\<close>

definition double_spend :: "'db tree_env \<Rightarrow> 'db merkle_trees \<Rightarrow> tx \<Rightarrow> bool" where
  "double_spend env w t \<longleftrightarrow> isPrivateTx t \<and>
     (\<exists>d. tx_data t = Some d \<and> (\<exists>n \<in> set (cad_newNullifiers (kpi_end d)). fr_value n \<noteq> 0 \<and> fr_value n \<in> world_nullifiers env True w))"

definition nullifiers_ok :: "tx \<Rightarrow> bool" where
  "nullifiers_ok t \<longleftrightarrow> (\<forall>d. tx_data t = Some d \<longrightarrow> (\<forall>n \<in> set (cad_newNullifiers (kpi_end d)). fr_ok n))"

lemma nullifiers_spent_iff:
  assumes "world_inv env w" "\<forall>v \<in> world_nullifiers env True w. v < 256 ^ 32" "\<forall>n \<in> set ns. fr_ok n"
  shows "nullifiers_spent env ns w = Inr (\<exists>n \<in> set ns. fr_value n \<noteq> 0 \<and> fr_value n \<in> world_nullifiers env True w)"
  using assms(3)
proof (induction ns)
  case (Cons n ns)
  have n: "0 \<le> fr_value n" "fr_value n < 256 ^ 32" using Cons.prems by (auto simp: fr_ok_def)
  show ?case
  proof (cases "Fr_isZero n")
    case False
    then have "0 < fr_value n" using n by (simp add: Fr_isZero_def)
    from find_nullifier[OF assms(1,2) this n(2)] show ?thesis
      using Cons False n Fr_toBuffer_bytes[of n] by (auto simp: Fr_isZero_def)
  qed (use Cons in \<open>auto simp: Fr_isZero_def\<close>)
qed simp

lemma spend_check:
  assumes "world_inv env w" "\<forall>v \<in> world_nullifiers env True w. v < 256 ^ 32" "nullifiers_ok t"
  shows "(if isPrivateTx t then isTxDoubleSpend env t w else Inr False) = Inr (double_spend env w t)"
  using assms nullifiers_spent_iff[OF assms(1,2)] by (auto simp: isTxDoubleSpend_def double_spend_def nullifiers_ok_def isPrivateTx_def split: option.splits)

lemma take_loop:
  assumes w: "world_inv env w" "\<forall>v \<in> world_nullifiers env True w. v < 256 ^ 32"
    and txs: "\<forall>t \<in> set txs. nullifiers_ok t \<and> (\<exists>h. Tx_getTxHash H t = Inr h)" and m: "length valid < m"
  shows "\<exists>pre rest. txs = pre @ rest \<and>
    take_valid_loop H env m w txs valid spent [] = Inr (valid @ filter (\<lambda>t. \<not> double_spend env w t) pre, spent @ filter (double_spend env w) pre, []) \<and>
    length valid + length (filter (\<lambda>t. \<not> double_spend env w t) pre) \<le> m \<and> (rest = [] \<or> length valid + length (filter (\<lambda>t. \<not> double_spend env w t) pre) = m)"
  using txs m
proof (induction txs arbitrary: valid spent)
  case (Cons t txs)
  have t: "(if isPrivateTx t then isTxDoubleSpend env t w else Inr False) = Inr (double_spend env w t)" "\<exists>h. Tx_getTxHash H t = Inr h"
    using spend_check[OF w] Cons.prems(1) by auto
  consider "double_spend env w t" | "\<not> double_spend env w t" "m \<le> length valid + 1" | "\<not> double_spend env w t" "length valid + 1 < m" by linarith
  then show ?case
  proof cases
    case 1
    obtain pre rest where "txs = pre @ rest" "take_valid_loop H env m w txs valid (spent @ [t]) [] =
        Inr (valid @ filter (\<lambda>t. \<not> double_spend env w t) pre, (spent @ [t]) @ filter (double_spend env w) pre, [])"
      "length valid + length (filter (\<lambda>t. \<not> double_spend env w t) pre) \<le> m" "rest = [] \<or> length valid + length (filter (\<lambda>t. \<not> double_spend env w t) pre) = m"
      using Cons.IH[of valid "spent @ [t]"] Cons.prems by auto
    then show ?thesis using 1 t by (intro exI[of _ "t # pre"] exI[of _ rest]) auto
  next
    case 2
    then show ?thesis using t Cons.prems(2) by (intro exI[of _ "[t]"] exI[of _ txs]) (simp add: isValidSignature_def)
  next
    case 3
    obtain pre rest where "txs = pre @ rest" "take_valid_loop H env m w txs (valid @ [t]) spent [] =
        Inr ((valid @ [t]) @ filter (\<lambda>t. \<not> double_spend env w t) pre, spent @ filter (double_spend env w) pre, [])"
      "length (valid @ [t]) + length (filter (\<lambda>t. \<not> double_spend env w t) pre) \<le> m"
      "rest = [] \<or> length (valid @ [t]) + length (filter (\<lambda>t. \<not> double_spend env w t) pre) = m"
      using Cons.IH[of "valid @ [t]" spent] Cons.prems 3 by auto
    then show ?thesis using 3 t by (intro exI[of _ "t # pre"] exI[of _ rest]) (auto simp: isValidSignature_def)
  qed
qed simp

lemma hashes_total_list: "\<forall>t \<in> set ts. \<exists>h. Tx_getTxHash H t = Inr h \<Longrightarrow> \<exists>hs. Tx_getHashes H ts = Inr hs \<and> list_all hash_ok hs"
  using rtraverse_total[of ts "Tx_getTxHash H"] rtraverse_list_all[of "Tx_getTxHash H" hash_ok ts] Tx_getTxHash_ok by (auto simp: Tx_getHashes_def)

lemma client_deletes:
  assumes "isReady c" "list_all hash_ok hs"
  shows "\<exists>c'. client_deleteTxs hs c = (Inr (), c') \<and>
    svc_pool (pc_service c') = filter (\<lambda>(k, t). k \<notin> hash_key ` set hs) (svc_pool (pc_service c))"
proof -
  obtain n where "InMemoryTxPool_deleteTxs hs (svc_pool (pc_service c)) = (Inr n, filter (\<lambda>(k, t). k \<notin> hash_key ` set hs) (svc_pool (pc_service c)))"
    using deleteTxs_ok[OF assms(2)] by blast
  then show ?thesis using assms(1) by (simp add: client_deleteTxs_def jbind_def on_service_def on_pool_def)
qed

end
