(* ===== verification/SequencerSample.thy ===== *)
theory SequencerSample
  imports SequencerRounds BlockBuilderProperties PublicProcessorProperties
begin

text \<open>
  A sequencer whose round builds a block: the encoding of a built block always succeeds, a round over private transactions reduces to building and publishing, and the sample
  transactions of the block builder make such a round.
\<close>

section \<open>Encoding of a built block\<close>

definition word_ok :: "int \<Rightarrow> bool" where
  "word_ok n \<longleftrightarrow> 0 \<le> n \<and> n < 2 ^ 32"

definition serializable :: "bufferable list \<Rightarrow> bool" where
  "serializable xs \<longleftrightarrow> (\<exists>bs. serializeToBufferArray xs = Inr bs)"

lemma serializable_simps [simp]:
  "serializable []" "serializable (BArray xs # ys) \<longleftrightarrow> serializable xs \<and> serializable ys" "serializable (BNumber n # ys) \<longleftrightarrow> word_ok n \<and> serializable ys"
  "serializable (BObject r # ys) \<longleftrightarrow> (\<exists>b. r = Inr b) \<and> serializable ys" "serializable (BBuffer x # ys) \<longleftrightarrow> serializable ys"
  by (auto simp: serializable_def cj_numToUInt32BE_def writeUInt32BE_def Buffer_alloc_def word_ok_def)

lemma serializable_append [simp]: "serializable (xs @ ys) \<longleftrightarrow> serializable xs \<and> serializable ys"
  by (induction xs rule: serializeToBufferArray.induct) (auto simp: serializable_def)

lemma serializable_total: "serializeToBuffer xs = Inr bs \<Longrightarrow> serializable xs" "serializable xs \<Longrightarrow> \<exists>bs. serializeToBuffer xs = Inr bs"
  by (auto simp: serializable_def serializeToBuffer_def)

lemma objects_serializable: "(\<And>x. x \<in> set xs \<Longrightarrow> \<exists>b. f x = Inr b) \<Longrightarrow> serializable (map (\<lambda>x. BObject (f x)) xs)"
  by (induction xs) auto

lemma fr_total [simp]: "\<exists>bs. Fr_toBuffer x = Inr bs"
  using toBufferBE_total[of "fr_value x" 32] by (auto simp: Fr_toBuffer_def)

lemma snapshot_total: "word_ok (nextAvailableLeafIndex s) \<Longrightarrow> \<exists>bs. AppendOnlyTreeSnapshot_toBuffer s = Inr bs"
  unfolding AppendOnlyTreeSnapshot_toBuffer_def by (rule serializable_total) simp

text \<open>The numbers of a block: its own, those of its snapshots and the lengths of its lists.\<close>

definition block_numbers :: "l2_block \<Rightarrow> int list" where
  "block_numbers b = [blk_number b] @ map nextAvailableLeafIndex
     [startPrivateDataTreeSnapshot b, startNullifierTreeSnapshot b, startContractTreeSnapshot b, startTreeOfHistoricPrivateDataTreeRootsSnapshot b,
      startTreeOfHistoricContractTreeRootsSnapshot b, startL1ToL2MessageTreeSnapshot b, startTreeOfHistoricL1ToL2MessageTreeRootsSnapshot b,
      endPrivateDataTreeSnapshot b, endNullifierTreeSnapshot b, endContractTreeSnapshot b, endTreeOfHistoricPrivateDataTreeRootsSnapshot b,
      endTreeOfHistoricContractTreeRootsSnapshot b, endL1ToL2MessageTreeSnapshot b, endTreeOfHistoricL1ToL2MessageTreeRootsSnapshot b] @
     map int [length (newCommitments b), length (newNullifiers b), length (newPublicDataWrites b), length (newL2ToL1Msgs b), length (newContracts b),
       length (newL1ToL2Messages b)]"

lemma encode_total:
  assumes "list_all word_ok (block_numbers b)" "newEncryptedLogs b = Some l" "L2BlockL2Logs_getSerializedLength l < 2 ^ 32"
  shows "\<exists>bs. L2Block_encode b = Inr bs"
proof -
  have "length (block_payload l) < 2 ^ 32" using assms(3) by (simp add: length_block_payload)
  from L2BlockL2Logs_toBuffer_prefixed[OF this] have logs: "\<exists>bs. L2BlockL2Logs_toBuffer l = Inr bs" by blast
  have writes: "\<exists>bs. PublicDataWrite_toBuffer x = Inr bs" for x unfolding PublicDataWrite_toBuffer_def by (rule serializable_total) simp
  have contracts: "\<exists>bs. ContractData_toBuffer c = Inr bs" for c unfolding ContractData_toBuffer_def by (rule serializable_total) simp
  have frs: "serializable (fr_items xs)" for xs by (simp add: fr_items_def objects_serializable)
  have "serializable (start_items b)" "serializable (end_items b)"
    using assms(1) unfolding start_items_def end_items_def by (simp_all add: block_numbers_def snapshot_total)
  then show ?thesis unfolding L2Block_encode_def
    by (intro serializable_total(2)) (use assms(1,2) logs frs writes contracts in \<open>simp add: block_numbers_def objects_serializable\<close>)
qed

lemma count_bounds:
  assumes "world_inv env w" "i \<noteq> PUBLIC_DATA_TREE"
  shows "0 \<le> snd (world_leaves env True w i)"
proof (cases "i = NULLIFIER_TREE")
  case True
  obtain t where "the_tree w NULLIFIER_TREE = Indexed t" "idx_inv env t" using the_tree_class(2)[OF assms(1)] by blast
  then show ?thesis using True by (auto simp: world_leaves_def leaf_view_def idx_inv_def idx_view_ok_def linked_def it_getNumLeaves_def intro: less_imp_le)
next
  case False
  then obtain t where "the_tree w i = Standard t" "standard_inv env (treeHeight i) t" using the_tree_class(1)[OF assms(1)] assms(2) by blast
  then show ?thesis by (simp add: world_leaves_def leaf_view_def standard_inv_def)
qed

lemma standard_spec_bound: "snd v \<le> 2 ^ d \<Longrightarrow> snd (standard_spec d xs v) \<le> 2 ^ d"
  by (cases v) (simp add: standard_spec_def)

lemma built_counts:
  assumes ok: "buildable B w txs ms" and run: "buildL2Block B n txs ms w = (Inr (b, p), w')" and i: "i \<noteq> PUBLIC_DATA_TREE"
  shows "0 \<le> snd (world_leaves (bb_trees B) True w i) \<and> snd (world_leaves (bb_trees B) True w i) \<le> 2 ^ 8"
    and "0 \<le> snd (world_leaves (bb_trees B) True w' i) \<and> snd (world_leaves (bb_trees B) True w' i) \<le> 2 ^ 8"
proof -
  let ?env = "bb_trees B"
  note k = ok[unfolded buildable_def Let_def]
  have inv: "world_inv ?env w" and settled: "world_view ?env True w = world_view ?env False w" using k by blast+
  have e: "block_applied ?env (b\<lparr>newL1ToL2Messages := padded_messages ms\<rparr>) w w' True" "world_inv ?env w'"
    "snd (world_leaves ?env True w L1_TO_L2_MESSAGES_TREE) + 16 \<le> 2 ^ 8"
    "snd (world_leaves ?env True w' NULLIFIER_TREE) = snd (world_leaves ?env True w NULLIFIER_TREE) + int (length (tx_nullifiers txs))"
    using build_effect[OF ok run] by blast+
  have same: "world_leaves ?env False w j = world_leaves ?env True w j" for j using world_leaves_cong[OF inv inv, of False j True] settled by simp
  have c: "snd (world_leaves ?env True w j) \<le> 2 ^ 8" if "j \<noteq> PUBLIC_DATA_TREE" for j
    using k e(3) that by (cases j) auto
  have "snd (world_leaves ?env True w' i) \<le> 2 ^ 8"
    using e(1,4) k i by (cases i) (auto simp: block_applied_def same roots_pairs_def intro!: standard_spec_bound[of _ 8, simplified] c[simplified])
  then show "0 \<le> snd (world_leaves ?env True w i) \<and> snd (world_leaves ?env True w i) \<le> 2 ^ 8"
    "0 \<le> snd (world_leaves ?env True w' i) \<and> snd (world_leaves ?env True w' i) \<le> 2 ^ 8"
    using c[OF i] count_bounds[OF inv i] count_bounds[OF e(2) i] by simp_all
qed

lemma built_encodes:
  assumes ok: "buildable B w txs ms" and run: "buildL2Block B n txs ms w = (Inr (b, p), w')" and n: "word_ok n"
    and len: "list_all word_ok (map int [length (tx_commitments txs), length (tx_nullifiers txs), length (tx_public_data_writes txs),
      length (tx_l2_to_l1_msgs txs), length (concat (map (\<lambda>t. cad_newContracts (kpi_end (ptx_data t))) txs))])"
    and logs: "L2BlockL2Logs_getSerializedLength (tx_logs txs) < 2 ^ 32"
  shows "\<exists>bs. L2Block_encode b = Inr bs"
proof -
  let ?env = "bb_trees B"
  obtain cs where e: "tx_contract_leaves B txs = Inr cs" "block_of_txs txs cs ms b" "blk_number b = n" "start_matches ?env w b" "end_matches ?env w' b" "length ms \<le> 16"
    using build_effect[OF ok run] by blast
  have cs: "length cs = length (concat (map (\<lambda>t. cad_newContracts (kpi_end (ptx_data t))) txs))"
    using e(1) by (auto simp: tx_contract_leaves_def rtraverse_Inr dest: list_all2_lengthD)
  have num: "word_ok (js_Number c)" if "0 \<le> c \<and> c \<le> 2 ^ 8" for c using that by (simp add: word_ok_def)
  note counts = num[OF built_counts(1)[OF ok run]] num[OF built_counts(2)[OF ok run]]
  have "list_all word_ok (block_numbers b)"
    using e(2-6) n len counts by (simp add: block_numbers_def block_of_txs_def start_matches_def end_matches_def snapshot_matches_def tree_snapshot_def cs)
      (simp add: word_ok_def)
  then show ?thesis using e(2) logs by (intro encode_total) (auto simp: block_of_txs_def)
qed

section \<open>A round over private transactions\<close>

text \<open>A sequencer whose pool holds private transactions with given outputs of the kernel, and its parameters.\<close>

definition pool_of :: "kernel_public_inputs list \<Rightarrow> tx_pool" where
  "pool_of ds = zip (map int [0..<length ds]) (map sample_private_tx ds)"

definition sample_sequencer :: "(string \<times> buffer) list merkle_trees \<Rightarrow> kernel_public_inputs list \<Rightarrow> (string \<times> buffer) list sequencer" where
  "sample_sequencer w ds = new_Sequencer new_L1Publisher (new_P2PClient 1 (empty_service\<lparr>svc_pool := pool_of ds\<rparr>)) (new_Synchroniser w 1) (new_Archiver 0) None"

definition sample_sequencer_env :: "(string \<times> buffer) list block_builder \<Rightarrow> tx_sender \<Rightarrow> (string \<times> buffer) list sequencer_env" where
  "sample_sequencer_env B S = \<lparr>sq_blockBuilder = B, sq_processor = sample_processor, sq_p2pEnv = \<lparr>p2pEnv = sample_env, startNode = Inr ()\<rparr>,
     sq_sender = S, sq_rounds = 9\<rparr>"

text \<open>What a private transaction needs to pass: data that fits its encoding, no enqueued public calls, and nullifiers that are not in the tree.\<close>

definition plain_data :: "int set \<Rightarrow> kernel_public_inputs \<Rightarrow> bool" where
  "plain_data S d \<longleftrightarrow> KernelCircuitPublicInputs_ok d \<and> isArrayEmpty (cad_publicCallStack (kpi_end d)) Fr_isZero \<and>
     (\<forall>n \<in> set (cad_newNullifiers (kpi_end d)). fr_value n \<noteq> 0 \<longrightarrow> fr_value n \<notin> S)"

lemma empty_array_length: "isArrayEmpty xs e \<Longrightarrow> arrayNonEmptyLength xs e = 0"
proof -
  have "isArrayEmpty xs e \<Longrightarrow> foldl (\<lambda>sum item. if e item then sum else sum + 1) k xs = k" for k :: nat by (induction xs) (auto split: if_splits)
  then show "isArrayEmpty xs e \<Longrightarrow> arrayNonEmptyLength xs e = 0" by (simp add: arrayNonEmptyLength_def)
qed

lemma sample_plain:
  assumes "plain_data S d"
  shows "tx_ok (sample_private_tx d)" "isPrivateTx (sample_private_tx d)" "nullifiers_ok (sample_private_tx d)" "\<exists>h. Tx_getTxHash H (sample_private_tx d) = Inr h"
    "processTx E w roots (sample_private_tx d) s = Some (makeProcessedTx (pr_hashes E) (sample_private_tx d) None, s)"
    "\<exists>p. makeProcessedTx H (sample_private_tx d) None = Inr p \<and> ptx_data p = d \<and> ptx_encryptedLogs p = Some \<lparr>functionLogs = []\<rparr>"
proof -
  have d: "KernelCircuitPublicInputs_ok d" "isArrayEmpty (cad_publicCallStack (kpi_end d)) Fr_isZero" using assms by (simp_all add: plain_data_def)
  show "tx_ok (sample_private_tx d)" using d empty_array_length[OF d(2)]
    by (simp add: tx_ok_def sample_private_tx_def new_Tx_def Proof_ok_def makeEmptyProof_def TxL2Logs_getSerializedLength_def)
  show priv: "isPrivateTx (sample_private_tx d)" by (simp add: isPrivateTx_def sample_private_tx_def)
  show "nullifiers_ok (sample_private_tx d)"
    using d(1) by (simp add: nullifiers_ok_def sample_private_tx_def KernelCircuitPublicInputs_ok_def CombinedAccumulatedData_ok_def)
  obtain n ns where n: "cad_newNullifiers (kpi_end d) = n # ns" "fr_ok n"
    using d(1) by (cases "cad_newNullifiers (kpi_end d)") (auto simp: KernelCircuitPublicInputs_ok_def CombinedAccumulatedData_ok_def KERNEL_NEW_NULLIFIERS_LENGTH_def)
  then have "\<exists>h. rbind (rbind (js_at (cad_newNullifiers (kpi_end d)) 0) Fr_toBuffer) new_TxHash = Inr h"
    using Fr_toBuffer_bytes[of n] by (simp add: js_at_def fr_ok_def new_TxHash_def length_be_bytes TxHash_SIZE_def)
  then show h: "\<exists>h. Tx_getTxHash H (sample_private_tx d) = Inr h" for H
    using priv by (simp add: Tx_getTxHash_def) (simp add: sample_private_tx_def)
  have "\<not> has_enqueued_calls (sample_private_tx d)" using d(2) by (simp add: has_enqueued_calls_def sample_private_tx_def)
  moreover have "tx_txRequest (sample_private_tx d) = None" by (simp add: sample_private_tx_def)
  ultimately show "processTx E w roots (sample_private_tx d) s = Some (makeProcessedTx (pr_hashes E) (sample_private_tx d) None, s)"
    using priv by (simp add: processTx_def)
  obtain k where "Tx_getTxHash H (sample_private_tx d) = Inr k" using h by blast
  then show "\<exists>p. makeProcessedTx H (sample_private_tx d) None = Inr p \<and> ptx_data p = d \<and> ptx_encryptedLogs p = Some \<lparr>functionLogs = []\<rparr>"
    by (simp add: makeProcessedTx_def) (simp add: sample_private_tx_def)
qed

lemma process_plain:
  assumes "\<forall>d \<in> set ds. plain_data S d"
  shows "\<exists>ps. process_loop E w roots (map sample_private_tx ds) processed [] s = Some (Inr (processed @ ps, []), s) \<and> map ptx_data ps = ds \<and>
    (\<forall>p \<in> set ps. ptx_encryptedLogs p = Some \<lparr>functionLogs = []\<rparr>)"
  using assms
proof (induction ds arbitrary: processed)
  case (Cons d ds)
  obtain p where p: "processTx E w roots (sample_private_tx d) s = Some (Inr p, s)" "ptx_data p = d" "ptx_encryptedLogs p = Some \<lparr>functionLogs = []\<rparr>"
    using sample_plain(5)[of S d E w roots s] sample_plain(6)[of S d "pr_hashes E"] Cons.prems by auto
  obtain h where h: "Tx_getTxHash (pr_hashes E) (sample_private_tx d) = Inr h" using sample_plain(4)[of S d] Cons.prems by auto
  obtain ps where "process_loop E w roots (map sample_private_tx ds) (processed @ [p]) [] s = Some (Inr ((processed @ [p]) @ ps, []), s)" "map ptx_data ps = ds"
    "\<forall>p \<in> set ps. ptx_encryptedLogs p = Some \<lparr>functionLogs = []\<rparr>"
    using Cons.IH[of "processed @ [p]"] Cons.prems by auto
  then show ?case using p h by (intro exI[of _ "p # ps"]) simp
qed simp

lemma empty_processed_total: "\<exists>e. processor_makeEmptyProcessedTx sample_processor w = Inr e"
proof -
  obtain f where "\<And>b. fr_of_buffer b = Inr (f b)" using fr_of_buffer_total by metis
  then obtain r where r: "getCombinedHistoricTreeRoots w = Inr r" by (simp add: getCombinedHistoricTreeRoots_def Let_def)
  have "(case KernelCircuitPublicInputs_empty of Inr d \<Rightarrow> isArrayEmpty (cad_publicCallStack (kpi_end d)) Fr_isZero \<and>
      (case rbind (rbind (js_at (cad_newNullifiers (kpi_end d)) 0) Fr_toBuffer) new_TxHash of Inr _ \<Rightarrow> True | _ \<Rightarrow> False) | Inl _ \<Rightarrow> False)" by code_simp
  then obtain d h where d: "KernelCircuitPublicInputs_empty = Inr d" "isArrayEmpty (cad_publicCallStack (kpi_end d)) Fr_isZero"
    "rbind (rbind (js_at (cad_newNullifiers (kpi_end d)) 0) Fr_toBuffer) new_TxHash = Inr h" by (auto split: sum.splits)
  have "Tx_createPrivate (Some (d\<lparr>kpi_constants := k\<rparr>)) (Some makeEmptyProof) \<lparr>functionLogs = []\<rparr> [] [] = Inr (sample_private_tx (d\<lparr>kpi_constants := k\<rparr>))" for k
    using empty_array_length[OF d(2)] by (simp add: Tx_createPrivate_def new_Tx_def sample_private_tx_def)
  moreover have "Tx_getTxHash H (sample_private_tx (d\<lparr>kpi_constants := k\<rparr>)) = Inr h" for H k
    using d(3) by (simp add: Tx_getTxHash_def isPrivateTx_def sample_private_tx_def)
  ultimately show ?thesis unfolding processor_makeEmptyProcessedTx_def makeEmptyProcessedTx_def d(1) r by simp
qed

lemma no_pending_messages: "sq_archiver s = new_Archiver 0 \<Longrightarrow> getPendingL1ToL2Messages s = Inr []"
  by (simp add: getPendingL1ToL2Messages_def Archiver_getPendingL1ToL2Messages_def getPendingL1ToL2MessageKeys_def getMessageKeys_def new_Archiver_def
      new_MemoryArchiverStore_def)

lemma sample_state:
  "trees_of (sample_sequencer w ds) = w" "sq_archiver (sample_sequencer w ds) = new_Archiver 0" "sq_publisher (sample_sequencer w ds) = new_L1Publisher"
  "lastPublishedBlock (sample_sequencer w ds) = 0" "minTxsPerBLock (sample_sequencer w ds) = 1" "maxTxsPerBlock (sample_sequencer w ds) = 32"
  "sq_state (sample_sequencer w ds) = SEQ_STOPPED" "isBlockSynced (sample_sequencer w ds)" "sq_draws (sample_sequencer w ds) = 0"
  by (simp_all add: sample_sequencer_def new_Sequencer_def trees_of_def new_Synchroniser_def config_number_def isBlockSynced_def Synchroniser_status_def
      client_getStatus_def new_P2PClient_def)

lemma sample_pending:
  assumes "\<forall>d \<in> set ds. plain_data S d"
  shows "client_getTxs (sq_p2pEnv (sample_sequencer_env B sender)) (sq_p2pClient (sample_sequencer w ds)) = Inr (map sample_private_tx ds)"
proof -
  let ?txs = "map sample_private_tx ds"
  have "client_getTxs (sq_p2pEnv (sample_sequencer_env B sender)) (sq_p2pClient (sample_sequencer w ds)) = rtraverse (Tx_clone (\<lambda>r. r)) ?txs"
    by (simp add: client_getTxs_def sample_sequencer_env_def sample_sequencer_def new_Sequencer_def new_P2PClient_def sample_env_def InMemoryTxPool_getAllTxs_def pool_of_def)
  also have "\<dots> = Inr (map (\<lambda>t. t) ?txs)" using assms sample_plain(1) by (intro rtraverse_map) (auto intro!: tx_clone_id)
  finally show ?thesis by simp
qed

lemma sample_taken:
  assumes inv: "world_inv mem_env w" and S: "world_nullifiers mem_env True w = S" "\<forall>v \<in> S. v < 256 ^ 32"
    and ds: "\<forall>d \<in> set ds. plain_data S d" "length ds \<le> 32"
  shows "take_valid_loop (pr_hashes sample_processor) mem_env 32 w (map sample_private_tx ds) [] [] [] = Inr (map sample_private_tx ds, [], [])"
proof -
  let ?txs = "map sample_private_tx ds"
  have valid: "filter (\<lambda>t. \<not> double_spend mem_env w t) pre = pre" "filter (double_spend mem_env w) pre = []" if "set pre \<subseteq> set ?txs" for pre
    using that ds(1) S(1) by (auto simp: filter_id_conv filter_empty_conv double_spend_def plain_data_def sample_private_tx_def)
  have "\<forall>t \<in> set ?txs. nullifiers_ok t \<and> (\<exists>h. Tx_getTxHash (pr_hashes sample_processor) t = Inr h)" using ds(1) sample_plain(3,4) by auto
  note loop' = take_loop[OF inv _ this, of "[]" 32 "[]", unfolded append_Nil list.size(3) add_0]
  have fit: "\<forall>v \<in> world_nullifiers mem_env True w. v < 256 ^ 32" "(0 :: nat) < 32" using S by simp_all
  from loop'[OF fit] obtain pre rest where t: "?txs = pre @ rest"
    "take_valid_loop (pr_hashes sample_processor) mem_env 32 w ?txs [] [] [] = Inr (filter (\<lambda>t. \<not> double_spend mem_env w t) pre, filter (double_spend mem_env w) pre, [])"
    "length (filter (\<lambda>t. \<not> double_spend mem_env w t) pre) \<le> 32" "rest = [] \<or> length (filter (\<lambda>t. \<not> double_spend mem_env w t) pre) = 32"
    by (elim exE conjE)
  have sub: "set pre \<subseteq> set ?txs" unfolding t(1) by simp
  have "length ?txs = length pre + length rest" using arg_cong[OF t(1), of length] by simp
  then have "rest = []" using t(4) ds(2) valid[OF sub] by auto
  then show ?thesis using t(1,2) valid[OF sub] by simp
qed

lemma sample_round:
  assumes inv: "world_inv mem_env w" and S: "world_nullifiers mem_env True w = S" "\<forall>v \<in> S. v < 256 ^ 32"
    and ds: "\<forall>d \<in> set ds. plain_data S d" "ds \<noteq> []" "length ds \<le> 32"
  obtains ps e s where "\<forall>B sender. bb_trees B = mem_env \<longrightarrow> work_body (sample_sequencer_env B sender) (sample_sequencer w ds) =
      obind (olift (sequencer_buildBlock (sample_sequencer_env B sender) ps [] e)) (\<lambda>block.
      obind (publishContractPublicData (sample_sequencer_env B sender) (map sample_private_tx ds) block) (\<lambda>_. publishL2Block (sample_sequencer_env B sender) block)) s"
    "map ptx_data ps = ds" "\<forall>p \<in> set ps. ptx_encryptedLogs p = Some \<lparr>functionLogs = []\<rparr>"
    "trees_of s = w" "sq_archiver s = new_Archiver 0" "sq_publisher s = new_L1Publisher" "lastPublishedBlock s = 0"
proof -
  let ?s = "sample_sequencer w ds" and ?txs = "map sample_private_tx ds"
  note st = sample_state[of w ds]
  obtain f where "\<And>b. fr_of_buffer b = Inr (f b)" using fr_of_buffer_total by metis
  then obtain roots where roots: "WorldStateDB_getTreeRoots w = Inr roots" by (simp add: WorldStateDB_getTreeRoots_def Let_def)
  obtain ps where ps: "process sample_processor w roots ?txs \<lparr>ps_cache = Map.empty, ps_draws = 0\<rparr> = Some (Inr (ps, []), \<lparr>ps_cache = Map.empty, ps_draws = 0\<rparr>)" "map ptx_data ps = ds"
    "\<forall>p \<in> set ps. ptx_encryptedLogs p = Some \<lparr>functionLogs = []\<rparr>"
    using process_plain[OF ds(1), of sample_processor w roots "[]" "\<lparr>ps_cache = Map.empty, ps_draws = 0\<rparr>"] by (auto simp: process_def)
  obtain e where e: "processor_makeEmptyProcessedTx sample_processor w = Inr e" using empty_processed_total by blast
  let ?s' = "?s\<lparr>sq_state := SEQ_CREATING_BLOCK, sq_draws := 0\<rparr>"
  have s': "trees_of ?s' = w" "getPendingL1ToL2Messages ?s' = Inr []" using st(1,2) no_pending_messages[of ?s'] by (simp_all add: trees_of_def)
  have ne: "ps \<noteq> []" using ps(2) ds(2) by auto
  have len: "\<not> length ?txs < 1" using ds(2) by (cases ds) auto
  have step: "m s = Some (Inr x, s') \<Longrightarrow> obind m f s = f x s'" for m :: "('s, 'a) ojs" and f :: "'a \<Rightarrow> ('s, 'b) ojs" and s x s' by (simp add: obind_def)
  have "work_body (sample_sequencer_env B sender) ?s =
      obind (olift (sequencer_buildBlock (sample_sequencer_env B sender) ps [] e)) (\<lambda>block.
      obind (publishContractPublicData (sample_sequencer_env B sender) ?txs block) (\<lambda>_. publishL2Block (sample_sequencer_env B sender) block)) ?s'"
    if B: "bb_trees B = mem_env" for B sender
  proof -
    let ?E = "sample_sequencer_env B sender"
    have proc: "sq_processor ?E = sample_processor" by (simp add: sample_sequencer_env_def)
    have take: "takeValidTxs ?E ?txs (?s\<lparr>sq_state := x\<rparr>) = (Inr ?txs, ?s\<lparr>sq_state := x\<rparr>)" for x
      using sample_taken[OF inv S ds(1,3)] st(1,6) B by (simp add: takeValidTxs_def jbind_def sample_sequencer_env_def trees_of_def)
    have "trees_of (?s\<lparr>sq_state := x\<rparr>) = w" for x using st(1) by (simp add: trees_of_def)
    then have run: "run_processor ?E ?txs (?s\<lparr>sq_state := SEQ_CREATING_BLOCK\<rparr>) = Some (Inr (ps, []), ?s')"
      using ps(1) roots st(9) by (simp add: run_processor_def create_processor_def sample_sequencer_env_def)
    have "make_block ?E ?txs (?s\<lparr>sq_state := SEQ_WAITING_FOR_TXS\<rparr>) =
        obind (olift (sequencer_buildBlock ?E ps [] e)) (\<lambda>block. obind (publishContractPublicData ?E ?txs block) (\<lambda>_. publishL2Block ?E block)) ?s'"
      using run ne s' e unfolding make_block_def by (simp add: step proc set_state_def jgets_def jbind_def)
    then show ?thesis using st(5,7,8) sample_pending[OF ds(1)] take[of SEQ_WAITING_FOR_TXS] len unfolding work_body_def
      by (simp add: step set_state_def jgets_def jbind_def)
  qed
  then have "\<forall>B sender. bb_trees B = mem_env \<longrightarrow> work_body (sample_sequencer_env B sender) ?s =
      obind (olift (sequencer_buildBlock (sample_sequencer_env B sender) ps [] e)) (\<lambda>block.
      obind (publishContractPublicData (sample_sequencer_env B sender) ?txs block) (\<lambda>_. publishL2Block (sample_sequencer_env B sender) block)) ?s'" by blast
  from that[OF this ps(2,3)] show thesis using st s' by simp
qed

section \<open>A round that builds a block\<close>

text \<open>The builder looks only at the output of the kernel of a transaction when it comes to accepting it.\<close>

definition blank_tx :: "kernel_public_inputs \<Rightarrow> processed_tx" where
  "blank_tx d = \<lparr>ptx_hash = \<lparr>th_buffer = []\<rparr>, ptx_data = d, ptx_proof = empty_proof, ptx_encryptedLogs = None, ptx_txRequest = None, ptx_isEmpty = False\<rparr>"

lemma blank_data [simp]: "ptx_data (blank_tx d) = d"
  by (simp add: blank_tx_def)

lemma tx_lists_data:
  "tx_commitments xs = tx_commitments (map blank_tx (map ptx_data xs))" "tx_nullifiers xs = tx_nullifiers (map blank_tx (map ptx_data xs))"
  "tx_public_data_writes xs = tx_public_data_writes (map blank_tx (map ptx_data xs))"
  "tx_l2_to_l1_msgs xs = tx_l2_to_l1_msgs (map blank_tx (map ptx_data xs))" "tx_requests xs = tx_requests (map blank_tx (map ptx_data xs))"
  by (simp_all add: tx_commitments_def tx_nullifiers_def tx_public_data_writes_def tx_l2_to_l1_msgs_def tx_requests_def comp_def)

lemma validate_data: "validateTxs xs = validateTxs (map blank_tx (map ptx_data xs))"
proof -
  have "rtraverse validateTx xs = rtraverse validateTx (map blank_tx (map ptx_data xs))"
  proof (induction xs)
    case (Cons x xs)
    have "validateTx x = validateTx (blank_tx (ptx_data x))" by (simp add: validateTx_def)
    then show ?case using Cons by simp
  qed simp
  then show ?thesis by (simp add: validateTxs_def)
qed

lemma fits_data: "tx_fits x = tx_fits (blank_tx (ptx_data x))"
  by (simp add: tx_fits_def)

lemma complete_data: "tx_complete x \<and> roots_known env w x \<longleftrightarrow> tx_complete (blank_tx (ptx_data x)) \<and> roots_known env w (blank_tx (ptx_data x))"
  unfolding tx_complete_def roots_known_def tx_historic_roots_def blank_data fits_data[of x] ..

lemma all_data:
  "(\<forall>t \<in> set xs. tx_complete t \<and> roots_known env w t) \<longleftrightarrow> (\<forall>t \<in> set (map blank_tx (map ptx_data xs)). tx_complete t \<and> roots_known env w t)"
  "(\<forall>t \<in> set xs. tx_fits t) \<longleftrightarrow> (\<forall>t \<in> set (map blank_tx (map ptx_data xs)). tx_fits t)"
  using complete_data[of _ env w] fits_data by auto

lemma quad_data: "quad_ok env w xs ms = quad_ok env w (map blank_tx (map ptx_data xs)) ms"
  unfolding quad_ok_def all_data(1)[of xs] validate_data[of xs] tx_lists_data(2)[of xs] by simp

lemma buildable_data: "buildable B w xs ms = buildable B w (map blank_tx (map ptx_data xs)) ms"
  unfolding buildable_def all_data(2)[of xs] tx_lists_data(2)[of xs] tx_lists_data(5)[of xs] ..

lemma data_cong:
  assumes "map ptx_data xs = map ptx_data ys"
  shows "quad_ok env w xs ms = quad_ok env w ys ms" "buildable B w xs ms = buildable B w ys ms"
  unfolding quad_data[of env w xs] quad_data[of env w ys] buildable_data[of B w xs] buildable_data[of B w ys] assms by (rule refl)+

lemma sample_data_plain:
  assumes "KernelCircuitPublicInputs_empty = Inr d" "KernelCircuitPublicInputs_ok d"
  shows "\<forall>x \<in> set (map ptx_data (sample_txs d)). plain_data {0..7} x"
proof -
  have "(case KernelCircuitPublicInputs_empty of Inr d \<Rightarrow> isArrayEmpty (cad_publicCallStack (kpi_end d)) Fr_isZero | _ \<Rightarrow> False)" by code_simp
  then have stack: "isArrayEmpty (cad_publicCallStack (kpi_end d)) Fr_isZero" unfolding assms(1) by simp
  have "plain_data {0..7} (ptx_data (sample_tx d c n))" if "fr_ok c" "fr_ok n" "fr_value n \<notin> {1..7}" for c n
    using that assms(2) stack
    by (auto simp: plain_data_def sample_tx_def KernelCircuitPublicInputs_ok_def CombinedAccumulatedData_ok_def CombinedConstantData_ok_def
        CombinedHistoricTreeRoots_ok_def PrivateHistoricTreeRoots_ok_def PublicDataUpdateRequest_ok_def PublicDataUpdateRequest_empty_def sample_root_def
        KERNEL_NEW_COMMITMENTS_LENGTH_def KERNEL_NEW_NULLIFIERS_LENGTH_def KERNEL_PUBLIC_DATA_UPDATE_REQUESTS_LENGTH_def Fr_ZERO_def new_Fr_def fr_ok_def)
  then show ?thesis by (simp add: sample_txs_def fr_ok_def new_Fr_def Fr_ZERO_def)
qed

definition first_clock :: l1_publisher where
  "first_clock = \<lparr>interrupted = False, l1_clock = 1\<rparr>"

lemma no_contracts:
  assumes "sender_emitContractDeploymentTx S 0 num h [] = Inr []" "\<not> interruptedDuring S 0"
  shows "processNewContractData 9 S num h [] new_L1Publisher = Some (False, first_clock)"
  using assms by (simp add: processNewContractData_def new_L1Publisher_def checkFeeDistributorBalance_def numeral_eq_Suc await_def first_clock_def List.map_filter_simps Let_def)

lemma no_new_contracts: "contracts_to_publish (map sample_private_tx ds) = Inr []"
proof -
  have "new_contract_of (sample_private_tx d) = Inr None" for d by (simp add: new_contract_of_def sample_private_tx_def split: list.split)
  then have "rtraverse new_contract_of (filter isPrivateTx (map sample_private_tx ds)) = Inr (map (\<lambda>_. None) (filter isPrivateTx (map sample_private_tx ds)))"
    by (intro rtraverse_map) auto
  moreover have "List.map_filter id (map (\<lambda>_. None) xs) = []" for xs :: "tx list" by (induction xs) (simp_all add: List.map_filter_simps)
  ultimately show ?thesis by (simp add: contracts_to_publish_def)
qed

lemma built_calldata: "buildL2Block B n txs ms w = (Inr (b, p), w') \<Longrightarrow> \<exists>h. L2Block_getCalldataHash (bb_sha256 B) b = Inr (Some h)"
  by (auto simp: buildL2Block_def jbind_eq_Inr Let_def check_calldata_hash_def split: prod.splits option.splits)

text \<open>A round that comes as far as a block.\<close>

lemma pad_four: "length ps = 4 \<Longrightarrow> pad_txs ps e = ps"
proof -
  have "ceilPowerOfTwo 4 = 4" by (simp add: ceilPowerOfTwo_def) code_simp
  then show "length ps = 4 \<Longrightarrow> pad_txs ps e = ps" by (simp add: pad_txs_def)
qed

lemma tx_list_lengths:
  assumes "map ptx_data ps = map ptx_data (sample_txs d)" "KernelCircuitPublicInputs_ok d"
  shows "list_all word_ok (map int [length (tx_commitments ps), length (tx_nullifiers ps), length (tx_public_data_writes ps),
      length (tx_l2_to_l1_msgs ps), length (concat (map (\<lambda>t. cad_newContracts (kpi_end (ptx_data t))) ps))])"
proof -
  have "length (concat (map (\<lambda>t. f (ptx_data t)) ps)) \<le> 4 * n" if "\<forall>x \<in> set (map ptx_data (sample_txs d)). length (f x) \<le> n" for f :: "kernel_public_inputs \<Rightarrow> 'z list" and n
  proof -
    have "length (concat (map (\<lambda>t. f (ptx_data t)) ps)) = sum_list (map (\<lambda>x. length (f x)) (map ptx_data (sample_txs d)))"
      unfolding assms(1)[symmetric] by (simp add: length_concat comp_def)
    also have "\<dots> \<le> 4 * n" using that by (simp add: sample_txs_def)
    finally show ?thesis .
  qed
  note len = this
  show ?thesis using assms(2)
    len[of "\<lambda>x. cad_newCommitments (kpi_end x)" 4] len[of "\<lambda>x. cad_newNullifiers (kpi_end x)" 4]
    len[of "\<lambda>x. map (\<lambda>u. \<lparr>leafIndex = pdu_leafIndex u, newValue = pdu_newValue u\<rparr>) (cad_publicDataUpdateRequests (kpi_end x))" 4]
    len[of "\<lambda>x. cad_newL2ToL1Msgs (kpi_end x)" 2] len[of "\<lambda>x. cad_newContracts (kpi_end x)" 1]
    by (simp add: word_ok_def tx_commitments_def tx_nullifiers_def tx_public_data_writes_def tx_l2_to_l1_msgs_def sample_txs_def sample_tx_def
        KernelCircuitPublicInputs_ok_def CombinedAccumulatedData_ok_def KERNEL_NEW_CONTRACTS_LENGTH_def KERNEL_NEW_L2_TO_L1_MSGS_LENGTH_def)
qed

lemma sample_logs:
  assumes "length ps = 4" "\<forall>p \<in> set ps. ptx_encryptedLogs p = Some \<lparr>functionLogs = []\<rparr>"
  shows "L2BlockL2Logs_getSerializedLength (tx_logs ps) < 2 ^ 32"
proof -
  obtain a b c d where "ps = [a, b, c, d]" using assms(1) by (auto simp: length_Suc_conv numeral_eq_Suc)
  then show ?thesis using assms(2) by (simp add: tx_logs_def L2BlockL2Logs_getSerializedLength_def TxL2Logs_getSerializedLength_def)
qed

text \<open>The sample sequencer, up to the publication of the block it builds.\<close>

lemma sample_block_built:
  obtains w ds B block s where "world_inv mem_env w" "bb_trees B = mem_env" "trees_of (sample_sequencer w ds) = w"
    "\<And>sender. work_body (sample_sequencer_env B sender) (sample_sequencer w ds) =
       obind (publishContractPublicData (sample_sequencer_env B sender) (map sample_private_tx ds) block) (\<lambda>_. publishL2Block (sample_sequencer_env B sender) block) s"
    "sq_publisher s = new_L1Publisher" "blk_number block = 1" "\<exists>h. L2Block_getCalldataHash (bb_sha256 B) block = Inr (Some h)" "\<exists>inputs. L2Block_encode block = Inr inputs"
proof -
  have none: "length ([] :: fr list) \<le> 16" "\<forall>m \<in> set []. fr_ok m" by simp_all
  obtain w d where "MerkleTrees_new mem_env [] = Inr w"
    and w: "world_inv mem_env w" "KernelCircuitPublicInputs_empty = Inr d" "KernelCircuitPublicInputs_ok d" "world_nullifiers mem_env True w = {0..7}"
    and quad: "quad_ok mem_env w (sample_txs d) []"
    and can: "\<forall>B. bb_trees B = mem_env \<longrightarrow> computeContractLeaf B = (\<lambda>_. Inr Fr_ZERO) \<longrightarrow> buildable B w (sample_txs d) []"
      "\<forall>b i. i \<notin> root_trees \<union> {NULLIFIER_TREE} \<longrightarrow> world_leaves mem_env b w i = ((\<lambda>_. INITIAL_LEAF), 0)"
    by (rule sample_quad[OF none])
  let ?ds = "map ptx_data (sample_txs d)"
  have four: "length ?ds = 4" by (simp add: sample_txs_def)
  have ds: "?ds \<noteq> []" "length ?ds \<le> 32" "\<forall>v \<in> {0..7 :: int}. v < 256 ^ 32" using four by auto
  obtain ps e s where r: "\<forall>B sender. bb_trees B = mem_env \<longrightarrow> work_body (sample_sequencer_env B sender) (sample_sequencer w ?ds) =
      obind (olift (sequencer_buildBlock (sample_sequencer_env B sender) ps [] e)) (\<lambda>block.
      obind (publishContractPublicData (sample_sequencer_env B sender) (map sample_private_tx ?ds) block) (\<lambda>_. publishL2Block (sample_sequencer_env B sender) block)) s"
    and ps: "map ptx_data ps = ?ds" "\<forall>p \<in> set ps. ptx_encryptedLogs p = Some \<lparr>functionLogs = []\<rparr>"
    and s: "trees_of s = w" "sq_archiver s = new_Archiver 0" "sq_publisher s = new_L1Publisher" "lastPublishedBlock s = 0"
    by (rule sample_round[OF w(1,4) ds(3) sample_data_plain[OF w(2,3)] ds(1,2)])
  have len: "length ps = 4" using arg_cong[OF ps(1), of length] four by simp
  obtain B b p w' where B: "bb_trees B = mem_env" "computeContractLeaf B = (\<lambda>_. Inr Fr_ZERO)" "buildL2Block B 1 ps [] w = (Inr (b, p), w')"
    using quad_builds[of mem_env w ps "[]" 1] quad data_cong(1)[OF ps(1)] by blast
  have ok: "buildable B w ps []" unfolding data_cong(2)[OF ps(1)] using can B(1,2) by blast
  have "sequencer_buildBlock (sample_sequencer_env B sender) ps [] e s = (Inr b, s\<lparr>sq_worldState := (sq_worldState s)\<lparr>merkleTreeDb := w'\<rparr>\<rparr>)" for sender
    using B(3) s(1,2) pad_four[OF len, of e]
    by (simp add: sequencer_buildBlock_def jbind_def on_trees_def sample_sequencer_env_def Archiver_getBlockHeight_def new_Archiver_def getBlockHeight_def INITIAL_L2_BLOCK_NUM_def new_MemoryArchiverStore_def)
  then have run: "work_body (sample_sequencer_env B sender) (sample_sequencer w ?ds) =
      obind (publishContractPublicData (sample_sequencer_env B sender) (map sample_private_tx ?ds) b) (\<lambda>_. publishL2Block (sample_sequencer_env B sender) b)
        (s\<lparr>sq_worldState := (sq_worldState s)\<lparr>merkleTreeDb := w'\<rparr>\<rparr>)" for sender
    using r B(1) by (simp add: obind_def)
  have "\<exists>inputs. L2Block_encode b = Inr inputs"
    using built_encodes[OF ok B(3) _ tx_list_lengths[OF ps(1) w(3)] sample_logs[OF len ps(2)]] by (simp add: word_ok_def)
  from that[OF w(1) B(1) sample_state(1) run _ build_number[OF B(3)] built_calldata[OF B(3)] this] show thesis using s(3) by simp
qed

lemma sample_contracts:
  assumes "sender_emitContractDeploymentTx S 0 = (\<lambda>num h cs. Inr (map (\<lambda>i. if i = 2 then None else Some ''0x2'') [0..<length cs]))" "\<not> interruptedDuring S 0"
    and "L2Block_getCalldataHash (bb_sha256 B) block = Inr (Some h)" "sq_publisher s = new_L1Publisher"
  shows "publishContractPublicData (sample_sequencer_env B S) (map sample_private_tx ds) block s =
    Some (Inr (), s\<lparr>sq_state := SEQ_PUBLISHING_CONTRACT_DATA, sq_publisher := first_clock\<rparr>)"
  using assms no_contracts[of S "blk_number block" h] no_new_contracts[of ds]
  by (simp add: publishContractPublicData_def obind_def on_publisher_def set_state_def sample_sequencer_env_def)

text \<open>A private transaction with a given first nullifier.\<close>

definition spending_tx :: "kernel_public_inputs \<Rightarrow> int \<Rightarrow> tx" where
  "spending_tx d n = sample_private_tx (ptx_data (sample_tx d Fr_ZERO (new_Fr n)))"

lemma spending_tx_facts:
  assumes "KernelCircuitPublicInputs_empty = Inr d" "KernelCircuitPublicInputs_ok d" "0 < n" "n < 256"
  shows "nullifiers_ok (spending_tx d n)" "\<exists>h. Tx_getTxHash H (spending_tx d n) = Inr h \<and> hash_key h = n"
    "double_spend env w (spending_tx d n) \<longleftrightarrow> n \<in> world_nullifiers env True w"
proof -
  have n: "fr_value (new_Fr n) = n" "fr_ok (new_Fr n)" "fr_ok Fr_ZERO" using assms(3,4) by (simp_all add: new_Fr_def fr_ok_def Fr_ZERO_def)
  show "nullifiers_ok (spending_tx d n)" using n by (simp add: nullifiers_ok_def spending_tx_def sample_private_tx_def sample_tx_def)
  have b: "Fr_toBuffer (new_Fr n) = Inr (be_bytes 32 n)" using n assms(3,4) Fr_toBuffer_bytes[of "new_Fr n"] by simp
  have "hash_key \<lparr>th_buffer = be_bytes 32 n\<rparr> = n" using assms(3,4) by (simp add: hash_key_def be_val_be_bytes)
  then show "\<exists>h. Tx_getTxHash H (spending_tx d n) = Inr h \<and> hash_key h = n"
    using b by (simp add: Tx_getTxHash_def isPrivateTx_def spending_tx_def sample_private_tx_def sample_tx_def js_at_def new_TxHash_def length_be_bytes TxHash_SIZE_def)
  show "double_spend env w (spending_tx d n) \<longleftrightarrow> n \<in> world_nullifiers env True w"
    using n assms(3) by (auto simp: double_spend_def isPrivateTx_def spending_tx_def sample_private_tx_def sample_tx_def Fr_ZERO_def new_Fr_def)
qed

end
