(* ===== verification/SequencerProperties.thy ===== *)
theory SequencerProperties
  imports SequencerSample
begin

text \<open>
  The properties of the sequencer, each with a sample round: what a published block is, which transactions a round takes, that a failed round takes its changes of the
  trees back, and that a sequencer that has been stopped does not publish again.
\<close>



text \<open>C11. A failed round leaves nothing behind in the trees: when a round of the sequencer throws, wherever that happens (in a hash, in the public processor, in the middle
  of the updates of the trees by the block builder, in a circuit, or because the block could not be published), the error is caught, the round returns, no block counts as
  published, and the trees, read with or without pending changes, show exactly what was committed before the round.\<close>

theorem failed_round_rolls_back:
  assumes "world_inv env (trees_of s)" "work_body E s = Some (Inl err, s1)"
  shows "\<exists>s'. work E s = Some (Inr (), s') \<and> lastPublishedBlock s' = lastPublishedBlock s \<and>
    (\<forall>b. world_view env b (trees_of s') = world_view env False (trees_of s))"
proof -
  have k: "length (trees (trees_of s1)) = 8" "world_kept (trees_of s1) = world_kept (trees_of s)" and p: "lastPublishedBlock s1 = lastPublishedBlock s"
    using work_keeps(1,2)[OF assms(2)] assms(1) by (simp_all add: round_relations world_inv_def)
  obtain v where v: "MerkleTrees_rollback (trees_of s1) = (Inr (), v)" "\<And>b. world_view env b v = world_view env False (trees_of s)"
    using rollback_agrees[OF assms(1) k] by blast
  then show ?thesis using assms(2) p by (simp add: work_def on_trees_def Facade_rollback_def trees_of_def)
qed

theorem failed_round_rolls_back_witness:
  "\<exists>w ds B s'. work (sample_sequencer_env B (sample_sender\<lparr>sender_processTx := (\<lambda>n a. Inr None)\<rparr>)) (sample_sequencer w ds) = Some (Inr (), s') \<and>
    lastPublishedBlock s' = 0 \<and> (\<forall>b. world_view mem_env b (trees_of s') = world_view mem_env False w)"
proof -
  let ?S = "sample_sender\<lparr>sender_processTx := (\<lambda>n a. Inr None)\<rparr>"
  obtain w ds B block s h inputs where w: "world_inv mem_env w" and r: "\<And>sender. work_body (sample_sequencer_env B sender) (sample_sequencer w ds) =
       obind (publishContractPublicData (sample_sequencer_env B sender) (map sample_private_tx ds) block) (\<lambda>_. publishL2Block (sample_sequencer_env B sender) block) s"
    "sq_publisher s = new_L1Publisher" "L2Block_getCalldataHash (bb_sha256 B) block = Inr (Some h)" "L2Block_encode block = Inr inputs"
    by (rule sample_block_built) blast
  let ?E = "sample_sequencer_env B ?S"
  have c: "publishContractPublicData ?E (map sample_private_tx ds) block s = Some (Inr (), s\<lparr>sq_state := SEQ_PUBLISHING_CONTRACT_DATA, sq_publisher := first_clock\<rparr>)"
    using sample_contracts[of ?S B block h s ds] r(2,3) by (simp add: sample_sender_def)
  have "\<exists>q. publish_block_loop 9 ?S (blk_number block) \<lparr>l1_proof = [], l1_inputs = inputs\<rparr> first_clock = Some (False, q)"
    by (simp add: numeral_eq_Suc sendProcessTx_def await_def truthy_def checkFeeDistributorBalance_def first_clock_def sample_sender_def)
  then obtain q where "processL2Block 9 ?S block first_clock = Some (Inr False, q)" using r(4) by (auto simp: processL2Block_def)
  then have "\<exists>err s1. work_body ?E (sample_sequencer w ds) = Some (Inl err, s1)"
    using c by (simp add: r(1) obind_def publishL2Block_def on_publisher_def set_state_def) (simp add: sample_sequencer_env_def)
  then obtain err s1 where "work_body ?E (sample_sequencer w ds) = Some (Inl err, s1)" by blast
  from failed_round_rolls_back[OF _ this, of mem_env] w show ?thesis by (auto simp: sample_state)
qed

text \<open>C12. The sequencer takes transactions in the order of the pool until the block is full: from a prefix of the pending transactions, which is all of them when the block
  does not become full, it takes exactly those that spend no nullifier of the nullifier tree, and it deletes exactly the others, by their hashes, from the pool; nothing else
  changes. The check is against the nullifier tree as it is before the block.\<close>

theorem take_valid_txs:
  assumes "world_inv (bb_trees (sq_blockBuilder E)) (trees_of s)" "\<forall>v \<in> world_nullifiers (bb_trees (sq_blockBuilder E)) True (trees_of s). v < 256 ^ 32"
    and "\<forall>t \<in> set txs. nullifiers_ok t \<and> (\<exists>h. Tx_getTxHash (pr_hashes (sq_processor E)) t = Inr h)" "0 < maxTxsPerBlock s" "isReady (sq_p2pClient s)"
  shows "\<exists>taken rest valid spent hs s'. txs = taken @ rest \<and> valid = filter (\<lambda>t. \<not> double_spend (bb_trees (sq_blockBuilder E)) (trees_of s) t) taken \<and>
    spent = filter (double_spend (bb_trees (sq_blockBuilder E)) (trees_of s)) taken \<and>
    length valid \<le> maxTxsPerBlock s \<and> (rest = [] \<or> length valid = maxTxsPerBlock s) \<and>
    takeValidTxs E txs s = (Inr valid, s') \<and> Tx_getHashes (pr_hashes (sq_processor E)) spent = Inr hs \<and>
    svc_pool (pc_service (sq_p2pClient s')) = filter (\<lambda>(k, t). k \<notin> hash_key ` set hs) (svc_pool (pc_service (sq_p2pClient s))) \<and>
    s' = s\<lparr>sq_p2pClient := sq_p2pClient s'\<rparr>"
proof -
  let ?env = "bb_trees (sq_blockBuilder E)" and ?H = "pr_hashes (sq_processor E)" and ?w = "trees_of s" and ?m = "maxTxsPerBlock s"
  obtain taken rest where t: "txs = taken @ rest"
    "take_valid_loop ?H ?env ?m ?w txs [] [] [] = Inr (filter (\<lambda>t. \<not> double_spend ?env ?w t) taken, filter (double_spend ?env ?w) taken, [])"
    "length (filter (\<lambda>t. \<not> double_spend ?env ?w t) taken) \<le> ?m" "rest = [] \<or> length (filter (\<lambda>t. \<not> double_spend ?env ?w t) taken) = ?m"
    using take_loop[OF assms(1-3), of "[]" ?m "[]", unfolded append_Nil list.size(3) add_0] assms(4) by blast
  let ?valid = "filter (\<lambda>t. \<not> double_spend ?env ?w t) taken" and ?spent = "filter (double_spend ?env ?w) taken"
  have "\<forall>t \<in> set ?spent. \<exists>h. Tx_getTxHash ?H t = Inr h" using assms(3) t(1) by simp
  then obtain hs where hs: "Tx_getHashes ?H ?spent = Inr hs" "list_all hash_ok hs" using hashes_total_list by blast
  have "\<exists>s'. takeValidTxs E txs s = (Inr ?valid, s') \<and> s' = s\<lparr>sq_p2pClient := sq_p2pClient s'\<rparr> \<and>
    svc_pool (pc_service (sq_p2pClient s')) = filter (\<lambda>(k, t). k \<notin> hash_key ` set hs) (svc_pool (pc_service (sq_p2pClient s)))"
  proof (cases "?spent = []")
    case True
    then have "hs = []" using hs(1) by (simp add: Tx_getHashes_def)
    then show ?thesis using t(2) True by (simp add: takeValidTxs_def jbind_def)
  next
    case False
    obtain c where c: "client_deleteTxs hs (sq_p2pClient s) = (Inr (), c)"
      "svc_pool (pc_service c) = filter (\<lambda>(k, t). k \<notin> hash_key ` set hs) (svc_pool (pc_service (sq_p2pClient s)))"
      using client_deletes[OF assms(5) hs(2)] by blast
    then show ?thesis using t(2) False hs(1) by (simp add: takeValidTxs_def jbind_def deleteTxs_def on_p2p_def)
  qed
  then obtain s' where "takeValidTxs E txs s = (Inr ?valid, s')" "s' = s\<lparr>sq_p2pClient := sq_p2pClient s'\<rparr>"
    "svc_pool (pc_service (sq_p2pClient s')) = filter (\<lambda>(k, t). k \<notin> hash_key ` set hs) (svc_pool (pc_service (sq_p2pClient s)))" by blast
  then show ?thesis using t(1,3,4) hs(1) by (intro exI[of _ taken] exI[of _ rest] exI[of _ ?valid] exI[of _ ?spent] exI[of _ hs] exI[of _ s'] conjI refl)
qed

theorem take_valid_txs_witness:
  "\<exists>w d B s s'. KernelCircuitPublicInputs_empty = Inr d \<and> world_nullifiers mem_env True w = {0..7} \<and> trees_of s = w \<and>
    svc_pool (pc_service (sq_p2pClient s)) = [(9, spending_tx d 9), (3, spending_tx d 3)] \<and>
    takeValidTxs (sample_sequencer_env B sample_sender) [spending_tx d 9, spending_tx d 3] s = (Inr [spending_tx d 9], s') \<and>
    svc_pool (pc_service (sq_p2pClient s')) = [(9, spending_tx d 9)]"
proof -
  have none: "length ([] :: fr list) \<le> 16" "\<forall>m \<in> set []. fr_ok m" by simp_all
  obtain w d where "MerkleTrees_new mem_env [] = Inr w"
    and w: "world_inv mem_env w" "KernelCircuitPublicInputs_empty = Inr d" "KernelCircuitPublicInputs_ok d" "world_nullifiers mem_env True w = {0..7}"
    and "quad_ok mem_env w (sample_txs d) []" "\<forall>B. bb_trees B = mem_env \<longrightarrow> computeContractLeaf B = (\<lambda>_. Inr Fr_ZERO) \<longrightarrow> buildable B w (sample_txs d) []"
      "\<forall>b i. i \<notin> root_trees \<union> {NULLIFIER_TREE} \<longrightarrow> world_leaves mem_env b w i = ((\<lambda>_. INITIAL_LEAF), 0)"
    by (rule sample_quad[OF none])
  obtain B :: "(string \<times> buffer) list block_builder" where B: "bb_trees B = mem_env" by (rule sample_block_built) blast
  let ?E = "sample_sequencer_env B sample_sender" and ?t = "spending_tx d" and ?H = "pr_hashes (sq_processor (sample_sequencer_env B sample_sender))"
  define s where "s = (sample_sequencer w [])\<lparr>sq_p2pClient := (new_P2PClient 1 (empty_service\<lparr>svc_pool := [(9, ?t 9), (3, ?t 3)]\<rparr>))\<lparr>pc_currentState := P2P_RUNNING\<rparr>\<rparr>"
  have st: "trees_of s = w" "maxTxsPerBlock s = 32" "isReady (sq_p2pClient s)" "svc_pool (pc_service (sq_p2pClient s)) = [(9, ?t 9), (3, ?t 3)]"
    using sample_state[of w "[]"] by (simp_all add: s_def isReady_def new_P2PClient_def trees_of_def)
  have env: "bb_trees (sq_blockBuilder ?E) = mem_env" using B by (simp add: sample_sequencer_env_def)
  note f = spending_tx_facts[OF w(2,3)]
  obtain h3 where h3: "Tx_getTxHash ?H (?t 3) = Inr h3" "hash_key h3 = 3" using f(2)[of 3 ?H] by auto
  have ok: "\<forall>t \<in> set [?t 9, ?t 3]. nullifiers_ok t \<and> (\<exists>h. Tx_getTxHash ?H t = Inr h)" using f(1)[of 9] f(1)[of 3] f(2)[of 9 ?H] h3(1) by auto
  have spent: "\<not> double_spend mem_env w (?t 9)" "double_spend mem_env w (?t 3)" using f(3)[of 9 mem_env w] f(3)[of 3 mem_env w] by (simp_all add: w(4))
  have pre: "world_inv (bb_trees (sq_blockBuilder ?E)) (trees_of s)" "\<forall>v \<in> world_nullifiers (bb_trees (sq_blockBuilder ?E)) True (trees_of s). v < 256 ^ 32"
    "0 < maxTxsPerBlock s" using w(1,4) by (simp_all add: env st)
  obtain taken rest valid spent' hs s' where r: "[?t 9, ?t 3] = taken @ rest" "valid = filter (\<lambda>t. \<not> double_spend mem_env w t) taken"
    "spent' = filter (double_spend mem_env w) taken" "length valid \<le> 32" "rest = [] \<or> length valid = 32"
    "takeValidTxs ?E [?t 9, ?t 3] s = (Inr valid, s')" "Tx_getHashes ?H spent' = Inr hs"
    "svc_pool (pc_service (sq_p2pClient s')) = filter (\<lambda>(k, t). k \<notin> hash_key ` set hs) [(9, ?t 9), (3, ?t 3)]"
    using take_valid_txs[OF pre(1,2) ok pre(3) st(3), unfolded env st] by (elim exE conjE) (rule that)
  have "length valid \<le> length taken" "length taken + length rest = 2" using r(2) arg_cong[OF r(1), of length] by simp_all
  then have "rest = []" using r(5) by auto
  then have "taken = [?t 9, ?t 3]" using r(1) by simp
  then have v: "valid = [?t 9]" "spent' = [?t 3]" using r(2,3) spent by simp_all
  then have "hs = [h3]" using r(7) h3(1) by (simp add: Tx_getHashes_def)
  then have "svc_pool (pc_service (sq_p2pClient s')) = [(9, ?t 9)]" using r(8) h3(2) by simp
  then show ?thesis using w(2,4) st(1,4) r(6) v(1) by blast
qed

text \<open>C40. A sequencer that has been stopped does not publish again: \<open>stop\<close> interrupts the publisher and nothing takes that back, so that after any number of
  rounds, starts, stops and restarts, and whatever the pool, the world state and the archiver do in between, not one more call has been made to the L1 chain, and a
  round never moves the last published block.\<close>

theorem restarted_sequencer_never_publishes:
  assumes "(seq_step E)\<^sup>*\<^sup>* (sequencer_stop s) t"
  shows "sq_publisher t = (sq_publisher s)\<lparr>interrupted := True\<rparr> \<and> (\<forall>r t'. work E t = Some (r, t') \<longrightarrow> lastPublishedBlock t' = lastPublishedBlock t)"
proof -
  have p: "sq_publisher t = interrupt (sq_publisher s)" using stopped_sm.reachable_inv[OF assms] .
  then show ?thesis using work_silent[of E t] by (auto simp: interrupt_def publisher_silent_def)
qed

theorem restarted_sequencer_never_publishes_witness:
  "\<exists>w s t. MerkleTrees_new mem_env [] = Inr w \<and> s = sequencer_stop (sequencer_start (sample_sequencer w [])) \<and> sequencer_restart s = (Inr (), t) \<and>
    sq_polling t = Some True \<and> sq_publisher t = new_L1Publisher\<lparr>interrupted := True\<rparr>"
proof -
  obtain w where w: "MerkleTrees_new mem_env [] = Inr w" using sample_public_world by blast
  let ?s0 = "sequencer_start (sample_sequencer w [])"
  obtain t where t: "sequencer_restart (sequencer_stop ?s0) = (Inr (), t)" "sq_polling t = Some True"
    by (simp add: sequencer_restart_def sequencer_stop_def sequencer_start_def)
  fix E :: "(string \<times> buffer) list sequencer_env"
  have "(seq_step E)\<^sup>*\<^sup>* (sequencer_stop ?s0) t" using seq_step.restart[OF t(1)] by blast
  from restarted_sequencer_never_publishes[OF this] have "sq_publisher t = new_L1Publisher\<lparr>interrupted := True\<rparr>"
    by (simp add: sequencer_start_def initialSync_def sample_state)
  then show ?thesis using w t by blast
qed

end
