(* ===== verification/Spec2Isabelle.thy ===== *)
theory Spec2Isabelle
  imports IndexedTreeProperties CodecProperties SerialQueues WorldStateTypes WorldStateSync ArchiverProperties
    RollupCodecs P2PClient BlockBuilderProperties PublicProcessorProperties L1PublisherProperties SequencerProperties
begin

text \<open>
  A verification library of the TypeScript packages of the Aztec node, under \<^verbatim>\<open>src/yarn-project\<close>.

  \<^bold>\<open>The program.\<close> The archiver reads the rollup contract's logs on the base chain and keeps blocks, logs, contracts and
  messages. The block downloader polls it and hands batches of blocks to its clients through a bounded queue. The world-state
  synchroniser handles these blocks one by one on eight Merkle trees (commitments, contracts, nullifiers, public data,
  messages and three trees of historic roots), which share one key-value store. The trees are a sparse tree, append-only trees
  and an indexed tree, a sorted linked list inside a Merkle tree that proves absence. Everything that travels or is stored
  is encoded by the serialisation code of the package \<^verbatim>\<open>foundation\<close>. The arguments and results of the kernel and rollup circuits
  are classes of \<^verbatim>\<open>circuits.js\<close>. The P2P client keeps a pool of pending transactions, exchanges them with its peers through the P2P service, and
  drops those that a block of the downloader settles. The sequencer takes transactions from that pool, drops those whose nullifiers are spent, executes their
  public calls against the storage of contracts and runs the public kernel circuit over them (the public processor), builds a block and publishes it on the base
  chain (the publisher). Its block builder inserts the data of processed transactions into the trees,
  runs the rollup circuits over them and assembles the block that all nodes handle.

  \<^bold>\<open>Conventions.\<close> A function that may throw returns \<open>'a result = js_error + 'a\<close>; a method that changes its object is a
  \<open>('s, 'a) js = 's \<Rightarrow> 'a result \<times> 's\<close>, so that the state after an exception is that of the code (\<open>Prelude\<close>). Buffers are
  lists of bytes (\<open>8 word\<close>), \<open>bigint\<close> and \<open>number\<close> are \<open>int\<close>, with the rounding of \<open>Number(bigint)\<close> beyond 53 bits written out
  (\<open>js_Number\<close>). Asynchronous code is a state machine whose steps run from one \<open>await\<close> to the next, so that every interleaving is a
  sequence of steps; the locale \<open>state_machine\<close> gives reachability and invariants. Loops that need a client or a counter to end are
  \<open>partial_function (option)\<close> and proved to end.

  \<^bold>\<open>Theories and sources.\<close>

  \<^item> \<open>Prelude\<close>: results, the state monad, \<open>preserves\<close>, lists and numerals.
  \<^item> \<open>BigintBuffer\<close>, \<open>Serialize\<close>, \<open>BufferReader\<close> (\<^verbatim>\<open>foundation/src/bigint-buffer\<close>, \<^verbatim>\<open>serialize\<close>, \<^verbatim>\<open>collection\<close>): fixed-width integers, the
    serialiser and deserialiser, the buffer reader; the locale \<open>reader_codec\<close> is the contract of a class with \<open>toBuffer\<close> and \<open>fromBuffer\<close>.
  \<^item> \<open>FieldElements\<close> (\<^verbatim>\<open>fields\<close>, \<^verbatim>\<open>aztec-address\<close>, \<^verbatim>\<open>eth-address\<close>), \<open>CodecProperties\<close>: field elements, points, addresses; round trips.
  \<^item> \<open>SiblingPaths\<close>, \<open>MerkleTreeBase\<close>, \<open>SparseStandardTree\<close> (\<^verbatim>\<open>merkle-tree/src\<close>): \<open>TreeBase\<close> with its cache and store, the sparse and the
    append-only tree; roots, sibling paths, commit, rollback and reload against leaf functions and Merkle roots.
  \<^item> \<open>IndexedTree\<close>, \<open>SortedLinks\<close>, \<open>IndexedTreeProofs\<close>, \<open>BatchInsertion\<close>, \<open>IndexedTreeProperties\<close> (\<^verbatim>\<open>standard_indexed_tree.ts\<close>): the linked list
    and its invariant, appending, batch insertion and its low-leaf witnesses.
  \<^item> \<open>Fifo\<close>, \<open>SerialQueues\<close> (\<^verbatim>\<open>foundation/src/fifo\<close>): queues, semaphores, serial queues as state machines.
  \<^item> \<open>L2Logs\<close>, \<open>L2Block\<close>, \<open>L2BlockProperties\<close> (\<^verbatim>\<open>types/src\<close>): logs, blocks, their encodings and hashes.
  \<^item> \<open>WorldState\<close>, \<open>WorldStateFrames\<close>, \<open>WorldStateProofs\<close>, \<open>WorldStateProperties\<close>, \<open>WorldStateTypes\<close> (\<^verbatim>\<open>world-state/src\<close>): the eight trees over one
    store, each job and \<open>handleL2Block\<close>; the locale \<open>tree_frame\<close> collects what every method leaves alone.
  \<^item> \<open>BlockDownloader\<close>, \<open>WorldStateSync\<close> (\<^verbatim>\<open>types/src/l2_block_downloader\<close>, \<^verbatim>\<open>world-state/src/synchroniser\<close>): the composition that follows the chain.
  \<^item> \<open>L1Messages\<close>, \<open>Archiver\<close>, \<open>ArchiverProperties\<close> (\<^verbatim>\<open>types/src/l1_to_l2_message.ts\<close>, \<^verbatim>\<open>archiver/src/archiver\<close>): messages, the store, log
    handlers, retrieval loops and \<open>sync\<close>; the locale \<open>block_source\<close> is what the downloader relies on.
  \<^item> \<open>StructCodec\<close>, \<open>KernelStructs\<close>, \<open>KernelCodecs\<close>, \<open>CallStructs\<close>, \<open>CallCodecs\<close>, \<open>RollupStructs\<close>, \<open>RollupCodecs\<close> (\<^verbatim>\<open>circuits.js/src/structs\<close>): the data of the
    circuits. \<open>encodes\<close> is the contract of an encoding and a reader; its rules follow the structure of a class, so that every class has
    a round trip, and a class without a reader has an injective, prefix-free encoding.
  \<^item> \<open>Transactions\<close> (\<^verbatim>\<open>types/src/tx.ts\<close>, \<^verbatim>\<open>tx_execution_request.ts\<close>, \<^verbatim>\<open>l2_block_context.ts\<close>), \<open>TxMessages\<close>, \<open>TxPool\<close>, \<open>P2PService\<close>, \<open>P2PProperties\<close>,
    \<open>P2PClient\<close> (\<^verbatim>\<open>p2p/src\<close>): transactions, the messages between nodes (locale \<open>message_codec\<close>), the pool, the handlers and jobs of the service, and the
    client as a state machine with the downloader: exchange and propagation of transactions, settlement, following the chain.
  \<^item> \<open>SoloBlockBuilder\<close>, \<open>BlockBuilderProofs\<close>, \<open>BlockBuilderEffects\<close>, \<open>RollupTree\<close>, \<open>BlockBuilderSample\<close>, \<open>BlockBuilderProperties\<close>
    (\<^verbatim>\<open>sequencer-client/src/block_builder\<close>, \<^verbatim>\<open>prover\<close>): the block builder over the trees; what a block holds, that the node that built it and a node that
    handles it agree, what is refused, and the tree of rollups.
  \<^item> \<open>AcvmFields\<close>, \<open>PublicExecution\<close>, \<open>PublicExecutionProperties\<close> (\<^verbatim>\<open>acir-simulator/src/acvm\<close>, \<^verbatim>\<open>acir-simulator/src/public\<close>, \<^verbatim>\<open>sequencer-client/src/simulator/public_executor.ts\<close>):
    the fields of the ACVM, the execution of public functions with their nested calls, the cache of writes and the collector of storage actions, which refines
    plain storage as long as a contract does not call itself.
  \<^item> \<open>PublicProcessor\<close>, \<open>PublicProcessorProperties\<close> (\<^verbatim>\<open>sequencer/public_processor.ts\<close>, \<^verbatim>\<open>processed_tx.ts\<close>, \<^verbatim>\<open>simulator/public_kernel.ts\<close>): the execution
    stack and its order, the call data against the check of the kernel circuit, processed and failed transactions.
  \<^item> \<open>L1Publisher\<close>, \<open>L1PublisherProperties\<close> (\<^verbatim>\<open>publisher/l1-publisher.ts\<close>): the loops that publish blocks and contracts, receipts and interrupts.
  \<^item> \<open>Sequencer\<close>, \<open>PendingChanges\<close>, \<open>SequencerRounds\<close>, \<open>SequencerSample\<close>, \<open>SequencerProperties\<close> (\<^verbatim>\<open>sequencer/sequencer.ts\<close>): one round of the sequencer over the models
    of the other components. The locale \<open>round_frame\<close> is what every stage of a round keeps (what the trees have committed, the store); from it, that a failed
    round leaves no pending change, that a published block is the one built from the chosen transactions, which transactions are chosen and dropped, and what a
    restarted sequencer does.

  \<^bold>\<open>Parameters.\<close> Hash functions (Pedersen, sha256, keccak), the key-value store (with the law \<open>levelup_ok\<close>: a read returns the
  last write), random bytes, the simulation of the kernel and rollup circuits, the ACVM, the client of the base chain and the sender of its
  transactions, libp2p
  (connected peers, whether a peer can be reached) and \<open>cloneDeep\<close> of lodash are arguments; their laws are named hypotheses with witnesses.

  \<^bold>\<open>Bounds.\<close> The depth of a tree is between 1 and \<open>MAX_DEPTH\<close>, as in the constructor of \<open>TreeBase\<close>; leaf indices of the indexed tree stay
  below \<open>2 ^ 53\<close>, where \<open>js_Number\<close> is exact. Computations that may not end are in \<open>ojs\<close>, with a bound on the depth of public calls and on the rounds of the publisher;
  \<open>execution_terminates\<close> and \<open>publisher_reports_receipt\<close> say when a bound is enough, and the processor is shown to return under the same ranking of calls
  (\<open>depth_enough\<close>). The hash of arguments throws above \<open>MAX_HASHED_ARGS\<close>, so statements about calls bound their number (\<open>call_sized\<close>).

  \<^bold>\<open>Not modelled.\<close> The C++ circuits, Solidity and Noir sources, generated bindings, WebAssembly glue, servers, command line and
  tests: other languages, generated code or I/O. Of the sequencer, the timer of its polling and the interleaving of a round with the other components; of the world-state
  synchroniser and the P2P client, a second \<open>start()\<close> or a \<open>stop()\<close> issued while a \<open>start()\<close> still awaits the height of the chain; the
  private execution and the wallet (\<^verbatim>\<open>acir-simulator/src/client\<close>, \<^verbatim>\<open>aztec-rpc\<close>), which rest on key stores, randomness and the ACVM.
\<close>

end
